(* ===== verification/Prelude.thy ===== *)
theory Prelude
  imports Main "HOL-Library.Char_ord" "HOL-Library.List_Lexorder"
begin

text \<open>
  Shared vocabulary of the development. Results that may fail are values of a sum type
  (\<open>Inl\<close> the error, \<open>Inr\<close> the value), sequenced by \<open>bindE\<close>; a guard that raises is
  \<open>require\<close>. Tables and histories are lists searched with \<open>find\<close>. The collection
  \<open>res_simps\<close> holds the inversion facts that let a proof read off, from a successful run,
  every guard the code checked.
\<close>

named_theorems res_simps "inversion of successful and failing runs"

section \<open>Results\<close>

definition bindE :: "'e + 'a \<Rightarrow> ('a \<Rightarrow> 'e + 'b) \<Rightarrow> 'e + 'b" where
  "bindE m f = (case m of Inl e \<Rightarrow> Inl e | Inr x \<Rightarrow> f x)"

definition require :: "bool \<Rightarrow> 'e \<Rightarrow> 'e + unit" where
  "require b e = (if b then Inr () else Inl e)"

lemma bindE_simps [simp]:
  "bindE (Inl e) f = Inl e"
  "bindE (Inr x) f = f x"
  by (simp_all add: bindE_def)

lemma bindE_Inr [res_simps]: "bindE m f = Inr y \<longleftrightarrow> (\<exists>x. m = Inr x \<and> f x = Inr y)"
  by (cases m) simp_all

lemma bindE_Inl [res_simps]:
  "bindE m f = Inl e \<longleftrightarrow> m = Inl e \<or> (\<exists>x. m = Inr x \<and> f x = Inl e)"
  by (cases m) simp_all

lemma require_Inr [simp, res_simps]: "require b e = Inr u \<longleftrightarrow> b"
  by (simp add: require_def)

lemma require_Inl [simp, res_simps]: "require b e = Inl e' \<longleftrightarrow> \<not> b \<and> e' = e"
  by (auto simp: require_def)

lemma require_True [simp]: "require True e = Inr ()"
  by (simp add: require_def)

lemma require_False [simp]: "require False e = Inl e"
  by (simp add: require_def)

lemma bindE_cong [fundef_cong]:
  "m = m' \<Longrightarrow> (\<And>x. m' = Inr x \<Longrightarrow> f x = f' x) \<Longrightarrow> bindE m f = bindE m' f'"
  by (cases m') simp_all

text \<open>As a simplifier rule: the continuation is left alone until its argument is known.\<close>

lemma bindE_weak_cong: "m = m' \<Longrightarrow> bindE m f = bindE m' f"
  by simp

lemma bindE_assoc: "bindE (bindE m f) g = bindE m (\<lambda>x. bindE (f x) g)"
  by (cases m) simp_all

fun mapE :: "('a \<Rightarrow> 'e + 'b) \<Rightarrow> 'a list \<Rightarrow> 'e + 'b list" where
  "mapE f [] = Inr []"
| "mapE f (x # xs) = bindE (f x) (\<lambda>y. bindE (mapE f xs) (\<lambda>ys. Inr (y # ys)))"

lemma mapE_Inr_length: "mapE f xs = Inr ys \<Longrightarrow> length ys = length xs"
  by (induction xs arbitrary: ys) (auto simp: res_simps)

lemma mapE_Inr_nth:
  "mapE f xs = Inr ys \<Longrightarrow> i < length xs \<Longrightarrow> f (xs ! i) = Inr (ys ! i)"
proof (induction xs arbitrary: ys i)
  case (Cons x xs)
  then show ?case by (cases i) (auto simp: res_simps)
qed simp

lemma mapE_cong [fundef_cong]:
  "xs = ys \<Longrightarrow> (\<And>x. x \<in> set ys \<Longrightarrow> f x = g x) \<Longrightarrow> mapE f xs = mapE g ys"
  by (induction ys arbitrary: xs) auto

text \<open>All errors of a computation satisfy a predicate; proved along its structure.\<close>

definition errors_in :: "('e \<Rightarrow> bool) \<Rightarrow> 'e + 'a \<Rightarrow> bool" where
  "errors_in P m \<longleftrightarrow> (\<forall>e. m = Inl e \<longrightarrow> P e)"

named_theorems err_intros "errors of composed computations"

lemma errors_in_bindE [err_intros]:
  "errors_in P m \<Longrightarrow> (\<And>x. errors_in P (f x)) \<Longrightarrow> errors_in P (bindE m f)"
  by (cases m) (auto simp: errors_in_def)

lemma errors_in_require [err_intros]: "P e \<Longrightarrow> errors_in P (require b e)"
  by (simp add: errors_in_def)

lemma errors_in_Inr [err_intros]: "errors_in P (Inr x)"
  by (simp add: errors_in_def)

lemma errors_in_Inl [err_intros]: "P e \<Longrightarrow> errors_in P (Inl e)"
  by (simp add: errors_in_def)

lemma errors_in_if [err_intros]:
  "errors_in P m \<Longrightarrow> errors_in P n \<Longrightarrow> errors_in P (if b then m else n)"
  by simp

lemma errors_in_option [err_intros]:
  "errors_in P m \<Longrightarrow> (\<And>x. errors_in P (f x)) \<Longrightarrow> errors_in P (case v of None \<Rightarrow> m | Some x \<Rightarrow> f x)"
  by (cases v) simp_all

lemma errors_in_prod [err_intros]:
  "(\<And>x y. errors_in P (f x y)) \<Longrightarrow> errors_in P (case p of (x, y) \<Rightarrow> f x y)"
  by (cases p) simp

lemma errors_in_mapE [err_intros]: "(\<And>x. errors_in P (f x)) \<Longrightarrow> errors_in P (mapE f xs)"
  by (induction xs) (auto intro!: err_intros)

lemma errors_inD: "errors_in P m \<Longrightarrow> m = Inl e \<Longrightarrow> P e"
  by (simp add: errors_in_def)

section \<open>Tables searched by a key\<close>

lemma find_key_Some:
  "find P xs = Some x \<Longrightarrow> x \<in> set xs \<and> P x"
  by (induction xs) (auto split: if_splits)

lemma find_key_None: "find P xs = None \<longleftrightarrow> (\<forall>x \<in> set xs. \<not> P x)"
  by (induction xs) auto

lemma find_unique:
  assumes "distinct (map k xs)" and "x \<in> set xs" and "k x = key"
  shows "find (\<lambda>y. k y = key) xs = Some x"
  using assms
proof (induction xs)
  case (Cons y ys)
  then show ?case by (auto simp: image_iff)
qed simp

lemma find_append:
  "find P (xs @ ys) = (case find P xs of None \<Rightarrow> find P ys | Some x \<Rightarrow> Some x)"
  by (induction xs) auto

section \<open>Updating the row with a given key\<close>

definition update_where :: "('a \<Rightarrow> bool) \<Rightarrow> ('a \<Rightarrow> 'a) \<Rightarrow> 'a list \<Rightarrow> 'a list" where
  "update_where P f xs = map (\<lambda>x. if P x then f x else x) xs"

lemma map_update_where:
  "(\<And>x. P x \<Longrightarrow> k (f x) = k x) \<Longrightarrow> map k (update_where P f xs) = map k xs"
  by (simp add: update_where_def)

lemma set_update_where:
  "set (update_where P f xs) = f ` {x \<in> set xs. P x} \<union> {x \<in> set xs. \<not> P x}"
  by (auto simp: update_where_def image_iff)

lemma update_where_keeps:
  "(\<And>x. k (f x) = k x) \<Longrightarrow> x \<in> set xs \<Longrightarrow> \<exists>y \<in> set (update_where P f xs). k y = k x"
  by (intro bexI [of _ "if P x then f x else x"]) (auto simp: update_where_def)

lemma length_update_where [simp]: "length (update_where P f xs) = length xs"
  by (simp add: update_where_def)

lemma find_update_where:
  assumes "\<And>x. P x \<longleftrightarrow> k x = key" and "\<And>x. k x = key \<Longrightarrow> k (f x) = k x"
  shows "find (\<lambda>x. k x = key') (update_where P f xs) =
    (if key' = key then map_option f (find (\<lambda>x. k x = key') xs)
     else find (\<lambda>x. k x = key') xs)"
  using assms by (induction xs) (auto simp: update_where_def)

section \<open>Sums over rows\<close>

lemma sum_list_update_where:
  fixes v :: "'a \<Rightarrow> int"
  assumes "distinct (map k xs)" and "r \<in> set xs"
  shows "sum_list (map v (update_where (\<lambda>x. k x = k r) f xs)) =
    sum_list (map v xs) - v r + v (f r)"
  using assms
proof (induction xs)
  case (Cons x xs)
  show ?case
  proof (cases "k x = k r")
    case True
    with Cons.prems have "x = r" and other: "\<forall>y \<in> set xs. k y \<noteq> k r"
      by (auto simp: image_iff)
    from other have "update_where (\<lambda>x. k x = k r) f xs = xs"
      by (simp add: update_where_def map_idI)
    with \<open>x = r\<close> show ?thesis by (simp add: update_where_def)
  next
    case False
    with Cons show ?thesis by (auto simp: update_where_def)
  qed
qed simp

lemma sum_list_map_update_nth:
  fixes v :: "'a \<Rightarrow> int"
  shows "i < length xs \<Longrightarrow> sum_list (map v (xs[i := x])) = sum_list (map v xs) - v (xs ! i) + v x"
proof (induction xs arbitrary: i)
  case (Cons y ys)
  then show ?case by (cases i) auto
qed simp

lemma sum_list_nonneg_map: "(\<And>x. x \<in> set xs \<Longrightarrow> 0 \<le> (v x :: int)) \<Longrightarrow> 0 \<le> sum_list (map v xs)"
  by (induction xs) auto

lemma sum_list_mono_map:
  "(\<And>x. x \<in> set xs \<Longrightarrow> (v x :: int) \<le> w x) \<Longrightarrow> sum_list (map v xs) \<le> sum_list (map w xs)"
  by (induction xs) (auto intro: add_mono)

section \<open>Characters\<close>

definition is_digit :: "char \<Rightarrow> bool" where
  "is_digit c \<longleftrightarrow> CHR ''0'' \<le> c \<and> c \<le> CHR ''9''"

definition is_lower :: "char \<Rightarrow> bool" where
  "is_lower c \<longleftrightarrow> CHR ''a'' \<le> c \<and> c \<le> CHR ''z''"

definition is_upper :: "char \<Rightarrow> bool" where
  "is_upper c \<longleftrightarrow> CHR ''A'' \<le> c \<and> c \<le> CHR ''Z''"

definition is_alnum :: "char \<Rightarrow> bool" where
  "is_alnum c \<longleftrightarrow> is_digit c \<or> is_lower c \<or> is_upper c"

definition is_hex :: "char \<Rightarrow> bool" where
  "is_hex c \<longleftrightarrow> is_digit c \<or> (CHR ''a'' \<le> c \<and> c \<le> CHR ''f'')"

section \<open>Splitting texts\<close>

text \<open>Python's \<open>text.split(sep)\<close> for a one-character separator.\<close>

fun split_on :: "'a \<Rightarrow> 'a list \<Rightarrow> 'a list list" where
  "split_on sep [] = [[]]"
| "split_on sep (c # cs) =
    (if c = sep then [] # split_on sep cs
     else case split_on sep cs of [] \<Rightarrow> [[c]] | w # ws \<Rightarrow> (c # w) # ws)"

lemma split_on_nonempty [simp]: "split_on sep xs \<noteq> []"
  by (induction xs) (auto split: list.splits)

lemma split_on_word: "sep \<notin> set w \<Longrightarrow> split_on sep w = [w]"
  by (induction w) auto

lemma split_on_cons: "sep \<notin> set w \<Longrightarrow> split_on sep (w @ sep # rest) = w # split_on sep rest"
  by (induction w) auto

lemma length_split_on: "length s + 1 = sum_list (map length (split_on c s)) + length (split_on c s)"
  by (induction s) (auto split: list.splits)

section \<open>State machines\<close>

inductive reach :: "('s \<Rightarrow> bool) \<Rightarrow> ('s \<Rightarrow> 's \<Rightarrow> bool) \<Rightarrow> 's \<Rightarrow> bool"
  for init :: "'s \<Rightarrow> bool" and step :: "'s \<Rightarrow> 's \<Rightarrow> bool" where
  reach_init: "init s \<Longrightarrow> reach init step s"
| reach_step: "reach init step s \<Longrightarrow> step s t \<Longrightarrow> reach init step t"

text \<open>
  A component that keeps an invariant: what every durable store of the program promises of
  its transactions. A client proves the two laws for its step relation and gets the invariant
  of all reachable states, also along runs that start in a reachable state.
\<close>

locale invariant_system =
  fixes init :: "'s \<Rightarrow> bool" and step :: "'s \<Rightarrow> 's \<Rightarrow> bool" and inv :: "'s \<Rightarrow> bool"
  assumes inv_init: "init s \<Longrightarrow> inv s"
    and inv_step: "inv s \<Longrightarrow> step s t \<Longrightarrow> inv t"
begin

lemma reach_inv: "reach init step s \<Longrightarrow> inv s"
  by (induction rule: reach.induct) (auto intro: inv_init inv_step)

lemma steps_inv: "step\<^sup>*\<^sup>* s t \<Longrightarrow> inv s \<Longrightarrow> inv t"
  by (induction rule: rtranclp_induct) (auto intro: inv_step)

end

text \<open>
  A component whose states only grow along a preorder, for instance an append-only log.
\<close>

locale monotone_system = invariant_system +
  fixes rel :: "'s \<Rightarrow> 's \<Rightarrow> bool"
  assumes rel_refl: "rel s s"
    and rel_trans: "rel s t \<Longrightarrow> rel t u \<Longrightarrow> rel s u"
    and rel_step: "inv s \<Longrightarrow> step s t \<Longrightarrow> rel s t"
begin

lemma steps_rel:
  assumes "step\<^sup>*\<^sup>* s t" and "inv s"
  shows "rel s t"
  using assms
proof (induction rule: rtranclp_induct)
  case base
  show ?case by (rule rel_refl)
next
  case (step t u)
  then have "inv t" by (blast intro: steps_inv)
  with step show ?case by (blast intro: rel_trans rel_step)
qed

lemma reach_rel: "reach init step s \<Longrightarrow> step\<^sup>*\<^sup>* s t \<Longrightarrow> rel s t"
  by (blast intro: steps_rel reach_inv)

end

end
