(* ===== verification/PyJson.thy ===== *)
theory PyJson
  imports Prelude
begin

text \<open>
  Python values as the validators and the event payloads see them, and the text that
  \<open>json.dumps(value, sort_keys=True, separators=(",", ":"), ensure_ascii=True)\<close> writes for
  them (\<open>canonical\<close> in \<open>secure_agent/cost_contract.py\<close> and its siblings). Strings hold code
  points below 256. The digests and the replay checks of the program compare this text, so the
  theory proves that it determines the value up to the order of dictionary keys.
\<close>

section \<open>Values\<close>

datatype pyval =
    PNone
  | PBool bool
  | PInt int
  | PStr string
  | PList "pyval list"
  | PDict "(string \<times> pyval) list"

section \<open>Decimal numbers\<close>

definition digit_char :: "nat \<Rightarrow> char" where
  "digit_char n = char_of (48 + n)"

function show_pos :: "int \<Rightarrow> string" where
  "show_pos i = (if i < 10 then [digit_char (nat i)] else show_pos (i div 10) @ [digit_char (nat (i mod 10))])"
  by pat_completeness auto
termination by (relation "measure nat") auto

declare show_pos.simps [simp del]

definition show_int :: "int \<Rightarrow> string" where
  "show_int i = (if i < 0 then CHR ''-'' # show_pos (- i) else show_pos i)"

fun read_nat :: "nat \<Rightarrow> string \<Rightarrow> nat" where
  "read_nat acc [] = acc"
| "read_nat acc (c # cs) = read_nat (acc * 10 + (of_char c - 48)) cs"

lemma read_nat_append: "read_nat acc (xs @ ys) = read_nat (read_nat acc xs) ys"
  by (induction xs arbitrary: acc) auto

lemma of_digit_char: "n < 10 \<Longrightarrow> (of_char (digit_char n) :: nat) = 48 + n"
  by (simp add: digit_char_def)

lemma read_show_pos: "0 \<le> i \<Longrightarrow> read_nat 0 (show_pos i) = nat i"
proof (induction i rule: show_pos.induct)
  case (1 i)
  show ?case
  proof (cases "i < 10")
    case True
    with 1 show ?thesis by (simp add: show_pos.simps [of i] of_digit_char)
  next
    case False
    with 1 have "read_nat 0 (show_pos (i div 10)) = nat (i div 10)" by simp
    with False show ?thesis
      by (simp add: show_pos.simps [of i] of_digit_char read_nat_append nat_div_distrib nat_mod_distrib)
  qed
qed

lemma is_digit_iff: "is_digit c \<longleftrightarrow> 48 \<le> (of_char c :: nat) \<and> (of_char c :: nat) \<le> 57"
  by (simp add: is_digit_def less_eq_char_def)

lemma is_digit_digit_char: "n < 10 \<Longrightarrow> is_digit (digit_char n)"
  by (simp add: is_digit_iff of_digit_char)

lemma show_pos_digits: "0 \<le> i \<Longrightarrow> \<forall>c \<in> set (show_pos i). is_digit c"
proof (induction i rule: show_pos.induct)
  case (1 i)
  show ?case
  proof (cases "i < 10")
    case True
    with 1 show ?thesis by (simp add: show_pos.simps [of i] is_digit_digit_char)
  next
    case False
    with 1 have "\<forall>c \<in> set (show_pos (i div 10)). is_digit c" by simp
    with False show ?thesis by (simp add: show_pos.simps [of i] is_digit_digit_char)
  qed
qed

lemma show_pos_nonempty: "show_pos i \<noteq> []"
  by (simp add: show_pos.simps [of i])

lemma show_pos_inj: "0 \<le> i \<Longrightarrow> 0 \<le> j \<Longrightarrow> show_pos i = show_pos j \<longleftrightarrow> i = j"
  by (metis read_show_pos nat_eq_iff2)

section \<open>Escaped strings\<close>

definition hex_char :: "nat \<Rightarrow> char" where
  "hex_char n = char_of (if n < 10 then 48 + n else 87 + n)"

definition escape_char :: "char \<Rightarrow> string" where
  "escape_char c =
    (if c = CHR 0x22 then [CHR 0x5C, CHR 0x22]
     else if c = CHR 0x5C then [CHR 0x5C, CHR 0x5C]
     else if c = CHR 0x08 then [CHR 0x5C, CHR ''b'']
     else if c = CHR 0x0C then [CHR 0x5C, CHR ''f'']
     else if c = CHR 0x0A then [CHR 0x5C, CHR ''n'']
     else if c = CHR 0x0D then [CHR 0x5C, CHR ''r'']
     else if c = CHR 0x09 then [CHR 0x5C, CHR ''t'']
     else if CHR '' '' \<le> c \<and> c \<le> CHR ''~'' then [c]
     else [CHR 0x5C, CHR ''u'', CHR ''0'', CHR ''0'',
           hex_char (of_char c div 16), hex_char (of_char c mod 16)])"

definition json_string :: "string \<Rightarrow> string" where
  "json_string s = CHR 0x22 # concat (map escape_char s) @ [CHR 0x22]"

definition unhex_char :: "char \<Rightarrow> nat" where
  "unhex_char c = (if is_digit c then of_char c - 48 else of_char c - 87)"

fun unescape :: "string \<Rightarrow> (char \<times> string) option" where
  "unescape [] = None"
| "unescape (c # cs) =
    (if c \<noteq> CHR 0x5C then Some (c, cs)
     else case cs of
       [] \<Rightarrow> None
     | e # r \<Rightarrow>
        (if e = CHR ''u'' then
           (case r of
              _ # _ # a # b # r' \<Rightarrow> Some (char_of (16 * unhex_char a + unhex_char b), r')
            | _ \<Rightarrow> None)
         else if e = CHR ''b'' then Some (CHR 0x08, r)
         else if e = CHR ''f'' then Some (CHR 0x0C, r)
         else if e = CHR ''n'' then Some (CHR 0x0A, r)
         else if e = CHR ''r'' then Some (CHR 0x0D, r)
         else if e = CHR ''t'' then Some (CHR 0x09, r)
         else Some (e, r)))"

lemma unhex_hex_char: "n < 16 \<Longrightarrow> unhex_char (hex_char n) = n"
  by (simp add: unhex_char_def hex_char_def is_digit_iff)

lemma of_char_lt: "(of_char (c :: char) :: nat) < 256"
  by simp

lemma unescape_escape_char: "unescape (escape_char c @ xs) = Some (c, xs)"
proof -
  have "(of_char c :: nat) div 16 < 16"
    using of_char_lt [of c] by linarith
  then show ?thesis
    by (simp add: escape_char_def unhex_hex_char)
qed

lemma escape_char_prefix: "escape_char c @ xs = escape_char d @ ys \<Longrightarrow> c = d \<and> xs = ys"
  by (metis unescape_escape_char option.inject prod.inject)

lemma escape_char_head: "escape_char c @ xs \<noteq> CHR 0x22 # ys"
  by (auto simp: escape_char_def)

lemma escape_chars_prefix:
  "concat (map escape_char s) @ CHR 0x22 # xs = concat (map escape_char t) @ CHR 0x22 # ys
    \<Longrightarrow> s = t \<and> xs = ys"
proof (induction s arbitrary: t)
  case Nil
  then show ?case
    by (cases t) (use escape_char_head [THEN not_sym] in \<open>auto\<close>)
next
  case (Cons c s)
  show ?case
  proof (cases t)
    case Nil
    with Cons.prems show ?thesis using escape_char_head by auto
  next
    case (Cons d t')
    with Cons.prems have "escape_char c @ concat (map escape_char s) @ CHR 0x22 # xs
        = escape_char d @ concat (map escape_char t') @ CHR 0x22 # ys" by simp
    then have "c = d" and "concat (map escape_char s) @ CHR 0x22 # xs
        = concat (map escape_char t') @ CHR 0x22 # ys" by (auto dest: escape_char_prefix)
    with Cons.IH Cons show ?thesis by auto
  qed
qed

lemma json_string_prefix: "json_string s @ xs = json_string t @ ys \<Longrightarrow> s = t \<and> xs = ys"
  by (auto simp: json_string_def dest: escape_chars_prefix)

lemma json_string_inj: "json_string s = json_string t \<longleftrightarrow> s = t"
  using json_string_prefix [of s "[]" t "[]"] by auto

section \<open>Canonical text\<close>

fun join :: "string \<Rightarrow> string list \<Rightarrow> string" where
  "join sep [] = []"
| "join sep [x] = x"
| "join sep (x # y # xs) = x @ sep @ join sep (y # xs)"

primrec dumps :: "pyval \<Rightarrow> string" where
  "dumps PNone = ''null''"
| "dumps (PBool b) = (if b then ''true'' else ''false'')"
| "dumps (PInt i) = show_int i"
| "dumps (PStr s) = json_string s"
| "dumps (PList xs) = ''['' @ join '','' (map dumps xs) @ '']''"
| "dumps (PDict kvs) =
    ''{'' @ join '','' (map (\<lambda>kv. json_string (fst kv) @ '':'' @ snd kv)
      (map (map_prod id dumps) kvs)) @ ''}''"

primrec sort_keys :: "pyval \<Rightarrow> pyval" where
  "sort_keys PNone = PNone"
| "sort_keys (PBool b) = PBool b"
| "sort_keys (PInt i) = PInt i"
| "sort_keys (PStr s) = PStr s"
| "sort_keys (PList xs) = PList (map sort_keys xs)"
| "sort_keys (PDict kvs) = PDict (sort_key fst (map (map_prod id sort_keys) kvs))"

definition canonical :: "pyval \<Rightarrow> string" where
  "canonical v = dumps (sort_keys v)"

definition stops :: "string \<Rightarrow> bool" where
  "stops r \<longleftrightarrow> r = [] \<or> hd r \<in> set '',]}''"

definition separable :: "('a \<Rightarrow> string) \<Rightarrow> 'a \<Rightarrow> bool" where
  "separable f x \<longleftrightarrow> (\<forall>y r s. stops r \<longrightarrow> stops s \<longrightarrow> f x @ r = f y @ s \<longrightarrow> x = y \<and> r = s)"

lemma separableD:
  "separable f x \<Longrightarrow> f x @ r = f y @ s \<Longrightarrow> stops r \<Longrightarrow> stops s \<Longrightarrow> x = y \<and> r = s"
  by (simp add: separable_def)

lemma join_Cons: "join sep (x # xs) = x @ (if xs = [] then [] else sep @ join sep xs)"
  by (cases xs) simp_all

lemma join_head:
  "\<forall>x \<in> set xs. x \<noteq> [] \<and> hd x \<noteq> c \<Longrightarrow> xs \<noteq> [] \<Longrightarrow> join sep xs \<noteq> [] \<and> hd (join sep xs) \<noteq> c"
  by (cases xs) (auto simp: join_Cons)

lemma head_neq: "xs \<noteq> [] \<and> hd xs \<noteq> c \<Longrightarrow> xs @ t \<noteq> c # r"
  by (cases xs) auto

lemma join_separable:
  assumes elems: "\<forall>x \<in> set xs. separable f x"
    and heads: "\<forall>x. f x \<noteq> [] \<and> hd (f x) \<noteq> c"
    and c: "c \<in> set '']}''"
    and eq: "join '','' (map f xs) @ c # r = join '','' (map f ys) @ c # s"
  shows "xs = ys \<and> r = s"
  using elems eq
proof (induction xs arbitrary: ys)
  case Nil
  show ?case
  proof (cases ys)
    case (Cons y ys')
    with Nil.prems have "f y @ (if ys' = [] then [] else '','' @ join '','' (map f ys')) @ c # s = c # r"
      by (simp add: join_Cons)
    with heads show ?thesis using head_neq [of "f y" c] by simp
  qed (use Nil.prems in simp)
next
  case (Cons x xs)
  show ?case
  proof (cases ys)
    case Nil
    with Cons.prems have "hd (f x) = c"
      using heads by (cases "f x") (auto simp: join_Cons)
    with heads show ?thesis by simp
  next
    case (Cons y ys')
    define rest where "rest zs t = (if zs = [] then [] else '','' @ join '','' (map f zs)) @ c # t" for zs t
    have "f x @ rest xs r = f y @ rest ys' s"
      using Cons.prems(2) Cons by (simp add: join_Cons rest_def)
    moreover have "stops (rest zs t)" for zs t
      using c by (auto simp: rest_def stops_def)
    ultimately have "x = y" and rest: "rest xs r = rest ys' s"
      using Cons.prems(1) separableD [of f x] by auto
    have "(xs = []) = (ys' = [])"
      using rest c by (auto simp: rest_def split: if_splits)
    then have "join '','' (map f xs) @ c # r = join '','' (map f ys') @ c # s"
      using rest by (auto simp: rest_def split: if_splits)
    then show ?thesis
      using Cons.IH [of ys'] Cons.prems(1) Cons \<open>x = y\<close> by simp
  qed
qed

subsection \<open>Numbers end where their digits end\<close>

lemma digits_prefix:
  assumes "\<forall>c \<in> set xs. is_digit c" "\<forall>c \<in> set ys. is_digit c" "stops r" "stops s"
    and "xs @ r = ys @ s"
  shows "xs = ys \<and> r = s"
proof -
  have stop: "takeWhile is_digit t = []" if "stops t" for t
    using that by (cases t) (auto simp: stops_def is_digit_iff)
  have "takeWhile is_digit (xs @ r) = takeWhile is_digit (ys @ s)"
    using assms(5) by simp
  then have "xs = ys"
    using assms(1,2) stop [OF assms(3)] stop [OF assms(4)] by simp
  with assms(5) show ?thesis by simp
qed

lemma show_pos_prefix:
  "show_pos i @ r = show_pos j @ s \<Longrightarrow> 0 \<le> i \<Longrightarrow> 0 \<le> j \<Longrightarrow> stops r \<Longrightarrow> stops s \<Longrightarrow> i = j \<and> r = s"
  using digits_prefix [of "show_pos i" "show_pos j" r s] show_pos_digits show_pos_inj by blast

lemma hd_show_pos: "0 \<le> i \<Longrightarrow> is_digit (hd (show_pos i))"
  using show_pos_digits [of i] show_pos_nonempty [of i] by (cases "show_pos i") auto

lemma show_pos_not_minus: "0 \<le> i \<Longrightarrow> show_pos i @ r \<noteq> CHR ''-'' # s"
  using hd_show_pos [of i] show_pos_nonempty [of i]
  by (cases "show_pos i") (auto simp: is_digit_iff)

lemma show_int_prefix:
  assumes "show_int i @ r = show_int j @ s" "stops r" "stops s"
  shows "i = j \<and> r = s"
proof (cases "i < 0 \<longleftrightarrow> j < 0")
  case True
  with assms show ?thesis
    using show_pos_prefix [of "- i" r "- j" s] show_pos_prefix [of i r j s]
    by (auto simp: show_int_def split: if_splits)
next
  case False
  with assms(1) show ?thesis
    using show_pos_not_minus show_pos_not_minus [THEN not_sym]
    by (auto simp: show_int_def split: if_splits)
qed

subsection \<open>The text determines the value\<close>

fun shape :: "pyval \<Rightarrow> nat" where
  "shape PNone = 0"
| "shape (PBool b) = 1"
| "shape (PInt i) = 2"
| "shape (PStr s) = 3"
| "shape (PList xs) = 4"
| "shape (PDict kvs) = 5"

definition first_shape :: "char \<Rightarrow> nat" where
  "first_shape c =
    (if c = CHR ''n'' then 0 else if c = CHR ''t'' \<or> c = CHR ''f'' then 1
     else if c = CHR 0x22 then 3 else if c = CHR ''['' then 4 else if c = CHR ''{'' then 5 else 2)"

lemma show_int_head: "show_int i \<noteq> [] \<and> (hd (show_int i) = CHR ''-'' \<or> is_digit (hd (show_int i)))"
  using hd_show_pos show_pos_nonempty by (simp add: show_int_def)

lemma dumps_shape: "dumps v \<noteq> [] \<and> first_shape (hd (dumps v)) = shape v"
proof (cases v)
  case (PInt i)
  then show ?thesis using show_int_head [of i] by (auto simp: first_shape_def is_digit_iff)
qed (auto simp: first_shape_def json_string_def)

lemma same_shape: "dumps v @ r = dumps w @ s \<Longrightarrow> shape v = shape w"
  using dumps_shape [of v] dumps_shape [of w] by (metis hd_append2)

lemma dumps_head: "dumps v \<noteq> [] \<and> hd (dumps v) \<noteq> CHR '']''"
proof (cases v)
  case (PInt i)
  then show ?thesis using show_int_head [of i] by (auto simp: is_digit_iff)
qed (auto simp: json_string_def)

definition entry :: "string \<times> pyval \<Rightarrow> string" where
  "entry kv = json_string (fst kv) @ '':'' @ dumps (snd kv)"

lemma dumps_PDict: "dumps (PDict kvs) = ''{'' @ join '','' (map entry kvs) @ ''}''"
  by (simp add: entry_def [abs_def] comp_def)

lemma entry_head: "entry kv \<noteq> [] \<and> hd (entry kv) \<noteq> CHR ''}''"
  by (simp add: entry_def json_string_def)

lemma entry_separable: "separable dumps (snd kv) \<Longrightarrow> separable entry kv"
  unfolding separable_def
proof (intro allI impI, goal_cases)
  case (1 kv' r s)
  then have "json_string (fst kv) @ '':'' @ dumps (snd kv) @ r
      = json_string (fst kv') @ '':'' @ dumps (snd kv') @ s" by (simp add: entry_def)
  from json_string_prefix [OF this] 1 show ?case by (auto simp: prod_eq_iff)
qed

theorem dumps_separable: "separable dumps v"
proof (induction v)
  case (PList xs)
  show ?case unfolding separable_def
  proof (intro allI impI, goal_cases)
    case (1 w r s)
    from same_shape [OF 1(3)] obtain ys where w: "w = PList ys" by (cases w) auto
    with 1(3) have "join '','' (map dumps xs) @ CHR '']'' # r = join '','' (map dumps ys) @ CHR '']'' # s"
      by simp
    then have "xs = ys \<and> r = s"
      by (rule join_separable [rotated -1]) (use PList dumps_head in simp_all)
    with w show ?case by simp
  qed
next
  case (PDict kvs)
  have elems: "\<forall>kv \<in> set kvs. separable entry kv"
    using PDict by (metis entry_separable prod.collapse snds.intros)
  show ?case unfolding separable_def
  proof (intro allI impI, goal_cases)
    case (1 w r s)
    from same_shape [OF 1(3)] obtain kvs' where w: "w = PDict kvs'" by (cases w) auto
    with 1(3) have "join '','' (map entry kvs) @ CHR ''}'' # r = join '','' (map entry kvs') @ CHR ''}'' # s"
      by (simp only: dumps_PDict) simp
    then have "kvs = kvs' \<and> r = s"
      by (rule join_separable [rotated -1]) (use elems entry_head in simp_all)
    with w show ?case by simp
  qed
next
  case (PInt i)
  show ?case unfolding separable_def
  proof (intro allI impI, goal_cases)
    case (1 w r s)
    from same_shape [OF 1(3)] obtain j where "w = PInt j" by (cases w) auto
    with 1 show ?case using show_int_prefix [of i r j s] by auto
  qed
next
  case (PStr t)
  show ?case unfolding separable_def
  proof (intro allI impI, goal_cases)
    case (1 w r s)
    from same_shape [OF 1(3)] obtain u where "w = PStr u" by (cases w) auto
    with 1 show ?case using json_string_prefix [of t r u s] by auto
  qed
next
  case (PBool b)
  show ?case unfolding separable_def
  proof (intro allI impI, goal_cases)
    case (1 w r s)
    from same_shape [OF 1(3)] obtain b' where "w = PBool b'" by (cases w) auto
    with 1 show ?case by (cases b; cases b') auto
  qed
next
  case PNone
  show ?case unfolding separable_def
  proof (intro allI impI, goal_cases)
    case (1 w r s)
    from same_shape [OF 1(3)] have "w = PNone" by (cases w) auto
    with 1 show ?case by simp
  qed
qed

lemma dumps_inj: "dumps v = dumps w \<longleftrightarrow> v = w"
  using separableD [OF dumps_separable, of v "[]" w "[]"] by (auto simp: stops_def)

lemma canonical_eq: "canonical v = canonical w \<longleftrightarrow> sort_keys v = sort_keys w"
  by (simp add: canonical_def dumps_inj)

end
