(* ===== verification/CostContract.thy ===== *)
theory CostContract
  imports PyJson
begin

text \<open>
  \<open>secure_agent/cost_contract.py\<close>: identifiers and amounts, token usage, operator price cards
  and the quote a reservation is made from. Amounts are Python integers (\<open>int\<close>); the limits
  are the module's constants. A constructor that validates (\<open>__post_init__\<close>) is a function
  into the error sum. The hash of the price digest is the argument \<open>H\<close>.
\<close>

section \<open>Errors, identifiers and amounts\<close>

datatype cost_error =
    CostError string
  | BudgetExceeded string "int option" int
  | StoreFault

definition MAX_AMOUNT :: int where "MAX_AMOUNT = 10 ^ 15"

definition MAX_TOKENS :: int where "MAX_TOKENS = 10 ^ 9"

definition identifier_char :: "char \<Rightarrow> bool" where
  "identifier_char c \<longleftrightarrow> is_alnum c \<or> c \<in> set ''_.:/-''"

definition is_identifier :: "string \<Rightarrow> bool" where
  "is_identifier s =
    (case s of [] \<Rightarrow> False
     | c # cs \<Rightarrow> is_alnum c \<and> length cs \<le> 127 \<and> list_all identifier_char cs)"

definition check_identifier :: "string \<Rightarrow> cost_error + string" where
  "check_identifier s = bindE (require (is_identifier s) (CostError ''cost_invalid_identifier'')) (\<lambda>_. Inr s)"

definition check_integer :: "int \<Rightarrow> int \<Rightarrow> cost_error + int" where
  "check_integer maximum v =
    bindE (require (0 \<le> v \<and> v \<le> maximum) (CostError ''cost_invalid_amount'')) (\<lambda>_. Inr v)"

lemma identifier_Inr [simp, res_simps]: "check_identifier s = Inr t \<longleftrightarrow> is_identifier s \<and> t = s"
  by (auto simp: check_identifier_def res_simps)

lemma identifier_Inl [simp, res_simps]:
  "check_identifier s = Inl e \<longleftrightarrow> \<not> is_identifier s \<and> e = CostError ''cost_invalid_identifier''"
  by (auto simp: check_identifier_def res_simps)

lemma integer_Inr [simp, res_simps]: "check_integer m v = Inr w \<longleftrightarrow> 0 \<le> v \<and> v \<le> m \<and> w = v"
  by (auto simp: check_integer_def res_simps)

lemma integer_Inl [simp, res_simps]:
  "check_integer m v = Inl e \<longleftrightarrow> \<not> (0 \<le> v \<and> v \<le> m) \<and> e = CostError ''cost_invalid_amount''"
  by (auto simp: check_integer_def res_simps)

section \<open>Token usage\<close>

record token_usage =
  input_tokens :: int
  output_tokens :: int
  cached_input_tokens :: int

definition token_usage_ok :: "token_usage \<Rightarrow> bool" where
  "token_usage_ok u \<longleftrightarrow>
    0 \<le> input_tokens u \<and> input_tokens u \<le> MAX_TOKENS \<and>
    0 \<le> output_tokens u \<and> output_tokens u \<le> MAX_TOKENS \<and>
    0 \<le> cached_input_tokens u \<and> cached_input_tokens u \<le> input_tokens u"

definition token_usage :: "int \<Rightarrow> int \<Rightarrow> int \<Rightarrow> cost_error + token_usage" where
  "token_usage i p c =
    bindE (mapE (check_integer MAX_TOKENS) [i, p, c]) (\<lambda>_.
    bindE (require (\<not> c > i) (CostError ''cost_invalid_usage'')) (\<lambda>_.
    Inr \<lparr>input_tokens = i, output_tokens = p, cached_input_tokens = c\<rparr>))"

definition usage_json :: "token_usage \<Rightarrow> pyval" where
  "usage_json u = PDict
    [(''input_tokens'', PInt (input_tokens u)),
     (''output_tokens'', PInt (output_tokens u)),
     (''cached_input_tokens'', PInt (cached_input_tokens u))]"

lemma token_usage_Inr:
  "token_usage i p c = Inr u \<longleftrightarrow>
    token_usage_ok u \<and> u = \<lparr>input_tokens = i, output_tokens = p, cached_input_tokens = c\<rparr>"
  by (auto simp: token_usage_def token_usage_ok_def res_simps)

section \<open>Price cards\<close>

record price_card =
  provider :: string
  model :: string
  version :: string
  input_microusd_per_million :: int
  cached_input_microusd_per_million :: int
  output_microusd_per_million :: int
  request_microusd :: int
  currency :: string

definition check_price_card :: "price_card \<Rightarrow> cost_error + price_card" where
  "check_price_card p =
    bindE (mapE check_identifier [provider p, model p, version p]) (\<lambda>_.
    bindE (mapE (check_integer MAX_AMOUNT)
      [input_microusd_per_million p, cached_input_microusd_per_million p,
       output_microusd_per_million p, request_microusd p]) (\<lambda>_.
    bindE (require (currency p = ''USD'') (CostError ''cost_unsupported_currency'')) (\<lambda>_.
    Inr p)))"

definition price_card_ok :: "price_card \<Rightarrow> bool" where
  "price_card_ok p \<longleftrightarrow>
    is_identifier (provider p) \<and> is_identifier (model p) \<and> is_identifier (version p) \<and>
    0 \<le> input_microusd_per_million p \<and> input_microusd_per_million p \<le> MAX_AMOUNT \<and>
    0 \<le> cached_input_microusd_per_million p \<and> cached_input_microusd_per_million p \<le> MAX_AMOUNT \<and>
    0 \<le> output_microusd_per_million p \<and> output_microusd_per_million p \<le> MAX_AMOUNT \<and>
    0 \<le> request_microusd p \<and> request_microusd p \<le> MAX_AMOUNT \<and> currency p = ''USD''"

lemma check_price_card_Inr: "check_price_card p = Inr q \<longleftrightarrow> price_card_ok p \<and> q = p"
  by (auto simp: check_price_card_def price_card_ok_def res_simps)

definition price_json :: "price_card \<Rightarrow> pyval" where
  "price_json p = PDict
    [(''provider'', PStr (provider p)), (''model'', PStr (model p)),
     (''version'', PStr (version p)),
     (''input_microusd_per_million'', PInt (input_microusd_per_million p)),
     (''cached_input_microusd_per_million'', PInt (cached_input_microusd_per_million p)),
     (''output_microusd_per_million'', PInt (output_microusd_per_million p)),
     (''request_microusd'', PInt (request_microusd p)),
     (''currency'', PStr (currency p))]"

definition price_digest :: "(string \<Rightarrow> string) \<Rightarrow> price_card \<Rightarrow> string" where
  "price_digest H p = H (canonical (price_json p))"

definition weighted :: "price_card \<Rightarrow> token_usage \<Rightarrow> int" where
  "weighted p u =
    (input_tokens u - cached_input_tokens u) * input_microusd_per_million p
    + cached_input_tokens u * cached_input_microusd_per_million p
    + output_tokens u * output_microusd_per_million p"

definition cost :: "price_card \<Rightarrow> token_usage \<Rightarrow> cost_error + int" where
  "cost p u = check_integer MAX_AMOUNT (request_microusd p + (weighted p u + 999999) div 1000000)"

definition ceiling_of :: "price_card \<Rightarrow> int \<Rightarrow> int \<Rightarrow> cost_error + int" where
  "ceiling_of p il pl =
    bindE (check_integer MAX_TOKENS il) (\<lambda>_.
    bindE (check_integer MAX_TOKENS pl) (\<lambda>_.
    let cached = (if cached_input_microusd_per_million p > input_microusd_per_million p then il else 0) in
    bindE (token_usage il pl cached) (cost p)))"

section \<open>Quotes\<close>

record quotation =
  q_price :: price_card
  q_price_digest :: string
  q_estimated_usage :: token_usage
  q_input_token_limit :: int
  q_output_token_limit :: int
  q_estimated_microusd :: int
  q_ceiling_microusd :: int

definition quote_fields :: "quotation \<Rightarrow> (string \<times> pyval) list" where
  "quote_fields q =
    [(''price'', price_json (q_price q)), (''price_digest'', PStr (q_price_digest q)),
     (''estimated_usage'', usage_json (q_estimated_usage q)),
     (''input_token_limit'', PInt (q_input_token_limit q)),
     (''output_token_limit'', PInt (q_output_token_limit q)),
     (''estimated_microusd'', PInt (q_estimated_microusd q)),
     (''ceiling_microusd'', PInt (q_ceiling_microusd q))]"

definition quote :: "(string \<Rightarrow> string) \<Rightarrow> price_card \<Rightarrow> token_usage \<Rightarrow> int \<Rightarrow> int \<Rightarrow> cost_error + quotation" where
  "quote H p u il pl =
    bindE (ceiling_of p il pl) (\<lambda>c.
    bindE (require (\<not> (input_tokens u > il \<or> output_tokens u > pl))
      (CostError ''cost_estimate_exceeds_ceiling'')) (\<lambda>_.
    bindE (cost p u) (\<lambda>e.
    Inr \<lparr>q_price = p, q_price_digest = price_digest H p, q_estimated_usage = u,
      q_input_token_limit = il, q_output_token_limit = pl,
      q_estimated_microusd = e, q_ceiling_microusd = c\<rparr>)))"

section \<open>The ceiling bounds the cost\<close>

lemma weighted_mono:
  assumes p: "price_card_ok p" and u: "token_usage_ok u"
    and lim: "input_tokens u \<le> il" "output_tokens u \<le> pl"
  shows "0 \<le> weighted p u" and
    "weighted p u \<le> weighted p \<lparr>input_tokens = il, output_tokens = pl,
      cached_input_tokens = (if cached_input_microusd_per_million p > input_microusd_per_million p then il else 0)\<rparr>"
proof -
  let ?pi = "input_microusd_per_million p" and ?pc = "cached_input_microusd_per_million p"
    and ?po = "output_microusd_per_million p"
  let ?m = "max ?pi ?pc"
  have nn: "0 \<le> ?pi" "0 \<le> ?pc" "0 \<le> ?po" "0 \<le> cached_input_tokens u"
    "0 \<le> input_tokens u - cached_input_tokens u" "0 \<le> output_tokens u" "0 \<le> input_tokens u"
    using p u by (auto simp: price_card_ok_def token_usage_ok_def)
  then show "0 \<le> weighted p u" by (simp add: weighted_def)
  have "(input_tokens u - cached_input_tokens u) * ?pi \<le> (input_tokens u - cached_input_tokens u) * ?m"
    and "cached_input_tokens u * ?pc \<le> cached_input_tokens u * ?m"
    and "output_tokens u * ?po \<le> pl * ?po"
    using nn lim by (auto intro: mult_left_mono mult_right_mono)
  moreover have "input_tokens u * ?m \<le> il * ?m"
    using nn lim by (intro mult_right_mono) auto
  ultimately have "weighted p u \<le> il * ?m + pl * ?po"
    by (simp add: weighted_def algebra_simps)
  then show "weighted p u \<le> weighted p \<lparr>input_tokens = il, output_tokens = pl,
      cached_input_tokens = (if ?pc > ?pi then il else 0)\<rparr>"
    by (auto simp: weighted_def max_def split: if_splits)
qed

lemma cost_le_ceiling:
  assumes "price_card_ok p" "token_usage_ok u" "input_tokens u \<le> il" "output_tokens u \<le> pl"
    and "ceiling_of p il pl = Inr c"
  shows "\<exists>k. cost p u = Inr k \<and> 0 \<le> k \<and> k \<le> c"
proof -
  have le: "(weighted p u + 999999) div 1000000
      \<le> (weighted p \<lparr>input_tokens = il, output_tokens = pl,
        cached_input_tokens = (if cached_input_microusd_per_million p > input_microusd_per_million p then il else 0)\<rparr>
        + 999999) div 1000000"
    using weighted_mono(2) [OF assms(1-4)] by (intro zdiv_mono1) auto
  have "0 \<le> request_microusd p + (weighted p u + 999999) div 1000000"
    using weighted_mono(1) [OF assms(1-4)] assms(1) by (simp add: price_card_ok_def)
  then show ?thesis
    using assms(5) le by (auto simp: ceiling_of_def cost_def Let_def res_simps token_usage_Inr)
qed

lemma quote_amounts:
  assumes "price_card_ok p" "token_usage_ok u" "quote H p u il pl = Inr q"
  shows "0 \<le> q_estimated_microusd q \<and> q_estimated_microusd q \<le> q_ceiling_microusd q
    \<and> q_ceiling_microusd q \<le> MAX_AMOUNT \<and> q_price q = p"
proof -
  from assms(3) obtain c e where c: "ceiling_of p il pl = Inr c" and e: "cost p u = Inr e"
    and lim: "input_tokens u \<le> il" "output_tokens u \<le> pl"
    and q: "q_ceiling_microusd q = c" "q_estimated_microusd q = e" "q_price q = p"
    by (auto simp: quote_def res_simps)
  from c have "c \<le> MAX_AMOUNT" by (auto simp: ceiling_of_def Let_def cost_def res_simps)
  with cost_le_ceiling [OF assms(1,2) lim c] e q show ?thesis by auto
qed

end
