(* ===== verification/CostLedger.thy ===== *)
theory CostLedger
  imports CostContract
begin

text \<open>
  \<open>secure_agent/cost_ledger.py\<close>: the SQLite tables are lists of rows in insertion order
  (an event's sequence number is its position plus one), a transaction is a function from the
  tables to an error or a result with new tables, and \<open>transaction\<close> is the context manager
  that commits or rolls back. What the process, the file system and SQLite answer during one
  call is the argument \<open>env\<close>: fresh identifiers, the clock, and whether the file checks, the
  \<open>BEGIN\<close>, the commit and the rollback succeed. A constraint that SQLite enforces is a guard
  that ends in \<open>StoreFault\<close>, the family of exceptions that latch \<open>failed\<close>. An error carries no tables:
  that a rolled-back transaction, and one whose commit raises, leaves the database as it was is the
  atomicity of SQLite, which is assumed here and not a property of the code.
\<close>

section \<open>Tables\<close>

record cost_scope =
  scope_id :: string
  parent_id :: "string option"
  scope_kind :: string
  limit_microusd :: "int option"

datatype attempt_state = Estimated | Reserved | Dispatched | Uncertain | Settled | Cancelled

record cost_attempt =
  attempt_id :: string
  attempt_scope :: string
  request_digest :: string
  attempt_quote :: quotation
  attempt_state :: attempt_state
  reserved_microusd :: int
  actual_microusd :: "int option"
  actual_source :: "string option"
  attempt_usage :: "token_usage option"
  receipt_reference :: "string option"

record cost_event =
  event_id :: string
  event_time :: string
  event_kind :: string
  event_scope :: string
  event_attempt :: "string option"
  event_payload :: string

record cost_receipt =
  receipt_provider :: string
  receipt_source :: string
  receipt_ref :: string
  receipt_attempt :: string

record cost_db =
  ledger_id :: string
  period :: string
  account_id :: string
  ledger_mode :: string
  scopes :: "cost_scope list"
  prices :: "((string \<times> string \<times> string) \<times> string) list"
  attempts :: "cost_attempt list"
  events :: "cost_event list"
  receipts :: "cost_receipt list"

record cost_ledger =
  ledger_db :: cost_db
  ledger_open :: bool
  failed :: bool
  read_only :: bool

section \<open>The outcome of one call's system effects\<close>

datatype outcome = Fine | Refused | Faulted

record cost_env =
  same_process :: bool
  files_before :: outcome
  begin_outcome :: outcome
  files_after :: outcome
  commit_outcome :: outcome
  rollback_fine :: bool
  fresh_id :: string
  now_text :: string

definition unavailable :: cost_error where
  "unavailable = CostError ''cost_ledger_unavailable''"

fun effect :: "outcome \<Rightarrow> cost_error + unit" where
  "effect Fine = Inr ()"
| "effect Refused = Inl unavailable"
| "effect Faulted = Inl StoreFault"

definition check_files :: "cost_env \<Rightarrow> outcome \<Rightarrow> cost_ledger \<Rightarrow> cost_error + unit" where
  "check_files env result l =
    bindE (require (\<not> (failed l \<or> \<not> same_process env \<or> \<not> ledger_open l)) unavailable) (\<lambda>_.
    effect result)"

type_synonym 'a body = "cost_db \<Rightarrow> cost_error + ('a \<times> cost_db)"

definition committed_run :: "cost_env \<Rightarrow> cost_ledger \<Rightarrow> 'a body \<Rightarrow> cost_error + ('a \<times> cost_db)" where
  "committed_run env l body =
    bindE (check_files env (files_before env) l) (\<lambda>_.
    bindE (require (ledger_open l) unavailable) (\<lambda>_.
    bindE (effect (begin_outcome env)) (\<lambda>_.
    bindE (body (ledger_db l)) (\<lambda>res.
    bindE (check_files env (files_after env) l) (\<lambda>_.
    bindE (effect (commit_outcome env)) (\<lambda>_. Inr res))))))"

definition transaction :: "bool \<Rightarrow> cost_env \<Rightarrow> cost_ledger \<Rightarrow> 'a body \<Rightarrow> (cost_error + 'a) \<times> cost_ledger" where
  "transaction write env l body =
    (if \<not> same_process env then (Inl unavailable, l)
     else if write \<and> read_only l then (Inl (CostError ''cost_ledger_read_only''), l)
     else case committed_run env l body of
        Inr (x, db) \<Rightarrow> (Inr x, l\<lparr>ledger_db := db\<rparr>)
      | Inl e \<Rightarrow>
          (let l' = (if ledger_open l \<and> \<not> rollback_fine env then l\<lparr>failed := True\<rparr> else l) in
           if e = StoreFault then (Inl unavailable, l'\<lparr>failed := True\<rparr>) else (Inl e, l')))"

text \<open>A body that reads only.\<close>

definition reading :: "(cost_db \<Rightarrow> cost_error + 'a) \<Rightarrow> 'a body" where
  "reading f db = bindE (f db) (\<lambda>x. Inr (x, db))"

section \<open>Rows and events\<close>

definition json_opt :: "('a \<Rightarrow> pyval) \<Rightarrow> 'a option \<Rightarrow> pyval" where
  "json_opt f x = (case x of None \<Rightarrow> PNone | Some v \<Rightarrow> f v)"

definition find_scope :: "cost_db \<Rightarrow> string \<Rightarrow> cost_scope option" where
  "find_scope db s = find (\<lambda>r. scope_id r = s) (scopes db)"

definition find_attempt :: "cost_db \<Rightarrow> string \<Rightarrow> cost_attempt option" where
  "find_attempt db a = find (\<lambda>r. attempt_id r = a) (attempts db)"

definition find_event :: "cost_db \<Rightarrow> string \<Rightarrow> cost_event option" where
  "find_event db e = find (\<lambda>r. event_id r = e) (events db)"

definition event :: "cost_env \<Rightarrow> string \<Rightarrow> string \<Rightarrow> string option \<Rightarrow> pyval \<Rightarrow> string option \<Rightarrow> cost_db
    \<Rightarrow> cost_error + cost_db" where
  "event env kind scope att payload given db =
    (let eid = (case given of Some e \<Rightarrow> if e = [] then fresh_id env else e | None \<Rightarrow> fresh_id env) in
     bindE (require (find_event db eid = None \<and> find_scope db scope \<noteq> None \<and>
         (case att of None \<Rightarrow> True | Some a \<Rightarrow> find_attempt db a \<noteq> None)) StoreFault) (\<lambda>_.
     Inr (db\<lparr>events := events db @ [\<lparr>event_id = eid, event_time = now_text env, event_kind = kind,
       event_scope = scope, event_attempt = att, event_payload = canonical payload\<rparr>]\<rparr>)))"

definition replayed :: "string \<Rightarrow> string \<Rightarrow> string \<Rightarrow> string option \<Rightarrow> pyval \<Rightarrow> cost_db \<Rightarrow> cost_error + bool" where
  "replayed eid kind scope att payload db =
    bindE (check_identifier eid) (\<lambda>_.
    case find_event db eid of
      None \<Rightarrow> Inr False
    | Some old \<Rightarrow>
        bindE (require ((event_kind old, event_scope old, event_attempt old, event_payload old)
            = (kind, scope, att, canonical payload)) (CostError ''cost_idempotency_conflict'')) (\<lambda>_.
        Inr True))"

definition get_scope :: "cost_db \<Rightarrow> string \<Rightarrow> cost_error + cost_scope" where
  "get_scope db s =
    bindE (check_identifier s) (\<lambda>_.
    case find_scope db s of None \<Rightarrow> Inl (CostError ''cost_scope_unknown'') | Some r \<Rightarrow> Inr r)"

definition get_attempt :: "cost_db \<Rightarrow> string \<Rightarrow> cost_error + cost_attempt" where
  "get_attempt db a =
    bindE (check_identifier a) (\<lambda>_.
    case find_attempt db a of None \<Rightarrow> Inl (CostError ''cost_attempt_unknown'') | Some r \<Rightarrow> Inr r)"

definition reservation_overrun :: "cost_attempt \<Rightarrow> int option" where
  "reservation_overrun a =
    map_option (\<lambda>x. max 0 (x - q_ceiling_microusd (attempt_quote a))) (actual_microusd a)"

definition set_attempt :: "string \<Rightarrow> (cost_attempt \<Rightarrow> cost_attempt) \<Rightarrow> cost_db \<Rightarrow> cost_db" where
  "set_attempt a f db = db\<lparr>attempts := update_where (\<lambda>r. attempt_id r = a) f (attempts db)\<rparr>"

section \<open>Scopes\<close>

definition parent_kinds :: "string \<Rightarrow> string list option" where
  "parent_kinds kind =
    (if kind = ''engagement'' then Some [''account'']
     else if kind = ''session'' then Some [''engagement'']
     else if kind = ''agent'' then Some [''session'']
     else if kind = ''action'' then Some [''session'', ''agent'']
     else None)"

definition kind_allowed :: "string \<Rightarrow> string \<Rightarrow> bool" where
  "kind_allowed kind parent_kind =
    (case parent_kinds kind of None \<Rightarrow> False | Some ks \<Rightarrow> parent_kind \<in> set ks)"

definition scope_json :: "cost_scope \<Rightarrow> pyval" where
  "scope_json r = PDict
    [(''scope_id'', PStr (scope_id r)), (''parent_id'', json_opt PStr (parent_id r)),
     (''kind'', PStr (scope_kind r)), (''limit_microusd'', json_opt PInt (limit_microusd r))]"

definition add_scope_body :: "cost_env \<Rightarrow> string \<Rightarrow> string \<Rightarrow> string \<Rightarrow> int option \<Rightarrow> cost_scope body" where
  "add_scope_body env sid parent kind limit db =
    bindE (get_scope db parent) (\<lambda>p.
    bindE (require (kind_allowed kind (scope_kind p))
      (CostError ''cost_invalid_scope_parent'')) (\<lambda>_.
    let value = \<lparr>scope_id = sid, parent_id = Some parent, scope_kind = kind, limit_microusd = limit\<rparr> in
    case find_scope db sid of
      Some old \<Rightarrow> bindE (require (old = value) (CostError ''cost_scope_conflict'')) (\<lambda>_. Inr (value, db))
    | None \<Rightarrow>
        bindE (event env ''scope_created'' sid None (scope_json value) None
          (db\<lparr>scopes := scopes db @ [value]\<rparr>)) (\<lambda>db'. Inr (value, db'))))"

definition check_limit :: "int option \<Rightarrow> cost_error + unit" where
  "check_limit limit =
    (case limit of None \<Rightarrow> Inr () | Some v \<Rightarrow> bindE (check_integer MAX_AMOUNT v) (\<lambda>_. Inr ()))"

text \<open>Arguments are checked before the transaction; an error there leaves the ledger alone.\<close>

definition checked :: "cost_error + unit \<Rightarrow> cost_ledger \<Rightarrow> (cost_error + 'a) \<times> cost_ledger
    \<Rightarrow> (cost_error + 'a) \<times> cost_ledger" where
  "checked guard l run = (case guard of Inl e \<Rightarrow> (Inl e, l) | Inr _ \<Rightarrow> run)"

definition add_scope :: "cost_env \<Rightarrow> cost_ledger \<Rightarrow> string \<Rightarrow> string \<Rightarrow> string \<Rightarrow> int option
    \<Rightarrow> (cost_error + cost_scope) \<times> cost_ledger" where
  "add_scope env l sid parent kind limit =
    checked (bindE (check_identifier sid) (\<lambda>_.
        bindE (require (parent_kinds kind \<noteq> None) (CostError ''cost_invalid_scope_kind'')) (\<lambda>_.
        check_limit limit))) l
      (transaction True env l (add_scope_body env sid parent kind limit))"

function chain_loop :: "cost_db \<Rightarrow> cost_scope list \<Rightarrow> string option \<Rightarrow> cost_error + cost_scope list" where
  "chain_loop db acc sid =
    (case sid of
      None \<Rightarrow> Inr acc
    | Some s \<Rightarrow>
        bindE (get_scope db s) (\<lambda>r.
        if length (acc @ [r]) > 5 then Inl (CostError ''cost_ledger_invalid'')
        else chain_loop db (acc @ [r]) (parent_id r)))"
  by pat_completeness auto
termination by (relation "measure (\<lambda>(db, acc, sid). 6 - length acc)") auto

declare chain_loop.simps [simp del]

definition chain :: "cost_db \<Rightarrow> string \<Rightarrow> cost_error + cost_scope list" where
  "chain db s =
    bindE (chain_loop db [] (Some s)) (\<lambda>rows.
    bindE (require (scope_id (last rows) = account_id db) (CostError ''cost_ledger_invalid'')) (\<lambda>_.
    Inr (rev rows)))"

section \<open>Snapshots\<close>

definition children :: "cost_db \<Rightarrow> string \<Rightarrow> string list" where
  "children db s = map scope_id (filter (\<lambda>r. parent_id r = Some s) (scopes db))"

fun descendants :: "nat \<Rightarrow> cost_db \<Rightarrow> string list \<Rightarrow> string list" where
  "descendants 0 db level = []"
| "descendants (Suc n) db level =
    (if level = [] then [] else level @ descendants n db (concat (map (children db) level)))"

definition scope_attempts :: "cost_db \<Rightarrow> string \<Rightarrow> cost_attempt list" where
  "scope_attempts db s =
    concat (map (\<lambda>d. filter (\<lambda>a. attempt_scope a = d) (attempts db))
      (descendants (Suc (length (scopes db))) db [s]))"

definition actual_or_zero :: "cost_attempt \<Rightarrow> int" where
  "actual_or_zero a = (case actual_microusd a of None \<Rightarrow> 0 | Some v \<Rightarrow> v)"

definition unresolved :: "cost_attempt \<Rightarrow> bool" where
  "unresolved a \<longleftrightarrow> attempt_state a = Dispatched \<or> attempt_state a = Uncertain"

record cost_snapshot =
  snap_scope :: cost_scope
  snap_estimated :: int
  snap_pending_estimated :: int
  snap_reserved :: int
  snap_actual :: int
  snap_committed :: int
  snap_available :: "int option"
  snap_overcommitted :: int
  snap_overspent :: int
  snap_usage_derived :: int
  snap_billing_confirmed :: int
  snap_unresolved :: nat
  snap_actual_complete :: bool
  snap_attempt_count :: nat

definition snapshot_of :: "cost_scope \<Rightarrow> cost_attempt list \<Rightarrow> cost_snapshot" where
  "snapshot_of scope rows =
    (let reserved = sum_list (map reserved_microusd rows);
         actual = sum_list (map actual_or_zero rows);
         limit = limit_microusd scope;
         pending = length (filter unresolved rows);
         estimated = (\<lambda>rs. sum_list (map (\<lambda>a. q_estimated_microusd (attempt_quote a)) rs));
         from_source = (\<lambda>src. sum_list (map actual_or_zero (filter (\<lambda>a. actual_source a = Some src) rows)))
     in \<lparr>snap_scope = scope,
        snap_estimated = estimated rows,
        snap_pending_estimated = estimated (filter (\<lambda>a. attempt_state a = Estimated) rows),
        snap_reserved = reserved, snap_actual = actual, snap_committed = actual + reserved,
        snap_available = map_option (\<lambda>m. max 0 (m - actual - reserved)) limit,
        snap_overcommitted = (case limit of None \<Rightarrow> 0 | Some m \<Rightarrow> max 0 (actual + reserved - m)),
        snap_overspent = (case limit of None \<Rightarrow> 0 | Some m \<Rightarrow> max 0 (actual - m)),
        snap_usage_derived = from_source ''usage_derived'',
        snap_billing_confirmed = from_source ''billing_confirmed'',
        snap_unresolved = pending, snap_actual_complete = (pending = 0),
        snap_attempt_count = length rows\<rparr>)"

definition snapshot :: "cost_db \<Rightarrow> string \<Rightarrow> cost_error + cost_snapshot" where
  "snapshot db s = bindE (get_scope db s) (\<lambda>r. Inr (snapshot_of r (scope_attempts db s)))"

text \<open>\<open>min(limits, key=...)\<close>: the first row with the least value; none is a \<open>ValueError\<close>.\<close>

fun first_min :: "('a \<Rightarrow> int) \<Rightarrow> 'a list \<Rightarrow> 'a option" where
  "first_min k [] = None"
| "first_min k (x # xs) =
    (case first_min k xs of None \<Rightarrow> Some x | Some y \<Rightarrow> if k y < k x then Some y else Some x)"

record effective_snapshot =
  eff_snapshot :: cost_snapshot
  eff_available :: int
  eff_limiting_scope :: string

definition available_int :: "cost_snapshot \<Rightarrow> int" where
  "available_int v = (case snap_available v of None \<Rightarrow> 0 | Some x \<Rightarrow> x)"

definition chain_snapshots :: "cost_db \<Rightarrow> string \<Rightarrow> cost_error + cost_snapshot list" where
  "chain_snapshots db s = bindE (chain db s) (mapE (\<lambda>r. snapshot db (scope_id r)))"

definition effective :: "cost_db \<Rightarrow> string \<Rightarrow> cost_error + effective_snapshot" where
  "effective db s =
    bindE (snapshot db s) (\<lambda>own.
    bindE (chain_snapshots db s) (\<lambda>rows.
    case first_min available_int (filter (\<lambda>v. snap_available v \<noteq> None) rows) of
      None \<Rightarrow> Inl StoreFault
    | Some b \<Rightarrow> Inr \<lparr>eff_snapshot = own, eff_available = available_int b,
        eff_limiting_scope = scope_id (snap_scope b)\<rparr>))"

section \<open>Limits and estimates\<close>

definition set_limit_body :: "cost_env \<Rightarrow> string \<Rightarrow> int option \<Rightarrow> string \<Rightarrow> cost_snapshot body" where
  "set_limit_body env sid limit eid db =
    bindE (get_scope db sid) (\<lambda>r.
    bindE (require (\<not> (scope_kind r = ''account'' \<and> limit = None))
      (CostError ''cost_account_requires_limit'')) (\<lambda>_.
    let payload = PDict [(''limit_microusd'', json_opt PInt limit)] in
    bindE (replayed eid ''limit_changed'' sid None payload db) (\<lambda>seen.
    bindE (if seen then Inr db
      else event env ''limit_changed'' sid None payload (Some eid)
        (db\<lparr>scopes := update_where (\<lambda>x. scope_id x = sid) (\<lambda>x. x\<lparr>limit_microusd := limit\<rparr>) (scopes db)\<rparr>)) (\<lambda>db'.
    reading (\<lambda>d. snapshot d sid) db'))))"

definition set_limit :: "cost_env \<Rightarrow> cost_ledger \<Rightarrow> string \<Rightarrow> int option \<Rightarrow> string
    \<Rightarrow> (cost_error + cost_snapshot) \<times> cost_ledger" where
  "set_limit env l sid limit eid =
    checked (check_limit limit) l (transaction True env l (set_limit_body env sid limit eid))"

definition is_digest :: "string \<Rightarrow> bool" where
  "is_digest s \<longleftrightarrow> length s = 64 \<and> list_all is_hex s"

definition estimate_body :: "cost_env \<Rightarrow> string \<Rightarrow> string \<Rightarrow> string \<Rightarrow> quotation \<Rightarrow> cost_attempt body" where
  "estimate_body env aid sid digest q db =
    bindE (get_scope db sid) (\<lambda>r.
    bindE (require (scope_kind r = ''action'') (CostError ''cost_attempt_requires_action_scope'')) (\<lambda>_.
    case find_attempt db aid of
      Some old \<Rightarrow>
        bindE (require (attempt_scope old = sid \<and> request_digest old = digest \<and>
            canonical (PDict (quote_fields (attempt_quote old))) = canonical (PDict (quote_fields q)))
          (CostError ''cost_attempt_conflict'')) (\<lambda>_.
        reading (\<lambda>d. get_attempt d aid) db)
    | None \<Rightarrow>
        let price = q_price q; key = (provider price, model price, version price);
            payload = canonical (price_json price) in
        bindE (case map_of (prices db) key of
            Some stored \<Rightarrow> bindE (require (stored = payload) (CostError ''cost_price_version_conflict'')) (\<lambda>_. Inr db)
          | None \<Rightarrow> Inr (db\<lparr>prices := prices db @ [(key, payload)]\<rparr>)) (\<lambda>db1.
        bindE (event env ''cost_estimated'' sid (Some aid)
            (PDict ((''request_digest'', PStr digest) # quote_fields q)) None
          (db1\<lparr>attempts := attempts db1 @ [\<lparr>attempt_id = aid, attempt_scope = sid, request_digest = digest,
            attempt_quote = q, attempt_state = Estimated, reserved_microusd = 0, actual_microusd = None,
            actual_source = None, attempt_usage = None, receipt_reference = None\<rparr>]\<rparr>)) (\<lambda>db2.
        reading (\<lambda>d. get_attempt d aid) db2))))"

definition estimate :: "(string \<Rightarrow> string) \<Rightarrow> cost_env \<Rightarrow> cost_ledger \<Rightarrow> string \<Rightarrow> string \<Rightarrow> string
    \<Rightarrow> price_card \<Rightarrow> token_usage \<Rightarrow> int \<Rightarrow> int \<Rightarrow> (cost_error + cost_attempt) \<times> cost_ledger" where
  "estimate H env l aid sid digest price usage il pl =
    (case bindE (check_identifier aid) (\<lambda>_.
        bindE (require (is_digest digest) (CostError ''cost_invalid_request_digest'')) (\<lambda>_.
        quote H price usage il pl)) of
      Inl e \<Rightarrow> (Inl e, l)
    | Inr q \<Rightarrow> transaction True env l (estimate_body env aid sid digest q))"

section \<open>Reservation and dispatch\<close>

text \<open>
  The admission loop over the chain from the account down: the first scope whose committed
  amount plus the requested one passes its limit blocks. A rejection is a value of the body,
  so its denial event commits before the caller sees the error.
\<close>

fun first_over :: "cost_db \<Rightarrow> int \<Rightarrow> cost_scope list \<Rightarrow> cost_error + cost_error option" where
  "first_over db amount [] = Inr None"
| "first_over db amount (r # rs) =
    bindE (snapshot db (scope_id r)) (\<lambda>current.
    if (case limit_microusd r of None \<Rightarrow> False | Some m \<Rightarrow> snap_committed current + amount > m)
    then Inr (Some (BudgetExceeded (scope_id r) (snap_available current) amount))
    else first_over db amount rs)"

definition denial_json :: "cost_error \<Rightarrow> pyval" where
  "denial_json e =
    (case e of
      BudgetExceeded blocking available requested \<Rightarrow> PDict
        [(''blocking_scope_id'', PStr blocking), (''available_microusd'', json_opt PInt available),
         (''requested_microusd'', PInt requested), (''reason'', PStr ''cost_budget_exceeded'')]
    | _ \<Rightarrow> PNone)"

definition record_denial :: "cost_env \<Rightarrow> string \<Rightarrow> cost_attempt \<Rightarrow> cost_error \<Rightarrow> cost_db \<Rightarrow> cost_error + cost_db" where
  "record_denial env kind a e = event env kind (attempt_scope a) (Some (attempt_id a)) (denial_json e) None"

type_synonym admission = "cost_error + cost_attempt"

definition reserve_body :: "cost_env \<Rightarrow> string \<Rightarrow> admission body" where
  "reserve_body env aid db =
    bindE (get_attempt db aid) (\<lambda>a.
    if attempt_state a = Reserved then Inr (Inr a, db)
    else
      bindE (require (attempt_state a = Estimated) (CostError ''cost_invalid_transition'')) (\<lambda>_.
      let amount = q_ceiling_microusd (attempt_quote a) in
      bindE (chain db (attempt_scope a)) (\<lambda>rows.
      bindE (first_over db amount rows) (\<lambda>rejection.
      case rejection of
        Some e \<Rightarrow> bindE (record_denial env ''reservation_denied'' a e db) (\<lambda>db'. Inr (Inl e, db'))
      | None \<Rightarrow>
          bindE (event env ''cost_reserved'' (attempt_scope a) (Some aid)
              (PDict [(''reserved_microusd'', PInt amount)]) None
            (set_attempt aid (\<lambda>r. r\<lparr>attempt_state := Reserved, reserved_microusd := amount\<rparr>) db)) (\<lambda>db'.
          bindE (get_attempt db' aid) (\<lambda>r. Inr (Inr r, db')))))))"

definition raise_rejection :: "(cost_error + admission) \<times> cost_ledger \<Rightarrow> (cost_error + cost_attempt) \<times> cost_ledger" where
  "raise_rejection out = (bindE (fst out) (\<lambda>x. x), snd out)"

definition reserve :: "cost_env \<Rightarrow> cost_ledger \<Rightarrow> string \<Rightarrow> (cost_error + cost_attempt) \<times> cost_ledger" where
  "reserve env l aid = raise_rejection (transaction True env l (reserve_body env aid))"

definition begin_dispatch_body :: "cost_env \<Rightarrow> string \<Rightarrow> string \<Rightarrow> admission body" where
  "begin_dispatch_body env aid digest db =
    bindE (get_attempt db aid) (\<lambda>a.
    bindE (require (attempt_state a = Reserved) (CostError ''cost_invalid_transition'')) (\<lambda>_.
    bindE (require (digest = request_digest a) (CostError ''cost_request_mismatch'')) (\<lambda>_.
    bindE (chain db (attempt_scope a)) (\<lambda>rows.
    bindE (first_over db 0 rows) (\<lambda>rejection.
    case rejection of
      Some e \<Rightarrow> bindE (record_denial env ''dispatch_denied'' a e db) (\<lambda>db'. Inr (Inl e, db'))
    | None \<Rightarrow>
        bindE (event env ''dispatch_started'' (attempt_scope a) (Some aid)
            (PDict [(''request_digest'', PStr digest)]) None
          (set_attempt aid (\<lambda>r. r\<lparr>attempt_state := Dispatched\<rparr>) db)) (\<lambda>db'.
        bindE (get_attempt db' aid) (\<lambda>r. Inr (Inr r, db'))))))))"

definition begin_dispatch :: "cost_env \<Rightarrow> cost_ledger \<Rightarrow> string \<Rightarrow> string
    \<Rightarrow> (cost_error + cost_attempt) \<times> cost_ledger" where
  "begin_dispatch env l aid digest =
    raise_rejection (transaction True env l (begin_dispatch_body env aid digest))"

definition cancel_body :: "cost_env \<Rightarrow> string \<Rightarrow> cost_attempt body" where
  "cancel_body env aid db =
    bindE (get_attempt db aid) (\<lambda>a.
    if attempt_state a = Cancelled then Inr (a, db)
    else
      bindE (require (attempt_state a = Estimated \<or> attempt_state a = Reserved)
        (CostError ''cost_reconciliation_required'')) (\<lambda>_.
      bindE (event env ''reservation_released'' (attempt_scope a) (Some aid)
          (PDict [(''released_microusd'', PInt (reserved_microusd a)), (''reason'', PStr ''not_sent'')]) None
        (set_attempt aid (\<lambda>r. r\<lparr>attempt_state := Cancelled, reserved_microusd := 0,
          actual_microusd := Some 0, actual_source := Some ''not_sent''\<rparr>) db)) (\<lambda>db'.
      reading (\<lambda>d. get_attempt d aid) db')))"

definition cancel :: "cost_env \<Rightarrow> cost_ledger \<Rightarrow> string \<Rightarrow> (cost_error + cost_attempt) \<times> cost_ledger" where
  "cancel env l aid = transaction True env l (cancel_body env aid)"

definition mark_uncertain_body :: "cost_env \<Rightarrow> string \<Rightarrow> string \<Rightarrow> cost_attempt body" where
  "mark_uncertain_body env aid reason db =
    bindE (get_attempt db aid) (\<lambda>a.
    if attempt_state a = Uncertain then Inr (a, db)
    else
      bindE (require (attempt_state a = Dispatched) (CostError ''cost_invalid_transition'')) (\<lambda>_.
      bindE (event env ''cost_uncertain'' (attempt_scope a) (Some aid)
          (PDict [(''reason'', PStr reason)]) None
        (set_attempt aid (\<lambda>r. r\<lparr>attempt_state := Uncertain\<rparr>) db)) (\<lambda>db'.
      reading (\<lambda>d. get_attempt d aid) db')))"

definition uncertainty_reasons :: "string list" where
  "uncertainty_reasons = [''timeout'', ''cancelled'', ''transport_error'', ''missing_usage'', ''recovery'']"

definition mark_uncertain :: "cost_env \<Rightarrow> cost_ledger \<Rightarrow> string \<Rightarrow> string
    \<Rightarrow> (cost_error + cost_attempt) \<times> cost_ledger" where
  "mark_uncertain env l aid reason =
    checked (require (reason \<in> set uncertainty_reasons) (CostError ''cost_invalid_uncertainty_reason'')) l
      (transaction True env l (mark_uncertain_body env aid reason))"

section \<open>Settlement\<close>

definition settlement_json :: "int \<Rightarrow> string \<Rightarrow> string \<Rightarrow> token_usage option \<Rightarrow> pyval" where
  "settlement_json amount source reference usage = PDict
    [(''actual_microusd'', PInt amount), (''source'', PStr source), (''reference'', PStr reference),
     (''usage'', json_opt usage_json usage)]"

definition settle_body :: "cost_env \<Rightarrow> string \<Rightarrow> token_usage option \<Rightarrow> int \<Rightarrow> string \<Rightarrow> string \<Rightarrow> string
    \<Rightarrow> cost_attempt body" where
  "settle_body env aid usage given source reference eid db =
    bindE (get_attempt db aid) (\<lambda>a.
    bindE (case usage of None \<Rightarrow> Inr given
        | Some u \<Rightarrow> bindE (check_price_card (q_price (attempt_quote a))) (\<lambda>p. cost p u)) (\<lambda>amount.
    let payload = settlement_json amount source reference usage in
    bindE (replayed eid ''cost_settled'' (attempt_scope a) (Some aid) payload db) (\<lambda>seen.
    if seen then reading (\<lambda>d. get_attempt d aid) db
    else
      bindE (require (attempt_state a \<in> {Dispatched, Uncertain, Settled} \<and>
          \<not> (attempt_state a = Settled \<and> source \<noteq> ''billing_confirmed''))
        (CostError ''cost_invalid_transition'')) (\<lambda>_.
      let prov = provider (q_price (attempt_quote a)) in
      bindE (require (find (\<lambda>r. receipt_provider r = prov \<and> receipt_source r = source \<and> receipt_ref r = reference)
          (receipts db) = None) (CostError ''cost_receipt_already_used'')) (\<lambda>_.
      bindE (event env ''cost_settled'' (attempt_scope a) (Some aid) payload (Some eid)
        (set_attempt aid (\<lambda>r. r\<lparr>attempt_state := Settled, reserved_microusd := 0,
            actual_microusd := Some amount, actual_source := Some source,
            attempt_usage := (case usage of None \<Rightarrow> attempt_usage r | Some u \<Rightarrow> Some u),
            receipt_reference := Some reference\<rparr>)
          (db\<lparr>receipts := receipts db @ [\<lparr>receipt_provider = prov, receipt_source = source,
            receipt_ref = reference, receipt_attempt = aid\<rparr>]\<rparr>))) (\<lambda>db'.
      reading (\<lambda>d. get_attempt d aid) db'))))))"

definition settle :: "cost_env \<Rightarrow> cost_ledger \<Rightarrow> string \<Rightarrow> token_usage option \<Rightarrow> int \<Rightarrow> string \<Rightarrow> string \<Rightarrow> string
    \<Rightarrow> (cost_error + cost_attempt) \<times> cost_ledger" where
  "settle env l aid usage given source reference eid =
    checked (bindE (check_identifier reference) (\<lambda>_. Inr ())) l
      (transaction True env l (settle_body env aid usage given source reference eid))"

definition settle_usage :: "cost_env \<Rightarrow> cost_ledger \<Rightarrow> string \<Rightarrow> token_usage \<Rightarrow> string \<Rightarrow> string
    \<Rightarrow> (cost_error + cost_attempt) \<times> cost_ledger" where
  "settle_usage env l aid usage reference eid =
    settle env l aid (Some usage) 0 ''usage_derived'' reference eid"

definition reconcile :: "cost_env \<Rightarrow> cost_ledger \<Rightarrow> string \<Rightarrow> int \<Rightarrow> string \<Rightarrow> string
    \<Rightarrow> (cost_error + cost_attempt) \<times> cost_ledger" where
  "reconcile env l aid amount reference eid =
    checked (bindE (check_integer MAX_AMOUNT amount) (\<lambda>_. Inr ())) l
      (settle env l aid None amount ''billing_confirmed'' reference eid)"

section \<open>Reports and reads\<close>

record cost_group =
  group_key :: "string \<times> string"
  group_actual :: int
  group_reserved :: int
  group_attempts :: nat
  group_unresolved :: nat
  group_input_tokens :: int
  group_cached_input_tokens :: int
  group_output_tokens :: int
  group_with_usage :: nat

definition empty_group :: "string \<times> string \<Rightarrow> cost_group" where
  "empty_group k = \<lparr>group_key = k, group_actual = 0, group_reserved = 0, group_attempts = 0,
    group_unresolved = 0, group_input_tokens = 0, group_cached_input_tokens = 0,
    group_output_tokens = 0, group_with_usage = 0\<rparr>"

definition model_key :: "cost_attempt \<Rightarrow> string \<times> string" where
  "model_key a = (provider (q_price (attempt_quote a)), model (q_price (attempt_quote a)))"

definition bump_group :: "cost_attempt \<Rightarrow> cost_group \<Rightarrow> cost_group" where
  "bump_group a g =
    (let g1 = g\<lparr>group_actual := group_actual g + actual_or_zero a,
                group_reserved := group_reserved g + reserved_microusd a,
                group_attempts := group_attempts g + 1,
                group_unresolved := group_unresolved g + (if unresolved a then 1 else 0)\<rparr>
     in case attempt_usage a of
          None \<Rightarrow> g1
        | Some u \<Rightarrow> g1\<lparr>group_input_tokens := group_input_tokens g1 + input_tokens u,
                       group_cached_input_tokens := group_cached_input_tokens g1 + cached_input_tokens u,
                       group_output_tokens := group_output_tokens g1 + output_tokens u,
                       group_with_usage := group_with_usage g1 + 1\<rparr>)"

text \<open>\<open>groups.setdefault(key, empty)\<close> and the additions, on an insertion-ordered table.\<close>

fun add_to_groups :: "cost_group list \<Rightarrow> cost_attempt \<Rightarrow> cost_group list" where
  "add_to_groups [] a = [bump_group a (empty_group (model_key a))]"
| "add_to_groups (g # gs) a =
    (if group_key g = model_key a then bump_group a g # gs else g # add_to_groups gs a)"

record cost_report =
  rep_summary :: effective_snapshot
  rep_chain :: "cost_snapshot list"
  rep_by_model :: "cost_group list"
  rep_last_sequence :: nat

definition report_body :: "string \<Rightarrow> cost_report body" where
  "report_body sid = reading (\<lambda>db.
    bindE (effective db sid) (\<lambda>summary.
    let groups = foldl add_to_groups [] (scope_attempts db sid) in
    bindE (chain_snapshots db sid) (\<lambda>rows.
    Inr \<lparr>rep_summary = summary, rep_chain = rows,
      rep_by_model = sort_key (\<lambda>g. fst (group_key g)) (sort_key (\<lambda>g. snd (group_key g)) groups),
      rep_last_sequence = length (events db)\<rparr>)))"

definition report :: "cost_env \<Rightarrow> cost_ledger \<Rightarrow> string option \<Rightarrow> (cost_error + cost_report) \<times> cost_ledger" where
  "report env l sid =
    transaction False env l
      (report_body (case sid of None \<Rightarrow> account_id (ledger_db l) | Some s \<Rightarrow> s))"

definition snapshot_call :: "cost_env \<Rightarrow> cost_ledger \<Rightarrow> string \<Rightarrow> (cost_error + effective_snapshot) \<times> cost_ledger" where
  "snapshot_call env l sid = transaction False env l (reading (\<lambda>db. effective db sid))"

definition attempt_call :: "cost_env \<Rightarrow> cost_ledger \<Rightarrow> string
    \<Rightarrow> (cost_error + (cost_attempt \<times> int option)) \<times> cost_ledger" where
  "attempt_call env l aid = transaction False env l
    (reading (\<lambda>db. bindE (get_attempt db aid) (\<lambda>a. Inr (a, reservation_overrun a))))"

definition events_call :: "cost_env \<Rightarrow> cost_ledger \<Rightarrow> int \<Rightarrow> int
    \<Rightarrow> (cost_error + (nat \<times> cost_event) list) \<times> cost_ledger" where
  "events_call env l after limit =
    checked (bindE (check_integer (2 ^ 63 - 1) after) (\<lambda>_.
        bindE (check_integer 1000 limit) (\<lambda>_. Inr ()))) l
      (transaction False env l (reading (\<lambda>db.
        Inr (take (nat limit) (filter (\<lambda>se. int (fst se) > after)
          (enumerate 1 (events db)))))))"

definition attempts_call :: "cost_env \<Rightarrow> cost_ledger \<Rightarrow> string \<Rightarrow> int
    \<Rightarrow> (cost_error + cost_attempt list) \<times> cost_ledger" where
  "attempts_call env l after limit =
    checked (bindE (if after \<noteq> [] then bindE (check_identifier after) (\<lambda>_. Inr ()) else Inr ()) (\<lambda>_.
        bindE (check_integer 1000 limit) (\<lambda>_. Inr ()))) l
      (transaction False env l (reading (\<lambda>db.
        mapE (get_attempt db) (take (nat limit)
          (filter (\<lambda>a. a > after) (sort (map attempt_id (attempts db))))))))"

section \<open>Creation and opening\<close>

definition open_db :: "bool \<Rightarrow> outcome \<Rightarrow> cost_db \<Rightarrow> cost_error + cost_ledger" where
  "open_db ro files db =
    (case bindE (effect files) (\<lambda>_.
        bindE (get_scope db (account_id db)) (\<lambda>root.
        bindE (require (scope_kind root = ''account'' \<and> parent_id root = None \<and> limit_microusd root \<noteq> None)
          (CostError ''cost_ledger_invalid'')) (\<lambda>_.
        Inr \<lparr>ledger_db = db, ledger_open = True, failed = False, read_only = ro\<rparr>))) of
      Inl e \<Rightarrow> Inl unavailable
    | Inr l \<Rightarrow> Inr l)"

definition initial_db :: "cost_env \<Rightarrow> string \<Rightarrow> string \<Rightarrow> int \<Rightarrow> string \<Rightarrow> string \<Rightarrow> cost_error + cost_db" where
  "initial_db env lid account limit per md =
    (let root = \<lparr>scope_id = account, parent_id = None, scope_kind = ''account'', limit_microusd = Some limit\<rparr> in
     event env ''scope_created'' account None
       (PDict [(''parent_id'', PNone), (''kind'', PStr ''account''), (''limit_microusd'', PInt limit)]) None
       \<lparr>ledger_id = lid, period = per, account_id = account, ledger_mode = md,
        scopes = [root], prices = [], attempts = [], events = [], receipts = []\<rparr>)"

definition create :: "cost_env \<Rightarrow> string \<Rightarrow> string \<Rightarrow> int \<Rightarrow> string \<Rightarrow> string \<Rightarrow> cost_error + cost_ledger" where
  "create env lid account limit per md =
    bindE (check_identifier account) (\<lambda>_.
    bindE (check_identifier per) (\<lambda>_.
    bindE (check_integer MAX_AMOUNT limit) (\<lambda>_.
    bindE (require (md = ''provider'' \<or> md = ''simulation'') (CostError ''cost_invalid_mode'')) (\<lambda>_.
    case initial_db env lid account limit per md of
      Inl e \<Rightarrow> Inl unavailable
    | Inr db \<Rightarrow> open_db False (files_before env) db))))"

definition close :: "cost_env \<Rightarrow> cost_ledger \<Rightarrow> (cost_error + unit) \<times> cost_ledger" where
  "close env l =
    (if \<not> same_process env then (Inl unavailable, l) else (Inr (), l\<lparr>ledger_open := False\<rparr>))"

end
