(* ===== verification/CostLedgerTree.thy ===== *)
theory CostLedgerTree
  imports CostLedger "HOL-Library.Multiset"
begin

text \<open>
  The tree of accounting scopes. Under the table invariant \<open>scopes_ok\<close> the parent walk
  (\<open>chain\<close>) always ends at the account, the recursive query behind \<open>scope_attempts\<close> visits
  every scope of the subtree exactly once, and the two views agree: an attempt is counted at a
  scope exactly when that scope is on the attempt's chain.
\<close>

section \<open>Well-formed scope tables\<close>

definition scope_ok :: "cost_db \<Rightarrow> cost_scope \<Rightarrow> bool" where
  "scope_ok db r \<longleftrightarrow> is_identifier (scope_id r) \<and>
    (case limit_microusd r of None \<Rightarrow> True | Some m \<Rightarrow> 0 \<le> m) \<and>
    (case parent_id r of
       None \<Rightarrow> scope_id r = account_id db \<and> scope_kind r = ''account'' \<and> limit_microusd r \<noteq> None
     | Some p \<Rightarrow> (\<exists>q \<in> set (scopes db). scope_id q = p \<and>
         kind_allowed (scope_kind r) (scope_kind q)))"

definition scopes_ok :: "cost_db \<Rightarrow> bool" where
  "scopes_ok db \<longleftrightarrow> distinct (map scope_id (scopes db)) \<and> list_all (scope_ok db) (scopes db) \<and>
    list_ex (\<lambda>r. scope_id r = account_id db \<and> parent_id r = None) (scopes db)"

definition rank :: "string \<Rightarrow> nat" where
  "rank k = (if k = ''account'' then 0 else if k = ''engagement'' then 1 else if k = ''session'' then 2
    else if k = ''agent'' then 3 else 4)"

lemma rank_le: "rank k \<le> 4"
  by (simp add: rank_def)

lemma kind_allowed_rank: "kind_allowed k k' \<Longrightarrow> rank k' < rank k"
  by (auto simp: kind_allowed_def parent_kinds_def rank_def split: if_splits)

lemma find_scope_Some:
  assumes "scopes_ok db"
  shows "find_scope db s = Some r \<longleftrightarrow> r \<in> set (scopes db) \<and> scope_id r = s"
  using assms find_unique [of scope_id "scopes db" r s]
  by (auto simp: find_scope_def scopes_ok_def dest: find_key_Some)

lemma scope_unique:
  "scopes_ok db \<Longrightarrow> r \<in> set (scopes db) \<Longrightarrow> q \<in> set (scopes db) \<Longrightarrow> scope_id r = scope_id q \<Longrightarrow> r = q"
  by (metis find_scope_Some option.inject)

lemma scopes_okD: "scopes_ok db \<Longrightarrow> r \<in> set (scopes db) \<Longrightarrow> scope_ok db r"
  by (simp add: scopes_ok_def list_all_iff)

lemma scope_parent:
  assumes "scopes_ok db" "r \<in> set (scopes db)" "parent_id r = Some p"
  obtains q where "q \<in> set (scopes db)" "scope_id q = p" "rank (scope_kind q) < rank (scope_kind r)"
proof -
  have "scope_ok db r" using assms by (simp add: scopes_okD)
  with assms(3) obtain q where "q \<in> set (scopes db)" "scope_id q = p"
    "kind_allowed (scope_kind r) (scope_kind q)"
    unfolding scope_ok_def by auto
  then show thesis using that kind_allowed_rank by auto
qed

lemma get_scope_known:
  "scopes_ok db \<Longrightarrow> r \<in> set (scopes db) \<Longrightarrow> get_scope db (scope_id r) = Inr r"
  using find_scope_Some [of db "scope_id r" r] scopes_okD [of db r]
  by (simp add: get_scope_def scope_ok_def check_identifier_def)

section \<open>The parent relation\<close>

definition par :: "cost_db \<Rightarrow> (string \<times> string) set" where
  "par db = {(scope_id r, p) | r p. r \<in> set (scopes db) \<and> parent_id r = Some p}"

definition scope_rank :: "cost_db \<Rightarrow> string \<Rightarrow> nat" where
  "scope_rank db s = (case find_scope db s of None \<Rightarrow> 0 | Some r \<Rightarrow> rank (scope_kind r))"

lemma par_rank:
  assumes "scopes_ok db" "(x, p) \<in> par db"
  shows "scope_rank db p < scope_rank db x"
proof -
  from assms(2) obtain r where r: "r \<in> set (scopes db)" "x = scope_id r" "parent_id r = Some p"
    by (auto simp: par_def)
  from scope_parent [OF assms(1) r(1,3)] obtain q
    where "q \<in> set (scopes db)" "scope_id q = p" "rank (scope_kind q) < rank (scope_kind r)" .
  with r assms(1) show ?thesis
    using find_scope_Some [of db x r] find_scope_Some [of db p q] by (simp add: scope_rank_def)
qed

lemma par_single: "scopes_ok db \<Longrightarrow> (x, p) \<in> par db \<Longrightarrow> (x, q) \<in> par db \<Longrightarrow> p = q"
  unfolding par_def using scope_unique by fastforce

lemma par_pow_rank:
  "scopes_ok db \<Longrightarrow> (x, s) \<in> par db ^^ k \<Longrightarrow> scope_rank db s + k \<le> scope_rank db x"
proof (induction k arbitrary: s)
  case (Suc k)
  from Suc.prems(2) obtain y where y: "(x, y) \<in> par db ^^ k" "(y, s) \<in> par db" by auto
  show ?case using Suc.IH [OF Suc.prems(1) y(1)] par_rank [OF Suc.prems(1) y(2)] by simp
qed simp

lemma par_pow_single:
  "scopes_ok db \<Longrightarrow> (x, s) \<in> par db ^^ k \<Longrightarrow> (x, t) \<in> par db ^^ k \<Longrightarrow> s = t"
proof (induction k arbitrary: s t)
  case (Suc k)
  from Suc.prems(2,3) obtain y z where "(x, y) \<in> par db ^^ k" "(y, s) \<in> par db"
    "(x, z) \<in> par db ^^ k" "(z, t) \<in> par db" by auto
  with Suc.IH [OF Suc.prems(1)] show ?case using par_single [OF Suc.prems(1)] by blast
qed simp

lemma par_pow_depth:
  assumes "scopes_ok db" "(x, s) \<in> par db ^^ j" "(x, s) \<in> par db ^^ k"
  shows "j = k"
proof (rule ccontr)
  have *: False if "(x, s) \<in> par db ^^ j" "(x, s) \<in> par db ^^ k" "j < k" for j k
  proof -
    have "(x, s) \<in> par db ^^ j O par db ^^ (k - j)"
      using that by (simp flip: relpow_add)
    then obtain y where "(x, y) \<in> par db ^^ j" "(y, s) \<in> par db ^^ (k - j)" by auto
    then have "(s, s) \<in> par db ^^ (k - j)"
      using par_pow_single [OF assms(1)] that(1) by blast
    from par_pow_rank [OF assms(1) this] that(3) show False by simp
  qed
  assume "j \<noteq> k"
  then show False using * [OF assms(2,3)] * [OF assms(3,2)] by linarith
qed

text \<open>The number of rows bounds the depth, so the query's fuel is never the reason it stops.\<close>

lemma par_pow_length:
  assumes ok: "scopes_ok db" and path: "(x, s) \<in> par db ^^ k"
  shows "k \<le> length (scopes db)"
proof -
  let ?below = "\<lambda>y. {r \<in> set (scopes db). rank (scope_kind r) \<le> scope_rank db y}"
  have "card (?below s) + k \<le> card (?below x)"
    using path
  proof (induction k arbitrary: s)
    case (Suc k)
    then obtain y where y: "(x, y) \<in> par db ^^ k" "(y, s) \<in> par db" by auto
    from y(2) obtain r where r: "r \<in> set (scopes db)" "y = scope_id r" by (auto simp: par_def)
    then have "scope_rank db y = rank (scope_kind r)"
      using find_scope_Some [OF ok, of y r] by (simp add: scope_rank_def)
    then have "?below s \<subset> ?below y"
      using par_rank [OF ok y(2)] r(1) by (force simp: less_le_not_le)
    then have "card (?below s) < card (?below y)" by (intro psubset_card_mono) auto
    with Suc.IH [OF y(1)] show ?case by simp
  qed simp
  also have "card (?below x) \<le> card (set (scopes db))" by (intro card_mono) auto
  also have "\<dots> \<le> length (scopes db)" by (rule card_length)
  finally show ?thesis by simp
qed

section \<open>The recursive query\<close>

lemma set_children: "x \<in> set (children db s) \<longleftrightarrow> (x, s) \<in> par db"
  by (auto simp: children_def par_def)

lemma distinct_children:
  assumes "scopes_ok db" "distinct level"
  shows "distinct (concat (map (children db) level))"
  using assms(2)
proof (induction level)
  case (Cons s level)
  have "distinct (children db s)"
    using assms(1) by (simp add: children_def scopes_ok_def distinct_map_filter)
  moreover have "set (children db s) \<inter> (\<Union>t \<in> set level. set (children db t)) = {}"
    using Cons.prems set_children par_single [OF assms(1)] by (auto, blast)
  ultimately show ?case using Cons by auto
qed simp

lemma set_descendants:
  "set (descendants n db level) = {x. \<exists>s \<in> set level. \<exists>k < n. (x, s) \<in> par db ^^ k}"
proof (induction n arbitrary: level)
  case (Suc n)
  show ?case
  proof (cases "level = []")
    case False
    have step: "(\<exists>k < Suc n. (x, s) \<in> par db ^^ k) \<longleftrightarrow>
        x = s \<or> (\<exists>y. (y, s) \<in> par db \<and> (\<exists>k < n. (x, y) \<in> par db ^^ k))" for x s
      by (auto simp: Ex_less_Suc2)
    from False show ?thesis
      unfolding step by (auto simp: Suc set_children) (metis set_children)+
  qed simp
qed simp

lemma distinct_descendants:
  assumes ok: "scopes_ok db"
  shows "distinct level \<Longrightarrow> (\<And>x. x \<in> set level \<Longrightarrow> (x, s) \<in> par db ^^ j) \<Longrightarrow>
    distinct (descendants n db level)"
proof (induction n arbitrary: level j)
  case (Suc n)
  have next_level: "(x, s) \<in> par db ^^ Suc j" if x: "x \<in> set (concat (map (children db) level))" for x
  proof -
    from x obtain y where "(x, y) \<in> par db" "y \<in> set level" by (auto simp: set_children)
    with Suc.prems(2) show ?thesis by (meson relpow_Suc_I2)
  qed
  have "distinct (descendants n db (concat (map (children db) level)))"
    by (rule Suc.IH [OF distinct_children [OF ok Suc.prems(1)] next_level])
  moreover have False if "x \<in> set level" "x \<in> set (descendants n db (concat (map (children db) level)))" for x
  proof -
    from that(2) obtain y k where "y \<in> set (concat (map (children db) level))" "(x, y) \<in> par db ^^ k"
      unfolding set_descendants by auto
    then have "(x, s) \<in> par db ^^ (k + Suc j)"
      using next_level by (auto simp only: relpow_add)
    with par_pow_depth [OF ok Suc.prems(2) [OF that(1)]] show False by fastforce
  qed
  ultimately show ?case using Suc.prems(1) by auto
qed simp

lemma query_complete:
  assumes "scopes_ok db"
  shows "x \<in> set (descendants (Suc (length (scopes db))) db [s]) \<longleftrightarrow> (x, s) \<in> (par db)\<^sup>*"
  using par_pow_length [OF assms]
  by (auto simp: set_descendants rtrancl_power less_Suc_eq_le simp del: descendants.simps)

lemma query_distinct:
  "scopes_ok db \<Longrightarrow> distinct (descendants n db [s])"
  by (rule distinct_descendants [where j = 0]) auto

lemma mset_concat_filter:
  "distinct ds \<Longrightarrow> mset (concat (map (\<lambda>d. filter (\<lambda>a. k a = d) xs) ds)) = mset (filter (\<lambda>a. k a \<in> set ds) xs)"
proof (induction ds)
  case (Cons d ds)
  have "filter_mset (\<lambda>a. k a = d \<or> k a \<in> set ds) (mset xs)
      = filter_mset (\<lambda>a. k a = d) (mset xs) + filter_mset (\<lambda>a. k a \<in> set ds) (mset xs)"
    using Cons.prems by (induction xs) auto
  with Cons show ?case by simp
qed simp

section \<open>Attempts counted at a scope\<close>

lemma scope_attempts_mset:
  "scopes_ok db \<Longrightarrow> mset (scope_attempts db s) =
    mset (filter (\<lambda>a. (attempt_scope a, s) \<in> (par db)\<^sup>*) (attempts db))"
  unfolding scope_attempts_def
  by (simp only: mset_concat_filter [OF query_distinct] query_complete)

definition committed_at :: "cost_db \<Rightarrow> string \<Rightarrow> int" where
  "committed_at db s = sum_list (map (\<lambda>a. actual_or_zero a + reserved_microusd a) (scope_attempts db s))"

lemma committed_at_sum:
  assumes "scopes_ok db"
  shows "committed_at db s =
    sum_list (map (\<lambda>a. if (attempt_scope a, s) \<in> (par db)\<^sup>* then actual_or_zero a + reserved_microusd a else 0)
      (attempts db))"
proof -
  have "committed_at db s = sum_mset (image_mset (\<lambda>a. actual_or_zero a + reserved_microusd a)
      (mset (scope_attempts db s)))"
    by (simp add: committed_at_def sum_mset_sum_list flip: mset_map)
  also have "\<dots> = sum_list (map (\<lambda>a. actual_or_zero a + reserved_microusd a)
      (filter (\<lambda>a. (attempt_scope a, s) \<in> (par db)\<^sup>*) (attempts db)))"
    by (simp only: scope_attempts_mset [OF assms] sum_mset_sum_list flip: mset_map)
  also have "\<dots> = sum_list (map (\<lambda>a. if (attempt_scope a, s) \<in> (par db)\<^sup>*
      then actual_or_zero a + reserved_microusd a else 0) (attempts db))"
    by (rule sum_list_map_filter')
  finally show ?thesis .
qed

lemma snapshot_committed:
  "snapshot db s = Inr v \<Longrightarrow> snap_committed v = committed_at db s"
  by (auto simp: snapshot_def snapshot_of_def Let_def committed_at_def res_simps sum_list_addf)

section \<open>The chain\<close>

lemma chain_loop_None: "chain_loop db acc None = Inr acc"
  by (simp add: chain_loop.simps)

lemma chain_loop_Some:
  "chain_loop db acc (Some s) = bindE (get_scope db s) (\<lambda>r.
    if 5 \<le> length acc then Inl (CostError ''cost_ledger_invalid'') else chain_loop db (acc @ [r]) (parent_id r))"
  by (subst chain_loop.simps) (simp add: not_less_eq_eq less_Suc_eq_le)

lemma chain_known:
  assumes "chain db x = Inr rows"
  obtains r where "find_scope db x = Some r"
  using assms that by (auto simp: chain_def chain_loop_Some get_scope_def res_simps split: option.splits)

lemma rtrancl_single_edge:
  assumes "(a, p) \<in> R" and "\<And>q. (a, q) \<in> R \<Longrightarrow> q = p"
  shows "{s. (a, s) \<in> R\<^sup>*} = insert a {s. (p, s) \<in> R\<^sup>*}"
proof -
  have "(a, s) \<in> R\<^sup>* \<longleftrightarrow> s = a \<or> (p, s) \<in> R\<^sup>*" for s
  proof
    assume "(a, s) \<in> R\<^sup>*"
    then show "s = a \<or> (p, s) \<in> R\<^sup>*" by (rule converse_rtranclE) (use assms(2) in auto)
  next
    assume "s = a \<or> (p, s) \<in> R\<^sup>*"
    then show "(a, s) \<in> R\<^sup>*" using assms(1) by (auto intro: converse_rtrancl_into_rtrancl)
  qed
  then show ?thesis by auto
qed

lemma chain_loop_total:
  assumes ok: "scopes_ok db"
  shows "r \<in> set (scopes db) \<Longrightarrow> rank (scope_kind r) + length acc < 5 \<Longrightarrow>
    \<exists>rows. chain_loop db acc (Some (scope_id r)) = Inr (acc @ rows) \<and> rows \<noteq> [] \<and>
      scope_id (last rows) = account_id db \<and> set rows \<subseteq> set (scopes db) \<and>
      scope_id ` set rows = {s. (scope_id r, s) \<in> (par db)\<^sup>*}"
proof (induction "rank (scope_kind r)" arbitrary: r acc rule: less_induct)
  case less
  have get: "get_scope db (scope_id r) = Inr r" using get_scope_known [OF ok less.prems(1)] .
  have ok_r: "scope_ok db r" using scopes_okD [OF ok less.prems(1)] .
  show ?case
  proof (cases "parent_id r")
    case None
    have "(scope_id r, s) \<in> (par db)\<^sup>* \<longleftrightarrow> s = scope_id r" for s
    proof
      assume "(scope_id r, s) \<in> (par db)\<^sup>*"
      then show "s = scope_id r"
      proof (cases rule: converse_rtranclE)
        case (step y)
        then obtain q where "q \<in> set (scopes db)" "scope_id q = scope_id r" "parent_id q = Some y"
          by (auto simp: par_def)
        with None less.prems(1) show ?thesis using scope_unique [OF ok, of q r] by simp
      qed simp
    qed simp
    then have "scope_id ` set [r] = {s. (scope_id r, s) \<in> (par db)\<^sup>*}" by auto
    moreover have "chain_loop db acc (Some (scope_id r)) = Inr (acc @ [r])"
      using less.prems(2) by (simp add: chain_loop_Some get None chain_loop_None)
    moreover have "scope_id r = account_id db" using ok_r None by (simp add: scope_ok_def)
    ultimately show ?thesis using less.prems(1) by (intro exI [of _ "[r]"]) simp
  next
    case (Some p)
    from scope_parent [OF ok less.prems(1) Some] obtain q
      where q: "q \<in> set (scopes db)" "scope_id q = p" "rank (scope_kind q) < rank (scope_kind r)" .
    with less.prems(2) have "rank (scope_kind q) + length (acc @ [r]) < 5" by simp
    from less.hyps [OF q(3) q(1) this] q(2) obtain rows where rows:
      "chain_loop db (acc @ [r]) (Some p) = Inr ((acc @ [r]) @ rows)" "rows \<noteq> []"
      "scope_id (last rows) = account_id db" "set rows \<subseteq> set (scopes db)"
      "scope_id ` set rows = {s. (p, s) \<in> (par db)\<^sup>*}" by auto
    have edge: "(scope_id r, p) \<in> par db" using less.prems(1) Some by (auto simp: par_def)
    then have "{s. (scope_id r, s) \<in> (par db)\<^sup>*} = insert (scope_id r) {s. (p, s) \<in> (par db)\<^sup>*}"
      by (rule rtrancl_single_edge) (rule par_single [OF ok _ edge])
    moreover have "chain_loop db acc (Some (scope_id r)) = Inr (acc @ r # rows)"
      using less.prems(2) rows(1) by (simp add: chain_loop_Some get Some)
    ultimately show ?thesis
      using rows(2-5) less.prems(1) by (intro exI [of _ "r # rows"]) simp
  qed
qed

lemma chain_total:
  assumes "scopes_ok db" "r \<in> set (scopes db)"
  obtains rows where "chain db (scope_id r) = Inr rows" "set rows \<subseteq> set (scopes db)"
    "scope_id ` set rows = {s. (scope_id r, s) \<in> (par db)\<^sup>*}"
proof -
  have "rank (scope_kind r) + length [] < 5" using rank_le [of "scope_kind r"] by simp
  from chain_loop_total [OF assms this] obtain rows where
    "chain_loop db [] (Some (scope_id r)) = Inr rows" "scope_id (last rows) = account_id db"
    "set rows \<subseteq> set (scopes db)" "scope_id ` set rows = {s. (scope_id r, s) \<in> (par db)\<^sup>*}" by auto
  then have "chain db (scope_id r) = Inr (rev rows)" "set (rev rows) \<subseteq> set (scopes db)"
    "scope_id ` set (rev rows) = {s. (scope_id r, s) \<in> (par db)\<^sup>*}" by (simp_all add: chain_def)
  then show thesis by (rule that)
qed

lemma chain_rows:
  assumes "scopes_ok db" "chain db x = Inr rows"
  shows "set rows \<subseteq> set (scopes db) \<and> scope_id ` set rows = {s. (x, s) \<in> (par db)\<^sup>*}"
proof -
  from chain_known [OF assms(2)] obtain r where "find_scope db x = Some r" .
  then have r: "r \<in> set (scopes db)" "scope_id r = x" using find_scope_Some [OF assms(1)] by auto
  from chain_total [OF assms(1) r(1)] obtain rows' where "chain db (scope_id r) = Inr rows'"
    "set rows' \<subseteq> set (scopes db)" "scope_id ` set rows' = {s. (scope_id r, s) \<in> (par db)\<^sup>*}" .
  with assms(2) r(2) show ?thesis by simp
qed

end
