(* ===== verification/CostLedgerSafety.thy ===== *)
theory CostLedgerSafety
  imports CostLedgerTree "HOL-Library.Sublist"
begin

text \<open>
  The invariant of the accounting tables, the step relations of the ledger (one rule per
  public operation, over the transaction it runs) and the life cycle of an attempt as a
  partial order on its states. The interpretations of the two state-machine contracts give
  the invariant and the append-only growth for every run.
\<close>

section \<open>Transactions\<close>

lemma transaction_cases:
  assumes "transaction w env l body = (res, l')"
  obtains (commit) x db where "res = Inr x" "body (ledger_db l) = Inr (x, db)" "l' = l\<lparr>ledger_db := db\<rparr>"
      "\<not> failed l" "w \<longrightarrow> \<not> read_only l"
    | (abort) e where "res = Inl e" "ledger_db l' = ledger_db l"
proof (cases "same_process env \<and> \<not> (w \<and> read_only l)")
  case False
  with assms have "ledger_db l' = ledger_db l" "\<exists>e. res = Inl e"
    by (auto simp: transaction_def split: if_splits)
  then show thesis using abort by blast
next
  case True
  show thesis
  proof (cases "committed_run env l body")
    case (Inl e)
    with True assms have "ledger_db l' = ledger_db l" "\<exists>e. res = Inl e"
      by (auto simp: transaction_def Let_def split: if_splits)
    then show thesis using abort by blast
  next
    case (Inr xdb)
    then obtain x db where xdb: "xdb = (x, db)" "body (ledger_db l) = Inr (x, db)" "\<not> failed l"
      by (cases xdb) (auto simp: committed_run_def check_files_def res_simps)
    with True Inr assms have "res = Inr x" "l' = l\<lparr>ledger_db := db\<rparr>" "w \<longrightarrow> \<not> read_only l"
      by (auto simp: transaction_def)
    with xdb(2,3) show thesis using commit by blast
  qed
qed

lemma reading_Inr [simp]: "reading f db = Inr (x, db') \<longleftrightarrow> f db = Inr x \<and> db' = db"
  by (auto simp: reading_def res_simps)

lemma checked_cases:
  assumes "checked g l run = (res, l')"
  obtains "run = (res, l')" "g = Inr ()" | e where "res = Inl e" "l' = l"
  using assms by (auto simp: checked_def split: sum.splits)

section \<open>Attempt states\<close>

definition state_le :: "attempt_state \<Rightarrow> attempt_state \<Rightarrow> bool" where
  "state_le s t \<longleftrightarrow>
    (case s of
      Estimated \<Rightarrow> True
    | Reserved \<Rightarrow> t \<noteq> Estimated
    | Dispatched \<Rightarrow> t \<in> {Dispatched, Uncertain, Settled}
    | Uncertain \<Rightarrow> t \<in> {Uncertain, Settled}
    | Settled \<Rightarrow> t = Settled
    | Cancelled \<Rightarrow> t = Cancelled)"

instantiation attempt_state :: order
begin

definition less_eq_attempt_state :: "attempt_state \<Rightarrow> attempt_state \<Rightarrow> bool" where
  "less_eq_attempt_state = state_le"

definition less_attempt_state :: "attempt_state \<Rightarrow> attempt_state \<Rightarrow> bool" where
  "less_attempt_state s t \<longleftrightarrow> state_le s t \<and> \<not> state_le t s"

instance
proof (intro_classes, goal_cases)
  case (1 x y)
  then show ?case by (simp add: less_eq_attempt_state_def less_attempt_state_def)
next
  case (2 x)
  then show ?case by (cases x) (simp_all add: less_eq_attempt_state_def state_le_def)
next
  case (3 x y z)
  then show ?case
    by (cases x; cases y) (auto simp: less_eq_attempt_state_def state_le_def)
next
  case (4 x y)
  then show ?case
    by (cases x; cases y) (auto simp: less_eq_attempt_state_def state_le_def)
qed

end

definition sent :: "attempt_state \<Rightarrow> bool" where
  "sent s \<longleftrightarrow> s = Dispatched \<or> s = Uncertain \<or> s = Settled"

definition dispatches :: "cost_db \<Rightarrow> string \<Rightarrow> nat" where
  "dispatches db aid =
    length (filter (\<lambda>e. event_kind e = ''dispatch_started'' \<and> event_attempt e = Some aid) (events db))"

section \<open>The invariant\<close>

definition amounts_ok :: "cost_attempt \<Rightarrow> bool" where
  "amounts_ok a \<longleftrightarrow>
    (case attempt_state a of
      Estimated \<Rightarrow> reserved_microusd a = 0 \<and> actual_microusd a = None
    | Cancelled \<Rightarrow> reserved_microusd a = 0 \<and> actual_microusd a = Some 0
    | Settled \<Rightarrow> reserved_microusd a = 0 \<and> (\<exists>v \<in> {0..MAX_AMOUNT}. actual_microusd a = Some v)
    | _ \<Rightarrow> reserved_microusd a = q_ceiling_microusd (attempt_quote a) \<and> actual_microusd a = None)"

definition quote_ok :: "quotation \<Rightarrow> bool" where
  "quote_ok q \<longleftrightarrow> 0 \<le> q_estimated_microusd q \<and> q_estimated_microusd q \<le> q_ceiling_microusd q \<and>
    q_ceiling_microusd q \<le> MAX_AMOUNT \<and> price_card_ok (q_price q)"

definition attempt_ok :: "cost_db \<Rightarrow> cost_attempt \<Rightarrow> bool" where
  "attempt_ok db a \<longleftrightarrow> quote_ok (attempt_quote a) \<and> amounts_ok a \<and>
    (\<exists>r \<in> set (scopes db). scope_id r = attempt_scope a \<and> scope_kind r = ''action'') \<and>
    dispatches db (attempt_id a) = (if sent (attempt_state a) then 1 else 0)"

definition receipt_key :: "cost_receipt \<Rightarrow> string \<times> string \<times> string" where
  "receipt_key r = (receipt_provider r, receipt_source r, receipt_ref r)"

definition receipt_ok :: "cost_db \<Rightarrow> cost_receipt \<Rightarrow> bool" where
  "receipt_ok db r \<longleftrightarrow> (\<exists>a \<in> set (attempts db). attempt_id a = receipt_attempt r \<and> attempt_state a = Settled)"

definition event_ok :: "cost_db \<Rightarrow> cost_event \<Rightarrow> bool" where
  "event_ok db e \<longleftrightarrow> (\<forall>aid. event_attempt e = Some aid \<longrightarrow> aid \<in> attempt_id ` set (attempts db))"

definition db_ok :: "cost_db \<Rightarrow> bool" where
  "db_ok db \<longleftrightarrow> scopes_ok db \<and>
    distinct (map attempt_id (attempts db)) \<and> (\<forall>a \<in> set (attempts db). attempt_ok db a) \<and>
    distinct (map event_id (events db)) \<and> (\<forall>e \<in> set (events db). event_ok db e) \<and>
    distinct (map receipt_key (receipts db)) \<and> (\<forall>r \<in> set (receipts db). receipt_ok db r)"

lemma find_attempt_Some:
  assumes "db_ok db"
  shows "find_attempt db aid = Some a \<longleftrightarrow> a \<in> set (attempts db) \<and> attempt_id a = aid"
  using assms find_unique [of attempt_id "attempts db" a aid]
  by (auto simp: find_attempt_def db_ok_def dest: find_key_Some)

lemma attempt_unique:
  "db_ok db \<Longrightarrow> a \<in> set (attempts db) \<Longrightarrow> b \<in> set (attempts db) \<Longrightarrow> attempt_id a = attempt_id b \<Longrightarrow> a = b"
  by (metis find_attempt_Some option.inject)

lemma find_attempt_None: "find_attempt db aid = None \<longleftrightarrow> aid \<notin> attempt_id ` set (attempts db)"
  by (auto simp: find_attempt_def find_key_None)

lemma find_event_None: "find_event db eid = None \<longleftrightarrow> eid \<notin> event_id ` set (events db)"
  by (auto simp: find_event_def find_key_None)

lemma get_attempt_Inr: "get_attempt db aid = Inr a \<longleftrightarrow> is_identifier aid \<and> find_attempt db aid = Some a"
  by (auto simp: get_attempt_def res_simps split: option.splits)

lemma get_scope_Inr: "get_scope db sid = Inr r \<longleftrightarrow> is_identifier sid \<and> find_scope db sid = Some r"
  by (auto simp: get_scope_def res_simps split: option.splits)

lemma event_Inr:
  "event env kind scope att payload given db = Inr db' \<longleftrightarrow>
    (\<exists>e. db' = db\<lparr>events := events db @ [e]\<rparr> \<and> event_id e \<notin> event_id ` set (events db) \<and>
      event_kind e = kind \<and> event_scope e = scope \<and> event_attempt e = att \<and>
      event_payload e = canonical payload \<and> event_time e = now_text env \<and>
      event_id e = (case given of Some x \<Rightarrow> if x = [] then fresh_id env else x | None \<Rightarrow> fresh_id env) \<and>
      find_scope db scope \<noteq> None \<and> (\<forall>a. att = Some a \<longrightarrow> find_attempt db a \<noteq> None))"
  (is "?l \<longleftrightarrow> (\<exists>e. ?r e)")
proof
  assume ?l
  then show "\<exists>e. ?r e"
    by (auto simp: event_def Let_def res_simps find_event_None split: option.splits intro!: exI)
next
  assume "\<exists>e. ?r e"
  then obtain e where "?r e" ..
  then show ?l
    by (cases e) (auto simp: event_def Let_def res_simps find_event_None split: option.splits)
qed

lemma event_InrE:
  assumes "event env kind scope att payload given db = Inr db'"
  obtains e where "db' = db\<lparr>events := events db @ [e]\<rparr>" "event_id e \<notin> event_id ` set (events db)"
    "event_kind e = kind" "event_scope e = scope" "event_attempt e = att" "event_payload e = canonical payload"
    "event_id e = (case given of Some x \<Rightarrow> if x = [] then fresh_id env else x | None \<Rightarrow> fresh_id env)"
    "\<forall>a. att = Some a \<longrightarrow> a \<in> attempt_id ` set (attempts db)"
proof -
  from assms obtain e where e: "db' = db\<lparr>events := events db @ [e]\<rparr>" "event_id e \<notin> event_id ` set (events db)"
    "event_kind e = kind" "event_scope e = scope" "event_attempt e = att" "event_payload e = canonical payload"
    "event_id e = (case given of Some x \<Rightarrow> if x = [] then fresh_id env else x | None \<Rightarrow> fresh_id env)"
    and known: "\<forall>a. att = Some a \<longrightarrow> find_attempt db a \<noteq> None"
    unfolding event_Inr by (elim exE conjE) (rule that)
  from known have "\<forall>a. att = Some a \<longrightarrow> a \<in> attempt_id ` set (attempts db)"
    by (simp only: find_attempt_None not_not)
  with e show thesis by (rule that)
qed

section \<open>Preservation\<close>

lemma db_okD:
  assumes "db_ok db"
  shows "scopes_ok db" "distinct (map attempt_id (attempts db))" "distinct (map event_id (events db))"
    "distinct (map receipt_key (receipts db))"
    "a \<in> set (attempts db) \<Longrightarrow> attempt_ok db a" "e \<in> set (events db) \<Longrightarrow> event_ok db e"
    "r \<in> set (receipts db) \<Longrightarrow> receipt_ok db r"
  using assms by (auto simp: db_ok_def)

lemma event_ids_subset:
  "db_ok db \<Longrightarrow> aid \<notin> attempt_id ` set (attempts db) \<Longrightarrow> dispatches db aid = 0"
  by (force simp: db_ok_def dispatches_def event_ok_def filter_empty_conv)

lemma dispatches_append:
  "events db' = events db @ [e] \<Longrightarrow> dispatches db' aid = dispatches db aid +
    (if event_kind e = ''dispatch_started'' \<and> event_attempt e = Some aid then 1 else 0)"
  by (simp add: dispatches_def)

lemma scopes_ok_cong:
  assumes "scopes db' = scopes db" "account_id db' = account_id db"
  shows "scopes_ok db' = scopes_ok db"
proof -
  have "scope_ok db' = scope_ok db"
    by (intro ext) (simp add: scope_ok_def assms cong: option.case_cong)
  then show ?thesis by (simp add: scopes_ok_def assms)
qed

text \<open>One attempt moves, one event is appended, possibly one receipt is recorded.\<close>

definition attempt_move :: "cost_db \<Rightarrow> cost_attempt \<Rightarrow> (cost_attempt \<Rightarrow> cost_attempt) \<Rightarrow> cost_event
    \<Rightarrow> cost_receipt list \<Rightarrow> cost_db \<Rightarrow> bool" where
  "attempt_move db a f e rs db' \<longleftrightarrow>
    a \<in> set (attempts db) \<and>
    (\<forall>r. attempt_id (f r) = attempt_id r \<and> attempt_scope (f r) = attempt_scope r \<and>
      attempt_quote (f r) = attempt_quote r \<and> request_digest (f r) = request_digest r) \<and>
    amounts_ok (f a) \<and> attempt_state a \<le> attempt_state (f a) \<and>
    event_id e \<notin> event_id ` set (events db) \<and> event_attempt e = Some (attempt_id a) \<and>
    (if event_kind e = ''dispatch_started'' then \<not> sent (attempt_state a) \<and> sent (attempt_state (f a))
     else sent (attempt_state a) = sent (attempt_state (f a))) \<and>
    distinct (map receipt_key (receipts db @ rs)) \<and>
    (\<forall>r \<in> set rs. receipt_attempt r = attempt_id a \<and> attempt_state (f a) = Settled) \<and>
    db' = db\<lparr>attempts := update_where (\<lambda>r. attempt_id r = attempt_id a) f (attempts db),
      events := events db @ [e], receipts := receipts db @ rs\<rparr>"

lemma moved_attempts:
  assumes "db_ok db" "attempt_move db a f e rs db'"
  shows "set (attempts db') = insert (f a) {x \<in> set (attempts db). attempt_id x \<noteq> attempt_id a}"
proof -
  have "{x \<in> set (attempts db). attempt_id x = attempt_id a} = {a}"
    using assms attempt_unique [OF assms(1), of _ a] by (auto simp: attempt_move_def)
  then show ?thesis
    using assms(2) by (auto simp: attempt_move_def set_update_where)
qed

lemma move_ok:
  assumes ok: "db_ok db" and move: "attempt_move db a f e rs db'"
  shows "db_ok db'"
proof -
  note attempts' = moved_attempts [OF ok move]
  from move have same: "scopes db' = scopes db" "account_id db' = account_id db"
    "events db' = events db @ [e]" "receipts db' = receipts db @ rs"
    and keep: "\<And>r. attempt_id (f r) = attempt_id r" "\<And>r. attempt_scope (f r) = attempt_scope r"
      "\<And>r. attempt_quote (f r) = attempt_quote r"
    and a: "a \<in> set (attempts db)" "amounts_ok (f a)" "attempt_state a \<le> attempt_state (f a)"
    and e: "event_id e \<notin> event_id ` set (events db)" "event_attempt e = Some (attempt_id a)"
    and sends: "if event_kind e = ''dispatch_started'' then \<not> sent (attempt_state a) \<and> sent (attempt_state (f a))
      else sent (attempt_state a) = sent (attempt_state (f a))"
    and rs: "distinct (map receipt_key (receipts db @ rs))"
      "\<forall>r \<in> set rs. receipt_attempt r = attempt_id a \<and> attempt_state (f a) = Settled"
    by (auto simp: attempt_move_def)
  have ids: "attempt_id ` set (attempts db') = attempt_id ` set (attempts db)"
    using a(1) by (auto simp: attempts' keep)
  have "scopes_ok db'"
    using db_okD(1) [OF ok] scopes_ok_cong [OF same(1,2)] by simp
  moreover have "distinct (map attempt_id (attempts db'))"
    using db_okD(2) [OF ok] move keep by (simp add: attempt_move_def map_update_where)
  moreover have "attempt_ok db' x" if "x \<in> set (attempts db')" for x
  proof (cases "x = f a")
    case True
    with db_okD(5) [OF ok a(1)] a(2) sends e(2) show ?thesis
      by (auto simp: attempt_ok_def same(1) keep dispatches_append [OF same(3)] split: if_splits)
  next
    case False
    with that attempts' have "x \<in> set (attempts db)" "attempt_id x \<noteq> attempt_id a" by auto
    with db_okD(5) [OF ok this(1)] e(2) show ?thesis
      by (simp add: attempt_ok_def same(1) dispatches_append [OF same(3)])
  qed
  moreover have "distinct (map event_id (events db'))"
    using db_okD(3) [OF ok] same(3) e(1) by simp
  moreover have "event_ok db' x" if "x \<in> set (events db')" for x
    using that db_okD(6) [OF ok, of x] e(2) a(1) by (auto simp: event_ok_def ids same(3))
  moreover have "receipt_ok db' r" if "r \<in> set (receipts db')" for r
  proof (cases "r \<in> set rs")
    case True
    with rs(2) show ?thesis by (auto simp: receipt_ok_def attempts' keep)
  next
    case False
    with that same(4) have "receipt_ok db r" using db_okD(7) [OF ok] by simp
    then obtain x where x: "x \<in> set (attempts db)" "attempt_id x = receipt_attempt r" "attempt_state x = Settled"
      by (auto simp: receipt_ok_def)
    show ?thesis
    proof (cases "attempt_id x = attempt_id a")
      case True
      with x a(1) have "x = a" using find_attempt_Some [OF ok] by (metis option.inject)
      with x a(3) have "attempt_state (f a) = Settled"
        by (simp add: less_eq_attempt_state_def state_le_def)
      with x \<open>x = a\<close> keep show ?thesis by (auto simp: receipt_ok_def attempts')
    next
      case False
      with x show ?thesis by (auto simp: receipt_ok_def attempts')
    qed
  qed
  ultimately show ?thesis
    using rs(1) same(4) by (simp add: db_ok_def)
qed

text \<open>Only an event is appended: a denial, or a note that moves no attempt.\<close>

lemma note_ok:
  assumes ok: "db_ok db" and "event_id e \<notin> event_id ` set (events db)"
    and "event_kind e \<noteq> ''dispatch_started''"
    and "\<forall>aid. event_attempt e = Some aid \<longrightarrow> aid \<in> attempt_id ` set (attempts db)"
  shows "db_ok (db\<lparr>events := events db @ [e]\<rparr>)"
  using assms scopes_ok_cong [of "db\<lparr>events := events db @ [e]\<rparr>" db]
  by (auto simp: db_ok_def attempt_ok_def event_ok_def receipt_ok_def dispatches_def)

text \<open>Changing the scope table keeps everything that does not look at limits.\<close>

lemma scopes_change_ok:
  assumes ok: "db_ok db" and new: "scopes_ok (db\<lparr>scopes := ss\<rparr>)"
    and keep: "\<forall>r \<in> set (scopes db). \<exists>q \<in> set ss. scope_id q = scope_id r \<and> scope_kind q = scope_kind r"
  shows "db_ok (db\<lparr>scopes := ss\<rparr>)"
proof -
  have "attempt_ok (db\<lparr>scopes := ss\<rparr>) a" if "attempt_ok db a" for a
  proof -
    from that obtain r where "r \<in> set (scopes db)" "scope_id r = attempt_scope a" "scope_kind r = ''action''"
      by (auto simp: attempt_ok_def)
    with keep have "\<exists>q \<in> set ss. scope_id q = attempt_scope a \<and> scope_kind q = ''action''" by force
    with that show ?thesis by (simp add: attempt_ok_def dispatches_def)
  qed
  then show ?thesis
    using ok new by (auto simp: db_ok_def event_ok_def receipt_ok_def)
qed

section \<open>Growth\<close>

definition same_attempt :: "cost_attempt \<Rightarrow> cost_attempt \<Rightarrow> bool" where
  "same_attempt a b \<longleftrightarrow> attempt_id b = attempt_id a \<and> attempt_scope b = attempt_scope a \<and>
    request_digest b = request_digest a \<and> attempt_quote b = attempt_quote a"

definition grows :: "cost_db \<Rightarrow> cost_db \<Rightarrow> bool" where
  "grows db db' \<longleftrightarrow> prefix (events db) (events db') \<and> prefix (receipts db) (receipts db') \<and>
    (\<forall>a \<in> set (attempts db). \<exists>b \<in> set (attempts db'). same_attempt a b \<and> attempt_state a \<le> attempt_state b)"

lemma grows_refl: "grows db db"
  by (auto simp: grows_def same_attempt_def)

lemma grows_trans: "grows db db' \<Longrightarrow> grows db' db'' \<Longrightarrow> grows db db''"
  unfolding grows_def
proof (intro conjI ballI; elim conjE)
  fix a
  assume "a \<in> set (attempts db)"
    and 1: "\<forall>a \<in> set (attempts db). \<exists>b \<in> set (attempts db'). same_attempt a b \<and> attempt_state a \<le> attempt_state b"
    and 2: "\<forall>a \<in> set (attempts db'). \<exists>b \<in> set (attempts db''). same_attempt a b \<and> attempt_state a \<le> attempt_state b"
  then obtain b c where "same_attempt a b" "attempt_state a \<le> attempt_state b"
    "c \<in> set (attempts db'')" "same_attempt b c" "attempt_state b \<le> attempt_state c" by blast
  then show "\<exists>b \<in> set (attempts db''). same_attempt a b \<and> attempt_state a \<le> attempt_state b"
    by (auto simp: same_attempt_def intro!: bexI [of _ c] elim: order_trans)
qed (auto intro: prefix_order.trans)

lemma grows_same_attempts:
  "attempts db' = attempts db @ as \<Longrightarrow> events db' = events db @ es \<Longrightarrow> receipts db' = receipts db \<Longrightarrow> grows db db'"
  by (auto simp: grows_def same_attempt_def)

lemma move_grows:
  assumes ok: "db_ok db" and move: "attempt_move db a f e rs db'"
  shows "grows db db'"
proof -
  have "\<exists>b \<in> set (attempts db'). same_attempt x b \<and> attempt_state x \<le> attempt_state b"
    if "x \<in> set (attempts db)" for x
  proof (cases "attempt_id x = attempt_id a")
    case True
    with ok move that have "x = a" by (auto simp: attempt_move_def dest: attempt_unique)
    with move show ?thesis
      unfolding moved_attempts [OF ok move] by (auto simp: attempt_move_def same_attempt_def)
  next
    case False
    with that show ?thesis
      unfolding moved_attempts [OF ok move] by (auto simp: same_attempt_def)
  qed
  with move show ?thesis by (auto simp: grows_def attempt_move_def)
qed

section \<open>Every transaction body keeps the invariant and only grows the tables\<close>

definition good_step :: "cost_db \<Rightarrow> cost_db \<Rightarrow> bool" where
  "good_step db db' \<longleftrightarrow> db_ok db' \<and> grows db db'"

lemma good_stay: "db_ok db \<Longrightarrow> good_step db db"
  by (simp add: good_step_def grows_refl)

lemma good_move: "db_ok db \<Longrightarrow> attempt_move db a f e rs db' \<Longrightarrow> good_step db db'"
  by (simp add: good_step_def move_ok move_grows)

lemma good_note:
  assumes "db_ok db" "event env kind scope att payload given db = Inr db'" "kind \<noteq> ''dispatch_started''"
  shows "good_step db db'"
proof -
  obtain e where db': "db' = db\<lparr>events := events db @ [e]\<rparr>"
    and e: "event_id e \<notin> event_id ` set (events db)" "event_kind e = kind" "event_attempt e = att"
    "\<forall>aid. att = Some aid \<longrightarrow> aid \<in> attempt_id ` set (attempts db)"
    by (rule event_InrE [OF assms(2)]) (rule that)
  have "db_ok db'"
    unfolding db' by (rule note_ok [OF assms(1) e(1)]) (use e assms(3) in auto)
  then show ?thesis
    using grows_same_attempts [of db' db "[]" "[e]"] by (simp add: good_step_def db')
qed

text \<open>The shape all attempt operations share: update the row, append the event.\<close>

lemma event_move:
  assumes "db_ok db" "find_attempt db aid = Some a"
    and "event env kind scope (Some aid) payload given
      (set_attempt aid f (db\<lparr>receipts := receipts db @ rs\<rparr>)) = Inr db'"
    and "\<And>r. attempt_id (f r) = attempt_id r \<and> attempt_scope (f r) = attempt_scope r \<and>
      attempt_quote (f r) = attempt_quote r \<and> request_digest (f r) = request_digest r"
    and "amounts_ok (f a)" "attempt_state a \<le> attempt_state (f a)"
    and "if kind = ''dispatch_started'' then \<not> sent (attempt_state a) \<and> sent (attempt_state (f a))
      else sent (attempt_state a) = sent (attempt_state (f a))"
    and "distinct (map receipt_key (receipts db @ rs))"
    and "\<forall>r \<in> set rs. receipt_attempt r = aid \<and> attempt_state (f a) = Settled"
  obtains e where "attempt_move db a f e rs db'" "event_kind e = kind" "event_payload e = canonical payload"
proof -
  have a: "a \<in> set (attempts db)" "attempt_id a = aid"
    using assms(1,2) find_attempt_Some by auto
  obtain e where
    "db' = (set_attempt aid f (db\<lparr>receipts := receipts db @ rs\<rparr>))\<lparr>events := events db @ [e]\<rparr>"
    "event_id e \<notin> event_id ` set (events db)" "event_kind e = kind" "event_attempt e = Some aid"
    "event_payload e = canonical payload"
    by (rule event_InrE [OF assms(3)]) (rule that, simp_all add: set_attempt_def)
  with a assms(4-) have "attempt_move db a f e rs db'"
    unfolding attempt_move_def by (simp add: set_attempt_def)
  then show thesis using that \<open>event_kind e = kind\<close> \<open>event_payload e = canonical payload\<close> by blast
qed

lemma event_move_plain:
  assumes "db_ok db" "find_attempt db aid = Some a"
    and "event env kind scope (Some aid) payload given (set_attempt aid f db) = Inr db'"
    and "\<And>r. attempt_id (f r) = attempt_id r \<and> attempt_scope (f r) = attempt_scope r \<and>
      attempt_quote (f r) = attempt_quote r \<and> request_digest (f r) = request_digest r"
    and "amounts_ok (f a)" "attempt_state a \<le> attempt_state (f a)"
    and "if kind = ''dispatch_started'' then \<not> sent (attempt_state a) \<and> sent (attempt_state (f a))
      else sent (attempt_state a) = sent (attempt_state (f a))"
  obtains e where "attempt_move db a f e [] db'" "event_kind e = kind" "event_payload e = canonical payload"
proof (rule event_move [OF assms(1,2) _ assms(4-7), of env scope payload given "[]" db'])
  show "event env kind scope (Some aid) payload given (set_attempt aid f (db\<lparr>receipts := receipts db @ []\<rparr>)) = Inr db'"
    using assms(3) by simp
  show "distinct (map receipt_key (receipts db @ []))" using assms(1) by (simp add: db_ok_def)
qed (use that in auto)

lemma good_event_move:
  assumes "db_ok db" "find_attempt db aid = Some a"
    and "event env kind scope (Some aid) payload given (set_attempt aid f db) = Inr db'"
    and "\<And>r. attempt_id (f r) = attempt_id r \<and> attempt_scope (f r) = attempt_scope r \<and>
      attempt_quote (f r) = attempt_quote r \<and> request_digest (f r) = request_digest r"
    and "amounts_ok (f a)" "attempt_state a \<le> attempt_state (f a)"
    and "if kind = ''dispatch_started'' then \<not> sent (attempt_state a) \<and> sent (attempt_state (f a))
      else sent (attempt_state a) = sent (attempt_state (f a))"
  shows "good_step db db'"
  by (rule event_move_plain [OF assms]) (rule good_move [OF assms(1)])

lemma found_attempt_ok:
  "db_ok db \<Longrightarrow> find_attempt db aid = Some a \<Longrightarrow> attempt_ok db a \<and> a \<in> set (attempts db) \<and> attempt_id a = aid"
  by (simp add: find_attempt_Some db_okD(5))

lemmas state_simps = less_eq_attempt_state_def state_le_def sent_def

lemma reserve_body_good:
  assumes ok: "db_ok db" and run: "reserve_body env aid db = Inr (x, db')"
  shows "good_step db db'"
proof -
  from run obtain a where a: "find_attempt db aid = Some a"
    and cases: "attempt_state a = Reserved \<and> db' = db \<or>
      attempt_state a = Estimated \<and>
      ((\<exists>e. record_denial env ''reservation_denied'' a e db = Inr db') \<or>
       (\<exists>p. event env ''cost_reserved'' (attempt_scope a) (Some aid) p None
          (set_attempt aid (\<lambda>r. r\<lparr>attempt_state := Reserved,
            reserved_microusd := q_ceiling_microusd (attempt_quote a)\<rparr>) db) = Inr db'))"
    by (auto simp: reserve_body_def get_attempt_Inr Let_def res_simps split: if_splits option.splits)
  from cases show ?thesis
  proof (elim disjE exE conjE)
    fix p
    assume st: "attempt_state a = Estimated" and ev: "event env ''cost_reserved'' (attempt_scope a) (Some aid) p None
          (set_attempt aid (\<lambda>r. r\<lparr>attempt_state := Reserved,
            reserved_microusd := q_ceiling_microusd (attempt_quote a)\<rparr>) db) = Inr db'"
    show ?thesis
      using found_attempt_ok [OF ok a] st
      by (intro good_event_move [OF ok a ev])
        (auto simp: attempt_ok_def amounts_ok_def state_simps)
  qed (use ok in \<open>auto simp: good_stay record_denial_def intro: good_note\<close>)
qed

lemma begin_dispatch_body_good:
  assumes ok: "db_ok db" and run: "begin_dispatch_body env aid digest db = Inr (x, db')"
  shows "good_step db db'"
proof -
  from run obtain a where a: "find_attempt db aid = Some a" and st: "attempt_state a = Reserved"
    and cases: "(\<exists>e. record_denial env ''dispatch_denied'' a e db = Inr db') \<or>
       (\<exists>p. event env ''dispatch_started'' (attempt_scope a) (Some aid) p None
          (set_attempt aid (\<lambda>r. r\<lparr>attempt_state := Dispatched\<rparr>) db) = Inr db')"
    by (auto simp: begin_dispatch_body_def get_attempt_Inr Let_def res_simps split: if_splits option.splits)
  from cases show ?thesis
  proof (elim disjE exE)
    fix p
    assume ev: "event env ''dispatch_started'' (attempt_scope a) (Some aid) p None
          (set_attempt aid (\<lambda>r. r\<lparr>attempt_state := Dispatched\<rparr>) db) = Inr db'"
    show ?thesis
      using found_attempt_ok [OF ok a] st
      by (intro good_event_move [OF ok a ev])
        (auto simp: attempt_ok_def amounts_ok_def state_simps)
  qed (use ok in \<open>auto simp: record_denial_def intro: good_note\<close>)
qed

lemma cancel_body_good:
  assumes ok: "db_ok db" and run: "cancel_body env aid db = Inr (x, db')"
  shows "good_step db db'"
proof -
  from run obtain a where a: "find_attempt db aid = Some a"
    and cases: "db' = db \<or> (attempt_state a = Estimated \<or> attempt_state a = Reserved) \<and>
       (\<exists>p. event env ''reservation_released'' (attempt_scope a) (Some aid) p None
          (set_attempt aid (\<lambda>r. r\<lparr>attempt_state := Cancelled, reserved_microusd := 0,
          actual_microusd := Some 0, actual_source := Some ''not_sent''\<rparr>) db) = Inr db')"
    by (auto simp: cancel_body_def get_attempt_Inr Let_def res_simps split: if_splits option.splits)
  from cases show ?thesis
  proof (elim disjE[of "db' = db"] exE conjE)
    fix p
    assume st: "attempt_state a = Estimated \<or> attempt_state a = Reserved"
      and ev: "event env ''reservation_released'' (attempt_scope a) (Some aid) p None
          (set_attempt aid (\<lambda>r. r\<lparr>attempt_state := Cancelled, reserved_microusd := 0,
          actual_microusd := Some 0, actual_source := Some ''not_sent''\<rparr>) db) = Inr db'"
    show ?thesis
      using found_attempt_ok [OF ok a] st
      by (intro good_event_move [OF ok a ev])
        (auto simp: attempt_ok_def amounts_ok_def state_simps)
  qed (use ok in \<open>simp add: good_stay\<close>)
qed

lemma mark_uncertain_body_good:
  assumes ok: "db_ok db" and run: "mark_uncertain_body env aid reason db = Inr (x, db')"
  shows "good_step db db'"
proof -
  from run obtain a where a: "find_attempt db aid = Some a"
    and cases: "db' = db \<or> attempt_state a = Dispatched \<and>
       (\<exists>p. event env ''cost_uncertain'' (attempt_scope a) (Some aid) p None
          (set_attempt aid (\<lambda>r. r\<lparr>attempt_state := Uncertain\<rparr>) db) = Inr db')"
    by (auto simp: mark_uncertain_body_def get_attempt_Inr Let_def res_simps split: if_splits option.splits)
  from cases show ?thesis
  proof (elim disjE exE conjE)
    fix p
    assume st: "attempt_state a = Dispatched"
      and ev: "event env ''cost_uncertain'' (attempt_scope a) (Some aid) p None
          (set_attempt aid (\<lambda>r. r\<lparr>attempt_state := Uncertain\<rparr>) db) = Inr db'"
    show ?thesis
      using found_attempt_ok [OF ok a] st
      by (intro good_event_move [OF ok a ev])
        (auto simp: attempt_ok_def amounts_ok_def state_simps)
  qed (use ok in \<open>simp add: good_stay\<close>)
qed

lemma receipt_free:
  "find (\<lambda>r. receipt_provider r = p \<and> receipt_source r = src \<and> receipt_ref r = rf) rs = None \<longleftrightarrow>
    (p, src, rf) \<notin> receipt_key ` set rs"
  by (auto simp: find_key_None receipt_key_def)

lemma settle_body_good:
  assumes ok: "db_ok db" and run: "settle_body env aid usage given source reference eid db = Inr (x, db')"
    and given: "0 \<le> given" "given \<le> MAX_AMOUNT"
  shows "good_step db db'"
proof -
  let ?f = "\<lambda>amount r. r\<lparr>attempt_state := Settled, reserved_microusd := 0,
            actual_microusd := Some amount, actual_source := Some source,
            attempt_usage := (case usage of None \<Rightarrow> attempt_usage r | Some u \<Rightarrow> Some u),
            receipt_reference := Some reference\<rparr>"
  from run obtain a amount where a: "find_attempt db aid = Some a"
    and amount: "(case usage of None \<Rightarrow> Inr given
        | Some u \<Rightarrow> bindE (check_price_card (q_price (attempt_quote a))) (\<lambda>p. cost p u)) = Inr amount"
    and cases: "db' = db \<or> sent (attempt_state a) \<and>
      (provider (q_price (attempt_quote a)), source, reference) \<notin> receipt_key ` set (receipts db) \<and>
       (\<exists>p g. event env ''cost_settled'' (attempt_scope a) (Some aid) p g
          (set_attempt aid (?f amount) (db\<lparr>receipts := receipts db @ [\<lparr>receipt_provider = provider (q_price (attempt_quote a)),
            receipt_source = source, receipt_ref = reference, receipt_attempt = aid\<rparr>]\<rparr>)) = Inr db')"
    by (auto simp: settle_body_def get_attempt_Inr Let_def res_simps receipt_free sent_def split: if_splits)
  have bounds: "amount \<in> {0..MAX_AMOUNT}"
    using amount given by (auto simp: cost_def res_simps split: option.splits)
  from cases show ?thesis
  proof (elim disjE exE conjE)
    fix p g
    assume st: "sent (attempt_state a)"
      and free: "(provider (q_price (attempt_quote a)), source, reference) \<notin> receipt_key ` set (receipts db)"
      and ev: "event env ''cost_settled'' (attempt_scope a) (Some aid) p g
          (set_attempt aid (?f amount) (db\<lparr>receipts := receipts db @ [\<lparr>receipt_provider = provider (q_price (attempt_quote a)),
            receipt_source = source, receipt_ref = reference, receipt_attempt = aid\<rparr>]\<rparr>)) = Inr db'"
    show ?thesis
    proof (rule event_move [OF ok a ev])
      show "amounts_ok (?f amount a)" using bounds by (simp add: amounts_ok_def)
      show "attempt_state a \<le> attempt_state (?f amount a)" using st by (auto simp: state_simps)
      show "distinct (map receipt_key (receipts db @ [\<lparr>receipt_provider = provider (q_price (attempt_quote a)),
            receipt_source = source, receipt_ref = reference, receipt_attempt = aid\<rparr>]))"
        using free db_okD(4) [OF ok] by (simp add: receipt_key_def)
    qed (use st in \<open>auto simp: sent_def intro: good_move [OF ok]\<close>)
  qed (use ok in \<open>simp add: good_stay\<close>)
qed

lemma good_step_trans: "good_step db db' \<Longrightarrow> good_step db' db'' \<Longrightarrow> good_step db db''"
  by (auto simp: good_step_def intro: grows_trans)

lemma good_scopes:
  assumes ok: "db_ok db" and new: "scopes_ok (db\<lparr>scopes := ss\<rparr>)"
    and keep: "\<forall>r \<in> set (scopes db). \<exists>q \<in> set ss. scope_id q = scope_id r \<and> scope_kind q = scope_kind r"
  shows "good_step db (db\<lparr>scopes := ss\<rparr>)"
  using scopes_change_ok [OF assms] grows_same_attempts [of "db\<lparr>scopes := ss\<rparr>" db "[]" "[]"]
  by (simp add: good_step_def)

lemma list_all_weaken: "list_all P xs \<Longrightarrow> (\<And>x. P x \<Longrightarrow> Q x) \<Longrightarrow> list_all Q xs"
  by (auto simp: list_all_iff)

lemma scopes_ok_add:
  assumes ok: "scopes_ok db" and p: "find_scope db parent = Some p"
    and kind: "kind_allowed (scope_kind r) (scope_kind p)"
    and r: "parent_id r = Some parent" "is_identifier (scope_id r)" "find_scope db (scope_id r) = None"
    and limit: "case limit_microusd r of None \<Rightarrow> True | Some m \<Rightarrow> 0 \<le> m"
  shows "scopes_ok (db\<lparr>scopes := scopes db @ [r]\<rparr>)"
proof -
  have "scope_id r \<notin> scope_id ` set (scopes db)"
    using r(3) by (auto simp: find_scope_def find_key_None)
  moreover have "scope_ok (db\<lparr>scopes := scopes db @ [r]\<rparr>) q" if "scope_ok db q" for q
    using that by (auto simp: scope_ok_def split: option.splits)
  moreover have "scope_ok (db\<lparr>scopes := scopes db @ [r]\<rparr>) r"
    using p kind r limit find_scope_Some [OF ok] by (auto simp: scope_ok_def)
  ultimately show ?thesis
    using ok by (auto simp: scopes_ok_def elim: list_all_weaken)
qed

lemma add_scope_body_good:
  assumes ok: "db_ok db" and run: "add_scope_body env sid parent kind limit db = Inr (x, db')"
    and args: "is_identifier sid" "check_limit limit = Inr ()"
  shows "good_step db db'"
proof -
  let ?r = "\<lparr>scope_id = sid, parent_id = Some parent, scope_kind = kind, limit_microusd = limit\<rparr>"
  from run obtain p where p: "find_scope db parent = Some p"
    and kind: "kind_allowed kind (scope_kind p)"
    and cases: "db' = db \<or> find_scope db sid = None \<and>
      (\<exists>v. event env ''scope_created'' sid None v None (db\<lparr>scopes := scopes db @ [?r]\<rparr>) = Inr db')"
    by (auto simp: add_scope_body_def get_scope_Inr Let_def res_simps split: option.splits)
  from cases show ?thesis
  proof (elim disjE conjE exE)
    fix v
    assume new: "find_scope db sid = None"
      and ev: "event env ''scope_created'' sid None v None (db\<lparr>scopes := scopes db @ [?r]\<rparr>) = Inr db'"
    have "case limit of None \<Rightarrow> True | Some m \<Rightarrow> 0 \<le> m"
      using args(2) by (auto simp: check_limit_def res_simps split: option.splits)
    then have "scopes_ok (db\<lparr>scopes := scopes db @ [?r]\<rparr>)"
      using scopes_ok_add [OF db_okD(1) [OF ok] p, of ?r] kind args(1) new by simp
    then have mid: "good_step db (db\<lparr>scopes := scopes db @ [?r]\<rparr>)"
      by (intro good_scopes [OF ok]) auto
    then have "db_ok (db\<lparr>scopes := scopes db @ [?r]\<rparr>)" by (simp add: good_step_def)
    from good_note [OF this ev] have "good_step (db\<lparr>scopes := scopes db @ [?r]\<rparr>) db'" by simp
    with mid show ?thesis by (rule good_step_trans)
  qed (use ok in \<open>simp add: good_stay\<close>)
qed

lemma scopes_ok_limit:
  assumes ok: "scopes_ok db" and r: "find_scope db sid = Some r"
    and limit: "\<not> (scope_kind r = ''account'' \<and> limit = None)" "case limit of None \<Rightarrow> True | Some m \<Rightarrow> 0 \<le> m"
  shows "scopes_ok (db\<lparr>scopes := update_where (\<lambda>x. scope_id x = sid) (\<lambda>x. x\<lparr>limit_microusd := limit\<rparr>) (scopes db)\<rparr>)"
    (is "scopes_ok ?db'")
proof -
  let ?u = "\<lambda>x. if scope_id x = sid then x\<lparr>limit_microusd := limit\<rparr> else x"
  have keep: "scope_id (?u x) = scope_id x" "scope_kind (?u x) = scope_kind x" "parent_id (?u x) = parent_id x" for x
    by auto
  have rows: "scopes ?db' = map ?u (scopes db)" by (simp add: update_where_def)
  have "scope_ok ?db' (?u x)" if x: "x \<in> set (scopes db)" for x
  proof -
    have same: "scope_ok db x" using scopes_okD [OF ok x] .
    have "x = r" if "scope_id x = sid"
      using r find_scope_Some [OF ok] scope_unique [OF ok x] that by auto
    then have lim: "(case limit_microusd (?u x) of None \<Rightarrow> True | Some m \<Rightarrow> 0 \<le> m) \<and>
        (parent_id x = None \<longrightarrow> limit_microusd (?u x) \<noteq> None)"
      using same limit by (auto simp: scope_ok_def split: option.splits if_splits)
    have copy: "\<exists>q \<in> set (scopes ?db'). scope_id q = scope_id y \<and> scope_kind q = scope_kind y"
      if "y \<in> set (scopes db)" for y
      unfolding rows using that keep by (intro bexI [of _ "?u y"]) auto
    show ?thesis
    proof (cases "parent_id x")
      case None
      from same have "is_identifier (scope_id x)" by (simp add: scope_ok_def)
      with None same lim show ?thesis unfolding scope_ok_def keep by (simp del: if_split)
    next
      case (Some p)
      with same obtain y where "y \<in> set (scopes db)" "scope_id y = p"
        "kind_allowed (scope_kind x) (scope_kind y)" by (auto simp: scope_ok_def)
      with copy [of y] obtain q where "q \<in> set (scopes ?db')" "scope_id q = p"
        "kind_allowed (scope_kind x) (scope_kind q)" by auto
      with Some same lim show ?thesis unfolding scope_ok_def keep by auto
    qed
  qed
  then have "\<forall>y \<in> ?u ` set (scopes db). scope_ok ?db' y" by blast
  then have "list_all (scope_ok ?db') (scopes ?db')"
    unfolding rows list_all_iff set_map .
  moreover have "distinct (map scope_id (scopes ?db'))"
    using ok by (simp add: scopes_ok_def map_update_where)
  moreover have "list_ex (\<lambda>r. scope_id r = account_id ?db' \<and> parent_id r = None) (scopes ?db')"
  proof -
    obtain x where "x \<in> set (scopes db)" "scope_id x = account_id db \<and> parent_id x = None"
      using ok by (auto simp: scopes_ok_def list_ex_iff)
    then show ?thesis unfolding rows list_ex_iff
      by (intro bexI [of _ "?u x"]) (simp_all add: keep del: if_split)
  qed
  ultimately show ?thesis by (simp add: scopes_ok_def)
qed

lemma set_limit_body_good:
  assumes ok: "db_ok db" and run: "set_limit_body env sid limit eid db = Inr (x, db')"
    and args: "check_limit limit = Inr ()"
  shows "good_step db db'"
proof -
  let ?mid = "db\<lparr>scopes := update_where (\<lambda>x. scope_id x = sid) (\<lambda>x. x\<lparr>limit_microusd := limit\<rparr>) (scopes db)\<rparr>"
  from run obtain r where r: "find_scope db sid = Some r" "\<not> (scope_kind r = ''account'' \<and> limit = None)"
    and cases: "db' = db \<or> (\<exists>v. event env ''limit_changed'' sid None v (Some eid) ?mid = Inr db')"
    by (auto simp: set_limit_body_def get_scope_Inr Let_def res_simps split: if_splits)
  from cases show ?thesis
  proof (elim disjE exE)
    fix v
    assume ev: "event env ''limit_changed'' sid None v (Some eid) ?mid = Inr db'"
    have "case limit of None \<Rightarrow> True | Some m \<Rightarrow> 0 \<le> m"
      using args by (auto simp: check_limit_def res_simps split: option.splits)
    from scopes_ok_limit [OF db_okD(1) [OF ok] r this] have mid: "good_step db ?mid"
      using update_where_keeps [of "\<lambda>r. (scope_id r, scope_kind r)" "\<lambda>x. x\<lparr>limit_microusd := limit\<rparr>" _
        "scopes db" "\<lambda>x. scope_id x = sid"]
      by (intro good_scopes [OF ok]) simp_all
    then have "db_ok ?mid" by (simp add: good_step_def)
    from good_note [OF this ev] have "good_step ?mid db'" by simp
    with mid show ?thesis by (rule good_step_trans)
  qed (use ok in \<open>simp add: good_stay\<close>)
qed

lemma prices_free: "good_step (db\<lparr>prices := ps\<rparr>) db' \<Longrightarrow> good_step db db'"
  by (simp add: good_step_def grows_def)

lemma db_ok_prices [simp]: "db_ok (db\<lparr>prices := ps\<rparr>) = db_ok db"
proof -
  have "attempt_ok (db\<lparr>prices := ps\<rparr>) = attempt_ok db" "event_ok (db\<lparr>prices := ps\<rparr>) = event_ok db"
    "receipt_ok (db\<lparr>prices := ps\<rparr>) = receipt_ok db"
    by (simp_all add: fun_eq_iff attempt_ok_def event_ok_def receipt_ok_def dispatches_def)
  then show ?thesis using scopes_ok_cong [of "db\<lparr>prices := ps\<rparr>" db] by (simp add: db_ok_def)
qed

lemma add_attempt_ok:
  assumes ok: "db_ok db" and new: "attempt_id a \<notin> attempt_id ` set (attempts db)"
    and a: "quote_ok (attempt_quote a)" "amounts_ok a" "\<not> sent (attempt_state a)"
    and scope: "\<exists>r \<in> set (scopes db). scope_id r = attempt_scope a \<and> scope_kind r = ''action''"
  shows "good_step db (db\<lparr>attempts := attempts db @ [a]\<rparr>)"
proof -
  let ?db' = "db\<lparr>attempts := attempts db @ [a]\<rparr>"
  have "attempt_ok ?db' = attempt_ok db"
    by (simp add: fun_eq_iff attempt_ok_def dispatches_def)
  moreover have "attempt_ok db a"
    using a scope event_ids_subset [OF ok new] by (simp add: attempt_ok_def)
  moreover have "event_ok db e \<Longrightarrow> event_ok ?db' e" "receipt_ok db r \<Longrightarrow> receipt_ok ?db' r" for e r
    by (auto simp: event_ok_def receipt_ok_def)
  ultimately have "db_ok ?db'"
    using ok new scopes_ok_cong [of ?db' db] by (auto simp: db_ok_def)
  then show ?thesis
    using grows_same_attempts [of ?db' db "[a]" "[]"] by (simp add: good_step_def)
qed

lemma estimate_body_good:
  assumes ok: "db_ok db" and run: "estimate_body env aid sid digest q db = Inr (x, db')"
    and q: "quote_ok q"
  shows "good_step db db'"
proof -
  let ?a = "\<lparr>attempt_id = aid, attempt_scope = sid, request_digest = digest,
            attempt_quote = q, attempt_state = Estimated, reserved_microusd = 0, actual_microusd = None,
            actual_source = None, attempt_usage = None, receipt_reference = None\<rparr>"
  from run obtain r where r: "find_scope db sid = Some r" "scope_kind r = ''action''"
    and cases: "db' = db \<or> find_attempt db aid = None \<and>
      (\<exists>ps p. event env ''cost_estimated'' sid (Some aid) p None (db\<lparr>prices := ps, attempts := attempts db @ [?a]\<rparr>) = Inr db')"
  proof -
    from run obtain r where r: "find_scope db sid = Some r" "scope_kind r = ''action''"
      by (auto simp: estimate_body_def get_scope_Inr res_simps)
    show thesis
    proof (cases "find_attempt db aid")
      case (Some old)
      with run have "db' = db" by (auto simp: estimate_body_def res_simps)
      with r show thesis using that by blast
    next
      case None
      with run obtain db1 p where
        "(case map_of (prices db) (provider (q_price q), model (q_price q), version (q_price q)) of
            Some stored \<Rightarrow> bindE (require (stored = canonical (price_json (q_price q)))
              (CostError ''cost_price_version_conflict'')) (\<lambda>_. Inr db)
          | None \<Rightarrow> Inr (db\<lparr>prices := prices db @
              [((provider (q_price q), model (q_price q), version (q_price q)), canonical (price_json (q_price q)))]\<rparr>)) = Inr db1"
        and ev: "event env ''cost_estimated'' sid (Some aid) p None (db1\<lparr>attempts := attempts db1 @ [?a]\<rparr>) = Inr db'"
        by (auto simp: estimate_body_def Let_def res_simps)
      then obtain ps where "db1 = db\<lparr>prices := ps\<rparr>"
        by (cases db) (auto simp: res_simps split: option.splits)
      with ev None r show thesis using that by force
    qed
  qed
  from cases show ?thesis
  proof (elim disjE conjE exE)
    fix ps p
    let ?mid = "(db\<lparr>prices := ps\<rparr>)\<lparr>attempts := attempts (db\<lparr>prices := ps\<rparr>) @ [?a]\<rparr>"
    assume new: "find_attempt db aid = None"
      and "event env ''cost_estimated'' sid (Some aid) p None (db\<lparr>prices := ps, attempts := attempts db @ [?a]\<rparr>) = Inr db'"
    then have ev: "event env ''cost_estimated'' sid (Some aid) p None ?mid = Inr db'" by simp
    have mid: "good_step (db\<lparr>prices := ps\<rparr>) ?mid"
    proof (rule add_attempt_ok)
      show "\<exists>r \<in> set (scopes (db\<lparr>prices := ps\<rparr>)). scope_id r = attempt_scope ?a \<and> scope_kind r = ''action''"
        using r find_scope_Some [OF db_okD(1) [OF ok]] by auto
    qed (use ok q new in \<open>simp_all add: find_attempt_None amounts_ok_def sent_def\<close>)
    then have "db_ok ?mid" by (simp add: good_step_def)
    from good_note [OF this ev] have "good_step ?mid db'" by simp
    with mid show ?thesis by (rule prices_free [OF good_step_trans])
  qed (use ok in \<open>simp add: good_stay\<close>)
qed

section \<open>The ledger as a state machine\<close>

text \<open>
  One rule per public operation, with the arguments the callers can construct: price cards
  and usages that passed their own validation.
\<close>

inductive cost_step :: "(string \<Rightarrow> string) \<Rightarrow> cost_ledger \<Rightarrow> cost_ledger \<Rightarrow> bool" for H where
  step_add_scope: "cost_step H l (snd (add_scope env l sid parent kind limit))"
| step_set_limit: "cost_step H l (snd (set_limit env l sid limit eid))"
| step_estimate: "price_card_ok p \<Longrightarrow> token_usage_ok u \<Longrightarrow>
    cost_step H l (snd (estimate H env l aid sid digest p u il pl))"
| step_reserve: "cost_step H l (snd (reserve env l aid))"
| step_begin_dispatch: "cost_step H l (snd (begin_dispatch env l aid digest))"
| step_cancel: "cost_step H l (snd (cancel env l aid))"
| step_mark_uncertain: "cost_step H l (snd (mark_uncertain env l aid reason))"
| step_settle_usage: "token_usage_ok u \<Longrightarrow> cost_step H l (snd (settle_usage env l aid u reference eid))"
| step_reconcile: "cost_step H l (snd (reconcile env l aid amount reference eid))"
| step_report: "cost_step H l (snd (report env l sid))"
| step_snapshot: "cost_step H l (snd (snapshot_call env l sid))"
| step_attempt: "cost_step H l (snd (attempt_call env l aid))"
| step_events: "cost_step H l (snd (events_call env l after limit))"
| step_attempts: "cost_step H l (snd (attempts_call env l after_id limit))"
| step_close: "cost_step H l (snd (close env l))"

definition cost_init :: "cost_ledger \<Rightarrow> bool" where
  "cost_init l \<longleftrightarrow> (\<exists>env lid account limit per md. create env lid account limit per md = Inr l)"

definition ledger_ok :: "cost_ledger \<Rightarrow> bool" where
  "ledger_ok l \<longleftrightarrow> db_ok (ledger_db l)"

definition ledger_grows :: "cost_ledger \<Rightarrow> cost_ledger \<Rightarrow> bool" where
  "ledger_grows l l' \<longleftrightarrow> grows (ledger_db l) (ledger_db l')"

lemma transaction_good:
  assumes "db_ok (ledger_db l)"
    and "\<And>x db. body (ledger_db l) = Inr (x, db) \<Longrightarrow> good_step (ledger_db l) db"
  shows "good_step (ledger_db l) (ledger_db (snd (transaction w env l body)))"
proof -
  obtain res l' where run: "transaction w env l body = (res, l')" by fastforce
  then show ?thesis
    by (rule transaction_cases) (use assms in \<open>auto simp: run good_stay\<close>)
qed

lemma checked_good:
  assumes "db_ok (ledger_db l)" and "g = Inr () \<Longrightarrow> good_step (ledger_db l) (ledger_db (snd run))"
  shows "good_step (ledger_db l) (ledger_db (snd (checked g l run)))"
  using assms by (cases g) (auto simp: checked_def good_stay)

lemma raise_rejection_snd [simp]: "snd (raise_rejection out) = snd out"
  by (simp add: raise_rejection_def)

lemma quote_quote_ok: "price_card_ok p \<Longrightarrow> token_usage_ok u \<Longrightarrow> quote H p u il pl = Inr q \<Longrightarrow> quote_ok q"
  using quote_amounts [of p u H il pl q] by (auto simp: quote_ok_def)

lemma reading_good: "db_ok (ledger_db l) \<Longrightarrow> good_step (ledger_db l) (ledger_db (snd (transaction w env l (reading f))))"
  by (rule transaction_good) (auto simp: good_stay)

lemma settle_good:
  assumes "db_ok (ledger_db l)" "0 \<le> given" "given \<le> MAX_AMOUNT"
  shows "good_step (ledger_db l) (ledger_db (snd (settle env l aid usage given source reference eid)))"
  unfolding settle_def
  by (intro checked_good transaction_good assms) (erule settle_body_good [OF assms(1) _ assms(2,3)])

lemma estimate_good:
  assumes "db_ok (ledger_db l)" "price_card_ok p" "token_usage_ok u"
  shows "good_step (ledger_db l) (ledger_db (snd (estimate H env l aid sid digest p u il pl)))"
proof (cases "bindE (check_identifier aid) (\<lambda>_.
        bindE (require (is_digest digest) (CostError ''cost_invalid_request_digest'')) (\<lambda>_. quote H p u il pl))")
  case (Inl e)
  then show ?thesis using assms(1) by (simp add: estimate_def good_stay)
next
  case (Inr q)
  then have "quote_ok q" using quote_quote_ok [OF assms(2,3)] by (auto simp: res_simps)
  then have "good_step (ledger_db l) (ledger_db (snd (transaction True env l (estimate_body env aid sid digest q))))"
    by (intro transaction_good assms(1)) (erule estimate_body_good [OF assms(1)])
  with Inr show ?thesis by (simp add: estimate_def)
qed

lemma cost_step_good:
  assumes step: "cost_step H l l'" and ok: "db_ok (ledger_db l)"
  shows "good_step (ledger_db l) (ledger_db l')"
  using step
proof cases
  case (step_add_scope env sid parent kind limit)
  show ?thesis unfolding step_add_scope add_scope_def
    by (intro checked_good transaction_good ok) (auto simp: res_simps dest!: add_scope_body_good [OF ok])
next
  case (step_set_limit env sid limit eid)
  show ?thesis unfolding step_set_limit set_limit_def
    by (intro checked_good transaction_good ok) (erule set_limit_body_good [OF ok])
next
  case (step_estimate p u env aid sid digest il pl)
  then show ?thesis using estimate_good [OF ok] by simp
next
  case (step_reserve env aid)
  show ?thesis unfolding step_reserve reserve_def raise_rejection_snd
    by (intro transaction_good ok) (erule reserve_body_good [OF ok])
next
  case (step_begin_dispatch env aid digest)
  show ?thesis unfolding step_begin_dispatch begin_dispatch_def raise_rejection_snd
    by (intro transaction_good ok) (erule begin_dispatch_body_good [OF ok])
next
  case (step_cancel env aid)
  show ?thesis unfolding step_cancel cancel_def
    by (intro transaction_good ok) (erule cancel_body_good [OF ok])
next
  case (step_mark_uncertain env aid reason)
  show ?thesis unfolding step_mark_uncertain mark_uncertain_def
    by (intro checked_good transaction_good ok) (erule mark_uncertain_body_good [OF ok])
next
  case (step_settle_usage u env aid reference eid)
  show ?thesis unfolding step_settle_usage settle_usage_def
    by (rule settle_good [OF ok]) (simp_all add: MAX_AMOUNT_def)
next
  case (step_reconcile env aid amount reference eid)
  show ?thesis unfolding step_reconcile reconcile_def
    by (intro checked_good settle_good ok) (auto simp: res_simps)
qed (simp_all add: report_def report_body_def snapshot_call_def attempt_call_def events_call_def
    attempts_call_def close_def ok reading_good checked_good good_stay)

lemma create_ok:
  assumes "create env lid account limit per md = Inr l"
  shows "db_ok (ledger_db l)"
proof -
  from assms have args: "is_identifier account" "0 \<le> limit"
    and db: "initial_db env lid account limit per md = Inr (ledger_db l)"
    by (auto simp: create_def open_db_def res_simps split: sum.splits)
  then show ?thesis
    by (auto simp: initial_db_def event_Inr Let_def db_ok_def scopes_ok_def scope_ok_def event_ok_def)
qed

interpretation ledger: monotone_system cost_init "cost_step H" ledger_ok ledger_grows for H
proof (unfold_locales, goal_cases)
  case (1 l)
  then show ?case by (auto simp: cost_init_def ledger_ok_def dest: create_ok)
next
  case (2 l l')
  then show ?case using cost_step_good [of H l l'] by (simp add: ledger_ok_def good_step_def)
next
  case (3 l)
  then show ?case by (simp add: ledger_grows_def grows_refl)
next
  case (4 l l' l'')
  then show ?case unfolding ledger_grows_def by (rule grows_trans)
next
  case (5 l l')
  then show ?case using cost_step_good [of H l l'] by (simp add: ledger_ok_def ledger_grows_def good_step_def)
qed

end
