(* ===== verification/CostLedgerProps.thy ===== *)
theory CostLedgerProps
  imports CostLedgerSafety
begin

text \<open>
  What the accounting ledger promises the broker: a reservation is admitted only inside every
  budget of its chain, an attempt crosses the dispatch point at most once, history only grows,
  totals are the sums they claim to be, the parent walk returns, and a settlement can be replayed
  but not doubled.
\<close>

section \<open>Amounts along one move\<close>

lemma committed_after_move:
  assumes ok: "db_ok db" and move: "attempt_move db a f e rs db'"
  shows "committed_at db' s = committed_at db s +
    (if (attempt_scope a, s) \<in> (par db)\<^sup>*
     then actual_or_zero (f a) + reserved_microusd (f a) - actual_or_zero a - reserved_microusd a else 0)"
proof -
  from move have scopes: "scopes db' = scopes db" "account_id db' = account_id db"
    and rows: "attempts db' = update_where (\<lambda>r. attempt_id r = attempt_id a) f (attempts db)"
    and a: "a \<in> set (attempts db)" and keep: "attempt_scope (f a) = attempt_scope a"
    by (auto simp: attempt_move_def)
  have "par db' = par db" by (simp add: par_def scopes)
  moreover have "scopes_ok db'" using db_okD(1) [OF ok] scopes_ok_cong [OF scopes] by simp
  ultimately show ?thesis
    using sum_list_update_where [OF db_okD(2) [OF ok] a] keep
    by (simp add: committed_at_sum db_okD(1) [OF ok] rows)
qed

lemma first_over_None:
  "first_over db amount rows = Inr None \<Longrightarrow> r \<in> set rows \<Longrightarrow> limit_microusd r = Some m \<Longrightarrow>
    committed_at db (scope_id r) + amount \<le> m"
  by (induction rows) (auto simp: res_simps snapshot_committed split: if_splits)

lemma raise_rejection_ok:
  assumes "raise_rejection (transaction w env l body) = (Inr a, l')"
  obtains db where "body (ledger_db l) = Inr (Inr a, db)" "l' = l\<lparr>ledger_db := db\<rparr>"
proof -
  obtain res l1 where run: "transaction w env l body = (res, l1)" by fastforce
  with assms have "res = Inr (Inr a)" "l1 = l'" by (auto simp: raise_rejection_def res_simps)
  with run show thesis by (auto elim!: transaction_cases intro: that)
qed

lemma reserve_move:
  assumes ok: "db_ok db" and run: "reserve_body env aid db = Inr (Inr b, db')"
    and a: "find_attempt db aid = Some a" "attempt_state a \<noteq> Reserved"
  obtains f e rows where "attempt_move db a f e [] db'" "chain db (attempt_scope a) = Inr rows"
    "first_over db (q_ceiling_microusd (attempt_quote a)) rows = Inr None"
    "attempt_state a = Estimated" "f a = b" "attempt_state b = Reserved"
    "reserved_microusd b = q_ceiling_microusd (attempt_quote a)" "actual_microusd b = actual_microusd a"
    "attempt_scope b = attempt_scope a"
proof -
  let ?f = "\<lambda>r. r\<lparr>attempt_state := Reserved, reserved_microusd := q_ceiling_microusd (attempt_quote a)\<rparr>"
  from run a obtain p rows where st: "attempt_state a = Estimated"
    and rows: "chain db (attempt_scope a) = Inr rows"
      "first_over db (q_ceiling_microusd (attempt_quote a)) rows = Inr None"
    and ev: "event env ''cost_reserved'' (attempt_scope a) (Some aid) p None (set_attempt aid ?f db) = Inr db'"
    and b: "find_attempt db' aid = Some b"
    by (auto simp: reserve_body_def get_attempt_Inr Let_def res_simps split: if_splits option.splits)
  note aok = found_attempt_ok [OF ok a(1)]
  show thesis
  proof (rule event_move_plain [OF ok a(1) ev])
    fix e
    assume move: "attempt_move db a ?f e [] db'"
    then have "db_ok db'" by (rule move_ok [OF ok])
    moreover have "?f a \<in> set (attempts db')" unfolding moved_attempts [OF ok move] by simp
    ultimately have "?f a = b" using b aok find_attempt_Some [of db' aid "?f a"] by simp
    then have "attempt_state b = Reserved" "reserved_microusd b = q_ceiling_microusd (attempt_quote a)"
      "actual_microusd b = actual_microusd a" "attempt_scope b = attempt_scope a" by auto
    then show thesis by (rule that [OF move rows st \<open>?f a = b\<close>])
  qed (use aok st in \<open>auto simp: attempt_ok_def amounts_ok_def state_simps\<close>)
qed

section \<open>A concrete ledger\<close>

text \<open>An account with a budget, an engagement, a session and an action below it, and one estimate.\<close>

definition demo_env :: "nat \<Rightarrow> cost_env" where
  "demo_env n = \<lparr>same_process = True, files_before = Fine, begin_outcome = Fine, files_after = Fine,
    commit_outcome = Fine, rollback_fine = True, fresh_id = ''event-'' @ show_int (int n), now_text = ''2026-01-01''\<rparr>"

definition demo_price :: price_card where
  "demo_price = \<lparr>provider = ''p'', model = ''m'', version = ''v1'',
    input_microusd_per_million = 2000000, cached_input_microusd_per_million = 500000,
    output_microusd_per_million = 8000000, request_microusd = 0, currency = ''USD''\<rparr>"

definition demo_usage :: token_usage where
  "demo_usage = \<lparr>input_tokens = 900, output_tokens = 100, cached_input_tokens = 0\<rparr>"

definition demo_hash :: "string \<Rightarrow> string" where "demo_hash s = ''digest''"

definition demo_digest :: string where "demo_digest = replicate 64 CHR ''a''"

definition demo_open :: cost_ledger where
  "demo_open = (case create (demo_env 0) ''ledger-1'' ''acct'' 10000 ''lifetime'' ''provider'' of Inr l \<Rightarrow> l)"

definition demo_scopes :: cost_ledger where
  "demo_scopes =
    snd (add_scope (demo_env 3) (snd (add_scope (demo_env 2) (snd (add_scope (demo_env 1) demo_open
      ''eng'' ''acct'' ''engagement'' (Some 6000))) ''sess'' ''eng'' ''session'' None)) ''act'' ''sess'' ''action'' (Some 5000))"

definition demo_estimated :: cost_ledger where
  "demo_estimated = snd (estimate demo_hash (demo_env 4) demo_scopes ''try-1'' ''act'' demo_digest demo_price demo_usage 1000 200)"

lemma demo_usage_ok: "price_card_ok demo_price" "token_usage_ok demo_usage"
  by code_simp+

lemma demo_open_reach: "reach cost_init (cost_step demo_hash) demo_open"
proof (rule reach_init)
  have "create (demo_env 0) ''ledger-1'' ''acct'' 10000 ''lifetime'' ''provider'' = Inr demo_open"
    by code_simp
  then show "cost_init demo_open" unfolding cost_init_def by blast
qed

lemma demo_reach: "reach cost_init (cost_step demo_hash) demo_estimated"
  unfolding demo_estimated_def demo_scopes_def
  by (rule reach_step [of _ "cost_step demo_hash", OF _ step_estimate [OF demo_usage_ok]],
      (rule reach_step [of _ "cost_step demo_hash", OF _ step_add_scope])+, rule demo_open_reach)

definition demo_reserved :: cost_ledger where
  "demo_reserved = snd (reserve (demo_env 5) demo_estimated ''try-1'')"

definition demo_dispatched :: cost_ledger where
  "demo_dispatched = snd (begin_dispatch (demo_env 6) demo_reserved ''try-1'' demo_digest)"

lemma demo_reserved_reach: "reach cost_init (cost_step demo_hash) demo_reserved"
  unfolding demo_reserved_def by (rule reach_step [of _ "cost_step demo_hash", OF demo_reach step_reserve])

section \<open>Admission\<close>

text \<open>C22: a fresh reservation that succeeds leaves the committed total of every budgeted scope on
  the attempt's chain, from the account down, within its limit.\<close>

theorem reserve_within_budgets:
  assumes "reach cost_init (cost_step H) l"
    and "find_attempt (ledger_db l) aid = Some a" and "attempt_state a \<noteq> Reserved"
    and "reserve env l aid = (Inr b, l')"
    and "chain (ledger_db l) (attempt_scope a) = Inr rows" and "r \<in> set rows" and "limit_microusd r = Some m"
  shows "committed_at (ledger_db l') (scope_id r) \<le> m"
proof -
  have ok: "db_ok (ledger_db l)"
    using ledger.reach_inv [OF assms(1)] by (simp add: ledger_ok_def)
  from assms(4) obtain db where run: "reserve_body env aid (ledger_db l) = Inr (Inr b, db)"
    and l': "l' = l\<lparr>ledger_db := db\<rparr>"
    unfolding reserve_def by (rule raise_rejection_ok)
  from reserve_move [OF ok run assms(2,3)] obtain f e where
    move: "attempt_move (ledger_db l) a f e [] db"
    and over: "first_over (ledger_db l) (q_ceiling_microusd (attempt_quote a)) rows = Inr None"
    and b: "f a = b" "attempt_state a = Estimated" "reserved_microusd b = q_ceiling_microusd (attempt_quote a)"
      "actual_microusd b = actual_microusd a"
    using assms(5) by (metis sum.inject(2))
  have "reserved_microusd a = 0" "attempt_scope b = attempt_scope a" "0 \<le> reserved_microusd b"
    using found_attempt_ok [OF ok assms(2)] b move
    by (auto simp: attempt_ok_def amounts_ok_def quote_ok_def attempt_move_def)
  then have "committed_at db (scope_id r) \<le> committed_at (ledger_db l) (scope_id r) + reserved_microusd b"
    using committed_after_move [OF ok move, of "scope_id r"] b by (auto simp: actual_or_zero_def)
  also have "\<dots> \<le> m" using first_over_None [OF over assms(6,7)] b by simp
  finally show ?thesis using l' by simp
qed


theorem reserve_within_budgets_witness:
  "committed_at (ledger_db demo_reserved) ''eng'' \<le> 6000"
proof -
  have "committed_at (ledger_db demo_reserved)
      (scope_id \<lparr>scope_id = ''eng'', parent_id = Some ''acct'', scope_kind = ''engagement'', limit_microusd = Some 6000\<rparr>) \<le> 6000"
  proof (rule reserve_within_budgets [OF demo_reach])
    show "find_attempt (ledger_db demo_estimated) ''try-1'' = Some (the (find_attempt (ledger_db demo_estimated) ''try-1''))"
      by code_simp
    show "attempt_state (the (find_attempt (ledger_db demo_estimated) ''try-1'')) \<noteq> Reserved" by code_simp
    show "reserve (demo_env 5) demo_estimated ''try-1'' =
        (Inr (the (find_attempt (ledger_db demo_reserved) ''try-1'')), demo_reserved)" by code_simp
    show "chain (ledger_db demo_estimated) (attempt_scope (the (find_attempt (ledger_db demo_estimated) ''try-1''))) =
        Inr (map (the \<circ> find_scope (ledger_db demo_estimated)) [''acct'', ''eng'', ''sess'', ''act''])" by code_simp
    show "\<lparr>scope_id = ''eng'', parent_id = Some ''acct'', scope_kind = ''engagement'', limit_microusd = Some 6000\<rparr>
        \<in> set (map (the \<circ> find_scope (ledger_db demo_estimated)) [''acct'', ''eng'', ''sess'', ''act''])" by code_simp
  qed simp
  then show ?thesis by simp
qed

section \<open>Dispatch\<close>

lemma dispatched_result:
  assumes ok: "db_ok db" and run: "begin_dispatch_body env aid digest db = Inr (Inr b, db')"
  shows "find_attempt db' aid = Some b \<and> attempt_state b = Dispatched"
proof -
  from run obtain a p where a: "find_attempt db aid = Some a" and st: "attempt_state a = Reserved"
    and ev: "event env ''dispatch_started'' (attempt_scope a) (Some aid) p None
          (set_attempt aid (\<lambda>r. r\<lparr>attempt_state := Dispatched\<rparr>) db) = Inr db'"
    and b: "find_attempt db' aid = Some b"
    by (auto simp: begin_dispatch_body_def get_attempt_Inr Let_def res_simps split: option.splits)
  note aok = found_attempt_ok [OF ok a]
  show ?thesis
  proof (rule event_move_plain [OF ok a ev])
    fix e
    assume move: "attempt_move db a (\<lambda>r. r\<lparr>attempt_state := Dispatched\<rparr>) e [] db'"
    then have "db_ok db'" by (rule move_ok [OF ok])
    moreover have "a\<lparr>attempt_state := Dispatched\<rparr> \<in> set (attempts db')"
      unfolding moved_attempts [OF ok move] by simp
    ultimately have "a\<lparr>attempt_state := Dispatched\<rparr> = b"
      using b aok find_attempt_Some [of db' aid "a\<lparr>attempt_state := Dispatched\<rparr>"] by simp
    with b show ?thesis by auto
  qed (use aok st in \<open>auto simp: attempt_ok_def amounts_ok_def state_simps\<close>)
qed

text \<open>C23: dispatch is claimed at most once. After a successful \<open>begin_dispatch\<close> no later call for the
  attempt, after any run of operations, is let through, and the log holds exactly one dispatch event.\<close>

theorem dispatch_claimed_once:
  assumes "reach cost_init (cost_step H) l" and "begin_dispatch env l aid digest = (Inr b, l1)"
    and "(cost_step H)\<^sup>*\<^sup>* l1 l2"
  shows "isl (fst (begin_dispatch env2 l2 aid digest2)) \<and> dispatches (ledger_db l2) aid = 1"
proof -
  have ok: "db_ok (ledger_db l)" using ledger.reach_inv [OF assms(1)] by (simp add: ledger_ok_def)
  from assms(2) obtain db where run: "begin_dispatch_body env aid digest (ledger_db l) = Inr (Inr b, db)"
    and l1: "l1 = l\<lparr>ledger_db := db\<rparr>"
    unfolding begin_dispatch_def by (rule raise_rejection_ok)
  have "reach cost_init (cost_step H) l1"
    using reach_step [of _ "cost_step H", OF assms(1) step_begin_dispatch [of H l env aid digest]] assms(2) by simp
  then have ok1: "ledger_ok l1" and grow: "ledger_grows l1 l2" and ok2: "db_ok (ledger_db l2)"
    using ledger.reach_inv ledger.steps_inv [OF assms(3)] ledger.reach_rel [OF _ assms(3)]
    by (auto simp: ledger_ok_def)
  from dispatched_result [OF ok run] l1 have "b \<in> set (attempts (ledger_db l1))" "attempt_id b = aid" "attempt_state b = Dispatched"
    using ok1 find_attempt_Some [of "ledger_db l1" aid b] by (auto simp: ledger_ok_def)
  with grow obtain c where c: "c \<in> set (attempts (ledger_db l2))" "attempt_id c = aid" "Dispatched \<le> attempt_state c"
    by (auto simp: ledger_grows_def grows_def same_attempt_def)
  then have found: "find_attempt (ledger_db l2) aid = Some c" and st: "attempt_state c \<noteq> Reserved" "sent (attempt_state c)"
    using find_attempt_Some [OF ok2] by (auto simp: state_simps)
  have "\<not> (\<exists>d l3. begin_dispatch env2 l2 aid digest2 = (Inr d, l3))"
  proof
    assume "\<exists>d l3. begin_dispatch env2 l2 aid digest2 = (Inr d, l3)"
    then obtain d l3 where "begin_dispatch env2 l2 aid digest2 = (Inr d, l3)" by blast
    then obtain db3 where "begin_dispatch_body env2 aid digest2 (ledger_db l2) = Inr (Inr d, db3)"
      unfolding begin_dispatch_def by (rule raise_rejection_ok)
    with found st show False by (auto simp: begin_dispatch_body_def get_attempt_Inr res_simps)
  qed
  then have "isl (fst (begin_dispatch env2 l2 aid digest2))"
    by (cases "begin_dispatch env2 l2 aid digest2"; cases "fst (begin_dispatch env2 l2 aid digest2)") auto
  moreover have "dispatches (ledger_db l2) aid = 1"
    using db_okD(5) [OF ok2 c(1)] c(2) st by (simp add: attempt_ok_def)
  ultimately show ?thesis ..
qed

theorem dispatch_claimed_once_witness:
  "isl (fst (begin_dispatch (demo_env 7) demo_dispatched ''try-1'' demo_digest))"
proof -
  have "begin_dispatch (demo_env 6) demo_reserved ''try-1'' demo_digest =
      (Inr (the (find_attempt (ledger_db demo_dispatched) ''try-1'')), demo_dispatched)" by code_simp
  from dispatch_claimed_once [OF demo_reserved_reach this rtranclp.rtrancl_refl] show ?thesis by blast
qed

text \<open>C31: along every run the event and receipt tables are only appended to, and every attempt keeps
  its scope, digest and quote while its state moves forward in the life-cycle order.\<close>

theorem ledger_history_grows:
  assumes "reach cost_init (cost_step H) l" and "(cost_step H)\<^sup>*\<^sup>* l l'"
  shows "ledger_grows l l'"
  by (rule ledger.reach_rel [OF assms])

theorem ledger_history_grows_witness: "ledger_grows demo_reserved demo_dispatched"
  using ledger_history_grows [OF demo_reserved_reach
      r_into_rtranclp [of "cost_step demo_hash", OF step_begin_dispatch]]
  by (simp add: demo_dispatched_def)

section \<open>The parent walk\<close>

lemma chain_loop_extends: "chain_loop db acc sid = Inr res \<Longrightarrow> \<exists>rows. res = acc @ rows"
  by (induction db acc sid rule: chain_loop.induct)
    (subst (asm) chain_loop.simps, auto simp: res_simps split: option.splits if_splits)

lemma option_none: "(\<And>x. v = Some x \<Longrightarrow> False) \<Longrightarrow> v = None"
  by (cases v) auto

text \<open>The rows a walk collects: each is the parent of the one before it, and the last is the account.\<close>

lemma chain_loop_path:
  assumes "scopes_ok db"
  shows "chain_loop db acc (Some s) = Inr (acc @ rows) \<Longrightarrow> rows \<noteq> [] \<and> scope_id (hd rows) = s \<and> length (acc @ rows) \<le> 5
    \<and> (\<forall>i. Suc i < length rows \<longrightarrow> parent_id (rows ! i) = Some (scope_id (rows ! Suc i)))"
proof (induction "5 - length acc" arbitrary: acc s rows rule: less_induct)
  case less
  from less.prems obtain r where r: "get_scope db s = Inr r" and few: "length acc < 5"
    and rest: "chain_loop db (acc @ [r]) (parent_id r) = Inr (acc @ rows)"
    by (auto simp: chain_loop_Some res_simps split: if_splits)
  have id: "scope_id r = s"
    using r find_scope_Some [OF assms, of s r] by (auto simp: get_scope_def res_simps split: option.splits)
  show ?case
  proof (cases "parent_id r")
    case None
    then have "rows = [r]" using rest by (simp add: chain_loop_None)
    then show ?thesis using id few by simp
  next
    case (Some p)
    obtain rows' where rows: "acc @ rows = (acc @ [r]) @ rows'" using chain_loop_extends [OF rest] by auto
    have "5 - length (acc @ [r]) < 5 - length acc" using few by simp
    from less.hyps [OF this, of p rows'] rest Some rows
    have "rows' \<noteq> []" "scope_id (hd rows') = p" "length ((acc @ [r]) @ rows') \<le> 5"
      "\<forall>i. Suc i < length rows' \<longrightarrow> parent_id (rows' ! i) = Some (scope_id (rows' ! Suc i))" by auto
    moreover have "rows = r # rows'" using rows by simp
    ultimately show ?thesis using id Some by (auto simp: nth_Cons hd_conv_nth split: nat.split)
  qed
qed

lemma chain_walk:
  assumes ok: "scopes_ok db" and "r \<in> set (scopes db)"
  obtains rows where "chain_loop db [] (Some (scope_id r)) = Inr rows" "rows \<noteq> []" "scope_id (last rows) = account_id db"
    "parent_id (last rows) = None" "set rows \<subseteq> set (scopes db)" "distinct (map scope_id rows)"
proof -
  have "rank (scope_kind r) + length [] < 5" using rank_le [of "scope_kind r"] by simp
  from chain_loop_total [OF assms this] obtain rows where rows: "chain_loop db [] (Some (scope_id r)) = Inr ([] @ rows)"
    "rows \<noteq> []" "scope_id (last rows) = account_id db" "set rows \<subseteq> set (scopes db)" by auto
  note p = chain_loop_path [OF ok rows(1)]
  have parent: "(scope_id (rows ! i), scope_id (rows ! Suc i)) \<in> par db" if "Suc i < length rows" for i
  proof -
    have "rows ! i \<in> set (scopes db)" using rows(4) nth_mem [of i rows] that by auto
    then show ?thesis using p that by (auto simp: par_def)
  qed
  have down: "scope_rank db (scope_id (rows ! j)) < scope_rank db (scope_id (rows ! i))" if "i < j" "j < length rows" for i j
    using that
  proof (induction j)
    case (Suc j)
    have "scope_rank db (scope_id (rows ! Suc j)) < scope_rank db (scope_id (rows ! j))"
      using par_rank [OF ok parent] Suc.prems(2) by simp
    then show ?case using Suc by (cases "i = j") auto
  qed simp
  have "distinct (map scope_id rows)"
    unfolding distinct_conv_nth length_map using down by (metis linorder_neqE_nat nat_neq_iff nth_map)
  moreover have "parent_id (last rows) = None"
  proof -
    from ok obtain q where "q \<in> set (scopes db)" "scope_id q = account_id db" "parent_id q = None"
      by (auto simp: scopes_ok_def list_ex_iff)
    moreover have "last rows \<in> set (scopes db)" using rows(2,4) last_in_set by auto
    ultimately show ?thesis using scope_unique [OF ok, of q "last rows"] rows(3) by simp
  qed
  ultimately show thesis using that rows by simp
qed

text \<open>
  C32: the parent walk returns. On every ledger the operations can reach, the walk from a scope in the
  table answers with at most five different rows, from the account down to that scope, each the parent
  of the next; from anything else it reports the lookup's error. It never runs into the bound that the
  loop has against a cyclic table, and never ends anywhere but at the account.
\<close>

theorem scope_chain_returns:
  assumes "reach cost_init (cost_step H) l"
  shows "(if s \<in> scope_id ` set (scopes (ledger_db l))
      then \<exists>rows. chain (ledger_db l) s = Inr rows \<and> rows \<noteq> [] \<and> length rows \<le> 5 \<and> distinct (map scope_id rows)
        \<and> set rows \<subseteq> set (scopes (ledger_db l)) \<and> scope_id (hd rows) = account_id (ledger_db l) \<and> parent_id (hd rows) = None
        \<and> scope_id (last rows) = s
        \<and> (\<forall>i. Suc i < length rows \<longrightarrow> parent_id (rows ! Suc i) = Some (scope_id (rows ! i)))
      else chain (ledger_db l) s \<in> {Inl (CostError ''cost_invalid_identifier''), Inl (CostError ''cost_scope_unknown'')})"
proof (cases "s \<in> scope_id ` set (scopes (ledger_db l))")
  case True
  let ?db = "ledger_db l"
  have ok: "scopes_ok ?db" using ledger.reach_inv [OF assms] db_okD(1) by (simp add: ledger_ok_def)
  from True obtain r where r: "r \<in> set (scopes ?db)" "s = scope_id r" by auto
  from chain_walk [OF ok r(1)] obtain rows where w: "chain_loop ?db [] (Some s) = Inr ([] @ rows)" "rows \<noteq> []"
    "scope_id (last rows) = account_id ?db" "parent_id (last rows) = None" "set rows \<subseteq> set (scopes ?db)" "distinct (map scope_id rows)"
    unfolding r(2) by auto
  note p = chain_loop_path [OF ok w(1)]
  have "parent_id (rev rows ! Suc i) = Some (scope_id (rev rows ! i))" if "Suc i < length rows" for i
    using p that by (simp add: rev_nth Suc_diff_Suc)
  moreover have "chain ?db s = Inr (rev rows)" using w by (simp add: chain_def)
  ultimately have "\<exists>rows. chain ?db s = Inr rows \<and> rows \<noteq> [] \<and> length rows \<le> 5 \<and> distinct (map scope_id rows)
        \<and> set rows \<subseteq> set (scopes ?db) \<and> scope_id (hd rows) = account_id ?db \<and> parent_id (hd rows) = None
        \<and> scope_id (last rows) = s
        \<and> (\<forall>i. Suc i < length rows \<longrightarrow> parent_id (rows ! Suc i) = Some (scope_id (rows ! i)))"
    using w p by (intro exI [of _ "rev rows"]) (simp add: hd_rev last_rev rev_map [symmetric])
  then show ?thesis using True by simp
next
  case False
  then have "find_scope (ledger_db l) s = None"
    by (auto simp: find_scope_def dest: find_key_Some intro!: option_none)
  then show ?thesis using False
    by (auto simp: chain_def chain_loop_Some get_scope_def check_identifier_def require_def)
qed

theorem scope_chain_returns_witness:
  "\<exists>rows. chain (ledger_db demo_reserved) ''act'' = Inr rows \<and> map scope_id rows \<noteq> [] \<and> scope_id (hd rows) = ''acct'' \<and> scope_id (last rows) = ''act''"
proof -
  have "''act'' \<in> scope_id ` set (scopes (ledger_db demo_reserved))" and acct: "account_id (ledger_db demo_reserved) = ''acct''"
    by code_simp+
  with scope_chain_returns [OF demo_reserved_reach, of "''act''"] show ?thesis by auto
qed

section \<open>Totals\<close>

text \<open>A snapshot depends on the attempts its query returns, not on their order.\<close>

lemma sum_list_mset: "mset xs = mset ys \<Longrightarrow> sum_list (map f xs) = sum_list (map f (ys :: 'a list) :: int list)"
  by (metis mset_map sum_mset_sum_list)

lemma filter_mset_eq: "mset xs = mset ys \<Longrightarrow> mset (filter P xs) = mset (filter P ys)"
  by simp

lemma snapshot_of_mset:
  assumes "mset xs = mset ys"
  shows "snapshot_of r xs = snapshot_of r ys"
proof -
  have len: "length (filter P xs) = length (filter P ys)" for P
    using filter_mset_eq [OF assms] by (metis size_mset)
  show ?thesis
    using sum_list_mset [OF assms] sum_list_mset [OF filter_mset_eq [OF assms]] len mset_eq_length [OF assms]
    by (simp add: snapshot_of_def)
qed

text \<open>
  C24: in every reachable ledger the recursive query behind a snapshot of a scope returns exactly the
  attempts whose parent walk passes through the scope, each as often as it is in the table (once), also
  those without a charge or a hold. So every field of the snapshot (attempt count, estimates, holds,
  charges, unresolved attempts, head room) is the one computed from these attempts; in particular the
  committed total is the sum of their charges and holds.
\<close>

theorem snapshot_is_chain_sum:
  assumes "reach cost_init (cost_step H) l" and "r \<in> set (scopes (ledger_db l))"
    and "below = filter (\<lambda>a. \<exists>rows. chain (ledger_db l) (attempt_scope a) = Inr rows \<and> scope_id r \<in> scope_id ` set rows)
      (attempts (ledger_db l))"
  shows "mset (scope_attempts (ledger_db l) (scope_id r)) = mset below
    \<and> snapshot (ledger_db l) (scope_id r) = Inr (snapshot_of r below)
    \<and> snap_committed (snapshot_of r below) = sum_list (map (\<lambda>a. actual_or_zero a + reserved_microusd a) below)
    \<and> snap_attempt_count (snapshot_of r below) = length below
    \<and> snap_estimated (snapshot_of r below) = sum_list (map (\<lambda>a. q_estimated_microusd (attempt_quote a)) below)
    \<and> snap_unresolved (snapshot_of r below) = length (filter (\<lambda>a. attempt_state a \<in> {Dispatched, Uncertain}) below)"
proof -
  let ?db = "ledger_db l"
  have ok: "db_ok ?db" using ledger.reach_inv [OF assms(1)] by (simp add: ledger_ok_def)
  note sok = db_okD(1) [OF ok]
  have same: "(\<exists>rows. chain ?db (attempt_scope a) = Inr rows \<and> scope_id r \<in> scope_id ` set rows)
      \<longleftrightarrow> (attempt_scope a, scope_id r) \<in> (par ?db)\<^sup>*" if "a \<in> set (attempts ?db)" for a
  proof -
    from db_okD(5) [OF ok that] obtain q where "q \<in> set (scopes ?db)" "scope_id q = attempt_scope a"
      by (auto simp: attempt_ok_def)
    with chain_total [OF sok] obtain rows where "chain ?db (attempt_scope a) = Inr rows"
      "scope_id ` set rows = {s. (attempt_scope a, s) \<in> (par ?db)\<^sup>*}" by metis
    then show ?thesis by auto
  qed
  have "below = filter (\<lambda>a. (attempt_scope a, scope_id r) \<in> (par ?db)\<^sup>*) (attempts ?db)"
    unfolding assms(3) using same by (intro filter_cong) auto
  then have m: "mset (scope_attempts ?db (scope_id r)) = mset below" by (simp only: scope_attempts_mset [OF sok])
  have "snapshot ?db (scope_id r) = Inr (snapshot_of r below)"
    using get_scope_known [OF sok assms(2)] snapshot_of_mset [OF m] by (simp add: snapshot_def)
  with m show ?thesis by (simp add: snapshot_of_def Let_def sum_list_addf unresolved_def [abs_def])
qed

theorem snapshot_is_chain_sum_witness:
  "\<exists>v. snapshot (ledger_db demo_reserved) ''eng'' = Inr v \<and> snap_attempt_count v = 1
    \<and> snap_committed v = sum_list (map reserved_microusd (attempts (ledger_db demo_reserved))) \<and> 0 < snap_committed v"
proof -
  let ?db = "ledger_db demo_reserved"
  let ?eng = "\<lparr>scope_id = ''eng'', parent_id = Some ''acct'', scope_kind = ''engagement'', limit_microusd = Some 6000\<rparr>"
  have eng: "?eng \<in> set (scopes ?db)" by code_simp
  have all: "filter (\<lambda>a. case chain ?db (attempt_scope a) of Inr rows \<Rightarrow> ''eng'' \<in> scope_id ` set rows | Inl _ \<Rightarrow> False) (attempts ?db) = attempts ?db"
    by code_simp
  have "(\<exists>rows. chain ?db x = Inr rows \<and> scope_id ?eng \<in> scope_id ` set rows)
      = (case chain ?db x of Inr rows \<Rightarrow> ''eng'' \<in> scope_id ` set rows | Inl _ \<Rightarrow> False)" for x
    by (cases "chain ?db x") simp_all
  then have "attempts ?db = filter (\<lambda>a. \<exists>rows. chain ?db (attempt_scope a) = Inr rows \<and> scope_id ?eng \<in> scope_id ` set rows) (attempts ?db)"
    using all by simp
  note t = snapshot_is_chain_sum [OF demo_reserved_reach eng this]
  have "length (attempts ?db) = 1" "0 < sum_list (map reserved_microusd (attempts ?db))"
    "sum_list (map (\<lambda>a. actual_or_zero a + reserved_microusd a) (attempts ?db)) = sum_list (map reserved_microusd (attempts ?db))"
    by code_simp+
  with t show ?thesis by simp
qed

section \<open>Failed calls\<close>

text \<open>An operation that reports an error other than a recorded denial hands on the tables it was given,
  and a latched ledger stays latched. That a rolled-back or failed commit leaves the tables alone is
  SQLite's atomicity; the model assumes it (an error carries no tables), so this is not a property of the code.\<close>

lemma failed_transaction_unchanged:
  assumes "transaction w env l body = (res, l')" and "isl res \<or> failed l"
  shows "isl res \<and> ledger_db l' = ledger_db l \<and> (failed l \<longrightarrow> failed l')"
  using assms(1)
proof (cases rule: transaction_cases)
  case (commit x db)
  with assms(2) show ?thesis by simp
next
  case (abort e)
  with assms(1) show ?thesis
    by (auto simp: transaction_def committed_run_def check_files_def Let_def split: if_splits sum.splits)
qed

section \<open>Settlement\<close>

lemma settle_body_result:
  assumes ok: "db_ok db" and run: "settle_body env aid usage given source reference eid db = Inr (b, db')"
    and given: "0 \<le> given" "given \<le> MAX_AMOUNT"
  obtains a amount e where "find_attempt db aid = Some a" "find_attempt db' aid = Some b"
    "(case usage of None \<Rightarrow> Inr given
        | Some u \<Rightarrow> bindE (check_price_card (q_price (attempt_quote a))) (\<lambda>p. cost p u)) = Inr amount"
    "find_event db' eid = Some e" "event_kind e = ''cost_settled''" "event_scope e = attempt_scope a"
    "event_attempt e = Some aid" "event_payload e = canonical (settlement_json amount source reference usage)"
    "is_identifier eid" "db_ok db'" "attempt_scope b = attempt_scope a" "attempt_quote b = attempt_quote a"
proof -
  have good: "good_step db db'" by (rule settle_body_good [OF ok run given])
  from run obtain a amount seen where a: "find_attempt db aid = Some a" and aid: "is_identifier aid"
    and amount: "(case usage of None \<Rightarrow> Inr given
        | Some u \<Rightarrow> bindE (check_price_card (q_price (attempt_quote a))) (\<lambda>p. cost p u)) = Inr amount"
    and seen: "replayed eid ''cost_settled'' (attempt_scope a) (Some aid)
        (settlement_json amount source reference usage) db = Inr seen"
    by (auto simp: settle_body_def get_attempt_Inr Let_def res_simps)
  from seen have eid: "is_identifier eid" by (auto simp: replayed_def res_simps)
  then have eid_ne: "eid \<noteq> []" by (auto simp: is_identifier_def)
  have b: "find_attempt db' aid = Some b"
    using run by (auto simp: settle_body_def get_attempt_Inr Let_def res_simps split: if_splits)
  have "\<exists>e. find_event db' eid = Some e \<and> event_kind e = ''cost_settled'' \<and> event_scope e = attempt_scope a \<and>
    event_attempt e = Some aid \<and> event_payload e = canonical (settlement_json amount source reference usage)"
  proof (cases seen)
    case True
    with run a aid amount seen have "db' = db"
      by (simp add: settle_body_def get_attempt_def check_identifier_def Let_def reading_def get_attempt_Inr res_simps)
    with True seen show ?thesis
      by (auto simp: replayed_def res_simps split: option.splits)
  next
    case False
    with run a aid amount seen obtain db1 where
      ev: "event env ''cost_settled'' (attempt_scope a) (Some aid) (settlement_json amount source reference usage)
        (Some eid) db1 = Inr db'" and same: "events db1 = events db"
      by (auto simp: settle_body_def get_attempt_def check_identifier_def Let_def res_simps set_attempt_def)
    from ev obtain e where "events db' = events db1 @ [e]" "event_id e \<notin> event_id ` set (events db1)"
      "event_kind e = ''cost_settled''" "event_scope e = attempt_scope a" "event_attempt e = Some aid"
      "event_payload e = canonical (settlement_json amount source reference usage)" "event_id e = eid"
      by (rule event_InrE) (rule that, use eid_ne in simp_all)
    moreover from this have "find (\<lambda>r. event_id r = eid) (events db1) = None"
      by (auto simp: find_key_None image_iff)
    ultimately have "find_event db' eid = Some e" "event_kind e = ''cost_settled''" "event_scope e = attempt_scope a"
      "event_attempt e = Some aid" "event_payload e = canonical (settlement_json amount source reference usage)"
      by (simp_all add: find_event_def find_append)
    then show ?thesis by blast
  qed
  then obtain e where e: "find_event db' eid = Some e" "event_kind e = ''cost_settled''" "event_scope e = attempt_scope a"
    "event_attempt e = Some aid" "event_payload e = canonical (settlement_json amount source reference usage)" by blast
  from good have ok': "db_ok db'" and grow: "grows db db'" by (auto simp: good_step_def)
  have "attempt_scope b = attempt_scope a" "attempt_quote b = attempt_quote a"
  proof -
    from grow found_attempt_ok [OF ok a] obtain c where "c \<in> set (attempts db')" "same_attempt a c"
      by (auto simp: grows_def)
    moreover from this have "c = b"
      using found_attempt_ok [OF ok' b] found_attempt_ok [OF ok a] attempt_unique [OF ok', of c b]
      by (simp add: same_attempt_def)
    ultimately show "attempt_scope b = attempt_scope a" "attempt_quote b = attempt_quote a"
      by (simp_all add: same_attempt_def)
  qed
  from that [OF a b amount e eid ok' this] show thesis .
qed

lemma settle_body_replay:
  assumes ok: "db_ok db" and run: "settle_body env aid usage given source reference eid db = Inr (b, db')"
    and given: "0 \<le> given" "given \<le> MAX_AMOUNT"
  shows "settle_body env2 aid usage given source reference eid db' = Inr (b, db')"
proof -
  from run have aid: "is_identifier aid" by (auto simp: settle_body_def get_attempt_Inr res_simps)
  from settle_body_result [OF assms] obtain a amount e where "find_attempt db aid = Some a"
    "find_attempt db' aid = Some b"
    "(case usage of None \<Rightarrow> Inr given
        | Some u \<Rightarrow> bindE (check_price_card (q_price (attempt_quote a))) (\<lambda>p. cost p u)) = Inr amount"
    "find_event db' eid = Some e" "event_kind e = ''cost_settled''" "event_scope e = attempt_scope a"
    "event_attempt e = Some aid" "event_payload e = canonical (settlement_json amount source reference usage)"
    "is_identifier eid" "db_ok db'" "attempt_scope b = attempt_scope a" "attempt_quote b = attempt_quote a" .
  with aid show ?thesis
    by (cases usage)
      (simp_all add: settle_body_def get_attempt_def check_identifier_def replayed_def Let_def reading_def)
qed

text \<open>Repeating a successful settlement with the same event identifier returns the same attempt and
  changes nothing, whatever identifiers and clock the second call sees.\<close>

theorem settle_usage_replay:
  assumes "reach cost_init (cost_step H) l" and "settle_usage env l aid u reference eid = (Inr b, l')"
    and "settle_usage env2 l' aid u reference eid = (Inr c, l'')"
  shows "c = b \<and> l'' = l'"
proof -
  have ok: "db_ok (ledger_db l)" using ledger.reach_inv [OF assms(1)] by (simp add: ledger_ok_def)
  have split: "\<exists>db. settle_body ev aid (Some u) 0 ''usage_derived'' reference eid (ledger_db x) = Inr (y, db) \<and>
      x' = x\<lparr>ledger_db := db\<rparr>" if "settle_usage ev x aid u reference eid = (Inr y, x')" for ev x y x'
    using that unfolding settle_usage_def settle_def
    by (elim checked_cases transaction_cases) auto
  from split [OF assms(2)] obtain db where run: "settle_body env aid (Some u) 0 ''usage_derived'' reference eid (ledger_db l) = Inr (b, db)"
    and l': "l' = l\<lparr>ledger_db := db\<rparr>" by blast
  from split [OF assms(3)] obtain db2 where run2: "settle_body env2 aid (Some u) 0 ''usage_derived'' reference eid db = Inr (c, db2)"
    and l'': "l'' = l'\<lparr>ledger_db := db2\<rparr>" using l' by auto
  have "settle_body env2 aid (Some u) 0 ''usage_derived'' reference eid db = Inr (b, db)"
    by (rule settle_body_replay [OF ok run]) (simp_all add: MAX_AMOUNT_def)
  with run2 l' l'' show ?thesis by auto
qed

definition demo_settled :: cost_ledger where
  "demo_settled = snd (settle_usage (demo_env 7) demo_dispatched ''try-1'' demo_usage ''rcpt-1'' ''ev-s'')"

theorem settle_usage_replay_witness:
  "snd (settle_usage (demo_env 8) demo_settled ''try-1'' demo_usage ''rcpt-1'' ''ev-s'') = demo_settled"
proof -
  have reach: "reach cost_init (cost_step demo_hash) demo_dispatched"
    unfolding demo_dispatched_def
    by (rule reach_step [of _ "cost_step demo_hash", OF demo_reserved_reach step_begin_dispatch])
  have "settle_usage (demo_env 7) demo_dispatched ''try-1'' demo_usage ''rcpt-1'' ''ev-s''
      = (Inr (the (find_attempt (ledger_db demo_settled) ''try-1'')), demo_settled)"
    by code_simp
  moreover have "settle_usage (demo_env 8) demo_settled ''try-1'' demo_usage ''rcpt-1'' ''ev-s''
      = (Inr (the (find_attempt (ledger_db demo_settled) ''try-1'')),
         snd (settle_usage (demo_env 8) demo_settled ''try-1'' demo_usage ''rcpt-1'' ''ev-s''))"
    by code_simp
  ultimately show ?thesis by (rule settle_usage_replay [OF reach, THEN conjunct2])
qed

end
