(* ===== verification/PyData.thy ===== *)
theory PyData
  imports PyJson
begin

text \<open>
  The operations of the program on untrusted Python values: exact type tests
  (\<open>type(value) is dict\<close>), look-ups (\<open>value.get(key)\<close>, \<open>value[key]\<close> once the key set is
  checked), bounded integers, the equality \<open>==\<close> (which ignores key order and takes \<open>True\<close>
  for 1) and the pattern \<open>[a-f0-9]{64}\<close> of SHA-256 digests.
\<close>

primrec is_dict :: "pyval \<Rightarrow> bool" where
  "is_dict PNone = False" | "is_dict (PBool b) = False" | "is_dict (PInt i) = False"
| "is_dict (PStr s) = False" | "is_dict (PList xs) = False" | "is_dict (PDict kvs) = True"

primrec is_str :: "pyval \<Rightarrow> bool" where
  "is_str PNone = False" | "is_str (PBool b) = False" | "is_str (PInt i) = False"
| "is_str (PStr s) = True" | "is_str (PList xs) = False" | "is_str (PDict kvs) = False"

primrec is_list :: "pyval \<Rightarrow> bool" where
  "is_list PNone = False" | "is_list (PBool b) = False" | "is_list (PInt i) = False"
| "is_list (PStr s) = False" | "is_list (PList xs) = True" | "is_list (PDict kvs) = False"

primrec entries :: "pyval \<Rightarrow> (string \<times> pyval) list" where
  "entries PNone = []" | "entries (PBool b) = []" | "entries (PInt i) = []"
| "entries (PStr s) = []" | "entries (PList xs) = []" | "entries (PDict kvs) = kvs"

primrec elements :: "pyval \<Rightarrow> pyval list" where
  "elements PNone = []" | "elements (PBool b) = []" | "elements (PInt i) = []"
| "elements (PStr s) = []" | "elements (PList xs) = xs" | "elements (PDict kvs) = []"

primrec the_str :: "pyval \<Rightarrow> string" where
  "the_str PNone = []" | "the_str (PBool b) = []" | "the_str (PInt i) = []"
| "the_str (PStr s) = s" | "the_str (PList xs) = []" | "the_str (PDict kvs) = []"

primrec the_int :: "pyval \<Rightarrow> int" where
  "the_int PNone = 0" | "the_int (PBool b) = 0" | "the_int (PInt i) = i"
| "the_int (PStr s) = 0" | "the_int (PList xs) = 0" | "the_int (PDict kvs) = 0"

definition fields_of :: "pyval \<Rightarrow> string list" where
  "fields_of v = map fst (entries v)"

definition has_key :: "pyval \<Rightarrow> string \<Rightarrow> bool" where
  "has_key v k \<longleftrightarrow> k \<in> set (fields_of v)"

text \<open>\<open>value.get(key)\<close>: the entry, or \<open>None\<close>.\<close>

definition item :: "pyval \<Rightarrow> string \<Rightarrow> pyval" where
  "item v k = (case map_of (entries v) k of None \<Rightarrow> PNone | Some w \<Rightarrow> w)"

definition same_fields :: "pyval \<Rightarrow> string list \<Rightarrow> bool" where
  "same_fields v ks \<longleftrightarrow> list_all (\<lambda>k. has_key v k) ks \<and> list_all (\<lambda>k. k \<in> set ks) (fields_of v)"

definition int_in :: "int \<Rightarrow> int \<Rightarrow> pyval \<Rightarrow> bool" where
  "int_in lo hi v = (case v of PInt i \<Rightarrow> lo \<le> i \<and> i \<le> hi | _ \<Rightarrow> False)"

definition str_in :: "string list \<Rightarrow> pyval \<Rightarrow> bool" where
  "str_in xs v = (case v of PStr s \<Rightarrow> s \<in> set xs | _ \<Rightarrow> False)"

definition is_hash :: "string \<Rightarrow> bool" where
  "is_hash s \<longleftrightarrow> length s = 64 \<and> list_all is_hex s"

definition hash_val :: "pyval \<Rightarrow> bool" where
  "hash_val v = (case v of PStr s \<Rightarrow> is_hash s | _ \<Rightarrow> False)"

text \<open>Python's \<open>==\<close>.\<close>

primrec loosen :: "pyval \<Rightarrow> pyval" where
  "loosen PNone = PNone"
| "loosen (PBool b) = PInt (if b then 1 else 0)"
| "loosen (PInt i) = PInt i"
| "loosen (PStr s) = PStr s"
| "loosen (PList xs) = PList (map loosen xs)"
| "loosen (PDict kvs) = PDict (map (map_prod id loosen) kvs)"

definition py_eq :: "pyval \<Rightarrow> pyval \<Rightarrow> bool" where
  "py_eq v w \<longleftrightarrow> sort_keys (loosen v) = sort_keys (loosen w)"

definition same_type :: "pyval \<Rightarrow> pyval \<Rightarrow> bool" where
  "same_type v w = (case (v, w) of (PNone, PNone) \<Rightarrow> True | (PBool _, PBool _) \<Rightarrow> True
     | (PInt _, PInt _) \<Rightarrow> True | (PStr _, PStr _) \<Rightarrow> True | (PList _, PList _) \<Rightarrow> True
     | (PDict _, PDict _) \<Rightarrow> True | _ \<Rightarrow> False)"

lemma same_type_refl [simp]: "same_type v v"
  by (cases v) (simp_all add: same_type_def)

lemma py_eq_refl [simp]: "py_eq v v"
  by (simp add: py_eq_def)

lemma py_eq_str [simp]: "py_eq v (PStr s) \<longleftrightarrow> v = PStr s"
  by (cases v) (auto simp: py_eq_def)

lemma py_eq_str_left [simp]: "py_eq (PStr s) v \<longleftrightarrow> v = PStr s"
  by (cases v) (auto simp: py_eq_def)

lemma py_eq_int: "py_eq (PInt i) (PInt j) \<longleftrightarrow> i = j"
  by (simp add: py_eq_def)

lemma sort_keys_loosen: "sort_keys (loosen v) = loosen (sort_keys v)"
proof (induction v)
  case (PDict kvs)
  have m: "map (map_prod id sort_keys) (map (map_prod id loosen) kvs) =
    map (map_prod id loosen) (map (map_prod id sort_keys) kvs)"
    using PDict by (auto simp: snds.simps)
  have s: "sort_key fst (map (map_prod id loosen) ys) = map (map_prod id loosen) (sort_key fst ys)"
    for ys :: "(string \<times> pyval) list"
  proof (induction ys)
    case (Cons y ys)
    have "insort_key fst (map_prod id loosen y) (map (map_prod id loosen) zs) =
      map (map_prod id loosen) (insort_key fst y zs)" for zs :: "(string \<times> pyval) list"
      by (induction zs) auto
    with Cons show ?case by (simp add: id_def)
  qed simp
  show ?case by (simp only: loosen.simps sort_keys.simps m s)
qed simp_all

text \<open>Equal canonical texts are equal values, whatever the order of the keys.\<close>

lemma canonical_py_eq: "canonical v = canonical w \<Longrightarrow> py_eq v w"
  by (simp add: canonical_eq py_eq_def sort_keys_loosen)

lemma int_inE: "int_in lo hi v \<Longrightarrow> (\<And>i. v = PInt i \<Longrightarrow> lo \<le> i \<Longrightarrow> i \<le> hi \<Longrightarrow> thesis) \<Longrightarrow> thesis"
  by (cases v) (auto simp: int_in_def)

lemma int_in_PInt [simp]: "int_in lo hi (PInt i) \<longleftrightarrow> lo \<le> i \<and> i \<le> hi"
  by (simp add: int_in_def)

lemma str_inE: "str_in xs v \<Longrightarrow> (\<And>s. v = PStr s \<Longrightarrow> s \<in> set xs \<Longrightarrow> thesis) \<Longrightarrow> thesis"
  by (cases v) (auto simp: str_in_def)

lemma str_in_PStr [simp]: "str_in xs (PStr s) \<longleftrightarrow> s \<in> set xs"
  by (simp add: str_in_def)

lemma hash_valE: "hash_val v \<Longrightarrow> (\<And>s. v = PStr s \<Longrightarrow> is_hash s \<Longrightarrow> thesis) \<Longrightarrow> thesis"
  by (cases v) (auto simp: hash_val_def)

lemma hash_val_PStr [simp]: "hash_val (PStr s) \<longleftrightarrow> is_hash s"
  by (simp add: hash_val_def)

lemma is_strE: "is_str v \<Longrightarrow> (\<And>s. v = PStr s \<Longrightarrow> thesis) \<Longrightarrow> thesis"
  by (cases v) auto

lemma item_PDict: "item (PDict kvs) k = (case map_of kvs k of None \<Rightarrow> PNone | Some w \<Rightarrow> w)"
  by (simp add: item_def)

lemma item_PNone [simp]: "item PNone k = PNone"
  by (simp add: item_def)

lemma has_key_PDict [simp]: "has_key (PDict kvs) k \<longleftrightarrow> k \<in> fst ` set kvs"
  by (simp add: has_key_def fields_of_def)

end
