(* ===== verification/RoutingContract.thy ===== *)
theory RoutingContract
  imports PyData "HOL-Library.AList"
begin

text \<open>
  The commitments of the disconnected routing profile (\<open>secure_agent/routing_contract.py\<close>):
  selectors, per-action bounds, budget cases, case profiles, the selection with its digest,
  and the validators of selections, identities, limits and runtime digests. SHA-256 and what
  the neighbouring contract modules contribute to the hashed commitment (the HTTP and SSH
  selections, actions and native expectations, the topology digest, \<open>uuid5\<close>) are the fields
  of \<open>routing_env\<close>.
\<close>

section \<open>Constants\<close>

definition PROFILE :: string where "PROFILE = ''disconnected_routing_v1''"

definition SELECTORS :: "string list" where
  "SELECTORS = [''http_nmap'', ''http_headers'', ''ssh_nmap'', ''ssh_keys'']"

definition BUDGET_CASES :: "string list" where
  "BUDGET_CASES = [''ordinary'', ''connection_one'', ''http_one'', ''ssh_zero'']"

definition DEPLOYMENTS :: "string list" where
  "DEPLOYMENTS = [''nginx-A'', ''nginx-B'', ''apache-A'', ''apache-B'']"

definition SELECTION_FIELDS :: "string list" where
  "SELECTION_FIELDS = [''configuration'', ''budget_case'', ''selection_sha256'']"

definition DEPLOYMENT_SELECTION_FIELDS :: "string list" where
  "DEPLOYMENT_SELECTION_FIELDS = [''selection_version'', ''implementation''] @ SELECTION_FIELDS"

definition MATRIX_SELECTION_FIELDS :: "string list" where
  "MATRIX_SELECTION_FIELDS = DEPLOYMENT_SELECTION_FIELDS @ [''case_profile'']"

definition BASELINE_CASES :: "(string \<times> string) list" where
  "BASELINE_CASES = [(''http_nmap'', ''O5''), (''http_headers'', ''O1''), (''ssh_nmap'', ''O1''),
    (''ssh_keys'', ''O2'')]"

definition SELECTOR_CASES :: "(string \<times> string list) list" where
  "SELECTOR_CASES =
    [(''http_nmap'', [''O5'', ''O6'']),
     (''http_headers'', [''O1'', ''O2'', ''O3'', ''O4'', ''R1'', ''R2'', ''N1'', ''N2'', ''N3'', ''N4'', ''N5'']),
     (''ssh_nmap'', [''O1'', ''N1'']),
     (''ssh_keys'', [''O2'', ''R1'', ''R2'', ''N2'', ''N3'', ''N4'', ''N5'', ''N6''])]"

definition CASE_PROFILES :: "string list" where
  "CASE_PROFILES = ''baseline'' #
    concat (map (\<lambda>name. map (\<lambda>case'. name @ ''_'' @ case')
      (filter (\<lambda>case'. map_of BASELINE_CASES name \<noteq> Some case')
        (the (map_of SELECTOR_CASES name)))) SELECTORS)"

text \<open>The counters of the ledger, and the bounds of one action.\<close>

datatype counter = Connections | Http_requests | Kex_exchanges | Request_bytes | Response_bytes | Output_bytes

definition COUNTERS :: "counter list" where
  "COUNTERS = [Connections, Http_requests, Kex_exchanges, Request_bytes, Response_bytes, Output_bytes]"

fun counter_name :: "counter \<Rightarrow> string" where
  "counter_name Connections = ''connections''"
| "counter_name Http_requests = ''http_requests''"
| "counter_name Kex_exchanges = ''kex_exchanges''"
| "counter_name Request_bytes = ''request_bytes''"
| "counter_name Response_bytes = ''response_bytes''"
| "counter_name Output_bytes = ''output_bytes''"

definition bounds_row :: "int \<Rightarrow> int \<Rightarrow> int \<Rightarrow> int \<Rightarrow> int \<Rightarrow> int \<Rightarrow> counter \<Rightarrow> int" where
  "bounds_row c h k rq rs out = (\<lambda>x. case x of Connections \<Rightarrow> c | Http_requests \<Rightarrow> h
    | Kex_exchanges \<Rightarrow> k | Request_bytes \<Rightarrow> rq | Response_bytes \<Rightarrow> rs | Output_bytes \<Rightarrow> out)"

definition action_bounds :: "string \<Rightarrow> counter \<Rightarrow> int" where
  "action_bounds selector =
    (if selector = ''http_nmap'' then bounds_row 3 1 0 18 4096 8192
     else if selector = ''http_headers'' then bounds_row 1 1 0 256 2048 2048
     else if selector = ''ssh_nmap'' then bounds_row 3 0 0 0 255 8192
     else bounds_row 1 0 1 8192 8192 8192)"

definition timeout_seconds :: "string \<Rightarrow> int" where
  "timeout_seconds selector = (if selector = ''http_headers'' then 1 else 5)"

definition MAX_JSON_BYTES :: int where "MAX_JSON_BYTES = 524288"

section \<open>Selectors and cases\<close>

definition validate_selector :: "pyval \<Rightarrow> string + string" where
  "validate_selector v = (case v of
     PStr s \<Rightarrow> if s \<in> set SELECTORS then Inr s else Inl ''invalid_routing_selector''
   | _ \<Rightarrow> Inl ''invalid_routing_selector'')"

definition is_http :: "string \<Rightarrow> bool" where
  "is_http selector \<longleftrightarrow> take 5 selector = ''http_''"

definition selector_role :: "string \<Rightarrow> string" where
  "selector_role selector = (if is_http selector then ''http_frontend'' else ''ssh_frontend'')"

text \<open>\<open>profile.rsplit("_", 1)\<close>.\<close>

definition rsplit1 :: "char \<Rightarrow> string \<Rightarrow> string \<times> string" where
  "rsplit1 sep s = (let tail = rev (takeWhile (\<lambda>c. c \<noteq> sep) (rev s))
    in (take (length s - length tail - 1) s, tail))"

definition case_map :: "pyval option \<Rightarrow> string + (string \<Rightarrow> string)" where
  "case_map profile = (let base = (\<lambda>s. the (map_of BASELINE_CASES s)) in
    case profile of None \<Rightarrow> Inr base
    | Some p \<Rightarrow>
      (if \<not> str_in CASE_PROFILES p then Inl ''invalid_routing_case_profile''
       else if p = PStr ''baseline'' then Inr base
       else let (selector, case') = rsplit1 (CHR ''_'') (the_str p) in Inr (base(selector := case'))))"

definition negative_cases :: "string \<Rightarrow> string list" where
  "negative_cases selector =
    (if is_http selector then [''N1'', ''N2'', ''N3'', ''N4'', ''N5'']
     else [''N1'', ''N2'', ''N3'', ''N4'', ''N5'', ''N6''])"

section \<open>Budgets\<close>

record budgets =
  budget_actions :: int
  budget_counter :: "counter \<Rightarrow> int"

definition budgets_of :: "pyval \<Rightarrow> string + budgets" where
  "budgets_of budget_case =
    (if \<not> str_in BUDGET_CASES budget_case then Inl ''invalid_routing_budget_case''
     else Inr \<lparr>budget_actions = 4, budget_counter = bounds_row
        (if budget_case = PStr ''connection_one'' then 1 else 8)
        (if budget_case = PStr ''http_one'' then 1 else 2)
        (if budget_case = PStr ''ssh_zero'' then 0 else 1) 8466 14591 26624\<rparr>)"

definition counters_json :: "(counter \<Rightarrow> int) \<Rightarrow> (string \<times> pyval) list" where
  "counters_json f = map (\<lambda>c. (counter_name c, PInt (f c))) COUNTERS"

definition budgets_json :: "budgets \<Rightarrow> pyval" where
  "budgets_json b = PDict ([(''actions'', PInt (budget_actions b)), (''session_seconds'', PInt 60),
     (''concurrent_connections'', PInt 1), (''minimum_admission_interval_ms'', PInt 250)]
     @ counters_json (budget_counter b))"

definition action_bounds_json :: pyval where
  "action_bounds_json = PDict (map (\<lambda>s. (s, PDict (counters_json (action_bounds s) @
     [(''timeout_seconds'', PInt (timeout_seconds s))]))) SELECTORS)"

section \<open>Selections\<close>

record routing_env =
  sha :: "string \<Rightarrow> string"
  http_selection :: "string \<Rightarrow> string \<Rightarrow> string \<Rightarrow> pyval"
  ssh_selection :: "string \<Rightarrow> string \<Rightarrow> pyval"
  native_expectation :: "string \<Rightarrow> string \<Rightarrow> pyval"
  contract_action :: "string \<Rightarrow> pyval \<Rightarrow> pyval"
  topology_sha :: "string option \<Rightarrow> string"
  uuid5 :: "string \<Rightarrow> string"

definition digest :: "routing_env \<Rightarrow> pyval \<Rightarrow> string" where
  "digest env v = sha env (canonical v)"

definition underlying_case :: "routing_env \<Rightarrow> string \<Rightarrow> string \<Rightarrow> string \<Rightarrow> string \<Rightarrow> pyval" where
  "underlying_case env selector implementation configuration case' =
    (if is_http selector then http_selection env implementation configuration case'
     else ssh_selection env configuration case')"

definition set_item :: "string \<Rightarrow> pyval \<Rightarrow> pyval \<Rightarrow> pyval" where
  "set_item k w v = PDict (AList.update k w (entries v))"

definition case_expectation :: "routing_env \<Rightarrow> string \<Rightarrow> string \<Rightarrow> bool \<Rightarrow> pyval" where
  "case_expectation env selector case' matrix =
    (let native = native_expectation env selector case';
         value = PDict [(''category'', item native ''category''),
           (''expected_negative'', PBool (case' \<in> set (negative_cases selector))),
           (''allowed_classifications'',
              if has_key native ''allowed_outcomes'' then item native ''allowed_outcomes''
              else PList [PStr ''useful'']),
           (''classification_basis'', PNone), (''native_expectation'', native),
           (''requirements'', PDict [])]
     in if selector = ''http_headers'' \<and> case' = ''N4'' \<and> matrix then
          set_item ''allowed_classifications'' (PList [PStr ''expected_response_budget_refusal''])
           (set_item ''classification_basis'' (PStr ''routing_owner_response_budget_before_delivery'')
            (set_item ''requirements'' (PDict [(''proposed_response_bytes'', PInt 2049),
               (''delivered_response_bytes'', PInt 0), (''accepted_response_reservation_bytes'', PInt 0),
               (''delivered_validated_requests'', PInt 1),
               (''terminal_reason'', PStr ''action_response_bytes_limit'')]) value))
        else if selector = ''ssh_keys'' \<and> case' = ''N3'' then
          set_item ''classification_basis'' (PStr ''withheld_response_and_native_two_second_timeout'')
           (set_item ''requirements'' (PDict [(''minimum_action_elapsed_ms'', PInt 1900),
              (''allowed_native_statuses'', PList [PStr ''failed'', PStr ''timeout'']),
              (''delivered_response_bytes'', PInt 0)]) value)
        else if selector = ''ssh_keys'' \<and> case' = ''N4'' then
          set_item ''classification_basis'' (PStr ''independent_recorder_wire_cap'') value
        else value)"

definition owner_bounds_json :: pyval where
  "owner_bounds_json = PDict [(''processes'', PInt 1), (''address_space_bytes'', PInt 268435456),
     (''file_descriptors'', PInt 128), (''retained_bytes'', PInt 1048576)]"

definition evidence_bounds_json :: pyval where
  "evidence_bounds_json = PDict [(''max_files'', PInt 15), (''max_total_bytes'', PInt 2097152),
     (''max_json_bytes'', PInt MAX_JSON_BYTES), (''max_json_depth'', PInt 64)]"

definition base_commitment ::
  "routing_env \<Rightarrow> string \<Rightarrow> string \<Rightarrow> budgets \<Rightarrow> (string \<Rightarrow> string) \<Rightarrow> string \<Rightarrow> string option \<Rightarrow> string
    \<Rightarrow> (string \<times> pyval) list" where
  "base_commitment env implementation configuration caps cases budget_case topology revision =
    [(''profile'', PStr PROFILE), (''boundary_revision'', PStr revision),
     (''configuration'', PStr configuration), (''budget_case'', PStr budget_case),
     (''budgets'', budgets_json caps),
     (''actions'', PDict (map (\<lambda>s. (s, underlying_case env s implementation configuration (cases s))) SELECTORS)),
     (''per_action_bounds'', action_bounds_json), (''owner_bounds'', owner_bounds_json),
     (''bootstrap_max_bytes'', PInt 131072), (''evidence_bounds'', evidence_bounds_json),
     (''topology_sha256'', PStr (topology_sha env topology)),
     (''topology'', PStr ''two-clients-router-two-frontends-four-veth-pairs-static-routes''),
     (''excluded_endpoint'', PDict [(''target'', PStr ''10.77.0.99''), (''port'', PInt 8080)]),
     (''external_routes'', PBool False), (''operator_selected_independent_actions'', PBool True)]"

definition deployment_commitment :: "string \<Rightarrow> string \<Rightarrow> string \<Rightarrow> (string \<times> pyval) list" where
  "deployment_commitment version implementation deployment =
    [(''selection_version'', PStr version), (''implementation'', PStr implementation),
     (''deployment'', PStr deployment),
     (''http_private_transport'', PStr (if implementation = ''nginx'' then ''unix-socket''
        else ''one-use-unconnected-tcp-descriptor'')),
     (''apache_handoff'', PStr ''daemon-to-launcher-to-frontend-exact-custody-before-reserved-delivery'')]"

definition matrix_commitment :: "routing_env \<Rightarrow> (string \<Rightarrow> string) \<Rightarrow> string \<Rightarrow> (string \<times> pyval) list" where
  "matrix_commitment env cases profile =
    [(''case_profile'', PStr profile),
     (''case_map'', PDict (map (\<lambda>s. (s, PStr (cases s))) SELECTORS)),
     (''expected'', PDict (map (\<lambda>s. (s, case_expectation env s (cases s) True)) SELECTORS)),
     (''declared_negative_stops_sequence'', PStr ''after-attempt-even-if-native-status-succeeded'')]"

definition selection ::
  "routing_env \<Rightarrow> pyval \<Rightarrow> string option \<Rightarrow> pyval option \<Rightarrow> string + pyval" where
  "selection env budget_case deployment profile =
    bindE (budgets_of budget_case) (\<lambda>caps.
    bindE (case_map profile) (\<lambda>cases.
    bindE (require (\<not> (profile \<noteq> None \<and> (deployment = None \<or>
        profile \<noteq> Some (PStr ''baseline'') \<and> budget_case \<noteq> PStr ''ordinary'')))
      ''invalid_routing_case_profile_combination'') (\<lambda>_.
    bindE (require (deployment = None \<or> the deployment \<in> set DEPLOYMENTS)
      ''invalid_routing_deployment'') (\<lambda>_.
    (let budget = the_str budget_case in
     case deployment of
       None \<Rightarrow> Inr (PDict [(''configuration'', PStr ''A''), (''budget_case'', PStr budget),
         (''selection_sha256'', PStr (digest env (PDict
           (base_commitment env ''nginx'' ''A'' caps cases budget None
              ''five-namespaces-single-lifetime-ledger-v1''))))])
     | Some d \<Rightarrow>
        let implementation = hd (split_on (CHR ''-'') d); configuration = last (split_on (CHR ''-'') d);
            version = (if profile = None then ''2'' else ''3'');
            revision = (if profile = None
              then ''five-namespaces-single-lifetime-ledger-apache-one-use-handoff-v2''
              else ''five-namespaces-fixed-case-matrix-owner-enforcement-v3'')
        in Inr (PDict ([(''selection_version'', PStr version), (''implementation'', PStr implementation),
             (''configuration'', PStr configuration), (''budget_case'', PStr budget),
             (''selection_sha256'', PStr (digest env (PDict
               (base_commitment env implementation configuration caps cases budget (Some configuration) revision
                @ deployment_commitment version implementation d
                @ (case profile of None \<Rightarrow> [] | Some p \<Rightarrow> matrix_commitment env cases (the_str p))))))]
             @ (case profile of None \<Rightarrow> [] | Some p \<Rightarrow> [(''case_profile'', p)]))))))))"

definition deployment_name :: "pyval \<Rightarrow> string" where
  "deployment_name v = the_str (item v ''implementation'') @ ''-'' @ the_str (item v ''configuration'')"

definition validate_selection :: "routing_env \<Rightarrow> pyval \<Rightarrow> string + pyval" where
  "validate_selection env v =
    bindE (require (is_dict v) ''invalid_routing_selection'') (\<lambda>_.
    bindE (if same_fields v SELECTION_FIELDS then selection env (item v ''budget_case'') None None
      else if same_fields v DEPLOYMENT_SELECTION_FIELDS \<and> item v ''selection_version'' = PStr ''2''
          \<and> is_str (item v ''implementation'') \<and> is_str (item v ''configuration'')
        then selection env (item v ''budget_case'') (Some (deployment_name v)) None
      else if same_fields v MATRIX_SELECTION_FIELDS \<and> item v ''selection_version'' = PStr ''3''
          \<and> is_str (item v ''implementation'') \<and> is_str (item v ''configuration'')
          \<and> is_str (item v ''case_profile'')
        then selection env (item v ''budget_case'') (Some (deployment_name v)) (Some (item v ''case_profile''))
      else Inl ''invalid_routing_selection'') (\<lambda>expected.
    bindE (require (canonical v = canonical expected) ''invalid_routing_selection'') (\<lambda>_. Inr v)))"

section \<open>What a validated selection fixes\<close>

definition get_option :: "pyval \<Rightarrow> string \<Rightarrow> pyval option" where
  "get_option v k = map_of (entries v) k"

definition budgets_for :: "routing_env \<Rightarrow> pyval \<Rightarrow> string + budgets" where
  "budgets_for env selected = bindE (validate_selection env selected) (\<lambda>v. budgets_of (item v ''budget_case''))"

definition implementation_of :: "pyval \<Rightarrow> string" where
  "implementation_of v = (if has_key v ''implementation'' then the_str (item v ''implementation'') else ''nginx'')"

definition underlying_selection :: "routing_env \<Rightarrow> string \<Rightarrow> pyval \<Rightarrow> string + pyval" where
  "underlying_selection env selector selected =
    bindE (validate_selection env selected) (\<lambda>chosen.
    bindE (case_map (get_option chosen ''case_profile'')) (\<lambda>cases.
    Inr (underlying_case env selector (implementation_of chosen)
      (the_str (item chosen ''configuration'')) (cases selector))))"

definition case_is_negative :: "routing_env \<Rightarrow> string \<Rightarrow> pyval \<Rightarrow> string + bool" where
  "case_is_negative env selector selected =
    bindE (underlying_selection env selector selected) (\<lambda>chosen.
    Inr (item chosen ''case'' \<in> set (map PStr (negative_cases selector))))"

definition action :: "routing_env \<Rightarrow> pyval \<Rightarrow> string \<Rightarrow> string + pyval" where
  "action env selected selector =
    bindE (validate_selection env selected) (\<lambda>v.
    bindE (underlying_selection env selector v) (\<lambda>chosen.
    Inr (set_item ''action_id''
      (PStr (uuid5 env (PROFILE @ '':'' @ the_str (item v ''selection_sha256'') @ '':'' @ selector)))
      (contract_action env selector chosen))))"

definition limits_of :: pyval where
  "limits_of = PDict [(''max_steps'', PInt 4), (''max_runtime_seconds'', PInt 60), (''max_output_bytes'', PInt 26624)]"

definition validate_limits :: "routing_env \<Rightarrow> pyval \<Rightarrow> pyval \<Rightarrow> string + pyval" where
  "validate_limits env v selected =
    bindE (validate_selection env selected) (\<lambda>_.
    bindE (require (is_dict v \<and> same_fields v (fields_of limits_of)
       \<and> list_all (\<lambda>k. item v k = item limits_of k) (fields_of limits_of)) ''invalid_routing_limits'') (\<lambda>_.
    Inr v))"

section \<open>Runtime digests and identities\<close>

definition runtime_digest_row :: "string \<Rightarrow> pyval \<Rightarrow> string + unit" where
  "runtime_digest_row selector row =
    bindE (require (is_dict row \<and> same_fields row [''daemon_runtime_sha256'', ''client_runtime_sha256''])
      ''invalid_routing_runtime_digests'') (\<lambda>_.
    bindE (mapE (\<lambda>(name, w).
      if selector = ''http_headers'' \<and> name = ''client_runtime_sha256''
      then require (w = PNone) ''invalid_routing_header_runtime''
      else require (hash_val w) ''invalid_routing_runtime_digest'') (entries row)) (\<lambda>_. Inr ()))"

definition validate_runtime_digests :: "pyval \<Rightarrow> string + pyval" where
  "validate_runtime_digests v =
    bindE (require (is_dict v \<and> same_fields v SELECTORS) ''invalid_routing_runtime_digests'') (\<lambda>_.
    bindE (mapE (\<lambda>(selector, row). runtime_digest_row selector row) (entries v)) (\<lambda>_. Inr v))"

text \<open>\<open>str(UUID(value)) == value\<close>: the lower-case 8-4-4-4-12 form.\<close>

definition is_uuid :: "string \<Rightarrow> bool" where
  "is_uuid s \<longleftrightarrow> map length (split_on (CHR ''-'') s) = [8, 4, 4, 4, 12]
     \<and> list_all (list_all is_hex) (split_on (CHR ''-'') s)"

definition selection_from_identity :: "routing_env \<Rightarrow> pyval \<Rightarrow> string + pyval" where
  "selection_from_identity env v =
    bindE (require (is_dict v) ''invalid_routing_identity_selection'') (\<lambda>_.
    (let matrix = (item v ''selection_version'' = PStr ''3'');
         fields = (if matrix then MATRIX_SELECTION_FIELDS
           else if has_key v ''selection_version'' then DEPLOYMENT_SELECTION_FIELDS else SELECTION_FIELDS)
     in bindE (require (list_all (has_key v) fields
          \<and> \<not> (fields = SELECTION_FIELDS \<and> has_key v ''implementation'')
          \<and> \<not> (fields \<noteq> MATRIX_SELECTION_FIELDS \<and> has_key v ''case_profile''))
          ''invalid_routing_identity_selection'') (\<lambda>_.
        validate_selection env (PDict (map (\<lambda>k. (k, item v k)) fields)))))"

definition validate_identity :: "routing_env \<Rightarrow> pyval option \<Rightarrow> pyval \<Rightarrow> string + pyval" where
  "validate_identity env selected v =
    bindE (selection_from_identity env v) (\<lambda>chosen.
    bindE (require (same_fields v ([''version'', ''profile'', ''instance_id'', ''session_id''] @ fields_of chosen
         @ [''runtime_sha256'', ''runtimes'']) \<and> item v ''version'' = PStr ''1'' \<and> item v ''profile'' = PStr PROFILE)
      ''invalid_routing_identity'') (\<lambda>_.
    bindE (require (is_str (item v ''instance_id'') \<and> is_uuid (the_str (item v ''instance_id''))
         \<and> is_str (item v ''session_id'') \<and> is_uuid (the_str (item v ''session_id'')))
      ''invalid_routing_identity'') (\<lambda>_.
    bindE (case selected of None \<Rightarrow> Inr () | Some w \<Rightarrow>
      bindE (validate_selection env w) (\<lambda>w'. require (py_eq chosen w') ''routing_identity_binding_changed'')) (\<lambda>_.
    bindE (require (hash_val (item v ''runtime_sha256'')) ''invalid_routing_runtime_digest'') (\<lambda>_.
    bindE (validate_runtime_digests (item v ''runtimes'')) (\<lambda>_. Inr v))))))"

end
