(* ===== verification/RoutingLedger.thy ===== *)
theory RoutingLedger
  imports RoutingContract
begin

text \<open>
  The owner-lifetime routing budget (\<open>secure_agent/routing_ledger.py\<close>): a ledger object with
  its counters, its actions, the active action and connection and its event log, the message
  gate \<open>apply\<close>, and the owner's \<open>check_deadline\<close> and \<open>terminate\<close>. The read-only replay of a
  saved snapshot (\<open>_replay_snapshot\<close>) is not modelled. A reading of the owner's clock is the
  argument \<open>clk\<close>: \<open>None\<close> when the value is not a finite number at or after the start, otherwise the
  microseconds since the start.
  A method that raises returns the error beside the state it leaves, since \<open>apply\<close> changes
  the ledger on its error paths too. Actions are updated by index, because \<open>_active\<close> is the
  same object as an entry of \<open>_actions\<close>.
\<close>

section \<open>State\<close>

definition ROLES :: "string list" where
  "ROLES = [''launcher'', ''http_frontend'', ''ssh_frontend'']"

definition MAX_EVENTS :: int where "MAX_EVENTS = 1024"
definition MAX_MESSAGE_BYTES :: int where "MAX_MESSAGE_BYTES = 1024"
definition MAX_SNAPSHOT_BYTES :: int where "MAX_SNAPSHOT_BYTES = MAX_JSON_BYTES"
definition CLEANUP_EVENT_RESERVE :: int where "CLEANUP_EVENT_RESERVE = 4"
definition SESSION_US :: int where "SESSION_US = 60000000"

definition CLEANUP_OPERATIONS :: "string list" where
  "CLEANUP_OPERATIONS = [''FINISH_CONNECTION'', ''FINISH_ACTION'', ''STOP'']"

definition EXTERNAL_STOP_REASONS :: "string list" where
  "EXTERNAL_STOP_REASONS = [''completed'', ''cancelled'', ''owner_channel_closed'', ''owner_protocol_error'',
     ''continuity_lost'', ''owner_cleanup'', ''execution_failed'']"

definition COMMON :: "string list" where
  "COMMON = [''operation'', ''sequence'', ''action_sequence'', ''action_digest'']"

definition EXTRA :: "(string \<times> string list) list" where
  "EXTRA = [(''ARM'', [''selector'', ''runtime_digests'']), (''RESERVE_CONNECTION'', [''local_id'']),
     (''RESERVE_REQUEST'', [''lease'', ''kind'']), (''RESERVE_BYTES'', [''lease'', ''direction'', ''bytes'']),
     (''FINISH_CONNECTION'', [''lease'']), (''FINISH_ACTION'', [''output_bytes'']), (''STOP'', [''reason''])]"

record routing_action =
  act_selector :: string
  act_sequence :: int
  act_digest :: string
  act_runtimes :: pyval
  act_armed :: int
  act_deadline :: int
  act_finished :: "int option"
  act_retained :: int
  act_connections_finished :: int
  act_counters :: "counter \<Rightarrow> int"

record routing_connection =
  conn_lease :: string
  conn_local :: int
  conn_admitted :: int
  conn_requested :: bool

record routing_ledger =
  led_selection :: pyval
  led_identity :: pyval
  led_caps :: budgets
  led_elapsed :: int
  led_sequences :: "string \<Rightarrow> int"
  led_arms :: int
  led_counters :: "counter \<Rightarrow> int"
  led_actions :: "routing_action list"
  led_active :: "nat option"
  led_connection :: "routing_connection option"
  led_admission :: "int option"
  led_events :: "pyval list"
  led_terminal :: bool
  led_reason :: "string option"

definition new_ledger :: "routing_env \<Rightarrow> pyval \<Rightarrow> pyval \<Rightarrow> string + routing_ledger" where
  "new_ledger env selected identity =
    bindE (validate_selection env selected) (\<lambda>sel.
    bindE (validate_identity env (Some sel) identity) (\<lambda>ident.
    bindE (budgets_for env sel) (\<lambda>caps.
    Inr \<lparr>led_selection = sel, led_identity = ident, led_caps = caps, led_elapsed = 0,
      led_sequences = (\<lambda>_. 0), led_arms = 0, led_counters = (\<lambda>_. 0), led_actions = [],
      led_active = None, led_connection = None, led_admission = None, led_events = [],
      led_terminal = False, led_reason = None\<rparr>)))"

section \<open>Snapshots\<close>

definition opt_json :: "('a \<Rightarrow> pyval) \<Rightarrow> 'a option \<Rightarrow> pyval" where
  "opt_json f v = (case v of None \<Rightarrow> PNone | Some x \<Rightarrow> f x)"

definition action_json :: "routing_action \<Rightarrow> pyval" where
  "action_json a = PDict
    ([(''selector'', PStr (act_selector a)), (''sequence'', PInt (act_sequence a)),
      (''action_digest'', PStr (act_digest a)), (''runtime_digests'', act_runtimes a),
      (''armed_us'', PInt (act_armed a)), (''deadline_us'', PInt (act_deadline a)),
      (''status'', PStr (if act_finished a = None then ''active'' else ''finished'')),
      (''output_bytes_retained'', PInt (act_retained a)),
      (''connections_finished'', PInt (act_connections_finished a)),
      (''counters'', PDict (counters_json (act_counters a)))]
     @ (case act_finished a of None \<Rightarrow> [] | Some t \<Rightarrow> [(''finished_us'', PInt t)]))"

definition connection_json :: "routing_connection \<Rightarrow> pyval" where
  "connection_json c = PDict [(''lease'', PStr (conn_lease c)), (''local_id'', PInt (conn_local c)),
     (''admitted_us'', PInt (conn_admitted c)), (''request_reserved'', PBool (conn_requested c))]"

definition active_action :: "routing_ledger \<Rightarrow> routing_action option" where
  "active_action s = map_option (\<lambda>i. led_actions s ! i) (led_active s)"

definition snapshot :: "routing_ledger \<Rightarrow> pyval" where
  "snapshot s = PDict
    [(''schema_version'', PStr ''1''), (''profile'', PStr PROFILE), (''identity'', led_identity s),
     (''selection'', led_selection s), (''budgets'', budgets_json (led_caps s)),
     (''elapsed_us'', PInt (led_elapsed s)), (''terminal'', PBool (led_terminal s)),
     (''terminal_reason'', opt_json PStr (led_reason s)),
     (''sequences'', PDict (map (\<lambda>r. (r, PInt (led_sequences s r))) ROLES)),
     (''counters'', PDict ((''actions'', PInt (led_arms s)) # counters_json (led_counters s))),
     (''actions'', PList (map action_json (led_actions s))),
     (''active_action_sequence'', opt_json (\<lambda>a. PInt (act_sequence a)) (active_action s)),
     (''active_connection'', opt_json connection_json (led_connection s)),
     (''last_admission_us'', opt_json PInt (led_admission s)),
     (''events'', PList (led_events s))]"

section \<open>Time and stopping\<close>

definition now :: "int option \<Rightarrow> routing_ledger \<Rightarrow> string + routing_ledger" where
  "now clk s = (case clk of None \<Rightarrow> Inl ''owner_clock_invalid''
     | Some us \<Rightarrow> let elapsed = min SESSION_US us in
         bindE (require (led_elapsed s \<le> elapsed) ''owner_clock_reversed'') (\<lambda>_.
         Inr (s\<lparr>led_elapsed := elapsed\<rparr>)))"

definition stop :: "string \<Rightarrow> routing_ledger \<Rightarrow> routing_ledger" where
  "stop reason s = (if led_terminal s then s else s\<lparr>led_terminal := True, led_reason := Some reason\<rparr>)"

definition time_check :: "int \<Rightarrow> routing_ledger \<Rightarrow> string + unit" where
  "time_check elapsed s =
    bindE (require (elapsed < SESSION_US) ''session_deadline'') (\<lambda>_.
    case active_action s of None \<Rightarrow> Inr ()
    | Some a \<Rightarrow> require (elapsed < act_deadline a) ''action_deadline'')"

definition add_event :: "pyval \<Rightarrow> routing_ledger \<Rightarrow> routing_ledger" where
  "add_event e s = s\<lparr>led_events := led_events s @ [e]\<rparr>"

definition stop_event :: "string \<Rightarrow> int \<Rightarrow> string \<Rightarrow> pyval" where
  "stop_event kind elapsed reason =
    PDict [(''kind'', PStr kind), (''elapsed_us'', PInt elapsed), (''reason'', PStr reason)]"

definition clock_stop :: "string \<Rightarrow> routing_ledger \<Rightarrow> routing_ledger" where
  "clock_stop reason s = add_event (stop_event ''clock_stop'' (led_elapsed s) reason) (stop reason s)"

definition check_deadline :: "int option \<Rightarrow> routing_ledger \<Rightarrow> routing_ledger" where
  "check_deadline clk s =
    (if led_terminal s then s
     else case now clk s of Inl reason \<Rightarrow> clock_stop reason s
     | Inr s' \<Rightarrow> (case time_check (led_elapsed s') s' of Inl reason \<Rightarrow> clock_stop reason s' | Inr _ \<Rightarrow> s'))"

definition settled :: "routing_ledger \<Rightarrow> bool" where
  "settled s \<longleftrightarrow> led_active s = None \<and> led_connection s = None"

definition terminate ::
  "int option \<Rightarrow> pyval \<Rightarrow> routing_ledger \<Rightarrow> (string + pyval) \<times> routing_ledger" where
  "terminate clk reason s =
    (if \<not> str_in EXTERNAL_STOP_REASONS reason then (Inl ''invalid_routing_stop_reason'', s)
     else let s1 = check_deadline clk s in
       if led_terminal s1 then (Inr (snapshot s1), s1)
       else if reason = PStr ''completed'' \<and> \<not> settled s1 then (Inl ''routing_action_unsettled'', s1)
       else let s2 = add_event (stop_event ''owner_stop'' (led_elapsed s1) (the_str reason))
              (stop (the_str reason) s1)
         in (Inr (snapshot s2), s2))"

section \<open>Messages\<close>

definition message_fields :: "string \<Rightarrow> string list" where
  "message_fields operation = COMMON @ the (map_of EXTRA operation)"

definition read_message :: "pyval \<Rightarrow> string \<Rightarrow> routing_ledger \<Rightarrow> string + (string \<times> routing_ledger)" where
  "read_message m role s =
    bindE (require (role \<in> set ROLES) ''unknown_channel_role'') (\<lambda>_.
    bindE (require (is_dict m) ''invalid_message'') (\<lambda>_.
    bindE (require (str_in (map fst EXTRA) (item m ''operation'')) ''invalid_operation'') (\<lambda>_.
    let operation = the_str (item m ''operation'') in
    bindE (require (same_fields m (message_fields operation)) ''invalid_message_fields'') (\<lambda>_.
    bindE (require (int_in 1 MAX_EVENTS (item m ''sequence'')
        \<and> the_int (item m ''sequence'') = led_sequences s role + 1) ''message_sequence_changed'') (\<lambda>_.
    bindE (require (int_in (if operation = ''STOP'' then 0 else 1) 4 (item m ''action_sequence''))
      ''invalid_action_sequence'') (\<lambda>_.
    bindE (require (hash_val (item m ''action_digest'')) ''invalid_action_digest'') (\<lambda>_.
    Inr (operation, s\<lparr>led_sequences := (led_sequences s)(role := the_int (item m ''sequence''))\<rparr>))))))))"

definition bound_action :: "pyval \<Rightarrow> string \<Rightarrow> bool \<Rightarrow> routing_ledger \<Rightarrow> string + (nat \<times> routing_action)" where
  "bound_action m role frontend s = (case led_active s of
     None \<Rightarrow> Inl ''no_active_action''
   | Some i \<Rightarrow> let a = led_actions s ! i in
      bindE (require (item m ''action_sequence'' = PInt (act_sequence a)
          \<and> item m ''action_digest'' = PStr (act_digest a)) ''action_binding_changed'') (\<lambda>_.
      bindE (require (role = (if frontend then selector_role (act_selector a) else ''launcher''))
        ''action_role_changed'') (\<lambda>_.
      Inr (i, a))))"

definition bound_connection ::
  "pyval \<Rightarrow> string \<Rightarrow> routing_ledger \<Rightarrow> string + (nat \<times> routing_action \<times> routing_connection)" where
  "bound_connection m role s =
    bindE (bound_action m role True s) (\<lambda>(i, a). case led_connection s of
      None \<Rightarrow> Inl ''connection_lease_changed''
    | Some c \<Rightarrow> bindE (require (item m ''lease'' = PStr (conn_lease c)) ''connection_lease_changed'') (\<lambda>_.
        Inr (i, a, c)))"

definition set_action :: "nat \<Rightarrow> routing_action \<Rightarrow> routing_ledger \<Rightarrow> routing_ledger" where
  "set_action i a s = s\<lparr>led_actions := (led_actions s)[i := a]\<rparr>"

definition reserve :: "counter \<Rightarrow> int \<Rightarrow> nat \<Rightarrow> routing_ledger \<Rightarrow> string + routing_ledger" where
  "reserve key count i s = (let a = led_actions s ! i in
    bindE (require (led_counters s key + count \<le> budget_counter (led_caps s) key)
      (''aggregate_'' @ counter_name key @ ''_limit'')) (\<lambda>_.
    bindE (require (act_counters a key + count \<le> action_bounds (act_selector a) key)
      (''action_'' @ counter_name key @ ''_limit'')) (\<lambda>_.
    Inr (set_action i (a\<lparr>act_counters := (act_counters a)(key := act_counters a key + count)\<rparr>)
      (s\<lparr>led_counters := (led_counters s)(key := led_counters s key + count)\<rparr>)))))"

section \<open>Operations\<close>

type_synonym outcome = "string + (routing_ledger \<times> string option \<times> int)"

definition do_stop :: "routing_env \<Rightarrow> pyval \<Rightarrow> string \<Rightarrow> routing_ledger \<Rightarrow> outcome" where
  "do_stop env m role s =
    bindE (require (role = ''launcher'') ''stop_role_changed'') (\<lambda>_.
    bindE (require (item m ''action_sequence'' = PInt (led_arms s)) ''action_binding_changed'') (\<lambda>_.
    let expected = (if led_actions s = [] then digest env (led_selection s)
                    else act_digest (last (led_actions s))) in
    bindE (require (item m ''action_digest'' = PStr expected) ''action_binding_changed'') (\<lambda>_.
    bindE (require (str_in EXTERNAL_STOP_REASONS (item m ''reason'')) ''invalid_stop_reason'') (\<lambda>_.
    bindE (require (item m ''reason'' \<noteq> PStr ''completed'' \<or> settled s) ''action_unsettled'') (\<lambda>_.
    Inr (stop (the_str (item m ''reason'')) s, None, 0))))))"

definition armed_action :: "string \<Rightarrow> pyval \<Rightarrow> int \<Rightarrow> routing_action" where
  "armed_action selector m elapsed = \<lparr>act_selector = selector,
     act_sequence = the_int (item m ''action_sequence''), act_digest = the_str (item m ''action_digest''),
     act_runtimes = item m ''runtime_digests'', act_armed = elapsed,
     act_deadline = min SESSION_US (elapsed + timeout_seconds selector * 1000000),
     act_finished = None, act_retained = 0, act_connections_finished = 0,
     act_counters = (\<lambda>_. 0)(Output_bytes := action_bounds selector Output_bytes)\<rparr>"

definition do_arm :: "routing_env \<Rightarrow> pyval \<Rightarrow> string \<Rightarrow> int \<Rightarrow> routing_ledger \<Rightarrow> outcome" where
  "do_arm env m role elapsed s =
    bindE (require (role = ''launcher'') ''arm_role_changed'') (\<lambda>_.
    bindE (require (settled s) ''action_unsettled'') (\<lambda>_.
    bindE (require (str_in SELECTORS (item m ''selector'')) ''invalid_selector'') (\<lambda>_.
    let selector = the_str (item m ''selector'') in
    bindE (require (selector \<notin> set (map act_selector (led_actions s))) ''selector_replayed'') (\<lambda>_.
    bindE (require (item m ''action_sequence'' = PInt (led_arms s + 1)) ''action_sequence_changed'') (\<lambda>_.
    bindE (action env (led_selection s) selector) (\<lambda>act.
    bindE (require (item m ''action_digest'' = PStr (digest env act)) ''action_digest_changed'') (\<lambda>_.
    let expected = item (item (led_identity s) ''runtimes'') selector in
    bindE (require (py_eq (item m ''runtime_digests'') expected
        \<and> canonical (item m ''runtime_digests'') = canonical expected) ''runtime_identity_changed'') (\<lambda>_.
    bindE (require (led_arms s < 4) ''aggregate_actions_limit'') (\<lambda>_.
    let cap = action_bounds selector Output_bytes in
    bindE (require (led_counters s Output_bytes + cap \<le> budget_counter (led_caps s) Output_bytes)
      ''aggregate_output_bytes_limit'') (\<lambda>_.
    Inr (s\<lparr>led_arms := led_arms s + 1,
        led_counters := (led_counters s)(Output_bytes := led_counters s Output_bytes + cap),
        led_actions := led_actions s @ [armed_action selector m elapsed],
        led_active := Some (length (led_actions s))\<rparr>, None, 0)))))))))))"

definition do_finish_action :: "routing_env \<Rightarrow> pyval \<Rightarrow> string \<Rightarrow> int \<Rightarrow> routing_ledger \<Rightarrow> outcome" where
  "do_finish_action env m role elapsed s =
    bindE (bound_action m role False s) (\<lambda>(i, a).
    bindE (require (led_connection s = None \<and> act_connections_finished a = act_counters a Connections)
      ''connection_unsettled'') (\<lambda>_.
    bindE (require (int_in 0 (act_counters a Output_bytes) (item m ''output_bytes''))
      ''output_bytes_limit'') (\<lambda>_.
    let s' = (set_action i (a\<lparr>act_retained := the_int (item m ''output_bytes''),
                act_finished := Some elapsed\<rparr>) s)\<lparr>led_active := None\<rparr> in
    if item (led_selection s) ''selection_version'' = PStr ''3''
    then bindE (case_is_negative env (act_selector a) (led_selection s)) (\<lambda>negative.
      Inr (if negative then stop ''declared_negative_completed'' s' else s', None, 0))
    else Inr (s', None, 0))))"

definition lease_of :: "routing_env \<Rightarrow> routing_ledger \<Rightarrow> routing_action \<Rightarrow> int \<Rightarrow> string" where
  "lease_of env s a local = digest env (PDict [(''identity'', led_identity s), (''selector'', PStr (act_selector a)),
     (''action_sequence'', PInt (act_sequence a)), (''action_digest'', PStr (act_digest a)),
     (''local_id'', PInt local)])"

definition admission_wait :: "int \<Rightarrow> routing_ledger \<Rightarrow> int" where
  "admission_wait elapsed s = (case led_admission s of None \<Rightarrow> 0
     | Some t \<Rightarrow> if elapsed - t < 250000 then (250000 - (elapsed - t) + 999) div 1000 else 0)"

definition must_wait :: "int \<Rightarrow> routing_ledger \<Rightarrow> bool" where
  "must_wait elapsed s = (case led_admission s of None \<Rightarrow> False | Some t \<Rightarrow> elapsed - t < 250000)"

definition do_reserve_connection :: "routing_env \<Rightarrow> pyval \<Rightarrow> string \<Rightarrow> int \<Rightarrow> routing_ledger \<Rightarrow> outcome" where
  "do_reserve_connection env m role elapsed s =
    bindE (bound_action m role True s) (\<lambda>(i, a).
    bindE (require (led_connection s = None) ''concurrency_limit'') (\<lambda>_.
    bindE (require (int_in 1 3 (item m ''local_id'')
        \<and> the_int (item m ''local_id'') = act_counters a Connections + 1) ''connection_id_changed'') (\<lambda>_.
    if must_wait elapsed s then Inr (s, None, admission_wait elapsed s)
    else bindE (reserve Connections 1 i s) (\<lambda>s'.
      let local = the_int (item m ''local_id''); lease = lease_of env s a local in
      Inr (s'\<lparr>led_connection := Some \<lparr>conn_lease = lease, conn_local = local, conn_admitted = elapsed,
                 conn_requested = False\<rparr>,
               led_admission := Some elapsed\<rparr>, Some lease, 0)))))"

definition do_reserve_request :: "pyval \<Rightarrow> string \<Rightarrow> routing_ledger \<Rightarrow> outcome" where
  "do_reserve_request m role s =
    bindE (bound_connection m role s) (\<lambda>(i, a, c).
    let kind = (if role = ''http_frontend'' then ''http'' else ''kex'') in
    bindE (require (item m ''kind'' = PStr kind) ''request_kind_changed'') (\<lambda>_.
    bindE (require (\<not> conn_requested c) ''request_replayed'') (\<lambda>_.
    bindE (reserve (if kind = ''http'' then Http_requests else Kex_exchanges) 1 i s) (\<lambda>s'.
    Inr (s'\<lparr>led_connection := Some (c\<lparr>conn_requested := True\<rparr>)\<rparr>, Some (conn_lease c), 0)))))"

definition do_reserve_bytes :: "pyval \<Rightarrow> string \<Rightarrow> routing_ledger \<Rightarrow> outcome" where
  "do_reserve_bytes m role s =
    bindE (bound_connection m role s) (\<lambda>(i, a, c).
    bindE (require (str_in [''request'', ''response''] (item m ''direction'')) ''invalid_byte_direction'') (\<lambda>_.
    bindE (require (int_in 1 8192 (item m ''bytes'')) ''invalid_byte_count'') (\<lambda>_.
    bindE (require (\<not> (item m ''direction'' = PStr ''request'' \<or> role = ''http_frontend'')
        \<or> conn_requested c) ''request_not_reserved'') (\<lambda>_.
    bindE (reserve (if item m ''direction'' = PStr ''request'' then Request_bytes else Response_bytes)
      (the_int (item m ''bytes'')) i s) (\<lambda>s'.
    Inr (s', Some (conn_lease c), 0))))))"

definition do_finish_connection :: "pyval \<Rightarrow> string \<Rightarrow> routing_ledger \<Rightarrow> outcome" where
  "do_finish_connection m role s =
    bindE (bound_connection m role s) (\<lambda>(i, a, c).
    Inr ((set_action i (a\<lparr>act_connections_finished := act_connections_finished a + 1\<rparr>) s)
      \<lparr>led_connection := None\<rparr>, Some (conn_lease c), 0))"

definition execute :: "routing_env \<Rightarrow> string \<Rightarrow> pyval \<Rightarrow> string \<Rightarrow> int \<Rightarrow> routing_ledger \<Rightarrow> outcome" where
  "execute env operation m role elapsed s =
    (if operation = ''STOP'' then do_stop env m role s
     else if operation = ''ARM'' then do_arm env m role elapsed s
     else if operation = ''FINISH_ACTION'' then do_finish_action env m role elapsed s
     else if operation = ''RESERVE_CONNECTION'' then do_reserve_connection env m role elapsed s
     else if operation = ''RESERVE_REQUEST'' then do_reserve_request m role s
     else if operation = ''RESERVE_BYTES'' then do_reserve_bytes m role s
     else if operation = ''FINISH_CONNECTION'' then do_finish_connection m role s
     else Inl ''invalid_operation'')"

section \<open>The message gate\<close>

text \<open>
  The body of the \<open>try\<close> in \<open>apply\<close>: either a result, or the refusal and the state at the
  point of the refusal (the clock and the channel sequence may already have moved).
\<close>

definition after_message ::
  "routing_env \<Rightarrow> bool \<Rightarrow> string \<Rightarrow> pyval \<Rightarrow> string \<Rightarrow> routing_ledger
    \<Rightarrow> (string \<times> routing_ledger) + (routing_ledger \<times> string option \<times> int)" where
  "after_message env cleanup operation m role s =
    (let run = (\<lambda>t. case execute env operation m role (led_elapsed s) t of
        Inl reason \<Rightarrow> Inl (reason, t) | Inr r \<Rightarrow> Inr r)
     in if led_terminal s then run s
        else case time_check (led_elapsed s) s of
          Inr _ \<Rightarrow> run s
        | Inl reason \<Rightarrow> if cleanup then run (clock_stop reason s) else Inl (reason, s))"

definition attempt ::
  "routing_env \<Rightarrow> bool \<Rightarrow> int option \<Rightarrow> pyval \<Rightarrow> string \<Rightarrow> routing_ledger
    \<Rightarrow> (string \<times> routing_ledger) + (routing_ledger \<times> string option \<times> int)" where
  "attempt env cleanup clk m role s = (case now clk s of
     Inl reason \<Rightarrow> Inl (reason, s)
   | Inr s1 \<Rightarrow> (case read_message m role s1 of
       Inl reason \<Rightarrow> Inl (reason, s1)
     | Inr (operation, s2) \<Rightarrow> after_message env cleanup operation m role s2))"

definition reply_json :: "pyval \<Rightarrow> string \<Rightarrow> string \<Rightarrow> string option \<Rightarrow> string option \<Rightarrow> int \<Rightarrow> pyval" where
  "reply_json m role status reason lease retry = PDict
    [(''role'', PStr role), (''sequence'', item m ''sequence''),
     (''action_sequence'', item m ''action_sequence''), (''action_digest'', item m ''action_digest''),
     (''status'', PStr status), (''reason'', opt_json PStr reason), (''lease'', opt_json PStr lease),
     (''retry_after_ms'', PInt retry)]"

definition message_event :: "int \<Rightarrow> string \<Rightarrow> pyval \<Rightarrow> pyval \<Rightarrow> pyval" where
  "message_event elapsed role m reply = PDict [(''kind'', PStr ''message''), (''elapsed_us'', PInt elapsed),
     (''role'', PStr role), (''message'', m), (''reply'', reply)]"

definition CLOCK_FAULTS :: "string list" where
  "CLOCK_FAULTS = [''owner_clock_invalid'', ''owner_clock_reversed'']"

definition answer ::
  "pyval \<Rightarrow> string \<Rightarrow> (string \<times> routing_ledger) + (routing_ledger \<times> string option \<times> int)
    \<Rightarrow> pyval \<times> routing_ledger" where
  "answer m role r = (case r of
     Inl (reason, s) \<Rightarrow>
       let s' = stop reason s; reply = reply_json m role ''denied'' (Some reason) None 0 in
       (reply, add_event (if reason \<in> set CLOCK_FAULTS then stop_event ''clock_stop'' (led_elapsed s') reason
                          else message_event (led_elapsed s') role m reply) s')
   | Inr (s, lease, retry) \<Rightarrow>
       let reply = (if retry \<noteq> 0 then reply_json m role ''wait'' (Some ''admission_rate'') lease retry
                    else reply_json m role ''ok'' None lease retry) in
       (reply, add_event (message_event (led_elapsed s) role m reply) s))"

definition with_snapshot :: "routing_env \<Rightarrow> pyval \<Rightarrow> routing_ledger \<Rightarrow> pyval" where
  "with_snapshot env reply s = PDict (entries reply @ [(''snapshot_sha256'', PStr (digest env (snapshot s)))])"

definition valid_packet :: "pyval \<Rightarrow> bool" where
  "valid_packet m \<longleftrightarrow> int (length (canonical m)) \<le> MAX_MESSAGE_BYTES \<and> is_dict m"

definition is_cleanup :: "pyval \<Rightarrow> bool" where
  "is_cleanup m \<longleftrightarrow> str_in CLEANUP_OPERATIONS (item m ''operation'')"

definition event_count :: "routing_ledger \<Rightarrow> int" where
  "event_count s = int (length (led_events s))"

definition at_capacity :: "routing_ledger \<Rightarrow> bool" where
  "at_capacity s \<longleftrightarrow> event_count s \<ge> MAX_EVENTS - CLEANUP_EVENT_RESERVE
     \<or> int (length (canonical (snapshot s))) > MAX_SNAPSHOT_BYTES - 8192"

definition capacity_stop :: "routing_ledger \<Rightarrow> routing_ledger" where
  "capacity_stop s = add_event (stop_event ''capacity_stop'' (led_elapsed s) ''ledger_limit'') (stop ''ledger_limit'' s)"

definition apply_message ::
  "routing_env \<Rightarrow> int option \<Rightarrow> pyval \<Rightarrow> pyval \<Rightarrow> routing_ledger \<Rightarrow> (string + pyval) \<times> routing_ledger" where
  "apply_message env clk m role s =
    (if \<not> valid_packet m \<or> \<not> str_in ROLES role then
       (Inl ''invalid_routing_ledger_packet'', snd (terminate clk (PStr ''owner_protocol_error'') s))
     else if led_terminal s \<and> \<not> is_cleanup m then (Inl ''routing_ledger_terminal'', s)
     else if led_terminal s \<and> event_count s \<ge> MAX_EVENTS then (Inl ''routing_ledger_cleanup_capacity'', s)
     else if \<not> led_terminal s \<and> at_capacity s then (Inl ''routing_ledger_capacity'', capacity_stop s)
     else let (reply, s') = answer m (the_str role) (attempt env (is_cleanup m) clk m (the_str role) s)
       in (Inr (with_snapshot env reply s'), s'))"

section \<open>The client's view of a reply\<close>

definition REPLY_FIELDS :: "string list" where
  "REPLY_FIELDS = [''role'', ''sequence'', ''action_sequence'', ''action_digest'', ''status'', ''reason'',
     ''lease'', ''retry_after_ms'', ''snapshot_sha256'']"

definition validate_reply :: "pyval \<Rightarrow> pyval \<Rightarrow> string \<Rightarrow> string + pyval" where
  "validate_reply v m role =
    bindE (require (is_dict v \<and> same_fields v REPLY_FIELDS \<and> role \<in> set ROLES
        \<and> item v ''role'' = PStr role
        \<and> list_all (\<lambda>k. same_type (item v k) (item m k) \<and> py_eq (item v k) (item m k)) [''sequence'', ''action_sequence'', ''action_digest'']
        \<and> str_in [''ok'', ''wait'', ''denied''] (item v ''status'')
        \<and> (item v ''reason'' = PNone \<or> is_str (item v ''reason'')
             \<and> 1 \<le> length (the_str (item v ''reason'')) \<and> length (the_str (item v ''reason'')) \<le> 80)
        \<and> int_in 0 250 (item v ''retry_after_ms'') \<and> hash_val (item v ''snapshot_sha256'')
        \<and> (item v ''lease'' = PNone \<or> hash_val (item v ''lease''))) ''invalid_routing_ledger_reply'') (\<lambda>_.
    bindE (if item v ''status'' = PStr ''wait'' then
        require (item m ''operation'' = PStr ''RESERVE_CONNECTION'' \<and> item v ''reason'' = PStr ''admission_rate''
          \<and> item v ''lease'' = PNone \<and> item v ''retry_after_ms'' \<noteq> PInt 0) ''invalid_routing_rate_reply''
      else require (item v ''retry_after_ms'' = PInt 0
          \<and> (item v ''reason'' = PNone) = (item v ''status'' = PStr ''ok'')) ''invalid_routing_ledger_reply'') (\<lambda>_.
    bindE (if item v ''status'' = PStr ''ok'' then
        bindE (require (item m ''operation'' = PStr ''RESERVE_CONNECTION'' \<longrightarrow> item v ''lease'' \<noteq> PNone)
          ''missing_routing_connection_lease'') (\<lambda>_.
        bindE (require (str_in [''RESERVE_REQUEST'', ''RESERVE_BYTES'', ''FINISH_CONNECTION''] (item m ''operation'')
            \<longrightarrow> item v ''lease'' = item m ''lease'') ''routing_connection_lease_changed'') (\<lambda>_.
        require (str_in [''ARM'', ''FINISH_ACTION'', ''STOP''] (item m ''operation'') \<longrightarrow> item v ''lease'' = PNone)
          ''unexpected_routing_connection_lease''))
      else require (item v ''lease'' = PNone) ''invalid_routing_denial_lease'') (\<lambda>_.
    Inr v)))"

end
