(* ===== verification/RoutingSafety.thy ===== *)
theory RoutingSafety
  imports RoutingLedger
begin

text \<open>
  Invariants of the routing ledger: the accounts of its actions and counters, the single
  active action and connection, the bounded event log. Every operation is shown to preserve
  them through one inversion lemma per operation; \<open>ledger_step\<close> collects the calls the owner
  can make.
\<close>

section \<open>Inversion of the operations\<close>

lemma reserve_Inr:
  "reserve key n i s = Inr t \<longleftrightarrow>
    led_counters s key + n \<le> budget_counter (led_caps s) key \<and>
    act_counters (led_actions s ! i) key + n \<le> action_bounds (act_selector (led_actions s ! i)) key \<and>
    t = set_action i ((led_actions s ! i)\<lparr>act_counters :=
          (act_counters (led_actions s ! i))(key := act_counters (led_actions s ! i) key + n)\<rparr>)
        (s\<lparr>led_counters := (led_counters s)(key := led_counters s key + n)\<rparr>)"
  by (auto simp: reserve_def Let_def res_simps)

lemma bound_action_Inr:
  "bound_action m role fe s = Inr (i, a) \<longleftrightarrow>
    led_active s = Some i \<and> a = led_actions s ! i \<and> item m ''action_sequence'' = PInt (act_sequence a)
    \<and> item m ''action_digest'' = PStr (act_digest a)
    \<and> role = (if fe then selector_role (act_selector a) else ''launcher'')"
  by (cases "led_active s") (auto simp: bound_action_def Let_def res_simps)

lemma bound_connection_Inr:
  "bound_connection m role s = Inr (i, a, c) \<longleftrightarrow>
    bound_action m role True s = Inr (i, a) \<and> led_connection s = Some c \<and> item m ''lease'' = PStr (conn_lease c)"
  by (cases "led_connection s") (auto simp: bound_connection_def res_simps)

lemmas op_simps = res_simps reserve_Inr bound_action_Inr bound_connection_Inr Let_def

section \<open>Accounts\<close>

definition within_bounds :: "routing_action \<Rightarrow> bool" where
  "within_bounds a \<longleftrightarrow> act_selector a \<in> set SELECTORS
     \<and> (\<forall>c. 0 \<le> act_counters a c \<and> act_counters a c \<le> action_bounds (act_selector a) c)"

definition spent :: "routing_ledger \<Rightarrow> counter \<Rightarrow> int" where
  "spent s c = sum_list (map (\<lambda>a. act_counters a c) (led_actions s))"

definition open_on :: "routing_ledger \<Rightarrow> nat \<Rightarrow> int" where
  "open_on s i = (if led_active s = Some i \<and> led_connection s \<noteq> None then 1 else 0)"

definition accounts_ok :: "routing_ledger \<Rightarrow> bool" where
  "accounts_ok s \<longleftrightarrow> (\<forall>a \<in> set (led_actions s). within_bounds a)
     \<and> (\<forall>c. led_counters s c = spent s c \<and> spent s c \<le> budget_counter (led_caps s) c)"

definition row_ok :: "routing_ledger \<Rightarrow> nat \<Rightarrow> routing_action \<Rightarrow> bool" where
  "row_ok s i a \<longleftrightarrow> act_sequence a = int i + 1 \<and> (act_finished a = None \<longleftrightarrow> led_active s = Some i)
     \<and> act_connections_finished a + open_on s i = act_counters a Connections"

definition actions_ok :: "routing_ledger \<Rightarrow> bool" where
  "actions_ok s \<longleftrightarrow> led_arms s = int (length (led_actions s)) \<and> led_arms s \<le> 4
     \<and> distinct (map act_selector (led_actions s))
     \<and> (\<forall>i < length (led_actions s). row_ok s i (led_actions s ! i))
     \<and> (\<forall>i. led_active s = Some i \<longrightarrow> Suc i = length (led_actions s))
     \<and> (led_connection s \<noteq> None \<longrightarrow> led_active s \<noteq> None)"

definition clock_ok :: "routing_ledger \<Rightarrow> bool" where
  "clock_ok s \<longleftrightarrow> 0 \<le> led_elapsed s \<and> led_elapsed s \<le> SESSION_US
     \<and> (\<forall>t. led_admission s = Some t \<longrightarrow> 0 \<le> t \<and> t \<le> led_elapsed s)
     \<and> (led_terminal s \<longleftrightarrow> led_reason s \<noteq> None)"

definition core_ok :: "routing_ledger \<Rightarrow> bool" where
  "core_ok s \<longleftrightarrow> accounts_ok s \<and> actions_ok s \<and> clock_ok s"

lemma set_action_simps [simp]:
  "led_actions (set_action i a s) = (led_actions s)[i := a]"
  "led_active (set_action i a s) = led_active s" "led_connection (set_action i a s) = led_connection s"
  "led_counters (set_action i a s) = led_counters s" "led_caps (set_action i a s) = led_caps s"
  "led_arms (set_action i a s) = led_arms s" "led_elapsed (set_action i a s) = led_elapsed s"
  "led_admission (set_action i a s) = led_admission s" "led_terminal (set_action i a s) = led_terminal s"
  "led_reason (set_action i a s) = led_reason s" "led_events (set_action i a s) = led_events s"
  "led_sequences (set_action i a s) = led_sequences s" "led_selection (set_action i a s) = led_selection s"
  "led_identity (set_action i a s) = led_identity s"
  by (simp_all add: set_action_def)

lemma spent_set_action:
  "i < length (led_actions s) \<Longrightarrow>
    spent (set_action i a s) c = spent s c - act_counters (led_actions s ! i) c + act_counters a c"
  by (simp add: spent_def sum_list_map_update_nth)

lemma stop_simps [simp]:
  "led_actions (stop r s) = led_actions s" "led_active (stop r s) = led_active s"
  "led_connection (stop r s) = led_connection s" "led_counters (stop r s) = led_counters s"
  "led_caps (stop r s) = led_caps s" "led_arms (stop r s) = led_arms s"
  "led_elapsed (stop r s) = led_elapsed s" "led_admission (stop r s) = led_admission s"
  "led_terminal (stop r s)" "led_events (stop r s) = led_events s"
  "led_sequences (stop r s) = led_sequences s" "led_selection (stop r s) = led_selection s"
  "led_identity (stop r s) = led_identity s"
  by (simp_all add: stop_def)

lemma add_event_simps [simp]:
  "led_actions (add_event e s) = led_actions s" "led_active (add_event e s) = led_active s"
  "led_connection (add_event e s) = led_connection s" "led_counters (add_event e s) = led_counters s"
  "led_caps (add_event e s) = led_caps s" "led_arms (add_event e s) = led_arms s"
  "led_elapsed (add_event e s) = led_elapsed s" "led_admission (add_event e s) = led_admission s"
  "led_terminal (add_event e s) = led_terminal s" "led_reason (add_event e s) = led_reason s"
  "led_events (add_event e s) = led_events s @ [e]"
  "led_sequences (add_event e s) = led_sequences s" "led_selection (add_event e s) = led_selection s"
  "led_identity (add_event e s) = led_identity s"
  by (simp_all add: add_event_def)

text \<open>The accounts depend on the actions, the counters and what is active only.\<close>

lemma core_ok_frame:
  assumes "core_ok s" and "led_actions t = led_actions s" "led_active t = led_active s"
    "led_connection t = led_connection s" "led_counters t = led_counters s" "led_caps t = led_caps s"
    "led_arms t = led_arms s" and "clock_ok t"
  shows "core_ok t"
  using assms
  by (simp add: core_ok_def accounts_ok_def actions_ok_def spent_def row_ok_def open_on_def)

lemma core_ok_stop [intro]: "core_ok s \<Longrightarrow> core_ok (stop r s)"
  by (rule core_ok_frame [of s]) (simp_all add: core_ok_def clock_ok_def stop_def)

lemma core_ok_add_event [intro]: "core_ok s \<Longrightarrow> core_ok (add_event e s)"
  by (rule core_ok_frame [of s]) (simp_all add: core_ok_def clock_ok_def)

lemma active_last:
  "actions_ok s \<Longrightarrow> led_active s = Some i \<Longrightarrow> i < length (led_actions s) \<and> Suc i = length (led_actions s)"
  by (auto simp: actions_ok_def)

lemma action_bounds_nonneg: "0 \<le> action_bounds sel c"
  by (cases c) (simp_all add: action_bounds_def bounds_row_def)

section \<open>Every operation preserves the accounts\<close>

lemma reserve_accounts:
  assumes "accounts_ok s" and "i < length (led_actions s)" and "0 \<le> n" and "reserve key n i s = Inr t"
  shows "accounts_ok t"
proof -
  let ?a = "led_actions s ! i"
  let ?b = "?a\<lparr>act_counters := (act_counters ?a)(key := act_counters ?a key + n)\<rparr>"
  let ?s = "s\<lparr>led_counters := (led_counters s)(key := led_counters s key + n)\<rparr>"
  from assms(4) have t: "t = set_action i ?b ?s"
    and cap: "led_counters s key + n \<le> budget_counter (led_caps s) key"
    and bound: "act_counters ?a key + n \<le> action_bounds (act_selector ?a) key"
    by (auto simp: reserve_Inr)
  have inb: "within_bounds ?a" using assms(1,2) by (simp add: accounts_ok_def)
  then have "within_bounds ?b" using bound \<open>0 \<le> n\<close> by (simp add: within_bounds_def)
  then have "\<forall>a \<in> set (led_actions t). within_bounds a"
    using assms(1) by (auto simp: t accounts_ok_def dest!: set_update_subset_insert [THEN subsetD])
  moreover have "spent t c = spent s c + (if c = key then n else 0)" for c
    using assms(2) by (simp add: t spent_set_action) (simp add: spent_def)
  ultimately show ?thesis using assms(1) cap by (simp add: accounts_ok_def t)
qed

lemma reserve_frame:
  assumes "reserve key n i s = Inr t"
  shows "led_elapsed t = led_elapsed s" "led_sequences t = led_sequences s" "led_arms t = led_arms s"
    "led_active t = led_active s" "led_connection t = led_connection s" "led_admission t = led_admission s"
    "led_terminal t = led_terminal s" "led_reason t = led_reason s" "led_events t = led_events s"
    "led_caps t = led_caps s" "led_selection t = led_selection s" "led_identity t = led_identity s"
    "length (led_actions t) = length (led_actions s)"
  using assms unfolding reserve_Inr by (elim conjE, simp)+


text \<open>Only the accounts of the active action move, so the shape of the action list stays.\<close>

lemma actions_ok_update:
  assumes ok: "actions_ok s" and i: "led_active s = Some i" and conn: "led_connection t \<noteq> None \<longrightarrow> led_active t \<noteq> None"
    and frame: "led_actions t = (led_actions s)[i := b]" "led_arms t = led_arms s"
      "led_active t = led_active s \<or> led_active t = None"
    and b: "act_selector b = act_selector (led_actions s ! i)" "row_ok t i b"
  shows "actions_ok t"
proof -
  have len: "i < length (led_actions s)" using active_last [OF ok i] by auto
  have sel: "map act_selector (led_actions t) = map act_selector (led_actions s)"
    using b(1) len by (simp add: frame map_update list_update_same_conv)
  have "row_ok t j (led_actions t ! j)" if j: "j < length (led_actions t)" for j
  proof (cases "j = i")
    case False
    then have "row_ok t j a = row_ok s j a" for a
      using i frame(3) by (auto simp: row_ok_def open_on_def)
    then show ?thesis using ok False j by (simp add: frame actions_ok_def)
  qed (use b(2) len in \<open>simp add: frame\<close>)
  then show ?thesis
    using ok conn sel frame i active_last [OF ok i] by (auto simp: actions_ok_def)
qed

lemma active_row:
  "actions_ok s \<Longrightarrow> led_active s = Some i \<Longrightarrow> row_ok s i (led_actions s ! i)"
  by (frule (1) active_last) (simp add: actions_ok_def)

lemma reserve_step_ok:
  assumes core: "core_ok s" and active: "led_active s = Some i" and n: "0 \<le> n"
    and run: "reserve key n i s = Inr t"
    and key: "key = Connections \<longrightarrow> n = 1 \<and> led_connection s = None"
    and conn: "key = Connections \<longleftrightarrow> led_connection s = None"
  shows "core_ok (t\<lparr>led_connection := Some c\<rparr>)"
proof -
  let ?t = "t\<lparr>led_connection := Some c\<rparr>"
  have ok: "actions_ok s" using core by (simp add: core_ok_def)
  have len: "i < length (led_actions s)" using active_last [OF ok active] by simp
  have "accounts_ok t" using reserve_accounts [OF _ len n run] core by (simp add: core_ok_def)
  then have acc: "accounts_ok ?t" by (simp add: accounts_ok_def spent_def)
  let ?b = "(led_actions s ! i)\<lparr>act_counters := (act_counters (led_actions s ! i))
      (key := act_counters (led_actions s ! i) key + n)\<rparr>"
  have "actions_ok ?t"
    by (rule actions_ok_update [OF ok active, where b = ?b])
       (use run active key conn active_row [OF ok active] in
         \<open>auto simp: reserve_Inr row_ok_def open_on_def\<close>)
  moreover have "clock_ok ?t" using core reserve_frame [OF run] by (simp add: core_ok_def clock_ok_def)
  ultimately show ?thesis using acc by (simp add: core_ok_def)
qed

lemma do_reserve_connection_ok:
  assumes core: "core_ok s" and run: "do_reserve_connection env m role elapsed s = Inr (t, l, w)"
    and el: "elapsed = led_elapsed s"
  shows "core_ok t"
proof -
  from run obtain i a where active: "led_active s = Some i" and free: "led_connection s = None"
    and cases: "must_wait elapsed s \<and> t = s \<or> (\<exists>u c. reserve Connections 1 i s = Inr u
      \<and> t = u\<lparr>led_connection := Some c, led_admission := Some elapsed\<rparr>)"
    by (auto simp: do_reserve_connection_def res_simps bound_action_Inr Let_def split: if_splits)
  from cases show ?thesis
  proof (elim disjE exE conjE)
    assume "t = s" then show ?thesis using core by simp
  next
    fix u c assume u: "reserve Connections 1 i s = Inr u"
      and t: "t = u\<lparr>led_connection := Some c, led_admission := Some elapsed\<rparr>"
    have "core_ok (u\<lparr>led_connection := Some c\<rparr>)"
      by (rule reserve_step_ok [OF core active _ u]) (use free in auto)
    then show ?thesis
      by (rule core_ok_frame) (use reserve_frame [OF u] core in \<open>simp_all add: t el core_ok_def clock_ok_def\<close>)
  qed
qed

lemma do_reserve_request_ok:
  assumes core: "core_ok s" and run: "do_reserve_request m role s = Inr (t, l, w)"
  shows "core_ok t"
proof -
  from run obtain i c u key where active: "led_active s = Some i" and c: "led_connection s = Some c"
    and u: "reserve key 1 i s = Inr u" and t: "t = u\<lparr>led_connection := Some (c\<lparr>conn_requested := True\<rparr>)\<rparr>"
    and key: "key \<noteq> Connections"
    by (auto simp: do_reserve_request_def res_simps bound_connection_Inr bound_action_Inr Let_def
        split: if_splits)
  show ?thesis unfolding t by (rule reserve_step_ok [OF core active _ u]) (use c key in auto)
qed

lemma do_reserve_bytes_ok:
  assumes core: "core_ok s" and run: "do_reserve_bytes m role s = Inr (t, l, w)"
  shows "core_ok t"
proof -
  from run obtain i c u key n where active: "led_active s = Some i" and c: "led_connection s = Some c"
    and u: "reserve key n i s = Inr t" and n: "0 \<le> n" and key: "key \<noteq> Connections"
    by (auto simp: do_reserve_bytes_def res_simps bound_connection_Inr bound_action_Inr Let_def
        split: if_splits elim!: int_inE)
  have "core_ok (t\<lparr>led_connection := Some c\<rparr>)"
    by (rule reserve_step_ok [OF core active n u]) (use c key in auto)
  moreover have "t\<lparr>led_connection := Some c\<rparr> = t" using reserve_frame(5) [OF u] c by simp
  ultimately show ?thesis by simp
qed

lemma do_finish_connection_ok:
  assumes core: "core_ok s" and run: "do_finish_connection m role s = Inr (t, l, w)"
  shows "core_ok t"
proof -
  from run obtain i c where active: "led_active s = Some i" and c: "led_connection s = Some c"
    and t: "t = (set_action i ((led_actions s ! i)\<lparr>act_connections_finished :=
       act_connections_finished (led_actions s ! i) + 1\<rparr>) s)\<lparr>led_connection := None\<rparr>"
    by (auto simp: do_finish_connection_def res_simps bound_connection_Inr bound_action_Inr)
  have ok: "actions_ok s" using core by (simp add: core_ok_def)
  have len: "i < length (led_actions s)" using active_last [OF ok active] by simp
  have "actions_ok t"
    unfolding t using active_row [OF ok active] active c
    by (intro actions_ok_update [OF ok active, where b = "(led_actions s ! i)\<lparr>act_connections_finished :=
       act_connections_finished (led_actions s ! i) + 1\<rparr>"]) (auto simp: row_ok_def open_on_def)
  moreover have "accounts_ok t"
    using core len spent_set_action [OF len]
    by (auto simp: t core_ok_def accounts_ok_def within_bounds_def set_action_def spent_def
        sum_list_map_update_nth dest!: set_update_subset_insert [THEN subsetD])
  ultimately show ?thesis using core by (simp add: core_ok_def t clock_ok_def)
qed

lemma do_finish_action_Inr:
  assumes "do_finish_action env m role elapsed s = Inr (t, l, w)"
  obtains i r where "led_active s = Some i" "led_connection s = None"
    "r = (set_action i ((led_actions s ! i)\<lparr>act_retained := the_int (item m ''output_bytes''),
       act_finished := Some elapsed\<rparr>) s)\<lparr>led_active := None\<rparr>"
    "t \<in> {r, stop ''declared_negative_completed'' r}" "l = None" "w = 0"
  using assms
  by (auto simp: do_finish_action_def res_simps bound_action_Inr Let_def split: if_splits)

lemma do_finish_action_ok:
  assumes core: "core_ok s" and run: "do_finish_action env m role elapsed s = Inr (t, l, w)"
  shows "core_ok t"
proof -
  from run obtain i r where active: "led_active s = Some i" and free: "led_connection s = None"
    and t: "t \<in> {r, stop ''declared_negative_completed'' r}"
    and r: "r = (set_action i ((led_actions s ! i)\<lparr>act_retained := the_int (item m ''output_bytes''),
       act_finished := Some elapsed\<rparr>) s)\<lparr>led_active := None\<rparr>"
    by (rule do_finish_action_Inr)
  have ok: "actions_ok s" using core by (simp add: core_ok_def)
  have len: "i < length (led_actions s)" using active_last [OF ok active] by simp
  have "actions_ok r"
    unfolding r using active_row [OF ok active] active free
    by (intro actions_ok_update [OF ok active, where b = "(led_actions s ! i)\<lparr>act_retained :=
       the_int (item m ''output_bytes''), act_finished := Some elapsed\<rparr>"])
      (auto simp: row_ok_def open_on_def)
  moreover have "accounts_ok r"
    using core len
    by (auto simp: r core_ok_def accounts_ok_def within_bounds_def set_action_def spent_def
        sum_list_map_update_nth dest!: set_update_subset_insert [THEN subsetD])
  ultimately have "core_ok r" using core by (simp add: core_ok_def r clock_ok_def)
  then show ?thesis using t by auto
qed

lemma do_stop_ok:
  "core_ok s \<Longrightarrow> do_stop env m role s = Inr (t, l, w) \<Longrightarrow> core_ok t"
  by (auto simp: do_stop_def res_simps Let_def)

lemma do_arm_Inr:
  assumes "do_arm env m role elapsed s = Inr (t, l, w)"
  obtains selector where "item m ''selector'' = PStr selector" "led_active s = None" "led_connection s = None"
    "selector \<in> set SELECTORS" "selector \<notin> set (map act_selector (led_actions s))" "led_arms s < 4"
    "item m ''action_sequence'' = PInt (led_arms s + 1)"
    "led_counters s Output_bytes + action_bounds selector Output_bytes
      \<le> budget_counter (led_caps s) Output_bytes"
    "t = s\<lparr>led_arms := led_arms s + 1,
        led_counters := (led_counters s)(Output_bytes := led_counters s Output_bytes + action_bounds selector Output_bytes),
        led_actions := led_actions s @ [armed_action selector m elapsed],
        led_active := Some (length (led_actions s))\<rparr>"
    "l = None" "w = 0"
proof -
  from assms obtain selector where sel: "item m ''selector'' = PStr selector" "selector \<in> set SELECTORS"
    by (auto simp: do_arm_def Let_def res_simps elim!: str_inE)
  from assms sel obtain act where "action env (led_selection s) selector = Inr act"
    and "led_active s = None \<and> led_connection s = None \<and> selector \<notin> set (map act_selector (led_actions s))
      \<and> item m ''action_sequence'' = PInt (led_arms s + 1) \<and> led_arms s < 4
      \<and> led_counters s Output_bytes + action_bounds selector Output_bytes \<le> budget_counter (led_caps s) Output_bytes
      \<and> t = s\<lparr>led_arms := led_arms s + 1,
        led_counters := (led_counters s)(Output_bytes := led_counters s Output_bytes + action_bounds selector Output_bytes),
        led_actions := led_actions s @ [armed_action selector m elapsed],
        led_active := Some (length (led_actions s))\<rparr> \<and> l = None \<and> w = 0"
    unfolding do_arm_def settled_def Let_def res_simps by auto
  then show thesis by (intro that [OF sel(1) _ _ sel(2)]) simp_all
qed

lemma do_arm_ok:
  assumes core: "core_ok s" and run: "do_arm env m role elapsed s = Inr (t, l, w)"
  shows "core_ok t"
  using run
proof (rule do_arm_Inr)
  fix selector
  let ?act = "armed_action selector m elapsed"
  assume a: "led_active s = None" "led_connection s = None" "selector \<in> set SELECTORS"
    "selector \<notin> set (map act_selector (led_actions s))" "led_arms s < 4"
    "item m ''action_sequence'' = PInt (led_arms s + 1)"
    and cap: "led_counters s Output_bytes + action_bounds selector Output_bytes
      \<le> budget_counter (led_caps s) Output_bytes"
    and t: "t = s\<lparr>led_arms := led_arms s + 1,
        led_counters := (led_counters s)(Output_bytes := led_counters s Output_bytes + action_bounds selector Output_bytes),
        led_actions := led_actions s @ [?act], led_active := Some (length (led_actions s))\<rparr>"
  have "within_bounds ?act" using a(3) by (simp add: within_bounds_def armed_action_def action_bounds_nonneg)
  then have "accounts_ok t" using core cap
    by (auto simp: t core_ok_def accounts_ok_def spent_def armed_action_def)
  moreover have ok: "actions_ok s" using core by (simp add: core_ok_def)
  have "row_ok t i (led_actions t ! i)" if "i < length (led_actions t)" for i
  proof (cases "i < length (led_actions s)")
    case True
    then have "row_ok s i (led_actions s ! i)" using ok by (simp add: actions_ok_def)
    then show ?thesis using True a(1,2) by (simp add: t nth_append row_ok_def open_on_def)
  next
    case False
    then have "i = length (led_actions s)" using that by (simp add: t)
    then show ?thesis using a ok
      by (simp add: t row_ok_def armed_action_def open_on_def actions_ok_def)
  qed
  then have "actions_ok t" using ok a
    by (simp add: actions_ok_def armed_action_def t)
  ultimately show ?thesis using core by (simp add: core_ok_def t clock_ok_def)
qed

lemma execute_ok:
  "core_ok s \<Longrightarrow> execute env operation m role (led_elapsed s) s = Inr (t, l, w) \<Longrightarrow> core_ok t"
  unfolding execute_def
  by (auto split: if_splits intro: do_stop_ok do_arm_ok do_finish_action_ok do_reserve_connection_ok
      do_reserve_request_ok do_reserve_bytes_ok do_finish_connection_ok)


section \<open>The message gate preserves the accounts\<close>

lemma now_Inr:
  "now clk s = Inr t \<longleftrightarrow> (\<exists>us. clk = Some us \<and> led_elapsed s \<le> min SESSION_US us
     \<and> t = s\<lparr>led_elapsed := min SESSION_US us\<rparr>)"
  by (cases clk) (auto simp: now_def Let_def res_simps)

lemma now_core: "core_ok s \<Longrightarrow> now clk s = Inr t \<Longrightarrow> core_ok t"
  by (rule core_ok_frame [of s]) (auto simp: now_Inr core_ok_def clock_ok_def)

lemma read_message_Inr:
  "read_message m role s = Inr (operation, t) \<Longrightarrow>
    t = s\<lparr>led_sequences := (led_sequences s)(role := led_sequences s role + 1)\<rparr>
    \<and> item m ''operation'' = PStr operation \<and> role \<in> set ROLES
    \<and> item m ''sequence'' = PInt (led_sequences s role + 1) \<and> led_sequences s role < MAX_EVENTS
    \<and> same_fields m (message_fields operation) \<and> hash_val (item m ''action_digest'')"
  by (auto simp: read_message_def Let_def res_simps elim!: str_inE int_inE)

lemma read_message_core: "core_ok s \<Longrightarrow> read_message m role s = Inr (operation, t) \<Longrightarrow> core_ok t"
  by (rule core_ok_frame [of s]) (auto simp: core_ok_def clock_ok_def dest!: read_message_Inr)

lemma core_ok_clock_stop [intro]: "core_ok s \<Longrightarrow> core_ok (clock_stop r s)"
  by (auto simp: clock_stop_def)

lemma check_deadline_core [intro]: "core_ok s \<Longrightarrow> core_ok (check_deadline clk s)"
  by (auto simp: check_deadline_def split: sum.splits intro: now_core)

lemma terminate_core: "core_ok s \<Longrightarrow> core_ok (snd (terminate clk reason s))"
  by (auto simp: terminate_def Let_def)

lemma after_message_core:
  assumes "core_ok s"
  shows "after_message env cleanup operation m role s = Inl (reason, t) \<Longrightarrow> core_ok t"
    and "after_message env cleanup operation m role s = Inr (t, l, w) \<Longrightarrow> core_ok t"
proof -
  have el: "led_elapsed (clock_stop r s) = led_elapsed s" for r by (simp add: clock_stop_def)
  show "after_message env cleanup operation m role s = Inl (reason, t) \<Longrightarrow> core_ok t"
    using assms by (auto simp: after_message_def Let_def split: if_splits sum.splits)
  show "after_message env cleanup operation m role s = Inr (t, l, w) \<Longrightarrow> core_ok t"
    using assms execute_ok [OF assms] execute_ok [OF core_ok_clock_stop [OF assms], unfolded el]
    by (auto simp: after_message_def Let_def split: if_splits sum.splits)
qed

lemma attempt_core:
  assumes "core_ok s"
  shows "attempt env cleanup clk m role s = Inl (reason, t) \<Longrightarrow> core_ok t"
    and "attempt env cleanup clk m role s = Inr (t, l, w) \<Longrightarrow> core_ok t"
  using assms
  by (auto simp: attempt_def split: sum.splits intro: now_core
      dest: after_message_core [OF read_message_core [OF now_core]])

lemma answer_core:
  assumes "core_ok s"
  shows "core_ok (snd (answer m role (attempt env cleanup clk m role s)))"
proof (cases "attempt env cleanup clk m role s")
  case (Inl e)
  obtain reason t where e: "e = (reason, t)" by (cases e)
  have "core_ok (stop reason t)" using attempt_core(1) [OF assms] Inl e by blast
  then show ?thesis by (auto simp: answer_def Inl e Let_def simp del: add_event_simps)
next
  case (Inr r)
  obtain t l w where r: "r = (t, l, w)" by (cases r)
  have "core_ok t" using attempt_core(2) [OF assms] Inr r by blast
  then show ?thesis by (auto simp: answer_def Inr r Let_def simp del: add_event_simps)
qed

lemma capacity_core: "core_ok s \<Longrightarrow> core_ok (capacity_stop s)"
  by (auto simp: capacity_stop_def)

lemma apply_core:
  "core_ok s \<Longrightarrow> core_ok (snd (apply_message env clk m role s))"
  using answer_core [of s m "the_str role" env "is_cleanup m" clk] terminate_core [of s clk]
  by (auto simp: apply_message_def capacity_core split: prod.splits)

end
