(* ===== verification/RoutingRuns.thy ===== *)
theory RoutingRuns
  imports RoutingSafety
begin

text \<open>
  Runs of the routing ledger: the step relation of the calls its owner makes, the invariant of
  every reachable ledger, what each step may change, and the reading of the event log that
  gives the counters and the admissions back.
\<close>

section \<open>What a granted message accounts for\<close>

definition amount :: "counter \<Rightarrow> pyval \<Rightarrow> int" where
  "amount c m = (let operation = the_str (item m ''operation'') in
    if operation = ''RESERVE_CONNECTION'' then (if c = Connections then 1 else 0)
    else if operation = ''RESERVE_REQUEST'' then
      (if c = (if item m ''kind'' = PStr ''http'' then Http_requests else Kex_exchanges) then 1 else 0)
    else if operation = ''RESERVE_BYTES'' then
      (if c = (if item m ''direction'' = PStr ''request'' then Request_bytes else Response_bytes)
       then the_int (item m ''bytes'') else 0)
    else if operation = ''ARM'' then
      (if c = Output_bytes then action_bounds (the_str (item m ''selector'')) Output_bytes else 0)
    else 0)"

definition event_granted :: "pyval \<Rightarrow> bool" where
  "event_granted e \<longleftrightarrow> item e ''kind'' = PStr ''message'' \<and> item (item e ''reply'') ''status'' = PStr ''ok''"

definition event_amount :: "counter \<Rightarrow> pyval \<Rightarrow> int" where
  "event_amount c e = (if event_granted e then amount c (item e ''message'') else 0)"

definition logged :: "pyval list \<Rightarrow> counter \<Rightarrow> int" where
  "logged es c = sum_list (map (event_amount c) es)"

definition admissions :: "pyval list \<Rightarrow> int list" where
  "admissions es = map (\<lambda>e. the_int (item e ''elapsed_us''))
     (filter (\<lambda>e. event_granted e \<and> item (item e ''message'') ''operation'' = PStr ''RESERVE_CONNECTION'') es)"

definition spaced :: "int list \<Rightarrow> bool" where
  "spaced xs \<longleftrightarrow> sorted_wrt (\<lambda>a b. a + 250000 \<le> b) xs"

section \<open>One executed operation\<close>

lemma must_wait_positive: "must_wait elapsed s \<Longrightarrow> 0 < admission_wait elapsed s"
  by (auto simp: must_wait_def admission_wait_def split: option.splits if_splits)

lemma reserve_counters:
  "reserve key n i s = Inr t \<Longrightarrow> led_counters t c = led_counters s c + (if c = key then n else 0)"
  by (auto simp: reserve_Inr)

definition advances :: "pyval \<Rightarrow> int \<Rightarrow> routing_ledger \<Rightarrow> routing_ledger \<Rightarrow> int \<Rightarrow> bool" where
  "advances m elapsed s t w \<longleftrightarrow> led_events t = led_events s \<and> led_elapsed t = led_elapsed s
     \<and> led_sequences t = led_sequences s \<and> led_caps t = led_caps s
     \<and> (led_terminal s \<longrightarrow> led_terminal t \<and> led_reason t = led_reason s)
     \<and> (\<forall>c. led_counters t c = led_counters s c + (if w = 0 then amount c m else 0))
     \<and> (w = 0 \<longrightarrow> (\<forall>c. 0 \<le> amount c m))
     \<and> led_arms t = led_arms s + (if item m ''operation'' = PStr ''ARM'' then 1 else 0)
     \<and> led_admission t = (if item m ''operation'' = PStr ''RESERVE_CONNECTION'' \<and> w = 0
          then Some elapsed else led_admission s)
     \<and> (item m ''operation'' = PStr ''RESERVE_CONNECTION'' \<and> w = 0 \<longrightarrow> \<not> must_wait elapsed s)"

lemma do_stop_advances:
  "do_stop env m role s = Inr (t, l, w) \<Longrightarrow> item m ''operation'' = PStr ''STOP'' \<Longrightarrow> advances m e s t w"
  by (auto simp: do_stop_def res_simps Let_def advances_def amount_def stop_def)

lemma do_arm_advances:
  assumes "do_arm env m role elapsed s = Inr (t, l, w)" and "item m ''operation'' = PStr ''ARM''"
  shows "advances m e s t w"
  using assms(1) by (rule do_arm_Inr) (simp add: advances_def amount_def assms(2) action_bounds_nonneg)

lemma do_finish_action_advances:
  "do_finish_action env m role elapsed s = Inr (t, l, w) \<Longrightarrow> item m ''operation'' = PStr ''FINISH_ACTION''
    \<Longrightarrow> advances m e s t w"
  by (erule do_finish_action_Inr) (auto simp: advances_def amount_def stop_def)

lemma do_finish_connection_advances:
  "do_finish_connection m role s = Inr (t, l, w) \<Longrightarrow> item m ''operation'' = PStr ''FINISH_CONNECTION''
    \<Longrightarrow> advances m e s t w"
  by (auto simp: do_finish_connection_def res_simps Let_def advances_def amount_def)

lemma do_reserve_connection_advances:
  assumes run: "do_reserve_connection env m role elapsed s = Inr (t, l, w)"
    and op: "item m ''operation'' = PStr ''RESERVE_CONNECTION''"
  shows "advances m elapsed s t w"
proof -
  from run consider (wait) "must_wait elapsed s" "t = s" "w = admission_wait elapsed s"
    | (granted) i u c where "\<not> must_wait elapsed s" "reserve Connections 1 i s = Inr u" "w = 0"
        "t = u\<lparr>led_connection := Some c, led_admission := Some elapsed\<rparr>"
    by (auto simp: do_reserve_connection_def res_simps bound_action_Inr Let_def split: if_splits)
  then show ?thesis
  proof cases
    case wait
    then show ?thesis using must_wait_positive [of elapsed s] by (simp add: advances_def op)
  next
    case granted
    then show ?thesis using reserve_frame [OF granted(2)] reserve_counters [OF granted(2)]
      by (simp add: advances_def op amount_def)
  qed
qed

lemma reserve_advances:
  assumes u: "reserve key n i s = Inr u" and t: "t = u \<or> (\<exists>c. t = u\<lparr>led_connection := c\<rparr>)"
    and op: "item m ''operation'' \<noteq> PStr ''ARM''" "item m ''operation'' \<noteq> PStr ''RESERVE_CONNECTION''"
    and n: "\<And>c. amount c m = (if c = key then n else 0)" "0 \<le> n" and w: "w = 0"
  shows "advances m e s t w"
  using t reserve_frame [OF u] reserve_counters [OF u] op w by (auto simp: advances_def n)

lemma do_reserve_request_advances:
  assumes run: "do_reserve_request m role s = Inr (t, l, w)"
    and op: "item m ''operation'' = PStr ''RESERVE_REQUEST''"
  shows "advances m e s t w"
proof -
  from run obtain i u c where u: "reserve (if item m ''kind'' = PStr ''http'' then Http_requests else Kex_exchanges) 1 i s = Inr u"
    and t: "t = u\<lparr>led_connection := c\<rparr>" and w: "w = 0"
    by (auto simp: do_reserve_request_def res_simps bound_connection_Inr Let_def split: if_splits)
  show ?thesis by (rule reserve_advances [OF u _ _ _ _ _ w]) (use t op in \<open>auto simp: amount_def\<close>)
qed

lemma do_reserve_bytes_advances:
  assumes run: "do_reserve_bytes m role s = Inr (t, l, w)"
    and op: "item m ''operation'' = PStr ''RESERVE_BYTES''"
  shows "advances m e s t w"
proof -
  from run obtain i where u: "reserve (if item m ''direction'' = PStr ''request'' then Request_bytes else Response_bytes)
       (the_int (item m ''bytes'')) i s = Inr t" and w: "w = 0" and n: "0 \<le> the_int (item m ''bytes'')"
    by (auto simp: do_reserve_bytes_def res_simps bound_connection_Inr Let_def split: if_splits elim!: int_inE)
  show ?thesis by (rule reserve_advances [OF u _ _ _ _ n w]) (use op in \<open>auto simp: amount_def\<close>)
qed

lemma execute_advances:
  "execute env operation m role elapsed s = Inr (t, l, w) \<Longrightarrow> item m ''operation'' = PStr operation
    \<Longrightarrow> advances m elapsed s t w"
  unfolding execute_def
  by (auto split: if_splits intro: do_stop_advances do_arm_advances do_finish_action_advances
      do_finish_connection_advances do_reserve_connection_advances do_reserve_request_advances
      do_reserve_bytes_advances)

section \<open>The invariant of a run\<close>

definition log_ok :: "routing_ledger \<Rightarrow> bool" where
  "log_ok s \<longleftrightarrow> (\<forall>c. led_counters s c = logged (led_events s) c) \<and> spaced (admissions (led_events s))
     \<and> led_admission s = (if admissions (led_events s) = [] then None else Some (last (admissions (led_events s))))
     \<and> event_count s \<le> (if led_terminal s then MAX_EVENTS else MAX_EVENTS - CLEANUP_EVENT_RESERVE)"

definition ledger_ok :: "routing_ledger \<Rightarrow> bool" where
  "ledger_ok s \<longleftrightarrow> core_ok s \<and> log_ok s"

lemma logged_append [simp]: "logged (es @ [e]) c = logged es c + event_amount c e"
  by (simp add: logged_def)

lemma admissions_append:
  "admissions (es @ [e]) = admissions es @
    (if event_granted e \<and> item (item e ''message'') ''operation'' = PStr ''RESERVE_CONNECTION''
     then [the_int (item e ''elapsed_us'')] else [])"
  by (simp add: admissions_def)

lemma spaced_append: "spaced (xs @ [y]) \<longleftrightarrow> spaced xs \<and> (\<forall>x \<in> set xs. x + 250000 \<le> y)"
  by (simp add: spaced_def sorted_wrt_append)

lemma spaced_last:
  assumes "spaced xs" and "xs \<noteq> []" and "last xs + 250000 \<le> y" and "x \<in> set xs"
  shows "x + 250000 \<le> y"
proof -
  obtain ys where xs: "xs = ys @ [last xs]" using assms(2) by (metis append_butlast_last_id)
  have "spaced (ys @ [last xs])" using assms(1) xs by metis
  then have "\<forall>x \<in> set ys. x + 250000 \<le> last xs" by (simp add: spaced_append)
  moreover have "x \<in> set ys \<or> x = last xs" using assms(4) xs by (metis UnE set_append set_ConsD empty_iff list.set(1))
  ultimately show ?thesis using assms(3) by auto
qed

lemma not_granted_stop_event [simp]: "\<not> event_granted (stop_event k e r)"
  by (simp add: event_granted_def stop_event_def item_PDict)

lemma not_granted_denied [simp]:
  "\<not> event_granted (message_event e role m (reply_json m role ''denied'' r l w))"
  "\<not> event_granted (message_event e role m (reply_json m role ''wait'' r l w))"
  by (simp_all add: event_granted_def message_event_def reply_json_def item_PDict)

lemma granted_ok [simp]: "event_granted (message_event e role m (reply_json m role ''ok'' r l w))"
  by (simp add: event_granted_def message_event_def reply_json_def item_PDict)

lemma message_event_items [simp]:
  "item (message_event e role m r) ''message'' = m" "item (message_event e role m r) ''elapsed_us'' = PInt e"
  by (simp_all add: message_event_def item_PDict)

text \<open>Adding an event that grants nothing.\<close>

lemma log_ok_idle:
  assumes "log_ok s" and "led_counters t = led_counters s" "led_admission t = led_admission s"
    "led_events t = led_events s @ es" "\<forall>e \<in> set es. \<not> event_granted e"
    "event_count t \<le> (if led_terminal t then MAX_EVENTS else MAX_EVENTS - CLEANUP_EVENT_RESERVE)"
  shows "log_ok t"
proof -
  have "logged (led_events t) c = logged (led_events s) c" for c
  proof -
    have m: "map (event_amount c) es = map (\<lambda>_. 0) es" using assms(5) by (simp add: event_amount_def)
    show ?thesis unfolding assms(4) logged_def map_append sum_list_append m by (simp add: sum_list_triv)
  qed
  moreover have "filter (\<lambda>e. event_granted e \<and> item (item e ''message'') ''operation'' = PStr ''RESERVE_CONNECTION'') es = []"
    using assms(5) by (simp add: filter_empty_conv)
  then have "admissions (led_events t) = admissions (led_events s)"
    by (simp add: assms(4) admissions_def)
  ultimately show ?thesis using assms by (simp add: log_ok_def)
qed

section \<open>Room in the log\<close>

definition roomy :: "routing_ledger \<Rightarrow> bool" where
  "roomy s \<longleftrightarrow> event_count s < (if led_terminal s then MAX_EVENTS else MAX_EVENTS - CLEANUP_EVENT_RESERVE)"

lemma stop_event_log:
  assumes "log_ok s" and "\<not> led_terminal s" and "event_count s < MAX_EVENTS"
  shows "log_ok (add_event (stop_event k el r) (stop r' s))"
  by (rule log_ok_idle [OF assms(1), of _ "[stop_event k el r]"])
     (use assms in \<open>simp_all add: event_count_def stop_def\<close>)

lemma live_room: "log_ok s \<Longrightarrow> \<not> led_terminal s \<Longrightarrow> event_count s < MAX_EVENTS"
  by (simp add: log_ok_def CLEANUP_EVENT_RESERVE_def)

lemma log_ok_elapsed: "log_ok s \<Longrightarrow> log_ok (s\<lparr>led_elapsed := e\<rparr>)"
  by (simp add: log_ok_def event_count_def)

lemma check_deadline_log: "log_ok s \<Longrightarrow> log_ok (check_deadline clk s)"
  by (auto simp: check_deadline_def clock_stop_def now_Inr split: sum.splits
      intro!: stop_event_log log_ok_elapsed)
     (auto simp: live_room event_count_def dest: live_room)

lemma terminate_log: "log_ok s \<Longrightarrow> log_ok (snd (terminate clk reason s))"
  using check_deadline_log [of s clk]
  by (auto simp: terminate_def Let_def live_room intro!: stop_event_log)

lemma capacity_log: "log_ok s \<Longrightarrow> \<not> led_terminal s \<Longrightarrow> log_ok (capacity_stop s)"
  by (simp add: capacity_stop_def stop_event_log live_room)


section \<open>The message gate\<close>

definition idles :: "routing_ledger \<Rightarrow> routing_ledger \<Rightarrow> bool" where
  "idles s u \<longleftrightarrow> led_counters u = led_counters s \<and> led_admission u = led_admission s \<and> led_arms u = led_arms s
     \<and> led_caps u = led_caps s \<and> led_connection u = led_connection s \<and> led_elapsed s \<le> led_elapsed u
     \<and> (\<forall>r. led_sequences s r \<le> led_sequences u r)
     \<and> (led_events u = led_events s \<and> led_terminal u = led_terminal s \<and> led_reason u = led_reason s
        \<or> (\<exists>k e r. led_events u = led_events s @ [stop_event k e r]) \<and> \<not> led_terminal s \<and> led_terminal u)"

lemma idles_clock_stop: "idles s u \<Longrightarrow> led_events u = led_events s \<Longrightarrow> \<not> led_terminal u \<Longrightarrow> idles s (clock_stop r u)"
  by (auto simp: idles_def clock_stop_def stop_event_def)

lemma now_idles: "now clk s = Inr u \<Longrightarrow> idles s u \<and> led_events u = led_events s"
  by (auto simp: now_Inr idles_def)

lemma le_add_one: "a \<le> b \<Longrightarrow> a \<le> b + (1::int)"
  by simp

lemma read_message_idles:
  "read_message m role u = Inr (operation, v) \<Longrightarrow> idles s u \<Longrightarrow> led_events u = led_events s
    \<Longrightarrow> idles s v \<and> led_events v = led_events s \<and> item m ''operation'' = PStr operation"
  by (auto simp: idles_def intro!: le_add_one dest!: read_message_Inr)

lemma after_message_cases:
  assumes "idles s v" and "led_events v = led_events s" and "item m ''operation'' = PStr operation"
  shows "after_message env cleanup operation m role v = Inl (reason, t) \<Longrightarrow> idles s t"
    and "after_message env cleanup operation m role v = Inr (t, l, w) \<Longrightarrow>
      \<exists>u. idles s u \<and> led_elapsed u = led_elapsed v \<and> advances m (led_elapsed u) u t w
        \<and> execute env operation m role (led_elapsed u) u = Inr (t, l, w)"
proof -
  have el: "led_elapsed (clock_stop r v) = led_elapsed v" for r by (simp add: clock_stop_def)
  show "after_message env cleanup operation m role v = Inl (reason, t) \<Longrightarrow> idles s t"
    using assms by (auto simp: after_message_def Let_def idles_clock_stop split: if_splits sum.splits)
  show "after_message env cleanup operation m role v = Inr (t, l, w) \<Longrightarrow>
      \<exists>u. idles s u \<and> led_elapsed u = led_elapsed v \<and> advances m (led_elapsed u) u t w
        \<and> execute env operation m role (led_elapsed u) u = Inr (t, l, w)"
    using assms idles_clock_stop [OF assms(1,2)] execute_advances [OF _ assms(3)] el
    by (auto simp: after_message_def Let_def split: if_splits sum.splits) metis+
qed

lemma attempt_Inl: "attempt env cleanup clk m role s = Inl (reason, t) \<Longrightarrow> idles s t"
proof -
  assume run: "attempt env cleanup clk m role s = Inl (reason, t)"
  show ?thesis
  proof (cases "now clk s")
    case (Inl r)
    then show ?thesis using run by (auto simp: attempt_def idles_def)
  next
    case (Inr u)
    note u = now_idles [OF Inr]
    show ?thesis
    proof (cases "read_message m role u")
      case (Inl r)
      then show ?thesis using run Inr u by (simp add: attempt_def)
    next
      case (Inr p)
      obtain operation v where p: "p = (operation, v)" by (cases p)
      show ?thesis
        using run \<open>now clk s = Inr u\<close> Inr
          after_message_cases(1) [of s v m operation env cleanup role reason t]
          read_message_idles [OF Inr [unfolded p], of s] u
        by (simp add: attempt_def p)
    qed
  qed
qed

lemma attempt_Inr:
  assumes run: "attempt env cleanup clk m role s = Inr (t, l, w)"
  obtains operation u where "item m ''operation'' = PStr operation" "idles s u"
    "advances m (led_elapsed u) u t w" "execute env operation m role (led_elapsed u) u = Inr (t, l, w)"
proof -
  obtain u where u: "now clk s = Inr u" using run by (auto simp: attempt_def split: sum.splits)
  obtain operation v where v: "read_message m role u = Inr (operation, v)"
    using run u by (auto simp: attempt_def split: sum.splits)
  note i = read_message_idles [OF v] now_idles [OF u]
  have "after_message env cleanup operation m role v = Inr (t, l, w)"
    using run u v by (simp add: attempt_def)
  then show thesis using after_message_cases(2) [of s v] i that by blast
qed

lemma idles_log:
  assumes "log_ok s" and "idles s u" and "led_terminal s \<Longrightarrow> event_count s < MAX_EVENTS"
    and "\<not> led_terminal s \<Longrightarrow> event_count s < MAX_EVENTS - CLEANUP_EVENT_RESERVE"
  shows "log_ok u" and "roomy u"
proof -
  from assms(2) obtain es where es: "led_events u = led_events s @ es" "\<forall>e \<in> set es. \<not> event_granted e"
    "es = [] \<and> led_terminal u = led_terminal s \<or> length es = 1 \<and> \<not> led_terminal s \<and> led_terminal u"
    by (fastforce simp: idles_def)
  have room: "event_count u < (if led_terminal u then MAX_EVENTS else MAX_EVENTS - CLEANUP_EVENT_RESERVE)"
    using es(1,3) assms(3,4) by (auto simp: event_count_def MAX_EVENTS_def CLEANUP_EVENT_RESERVE_def)
  show "roomy u" using room by (simp add: roomy_def)
  show "log_ok u"
    by (rule log_ok_idle [OF assms(1) _ _ es(1,2)]) (use room assms(2) in \<open>auto simp: idles_def\<close>)
qed

lemma granted_log:
  assumes log: "log_ok u" and room: "roomy u" and adv: "advances m (led_elapsed u) u t 0"
  shows "log_ok (add_event (message_event (led_elapsed t) role m (reply_json m role ''ok'' r l 0)) t)"
    (is "log_ok ?t")
proof -
  have ev: "led_events t = led_events u" and el: "led_elapsed t = led_elapsed u" using adv by (auto simp: advances_def)
  have counters: "led_counters ?t c = logged (led_events ?t) c" for c
    using adv log by (simp add: advances_def log_ok_def event_amount_def)
  have count: "event_count ?t \<le> (if led_terminal ?t then MAX_EVENTS else MAX_EVENTS - CLEANUP_EVENT_RESERVE)"
    using room adv by (auto simp: roomy_def event_count_def ev advances_def MAX_EVENTS_def CLEANUP_EVENT_RESERVE_def split: if_splits)
  show ?thesis
  proof (cases "item m ''operation'' = PStr ''RESERVE_CONNECTION''")
    case True
    then have wait: "\<not> must_wait (led_elapsed u) u" and adm: "led_admission t = Some (led_elapsed u)"
      using adv by (auto simp: advances_def)
    have "\<forall>x \<in> set (admissions (led_events u)). x + 250000 \<le> led_elapsed u"
    proof (cases "admissions (led_events u) = []")
      case False
      then have "last (admissions (led_events u)) + 250000 \<le> led_elapsed u"
        using log wait by (simp add: log_ok_def must_wait_def)
      then show ?thesis using spaced_last log False by (auto simp: log_ok_def)
    qed simp
    then show ?thesis using True counters count adm log
      by (simp add: log_ok_def admissions_append spaced_append ev el)
  next
    case False
    then show ?thesis using counters count adv log
      by (simp add: log_ok_def admissions_append ev el advances_def)
  qed
qed

lemma answer_log:
  assumes log: "log_ok s" and room: "roomy s"
  shows "log_ok (snd (answer m role (attempt env cleanup clk m role s)))"
proof (cases "attempt env cleanup clk m role s")
  case (Inl p)
  obtain reason t where p: "p = (reason, t)" by (cases p)
  have i: "idles s t" by (rule attempt_Inl [OF Inl [unfolded p]])
  have "log_ok t" "roomy t" using idles_log [OF log i] room by (auto simp: roomy_def split: if_splits)
  have added: "log_ok (add_event e (stop reason t))" if "\<not> event_granted e" for e
    by (rule log_ok_idle [OF \<open>log_ok t\<close>, of _ "[e]"])
      (use that \<open>roomy t\<close> in \<open>auto simp: roomy_def event_count_def stop_def MAX_EVENTS_def
          CLEANUP_EVENT_RESERVE_def split: if_splits\<close>)
  show ?thesis
    unfolding answer_def Inl p sum.case prod.case Let_def snd_conv by (rule added) simp
next
  case (Inr p)
  obtain t l w where p: "p = (t, l, w)" by (cases p)
  obtain operation u where u: "idles s u" "advances m (led_elapsed u) u t w"
    by (rule attempt_Inr [OF Inr [unfolded p]])
  have lu: "log_ok u" "roomy u" using idles_log [OF log u(1)] room by (auto simp: roomy_def split: if_splits)
  show ?thesis
  proof (cases "w = 0")
    case True
    then show ?thesis using granted_log [OF lu] u(2) by (simp add: answer_def Inr p Let_def)
  next
    case False
    have added: "log_ok (add_event e t)" if "\<not> event_granted e" for e
      by (rule log_ok_idle [OF lu(1), of _ "[e]"])
        (use that False u(2) lu(2) in \<open>auto simp: advances_def roomy_def event_count_def MAX_EVENTS_def
            CLEANUP_EVENT_RESERVE_def split: if_splits\<close>)
    show ?thesis
      unfolding answer_def Inr p sum.case prod.case Let_def snd_conv by (rule added) (simp add: False)
  qed
qed

lemma apply_log: "log_ok s \<Longrightarrow> log_ok (snd (apply_message env clk m role s))"
proof -
  assume log: "log_ok s"
  have "roomy s" if "\<not> (led_terminal s \<and> event_count s \<ge> MAX_EVENTS)" "\<not> (\<not> led_terminal s \<and> at_capacity s)"
    using that by (auto simp: roomy_def at_capacity_def)
  then show ?thesis
    using log answer_log [OF log, of m "the_str role" env "is_cleanup m" clk] terminate_log [OF log] capacity_log [OF log]
    by (auto simp: apply_message_def split: prod.splits)
qed

section \<open>Runs\<close>

inductive ledger_step :: "routing_env \<Rightarrow> routing_ledger \<Rightarrow> routing_ledger \<Rightarrow> bool" for env where
  step_deadline: "ledger_step env s (check_deadline clk s)"
| step_terminate: "ledger_step env s (snd (terminate clk reason s))"
| step_apply: "ledger_step env s (snd (apply_message env clk m role s))"

inductive_cases ledger_stepE: "ledger_step env s t"

definition ledger_start :: "routing_env \<Rightarrow> routing_ledger \<Rightarrow> bool" where
  "ledger_start env s \<longleftrightarrow> (\<exists>sel ident. new_ledger env sel ident = Inr s)"

lemma budgets_nonneg: "budgets_of b = Inr caps \<Longrightarrow> 0 \<le> budget_counter caps c"
  by (cases c) (auto simp: budgets_of_def bounds_row_def split: if_splits)

lemma ledger_start_ok: "ledger_start env s \<Longrightarrow> ledger_ok s"
  unfolding ledger_start_def new_ledger_def budgets_for_def res_simps
  by (elim exE conjE)
     (auto simp: ledger_ok_def core_ok_def accounts_ok_def actions_ok_def clock_ok_def spent_def log_ok_def
       logged_def admissions_def spaced_def event_count_def SESSION_US_def CLEANUP_EVENT_RESERVE_def
       MAX_EVENTS_def budgets_nonneg)

lemma ledger_step_ok: "ledger_ok s \<Longrightarrow> ledger_step env s t \<Longrightarrow> ledger_ok t"
  by (erule ledger_stepE)
     (auto simp: ledger_ok_def terminate_core apply_core check_deadline_log terminate_log apply_log)

text \<open>What a later ledger keeps of an earlier one.\<close>

definition later :: "routing_ledger \<Rightarrow> routing_ledger \<Rightarrow> bool" where
  "later s t \<longleftrightarrow> (\<exists>es. led_events t = led_events s @ es) \<and> led_elapsed s \<le> led_elapsed t
     \<and> led_caps t = led_caps s
     \<and> (\<forall>c. led_counters s c \<le> led_counters t c) \<and> led_arms s \<le> led_arms t
     \<and> (\<forall>r. led_sequences s r \<le> led_sequences t r)
     \<and> (led_terminal s \<longrightarrow> led_terminal t \<and> led_reason t = led_reason s \<and> led_arms t = led_arms s
          \<and> led_counters t = led_counters s \<and> led_admission t = led_admission s)"

lemma later_refl: "later s s"
  by (simp add: later_def)

lemma later_trans: "later s t \<Longrightarrow> later t u \<Longrightarrow> later s u"
  unfolding later_def by (auto intro: order_trans)

lemma idles_later: "idles s u \<Longrightarrow> later s u"
  by (auto simp: idles_def later_def)

lemma stop_later: "later s t \<Longrightarrow> later s (stop r t)"
  by (auto simp: later_def stop_def)

lemma event_later: "later s t \<Longrightarrow> later s (add_event e t)"
  by (auto simp: later_def)


lemma cleanup_amount:
  "is_cleanup m \<Longrightarrow> amount c m = 0 \<and> item m ''operation'' \<noteq> PStr ''ARM''
    \<and> item m ''operation'' \<noteq> PStr ''RESERVE_CONNECTION''"
  by (auto simp: is_cleanup_def CLEANUP_OPERATIONS_def amount_def elim!: str_inE)

lemma advances_later:
  assumes "later s u" and "advances m e u t w" and "led_terminal u \<longrightarrow> is_cleanup m"
  shows "later s t"
proof -
  have "later u t"
    using assms(2,3) cleanup_amount [of m] by (cases "led_terminal u") (auto simp: advances_def later_def)
  then show ?thesis by (rule later_trans [OF assms(1)])
qed

lemma check_deadline_later: "later s (check_deadline clk s)"
  using now_idles [of clk s, THEN conjunct1, THEN idles_later]
  by (auto simp: check_deadline_def clock_stop_def later_refl split: sum.splits
      intro!: event_later stop_later)

lemma terminate_later: "later s (snd (terminate clk reason s))"
  by (auto simp: terminate_def Let_def later_refl check_deadline_later intro!: event_later stop_later)

text \<open>A refused attempt of a live operation stays live until \<open>answer\<close> stops the ledger.\<close>

lemma attempt_live:
  assumes "attempt env cleanup clk m role s = Inr (t, l, w)" and "\<not> cleanup"
  obtains operation u where "idles s u" "advances m (led_elapsed u) u t w" "led_terminal u = led_terminal s"
proof -
  from assms(1) obtain u where u: "now clk s = Inr u" by (auto simp: attempt_def split: sum.splits)
  from assms(1) u obtain operation v where v: "read_message m role u = Inr (operation, v)"
    by (auto simp: attempt_def split: sum.splits)
  note i = read_message_idles [OF v, of s] now_idles [OF u]
  have "after_message env cleanup operation m role v = Inr (t, l, w)" using assms(1) u v by (simp add: attempt_def)
  then have "execute env operation m role (led_elapsed v) v = Inr (t, l, w)"
    using assms(2) by (auto simp: after_message_def Let_def split: if_splits sum.splits)
  moreover have "led_terminal v = led_terminal s" using i by (auto simp: idles_def)
  ultimately show thesis using i execute_advances that by blast
qed

lemma answer_later:
  assumes "led_terminal s \<longrightarrow> cleanup" and c: "cleanup = is_cleanup m"
  shows "later s (snd (answer m role (attempt env cleanup clk m role s)))"
proof (cases "attempt env cleanup clk m role s")
  case (Inl p)
  obtain reason t where p: "p = (reason, t)" by (cases p)
  have "later s t" by (rule idles_later, rule attempt_Inl [OF Inl [unfolded p]])
  then show ?thesis
    unfolding answer_def Inl p sum.case prod.case Let_def snd_conv by (intro event_later stop_later)
next
  case (Inr p)
  obtain t l w where p: "p = (t, l, w)" by (cases p)
  note run = Inr [unfolded p]
  have "later s t"
  proof (cases cleanup)
    case True
    show ?thesis
      by (rule attempt_Inr [OF run]) (rule advances_later, rule idles_later, use True c in auto)
  next
    case False
    show ?thesis
      by (rule attempt_live [OF run False]) (rule advances_later, rule idles_later, use False assms in auto)
  qed
  then show ?thesis
    unfolding answer_def Inr p sum.case prod.case Let_def snd_conv by (intro event_later)
qed

lemma apply_later: "later s (snd (apply_message env clk m role s))"
  using terminate_later [of s clk] answer_later [OF _ refl, of s m "the_str role" env clk]
  by (auto simp: apply_message_def later_refl capacity_stop_def split: prod.splits
      intro!: event_later stop_later)

lemma ledger_step_later: "ledger_step env s t \<Longrightarrow> later s t"
  by (erule ledger_stepE) (auto simp: check_deadline_later terminate_later apply_later)

interpretation routing: monotone_system "ledger_start env" "ledger_step env" ledger_ok later for env
  by unfold_locales
     (auto simp: ledger_start_ok ledger_step_ok later_refl ledger_step_later intro: later_trans)

section \<open>Leases\<close>

definition lease_ok :: "routing_ledger \<Rightarrow> bool" where
  "lease_ok s \<longleftrightarrow> (\<forall>c. led_connection s = Some c \<longrightarrow> is_hash (conn_lease c))"

lemma execute_lease:
  assumes "execute env operation m role e s = Inr (t, l, w)" and "lease_ok s" and "\<And>x. is_hash (sha env x)"
  shows "lease_ok t"
  using assms
  by (auto simp: execute_def do_stop_def do_reserve_connection_def do_reserve_request_def do_reserve_bytes_def
      do_finish_connection_def bound_connection_Inr bound_action_Inr res_simps Let_def reserve_Inr lease_ok_def
      lease_of_def digest_def stop_def split: if_splits elim!: do_arm_Inr do_finish_action_Inr)

end
