(* ===== verification/RoutingProps.thy ===== *)
theory RoutingProps
  imports RoutingRuns
begin

text \<open>
  The properties of the routing ledger, proved from the invariants of its runs, and a concrete
  ledger on which they are exercised.
\<close>

section \<open>Refusal reasons are printable in a reply\<close>

definition short_reason :: "string \<Rightarrow> bool" where
  "short_reason r \<longleftrightarrow> 1 \<le> length r \<and> length r \<le> 80"

lemma short_texts [simp]:
  "short_reason [] = False" "short_reason (c # r) \<longleftrightarrow> length r \<le> 79"
  by (auto simp: short_reason_def)

lemma case_map_short: "errors_in short_reason (case_map p)"
  unfolding case_map_def Let_def by (intro err_intros) simp_all

lemma selection_short: "errors_in short_reason (selection env b d p)"
  unfolding selection_def budgets_of_def Let_def
  by (intro err_intros case_map_short) simp_all

lemma validate_selection_short: "errors_in short_reason (validate_selection env v)"
  unfolding validate_selection_def by (intro err_intros selection_short) simp_all

lemma underlying_short: "errors_in short_reason (underlying_selection env sel v)"
  unfolding underlying_selection_def by (intro err_intros validate_selection_short case_map_short)

lemma action_short: "errors_in short_reason (action env v sel)"
  unfolding action_def by (intro err_intros validate_selection_short underlying_short)

lemma case_is_negative_short: "errors_in short_reason (case_is_negative env sel v)"
  unfolding case_is_negative_def by (intro err_intros underlying_short)

lemma reserve_short: "errors_in short_reason (reserve key n i s)"
  unfolding reserve_def Let_def by (intro err_intros; cases key) simp_all

lemma bound_action_short: "errors_in short_reason (bound_action m role fe s)"
  unfolding bound_action_def Let_def by (intro err_intros) simp_all

lemma bound_connection_short: "errors_in short_reason (bound_connection m role s)"
  unfolding bound_connection_def by (intro err_intros bound_action_short) simp_all

lemma execute_short: "errors_in short_reason (execute env operation m role e s)"
  unfolding execute_def do_stop_def do_arm_def do_finish_action_def do_reserve_connection_def
    do_reserve_request_def do_reserve_bytes_def do_finish_connection_def Let_def
  by (intro err_intros action_short case_is_negative_short reserve_short bound_action_short
      bound_connection_short) simp_all

lemma time_check_short: "errors_in short_reason (time_check e s)"
  unfolding time_check_def by (intro err_intros) simp_all

lemma now_short: "errors_in short_reason (now clk s)"
  unfolding now_def Let_def by (intro err_intros) simp_all

lemma read_message_short: "errors_in short_reason (read_message m role s)"
  unfolding read_message_def Let_def by (intro err_intros) simp_all

lemma attempt_short: "attempt env cleanup clk m role s = Inl (r, t) \<Longrightarrow> short_reason r"
  using errors_inD [OF now_short] errors_inD [OF read_message_short] errors_inD [OF time_check_short]
    errors_inD [OF execute_short]
  by (auto simp: attempt_def after_message_def Let_def split: sum.splits if_splits)


section \<open>Replies pass the client's validator\<close>

definition reply_shape :: "routing_env \<Rightarrow> pyval \<Rightarrow> routing_ledger \<Rightarrow> string option \<Rightarrow> int \<Rightarrow> bool" where
  "reply_shape env m s l w \<longleftrightarrow>
    (if w \<noteq> 0 then 1 \<le> w \<and> w \<le> 250 \<and> item m ''operation'' = PStr ''RESERVE_CONNECTION'' \<and> l = None
     else (item m ''operation'' = PStr ''RESERVE_CONNECTION'' \<longrightarrow> (\<exists>x. l = Some (digest env x)))
       \<and> (str_in [''RESERVE_REQUEST'', ''RESERVE_BYTES'', ''FINISH_CONNECTION''] (item m ''operation'')
           \<longrightarrow> (\<exists>c. l = Some (conn_lease c) \<and> item m ''lease'' = PStr (conn_lease c) \<and> led_connection s = Some c))
       \<and> (str_in [''ARM'', ''FINISH_ACTION'', ''STOP''] (item m ''operation'') \<longrightarrow> l = None))"

lemma admission_wait_range:
  "must_wait e s \<Longrightarrow> (\<forall>t. led_admission s = Some t \<longrightarrow> t \<le> e) \<Longrightarrow> 1 \<le> admission_wait e s \<and> admission_wait e s \<le> 250"
  by (auto simp: must_wait_def admission_wait_def split: option.splits if_splits)

lemma execute_reply:
  assumes "execute env operation m role e s = Inr (t, l, w)" and op: "item m ''operation'' = PStr operation"
    and adm: "\<forall>t. led_admission s = Some t \<longrightarrow> t \<le> e"
  shows "reply_shape env m s l w"
  using assms(1) admission_wait_range [OF _ adm]
  by (auto simp: execute_def reply_shape_def op do_stop_def do_reserve_connection_def do_reserve_request_def
      do_reserve_bytes_def do_finish_connection_def bound_connection_Inr Let_def res_simps lease_of_def
      split: if_splits elim!: do_arm_Inr do_finish_action_Inr)

definition lease_shape :: "string option \<Rightarrow> bool" where
  "lease_shape l \<longleftrightarrow> (\<forall>h. l = Some h \<longrightarrow> is_hash h)"

lemma with_snapshot_items:
  assumes "v = with_snapshot env (reply_json m role st r l w) t"
  shows "item v ''role'' = PStr role" "item v ''sequence'' = item m ''sequence''"
    "item v ''action_sequence'' = item m ''action_sequence''" "item v ''action_digest'' = item m ''action_digest''"
    "item v ''status'' = PStr st" "item v ''reason'' = opt_json PStr r" "item v ''lease'' = opt_json PStr l"
    "item v ''retry_after_ms'' = PInt w" "item v ''snapshot_sha256'' = PStr (digest env (snapshot t))"
    "is_dict v" "same_fields v REPLY_FIELDS"
  by (simp_all add: assms with_snapshot_def reply_json_def item_PDict same_fields_def REPLY_FIELDS_def fields_of_def)

lemma opt_json_simps [simp]: "opt_json f None = PNone" "opt_json f (Some x) = f x"
  by (simp_all add: opt_json_def)

lemma opt_json_PStr [simp]: "opt_json PStr l = PNone \<longleftrightarrow> l = None" "opt_json PStr l = PStr h \<longleftrightarrow> l = Some h"
  "PStr h = opt_json PStr l \<longleftrightarrow> l = Some h"
  by (cases l; auto)+

lemma denied_validates:
  assumes "v = with_snapshot env (reply_json m role ''denied'' (Some r) None 0) t" and "short_reason r"
    and "role \<in> set ROLES" and "is_hash (digest env (snapshot t))"
  shows "validate_reply v m role = Inr v"
  using assms(2-) by (simp add: validate_reply_def with_snapshot_items [OF assms(1)] short_reason_def)

lemma granted_validates:
  assumes "v = with_snapshot env (reply_json m role ''ok'' None l 0) t" and "reply_shape env m s l 0"
    and "role \<in> set ROLES" and "is_hash (digest env (snapshot t))" and "lease_shape l"
  shows "validate_reply v m role = Inr v"
  using assms(2-) by (auto simp: validate_reply_def with_snapshot_items [OF assms(1)] reply_shape_def lease_shape_def
      intro: option.exhaust [of l])

lemma waiting_validates:
  assumes "v = with_snapshot env (reply_json m role ''wait'' (Some ''admission_rate'') l w) t"
    and "reply_shape env m s l w" and "w \<noteq> 0"
    and "role \<in> set ROLES" and "is_hash (digest env (snapshot t))"
  shows "validate_reply v m role = Inr v"
  using assms(2-) by (simp add: validate_reply_def with_snapshot_items [OF assms(1)] reply_shape_def)

lemma answer_validates:
  assumes "attempt env cleanup clk m role s = r" and "answer m role r = (reply, t)"
    and sha: "\<And>x. is_hash (sha env x)" and "role \<in> set ROLES" and "core_ok s" and "lease_ok s"
  shows "validate_reply (with_snapshot env reply t) m role = Inr (with_snapshot env reply t)"
proof (cases r)
  case (Inl p)
  obtain reason u where p: "p = (reason, u)" by (cases p)
  have "reply = reply_json m role ''denied'' (Some reason) None 0"
    using assms(2) by (simp add: answer_def Inl p Let_def)
  then show ?thesis
    by (intro denied_validates [where r = reason]) (use assms Inl p sha attempt_short in \<open>auto simp: digest_def\<close>)
next
  case (Inr p)
  obtain u l w where p: "p = (u, l, w)" by (cases p)
  have "attempt env cleanup clk m role s = Inr (u, l, w)" using assms(1) Inr p by simp
  then show ?thesis
  proof (rule attempt_Inr)
    fix operation z
    assume op: "item m ''operation'' = PStr operation" and i: "idles s z"
      and run: "execute env operation m role (led_elapsed z) z = Inr (u, l, w)"
    have "\<forall>t. led_admission z = Some t \<longrightarrow> t \<le> led_elapsed z"
      using i \<open>core_ok s\<close> by (auto simp: idles_def core_ok_def clock_ok_def intro: order_trans)
    note shape = execute_reply [OF run op this]
    have "lease_ok z" using i \<open>lease_ok s\<close> by (simp add: idles_def lease_ok_def)
    show ?thesis
    proof (cases "w = 0")
      case True
      have "operation \<in> set (map fst EXTRA)"
        using run by (auto simp: execute_def EXTRA_def split: if_splits)
      then have "(\<exists>x. l = Some (digest env x)) \<or> (\<exists>c. l = Some (conn_lease c) \<and> led_connection z = Some c) \<or> l = None"
        using shape True unfolding EXTRA_def list.map fst_conv list.set insert_iff empty_iff
        by (elim disjE; simp add: reply_shape_def op; blast)
      then have "lease_shape l" using \<open>lease_ok z\<close> sha
        by (elim disjE exE conjE) (simp_all add: lease_shape_def lease_ok_def digest_def)
      moreover have "reply = reply_json m role ''ok'' None l 0"
        using assms(2) True by (simp add: answer_def Inr p Let_def)
      ultimately show ?thesis
        by (intro granted_validates [where l = l]) (use shape True assms sha in \<open>auto simp: digest_def\<close>)
    next
      case False
      have "reply = reply_json m role ''wait'' (Some ''admission_rate'') l w"
        using assms(2) False by (simp add: answer_def Inr p Let_def)
      then show ?thesis
        by (intro waiting_validates [where l = l and w = w]) (use shape False assms sha in \<open>auto simp: digest_def\<close>)
    qed
  qed
qed

section \<open>Leases of reachable ledgers are digests\<close>

lemma lease_ok_frame: "led_connection t = led_connection s \<Longrightarrow> lease_ok s \<Longrightarrow> lease_ok t"
  by (simp add: lease_ok_def)

lemma check_deadline_connection: "led_connection (check_deadline clk s) = led_connection s"
  by (auto simp: check_deadline_def clock_stop_def now_Inr split: sum.splits)

lemma terminate_connection: "led_connection (snd (terminate clk reason s)) = led_connection s"
  by (simp add: terminate_def Let_def check_deadline_connection)

lemma answer_lease:
  assumes sha: "\<And>x. is_hash (sha env x)" and "lease_ok s"
  shows "lease_ok (snd (answer m role (attempt env cleanup clk m role s)))"
proof (cases "attempt env cleanup clk m role s")
  case (Inl p)
  obtain reason t where p: "p = (reason, t)" by (cases p)
  have "idles s t" by (rule attempt_Inl [OF Inl [unfolded p]])
  then show ?thesis
    unfolding answer_def Inl p sum.case prod.case Let_def snd_conv
    by (intro lease_ok_frame [OF _ \<open>lease_ok s\<close>]) (simp add: idles_def)
next
  case (Inr p)
  obtain t l w where p: "p = (t, l, w)" by (cases p)
  from Inr [unfolded p] have "lease_ok t"
    by (rule attempt_Inr) (use assms in \<open>auto simp: idles_def intro: execute_lease lease_ok_frame\<close>)
  then show ?thesis
    unfolding answer_def Inr p sum.case prod.case Let_def snd_conv
    by (intro lease_ok_frame [OF _ \<open>lease_ok t\<close>]) simp
qed

lemma step_lease:
  assumes sha: "\<And>x. is_hash (sha env x)" and "ledger_step env s t" and "lease_ok s"
  shows "lease_ok t"
  using assms(2)
proof (rule ledger_stepE)
  fix clk assume "t = check_deadline clk s"
  then show ?thesis using lease_ok_frame [OF check_deadline_connection assms(3)] by simp
next
  fix clk reason assume "t = snd (terminate clk reason s)"
  then show ?thesis using lease_ok_frame [OF terminate_connection assms(3)] by simp
next
  fix clk m role assume t: "t = snd (apply_message env clk m role s)"
  show ?thesis
    using answer_lease [OF sha assms(3), of m "the_str role" "is_cleanup m" clk] assms(3)
      lease_ok_frame [OF terminate_connection assms(3)]
    by (auto simp: t apply_message_def capacity_stop_def split: prod.splits intro: lease_ok_frame [OF _ assms(3)])
qed

lemma runs_lease:
  "(ledger_step env)\<^sup>*\<^sup>* s t \<Longrightarrow> ledger_start env s \<Longrightarrow> (\<And>x. is_hash (sha env x)) \<Longrightarrow> lease_ok t"
proof (induction rule: rtranclp_induct)
  case base
  then show ?case by (auto simp: ledger_start_def new_ledger_def res_simps lease_ok_def)
qed (blast intro: step_lease)

section \<open>A concrete ledger\<close>

definition demo_hash :: string where "demo_hash = replicate 64 (CHR ''a'')"

definition demo_env :: routing_env where
  "demo_env = \<lparr>sha = (\<lambda>_. demo_hash), http_selection = (\<lambda>i c k. PDict [(''case'', PStr k)]),
     ssh_selection = (\<lambda>c k. PDict [(''case'', PStr k)]), native_expectation = (\<lambda>_ _. PDict []),
     contract_action = (\<lambda>s v. PDict [(''tool_id'', PStr s)]), topology_sha = (\<lambda>_. demo_hash),
     uuid5 = (\<lambda>s. s)\<rparr>"

definition demo_selection :: pyval where
  "demo_selection = PDict [(''configuration'', PStr ''A''), (''budget_case'', PStr ''ordinary''), (''selection_sha256'', PStr demo_hash)]"

definition demo_runtimes :: pyval where
  "demo_runtimes = PDict (map (\<lambda>s. (s, PDict [(''daemon_runtime_sha256'', PStr demo_hash),
     (''client_runtime_sha256'', if s = ''http_headers'' then PNone else PStr demo_hash)])) SELECTORS)"

definition demo_uuid :: string where "demo_uuid = ''00000000-0000-4000-8000-000000000000''"

definition demo_identity :: pyval where
  "demo_identity = PDict ([(''version'', PStr ''1''), (''profile'', PStr PROFILE), (''instance_id'', PStr demo_uuid),
     (''session_id'', PStr demo_uuid)] @ entries demo_selection @ [(''runtime_sha256'', PStr demo_hash), (''runtimes'', demo_runtimes)])"

definition demo_ledger :: routing_ledger where
  "demo_ledger = \<lparr>led_selection = demo_selection, led_identity = demo_identity,
      led_caps = (case budgets_of (PStr ''ordinary'') of Inr b \<Rightarrow> b | Inl _ \<Rightarrow> \<lparr>budget_actions = 0, budget_counter = \<lambda>_. 0\<rparr>), led_elapsed = 0,
      led_sequences = (\<lambda>_. 0), led_arms = 0, led_counters = (\<lambda>_. 0), led_actions = [],
      led_active = None, led_connection = None, led_admission = None, led_events = [],
      led_terminal = False, led_reason = None\<rparr>"

lemma demo_selection_valid: "validate_selection demo_env demo_selection = Inr demo_selection"
  by (simp add: validate_selection_def demo_selection_def selection_def budgets_of_def case_map_def Let_def
    same_fields_def SELECTION_FIELDS_def item_PDict fields_of_def has_key_def BUDGET_CASES_def digest_def demo_env_def)

lemma demo_runtimes_valid: "validate_runtime_digests demo_runtimes = Inr demo_runtimes" by code_simp

lemma demo_selection_items: "is_dict demo_selection" "item demo_selection ''budget_case'' = PStr ''ordinary''"
  "fields_of demo_selection = SELECTION_FIELDS"
  by (simp_all add: demo_selection_def item_PDict fields_of_def SELECTION_FIELDS_def)

lemma demo_identity_items: "is_dict demo_identity" "item demo_identity ''version'' = PStr ''1''" "item demo_identity ''profile'' = PStr PROFILE"
  "item demo_identity ''instance_id'' = PStr demo_uuid" "item demo_identity ''session_id'' = PStr demo_uuid"
  "item demo_identity ''runtime_sha256'' = PStr demo_hash" "item demo_identity ''runtimes'' = demo_runtimes"
  "PDict (map (\<lambda>k. (k, item demo_identity k)) SELECTION_FIELDS) = demo_selection"
  "fields_of demo_identity = [''version'', ''profile'', ''instance_id'', ''session_id''] @ SELECTION_FIELDS @ [''runtime_sha256'', ''runtimes'']"
  by (simp_all add: demo_identity_def demo_selection_def item_PDict fields_of_def SELECTION_FIELDS_def)

lemma demo_identity_valid: "validate_identity demo_env (Some demo_selection) demo_identity = Inr demo_identity"
proof -
  have 0: "item demo_identity ''selection_version'' = PNone" by (simp add: demo_identity_def demo_selection_def item_PDict)
  have 1: "selection_from_identity demo_env demo_identity = Inr demo_selection"
    unfolding selection_from_identity_def 
    by (simp add: Let_def has_key_def demo_identity_items 0 demo_selection_valid) (simp add: SELECTION_FIELDS_def MATRIX_SELECTION_FIELDS_def DEPLOYMENT_SELECTION_FIELDS_def has_key_def demo_identity_items)
  have 2: "is_uuid demo_uuid" by code_simp
  have 3: "is_hash demo_hash" by code_simp
  show ?thesis unfolding validate_identity_def 1
    by (simp add: demo_selection_valid demo_identity_items demo_selection_items same_fields_def has_key_def 2 3 demo_runtimes_valid) (simp add: SELECTION_FIELDS_def)
qed

lemma demo_start: "new_ledger demo_env demo_selection demo_identity = Inr demo_ledger"
  by (simp add: new_ledger_def demo_selection_valid demo_identity_valid budgets_for_def demo_ledger_def demo_selection_items budgets_of_def BUDGET_CASES_def)

definition demo_message :: "string \<Rightarrow> int \<Rightarrow> (string \<times> pyval) list \<Rightarrow> pyval" where
  "demo_message operation n extra = PDict ([(''operation'', PStr operation), (''sequence'', PInt n), (''action_sequence'', PInt 1), (''action_digest'', PStr demo_hash)] @ extra)"

definition demo_calls :: "(int \<times> string \<times> pyval) list" where
  "demo_calls = [(1000, ''launcher'', demo_message ''ARM'' 1 [(''selector'', PStr ''http_nmap''), (''runtime_digests'', item demo_runtimes ''http_nmap'')]),
     (2000, ''http_frontend'', demo_message ''RESERVE_CONNECTION'' 1 [(''local_id'', PInt 1)]),
     (3000, ''http_frontend'', demo_message ''RESERVE_REQUEST'' 2 [(''lease'', PStr demo_hash), (''kind'', PStr ''http'')])]"

definition demo_run :: "routing_ledger" where
  "demo_run = fold (\<lambda>(us, role, m) s. snd (apply_message demo_env (Some us) m (PStr role) s)) demo_calls demo_ledger"

definition demo_facts :: "routing_ledger \<Rightarrow> bool" where
  "demo_facts s \<longleftrightarrow> \<not> led_terminal s \<and> led_counters s Connections = 1 \<and> led_counters s Output_bytes = 8192
     \<and> event_count s = 3 \<and> admissions (led_events s) = [2000]
     \<and> map act_deadline (led_actions s) = [5001000] \<and> led_active s = Some 0"

lemma demo_run_facts: "demo_facts demo_run"
  by code_simp

lemma demo_run_steps: "(ledger_step demo_env)\<^sup>*\<^sup>* demo_ledger demo_run"
proof -
  have "(ledger_step demo_env)\<^sup>*\<^sup>* s (fold (\<lambda>(us, role, m) s. snd (apply_message demo_env (Some us) m (PStr role) s)) calls s)"
    for calls s
  proof (induction calls arbitrary: s)
    case (Cons c calls)
    obtain us role m where c: "c = (us, role, m)" by (cases c)
    show ?case
      using Cons.IH [of "snd (apply_message demo_env (Some us) m (PStr role) s)"]
      by (simp add: c) (rule converse_rtranclp_into_rtranclp, rule step_apply, assumption)
  qed simp
  then show ?thesis by (simp add: demo_run_def)
qed

lemma demo_ledger_start: "ledger_start demo_env demo_ledger"
  using demo_start by (auto simp: ledger_start_def)

section \<open>Late messages\<close>

definition late :: "int \<Rightarrow> routing_ledger \<Rightarrow> bool" where
  "late us s \<longleftrightarrow> SESSION_US \<le> us \<or> (\<exists>a. active_action s = Some a \<and> act_deadline a \<le> us)"

lemma late_time_check:
  "late us s \<Longrightarrow> active_action u = active_action s \<Longrightarrow> \<exists>r. time_check (min SESSION_US us) u = Inl r"
  by (auto simp: late_def time_check_def require_def min_def)

lemma late_check_deadline:
  assumes "late us s"
  shows "led_terminal (check_deadline (Some us) s)"
proof (cases "now (Some us) s")
  case (Inl r)
  then show ?thesis by (simp add: check_deadline_def clock_stop_def)
next
  case (Inr u)
  then have u: "u = s\<lparr>led_elapsed := min SESSION_US us\<rparr>" by (simp add: now_Inr)
  have "active_action u = active_action s" by (simp add: u active_action_def)
  then obtain r where "time_check (led_elapsed u) u = Inl r" using late_time_check [OF assms] by (force simp: u)
  then show ?thesis using Inr by (simp add: check_deadline_def clock_stop_def)
qed

lemma attempt_late:
  assumes late: "late us s" and run: "attempt env cleanup (Some us) m role s = Inr (t, l, w)"
    and live: "\<not> led_terminal s"
  shows "cleanup \<and> led_terminal t"
proof -
  from run obtain u where u: "now (Some us) s = Inr u" by (auto simp: attempt_def split: sum.splits)
  from run u obtain operation v where v: "read_message m role u = Inr (operation, v)"
    by (auto simp: attempt_def split: sum.splits)
  have op: "item m ''operation'' = PStr operation" using read_message_Inr [OF v] by simp
  have same: "active_action v = active_action s" "led_elapsed v = min SESSION_US us" "\<not> led_terminal v"
    using u read_message_Inr [OF v] live by (auto simp: now_Inr active_action_def)
  then obtain r where r: "time_check (led_elapsed v) v = Inl r" using late_time_check [OF late] by force
  have "after_message env cleanup operation m role v = Inr (t, l, w)" using run u v by (simp add: attempt_def)
  then have c: cleanup "execute env operation m role (led_elapsed v) (clock_stop r v) = Inr (t, l, w)"
    using r same(3) by (auto simp: after_message_def Let_def split: if_splits sum.splits)
  then show ?thesis
    using execute_advances [OF c(2) op] by (simp add: advances_def clock_stop_def)
qed

definition grants_nothing :: "routing_ledger \<Rightarrow> routing_ledger \<Rightarrow> bool" where
  "grants_nothing s t \<longleftrightarrow> led_terminal t \<and> led_counters t = led_counters s
     \<and> led_arms t = led_arms s \<and> led_admission t = led_admission s"

lemma grants_nothing_simps:
  "grants_nothing s t \<Longrightarrow> grants_nothing s (add_event e t)"
  "led_counters t = led_counters s \<Longrightarrow> led_arms t = led_arms s \<Longrightarrow> led_admission t = led_admission s
    \<Longrightarrow> grants_nothing s (stop r t)"
  by (simp_all add: grants_nothing_def)

lemma answer_late:
  assumes "late us s" and "led_terminal s \<longrightarrow> is_cleanup m"
  shows "grants_nothing s (snd (answer m role (attempt env (is_cleanup m) (Some us) m role s)))"
proof (cases "attempt env (is_cleanup m) (Some us) m role s")
  case (Inl p)
  obtain reason t where p: "p = (reason, t)" by (cases p)
  have "idles s t" by (rule attempt_Inl [OF Inl [unfolded p]])
  then show ?thesis
    unfolding answer_def Inl p sum.case prod.case Let_def snd_conv
    by (intro grants_nothing_simps) (simp_all add: idles_def)
next
  case (Inr p)
  obtain t l w where p: "p = (t, l, w)" by (cases p)
  note run = Inr [unfolded p]
  have c: "is_cleanup m" using attempt_late [OF assms(1) run] assms(2) by blast
  from run have "grants_nothing s t"
  proof (rule attempt_Inr)
    fix operation u assume i: "idles s u" and a: "advances m (led_elapsed u) u t w"
    have "led_terminal t"
      using attempt_late [OF assms(1) run] i a by (cases "led_terminal s") (auto simp: idles_def advances_def)
    then show ?thesis using i a cleanup_amount [OF c]
      by (auto simp: grants_nothing_def idles_def advances_def)
  qed
  then show ?thesis
    unfolding answer_def Inr p sum.case prod.case Let_def snd_conv by (rule grants_nothing_simps)
qed

lemma check_deadline_keeps:
  "led_counters (check_deadline clk s) = led_counters s \<and> led_arms (check_deadline clk s) = led_arms s
    \<and> led_admission (check_deadline clk s) = led_admission s"
  by (auto simp: check_deadline_def clock_stop_def now_Inr split: sum.splits)

lemma terminate_late: "late us s \<Longrightarrow> grants_nothing s (snd (terminate (Some us) (PStr ''owner_protocol_error'') s))"
  using late_check_deadline [of us s] check_deadline_keeps [of "Some us" s]
  by (simp add: terminate_def Let_def grants_nothing_def EXTERNAL_STOP_REASONS_def)

lemma apply_late: "late us s \<Longrightarrow> grants_nothing s (snd (apply_message env (Some us) m role s))"
  using answer_late [of us s m "the_str role" env] terminate_late [of us s]
  by (auto simp: apply_message_def capacity_stop_def grants_nothing_def split: prod.splits)

section \<open>Properties\<close>

lemma runs_ok: "ledger_start env s \<Longrightarrow> (ledger_step env)\<^sup>*\<^sup>* s t \<Longrightarrow> ledger_ok t \<and> later s t"
  using routing.steps_inv routing.steps_rel ledger_start_ok by blast

text \<open>C25: Along every run of the owner's calls on a new ledger (messages of any content on any
  channel, clock polls, terminations) each aggregate counter equals the sum of the counters of
  the actions and stays within the budget the selection fixed, each action stays within the
  bounds of its selector, no selector is armed twice and at most four actions are armed.\<close>

theorem routing_budgets_hold:
  assumes "ledger_start env s" and "(ledger_step env)\<^sup>*\<^sup>* s t"
  shows "(\<forall>c. led_counters t c = sum_list (map (\<lambda>a. act_counters a c) (led_actions t))
            \<and> led_counters t c \<le> budget_counter (led_caps s) c)
       \<and> (\<forall>a \<in> set (led_actions t). \<forall>c. 0 \<le> act_counters a c \<and> act_counters a c \<le> action_bounds (act_selector a) c)
       \<and> distinct (map act_selector (led_actions t)) \<and> length (led_actions t) \<le> 4"
  using runs_ok [OF assms]
  by (auto simp: ledger_ok_def core_ok_def accounts_ok_def actions_ok_def later_def spent_def within_bounds_def)

theorem routing_budgets_hold_witness:
  "led_counters demo_run Connections = 1 \<and> led_counters demo_run Connections \<le> budget_counter (led_caps demo_ledger) Connections
     \<and> length (led_actions demo_run) \<le> 4"
  using routing_budgets_hold [OF demo_ledger_start demo_run_steps] demo_run_facts
  unfolding demo_facts_def by blast

text \<open>The event log accounts for every reservation: in every reachable ledger each counter is
  the sum of what the granted messages of the log reserve, the admitted connections of the log
  are at least 250 milliseconds apart, and the log never holds more than 1024 events.\<close>

theorem routing_log_accounts:
  assumes "ledger_start env s" and "(ledger_step env)\<^sup>*\<^sup>* s t"
  shows "(\<forall>c. led_counters t c = sum_list (map (event_amount c) (led_events t)))
       \<and> sorted_wrt (\<lambda>a b. a + 250000 \<le> b) (admissions (led_events t))
       \<and> int (length (led_events t)) \<le> 1024"
  using runs_ok [OF assms]
  by (auto simp: ledger_ok_def log_ok_def logged_def spaced_def event_count_def MAX_EVENTS_def
      CLEANUP_EVENT_RESERVE_def split: if_splits)

theorem routing_log_accounts_witness:
  "sum_list (map (event_amount Output_bytes) (led_events demo_run)) = 8192 \<and> admissions (led_events demo_run) = [2000]"
  using routing_log_accounts [OF demo_ledger_start demo_run_steps] demo_run_facts
  by (simp add: demo_facts_def)

text \<open>C26: A stopped ledger never grants anything again: whatever calls follow, the ledger stays
  stopped for the same reason with the same counters, armed actions and last admission, and a
  message that is not a cleanup operation raises and leaves the ledger as it is.\<close>

theorem routing_stop_is_final:
  assumes "ledger_start env s0" and "(ledger_step env)\<^sup>*\<^sup>* s0 s" and "led_terminal s"
    and "(ledger_step env)\<^sup>*\<^sup>* s t"
  shows "led_terminal t \<and> led_reason t = led_reason s \<and> led_counters t = led_counters s
       \<and> led_arms t = led_arms s \<and> led_admission t = led_admission s
       \<and> (\<not> is_cleanup m \<longrightarrow> (\<exists>e. apply_message env clk m role t = (Inl e, t)))"
proof -
  have "later s t" using routing.steps_rel assms(4) runs_ok [OF assms(1,2)] by blast
  then show ?thesis using assms(3)
    by (auto simp: later_def apply_message_def terminate_def check_deadline_def Let_def)
qed

lemma demo_cancelled:
  "led_terminal (snd (terminate None (PStr ''cancelled'') demo_run))"
  "led_counters (snd (terminate None (PStr ''cancelled'') demo_run)) = led_counters demo_run"
  by (simp_all add: terminate_def check_deadline_def now_def clock_stop_def EXTERNAL_STOP_REASONS_def Let_def)

lemma demo_cancelled_steps:
  "(ledger_step demo_env)\<^sup>*\<^sup>* demo_ledger (snd (terminate None (PStr ''cancelled'') demo_run))"
  by (rule rtranclp.rtrancl_into_rtrancl, rule demo_run_steps, rule step_terminate)

theorem routing_stop_is_final_witness:
  "led_counters (snd (terminate None (PStr ''cancelled'') demo_run)) Connections = 1
    \<and> (\<exists>e. apply_message demo_env (Some 9000) (demo_message ''RESERVE_CONNECTION'' 3 [(''local_id'', PInt 2)])
          (PStr ''http_frontend'') (snd (terminate None (PStr ''cancelled'') demo_run))
          = (Inl e, snd (terminate None (PStr ''cancelled'') demo_run)))"
proof -
  have "\<not> is_cleanup (demo_message ''RESERVE_CONNECTION'' 3 [(''local_id'', PInt 2)])"
    by (simp add: is_cleanup_def demo_message_def item_PDict CLEANUP_OPERATIONS_def)
  then show ?thesis
    using routing_stop_is_final [OF demo_ledger_start demo_cancelled_steps demo_cancelled(1), where
        t = "snd (terminate None (PStr ''cancelled'') demo_run)"] demo_cancelled demo_run_facts
    unfolding demo_facts_def by (metis rtranclp.rtrancl_refl)
qed

text \<open>Deadlines bind every call: once the clock reads at or past the deadline of the active
  action (or of the session), any message on any channel leaves the ledger stopped with no
  counter, armed action or admission changed, and the owner's own poll stops it too.\<close>

theorem routing_deadline_stops:
  assumes "SESSION_US \<le> us \<or> (\<exists>a. active_action s = Some a \<and> act_deadline a \<le> us)"
    and "apply_message env (Some us) m role s = (result, t)"
  shows "led_terminal t \<and> led_counters t = led_counters s \<and> led_arms t = led_arms s
       \<and> led_admission t = led_admission s \<and> led_terminal (check_deadline (Some us) s)"
  using apply_late [of us s env m role] late_check_deadline [of us s] assms
  by (simp add: late_def grants_nothing_def)

theorem routing_deadline_stops_witness:
  "led_terminal (snd (apply_message demo_env (Some 5001000) PNone (PStr ''launcher'') demo_run))"
proof -
  obtain a where "active_action demo_run = Some a" "act_deadline a = 5001000"
    using demo_run_facts by (auto simp: demo_facts_def active_action_def)
  then show ?thesis
    using routing_deadline_stops [of 5001000 demo_run demo_env PNone "PStr ''launcher''"]
    by (metis order_refl prod.collapse)
qed

text \<open>C34: What the ledger answers is what its clients accept: every reply of \<open>apply\<close> on a
  reachable ledger passes \<open>validate_reply\<close> for the same message and role and is returned
  unchanged, for any message and any hash function with 64 hexadecimal digits.\<close>

theorem routing_replies_validate:
  assumes "ledger_start env s0" and "(ledger_step env)\<^sup>*\<^sup>* s0 s" and "\<And>x. is_hash (sha env x)"
    and "apply_message env clk m role s = (Inr v, t)"
  shows "validate_reply v m (the_str role) = Inr v"
proof -
  have "core_ok s" using runs_ok [OF assms(1,2)] by (simp add: ledger_ok_def)
  moreover have "lease_ok s" by (rule runs_lease [OF assms(2,1,3)])
  moreover obtain reply where "answer m (the_str role) (attempt env (is_cleanup m) clk m (the_str role) s) = (reply, t)"
    and "v = with_snapshot env reply t" and "the_str role \<in> set ROLES"
    using assms(4) by (auto simp: apply_message_def split: if_splits prod.splits elim!: str_inE)
  ultimately show ?thesis using answer_validates [OF refl] assms(3) by blast
qed

lemma demo_sha: "is_hash (sha demo_env x)"
  by (simp add: demo_env_def) code_simp

lemma demo_first_reply:
  "\<not> isl (fst (apply_message demo_env None (demo_message ''STOP'' 1 []) (PStr ''launcher'') demo_ledger))"
  by code_simp

theorem routing_replies_validate_witness:
  "\<exists>v. fst (apply_message demo_env None (demo_message ''STOP'' 1 []) (PStr ''launcher'') demo_ledger) = Inr v
     \<and> validate_reply v (demo_message ''STOP'' 1 []) ''launcher'' = Inr v"
proof -
  let ?r = "apply_message demo_env None (demo_message ''STOP'' 1 []) (PStr ''launcher'') demo_ledger"
  obtain v where v: "fst ?r = Inr v" using demo_first_reply by (cases "fst ?r") auto
  have "?r = (Inr v, snd ?r)" by (simp flip: v)
  then have "validate_reply v (demo_message ''STOP'' 1 []) (the_str (PStr ''launcher'')) = Inr v"
    by (rule routing_replies_validate [OF demo_ledger_start rtranclp.rtrancl_refl demo_sha])
  then show ?thesis using v by simp
qed

end
