(* ===== verification/OperatorScope.thy ===== *)
theory OperatorScope
  imports PyData
begin

text \<open>
  The operator's declaration of two owned endpoints (\<open>secure_agent/configurable_scope.py\<close>):
  private IPv4 targets, unprivileged ports, a restricted HTTP path and the scope identifier.
  A validated document is the record \<open>scope\<close>; \<open>scope_json\<close> is the dictionary the validator
  returns. \<open>ipaddress.IPv4Address\<close> is read as four decimal octets without leading zeros.
\<close>

section \<open>Addresses\<close>

definition octet :: "string \<Rightarrow> int option" where
  "octet s = (if s \<noteq> [] \<and> length s \<le> 3 \<and> list_all is_digit s \<and> (length s = 1 \<or> hd s \<noteq> CHR ''0'')
     \<and> read_nat 0 s \<le> 255 then Some (int (read_nat 0 s)) else None)"

definition ipv4 :: "string \<Rightarrow> (int \<times> int \<times> int \<times> int) option" where
  "ipv4 s = (case map octet (split_on (CHR ''.'') s) of
     [Some a, Some b, Some c, Some d] \<Rightarrow> Some (a, b, c, d) | _ \<Rightarrow> None)"

text \<open>The networks 10.0.0.0/8, 172.16.0.0/12 and 192.168.0.0/16.\<close>

definition is_private :: "int \<times> int \<times> int \<times> int \<Rightarrow> bool" where
  "is_private addr = (case addr of (a, b, c, d) \<Rightarrow>
     a = 10 \<or> (a = 172 \<and> 16 \<le> b \<and> b \<le> 31) \<or> (a = 192 \<and> b = 168))"

definition target_ok :: "string \<Rightarrow> bool" where
  "target_ok s = (case ipv4 s of None \<Rightarrow> False | Some addr \<Rightarrow> is_private addr)"

definition check_target :: "pyval \<Rightarrow> string + string" where
  "check_target v = (case v of
     PStr s \<Rightarrow> bindE (require (target_ok s) ''invalid_configurable_scope_target'') (\<lambda>_. Inr s)
   | _ \<Rightarrow> Inl ''invalid_configurable_scope_target'')"

section \<open>Endpoints\<close>

definition path_char :: "char \<Rightarrow> bool" where
  "path_char c \<longleftrightarrow> is_alnum c \<or> c \<in> set ''._~/-''"

fun double_slash :: "string \<Rightarrow> bool" where
  "double_slash (c # d # cs) = (c = CHR ''/'' \<and> d = CHR ''/'' \<or> double_slash (d # cs))"
| "double_slash _ = False"

definition path_ok :: "string \<Rightarrow> bool" where
  "path_ok p \<longleftrightarrow> 1 \<le> length p \<and> length p \<le> 128 \<and> hd p = CHR ''/'' \<and> list_all path_char p
     \<and> \<not> double_slash p \<and> \<not> list_ex (\<lambda>part. part \<in> {''.'', ''..''}) (split_on (CHR ''/'') p)"

definition port_ok :: "int \<Rightarrow> bool" where
  "port_ok p \<longleftrightarrow> 1024 \<le> p \<and> p \<le> 65534"

record endpoint =
  ep_target :: string
  ep_port :: int
  ep_path :: "string option"

definition check_endpoint :: "pyval \<Rightarrow> bool \<Rightarrow> string + endpoint" where
  "check_endpoint v http =
    bindE (require (is_dict v \<and> same_fields v (if http then [''target'', ''port'', ''path''] else [''target'', ''port'']))
      ''invalid_configurable_scope_endpoint'') (\<lambda>_.
    bindE (check_target (item v ''target'')) (\<lambda>target.
    bindE (require (int_in 1024 65534 (item v ''port'')) ''invalid_configurable_scope_port'') (\<lambda>_.
    let port = the_int (item v ''port'') in
    if http then
      bindE (require (is_str (item v ''path'') \<and> path_ok (the_str (item v ''path'')))
        ''invalid_configurable_scope_path'') (\<lambda>_.
      Inr \<lparr>ep_target = target, ep_port = port, ep_path = Some (the_str (item v ''path''))\<rparr>)
    else Inr \<lparr>ep_target = target, ep_port = port, ep_path = None\<rparr>)))"

definition endpoint_json :: "endpoint \<Rightarrow> pyval" where
  "endpoint_json e = PDict ([(''target'', PStr (ep_target e)), (''port'', PInt (ep_port e))]
     @ (case ep_path e of None \<Rightarrow> [] | Some p \<Rightarrow> [(''path'', PStr p)]))"

section \<open>Scopes\<close>

record scope =
  sc_id :: string
  sc_http :: endpoint
  sc_ssh :: endpoint

text \<open>\<open>[a-z0-9]+(?:-[a-z0-9]+)*\<close>, at most 48 characters.\<close>

definition scope_id_ok :: "string \<Rightarrow> bool" where
  "scope_id_ok s \<longleftrightarrow> 1 \<le> length s \<and> length s \<le> 48
     \<and> list_all (\<lambda>w. w \<noteq> [] \<and> list_all (\<lambda>c. is_lower c \<or> is_digit c) w) (split_on (CHR ''-'') s)"

definition validate_scope :: "pyval \<Rightarrow> string + scope" where
  "validate_scope v =
    bindE (require (is_dict v \<and> same_fields v [''schema_version'', ''scope_id'', ''http'', ''ssh'']
       \<and> item v ''schema_version'' = PStr ''1'') ''invalid_configurable_scope'') (\<lambda>_.
    bindE (require (is_str (item v ''scope_id'') \<and> scope_id_ok (the_str (item v ''scope_id'')))
      ''invalid_configurable_scope_id'') (\<lambda>_.
    bindE (check_endpoint (item v ''http'') True) (\<lambda>http.
    bindE (check_endpoint (item v ''ssh'') False) (\<lambda>ssh.
    bindE (require ((ep_target http, ep_port http) \<noteq> (ep_target ssh, ep_port ssh))
      ''configurable_scope_endpoints_collide'') (\<lambda>_.
    Inr \<lparr>sc_id = the_str (item v ''scope_id''), sc_http = http, sc_ssh = ssh\<rparr>)))))"

definition scope_json :: "scope \<Rightarrow> pyval" where
  "scope_json s = PDict [(''schema_version'', PStr ''1''), (''scope_id'', PStr (sc_id s)),
     (''http'', endpoint_json (sc_http s)), (''ssh'', endpoint_json (sc_ssh s))]"

definition encode_scope :: "pyval \<Rightarrow> string + string" where
  "encode_scope v = bindE (validate_scope v) (\<lambda>s. Inr (canonical (scope_json s)))"

definition scope_digest :: "(string \<Rightarrow> string) \<Rightarrow> pyval \<Rightarrow> string + string" where
  "scope_digest H v = bindE (encode_scope v) (\<lambda>raw. Inr (H raw))"

definition scope_endpoint :: "pyval \<Rightarrow> pyval \<Rightarrow> string + endpoint" where
  "scope_endpoint v name =
    bindE (require (str_in [''http'', ''ssh''] name) ''invalid_configurable_scope_service'') (\<lambda>_.
    bindE (validate_scope v) (\<lambda>s. Inr (if name = PStr ''http'' then sc_http s else sc_ssh s)))"

definition WITNESS_TARGETS :: "string list" where
  "WITNESS_TARGETS = [''10.255.255.254'', ''172.31.255.254'', ''192.168.255.254'']"

text \<open>Other service, wrong address, wrong port; \<open>next\<close> takes the first that is free.\<close>

definition first_free :: "'a list \<Rightarrow> 'a list \<Rightarrow> 'a option" where
  "first_free candidates taken = find (\<lambda>x. x \<notin> set taken) candidates"

definition witness_addresses :: "pyval \<Rightarrow> pyval \<Rightarrow> string + (string \<times> int) list" where
  "witness_addresses v name =
    bindE (validate_scope v) (\<lambda>s.
    bindE (scope_endpoint v name) (\<lambda>current.
    let other = (if name = PStr ''http'' then sc_ssh s else sc_http s);
        next_port = (if ep_port current < 65534 then ep_port current + 1 else 1024)
    in case (first_free WITNESS_TARGETS [ep_target (sc_http s), ep_target (sc_ssh s)],
             first_free [next_port, 1024, 1025, 1026] [ep_port (sc_http s), ep_port (sc_ssh s)]) of
        (Some wrong_ip, Some wrong_port) \<Rightarrow>
          Inr [(ep_target other, ep_port other), (wrong_ip, ep_port current), (ep_target current, wrong_port)]
      | _ \<Rightarrow> Inl ''StopIteration''))"

section \<open>Validated scopes\<close>

definition endpoint_ok :: "bool \<Rightarrow> endpoint \<Rightarrow> bool" where
  "endpoint_ok http e \<longleftrightarrow> target_ok (ep_target e) \<and> port_ok (ep_port e)
     \<and> (case ep_path e of None \<Rightarrow> \<not> http | Some p \<Rightarrow> http \<and> path_ok p)"

definition scope_ok :: "scope \<Rightarrow> bool" where
  "scope_ok s \<longleftrightarrow> scope_id_ok (sc_id s) \<and> endpoint_ok True (sc_http s) \<and> endpoint_ok False (sc_ssh s)
     \<and> (ep_target (sc_http s), ep_port (sc_http s)) \<noteq> (ep_target (sc_ssh s), ep_port (sc_ssh s))"

lemma check_target_Inr: "check_target v = Inr s \<longleftrightarrow> v = PStr s \<and> target_ok s"
  by (cases v) (auto simp: check_target_def res_simps)

lemma check_endpoint_ok: "check_endpoint v http = Inr e \<Longrightarrow> endpoint_ok http e"
  by (auto simp: check_endpoint_def res_simps Let_def endpoint_ok_def port_ok_def check_target_Inr
      split: if_splits elim!: int_inE)

lemma validate_scope_ok: "validate_scope v = Inr s \<Longrightarrow> scope_ok s"
  by (auto simp: validate_scope_def res_simps scope_ok_def check_endpoint_ok)

lemma check_endpoint_json: "endpoint_ok http e \<Longrightarrow> check_endpoint (endpoint_json e) http = Inr e"
  by (cases e) (auto simp: check_endpoint_def endpoint_json_def item_PDict same_fields_def fields_of_def
      endpoint_ok_def port_ok_def check_target_def split: option.splits)

lemma validate_scope_json: "scope_ok s \<Longrightarrow> validate_scope (scope_json s) = Inr s"
  by (simp add: validate_scope_def scope_json_def item_PDict same_fields_def fields_of_def scope_ok_def
      check_endpoint_json)

lemma first_free_some:
  assumes "length taken < card (set candidates)"
  shows "\<exists>x. first_free candidates taken = Some x \<and> x \<in> set candidates \<and> x \<notin> set taken"
proof -
  have "\<not> set candidates \<subseteq> set taken"
  proof
    assume "set candidates \<subseteq> set taken"
    then have "card (set candidates) \<le> card (set taken)" by (intro card_mono) auto
    then show False using assms card_length [of taken] by simp
  qed
  then obtain y where "y \<in> set candidates" "y \<notin> set taken" by auto
  then have "first_free candidates taken \<noteq> None" by (auto simp: first_free_def find_key_None)
  then obtain x where "first_free candidates taken = Some x" by auto
  then show ?thesis using find_key_Some [of "\<lambda>x. x \<notin> set taken" candidates x] by (simp add: first_free_def)
qed

end
