(* ===== verification/EngagementContract.thy ===== *)
theory EngagementContract
  imports OperatorScope
begin

text \<open>
  The engagement record of \<open>secure_agent/engagement_contract.py\<close>: rules of engagement, requests
  and receipts, and the export that replays every transition. Validators take untrusted Python
  values and return records (\<open>roe\<close>, \<open>eng_request\<close>, \<open>eng_export\<close>); \<open>*_json\<close> is the dictionary
  the code returns. Errors are the module's public codes. \<open>H\<close> is SHA-256 over the text with its
  domain prefix. The two-second deadlines of the module are not part of these functions; the
  store's model takes them as failures of a call.
\<close>

section \<open>Bounded values\<close>

definition MAX_ROE_BYTES :: int where "MAX_ROE_BYTES = 4096"
definition MAX_REQUEST_BYTES :: int where "MAX_REQUEST_BYTES = 8192"
definition MAX_EXPORT_BYTES :: int where "MAX_EXPORT_BYTES = 524288"
definition MAX_DEPTH :: int where "MAX_DEPTH = 12"
definition MAX_REVISIONS :: int where "MAX_REVISIONS = 64"
definition MAX_RECORD_EVENTS :: int where "MAX_RECORD_EVENTS = 65"

definition invalid_input :: string where "invalid_input = ''engagement_invalid_input''"
definition limit_exceeded :: string where "limit_exceeded = ''engagement_limit_exceeded''"

text \<open>
  \<open>_tree\<close>: the traversal that counts units of work (\<open>units\<close>) and nesting (\<open>depth\<close>) before a
  value is encoded.
\<close>

definition spend :: "int \<Rightarrow> int \<Rightarrow> string + int" where
  "spend n units = (if units + n > MAX_EXPORT_BYTES then Inl limit_exceeded else Inr (units + n))"

function bit_length :: "int \<Rightarrow> int" where
  "bit_length i = (if i \<le> 0 then 0 else 1 + bit_length (i div 2))"
  by pat_completeness auto

termination by (relation "measure nat") auto

declare bit_length.simps [simp del]

fun tree :: "int \<Rightarrow> pyval \<Rightarrow> int \<Rightarrow> string + int"
  and tree_list :: "int \<Rightarrow> pyval list \<Rightarrow> int \<Rightarrow> string + int"
  and tree_dict :: "int \<Rightarrow> (string \<times> pyval) list \<Rightarrow> int \<Rightarrow> string + int" where
  "tree depth PNone units = spend 1 units"
| "tree depth (PBool b) units = spend 1 units"
| "tree depth (PInt i) units = bindE (spend 1 units) (\<lambda>u.
     if bit_length \<bar>i\<bar> > MAX_EXPORT_BYTES * 4 then Inl limit_exceeded else Inr u)"
| "tree depth (PStr s) units = bindE (spend 1 units) (spend (int (length s)))"
| "tree depth (PList xs) units = bindE (spend 1 units) (\<lambda>u.
     if depth + 1 > MAX_DEPTH \<or> int (length xs) > MAX_EXPORT_BYTES then Inl limit_exceeded
     else tree_list (depth + 1) xs u)"
| "tree depth (PDict kvs) units = bindE (spend 1 units) (\<lambda>u.
     if depth + 1 > MAX_DEPTH \<or> int (length kvs) > MAX_EXPORT_BYTES then Inl limit_exceeded
     else tree_dict (depth + 1) kvs u)"
| "tree_list depth [] units = Inr units"
| "tree_list depth (x # xs) units = bindE (tree depth x units) (tree_list depth xs)"
| "tree_dict depth [] units = Inr units"
| "tree_dict depth (kv # kvs) units = bindE (spend (int (length (fst kv))) units) (\<lambda>u.
     bindE (tree depth (snd kv) u) (tree_dict depth kvs))"

definition canonical_bytes :: "pyval \<Rightarrow> string + string" where
  "canonical_bytes v = bindE (tree 0 v 0) (\<lambda>_.
     let raw = canonical v in
     bindE (require (int (length raw) \<le> MAX_EXPORT_BYTES) limit_exceeded) (\<lambda>_. Inr raw))"

text \<open>\<open>_bounded\<close> returns \<open>json.loads\<close> of the canonical text: the value with sorted keys.\<close>

definition bounded :: "int \<Rightarrow> pyval \<Rightarrow> string + pyval" where
  "bounded limit v = bindE (canonical_bytes v) (\<lambda>raw.
     bindE (require (int (length raw) \<le> limit) limit_exceeded) (\<lambda>_. Inr (sort_keys v)))"

section \<open>Field validators\<close>

definition object :: "pyval \<Rightarrow> string list \<Rightarrow> string + unit" where
  "object v names = require (is_dict v \<and> same_fields v names) invalid_input"

definition literal :: "pyval \<Rightarrow> string \<Rightarrow> string + unit" where
  "literal v expected = require (v = PStr expected) invalid_input"

definition ranged :: "pyval \<Rightarrow> int \<Rightarrow> int \<Rightarrow> string + int" where
  "ranged v low high = bindE (require (int_in low high v) invalid_input) (\<lambda>_. Inr (the_int v))"

definition is_uuid4 :: "string \<Rightarrow> bool" where
  "is_uuid4 s \<longleftrightarrow> (case split_on (CHR ''-'') s of
     [a, b, c, d, e] \<Rightarrow> length a = 8 \<and> length b = 4 \<and> length c = 4 \<and> length d = 4 \<and> length e = 12
       \<and> list_all (list_all is_hex) [a, b, c, d, e] \<and> hd c = CHR ''4'' \<and> hd d \<in> set ''89ab''
   | _ \<Rightarrow> False)"

definition uuid :: "pyval \<Rightarrow> string + string" where
  "uuid v = (case v of PStr s \<Rightarrow> bindE (require (is_uuid4 s) invalid_input) (\<lambda>_. Inr s) | _ \<Rightarrow> Inl invalid_input)"

definition digest_field :: "pyval \<Rightarrow> string + string" where
  "digest_field v = (case v of PStr s \<Rightarrow> bindE (require (is_hash s) invalid_input) (\<lambda>_. Inr s) | _ \<Rightarrow> Inl invalid_input)"

definition sequence_of :: "pyval \<Rightarrow> string list \<Rightarrow> nat \<Rightarrow> nat \<Rightarrow> string + string list" where
  "sequence_of v allowed minimum maximum = (case v of
     PList xs \<Rightarrow> bindE (require (minimum \<le> length xs \<and> length xs \<le> maximum \<and> list_all (str_in allowed) xs
        \<and> sorted_wrt (<) (map the_str xs)) invalid_input) (\<lambda>_. Inr (map the_str xs))
   | _ \<Rightarrow> Inl invalid_input)"

text \<open>\<open>_instant\<close>: \<open>20YY-MM-DDTHH:MM:SSZ\<close> naming a real date, as seconds since 2000-01-01.\<close>

definition digits :: "nat \<Rightarrow> nat \<Rightarrow> string \<Rightarrow> int" where
  "digits i n s = int (read_nat 0 (take n (drop i s)))"

definition instant_shape :: "string \<Rightarrow> bool" where
  "instant_shape s \<longleftrightarrow> length s = 20 \<and> take 2 s = ''20''
     \<and> list_all (\<lambda>i. is_digit (s ! i)) [2, 3, 5, 6, 8, 9, 11, 12, 14, 15, 17, 18]
     \<and> s ! 4 = CHR ''-'' \<and> s ! 7 = CHR ''-'' \<and> s ! 10 = CHR ''T'' \<and> s ! 13 = CHR '':'' \<and> s ! 16 = CHR '':''
     \<and> s ! 19 = CHR ''Z''"

definition leap :: "int \<Rightarrow> bool" where
  "leap y \<longleftrightarrow> 4 dvd y \<and> (\<not> 100 dvd y \<or> 400 dvd y)"

definition month_days :: "int \<Rightarrow> int \<Rightarrow> int" where
  "month_days y m = (if m = 2 then (if leap y then 29 else 28) else if m \<in> {4, 6, 9, 11} then 30 else 31)"

definition days_before :: "int \<Rightarrow> int \<Rightarrow> int" where
  "days_before y m = sum_list (map (\<lambda>k. if leap k then 366 else 365) [2000..y - 1])
     + sum_list (map (month_days y) [1..m - 1])"

definition instant_text :: "string \<Rightarrow> string + int" where
  "instant_text s =
    bindE (require (instant_shape s) invalid_input) (\<lambda>_.
    let y = digits 0 4 s; mo = digits 5 2 s; d = digits 8 2 s;
        h = digits 11 2 s; mi = digits 14 2 s; sec = digits 17 2 s in
    bindE (require (1 \<le> mo \<and> mo \<le> 12 \<and> 1 \<le> d \<and> d \<le> month_days y mo \<and> h \<le> 23 \<and> mi \<le> 59 \<and> sec \<le> 59)
      invalid_input) (\<lambda>_.
    Inr (((days_before y mo + d - 1) * 24 + h) * 3600 + mi * 60 + sec)))"

definition instant :: "pyval \<Rightarrow> string + int" where
  "instant v = (case v of PStr s \<Rightarrow> instant_text s | _ \<Rightarrow> Inl invalid_input)"

definition translate :: "string \<Rightarrow> string + 'a \<Rightarrow> string + 'a" where
  "translate code m = (case m of Inl e \<Rightarrow>
     Inl (if e = limit_exceeded \<or> e = ''engagement_timeout'' then e else code) | Inr x \<Rightarrow> Inr x)"

section \<open>Rules of engagement\<close>

definition PROFILES :: "string list" where
  "PROFILES = [''configurable_http_headers_v1'', ''configurable_nmap_service_v1'', ''configurable_ssh_host_keys_v1'']"

definition ROE_FIELDS :: "string list" where
  "ROE_FIELDS = [''schema_version'', ''mode'', ''scope'', ''allowed_profiles'', ''excluded_services'', ''window'', ''limits'']"

definition LIMITS :: "(string \<times> int) list" where
  "LIMITS = [(''max_actions'', 64), (''max_connections'', 256), (''max_request_bytes'', 1048576),
     (''max_response_bytes'', 1048576), (''max_action_ms'', 60000), (''max_engagement_ms'', 86400000)]"

record roe =
  roe_scope :: scope
  roe_profiles :: "string list"
  roe_excluded :: "string list"
  roe_start :: string
  roe_end :: string
  roe_limits :: "int list"

definition roe_limit :: "roe \<Rightarrow> string \<Rightarrow> int" where
  "roe_limit r k = the (map_of (zip (map fst LIMITS) (roe_limits r)) k)"

definition roe_json :: "roe \<Rightarrow> pyval" where
  "roe_json r = PDict [(''schema_version'', PStr ''1''), (''mode'', PStr ''disconnected_owned''),
     (''scope'', scope_json (roe_scope r)), (''allowed_profiles'', PList (map PStr (roe_profiles r))),
     (''excluded_services'', PList (map PStr (roe_excluded r))),
     (''window'', PDict [(''start_utc'', PStr (roe_start r)), (''end_utc'', PStr (roe_end r))]),
     (''limits'', PDict (zip (map fst LIMITS) (map PInt (roe_limits r))))]"

definition roe_body :: "pyval \<Rightarrow> string + roe" where
  "roe_body v =
    bindE (object v ROE_FIELDS) (\<lambda>_.
    bindE (literal (item v ''schema_version'') ''1'') (\<lambda>_.
    bindE (literal (item v ''mode'') ''disconnected_owned'') (\<lambda>_.
    bindE (case validate_scope (item v ''scope'') of Inl _ \<Rightarrow> Inl invalid_input | Inr s \<Rightarrow> Inr s) (\<lambda>scope.
    bindE (sequence_of (item v ''allowed_profiles'') PROFILES 1 3) (\<lambda>profiles.
    bindE (sequence_of (item v ''excluded_services'') [''http'', ''ssh''] 0 1) (\<lambda>exclusions.
    let window = item v ''window'' in
    bindE (object window [''start_utc'', ''end_utc'']) (\<lambda>_.
    bindE (instant (item window ''end_utc'')) (\<lambda>stop.
    bindE (instant (item window ''start_utc'')) (\<lambda>start.
    let duration = stop - start in
    bindE (require (0 < duration \<and> duration \<le> 86400) invalid_input) (\<lambda>_.
    bindE (object (item v ''limits'') (map fst LIMITS)) (\<lambda>_.
    bindE (mapE (\<lambda>(key, high). ranged (item (item v ''limits'') key) 1 high) LIMITS) (\<lambda>limits.
    let r = \<lparr>roe_scope = scope, roe_profiles = profiles, roe_excluded = exclusions,
        roe_start = the_str (item window ''start_utc''), roe_end = the_str (item window ''end_utc''),
        roe_limits = limits\<rparr> in
    bindE (require (roe_limit r ''max_action_ms'' \<le> roe_limit r ''max_engagement_ms''
        \<and> roe_limit r ''max_engagement_ms'' \<le> duration * 1000) invalid_input) (\<lambda>_.
    Inr r)))))))))))))"

definition validate_roe :: "pyval \<Rightarrow> string + roe" where
  "validate_roe v = translate ''engagement_invalid_roe'' (bindE (bounded MAX_ROE_BYTES v) roe_body)"

definition ROE_DOMAIN :: string where
  "ROE_DOMAIN = ''recon-engagement-roe-v1'' @ [CHR 0x00]"

definition REQUEST_DOMAIN :: string where
  "REQUEST_DOMAIN = ''recon-engagement-request-v1'' @ [CHR 0x00]"

definition roe_digest :: "(string \<Rightarrow> string) \<Rightarrow> pyval \<Rightarrow> string + string" where
  "roe_digest H v = bindE (validate_roe v) (\<lambda>r.
     bindE (canonical_bytes (roe_json r)) (\<lambda>raw. Inr (H (ROE_DOMAIN @ raw))))"

section \<open>Requests\<close>

datatype operation = Create | Revise | Revoke

fun operation_name :: "operation \<Rightarrow> string" where
  "operation_name Create = ''create''" | "operation_name Revise = ''revise''" | "operation_name Revoke = ''revoke''"

definition read_operation :: "pyval \<Rightarrow> operation option" where
  "read_operation v = (if v = PStr ''create'' then Some Create else if v = PStr ''revise'' then Some Revise
     else if v = PStr ''revoke'' then Some Revoke else None)"

record eng_request =
  rq_engagement :: string
  rq_event :: string
  rq_operation :: operation
  rq_revision :: "int option"
  rq_generation :: "int option"
  rq_roe :: "roe option"

definition optional :: "('a \<Rightarrow> pyval) \<Rightarrow> 'a option \<Rightarrow> pyval" where
  "optional f v = (case v of None \<Rightarrow> PNone | Some x \<Rightarrow> f x)"

definition request_json :: "eng_request \<Rightarrow> pyval" where
  "request_json r = PDict [(''schema_version'', PStr ''1''), (''engagement_id'', PStr (rq_engagement r)),
     (''event_id'', PStr (rq_event r)), (''operation'', PStr (operation_name (rq_operation r))),
     (''expected_revision'', optional PInt (rq_revision r)), (''expected_generation'', optional PInt (rq_generation r)),
     (''roe'', optional roe_json (rq_roe r))]"

definition REQUEST_FIELDS :: "string list" where
  "REQUEST_FIELDS = [''schema_version'', ''engagement_id'', ''event_id'', ''operation'', ''expected_revision'',
     ''expected_generation'', ''roe'']"

definition request_body :: "pyval \<Rightarrow> string + eng_request" where
  "request_body v =
    bindE (object v REQUEST_FIELDS) (\<lambda>_.
    bindE (literal (item v ''schema_version'') ''1'') (\<lambda>_.
    bindE (uuid (item v ''engagement_id'')) (\<lambda>engagement.
    bindE (uuid (item v ''event_id'')) (\<lambda>event.
    case read_operation (item v ''operation'') of None \<Rightarrow> Inl invalid_input
    | Some operation \<Rightarrow>
      bindE (if operation = Create
         then bindE (require (item v ''expected_revision'' = PNone \<and> item v ''expected_generation'' = PNone)
           invalid_input) (\<lambda>_. Inr (None, None))
         else bindE (ranged (item v ''expected_revision'') 1 MAX_REVISIONS) (\<lambda>revision.
              bindE (ranged (item v ''expected_generation'') 0 MAX_REVISIONS) (\<lambda>generation.
              Inr (Some revision, Some generation)))) (\<lambda>(revision, generation).
      bindE (if operation = Revoke then bindE (require (item v ''roe'' = PNone) invalid_input) (\<lambda>_. Inr None)
         else bindE (validate_roe (item v ''roe'')) (\<lambda>r. Inr (Some r))) (\<lambda>roe.
      Inr \<lparr>rq_engagement = engagement, rq_event = event, rq_operation = operation, rq_revision = revision,
        rq_generation = generation, rq_roe = roe\<rparr>))))))"

definition validate_request :: "pyval \<Rightarrow> string + eng_request" where
  "validate_request v = bindE (bounded MAX_REQUEST_BYTES v) request_body"

definition request_digest :: "(string \<Rightarrow> string) \<Rightarrow> pyval \<Rightarrow> string + string" where
  "request_digest H v = bindE (validate_request v) (\<lambda>r.
     bindE (canonical_bytes (request_json r)) (\<lambda>raw. Inr (H (REQUEST_DOMAIN @ raw))))"

section \<open>Receipts and exports\<close>

record receipt =
  rc_engagement :: string
  rc_event :: string
  rc_sequence :: int
  rc_operation :: operation
  rc_expected_revision :: "int option"
  rc_expected_generation :: "int option"
  rc_revision :: int
  rc_generation :: int
  rc_revoked :: bool
  rc_roe_sha256 :: string
  rc_request_sha256 :: string

definition status_name :: "bool \<Rightarrow> string" where
  "status_name revoked = (if revoked then ''revoked'' else ''recorded'')"

definition RECEIPT_FIELDS :: "string list" where
  "RECEIPT_FIELDS = [''schema_version'', ''engagement_id'', ''event_id'', ''sequence'', ''operation'',
     ''expected_revision'', ''expected_generation'', ''revision'', ''generation'', ''status'', ''roe_sha256'',
     ''request_sha256'']"

definition receipt_json :: "receipt \<Rightarrow> pyval" where
  "receipt_json r = PDict [(''schema_version'', PStr ''1''), (''engagement_id'', PStr (rc_engagement r)),
     (''event_id'', PStr (rc_event r)), (''sequence'', PInt (rc_sequence r)),
     (''operation'', PStr (operation_name (rc_operation r))),
     (''expected_revision'', optional PInt (rc_expected_revision r)),
     (''expected_generation'', optional PInt (rc_expected_generation r)),
     (''revision'', PInt (rc_revision r)), (''generation'', PInt (rc_generation r)),
     (''status'', PStr (status_name (rc_revoked r))), (''roe_sha256'', PStr (rc_roe_sha256 r)),
     (''request_sha256'', PStr (rc_request_sha256 r))]"

type_synonym revision_row = "roe \<times> string"

record eng_export =
  ex_engagement :: string
  ex_revision :: int
  ex_generation :: int
  ex_revoked :: bool
  ex_revisions :: "revision_row list"
  ex_events :: "receipt list"

definition revision_json :: "int \<Rightarrow> revision_row \<Rightarrow> pyval" where
  "revision_json n row = PDict [(''revision'', PInt n), (''roe'', roe_json (fst row)), (''roe_sha256'', PStr (snd row))]"

fun revision_values :: "int \<Rightarrow> revision_row list \<Rightarrow> pyval list" where
  "revision_values n [] = []"
| "revision_values n (row # rows) = revision_json n row # revision_values (n + 1) rows"

definition export_json :: "eng_export \<Rightarrow> pyval" where
  "export_json e = PDict [(''schema_version'', PStr ''1''), (''kind'', PStr ''engagement-record-export''),
     (''engagement_id'', PStr (ex_engagement e)),
     (''state'', PDict [(''revision'', PInt (ex_revision e)), (''generation'', PInt (ex_generation e)),
        (''status'', PStr (status_name (ex_revoked e))), (''last_sequence'', PInt (int (length (ex_events e))))]),
     (''revisions'', PList (revision_values 1 (ex_revisions e))),
     (''events'', PList (map receipt_json (ex_events e)))]"

definition clean_revision :: "(string \<Rightarrow> string) \<Rightarrow> int \<Rightarrow> pyval \<Rightarrow> string + revision_row" where
  "clean_revision H index row =
    bindE (object row [''revision'', ''roe'', ''roe_sha256'']) (\<lambda>_.
    bindE (ranged (item row ''revision'') 1 MAX_REVISIONS) (\<lambda>n.
    bindE (require (n = index) invalid_input) (\<lambda>_.
    bindE (validate_roe (item row ''roe'')) (\<lambda>r.
    bindE (roe_digest H (roe_json r)) (\<lambda>digest.
    bindE (digest_field (item row ''roe_sha256'')) (\<lambda>given.
    bindE (require (given = digest) invalid_input) (\<lambda>_. Inr (r, digest))))))))"

fun clean_revisions :: "(string \<Rightarrow> string) \<Rightarrow> int \<Rightarrow> pyval list \<Rightarrow> string + revision_row list" where
  "clean_revisions H index [] = Inr []"
| "clean_revisions H index (row # rows) =
    bindE (clean_revision H index row) (\<lambda>r.
    bindE (clean_revisions H (index + 1) rows) (\<lambda>rs. Inr (r # rs)))"

text \<open>The state of the replay: the events seen so far and the record's revision, generation and status.\<close>

record replay =
  rp_seen :: "string list"
  rp_revision :: int
  rp_generation :: int
  rp_revoked :: bool

definition replay_start :: replay where
  "replay_start = \<lparr>rp_seen = [], rp_revision = 0, rp_generation = 0, rp_revoked = False\<rparr>"

definition transition :: "int \<Rightarrow> pyval \<Rightarrow> replay \<Rightarrow> string + (operation \<times> int option \<times> int option \<times> replay)" where
  "transition sequence operation s =
    bindE (require (is_str operation \<and> \<not> rp_revoked s) invalid_input) (\<lambda>_.
    if sequence = 1 then
      bindE (require (operation = PStr ''create'') invalid_input) (\<lambda>_.
      Inr (Create, None, None, s\<lparr>rp_revision := 1, rp_generation := 0\<rparr>))
    else if operation = PStr ''revise'' \<and> rp_revision s < MAX_REVISIONS then
      Inr (Revise, Some (rp_revision s), Some (rp_generation s),
        s\<lparr>rp_revision := rp_revision s + 1, rp_generation := rp_generation s + 1\<rparr>)
    else if operation = PStr ''revoke'' then
      Inr (Revoke, Some (rp_revision s), Some (rp_generation s),
        s\<lparr>rp_generation := rp_generation s + 1, rp_revoked := True\<rparr>)
    else Inl invalid_input)"

definition clean_event ::
  "(string \<Rightarrow> string) \<Rightarrow> string \<Rightarrow> revision_row list \<Rightarrow> int \<Rightarrow> pyval \<Rightarrow> replay \<Rightarrow> string + (receipt \<times> replay)" where
  "clean_event H engagement revisions sequence row s =
    bindE (object row RECEIPT_FIELDS) (\<lambda>_.
    bindE (literal (item row ''schema_version'') ''1'') (\<lambda>_.
    bindE (literal (item row ''engagement_id'') engagement) (\<lambda>_.
    bindE (uuid (item row ''event_id'')) (\<lambda>event.
    bindE (require (event \<notin> set (rp_seen s)) invalid_input) (\<lambda>_.
    bindE (ranged (item row ''sequence'') 1 MAX_RECORD_EVENTS) (\<lambda>n.
    bindE (require (n = sequence) invalid_input) (\<lambda>_.
    bindE (transition sequence (item row ''operation'') s) (\<lambda>(operation, exp_revision, exp_generation, t).
    bindE (require (rp_revision t \<le> int (length revisions)) invalid_input) (\<lambda>_.
    let current = revisions ! nat (rp_revision t - 1) in
    bindE (validate_request (PDict [(''schema_version'', PStr ''1''), (''engagement_id'', PStr engagement),
        (''event_id'', PStr event), (''operation'', item row ''operation''),
        (''expected_revision'', item row ''expected_revision''),
        (''expected_generation'', item row ''expected_generation''),
        (''roe'', if operation = Revoke then PNone else roe_json (fst current))])) (\<lambda>request.
    bindE (require (rq_revision request = exp_revision \<and> rq_generation request = exp_generation) invalid_input) (\<lambda>_.
    bindE (ranged (item row ''revision'') 1 MAX_REVISIONS) (\<lambda>revision.
    bindE (require (revision = rp_revision t) invalid_input) (\<lambda>_.
    bindE (ranged (item row ''generation'') 0 MAX_REVISIONS) (\<lambda>generation.
    bindE (require (generation = rp_generation t) invalid_input) (\<lambda>_.
    bindE (literal (item row ''status'') (status_name (rp_revoked t))) (\<lambda>_.
    bindE (request_digest H (request_json request)) (\<lambda>rsha.
    bindE (digest_field (item row ''roe_sha256'')) (\<lambda>given.
    bindE (require (given = snd current) invalid_input) (\<lambda>_.
    bindE (digest_field (item row ''request_sha256'')) (\<lambda>given_request.
    bindE (require (given_request = rsha) invalid_input) (\<lambda>_.
    Inr (\<lparr>rc_engagement = engagement, rc_event = event, rc_sequence = sequence, rc_operation = operation,
        rc_expected_revision = exp_revision, rc_expected_generation = exp_generation, rc_revision = rp_revision t,
        rc_generation = rp_generation t, rc_revoked = rp_revoked t, rc_roe_sha256 = snd current,
        rc_request_sha256 = rsha\<rparr>, t\<lparr>rp_seen := event # rp_seen s\<rparr>))))))))))))))))))))))"

fun clean_events ::
  "(string \<Rightarrow> string) \<Rightarrow> string \<Rightarrow> revision_row list \<Rightarrow> int \<Rightarrow> pyval list \<Rightarrow> replay
    \<Rightarrow> string + (receipt list \<times> replay)" where
  "clean_events H engagement revisions sequence [] s = Inr ([], s)"
| "clean_events H engagement revisions sequence (row # rows) s =
    bindE (clean_event H engagement revisions sequence row s) (\<lambda>(r, t).
    bindE (clean_events H engagement revisions (sequence + 1) rows t) (\<lambda>(rs, u). Inr (r # rs, u)))"

definition sized_list :: "pyval \<Rightarrow> int \<Rightarrow> bool" where
  "sized_list v maximum \<longleftrightarrow> is_list v \<and> 1 \<le> length (elements v) \<and> int (length (elements v)) \<le> maximum"

definition check_state :: "pyval \<Rightarrow> replay \<Rightarrow> int \<Rightarrow> int \<Rightarrow> string + unit" where
  "check_state state s revisions events =
    bindE (object state [''revision'', ''generation'', ''status'', ''last_sequence'']) (\<lambda>_.
    bindE (ranged (item state ''revision'') 1 MAX_REVISIONS) (\<lambda>revision.
    bindE (require (revision = rp_revision s) invalid_input) (\<lambda>_.
    bindE (ranged (item state ''generation'') 0 MAX_REVISIONS) (\<lambda>generation.
    bindE (require (generation = rp_generation s) invalid_input) (\<lambda>_.
    bindE (ranged (item state ''last_sequence'') 1 MAX_RECORD_EVENTS) (\<lambda>last_sequence.
    bindE (require (last_sequence = events \<and> revisions = rp_revision s) invalid_input) (\<lambda>_.
    literal (item state ''status'') (status_name (rp_revoked s)))))))))"

definition export_body :: "(string \<Rightarrow> string) \<Rightarrow> pyval \<Rightarrow> string + eng_export" where
  "export_body H v =
    bindE (object v [''schema_version'', ''kind'', ''engagement_id'', ''state'', ''revisions'', ''events'']) (\<lambda>_.
    bindE (literal (item v ''schema_version'') ''1'') (\<lambda>_.
    bindE (literal (item v ''kind'') ''engagement-record-export'') (\<lambda>_.
    bindE (uuid (item v ''engagement_id'')) (\<lambda>engagement.
    bindE (require (sized_list (item v ''revisions'') MAX_REVISIONS
        \<and> sized_list (item v ''events'') MAX_RECORD_EVENTS) invalid_input) (\<lambda>_.
    bindE (clean_revisions H 1 (elements (item v ''revisions''))) (\<lambda>revisions.
    bindE (clean_events H engagement revisions 1 (elements (item v ''events'')) replay_start) (\<lambda>(events, s).
    bindE (check_state (item v ''state'') s (int (length revisions)) (int (length events))) (\<lambda>_.
    Inr \<lparr>ex_engagement = engagement, ex_revision = rp_revision s, ex_generation = rp_generation s,
      ex_revoked = rp_revoked s, ex_revisions = revisions, ex_events = events\<rparr>))))))))"

definition validate_export :: "(string \<Rightarrow> string) \<Rightarrow> pyval \<Rightarrow> string + eng_export" where
  "validate_export H v = translate ''engagement_invalid_export'' (bindE (bounded MAX_EXPORT_BYTES v) (export_body H))"


section \<open>Decoding\<close>

text \<open>
  \<open>_decode\<close>: the container depth of the text is limited before \<open>json.loads\<close> recurses. \<open>loads\<close> is
  \<open>json.loads\<close> with the module's hooks, \<open>None\<close> when it raises (malformed text, a repeated key, a
  float or a constant).
\<close>

record scanner =
  sn_depth :: int
  sn_quoted :: bool
  sn_escaped :: bool

definition scan_char :: "char \<Rightarrow> scanner \<Rightarrow> string + scanner" where
  "scan_char c s =
    (if sn_quoted s then
       Inr (if sn_escaped s then s\<lparr>sn_escaped := False\<rparr>
            else if c = CHR 0x5C then s\<lparr>sn_escaped := True\<rparr>
            else if c = CHR 0x22 then s\<lparr>sn_quoted := False\<rparr> else s)
     else if c = CHR 0x22 then Inr (s\<lparr>sn_quoted := True\<rparr>)
     else if c \<in> set ''[{'' then
       bindE (require (sn_depth s + 1 \<le> MAX_DEPTH) limit_exceeded) (\<lambda>_. Inr (s\<lparr>sn_depth := sn_depth s + 1\<rparr>))
     else if c \<in> set '']}'' then Inr (s\<lparr>sn_depth := sn_depth s - 1\<rparr>)
     else Inr s)"

fun scan_depth :: "string \<Rightarrow> scanner \<Rightarrow> string + scanner" where
  "scan_depth [] s = Inr s"
| "scan_depth (c # cs) s = bindE (scan_char c s) (scan_depth cs)"

definition decode :: "(string \<Rightarrow> pyval option) \<Rightarrow> string \<Rightarrow> int \<Rightarrow> string \<Rightarrow> string + pyval" where
  "decode loads raw limit code = translate code
    (bindE (require (int (length raw) \<le> limit) limit_exceeded) (\<lambda>_.
     bindE (scan_depth raw \<lparr>sn_depth = 0, sn_quoted = False, sn_escaped = False\<rparr>) (\<lambda>_.
     case loads raw of None \<Rightarrow> Inl code
     | Some v \<Rightarrow> bindE (tree 0 v 0) (\<lambda>_. Inr v))))"

definition decode_roe :: "(string \<Rightarrow> pyval option) \<Rightarrow> string \<Rightarrow> string + roe" where
  "decode_roe loads raw = bindE (decode loads raw MAX_ROE_BYTES ''engagement_invalid_roe'') validate_roe"

definition decode_export :: "(string \<Rightarrow> string) \<Rightarrow> (string \<Rightarrow> pyval option) \<Rightarrow> string \<Rightarrow> string + eng_export" where
  "decode_export H loads raw =
    bindE (decode loads raw MAX_EXPORT_BYTES ''engagement_invalid_export'') (\<lambda>v.
    bindE (validate_export H v) (\<lambda>e.
    bindE (canonical_bytes (export_json e)) (\<lambda>encoded.
    bindE (require (encoded = raw) ''engagement_invalid_export'') (\<lambda>_. Inr e))))"

end
