(* ===== verification/EngagementStore.thy ===== *)
theory EngagementStore
  imports EngagementContract
begin

text \<open>
  The private engagement store (\<open>secure_agent/engagement_store.py\<close>). The three SQLite tables are
  the record \<open>eng_db\<close>; a text column that holds JSON is the value it denotes, so that the code's
  comparison of the text with the canonical text is \<open>sort_keys v = v\<close>. What the clock, the file
  checks and SQLite answer during one call is \<open>store_env\<close>: a fault carries the public error code
  the code maps it to. A violated table constraint is the code of a failed statement,
  \<open>unavailable\<close>.
\<close>

section \<open>Tables\<close>

record metadata_row =
  md_engagement :: string
  md_revision :: int
  md_generation :: int
  md_status :: string
  md_last :: int

record event_row =
  er_sequence :: int
  er_event :: string
  er_request_sha256 :: string
  er_receipt :: pyval

record eng_db =
  db_revisions :: "(int \<times> pyval \<times> string) list"
  db_metadata :: "metadata_row list"
  db_events :: "event_row list"

definition empty_db :: eng_db where
  "empty_db = \<lparr>db_revisions = [], db_metadata = [], db_events = []\<rparr>"

definition unavailable_code :: string where "unavailable_code = ''engagement_store_unavailable''"
definition store_invalid :: string where "store_invalid = ''engagement_store_invalid''"

definition insert_revision :: "int \<Rightarrow> pyval \<Rightarrow> string \<Rightarrow> eng_db \<Rightarrow> string + eng_db" where
  "insert_revision n value sha db =
    bindE (require (1 \<le> n \<and> n \<le> 64 \<and> n \<notin> set (map fst (db_revisions db)) \<and> length sha = 64
       \<and> length (canonical value) \<le> 4096) unavailable_code) (\<lambda>_.
    Inr (db\<lparr>db_revisions := db_revisions db @ [(n, value, sha)]\<rparr>))"

definition metadata_ok :: "metadata_row \<Rightarrow> eng_db \<Rightarrow> bool" where
  "metadata_ok m db \<longleftrightarrow> length (md_engagement m) = 36 \<and> 1 \<le> md_revision m \<and> md_revision m \<le> 64
     \<and> md_revision m \<in> set (map fst (db_revisions db)) \<and> 0 \<le> md_generation m \<and> md_generation m \<le> 64
     \<and> md_status m \<in> {''recorded'', ''revoked''} \<and> 1 \<le> md_last m \<and> md_last m \<le> 65"

definition insert_metadata :: "metadata_row \<Rightarrow> eng_db \<Rightarrow> string + eng_db" where
  "insert_metadata m db = bindE (require (db_metadata db = [] \<and> metadata_ok m db) unavailable_code) (\<lambda>_.
     Inr (db\<lparr>db_metadata := [m]\<rparr>))"

definition update_metadata :: "int \<Rightarrow> int \<Rightarrow> string \<Rightarrow> int \<Rightarrow> eng_db \<Rightarrow> string + eng_db" where
  "update_metadata revision generation status last_sequence db =
    (let rows = map (\<lambda>m. m\<lparr>md_revision := revision, md_generation := generation, md_status := status,
        md_last := last_sequence\<rparr>) (db_metadata db)
     in bindE (require (list_all (\<lambda>m. metadata_ok m db) rows) unavailable_code) (\<lambda>_.
        Inr (db\<lparr>db_metadata := rows\<rparr>)))"

definition insert_event :: "receipt \<Rightarrow> eng_db \<Rightarrow> string + eng_db" where
  "insert_event r db =
    bindE (canonical_bytes (receipt_json r)) (\<lambda>raw.
    bindE (require (1 \<le> rc_sequence r \<and> rc_sequence r \<le> 65 \<and> rc_sequence r \<notin> set (map er_sequence (db_events db))
       \<and> length (rc_event r) = 36 \<and> rc_event r \<notin> set (map er_event (db_events db))
       \<and> length (rc_request_sha256 r) = 64 \<and> length raw \<le> 4096) unavailable_code) (\<lambda>_.
    Inr (db\<lparr>db_events := db_events db @ [\<lparr>er_sequence = rc_sequence r, er_event = rc_event r,
        er_request_sha256 = rc_request_sha256 r, er_receipt = sort_keys (receipt_json r)\<rparr>]\<rparr>)))"

section \<open>The checked snapshot\<close>

definition revision_value :: "int \<times> pyval \<times> string \<Rightarrow> string + pyval" where
  "revision_value row = (case row of (n, value, sha) \<Rightarrow>
     bindE (require (sort_keys value = value) store_invalid) (\<lambda>_.
     Inr (PDict [(''revision'', PInt n), (''roe'', value), (''roe_sha256'', PStr sha)])))"

definition event_value :: "event_row \<Rightarrow> string + pyval" where
  "event_value row =
    bindE (require (sort_keys (er_receipt row) = er_receipt row
       \<and> py_eq (item (er_receipt row) ''sequence'') (PInt (er_sequence row))
       \<and> item (er_receipt row) ''event_id'' = PStr (er_event row)
       \<and> item (er_receipt row) ''request_sha256'' = PStr (er_request_sha256 row)) store_invalid) (\<lambda>_.
    Inr (er_receipt row))"

definition export_value :: "metadata_row \<Rightarrow> pyval list \<Rightarrow> pyval list \<Rightarrow> pyval" where
  "export_value m revisions events = PDict
    [(''schema_version'', PStr ''1''), (''kind'', PStr ''engagement-record-export''),
     (''engagement_id'', PStr (md_engagement m)),
     (''state'', PDict [(''revision'', PInt (md_revision m)), (''generation'', PInt (md_generation m)),
        (''status'', PStr (md_status m)), (''last_sequence'', PInt (md_last m))]),
     (''revisions'', PList revisions), (''events'', PList events)]"

definition read_snapshot :: "(string \<Rightarrow> string) \<Rightarrow> string option \<Rightarrow> eng_db \<Rightarrow> string + eng_export" where
  "read_snapshot H engagement db = (case db_metadata db of
     [m] \<Rightarrow>
      bindE (mapE revision_value (take 65 (sort_key fst (db_revisions db)))) (\<lambda>revisions.
      bindE (mapE event_value (take 66 (sort_key er_sequence (db_events db)))) (\<lambda>events.
      bindE (validate_export H (export_value m revisions events)) (\<lambda>e.
      bindE (require (engagement = None \<or> engagement = Some (ex_engagement e)) store_invalid) (\<lambda>_. Inr e))))
   | _ \<Rightarrow> Inl store_invalid)"

text \<open>Every failure but a timeout becomes \<open>engagement_store_invalid\<close>.\<close>

definition snapshot_checked :: "(string \<Rightarrow> string) \<Rightarrow> string option \<Rightarrow> eng_db \<Rightarrow> string + eng_export" where
  "snapshot_checked H engagement db = (case read_snapshot H engagement db of
     Inl code \<Rightarrow> Inl (if code = ''engagement_timeout'' then code else store_invalid) | Inr e \<Rightarrow> Inr e)"

section \<open>Transactions\<close>

record store_env =
  same_process :: bool
  begin_fault :: "string option"
  check_fault :: "string option"
  commit_fault :: "string option"
  settle_fault :: "string option"
  rollback_fault :: bool

record eng_store =
  st_db :: eng_db
  st_engagement :: "string option"
  st_open :: bool
  st_read_only :: bool
  st_failed :: bool

definition POISON_CODES :: "string list" where
  "POISON_CODES = [''engagement_store_unavailable'', ''engagement_store_invalid'', ''engagement_timeout'',
     ''engagement_snapshot_changed'']"

definition fault :: "string option \<Rightarrow> string + unit" where
  "fault f = (case f of None \<Rightarrow> Inr () | Some code \<Rightarrow> Inl code)"

definition poison :: "string \<Rightarrow> eng_store \<Rightarrow> eng_store" where
  "poison code st = (if code \<in> set POISON_CODES then st\<lparr>st_failed := True\<rparr> else st)"

type_synonym 'a eng_body = "eng_export \<Rightarrow> eng_db \<Rightarrow> string + ('a \<times> eng_db)"

text \<open>The statements between \<open>BEGIN\<close> and the commit.\<close>

definition inside :: "(string \<Rightarrow> string) \<Rightarrow> store_env \<Rightarrow> eng_store \<Rightarrow> 'a eng_body \<Rightarrow> string + ('a \<times> eng_db)" where
  "inside H env st body =
    bindE (fault (begin_fault env)) (\<lambda>_.
    bindE (snapshot_checked H (st_engagement st) (st_db st)) (\<lambda>before.
    bindE (body before (st_db st)) (\<lambda>(x, db).
    bindE (snapshot_checked H (st_engagement st) db) (\<lambda>_.
    bindE (fault (check_fault env)) (\<lambda>_.
    bindE (fault (commit_fault env)) (\<lambda>_. Inr (x, db)))))))"

definition transaction :: "(string \<Rightarrow> string) \<Rightarrow> bool \<Rightarrow> store_env \<Rightarrow> eng_store \<Rightarrow> 'a eng_body
    \<Rightarrow> (string + 'a) \<times> eng_store" where
  "transaction H write env st body =
    (if \<not> same_process env then (Inl unavailable_code, st)
     else if st_failed st \<or> \<not> st_open st then (Inl unavailable_code, poison unavailable_code st)
     else if write \<and> st_read_only st then (Inl ''engagement_read_only'', st)
     else case inside H env st body of
        Inl code \<Rightarrow> (Inl code, poison code (if rollback_fault env then st\<lparr>st_failed := True\<rparr> else st))
      | Inr (x, db) \<Rightarrow>
          let committed = st\<lparr>st_db := db\<rparr> in
          case settle_fault env of None \<Rightarrow> (Inr x, committed)
          | Some code \<Rightarrow> (Inl code, poison code (if rollback_fault env then committed\<lparr>st_failed := True\<rparr> else committed)))"

section \<open>Operations\<close>

definition make_receipt :: "(string \<Rightarrow> string) \<Rightarrow> eng_request \<Rightarrow> int \<Rightarrow> int \<Rightarrow> int \<Rightarrow> bool \<Rightarrow> string \<Rightarrow> string + receipt" where
  "make_receipt H request revision generation sequence revoked digest =
    bindE (request_digest H (request_json request)) (\<lambda>rsha.
    Inr \<lparr>rc_engagement = rq_engagement request, rc_event = rq_event request, rc_sequence = sequence,
      rc_operation = rq_operation request, rc_expected_revision = rq_revision request,
      rc_expected_generation = rq_generation request, rc_revision = revision, rc_generation = generation,
      rc_revoked = revoked, rc_roe_sha256 = digest, rc_request_sha256 = rsha\<rparr>)"

definition past_request :: "eng_export \<Rightarrow> receipt \<Rightarrow> eng_request" where
  "past_request before r = \<lparr>rq_engagement = rc_engagement r, rq_event = rc_event r, rq_operation = rc_operation r,
     rq_revision = rc_expected_revision r, rq_generation = rc_expected_generation r,
     rq_roe = (if rc_operation r = Revoke then None else Some (fst (ex_revisions before ! nat (rc_revision r - 1))))\<rparr>"

definition mutate_body :: "(string \<Rightarrow> string) \<Rightarrow> eng_request \<Rightarrow> receipt eng_body" where
  "mutate_body H request before db = (case find (\<lambda>r. rc_event r = rq_event request) (ex_events before) of
     Some r \<Rightarrow>
       bindE (request_digest H (request_json request)) (\<lambda>rsha.
       bindE (require (past_request before r = request \<and> rc_request_sha256 r = rsha) ''engagement_conflict'') (\<lambda>_.
       Inr (r, db)))
   | None \<Rightarrow>
       bindE (require (\<not> ex_revoked before) ''engagement_revoked'') (\<lambda>_.
       bindE (require (rq_revision request = Some (ex_revision before)
           \<and> rq_generation request = Some (ex_generation before)) ''engagement_conflict'') (\<lambda>_.
       bindE (case rq_operation request of
           Revise \<Rightarrow>
             bindE (require (ex_revision before < 64) limit_exceeded) (\<lambda>_.
             bindE (roe_digest H (optional roe_json (rq_roe request))) (\<lambda>digest.
             bindE (canonical_bytes (optional roe_json (rq_roe request))) (\<lambda>_.
             bindE (insert_revision (ex_revision before + 1) (sort_keys (optional roe_json (rq_roe request))) digest db) (\<lambda>db1.
             Inr (ex_revision before + 1, digest, False, db1)))))
         | _ \<Rightarrow> Inr (ex_revision before, snd (last (ex_revisions before)), True, db)) (\<lambda>(revision, digest, revoked, db1).
       bindE (make_receipt H request revision (ex_generation before + 1) (int (length (ex_events before)) + 1)
           revoked digest) (\<lambda>r.
       bindE (update_metadata revision (rc_generation r) (status_name revoked) (rc_sequence r) db1) (\<lambda>db2.
       bindE (insert_event r db2) (\<lambda>db3. Inr (r, db3))))))))"

definition mutate :: "(string \<Rightarrow> string) \<Rightarrow> store_env \<Rightarrow> eng_request \<Rightarrow> eng_store \<Rightarrow> (string + receipt) \<times> eng_store" where
  "mutate H env request st = transaction H True env st (mutate_body H request)"

text \<open>\<open>_operation\<close> and the request both public mutations build.\<close>

definition submit :: "(string \<Rightarrow> string) \<Rightarrow> store_env \<Rightarrow> pyval \<Rightarrow> eng_store \<Rightarrow> (string + receipt) \<times> eng_store" where
  "submit H env value st =
    (if \<not> same_process env then (Inl unavailable_code, st)
     else case validate_request value of Inl code \<Rightarrow> (Inl code, poison code st)
     | Inr request \<Rightarrow> mutate H env request st)"

definition request_value :: "eng_store \<Rightarrow> pyval \<Rightarrow> string \<Rightarrow> pyval \<Rightarrow> pyval \<Rightarrow> pyval \<Rightarrow> pyval" where
  "request_value st event operation revision generation roe = PDict
    [(''schema_version'', PStr ''1''), (''engagement_id'', optional PStr (st_engagement st)), (''event_id'', event),
     (''operation'', PStr operation), (''expected_revision'', revision), (''expected_generation'', generation),
     (''roe'', roe)]"

definition append_revision ::
  "(string \<Rightarrow> string) \<Rightarrow> store_env \<Rightarrow> pyval \<Rightarrow> pyval \<Rightarrow> pyval \<Rightarrow> pyval \<Rightarrow> eng_store \<Rightarrow> (string + receipt) \<times> eng_store" where
  "append_revision H env roe revision generation event st =
    submit H env (request_value st event ''revise'' revision generation roe) st"

definition revoke ::
  "(string \<Rightarrow> string) \<Rightarrow> store_env \<Rightarrow> pyval \<Rightarrow> pyval \<Rightarrow> pyval \<Rightarrow> eng_store \<Rightarrow> (string + receipt) \<times> eng_store" where
  "revoke H env revision generation event st =
    submit H env (request_value st event ''revoke'' revision generation PNone) st"

definition snapshot_call :: "(string \<Rightarrow> string) \<Rightarrow> store_env \<Rightarrow> eng_store \<Rightarrow> (string + eng_export) \<times> eng_store" where
  "snapshot_call H env st = transaction H False env st (\<lambda>before db. Inr (before, db))"

definition event_receipt :: "(string \<Rightarrow> string) \<Rightarrow> store_env \<Rightarrow> pyval \<Rightarrow> eng_store \<Rightarrow> (string + receipt) \<times> eng_store" where
  "event_receipt H env event st =
    (if \<not> same_process env then (Inl unavailable_code, st)
     else case uuid event of Inl code \<Rightarrow> (Inl code, st)
     | Inr eid \<Rightarrow> transaction H False env st (\<lambda>before db.
         case find (\<lambda>r. rc_event r = eid) (ex_events before) of
           None \<Rightarrow> Inl ''engagement_event_unknown'' | Some r \<Rightarrow> Inr (r, db)))"

section \<open>Opening\<close>

definition initial_db :: "(string \<Rightarrow> string) \<Rightarrow> eng_request \<Rightarrow> string + eng_db" where
  "initial_db H request = (let value = optional roe_json (rq_roe request) in
    bindE (roe_digest H value) (\<lambda>digest.
    bindE (insert_revision 1 (sort_keys value) digest empty_db) (\<lambda>db1.
    bindE (insert_metadata \<lparr>md_engagement = rq_engagement request, md_revision = 1, md_generation = 0,
       md_status = ''recorded'', md_last = 1\<rparr> db1) (\<lambda>db2.
    bindE (make_receipt H request 1 0 1 False digest) (\<lambda>r.
    insert_event r db2)))))"

definition create_value :: "pyval \<Rightarrow> pyval \<Rightarrow> pyval \<Rightarrow> pyval" where
  "create_value engagement event roe = PDict
    [(''schema_version'', PStr ''1''), (''engagement_id'', engagement), (''event_id'', event),
     (''operation'', PStr ''create''), (''expected_revision'', PNone), (''expected_generation'', PNone), (''roe'', roe)]"

definition create :: "(string \<Rightarrow> string) \<Rightarrow> store_env \<Rightarrow> pyval \<Rightarrow> pyval \<Rightarrow> pyval \<Rightarrow> string + eng_store" where
  "create H env engagement event roe =
    bindE (validate_request (create_value engagement event roe)) (\<lambda>request.
    bindE (fault (begin_fault env)) (\<lambda>_.
    bindE (initial_db H request) (\<lambda>db.
    bindE (snapshot_checked H None db) (\<lambda>e.
    bindE (fault (check_fault env)) (\<lambda>_.
    bindE (fault (commit_fault env)) (\<lambda>_.
    bindE (fault (settle_fault env)) (\<lambda>_.
    Inr \<lparr>st_db = db, st_engagement = Some (ex_engagement e), st_open = True, st_read_only = False,
      st_failed = False\<rparr>)))))))"

definition open_store :: "(string \<Rightarrow> string) \<Rightarrow> store_env \<Rightarrow> bool \<Rightarrow> eng_db \<Rightarrow> string + eng_store" where
  "open_store H env read_only db =
    (let st = \<lparr>st_db = db, st_engagement = None, st_open = True, st_read_only = read_only, st_failed = False\<rparr> in
     bindE (inside H env st (\<lambda>before db. Inr (before, db))) (\<lambda>(e, db).
     bindE (fault (settle_fault env)) (\<lambda>_. Inr (st\<lparr>st_engagement := Some (ex_engagement e)\<rparr>))))"

definition close :: "store_env \<Rightarrow> eng_store \<Rightarrow> (string + unit) \<times> eng_store" where
  "close env st =
    (if \<not> same_process env then (Inl unavailable_code, st)
     else case begin_fault env of Some code \<Rightarrow> (Inl code, st)
     | None \<Rightarrow> (fault (settle_fault env), st\<lparr>st_open := False, st_failed := True\<rparr>))"

end
