(* ===== verification/PySort.thy ===== *)
theory PySort
  imports PyData
begin

text \<open>
  Sorting the keys of a value changes nothing a validator looks at: look-ups, key sets, types
  and scalars are those of the original value. Also the length of canonical texts, which the
  size limits of the program measure.
\<close>

named_theorems sorted_view "what a validator sees of a value with sorted keys"

lemma map_of_sort_key: "map_of (sort_key fst xs) k = map_of (xs :: ('a::linorder \<times> 'b) list) k"
proof (induction xs)
  case (Cons x xs)
  have "map_of (insort_key fst x ys) k = (if k = fst x then Some (snd x) else map_of ys k)"
    if "sorted (map fst ys)" for ys :: "('a \<times> 'b) list"
    using that
  proof (induction ys)
    case (Cons y ys)
    then show ?case by (cases x; cases y) auto
  qed (cases x; simp)
  then show ?case using Cons by (cases x) auto
qed simp

lemma sort_keys_simps [sorted_view]:
  "is_dict (sort_keys v) = is_dict v" "is_str (sort_keys v) = is_str v" "is_list (sort_keys v) = is_list v"
  "the_str (sort_keys v) = the_str v" "the_int (sort_keys v) = the_int v"
  "elements (sort_keys v) = map sort_keys (elements v)"
  "sort_keys v = PStr s \<longleftrightarrow> v = PStr s" "sort_keys v = PNone \<longleftrightarrow> v = PNone" "sort_keys v = PInt i \<longleftrightarrow> v = PInt i"
  "int_in lo hi (sort_keys v) = int_in lo hi v" "str_in xs (sort_keys v) = str_in xs v"
  "hash_val (sort_keys v) = hash_val v"
  by (cases v; simp add: int_in_def str_in_def hash_val_def)+

lemma item_sort [sorted_view]: "item (sort_keys v) k = sort_keys (item v k)"
  by (cases v) (simp_all add: item_def map_of_sort_key map_of_map map_prod_def split: option.splits)

lemma has_key_sort [sorted_view]: "has_key (sort_keys v) k = has_key v k"
  by (cases v) (simp_all add: has_key_def fields_of_def image_iff)

lemma set_fields_sort: "set (fields_of (sort_keys v)) = set (fields_of v)"
  by (cases v) (force simp: fields_of_def image_iff)+

lemma same_fields_sort [sorted_view]: "same_fields (sort_keys v) ks = same_fields v ks"
  using set_fields_sort [of v] by (simp add: same_fields_def has_key_sort list_all_iff)

lemma sort_keys_idem [simp]: "sort_keys (sort_keys v) = sort_keys v"
proof (induction v)
  case (PDict kvs)
  have m: "map (map_prod id sort_keys) (sort_key fst ys) = sort_key fst (map (map_prod id sort_keys) ys)"
    for ys :: "(string \<times> pyval) list"
  proof (induction ys)
    case (Cons y ys)
    have "map (map_prod id sort_keys) (insort_key fst y zs) =
      insort_key fst (map_prod id sort_keys y) (map (map_prod id sort_keys) zs)" for zs :: "(string \<times> pyval) list"
      by (induction zs) auto
    with Cons show ?case by (simp add: id_def)
  qed simp
  have e: "map (map_prod id sort_keys) (map (map_prod id sort_keys) kvs) = map (map_prod id sort_keys) kvs"
    using PDict by (auto simp: snds.simps)
  have s: "sort_key fst (sort_key fst zs) = sort_key fst zs" for zs :: "(string \<times> pyval) list"
    by (simp add: sort_key_id_if_sorted)
  show ?case by (simp only: sort_keys.simps m e s)
qed simp_all

lemma canonical_sort [simp]: "canonical (sort_keys v) = canonical v"
  by (simp add: canonical_def)

section \<open>Lengths\<close>

lemma length_join_char: "length (join [c] xs) = sum_list (map length xs) + (length xs - 1)"
  by (induction "[c]" xs rule: join.induct) auto

lemma length_entries:
  "int (length (dumps (PDict kvs))) = 2 + int (length kvs - 1) + sum_list (map (\<lambda>kv. int (length (entry kv))) kvs)"
proof -
  have "int (sum_list (map (length \<circ> entry) kvs)) = sum_list (map (\<lambda>kv. int (length (entry kv))) kvs)"
    by (induction kvs) auto
  then show ?thesis unfolding dumps_PDict by (simp add: length_join_char)
qed

lemma length_elements:
  "int (length (dumps (PList xs))) = 2 + int (length xs - 1) + sum_list (map (\<lambda>x. int (length (dumps x))) xs)"
proof -
  have "int (sum_list (map (length \<circ> dumps) xs)) = sum_list (map (\<lambda>x. int (length (dumps x))) xs)"
    by (induction xs) auto
  then show ?thesis by (simp add: length_join_char)
qed

lemma sum_list_sort_key: "sum_list (map (f :: _ \<Rightarrow> int) (sort_key g xs)) = sum_list (map f xs)"
proof (induction xs)
  case (Cons x xs)
  have "sum_list (map f (insort_key g x ys)) = f x + sum_list (map f ys)" for ys
    by (induction ys) auto
  with Cons show ?case by simp
qed simp

lemma length_canonical: "length (canonical v) = length (dumps v)"
proof -
  have "int (length (dumps (sort_keys v))) = int (length (dumps v))"
  proof (induction v)
    case (PList xs)
    then have "map (\<lambda>x. int (length (dumps (sort_keys x)))) xs = map (\<lambda>x. int (length (dumps x))) xs" by simp
    then show ?case
      unfolding sort_keys.simps length_elements by (simp only: map_map comp_def length_map)
  next
    case (PDict kvs)
    have "map (\<lambda>kv. int (length (entry (map_prod id sort_keys kv)))) kvs = map (\<lambda>kv. int (length (entry kv))) kvs"
      using PDict by (auto simp: entry_def snds.simps)
    then show ?case
      unfolding sort_keys.simps length_entries sum_list_sort_key
      by (simp only: map_map comp_def length_map length_sort)
  qed simp_all
  then show ?thesis by (simp add: canonical_def)
qed

lemma length_escape: "length (escape_char c) \<le> 6"
  by (simp add: escape_char_def)

lemma length_json_string: "int (length (json_string s)) \<le> 6 * int (length s) + 2"
proof -
  have "length (concat (map escape_char s)) \<le> 6 * length s"
  proof (induction s)
    case (Cons c s)
    then show ?case using length_escape [of c] by simp
  qed simp
  then show ?thesis by (simp add: json_string_def)
qed

lemma length_json_string_ge: "int (length s) + 2 \<le> int (length (json_string s))"
proof -
  have "length s \<le> length (concat (map escape_char s))"
  proof (induction s)
    case (Cons c s)
    have "1 \<le> length (escape_char c)" by (simp add: escape_char_def)
    with Cons show ?case by simp
  qed simp
  then show ?thesis by (simp add: json_string_def)
qed

lemma length_show_pos: "0 \<le> i \<Longrightarrow> i < 10 ^ n \<Longrightarrow> 1 \<le> n \<Longrightarrow> length (show_pos i) \<le> n"
proof (induction n arbitrary: i)
  case (Suc n)
  show ?case
  proof (cases "i < 10")
    case False
    then have "n \<noteq> 0" using Suc.prems by (cases n) auto
    then have "length (show_pos (i div 10)) \<le> n"
      using Suc.prems by (intro Suc.IH) (auto simp: div_less_iff_less_mult)
    then show ?thesis using False by (subst show_pos.simps) simp
  qed (subst show_pos.simps; simp)
qed simp

lemma length_show_int: "0 \<le> i \<Longrightarrow> i < 10 ^ n \<Longrightarrow> 1 \<le> n \<Longrightarrow> length (show_int i) \<le> n"
  by (simp add: show_int_def length_show_pos)

lemma show_int_nonempty: "1 \<le> length (show_int i)"
  using show_int_head [of i] by (cases "show_int i") auto

end
