(* ===== verification/EngagementValid.thy ===== *)
theory EngagementValid
  imports EngagementStore PySort
begin

text \<open>
  What the validators of the engagement record accept: the traversal budget depends on the
  value only, validation does not see the order of keys, and a validated record written back
  as a dictionary validates to itself within the size limits.
\<close>

section \<open>The traversal budget\<close>

fun units :: "pyval \<Rightarrow> int" and units_list :: "pyval list \<Rightarrow> int" and units_dict :: "(string \<times> pyval) list \<Rightarrow> int" where
  "units PNone = 1" | "units (PBool b) = 1" | "units (PInt i) = 1"
| "units (PStr s) = 1 + int (length s)"
| "units (PList xs) = 1 + units_list xs"
| "units (PDict kvs) = 1 + units_dict kvs"
| "units_list [] = 0" | "units_list (x # xs) = units x + units_list xs"
| "units_dict [] = 0" | "units_dict (kv # kvs) = int (length (fst kv)) + units (snd kv) + units_dict kvs"

fun fits :: "int \<Rightarrow> pyval \<Rightarrow> bool" and fits_list :: "int \<Rightarrow> pyval list \<Rightarrow> bool"
  and fits_dict :: "int \<Rightarrow> (string \<times> pyval) list \<Rightarrow> bool" where
  "fits d PNone = True" | "fits d (PBool b) = True" | "fits d (PStr s) = True"
| "fits d (PInt i) = (bit_length \<bar>i\<bar> \<le> MAX_EXPORT_BYTES * 4)"
| "fits d (PList xs) = (d + 1 \<le> MAX_DEPTH \<and> fits_list (d + 1) xs)"
| "fits d (PDict kvs) = (d + 1 \<le> MAX_DEPTH \<and> fits_dict (d + 1) kvs)"
| "fits_list d [] = True" | "fits_list d (x # xs) = (fits d x \<and> fits_list d xs)"
| "fits_dict d [] = True" | "fits_dict d (kv # kvs) = (fits d (snd kv) \<and> fits_dict d kvs)"

lemma units_pos: "1 \<le> units v" and units_list_len: "int (length xs) \<le> units_list xs"
  and units_dict_len: "int (length kvs) \<le> units_dict kvs"
  by (induction v and xs and kvs rule: units_units_list_units_dict.induct) auto

lemma spend_eq: "spend n u = (if u + n \<le> MAX_EXPORT_BYTES then Inr (u + n) else Inl limit_exceeded)"
  by (simp add: spend_def)

text \<open>The traversal succeeds exactly when the value fits and its units stay in the budget.\<close>

lemma tree_eq:
  "0 \<le> u \<Longrightarrow> u \<le> MAX_EXPORT_BYTES \<Longrightarrow> tree d v u = (if fits d v \<and> u + units v \<le> MAX_EXPORT_BYTES then Inr (u + units v) else Inl limit_exceeded)"
  "0 \<le> u \<Longrightarrow> u \<le> MAX_EXPORT_BYTES \<Longrightarrow> tree_list d xs u = (if fits_list d xs \<and> u + units_list xs \<le> MAX_EXPORT_BYTES then Inr (u + units_list xs) else Inl limit_exceeded)"
  "0 \<le> u \<Longrightarrow> u \<le> MAX_EXPORT_BYTES \<Longrightarrow> tree_dict d kvs u = (if fits_dict d kvs \<and> u + units_dict kvs \<le> MAX_EXPORT_BYTES then Inr (u + units_dict kvs) else Inl limit_exceeded)"
proof (induction d v u and d xs u and d kvs u rule: tree_tree_list_tree_dict.induct)
  case (5 depth xs units)
  then show ?case using units_list_len [of xs] by (auto simp: spend_eq)
next
  case (6 depth kvs units)
  then show ?case using units_dict_len [of kvs] by (auto simp: spend_eq)
next
  case (8 depth x xs units)
  then show ?case using units_pos [of x] units_list_len [of xs] by (auto simp: algebra_simps)
next
  case (10 depth kv kvs units)
  then show ?case using units_pos [of "snd kv"] units_dict_len [of kvs] by (auto simp: spend_eq algebra_simps)
qed (auto simp: spend_eq)

lemma units_dict_insort: "units_dict (insort_key fst kv kvs) = units_dict (kv # kvs)"
  by (induction kvs) auto

lemma units_dict_sort: "units_dict (sort_key fst kvs) = units_dict kvs"
  by (induction kvs) (simp_all add: units_dict_insort)

lemma fits_dict_insort: "fits_dict d (insort_key fst kv kvs) = fits_dict d (kv # kvs)"
  by (induction kvs) auto

lemma fits_dict_sort: "fits_dict d (sort_key fst kvs) = fits_dict d kvs"
  by (induction kvs) (simp_all add: fits_dict_insort)

lemma units_sort [simp]: "units (sort_keys v) = units v"
  "units_list (map sort_keys xs) = units_list xs"
  "units_dict (map (map_prod id sort_keys) kvs) = units_dict kvs"
  by (induction v and xs and kvs rule: units_units_list_units_dict.induct) (simp_all add: units_dict_sort id_def)

lemma fits_sort [simp]: "fits d (sort_keys v) = fits d v"
  "fits_list d (map sort_keys xs) = fits_list d xs"
  "fits_dict d (map (map_prod id sort_keys) kvs) = fits_dict d kvs"
  by (induction d v and d xs and d kvs rule: fits_fits_list_fits_dict.induct) (simp_all add: fits_dict_sort id_def)

definition within :: "int \<Rightarrow> pyval \<Rightarrow> bool" where
  "within limit v \<longleftrightarrow> fits 0 v \<and> units v \<le> MAX_EXPORT_BYTES \<and> int (length (dumps v)) \<le> min limit MAX_EXPORT_BYTES"

lemma canonical_bytes_eq:
  "canonical_bytes v = (if within MAX_EXPORT_BYTES v then Inr (canonical v) else Inl limit_exceeded)"
  by (simp add: canonical_bytes_def tree_eq within_def require_def length_canonical MAX_EXPORT_BYTES_def)

lemma bounded_eq: "bounded limit v = (if within limit v then Inr (sort_keys v) else Inl limit_exceeded)"
  by (simp add: bounded_def canonical_bytes_eq require_def length_canonical within_def)

lemma within_sort [simp]: "within limit (sort_keys v) = within limit v"
  using length_canonical [of v] by (simp add: within_def canonical_def)

lemma bounded_sort: "bounded limit (sort_keys v) = bounded limit v"
  by (simp add: bounded_eq)

lemma canonical_bytes_sort: "canonical_bytes (sort_keys v) = canonical_bytes v"
  by (simp add: canonical_bytes_eq)

text \<open>A value never costs more units than its text has characters.\<close>

lemma units_le_dumps: "units v \<le> int (length (dumps v))"
proof (induction v)
  case (PInt i)
  then show ?case using show_int_nonempty [of i] by simp
next
  case (PStr s)
  then show ?case using length_json_string_ge [of s] by simp
next
  case (PList xs)
  have "units_list ys \<le> sum_list (map (\<lambda>x. int (length (dumps x))) ys)" if "set ys \<subseteq> set xs" for ys
    using that by (induction ys) (use PList in force)+
  from this [of xs] show ?case unfolding length_elements by simp
next
  case (PDict kvs)
  have "units_dict ys \<le> sum_list (map (\<lambda>kv. int (length (entry kv))) ys)" if "set ys \<subseteq> set kvs" for ys
    using that
  proof (induction ys)
    case (Cons y ys)
    have "units (snd y) \<le> int (length (dumps (snd y)))"
      using PDict [of y "snd y"] Cons.prems by (cases y) auto
    then have "int (length (fst y)) + units (snd y) \<le> int (length (entry y))"
      using length_json_string_ge [of "fst y"] by (simp add: entry_def)
    then show ?case using Cons by simp
  qed simp
  from this [of kvs] show ?case unfolding length_entries by simp
qed simp_all

lemma withinI: "fits 0 v \<Longrightarrow> int (length (dumps v)) \<le> limit \<Longrightarrow> limit \<le> MAX_EXPORT_BYTES \<Longrightarrow> within limit v"
  using units_le_dumps [of v] by (simp add: within_def)

lemma bit_length_le: "i < 2 ^ n \<Longrightarrow> bit_length i \<le> int n"
proof (induction n arbitrary: i)
  case 0
  then show ?case by (simp add: bit_length.simps)
next
  case (Suc n)
  then have "bit_length (i div 2) \<le> int n" by (intro Suc.IH) (auto simp: div_less_iff_less_mult mult.commute)
  then show ?case by (subst bit_length.simps) simp
qed

lemma bit_length_small: "i < 2 ^ 64 \<Longrightarrow> bit_length i \<le> MAX_EXPORT_BYTES * 4"
  using bit_length_le [of i 64] by (simp add: MAX_EXPORT_BYTES_def)

lemma fits_small_int: "0 \<le> i \<Longrightarrow> i < 2 ^ 64 \<Longrightarrow> fits d (PInt i)"
  using bit_length_le [of i 64] by (simp add: MAX_EXPORT_BYTES_def)

section \<open>Validation does not see the order of keys\<close>

lemma sorted_leaf [sorted_view]:
  "object (sort_keys v) names = object v names" "literal (sort_keys v) t = literal v t"
  "ranged (sort_keys v) lo hi = ranged v lo hi" "uuid (sort_keys v) = uuid v"
  "digest_field (sort_keys v) = digest_field v" "instant (sort_keys v) = instant v"
  "read_operation (sort_keys v) = read_operation v" "check_target (sort_keys v) = check_target v"
  by (simp_all add: object_def literal_def ranged_def read_operation_def sorted_view)
     (cases v; simp add: uuid_def digest_field_def instant_def check_target_def)+

lemma sequence_of_sort [sorted_view]: "sequence_of (sort_keys v) allowed lo hi = sequence_of v allowed lo hi"
  by (cases v) (simp_all add: sequence_of_def list_all_iff sorted_view comp_def)

lemma check_endpoint_sort [sorted_view]: "check_endpoint (sort_keys v) http = check_endpoint v http"
  by (simp add: check_endpoint_def sorted_view)

lemma validate_scope_sort [sorted_view]: "validate_scope (sort_keys v) = validate_scope v"
  by (simp add: validate_scope_def sorted_view)

lemma roe_body_sort [sorted_view]: "roe_body (sort_keys v) = roe_body v"
  by (simp add: roe_body_def sorted_view Let_def)

lemma validate_roe_eq:
  "validate_roe v = translate ''engagement_invalid_roe''
    (if within MAX_ROE_BYTES v then roe_body v else Inl limit_exceeded)"
  by (simp add: validate_roe_def bounded_eq roe_body_sort)

lemma validate_roe_sort [sorted_view]: "validate_roe (sort_keys v) = validate_roe v"
  by (simp add: validate_roe_eq roe_body_sort)

lemma roe_digest_sort [sorted_view]: "roe_digest H (sort_keys v) = roe_digest H v"
  by (simp add: roe_digest_def validate_roe_sort)

lemma request_body_sort [sorted_view]: "request_body (sort_keys v) = request_body v"
  by (cases "read_operation (item v ''operation'')") (simp_all add: request_body_def sorted_view)

lemma validate_request_eq:
  "validate_request v = (if within MAX_REQUEST_BYTES v then request_body v else Inl limit_exceeded)"
  by (simp add: validate_request_def bounded_eq request_body_sort)

lemma validate_request_sort [sorted_view]: "validate_request (sort_keys v) = validate_request v"
  by (simp add: validate_request_eq request_body_sort)

lemma translate_Inr [simp]: "translate code m = Inr x \<longleftrightarrow> m = Inr x"
  by (cases m) (simp_all add: translate_def)

lemma clean_revision_sort [sorted_view]: "clean_revision H n (sort_keys row) = clean_revision H n row"
  by (simp add: clean_revision_def sorted_view)

lemma clean_revisions_sort [sorted_view]: "clean_revisions H n (map sort_keys rows) = clean_revisions H n rows"
  by (induction rows arbitrary: n) (simp_all add: sorted_view)

end
