(* ===== verification/EngagementRoe.thy ===== *)
theory EngagementRoe
  imports EngagementValid
begin

text \<open>
  Rules of engagement and requests as validated data: exactly the records that satisfy
  \<open>roe_ok\<close> and \<open>request_ok\<close> come out of the validators, and their dictionaries validate to the
  same record within the size limits of the module.
\<close>

section \<open>Rules of engagement\<close>

definition names_from :: "string list \<Rightarrow> nat \<Rightarrow> nat \<Rightarrow> string list \<Rightarrow> bool" where
  "names_from allowed lo hi xs \<longleftrightarrow> lo \<le> length xs \<and> length xs \<le> hi \<and> set xs \<subseteq> set allowed \<and> sorted_wrt (<) xs"

definition window_ok :: "roe \<Rightarrow> bool" where
  "window_ok r = (case (instant_text (roe_start r), instant_text (roe_end r)) of
     (Inr a, Inr b) \<Rightarrow> 0 < b - a \<and> b - a \<le> 86400 \<and> roe_limit r ''max_engagement_ms'' \<le> (b - a) * 1000
   | _ \<Rightarrow> False)"

definition limits_ok :: "int list \<Rightarrow> bool" where
  "limits_ok ls \<longleftrightarrow> list_all2 (\<lambda>l kh. 1 \<le> l \<and> l \<le> snd kh) ls LIMITS"

definition roe_ok :: "roe \<Rightarrow> bool" where
  "roe_ok r \<longleftrightarrow> scope_ok (roe_scope r) \<and> names_from PROFILES 1 3 (roe_profiles r)
     \<and> names_from [''http'', ''ssh''] 0 1 (roe_excluded r) \<and> window_ok r \<and> limits_ok (roe_limits r)
     \<and> roe_limit r ''max_action_ms'' \<le> roe_limit r ''max_engagement_ms''"

lemma sequence_of_Inr:
  "sequence_of v allowed lo hi = Inr xs \<longleftrightarrow> v = PList (map PStr xs) \<and> names_from allowed lo hi xs"
proof (cases v)
  case (PList ys)
  have "list_all (str_in allowed) ys \<longleftrightarrow> ys = map PStr (map the_str ys) \<and> set (map the_str ys) \<subseteq> set allowed"
    by (induction ys) (auto simp: str_in_def split: pyval.splits)
  then show ?thesis by (auto simp: sequence_of_def PList res_simps names_from_def comp_def; blast)
qed (simp_all add: sequence_of_def)

lemma ranged_Inr: "ranged v lo hi = Inr i \<longleftrightarrow> v = PInt i \<and> lo \<le> i \<and> i \<le> hi"
  by (cases v) (auto simp: ranged_def int_in_def res_simps)

lemma instant_Inr: "instant v = Inr t \<longleftrightarrow> (\<exists>s. v = PStr s \<and> instant_text s = Inr t)"
  by (cases v) (auto simp: instant_def)

lemma object_Inr: "object v names = Inr u \<longleftrightarrow> is_dict v \<and> same_fields v names"
  by (simp add: object_def)

lemma literal_Inr: "literal v t = Inr u \<longleftrightarrow> v = PStr t"
  by (simp add: literal_def)

lemma limits_Inr:
  "mapE (\<lambda>(key, high). ranged (item v key) 1 high) ks = Inr ls \<Longrightarrow> list_all2 (\<lambda>l kh. 1 \<le> l \<and> l \<le> snd kh) ls ks"
  by (induction ks arbitrary: ls) (auto simp: res_simps ranged_Inr)

lemma roe_body_ok: "roe_body v = Inr r \<Longrightarrow> roe_ok r"
  by (auto simp: roe_body_def res_simps Let_def object_Inr literal_Inr sequence_of_Inr instant_Inr roe_ok_def
      window_ok_def limits_ok_def limits_Inr split: sum.splits dest: validate_scope_ok)

lemma limits_six:
  assumes "limits_ok ls"
  obtains a b c d e f where "ls = [a, b, c, d, e, f]" "1 \<le> a" "a \<le> 64" "1 \<le> b" "b \<le> 256" "1 \<le> c" "c \<le> 1048576"
    "1 \<le> d" "d \<le> 1048576" "1 \<le> e" "e \<le> 60000" "1 \<le> f" "f \<le> 86400000"
  using assms by (auto simp: limits_ok_def LIMITS_def list_all2_Cons2)

lemma roe_body_json: "roe_ok r \<Longrightarrow> roe_body (roe_json r) = Inr r"
proof -
  assume ok: "roe_ok r"
  then obtain a b where t: "instant_text (roe_start r) = Inr a" "instant_text (roe_end r) = Inr b"
    and d: "0 < b - a" "b - a \<le> 86400" "roe_limit r ''max_engagement_ms'' \<le> (b - a) * 1000"
    by (auto simp: roe_ok_def window_ok_def split: sum.splits)
  have seq: "sequence_of (PList (map PStr (roe_profiles r))) PROFILES 1 3 = Inr (roe_profiles r)"
    "sequence_of (PList (map PStr (roe_excluded r))) [''http'', ''ssh''] 0 1 = Inr (roe_excluded r)"
    using ok by (simp_all add: sequence_of_Inr roe_ok_def)
  from ok have "limits_ok (roe_limits r)" by (simp add: roe_ok_def)
  then obtain l1 l2 l3 l4 l5 l6 where ls: "roe_limits r = [l1, l2, l3, l4, l5, l6]" "1 \<le> l1" "l1 \<le> 64" "1 \<le> l2" "l2 \<le> 256"
    "1 \<le> l3" "l3 \<le> 1048576" "1 \<le> l4" "l4 \<le> 1048576" "1 \<le> l5" "l5 \<le> 60000" "1 \<le> l6" "l6 \<le> 86400000"
    by (rule limits_six)
  have lim: "mapE (\<lambda>(key, high). ranged (item (PDict (zip (map fst LIMITS) (map PInt (roe_limits r)))) key) 1 high) LIMITS
      = Inr (roe_limits r)"
    using ls by (simp add: LIMITS_def ranged_def item_PDict)
  have obj: "object (PDict (zip (map fst LIMITS) (map PInt (roe_limits r)))) (map fst LIMITS) = Inr ()"
    by (simp add: object_def ls LIMITS_def same_fields_def fields_of_def)
  have self: "\<lparr>roe_scope = roe_scope r, roe_profiles = roe_profiles r, roe_excluded = roe_excluded r,
      roe_start = roe_start r, roe_end = roe_end r, roe_limits = roe_limits r\<rparr> = r" by simp
  have top: "object (roe_json r) ROE_FIELDS = Inr ()"
    "item (roe_json r) ''schema_version'' = PStr ''1''" "item (roe_json r) ''mode'' = PStr ''disconnected_owned''"
    "item (roe_json r) ''scope'' = scope_json (roe_scope r)"
    "item (roe_json r) ''allowed_profiles'' = PList (map PStr (roe_profiles r))"
    "item (roe_json r) ''excluded_services'' = PList (map PStr (roe_excluded r))"
    "item (roe_json r) ''window'' = PDict [(''start_utc'', PStr (roe_start r)), (''end_utc'', PStr (roe_end r))]"
    "item (roe_json r) ''limits'' = PDict (zip (map fst LIMITS) (map PInt (roe_limits r)))"
    by (simp_all add: roe_json_def item_PDict object_def ROE_FIELDS_def same_fields_def fields_of_def)
  have win: "object (PDict [(''start_utc'', PStr (roe_start r)), (''end_utc'', PStr (roe_end r))]) [''start_utc'', ''end_utc''] = Inr ()"
    "item (PDict [(''start_utc'', PStr (roe_start r)), (''end_utc'', PStr (roe_end r))]) ''start_utc'' = PStr (roe_start r)"
    "item (PDict [(''start_utc'', PStr (roe_start r)), (''end_utc'', PStr (roe_end r))]) ''end_utc'' = PStr (roe_end r)"
    by (simp_all add: object_def same_fields_def fields_of_def item_PDict)
  have sc: "validate_scope (scope_json (roe_scope r)) = Inr (roe_scope r)"
    using ok by (simp add: roe_ok_def validate_scope_json)
  have inst: "instant (PStr (roe_start r)) = Inr a" "instant (PStr (roe_end r)) = Inr b"
    using t by (simp_all add: instant_def)
  show ?thesis
    unfolding roe_body_def top win Let_def
    using ok d by (simp add: literal_def sc seq [unfolded One_nat_def] inst lim obj win top self roe_ok_def)
qed

section \<open>Sizes\<close>

lemma octet_length: "octet s = Some n \<Longrightarrow> length s \<le> 3"
  by (simp add: octet_def split: if_splits)

lemma target_length: "target_ok s \<Longrightarrow> length s \<le> 15"
proof -
  assume "target_ok s"
  then obtain w x y z where parts: "split_on (CHR ''.'') s = [w, x, y, z]"
    and o: "octet w \<noteq> None" "octet x \<noteq> None" "octet y \<noteq> None" "octet z \<noteq> None"
    by (auto simp: target_ok_def ipv4_def split: option.splits list.splits)
  have "length w \<le> 3" "length x \<le> 3" "length y \<le> 3" "length z \<le> 3" using o octet_length by blast+
  then show ?thesis using length_split_on [of s "CHR ''.''"] by (simp add: parts)
qed

lemma instant_length: "instant_text s = Inr t \<Longrightarrow> length s = 20"
  by (auto simp: instant_text_def instant_shape_def res_simps)

text \<open>The length of a dictionary's text, entry by entry.\<close>

definition len :: "pyval \<Rightarrow> int" where "len v = int (length (dumps v))"

lemma len_simps:
  "len (PStr s) = int (length (json_string s))"
  "len (PInt i) = int (length (show_int i))"
  "len PNone = 4"
  "len (PList xs) = 2 + int (length xs - 1) + sum_list (map len xs)"
  "len (PDict kvs) = 2 + int (length kvs - 1) + sum_list (map (\<lambda>kv. int (length (json_string (fst kv))) + 1 + len (snd kv)) kvs)"
  unfolding len_def length_elements length_entries
  by (simp_all add: len_def entry_def algebra_simps cong: map_cong)

lemma len_str_le: "int (length s) \<le> n \<Longrightarrow> len (PStr s) \<le> 6 * n + 2"
  using length_json_string [of s] by (simp add: len_simps)

lemma len_int_le: "0 \<le> i \<Longrightarrow> i < 10 ^ n \<Longrightarrow> 1 \<le> n \<Longrightarrow> len (PInt i) \<le> int n"
  using length_show_int [of i n] by (simp add: len_simps)

lemma endpoint_len: "endpoint_ok http e \<Longrightarrow> len (endpoint_json e) \<le> 900"
proof -
  assume ok: "endpoint_ok http e"
  have t: "len (PStr (ep_target e)) \<le> 92"
    using ok target_length [of "ep_target e"] len_str_le [of "ep_target e" 15] by (simp add: endpoint_ok_def)
  have p: "len (PInt (ep_port e)) \<le> 5"
    using ok len_int_le [of "ep_port e" 5] by (simp add: endpoint_ok_def port_ok_def)
  show ?thesis
  proof (cases "ep_path e")
    case None
    then show ?thesis using t p by (simp add: endpoint_json_def len_simps(5)) (simp add: json_string_def escape_char_def)
  next
    case (Some q)
    then have "len (PStr q) \<le> 770" using ok len_str_le [of q 128] by (simp add: endpoint_ok_def path_ok_def)
    then show ?thesis using t p Some
      by (simp add: endpoint_json_def len_simps(5)) (simp add: json_string_def escape_char_def)
  qed
qed

lemma scope_len: "scope_ok s \<Longrightarrow> len (scope_json s) \<le> 2200"
proof -
  assume ok: "scope_ok s"
  have "len (PStr (sc_id s)) \<le> 290"
    using ok len_str_le [of "sc_id s" 48] by (simp add: scope_ok_def scope_id_ok_def)
  moreover have "len (endpoint_json (sc_http s)) \<le> 900" "len (endpoint_json (sc_ssh s)) \<le> 900"
    using ok by (auto simp: scope_ok_def intro: endpoint_len)
  ultimately show ?thesis
    by (simp add: scope_json_def len_simps(5)) (simp add: len_simps(1) json_string_def escape_char_def)
qed

lemma names_len:
  assumes "names_from allowed lo hi xs" and "\<forall>s \<in> set allowed. len (PStr s) \<le> b" and "0 \<le> b"
  shows "len (PList (map PStr xs)) \<le> 2 + int hi * (b + 1)"
proof -
  have "sum_list (map (\<lambda>s. len (PStr s)) ys) \<le> int (length ys) * b" if "set ys \<subseteq> set allowed" for ys
    using that by (induction ys) (use assms(2) in \<open>auto simp: algebra_simps\<close>)
  then have "sum_list (map (\<lambda>s. len (PStr s)) xs) \<le> int (length xs) * b"
    using assms(1) by (simp add: names_from_def)
  also have "int (length xs) * b \<le> int hi * b"
    using assms(1,3) by (intro mult_right_mono) (auto simp: names_from_def)
  finally have "sum_list (map (\<lambda>s. len (PStr s)) xs) \<le> int hi * b" .
  moreover have "int (length xs - 1) \<le> int hi" using assms(1) by (auto simp: names_from_def)
  ultimately show ?thesis by (simp add: len_simps(4) comp_def algebra_simps)
qed

lemma roe_len: "roe_ok r \<Longrightarrow> len (roe_json r) \<le> 4000"
proof -
  assume ok: "roe_ok r"
  have sc: "len (scope_json (roe_scope r)) \<le> 2200" using ok scope_len by (simp add: roe_ok_def)
  have pr: "len (PList (map PStr (roe_profiles r))) \<le> 2 + int 3 * (32 + 1)"
    by (rule names_len [of PROFILES 1]) (use ok in \<open>simp_all add: roe_ok_def PROFILES_def len_simps json_string_def escape_char_def\<close>)
  have ex: "len (PList (map PStr (roe_excluded r))) \<le> 2 + int 1 * (6 + 1)"
    by (rule names_len [of "[''http'', ''ssh'']" 0]) (use ok in \<open>simp_all add: roe_ok_def len_simps json_string_def escape_char_def\<close>)
  have ts: "len (PStr (roe_start r)) \<le> 122" "len (PStr (roe_end r)) \<le> 122"
    using ok len_str_le [of "roe_start r" 20] len_str_le [of "roe_end r" 20]
    by (auto simp: roe_ok_def window_ok_def instant_length split: sum.splits)
  from ok have "limits_ok (roe_limits r)" by (simp add: roe_ok_def)
  then obtain l1 l2 l3 l4 l5 l6 where ls: "roe_limits r = [l1, l2, l3, l4, l5, l6]" "1 \<le> l1" "l1 \<le> 64" "1 \<le> l2" "l2 \<le> 256"
    "1 \<le> l3" "l3 \<le> 1048576" "1 \<le> l4" "l4 \<le> 1048576" "1 \<le> l5" "l5 \<le> 60000" "1 \<le> l6" "l6 \<le> 86400000"
    by (rule limits_six)
  have li: "len (PInt l1) \<le> 8" "len (PInt l2) \<le> 8" "len (PInt l3) \<le> 8" "len (PInt l4) \<le> 8" "len (PInt l5) \<le> 8" "len (PInt l6) \<le> 8"
    using ls len_int_le [of _ 8] by (auto)
  have "len (PDict (zip (map fst LIMITS) (map PInt (roe_limits r)))) \<le> 300"
    using li by (simp add: ls LIMITS_def len_simps(5)) (simp add: json_string_def escape_char_def)
  moreover have "len (PDict [(''start_utc'', PStr (roe_start r)), (''end_utc'', PStr (roe_end r))]) \<le> 300"
    using ts by (simp add: len_simps(5)) (simp add: json_string_def escape_char_def)
  ultimately show ?thesis using sc pr ex
    by (simp add: roe_json_def len_simps(5)) (simp add: len_simps(1) json_string_def escape_char_def)
qed

end
