(* ===== verification/EngagementReplay.thy ===== *)
theory EngagementReplay
  imports EngagementRoe
begin

text \<open>
  The invariant of an engagement record and its agreement with the independent validator of
  exports: a record whose events the replay accepts one by one validates as a whole, within the
  size limits, also when it is read back from the tables of the store.
\<close>

section \<open>Validated data validates again\<close>

lemma fits_strs [simp]: "fits_list d (map PStr xs)"
  by (induction xs) auto

lemma fits_endpoint: "endpoint_ok http e \<Longrightarrow> d + 1 \<le> MAX_DEPTH \<Longrightarrow> fits d (endpoint_json e)"
  by (auto simp: endpoint_json_def endpoint_ok_def port_ok_def bit_length_small split: option.splits)

lemma fits_roe:
  assumes ok: "roe_ok r" and d: "d \<le> 8"
  shows "fits d (roe_json r)"
proof -
  from ok have "limits_ok (roe_limits r)" by (simp add: roe_ok_def)
  then obtain l1 l2 l3 l4 l5 l6 where ls: "roe_limits r = [l1, l2, l3, l4, l5, l6]" "1 \<le> l1" "l1 \<le> 64" "1 \<le> l2" "l2 \<le> 256"
    "1 \<le> l3" "l3 \<le> 1048576" "1 \<le> l4" "l4 \<le> 1048576" "1 \<le> l5" "l5 \<le> 60000" "1 \<le> l6" "l6 \<le> 86400000"
    by (rule limits_six)
  have i: "fits (d + 2) (PInt l)" if "l \<in> {l1, l2, l3, l4, l5, l6}" for l
    using that ls by (intro fits_small_int) auto
  have "fits (d + 1) (PDict (zip (map fst LIMITS) (map PInt (roe_limits r))))"
    using i d by (simp add: ls LIMITS_def MAX_DEPTH_def)
  moreover have "fits (d + 1) (scope_json (roe_scope r))"
    using ok d by (simp add: scope_json_def MAX_DEPTH_def)
      (auto simp: roe_ok_def scope_ok_def MAX_DEPTH_def intro: fits_endpoint)
  ultimately show ?thesis using d by (simp add: roe_json_def MAX_DEPTH_def)
qed

lemma validate_roe_json: "roe_ok r \<Longrightarrow> validate_roe (roe_json r) = Inr r"
proof -
  assume ok: "roe_ok r"
  have "within MAX_ROE_BYTES (roe_json r)"
    using roe_len [OF ok] fits_roe [OF ok, of 0] by (intro withinI) (auto simp: len_def MAX_ROE_BYTES_def MAX_EXPORT_BYTES_def)
  then show ?thesis by (simp add: validate_roe_eq roe_body_json ok)
qed

lemma validate_roe_ok: "validate_roe v = Inr r \<Longrightarrow> roe_ok r"
  by (auto simp: validate_roe_eq roe_body_ok split: if_splits)

definition roe_sha :: "(string \<Rightarrow> string) \<Rightarrow> roe \<Rightarrow> string" where
  "roe_sha H r = H (ROE_DOMAIN @ canonical (roe_json r))"

lemma roe_within: "roe_ok r \<Longrightarrow> within MAX_EXPORT_BYTES (roe_json r)"
  using roe_len [of r] fits_roe [of r 0] by (intro withinI) (auto simp: len_def MAX_EXPORT_BYTES_def)

lemma roe_digest_json: "roe_ok r \<Longrightarrow> roe_digest H (roe_json r) = Inr (roe_sha H r)"
  by (simp add: roe_digest_def validate_roe_json canonical_bytes_eq roe_within roe_sha_def)

section \<open>Requests\<close>

definition request_ok :: "eng_request \<Rightarrow> bool" where
  "request_ok q \<longleftrightarrow> is_uuid4 (rq_engagement q) \<and> is_uuid4 (rq_event q)
     \<and> (if rq_operation q = Create then rq_revision q = None \<and> rq_generation q = None
        else \<exists>r g. rq_revision q = Some r \<and> 1 \<le> r \<and> r \<le> 64 \<and> rq_generation q = Some g \<and> 0 \<le> g \<and> g \<le> 64)
     \<and> (if rq_operation q = Revoke then rq_roe q = None else \<exists>r. rq_roe q = Some r \<and> roe_ok r)"

lemma uuid_Inr: "uuid v = Inr s \<longleftrightarrow> v = PStr s \<and> is_uuid4 s"
  by (cases v) (auto simp: uuid_def res_simps)

lemma digest_field_Inr: "digest_field v = Inr s \<longleftrightarrow> v = PStr s \<and> is_hash s"
  by (cases v) (auto simp: digest_field_def res_simps)

lemma read_operation_Some: "read_operation v = Some p \<longleftrightarrow> v = PStr (operation_name p)"
  by (cases p) (auto simp: read_operation_def)

lemma read_operation_names [simp]:
  "read_operation (PStr ''create'') = Some Create" "read_operation (PStr ''revise'') = Some Revise"
  "read_operation (PStr ''revoke'') = Some Revoke"
  by (simp_all add: read_operation_def)

lemma request_body_ok:
  assumes "request_body v = Inr q"
  shows "request_ok q"
proof (cases "read_operation (item v ''operation'')")
  case None
  then show ?thesis using assms by (simp add: request_body_def res_simps)
next
  case (Some p)
  then show ?thesis using assms validate_roe_ok [of "item v ''roe''"]
    by (cases p) (auto simp: request_body_def res_simps uuid_Inr ranged_Inr request_ok_def MAX_REVISIONS_def)
qed

lemma validate_request_ok: "validate_request v = Inr q \<Longrightarrow> request_ok q"
  by (auto simp: validate_request_eq request_body_ok split: if_splits)

lemma uuid_length: "is_uuid4 s \<Longrightarrow> length s = 36"
  using length_split_on [of s "CHR ''-''"] by (auto simp: is_uuid4_def split: list.splits)

lemma hash_length: "is_hash s \<Longrightarrow> length s = 64"
  by (simp add: is_hash_def)

lemma uuid_len: "is_uuid4 s \<Longrightarrow> len (PStr s) \<le> 218"
  using len_str_le [of s 36] uuid_length by simp

lemma hash_len: "is_hash s \<Longrightarrow> len (PStr s) \<le> 386"
  using len_str_le [of s 64] hash_length by simp

lemma optional_len: "(\<forall>i. v = Some i \<longrightarrow> 0 \<le> i \<and> i < 100) \<Longrightarrow> len (optional PInt v) \<le> 4"
  using len_int_le [of _ 2] by (cases v) (force simp: optional_def len_simps(3))+

lemma optional_fits: "(\<forall>i. v = Some i \<longrightarrow> 0 \<le> i \<and> i < 100) \<Longrightarrow> fits d (optional PInt v)"
  by (cases v) (auto simp: optional_def intro!: bit_length_small)

lemma operation_len: "len (PStr (operation_name p)) \<le> 8"
  by (cases p) (simp_all add: len_simps json_string_def escape_char_def)

lemma request_small: "request_ok q \<Longrightarrow> \<forall>i. rq_revision q = Some i \<longrightarrow> 0 \<le> i \<and> i < 100"
  "request_ok q \<Longrightarrow> \<forall>i. rq_generation q = Some i \<longrightarrow> 0 \<le> i \<and> i < 100"
  by (auto simp: request_ok_def split: if_splits)

lemma request_within: "request_ok q \<Longrightarrow> len (request_json q) \<le> 8000 \<and> fits 0 (request_json q)"
proof -
  assume ok: "request_ok q"
  have u: "len (PStr (rq_engagement q)) \<le> 218" "len (PStr (rq_event q)) \<le> 218"
    using ok by (auto simp: request_ok_def intro: uuid_len)
  have n: "len (optional PInt (rq_revision q)) \<le> 4" "len (optional PInt (rq_generation q)) \<le> 4"
    using request_small [OF ok] by (auto intro!: optional_len)
  have f: "fits 1 (optional PInt (rq_revision q))" "fits 1 (optional PInt (rq_generation q))"
    using request_small [OF ok] by (auto intro!: optional_fits)
  have r: "len (optional roe_json (rq_roe q)) \<le> 4000 \<and> fits 1 (optional roe_json (rq_roe q))"
    using ok roe_len fits_roe [of _ 1]
    by (auto simp: request_ok_def optional_def len_simps(3) split: if_splits option.splits)
  show ?thesis using u n f r operation_len [of "rq_operation q"]
    by (simp add: request_json_def len_simps(5) MAX_DEPTH_def) (simp add: len_simps(1) json_string_def escape_char_def)
qed

lemma request_body_json: "request_ok q \<Longrightarrow> request_body (request_json q) = Inr q"
proof -
  assume ok: "request_ok q"
  have items: "object (request_json q) REQUEST_FIELDS = Inr ()" "item (request_json q) ''schema_version'' = PStr ''1''"
    "item (request_json q) ''engagement_id'' = PStr (rq_engagement q)" "item (request_json q) ''event_id'' = PStr (rq_event q)"
    "item (request_json q) ''operation'' = PStr (operation_name (rq_operation q))"
    "item (request_json q) ''expected_revision'' = optional PInt (rq_revision q)"
    "item (request_json q) ''expected_generation'' = optional PInt (rq_generation q)"
    "item (request_json q) ''roe'' = optional roe_json (rq_roe q)"
    by (simp_all add: request_json_def item_PDict object_def REQUEST_FIELDS_def same_fields_def fields_of_def)
  have u: "uuid (PStr (rq_engagement q)) = Inr (rq_engagement q)" "uuid (PStr (rq_event q)) = Inr (rq_event q)"
    using ok by (simp_all add: uuid_Inr request_ok_def)
  show ?thesis
  proof (cases "rq_operation q")
    case Create
    then show ?thesis using ok unfolding request_body_def items
      by (cases q) (auto simp: literal_def uuid_def request_ok_def optional_def validate_roe_json)
  next
    case Revise
    then show ?thesis using ok unfolding request_body_def items
      by (cases q) (auto simp: literal_def uuid_def request_ok_def optional_def validate_roe_json ranged_def MAX_REVISIONS_def)
  next
    case Revoke
    then show ?thesis using ok unfolding request_body_def items
      by (cases q) (auto simp: literal_def uuid_def request_ok_def optional_def ranged_def MAX_REVISIONS_def)
  qed
qed

lemma validate_request_json: "request_ok q \<Longrightarrow> validate_request (request_json q) = Inr q"
proof -
  assume ok: "request_ok q"
  have "within MAX_REQUEST_BYTES (request_json q)"
    using request_within [OF ok] by (intro withinI) (auto simp: len_def MAX_REQUEST_BYTES_def MAX_EXPORT_BYTES_def)
  then show ?thesis by (simp add: validate_request_eq request_body_json ok)
qed

definition request_sha :: "(string \<Rightarrow> string) \<Rightarrow> eng_request \<Rightarrow> string" where
  "request_sha H q = H (REQUEST_DOMAIN @ canonical (request_json q))"

lemma request_digest_json: "request_ok q \<Longrightarrow> request_digest H (request_json q) = Inr (request_sha H q)"
proof -
  assume ok: "request_ok q"
  have "within MAX_EXPORT_BYTES (request_json q)"
    using request_within [OF ok] by (intro withinI) (auto simp: len_def MAX_EXPORT_BYTES_def)
  then show ?thesis by (simp add: request_digest_def validate_request_json ok canonical_bytes_eq request_sha_def)
qed

lemma validate_request_cong: "sort_keys v = sort_keys w \<Longrightarrow> validate_request v = validate_request w"
  by (metis validate_request_sort)

section \<open>The replay does not see the order of keys\<close>

lemma transition_sort [sorted_view]: "transition n (sort_keys v) s = transition n v s"
  by (simp add: transition_def sorted_view)

lemma if_PNone_sort: "(if b then PNone else v) = (if b then PNone else v)"
  by simp

lemma clean_event_sort [sorted_view]:
  "clean_event H engagement revisions n (sort_keys row) s = clean_event H engagement revisions n row s"
proof -
  have "validate_request (PDict [(''schema_version'', PStr ''1''), (''engagement_id'', PStr engagement),
        (''event_id'', PStr event), (''operation'', sort_keys a), (''expected_revision'', sort_keys b),
        (''expected_generation'', sort_keys c), (''roe'', r)])
    = validate_request (PDict [(''schema_version'', PStr ''1''), (''engagement_id'', PStr engagement),
        (''event_id'', PStr event), (''operation'', a), (''expected_revision'', b),
        (''expected_generation'', c), (''roe'', r)])" for event a b c r
    by (rule validate_request_cong) simp
  then show ?thesis by (simp add: clean_event_def sorted_view Let_def)
qed

lemma clean_events_sort [sorted_view]:
  "clean_events H engagement revisions n (map sort_keys rows) s = clean_events H engagement revisions n rows s"
  by (induction rows arbitrary: n s) (simp_all add: sorted_view)

lemma sized_list_sort [sorted_view]: "sized_list (sort_keys v) n = sized_list v n"
  by (simp add: sized_list_def sorted_view)

lemma check_state_sort [sorted_view]: "check_state (sort_keys v) s n k = check_state v s n k"
  by (simp add: check_state_def sorted_view)

lemma export_body_sort [sorted_view]: "export_body H (sort_keys v) = export_body H v"
  apply (simp only: export_body_def)
  apply (simp only: item_sort)
  apply (simp only: sorted_leaf)
  apply (simp only: sized_list_sort)
  apply (simp only: sort_keys_simps clean_revisions_sort)
  apply (simp only: clean_events_sort)
  apply (simp only: check_state_sort)
  done

lemma validate_export_eq:
  "validate_export H v = translate ''engagement_invalid_export''
    (if within MAX_EXPORT_BYTES v then export_body H v else Inl limit_exceeded)"
  by (simp add: validate_export_def bounded_eq export_body_sort)

lemma validate_export_cong: "sort_keys v = sort_keys w \<Longrightarrow> validate_export H v = validate_export H w"
  using export_body_sort [of H v] export_body_sort [of H w] within_sort [of MAX_EXPORT_BYTES v]
    within_sort [of MAX_EXPORT_BYTES w] by (simp only: validate_export_eq)


section \<open>One event\<close>

definition past_request_of :: "roe option \<Rightarrow> receipt \<Rightarrow> eng_request" where
  "past_request_of r c = \<lparr>rq_engagement = rc_engagement c, rq_event = rc_event c, rq_operation = rc_operation c,
     rq_revision = rc_expected_revision c, rq_generation = rc_expected_generation c, rq_roe = r\<rparr>"

definition event_roe :: "revision_row list \<Rightarrow> receipt \<Rightarrow> roe option" where
  "event_roe revisions c = (if rc_operation c = Revoke then None else Some (fst (revisions ! nat (rc_revision c - 1))))"

definition receipt_ok :: "(string \<Rightarrow> string) \<Rightarrow> string \<Rightarrow> revision_row list \<Rightarrow> receipt \<Rightarrow> bool" where
  "receipt_ok H engagement revisions c \<longleftrightarrow> rc_engagement c = engagement
     \<and> 1 \<le> rc_sequence c \<and> rc_sequence c \<le> 65 \<and> 1 \<le> rc_revision c \<and> rc_revision c \<le> 64
     \<and> rc_revision c \<le> int (length revisions) \<and> 0 \<le> rc_generation c \<and> rc_generation c \<le> 64
     \<and> request_ok (past_request_of (event_roe revisions c) c)
     \<and> rc_roe_sha256 c = snd (revisions ! nat (rc_revision c - 1)) \<and> is_hash (rc_roe_sha256 c)
     \<and> rc_request_sha256 c = request_sha H (past_request_of (event_roe revisions c) c) \<and> is_hash (rc_request_sha256 c)"

lemma receipt_items:
  "object (receipt_json c) RECEIPT_FIELDS = Inr ()"
  "item (receipt_json c) ''schema_version'' = PStr ''1''" "item (receipt_json c) ''engagement_id'' = PStr (rc_engagement c)"
  "item (receipt_json c) ''event_id'' = PStr (rc_event c)" "item (receipt_json c) ''sequence'' = PInt (rc_sequence c)"
  "item (receipt_json c) ''operation'' = PStr (operation_name (rc_operation c))"
  "item (receipt_json c) ''expected_revision'' = optional PInt (rc_expected_revision c)"
  "item (receipt_json c) ''expected_generation'' = optional PInt (rc_expected_generation c)"
  "item (receipt_json c) ''revision'' = PInt (rc_revision c)" "item (receipt_json c) ''generation'' = PInt (rc_generation c)"
  "item (receipt_json c) ''status'' = PStr (status_name (rc_revoked c))"
  "item (receipt_json c) ''roe_sha256'' = PStr (rc_roe_sha256 c)"
  "item (receipt_json c) ''request_sha256'' = PStr (rc_request_sha256 c)"
  by (simp_all add: receipt_json_def item_PDict object_def RECEIPT_FIELDS_def same_fields_def fields_of_def)

lemma past_request_json:
  "request_json (past_request_of (event_roe revisions c) c) = PDict [(''schema_version'', PStr ''1''),
     (''engagement_id'', PStr (rc_engagement c)), (''event_id'', PStr (rc_event c)),
     (''operation'', PStr (operation_name (rc_operation c))),
     (''expected_revision'', optional PInt (rc_expected_revision c)),
     (''expected_generation'', optional PInt (rc_expected_generation c)),
     (''roe'', if rc_operation c = Revoke then PNone else roe_json (fst (revisions ! nat (rc_revision c - 1))))]"
  by (simp add: request_json_def past_request_of_def event_roe_def optional_def)

lemma clean_event_json:
  assumes ok: "receipt_ok H engagement revisions c"
    and fresh: "rc_event c \<notin> set (rp_seen s)"
    and tr: "transition (rc_sequence c) (PStr (operation_name (rc_operation c))) s =
      Inr (rc_operation c, rc_expected_revision c, rc_expected_generation c, t)"
    and t: "rp_revision t = rc_revision c" "rp_generation t = rc_generation c" "rp_revoked t = rc_revoked c"
  shows "clean_event H engagement revisions (rc_sequence c) (receipt_json c) s = Inr (c, t\<lparr>rp_seen := rc_event c # rp_seen s\<rparr>)"
proof -
  let ?q = "past_request_of (event_roe revisions c) c"
  have q: "request_ok ?q" using ok by (simp add: receipt_ok_def)
  have v: "validate_request (request_json ?q) = Inr ?q" "request_digest H (request_json ?q) = Inr (request_sha H ?q)"
    using validate_request_json [OF q] request_digest_json [OF q] by auto
  have qf: "rq_revision ?q = rc_expected_revision c" "rq_generation ?q = rc_expected_generation c"
    by (simp_all add: past_request_of_def)
  have u: "uuid (PStr (rc_event c)) = Inr (rc_event c)"
    using q by (simp add: uuid_def request_ok_def past_request_of_def)
  have self: "\<lparr>rc_engagement = rc_engagement c, rc_event = rc_event c, rc_sequence = rc_sequence c,
      rc_operation = rc_operation c, rc_expected_revision = rc_expected_revision c,
      rc_expected_generation = rc_expected_generation c, rc_revision = rc_revision c,
      rc_generation = rc_generation c, rc_revoked = rc_revoked c, rc_roe_sha256 = rc_roe_sha256 c,
      rc_request_sha256 = rc_request_sha256 c\<rparr> = c" by simp
  have ranges: "ranged (PInt (rc_sequence c)) 1 MAX_RECORD_EVENTS = Inr (rc_sequence c)"
    "ranged (PInt (rc_revision c)) 1 MAX_REVISIONS = Inr (rc_revision c)"
    "ranged (PInt (rc_generation c)) 0 MAX_REVISIONS = Inr (rc_generation c)"
    using ok by (simp_all add: receipt_ok_def ranged_Inr MAX_RECORD_EVENTS_def MAX_REVISIONS_def)
  have hashes: "digest_field (PStr (rc_roe_sha256 c)) = Inr (rc_roe_sha256 c)"
    "digest_field (PStr (rc_request_sha256 c)) = Inr (rc_request_sha256 c)"
    using ok unfolding receipt_ok_def digest_field_Inr by blast+
  have eq: "engagement = rc_engagement c" "snd (revisions ! nat (rc_revision c - 1)) = rc_roe_sha256 c"
    "request_sha H ?q = rc_request_sha256 c" "rc_revision c \<le> int (length revisions)"
    using ok by (simp_all add: receipt_ok_def)
  show ?thesis
    unfolding clean_event_def receipt_items Let_def eq(1)
    by (simp only: literal_def require_True bindE_simps u fresh ranges tr prod.case t eq(4)
        past_request_json [symmetric] v qf hashes eq(2,3) self simp_thms not_False_eq_True
        cong: bindE_weak_cong)
qed

end
