(* ===== verification/EngagementRecord.thy ===== *)
theory EngagementRecord
  imports EngagementReplay
begin

text \<open>
  The engagement record as an abstract specification: \<open>record_ok\<close> says what a record is,
  \<open>record_next\<close> what a request does to it, without tables, limits of columns or digests that
  are checked twice. A record that is ok validates as an export within every size limit.
\<close>

section \<open>Replaying an extended history\<close>

definition record_rows_ok :: "(string \<Rightarrow> string) \<Rightarrow> revision_row list \<Rightarrow> bool" where
  "record_rows_ok H rows \<longleftrightarrow> (\<forall>(r, d) \<in> set rows. roe_ok r \<and> d = roe_sha H r)"

lemma clean_revisions_json:
  assumes hash: "\<forall>x. is_hash (H x)"
  shows "record_rows_ok H rows \<Longrightarrow> 1 \<le> n \<Longrightarrow> n + int (length rows) \<le> 65 \<Longrightarrow>
    clean_revisions H n (revision_values n rows) = Inr rows"
proof (induction rows arbitrary: n)
  case (Cons row rows)
  obtain r d where row: "row = (r, d)" by (cases row)
  have ok: "roe_ok r" "d = roe_sha H r" using Cons.prems(1) by (auto simp: record_rows_ok_def row)
  have rows: "record_rows_ok H rows" using Cons.prems(1) by (simp add: record_rows_ok_def)
  have h: "is_hash (roe_sha H r)" using hash by (simp add: roe_sha_def)
  have "clean_revision H n (revision_json n row) = Inr row"
    using Cons.prems ok h
    by (simp add: clean_revision_def revision_json_def row object_def same_fields_def fields_of_def item_PDict
        ranged_def MAX_REVISIONS_def validate_roe_json roe_digest_json digest_field_def)
  moreover have "clean_revisions H (n + 1) (revision_values (n + 1) rows) = Inr rows"
    using Cons.prems rows by (intro Cons.IH) auto
  ultimately show ?case by simp
qed simp

lemma clean_events_append:
  "clean_events H engagement revisions n (xs @ ys) s =
    bindE (clean_events H engagement revisions n xs s) (\<lambda>(rs, t).
    bindE (clean_events H engagement revisions (n + int (length xs)) ys t) (\<lambda>(rs', u). Inr (rs @ rs', u)))"
proof (induction xs arbitrary: n s)
  case Nil
  show ?case by (cases "clean_events H engagement revisions n ys s") auto
next
  case (Cons x xs)
  show ?case
    by (cases "clean_event H engagement revisions n x s";
        cases "clean_events H engagement revisions (n + 1) xs (snd (projr (clean_event H engagement revisions n x s)))")
       (auto simp: Cons bindE_assoc split_def algebra_simps)
qed

definition replays :: "(string \<Rightarrow> string) \<Rightarrow> string \<Rightarrow> revision_row list \<Rightarrow> receipt list \<Rightarrow> replay \<Rightarrow> bool" where
  "replays H engagement revisions cs s \<longleftrightarrow>
    clean_events H engagement revisions 1 (map receipt_json cs) replay_start = Inr (cs, s)"

lemma replays_snoc:
  assumes "replays H engagement revisions cs s"
    and "clean_event H engagement revisions (int (length cs) + 1) (receipt_json c) s = Inr (c, t)"
  shows "replays H engagement revisions (cs @ [c]) t"
  using assms by (simp add: replays_def clean_events_append add.commute)

text \<open>Each event of the replay only looks at the revisions that existed then.\<close>

lemma transition_revision:
  "transition n v s = Inr (p, er, eg, t) \<Longrightarrow> 1 \<le> rp_revision s \<or> n = 1 \<Longrightarrow> 1 \<le> rp_revision t"
  by (auto simp: transition_def res_simps split: if_splits)

lemma clean_event_Inr:
  assumes "clean_event H engagement revisions n row s = Inr (c, t)"
  obtains p er eg u where "transition n (item row ''operation'') s = Inr (p, er, eg, u)"
    "rp_revision u \<le> int (length revisions)" "t = u\<lparr>rp_seen := rc_event c # rp_seen s\<rparr>" "rc_event c \<notin> set (rp_seen s)"
proof -
  show ?thesis
  proof (cases "transition n (item row ''operation'') s")
    case (Inl e)
    then show ?thesis using assms by (simp add: clean_event_def res_simps)
  next
    case (Inr a)
    obtain p er eg u where a: "a = (p, er, eg, u)" by (cases a) auto
    show ?thesis
      using assms Inr unfolding a clean_event_def Let_def bindE_Inr
      by (elim exE conjE) (rule that [of p er eg u]; auto simp: bindE_Inr)
  qed
qed


lemma clean_event_later:
  assumes ev: "clean_event H engagement revisions n row s = Inr (c, t)" and s: "1 \<le> rp_revision s \<or> n = 1"
  shows "clean_event H engagement (revisions @ extra) n row s = Inr (c, t)" "1 \<le> rp_revision t"
proof -
  from ev obtain p er eg u where tr: "transition n (item row ''operation'') s = Inr (p, er, eg, u)"
    and le: "rp_revision u \<le> int (length revisions)" and t: "t = u\<lparr>rp_seen := rc_event c # rp_seen s\<rparr>"
    by (rule clean_event_Inr)
  from transition_revision [OF tr s] have pos: "1 \<le> rp_revision u" .
  then show "1 \<le> rp_revision t" using t by simp
  have cur: "(revisions @ extra) ! nat (rp_revision u - 1) = revisions ! nat (rp_revision u - 1)"
    using le pos by (simp add: nth_append) linarith
  have le': "rp_revision u \<le> int (length (revisions @ extra))" using le by simp
  have "clean_event H engagement (revisions @ extra) n row s = clean_event H engagement revisions n row s"
    unfolding clean_event_def Let_def tr bindE_simps prod.case cur using le le' by simp
  then show "clean_event H engagement (revisions @ extra) n row s = Inr (c, t)" using ev by simp
qed

lemma clean_events_later:
  "clean_events H engagement revisions n rows s = Inr (cs, t) \<Longrightarrow> 1 \<le> rp_revision s \<or> n = 1 \<Longrightarrow>
    clean_events H engagement (revisions @ extra) n rows s = Inr (cs, t)"
proof (induction rows arbitrary: n s cs)
  case (Cons row rows)
  from Cons.prems(1) obtain c u cs' where ev: "clean_event H engagement revisions n row s = Inr (c, u)"
    and evs: "clean_events H engagement revisions (n + 1) rows u = Inr (cs', t)" and cs: "cs = c # cs'"
    by (auto simp: res_simps)
  from clean_event_later [OF ev Cons.prems(2)] Cons.IH [OF evs] show ?case by (simp add: cs)
qed simp

lemma replays_later: "replays H engagement revisions cs s \<Longrightarrow> replays H engagement (revisions @ extra) cs s"
  unfolding replays_def by (rule clean_events_later) simp_all

lemma receipt_ok_later: "receipt_ok H engagement revisions c \<Longrightarrow> receipt_ok H engagement (revisions @ extra) c"
proof -
  assume ok: "receipt_ok H engagement revisions c"
  then have "(revisions @ extra) ! nat (rc_revision c - 1) = revisions ! nat (rc_revision c - 1)"
    by (auto simp: receipt_ok_def nth_append)
  then have cur: "(revisions @ extra) ! nat (rc_revision c - 1) = revisions ! nat (rc_revision c - 1)"
    "event_roe (revisions @ extra) c = event_roe revisions c" by (simp_all add: event_roe_def)
  show ?thesis using ok unfolding receipt_ok_def cur by (elim conjE, intro conjI; (assumption | simp))
qed

section \<open>Sizes\<close>

lemma sum_len_le: "(\<And>x. x \<in> set xs \<Longrightarrow> len x \<le> b) \<Longrightarrow> sum_list (map len xs) \<le> int (length xs) * b"
proof (induction xs)
  case (Cons x xs)
  then have "len x \<le> b" "sum_list (map len xs) \<le> int (length xs) * b" by auto
  then show ?case by (simp add: algebra_simps)
qed simp

lemma list_len: "(\<And>x. x \<in> set xs \<Longrightarrow> len x \<le> b) \<Longrightarrow> len (PList xs) \<le> 2 + int (length xs) * (b + 1)"
  using sum_len_le [of xs b] by (simp add: len_simps(4) algebra_simps)

lemma small_len: "0 \<le> i \<Longrightarrow> i < 100 \<Longrightarrow> len (PInt i) \<le> 2"
  using len_int_le [of i 2] by simp

lemma receipt_small:
  assumes ok: "receipt_ok H engagement revisions c"
  shows "len (receipt_json c) \<le> 1600" "fits d (receipt_json c) \<longleftrightarrow> d + 1 \<le> MAX_DEPTH"
proof -
  have q: "request_ok (past_request_of (event_roe revisions c) c)" using ok by (simp add: receipt_ok_def)
  have u: "len (PStr (rc_engagement c)) \<le> 218" "len (PStr (rc_event c)) \<le> 218"
    using q by (auto simp: request_ok_def past_request_of_def intro: uuid_len)
  have h: "len (PStr (rc_roe_sha256 c)) \<le> 386" "len (PStr (rc_request_sha256 c)) \<le> 386"
    using ok unfolding receipt_ok_def by (blast intro: hash_len)+
  have small: "\<forall>i. rc_expected_revision c = Some i \<longrightarrow> 0 \<le> i \<and> i < 100"
    "\<forall>i. rc_expected_generation c = Some i \<longrightarrow> 0 \<le> i \<and> i < 100"
    using request_small [OF q] by (simp_all add: past_request_of_def)
  then have o: "len (optional PInt (rc_expected_revision c)) \<le> 4" "len (optional PInt (rc_expected_generation c)) \<le> 4"
    by (auto intro!: optional_len)
  have n: "len (PInt (rc_sequence c)) \<le> 2" "len (PInt (rc_revision c)) \<le> 2" "len (PInt (rc_generation c)) \<le> 2"
    using ok by (auto simp: receipt_ok_def intro!: small_len)
  have st: "len (PStr (status_name (rc_revoked c))) \<le> 10"
    by (cases "rc_revoked c") (simp_all add: status_name_def len_simps json_string_def escape_char_def)
  show "len (receipt_json c) \<le> 1600"
    using u h o n st operation_len [of "rc_operation c"]
    by (simp add: receipt_json_def len_simps(5)) (simp add: len_simps(1) json_string_def escape_char_def)
  have "fits k (PInt (rc_sequence c))" "fits k (PInt (rc_revision c))" "fits k (PInt (rc_generation c))" for k
    using ok by (auto simp: receipt_ok_def simp del: fits.simps intro!: fits_small_int)
  then show "fits d (receipt_json c) \<longleftrightarrow> d + 1 \<le> MAX_DEPTH"
    using small by (auto simp: receipt_json_def optional_fits)
qed

section \<open>Records\<close>

definition record_replay :: "eng_export \<Rightarrow> replay" where
  "record_replay e = \<lparr>rp_seen = rev (map rc_event (ex_events e)), rp_revision = ex_revision e,
     rp_generation = ex_generation e, rp_revoked = ex_revoked e\<rparr>"

definition record_ok :: "(string \<Rightarrow> string) \<Rightarrow> eng_export \<Rightarrow> bool" where
  "record_ok H e \<longleftrightarrow> is_uuid4 (ex_engagement e) \<and> record_rows_ok H (ex_revisions e)
     \<and> ex_revision e = int (length (ex_revisions e)) \<and> 1 \<le> ex_revision e \<and> ex_revision e \<le> 64
     \<and> int (length (ex_events e)) = ex_generation e + 1
     \<and> ex_generation e = ex_revision e - 1 + (if ex_revoked e then 1 else 0)
     \<and> map rc_sequence (ex_events e) = [1..int (length (ex_events e))] \<and> distinct (map rc_event (ex_events e))
     \<and> list_all (receipt_ok H (ex_engagement e) (ex_revisions e)) (ex_events e)
     \<and> replays H (ex_engagement e) (ex_revisions e) (ex_events e) (record_replay e)"

lemma record_okD:
  assumes "record_ok H e"
  shows "is_uuid4 (ex_engagement e)" "record_rows_ok H (ex_revisions e)"
    "ex_revision e = int (length (ex_revisions e))" "1 \<le> ex_revision e" "ex_revision e \<le> 64"
    "int (length (ex_events e)) = ex_generation e + 1"
    "ex_generation e = ex_revision e - 1 + (if ex_revoked e then 1 else 0)"
    "map rc_sequence (ex_events e) = [1..int (length (ex_events e))]" "distinct (map rc_event (ex_events e))"
    "list_all (receipt_ok H (ex_engagement e) (ex_revisions e)) (ex_events e)"
    "replays H (ex_engagement e) (ex_revisions e) (ex_events e) (record_replay e)"
  using assms by (simp_all add: record_ok_def)

lemma record_bounds:
  assumes "record_ok H e"
  shows "0 \<le> ex_generation e" "ex_generation e \<le> 64" "1 \<le> length (ex_events e)" "length (ex_events e) \<le> 65"
    "1 \<le> length (ex_revisions e)" "length (ex_revisions e) \<le> 64"
  using record_okD(3-7) [OF assms] by (auto split: if_splits)

lemma set_revision_values: "v \<in> set (revision_values n rows) \<Longrightarrow>
    \<exists>i row. row \<in> set rows \<and> v = revision_json i row \<and> n \<le> i \<and> i < n + int (length rows)"
proof (induction rows arbitrary: n)
  case (Cons row rows)
  show ?case
  proof (cases "v = revision_json n row")
    case True
    then show ?thesis by (intro exI [of _ n] exI [of _ row]) simp
  next
    case False
    then have "v \<in> set (revision_values (n + 1) rows)" using Cons.prems by simp
    from Cons.IH [OF this] obtain i r where "r \<in> set rows" "v = revision_json i r" "n + 1 \<le> i"
      "i < n + 1 + int (length rows)" by blast
    then show ?thesis by (intro exI [of _ i] exI [of _ r]) auto
  qed
qed simp

lemma length_revision_values [simp]: "length (revision_values n rows) = length rows"
  by (induction rows arbitrary: n) simp_all

lemma revision_small:
  assumes "roe_ok r" and "is_hash d" and "1 \<le> i" and "i \<le> 64"
  shows "len (revision_json i (r, d)) \<le> 4500" "fits 2 (revision_json i (r, d))"
proof -
  show "len (revision_json i (r, d)) \<le> 4500"
    using roe_len [OF assms(1)] hash_len [OF assms(2)] small_len [of i] assms
    by (simp add: revision_json_def len_simps(5)) (simp add: len_simps(1) json_string_def escape_char_def)
  have "fits 3 (PInt i)" using assms by (intro fits_small_int) auto
  then show "fits 2 (revision_json i (r, d))"
    using fits_roe [OF assms(1), of 3] by (simp add: revision_json_def MAX_DEPTH_def)
qed

lemma fits_list_iff: "fits_list d xs \<longleftrightarrow> (\<forall>x \<in> set xs. fits d x)"
  by (induction xs) auto

lemma export_within:
  assumes hash: "\<forall>x. is_hash (H x)" and ok: "record_ok H e"
  shows "within MAX_EXPORT_BYTES (export_json e)"
proof -
  note b = record_bounds [OF ok]
  have rev: "len v \<le> 4500 \<and> fits 2 v" if "v \<in> set (revision_values 1 (ex_revisions e))" for v
  proof -
    from set_revision_values [OF that] obtain i row where v: "row \<in> set (ex_revisions e)" "v = revision_json i row"
      "1 \<le> i" "i < 1 + int (length (ex_revisions e))" by blast
    obtain r d where row: "row = (r, d)" by (cases row)
    have "roe_ok r" "d = roe_sha H r" using record_okD(2) [OF ok] v(1) by (auto simp: record_rows_ok_def row)
    then show ?thesis using revision_small [of r d i] v b hash by (simp add: row roe_sha_def)
  qed
  have evt: "len (receipt_json c) \<le> 1600 \<and> fits 2 (receipt_json c)" if "c \<in> set (ex_events e)" for c
    using record_okD(10) [OF ok] that receipt_small [of H "ex_engagement e" "ex_revisions e" c]
    by (auto simp: list_all_iff MAX_DEPTH_def)
  have revs: "len (PList (revision_values 1 (ex_revisions e))) \<le> 2 + int (length (ex_revisions e)) * 4501"
    using list_len [of "revision_values 1 (ex_revisions e)" 4500] rev by simp
  have evts: "len (PList (map receipt_json (ex_events e))) \<le> 2 + int (length (ex_events e)) * 1601"
    using list_len [of "map receipt_json (ex_events e)" 1600] evt by auto
  have nums: "len (PInt (ex_revision e)) \<le> 2" "len (PInt (ex_generation e)) \<le> 2"
    "len (PInt (int (length (ex_events e)))) \<le> 2"
    using b record_okD(4,5) [OF ok] by (auto intro!: small_len)
  have st: "len (PStr (status_name (ex_revoked e))) \<le> 10"
    by (cases "ex_revoked e") (simp_all add: status_name_def len_simps json_string_def escape_char_def)
  have state: "len (PDict [(''revision'', PInt (ex_revision e)), (''generation'', PInt (ex_generation e)),
      (''status'', PStr (status_name (ex_revoked e))), (''last_sequence'', PInt (int (length (ex_events e))))]) \<le> 100"
    using nums st by (simp add: len_simps(5)) (simp add: json_string_def escape_char_def)
  have "len (export_json e) \<le> 524288"
    using revs evts state b uuid_len [OF record_okD(1) [OF ok]]
    by (simp add: export_json_def len_simps(5)) (simp add: len_simps(1) json_string_def escape_char_def)
  moreover have "fits 2 (PInt (ex_revision e))" "fits 2 (PInt (ex_generation e))" "fits 2 (PInt (int (length (ex_events e))))"
    using b record_okD(4,5) [OF ok] by (auto simp del: fits.simps intro!: fits_small_int)
  then have "fits 0 (export_json e)"
    using rev evt by (simp add: export_json_def fits_list_iff MAX_DEPTH_def)
  ultimately show ?thesis by (intro withinI) (auto simp: len_def MAX_EXPORT_BYTES_def)
qed

lemma export_items:
  "object (export_json e) [''schema_version'', ''kind'', ''engagement_id'', ''state'', ''revisions'', ''events''] = Inr ()"
  "item (export_json e) ''schema_version'' = PStr ''1''" "item (export_json e) ''kind'' = PStr ''engagement-record-export''"
  "item (export_json e) ''engagement_id'' = PStr (ex_engagement e)"
  "item (export_json e) ''revisions'' = PList (revision_values 1 (ex_revisions e))"
  "item (export_json e) ''events'' = PList (map receipt_json (ex_events e))"
  "item (export_json e) ''state'' = PDict [(''revision'', PInt (ex_revision e)), (''generation'', PInt (ex_generation e)),
     (''status'', PStr (status_name (ex_revoked e))), (''last_sequence'', PInt (int (length (ex_events e))))]"
  by (simp_all add: export_json_def item_PDict object_def same_fields_def fields_of_def)

lemma export_body_json:
  assumes hash: "\<forall>x. is_hash (H x)" and ok: "record_ok H e"
  shows "export_body H (export_json e) = Inr e"
proof -
  note b = record_bounds [OF ok] and d = record_okD [OF ok]
  have revs: "clean_revisions H 1 (revision_values 1 (ex_revisions e)) = Inr (ex_revisions e)"
    using clean_revisions_json [OF hash d(2), of 1] b by simp
  have evs: "clean_events H (ex_engagement e) (ex_revisions e) 1 (map receipt_json (ex_events e)) replay_start
      = Inr (ex_events e, record_replay e)"
    using d(11) by (simp add: replays_def)
  have st: "check_state (PDict [(''revision'', PInt (ex_revision e)), (''generation'', PInt (ex_generation e)),
     (''status'', PStr (status_name (ex_revoked e))), (''last_sequence'', PInt (int (length (ex_events e))))])
     (record_replay e) (int (length (ex_revisions e))) (int (length (ex_events e))) = Inr ()"
    using b d(3,4,5) by (simp add: check_state_def object_def same_fields_def fields_of_def item_PDict ranged_def
        record_replay_def MAX_REVISIONS_def MAX_RECORD_EVENTS_def literal_def)
  have sz: "sized_list (PList (revision_values 1 (ex_revisions e))) MAX_REVISIONS"
    "sized_list (PList (map receipt_json (ex_events e))) MAX_RECORD_EVENTS"
    using b by (simp_all add: sized_list_def MAX_REVISIONS_def MAX_RECORD_EVENTS_def)
  have u: "uuid (PStr (ex_engagement e)) = Inr (ex_engagement e)" using d(1) by (simp add: uuid_def)
  show ?thesis
    unfolding export_body_def export_items by (simp add: literal_def u sz revs evs st) (simp add: record_replay_def)
qed

lemma validate_export_json:
  "\<forall>x. is_hash (H x) \<Longrightarrow> record_ok H e \<Longrightarrow> validate_export H (export_json e) = Inr e"
  by (simp add: validate_export_eq export_within export_body_json)

end
