(* ===== verification/EngagementRefine.thy ===== *)
theory EngagementRefine
  imports EngagementRecord
begin

text \<open>
  The store implements the record: what a request does to the tables is what \<open>record_next\<close>
  does to the record they hold, and the checked snapshot reads that record back.
\<close>

section \<open>What a request does to a record\<close>

definition new_receipt :: "(string \<Rightarrow> string) \<Rightarrow> eng_request \<Rightarrow> eng_export \<Rightarrow> receipt" where
  "new_receipt H q e = \<lparr>rc_engagement = rq_engagement q, rc_event = rq_event q,
     rc_sequence = int (length (ex_events e)) + 1, rc_operation = rq_operation q,
     rc_expected_revision = rq_revision q, rc_expected_generation = rq_generation q,
     rc_revision = (if rq_operation q = Revise then ex_revision e + 1 else ex_revision e),
     rc_generation = ex_generation e + 1, rc_revoked = (rq_operation q \<noteq> Revise),
     rc_roe_sha256 = (if rq_operation q = Revise then roe_sha H (the (rq_roe q)) else snd (last (ex_revisions e))),
     rc_request_sha256 = request_sha H q\<rparr>"

definition new_revisions :: "(string \<Rightarrow> string) \<Rightarrow> eng_request \<Rightarrow> revision_row list" where
  "new_revisions H q = (if rq_operation q = Revise then [(the (rq_roe q), roe_sha H (the (rq_roe q)))] else [])"

definition advance :: "(string \<Rightarrow> string) \<Rightarrow> eng_request \<Rightarrow> eng_export \<Rightarrow> eng_export" where
  "advance H q e = e\<lparr>ex_revision := rc_revision (new_receipt H q e), ex_generation := ex_generation e + 1,
     ex_revoked := rq_operation q \<noteq> Revise, ex_revisions := ex_revisions e @ new_revisions H q,
     ex_events := ex_events e @ [new_receipt H q e]\<rparr>"

definition known_event :: "string \<Rightarrow> eng_export \<Rightarrow> receipt option" where
  "known_event event e = find (\<lambda>r. rc_event r = event) (ex_events e)"

definition record_next :: "(string \<Rightarrow> string) \<Rightarrow> eng_request \<Rightarrow> eng_export \<Rightarrow> string + (receipt \<times> eng_export)" where
  "record_next H q e = (case known_event (rq_event q) e of
     Some r \<Rightarrow> if past_request e r = q then Inr (r, e) else Inl ''engagement_conflict''
   | None \<Rightarrow>
       if ex_revoked e then Inl ''engagement_revoked''
       else if rq_revision q \<noteq> Some (ex_revision e) \<or> rq_generation q \<noteq> Some (ex_generation e)
         then Inl ''engagement_conflict''
       else if rq_operation q = Revise \<and> 64 \<le> ex_revision e then Inl limit_exceeded
       else Inr (new_receipt H q e, advance H q e))"

definition record_start :: "(string \<Rightarrow> string) \<Rightarrow> eng_request \<Rightarrow> eng_export" where
  "record_start H q = (let d = roe_sha H (the (rq_roe q)) in
    \<lparr>ex_engagement = rq_engagement q, ex_revision = 1, ex_generation = 0, ex_revoked = False,
     ex_revisions = [(the (rq_roe q), d)],
     ex_events = [\<lparr>rc_engagement = rq_engagement q, rc_event = rq_event q, rc_sequence = 1, rc_operation = Create,
       rc_expected_revision = None, rc_expected_generation = None, rc_revision = 1, rc_generation = 0,
       rc_revoked = False, rc_roe_sha256 = d, rc_request_sha256 = request_sha H q\<rparr>]\<rparr>)"

lemma record_start_simps [simp]:
  "ex_engagement (record_start H q) = rq_engagement q" "ex_revision (record_start H q) = 1"
  "ex_generation (record_start H q) = 0" "\<not> ex_revoked (record_start H q)"
  "map rc_event (ex_events (record_start H q)) = [rq_event q]"
  by (simp_all add: record_start_def Let_def)

section \<open>Records stay well-formed\<close>

lemma known_event_Some: "known_event event e = Some r \<Longrightarrow> r \<in> set (ex_events e) \<and> rc_event r = event"
  unfolding known_event_def by (drule find_key_Some) simp

lemma known_event_None: "known_event event e = None \<longleftrightarrow> event \<notin> rc_event ` set (ex_events e)"
  unfolding known_event_def find_key_None by auto

lemma record_rows_last:
  assumes "record_rows_ok H rows" and "rows \<noteq> []" and "\<forall>x. is_hash (H x)"
  shows "is_hash (snd (last rows))"
proof -
  have "last rows \<in> set rows" using assms(2) by simp
  moreover obtain r d where l: "last rows = (r, d)" by (cases "last rows")
  ultimately have "d = roe_sha H r" using assms(1) unfolding record_rows_ok_def by auto
  then show ?thesis using assms(3) by (simp add: l roe_sha_def)
qed

lemma mutation_shape:
  assumes "request_ok q" and "rq_revision q = Some r"
  shows "rq_operation q = Revise \<and> (\<exists>p. rq_roe q = Some p \<and> roe_ok p) \<or> rq_operation q = Revoke \<and> rq_roe q = None"
  using assms by (cases "rq_operation q") (auto simp: request_ok_def)

lemma advance_ok:
  assumes hash: "\<forall>x. is_hash (H x)" and ok: "record_ok H e" and q: "request_ok q"
    and id: "rq_engagement q = ex_engagement e" and fresh: "known_event (rq_event q) e = None"
    and live: "\<not> ex_revoked e" and rev: "rq_revision q = Some (ex_revision e)"
    and gen: "rq_generation q = Some (ex_generation e)"
    and room: "rq_operation q = Revise \<Longrightarrow> ex_revision e < 64"
  shows "record_ok H (advance H q e)"
proof -
  let ?c = "new_receipt H q e" and ?revs = "ex_revisions e @ new_revisions H q"
  note d = record_okD [OF ok] and b = record_bounds [OF ok]
  have shape: "rq_operation q = Revise \<and> (\<exists>p. rq_roe q = Some p \<and> roe_ok p) \<or> rq_operation q = Revoke \<and> rq_roe q = None"
    using mutation_shape [OF q rev] .
  have rows: "record_rows_ok H ?revs"
    using shape d(2) by (auto simp: record_rows_ok_def new_revisions_def)
  have cur: "?revs ! nat (rc_revision ?c - 1) = (if rq_operation q = Revise then (the (rq_roe q), roe_sha H (the (rq_roe q)))
      else last (ex_revisions e))"
    using shape b d(3) by (auto simp: new_receipt_def new_revisions_def nth_append last_conv_nth nat_diff_distrib)
  have roe: "event_roe ?revs ?c = rq_roe q"
    using shape unfolding event_roe_def cur by (auto simp: new_receipt_def)
  have past: "past_request_of (event_roe ?revs ?c) ?c = q"
    unfolding roe by (simp add: past_request_of_def new_receipt_def)
  have len: "rc_revision ?c = int (length ?revs)"
    using shape d(3) by (auto simp: new_receipt_def new_revisions_def)
  have revs_nonempty: "ex_revisions e \<noteq> []" using b(5) by auto
  have h: "is_hash (rc_roe_sha256 ?c)"
    using hash record_rows_last [OF d(2) revs_nonempty hash] by (simp add: new_receipt_def roe_sha_def)
  have gens: "ex_generation e = ex_revision e - 1" "rc_revision ?c \<le> 64" "1 \<le> rc_revision ?c"
    using d live room by (auto simp: new_receipt_def)
  have c: "receipt_ok H (ex_engagement e) ?revs ?c"
    unfolding receipt_ok_def past
    using q hash h len gens b d id cur by (auto simp: new_receipt_def request_sha_def)
  let ?t = "record_replay e\<lparr>rp_revision := rc_revision ?c, rp_generation := rc_generation ?c, rp_revoked := rc_revoked ?c\<rparr>"
  have tr: "transition (rc_sequence ?c) (PStr (operation_name (rc_operation ?c))) (record_replay e)
      = Inr (rc_operation ?c, rc_expected_revision ?c, rc_expected_generation ?c, ?t)"
    using shape live rev gen b(3) d(4) room
    by (auto simp: transition_def new_receipt_def record_replay_def MAX_REVISIONS_def)
  have new: "rc_event ?c \<notin> set (rp_seen (record_replay e))"
    using fresh unfolding known_event_None by (simp add: record_replay_def new_receipt_def)
  have "clean_event H (ex_engagement e) ?revs (rc_sequence ?c) (receipt_json ?c) (record_replay e)
      = Inr (?c, ?t\<lparr>rp_seen := rc_event ?c # rp_seen (record_replay e)\<rparr>)"
    by (rule clean_event_json [OF c new tr]) simp_all
  then have "replays H (ex_engagement e) ?revs (ex_events e @ [?c]) (?t\<lparr>rp_seen := rc_event ?c # rp_seen (record_replay e)\<rparr>)"
    by (intro replays_snoc [OF replays_later [OF d(11)]]) (simp add: new_receipt_def)
  moreover have "?t\<lparr>rp_seen := rc_event ?c # rp_seen (record_replay e)\<rparr> = record_replay (advance H q e)"
    by (simp add: record_replay_def advance_def new_receipt_def)
  moreover have "list_all (receipt_ok H (ex_engagement e) ?revs) (ex_events e @ [?c])"
    using d(10) c receipt_ok_later by (auto simp: list_all_iff)
  moreover have "distinct (map rc_event (ex_events e @ [?c]))"
    using d(9) fresh unfolding known_event_None by (auto simp: new_receipt_def)
  moreover have "map rc_sequence (ex_events e @ [?c]) = [1..int (length (ex_events e @ [?c]))]"
    using d(8) by (simp add: new_receipt_def upto_rec2)
  ultimately show ?thesis
    using d(1,6) rows len gens live shape unfolding record_ok_def
    by (auto simp: advance_def new_receipt_def)
qed

lemma record_next_ok:
  assumes "\<forall>x. is_hash (H x)" and "record_ok H e" and "request_ok q" and "rq_engagement q = ex_engagement e"
    and "record_next H q e = Inr (r, e')"
  shows "record_ok H e' \<and> r \<in> set (ex_events e')"
  using assms advance_ok [OF assms(1-4)]
  by (auto simp: record_next_def advance_def dest: known_event_Some split: option.splits if_splits)

lemma record_start_ok:
  assumes hash: "\<forall>x. is_hash (H x)" and q: "request_ok q" and create: "rq_operation q = Create"
  shows "record_ok H (record_start H q)"
proof -
  let ?e = "record_start H q"
  let ?revs = "[(the (rq_roe q), roe_sha H (the (rq_roe q)))]"
  obtain c where c: "ex_events ?e = [c]" by (simp add: record_start_def Let_def)
  then have cd: "c = \<lparr>rc_engagement = rq_engagement q, rc_event = rq_event q, rc_sequence = 1, rc_operation = Create,
       rc_expected_revision = None, rc_expected_generation = None, rc_revision = 1, rc_generation = 0,
       rc_revoked = False, rc_roe_sha256 = roe_sha H (the (rq_roe q)), rc_request_sha256 = request_sha H q\<rparr>"
    by (simp add: record_start_def Let_def)
  obtain p where p: "rq_roe q = Some p" "roe_ok p" "rq_revision q = None" "rq_generation q = None"
    using q create by (auto simp: request_ok_def)
  have past: "past_request_of (event_roe ?revs c) c = q"
    using p create by (simp add: past_request_of_def event_roe_def cd)
  have ok: "receipt_ok H (rq_engagement q) ?revs c"
    unfolding receipt_ok_def past using q hash by (simp add: cd request_sha_def roe_sha_def)
  let ?t = "replay_start\<lparr>rp_revision := 1, rp_generation := 0\<rparr>"
  have "clean_event H (rq_engagement q) ?revs (rc_sequence c) (receipt_json c) replay_start
      = Inr (c, ?t\<lparr>rp_seen := rc_event c # rp_seen replay_start\<rparr>)"
    by (rule clean_event_json [OF ok]) (simp_all add: cd replay_start_def transition_def)
  then have "replays H (rq_engagement q) ?revs [c] (record_replay ?e)"
    by (simp add: replays_def cd record_replay_def record_start_def Let_def replay_start_def)
  moreover have "rc_sequence c = 1" by (simp add: cd)
  ultimately show ?thesis
    using ok c q p by (simp add: record_ok_def record_start_def Let_def record_rows_ok_def request_ok_def)
qed

section \<open>The tables of a record\<close>

fun revision_rows :: "int \<Rightarrow> revision_row list \<Rightarrow> (int \<times> pyval \<times> string) list" where
  "revision_rows n [] = []"
| "revision_rows n (row # rows) = (n, sort_keys (roe_json (fst row)), snd row) # revision_rows (n + 1) rows"

definition event_of :: "receipt \<Rightarrow> event_row" where
  "event_of c = \<lparr>er_sequence = rc_sequence c, er_event = rc_event c, er_request_sha256 = rc_request_sha256 c,
     er_receipt = sort_keys (receipt_json c)\<rparr>"

definition db_of :: "eng_export \<Rightarrow> eng_db" where
  "db_of e = \<lparr>db_revisions = revision_rows 1 (ex_revisions e),
     db_metadata = [\<lparr>md_engagement = ex_engagement e, md_revision = ex_revision e, md_generation = ex_generation e,
       md_status = status_name (ex_revoked e), md_last = int (length (ex_events e))\<rparr>],
     db_events = map event_of (ex_events e)\<rparr>"

lemma keys_revision_rows [simp]: "map fst (revision_rows n rows) = [n..n + int (length rows) - 1]"
  by (induction rows arbitrary: n) (auto simp: upto_rec1 algebra_simps)

lemma length_revision_rows [simp]: "length (revision_rows n rows) = length rows"
  by (induction rows arbitrary: n) simp_all

lemma revision_rows_append:
  "revision_rows n (xs @ ys) = revision_rows n xs @ revision_rows (n + int (length xs)) ys"
  by (induction xs arbitrary: n) (auto simp: algebra_simps)

fun sorted_values :: "int \<Rightarrow> revision_row list \<Rightarrow> pyval list" where
  "sorted_values n [] = []"
| "sorted_values n (row # rows) = PDict [(''revision'', PInt n), (''roe'', sort_keys (roe_json (fst row))),
     (''roe_sha256'', PStr (snd row))] # sorted_values (n + 1) rows"

lemma read_revisions: "mapE revision_value (revision_rows n rows) = Inr (sorted_values n rows)"
  by (induction rows arbitrary: n) (simp_all add: revision_value_def)

lemma sort_sorted_values: "map sort_keys (sorted_values n rows) = map sort_keys (revision_values n rows)"
  by (induction rows arbitrary: n) (simp_all add: revision_json_def)

lemma read_events: "mapE event_value (map event_of cs) = Inr (map (\<lambda>c. sort_keys (receipt_json c)) cs)"
  by (induction cs) (simp_all add: event_value_def event_of_def item_sort receipt_items)

lemma sorted_upto: "sorted [i..j]"
  by (induction i j rule: upto.induct) (subst upto.simps; simp)

lemma snapshot_db_of:
  assumes hash: "\<forall>x. is_hash (H x)" and ok: "record_ok H e"
    and id: "engagement = None \<or> engagement = Some (ex_engagement e)"
  shows "snapshot_checked H engagement (db_of e) = Inr e"
proof -
  note d = record_okD [OF ok] and b = record_bounds [OF ok]
  have "sorted (map fst (revision_rows 1 (ex_revisions e)))" by (simp add: sorted_upto)
  then have revs: "take 65 (sort_key fst (revision_rows 1 (ex_revisions e))) = revision_rows 1 (ex_revisions e)"
    using b by (simp add: sort_key_id_if_sorted)
  have "map er_sequence (map event_of (ex_events e)) = map rc_sequence (ex_events e)"
    by (simp add: event_of_def)
  then have "sorted (map er_sequence (map event_of (ex_events e)))"
    using d(8) by (simp add: sorted_upto del: map_map)
  then have evs: "take 66 (sort_key er_sequence (map event_of (ex_events e))) = map event_of (ex_events e)"
    using b by (simp add: sort_key_id_if_sorted del: map_map)
  let ?v = "export_value \<lparr>md_engagement = ex_engagement e, md_revision = ex_revision e, md_generation = ex_generation e,
       md_status = status_name (ex_revoked e), md_last = int (length (ex_events e))\<rparr>
     (sorted_values 1 (ex_revisions e)) (map (\<lambda>c. sort_keys (receipt_json c)) (ex_events e))"
  have "sort_keys ?v = sort_keys (export_json e)"
    by (simp add: export_value_def export_json_def sort_sorted_values comp_def)
  then have "validate_export H ?v = Inr e"
    using validate_export_cong [of ?v "export_json e" H] validate_export_json [OF hash ok] by simp
  then show ?thesis
    using id by (auto simp: snapshot_checked_def read_snapshot_def db_of_def revs evs read_revisions read_events)
qed

section \<open>Transactions implement the specification\<close>

lemma receipt_bytes:
  assumes "receipt_ok H engagement revisions c"
  shows "canonical_bytes (receipt_json c) = Inr (canonical (receipt_json c))" "length (canonical (receipt_json c)) \<le> 4096"
proof -
  have "within MAX_EXPORT_BYTES (receipt_json c)"
    using receipt_small(1) [OF assms] receipt_small(2) [OF assms, of 0]
    by (intro withinI) (auto simp: len_def MAX_EXPORT_BYTES_def MAX_DEPTH_def)
  then show "canonical_bytes (receipt_json c) = Inr (canonical (receipt_json c))" by (simp add: canonical_bytes_eq)
  show "length (canonical (receipt_json c)) \<le> 4096"
    using receipt_small(1) [OF assms] by (simp add: length_canonical len_def)
qed

lemma receipt_columns:
  assumes "receipt_ok H engagement revisions c"
  shows "length (rc_event c) = 36" "length (rc_request_sha256 c) = 64" "1 \<le> rc_sequence c" "rc_sequence c \<le> 65"
    "1 \<le> rc_revision c" "rc_revision c \<le> 64" "0 \<le> rc_generation c" "rc_generation c \<le> 64"
  using assms by (auto simp: receipt_ok_def request_ok_def past_request_of_def uuid_length hash_length)

lemma insert_event_row:
  assumes c: "receipt_ok H engagement revisions c" and e: "map er_sequence (db_events db) = [1..rc_sequence c - 1]"
    and f: "rc_event c \<notin> set (map er_event (db_events db))"
  shows "insert_event c db = Inr (db\<lparr>db_events := db_events db @ [event_of c]\<rparr>)"
  unfolding insert_event_def receipt_bytes(1) [OF c] bindE_simps e event_of_def
  using receipt_bytes(2) [OF c] receipt_columns [OF c] f by simp

lemma past_request_eq: "past_request_of (event_roe (ex_revisions e) r) r = past_request e r"
  by (simp add: past_request_of_def event_roe_def past_request_def)

lemma mutate_body_refines:
  assumes hash: "\<forall>x. is_hash (H x)" and ok: "record_ok H e" and q: "request_ok q"
    and id: "rq_engagement q = ex_engagement e"
  shows "mutate_body H q e (db_of e) =
    (case record_next H q e of Inl code \<Rightarrow> Inl code | Inr (r, e') \<Rightarrow> Inr (r, db_of e'))"
proof (cases "known_event (rq_event q) e")
  case (Some r)
  have "r \<in> set (ex_events e)" using known_event_Some [OF Some] by simp
  then have "receipt_ok H (ex_engagement e) (ex_revisions e) r" using record_okD(10) [OF ok] by (simp add: list_all_iff)
  then have "past_request e r = q \<Longrightarrow> rc_request_sha256 r = request_sha H q"
    unfolding receipt_ok_def past_request_eq by simp
  then show ?thesis
    using Some by (auto simp: mutate_body_def record_next_def known_event_def request_digest_json [OF q] require_def)
next
  case None
  note d = record_okD [OF ok]
  show ?thesis
  proof (cases "\<not> ex_revoked e \<and> rq_revision q = Some (ex_revision e) \<and> rq_generation q = Some (ex_generation e)
      \<and> (rq_operation q = Revise \<longrightarrow> ex_revision e < 64)")
    case False
    then show ?thesis using None
      by (auto simp: mutate_body_def record_next_def known_event_def require_def)
  next
    case True
    let ?c = "new_receipt H q e" and ?e = "advance H q e"
    from True have ok': "record_ok H ?e" using advance_ok [OF hash ok q id None] by simp
    have next_eq: "record_next H q e = Inr (?c, ?e)" using True None by (auto simp: record_next_def)
    have c: "receipt_ok H (ex_engagement e) (ex_revisions e @ new_revisions H q) ?c"
      using record_okD(10) [OF ok'] by (simp add: advance_def)
    have shape: "rq_operation q = Revise \<and> (\<exists>p. rq_roe q = Some p \<and> roe_ok p) \<or> rq_operation q = Revoke \<and> rq_roe q = None"
      using mutation_shape [OF q] True by blast
    have ev: "rc_event ?c \<notin> set (map er_event (map event_of (ex_events e)))"
      using None unfolding known_event_None by (auto simp: event_of_def new_receipt_def)
    have seq: "map er_sequence (map event_of (ex_events e)) = [1..rc_sequence ?c - 1]"
      using d(8) by (simp add: event_of_def new_receipt_def comp_def)
    have rec: "make_receipt H q (rc_revision ?c) (ex_generation e + 1) (int (length (ex_events e)) + 1)
        (rq_operation q \<noteq> Revise) (rc_roe_sha256 ?c) = Inr ?c"
      by (simp add: make_receipt_def request_digest_json [OF q] new_receipt_def)
    have cols: "1 \<le> rc_revision ?c" "rc_revision ?c \<le> 64" "0 \<le> ex_generation e + 1" "ex_generation e + 1 \<le> 64"
      "1 \<le> rc_sequence ?c" "rc_sequence ?c \<le> 65"
      using receipt_columns [OF c] by (simp_all add: new_receipt_def)
    have revs: "rc_revision ?c = int (length (ex_revisions e @ new_revisions H q))"
      using shape d(3) by (auto simp: new_receipt_def new_revisions_def)
    let ?db1 = "db_of e\<lparr>db_revisions := revision_rows 1 (ex_revisions e @ new_revisions H q)\<rparr>"
    have meta: "update_metadata (rc_revision ?c) (rc_generation ?c) (status_name (rq_operation q \<noteq> Revise)) (rc_sequence ?c) ?db1
        = Inr (?db1\<lparr>db_metadata := [\<lparr>md_engagement = ex_engagement e, md_revision = rc_revision ?c,
            md_generation = rc_generation ?c, md_status = status_name (rq_operation q \<noteq> Revise),
            md_last = rc_sequence ?c\<rparr>]\<rparr>)"
      using cols revs uuid_length [OF d(1)]
      by (simp add: update_metadata_def db_of_def metadata_ok_def status_name_def new_receipt_def del: map_append set_map
          flip: set_map)
    have evs: "insert_event ?c (db\<lparr>db_metadata := m\<rparr>) = Inr (db\<lparr>db_metadata := m, db_events := db_events db @ [event_of ?c]\<rparr>)"
      if "db_events db = map event_of (ex_events e)" for db m
      using insert_event_row [OF c, of "db\<lparr>db_metadata := m\<rparr>"] that seq ev by simp
    have final: "?db1\<lparr>db_metadata := [\<lparr>md_engagement = ex_engagement e, md_revision = rc_revision ?c,
        md_generation = rc_generation ?c, md_status = status_name (rq_operation q \<noteq> Revise),
        md_last = rc_sequence ?c\<rparr>], db_events := map event_of (ex_events e) @ [event_of ?c]\<rparr> = db_of ?e"
      by (simp add: db_of_def advance_def new_receipt_def)
    have find: "find (\<lambda>r. rc_event r = rq_event q) (ex_events e) = None" using None by (simp add: known_event_def)
    have live: "\<not> ex_revoked e" "rq_revision q = Some (ex_revision e)" "rq_generation q = Some (ex_generation e)"
      using True by auto
    have tail: "bindE (make_receipt H q (rc_revision ?c) (ex_generation e + 1) (int (length (ex_events e)) + 1)
          (rq_operation q \<noteq> Revise) (rc_roe_sha256 ?c)) (\<lambda>r.
        bindE (update_metadata (rc_revision ?c) (rc_generation r) (status_name (rq_operation q \<noteq> Revise))
          (rc_sequence r) ?db1) (\<lambda>db2. bindE (insert_event r db2) (\<lambda>db3. Inr (r, db3)))) = Inr (?c, db_of ?e)"
      unfolding rec bindE_simps meta using evs [of ?db1] final by (simp add: db_of_def)
    show ?thesis
    proof (cases "rq_operation q = Revise")
      case revise: True
      then obtain p where p: "rq_roe q = Some p" "roe_ok p" using shape by auto
      have can: "canonical_bytes (roe_json p) = Inr (canonical (roe_json p))"
        by (simp add: canonical_bytes_eq roe_within p)
      have ins: "insert_revision (ex_revision e + 1) (sort_keys (roe_json p)) (roe_sha H p) (db_of e) = Inr ?db1"
        using revise True d(3,4) hash roe_len [OF p(2)] p
        by (simp add: insert_revision_def db_of_def roe_sha_def hash_length length_canonical len_def new_revisions_def
            revision_rows_append add.commute del: set_map flip: set_map)
      have "rc_revision ?c = ex_revision e + 1" "rc_roe_sha256 ?c = roe_sha H p"
        using revise p by (simp_all add: new_receipt_def)
      then show ?thesis
        using tail revise live True
        by (simp add: mutate_body_def find next_eq p optional_def roe_digest_json can ins)
    next
      case False
      then have rv: "rq_operation q = Revoke" using shape by auto
      have "?db1 = db_of e" using False by (simp add: new_revisions_def db_of_def)
      moreover have "rc_revision ?c = ex_revision e" "rc_roe_sha256 ?c = snd (last (ex_revisions e))"
        using False by (simp_all add: new_receipt_def)
      ultimately show ?thesis
        using tail False live rv by (simp add: mutate_body_def find next_eq)
    qed
  qed
qed

end
