(* ===== verification/EngagementRuns.thy ===== *)
theory EngagementRuns
  imports EngagementRefine
begin

text \<open>
  Runs of the engagement store: whatever callers, the file system and SQLite do between the
  creation of a store and a later moment, the tables hold a well-formed record that only grows.
  The interpretation \<open>eng_runs\<close> gives the reachable states their invariant.
\<close>

section \<open>Single calls\<close>

lemma inside_Inr:
  assumes "inside H env st body = Inr (x, db)"
  obtains before where "snapshot_checked H (st_engagement st) (st_db st) = Inr before"
    "body before (st_db st) = Inr (x, db)"
  using assms by (auto simp: inside_def res_simps)

lemma poison_simps [simp]:
  "st_db (poison code st) = st_db st" "st_engagement (poison code st) = st_engagement st"
  by (simp_all add: poison_def)

lemma transaction_effect:
  assumes "transaction H write env st body = (out, st')"
  shows "st_engagement st' = st_engagement st
    \<and> (st_db st' = st_db st \<or> (\<exists>x. inside H env st body = Inr (x, st_db st')))"
proof (cases "inside H env st body")
  case (Inl code)
  then show ?thesis using assms by (auto simp: transaction_def split: if_splits)
next
  case (Inr a)
  obtain x db where a: "a = (x, db)" by (cases a)
  show ?thesis
    using assms Inr a
    by (auto simp: transaction_def Let_def split: if_splits option.splits)
qed

lemma reading_effect:
  assumes run: "transaction H write env st body = (out, st')"
    and reads: "\<And>before db x db'. body before db = Inr (x, db') \<Longrightarrow> db' = db"
  shows "st_engagement st' = st_engagement st \<and> st_db st' = st_db st"
proof -
  have "db = st_db st" if "inside H env st body = Inr (x, db)" for x db
    using that by (rule inside_Inr) (rule reads)
  then show ?thesis using transaction_effect [OF run] by metis
qed

definition hashes :: "(string \<Rightarrow> string) \<Rightarrow> bool" where
  "hashes H \<longleftrightarrow> (\<forall>x. is_hash (H x))"

definition holds :: "(string \<Rightarrow> string) \<Rightarrow> eng_store \<Rightarrow> eng_export \<Rightarrow> bool" where
  "holds H st e \<longleftrightarrow> record_ok H e \<and> st_db st = db_of e \<and> st_engagement st = Some (ex_engagement e)"

lemma holds_snapshot:
  "hashes H \<Longrightarrow> holds H st e \<Longrightarrow> snapshot_checked H (st_engagement st) (st_db st) = Inr e"
  "hashes H \<Longrightarrow> holds H st e \<Longrightarrow> snapshot_checked H None (st_db st) = Inr e"
  using snapshot_db_of [of H e "st_engagement st"] snapshot_db_of [of H e None]
  by (simp_all add: hashes_def holds_def)

text \<open>The committed effect of a mutation is the record's next step.\<close>

lemma mutate_inside:
  assumes H: "hashes H" and e: "holds H st e" and q: "request_ok q" and id: "rq_engagement q = ex_engagement e"
    and run: "inside H env st (mutate_body H q) = Inr (r, db)"
  obtains e' where "record_next H q e = Inr (r, e')" "db = db_of e'" "record_ok H e'"
proof -
  from run obtain before where "snapshot_checked H (st_engagement st) (st_db st) = Inr before"
    and body: "mutate_body H q before (st_db st) = Inr (r, db)" by (rule inside_Inr)
  then have "before = e" using holds_snapshot [OF H e] by simp
  then have "(case record_next H q e of Inl code \<Rightarrow> Inl code | Inr (r, e') \<Rightarrow> Inr (r, db_of e')) = Inr (r, db)"
    using body e mutate_body_refines [OF _ _ q id] H unfolding holds_def hashes_def by metis
  then obtain e' where "record_next H q e = Inr (r, e')" "db = db_of e'"
    by (auto split: sum.splits prod.splits)
  then show ?thesis
    using that [of e'] record_next_ok [OF _ _ q id, of H r e'] H e unfolding holds_def hashes_def by blast
qed

lemma advance_snapshot:
  assumes "hashes H" and "record_ok H e" and "st_engagement st = Some (ex_engagement e)"
  shows "snapshot_checked H (st_engagement st) (db_of e) = Inr e"
  using snapshot_db_of [of H e "st_engagement st"] assms unfolding hashes_def by simp

section \<open>Records only grow\<close>

definition record_later :: "eng_export \<Rightarrow> eng_export \<Rightarrow> bool" where
  "record_later e e' \<longleftrightarrow> ex_engagement e' = ex_engagement e
     \<and> (\<exists>cs. ex_events e' = ex_events e @ cs) \<and> (\<exists>rs. ex_revisions e' = ex_revisions e @ rs)
     \<and> (ex_revoked e \<longrightarrow> e' = e)"

lemma record_later_refl [simp]: "record_later e e"
  by (simp add: record_later_def)

lemma record_later_trans: "record_later e f \<Longrightarrow> record_later f g \<Longrightarrow> record_later e g"
  unfolding record_later_def by auto

lemma record_next_later: "record_next H q e = Inr (r, e') \<Longrightarrow> record_later e e'"
  by (auto simp: record_next_def record_later_def advance_def split: option.splits if_splits)

section \<open>Steps of a store\<close>

inductive eng_step :: "(string \<Rightarrow> string) \<Rightarrow> eng_store \<Rightarrow> eng_store \<Rightarrow> bool" for H where
  step_append: "append_revision H env roe revision generation event st = (out, st') \<Longrightarrow> eng_step H st st'"
| step_revoke: "revoke H env revision generation event st = (out, st') \<Longrightarrow> eng_step H st st'"
| step_snapshot: "snapshot_call H env st = (read, st') \<Longrightarrow> eng_step H st st'"
| step_receipt: "event_receipt H env event st = (out, st') \<Longrightarrow> eng_step H st st'"
| step_close: "close env st = (closed, st') \<Longrightarrow> eng_step H st st'"
| step_reopen: "open_store H env read_only (st_db st) = Inr st' \<Longrightarrow> eng_step H st st'"

definition store_start :: "(string \<Rightarrow> string) \<Rightarrow> eng_store \<Rightarrow> bool" where
  "store_start H st \<longleftrightarrow> hashes H \<and> (\<exists>env engagement event roe. create H env engagement event roe = Inr st)"

definition store_inv :: "(string \<Rightarrow> string) \<Rightarrow> eng_store \<Rightarrow> bool" where
  "store_inv H st \<longleftrightarrow> hashes H \<and> (\<exists>e. holds H st e)"

definition record_in :: "(string \<Rightarrow> string) \<Rightarrow> eng_store \<Rightarrow> eng_export" where
  "record_in H st = (case snapshot_checked H None (st_db st) of Inr e \<Rightarrow> e | Inl _ \<Rightarrow> undefined)"

lemma record_in_holds: "hashes H \<Longrightarrow> holds H st e \<Longrightarrow> record_in H st = e"
  by (simp add: record_in_def holds_snapshot)

lemma submit_effect:
  assumes H: "hashes H" and e: "holds H st e"
    and id: "\<And>q. validate_request v = Inr q \<Longrightarrow> rq_engagement q = ex_engagement e"
    and run: "submit H env v st = (out, st')"
  shows "\<exists>e'. holds H st' e' \<and> record_later e e'"
proof (cases "validate_request v")
  case (Inl code)
  then show ?thesis using run e by (intro exI [of _ e]) (auto simp: submit_def holds_def split: if_splits)
next
  case (Inr q)
  show ?thesis
  proof (cases "same_process env")
    case True
    then have "transaction H True env st (mutate_body H q) = (out, st')" using run Inr by (simp add: submit_def mutate_def)
    from transaction_effect [OF this] have same: "st_engagement st' = st_engagement st"
      and "st_db st' = st_db st \<or> (\<exists>x. inside H env st (mutate_body H q) = Inr (x, st_db st'))" by auto
    then show ?thesis
    proof (elim disjE exE)
      assume "st_db st' = st_db st"
      then show ?thesis using same e by (intro exI [of _ e]) (simp add: holds_def)
    next
      fix x assume "inside H env st (mutate_body H q) = Inr (x, st_db st')"
      then obtain e' where "record_next H q e = Inr (x, e')" "st_db st' = db_of e'" "record_ok H e'"
        using mutate_inside [OF H e validate_request_ok [OF Inr] id [OF Inr]] by metis
      then show ?thesis using same e record_next_later [of H q e x e']
        by (intro exI [of _ e']) (auto simp: holds_def record_later_def)
    qed
  next
    case False
    then show ?thesis using run e by (intro exI [of _ e]) (simp add: submit_def)
  qed
qed

lemma request_body_engagement:
  assumes "request_body v = Inr q"
  shows "uuid (item v ''engagement_id'') = Inr (rq_engagement q)"
proof (cases "read_operation (item v ''operation'')")
  case None
  then show ?thesis using assms by (simp add: request_body_def res_simps)
next
  case (Some p)
  then show ?thesis using assms by (cases p) (auto simp: request_body_def res_simps)
qed

lemma request_value_engagement:
  assumes "st_engagement st = Some i" and "validate_request (request_value st event op revision generation roe) = Inr q"
  shows "rq_engagement q = i"
proof -
  have "item (request_value st event op revision generation roe) ''engagement_id'' = PStr i"
    using assms(1) by (simp add: request_value_def item_PDict optional_def)
  moreover have "request_body (request_value st event op revision generation roe) = Inr q"
    using assms(2) by (simp add: validate_request_eq split: if_splits)
  ultimately show ?thesis using request_body_engagement by (metis pyval.inject(3) uuid_Inr)
qed

lemma submit_value_effect:
  assumes H: "hashes H" and e: "holds H st e"
    and run: "submit H env (request_value st event op revision generation roe) st = (out, st')"
  shows "\<exists>e'. holds H st' e' \<and> record_later e e'"
proof (rule submit_effect [OF H e _ run])
  fix q assume "validate_request (request_value st event op revision generation roe) = Inr q"
  then show "rq_engagement q = ex_engagement e" using request_value_engagement e unfolding holds_def by blast
qed

lemma eng_step_holds:
  assumes H: "hashes H" and e: "holds H st e" and step: "eng_step H st st'"
  shows "\<exists>e'. holds H st' e' \<and> record_later e e'"
  using step
proof cases
  case (step_append env roe revision generation event out)
  then show ?thesis unfolding append_revision_def by (rule submit_value_effect [OF H e])
next
  case (step_revoke env revision generation event out)
  then show ?thesis unfolding revoke_def by (rule submit_value_effect [OF H e])
next
  case (step_snapshot env read)
  then have "st_engagement st' = st_engagement st \<and> st_db st' = st_db st"
    
    unfolding snapshot_call_def by (rule reading_effect) simp
  then show ?thesis using e by (intro exI [of _ e]) (simp add: holds_def)
next
  case (step_receipt env event out)
  have "st_engagement st' = st_engagement st \<and> st_db st' = st_db st"
  proof (cases "same_process env \<and> (\<exists>eid. uuid event = Inr eid)")
    case True
    then obtain eid where eid: "uuid event = Inr eid" "same_process env" by blast
    have "transaction H False env st (\<lambda>before db. case find (\<lambda>r. rc_event r = eid) (ex_events before) of
           None \<Rightarrow> Inl ''engagement_event_unknown'' | Some r \<Rightarrow> Inr (r, db)) = (out, st')"
      using step_receipt eid by (simp add: event_receipt_def)
    then show ?thesis by (rule reading_effect) (simp split: option.splits)
  next
    case False
    then show ?thesis using step_receipt by (cases "uuid event") (auto simp: event_receipt_def split: if_splits)
  qed
  then show ?thesis using e by (intro exI [of _ e]) (simp add: holds_def)
next
  case (step_close env closed)
  then show ?thesis using e
    by (intro exI [of _ e]) (auto simp: close_def holds_def split: if_splits option.splits)
next
  case (step_reopen env read_only)
  then obtain e1 db where run: "inside H env \<lparr>st_db = st_db st, st_engagement = None, st_open = True,
      st_read_only = read_only, st_failed = False\<rparr> (\<lambda>before db. Inr (before, db)) = Inr (e1, db)"
    and st': "st_db st' = st_db st" "st_engagement st' = Some (ex_engagement e1)"
    by (auto simp: open_store_def Let_def res_simps)
  from run have "e1 = e" by (rule inside_Inr) (simp add: holds_snapshot [OF H e])
  then show ?thesis using st' e by (intro exI [of _ e]) (simp add: holds_def)
qed

section \<open>Opening\<close>

lemma create_request:
  assumes "validate_request (create_value engagement event roe) = Inr q"
  shows "request_ok q" "rq_operation q = Create"
proof -
  from assms have body: "request_body (create_value engagement event roe) = Inr q"
    by (simp add: validate_request_eq split: if_splits)
  show "request_ok q" by (rule validate_request_ok [OF assms])
  have "read_operation (item (create_value engagement event roe) ''operation'') = Some Create"
    by (simp add: create_value_def item_PDict)
  then show "rq_operation q = Create" using body by (auto simp: request_body_def res_simps)
qed

lemma initial_db_eq:
  assumes H: "hashes H" and q: "request_ok q" and op: "rq_operation q = Create"
  shows "initial_db H q = Inr (db_of (record_start H q))"
proof -
  obtain p where p: "rq_roe q = Some p" "roe_ok p" "rq_revision q = None" "rq_generation q = None"
    and u: "is_uuid4 (rq_engagement q)" using q op by (auto simp: request_ok_def)
  let ?e = "record_start H q"
  have ok: "record_ok H ?e" using record_start_ok [OF _ q op] H by (simp add: hashes_def)
  obtain c where c: "ex_events ?e = [c]" by (simp add: record_start_def Let_def)
  then have cok: "receipt_ok H (ex_engagement ?e) (ex_revisions ?e) c"
    using record_okD(10) [OF ok] by simp
  have rec: "make_receipt H q 1 0 1 False (roe_sha H p) = Inr c"
    using c p op by (simp add: make_receipt_def request_digest_json [OF q] record_start_def Let_def)
  have seq: "rc_sequence c = 1" using c by (auto simp: record_start_def Let_def)
  have ins: "insert_event c db = Inr (db\<lparr>db_events := [event_of c]\<rparr>)" if "db_events db = []" for db
    using insert_event_row [OF cok, of db] that seq by simp
  have "is_hash (roe_sha H p)" using H by (simp add: hashes_def roe_sha_def)
  then show ?thesis
    using u roe_len [OF p(2)] c
    by (simp add: initial_db_def p optional_def roe_digest_json insert_revision_def empty_db_def hash_length
        length_canonical len_def insert_metadata_def metadata_ok_def uuid_length rec ins db_of_def)
      (simp add: record_start_def Let_def p status_name_def)
qed

lemma create_holds:
  assumes H: "hashes H" and run: "create H env engagement event roe = Inr st"
  obtains q where "validate_request (create_value engagement event roe) = Inr q" "holds H st (record_start H q)"
    "st_open st" "\<not> st_read_only st" "\<not> st_failed st"
proof -
  from run obtain q db e where v: "validate_request (create_value engagement event roe) = Inr q"
    and db: "initial_db H q = Inr db" and e: "snapshot_checked H None db = Inr e"
    and st: "st = \<lparr>st_db = db, st_engagement = Some (ex_engagement e), st_open = True, st_read_only = False,
      st_failed = False\<rparr>"
    by (auto simp: create_def res_simps)
  note q = create_request [OF v]
  have ok: "record_ok H (record_start H q)" using record_start_ok [OF _ q] H by (simp add: hashes_def)
  have "db = db_of (record_start H q)" using db initial_db_eq [OF H q] by simp
  moreover from this have "e = record_start H q"
    using e snapshot_db_of [OF _ ok, of None] H by (simp add: hashes_def)
  ultimately show ?thesis using that [OF v] ok by (simp add: holds_def st)
qed

section \<open>Reachable stores\<close>

definition store_later :: "(string \<Rightarrow> string) \<Rightarrow> eng_store \<Rightarrow> eng_store \<Rightarrow> bool" where
  "store_later H st st' \<longleftrightarrow> record_later (record_in H st) (record_in H st')"

interpretation eng_runs: monotone_system "store_start H" "eng_step H" "store_inv H" "store_later H" for H
proof unfold_locales
  fix st st'
  show "store_start H st \<Longrightarrow> store_inv H st"
    unfolding store_start_def store_inv_def using create_holds by metis
  show "store_inv H st \<Longrightarrow> eng_step H st st' \<Longrightarrow> store_inv H st'"
    unfolding store_inv_def using eng_step_holds by blast
  show "store_later H st st" by (simp add: store_later_def)
  show "store_inv H st \<Longrightarrow> eng_step H st st' \<Longrightarrow> store_later H st st'"
    unfolding store_inv_def store_later_def using eng_step_holds record_in_holds by metis
  show "store_later H s t \<Longrightarrow> store_later H t u \<Longrightarrow> store_later H s u" for s t u
    unfolding store_later_def by (rule record_later_trans)
qed

end
