(* ===== verification/EngagementProps.thy ===== *)
theory EngagementProps
  imports EngagementRuns
begin

text \<open>
  The properties of the engagement record and its store, over every run of the store, with a
  concrete store that shows their hypotheses can hold.
\<close>

section \<open>Vocabulary\<close>

text \<open>A call during which nothing outside the program fails.\<close>

definition healthy :: store_env where
  "healthy = \<lparr>same_process = True, begin_fault = None, check_fault = None, commit_fault = None,
     settle_fault = None, rollback_fault = False\<rparr>"

text \<open>The same, but the final checks after the commit run out of time.\<close>

definition lost_reply :: store_env where
  "lost_reply = healthy\<lparr>settle_fault := Some ''engagement_timeout''\<rparr>"

definition usable :: "eng_store \<Rightarrow> bool" where
  "usable st \<longleftrightarrow> st_open st \<and> \<not> st_failed st \<and> \<not> st_read_only st"

lemma healthy_simps [simp]:
  "same_process healthy" "begin_fault healthy = None" "check_fault healthy = None" "commit_fault healthy = None"
  "settle_fault healthy = None" "\<not> rollback_fault healthy"
  by (simp_all add: healthy_def)

lemma fault_None [simp]: "fault None = Inr ()"
  by (simp add: fault_def)

lemma inside_mutation:
  assumes H: "hashes H" and e: "holds H st e" and q: "request_ok q" and id: "rq_engagement q = ex_engagement e"
  shows "inside H env st (mutate_body H q) = bindE (fault (begin_fault env)) (\<lambda>_.
    case record_next H q e of Inl code \<Rightarrow> Inl code
    | Inr (r, e') \<Rightarrow> bindE (fault (check_fault env)) (\<lambda>_. bindE (fault (commit_fault env)) (\<lambda>_. Inr (r, db_of e'))))"
proof -
  have snap: "snapshot_checked H (st_engagement st) (st_db st) = Inr e" by (rule holds_snapshot(1) [OF H e])
  have body: "mutate_body H q e (st_db st) =
      (case record_next H q e of Inl code \<Rightarrow> Inl code | Inr (r, e') \<Rightarrow> Inr (r, db_of e'))"
    using mutate_body_refines [OF _ _ q id] H e unfolding hashes_def holds_def by metis
  have after: "snapshot_checked H (st_engagement st) (db_of e') = Inr e'" if "record_next H q e = Inr (r, e')" for r e'
  proof (rule advance_snapshot [OF H])
    show "record_ok H e'" using record_next_ok [OF _ _ q id that] H e unfolding hashes_def holds_def by blast
    show "st_engagement st = Some (ex_engagement e')"
      using e record_next_later [OF that] unfolding holds_def record_later_def by simp
  qed
  show ?thesis
    unfolding inside_def snap body bindE_simps
    by (cases "record_next H q e") (auto simp: after split: prod.splits)
qed

section \<open>Claims\<close>

text \<open>
  C27: The store implements the abstract record. While nothing outside the program fails, a
  submitted request that validates answers exactly what \<open>record_next\<close> answers for the record in
  the tables, leaves the tables of the record \<open>record_next\<close> gives (a refused request leaves the
  tables alone), and none of the digests, table constraints, size limits or the second replay of
  the whole history can refuse a step the record accepts.
\<close>

theorem store_implements_record:
  assumes "hashes H" and "holds H st e" and "usable st"
    and "validate_request v = Inr q" and "rq_engagement q = ex_engagement e"
  shows "submit H healthy v st = (case record_next H q e of
      Inl code \<Rightarrow> (Inl code, poison code st) | Inr (r, e') \<Rightarrow> (Inr r, st\<lparr>st_db := db_of e'\<rparr>))
    \<and> (\<forall>r e'. record_next H q e = Inr (r, e') \<longrightarrow> holds H (st\<lparr>st_db := db_of e'\<rparr>) e')"
proof (intro conjI allI impI)
  note q = validate_request_ok [OF assms(4)]
  show "submit H healthy v st = (case record_next H q e of
      Inl code \<Rightarrow> (Inl code, poison code st) | Inr (r, e') \<Rightarrow> (Inr r, st\<lparr>st_db := db_of e'\<rparr>))"
    using assms(3)
    by (auto simp: submit_def assms(4) mutate_def transaction_def usable_def Let_def
        inside_mutation [OF assms(1,2) q assms(5)] split: sum.splits prod.splits)
  show "holds H (st\<lparr>st_db := db_of e'\<rparr>) e'" if "record_next H q e = Inr (r, e')" for r e'
    using that record_next_ok [OF _ _ q assms(5), of H r e'] record_next_later [of H q e r e'] assms(1,2)
    unfolding hashes_def holds_def record_later_def by auto
qed

text \<open>
  C30: Every store that \<open>create\<close> returned holds, after any run of appended revisions, revocations,
  reads, failures, closing and reopening, a record whose checked snapshot succeeds; its export
  validates to itself, its revisions number 1 to 64, its generation is at most 64 and counts the
  events after the first.
\<close>

theorem reachable_store_validates:
  assumes "reach (store_start H) (eng_step H) st"
  shows "\<exists>e. snapshot_checked H (st_engagement st) (st_db st) = Inr e
    \<and> validate_export H (export_json e) = Inr e
    \<and> 1 \<le> ex_revision e \<and> ex_revision e \<le> 64 \<and> ex_revision e = int (length (ex_revisions e))
    \<and> ex_generation e \<le> 64 \<and> int (length (ex_events e)) = ex_generation e + 1"
proof -
  from eng_runs.reach_inv [OF assms] obtain e where H: "hashes H" and e: "holds H st e"
    unfolding store_inv_def by blast
  then have ok: "record_ok H e" by (simp add: holds_def)
  show ?thesis
    using holds_snapshot(1) [OF H e] validate_export_json [OF _ ok] H record_okD(3-6) [OF ok] record_bounds(2) [OF ok]
    unfolding hashes_def by blast
qed

text \<open>
  C29: History is append-only and revocation is final. Along any run the engagement stays the same,
  events and revisions are only appended, and once the record is revoked the tables no longer
  change.
\<close>

theorem store_history_final:
  assumes "reach (store_start H) (eng_step H) st" and "(eng_step H)\<^sup>*\<^sup>* st st'"
    and "snapshot_checked H None (st_db st) = Inr e"
  shows "\<exists>e'. snapshot_checked H None (st_db st') = Inr e' \<and> ex_engagement e' = ex_engagement e
    \<and> (\<exists>cs. ex_events e' = ex_events e @ cs) \<and> (\<exists>rs. ex_revisions e' = ex_revisions e @ rs)
    \<and> (ex_revoked e \<longrightarrow> e' = e \<and> st_db st' = st_db st)"
proof -
  from eng_runs.reach_inv [OF assms(1)] obtain e0 where H: "hashes H" and e0: "holds H st e0"
    unfolding store_inv_def by blast
  then have e: "e0 = e" using holds_snapshot(2) [OF H e0] assms(3) by simp
  from eng_runs.steps_inv [OF assms(2) eng_runs.reach_inv [OF assms(1)]] obtain e' where e': "holds H st' e'"
    unfolding store_inv_def by blast
  have "record_later e e'"
    using eng_runs.reach_rel [OF assms(1,2)] record_in_holds [OF H e0] record_in_holds [OF H e'] e
    unfolding store_later_def by simp
  then show ?thesis
    using holds_snapshot(2) [OF H e'] e0 e' e unfolding record_later_def holds_def by auto
qed

section \<open>Retries\<close>

lemma past_request_later:
  assumes ok: "record_ok H e" and c: "c \<in> set (ex_events e)" and later: "record_later e e'"
  shows "past_request e' c = past_request e c"
proof -
  obtain rs where rs: "ex_revisions e' = ex_revisions e @ rs" using later by (auto simp: record_later_def)
  have "1 \<le> rc_revision c" "rc_revision c \<le> int (length (ex_revisions e))"
    using record_okD(10) [OF ok] c by (auto simp: list_all_iff receipt_ok_def)
  then have "(ex_revisions e @ rs) ! nat (rc_revision c - 1) = ex_revisions e ! nat (rc_revision c - 1)"
    by (auto simp: nth_append)
  then show ?thesis by (simp add: past_request_def rs)
qed

lemma known_event_later:
  assumes ok: "record_ok H e'" and c: "c \<in> set (ex_events e)" and later: "record_later e e'"
  shows "known_event (rc_event c) e' = Some c"
  unfolding known_event_def
proof (rule find_unique [of rc_event])
  show "distinct (map rc_event (ex_events e'))" by (rule record_okD(9) [OF ok])
  show "c \<in> set (ex_events e')" using c later by (auto simp: record_later_def)
qed simp

lemma record_next_past:
  assumes q: "request_ok q" and ok: "record_ok H e" and next': "record_next H q e = Inr (r, e')"
  shows "past_request e' r = q \<and> rc_event r = rq_event q"
proof (cases "known_event (rq_event q) e")
  case (Some c)
  then show ?thesis using next' known_event_Some [OF Some] by (auto simp: record_next_def split: if_splits)
next
  case None
  then have r: "r = new_receipt H q e" "e' = advance H q e" and rev: "rq_revision q = Some (ex_revision e)"
    using next' by (auto simp: record_next_def split: if_splits)
  have shape: "rq_operation q = Revise \<and> (\<exists>p. rq_roe q = Some p \<and> roe_ok p) \<or> rq_operation q = Revoke \<and> rq_roe q = None"
    using mutation_shape [OF q rev] .
  have "ex_revision e = int (length (ex_revisions e))" by (rule record_okD(3) [OF ok])
  then show ?thesis
    using shape unfolding r
    by (cases q) (auto simp: past_request_def new_receipt_def advance_def new_revisions_def)
qed

lemma retry_known:
  assumes H: "hashes H" and st: "holds H st e" and q: "request_ok q" and id: "rq_engagement q = ex_engagement e"
    and next': "record_next H q e = Inr (r, e1)" and e2: "record_ok H e2" "record_later e1 e2"
  shows "record_next H q e2 = Inr (r, e2)"
proof -
  have e: "record_ok H e" using st by (simp add: holds_def)
  have e1: "record_ok H e1" "r \<in> set (ex_events e1)"
    using record_next_ok [OF _ e q id next'] H by (auto simp: hashes_def)
  have "past_request e1 r = q" "rc_event r = rq_event q" using record_next_past [OF q e next'] by auto
  then show ?thesis
    using known_event_later [OF e2(1) e1(2) e2(2)] past_request_later [OF e1 e2(2)]
    by (simp add: record_next_def)
qed

text \<open>
  C28: A lost acknowledgement is recovered by retrying. When a submission changed the tables,
  even if the call then raised because a check after the commit failed, every later submission of
  the same value, after any further run, returns one and the same receipt and leaves the store
  exactly as it is, also after the record was revised again or revoked.
\<close>

theorem retry_returns_receipt:
  assumes "hashes H" and "holds H st e" and "validate_request v = Inr q" and "rq_engagement q = ex_engagement e"
    and "submit H env v st = (out, st1)" and "st_db st1 \<noteq> st_db st"
  shows "\<exists>r. (out = Inr r \<or> settle_fault env \<noteq> None)
    \<and> (\<forall>st2. (eng_step H)\<^sup>*\<^sup>* st1 st2 \<longrightarrow> usable st2 \<longrightarrow> submit H healthy v st2 = (Inr r, st2))"
proof -
  note H = assms(1) and st = assms(2) and id = assms(4) and q = validate_request_ok [OF assms(3)]
  have run: "transaction H True env st (mutate_body H q) = (out, st1)"
    using assms(5,6) by (auto simp: submit_def assms(3) mutate_def split: if_splits)
  obtain r where ins: "inside H env st (mutate_body H q) = Inr (r, st_db st1)"
    using transaction_effect [OF run] assms(6) by blast
  obtain e1 where e1: "record_next H q e = Inr (r, e1)" "st_db st1 = db_of e1" "record_ok H e1"
    using mutate_inside [OF H st q id ins] by blast
  have same: "st_engagement st1 = Some (ex_engagement e1)"
    using transaction_effect [OF run] st record_next_later [OF e1(1)] by (simp add: holds_def record_later_def)
  have hold1: "holds H st1 e1" using e1 same by (simp add: holds_def)
  have out: "out = Inr r \<or> settle_fault env \<noteq> None"
    using run ins assms(6) by (auto simp: transaction_def Let_def split: if_splits option.splits)
  have again: "submit H healthy v st2 = (Inr r, st2)" if steps: "(eng_step H)\<^sup>*\<^sup>* st1 st2" and u: "usable st2" for st2
  proof -
    have inv: "store_inv H st1" using H hold1 by (auto simp: store_inv_def)
    obtain e2 where e2: "holds H st2 e2"
      using eng_runs.steps_inv [OF steps inv] by (auto simp: store_inv_def)
    have later: "record_later e1 e2"
      using eng_runs.steps_rel [OF steps inv] record_in_holds [OF H hold1] record_in_holds [OF H e2]
      by (simp add: store_later_def)
    have nxt: "record_next H q e2 = Inr (r, e2)"
      using retry_known [OF H st q id e1(1) _ later] e2 by (simp add: holds_def)
    have ids: "rq_engagement q = ex_engagement e2"
      using id record_next_later [OF e1(1)] later by (simp add: record_later_def)
    have ins2: "inside H healthy st2 (mutate_body H q) = Inr (r, st_db st2)"
      using e2 by (simp add: inside_mutation [OF H e2 q ids] nxt holds_def)
    show ?thesis using u by (simp add: submit_def assms(3) mutate_def transaction_def ins2 usable_def)
  qed
  from out again show ?thesis by blast
qed

text \<open>
  A submission that fails before its commit leaves the tables as they were; when its error is
  one of the poison codes the handle is dead: every later submission, read or receipt query on it
  is refused, whatever the environment does.
\<close>

theorem failed_submission_keeps_tables:
  assumes "submit H env v st = (Inl code, st')" and "settle_fault env = None"
  shows "st_db st' = st_db st \<and> (code \<in> set POISON_CODES \<and> same_process env \<longrightarrow>
    (\<forall>env' v'. fst (submit H env' v' st') \<in> range Inl \<and> fst (snapshot_call H env' st') = Inl unavailable_code
      \<and> fst (event_receipt H env' v' st') \<in> range Inl \<and> st_db (snd (submit H env' v' st')) = st_db st))"
proof -
  have "''engagement_read_only'' \<notin> set POISON_CODES" by (simp add: POISON_CODES_def)
  then have keep: "st_db st' = st_db st" and poisoned: "code \<in> set POISON_CODES \<Longrightarrow> same_process env \<Longrightarrow> st_failed st'"
    using assms by (auto simp: submit_def mutate_def transaction_def poison_def Let_def split: if_splits sum.splits)
  have refused: "transaction H w env' st' body = (Inl unavailable_code, if same_process env' then poison unavailable_code st' else st')"
    if "st_failed st'" for w env' and body :: "'b eng_body"
    using that by (simp add: transaction_def)
  show ?thesis
    using keep refused [OF poisoned]
    by (auto simp: submit_def mutate_def snapshot_call_def event_receipt_def refused poisoned split: sum.splits)
qed

section \<open>Rules of engagement and scopes\<close>

text \<open>
  C35: validated rules of engagement are stable. \<open>sort_keys\<close> orders the keys of every object of a
  value, so two values that differ only in the order of keys are those with the same \<open>sort_keys\<close>.
  Every such rearrangement \<open>w\<close> of the dictionary \<open>validate_roe\<close> returns, and of the value it was given,
  validates to the same rules with the same digest, and the canonical text of the rules, which the
  digest is of, has at most 4000 of the 4096 characters a stored revision may have.
\<close>

theorem roe_roundtrip:
  assumes "validate_roe v = Inr r"
  shows "validate_roe (roe_json r) = Inr r
    \<and> (\<forall>w. sort_keys w = sort_keys (roe_json r) \<or> sort_keys w = sort_keys v \<longrightarrow>
          validate_roe w = Inr r \<and> roe_digest H w = Inr (H (ROE_DOMAIN @ canonical (roe_json r))))
    \<and> length (canonical (roe_json r)) \<le> 4000"
proof -
  have ok: "roe_ok r" by (rule validate_roe_ok [OF assms])
  have same: "validate_roe w = validate_roe u" if "sort_keys w = sort_keys u" for w u
    using validate_roe_sort [of w] validate_roe_sort [of u] that by simp
  have w: "validate_roe w = Inr r" if "sort_keys w = sort_keys (roe_json r) \<or> sort_keys w = sort_keys v" for w
    using that by (elim disjE) (simp_all only: same [of w "roe_json r"] same [of w v] validate_roe_json [OF ok] assms)
  have "roe_digest H w = Inr (H (ROE_DOMAIN @ canonical (roe_json r)))" if "validate_roe w = Inr r" for w
    using roe_digest_json [OF ok] by (simp add: roe_digest_def that validate_roe_json [OF ok] roe_sha_def)
  then show ?thesis
    using w validate_roe_json [OF ok] roe_len [OF ok] by (simp add: length_canonical len_def)
qed

text \<open>
  For every validated scope and both services the three witness addresses exist and are
  distinct, none is the selected endpoint, the first is the other service, and the wrong address
  and the wrong port are used by neither service.
\<close>

lemma witness_addresses_distinct:
  assumes "validate_scope v = Inr s" and "name = ''http'' \<or> name = ''ssh''"
  shows "\<exists>other ip port. witness_addresses v (PStr name) = Inr [other, (ip, ep_port (if name = ''http'' then sc_http s else sc_ssh s)),
      (ep_target (if name = ''http'' then sc_http s else sc_ssh s), port)]
    \<and> other = (if name = ''http'' then (ep_target (sc_ssh s), ep_port (sc_ssh s)) else (ep_target (sc_http s), ep_port (sc_http s)))
    \<and> ip \<in> set WITNESS_TARGETS \<and> ip \<notin> {ep_target (sc_http s), ep_target (sc_ssh s)}
    \<and> port \<notin> {ep_port (sc_http s), ep_port (sc_ssh s)} \<and> 1024 \<le> port \<and> port \<le> 65534
    \<and> other \<noteq> (ep_target (if name = ''http'' then sc_http s else sc_ssh s), ep_port (if name = ''http'' then sc_http s else sc_ssh s))"
proof -
  define cur where "cur = (if name = ''http'' then sc_http s else sc_ssh s)"
  define np where "np = (if ep_port cur < 65534 then ep_port cur + 1 else 1024)"
  have ok: "scope_ok s" by (rule validate_scope_ok [OF assms(1)])
  then have range: "1024 \<le> ep_port cur" "ep_port cur \<le> 65534"
    by (auto simp: cur_def scope_ok_def endpoint_ok_def port_ok_def)
  obtain ip where ip: "first_free WITNESS_TARGETS [ep_target (sc_http s), ep_target (sc_ssh s)] = Some ip"
    "ip \<in> set WITNESS_TARGETS" "ip \<notin> {ep_target (sc_http s), ep_target (sc_ssh s)}"
    using first_free_some [of "[ep_target (sc_http s), ep_target (sc_ssh s)]" WITNESS_TARGETS]
    by (auto simp: WITNESS_TARGETS_def)
  have "card {1024, 1025, 1026 :: int} \<le> card (set [np, 1024, 1025, 1026])" by (intro card_mono) auto
  then obtain port where port: "first_free [np, 1024, 1025, 1026] [ep_port (sc_http s), ep_port (sc_ssh s)] = Some port"
    "port \<in> {np, 1024, 1025, 1026}" "port \<notin> {ep_port (sc_http s), ep_port (sc_ssh s)}"
    using first_free_some [of "[ep_port (sc_http s), ep_port (sc_ssh s)]" "[np, 1024, 1025, 1026]"] by auto
  have sel: "scope_endpoint v (PStr name) = Inr cur"
    using assms by (auto simp: scope_endpoint_def cur_def)
  have "witness_addresses v (PStr name) = Inr [(ep_target (if name = ''http'' then sc_ssh s else sc_http s),
      ep_port (if name = ''http'' then sc_ssh s else sc_http s)), (ip, ep_port cur), (ep_target cur, port)]"
    using ip(1) port(1) by (simp add: witness_addresses_def assms(1) sel np_def [symmetric] Let_def)
  moreover have "1024 \<le> port" "port \<le> 65534" using port(2) range by (auto simp: np_def split: if_splits)
  ultimately show ?thesis
    using ip port ok assms(2) unfolding cur_def [symmetric]
    by (intro exI [of _ "(ep_target (if name = ''http'' then sc_ssh s else sc_http s), ep_port (if name = ''http'' then sc_ssh s else sc_http s))"]
        exI [of _ ip] exI [of _ port]) (auto simp: cur_def scope_ok_def)
qed

section \<open>A store\<close>

definition demo_scope :: scope where
  "demo_scope = \<lparr>sc_id = ''lab-1'', sc_http = \<lparr>ep_target = ''10.1.2.3'', ep_port = 8080, ep_path = Some ''/''\<rparr>,
     sc_ssh = \<lparr>ep_target = ''10.1.2.3'', ep_port = 2222, ep_path = None\<rparr>\<rparr>"

definition demo_roe :: roe where
  "demo_roe = \<lparr>roe_scope = demo_scope, roe_profiles = [''configurable_http_headers_v1'', ''configurable_nmap_service_v1''],
     roe_excluded = [], roe_start = ''2026-01-01T00:00:00Z'', roe_end = ''2026-01-01T12:00:00Z'',
     roe_limits = [4, 8, 16384, 16384, 30000, 600000]\<rparr>"

definition demo_hash :: "string \<Rightarrow> string" where
  "demo_hash x = replicate 64 (CHR ''0'')"

definition demo_id :: string where "demo_id = ''11111111-1111-4111-8111-111111111111''"

definition demo_create :: eng_request where
  "demo_create = \<lparr>rq_engagement = demo_id, rq_event = ''22222222-2222-4222-8222-222222222222'', rq_operation = Create,
     rq_revision = None, rq_generation = None, rq_roe = Some demo_roe\<rparr>"

definition demo_revise :: eng_request where
  "demo_revise = \<lparr>rq_engagement = demo_id, rq_event = ''33333333-3333-4333-8333-333333333333'', rq_operation = Revise,
     rq_revision = Some 1, rq_generation = Some 0, rq_roe = Some demo_roe\<rparr>"

lemma demo_roe_ok: "roe_ok demo_roe"
  by code_simp

lemma demo_hashes: "hashes demo_hash"
  by (simp add: hashes_def demo_hash_def is_hash_def list_all_iff is_hex_def is_digit_def less_eq_char_def)

lemma demo_requests_ok: "request_ok demo_create" "request_ok demo_revise"
proof -
  have "is_uuid4 demo_id" "is_uuid4 ''22222222-2222-4222-8222-222222222222''" "is_uuid4 ''33333333-3333-4333-8333-333333333333''"
    by code_simp+
  then show "request_ok demo_create" "request_ok demo_revise"
    using demo_roe_ok by (simp_all add: request_ok_def demo_create_def demo_revise_def)
qed

definition demo_store :: eng_store where
  "demo_store = \<lparr>st_db = db_of (record_start demo_hash demo_create), st_engagement = Some demo_id, st_open = True,
     st_read_only = False, st_failed = False\<rparr>"

definition demo_after :: eng_export where
  "demo_after = advance demo_hash demo_revise (record_start demo_hash demo_create)"

lemma demo_start_ok: "record_ok demo_hash (record_start demo_hash demo_create)"
  using record_start_ok [of demo_hash demo_create] demo_hashes demo_requests_ok(1)
  by (simp add: hashes_def demo_create_def)

lemma demo_store_holds: "holds demo_hash demo_store (record_start demo_hash demo_create)"
  using demo_start_ok by (simp add: holds_def demo_store_def demo_create_def)

lemma demo_store_start: "store_start demo_hash demo_store"
proof -
  let ?v = "create_value (PStr demo_id) (PStr ''22222222-2222-4222-8222-222222222222'') (roe_json demo_roe)"
  have "?v = request_json demo_create"
    by (simp add: create_value_def request_json_def demo_create_def optional_def)
  then have v: "validate_request ?v = Inr demo_create" using validate_request_json [OF demo_requests_ok(1)] by simp
  have db: "initial_db demo_hash demo_create = Inr (db_of (record_start demo_hash demo_create))"
    using initial_db_eq [OF demo_hashes demo_requests_ok(1)] by (simp add: demo_create_def)
  have "snapshot_checked demo_hash None (db_of (record_start demo_hash demo_create)) = Inr (record_start demo_hash demo_create)"
    using holds_snapshot(2) [OF demo_hashes demo_store_holds] by (simp add: demo_store_def)
  then have "create demo_hash healthy (PStr demo_id) (PStr ''22222222-2222-4222-8222-222222222222'') (roe_json demo_roe)
      = Inr demo_store"
    by (simp add: create_def v db) (simp add: demo_store_def demo_create_def)
  then show ?thesis unfolding store_start_def using demo_hashes by blast
qed

lemma demo_value: "validate_request (request_json demo_revise) = Inr demo_revise"
  by (rule validate_request_json [OF demo_requests_ok(2)])

lemma demo_same_engagement: "rq_engagement demo_revise = ex_engagement (record_start demo_hash demo_create)"
  by (simp add: demo_revise_def demo_create_def)

lemma demo_next: "record_next demo_hash demo_revise (record_start demo_hash demo_create)
    = Inr (new_receipt demo_hash demo_revise (record_start demo_hash demo_create), demo_after)"
proof -
  have "known_event (rq_event demo_revise) (record_start demo_hash demo_create) = None"
    unfolding known_event_None set_map [symmetric] record_start_simps by (simp add: demo_create_def demo_revise_def)
  then show ?thesis by (simp add: record_next_def demo_after_def) (simp add: demo_revise_def)
qed

lemma demo_usable: "usable demo_store"
  by (simp add: usable_def demo_store_def)

theorem store_implements_record_witness:
  "submit demo_hash healthy (request_json demo_revise) demo_store =
     (Inr (new_receipt demo_hash demo_revise (record_start demo_hash demo_create)), demo_store\<lparr>st_db := db_of demo_after\<rparr>)"
  using store_implements_record [OF demo_hashes demo_store_holds demo_usable demo_value demo_same_engagement]
  by (simp add: demo_next)

lemma demo_revised: "append_revision demo_hash healthy (roe_json demo_roe) (PInt 1) (PInt 0)
      (PStr ''33333333-3333-4333-8333-333333333333'') demo_store =
    (Inr (new_receipt demo_hash demo_revise (record_start demo_hash demo_create)), demo_store\<lparr>st_db := db_of demo_after\<rparr>)"
proof -
  have "request_value demo_store (PStr ''33333333-3333-4333-8333-333333333333'') ''revise'' (PInt 1) (PInt 0)
      (roe_json demo_roe) = request_json demo_revise"
    by (simp add: request_value_def request_json_def demo_revise_def optional_def demo_store_def)
  moreover have "inside demo_hash healthy demo_store (mutate_body demo_hash demo_revise)
      = Inr (new_receipt demo_hash demo_revise (record_start demo_hash demo_create), db_of demo_after)"
    by (simp add: inside_mutation [OF demo_hashes demo_store_holds demo_requests_ok(2) demo_same_engagement] demo_next)
  ultimately show ?thesis
    by (simp add: append_revision_def submit_def demo_value mutate_def transaction_def)
      (simp add: demo_store_def)
qed

lemma demo_step: "eng_step demo_hash demo_store (demo_store\<lparr>st_db := db_of demo_after\<rparr>)"
  by (rule step_append [OF demo_revised])

lemma demo_store_reach: "reach (store_start demo_hash) (eng_step demo_hash) demo_store"
  by (rule reach_init [of "store_start demo_hash", OF demo_store_start])

theorem reachable_store_validates_witness:
  "\<exists>e. snapshot_checked demo_hash (Some demo_id) (db_of demo_after) = Inr e \<and> validate_export demo_hash (export_json e) = Inr e"
  using reachable_store_validates [OF reach_step [OF demo_store_reach demo_step]]
  by (auto simp: demo_store_def)

theorem store_history_final_witness:
  "\<exists>e'. snapshot_checked demo_hash None (db_of demo_after) = Inr e'
    \<and> (\<exists>cs. ex_events e' = ex_events (record_start demo_hash demo_create) @ cs)"
  using store_history_final [OF demo_store_reach
      r_into_rtranclp [of "eng_step demo_hash", OF demo_step] holds_snapshot(2) [OF demo_hashes demo_store_holds]]
  by auto

text \<open>The reply of the revision is lost; the owner opens the store again.\<close>

definition demo_lost :: eng_store where
  "demo_lost = demo_store\<lparr>st_db := db_of demo_after, st_failed := True\<rparr>"

lemma demo_changed: "db_of demo_after \<noteq> st_db demo_store"
  by (simp add: db_of_def demo_after_def advance_def demo_store_def)

lemma demo_lost_reply: "submit demo_hash lost_reply (request_json demo_revise) demo_store = (Inl ''engagement_timeout'', demo_lost)"
proof -
  have "inside demo_hash lost_reply demo_store (mutate_body demo_hash demo_revise)
      = Inr (new_receipt demo_hash demo_revise (record_start demo_hash demo_create), db_of demo_after)"
    by (simp add: inside_mutation [OF demo_hashes demo_store_holds demo_requests_ok(2) demo_same_engagement] demo_next lost_reply_def)
  then show ?thesis
    by (simp add: submit_def demo_value mutate_def transaction_def Let_def lost_reply_def)
      (simp add: demo_store_def demo_lost_def poison_def POISON_CODES_def)
qed

lemma demo_reopened: "open_store demo_hash healthy False (st_db demo_lost) = Inr (demo_store\<lparr>st_db := db_of demo_after\<rparr>)"
proof -
  have ok: "record_ok demo_hash demo_after" and id: "ex_engagement demo_after = demo_id"
    using record_next_ok [OF _ demo_start_ok demo_requests_ok(2) demo_same_engagement demo_next] demo_hashes
      demo_same_engagement
    by (simp_all add: hashes_def demo_after_def advance_def demo_revise_def demo_create_def)
  have "snapshot_checked demo_hash None (db_of demo_after) = Inr demo_after"
    using snapshot_db_of [OF _ ok, of None] demo_hashes by (simp add: hashes_def)
  then show ?thesis
    by (simp add: open_store_def Let_def inside_def demo_lost_def id) (simp add: demo_store_def)
qed

theorem retry_returns_receipt_witness:
  "\<exists>r. submit demo_hash healthy (request_json demo_revise) (demo_store\<lparr>st_db := db_of demo_after\<rparr>)
    = (Inr r, demo_store\<lparr>st_db := db_of demo_after\<rparr>)"
proof -
  have "eng_step demo_hash demo_lost (demo_store\<lparr>st_db := db_of demo_after\<rparr>)"
    by (rule step_reopen [OF demo_reopened])
  then show ?thesis
    using retry_returns_receipt [OF demo_hashes demo_store_holds demo_value demo_same_engagement demo_lost_reply] demo_changed
      demo_usable by (auto simp: demo_lost_def usable_def)
qed

theorem failed_submission_keeps_tables_witness:
  "\<exists>st'. submit demo_hash (healthy\<lparr>commit_fault := Some unavailable_code\<rparr>) (request_json demo_revise) demo_store
      = (Inl unavailable_code, st') \<and> st_db st' = st_db demo_store \<and> fst (snapshot_call demo_hash healthy st') = Inl unavailable_code"
proof -
  let ?env = "healthy\<lparr>commit_fault := Some unavailable_code\<rparr>"
  have "inside demo_hash ?env demo_store (mutate_body demo_hash demo_revise) = Inl unavailable_code"
    by (simp add: inside_mutation [OF demo_hashes demo_store_holds demo_requests_ok(2) demo_same_engagement] demo_next)
      (simp add: fault_def)
  then have run: "submit demo_hash ?env (request_json demo_revise) demo_store = (Inl unavailable_code, poison unavailable_code demo_store)"
    using demo_usable by (simp add: submit_def demo_value mutate_def transaction_def usable_def)
  show ?thesis
    using failed_submission_keeps_tables [OF run] run by (simp add: unavailable_code_def POISON_CODES_def)
qed

theorem roe_roundtrip_witness:
  "validate_roe (PDict (rev (entries (roe_json demo_roe)))) = Inr demo_roe \<and> rev (entries (roe_json demo_roe)) \<noteq> entries (roe_json demo_roe)"
proof -
  have "sort_keys (PDict (rev (entries (roe_json demo_roe)))) = sort_keys (roe_json demo_roe)" by code_simp
  then have "validate_roe (PDict (rev (entries (roe_json demo_roe)))) = Inr demo_roe"
    using roe_roundtrip [OF validate_roe_json [OF demo_roe_ok]] by blast
  moreover have "rev (entries (roe_json demo_roe)) \<noteq> entries (roe_json demo_roe)" by code_simp
  ultimately show ?thesis by simp
qed

end
