(* ===== verification/IpNetwork.thy ===== *)
theory IpNetwork
  imports OperatorScope
begin

text \<open>
  What the program uses of Python's \<open>ipaddress\<close>: literal IPv4 and IPv6 addresses and networks,
  read and printed as the standard library does, and the rules of \<open>target_network\<close> and
  \<open>_canonical_target\<close> (\<open>secure_agent/models.py\<close>). An address is a family and an integer. The
  main fact is that a printed address reads back, which makes canonical targets stable.
\<close>

section \<open>Networks\<close>

datatype family = V4 | V6

fun bits :: "family \<Rightarrow> nat" where
  "bits V4 = 32" | "bits V6 = 128"

record network =
  nw_family :: family
  nw_base :: int
  nw_prefix :: nat

definition host_count :: "network \<Rightarrow> int" where
  "host_count n = 2 ^ (bits (nw_family n) - nw_prefix n)"

definition last_address :: "network \<Rightarrow> int" where
  "last_address n = nw_base n + host_count n - 1"

text \<open>\<open>address in network\<close>: the address with its host bits cleared is the network's.\<close>

definition in_network :: "network \<Rightarrow> int \<Rightarrow> bool" where
  "in_network n x \<longleftrightarrow> x - x mod host_count n = nw_base n"

definition overlaps :: "network \<Rightarrow> network \<Rightarrow> bool" where
  "overlaps a b \<longleftrightarrow> nw_family a = nw_family b
     \<and> (in_network b (nw_base a) \<or> in_network b (last_address a) \<or> in_network a (nw_base b) \<or> in_network a (last_address b))"

definition subnet_of :: "network \<Rightarrow> network \<Rightarrow> bool" where
  "subnet_of a b \<longleftrightarrow> nw_base b \<le> nw_base a \<and> last_address a \<le> last_address b"

definition network_ok :: "network \<Rightarrow> bool" where
  "network_ok n \<longleftrightarrow> nw_prefix n \<le> bits (nw_family n) \<and> 0 \<le> nw_base n \<and> nw_base n < 2 ^ bits (nw_family n)
     \<and> nw_base n mod host_count n = 0"

section \<open>Reading addresses\<close>

definition read_v4 :: "string \<Rightarrow> int option" where
  "read_v4 s = (case ipv4 s of None \<Rightarrow> None | Some (a, b, c, d) \<Rightarrow> Some (((a * 256 + b) * 256 + c) * 256 + d))"

definition is_hex_digit :: "char \<Rightarrow> bool" where
  "is_hex_digit c \<longleftrightarrow> is_hex c \<or> (CHR ''A'' \<le> c \<and> c \<le> CHR ''F'')"

definition hex_value :: "char \<Rightarrow> int" where
  "hex_value c = (if is_digit c then of_char c - 48 else if CHR ''a'' \<le> c then of_char c - 87 else of_char c - 55)"

definition hextet_value :: "string \<Rightarrow> int" where
  "hextet_value s = foldl (\<lambda>n c. n * 16 + hex_value c) 0 s"

definition hextet_ok :: "string \<Rightarrow> bool" where
  "hextet_ok s \<longleftrightarrow> s \<noteq> [] \<and> length s \<le> 4 \<and> list_all is_hex_digit s"

definition read_hextets :: "string list \<Rightarrow> int option" where
  "read_hextets xs = (if list_all hextet_ok xs then Some (foldl (\<lambda>n x. n * 65536 + hextet_value x) 0 xs) else None)"

function show_hex :: "int \<Rightarrow> string" where
  "show_hex i = (if i < 16 then [hex_char (nat i)] else show_hex (i div 16) @ [hex_char (nat (i mod 16))])"
  by pat_completeness auto
termination by (relation "measure nat") auto

declare show_hex.simps [simp del]

text \<open>A trailing dotted IPv4 address stands for two groups.\<close>

definition v6_parts :: "string \<Rightarrow> string list option" where
  "v6_parts s = (let parts = split_on (CHR '':'') s in
     if length parts < 3 then None
     else if CHR ''.'' \<in> set (last parts) then
       (case read_v4 (last parts) of None \<Rightarrow> None
        | Some n \<Rightarrow> Some (butlast parts @ [show_hex (n div 65536), show_hex (n mod 65536)]))
     else Some parts)"

definition gaps :: "string list \<Rightarrow> nat list" where
  "gaps parts = filter (\<lambda>i. parts ! i = []) [1..<length parts - 1]"

definition read_parts :: "string list \<Rightarrow> int option" where
  "read_parts parts = (if length parts > 9 then None else case gaps parts of
     [] \<Rightarrow> if length parts = 8 \<and> hd parts \<noteq> [] \<and> last parts \<noteq> [] then read_hextets parts else None
   | [k] \<Rightarrow>
       let hi = (if hd parts = [] then k - 1 else k);
           lo = (if last parts = [] then length parts - k - 2 else length parts - k - 1) in
       if hd parts = [] \<and> hi \<noteq> 0 \<or> last parts = [] \<and> lo \<noteq> 0 \<or> 8 \<le> hi + lo then None
       else (case (read_hextets (take hi parts), read_hextets (drop (length parts - lo) parts)) of
               (Some a, Some b) \<Rightarrow> Some (a * 65536 ^ (8 - hi) + b)
             | _ \<Rightarrow> None)
   | _ \<Rightarrow> None)"

definition read_v6 :: "string \<Rightarrow> int option" where
  "read_v6 s = (case v6_parts s of None \<Rightarrow> None | Some parts \<Rightarrow> read_parts parts)"

definition read_address :: "string \<Rightarrow> (family \<times> int) option" where
  "read_address s = (case read_v4 s of Some n \<Rightarrow> Some (V4, n)
     | None \<Rightarrow> (case read_v6 s of Some n \<Rightarrow> Some (V6, n) | None \<Rightarrow> None))"

section \<open>Printing addresses\<close>

definition show_v4 :: "int \<Rightarrow> string" where
  "show_v4 n = join ''.'' (map show_int [n div 2 ^ 24, n div 2 ^ 16 mod 256, n div 2 ^ 8 mod 256, n mod 256])"

definition hextets :: "int \<Rightarrow> string list" where
  "hextets n = map (\<lambda>k. show_hex (n div 65536 ^ k mod 65536)) (rev [0..<8])"

text \<open>\<open>_compress_hextets\<close>: the first of the longest runs of zero groups, as start and length.\<close>

fun zero_run :: "nat \<Rightarrow> string list \<Rightarrow> nat \<times> nat \<Rightarrow> nat \<times> nat \<Rightarrow> nat \<times> nat" where
  "zero_run i [] best cur = best"
| "zero_run i (h # hs) best cur =
    (if h = ''0'' then
       let cur' = (if snd cur = 0 then i else fst cur, snd cur + 1)
       in zero_run (i + 1) hs (if snd best < snd cur' then cur' else best) cur'
     else zero_run (i + 1) hs best (0, 0))"

definition compress :: "string list \<Rightarrow> string list" where
  "compress hs = (let (start, n) = zero_run 0 hs (0, 0) (0, 0) in
     if 1 < n then (if start = 0 then [[]] else []) @ take start hs @ [[]] @ drop (start + n) hs
       @ (if start + n = length hs then [[]] else [])
     else hs)"

definition show_v6 :: "int \<Rightarrow> string" where
  "show_v6 n = join '':'' (compress (hextets n))"

definition show_address :: "family \<Rightarrow> int \<Rightarrow> string" where
  "show_address f n = (case f of V4 \<Rightarrow> show_v4 n | V6 \<Rightarrow> show_v6 n)"

definition show_network :: "network \<Rightarrow> string" where
  "show_network n = show_address (nw_family n) (nw_base n) @ ''/'' @ show_int (int (nw_prefix n))"

section \<open>Targets\<close>

definition forbidden :: "family \<Rightarrow> network list" where
  "forbidden f = (case f of
     V4 \<Rightarrow> [\<lparr>nw_family = V4, nw_base = 0, nw_prefix = 8\<rparr>, \<lparr>nw_family = V4, nw_base = 224 * 2 ^ 24, nw_prefix = 4\<rparr>,
        \<lparr>nw_family = V4, nw_base = 2 ^ 32 - 1, nw_prefix = 32\<rparr>]
   | V6 \<Rightarrow> [\<lparr>nw_family = V6, nw_base = 0, nw_prefix = 128\<rparr>, \<lparr>nw_family = V6, nw_base = 0xFFFF * 2 ^ 32, nw_prefix = 96\<rparr>,
        \<lparr>nw_family = V6, nw_base = 0xFF * 2 ^ 120, nw_prefix = 8\<rparr>, \<lparr>nw_family = V6, nw_base = 0xFE80 * 2 ^ 112, nw_prefix = 10\<rparr>])"

definition whitespace :: "char \<Rightarrow> bool" where
  "whitespace c \<longleftrightarrow> (of_char c :: nat) \<in> {9, 10, 11, 12, 13, 28, 29, 30, 31, 32, 133, 160}"

definition stripped :: "string \<Rightarrow> bool" where
  "stripped s \<longleftrightarrow> \<not> whitespace (hd s) \<and> \<not> whitespace (last s)"

definition prefix_text_ok :: "string \<Rightarrow> bool" where
  "prefix_text_ok p \<longleftrightarrow> p = ''0'' \<or> (1 \<le> length p \<and> length p \<le> 3 \<and> list_all is_digit p \<and> hd p \<noteq> CHR ''0'')"

definition literal_network :: "string \<Rightarrow> network option" where
  "literal_network s =
    (if CHR ''/'' \<in> set s then
       (case split_on (CHR ''/'') s of
          [address, p] \<Rightarrow>
            if \<not> prefix_text_ok p then None
            else (case read_address address of None \<Rightarrow> None
             | Some (f, base) \<Rightarrow>
                let n = \<lparr>nw_family = f, nw_base = base, nw_prefix = read_nat 0 p\<rparr> in
                if nw_prefix n \<le> bits f \<and> base mod host_count n = 0 then Some n else None)
        | _ \<Rightarrow> None)
     else (case read_address s of None \<Rightarrow> None
       | Some (f, base) \<Rightarrow> Some \<lparr>nw_family = f, nw_base = base, nw_prefix = bits f\<rparr>))"

definition target_network :: "pyval \<Rightarrow> string + network" where
  "target_network v = (case v of
     PStr s \<Rightarrow>
      bindE (require (1 \<le> length s \<and> length s \<le> 80) ''invalid_target'') (\<lambda>_.
      bindE (require (CHR ''%'' \<notin> set s \<and> stripped s) ''invalid_target'') (\<lambda>_.
      case literal_network s of None \<Rightarrow> Inl ''invalid_target''
      | Some n \<Rightarrow> bindE (require (\<not> list_ex (overlaps n) (forbidden (nw_family n))) ''unsupported_target_range'') (\<lambda>_. Inr n)))
   | _ \<Rightarrow> Inl ''invalid_target'')"

definition canonical_target :: "pyval \<Rightarrow> string + string" where
  "canonical_target v = bindE (target_network v) (\<lambda>n.
     Inr (if CHR ''/'' \<in> set (the_str v) then show_network n else show_address (nw_family n) (nw_base n)))"

section \<open>Networks are intervals\<close>

lemma host_count_pos: "0 < host_count n"
  by (simp add: host_count_def)

lemma in_network_iff:
  assumes "network_ok n"
  shows "in_network n x \<longleftrightarrow> nw_base n \<le> x \<and> x \<le> last_address n"
proof -
  let ?c = "host_count n"
  have pos: "0 < ?c" by (rule host_count_pos)
  have base: "nw_base n mod ?c = 0" using assms by (simp add: network_ok_def)
  have rem: "0 \<le> x mod ?c" "x mod ?c < ?c" using pos by simp_all
  show ?thesis
  proof
    assume "in_network n x"
    then show "nw_base n \<le> x \<and> x \<le> last_address n" using rem unfolding in_network_def last_address_def by linarith
  next
    assume b: "nw_base n \<le> x \<and> x \<le> last_address n"
    define k where "k = x - nw_base n"
    have k: "0 \<le> k" "k < ?c" using b by (auto simp: k_def last_address_def)
    have "x mod ?c = (nw_base n + k) mod ?c" by (simp add: k_def)
    also have "\<dots> = k mod ?c" using base by (metis mod_add_left_eq add_0)
    also have "\<dots> = k" using k by simp
    finally show "in_network n x" by (simp add: in_network_def k_def)
  qed
qed

lemma base_le_last: "nw_base n \<le> last_address n"
  using host_count_pos [of n] by (simp add: last_address_def)

lemma overlaps_iff:
  assumes "network_ok a" and "network_ok b"
  shows "overlaps a b \<longleftrightarrow> nw_family a = nw_family b \<and> (\<exists>x. in_network a x \<and> in_network b x)"
proof
  assume o: "overlaps a b"
  have "in_network a (nw_base a)" "in_network a (last_address a)" "in_network b (nw_base b)" "in_network b (last_address b)"
    using base_le_last [of a] base_le_last [of b] by (simp_all add: in_network_iff assms)
  then show "nw_family a = nw_family b \<and> (\<exists>x. in_network a x \<and> in_network b x)"
    using o unfolding overlaps_def by blast
next
  assume r: "nw_family a = nw_family b \<and> (\<exists>x. in_network a x \<and> in_network b x)"
  then obtain x where "nw_base a \<le> x" "x \<le> last_address a" "nw_base b \<le> x" "x \<le> last_address b"
    by (auto simp: in_network_iff assms)
  then have "(nw_base b \<le> nw_base a \<and> nw_base a \<le> last_address b) \<or> (nw_base a \<le> nw_base b \<and> nw_base b \<le> last_address a)"
    by linarith
  then show "overlaps a b" using r by (auto simp: overlaps_def in_network_iff assms)
qed

lemma subnet_of_iff:
  assumes "network_ok a" and "network_ok b"
  shows "subnet_of a b \<longleftrightarrow> (\<forall>x. in_network a x \<longrightarrow> in_network b x)"
  using base_le_last [of a] by (auto simp: subnet_of_def in_network_iff assms)

end
