(* ===== verification/JsonText.thy ===== *)
theory JsonText
  imports IpNetwork PySort
begin

text \<open>
  \<open>load_json\<close> (\<open>secure_agent/models.py\<close>): the strict reading of a JSON object, with
  \<open>json.loads\<close> as the standard library has it. A reader returns the value and the rest of the
  text; the nested loops carry a fuel that the length of the text bounds. Two inputs are outside
  the model and give the code \<open>unmodelled\<close>: numbers with a fraction or exponent and escapes
  above \<open>\\u00ff\<close>. Two more things differ from the code: \<open>load_json\<close> also takes \<open>bytes\<close>, which
  \<open>pyval\<close> does not have; and CPython's parser raises \<open>RecursionError\<close>, which the code reports as
  \<open>invalid_json\<close>, when arrays and objects nest deeper than the stack of the calling thread allows,
  whereas the model reads every nesting. The theory \<open>LoadJson\<close> says what is accepted and refused.
\<close>

section \<open>Scanning\<close>

definition json_space :: "char \<Rightarrow> bool" where
  "json_space c \<longleftrightarrow> c \<in> {CHR '' '', CHR 0x09, CHR 0x0A, CHR 0x0D}"

definition skip :: "string \<Rightarrow> string" where
  "skip s = dropWhile json_space s"

definition invalid_json :: string where "invalid_json = ''invalid_json''"
definition unmodelled :: string where "unmodelled = ''unmodelled''"
definition out_of_fuel :: string where "out_of_fuel = ''out_of_fuel''"

definition simple_escape :: "char \<Rightarrow> char option" where
  "simple_escape e =
    (if e \<in> {CHR 0x22, CHR 0x5C, CHR ''/''} then Some e
     else if e = CHR ''b'' then Some (CHR 0x08) else if e = CHR ''f'' then Some (CHR 0x0C)
     else if e = CHR ''n'' then Some (CHR 0x0A) else if e = CHR ''r'' then Some (CHR 0x0D)
     else if e = CHR ''t'' then Some (CHR 0x09) else None)"

definition push_char :: "char \<Rightarrow> string + string \<times> string \<Rightarrow> string + string \<times> string" where
  "push_char c m = bindE m (\<lambda>(t, r). Inr (c # t, r))"

lemma push_char_cong [fundef_cong]: "c = d \<Longrightarrow> m = m' \<Longrightarrow> push_char c m = push_char d m'"
  by simp

text \<open>The text of a string after its opening quote.\<close>

fun read_chars :: "string \<Rightarrow> string + string \<times> string" where
  "read_chars [] = Inl invalid_json"
| "read_chars (c # cs) =
    (if c = CHR 0x22 then Inr ([], cs)
     else if c < CHR '' '' then Inl invalid_json
     else if c \<noteq> CHR 0x5C then push_char c (read_chars cs)
     else case cs of
       [] \<Rightarrow> Inl invalid_json
     | e # r \<Rightarrow>
        (if e = CHR ''u'' then
           (case r of
              a # b # x # y # r' \<Rightarrow>
                if \<not> list_all is_hex_digit [a, b, x, y] then Inl invalid_json
                else if a \<noteq> CHR ''0'' \<or> b \<noteq> CHR ''0'' then Inl unmodelled
                else push_char (char_of (nat (16 * hex_value x + hex_value y))) (read_chars r')
            | _ \<Rightarrow> Inl invalid_json)
         else case simple_escape e of None \<Rightarrow> Inl invalid_json | Some d \<Rightarrow> push_char d (read_chars r)))"

definition float_follows :: "string \<Rightarrow> bool" where
  "float_follows r = (case r of
     [] \<Rightarrow> False
   | c # cs \<Rightarrow>
      if c = CHR ''.'' then cs \<noteq> [] \<and> is_digit (hd cs)
      else if c = CHR ''e'' \<or> c = CHR ''E'' then
        (let t = (if cs \<noteq> [] \<and> (hd cs = CHR ''+'' \<or> hd cs = CHR ''-'') then tl cs else cs) in t \<noteq> [] \<and> is_digit (hd t))
      else False)"

text \<open>Python refuses to convert more than 4300 digits.\<close>

definition MAX_DIGITS :: nat where "MAX_DIGITS = 4300"

definition scan_digits :: "string \<Rightarrow> string" where
  "scan_digits t = (if t \<noteq> [] \<and> hd t = CHR ''0'' then ''0'' else takeWhile is_digit t)"

definition read_number :: "string \<Rightarrow> string + pyval \<times> string" where
  "read_number s =
    (let neg = (s \<noteq> [] \<and> hd s = CHR ''-'');
         t = (if neg then tl s else s);
         ds = scan_digits t;
         r = drop (length ds) t;
         n = int (read_nat 0 ds) in
     if ds = [] then Inl invalid_json
     else if float_follows r then Inl unmodelled
     else if MAX_DIGITS < length ds then Inl invalid_json
     else Inr (PInt (if neg then - n else n), r))"

definition starts_with :: "string \<Rightarrow> string \<Rightarrow> bool" where
  "starts_with w s \<longleftrightarrow> take (length w) s = w"

definition read_word :: "string \<Rightarrow> string + pyval \<times> string" where
  "read_word s =
    (if starts_with ''null'' s then Inr (PNone, drop 4 s)
     else if starts_with ''true'' s then Inr (PBool True, drop 4 s)
     else if starts_with ''false'' s then Inr (PBool False, drop 5 s)
     else if starts_with ''NaN'' s \<or> starts_with ''Infinity'' s \<or> starts_with ''-Infinity'' s
     then Inl ''invalid_json_constant''
     else read_number s)"

section \<open>Values\<close>

fun read_value :: "nat \<Rightarrow> string \<Rightarrow> string + pyval \<times> string"
and read_elements :: "nat \<Rightarrow> string \<Rightarrow> string + pyval list \<times> string"
and read_members :: "nat \<Rightarrow> string \<Rightarrow> string + (string \<times> pyval) list \<times> string" where
  "read_value 0 s = Inl out_of_fuel"
| "read_value (Suc n) s = (case s of
     [] \<Rightarrow> Inl invalid_json
   | c # cs \<Rightarrow>
      if c = CHR 0x22 then bindE (read_chars cs) (\<lambda>(t, r). Inr (PStr t, r))
      else if c = CHR ''{'' then
        (if skip cs \<noteq> [] \<and> hd (skip cs) = CHR ''}'' then Inr (PDict [], tl (skip cs))
         else bindE (read_members n (skip cs)) (\<lambda>(kvs, r).
              bindE (require (distinct (map fst kvs)) ''duplicate_json_key'') (\<lambda>_. Inr (PDict kvs, r))))
      else if c = CHR ''['' then
        (if skip cs \<noteq> [] \<and> hd (skip cs) = CHR '']'' then Inr (PList [], tl (skip cs))
         else bindE (read_elements n (skip cs)) (\<lambda>(vs, r). Inr (PList vs, r)))
      else read_word (c # cs))"
| "read_elements 0 s = Inl out_of_fuel"
| "read_elements (Suc n) s = bindE (read_value n s) (\<lambda>(v, r). case skip r of
     [] \<Rightarrow> Inl invalid_json
   | d # r' \<Rightarrow>
      if d = CHR '']'' then Inr ([v], r')
      else if d = CHR '','' then bindE (read_elements n (skip r')) (\<lambda>(vs, r''). Inr (v # vs, r''))
      else Inl invalid_json)"
| "read_members 0 s = Inl out_of_fuel"
| "read_members (Suc n) s =
    (if s = [] \<or> hd s \<noteq> CHR 0x22 then Inl invalid_json
     else bindE (read_chars (tl s)) (\<lambda>(k, r).
       if skip r = [] \<or> hd (skip r) \<noteq> CHR '':'' then Inl invalid_json
       else bindE (read_value n (skip (tl (skip r)))) (\<lambda>(v, r1). case skip r1 of
         [] \<Rightarrow> Inl invalid_json
       | d # r2 \<Rightarrow>
          if d = CHR ''}'' then Inr ([(k, v)], r2)
          else if d = CHR '','' then bindE (read_members n (skip r2)) (\<lambda>(kvs, r3). Inr ((k, v) # kvs, r3))
          else Inl invalid_json)))"

definition read_json :: "string \<Rightarrow> string + pyval" where
  "read_json s = bindE (read_value (2 * length s + 2) (skip s)) (\<lambda>(v, r).
     bindE (require (skip r = []) invalid_json) (\<lambda>_. Inr v))"

section \<open>Strict objects\<close>

definition MAX_JSON_BYTES :: int where "MAX_JSON_BYTES = 32768"

definition utf8_length :: "string \<Rightarrow> int" where
  "utf8_length s = sum_list (map (\<lambda>c. if (of_char c :: nat) < 128 then 1 else 2) s)"

definition load_json :: "pyval \<Rightarrow> string + pyval" where
  "load_json v =
    bindE (require (is_str v) ''invalid_json_type'') (\<lambda>_.
    bindE (require (utf8_length (the_str v) \<le> MAX_JSON_BYTES) ''json_too_large'') (\<lambda>_.
    bindE (read_json (the_str v)) (\<lambda>w.
    bindE (require (is_dict w) ''invalid_json_object'') (\<lambda>_. Inr w))))"

end
