(* ===== verification/JsonRead.thy ===== *)
theory JsonRead
  imports JsonText
begin

text \<open>
  Reading back what \<open>json.dumps\<close> wrote, and the fuel of the reader: the readers never run out
  of it, whatever the text, because every loop consumes a character.
\<close>

section \<open>Escapes and numbers\<close>

lemma hex_value_hex_char: "n < 16 \<Longrightarrow> hex_value (hex_char n) = int n \<and> is_hex_digit (hex_char n)"
proof -
  have "list_all (\<lambda>n. hex_value (hex_char n) = int n \<and> is_hex_digit (hex_char n)) [0..<16]" by code_simp
  then show "n < 16 \<Longrightarrow> hex_value (hex_char n) = int n \<and> is_hex_digit (hex_char n)" by (auto simp: list_all_iff)
qed

lemma read_chars_plain:
  "c \<noteq> CHR 0x22 \<Longrightarrow> c \<noteq> CHR 0x5C \<Longrightarrow> CHR '' '' \<le> c \<Longrightarrow> read_chars (c # t) = push_char c (read_chars t)"
  using leD [of "CHR '' ''" c] by simp

lemma read_chars_simple:
  "e \<noteq> CHR ''u'' \<Longrightarrow> simple_escape e = Some d \<Longrightarrow> read_chars (CHR 0x5C # e # t) = push_char d (read_chars t)"
  by (simp add: less_char_def)

lemma read_chars_hex:
  assumes "x < 16" and "y < 16"
  shows "read_chars ([CHR 0x5C, CHR ''u'', CHR ''0'', CHR ''0'', hex_char x, hex_char y] @ t)
    = push_char (char_of (16 * x + y)) (read_chars t)"
proof -
  have z: "is_hex_digit (CHR ''0'')" by code_simp
  have v: "nat (16 * int x + int y) = 16 * x + y"
    by simp
  have "\<not> (CHR 0x5C :: char) < CHR '' ''" by (simp add: less_char_def)
  then show ?thesis
    using hex_value_hex_char [OF assms(1)] hex_value_hex_char [OF assms(2)] z v by (simp del: nat_add_distrib)
qed

lemma read_chars_escape: "read_chars (escape_char c @ t) = push_char c (read_chars t)"
proof -
  let ?simple = "c \<in> {CHR 0x22, CHR 0x5C, CHR 0x08, CHR 0x0C, CHR 0x0A, CHR 0x0D, CHR 0x09}"
  consider "?simple" | "\<not> ?simple" "CHR '' '' \<le> c \<and> c \<le> CHR ''~''" | "\<not> ?simple" "\<not> (CHR '' '' \<le> c \<and> c \<le> CHR ''~'')"
    by blast
  then show ?thesis
  proof cases
    case 1
    then show ?thesis
      by (elim insertE emptyE) (simp_all add: escape_char_def read_chars_simple simple_escape_def del: read_chars.simps)
  next
    case 2
    then have "escape_char c = [c]" by (simp add: escape_char_def)
    with 2 show ?thesis using read_chars_plain [of c t] by simp
  next
    case 3
    have b: "(of_char c :: nat) div 16 < 16" "(of_char c :: nat) mod 16 < 16" using of_char_lt [of c] by linarith+
    have "escape_char c = [CHR 0x5C, CHR ''u'', CHR ''0'', CHR ''0'', hex_char (of_char c div 16), hex_char (of_char c mod 16)]"
      using 3 by (simp add: escape_char_def)
    then show ?thesis using read_chars_hex [OF b, of t] by (simp del: append.simps)
  qed
qed

lemma read_json_string: "read_chars (concat (map escape_char s) @ CHR 0x22 # r) = Inr (s, r)"
  by (induction s) (simp_all add: read_chars_escape push_char_def)

lemma starts_with_head: "w \<noteq> [] \<Longrightarrow> s \<noteq> [] \<Longrightarrow> hd s \<noteq> hd w \<Longrightarrow> \<not> starts_with w s"
  by (cases w; cases s) (auto simp: starts_with_def)

lemma stops_not_float: "stops r \<Longrightarrow> \<not> float_follows r"
  by (cases r) (auto simp: stops_def float_follows_def)

lemma takeWhile_digits: "\<forall>c \<in> set ds. is_digit c \<Longrightarrow> stops r \<Longrightarrow> takeWhile is_digit (ds @ r) = ds"
  by (cases r) (auto simp: stops_def is_digit_iff)

lemma show_pos_leading:
  "0 < i \<Longrightarrow> hd (show_pos i) \<noteq> CHR ''0''"
proof (induction i rule: show_pos.induct)
  case (1 i)
  show ?case
  proof (cases "i < 10")
    case True
    then have h: "hd (show_pos i) = digit_char (nat i)" by (subst show_pos.simps) simp
    have "list_all (\<lambda>n. digit_char n \<noteq> CHR ''0'') [1..<10]" by code_simp
    moreover have "nat i \<in> set [1..<10]" using True 1(2) by (auto simp: nat_less_iff)
    ultimately have "digit_char (nat i) \<noteq> CHR ''0''" unfolding list_all_iff by blast
    then show ?thesis using h by simp
  next
    case False
    then have "hd (show_pos i) = hd (show_pos (i div 10))"
      by (subst show_pos.simps) (simp add: show_pos_nonempty)
    then show ?thesis using 1 False by auto
  qed
qed

lemma show_pos_zero: "show_pos 0 = ''0''"
  by code_simp

definition int_ok :: "int \<Rightarrow> bool" where
  "int_ok i \<longleftrightarrow> length (show_pos \<bar>i\<bar>) \<le> MAX_DIGITS"

lemma read_number_show:
  assumes "int_ok i" and "stops r"
  shows "read_number (show_int i @ r) = Inr (PInt i, r)"
proof -
  define ds where "ds = show_pos \<bar>i\<bar>"
  have nonempty: "ds \<noteq> []" and digits: "\<forall>c \<in> set ds. is_digit c"
    using show_pos_nonempty show_pos_digits [of "\<bar>i\<bar>"] by (simp_all add: ds_def)
  have scan: "scan_digits (ds @ r) = ds"
  proof (cases "i = 0")
    case True
    then show ?thesis by (simp add: ds_def show_pos_zero scan_digits_def)
  next
    case False
    then have "hd ds \<noteq> CHR ''0''" using show_pos_leading [of "\<bar>i\<bar>"] by (simp add: ds_def)
    then show ?thesis using nonempty takeWhile_digits [OF digits assms(2)] by (simp add: scan_digits_def)
  qed
  have val: "int (read_nat 0 ds) = \<bar>i\<bar>" by (simp add: ds_def read_show_pos)
  have len: "\<not> MAX_DIGITS < length ds" using assms(1) by (simp add: int_ok_def ds_def)
  have minus: "hd (ds @ r) \<noteq> CHR ''-''"
    using nonempty digits by (cases ds) (auto simp: is_digit_iff)
  have fl: "\<not> float_follows r" using assms(2) by (rule stops_not_float)
  show ?thesis
  proof (cases "i < 0")
    case True
    then have "show_int i @ r = CHR ''-'' # (ds @ r)" by (simp add: show_int_def ds_def)
    then show ?thesis using True scan val len fl nonempty by (simp add: read_number_def Let_def)
  next
    case False
    then have "show_int i @ r = ds @ r" by (simp add: show_int_def ds_def)
    then show ?thesis using False scan val len fl nonempty minus by (simp add: read_number_def Let_def)
  qed
qed

section \<open>A printed value reads back\<close>

text \<open>Values that \<open>json.dumps\<close> can have printed: dictionaries have distinct keys.\<close>

primrec json_ok :: "pyval \<Rightarrow> bool" where
  "json_ok PNone = True" | "json_ok (PBool b) = True" | "json_ok (PInt i) = int_ok i"
| "json_ok (PStr s) = True" | "json_ok (PList xs) = list_all id (map json_ok xs)"
| "json_ok (PDict kvs) = (distinct (map fst kvs) \<and> list_all snd (map (map_prod id json_ok) kvs))"

primrec depth :: "pyval \<Rightarrow> nat" where
  "depth PNone = 1" | "depth (PBool b) = 1" | "depth (PInt i) = 1" | "depth (PStr s) = 1"
| "depth (PList xs) = 1 + sum_list (map Suc (map depth xs))"
| "depth (PDict kvs) = 1 + sum_list (map (\<lambda>kv. Suc (snd kv)) (map (map_prod id depth) kvs))"

lemma skip_id: "s \<noteq> [] \<Longrightarrow> \<not> json_space (hd s) \<Longrightarrow> skip s = s"
  by (cases s) (simp_all add: skip_def)

lemma skip_stop: "c \<in> set '',]}:'' \<Longrightarrow> skip (c # s) = c # s"
  by (auto simp: skip_def json_space_def)

lemma dumps_no_space: "dumps v \<noteq> [] \<and> \<not> json_space (hd (dumps v))"
proof (cases v)
  case (PInt i)
  then show ?thesis using show_int_head [of i] by (auto simp: json_space_def is_digit_iff)
qed (auto simp: json_space_def json_string_def)

lemma skip_dumps: "skip (dumps v @ r) = dumps v @ r"
  using dumps_no_space [of v] by (simp add: skip_id)

lemma skip_entry: "skip (entry kv @ r) = entry kv @ r"
  by (rule skip_id) (simp_all add: entry_def json_string_def json_space_def)

lemma skip_join_dumps: "xs \<noteq> [] \<Longrightarrow> skip (join '','' (map dumps xs) @ r) = join '','' (map dumps xs) @ r"
  by (cases xs) (simp_all add: join_Cons skip_dumps)

lemma skip_join_entries: "kvs \<noteq> [] \<Longrightarrow> skip (join '','' (map entry kvs) @ r) = join '','' (map entry kvs) @ r"
  by (cases kvs) (simp_all add: join_Cons skip_entry)

definition reads_back :: "pyval \<Rightarrow> bool" where
  "reads_back v \<longleftrightarrow> (\<forall>n r. depth v \<le> n \<longrightarrow> stops r \<longrightarrow> read_value n (dumps v @ r) = Inr (v, r))"

lemma reads_backD: "reads_back v \<Longrightarrow> depth v \<le> n \<Longrightarrow> stops r \<Longrightarrow> read_value n (dumps v @ r) = Inr (v, r)"
  by (simp add: reads_back_def)

lemma stops_intros: "stops (CHR '']'' # r)" "stops (CHR ''}'' # r)" "stops (CHR '','' # r)"
  by (simp_all add: stops_def)

lemma read_elements_join:
  assumes "\<forall>x \<in> set xs. reads_back x" and "xs \<noteq> []" and "sum_list (map (\<lambda>x. Suc (depth x)) xs) \<le> n"
  shows "read_elements n (join '','' (map dumps xs) @ CHR '']'' # r) = Inr (xs, r)"
  using assms
proof (induction xs arbitrary: n)
  case (Cons x xs)
  then obtain m where n: "n = Suc m" by (cases n) auto
  have d: "depth x \<le> m" using Cons.prems(3) n by simp
  show ?case
  proof (cases "xs = []")
    case True
    have "read_value m (dumps x @ CHR '']'' # r) = Inr (x, CHR '']'' # r)"
      using Cons.prems(1) d by (auto intro!: reads_backD stops_intros)
    then show ?thesis using True n by (simp add: skip_stop)
  next
    case False
    let ?rest = "join '','' (map dumps xs) @ CHR '']'' # r"
    have "read_value m (dumps x @ CHR '','' # ?rest) = Inr (x, CHR '','' # ?rest)"
      using Cons.prems(1) d by (auto intro!: reads_backD stops_intros)
    moreover have "read_elements m ?rest = Inr (xs, r)" using Cons False n by simp
    ultimately show ?thesis using False n by (simp add: join_Cons skip_stop skip_join_dumps)
  qed
qed simp

lemma read_members_join:
  assumes "\<forall>kv \<in> set kvs. reads_back (snd kv)" and "kvs \<noteq> []"
    and "sum_list (map (\<lambda>kv. Suc (depth (snd kv))) kvs) \<le> n"
  shows "read_members n (join '','' (map entry kvs) @ CHR ''}'' # r) = Inr (kvs, r)"
  using assms
proof (induction kvs arbitrary: n)
  case (Cons kv kvs)
  then obtain m where n: "n = Suc m" by (cases n) auto
  obtain k v where kv: "kv = (k, v)" by (cases kv)
  have d: "depth v \<le> m" using Cons.prems(3) n kv by simp
  have rb: "reads_back v" using Cons.prems(1) kv by simp
  have key: "entry (k, v) @ t = CHR 0x22 # (concat (map escape_char k) @ CHR 0x22 # CHR '':'' # dumps v @ t)" for t
    by (simp add: entry_def json_string_def)
  show ?case
  proof (cases "kvs = []")
    case True
    have "read_value m (dumps v @ CHR ''}'' # r) = Inr (v, CHR ''}'' # r)"
      using rb d by (auto intro!: reads_backD stops_intros)
    then show ?thesis using True n by (simp add: key read_json_string skip_stop skip_dumps kv)
  next
    case False
    let ?rest = "join '','' (map entry kvs) @ CHR ''}'' # r"
    have "read_value m (dumps v @ CHR '','' # ?rest) = Inr (v, CHR '','' # ?rest)"
      using rb d by (auto intro!: reads_backD stops_intros)
    moreover have "read_members m ?rest = Inr (kvs, r)" using Cons False n by simp
    ultimately show ?thesis
      using False n by (simp add: join_Cons key read_json_string skip_stop skip_dumps skip_join_entries kv)
  qed
qed simp

lemma read_word_number:
  assumes "int_ok i" and "stops r"
  shows "read_word (show_int i @ r) = Inr (PInt i, r)"
proof -
  have h: "show_int i @ r \<noteq> []" "hd (show_int i @ r) = CHR ''-'' \<or> is_digit (hd (show_int i @ r))"
    using show_int_head [of i] by auto
  have no: "\<not> starts_with w (show_int i @ r)" if "w \<noteq> []" "hd w \<noteq> CHR ''-''" "\<not> is_digit (hd w)" for w
    using h that by (intro starts_with_head) auto
  have inf: "\<not> starts_with ''-Infinity'' (show_int i @ r)"
  proof (cases "i < 0")
    case True
    have "show_pos (- i) \<noteq> []" "is_digit (hd (show_pos (- i)))" using show_pos_nonempty hd_show_pos [of "- i"] True by simp_all
    then show ?thesis using True
      by (cases "show_pos (- i)") (auto simp: show_int_def starts_with_def is_digit_iff)
  next
    case False
    then show ?thesis using show_pos_not_minus [of i r "''Infinity''"] h False hd_show_pos [of i] show_pos_nonempty [of i]
      by (intro starts_with_head) (auto simp: show_int_def is_digit_iff)
  qed
  have words: "\<not> starts_with ''null'' (show_int i @ r)" "\<not> starts_with ''true'' (show_int i @ r)"
    "\<not> starts_with ''false'' (show_int i @ r)" "\<not> starts_with ''NaN'' (show_int i @ r)" "\<not> starts_with ''Infinity'' (show_int i @ r)"
    by (rule no; simp add: is_digit_iff)+
  show ?thesis
    unfolding read_word_def using words inf read_number_show [OF assms] by simp
qed

theorem read_value_dumps: "json_ok v \<Longrightarrow> reads_back v"
proof (induction v)
  case (PList xs)
  then have rb: "\<forall>x \<in> set xs. reads_back x" by (auto simp: list_all_iff)
  show ?case unfolding reads_back_def
  proof (intro allI impI)
    fix n r assume d: "depth (PList xs) \<le> n" and "stops r"
    then obtain m where n: "n = Suc m" by (cases n) auto
    have m: "sum_list (map (\<lambda>x. Suc (depth x)) xs) \<le> m" using d n by (simp add: comp_def)
    show "read_value n (dumps (PList xs) @ r) = Inr (PList xs, r)"
    proof (cases "xs = []")
      case True
      then show ?thesis using n by (simp add: skip_stop)
    next
      case False
      have "hd (join '','' (map dumps xs) @ CHR '']'' # r) \<noteq> CHR '']''"
        using join_head [of "map dumps xs" "CHR '']''" "'',''"] dumps_head False by auto
      then show ?thesis
        using n False read_elements_join [OF rb False m, of r] by (simp add: skip_join_dumps)
    qed
  qed
next
  case (PDict kvs)
  then have rb: "\<forall>kv \<in> set kvs. reads_back (snd kv)" and dist: "distinct (map fst kvs)"
    by (auto simp: list_all_iff snds.simps)
  show ?case unfolding reads_back_def
  proof (intro allI impI)
    fix n r assume d: "depth (PDict kvs) \<le> n" and "stops r"
    then obtain m where n: "n = Suc m" by (cases n) auto
    have m: "sum_list (map (\<lambda>kv. Suc (depth (snd kv))) kvs) \<le> m" using d n by (simp add: comp_def)
    show "read_value n (dumps (PDict kvs) @ r) = Inr (PDict kvs, r)"
    proof (cases "kvs = []")
      case True
      then show ?thesis using n by (simp add: skip_stop)
    next
      case False
      have "hd (join '','' (map entry kvs) @ CHR ''}'' # r) \<noteq> CHR ''}''"
        using join_head [of "map entry kvs" "CHR ''}''" "'',''"] entry_head False by auto
      then show ?thesis
        unfolding dumps_PDict
        using n False dist read_members_join [OF rb False m, of r] by (simp add: skip_join_entries)
    qed
  qed
next
  case (PInt i)
  show ?case unfolding reads_back_def
  proof (intro allI impI)
    fix n r assume d: "depth (PInt i) \<le> n" and s: "stops r"
    then obtain m where n: "n = Suc m" by (cases n) auto
    obtain c cs where c: "show_int i @ r = c # cs" and hc: "c = CHR ''-'' \<or> is_digit c"
      using show_int_head [of i] by (cases "show_int i") auto
    have "c \<noteq> CHR 0x22" "c \<noteq> CHR ''{''" "c \<noteq> CHR ''[''" using hc by (auto simp: is_digit_iff)
    then show "read_value n (dumps (PInt i) @ r) = Inr (PInt i, r)"
      using read_word_number [of i r] PInt s by (simp add: n c)
  qed
next
  case (PStr s)
  show ?case unfolding reads_back_def
  proof (intro allI impI)
    fix n r assume "depth (PStr s) \<le> n"
    then obtain m where n: "n = Suc m" by (cases n) auto
    show "read_value n (dumps (PStr s) @ r) = Inr (PStr s, r)"
      by (simp add: n json_string_def read_json_string)
  qed
next
  case (PBool b)
  show ?case unfolding reads_back_def
  proof (intro allI impI)
    fix n r assume "depth (PBool b) \<le> n"
    then obtain m where n: "n = Suc m" by (cases n) auto
    show "read_value n (dumps (PBool b) @ r) = Inr (PBool b, r)"
      by (cases b) (simp_all add: n read_word_def starts_with_def)
  qed
next
  case PNone
  show ?case unfolding reads_back_def
  proof (intro allI impI)
    fix n r assume "depth PNone \<le> n"
    then obtain m where n: "n = Suc m" by (cases n) auto
    show "read_value n (dumps PNone @ r) = Inr (PNone, r)"
      by (simp add: n read_word_def starts_with_def)
  qed
qed

section \<open>Sizes\<close>

lemma depth_le: "depth v \<le> 2 * length (dumps v)"
proof (induction v)
  case (PList xs)
  have "sum_list (map (\<lambda>x. Suc (depth x)) ys) \<le> sum_list (map (\<lambda>x. 2 * length (dumps x)) ys) + length ys"
    if "set ys \<subseteq> set xs" for ys
    using that
  proof (induction ys)
    case (Cons y ys)
    then show ?case using PList [of y] by simp
  qed simp
  moreover have "sum_list (map (\<lambda>x. 2 * length (dumps x)) ys) = 2 * sum_list (map (\<lambda>x. length (dumps x)) ys)" for ys
    by (induction ys) auto
  ultimately have "sum_list (map (\<lambda>x. Suc (depth x)) xs) \<le> 2 * sum_list (map (\<lambda>x. length (dumps x)) xs) + length xs"
    by (metis order_refl)
  then show ?case by (simp add: length_join_char comp_def)
next
  case (PDict kvs)
  have "sum_list (map (\<lambda>kv. Suc (depth (snd kv))) ys) \<le> sum_list (map (\<lambda>kv. 2 * length (entry kv)) ys) + length ys"
    if "set ys \<subseteq> set kvs" for ys
    using that
  proof (induction ys)
    case (Cons y ys)
    have "depth (snd y) \<le> 2 * length (dumps (snd y))" using PDict [of y "snd y"] Cons.prems by (simp add: snds.simps)
    also have "\<dots> \<le> 2 * length (entry y)" by (simp add: entry_def)
    finally show ?case using Cons by simp
  qed simp
  moreover have "sum_list (map (\<lambda>kv. 2 * length (entry kv)) ys) = 2 * sum_list (map (\<lambda>kv. length (entry kv)) ys)" for ys
    by (induction ys) auto
  ultimately have "sum_list (map (\<lambda>kv. Suc (depth (snd kv))) kvs) \<le> 2 * sum_list (map (\<lambda>kv. length (entry kv)) kvs) + length kvs"
    by (metis order_refl)
  moreover have "length (dumps (PDict kvs)) = 2 + (sum_list (map (\<lambda>kv. length (entry kv)) kvs) + (length kvs - 1))"
    unfolding dumps_PDict by (simp add: length_join_char comp_def)
  ultimately show ?case by (simp add: comp_def)
qed (simp_all add: Suc_le_eq show_int_head json_string_def)

theorem read_json_dumps:
  assumes "json_ok v"
  shows "read_json (dumps v) = Inr v"
proof -
  have "read_value (2 * length (dumps v) + 2) (dumps v @ []) = Inr (v, [])"
    by (rule reads_backD [OF read_value_dumps [OF assms]]) (use depth_le [of v] in \<open>simp_all add: stops_def\<close>)
  moreover have "skip (dumps v) = dumps v" using skip_dumps [of v "[]"] by simp
  ultimately show ?thesis unfolding read_json_def by (simp add: skip_def del: read_value.simps add_2_eq_Suc')
qed

section \<open>The fuel is enough\<close>

lemma skip_shorter: "length (skip s) \<le> length s"
  by (simp add: skip_def length_dropWhile_le)

text \<open>A reader that does not run out of fuel and leaves fewer than \<open>k\<close> characters.\<close>

definition consumes :: "nat \<Rightarrow> string + 'a \<times> string \<Rightarrow> bool" where
  "consumes k m \<longleftrightarrow> (case m of Inl e \<Rightarrow> e \<noteq> out_of_fuel | Inr (x, r) \<Rightarrow> length r < k)"

named_theorems reader_intros "readers that consume"

lemma consumes_Inl [reader_intros]: "e \<noteq> out_of_fuel \<Longrightarrow> consumes k (Inl e)"
  by (simp add: consumes_def)

lemma consumes_Inr [reader_intros]: "length r < k \<Longrightarrow> consumes k (Inr (x, r))"
  by (simp add: consumes_def)

lemma consumes_if [reader_intros]:
  "(b \<Longrightarrow> consumes k m) \<Longrightarrow> (\<not> b \<Longrightarrow> consumes k m') \<Longrightarrow> consumes k (if b then m else m')"
  by simp

lemma consumes_list [reader_intros]:
  "(s = [] \<Longrightarrow> consumes k m) \<Longrightarrow> (\<And>c cs. s = c # cs \<Longrightarrow> consumes k (f c cs))
    \<Longrightarrow> consumes k (case s of [] \<Rightarrow> m | c # cs \<Rightarrow> f c cs)"
  by (cases s) simp_all

lemma consumes_option [reader_intros]:
  "consumes k m \<Longrightarrow> (\<And>c. consumes k (f c)) \<Longrightarrow> consumes k (case d of None \<Rightarrow> m | Some c \<Rightarrow> f c)"
  by (cases d) simp_all

lemma consumes_require [reader_intros]:
  "e \<noteq> out_of_fuel \<Longrightarrow> consumes k (f ()) \<Longrightarrow> consumes k (bindE (require b e) f)"
  by (cases b) (simp_all add: consumes_def)

lemma consumes_bind:
  "consumes j m \<Longrightarrow> (\<And>x r. length r < j \<Longrightarrow> consumes k (f (x, r))) \<Longrightarrow> consumes k (bindE m f)"
  by (cases m) (auto simp: consumes_def)

lemma consumes_push: "consumes j m \<Longrightarrow> j \<le> k \<Longrightarrow> consumes k (push_char c m)"
  unfolding push_char_def by (rule consumes_bind, assumption) (auto intro: consumes_Inr)

lemma fuel_codes [simp]:
  "invalid_json \<noteq> out_of_fuel" "unmodelled \<noteq> out_of_fuel" "''duplicate_json_key'' \<noteq> out_of_fuel"
  "''invalid_json_constant'' \<noteq> out_of_fuel"
  by (simp_all add: out_of_fuel_def invalid_json_def unmodelled_def)

lemma read_chars_consumes: "consumes (length s) (read_chars s)"
proof (induction s rule: measure_induct_rule [of length])
  case (less s)
  have push: "consumes (length s) (push_char c (read_chars q))" if "length q < length s" for c q
    using less.IH [OF that] that by (intro consumes_push) auto
  show ?case
  proof (cases s)
    case (Cons c cs)
    show ?thesis unfolding Cons read_chars.simps
      by (intro reader_intros) (use push Cons in \<open>simp_all\<close>)
  qed (simp add: consumes_def)
qed

lemma read_number_consumes: "s \<noteq> [] \<Longrightarrow> consumes (length s) (read_number s)"
  unfolding read_number_def Let_def by (intro reader_intros) (cases s; auto)+

lemma read_word_consumes: "s \<noteq> [] \<Longrightarrow> consumes (length s) (read_word s)"
  unfolding read_word_def by (intro reader_intros read_number_consumes) auto

lemma readers_consume:
  shows "2 * length s + 1 \<le> n \<Longrightarrow> consumes (length s) (read_value n s)"
    and "2 * length s + 2 \<le> n \<Longrightarrow> consumes (length s) (read_elements n s)"
    and "2 * length s + 1 \<le> n \<Longrightarrow> consumes (length s) (read_members n s)"
proof (induction n arbitrary: s)
  case (Suc n)
  {
    case 1
    show ?case
    proof (cases s)
      case (Cons c cs)
      have l: "length (skip cs) \<le> length cs" by (rule skip_shorter)
      have chars: "consumes (length s) (bindE (read_chars cs) (\<lambda>(t, r). Inr (PStr t, r)))"
        by (rule consumes_bind [OF read_chars_consumes]) (simp add: Cons consumes_Inr)
      have elems: "consumes (length s) (bindE (read_elements n (skip cs)) (\<lambda>(vs, r). Inr (PList vs, r)))"
        by (rule consumes_bind [OF Suc.IH(2)]) (use 1 l in \<open>simp_all add: Cons consumes_Inr\<close>)
      have mems: "consumes (length s) (bindE (read_members n (skip cs)) (\<lambda>(kvs, r).
          bindE (require (distinct (map fst kvs)) ''duplicate_json_key'') (\<lambda>_. Inr (PDict kvs, r))))"
        by (rule consumes_bind [OF Suc.IH(3)]) (use 1 l in \<open>simp_all add: Cons consumes_require consumes_Inr\<close>)
      have word: "consumes (length s) (read_word s)" using Cons by (intro read_word_consumes) simp
      have tl: "length (tl (skip cs)) < length s" using l Cons by (cases "skip cs") auto
      show ?thesis
        using chars elems mems word tl unfolding Cons read_value.simps list.case
        by (intro reader_intros) auto
    qed (simp add: consumes_def)
  next
    case 2
    show ?case unfolding read_elements.simps
    proof (rule consumes_bind [OF Suc.IH(1)], use 2 in simp, unfold prod.case, intro reader_intros)
      fix v r d r' assume r: "length r < length s" and e: "skip r = d # r'"
      have l: "length (skip r) \<le> length r" "length (skip r') \<le> length r'" by (rule skip_shorter)+
      show "length r' < length s" using r e l by simp
      show "consumes (length s) (bindE (read_elements n (skip r')) (\<lambda>(vs, r''). Inr (v # vs, r'')))"
        by (rule consumes_bind [OF Suc.IH(2)]) (use 2 r e l in \<open>simp_all add: consumes_Inr\<close>)
    qed simp_all
  next
    case 3
    show ?case unfolding read_members.simps
    proof (intro reader_intros, simp)
      assume ne: "\<not> (s = [] \<or> hd s \<noteq> CHR 0x22)"
      show "consumes (length s) (bindE (read_chars (tl s)) (\<lambda>(k, r).
        if skip r = [] \<or> hd (skip r) \<noteq> CHR '':'' then Inl invalid_json
        else bindE (read_value n (skip (tl (skip r)))) (\<lambda>(v, r1). case skip r1 of
          [] \<Rightarrow> Inl invalid_json
        | d # r2 \<Rightarrow>
           if d = CHR ''}'' then Inr ([(k, v)], r2)
           else if d = CHR '','' then bindE (read_members n (skip r2)) (\<lambda>(kvs, r3). Inr ((k, v) # kvs, r3))
           else Inl invalid_json)))"
      proof (rule consumes_bind [OF read_chars_consumes], unfold prod.case, intro reader_intros, simp)
        fix k r assume r: "length r < length (tl s)" and "\<not> (skip r = [] \<or> hd (skip r) \<noteq> CHR '':'')"
        let ?t = "skip (tl (skip r))"
        have t: "length ?t + 2 \<le> length s"
          using r skip_shorter [of r] skip_shorter [of "tl (skip r)"] ne by (cases "skip r") auto
        show "consumes (length s) (bindE (read_value n ?t) (\<lambda>(v, r1). case skip r1 of
            [] \<Rightarrow> Inl invalid_json
          | d # r2 \<Rightarrow>
             if d = CHR ''}'' then Inr ([(k, v)], r2)
             else if d = CHR '','' then bindE (read_members n (skip r2)) (\<lambda>(kvs, r3). Inr ((k, v) # kvs, r3))
             else Inl invalid_json))"
        proof (rule consumes_bind [OF Suc.IH(1)], use 3 t in simp, unfold prod.case, intro reader_intros)
          fix v r1 d r2 assume r1: "length r1 < length ?t" and e: "skip r1 = d # r2"
          have l: "length (skip r1) \<le> length r1" "length (skip r2) \<le> length r2" by (rule skip_shorter)+
          show "length r2 < length s" using r1 e l t by simp
          show "consumes (length s) (bindE (read_members n (skip r2)) (\<lambda>(kvs, r3). Inr ((k, v) # kvs, r3)))"
            by (rule consumes_bind [OF Suc.IH(3)]) (use 3 r1 e l t in \<open>simp_all add: consumes_Inr\<close>)
        qed simp_all
      qed
    qed
  }
qed simp_all

theorem read_json_adequate: "read_json s \<noteq> Inl out_of_fuel"
proof -
  have "consumes (length (skip s)) (read_value (2 * length s + 2) (skip s))"
    using skip_shorter [of s] by (intro readers_consume(1)) simp
  then show ?thesis
    unfolding read_json_def
    by (cases "read_value (2 * length s + 2) (skip s)")
      (auto simp: consumes_def res_simps fuel_codes(1) [THEN not_sym] simp del: read_value.simps add_2_eq_Suc' split: prod.splits)
qed

end
