(* ===== verification/ToolParams.thy ===== *)
theory ToolParams
  imports JsonRead
begin

text \<open>
  The typed parameters of the tool adapters (\<open>secure_agent/tool_parameters.py\<close>) and the public
  constants of the name lab they refer to (\<open>name_tls_public.py\<close>). The Python classes share five
  shapes; a value of type \<open>parameters\<close> is an instance, with the name of its class where several
  classes have one shape. \<open>construct\<close> is \<open>parameter_type(**fields)\<close> with its \<open>__post_init__\<close>;
  \<open>parameters_json\<close> is \<open>to_dict\<close>.
\<close>

section \<open>Primitive checks\<close>

definition check_int :: "pyval \<Rightarrow> string \<Rightarrow> int \<Rightarrow> int \<Rightarrow> string + int" where
  "check_int v name lo hi = bindE (require (int_in lo hi v) (''invalid_'' @ name)) (\<lambda>_. Inr (the_int v))"

definition check_string :: "pyval \<Rightarrow> string \<Rightarrow> nat \<Rightarrow> nat \<Rightarrow> string + string" where
  "check_string v name lo hi =
    bindE (require (is_str v \<and> lo \<le> length (the_str v) \<and> length (the_str v) \<le> hi) (''invalid_'' @ name))
      (\<lambda>_. Inr (the_str v))"

definition check_fields :: "pyval \<Rightarrow> string list \<Rightarrow> string \<Rightarrow> string + unit" where
  "check_fields v names name =
    bindE (require (is_dict v) (''invalid_'' @ name)) (\<lambda>_.
    bindE (require (list_all (\<lambda>k. k \<in> set names) (fields_of v)) (''unknown_'' @ name @ ''_fields'')) (\<lambda>_.
    require (list_all (\<lambda>k. has_key v k) names) (''missing_'' @ name @ ''_fields'')))"

text \<open>\<open>str(UUID(text)) == text\<close>: the lower-case form with hyphens.\<close>

definition canonical_uuid :: "string \<Rightarrow> bool" where
  "canonical_uuid s \<longleftrightarrow> map length (split_on (CHR ''-'') s) = [8, 4, 4, 4, 12]
     \<and> list_all (list_all is_hex) (split_on (CHR ''-'') s)"

definition MAX_TIMEOUT_SECONDS :: int where "MAX_TIMEOUT_SECONDS = 30"
definition MAX_OUTPUT_BYTES :: int where "MAX_OUTPUT_BYTES = 65536"
definition SUPPORTED_METHODS :: "string list" where "SUPPORTED_METHODS = [''GET'', ''HEAD'']"

section \<open>The name lab\<close>

definition CONFIGURATIONS :: "string list" where "CONFIGURATIONS = [''A'', ''B'']"

definition CASES :: "string list" where
  "CASES = [''O1'', ''O2'', ''O3'', ''O4'', ''O5'', ''R1'', ''R2''] @ map (\<lambda>i. ''N'' @ show_int i) [1..16]"

definition LOGICAL_NAME :: string where "LOGICAL_NAME = ''harbordesk.test''"

definition PUBLIC_CA_SHA256 :: string where
  "PUBLIC_CA_SHA256 = ''617015dc0014927cacb2c334ed861b091ea4846b2461540aa4aac3fa2138b84d''"

record lab_row =
  row_resolver :: string
  row_dns_port :: int
  row_service :: string
  row_http_port :: int
  row_path :: string
  row_tls_port :: int
  row_excluded :: string

definition ROWS :: "string \<Rightarrow> lab_row" where
  "ROWS configuration = (if configuration = ''A''
     then \<lparr>row_resolver = ''10.77.0.53'', row_dns_port = 5353, row_service = ''10.77.0.10'', row_http_port = 8080,
           row_path = ''/harbordesk/portal.html'', row_tls_port = 8443, row_excluded = ''10.77.0.99''\<rparr>
     else \<lparr>row_resolver = ''172.23.0.53'', row_dns_port = 15353, row_service = ''172.23.0.10'', row_http_port = 18080,
           row_path = ''/portal/index.html'', row_tls_port = 18443, row_excluded = ''172.23.0.99''\<rparr>)"

definition selection_ok :: "string \<Rightarrow> string \<Rightarrow> bool" where
  "selection_ok configuration c \<longleftrightarrow> configuration \<in> set CONFIGURATIONS \<and> c \<in> set CASES"

section \<open>Instances\<close>

record bounds =
  pb_port :: int
  pb_timeout :: int
  pb_output :: int

record name_request =
  nr_configuration :: string
  nr_case :: string
  nr_selection :: string
  nr_runtime :: string
  nr_owner :: string
  nr_owner_identity :: string
  nr_session :: string
  nr_slot :: string

record name_binding =
  nb_binding :: string
  nb_observation :: string
  nb_answer :: string
  nb_generation :: int
  nb_ttl :: int
  nb_observed :: int
  nb_expires :: int
  nb_name :: string

datatype parameters =
    Bounded string bounds
  | HttpRequest string bounds string string
  | OwnedNameDNS bounds name_request string string string
  | OwnedNameHTTP bounds name_request name_binding string string string
  | OwnedNameTLS bounds name_request name_binding string string string string string string

primrec bounds_of :: "parameters \<Rightarrow> bounds" where
  "bounds_of (Bounded c b) = b"
| "bounds_of (HttpRequest c b method path) = b"
| "bounds_of (OwnedNameDNS b r qn qc qt) = b"
| "bounds_of (OwnedNameHTTP b r n method path host) = b"
| "bounds_of (OwnedNameTLS b r n sni cert ca version suite grp) = b"

primrec class_of :: "parameters \<Rightarrow> string" where
  "class_of (Bounded c b) = c"
| "class_of (HttpRequest c b method path) = c"
| "class_of (OwnedNameDNS b r qn qc qt) = ''OwnedNameDNSParameters''"
| "class_of (OwnedNameHTTP b r n method path host) = ''OwnedNameHTTPParameters''"
| "class_of (OwnedNameTLS b r n sni cert ca version suite grp) = ''OwnedNameTLSParameters''"

text \<open>\<open>parameters.method\<close>, which the HTTP classes have.\<close>

primrec method_of :: "parameters \<Rightarrow> string" where
  "method_of (Bounded c b) = []"
| "method_of (HttpRequest c b method path) = method"
| "method_of (OwnedNameDNS b r qn qc qt) = []"
| "method_of (OwnedNameHTTP b r n method path host) = method"
| "method_of (OwnedNameTLS b r n sni cert ca version suite grp) = []"

definition bounds_entries :: "bounds \<Rightarrow> (string \<times> pyval) list" where
  "bounds_entries b = [(''port'', PInt (pb_port b)), (''timeout_seconds'', PInt (pb_timeout b)),
     (''max_output_bytes'', PInt (pb_output b))]"

definition request_entries :: "name_request \<Rightarrow> (string \<times> pyval) list" where
  "request_entries r = [(''configuration'', PStr (nr_configuration r)), (''case'', PStr (nr_case r)),
     (''selection_sha256'', PStr (nr_selection r)), (''runtime_identity_sha256'', PStr (nr_runtime r)),
     (''owner_id'', PStr (nr_owner r)), (''owner_identity_sha256'', PStr (nr_owner_identity r)),
     (''session_id'', PStr (nr_session r)), (''operation_slot'', PStr (nr_slot r))]"

definition binding_entries :: "name_binding \<Rightarrow> (string \<times> pyval) list" where
  "binding_entries n = [(''binding_sha256'', PStr (nb_binding n)), (''observation_sha256'', PStr (nb_observation n)),
     (''observed_answer_sha256'', PStr (nb_answer n)), (''observation_generation'', PInt (nb_generation n)),
     (''observed_ttl_seconds'', PInt (nb_ttl n)), (''observed_at_us'', PInt (nb_observed n)),
     (''expires_at_us'', PInt (nb_expires n)), (''canonical_name'', PStr (nb_name n))]"

primrec parameters_json :: "parameters \<Rightarrow> pyval" where
  "parameters_json (Bounded c b) = PDict (bounds_entries b)"
| "parameters_json (HttpRequest c b method path) =
    PDict (bounds_entries b @ [(''method'', PStr method), (''path'', PStr path)])"
| "parameters_json (OwnedNameDNS b r qn qc qt) =
    PDict (bounds_entries b @ request_entries r
      @ [(''question_name'', PStr qn), (''question_class'', PStr qc), (''question_type'', PStr qt)])"
| "parameters_json (OwnedNameHTTP b r n method path host) =
    PDict (bounds_entries b @ request_entries r @ binding_entries n
      @ [(''method'', PStr method), (''path'', PStr path), (''host'', PStr host)])"
| "parameters_json (OwnedNameTLS b r n sni cert ca version suite grp) =
    PDict (bounds_entries b @ request_entries r @ binding_entries n
      @ [(''sni'', PStr sni), (''expected_certificate_name'', PStr cert), (''public_ca_sha256'', PStr ca),
         (''tls_version'', PStr version), (''cipher_suite'', PStr suite), (''group'', PStr grp)])"

section \<open>Fields of the classes\<close>

definition BOUNDS_FIELDS :: "string list" where
  "BOUNDS_FIELDS = [''port'', ''timeout_seconds'', ''max_output_bytes'']"

definition HTTP_FIELDS :: "string list" where
  "HTTP_FIELDS = [''port'', ''method'', ''path'', ''timeout_seconds'', ''max_output_bytes'']"

definition REQUEST_NAME_FIELDS :: "string list" where
  "REQUEST_NAME_FIELDS = [''configuration'', ''case'', ''selection_sha256'', ''runtime_identity_sha256'',
     ''owner_id'', ''owner_identity_sha256'', ''session_id'', ''operation_slot'']"

definition BINDING_FIELDS :: "string list" where
  "BINDING_FIELDS = [''binding_sha256'', ''observation_sha256'', ''observed_answer_sha256'',
     ''observation_generation'', ''observed_ttl_seconds'', ''observed_at_us'', ''expires_at_us'', ''canonical_name'']"

definition DNS_FIELDS :: "string list" where
  "DNS_FIELDS = [''question_name'', ''question_class'', ''question_type'']"

definition NAME_HTTP_FIELDS :: "string list" where
  "NAME_HTTP_FIELDS = [''method'', ''path'', ''host'']"

definition NAME_TLS_FIELDS :: "string list" where
  "NAME_TLS_FIELDS = [''sni'', ''expected_certificate_name'', ''public_ca_sha256'', ''tls_version'', ''cipher_suite'', ''group'']"

definition HTTP_CLASSES :: "string list" where
  "HTTP_CLASSES = [''HTTPParameters'', ''HTTPHeadersParameters'', ''CurlHTTPSParameters'']"

definition class_fields :: "string \<Rightarrow> string list" where
  "class_fields c =
    (if c \<in> set HTTP_CLASSES then HTTP_FIELDS
     else if c = ''OwnedNameDNSParameters'' then BOUNDS_FIELDS @ REQUEST_NAME_FIELDS @ DNS_FIELDS
     else if c = ''OwnedNameHTTPParameters'' then BOUNDS_FIELDS @ REQUEST_NAME_FIELDS @ BINDING_FIELDS @ NAME_HTTP_FIELDS
     else if c = ''OwnedNameTLSParameters'' then BOUNDS_FIELDS @ REQUEST_NAME_FIELDS @ BINDING_FIELDS @ NAME_TLS_FIELDS
     else BOUNDS_FIELDS)"

section \<open>Construction\<close>

definition read_bounds :: "pyval \<Rightarrow> string + bounds" where
  "read_bounds v =
    bindE (check_int (item v ''port'') ''port'' 1 65535) (\<lambda>port.
    bindE (check_int (item v ''timeout_seconds'') ''timeout_seconds'' 1 MAX_TIMEOUT_SECONDS) (\<lambda>timeout.
    bindE (check_int (item v ''max_output_bytes'') ''max_output_bytes'' 1 MAX_OUTPUT_BYTES) (\<lambda>output.
    Inr \<lparr>pb_port = port, pb_timeout = timeout, pb_output = output\<rparr>)))"

text \<open>\<open>/[A-Za-z0-9/_.-]*\<close> without empty, \<open>.\<close> or \<open>..\<close> segments.\<close>

definition plain_path :: "string \<Rightarrow> bool" where
  "plain_path p \<longleftrightarrow> p \<noteq> [] \<and> hd p = CHR ''/'' \<and> list_all (\<lambda>c. is_alnum c \<or> c \<in> set ''/_.-'') p
     \<and> \<not> double_slash p"

definition read_http :: "string \<Rightarrow> pyval \<Rightarrow> string + parameters" where
  "read_http c v =
    bindE (check_int (item v ''port'') ''port'' 1 65535) (\<lambda>port.
    bindE (require (str_in SUPPORTED_METHODS (item v ''method'')) ''unsupported_http_method'') (\<lambda>_.
    bindE (check_string (item v ''path'') ''path'' 1 256) (\<lambda>path.
    bindE (require (plain_path path) ''invalid_path'') (\<lambda>_.
    bindE (require (\<not> list_ex (\<lambda>w. w \<in> {''.'', ''..''}) (split_on (CHR ''/'') path)) ''invalid_path'') (\<lambda>_.
    bindE (check_int (item v ''timeout_seconds'') ''timeout_seconds'' 1 MAX_TIMEOUT_SECONDS) (\<lambda>timeout.
    bindE (check_int (item v ''max_output_bytes'') ''max_output_bytes'' 1 MAX_OUTPUT_BYTES) (\<lambda>output.
    Inr (HttpRequest c \<lparr>pb_port = port, pb_timeout = timeout, pb_output = output\<rparr>
      (the_str (item v ''method'')) path))))))))"

definition digests_ok :: "pyval \<Rightarrow> string list \<Rightarrow> bool" where
  "digests_ok v ks \<longleftrightarrow> list_all (\<lambda>k. hash_val (item v k)) ks"

definition identity_ok :: "pyval \<Rightarrow> bool" where
  "identity_ok v \<longleftrightarrow> is_str v \<and> canonical_uuid (the_str v)"

text \<open>Slots of the class, and the operation of a slot with its endpoint port, time and output.\<close>

definition slots :: "string \<Rightarrow> string list" where
  "slots c = (if c = ''OwnedNameDNSParameters'' then [''dns_1'', ''dns_2'']
     else if c = ''OwnedNameHTTPParameters'' then [''http''] else [''tls''])"

definition expected_bounds :: "string \<Rightarrow> string \<Rightarrow> bounds" where
  "expected_bounds slot configuration =
    (if slot = ''http'' then \<lparr>pb_port = row_http_port (ROWS configuration), pb_timeout = 1, pb_output = 2048\<rparr>
     else if slot = ''tls'' then \<lparr>pb_port = row_tls_port (ROWS configuration), pb_timeout = 5, pb_output = 8192\<rparr>
     else \<lparr>pb_port = row_dns_port (ROWS configuration), pb_timeout = 3, pb_output = 8192\<rparr>)"

definition string_fields :: "string \<Rightarrow> string list" where
  "string_fields c = filter (\<lambda>k. k \<notin> {''port'', ''timeout_seconds'', ''max_output_bytes'', ''observation_generation'',
     ''observed_ttl_seconds'', ''observed_at_us'', ''expires_at_us''}) (class_fields c)"

definition read_request :: "string \<Rightarrow> pyval \<Rightarrow> string + bounds \<times> name_request" where
  "read_request c v =
    bindE (require (list_all (\<lambda>k. is_str (item v k)) (string_fields c)) ''invalid_name_tls_string'') (\<lambda>_.
    let configuration = the_str (item v ''configuration''); lab_case = the_str (item v ''case'');
        slot = the_str (item v ''operation_slot''); expected = expected_bounds slot configuration in
    bindE (require (selection_ok configuration lab_case) ''invalid_name_tls_selection'') (\<lambda>_.
    bindE (require (digests_ok v [''selection_sha256'', ''runtime_identity_sha256'', ''owner_identity_sha256''])
      ''invalid_name_tls_digest'') (\<lambda>_.
    bindE (require (identity_ok (item v ''owner_id'') \<and> identity_ok (item v ''session_id'')) ''invalid_name_tls_identity'') (\<lambda>_.
    bindE (require (slot \<in> set (slots c)) ''invalid_name_tls_slot'') (\<lambda>_.
    bindE (require (slot = ''dns_2'' \<longrightarrow> lab_case = ''N1'') ''invalid_name_tls_slot'') (\<lambda>_.
    bindE (require (item v ''port'' = PInt (pb_port expected)) ''invalid_name_tls_port'') (\<lambda>_.
    bindE (require (item v ''timeout_seconds'' = PInt (pb_timeout expected)) ''invalid_name_tls_timeout_seconds'') (\<lambda>_.
    bindE (require (item v ''max_output_bytes'' = PInt (pb_output expected)) ''invalid_name_tls_max_output_bytes'') (\<lambda>_.
    Inr (expected, \<lparr>nr_configuration = configuration, nr_case = lab_case, nr_selection = the_str (item v ''selection_sha256''),
      nr_runtime = the_str (item v ''runtime_identity_sha256''), nr_owner = the_str (item v ''owner_id''),
      nr_owner_identity = the_str (item v ''owner_identity_sha256''), nr_session = the_str (item v ''session_id''),
      nr_slot = slot\<rparr>))))))))))"

definition read_name_dns :: "pyval \<Rightarrow> string + parameters" where
  "read_name_dns v =
    bindE (read_request ''OwnedNameDNSParameters'' v) (\<lambda>(b, r).
    bindE (require (item v ''question_name'' = PStr ''harbordesk.test.'' \<and> item v ''question_class'' = PStr ''IN''
      \<and> item v ''question_type'' = PStr ''A'') ''invalid_name_tls_question'') (\<lambda>_.
    Inr (OwnedNameDNS b r ''harbordesk.test.'' ''IN'' ''A'')))"

definition read_binding :: "string \<Rightarrow> pyval \<Rightarrow> string + bounds \<times> name_request \<times> name_binding" where
  "read_binding c v =
    bindE (read_request c v) (\<lambda>(b, r).
    bindE (require (digests_ok v [''binding_sha256'', ''observation_sha256'', ''observed_answer_sha256''])
      ''invalid_name_tls_binding_digest'') (\<lambda>_.
    bindE (check_int (item v ''observation_generation'') ''name_tls_generation'' 1 2) (\<lambda>generation.
    let ttl = (if nr_case r = ''N14'' then 1 else 60) in
    bindE (require (item v ''observed_ttl_seconds'' = PInt ttl) ''invalid_name_tls_ttl'') (\<lambda>_.
    bindE (check_int (item v ''observed_at_us'') ''name_tls_observed_time'' 0 59999999) (\<lambda>observed.
    bindE (check_int (item v ''expires_at_us'') ''name_tls_expiry'' (observed + 1) 60000000) (\<lambda>expires.
    bindE (require (expires = min 60000000 (observed + ttl * 1000000)) ''invalid_name_tls_expiry'') (\<lambda>_.
    bindE (require (item v ''canonical_name'' = PStr LOGICAL_NAME) ''invalid_name_tls_name'') (\<lambda>_.
    Inr (b, r, \<lparr>nb_binding = the_str (item v ''binding_sha256''), nb_observation = the_str (item v ''observation_sha256''),
      nb_answer = the_str (item v ''observed_answer_sha256''), nb_generation = generation, nb_ttl = ttl,
      nb_observed = observed, nb_expires = expires, nb_name = LOGICAL_NAME\<rparr>)))))))))"

definition read_name_http :: "pyval \<Rightarrow> string + parameters" where
  "read_name_http v =
    bindE (read_binding ''OwnedNameHTTPParameters'' v) (\<lambda>(b, r, n).
    let row = ROWS (nr_configuration r); host = LOGICAL_NAME @ '':'' @ show_int (row_http_port row) in
    bindE (require (item v ''method'' = PStr ''GET'' \<and> item v ''path'' = PStr (row_path row)
      \<and> item v ''host'' = PStr host) ''invalid_name_tls_http_request'') (\<lambda>_.
    Inr (OwnedNameHTTP b r n ''GET'' (row_path row) host)))"

definition read_name_tls :: "pyval \<Rightarrow> string + parameters" where
  "read_name_tls v =
    bindE (read_binding ''OwnedNameTLSParameters'' v) (\<lambda>(b, r, n).
    bindE (require (item v ''sni'' = PStr LOGICAL_NAME \<and> item v ''expected_certificate_name'' = PStr LOGICAL_NAME
      \<and> item v ''public_ca_sha256'' = PStr PUBLIC_CA_SHA256 \<and> item v ''tls_version'' = PStr ''TLSv1.3''
      \<and> item v ''cipher_suite'' = PStr ''TLS_AES_256_GCM_SHA384'' \<and> item v ''group'' = PStr ''P-256'')
      ''invalid_name_tls_tls_commitment'') (\<lambda>_.
    Inr (OwnedNameTLS b r n LOGICAL_NAME LOGICAL_NAME PUBLIC_CA_SHA256 ''TLSv1.3'' ''TLS_AES_256_GCM_SHA384'' ''P-256'')))"

definition construct :: "string \<Rightarrow> pyval \<Rightarrow> string + parameters" where
  "construct c v =
    (if c \<in> set HTTP_CLASSES then read_http c v
     else if c = ''OwnedNameDNSParameters'' then read_name_dns v
     else if c = ''OwnedNameHTTPParameters'' then read_name_http v
     else if c = ''OwnedNameTLSParameters'' then read_name_tls v
     else bindE (read_bounds v) (\<lambda>b. Inr (Bounded c b)))"

section \<open>Instances print and construct again\<close>

lemma check_int_Inr [res_simps]: "check_int v name lo hi = Inr i \<longleftrightarrow> v = PInt i \<and> lo \<le> i \<and> i \<le> hi"
  by (cases v) (auto simp: check_int_def int_in_def res_simps)

lemma check_string_Inr [res_simps]:
  "check_string v name lo hi = Inr s \<longleftrightarrow> v = PStr s \<and> lo \<le> length s \<and> length s \<le> hi"
  by (cases v) (auto simp: check_string_def res_simps)

lemma check_fields_Inr [res_simps]:
  "check_fields v names name = Inr u \<longleftrightarrow> is_dict v \<and> same_fields v names"
  by (auto simp: check_fields_def same_fields_def res_simps)

lemmas field_lists = BOUNDS_FIELDS_def HTTP_FIELDS_def REQUEST_NAME_FIELDS_def BINDING_FIELDS_def DNS_FIELDS_def
  NAME_HTTP_FIELDS_def NAME_TLS_FIELDS_def

lemmas entry_lists = bounds_entries_def request_entries_def binding_entries_def

definition NAME_CLASSES :: "string list" where
  "NAME_CLASSES = [''OwnedNameDNSParameters'', ''OwnedNameHTTPParameters'', ''OwnedNameTLSParameters'']"

lemma name_classes: "list_all (\<lambda>c. c \<notin> set HTTP_CLASSES \<and> distinct (class_fields c)
  \<and> list_all (\<lambda>k. k \<in> set (string_fields c)) REQUEST_NAME_FIELDS) NAME_CLASSES"
  by code_simp

lemma name_not_http:
  "''OwnedNameDNSParameters'' \<notin> set HTTP_CLASSES" "''OwnedNameHTTPParameters'' \<notin> set HTTP_CLASSES"
  "''OwnedNameTLSParameters'' \<notin> set HTTP_CLASSES"
  by (simp_all add: HTTP_CLASSES_def)

lemma class_fields_simps:
  "c \<in> set HTTP_CLASSES \<Longrightarrow> class_fields c = HTTP_FIELDS"
  "class_fields ''OwnedNameDNSParameters'' = BOUNDS_FIELDS @ REQUEST_NAME_FIELDS @ DNS_FIELDS"
  "class_fields ''OwnedNameHTTPParameters'' = BOUNDS_FIELDS @ REQUEST_NAME_FIELDS @ BINDING_FIELDS @ NAME_HTTP_FIELDS"
  "class_fields ''OwnedNameTLSParameters'' = BOUNDS_FIELDS @ REQUEST_NAME_FIELDS @ BINDING_FIELDS @ NAME_TLS_FIELDS"
  "c \<notin> set HTTP_CLASSES \<Longrightarrow> c \<notin> set NAME_CLASSES \<Longrightarrow> class_fields c = BOUNDS_FIELDS"
  using name_not_http by (simp_all add: class_fields_def NAME_CLASSES_def)

lemma construct_simps:
  "c \<in> set HTTP_CLASSES \<Longrightarrow> construct c = read_http c"
  "construct ''OwnedNameDNSParameters'' = read_name_dns"
  "construct ''OwnedNameHTTPParameters'' = read_name_http"
  "construct ''OwnedNameTLSParameters'' = read_name_tls"
  "c \<notin> set HTTP_CLASSES \<Longrightarrow> c \<notin> set NAME_CLASSES \<Longrightarrow> construct c = (\<lambda>v. bindE (read_bounds v) (\<lambda>b. Inr (Bounded c b)))"
  using name_not_http by (auto simp: construct_def NAME_CLASSES_def fun_eq_iff)

text \<open>The value holds these entries.\<close>

definition agrees :: "pyval \<Rightarrow> (string \<times> pyval) list \<Rightarrow> bool" where
  "agrees v es \<longleftrightarrow> list_all (\<lambda>e. item v (fst e) = snd e) es"

lemma agrees_simps [simp]:
  "agrees v []" "agrees v ((k, w) # es) \<longleftrightarrow> item v k = w \<and> agrees v es"
  "agrees v (es @ fs) \<longleftrightarrow> agrees v es \<and> agrees v fs"
  by (simp_all add: agrees_def)

lemma agrees_item:
  assumes "agrees v es" and "k \<in> fst ` set es"
  shows "item (PDict es) k = item v k"
proof -
  obtain w where w: "map_of es k = Some w" using assms(2) by (metis map_of_eq_None_iff not_None_eq)
  then show ?thesis using assms(1) map_of_SomeD [OF w] by (auto simp: agrees_def list_all_iff item_PDict)
qed

lemma PStr_the_str: "v = PStr (the_str v) \<longleftrightarrow> is_str v"
  by (cases v) auto

lemma PStr_eqI: "is_str v \<Longrightarrow> the_str v = s \<Longrightarrow> v = PStr s"
  by (cases v) auto

lemma hash_val_is_str: "hash_val v \<Longrightarrow> is_str v"
  by (cases v) (auto simp: hash_val_def)

lemma read_bounds_agrees: "read_bounds v = Inr b \<Longrightarrow> agrees v (bounds_entries b)"
  by (auto simp: read_bounds_def res_simps entry_lists)

lemma read_http_agrees:
  "read_http c v = Inr p \<Longrightarrow> class_of p = c \<and> agrees v (entries (parameters_json p))"
  by (auto simp: read_http_def res_simps entry_lists elim: str_inE)

lemma read_request_agrees:
  assumes "read_request c v = Inr (b, r)" and "c \<in> set NAME_CLASSES"
  shows "agrees v (bounds_entries b @ request_entries r)"
proof -
  have s: "list_all (\<lambda>k. k \<in> set (string_fields c)) REQUEST_NAME_FIELDS"
    using name_classes assms(2) by (simp add: list_all_iff)
  have "list_all (\<lambda>k. is_str (item v k)) (string_fields c)"
    using assms(1) by (simp add: read_request_def Let_def res_simps)
  then have "list_all (\<lambda>k. is_str (item v k)) REQUEST_NAME_FIELDS"
    using s by (simp add: list_all_iff)
  then show ?thesis
    using assms(1) by (auto simp: read_request_def Let_def res_simps entry_lists REQUEST_NAME_FIELDS_def PStr_the_str intro: PStr_eqI)
qed

lemma read_binding_agrees:
  assumes "read_binding c v = Inr (b, r, n)" and "c \<in> set NAME_CLASSES"
  shows "agrees v (bounds_entries b @ request_entries r @ binding_entries n)"
proof -
  have r: "read_request c v = Inr (b, r)" using assms(1) by (auto simp: read_binding_def Let_def res_simps)
  show ?thesis
    using read_request_agrees [OF r assms(2)] assms(1)
    by (auto simp: read_binding_def Let_def res_simps binding_entries_def digests_ok_def PStr_the_str hash_val_is_str)
qed

lemma construct_agrees:
  assumes "construct c v = Inr p"
  shows "class_of p = c" and "agrees v (entries (parameters_json p))" and "is_dict (parameters_json p)"
proof -
  have n: "c = ''OwnedNameDNSParameters'' \<or> c = ''OwnedNameHTTPParameters'' \<or> c = ''OwnedNameTLSParameters''" if "c \<in> set NAME_CLASSES"
    using that by (simp add: NAME_CLASSES_def)
  have m: "''OwnedNameDNSParameters'' \<in> set NAME_CLASSES" "''OwnedNameHTTPParameters'' \<in> set NAME_CLASSES"
    "''OwnedNameTLSParameters'' \<in> set NAME_CLASSES" by (simp_all add: NAME_CLASSES_def)
  consider "c \<in> set HTTP_CLASSES" | "c \<notin> set HTTP_CLASSES" "c \<notin> set NAME_CLASSES"
    | "c = ''OwnedNameDNSParameters''" | "c = ''OwnedNameHTTPParameters''" | "c = ''OwnedNameTLSParameters''"
    using n by blast
  then have "class_of p = c \<and> agrees v (entries (parameters_json p))"
  proof cases
    case 1
    then show ?thesis using assms read_http_agrees by (simp add: construct_simps)
  next
    case 2
    then show ?thesis using assms read_bounds_agrees by (auto simp: construct_simps res_simps)
  next
    case 3
    then show ?thesis using assms read_request_agrees [OF _ m(1)]
      by (auto simp: construct_simps read_name_dns_def res_simps)
  next
    case 4
    then show ?thesis using assms read_binding_agrees [OF _ m(2)]
      by (auto simp: construct_simps read_name_http_def Let_def res_simps)
  next
    case 5
    then show ?thesis using assms read_binding_agrees [OF _ m(3)]
      by (auto simp: construct_simps read_name_tls_def res_simps)
  qed
  then show "class_of p = c" and "agrees v (entries (parameters_json p))" by simp_all
  show "is_dict (parameters_json p)" by (cases p) simp_all
qed

lemma fields_of_parameters:
  assumes "construct c v = Inr p"
  shows "set (fields_of (parameters_json p)) = set (class_fields c)" "distinct (fields_of (parameters_json p))"
proof -
  have c: "class_of p = c" by (rule construct_agrees [OF assms])
  have d: "set (fields_of (parameters_json p)) = set (class_fields c) \<and> distinct (fields_of (parameters_json p))"
  proof (cases p)
    case (Bounded c' b)
    then have "c \<notin> set HTTP_CLASSES" "c \<notin> set NAME_CLASSES"
      using c assms by (auto simp: construct_def NAME_CLASSES_def read_http_def read_name_dns_def read_name_http_def
        read_name_tls_def res_simps Let_def split: if_splits)
    then show ?thesis using Bounded by (simp add: class_fields_simps fields_of_def field_lists entry_lists)
  next
    case (HttpRequest c' b m pth)
    then have "c \<in> set HTTP_CLASSES"
      using c assms by (auto simp: construct_def read_name_dns_def read_name_http_def
        read_name_tls_def res_simps Let_def split: if_splits)
    then show ?thesis using HttpRequest by (auto simp: class_fields_simps fields_of_def field_lists entry_lists)
  next
    case (OwnedNameDNS b r qn qc qt)
    then show ?thesis using c by (auto simp: class_fields_simps fields_of_def field_lists entry_lists)
  next
    case (OwnedNameHTTP b r n m pth h)
    then show ?thesis using c by (auto simp: class_fields_simps fields_of_def field_lists entry_lists)
  next
    case (OwnedNameTLS b r n sni cert ca version suite grp)
    then show ?thesis using c by (auto simp: class_fields_simps fields_of_def field_lists entry_lists)
  qed
  then show "set (fields_of (parameters_json p)) = set (class_fields c)" "distinct (fields_of (parameters_json p))" by simp_all
qed

text \<open>Only the fields of the class matter.\<close>

definition same_on :: "string list \<Rightarrow> pyval \<Rightarrow> pyval \<Rightarrow> bool" where
  "same_on ks v w \<longleftrightarrow> list_all (\<lambda>k. item v k = item w k) ks"

lemma same_on_simps [simp]:
  "same_on [] v w" "same_on (k # ks) v w \<longleftrightarrow> item v k = item w k \<and> same_on ks v w"
  "same_on (ks @ ls) v w \<longleftrightarrow> same_on ks v w \<and> same_on ls v w"
  by (simp_all add: same_on_def)

lemma read_bounds_cong: "same_on BOUNDS_FIELDS v w \<Longrightarrow> read_bounds v = read_bounds w"
  by (simp add: read_bounds_def field_lists)

lemma read_http_cong: "same_on HTTP_FIELDS v w \<Longrightarrow> read_http c v = read_http c w"
  by (simp add: read_http_def field_lists)

lemma read_request_cong:
  assumes "same_on (class_fields c) v w" and "same_on (BOUNDS_FIELDS @ REQUEST_NAME_FIELDS) v w"
  shows "read_request c v = read_request c w"
proof -
  have "list_all (\<lambda>k. is_str (item v k)) (string_fields c) = list_all (\<lambda>k. is_str (item w k)) (string_fields c)"
    using assms(1) by (auto simp: same_on_def string_fields_def list_all_iff)
  then show ?thesis using assms(2)
    by (simp add: read_request_def field_lists digests_ok_def)
qed

lemma read_binding_cong:
  assumes "same_on (class_fields c) v w" and "same_on (BOUNDS_FIELDS @ REQUEST_NAME_FIELDS @ BINDING_FIELDS) v w"
  shows "read_binding c v = read_binding c w"
  using assms(2) read_request_cong [of c v w] assms(1)
  by (simp add: read_binding_def field_lists digests_ok_def)

lemma construct_cong:
  assumes s: "same_on (class_fields c) v w"
  shows "construct c v = construct c w"
proof -
  consider "c \<in> set HTTP_CLASSES" | "c \<notin> set HTTP_CLASSES" "c \<notin> set NAME_CLASSES"
    | "c = ''OwnedNameDNSParameters''" | "c = ''OwnedNameHTTPParameters''" | "c = ''OwnedNameTLSParameters''"
    by (auto simp: NAME_CLASSES_def)
  then show ?thesis
  proof cases
    case 1
    then show ?thesis using s read_http_cong by (simp add: construct_simps class_fields_simps)
  next
    case 2
    then show ?thesis using s read_bounds_cong by (simp add: construct_simps class_fields_simps)
  next
    case 3
    have "read_request c v = read_request c w"
      by (rule read_request_cong [OF s]) (use s in \<open>simp add: 3 class_fields_simps\<close>)
    then show ?thesis using s by (simp add: 3 construct_simps class_fields_simps read_name_dns_def DNS_FIELDS_def)
  next
    case 4
    have "read_binding c v = read_binding c w"
      by (rule read_binding_cong [OF s]) (use s in \<open>simp add: 4 class_fields_simps\<close>)
    then show ?thesis using s by (simp add: 4 construct_simps class_fields_simps read_name_http_def NAME_HTTP_FIELDS_def)
  next
    case 5
    have "read_binding c v = read_binding c w"
      by (rule read_binding_cong [OF s]) (use s in \<open>simp add: 5 class_fields_simps\<close>)
    then show ?thesis using s by (simp add: 5 construct_simps class_fields_simps read_name_tls_def NAME_TLS_FIELDS_def)
  qed
qed

lemma construct_again:
  assumes "construct c v = Inr p"
  shows "construct c (parameters_json p) = Inr p"
proof -
  note a = construct_agrees [OF assms] and f = fields_of_parameters [OF assms]
  have "parameters_json p = PDict (entries (parameters_json p))" using a(3) by (cases "parameters_json p") auto
  then have "item (parameters_json p) k = item v k" if "k \<in> set (class_fields c)" for k
    using agrees_item [OF a(2), of k] f(1) that by (simp add: fields_of_def)
  then have "same_on (class_fields c) (parameters_json p) v" by (simp add: same_on_def list_all_iff)
  then show ?thesis using construct_cong assms by metis
qed

lemma parameters_fields:
  assumes "construct c v = Inr p" and "set fs = set (class_fields c)"
  shows "check_fields (parameters_json p) fs name = Inr ()"
  using construct_agrees(3) [OF assms(1)] fields_of_parameters [OF assms(1)] assms(2)
  by (auto simp: res_simps same_fields_def list_all_iff has_key_def)

end
