(* ===== verification/ToolRegistry.thy ===== *)
theory ToolRegistry
  imports ToolParams
begin

text \<open>
  The reviewed tool adapters (\<open>secure_agent/tool_adapters.py\<close>): the registry as a list in the
  order of the code, the parameter schema an adapter publishes, look-up and the construction of
  typed parameters.
\<close>

section \<open>Adapters\<close>

record tool_adapter =
  ad_tool :: string
  ad_class :: string
  ad_fields :: "string list"
  ad_effect :: string
  ad_profile :: string
  ad_contract :: string
  ad_parser :: string
  ad_requirements :: "string list"

definition adapter ::
  "string \<Rightarrow> string \<Rightarrow> string list \<Rightarrow> string \<Rightarrow> string \<Rightarrow> string \<Rightarrow> string \<Rightarrow> string list \<Rightarrow> tool_adapter" where
  "adapter tool cls fs effect profile result_contract parser requirements =
    \<lparr>ad_tool = tool, ad_class = cls, ad_fields = fs, ad_effect = effect, ad_profile = profile,
     ad_contract = result_contract, ad_parser = parser, ad_requirements = requirements\<rparr>"

lemma adapter_simps [simp]:
  "ad_tool (adapter t c f e p r s q) = t" "ad_class (adapter t c f e p r s q) = c"
  "ad_fields (adapter t c f e p r s q) = f"
  by (simp_all add: adapter_def)

section \<open>The registry\<close>

definition ADAPTERS_1 :: "tool_adapter list" where
  "ADAPTERS_1 = [
    adapter ''owned_name_dns_v1'' ''OwnedNameDNSParameters'' (class_fields ''OwnedNameDNSParameters'')
      ''observe_owned_name_dns'' ''owned_name_tls_v1''
      ''bounded-owned-name-dns-result-v1'' ''owned-name-dns-wire-v1''
      [''private_namespaces'', ''scoped_network_filter'', ''pinned_tool_runtime'', ''independent_owner_evidence'',
       ''explicit_name_binding_approval'', ''owner_binding_freshness'', ''single_use_operation_slot'',
       ''no_response_directed_followup''],
    adapter ''owned_name_http_v1'' ''OwnedNameHTTPParameters'' (class_fields ''OwnedNameHTTPParameters'')
      ''observe_owned_name_http'' ''owned_name_tls_v1''
      ''bounded-owned-name-http-result-v1'' ''owned-name-http-wire-v1''
      [''private_namespaces'', ''scoped_network_filter'', ''pinned_tool_runtime'', ''independent_owner_evidence'',
       ''explicit_name_binding_approval'', ''owner_binding_freshness'', ''single_use_operation_slot'',
       ''no_response_directed_followup''],
    adapter ''owned_name_tls_v1'' ''OwnedNameTLSParameters'' (class_fields ''OwnedNameTLSParameters'')
      ''observe_owned_name_tls'' ''owned_name_tls_v1''
      ''bounded-owned-name-tls-result-v1'' ''owned-name-tls-wire-v1''
      [''private_namespaces'', ''scoped_network_filter'', ''pinned_tool_runtime'', ''independent_owner_evidence'',
       ''explicit_name_binding_approval'', ''owner_binding_freshness'', ''single_use_operation_slot'',
       ''no_response_directed_followup''],
    adapter ''ffuf_web_hierarchy_v1'' ''FFufHierarchyParameters'' BOUNDS_FIELDS
      ''observe_owned_http_hierarchy'' ''owned-ffuf-web-hierarchy-v1''
      ''bounded-ffuf-web-hierarchy-owner-result-v1'' ''ffuf-web-hierarchy-owner-json-v1''
      [''private_namespaces'', ''scoped_network_filter'', ''pinned_tool_runtime'', ''reviewed_exec_allowlist'',
       ''no_child_processes'', ''compiled_twelve_path_corpus'', ''serial_requests'', ''configured_input_rate'',
       ''independent_owner_evidence'', ''per_prefix_negative_controls'', ''no_redirect_following'',
       ''no_response_directed_followup''],
    adapter ''openssl_tls10_posture_v1'' ''TLSPostureParameters'' BOUNDS_FIELDS
      ''observe_owned_tls_version_posture'' ''owned-openssl-tls10-posture-v1''
      ''bounded-openssl-tls-posture-result-v1'' ''openssl-tls-posture-wire-v1''
      [''private_namespaces'', ''scoped_network_filter'', ''pinned_tool_runtime'', ''reviewed_exec_allowlist'',
       ''no_child_processes'', ''fixed_tls_version'', ''dedicated_public_fixture_ca'', ''stdin_eof'',
       ''no_client_credentials'', ''complete_record_mediation'', ''second_client_hello_blocked'',
       ''client_unix_sockets_blocked'', ''client_socketpair_blocked'', ''independent_owner_evidence'',
       ''no_response_directed_followup''],
    adapter ''openssl_tls11_posture_v1'' ''TLSPostureParameters'' BOUNDS_FIELDS
      ''observe_owned_tls_version_posture'' ''owned-openssl-tls11-posture-v1''
      ''bounded-openssl-tls-posture-result-v1'' ''openssl-tls-posture-wire-v1''
      [''private_namespaces'', ''scoped_network_filter'', ''pinned_tool_runtime'', ''reviewed_exec_allowlist'',
       ''no_child_processes'', ''fixed_tls_version'', ''dedicated_public_fixture_ca'', ''stdin_eof'',
       ''no_client_credentials'', ''complete_record_mediation'', ''second_client_hello_blocked'',
       ''client_unix_sockets_blocked'', ''client_socketpair_blocked'', ''independent_owner_evidence'',
       ''no_response_directed_followup''],
    adapter ''openssl_tls12_posture_v1'' ''TLSPostureParameters'' BOUNDS_FIELDS
      ''observe_owned_tls_version_posture'' ''owned-openssl-tls12-posture-v1''
      ''bounded-openssl-tls-posture-result-v1'' ''openssl-tls-posture-wire-v1''
      [''private_namespaces'', ''scoped_network_filter'', ''pinned_tool_runtime'', ''reviewed_exec_allowlist'',
       ''no_child_processes'', ''fixed_tls_version'', ''dedicated_public_fixture_ca'', ''stdin_eof'',
       ''no_client_credentials'', ''complete_record_mediation'', ''second_client_hello_blocked'',
       ''client_unix_sockets_blocked'', ''client_socketpair_blocked'', ''independent_owner_evidence'',
       ''no_response_directed_followup''],
    adapter ''openssl_tls13_posture_v1'' ''TLSPostureParameters'' BOUNDS_FIELDS
      ''observe_owned_tls_version_posture'' ''owned-openssl-tls13-posture-v1''
      ''bounded-openssl-tls-posture-result-v1'' ''openssl-tls-posture-wire-v1''
      [''private_namespaces'', ''scoped_network_filter'', ''pinned_tool_runtime'', ''reviewed_exec_allowlist'',
       ''no_child_processes'', ''fixed_tls_version'', ''dedicated_public_fixture_ca'', ''stdin_eof'',
       ''no_client_credentials'', ''complete_record_mediation'', ''second_client_hello_blocked'',
       ''client_unix_sockets_blocked'', ''client_socketpair_blocked'', ''independent_owner_evidence'',
       ''no_response_directed_followup''],
    adapter ''http_probe'' ''HTTPParameters'' HTTP_FIELDS
      ''read_owned_fixture_http'' ''owned-http-probe-v1''
      ''decoded-http-probe-result-v1'' ''http-assessment-v1''
      [''private_namespaces'', ''scoped_network_filter'', ''no_process_execution''],
    adapter ''tcp_connect'' ''TCPParameters'' BOUNDS_FIELDS
      ''connect_owned_fixture_tcp'' ''owned-tcp-connect-v1''
      ''bounded-tcp-connect-result-v1'' ''tcp-connect-discovery-v1''
      [''private_namespaces'', ''scoped_network_filter'', ''no_process_execution''],
    adapter ''nmap_tcp_connect_v1'' ''NmapTCPParameters'' BOUNDS_FIELDS
      ''scan_owned_fixture_tcp'' ''owned-nmap-tcp-connect-v1''
      ''bounded-nmap-xml-result-v1'' ''nmap-tcp-connect-xml-v1''
      [''private_namespaces'', ''scoped_network_filter'', ''pinned_nmap_runtime'', ''reviewed_exec_allowlist'',
       ''no_child_processes'', ''no_raw_sockets''],
    adapter ''http_headers_v1'' ''HTTPHeadersParameters'' HTTP_FIELDS
      ''read_owned_fixture_http_response'' ''owned-http-headers-v1''
      ''bounded-http-headers-result-v1'' ''http-headers-v1''
      [''private_namespaces'', ''scoped_network_filter'', ''no_process_execution'', ''no_redirect_following'',
       ''bounded_raw_response''],
    adapter ''curl_https_get_v1'' ''CurlHTTPSParameters'' HTTP_FIELDS
      ''read_owned_fixture_https'' ''owned-curl-https-v1''
      ''bounded-curl-wire-result-v1'' ''curl-https-http-v1''
      [''private_namespaces'', ''scoped_network_filter'', ''pinned_tool_runtime'', ''reviewed_exec_allowlist'',
       ''no_child_processes'', ''verified_fixture_tls'', ''no_redirect_following'', ''bounded_raw_response''],
    adapter ''curl_http_options_v1'' ''HTTPOptionsParameters'' BOUNDS_FIELDS
      ''observe_owned_http_options'' ''owned-curl-http-options-v1''
      ''bounded-curl-http-options-result-v1'' ''curl-http-options-v1''
      [''private_namespaces'', ''scoped_network_filter'', ''pinned_tool_runtime'', ''reviewed_exec_allowlist'',
       ''no_child_processes'', ''fixed_options_request'', ''single_connection_and_request'', ''no_redirect_following'',
       ''no_authentication'', ''no_response_directed_followup'', ''bounded_raw_response'',
       ''untrusted_http_capability_metadata_only''],
    adapter ''ffuf_content_discovery_v1'' ''FFufParameters'' BOUNDS_FIELDS
      ''discover_owned_fixture_http_paths'' ''owned-ffuf-content-v1''
      ''bounded-ffuf-json-result-v1'' ''ffuf-content-json-v1''
      [''private_namespaces'', ''scoped_network_filter'', ''pinned_tool_runtime'', ''reviewed_exec_allowlist'',
       ''bounded_threads'', ''no_child_processes'', ''pinned_dictionary'', ''no_redirect_following''],
    adapter ''dig_dns_query_v1'' ''DigDNSParameters'' BOUNDS_FIELDS
      ''query_owned_fixture_dns'' ''owned-dig-dns-v1''
      ''bounded-dig-dns-result-v1'' ''dig-dns-text-v1''
      [''private_namespaces'', ''scoped_network_filter'', ''pinned_tool_runtime'', ''reviewed_exec_allowlist'',
       ''bounded_threads'', ''no_child_processes'', ''fixed_dns_question'', ''tcp_only'', ''no_recursive_resolution''],
    adapter ''dig_dns_axfr_v1'' ''DigAXFRParameters'' BOUNDS_FIELDS
      ''observe_owned_dns_zone_transfer'' ''owned-dig-dns-axfr-v1''
      ''bounded-dig-dns-axfr-result-v1'' ''dig-dns-axfr-text-v1''
      [''private_namespaces'', ''scoped_network_filter'', ''pinned_tool_runtime'', ''reviewed_exec_allowlist'',
       ''bounded_threads'', ''no_child_processes'', ''fixed_dns_axfr_question'', ''tcp_only'',
       ''no_recursive_resolution'', ''single_connection_and_question'', ''no_response_directed_followup'',
       ''untrusted_dns_zone_transfer_metadata_only'']]"

definition ADAPTERS_2 :: "tool_adapter list" where
  "ADAPTERS_2 = [
    adapter ''dig_dns_nsid_v1'' ''DigNSIDParameters'' BOUNDS_FIELDS
      ''observe_owned_dns_nsid_metadata'' ''owned-dig-dns-nsid-v1''
      ''bounded-dig-dns-nsid-result-v1'' ''dig-dns-nsid-text-v1''
      [''private_namespaces'', ''scoped_network_filter'', ''pinned_tool_runtime'', ''reviewed_exec_allowlist'',
       ''bounded_threads'', ''no_child_processes'', ''fixed_dns_nsid_question'', ''tcp_only'',
       ''no_recursive_resolution'', ''single_connection_and_question'', ''no_response_directed_followup'',
       ''untrusted_dns_server_metadata_only''],
    adapter ''dig_dns_aaaa_v1'' ''DigAAAAParameters'' BOUNDS_FIELDS
      ''observe_owned_dns_ipv6_metadata'' ''owned-dns-aaaa-v1''
      ''bounded-dns-aaaa-result-v1'' ''dig-dns-aaaa-text-v1''
      [''private_namespaces'', ''scoped_network_filter'', ''pinned_tool_runtime'', ''reviewed_exec_allowlist'',
       ''no_child_processes'', ''fixed_tcp_endpoint'', ''single_fixed_dns_question'', ''maximum_four_answers'',
       ''tcp_only'', ''no_recursive_resolution'', ''no_alias_chasing'', ''no_followup_to_metadata''],
    adapter ''dig_dns_ptr_v1'' ''DigPTRParameters'' BOUNDS_FIELDS
      ''observe_owned_dns_reverse_metadata'' ''owned-dns-ptr-v1''
      ''bounded-dns-ptr-result-v1'' ''dig-dns-ptr-text-v1''
      [''private_namespaces'', ''scoped_network_filter'', ''pinned_tool_runtime'', ''reviewed_exec_allowlist'',
       ''no_child_processes'', ''fixed_tcp_endpoint'', ''single_fixed_dns_question'', ''maximum_four_answers'',
       ''tcp_only'', ''no_recursive_resolution'', ''no_alias_chasing'', ''no_followup_to_metadata''],
    adapter ''dig_dns_mx_v1'' ''DigMXParameters'' BOUNDS_FIELDS
      ''observe_owned_dns_mail_metadata'' ''owned-dig-dns-mx-v1''
      ''bounded-dig-dns-mx-result-v1'' ''dig-dns-mx-text-v1''
      [''private_namespaces'', ''scoped_network_filter'', ''pinned_tool_runtime'', ''reviewed_exec_allowlist'',
       ''bounded_threads'', ''no_child_processes'', ''fixed_dns_mx_question'', ''tcp_only'',
       ''no_recursive_resolution'', ''single_connection_and_question'', ''no_exchange_resolution_or_followup'',
       ''untrusted_dns_mail_metadata_only''],
    adapter ''dig_dns_srv_v1'' ''DigSRVParameters'' BOUNDS_FIELDS
      ''observe_owned_dns_service_metadata'' ''owned-dig-dns-srv-v1''
      ''bounded-dig-dns-srv-result-v1'' ''dig-dns-srv-text-v1''
      [''private_namespaces'', ''scoped_network_filter'', ''pinned_tool_runtime'', ''reviewed_exec_allowlist'',
       ''bounded_threads'', ''no_child_processes'', ''fixed_dns_srv_question'', ''tcp_only'',
       ''no_recursive_resolution'', ''single_connection_and_question'', ''no_advertised_endpoint_followup'',
       ''untrusted_dns_service_metadata_only''],
    adapter ''rdp_initial_negotiation_v1'' ''RDPInitialParameters'' BOUNDS_FIELDS
      ''observe_owned_rdp_initial_negotiation'' ''owned-rdp-initial-negotiation-v1''
      ''bounded-rdp-initial-result-v1'' ''rdp-initial-negotiation-v1''
      [''private_namespaces'', ''scoped_network_filter'', ''pinned_tool_runtime'', ''reviewed_exec_allowlist'',
       ''bounded_threads'', ''no_child_processes'', ''fixed_initial_protocol_offer'', ''single_connection_and_request'',
       ''tcp_only'', ''write_half_close_before_response'', ''no_authentication_or_security_handshake'',
       ''untrusted_negotiation_metadata_only''],
    adapter ''smb2_negotiate_metadata_v1'' ''SMB2NegotiateParameters'' BOUNDS_FIELDS
      ''observe_owned_smb2_negotiation_metadata'' ''owned-smb2-negotiate-v1''
      ''bounded-smb2-negotiate-result-v1'' ''smb2-negotiate-metadata-v1''
      [''private_namespaces'', ''scoped_network_filter'', ''pinned_tool_runtime'', ''reviewed_exec_allowlist'',
       ''bounded_threads'', ''no_child_processes'', ''fixed_smb2_negotiate_offer'', ''single_connection_and_request'',
       ''tcp_only'', ''write_half_close_before_response'', ''no_session_setup_or_authentication'', ''no_share_access'',
       ''untrusted_negotiation_metadata_only''],
    adapter ''openssl_tls_handshake_v1'' ''OpenSSLTLSParameters'' BOUNDS_FIELDS
      ''observe_owned_fixture_tls_handshake'' ''owned-openssl-tls-v1''
      ''bounded-openssl-tls-result-v1'' ''openssl-tls-brief-v1''
      [''private_namespaces'', ''scoped_network_filter'', ''pinned_tool_runtime'', ''reviewed_exec_allowlist'',
       ''no_child_processes'', ''verified_fixture_tls'', ''fixed_tls_name'', ''no_application_request''],
    adapter ''nuclei_git_head_v1'' ''NucleiParameters'' BOUNDS_FIELDS
      ''inspect_owned_git_head_signature'' ''owned-nuclei-git-head-v1''
      ''bounded-nuclei-git-head-result-v1'' ''nuclei-git-head-v1''
      [''private_namespaces'', ''scoped_network_filter'', ''pinned_static_runtime'', ''exact_compiled_template'',
       ''bounded_private_scratch'', ''no_child_processes'', ''no_credentials'', ''no_updates'',
       ''no_response_directed_followup''],
    adapter ''nuclei_directory_listing_v1'' ''NucleiParameters'' BOUNDS_FIELDS
      ''inspect_owned_directory_listing_signature'' ''owned-nuclei-directory-listing-v1''
      ''bounded-nuclei-directory-listing-result-v1'' ''nuclei-directory-listing-v1''
      [''private_namespaces'', ''scoped_network_filter'', ''pinned_static_runtime'', ''exact_compiled_template'',
       ''bounded_private_scratch'', ''no_child_processes'', ''no_credentials'', ''no_updates'',
       ''no_response_directed_followup''],
    adapter ''openssl_peer_certificate_v1'' ''TLSCertificateParameters'' BOUNDS_FIELDS
      ''observe_owned_tls_peer_certificate'' ''owned-openssl-peer-certificate-v1''
      ''bounded-openssl-peer-certificate-result-v1'' ''openssl-peer-certificate-v1''
      [''private_namespaces'', ''scoped_network_filter'', ''pinned_tool_runtime'', ''reviewed_exec_allowlist'',
       ''no_child_processes'', ''verified_fixture_tls'', ''fixed_tls_name'', ''dedicated_public_fixture_ca'',
       ''stdin_eof'', ''no_application_request'', ''no_client_credentials'', ''no_host_trust_configuration'',
       ''no_response_directed_followup''],
    adapter ''postgresql_tls_handshake_v1'' ''PostgreSQLTLSParameters'' BOUNDS_FIELDS
      ''observe_owned_postgresql_tls_handshake'' ''owned-postgresql-tls-v1''
      ''bounded-postgresql-tls-result-v1'' ''postgresql-tls-brief-v1''
      [''private_namespaces'', ''scoped_network_filter'', ''pinned_tool_runtime'', ''reviewed_exec_allowlist'',
       ''no_child_processes'', ''verified_fixture_tls'', ''fixed_tls_name'', ''fixed_database_tls_preface'',
       ''no_database_login'', ''no_sql'', ''no_plaintext_downgrade'', ''no_application_request'']]"

definition ADAPTERS_3 :: "tool_adapter list" where
  "ADAPTERS_3 = [
    adapter ''mysql_tls_handshake_v1'' ''MySQLTLSParameters'' BOUNDS_FIELDS
      ''observe_owned_mysql_tls_handshake'' ''owned-mysql-tls-v1''
      ''bounded-mysql-tls-result-v1'' ''mysql-tls-brief-v1''
      [''private_namespaces'', ''scoped_network_filter'', ''pinned_tool_runtime'', ''reviewed_exec_allowlist'',
       ''no_child_processes'', ''verified_fixture_tls'', ''fixed_tls_name'', ''fixed_database_tls_preface'',
       ''no_database_login'', ''no_sql'', ''no_plaintext_downgrade'', ''no_application_request''],
    adapter ''smtp_starttls_handshake_v1'' ''SMTPStartTLSParameters'' BOUNDS_FIELDS
      ''observe_owned_smtp_starttls_handshake'' ''owned-smtp-starttls-v1''
      ''bounded-smtp-starttls-result-v1'' ''smtp-starttls-brief-v1''
      [''private_namespaces'', ''scoped_network_filter'', ''pinned_tool_runtime'', ''reviewed_exec_allowlist'',
       ''no_child_processes'', ''verified_fixture_tls'', ''fixed_tls_name'', ''fixed_ehlo_and_starttls'',
       ''single_connection'', ''no_authentication_or_mail'', ''no_client_credentials'', ''no_plaintext_session'',
       ''no_tls_application_request'', ''owner_witnessed_clean_tls_close''],
    adapter ''ldap_starttls_handshake_v1'' ''LDAPStartTLSParameters'' BOUNDS_FIELDS
      ''observe_owned_ldap_starttls_handshake'' ''owned-ldap-starttls-v1''
      ''bounded-ldap-starttls-result-v1'' ''ldap-starttls-brief-v1''
      [''private_namespaces'', ''scoped_network_filter'', ''pinned_tool_runtime'', ''reviewed_exec_allowlist'',
       ''no_child_processes'', ''verified_fixture_tls'', ''fixed_tls_name'', ''fixed_ldap_starttls_request'',
       ''single_connection'', ''no_bind_or_search'', ''no_client_credentials'', ''no_referral_following'',
       ''no_tls_application_request'', ''owner_witnessed_clean_tls_close''],
    adapter ''ftp_starttls_handshake_v1'' ''FTPStartTLSParameters'' BOUNDS_FIELDS
      ''observe_owned_ftp_starttls_handshake'' ''owned-ftp-starttls-v1''
      ''bounded-ftp-starttls-result-v1'' ''ftp-starttls-brief-v1''
      [''private_namespaces'', ''scoped_network_filter'', ''pinned_tool_runtime'', ''reviewed_exec_allowlist'',
       ''no_child_processes'', ''verified_fixture_tls'', ''fixed_tls_name'', ''fixed_ftp_auth_tls_request'',
       ''single_connection'', ''no_login'', ''no_client_credentials'', ''no_data_connection'', ''no_file_transfer'',
       ''no_tls_application_request'', ''owner_witnessed_clean_tls_close''],
    adapter ''whatweb_http_fingerprint_v1'' ''WhatWebParameters'' BOUNDS_FIELDS
      ''observe_owned_http_application_hints'' ''owned-whatweb-http-v1''
      ''bounded-whatweb-http-result-v1'' ''whatweb-json-v1''
      [''private_namespaces'', ''scoped_network_filter'', ''pinned_tool_runtime'', ''reviewed_exec_allowlist'',
       ''bounded_threads'', ''no_child_processes'', ''fixed_http_get'', ''finite_passive_plugins'',
       ''single_connection_and_request'', ''bounded_response_input'', ''no_redirects'', ''no_retries'',
       ''no_authentication'', ''untrusted_application_hints_only''],
    adapter ''ssh_host_keys_v1'' ''SSHHostKeysParameters'' BOUNDS_FIELDS
      ''observe_owned_fixture_ssh_host_key'' ''owned-ssh-host-keys-v1''
      ''bounded-ssh-host-key-result-v1'' ''ssh-keyscan-rsa-v1''
      [''private_namespaces'', ''scoped_network_filter'', ''pinned_tool_runtime'', ''reviewed_exec_allowlist'',
       ''no_child_processes'', ''fixed_rsa_key_type'', ''no_authentication'', ''no_host_trust_claim''],
    adapter ''ssh_transport_algorithms_v1'' ''SSHAlgorithmsParameters'' BOUNDS_FIELDS
      ''observe_owned_ssh_transport_algorithms'' ''owned-ssh-transport-algorithms-v1''
      ''bounded-ssh-transport-algorithms-result-v1'' ''ssh-kexinit-wire-v1''
      [''private_namespaces'', ''scoped_network_filter'', ''pinned_tool_runtime'', ''reviewed_exec_allowlist'',
       ''bounded_threads'', ''no_child_processes'', ''fixed_tcp_endpoint'', ''single_fixed_identification_and_kexinit'',
       ''fresh_cookie_only'', ''write_shutdown_before_response'', ''one_bounded_server_packet'',
       ''no_key_exchange_completion'', ''no_authentication'', ''no_host_trust_claim'',
       ''no_response_directed_followup'', ''untrusted_algorithm_advertisements''],
    adapter ''ssh_transport_policy_v1'' ''SSHPolicyParameters'' BOUNDS_FIELDS
      ''assess_owned_ssh_transport_policy'' ''owned-ssh-transport-policy-v1''
      ''bounded-ssh-transport-policy-result-v1'' ''ssh-policy-wire-v1''
      [''private_namespaces'', ''scoped_network_filter'', ''pinned_tool_runtime'', ''reviewed_exec_allowlist'',
       ''bounded_threads'', ''no_child_processes'', ''fixed_tcp_endpoint'', ''single_fixed_identification_and_kexinit'',
       ''fresh_cookie_only'', ''write_shutdown_before_response'', ''one_bounded_server_packet'',
       ''pinned_local_policy'', ''both_transport_directions'', ''unknown_algorithms_inconclusive'',
       ''no_key_exchange_completion'', ''no_authentication'', ''no_host_trust_claim'',
       ''no_response_directed_followup'', ''untrusted_algorithm_advertisements''],
    adapter ''ldap_rootdse_v1'' ''LDAPRootDSEParameters'' BOUNDS_FIELDS
      ''read_owned_fixture_ldap_rootdse'' ''owned-ldap-rootdse-v1''
      ''bounded-ldap-rootdse-result-v1'' ''ldap-rootdse-ldif-v1''
      [''private_namespaces'', ''scoped_network_filter'', ''pinned_tool_runtime'', ''reviewed_exec_allowlist'',
       ''no_child_processes'', ''anonymous_rootdse_only'', ''fixed_attribute_list'', ''no_referral_following''],
    adapter ''smb_share_list_v1'' ''SMBShareListParameters'' BOUNDS_FIELDS
      ''list_owned_fixture_smb_shares'' ''owned-smb-share-list-v1''
      ''bounded-smb-share-list-result-v1'' ''smb-share-list-v1''
      [''private_namespaces'', ''scoped_network_filter'', ''pinned_tool_runtime'', ''reviewed_exec_allowlist'',
       ''no_child_processes'', ''anonymous_share_listing_only'', ''no_file_share_access'', ''no_followup_to_metadata''],
    adapter ''rpcinfo_dump_v1'' ''RPCInfoDumpParameters'' BOUNDS_FIELDS
      ''list_owned_fixture_rpc_registrations'' ''owned-rpcinfo-dump-v1''
      ''bounded-rpcinfo-dump-result-v1'' ''rpcinfo-dump-v1''
      [''private_namespaces'', ''scoped_network_filter'', ''pinned_tool_runtime'', ''reviewed_exec_allowlist'',
       ''no_child_processes'', ''fixed_tcp_endpoint'', ''registration_metadata_only'', ''no_followup_to_metadata''],
    adapter ''showmount_exports_v1'' ''ShowmountExportsParameters'' BOUNDS_FIELDS
      ''list_owned_fixture_nfs_exports'' ''owned-showmount-exports-v1''
      ''bounded-showmount-exports-result-v1'' ''showmount-exports-v1''
      [''private_namespaces'', ''scoped_network_filter'', ''pinned_tool_runtime'', ''reviewed_exec_allowlist'',
       ''no_child_processes'', ''fixed_tcp_endpoint'', ''export_metadata_only'', ''no_mount_or_file_access'']]"

definition ADAPTERS_4 :: "tool_adapter list" where
  "ADAPTERS_4 = [
    adapter ''curl_ftp_list_v1'' ''CurlFTPListParameters'' BOUNDS_FIELDS
      ''list_owned_fixture_ftp_names'' ''owned-curl-ftp-list-v1''
      ''bounded-curl-ftp-list-result-v1'' ''curl-ftp-list-v1''
      [''private_namespaces'', ''scoped_network_filter'', ''pinned_tool_runtime'', ''reviewed_exec_allowlist'',
       ''no_child_processes'', ''fixed_control_and_data_endpoint'', ''anonymous_name_listing_only'',
       ''no_file_transfer'', ''no_followup_to_metadata''],
    adapter ''curl_smtp_capabilities_v1'' ''CurlSMTPCapabilitiesParameters'' BOUNDS_FIELDS
      ''observe_owned_fixture_smtp_capabilities'' ''owned-curl-smtp-capabilities-v1''
      ''bounded-curl-smtp-capabilities-result-v1'' ''curl-smtp-capabilities-v1''
      [''private_namespaces'', ''scoped_network_filter'', ''pinned_tool_runtime'', ''reviewed_exec_allowlist'',
       ''no_child_processes'', ''fixed_tcp_endpoint'', ''capability_metadata_only'', ''no_authentication'',
       ''no_mail_submission''],
    adapter ''curl_docker_ping_v1'' ''CurlDockerPingParameters'' BOUNDS_FIELDS
      ''observe_owned_fixture_docker_ping'' ''owned-curl-docker-ping-v1''
      ''bounded-curl-docker-ping-result-v1'' ''curl-docker-ping-v1''
      [''private_namespaces'', ''scoped_network_filter'', ''pinned_tool_runtime'', ''reviewed_exec_allowlist'',
       ''no_child_processes'', ''fixed_tcp_endpoint'', ''fixed_metadata_get_only'', ''no_authentication'',
       ''no_redirect_following'', ''no_daemon_or_wsman_operations'', ''no_followup_to_metadata''],
    adapter ''curl_docker_version_v1'' ''CurlDockerVersionParameters'' BOUNDS_FIELDS
      ''read_owned_fixture_docker_version'' ''owned-curl-docker-version-v1''
      ''bounded-curl-docker-version-result-v1'' ''curl-docker-version-v1''
      [''private_namespaces'', ''scoped_network_filter'', ''pinned_tool_runtime'', ''reviewed_exec_allowlist'',
       ''no_child_processes'', ''fixed_tcp_endpoint'', ''fixed_metadata_get_only'', ''no_authentication'',
       ''no_redirect_following'', ''no_daemon_or_wsman_operations'', ''no_followup_to_metadata''],
    adapter ''redis_server_info_v1'' ''RedisServerInfoParameters'' BOUNDS_FIELDS
      ''observe_owned_redis_server_metadata'' ''owned-redis-server-info-v1''
      ''bounded-redis-server-info-result-v1'' ''redis-info-server-v1''
      [''private_namespaces'', ''scoped_network_filter'', ''pinned_tool_runtime'', ''reviewed_exec_allowlist'',
       ''no_child_processes'', ''fixed_tcp_endpoint'', ''single_info_server'', ''no_authentication'', ''no_key_access'',
       ''no_cluster_redirects'', ''no_followup_to_metadata''],
    adapter ''snmp_system_get_v1'' ''SNMPSystemGetParameters'' BOUNDS_FIELDS
      ''observe_owned_snmp_system_metadata'' ''owned-snmp-system-get-v1''
      ''bounded-snmp-system-get-result-v1'' ''snmp-system-text-v1''
      [''private_namespaces'', ''scoped_network_filter'', ''pinned_tool_runtime'', ''reviewed_exec_allowlist'',
       ''no_child_processes'', ''fixed_tcp_endpoint'', ''single_fixed_scalar_get'', ''public_synthetic_community'',
       ''no_walk_or_set'', ''no_mib_or_host_config'', ''no_udp'', ''no_followup_to_metadata''],
    adapter ''snmp_interface_page_v1'' ''SNMPInterfacePageParameters'' BOUNDS_FIELDS
      ''observe_owned_snmp_interface_page'' ''owned-snmp-interface-page-v1''
      ''bounded-snmp-interface-page-result-v1'' ''snmp-interface-page-text-v1''
      [''private_namespaces'', ''scoped_network_filter'', ''pinned_tool_runtime'', ''reviewed_exec_allowlist'',
       ''no_child_processes'', ''fixed_tcp_endpoint'', ''single_fixed_seed_getbulk'', ''maximum_four_bindings'',
       ''public_synthetic_community'', ''no_walk_or_set'', ''no_paging_continuation'', ''no_retries_or_oid_correction'',
       ''no_mib_or_host_config'', ''no_udp'', ''no_followup_to_returned_oid''],
    adapter ''snmp_interface_next_v1'' ''SNMPInterfaceNextParameters'' BOUNDS_FIELDS
      ''observe_owned_snmp_interface_successor'' ''owned-snmp-interface-next-v1''
      ''bounded-snmp-interface-next-result-v1'' ''snmp-interface-next-text-v1''
      [''private_namespaces'', ''scoped_network_filter'', ''pinned_tool_runtime'', ''reviewed_exec_allowlist'',
       ''no_child_processes'', ''fixed_tcp_endpoint'', ''single_fixed_seed_getnext'', ''public_synthetic_community'',
       ''no_walk_or_set'', ''no_retries_or_oid_correction'', ''no_mib_or_host_config'', ''no_udp'',
       ''no_followup_to_returned_oid'', ''untrusted_interface_metadata_only''],
    adapter ''kerbrute_userenum_v1'' ''KerbruteUserenumParameters'' BOUNDS_FIELDS
      ''enumerate_owned_synthetic_principal_reports'' ''owned-kerbrute-userenum-v1''
      ''bounded-kerbrute-userenum-result-v1'' ''kerbrute-userenum-text-v1''
      [''private_namespaces'', ''scoped_network_filter'', ''pinned_tool_runtime'', ''reviewed_exec_allowlist'',
       ''bounded_threads'', ''no_child_processes'', ''fixed_tcp_endpoint'', ''compiled_synthetic_principals'',
       ''no_passwords_or_spraying'', ''synthetic_error_only_kdc'', ''tool_report_only'', ''no_followup_to_metadata''],
    adapter ''nmap_service_identify_v1'' ''NmapServiceParameters'' BOUNDS_FIELDS
      ''identify_owned_fixture_service'' ''owned-nmap-service-identification-v1''
      ''bounded-nmap-service-result-v1'' ''nmap-service-xml-v1''
      [''private_namespaces'', ''scoped_network_filter'', ''pinned_tool_runtime'', ''reviewed_exec_allowlist'',
       ''no_child_processes'', ''fixed_tcp_endpoint'', ''finite_compiled_service_probes'', ''nse_scripts_disabled'',
       ''no_authentication'', ''no_followup_to_metadata''],
    adapter ''curl_winrm_metadata_v1'' ''CurlWinRMMetadataParameters'' BOUNDS_FIELDS
      ''observe_owned_fixture_winrm_metadata'' ''owned-curl-winrm-metadata-v1''
      ''bounded-curl-winrm-metadata-result-v1'' ''curl-winrm-metadata-v1''
      [''private_namespaces'', ''scoped_network_filter'', ''pinned_tool_runtime'', ''reviewed_exec_allowlist'',
       ''no_child_processes'', ''fixed_tcp_endpoint'', ''fixed_metadata_get_only'', ''no_authentication'',
       ''no_redirect_following'', ''no_daemon_or_wsman_operations'', ''no_followup_to_metadata''],
    adapter ''configurable_nmap_service_v1'' ''NmapServiceParameters'' BOUNDS_FIELDS
      ''identify_declared_owned_endpoint'' ''configurable-owned-endpoint-v1''
      ''configurable-service-result-v1'' ''configurable-nmap-service-xml-v1''
      [''immutable_operator_scope'', ''private_endpoint_namespace'', ''scoped_network_filter'', ''pinned_tool_runtime'',
       ''finite_compiled_service_probes'', ''nse_scripts_disabled'', ''no_authentication'',
       ''no_external_connectivity'']]"

definition ADAPTERS_5 :: "tool_adapter list" where
  "ADAPTERS_5 = [
    adapter ''configurable_http_headers_v1'' ''HTTPHeadersParameters'' HTTP_FIELDS
      ''observe_declared_owned_http_headers'' ''configurable-owned-endpoint-v1''
      ''configurable-header-result-v1'' ''configurable-http-headers-v1''
      [''immutable_operator_scope'', ''private_endpoint_namespace'', ''scoped_network_filter'',
       ''no_redirect_following'', ''no_authentication'', ''no_external_connectivity''],
    adapter ''configurable_ssh_host_keys_v1'' ''SSHHostKeysParameters'' BOUNDS_FIELDS
      ''observe_declared_owned_ssh_host_key'' ''configurable-owned-endpoint-v1''
      ''configurable-ssh-result-v1'' ''configurable-ssh-keyscan-v1''
      [''immutable_operator_scope'', ''private_endpoint_namespace'', ''scoped_network_filter'', ''pinned_tool_runtime'',
       ''no_authentication'', ''no_external_connectivity'']]"
definition ADAPTERS :: "tool_adapter list" where
  "ADAPTERS = ADAPTERS_1 @ ADAPTERS_2 @ ADAPTERS_3 @ ADAPTERS_4 @ ADAPTERS_5"

definition SUPPORTED_TOOLS :: "string list" where
  "SUPPORTED_TOOLS = map ad_tool ADAPTERS"

definition ADAPTER_API_VERSION :: string where "ADAPTER_API_VERSION = ''1''"

definition get_adapter :: "pyval \<Rightarrow> pyval \<Rightarrow> string + tool_adapter" where
  "get_adapter tool version =
    bindE (require (version = PStr ADAPTER_API_VERSION) ''unsupported_adapter_api'') (\<lambda>_.
    bindE (require (str_in SUPPORTED_TOOLS tool) ''unsupported_tool'') (\<lambda>_.
    case find (\<lambda>a. ad_tool a = the_str tool) ADAPTERS of None \<Rightarrow> Inl ''unsupported_tool'' | Some a \<Rightarrow> Inr a))"

definition parse_parameters :: "tool_adapter \<Rightarrow> pyval \<Rightarrow> string + parameters" where
  "parse_parameters a v = bindE (check_fields v (ad_fields a) ''parameters'') (\<lambda>_. construct (ad_class a) v)"

definition proposal_tools :: "pyval \<Rightarrow> string + string list" where
  "proposal_tools profile =
    (if profile = PStr ''legacy-v1'' then Inr [''http_probe'', ''tcp_connect'']
     else if profile = PStr ''owned-nmap-http-v1'' then Inr [''nmap_tcp_connect_v1'', ''http_probe'']
     else Inl ''unsupported_proposal_profile'')"

section \<open>Published schemas\<close>

definition NAME_TLS_CANDIDATES :: "string list" where
  "NAME_TLS_CANDIDATES = [''owned_name_dns_v1'', ''owned_name_http_v1'', ''owned_name_tls_v1'']"

definition integer_schema :: "int \<Rightarrow> int \<Rightarrow> pyval" where
  "integer_schema lo hi = PDict [(''type'', PStr ''integer''), (''minimum'', PInt lo), (''maximum'', PInt hi)]"

definition text_schema :: pyval where
  "text_schema = PDict [(''type'', PStr ''string''), (''minLength'', PInt 1), (''maxLength'', PInt 256)]"

definition ends_with :: "string \<Rightarrow> string \<Rightarrow> bool" where
  "ends_with w s \<longleftrightarrow> length w \<le> length s \<and> drop (length s - length w) s = w"

definition name_schema :: "string \<Rightarrow> pyval" where
  "name_schema k =
    (if ends_with ''sha256'' k then PDict [(''type'', PStr ''string''), (''pattern'', PStr ''^[a-f0-9]{64}$'')]
     else if k \<in> {''port'', ''timeout_seconds'', ''max_output_bytes'', ''observation_generation'',
       ''observed_ttl_seconds'', ''observed_at_us'', ''expires_at_us''} then integer_schema 0 60000000
     else text_schema)"

definition schema_properties :: "tool_adapter \<Rightarrow> (string \<times> pyval) list" where
  "schema_properties a =
    (if ad_tool a \<in> set NAME_TLS_CANDIDATES then map (\<lambda>k. (k, name_schema k)) (ad_fields a)
     else [(''port'', integer_schema 1 65535), (''timeout_seconds'', integer_schema 1 30), (''max_output_bytes'', integer_schema 1 65536)]
       @ (if ad_tool a \<in> {''http_probe'', ''http_headers_v1'', ''curl_https_get_v1'', ''configurable_http_headers_v1''}
          then [(''method'', PDict [(''type'', PStr ''string''), (''enum'', PList [PStr ''GET'', PStr ''HEAD''])]), (''path'', text_schema)]
          else []))"

definition parameter_schema :: "tool_adapter \<Rightarrow> pyval" where
  "parameter_schema a = PDict [(''type'', PStr ''object''), (''properties'', PDict (schema_properties a)),
     (''required'', PList (map (\<lambda>e. PStr (fst e)) (schema_properties a))), (''additionalProperties'', PBool False)]"

definition adapter_json :: "tool_adapter \<Rightarrow> pyval" where
  "adapter_json a = PDict [(''adapter_api_version'', PStr ADAPTER_API_VERSION), (''tool_id'', PStr (ad_tool a)),
     (''capability_version'', PStr ''1''), (''parameters'', parameter_schema a), (''effect'', PStr (ad_effect a)),
     (''execution_profile'', PStr (ad_profile a)), (''result_contract'', PStr (ad_contract a)),
     (''parser_version'', PStr (ad_parser a)), (''execution_requirements'', PList (map PStr (ad_requirements a))),
     (''approval'', PStr ''operator_policy''), (''live_calls_enabled'', PBool False)]"

section \<open>The registry is consistent\<close>

lemmas registry_defs = ADAPTERS_def ADAPTERS_1_def ADAPTERS_2_def ADAPTERS_3_def ADAPTERS_4_def ADAPTERS_5_def

lemma supported_tools:
  "SUPPORTED_TOOLS = map ad_tool ADAPTERS_1 @ map ad_tool ADAPTERS_2 @ map ad_tool ADAPTERS_3
    @ map ad_tool ADAPTERS_4 @ map ad_tool ADAPTERS_5"
  by (simp add: SUPPORTED_TOOLS_def ADAPTERS_def)

lemma registry_fields: "list_all (\<lambda>a. ad_fields a = class_fields (ad_class a)) ADAPTERS"
  by (simp add: registry_defs class_fields_def HTTP_CLASSES_def)

lemma tools_distinct: "distinct SUPPORTED_TOOLS"
  unfolding supported_tools by (simp add: registry_defs)

lemma schema_names:
  "list_all (\<lambda>a. ad_tool a \<in> set NAME_TLS_CANDIDATES \<or> set (map fst (schema_properties a)) = set (ad_fields a)) ADAPTERS"
  by (auto simp: registry_defs schema_properties_def NAME_TLS_CANDIDATES_def field_lists)

lemma schema_fields:
  assumes "a \<in> set ADAPTERS"
  shows "set (map fst (schema_properties a)) = set (ad_fields a)"
proof (cases "ad_tool a \<in> set NAME_TLS_CANDIDATES")
  case True
  then show ?thesis by (simp add: schema_properties_def comp_def)
next
  case False
  then show ?thesis using schema_names assms unfolding list_all_iff by blast
qed

lemma get_adapter_Inr:
  "get_adapter tool version = Inr a \<longleftrightarrow> version = PStr ADAPTER_API_VERSION \<and> tool = PStr (ad_tool a) \<and> a \<in> set ADAPTERS"
proof
  assume "get_adapter tool version = Inr a"
  then obtain t where "version = PStr ADAPTER_API_VERSION" "tool = PStr t" "find (\<lambda>a. ad_tool a = t) ADAPTERS = Some a"
    by (auto simp: get_adapter_def res_simps elim!: str_inE split: option.splits)
  then show "version = PStr ADAPTER_API_VERSION \<and> tool = PStr (ad_tool a) \<and> a \<in> set ADAPTERS"
    using find_key_Some by fastforce
next
  assume h: "version = PStr ADAPTER_API_VERSION \<and> tool = PStr (ad_tool a) \<and> a \<in> set ADAPTERS"
  then have "find (\<lambda>b. ad_tool b = ad_tool a) ADAPTERS = Some a"
    using tools_distinct by (intro find_unique [of ad_tool]) (simp_all add: SUPPORTED_TOOLS_def)
  then show "get_adapter tool version = Inr a" using h by (simp add: get_adapter_def SUPPORTED_TOOLS_def)
qed

lemma adapter_fields: "a \<in> set ADAPTERS \<Longrightarrow> ad_fields a = class_fields (ad_class a)"
  using registry_fields by (simp add: list_all_iff)

text \<open>Parsed parameters print to a value that parses to them.\<close>

lemma parse_parameters_again:
  assumes "parse_parameters a v = Inr p" and "a \<in> set ADAPTERS"
  shows "parse_parameters a (parameters_json p) = Inr p" and "class_of p = ad_class a"
proof -
  have c: "construct (ad_class a) v = Inr p" using assms(1) by (auto simp: parse_parameters_def res_simps)
  show "parse_parameters a (parameters_json p) = Inr p"
    using parameters_fields [OF c] construct_again [OF c] adapter_fields [OF assms(2)]
    by (simp add: parse_parameters_def)
  show "class_of p = ad_class a" using construct_agrees(1) [OF c] .
qed

end
