(* ===== verification/IpPrint.thy ===== *)
theory IpPrint
  imports IpNetwork PySort
begin

text \<open>
  Printed addresses and networks read back: decimal octets, hexadecimal groups, the compression
  of the longest run of zero groups, and with them the canonical form of a target.
\<close>

section \<open>IPv4\<close>

lemma split_join_char:
  "ws \<noteq> [] \<Longrightarrow> \<forall>w \<in> set ws. c \<notin> set w \<Longrightarrow> split_on c (join [c] ws) = ws"
proof (induction ws)
  case (Cons w ws)
  then show ?case by (cases ws) (simp_all add: split_on_word split_on_cons)
qed simp

lemma hd_show_digit: "1 \<le> i \<Longrightarrow> hd (show_pos i) \<noteq> CHR ''0''"
proof (induction i rule: show_pos.induct)
  case (1 i)
  show ?case
  proof (cases "i < 10")
    case True
    then have "(of_char (digit_char (nat i)) :: nat) = 48 + nat i" by (intro of_digit_char) simp
    then have "digit_char (nat i) \<noteq> CHR ''0''" using 1(2) by auto
    then show ?thesis using True by (simp add: show_pos.simps [of i])
  next
    case False
    then have "hd (show_pos (i div 10)) \<noteq> CHR ''0''" using 1 by simp
    then show ?thesis using False show_pos_nonempty [of "i div 10"] by (simp add: show_pos.simps [of i])
  qed
qed

lemma octet_show:
  assumes "0 \<le> a" and "a < 256"
  shows "octet (show_int a) = Some a" "CHR ''.'' \<notin> set (show_int a)" "CHR ''/'' \<notin> set (show_int a)"
proof -
  have s: "show_int a = show_pos a" using assms(1) by (simp add: show_int_def)
  have d: "\<forall>c \<in> set (show_pos a). is_digit c" by (rule show_pos_digits [OF assms(1)])
  have l: "length (show_pos a) \<le> 3" using length_show_pos [of a 3] assms by simp
  have h: "length (show_pos a) = 1 \<or> hd (show_pos a) \<noteq> CHR ''0''"
  proof (cases "a < 10")
    case True
    then show ?thesis by (simp add: show_pos.simps [of a])
  next
    case False
    then show ?thesis using hd_show_digit [of a] by simp
  qed
  show "octet (show_int a) = Some a"
    using d l h assms show_pos_nonempty [of a] by (simp add: octet_def s list_all_iff read_show_pos nat_le_iff)
  show "CHR ''.'' \<notin> set (show_int a)" "CHR ''/'' \<notin> set (show_int a)"
    unfolding s using d by (auto simp: is_digit_def less_eq_char_def)
qed

lemma base256: "n = n div 256 * 256 + n mod (256 :: int)"
  by simp

lemma four_octets:
  fixes n :: int
  assumes "0 \<le> n" and "n < 2 ^ 32"
  obtains a b c d where "n div 2 ^ 24 = a" "n div 2 ^ 16 mod 256 = b" "n div 2 ^ 8 mod 256 = c" "n mod 256 = d"
    "((a * 256 + b) * 256 + c) * 256 + d = n" "0 \<le> a" "a < 256" "0 \<le> b" "b < 256" "0 \<le> c" "c < 256" "0 \<le> d" "d < 256"
proof -
  have e: "n div 2 ^ 8 = n div 256" "n div 2 ^ 16 = n div 256 div 256" "n div 2 ^ 24 = n div 256 div 256 div 256"
    by (simp_all add: zdiv_zmult2_eq [symmetric])
  have "((n div 2 ^ 24 * 256 + n div 2 ^ 16 mod 256) * 256 + n div 2 ^ 8 mod 256) * 256 + n mod 256 = n"
    unfolding e base256 [symmetric] by (rule refl)
  moreover have "0 \<le> n div 2 ^ 24" "n div 2 ^ 24 < 256" using assms by (simp_all add: div_less_iff_less_mult)
  ultimately show ?thesis
    by (rule that [OF refl refl refl refl]) (rule pos_mod_sign pos_mod_bound; simp)+
qed

lemma read_show_v4:
  assumes "0 \<le> n" and "n < 2 ^ 32"
  shows "read_v4 (show_v4 n) = Some n" "CHR ''/'' \<notin> set (show_v4 n)"
proof -
  obtain a b c d where n: "n div 2 ^ 24 = a" "n div 2 ^ 16 mod 256 = b" "n div 2 ^ 8 mod 256 = c" "n mod 256 = d"
    "((a * 256 + b) * 256 + c) * 256 + d = n" "0 \<le> a" "a < 256" "0 \<le> b" "b < 256" "0 \<le> c" "c < 256" "0 \<le> d" "d < 256"
    by (rule four_octets [OF assms])
  have s: "show_v4 n = join ''.'' [show_int a, show_int b, show_int c, show_int d]"
    unfolding show_v4_def n(1-4) by simp
  have dots: "CHR ''.'' \<notin> set (show_int a)" "CHR ''.'' \<notin> set (show_int b)" "CHR ''.'' \<notin> set (show_int c)"
    "CHR ''.'' \<notin> set (show_int d)" by (rule octet_show(2); rule n)+
  have slashes: "CHR ''/'' \<notin> set (show_int a)" "CHR ''/'' \<notin> set (show_int b)" "CHR ''/'' \<notin> set (show_int c)"
    "CHR ''/'' \<notin> set (show_int d)" by (rule octet_show(3); rule n)+
  have "split_on (CHR ''.'') (show_v4 n) = [show_int a, show_int b, show_int c, show_int d]"
    unfolding s using dots by (intro split_join_char) auto
  moreover have "octet (show_int a) = Some a" "octet (show_int b) = Some b" "octet (show_int c) = Some c"
    "octet (show_int d) = Some d" by (rule octet_show(1); rule n)+
  ultimately have "ipv4 (show_v4 n) = Some (a, b, c, d)" unfolding ipv4_def by simp
  then show "read_v4 (show_v4 n) = Some n" unfolding read_v4_def by (simp only: option.case prod.case n(5))
  show "CHR ''/'' \<notin> set (show_v4 n)" unfolding s using slashes by simp
qed

lemma set_join: "set (join sep ws) \<subseteq> set sep \<union> \<Union> (set ` set ws)"
  by (induction sep ws rule: join.induct) auto

section \<open>Hexadecimal groups\<close>

lemma hex_chars: "list_all (\<lambda>n. is_hex_digit (hex_char n) \<and> hex_value (hex_char n) = int n
    \<and> hex_char n \<notin> set '':./%''  \<and> \<not> whitespace (hex_char n)) [0..<16]"
  by code_simp

lemma hex_char_facts:
  assumes "n < 16"
  shows "is_hex_digit (hex_char n)" "hex_value (hex_char n) = int n" "hex_char n \<notin> set '':./%''" "\<not> whitespace (hex_char n)"
  using hex_chars assms by (auto simp: list_all_iff)

lemma show_hex_chars: "0 \<le> i \<Longrightarrow> c \<in> set (show_hex i) \<Longrightarrow> \<exists>n < 16. c = hex_char n"
proof (induction i rule: show_hex.induct)
  case (1 i)
  show ?case
  proof (cases "i < 16")
    case True
    then show ?thesis using 1(2,3) by (intro exI [of _ "nat i"]) (simp add: show_hex.simps [of i])
  next
    case False
    have "0 \<le> i div 16" using 1(2) by simp
    from 1(1) [OF False this] have rec: "c \<in> set (show_hex (i div 16)) \<Longrightarrow> ?thesis" .
    have "c \<in> set (show_hex (i div 16)) \<or> c = hex_char (nat (i mod 16))"
      using False 1(3) by (auto simp: show_hex.simps [of i])
    then show ?thesis
    proof
      assume "c = hex_char (nat (i mod 16))"
      then show ?thesis by (intro exI [of _ "nat (i mod 16)"]) simp
    qed (rule rec)
  qed
qed

lemma show_hex_value: "0 \<le> i \<Longrightarrow> hextet_value (show_hex i) = i"
proof (induction i rule: show_hex.induct)
  case (1 i)
  show ?case
  proof (cases "i < 16")
    case True
    then show ?thesis using 1 hex_char_facts(2) [of "nat i"] by (simp add: show_hex.simps [of i] hextet_value_def)
  next
    case False
    then have "hextet_value (show_hex (i div 16)) = i div 16" using 1 by simp
    then show ?thesis using False 1(2) hex_char_facts(2) [of "nat (i mod 16)"]
      by (simp add: show_hex.simps [of i] hextet_value_def)
  qed
qed

lemma show_hex_length: "0 \<le> i \<Longrightarrow> i < 16 ^ n \<Longrightarrow> 1 \<le> n \<Longrightarrow> length (show_hex i) \<le> n"
proof (induction n arbitrary: i)
  case (Suc n)
  show ?case
  proof (cases "i < 16")
    case False
    then have "n \<noteq> 0" using Suc.prems by (cases n) auto
    then have "length (show_hex (i div 16)) \<le> n"
      using Suc.prems by (intro Suc.IH) (auto simp: div_less_iff_less_mult)
    then show ?thesis using False by (subst show_hex.simps) simp
  qed (subst show_hex.simps; simp)
qed simp

lemma show_hex_nonempty: "show_hex i \<noteq> []"
  by (subst show_hex.simps) simp

lemma hextet_show:
  assumes "0 \<le> i" and "i < 65536"
  shows "hextet_ok (show_hex i)" "CHR '':'' \<notin> set (show_hex i)" "CHR ''.'' \<notin> set (show_hex i)"
    "CHR ''/'' \<notin> set (show_hex i)" "CHR ''%'' \<notin> set (show_hex i)" "\<forall>c \<in> set (show_hex i). \<not> whitespace c"
proof -
  note f = show_hex_chars [OF assms(1)] hex_char_facts
  show "hextet_ok (show_hex i)"
    using f(1,2) show_hex_length [of i 4] assms show_hex_nonempty [of i] by (auto simp: hextet_ok_def list_all_iff)
  show "CHR '':'' \<notin> set (show_hex i)" "CHR ''.'' \<notin> set (show_hex i)" "CHR ''/'' \<notin> set (show_hex i)"
    "CHR ''%'' \<notin> set (show_hex i)"
    using f(1,4) by fastforce+
  show "\<forall>c \<in> set (show_hex i). \<not> whitespace c" using f(1,5) by blast
qed

section \<open>The compressed form\<close>

definition run_ok :: "string list \<Rightarrow> nat \<times> nat \<Rightarrow> bool" where
  "run_ok hs r \<longleftrightarrow> fst r + snd r \<le> length hs \<and> (\<forall>i. fst r \<le> i \<and> i < fst r + snd r \<longrightarrow> hs ! i = ''0'')"

lemma zero_run_ok:
  "run_ok (pre @ hs) best \<Longrightarrow> run_ok (pre @ hs) cur \<Longrightarrow> snd cur \<noteq> 0 \<longrightarrow> fst cur + snd cur = length pre \<Longrightarrow>
    run_ok (pre @ hs) (zero_run (length pre) hs best cur)"
proof (induction hs arbitrary: pre best cur)
  case (Cons h hs)
  show ?case
  proof (cases "h = ''0''")
    case True
    let ?cur = "(if snd cur = 0 then length pre else fst cur, snd cur + 1)"
    have cur: "run_ok (pre @ h # hs) ?cur"
      using Cons.prems True by (auto simp: run_ok_def nth_append less_Suc_eq)
    have adj: "snd ?cur \<noteq> 0 \<longrightarrow> fst ?cur + snd ?cur = length (pre @ [h])" using Cons.prems(3) by auto
    have best: "run_ok (pre @ h # hs) (if snd best < snd ?cur then ?cur else best)" using cur Cons.prems(1) by simp
    have "run_ok ((pre @ [h]) @ hs) (zero_run (length (pre @ [h])) hs (if snd best < snd ?cur then ?cur else best) ?cur)"
      by (rule Cons.IH) (use best cur adj in simp_all)
    then show ?thesis using True by (simp only: zero_run.simps Let_def if_True simp_thms length_append_singleton Suc_eq_plus1 append_assoc append.simps)
  next
    case False
    have zero: "run_ok (pre @ h # hs) (0, 0)" by (simp add: run_ok_def)
    have "run_ok ((pre @ [h]) @ hs) (zero_run (length (pre @ [h])) hs best (0, 0))"
      by (rule Cons.IH) (use Cons.prems zero in simp_all)
    then show ?thesis using False by simp
  qed
qed simp

lemma zero_run_start: "run_ok hs (zero_run 0 hs (0, 0) (0, 0))"
  using zero_run_ok [of "[]" hs "(0, 0)" "(0, 0)"] by (simp add: run_ok_def)

section \<open>Reading the groups back\<close>

definition groups_value :: "string list \<Rightarrow> int" where
  "groups_value xs = foldl (\<lambda>n x. n * 65536 + hextet_value x) 0 xs"

lemma groups_foldl: "foldl (\<lambda>n x. n * 65536 + hextet_value x) a xs = a * 65536 ^ length xs + groups_value xs"
proof (induction xs arbitrary: a)
  case (Cons x xs)
  have "groups_value (x # xs) = hextet_value x * 65536 ^ length xs + groups_value xs"
    using Cons [of "hextet_value x"] by (simp add: groups_value_def)
  then show ?case using Cons [of "a * 65536 + hextet_value x"] by (simp add: ring_distribs)
qed (simp add: groups_value_def)

lemma groups_append: "groups_value (xs @ ys) = groups_value xs * 65536 ^ length ys + groups_value ys"
proof -
  have "groups_value (xs @ ys) = foldl (\<lambda>n x. n * 65536 + hextet_value x) (groups_value xs) ys"
    by (simp add: groups_value_def)
  then show ?thesis by (simp only: groups_foldl)
qed

lemma groups_Cons: "groups_value (x # xs) = hextet_value x * 65536 ^ length xs + groups_value xs"
  using groups_append [of "[x]" xs] by (simp add: groups_value_def)

lemma read_groups: "list_all hextet_ok xs \<Longrightarrow> read_hextets xs = Some (groups_value xs)"
  by (simp add: read_hextets_def groups_value_def)

lemma groups_zero: "groups_value (replicate n ''0'') = 0"
proof (induction n)
  case (Suc n)
  have "hextet_value ''0'' = 0" by (simp add: hextet_value_def hex_value_def is_digit_def less_eq_char_def)
  with Suc show ?case by (simp add: groups_Cons)
qed (simp add: groups_value_def)

lemma groups_hextets: "0 \<le> n \<Longrightarrow> groups_value (map (\<lambda>k. show_hex (n div 65536 ^ k mod 65536)) (rev [0..<m])) = n mod 65536 ^ m"
proof (induction m)
  case (Suc m)
  have "hextet_value (show_hex (n div 65536 ^ m mod 65536)) = n div 65536 ^ m mod 65536"
    by (rule show_hex_value) simp
  moreover have "n mod 65536 ^ Suc m = n div 65536 ^ m mod 65536 * 65536 ^ m + n mod 65536 ^ m"
    using zmod_zmult2_eq [of 65536 n "65536 ^ m"] by (simp add: mult.commute)
  ultimately show ?case using Suc by (simp add: groups_Cons)
qed (simp add: groups_value_def)

definition groups_ok :: "string list \<Rightarrow> bool" where
  "groups_ok hs \<longleftrightarrow> length hs = 8 \<and> list_all hextet_ok hs"

lemma filter_single: "a \<le> k \<Longrightarrow> k < b \<Longrightarrow> (\<And>i. a \<le> i \<Longrightarrow> i < b \<Longrightarrow> P i \<longleftrightarrow> i = k) \<Longrightarrow> filter P [a..<b] = [k]"
proof -
  assume k: "a \<le> k" "k < b" and P: "\<And>i. a \<le> i \<Longrightarrow> i < b \<Longrightarrow> P i \<longleftrightarrow> i = k"
  have "[a..<b] = [a..<k] @ k # [k + 1..<b]"
    using k upt_add_eq_append [of a k "b - k"] upt_conv_Cons [of k b] by simp
  moreover have "filter P [a..<k] = []" "filter P [k + 1..<b] = []" "P k"
    using k P by (auto simp: filter_empty_conv)
  ultimately show ?thesis by simp
qed

lemma groups_nonempty: "groups_ok hs \<Longrightarrow> x \<in> set hs \<Longrightarrow> x \<noteq> []"
  by (auto simp: groups_ok_def list_all_iff hextet_ok_def)

lemma read_parts_plain:
  assumes ok: "groups_ok hs"
  shows "read_parts hs = Some (groups_value hs)"
proof -
  have ne: "x \<noteq> []" if "x \<in> set hs" for x using groups_nonempty [OF ok that] .
  have len: "length hs = 8" using ok by (simp add: groups_ok_def)
  have "gaps hs = []" using ne len by (auto simp: gaps_def filter_empty_conv)
  moreover have "hs \<noteq> []" using len by auto
  then have "hd hs \<noteq> []" "last hs \<noteq> []" using ne by auto
  ultimately show ?thesis using len ok by (simp add: read_parts_def read_groups groups_ok_def)
qed

lemma read_parts_gap:
  assumes hs: "groups_ok (pre @ replicate l ''0'' @ post)" and l: "2 \<le> l"
  defines "parts \<equiv> (if pre = [] then [[]] else []) @ pre @ [[]] @ post @ (if post = [] then [[]] else [])"
  shows "read_parts parts = Some (groups_value (pre @ replicate l ''0'' @ post))"
proof -
  have len: "length pre + l + length post = 8" using hs by (simp add: groups_ok_def)
  have ne: "x \<noteq> []" if "x \<in> set pre \<union> set post" for x
    using groups_nonempty [OF hs, of x] that by auto
  define k where "k = (if pre = [] then 1 else length pre)"
  have lp: "length parts = k + 1 + length post + (if post = [] then 1 else 0)"
    by (auto simp: parts_def k_def)
  have at: "parts ! i = [] \<longleftrightarrow> i = k" if "1 \<le> i" "i < length parts - 1" for i
  proof (cases "pre = []")
    case True
    then have "parts ! i = (if i = 1 then [] else post ! (i - 2))"
      using that lp by (auto simp: parts_def k_def nth_append nth_Cons split: nat.splits if_splits)
    moreover have "i \<noteq> 1 \<Longrightarrow> post ! (i - 2) \<in> set post" using that lp True by (auto simp: k_def split: if_splits)
    ultimately show ?thesis using ne True by (auto simp: k_def)
  next
    case False
    then have "parts ! i = (if i < length pre then pre ! i else if i = length pre then [] else post ! (i - length pre - 1))"
      using that lp False by (auto simp: parts_def k_def nth_append nth_Cons' diff_diff_eq split: if_splits)
    moreover have "i > length pre \<Longrightarrow> post ! (i - length pre - 1) \<in> set post"
      using that lp False by (auto simp: k_def split: if_splits)
    ultimately show ?thesis using ne False by (auto simp: k_def)
  qed
  have gap: "gaps parts = [k]"
    unfolding gaps_def
  proof (rule filter_single)
    show "1 \<le> k" by (cases pre) (auto simp: k_def)
    show "k < length parts - 1" using lp by (cases post) auto
  qed (rule at)
  have hd: "hd parts = [] \<longleftrightarrow> pre = []" using ne by (cases pre) (auto simp: parts_def)
  have last: "last parts = [] \<longleftrightarrow> post = []"
    using ne by (cases "post = []") (auto simp: parts_def)
  have hi: "(if hd parts = [] then k - 1 else k) = length pre" by (simp add: hd k_def)
  have lo: "(if last parts = [] then length parts - k - 2 else length parts - k - 1) = length post"
    using lp by (simp add: last)
  have take: "take (length pre) parts = pre" by (simp add: parts_def)
  have drop: "drop (length parts - length post) parts = post"
    using lp by (auto simp: parts_def)
  have ok: "list_all hextet_ok pre" "list_all hextet_ok post" using hs by (auto simp: groups_ok_def)
  have "8 - length pre = l + length post" using len by simp
  then have val: "groups_value (pre @ replicate l ''0'' @ post) = groups_value pre * 65536 ^ (8 - length pre) + groups_value post"
    by (simp add: groups_append groups_zero power_add)
  show ?thesis
    unfolding read_parts_def gap list.case Let_def
    unfolding hi lo
    unfolding take drop hd last val read_groups [OF ok(1)] read_groups [OF ok(2)]
    using len l lp by (auto simp: k_def split: if_splits)
qed

lemma compress_reads:
  assumes hs: "groups_ok hs"
  shows "read_parts (compress hs) = Some (groups_value hs)" "3 \<le> length (compress hs)"
    "set (compress hs) \<subseteq> insert [] (set hs)"
proof -
  obtain s l where r: "zero_run 0 hs (0, 0) (0, 0) = (s, l)" by (cases "zero_run 0 hs (0, 0) (0, 0)")
  have run: "s + l \<le> length hs" "\<forall>i. s \<le> i \<and> i < s + l \<longrightarrow> hs ! i = ''0''"
    using zero_run_start [of hs] unfolding r run_ok_def by auto
  have len: "length hs = 8" using hs by (simp add: groups_ok_def)
  have "take l (drop s hs) = replicate l ''0''"
    using run by (intro nth_equalityI) auto
  then have split: "hs = take s hs @ replicate l ''0'' @ drop (s + l) hs"
    by (metis append_take_drop_id drop_drop add.commute)
  have shape: "compress hs = (if 1 < l then (if take s hs = [] then [[]] else []) @ take s hs @ [[]] @ drop (s + l) hs
      @ (if drop (s + l) hs = [] then [[]] else []) else hs)"
    using run len by (auto simp: compress_def r)
  show "read_parts (compress hs) = Some (groups_value hs)"
  proof (cases "1 < l")
    case True
    then show ?thesis
      using read_parts_gap [of "take s hs" l "drop (s + l) hs"] hs split shape by simp
  next
    case False
    then show ?thesis using read_parts_plain [OF hs] shape by simp
  qed
  show "3 \<le> length (compress hs)"
    using len run by (auto simp: shape)
  show "set (compress hs) \<subseteq> insert [] (set hs)"
    using set_take_subset [of s hs] set_drop_subset [of "s + l" hs] by (auto simp: shape)
qed

lemma hextets_facts:
  assumes "0 \<le> n" and "n < 2 ^ 128"
  shows "groups_ok (hextets n)" "groups_value (hextets n) = n"
    "x \<in> set (hextets n) \<Longrightarrow> \<exists>i. 0 \<le> i \<and> i < 65536 \<and> x = show_hex i"
proof -
  have every: "\<exists>i. 0 \<le> i \<and> i < 65536 \<and> x = show_hex i" if "x \<in> set (hextets n)" for x
  proof -
    from that obtain k where "x = show_hex (n div 65536 ^ k mod 65536)" by (auto simp: hextets_def)
    then show ?thesis by (intro exI [of _ "n div 65536 ^ k mod 65536"]) simp
  qed
  then show "x \<in> set (hextets n) \<Longrightarrow> \<exists>i. 0 \<le> i \<and> i < 65536 \<and> x = show_hex i" .
  have "list_all hextet_ok (hextets n)"
    unfolding list_all_iff using every hextet_show(1) by blast
  then show "groups_ok (hextets n)" by (simp add: groups_ok_def hextets_def)
  show "groups_value (hextets n) = n"
    using groups_hextets [OF assms(1), of 8] assms by (simp add: hextets_def)
qed

lemma read_show_v6:
  assumes n: "0 \<le> n" "n < 2 ^ 128"
  shows "read_v6 (show_v6 n) = Some n" "CHR '':'' \<in> set (show_v6 n)"
    "c \<in> set (show_v6 n) \<Longrightarrow> c = CHR '':'' \<or> (\<exists>k < 16. c = hex_char k)"
proof -
  note h = hextets_facts [OF n] and cr = compress_reads [OF hextets_facts(1) [OF n]]
  have chars: "w = [] \<or> (\<exists>i. 0 \<le> i \<and> i < 65536 \<and> w = show_hex i)" if "w \<in> set (compress (hextets n))" for w
    using that cr(3) h(3) by blast
  have ne: "compress (hextets n) \<noteq> []" using cr(2) by auto
  have colon: "\<forall>w \<in> set (compress (hextets n)). CHR '':'' \<notin> set w"
    using chars hextet_show(2) by fastforce
  have split: "split_on (CHR '':'') (show_v6 n) = compress (hextets n)"
    unfolding show_v6_def using ne colon by (rule split_join_char)
  have "CHR ''.'' \<notin> set (last (compress (hextets n)))"
    using chars [of "last (compress (hextets n))"] ne hextet_show(3) by fastforce
  then show "read_v6 (show_v6 n) = Some n"
    using cr(1,2) by (simp add: read_v6_def v6_parts_def split h(2))
  show "CHR '':'' \<in> set (show_v6 n)"
  proof (rule ccontr)
    assume "CHR '':'' \<notin> set (show_v6 n)"
    then have "split_on (CHR '':'') (show_v6 n) = [show_v6 n]" by (rule split_on_word)
    then show False using split cr(2) by simp
  qed
  show "c = CHR '':'' \<or> (\<exists>k < 16. c = hex_char k)" if "c \<in> set (show_v6 n)"
  proof -
    from that have "c = CHR '':'' \<or> (\<exists>w \<in> set (compress (hextets n)). c \<in> set w)"
      using set_join [of "'':''" "compress (hextets n)"] by (auto simp: show_v6_def)
    then show ?thesis using chars show_hex_chars by fastforce
  qed
qed

section \<open>Ranges of addresses\<close>

lemma octet_range: "octet s = Some a \<Longrightarrow> 0 \<le> a \<and> a < 256 \<and> list_all is_digit s"
  by (auto simp: octet_def split: if_splits)

lemma ipv4_Some:
  assumes "ipv4 s = Some (a, b, c, d)"
  obtains w x y z where "split_on (CHR ''.'') s = [w, x, y, z]" "octet w = Some a" "octet x = Some b" "octet y = Some c" "octet z = Some d"
  using assms by (auto simp: ipv4_def split: list.splits option.splits)

lemma read_v4_range: "read_v4 s = Some n \<Longrightarrow> 0 \<le> n \<and> n < 2 ^ 32"
proof -
  assume r: "read_v4 s = Some n"
  then obtain a b c d where i: "ipv4 s = Some (a, b, c, d)" and n: "n = ((a * 256 + b) * 256 + c) * 256 + d"
    by (auto simp: read_v4_def split: option.splits)
  from i obtain w x y z where "octet w = Some a" "octet x = Some b" "octet y = Some c" "octet z = Some d" by (rule ipv4_Some)
  then have "0 \<le> a \<and> a < 256" "0 \<le> b \<and> b < 256" "0 \<le> c \<and> c < 256" "0 \<le> d \<and> d < 256" using octet_range by blast+
  then show ?thesis unfolding n by simp
qed

lemma set_split_on: "set s \<subseteq> insert c (\<Union> (set ` set (split_on c s)))"
proof (induction s)
  case (Cons x s)
  then show ?case by (cases "split_on c s") auto
qed simp

lemma ipv4_no_colon: "ipv4 s = Some p \<Longrightarrow> CHR '':'' \<notin> set s"
proof
  assume i: "ipv4 s = Some p" and c: "CHR '':'' \<in> set s"
  obtain a b c' d where "p = (a, b, c', d)" by (cases p)
  with i obtain w x y z where parts: "split_on (CHR ''.'') s = [w, x, y, z]" "octet w = Some a" "octet x = Some b"
    "octet y = Some c'" "octet z = Some d" using ipv4_Some by metis
  then have "\<forall>ch \<in> set w \<union> set x \<union> set y \<union> set z. is_digit ch" using octet_range by (auto simp: list_all_iff)
  moreover have "CHR '':'' \<in> set w \<union> set x \<union> set y \<union> set z" using c set_split_on [of s "CHR ''.''"] parts(1) by auto
  ultimately have "is_digit (CHR '':'')" by blast
  then show False by (simp add: is_digit_def less_eq_char_def)
qed

lemma hex_value_range: "is_hex_digit c \<Longrightarrow> 0 \<le> hex_value c \<and> hex_value c < 16"
proof -
  assume h: "is_hex_digit c"
  define n where "n = (of_char c :: nat)"
  have i: "(of_char c :: int) = int n" unfolding n_def by (rule of_nat_of_char [symmetric])
  have "(48 \<le> n \<and> n \<le> 57) \<or> (97 \<le> n \<and> n \<le> 102) \<or> (65 \<le> n \<and> n \<le> 70)"
    using h by (auto simp: is_hex_digit_def is_hex_def is_digit_def less_eq_char_def n_def)
  then show ?thesis
    unfolding hex_value_def i is_digit_def less_eq_char_def n_def [symmetric] by auto
qed

lemma hextet_value_range: "list_all is_hex_digit s \<Longrightarrow> 0 \<le> hextet_value s \<and> hextet_value s < 16 ^ length s"
proof (induction s rule: rev_induct)
  case (snoc c s)
  then have "0 \<le> hextet_value s \<and> hextet_value s < 16 ^ length s" "0 \<le> hex_value c \<and> hex_value c < 16"
    using hex_value_range by auto
  then show ?case by (simp add: hextet_value_def)
qed (simp add: hextet_value_def)

lemma hextet_ok_range: "hextet_ok s \<Longrightarrow> 0 \<le> hextet_value s \<and> hextet_value s < 65536"
proof -
  assume ok: "hextet_ok s"
  then have "(16::int) ^ length s \<le> 16 ^ 4" by (intro power_increasing) (auto simp: hextet_ok_def)
  then show ?thesis using hextet_value_range [of s] ok by (auto simp: hextet_ok_def)
qed

lemma groups_range: "list_all hextet_ok xs \<Longrightarrow> 0 \<le> groups_value xs \<and> groups_value xs < 65536 ^ length xs"
proof (induction xs rule: rev_induct)
  case (snoc x xs)
  then have "0 \<le> groups_value xs \<and> groups_value xs < 65536 ^ length xs" "0 \<le> hextet_value x \<and> hextet_value x < 65536"
    using hextet_ok_range by auto
  then show ?case by (simp add: groups_append groups_Cons) (simp add: groups_value_def)
qed (simp add: groups_value_def)

lemma read_hextets_range: "read_hextets xs = Some n \<Longrightarrow> 0 \<le> n \<and> n < 65536 ^ length xs"
  using groups_range [of xs] by (auto simp: read_hextets_def groups_value_def split: if_splits)

lemma gap_value_range:
  assumes a: "0 \<le> a" "a < 65536 ^ h" and b: "0 \<le> b" "b < 65536 ^ l" and hl: "h + l < 8"
  shows "0 \<le> a * 65536 ^ (8 - h) + b \<and> a * 65536 ^ (8 - h) + b < (65536 :: int) ^ 8"
proof -
  have "(65536::int) ^ l \<le> 65536 ^ (8 - h)" using hl by (intro power_increasing) auto
  then have b': "b < 65536 ^ (8 - h)" using b(2) by linarith
  have "(a + 1) * 65536 ^ (8 - h) \<le> 65536 ^ h * (65536::int) ^ (8 - h)" using a by (intro mult_right_mono) auto
  also have "\<dots> = 65536 ^ 8" using hl by (simp flip: power_add)
  finally have "a * 65536 ^ (8 - h) + 65536 ^ (8 - h) \<le> (65536::int) ^ 8" by (simp add: ring_distribs)
  then show ?thesis using a b b' by simp
qed

lemma read_parts_range: "read_parts parts = Some n \<Longrightarrow> 0 \<le> n \<and> n < 65536 ^ 8"
proof -
  assume r: "read_parts parts = Some n"
  show ?thesis
  proof (cases "gaps parts")
    case Nil
    then have "length parts = 8" "read_hextets parts = Some n" using r by (auto simp: read_parts_def split: if_splits)
    then show ?thesis using read_hextets_range [of parts n] by simp
  next
    case (Cons k ks)
    then have "ks = []" using r by (cases ks) (auto simp: read_parts_def split: if_splits)
    define hi where "hi = (if hd parts = [] then k - 1 else k)"
    define lo where "lo = (if last parts = [] then length parts - k - 2 else length parts - k - 1)"
    from r Cons \<open>ks = []\<close> obtain a b where ab: "read_hextets (take hi parts) = Some a"
      "read_hextets (drop (length parts - lo) parts) = Some b" "n = a * 65536 ^ (8 - hi) + b" "hi + lo < 8"
      unfolding read_parts_def by (auto simp: Let_def hi_def [symmetric] lo_def [symmetric] split: if_splits option.splits)
    have "k \<in> set (gaps parts)" using Cons by simp
    then have k: "1 \<le> k" "k < length parts - 1" by (auto simp: gaps_def)
    have "length (take hi parts) = hi" "length (drop (length parts - lo) parts) = lo"
      using k by (auto simp: hi_def lo_def)
    then show ?thesis
      using read_hextets_range [OF ab(1)] read_hextets_range [OF ab(2)] ab(4) unfolding ab(3)
      by (intro gap_value_range [of _ hi _ lo]) auto
  qed
qed

lemma read_address_range: "read_address s = Some (f, n) \<Longrightarrow> 0 \<le> n \<and> n < 2 ^ bits f"
  using read_v4_range [of s n] read_parts_range [of _ n]
  by (auto simp: read_address_def read_v6_def split: option.splits)

lemma literal_network_ok: "literal_network s = Some n \<Longrightarrow> network_ok n"
  using read_address_range [of s] read_address_range [of "hd (split_on (CHR ''/'') s)"]
  by (auto simp: literal_network_def network_ok_def Let_def host_count_def split: if_splits list.splits option.splits)

section \<open>Canonical targets\<close>

lemma read_show_address:
  assumes "0 \<le> n" and "n < 2 ^ bits f"
  shows "read_address (show_address f n) = Some (f, n)"
proof (cases f)
  case V4
  then show ?thesis using read_show_v4(1) [of n] assms by (simp add: read_address_def show_address_def)
next
  case V6
  then have n: "0 \<le> n" "n < 2 ^ 128" using assms by simp_all
  have "ipv4 (show_v6 n) = None" using ipv4_no_colon read_show_v6(2) [OF n] by (cases "ipv4 (show_v6 n)") auto
  then show ?thesis using read_show_v6(1) [OF n] V6 by (simp add: read_address_def read_v4_def show_address_def)
qed

definition address_char :: "char \<Rightarrow> bool" where
  "address_char c \<longleftrightarrow> c \<in> set '':./0123456789abcdef''"

lemma address_char_facts: "address_char c \<Longrightarrow> c \<noteq> CHR ''%'' \<and> \<not> whitespace c"
  by (auto simp: address_char_def whitespace_def)

lemma hex_char_address: "n < 16 \<Longrightarrow> address_char (hex_char n) \<and> hex_char n \<noteq> CHR ''/''"
proof -
  have "list_all (\<lambda>n. address_char (hex_char n) \<and> hex_char n \<noteq> CHR ''/'') [0..<16]" by code_simp
  then show "n < 16 \<Longrightarrow> address_char (hex_char n) \<and> hex_char n \<noteq> CHR ''/''" by (auto simp: list_all_iff)
qed

lemma digit_address: "is_digit c \<Longrightarrow> address_char c \<and> c \<noteq> CHR ''/''"
proof -
  assume "is_digit c"
  then have n: "48 \<le> (of_char c :: nat)" "(of_char c :: nat) \<le> 57" by (simp_all add: is_digit_iff)
  then have "of_char c - 48 < (10 :: nat)" by simp
  then have "address_char (digit_char (of_char c - 48)) \<and> digit_char (of_char c - 48) \<noteq> CHR ''/''"
  proof -
    have "list_all (\<lambda>n. address_char (digit_char n) \<and> digit_char n \<noteq> CHR ''/'') [0..<10]" by code_simp
    then show ?thesis using \<open>of_char c - 48 < (10 :: nat)\<close> by (auto simp: list_all_iff)
  qed
  moreover have "digit_char (of_char c - 48) = c" using n by (simp add: digit_char_def)
  ultimately show ?thesis by simp
qed

lemma length_join_le: "\<forall>w \<in> set ws. length w \<le> m \<Longrightarrow> length (join [c] ws) \<le> length ws * (m + 1)"
proof (induction "[c]" ws rule: join.induct)
  case (3 x y xs)
  then have "length x \<le> m" "length (join [c] (y # xs)) \<le> length (y # xs) * (m + 1)" by auto
  then show ?case by simp
qed auto

lemma show_address_shape:
  assumes "0 \<le> n" and "n < 2 ^ bits f"
  shows "\<forall>c \<in> set (show_address f n). address_char c \<and> c \<noteq> CHR ''/''" "length (show_address f n) \<le> 60"
    "show_address f n \<noteq> []"
proof -
  have "(\<forall>c \<in> set (show_address f n). address_char c \<and> c \<noteq> CHR ''/'') \<and> length (show_address f n) \<le> 60"
  proof (cases f)
    case V4
    then have n: "0 \<le> n" "n < 2 ^ 32" using assms by simp_all
    obtain a b c d where o: "n div 2 ^ 24 = a" "n div 2 ^ 16 mod 256 = b" "n div 2 ^ 8 mod 256 = c" "n mod 256 = d"
      "0 \<le> a" "a < 256" "0 \<le> b" "b < 256" "0 \<le> c" "c < 256" "0 \<le> d" "d < 256"
      by (rule four_octets [OF n])
    have s: "show_address f n = join ''.'' (map show_int [a, b, c, d])"
      unfolding V4 show_address_def show_v4_def o(1-4) by simp
    have w: "(\<forall>ch \<in> set (show_int i). is_digit ch) \<and> length (show_int i) \<le> 3" if "0 \<le> i" "i < 256" for i
      using that show_pos_digits [of i] length_show_int [of i 3] by (simp add: show_int_def)
    have ws: "\<forall>w \<in> set (map show_int [a, b, c, d]). (\<forall>ch \<in> set w. is_digit ch) \<and> length w \<le> 3"
      using w [OF o(5,6)] w [OF o(7,8)] w [OF o(9,10)] w [OF o(11,12)] by auto
    have "\<forall>ch \<in> set (show_address f n). address_char ch \<and> ch \<noteq> CHR ''/''"
    proof
      fix ch assume "ch \<in> set (show_address f n)"
      then consider "ch = CHR ''.''" | "is_digit ch"
        using ws set_join [of "''.''" "map show_int [a, b, c, d]"] unfolding s by fastforce
      then show "address_char ch \<and> ch \<noteq> CHR ''/''" by cases (auto simp: address_char_def dest: digit_address)
    qed
    moreover have "length (show_address f n) \<le> 4 * (3 + 1)"
      using length_join_le [of "map show_int [a, b, c, d]" 3 "CHR ''.''"] ws unfolding s by simp
    ultimately show ?thesis by simp
  next
    case V6
    then have n: "0 \<le> n" "n < 2 ^ 128" using assms by simp_all
    have s: "show_address f n = show_v6 n" by (simp add: V6 show_address_def)
    have "length w \<le> 4" if "w \<in> set (compress (hextets n))" for w
    proof (cases "w = []")
      case False
      then have "w \<in> set (hextets n)" using that compress_reads(3) [OF hextets_facts(1) [OF n]] by auto
      then obtain i where "0 \<le> i" "i < 65536" "w = show_hex i" using hextets_facts(3) [OF n] by blast
      then show ?thesis using hextet_show(1) [of i] by (simp add: hextet_ok_def)
    qed simp
    moreover have "length (compress (hextets n)) \<le> 11"
      using hextets_facts(1) [OF n] by (auto simp: compress_def groups_ok_def split: prod.splits)
    ultimately have "length (show_v6 n) \<le> 11 * (4 + 1)"
      using length_join_le [of "compress (hextets n)" 4 "CHR '':''"] unfolding show_v6_def
      by (meson le_trans mult_le_mono1)
    moreover have "\<forall>ch \<in> set (show_v6 n). address_char ch \<and> ch \<noteq> CHR ''/''"
      using read_show_v6(3) [OF n] hex_char_address by (force simp: address_char_def)
    ultimately show ?thesis by (simp add: s)
  qed
  then show "\<forall>c \<in> set (show_address f n). address_char c \<and> c \<noteq> CHR ''/''" "length (show_address f n) \<le> 60" by auto
  show "show_address f n \<noteq> []"
    using read_show_address [OF assms] by (auto simp: read_address_def read_v4_def ipv4_def octet_def read_v6_def v6_parts_def)
qed

lemma prefix_show:
  assumes "p \<le> 128"
  shows "prefix_text_ok (show_int (int p))" "read_nat 0 (show_int (int p)) = p" "CHR ''/'' \<notin> set (show_int (int p))"
    "\<forall>c \<in> set (show_int (int p)). address_char c" "length (show_int (int p)) \<le> 3" "show_int (int p) \<noteq> []"
proof -
  have s: "show_int (int p) = show_pos (int p)" by (simp add: show_int_def)
  have d: "\<forall>c \<in> set (show_pos (int p)). is_digit c" by (rule show_pos_digits) simp
  have l: "length (show_pos (int p)) \<le> 3" using length_show_pos [of "int p" 3] assms by simp
  show "prefix_text_ok (show_int (int p))"
  proof (cases "p = 0")
    case True
    have "show_pos 0 = ''0''" by code_simp
    then show ?thesis unfolding s using True by (simp add: prefix_text_ok_def)
  next
    case False
    then show ?thesis using d l hd_show_digit [of "int p"] show_pos_nonempty [of "int p"]
      by (cases "show_pos (int p)") (auto simp: s prefix_text_ok_def list_all_iff)
  qed
  show "read_nat 0 (show_int (int p)) = p" by (simp add: s read_show_pos)
  show "CHR ''/'' \<notin> set (show_int (int p))" "\<forall>c \<in> set (show_int (int p)). address_char c"
    using d digit_address by (auto simp: s)
  show "length (show_int (int p)) \<le> 3" "show_int (int p) \<noteq> []" using l show_pos_nonempty by (simp_all add: s)
qed

lemma literal_show_network:
  assumes ok: "network_ok n"
  shows "literal_network (show_network n) = Some n"
proof -
  have r: "0 \<le> nw_base n" "nw_base n < 2 ^ bits (nw_family n)" "nw_prefix n \<le> bits (nw_family n)" "nw_base n mod host_count n = 0"
    using ok by (simp_all add: network_ok_def)
  have p: "nw_prefix n \<le> 128" using r(3) by (cases "nw_family n") auto
  have "CHR ''/'' \<notin> set (show_address (nw_family n) (nw_base n))" using show_address_shape(1) [OF r(1,2)] by auto
  then have split: "split_on (CHR ''/'') (show_network n) = [show_address (nw_family n) (nw_base n), show_int (int (nw_prefix n))]"
    using prefix_show(3) [OF p] by (simp add: show_network_def split_on_cons split_on_word)
  have self: "\<lparr>nw_family = nw_family n, nw_base = nw_base n, nw_prefix = nw_prefix n\<rparr> = n" by simp
  have "CHR ''/'' \<in> set (show_network n)" by (simp add: show_network_def)
  then show ?thesis
    using r by (simp add: literal_network_def split prefix_show(1,2) [OF p] read_show_address [OF r(1,2)] Let_def self)
qed

lemma literal_show_address:
  assumes ok: "network_ok n" and full: "nw_prefix n = bits (nw_family n)"
  shows "literal_network (show_address (nw_family n) (nw_base n)) = Some n"
proof -
  have r: "0 \<le> nw_base n" "nw_base n < 2 ^ bits (nw_family n)" using ok by (simp_all add: network_ok_def)
  have "CHR ''/'' \<notin> set (show_address (nw_family n) (nw_base n))" using show_address_shape(1) [OF r] by auto
  then show ?thesis using full by (simp add: literal_network_def read_show_address [OF r] network.equality)
qed

lemma target_textI:
  assumes "\<forall>c \<in> set t. address_char c" and "1 \<le> length t" and "length t \<le> 80" and "literal_network t = Some n"
    and "\<not> list_ex (overlaps n) (forbidden (nw_family n))"
  shows "target_network (PStr t) = Inr n"
proof -
  have "hd t \<in> set t" "last t \<in> set t" using assms(2) by (cases t; simp)+
  then have "CHR ''%'' \<notin> set t" "stripped t" using assms(1) address_char_facts by (auto simp: stripped_def)
  then show ?thesis using assms by (simp add: target_network_def)
qed

lemma target_network_Inr:
  assumes "target_network v = Inr n"
  obtains s where "v = PStr s" "literal_network s = Some n" "network_ok n" "\<not> list_ex (overlaps n) (forbidden (nw_family n))"
  using assms literal_network_ok by (cases v) (auto simp: target_network_def res_simps split: option.splits)

lemma canonical_target_stable:
  assumes "canonical_target v = Inr t"
  shows "target_network (PStr t) = target_network v" "canonical_target (PStr t) = Inr t"
proof -
  from assms obtain n where n: "target_network v = Inr n"
    and t: "t = (if CHR ''/'' \<in> set (the_str v) then show_network n else show_address (nw_family n) (nw_base n))"
    by (auto simp: canonical_target_def res_simps)
  from n obtain s where v: "v = PStr s" and lit: "literal_network s = Some n" and ok: "network_ok n"
    and f: "\<not> list_ex (overlaps n) (forbidden (nw_family n))" by (rule target_network_Inr)
  have r: "0 \<le> nw_base n" "nw_base n < 2 ^ bits (nw_family n)" "nw_prefix n \<le> 128"
    using ok by (cases "nw_family n"; simp add: network_ok_def)+
  note a = show_address_shape [OF r(1,2)] and p = prefix_show [OF r(3)]
  have slash: "address_char (CHR ''/'')" by (simp add: address_char_def)
  have net: "target_network (PStr (show_network n)) = Inr n"
  proof (rule target_textI [OF _ _ _ literal_show_network [OF ok] f])
    show "\<forall>c \<in> set (show_network n). address_char c"
      using a(1) p(4) slash by (auto simp: show_network_def)
    show "1 \<le> length (show_network n)" by (simp add: show_network_def)
    show "length (show_network n) \<le> 80" using a(2) p(5) unfolding show_network_def length_append by simp
  qed
  have adr: "target_network (PStr (show_address (nw_family n) (nw_base n))) = Inr n" if "CHR ''/'' \<notin> set s"
  proof (rule target_textI [OF _ _ _ literal_show_address [OF ok] f])
    show "nw_prefix n = bits (nw_family n)"
      using lit that by (auto simp: literal_network_def split: option.splits)
  qed (use a in \<open>auto simp: Suc_le_eq\<close>)
  have sl: "CHR ''/'' \<in> set (show_network n)" "CHR ''/'' \<notin> set (show_address (nw_family n) (nw_base n))"
    using a by (auto simp: show_network_def)
  show "target_network (PStr t) = target_network v" using net adr n t v by auto
  then show "canonical_target (PStr t) = Inr t" using n t v sl by (auto simp: canonical_target_def)
qed

end
