(* ===== verification/ActionModel.thy ===== *)
theory ActionModel
  imports ToolRegistry IpPrint
begin

text \<open>
  The messages at the boundary between the untrusted planner and the policy
  (\<open>secure_agent/models.py\<close>): actions, policies, their parsing, digests and the policy decision;
  also the compiled argument vector of the pinned nmap profile (\<open>tool_adapters.py\<close>). A parsed
  value is a record; \<open>schema_version\<close> is always \<open>1\<close> and kept only in the printed form. SHA-256
  is the parameter \<open>H\<close>.
\<close>

section \<open>Actions\<close>

record action =
  ac_id :: string
  ac_tool :: string
  ac_target :: string
  ac_parameters :: parameters
  ac_rationale :: string

definition NMAP_TOOL_ID :: string where "NMAP_TOOL_ID = ''nmap_tcp_connect_v1''"

definition ACTION_FIELDS :: "string list" where
  "ACTION_FIELDS = [''schema_version'', ''action_id'', ''tool_id'', ''target'', ''parameters'', ''rationale'']"

text \<open>\<open>Action.__post_init__\<close>; the adapter and its parsed parameters are given.\<close>

definition make_action :: "pyval \<Rightarrow> tool_adapter \<Rightarrow> parameters \<Rightarrow> string + action" where
  "make_action v a p =
    bindE (require (item v ''schema_version'' = PStr ''1'') ''unsupported_action_schema'') (\<lambda>_.
    bindE (check_string (item v ''action_id'') ''action_id'' 36 36) (\<lambda>action_id.
    bindE (require (canonical_uuid action_id) ''invalid_action_id'') (\<lambda>_.
    bindE (canonical_target (item v ''target'')) (\<lambda>target.
    bindE (require (class_of p = ad_class a) ''invalid_parameters'') (\<lambda>_.
    bindE (target_network (PStr target)) (\<lambda>network.
    bindE (require (\<not> (ad_tool a = NMAP_TOOL_ID \<and> (CHR ''/'' \<in> set target \<or> nw_family network \<noteq> V4)))
      ''unsupported_nmap_target'') (\<lambda>_.
    bindE (check_string (item v ''rationale'') ''rationale'' 0 1000) (\<lambda>rationale.
    Inr \<lparr>ac_id = action_id, ac_tool = ad_tool a, ac_target = target, ac_parameters = p, ac_rationale = rationale\<rparr>))))))))"

text \<open>\<open>if type(value) in (str, bytes): value = load_json(value)\<close>.\<close>

definition decoded :: "pyval \<Rightarrow> string + pyval" where
  "decoded v = (if is_str v then load_json v else Inr v)"

definition parse_action :: "pyval \<Rightarrow> string + action" where
  "parse_action raw =
    bindE (decoded raw) (\<lambda>v.
    bindE (check_fields v ACTION_FIELDS ''action'') (\<lambda>_.
    bindE (require (str_in SUPPORTED_TOOLS (item v ''tool_id'')) ''unsupported_tool'') (\<lambda>_.
    bindE (get_adapter (item v ''tool_id'') (PStr ADAPTER_API_VERSION)) (\<lambda>a.
    bindE (parse_parameters a (item v ''parameters'')) (\<lambda>p.
    make_action v a p)))))"

definition action_json :: "action \<Rightarrow> pyval" where
  "action_json c = PDict [(''schema_version'', PStr ''1''), (''action_id'', PStr (ac_id c)), (''tool_id'', PStr (ac_tool c)),
     (''target'', PStr (ac_target c)), (''parameters'', parameters_json (ac_parameters c)), (''rationale'', PStr (ac_rationale c))]"

definition action_digest :: "(string \<Rightarrow> string) \<Rightarrow> action \<Rightarrow> string" where
  "action_digest H c = H (canonical (action_json c))"

text \<open>\<open>action.network\<close>: every action has a target that parses.\<close>

definition action_network :: "action \<Rightarrow> network" where
  "action_network c = (case target_network (PStr (ac_target c)) of Inr n \<Rightarrow> n
     | Inl e \<Rightarrow> \<lparr>nw_family = V4, nw_base = 0, nw_prefix = 0\<rparr>)"

definition MAX_TARGETS :: int where "MAX_TARGETS = 16"

definition action_targets :: "action \<Rightarrow> string + string list" where
  "action_targets c = (let n = action_network c in
    bindE (require (host_count n \<le> MAX_TARGETS) ''too_many_targets'') (\<lambda>_.
    Inr (map (\<lambda>x. show_address (nw_family n) x) [nw_base n..last_address n])))"

section \<open>Policies\<close>

record policy =
  po_version :: string
  po_targets :: "string list"
  po_tools :: "string list"
  po_ports :: "int list"
  po_methods :: "string list"
  po_timeout :: int
  po_output :: int
  po_max_targets :: int
  po_approval :: bool
  po_ttl :: int

definition POLICY_FIELDS :: "string list" where
  "POLICY_FIELDS = [''schema_version'', ''policy_version'', ''allowed_targets'', ''allowed_tools'', ''allowed_ports'',
     ''allowed_methods'', ''max_timeout_seconds'', ''max_output_bytes'', ''max_targets'', ''require_approval'',
     ''approval_ttl_seconds'']"

definition SUPPORTED_POLICY_METHODS :: "string list" where
  "SUPPORTED_POLICY_METHODS = SUPPORTED_METHODS @ [''OPTIONS'']"

text \<open>\<open>[A-Za-z0-9][A-Za-z0-9_.-]*\<close>.\<close>

definition version_text :: "string \<Rightarrow> bool" where
  "version_text s \<longleftrightarrow> s \<noteq> [] \<and> is_alnum (hd s) \<and> list_all (\<lambda>c. is_alnum c \<or> c \<in> set ''_.-'') s"

definition unique :: "'a list \<Rightarrow> string \<Rightarrow> string + unit" where
  "unique xs name = require (distinct xs) (''duplicate_'' @ name)"

definition short :: "pyval \<Rightarrow> string \<Rightarrow> string + unit" where
  "short v name = require (length (elements v) \<le> 64) (''invalid_'' @ name)"

definition make_policy :: "pyval \<Rightarrow> string + policy" where
  "make_policy v =
    bindE (require (item v ''schema_version'' = PStr ''1'') ''unsupported_policy_schema'') (\<lambda>_.
    bindE (check_string (item v ''policy_version'') ''policy_version'' 1 64) (\<lambda>version.
    bindE (require (version_text version) ''invalid_policy_version'') (\<lambda>_.
    bindE (short (item v ''allowed_targets'') ''allowed_targets'') (\<lambda>_.
    bindE (short (item v ''allowed_tools'') ''allowed_tools'') (\<lambda>_.
    bindE (short (item v ''allowed_ports'') ''allowed_ports'') (\<lambda>_.
    bindE (short (item v ''allowed_methods'') ''allowed_methods'') (\<lambda>_.
    bindE (mapE canonical_target (elements (item v ''allowed_targets''))) (\<lambda>targets.
    bindE (mapE (\<lambda>t. bindE (require (str_in SUPPORTED_TOOLS t) ''unsupported_policy_tool'') (\<lambda>_. Inr (the_str t)))
      (elements (item v ''allowed_tools''))) (\<lambda>tools.
    bindE (mapE (\<lambda>p. check_int p ''policy_port'' 1 65535) (elements (item v ''allowed_ports''))) (\<lambda>ports.
    bindE (mapE (\<lambda>m. bindE (require (str_in SUPPORTED_POLICY_METHODS m) ''unsupported_policy_method'') (\<lambda>_. Inr (the_str m)))
      (elements (item v ''allowed_methods''))) (\<lambda>methods.
    bindE (unique targets ''allowed_targets'') (\<lambda>_.
    bindE (unique tools ''allowed_tools'') (\<lambda>_.
    bindE (unique ports ''allowed_ports'') (\<lambda>_.
    bindE (unique methods ''allowed_methods'') (\<lambda>_.
    bindE (check_int (item v ''max_timeout_seconds'') ''policy_timeout'' 1 MAX_TIMEOUT_SECONDS) (\<lambda>timeout.
    bindE (check_int (item v ''max_output_bytes'') ''policy_output_limit'' 1 MAX_OUTPUT_BYTES) (\<lambda>output.
    bindE (check_int (item v ''max_targets'') ''policy_max_targets'' 1 MAX_TARGETS) (\<lambda>max_targets.
    bindE (require (item v ''require_approval'' \<in> {PBool True, PBool False}) ''invalid_require_approval'') (\<lambda>_.
    bindE (check_int (item v ''approval_ttl_seconds'') ''approval_ttl_seconds'' 1 300) (\<lambda>ttl.
    Inr \<lparr>po_version = version, po_targets = targets, po_tools = tools, po_ports = ports, po_methods = methods,
      po_timeout = timeout, po_output = output, po_max_targets = max_targets,
      po_approval = (item v ''require_approval'' = PBool True), po_ttl = ttl\<rparr>))))))))))))))))))))"

definition listed :: "pyval \<Rightarrow> string \<Rightarrow> string + unit" where
  "listed v name = require (is_list (item v name)) (''invalid_'' @ name)"

definition parse_policy :: "pyval \<Rightarrow> string + policy" where
  "parse_policy raw =
    bindE (decoded raw) (\<lambda>v.
    bindE (check_fields v POLICY_FIELDS ''policy'') (\<lambda>_.
    bindE (listed v ''allowed_targets'') (\<lambda>_.
    bindE (listed v ''allowed_tools'') (\<lambda>_.
    bindE (listed v ''allowed_ports'') (\<lambda>_.
    bindE (listed v ''allowed_methods'') (\<lambda>_.
    make_policy v))))))"

definition policy_json :: "policy \<Rightarrow> pyval" where
  "policy_json p = PDict [(''schema_version'', PStr ''1''), (''policy_version'', PStr (po_version p)),
     (''allowed_targets'', PList (map PStr (po_targets p))), (''allowed_tools'', PList (map PStr (po_tools p))),
     (''allowed_ports'', PList (map PInt (po_ports p))), (''allowed_methods'', PList (map PStr (po_methods p))),
     (''max_timeout_seconds'', PInt (po_timeout p)), (''max_output_bytes'', PInt (po_output p)),
     (''max_targets'', PInt (po_max_targets p)), (''require_approval'', PBool (po_approval p)),
     (''approval_ttl_seconds'', PInt (po_ttl p))]"

definition policy_digest :: "(string \<Rightarrow> string) \<Rightarrow> policy \<Rightarrow> string" where
  "policy_digest H p = H (canonical (policy_json p))"

section \<open>The decision\<close>

datatype decision = Deny "string list" | Approval_required | Allow

fun decision_name :: "decision \<Rightarrow> string" where
  "decision_name (Deny rs) = ''deny''"
| "decision_name Approval_required = ''approval_required''"
| "decision_name Allow = ''allow''"

fun decision_reasons :: "decision \<Rightarrow> string list" where
  "decision_reasons (Deny rs) = rs"
| "decision_reasons Approval_required = [''human_approval_required'']"
| "decision_reasons Allow = [''policy_allows_action'']"

definition METHOD_TOOLS :: "string list" where
  "METHOD_TOOLS = [''http_probe'', ''http_headers_v1'', ''curl_https_get_v1'', ''configurable_http_headers_v1'']"

definition GET_TOOLS :: "string list" where
  "GET_TOOLS = [''nuclei_git_head_v1'', ''nuclei_directory_listing_v1'', ''ffuf_content_discovery_v1'', ''curl_docker_ping_v1'',
     ''curl_docker_version_v1'', ''curl_winrm_metadata_v1'', ''nmap_service_identify_v1'', ''configurable_nmap_service_v1'']"

definition policy_networks :: "policy \<Rightarrow> network list" where
  "policy_networks p = concat (map (\<lambda>t. case target_network (PStr t) of Inr n \<Rightarrow> [n] | Inl e \<Rightarrow> []) (po_targets p))"

text \<open>The checks in the order of the code, each with its reason.\<close>

definition objections :: "policy \<Rightarrow> action \<Rightarrow> (bool \<times> string) list" where
  "objections p c = (let n = action_network c; b = bounds_of (ac_parameters c) in
    [(ac_tool c \<notin> set (po_tools p), ''tool_not_allowed''),
     (\<not> list_ex (\<lambda>m. nw_family n = nw_family m \<and> subnet_of n m) (policy_networks p), ''target_out_of_scope''),
     (host_count n > po_max_targets p, ''too_many_targets''),
     (pb_port b \<notin> set (po_ports p), ''port_not_allowed''),
     (ac_tool c \<in> set METHOD_TOOLS \<and> method_of (ac_parameters c) \<notin> set (po_methods p), ''method_not_allowed''),
     (ac_tool c \<in> set GET_TOOLS \<and> ''GET'' \<notin> set (po_methods p), ''method_not_allowed''),
     (ac_tool c = ''curl_http_options_v1'' \<and> ''OPTIONS'' \<notin> set (po_methods p), ''method_not_allowed''),
     (pb_timeout b > po_timeout p, ''timeout_exceeds_policy''),
     (pb_output b > po_output p, ''output_limit_exceeds_policy'')])"

definition evaluate :: "policy \<Rightarrow> action \<Rightarrow> decision" where
  "evaluate p c = (let reasons = map snd (filter fst (objections p c)) in
    if reasons \<noteq> [] then Deny reasons
    else if po_approval p then Approval_required
    else Allow)"

section \<open>The nmap argument vector\<close>

definition compile_nmap_argv :: "action \<Rightarrow> string + string list" where
  "compile_nmap_argv forged =
    bindE (parse_action (action_json forged)) (\<lambda>c.
    bindE (require (ac_tool c = NMAP_TOOL_ID \<and> ac_target c = ''127.0.0.1''
       \<and> py_eq (parameters_json (ac_parameters c))
           (PDict [(''port'', PInt 8080), (''timeout_seconds'', PInt 5), (''max_output_bytes'', PInt 16384)]))
      ''unsupported_nmap_execution_profile'') (\<lambda>_.
    Inr [''/tool/nmap'', ''--unprivileged'', ''-sT'', ''-Pn'', ''-n'', ''-p'', ''8080'', ''--max-retries'', ''0'',
      ''--max-parallelism'', ''1'', ''--host-timeout'', ''3s'', ''--datadir'', ''/tool/data'', ''--no-stylesheet'',
      ''-oX'', ''-'', ''127.0.0.1'']))"

end
