(* ===== verification/ActionFacts.thy ===== *)
theory ActionFacts
  imports ActionModel
begin

text \<open>
  Parsed actions and policies are well formed, print to values that parse to them again, in any
  key order and through JSON text, and their canonical texts determine them.
\<close>

section \<open>Well-formed actions\<close>

definition action_ok :: "action \<Rightarrow> bool" where
  "action_ok c \<longleftrightarrow> parse_action (action_json c) = Inr c"

lemma action_items:
  "item (action_json c) ''schema_version'' = PStr ''1''" "item (action_json c) ''action_id'' = PStr (ac_id c)"
  "item (action_json c) ''tool_id'' = PStr (ac_tool c)" "item (action_json c) ''target'' = PStr (ac_target c)"
  "item (action_json c) ''parameters'' = parameters_json (ac_parameters c)"
  "item (action_json c) ''rationale'' = PStr (ac_rationale c)"
  by (simp_all add: action_json_def item_PDict)

lemma action_fields: "check_fields (action_json c) ACTION_FIELDS name = Inr ()"
  by (simp add: res_simps action_json_def same_fields_def ACTION_FIELDS_def fields_of_def)

lemma decoded_action: "decoded (action_json c) = Inr (action_json c)"
  by (simp add: decoded_def action_json_def)

lemma make_action_Inr:
  "make_action v a p = Inr c \<longleftrightarrow>
    item v ''schema_version'' = PStr ''1'' \<and> item v ''action_id'' = PStr (ac_id c) \<and> length (ac_id c) = 36
    \<and> canonical_uuid (ac_id c) \<and> canonical_target (item v ''target'') = Inr (ac_target c) \<and> class_of p = ad_class a
    \<and> (\<exists>n. target_network (PStr (ac_target c)) = Inr n
        \<and> \<not> (ad_tool a = NMAP_TOOL_ID \<and> (CHR ''/'' \<in> set (ac_target c) \<or> nw_family n \<noteq> V4)))
    \<and> item v ''rationale'' = PStr (ac_rationale c) \<and> length (ac_rationale c) \<le> 1000
    \<and> ac_tool c = ad_tool a \<and> ac_parameters c = p"
  by (cases c) (auto simp: make_action_def res_simps)

lemma parse_action_Inr:
  "parse_action raw = Inr c \<longleftrightarrow> (\<exists>v a. decoded raw = Inr v \<and> is_dict v \<and> same_fields v ACTION_FIELDS
     \<and> a \<in> set ADAPTERS \<and> item v ''tool_id'' = PStr (ad_tool a)
     \<and> parse_parameters a (item v ''parameters'') = Inr (ac_parameters c) \<and> make_action v a (ac_parameters c) = Inr c)"
proof
  assume "parse_action raw = Inr c"
  then obtain v a p where "decoded raw = Inr v" "is_dict v \<and> same_fields v ACTION_FIELDS"
    and g: "get_adapter (item v ''tool_id'') (PStr ADAPTER_API_VERSION) = Inr a"
    and p: "parse_parameters a (item v ''parameters'') = Inr p" and m: "make_action v a p = Inr c"
    unfolding parse_action_def by (auto simp: res_simps)
  moreover have "p = ac_parameters c" using m by (simp add: make_action_Inr)
  ultimately show "\<exists>v a. decoded raw = Inr v \<and> is_dict v \<and> same_fields v ACTION_FIELDS
     \<and> a \<in> set ADAPTERS \<and> item v ''tool_id'' = PStr (ad_tool a)
     \<and> parse_parameters a (item v ''parameters'') = Inr (ac_parameters c) \<and> make_action v a (ac_parameters c) = Inr c"
    by (auto simp: get_adapter_Inr)
next
  assume "\<exists>v a. decoded raw = Inr v \<and> is_dict v \<and> same_fields v ACTION_FIELDS
     \<and> a \<in> set ADAPTERS \<and> item v ''tool_id'' = PStr (ad_tool a)
     \<and> parse_parameters a (item v ''parameters'') = Inr (ac_parameters c) \<and> make_action v a (ac_parameters c) = Inr c"
  then obtain v a where v: "decoded raw = Inr v" "is_dict v" "same_fields v ACTION_FIELDS"
    and a: "a \<in> set ADAPTERS" "item v ''tool_id'' = PStr (ad_tool a)"
    and p: "parse_parameters a (item v ''parameters'') = Inr (ac_parameters c)" "make_action v a (ac_parameters c) = Inr c"
    by blast
  have g: "get_adapter (item v ''tool_id'') (PStr ADAPTER_API_VERSION) = Inr a" using a by (simp add: get_adapter_Inr)
  have f: "check_fields v ACTION_FIELDS ''action'' = Inr ()" using v by (simp add: res_simps)
  have t: "str_in SUPPORTED_TOOLS (item v ''tool_id'')" using a by (simp add: SUPPORTED_TOOLS_def)
  show "parse_action raw = Inr c" unfolding parse_action_def by (simp add: v f t g p)
qed

theorem parse_action_ok:
  assumes "parse_action raw = Inr c"
  shows "action_ok c"
proof -
  obtain v a where a: "a \<in> set ADAPTERS" and p: "parse_parameters a (item v ''parameters'') = Inr (ac_parameters c)"
    and m: "make_action v a (ac_parameters c) = Inr c" using assms by (auto simp: parse_action_Inr)
  have t: "canonical_target (item v ''target'') = Inr (ac_target c)" "ac_tool c = ad_tool a"
    using m by (auto simp: make_action_Inr)
  have "make_action (action_json c) a (ac_parameters c) = Inr c"
    using m canonical_target_stable(2) [OF t(1)] by (simp add: make_action_Inr action_items)
  moreover have "is_dict (action_json c)" "same_fields (action_json c) ACTION_FIELDS"
    using action_fields [of c "[]"] by (simp_all add: res_simps)
  ultimately show ?thesis
    using a t(2) parse_parameters_again(1) [OF p a] decoded_action [of c]
    unfolding action_ok_def parse_action_Inr by (intro exI [of _ "action_json c"] exI [of _ a]) (simp add: action_items)
qed

lemma action_okE:
  assumes "action_ok c"
  obtains a n where "a \<in> set ADAPTERS" "ac_tool c = ad_tool a" "class_of (ac_parameters c) = ad_class a"
    "parse_parameters a (parameters_json (ac_parameters c)) = Inr (ac_parameters c)"
    "canonical_uuid (ac_id c)" "length (ac_id c) = 36" "length (ac_rationale c) \<le> 1000"
    "canonical_target (PStr (ac_target c)) = Inr (ac_target c)" "target_network (PStr (ac_target c)) = Inr n"
    "ac_tool c = NMAP_TOOL_ID \<Longrightarrow> CHR ''/'' \<notin> set (ac_target c) \<and> nw_family n = V4"
  using assms unfolding action_ok_def parse_action_Inr make_action_Inr
  by (auto simp: decoded_action action_items)

lemma action_network_ok:
  assumes "action_ok c"
  shows "target_network (PStr (ac_target c)) = Inr (action_network c)" and "network_ok (action_network c)"
    and "\<not> list_ex (overlaps (action_network c)) (forbidden (nw_family (action_network c)))"
proof -
  from assms obtain n where n: "target_network (PStr (ac_target c)) = Inr n" by (rule action_okE)
  then show t: "target_network (PStr (ac_target c)) = Inr (action_network c)" by (simp add: action_network_def)
  show "network_ok (action_network c)" "\<not> list_ex (overlaps (action_network c)) (forbidden (nw_family (action_network c)))"
    by (rule target_network_Inr [OF t]; simp)+
qed

section \<open>The canonical text determines an action\<close>

lemma action_json_inj:
  assumes "action_ok c" and "action_ok d" and "action_json c = action_json d"
  shows "c = d"
proof -
  have "Inr c = parse_action (action_json c)" "parse_action (action_json d) = Inr d"
    using assms(1,2) by (simp_all add: action_ok_def)
  then show ?thesis by (simp only: assms(3) sum.inject)
qed

section \<open>Sorted keys\<close>

fun scalar :: "pyval \<Rightarrow> bool" where
  "scalar (PList xs) = False"
| "scalar (PDict kvs) = False"
| "scalar v = True"

lemma sort_scalar: "scalar v \<Longrightarrow> sort_keys v = v"
  by (cases v) simp_all

lemma scalar_item: "list_all (\<lambda>e. scalar (snd e)) es \<Longrightarrow> scalar (item (PDict es) k)"
proof (cases "map_of es k")
  case (Some w)
  assume "list_all (\<lambda>e. scalar (snd e)) es"
  then show ?thesis using map_of_SomeD [OF Some] Some by (auto simp: item_PDict list_all_iff)
qed (simp add: item_PDict)

lemma parameters_scalar: "scalar (item (parameters_json p) k)"
  by (cases p) (simp_all add: scalar_item entry_lists)

lemma parse_parameters_sorted:
  assumes "parse_parameters a (parameters_json p) = Inr p"
  shows "parse_parameters a (sort_keys (parameters_json p)) = Inr p"
proof -
  have "same_on (class_fields (ad_class a)) (sort_keys (parameters_json p)) (parameters_json p)"
    by (simp add: same_on_def list_all_iff item_sort sort_scalar parameters_scalar)
  then have "construct (ad_class a) (sort_keys (parameters_json p)) = construct (ad_class a) (parameters_json p)"
    by (rule construct_cong)
  then show ?thesis using assms by (simp add: parse_parameters_def res_simps sort_keys_simps same_fields_sort)
qed

lemma parse_action_sorted:
  assumes "action_ok c"
  shows "parse_action (sort_keys (action_json c)) = Inr c"
proof -
  from assms obtain a where a: "a \<in> set ADAPTERS" "ac_tool c = ad_tool a"
    and p: "parse_parameters a (parameters_json (ac_parameters c)) = Inr (ac_parameters c)"
    and k: "make_action (action_json c) a (ac_parameters c) = Inr c"
    unfolding action_ok_def parse_action_Inr by (auto simp: decoded_action action_items)
  have i: "item (sort_keys (action_json c)) k = item (action_json c) k" if "k \<noteq> ''parameters''" for k
  proof -
    have "scalar (item (action_json c) k)" using that by (auto simp: action_json_def item_PDict)
    then show ?thesis by (simp add: item_sort sort_scalar)
  qed
  have m: "make_action (sort_keys (action_json c)) a (ac_parameters c) = Inr c"
    using k unfolding make_action_Inr by (simp add: i)
  have "decoded (sort_keys (action_json c)) = Inr (sort_keys (action_json c))"
    by (simp add: decoded_def action_json_def)
  moreover have "is_dict (sort_keys (action_json c)) \<and> same_fields (sort_keys (action_json c)) ACTION_FIELDS"
    using action_fields [of c "[]"] by (simp add: res_simps sort_keys_simps same_fields_sort)
  moreover have "item (sort_keys (action_json c)) ''tool_id'' = PStr (ad_tool a)" using i a(2) by (simp add: action_items)
  moreover have "parse_parameters a (item (sort_keys (action_json c)) ''parameters'') = Inr (ac_parameters c)"
    using parse_parameters_sorted [OF p] by (simp add: item_sort action_items)
  ultimately show ?thesis unfolding parse_action_Inr using a(1) m by blast
qed

lemma canonical_action_inj:
  assumes "action_ok c" and "action_ok d" and "canonical (action_json c) = canonical (action_json d)"
  shows "c = d"
proof -
  have e: "sort_keys (action_json c) = sort_keys (action_json d)" using assms(3) by (simp add: canonical_eq)
  have "Inr c = parse_action (sort_keys (action_json c))" "parse_action (sort_keys (action_json d)) = Inr d"
    using parse_action_sorted assms(1,2) by simp_all
  then show ?thesis by (simp only: e sum.inject)
qed

section \<open>JSON text\<close>

lemma json_ok_sort: "json_ok (sort_keys v) = json_ok v"
proof (induction v)
  case (PDict kvs)
  have "list_all snd (map (map_prod id json_ok) (map (map_prod id sort_keys) kvs)) = list_all snd (map (map_prod id json_ok) kvs)"
    using PDict by (auto simp: list_all_iff snds.simps)
  moreover have "distinct (map fst (sort_key fst ys)) = distinct (map fst ys)" for ys :: "(string \<times> pyval) list"
    by (metis card_distinct distinct_card length_map length_sort set_map set_sort)
  moreover have "list_all P (sort_key fst ys) = list_all P ys" for P and ys :: "(string \<times> pyval) list"
    by (simp add: list_all_iff)
  ultimately show ?case by (simp add: list.pred_map comp_def)
next
  case (PList xs)
  then show ?case by (auto simp: list_all_iff)
qed simp_all

definition ascii :: "string \<Rightarrow> bool" where
  "ascii s \<longleftrightarrow> list_all (\<lambda>c. (of_char c :: nat) < 128) s"

lemma ascii_simps [simp]: "ascii []" "ascii (xs @ ys) \<longleftrightarrow> ascii xs \<and> ascii ys" "ascii (c # cs) \<longleftrightarrow> (of_char c :: nat) < 128 \<and> ascii cs"
  by (simp_all add: ascii_def)

lemma ascii_utf8: "ascii s \<Longrightarrow> utf8_length s = int (length s)"
  by (induction s) (simp_all add: utf8_length_def)

lemma ascii_digits: "\<forall>c \<in> set s. is_digit c \<Longrightarrow> ascii s"
  by (auto simp: ascii_def list_all_iff is_digit_iff)

lemma ascii_show_int: "ascii (show_int i)"
proof -
  have "ascii (show_pos j)" if "0 \<le> j" for j using show_pos_digits [OF that] by (rule ascii_digits)
  then show ?thesis by (simp add: show_int_def)
qed

lemma ascii_hex_char: "n < 16 \<Longrightarrow> (of_char (hex_char n) :: nat) < 128"
proof -
  have "list_all (\<lambda>n. (of_char (hex_char n) :: nat) < 128) [0..<16]" by code_simp
  then show "n < 16 \<Longrightarrow> (of_char (hex_char n) :: nat) < 128" by (auto simp: list_all_iff)
qed

lemma ascii_escape: "ascii (escape_char c)"
proof -
  have b: "(of_char c :: nat) div 16 < 16" "(of_char c :: nat) mod 16 < 16" using of_char_lt [of c] by linarith+
  show ?thesis using ascii_hex_char [OF b(1)] ascii_hex_char [OF b(2)]
    by (auto simp: escape_char_def less_eq_char_def)
qed

lemma ascii_json_string: "ascii (json_string s)"
proof -
  have "ascii (concat (map escape_char s))" by (induction s) (simp_all add: ascii_escape)
  then show ?thesis by (simp add: json_string_def)
qed

lemma ascii_join: "ascii sep \<Longrightarrow> list_all ascii xs \<Longrightarrow> ascii (join sep xs)"
  by (induction sep xs rule: join.induct) auto

lemma ascii_dumps: "ascii (dumps v)"
proof (induction v)
  case (PList xs)
  then show ?case by (auto simp: list_all_iff intro!: ascii_join)
next
  case (PDict kvs)
  then have "list_all ascii (map entry kvs)" by (auto simp: list_all_iff entry_def ascii_json_string snds.simps)
  then show ?case unfolding dumps_PDict by (auto intro: ascii_join)
qed (simp_all add: ascii_show_int ascii_json_string)

section \<open>The text of an action is short\<close>

lemma entries_bound:
  assumes "\<forall>e \<in> set es. int (length (entry e)) \<le> b"
  shows "int (length (dumps (PDict es))) \<le> 2 + int (length es) * (b + 1)"
proof -
  have "sum_list (map (\<lambda>kv. int (length (entry kv))) es) \<le> int (length es) * b"
    using assms by (induction es) (simp_all add: algebra_simps)
  then show ?thesis unfolding length_entries by (simp add: algebra_simps)
qed

definition short_entry :: "int \<Rightarrow> string \<times> pyval \<Rightarrow> bool" where
  "short_entry m e \<longleftrightarrow> length (fst e) \<le> 32 \<and> (case snd e of PStr s \<Rightarrow> int (length s) \<le> m
     | PInt i \<Rightarrow> 0 \<le> i \<and> i < 10 ^ 9 | _ \<Rightarrow> False)"

lemma short_entry_length: "short_entry m e \<Longrightarrow> 2 \<le> m \<Longrightarrow> int (length (entry e)) \<le> 6 * m + 200"
proof -
  assume s: "short_entry m e" and m: "2 \<le> m"
  have k: "int (length (json_string (fst e))) \<le> 194" using length_json_string [of "fst e"] s by (simp add: short_entry_def)
  have "int (length (dumps (snd e))) \<le> 6 * m + 2"
  proof (cases "snd e")
    case (PStr t)
    then show ?thesis using length_json_string [of t] s by (simp add: short_entry_def)
  next
    case (PInt i)
    then show ?thesis using length_show_int [of i 9] s m by (simp add: short_entry_def)
  qed (use s in \<open>simp_all add: short_entry_def\<close>)
  then show ?thesis using k by (simp add: entry_def)
qed

lemma short_simps [simp]:
  "short_entry m (k, PStr s) \<longleftrightarrow> length k \<le> 32 \<and> int (length s) \<le> m"
  "short_entry m (k, PInt i) \<longleftrightarrow> length k \<le> 32 \<and> 0 \<le> i \<and> i < 10 ^ 9"
  by (simp_all add: short_entry_def)

lemma canonical_uuid_length: "canonical_uuid s \<Longrightarrow> length s = 36"
  using length_split_on [of s "CHR ''-''"] by (auto simp: canonical_uuid_def)

lemma cases_short: "list_all (\<lambda>c. length c \<le> 3) CASES"
  by code_simp

lemma hash_val_length: "hash_val v \<Longrightarrow> length (the_str v) = 64"
  by (cases v) (auto simp: hash_val_def is_hash_def)

lemma expected_bounds_short: "list_all (short_entry 64) (bounds_entries (expected_bounds slot configuration))"
  by (simp add: expected_bounds_def bounds_entries_def ROWS_def)

lemma read_request_short:
  assumes "read_request c v = Inr (b, r)" and "c \<in> set NAME_CLASSES"
  shows "list_all (short_entry 64) (bounds_entries b @ request_entries r)"
proof -
  have "length (nr_configuration r) \<le> 64" "length (nr_case r) \<le> 64" "length (nr_slot r) \<le> 64"
    "length (nr_selection r) = 64" "length (nr_runtime r) = 64" "length (nr_owner_identity r) = 64"
    "length (nr_owner r) = 36" "length (nr_session r) = 36"
    using assms(1) cases_short
    by (auto simp: read_request_def Let_def res_simps selection_ok_def CONFIGURATIONS_def digests_ok_def hash_val_length
      identity_ok_def canonical_uuid_length slots_def list_all_iff split: if_splits)
  moreover have "b = expected_bounds (nr_slot r) (nr_configuration r)"
    using assms(1) by (auto simp: read_request_def Let_def res_simps)
  ultimately show ?thesis using expected_bounds_short by (simp add: request_entries_def)
qed

lemma read_binding_short:
  assumes "read_binding c v = Inr (b, r, n)" and "c \<in> set NAME_CLASSES"
  shows "list_all (short_entry 64) (bounds_entries b @ request_entries r @ binding_entries n)"
proof -
  have r: "read_request c v = Inr (b, r)" using assms(1) by (auto simp: read_binding_def Let_def res_simps)
  have "list_all (short_entry 64) (binding_entries n)"
    using assms(1)
    by (auto simp: read_binding_def Let_def res_simps digests_ok_def hash_val_length binding_entries_def LOGICAL_NAME_def)
  then show ?thesis using read_request_short [OF r assms(2)] by simp
qed

lemma read_bounds_short: "read_bounds v = Inr b \<Longrightarrow> list_all (short_entry 256) (bounds_entries b)"
  by (auto simp: read_bounds_def res_simps bounds_entries_def MAX_TIMEOUT_SECONDS_def MAX_OUTPUT_BYTES_def)

lemma read_http_short: "read_http c v = Inr p \<Longrightarrow> list_all (short_entry 256) (entries (parameters_json p)) \<and> length (entries (parameters_json p)) = 5"
  by (auto simp: read_http_def res_simps bounds_entries_def MAX_TIMEOUT_SECONDS_def MAX_OUTPUT_BYTES_def SUPPORTED_METHODS_def elim!: str_inE)

lemma parameters_short:
  assumes "construct c v = Inr p"
  shows "\<exists>m. 2 \<le> m \<and> list_all (short_entry m) (entries (parameters_json p))
    \<and> 2 + int (length (entries (parameters_json p))) * (6 * m + 201) \<le> 15000"
proof -
  have m: "''OwnedNameDNSParameters'' \<in> set NAME_CLASSES" "''OwnedNameHTTPParameters'' \<in> set NAME_CLASSES"
    "''OwnedNameTLSParameters'' \<in> set NAME_CLASSES" by (simp_all add: NAME_CLASSES_def)
  consider "c \<in> set HTTP_CLASSES" | "c \<notin> set HTTP_CLASSES" "c \<notin> set NAME_CLASSES"
    | "c = ''OwnedNameDNSParameters''" | "c = ''OwnedNameHTTPParameters''" | "c = ''OwnedNameTLSParameters''"
    by (auto simp: NAME_CLASSES_def)
  then show ?thesis
  proof cases
    case 1
    then have "read_http c v = Inr p" using assms by (simp add: construct_simps)
    from read_http_short [OF this] show ?thesis by (intro exI [of _ 256]) simp
  next
    case 2
    then obtain b where "read_bounds v = Inr b" "p = Bounded c b" using assms by (auto simp: construct_simps res_simps)
    with read_bounds_short [of v b] show ?thesis by (intro exI [of _ 256]) (simp add: bounds_entries_def)
  next
    case 3
    then obtain b r where r: "read_request c v = Inr (b, r)" and p: "p = OwnedNameDNS b r ''harbordesk.test.'' ''IN'' ''A''"
      using assms by (auto simp: construct_simps read_name_dns_def res_simps)
    have "list_all (short_entry 64) (entries (parameters_json p))"
      using read_request_short [OF r] m 3 by (simp add: p)
    then show ?thesis by (intro exI [of _ 64]) (simp add: p entry_lists)
  next
    case 4
    then obtain b r n host where r: "read_binding c v = Inr (b, r, n)"
      and p: "p = OwnedNameHTTP b r n ''GET'' (row_path (ROWS (nr_configuration r))) host"
      and h: "host = LOGICAL_NAME @ '':'' @ show_int (row_http_port (ROWS (nr_configuration r)))"
      using assms by (auto simp: construct_simps read_name_http_def res_simps Let_def)
    have "length (show_int (row_http_port (ROWS (nr_configuration r)))) \<le> 9"
      by (rule length_show_int) (simp_all add: ROWS_def)
    then have "list_all (short_entry 64) (entries (parameters_json p))"
      using read_binding_short [OF r] m 4 by (simp add: p h LOGICAL_NAME_def ROWS_def)
    then show ?thesis by (intro exI [of _ 64]) (simp add: p entry_lists)
  next
    case 5
    then obtain b r n where r: "read_binding c v = Inr (b, r, n)"
      and p: "p = OwnedNameTLS b r n LOGICAL_NAME LOGICAL_NAME PUBLIC_CA_SHA256 ''TLSv1.3'' ''TLS_AES_256_GCM_SHA384'' ''P-256''"
      using assms by (auto simp: construct_simps read_name_tls_def res_simps)
    have "list_all (short_entry 64) (entries (parameters_json p))"
      using read_binding_short [OF r] m 5 by (simp add: p LOGICAL_NAME_def PUBLIC_CA_SHA256_def)
    then show ?thesis by (intro exI [of _ 64]) (simp add: p entry_lists)
  qed
qed


lemma parameters_length:
  assumes "construct c v = Inr p"
  shows "int (length (dumps (parameters_json p))) \<le> 15000"
proof -
  let ?es = "entries (parameters_json p)"
  obtain m where m: "2 \<le> m" "list_all (short_entry m) ?es" "2 + int (length ?es) * (6 * m + 201) \<le> 15000"
    using parameters_short [OF assms] by blast
  have "\<forall>e \<in> set ?es. int (length (entry e)) \<le> 6 * m + 200"
    using short_entry_length m(1,2) unfolding list_all_iff by blast
  from entries_bound [OF this] have "int (length (dumps (PDict ?es))) \<le> 2 + int (length ?es) * (6 * m + 201)"
    by (simp only: add.assoc) simp
  then have "int (length (dumps (PDict ?es))) \<le> 15000" using m(3) by linarith
  moreover have "PDict ?es = parameters_json p" by (cases p) simp_all
  ultimately show ?thesis by (simp only:)
qed

lemma short_entry_ok: "short_entry m e \<Longrightarrow> json_ok (snd e)"
  using length_show_pos [of "the_int (snd e)" 9]
  by (cases "snd e") (auto simp: short_entry_def int_ok_def MAX_DIGITS_def)

lemma json_ok_parameters:
  assumes "construct c v = Inr p"
  shows "json_ok (parameters_json p)"
proof -
  obtain m where "list_all (short_entry m) (entries (parameters_json p))" using parameters_short [OF assms] by blast
  then have "list_all (\<lambda>e. json_ok (snd e)) (entries (parameters_json p))"
    using short_entry_ok unfolding list_all_iff by blast
  moreover have "distinct (map fst (entries (parameters_json p)))"
    using fields_of_parameters(2) [OF assms] by (simp add: fields_of_def)
  moreover have "json_ok (PDict es)" if "list_all (\<lambda>e. json_ok (snd e)) es" "distinct (map fst es)" for es
    using that by (simp add: list.pred_map comp_def)
  ultimately have "json_ok (PDict (entries (parameters_json p)))" by blast
  moreover have "PDict (entries (parameters_json p)) = parameters_json p" by (cases p) simp_all
  ultimately show ?thesis by (simp only:)
qed

lemma tool_length: "a \<in> set ADAPTERS \<Longrightarrow> length (ad_tool a) \<le> 64"
proof -
  have "list_all (\<lambda>a. length (ad_tool a) \<le> 64) ADAPTERS" by (simp add: registry_defs)
  then show "a \<in> set ADAPTERS \<Longrightarrow> length (ad_tool a) \<le> 64" by (simp add: list_all_iff)
qed

lemma action_length:
  assumes "action_ok c"
  shows "int (length (dumps (action_json c))) \<le> 24000"
proof -
  from assms obtain a n where a: "a \<in> set ADAPTERS" "ac_tool c = ad_tool a"
    and p: "parse_parameters a (parameters_json (ac_parameters c)) = Inr (ac_parameters c)"
    and l: "length (ac_id c) = 36" "length (ac_rationale c) \<le> 1000" and t: "target_network (PStr (ac_target c)) = Inr n"
    by (rule action_okE)
  have "length (ac_target c) \<le> 80" using t by (auto simp: target_network_def res_simps)
  moreover have "int (length (dumps (parameters_json (ac_parameters c)))) \<le> 15000"
    using p parameters_length [of "ad_class a"] by (auto simp: parse_parameters_def res_simps)
  ultimately show ?thesis
    using length_json_string [of "ac_id c"] length_json_string [of "ac_tool c"] length_json_string [of "ac_target c"]
      length_json_string [of "ac_rationale c"] l tool_length [OF a(1)] a(2)
    unfolding action_json_def length_entries
    by (simp add: entry_def json_string_def escape_char_def less_eq_char_def)
qed


theorem action_text_parses:
  assumes ok: "action_ok c"
  shows "parse_action (PStr (canonical (action_json c))) = Inr c"
proof -
  from ok obtain a where p: "parse_parameters a (parameters_json (ac_parameters c)) = Inr (ac_parameters c)"
    by (rule action_okE)
  then have "json_ok (parameters_json (ac_parameters c))"
    by (auto simp: parse_parameters_def res_simps intro: json_ok_parameters)
  then have "json_ok (sort_keys (action_json c))" by (simp add: json_ok_sort action_json_def)
  then have "read_json (canonical (action_json c)) = Inr (sort_keys (action_json c))"
    unfolding canonical_def by (rule read_json_dumps)
  moreover have "utf8_length (canonical (action_json c)) \<le> MAX_JSON_BYTES"
    using action_length [OF ok] length_canonical [of "action_json c"] ascii_utf8 [OF ascii_dumps, of "sort_keys (action_json c)"]
    by (simp add: canonical_def MAX_JSON_BYTES_def)
  moreover have "is_dict (sort_keys (action_json c))" by (simp add: action_json_def)
  ultimately have "load_json (PStr (canonical (action_json c))) = Inr (sort_keys (action_json c))"
    by (simp add: load_json_def)
  moreover have "\<not> is_str (sort_keys (action_json c))" by (simp add: action_json_def)
  moreover have "parse_action (PStr t) = parse_action w" if "load_json (PStr t) = Inr w" "\<not> is_str w" for t w
    using that by (simp add: parse_action_def decoded_def)
  ultimately show ?thesis using parse_action_sorted [OF ok] by simp
qed

end
