(* ===== verification/PolicyFacts.thy ===== *)
theory PolicyFacts
  imports ActionFacts
begin

text \<open>
  Parsed policies print to values that parse to them, and the decision of a policy in terms of
  sets of addresses: what is not denied stays within every bound and every network of the policy.
\<close>

section \<open>Well-formed policies\<close>

definition policy_ok :: "policy \<Rightarrow> bool" where
  "policy_ok p \<longleftrightarrow> parse_policy (policy_json p) = Inr p"

lemma mapE_again:
  assumes "mapE f xs = Inr ys" and "\<And>x y. f x = Inr y \<Longrightarrow> f (g y) = Inr y"
  shows "mapE f (map g ys) = Inr ys"
  using assms(1)
proof (induction xs arbitrary: ys)
  case (Cons x xs)
  then show ?case using assms(2) by (auto simp: res_simps)
qed simp

lemma policy_items:
  "item (policy_json p) ''schema_version'' = PStr ''1''" "item (policy_json p) ''policy_version'' = PStr (po_version p)"
  "item (policy_json p) ''allowed_targets'' = PList (map PStr (po_targets p))"
  "item (policy_json p) ''allowed_tools'' = PList (map PStr (po_tools p))"
  "item (policy_json p) ''allowed_ports'' = PList (map PInt (po_ports p))"
  "item (policy_json p) ''allowed_methods'' = PList (map PStr (po_methods p))"
  "item (policy_json p) ''max_timeout_seconds'' = PInt (po_timeout p)"
  "item (policy_json p) ''max_output_bytes'' = PInt (po_output p)"
  "item (policy_json p) ''max_targets'' = PInt (po_max_targets p)"
  "item (policy_json p) ''require_approval'' = PBool (po_approval p)"
  "item (policy_json p) ''approval_ttl_seconds'' = PInt (po_ttl p)"
  by (simp_all add: policy_json_def item_PDict)

lemma policy_fields: "check_fields (policy_json p) POLICY_FIELDS name = Inr ()"
  by (simp add: res_simps policy_json_def same_fields_def POLICY_FIELDS_def fields_of_def)

lemma decoded_policy: "decoded (policy_json p) = Inr (policy_json p)"
  by (simp add: decoded_def policy_json_def)

definition in_list :: "string list \<Rightarrow> string \<Rightarrow> pyval \<Rightarrow> string + string" where
  "in_list xs e v = bindE (require (str_in xs v) e) (\<lambda>_. Inr (the_str v))"

lemma in_list_Inr: "in_list xs e v = Inr s \<longleftrightarrow> v = PStr s \<and> s \<in> set xs"
  by (cases v) (auto simp: in_list_def str_in_def res_simps)

lemma make_policy_Inr:
  "make_policy v = Inr p \<longleftrightarrow>
    item v ''schema_version'' = PStr ''1'' \<and> item v ''policy_version'' = PStr (po_version p)
    \<and> 1 \<le> length (po_version p) \<and> length (po_version p) \<le> 64 \<and> version_text (po_version p)
    \<and> list_all (\<lambda>k. length (elements (item v k)) \<le> 64) [''allowed_targets'', ''allowed_tools'', ''allowed_ports'', ''allowed_methods'']
    \<and> mapE canonical_target (elements (item v ''allowed_targets'')) = Inr (po_targets p)
    \<and> mapE (in_list SUPPORTED_TOOLS ''unsupported_policy_tool'') (elements (item v ''allowed_tools'')) = Inr (po_tools p)
    \<and> mapE (\<lambda>q. check_int q ''policy_port'' 1 65535) (elements (item v ''allowed_ports'')) = Inr (po_ports p)
    \<and> mapE (in_list SUPPORTED_POLICY_METHODS ''unsupported_policy_method'') (elements (item v ''allowed_methods'')) = Inr (po_methods p)
    \<and> distinct (po_targets p) \<and> distinct (po_tools p) \<and> distinct (po_ports p) \<and> distinct (po_methods p)
    \<and> item v ''max_timeout_seconds'' = PInt (po_timeout p) \<and> 1 \<le> po_timeout p \<and> po_timeout p \<le> MAX_TIMEOUT_SECONDS
    \<and> item v ''max_output_bytes'' = PInt (po_output p) \<and> 1 \<le> po_output p \<and> po_output p \<le> MAX_OUTPUT_BYTES
    \<and> item v ''max_targets'' = PInt (po_max_targets p) \<and> 1 \<le> po_max_targets p \<and> po_max_targets p \<le> MAX_TARGETS
    \<and> item v ''require_approval'' = PBool (po_approval p)
    \<and> item v ''approval_ttl_seconds'' = PInt (po_ttl p) \<and> 1 \<le> po_ttl p \<and> po_ttl p \<le> 300"
proof -
  have b: "(w = PBool True \<or> w = PBool False) \<and> a = (w = PBool True) \<longleftrightarrow> w = PBool a" for w a by auto
  show ?thesis
    by (cases p) (auto simp: make_policy_def short_def unique_def res_simps in_list_def [symmetric])
qed

lemma parse_policy_Inr:
  "parse_policy raw = Inr p \<longleftrightarrow> (\<exists>v. decoded raw = Inr v \<and> is_dict v \<and> same_fields v POLICY_FIELDS
     \<and> list_all (\<lambda>k. is_list (item v k)) [''allowed_targets'', ''allowed_tools'', ''allowed_ports'', ''allowed_methods'']
     \<and> make_policy v = Inr p)"
  by (auto simp: parse_policy_def listed_def res_simps)

theorem parse_policy_ok:
  assumes "parse_policy raw = Inr p"
  shows "policy_ok p"
proof -
  obtain v where m: "make_policy v = Inr p" using assms by (auto simp: parse_policy_Inr)
  have "mapE canonical_target (map PStr (po_targets p)) = Inr (po_targets p)"
    "mapE (in_list SUPPORTED_TOOLS ''unsupported_policy_tool'') (map PStr (po_tools p)) = Inr (po_tools p)"
    "mapE (\<lambda>q. check_int q ''policy_port'' 1 65535) (map PInt (po_ports p)) = Inr (po_ports p)"
    "mapE (in_list SUPPORTED_POLICY_METHODS ''unsupported_policy_method'') (map PStr (po_methods p)) = Inr (po_methods p)"
    using m unfolding make_policy_Inr
    by (auto intro!: mapE_again canonical_target_stable(2) simp: in_list_Inr check_int_Inr)
  moreover have "length (po_targets p) \<le> 64" "length (po_tools p) \<le> 64" "length (po_ports p) \<le> 64" "length (po_methods p) \<le> 64"
    using m unfolding make_policy_Inr by (auto dest!: mapE_Inr_length)
  ultimately have "make_policy (policy_json p) = Inr p"
    using m unfolding make_policy_Inr by (simp add: policy_items)
  then show ?thesis
    using policy_fields [of p "[]"] unfolding policy_ok_def parse_policy_Inr
    by (intro exI [of _ "policy_json p"]) (simp add: policy_items res_simps decoded_policy)
qed

lemma policy_okD:
  assumes "policy_ok p"
  shows "\<forall>t \<in> set (po_targets p). canonical_target (PStr t) = Inr t"
    and "1 \<le> po_max_targets p" "po_max_targets p \<le> MAX_TARGETS" "1 \<le> po_ttl p" "po_ttl p \<le> 300"
    "po_output p \<le> MAX_OUTPUT_BYTES" "po_timeout p \<le> MAX_TIMEOUT_SECONDS"
proof -
  have m: "make_policy (policy_json p) = Inr p"
    using assms by (auto simp: policy_ok_def parse_policy_Inr decoded_policy)
  have t: "mapE canonical_target (map PStr (po_targets p)) = Inr (po_targets p)"
    using m unfolding make_policy_Inr by (simp add: policy_items)
  then have "canonical_target (map PStr (po_targets p) ! i) = Inr (po_targets p ! i)" if "i < length (po_targets p)" for i
    using mapE_Inr_nth [OF t, of i] that by simp
  then show "\<forall>t \<in> set (po_targets p). canonical_target (PStr t) = Inr t" by (auto simp: in_set_conv_nth)
  show "1 \<le> po_max_targets p" "po_max_targets p \<le> MAX_TARGETS" "1 \<le> po_ttl p" "po_ttl p \<le> 300"
    "po_output p \<le> MAX_OUTPUT_BYTES" "po_timeout p \<le> MAX_TIMEOUT_SECONDS"
    using m unfolding make_policy_Inr by simp_all
qed

section \<open>Networks of a policy\<close>

lemma policy_networks_iff:
  "m \<in> set (policy_networks p) \<longleftrightarrow> (\<exists>t \<in> set (po_targets p). target_network (PStr t) = Inr m)"
  by (force simp: policy_networks_def split: sum.splits)

lemma policy_networks_ok: "m \<in> set (policy_networks p) \<Longrightarrow> network_ok m"
  by (auto simp: policy_networks_iff elim: target_network_Inr)

text \<open>Every address of the action lies in one network of the policy.\<close>

definition in_scope :: "policy \<Rightarrow> action \<Rightarrow> bool" where
  "in_scope p c \<longleftrightarrow> (\<exists>t \<in> set (po_targets p). \<exists>m. target_network (PStr t) = Inr m
     \<and> nw_family (action_network c) = nw_family m
     \<and> (\<forall>x. in_network (action_network c) x \<longrightarrow> in_network m x))"

lemma scope_check:
  assumes "action_ok c"
  shows "list_ex (\<lambda>m. nw_family (action_network c) = nw_family m \<and> subnet_of (action_network c) m) (policy_networks p) \<longleftrightarrow> in_scope p c"
proof -
  let ?n = "action_network c"
  have s: "subnet_of ?n m \<longleftrightarrow> (\<forall>x. in_network ?n x \<longrightarrow> in_network m x)" if "m \<in> set (policy_networks p)" for m
    by (rule subnet_of_iff [OF action_network_ok(2) [OF assms] policy_networks_ok [OF that]])
  have "list_ex (\<lambda>m. nw_family ?n = nw_family m \<and> subnet_of ?n m) (policy_networks p) \<longleftrightarrow>
    (\<exists>m \<in> set (policy_networks p). nw_family ?n = nw_family m \<and> (\<forall>x. in_network ?n x \<longrightarrow> in_network m x))"
    unfolding list_ex_iff using s by blast
  also have "\<dots> \<longleftrightarrow> in_scope p c" unfolding in_scope_def Bex_def policy_networks_iff by blast
  finally show ?thesis .
qed

definition permits :: "policy \<Rightarrow> action \<Rightarrow> bool" where
  "permits p c \<longleftrightarrow> ac_tool c \<in> set (po_tools p) \<and> in_scope p c
     \<and> host_count (action_network c) \<le> po_max_targets p
     \<and> pb_port (bounds_of (ac_parameters c)) \<in> set (po_ports p)
     \<and> (ac_tool c \<in> set METHOD_TOOLS \<longrightarrow> method_of (ac_parameters c) \<in> set (po_methods p))
     \<and> (ac_tool c \<in> set GET_TOOLS \<longrightarrow> ''GET'' \<in> set (po_methods p))
     \<and> (ac_tool c = ''curl_http_options_v1'' \<longrightarrow> ''OPTIONS'' \<in> set (po_methods p))
     \<and> pb_timeout (bounds_of (ac_parameters c)) \<le> po_timeout p
     \<and> pb_output (bounds_of (ac_parameters c)) \<le> po_output p"

lemma no_objections:
  assumes "action_ok c"
  shows "filter fst (objections p c) = [] \<longleftrightarrow> permits p c"
  unfolding objections_def Let_def filter_empty_conv scope_check [OF assms] permits_def by auto

lemma evaluate_permits:
  assumes "action_ok c"
  shows "evaluate p c = (if permits p c then if po_approval p then Approval_required else Allow
    else Deny (map snd (filter fst (objections p c))))"
  using no_objections [OF assms, of p] by (simp add: evaluate_def)

section \<open>Addresses of an action\<close>

lemma last_address_bound:
  assumes "network_ok n"
  shows "last_address n < 2 ^ bits (nw_family n)"
proof -
  let ?c = "host_count n"
  have pos: "0 < ?c" by (rule host_count_pos)
  have base: "nw_base n mod ?c = 0" "nw_base n < 2 ^ bits (nw_family n)" "nw_prefix n \<le> bits (nw_family n)"
    using assms by (simp_all add: network_ok_def)
  obtain k where k: "nw_base n = ?c * k" using base(1) by (auto simp: mod_eq_0_iff_dvd dvd_def)
  have m: "(2 :: int) ^ bits (nw_family n) = ?c * 2 ^ nw_prefix n"
    using base(3) by (simp add: host_count_def power_add [symmetric])
  have "?c * k < ?c * 2 ^ nw_prefix n" using base(2) by (simp add: k m)
  then have "k + 1 \<le> 2 ^ nw_prefix n" using pos by simp
  then have "?c * (k + 1) \<le> ?c * 2 ^ nw_prefix n" using pos by (intro mult_left_mono) auto
  then show ?thesis by (simp add: last_address_def k m algebra_simps)
qed

lemma forbidden_ok: "f \<in> set (forbidden fam) \<Longrightarrow> network_ok f \<and> nw_family f = fam"
  by (cases fam) (auto simp: forbidden_def network_ok_def host_count_def)

definition host :: "network \<Rightarrow> int \<Rightarrow> network" where
  "host n x = \<lparr>nw_family = nw_family n, nw_base = x, nw_prefix = bits (nw_family n)\<rparr>"

lemma host_address:
  assumes ok: "network_ok n" and free: "\<not> list_ex (overlaps n) (forbidden (nw_family n))" and x: "in_network n x"
  shows "target_network (PStr (show_address (nw_family n) x)) = Inr (host n x)"
proof -
  have r: "0 \<le> x" "x < 2 ^ bits (nw_family n)"
    using x last_address_bound [OF ok] ok by (auto simp: in_network_iff network_ok_def)
  have h: "network_ok (host n x)" using r by (simp add: host_def network_ok_def host_count_def)
  have one: "in_network (host n x) y \<longleftrightarrow> y = x" for y by (auto simp: in_network_def host_def host_count_def)
  have "\<not> overlaps (host n x) f" if "f \<in> set (forbidden (nw_family n))" for f
    using free that forbidden_ok [OF that] x h ok one by (auto simp: overlaps_iff list_ex_iff host_def)
  then have f: "\<not> list_ex (overlaps (host n x)) (forbidden (nw_family (host n x)))" by (auto simp: list_ex_iff host_def)
  note a = show_address_shape [OF r]
  have "literal_network (show_address (nw_family (host n x)) (nw_base (host n x))) = Some (host n x)"
    by (rule literal_show_address [OF h]) (simp add: host_def)
  then have "literal_network (show_address (nw_family n) x) = Some (host n x)" by (simp add: host_def)
  then show ?thesis
    by (rule target_textI [rotated 3]) (use a f in \<open>auto simp: Suc_le_eq\<close>)
qed

end
