(* ===== verification/ConfigurablePlan.thy ===== *)
theory ConfigurablePlan
  imports PolicyFacts
begin

text \<open>
  The deterministic plan of a declared scope (\<open>secure_agent/configurable_contract.py\<close>): the four
  actions, the policy of the scope and the test that an action belongs to it. \<open>U\<close> is \<open>uuid5\<close> in
  the URL namespace and \<open>H\<close> is SHA-256; a returned dictionary is the record it was made from.
\<close>

section \<open>The plan\<close>

definition PLAN_WORKFLOW :: string where "PLAN_WORKFLOW = ''configurable-owned-http-ssh-v1''"

definition PLAN_TOOLS :: "string list" where
  "PLAN_TOOLS = [''configurable_nmap_service_v1'', ''configurable_http_headers_v1'', ''configurable_nmap_service_v1'',
     ''configurable_ssh_host_keys_v1'']"

definition plan_endpoint :: "scope \<Rightarrow> int \<Rightarrow> endpoint" where
  "plan_endpoint s n = (if n \<le> 2 then sc_http s else sc_ssh s)"

definition scope_binding :: "(string \<Rightarrow> string) \<Rightarrow> scope \<Rightarrow> string" where
  "scope_binding H s = H (canonical (scope_json s))"

definition plan_parameters :: "endpoint \<Rightarrow> int \<Rightarrow> pyval" where
  "plan_parameters e n = PDict ([(''port'', PInt (ep_port e)), (''timeout_seconds'', PInt (if n = 2 then 1 else 5)),
     (''max_output_bytes'', PInt (if n = 2 then 2048 else 8192))]
     @ (if n = 2 then [(''method'', PStr ''GET''), (''path'', PStr (the (ep_path e)))] else []))"

definition plan_proposal :: "(string \<Rightarrow> string) \<Rightarrow> (string \<Rightarrow> string) \<Rightarrow> scope \<Rightarrow> int \<Rightarrow> pyval" where
  "plan_proposal H U s n = (let e = plan_endpoint s n; binding = scope_binding H s in
    PDict [(''schema_version'', PStr ''1''),
      (''action_id'', PStr (U (PLAN_WORKFLOW @ '':'' @ binding @ '':'' @ show_int n))),
      (''tool_id'', PStr (PLAN_TOOLS ! nat (n - 1))), (''target'', PStr (ep_target e)),
      (''parameters'', plan_parameters e n),
      (''rationale'', PStr (''Deterministic owned endpoint assessment; operator scope '' @ binding @ ''.''))])"

definition plan_action :: "(string \<Rightarrow> string) \<Rightarrow> (string \<Rightarrow> string) \<Rightarrow> pyval \<Rightarrow> pyval \<Rightarrow> string + action" where
  "plan_action H U v step =
    bindE (validate_scope v) (\<lambda>s.
    bindE (require (int_in 1 4 step) ''invalid_configurable_step'') (\<lambda>_.
    parse_action (plan_proposal H U s (the_int step))))"

text \<open>\<open>step_for_action\<close>: the first step whose action is this one; a step that raises ends the search.\<close>

fun first_step :: "(string \<Rightarrow> string) \<Rightarrow> (string \<Rightarrow> string) \<Rightarrow> pyval \<Rightarrow> action \<Rightarrow> int list \<Rightarrow> string + int" where
  "first_step H U v c [] = Inl ''configurable_action_outside_scope''"
| "first_step H U v c (n # ns) = bindE (plan_action H U v (PInt n)) (\<lambda>a.
     if py_eq (action_json c) (action_json a) then Inr n else first_step H U v c ns)"

definition step_for_action :: "(string \<Rightarrow> string) \<Rightarrow> (string \<Rightarrow> string) \<Rightarrow> pyval \<Rightarrow> action \<Rightarrow> string + int" where
  "step_for_action H U v c = first_step H U v c [1, 2, 3, 4]"

definition profile_allows :: "(string \<Rightarrow> string) \<Rightarrow> (string \<Rightarrow> string) \<Rightarrow> action \<Rightarrow> pyval \<Rightarrow> bool" where
  "profile_allows H U c v = (case step_for_action H U v c of Inl _ \<Rightarrow> False | Inr _ \<Rightarrow> True)"

text \<open>\<open>list(dict.fromkeys(values))\<close>.\<close>

fun first_uses :: "'a list \<Rightarrow> 'a list" where
  "first_uses [] = []"
| "first_uses (x # xs) = x # first_uses (filter (\<lambda>y. y \<noteq> x) xs)"

definition scope_policy_json :: "scope \<Rightarrow> pyval \<Rightarrow> pyval" where
  "scope_policy_json s approval = PDict [(''schema_version'', PStr ''1''), (''policy_version'', PStr ''configurable-owned-v1''),
     (''allowed_targets'', PList (map PStr (first_uses [ep_target (sc_http s), ep_target (sc_ssh s)]))),
     (''allowed_tools'', PList (map PStr (first_uses PLAN_TOOLS))),
     (''allowed_ports'', PList (map PInt (first_uses [ep_port (sc_http s), ep_port (sc_ssh s)]))),
     (''allowed_methods'', PList [PStr ''GET'']), (''max_timeout_seconds'', PInt 5), (''max_output_bytes'', PInt 8192),
     (''max_targets'', PInt 1), (''require_approval'', approval), (''approval_ttl_seconds'', PInt 60)]"

definition policy_for_scope :: "pyval \<Rightarrow> pyval \<Rightarrow> string + policy" where
  "policy_for_scope v approval = bindE (validate_scope v) (\<lambda>s. parse_policy (scope_policy_json s approval))"

end
