(* ===== verification/DispatchContract.thy ===== *)
theory DispatchContract
  imports EngagementRuns ConfigurablePlan
begin

text \<open>
  Dispatch accounting of an engagement (\<open>secure_agent/engagement_dispatch_contract.py\<close>): the
  bounded encoding, clocks, references and requests, the plan's policy and reservation, the
  windows of an engagement and the status of a clock reading. Errors are the module's public
  codes; a plain \<open>ValueError\<close> of a module it calls keeps its own code. SHA-256 is \<open>H\<close>, \<open>uuid5\<close>
  is \<open>U\<close>. The two-second work deadlines are failures of a call in the model of the store.
\<close>

section \<open>Bounded values\<close>

definition dcode :: "string \<Rightarrow> string" where "dcode c = ''engagement_dispatch_'' @ c"

definition EXPORT_BYTES :: int where "EXPORT_BYTES = 2097152"
definition REQUEST_BYTES :: int where "REQUEST_BYTES = 8192"
definition RECEIPT_BYTES :: int where "RECEIPT_BYTES = 4096"
definition SESSION_BYTES :: int where "SESSION_BYTES = 4096"
definition RESERVATION_BYTES :: int where "RESERVATION_BYTES = 8192"
definition COMPLETION_BYTES :: int where "COMPLETION_BYTES = 4096"
definition DEPTH_LIMIT :: int where "DEPTH_LIMIT = 12"
definition ROWS_LIMIT :: nat where "ROWS_LIMIT = 64"
definition EVENTS_LIMIT :: nat where "EVENTS_LIMIT = 257"
definition INTEGER_MAX :: int where "INTEGER_MAX = 2 ^ 63 - 1"
definition UTC_MIN :: int where "UTC_MIN = 946684800000000000"
definition UTC_MAX :: int where "UTC_MAX = 4102444799999999999"
definition CLOCK_TOLERANCE :: int where "CLOCK_TOLERANCE = 50000000"
definition SESSION_NS :: int where "SESSION_NS = 60000000000"

text \<open>\<open>_tree\<close>: units are checked after each node; integers are limited to 63 bits.\<close>

definition charge :: "int \<Rightarrow> string + int" where
  "charge spent = (if spent > EXPORT_BYTES then Inl (dcode ''limit_exceeded'') else Inr spent)"

fun walk :: "int \<Rightarrow> pyval \<Rightarrow> int \<Rightarrow> string + int"
  and walk_list :: "int \<Rightarrow> pyval list \<Rightarrow> int \<Rightarrow> string + int"
  and walk_dict :: "int \<Rightarrow> (string \<times> pyval) list \<Rightarrow> int \<Rightarrow> string + int" where
  "walk level PNone spent = charge (spent + 1)"
| "walk level (PBool b) spent = charge (spent + 1)"
| "walk level (PInt i) spent = bindE (require (0 \<le> i \<and> i \<le> INTEGER_MAX) (dcode ''invalid_input'')) (\<lambda>_. charge (spent + 1))"
| "walk level (PStr s) spent = bindE (require (int (length s) \<le> EXPORT_BYTES) (dcode ''limit_exceeded'')) (\<lambda>_.
     charge (spent + 1 + int (length s)))"
| "walk level (PList xs) spent = bindE (require (level + 1 \<le> DEPTH_LIMIT \<and> int (length xs) \<le> EXPORT_BYTES) (dcode ''limit_exceeded'')) (\<lambda>_.
     bindE (walk_list (level + 1) xs (spent + 1)) charge)"
| "walk level (PDict kvs) spent = bindE (require (level + 1 \<le> DEPTH_LIMIT \<and> int (length kvs) \<le> EXPORT_BYTES) (dcode ''limit_exceeded'')) (\<lambda>_.
     bindE (walk_dict (level + 1) kvs (spent + 1)) charge)"
| "walk_list level [] spent = Inr spent"
| "walk_list level (x # xs) spent = bindE (walk level x spent) (walk_list level xs)"
| "walk_dict level [] spent = Inr spent"
| "walk_dict level (kv # kvs) spent = bindE (require (int (length (fst kv)) \<le> EXPORT_BYTES) (dcode ''limit_exceeded'')) (\<lambda>_.
     bindE (charge (spent + int (length (fst kv)))) (\<lambda>u.
     bindE (walk level (snd kv) u) (walk_dict level kvs)))"

definition canonical_text :: "pyval \<Rightarrow> string + string" where
  "canonical_text v = bindE (walk 0 v 0) (\<lambda>_. let raw = canonical v in
     bindE (require (int (length raw) \<le> EXPORT_BYTES) (dcode ''limit_exceeded'')) (\<lambda>_. Inr raw))"

definition detach :: "int \<Rightarrow> pyval \<Rightarrow> string + pyval" where
  "detach limit v = bindE (canonical_text v) (\<lambda>raw.
     bindE (require (int (length raw) \<le> limit) (dcode ''limit_exceeded'')) (\<lambda>_. Inr (sort_keys v)))"

text \<open>\<open>_validation(code)\<close>: everything but a timeout and an exceeded limit becomes the code.\<close>

definition validation :: "string \<Rightarrow> string + 'a \<Rightarrow> string + 'a" where
  "validation c m = (case m of Inr x \<Rightarrow> Inr x
     | Inl e \<Rightarrow> Inl (if e = dcode ''timeout'' \<or> e = dcode ''limit_exceeded'' then e else dcode c))"

section \<open>Fields\<close>

definition fields_are :: "pyval \<Rightarrow> string list \<Rightarrow> string + unit" where
  "fields_are v names = require (is_dict v \<and> same_fields v names) (dcode ''invalid_input'')"

definition whole :: "pyval \<Rightarrow> int \<Rightarrow> int \<Rightarrow> string + int" where
  "whole v low high = bindE (require (int_in low high v) (dcode ''invalid_input'')) (\<lambda>_. Inr (the_int v))"

definition uuid_field :: "pyval \<Rightarrow> string + string" where
  "uuid_field v = bindE (require (is_str v \<and> is_uuid4 (the_str v)) (dcode ''invalid_input'')) (\<lambda>_. Inr (the_str v))"

definition hash_field :: "pyval \<Rightarrow> string + string" where
  "hash_field v = bindE (require (hash_val v) (dcode ''invalid_input'')) (\<lambda>_. Inr (the_str v))"

text \<open>\<open>_map_v1\<close>: the codes of the engagement record in this module's terms.\<close>

definition dispatch_roe :: "pyval \<Rightarrow> string + roe" where
  "dispatch_roe v = (case validate_roe v of Inr r \<Rightarrow> Inr r
     | Inl e \<Rightarrow> Inl (if e = ''engagement_timeout'' then dcode ''timeout''
         else if e = limit_exceeded then dcode ''limit_exceeded'' else dcode ''invalid_roe''))"

section \<open>Clocks and references\<close>

record clock =
  ck_utc :: int
  ck_before :: int
  ck_after :: int

definition clock_body :: "pyval \<Rightarrow> string + clock" where
  "clock_body v =
    bindE (fields_are v [''utc_ns'', ''mono_before_ns'', ''mono_after_ns'']) (\<lambda>_.
    bindE (whole (item v ''utc_ns'') UTC_MIN UTC_MAX) (\<lambda>utc.
    bindE (whole (item v ''mono_before_ns'') 0 INTEGER_MAX) (\<lambda>before.
    bindE (whole (item v ''mono_after_ns'') 0 INTEGER_MAX) (\<lambda>after.
    bindE (require (before \<le> after \<and> after - before \<le> CLOCK_TOLERANCE) (dcode ''invalid_input'')) (\<lambda>_.
    Inr \<lparr>ck_utc = utc, ck_before = before, ck_after = after\<rparr>)))))"

definition validate_clock :: "pyval \<Rightarrow> string + clock" where
  "validate_clock v = validation ''invalid_request'' (bindE (detach REQUEST_BYTES v) clock_body)"

definition clock_json :: "clock \<Rightarrow> pyval" where
  "clock_json c = PDict [(''utc_ns'', PInt (ck_utc c)), (''mono_before_ns'', PInt (ck_before c)), (''mono_after_ns'', PInt (ck_after c))]"

text \<open>What a reservation refers to: a consumed approval, an audit event.\<close>

record reference =
  rf_owner :: string
  rf_sequence :: int
  rf_sha256 :: string

definition approval_reference :: "pyval \<Rightarrow> string + reference" where
  "approval_reference v =
    bindE (fields_are v [''broker_id'', ''consume_sequence'', ''witness_sha256'']) (\<lambda>_.
    bindE (uuid_field (item v ''broker_id'')) (\<lambda>owner.
    bindE (whole (item v ''consume_sequence'') 1 32) (\<lambda>sequence.
    bindE (hash_field (item v ''witness_sha256'')) (\<lambda>sha.
    Inr \<lparr>rf_owner = owner, rf_sequence = sequence, rf_sha256 = sha\<rparr>))))"

definition audit_reference :: "pyval \<Rightarrow> string + reference" where
  "audit_reference v =
    bindE (fields_are v [''writer_id'', ''audit_sequence'', ''event_sha256'']) (\<lambda>_.
    bindE (uuid_field (item v ''writer_id'')) (\<lambda>owner.
    bindE (whole (item v ''audit_sequence'') 1 1024) (\<lambda>sequence.
    bindE (hash_field (item v ''event_sha256'')) (\<lambda>sha.
    Inr \<lparr>rf_owner = owner, rf_sequence = sequence, rf_sha256 = sha\<rparr>))))"

definition approval_json :: "reference \<Rightarrow> pyval" where
  "approval_json r = PDict [(''broker_id'', PStr (rf_owner r)), (''consume_sequence'', PInt (rf_sequence r)), (''witness_sha256'', PStr (rf_sha256 r))]"

definition audit_json :: "reference \<Rightarrow> pyval" where
  "audit_json r = PDict [(''writer_id'', PStr (rf_owner r)), (''audit_sequence'', PInt (rf_sequence r)), (''event_sha256'', PStr (rf_sha256 r))]"

record observed =
  ob_sha256 :: string
  ob_connections :: int
  ob_request_bytes :: int
  ob_response_bytes :: int

definition read_observed :: "pyval \<Rightarrow> string + observed" where
  "read_observed v =
    bindE (fields_are v [''evidence_sha256'', ''connections'', ''request_bytes'', ''response_bytes'']) (\<lambda>_.
    bindE (hash_field (item v ''evidence_sha256'')) (\<lambda>sha.
    bindE (whole (item v ''connections'') 0 3) (\<lambda>connections.
    bindE (whole (item v ''request_bytes'') 0 4096) (\<lambda>request_bytes.
    bindE (whole (item v ''response_bytes'') 0 4096) (\<lambda>response_bytes.
    Inr \<lparr>ob_sha256 = sha, ob_connections = connections, ob_request_bytes = request_bytes, ob_response_bytes = response_bytes\<rparr>)))))"

definition observed_json :: "observed \<Rightarrow> pyval" where
  "observed_json b = PDict [(''evidence_sha256'', PStr (ob_sha256 b)), (''connections'', PInt (ob_connections b)),
     (''request_bytes'', PInt (ob_request_bytes b)), (''response_bytes'', PInt (ob_response_bytes b))]"

section \<open>Requests\<close>

datatype slot = Http_identify | Http_headers

fun slot_name :: "slot \<Rightarrow> string" where
  "slot_name Http_identify = ''http_identify''" | "slot_name Http_headers = ''http_headers''"

definition read_slot :: "pyval \<Rightarrow> string + slot" where
  "read_slot v = (if v = PStr ''http_identify'' then Inr Http_identify
     else if v = PStr ''http_headers'' then Inr Http_headers else Inl (dcode ''invalid_input''))"

datatype reported = Reported_success | Reported_failure | Cancelled | Unresolved

fun reported_name :: "reported \<Rightarrow> string" where
  "reported_name Reported_success = ''reported_success''" | "reported_name Reported_failure = ''reported_failure''"
| "reported_name Cancelled = ''cancelled''" | "reported_name Unresolved = ''unresolved''"

definition read_reported :: "pyval \<Rightarrow> string + reported" where
  "read_reported v = (if v = PStr ''reported_success'' then Inr Reported_success
     else if v = PStr ''reported_failure'' then Inr Reported_failure
     else if v = PStr ''cancelled'' then Inr Cancelled
     else if v = PStr ''unresolved'' then Inr Unresolved else Inl (dcode ''invalid_input''))"

record session_claim =
  sl_session :: string
  sl_owner :: string
  sl_clock :: clock
  sl_deadline :: int

record reserve_claim =
  rv_dispatch :: string
  rv_session :: string
  rv_owner :: string
  rv_slot :: slot
  rv_approval :: reference
  rv_audit :: reference
  rv_clock :: clock

record complete_claim =
  cp_dispatch :: string
  cp_session :: string
  cp_owner :: string
  cp_reported :: reported
  cp_observed :: "observed option"
  cp_clock :: clock

datatype claim = Opening roe | Revising roe | Revoking | Starting session_claim | Reserving reserve_claim | Completing complete_claim

fun claim_name :: "claim \<Rightarrow> string" where
  "claim_name (Opening r) = ''create''" | "claim_name (Revising r) = ''revise''" | "claim_name Revoking = ''revoke''"
| "claim_name (Starting c) = ''session''" | "claim_name (Reserving c) = ''reserve''" | "claim_name (Completing c) = ''complete''"

record dispatch_request =
  dq_engagement :: string
  dq_event :: string
  dq_expected :: "(int \<times> int) option"
  dq_claim :: claim

fun claim_json :: "claim \<Rightarrow> pyval" where
  "claim_json (Opening r) = roe_json r"
| "claim_json (Revising r) = roe_json r"
| "claim_json Revoking = PNone"
| "claim_json (Starting c) = PDict [(''session_id'', PStr (sl_session c)), (''owner_id'', PStr (sl_owner c)),
     (''clock'', clock_json (sl_clock c)), (''original_deadline_ns'', PInt (sl_deadline c))]"
| "claim_json (Reserving c) = PDict [(''dispatch_id'', PStr (rv_dispatch c)), (''session_id'', PStr (rv_session c)),
     (''owner_id'', PStr (rv_owner c)), (''slot'', PStr (slot_name (rv_slot c))), (''approval'', approval_json (rv_approval c)),
     (''audit'', audit_json (rv_audit c)), (''clock'', clock_json (rv_clock c))]"
| "claim_json (Completing c) = PDict [(''dispatch_id'', PStr (cp_dispatch c)), (''session_id'', PStr (cp_session c)),
     (''owner_id'', PStr (cp_owner c)), (''outcome'', PStr (reported_name (cp_reported c))),
     (''observation'', optional observed_json (cp_observed c)), (''clock'', clock_json (cp_clock c))]"

definition dispatch_json :: "dispatch_request \<Rightarrow> pyval" where
  "dispatch_json q = PDict [(''schema_version'', PStr ''2''), (''engagement_id'', PStr (dq_engagement q)),
     (''event_id'', PStr (dq_event q)), (''operation'', PStr (claim_name (dq_claim q))),
     (''expected_revision'', optional PInt (map_option fst (dq_expected q))),
     (''expected_generation'', optional PInt (map_option snd (dq_expected q))), (''body'', claim_json (dq_claim q))]"

definition DISPATCH_FIELDS :: "string list" where
  "DISPATCH_FIELDS = [''schema_version'', ''engagement_id'', ''event_id'', ''operation'', ''expected_revision'',
     ''expected_generation'', ''body'']"

definition read_expected :: "string \<Rightarrow> pyval \<Rightarrow> string + (int \<times> int) option" where
  "read_expected operation v =
    (if operation \<in> {''create'', ''complete''}
     then bindE (require (item v ''expected_revision'' = PNone \<and> item v ''expected_generation'' = PNone) (dcode ''invalid_input''))
       (\<lambda>_. Inr None)
     else bindE (whole (item v ''expected_revision'') 1 64) (\<lambda>revision.
       bindE (whole (item v ''expected_generation'') 0 64) (\<lambda>generation. Inr (Some (revision, generation)))))"

definition session_claim :: "pyval \<Rightarrow> string + claim" where
  "session_claim v =
    bindE (fields_are v [''session_id'', ''owner_id'', ''clock'', ''original_deadline_ns'']) (\<lambda>_.
    bindE (uuid_field (item v ''session_id'')) (\<lambda>session.
    bindE (uuid_field (item v ''owner_id'')) (\<lambda>owner.
    bindE (validate_clock (item v ''clock'')) (\<lambda>clock.
    bindE (whole (item v ''original_deadline_ns'') 1 INTEGER_MAX) (\<lambda>deadline.
    Inr (Starting \<lparr>sl_session = session, sl_owner = owner, sl_clock = clock, sl_deadline = deadline\<rparr>))))))"

definition reserve_claim :: "pyval \<Rightarrow> string + claim" where
  "reserve_claim v =
    bindE (fields_are v [''session_id'', ''owner_id'', ''clock'', ''dispatch_id'', ''slot'', ''approval'', ''audit'']) (\<lambda>_.
    bindE (uuid_field (item v ''session_id'')) (\<lambda>session.
    bindE (uuid_field (item v ''owner_id'')) (\<lambda>owner.
    bindE (validate_clock (item v ''clock'')) (\<lambda>clock.
    bindE (uuid_field (item v ''dispatch_id'')) (\<lambda>dispatch.
    bindE (read_slot (item v ''slot'')) (\<lambda>slot.
    bindE (approval_reference (item v ''approval'')) (\<lambda>approval.
    bindE (audit_reference (item v ''audit'')) (\<lambda>audit.
    Inr (Reserving \<lparr>rv_dispatch = dispatch, rv_session = session, rv_owner = owner, rv_slot = slot, rv_approval = approval,
      rv_audit = audit, rv_clock = clock\<rparr>)))))))))"

text \<open>A reported success needs an observation that counts a connection and bytes both ways.\<close>

definition observed_enough :: "reported \<Rightarrow> observed option \<Rightarrow> bool" where
  "observed_enough r b \<longleftrightarrow> (r = Reported_success \<longrightarrow> (case b of None \<Rightarrow> False
     | Some b \<Rightarrow> ob_connections b \<noteq> 0 \<and> ob_request_bytes b \<noteq> 0 \<and> ob_response_bytes b \<noteq> 0))"

definition complete_claim :: "pyval \<Rightarrow> string + claim" where
  "complete_claim v =
    bindE (fields_are v [''session_id'', ''owner_id'', ''clock'', ''dispatch_id'', ''outcome'', ''observation'']) (\<lambda>_.
    bindE (uuid_field (item v ''session_id'')) (\<lambda>session.
    bindE (uuid_field (item v ''owner_id'')) (\<lambda>owner.
    bindE (validate_clock (item v ''clock'')) (\<lambda>clock.
    bindE (uuid_field (item v ''dispatch_id'')) (\<lambda>dispatch.
    bindE (read_reported (item v ''outcome'')) (\<lambda>reported.
    bindE (if item v ''observation'' = PNone then Inr None
       else bindE (read_observed (item v ''observation'')) (\<lambda>b. Inr (Some b))) (\<lambda>observed.
    bindE (require (observed_enough reported observed) (dcode ''invalid_input'')) (\<lambda>_.
    Inr (Completing \<lparr>cp_dispatch = dispatch, cp_session = session, cp_owner = owner, cp_reported = reported,
      cp_observed = observed, cp_clock = clock\<rparr>)))))))))"

definition read_claim :: "string \<Rightarrow> pyval \<Rightarrow> string + claim" where
  "read_claim operation v =
    (if operation = ''create'' then bindE (dispatch_roe v) (\<lambda>r. Inr (Opening r))
     else if operation = ''revise'' then bindE (dispatch_roe v) (\<lambda>r. Inr (Revising r))
     else if operation = ''revoke'' then bindE (require (v = PNone) (dcode ''invalid_input'')) (\<lambda>_. Inr Revoking)
     else if operation = ''session'' then session_claim v
     else if operation = ''reserve'' then reserve_claim v
     else complete_claim v)"

definition OPERATIONS :: "string list" where
  "OPERATIONS = [''create'', ''revise'', ''revoke'', ''session'', ''reserve'', ''complete'']"

definition dispatch_body :: "pyval \<Rightarrow> string + dispatch_request" where
  "dispatch_body v =
    bindE (fields_are v DISPATCH_FIELDS) (\<lambda>_.
    bindE (require (item v ''schema_version'' = PStr ''2'') (dcode ''invalid_input'')) (\<lambda>_.
    bindE (uuid_field (item v ''engagement_id'')) (\<lambda>engagement.
    bindE (uuid_field (item v ''event_id'')) (\<lambda>event.
    bindE (require (str_in OPERATIONS (item v ''operation'')) (dcode ''invalid_input'')) (\<lambda>_.
    let operation = the_str (item v ''operation'') in
    bindE (read_expected operation v) (\<lambda>expected.
    bindE (read_claim operation (item v ''body'')) (\<lambda>claim.
    Inr \<lparr>dq_engagement = engagement, dq_event = event, dq_expected = expected, dq_claim = claim\<rparr>)))))))"

definition validate_dispatch :: "pyval \<Rightarrow> string + dispatch_request" where
  "validate_dispatch v = validation ''invalid_request'' (bindE (detach REQUEST_BYTES v) dispatch_body)"

section \<open>The plan's policy and reservation\<close>

definition DISPATCH_REQUEST_DOMAIN :: string where
  "DISPATCH_REQUEST_DOMAIN = ''recon-engagement-dispatch-request-v2'' @ [CHR 0x00]"

definition STATE_DOMAIN :: string where
  "STATE_DOMAIN = ''recon-engagement-dispatch-state-v2'' @ [CHR 0x00]"

definition dispatch_digest :: "(string \<Rightarrow> string) \<Rightarrow> pyval \<Rightarrow> string + string" where
  "dispatch_digest H v = bindE (validate_dispatch v) (\<lambda>q.
     bindE (canonical_text (dispatch_json q)) (\<lambda>raw. Inr (H (DISPATCH_REQUEST_DOMAIN @ raw))))"

definition supported :: "roe \<Rightarrow> bool" where
  "supported r \<longleftrightarrow> ''http'' \<notin> set (roe_excluded r) \<and> the (ep_path (sc_http (roe_scope r))) = ''/''
     \<and> {''configurable_nmap_service_v1'', ''configurable_http_headers_v1''} \<subseteq> set (roe_profiles r)"

definition dispatch_policy :: "roe \<Rightarrow> string + policy" where
  "dispatch_policy r = (let http = sc_http (roe_scope r) in
    bindE (require (supported r) (dcode ''unsupported_plan'')) (\<lambda>_.
    parse_policy (PDict [(''schema_version'', PStr ''1''), (''policy_version'', PStr ''engagement-http-prefix-v1''),
      (''allowed_targets'', PList [PStr (ep_target http)]),
      (''allowed_tools'', PList [PStr ''configurable_nmap_service_v1'', PStr ''configurable_http_headers_v1'']),
      (''allowed_ports'', PList [PInt (ep_port http)]), (''allowed_methods'', PList [PStr ''GET'']),
      (''max_timeout_seconds'', PInt 5), (''max_output_bytes'', PInt 8192), (''max_targets'', PInt 1),
      (''require_approval'', PBool True), (''approval_ttl_seconds'', PInt 60)])))"

definition policy_for_roe :: "pyval \<Rightarrow> string + policy" where
  "policy_for_roe v = bindE (dispatch_roe v) dispatch_policy"

record usage =
  us_actions :: int
  us_connections :: int
  us_request :: int
  us_response :: int
  us_runtime :: int

definition usage_list :: "usage \<Rightarrow> int list" where
  "usage_list u = [us_actions u, us_connections u, us_request u, us_response u, us_runtime u]"

definition USAGE_KEYS :: "string list" where
  "USAGE_KEYS = [''actions'', ''connections'', ''request_bytes'', ''response_bytes'', ''runtime_ms'']"

definition usage_json :: "usage \<Rightarrow> pyval" where
  "usage_json u = PDict (zip USAGE_KEYS (map PInt (usage_list u)))"

text \<open>\<open>_CAPS\<close>: the limit of the rules of engagement for each counter.\<close>

definition caps :: "roe \<Rightarrow> int list" where
  "caps r = map (roe_limit r) [''max_actions'', ''max_connections'', ''max_request_bytes'', ''max_response_bytes'', ''max_engagement_ms'']"

definition no_usage :: usage where
  "no_usage = \<lparr>us_actions = 0, us_connections = 0, us_request = 0, us_response = 0, us_runtime = 0\<rparr>"

definition add_usage :: "usage \<Rightarrow> usage \<Rightarrow> usage" where
  "add_usage u w = \<lparr>us_actions = us_actions u + us_actions w, us_connections = us_connections u + us_connections w,
     us_request = us_request u + us_request w, us_response = us_response u + us_response w, us_runtime = us_runtime u + us_runtime w\<rparr>"

text \<open>\<open>_SLOTS\<close>: plan step, connections, request and response bytes.\<close>

fun slot_step :: "slot \<Rightarrow> int" where
  "slot_step Http_identify = 1" | "slot_step Http_headers = 2"

fun slot_cost :: "slot \<Rightarrow> int \<Rightarrow> usage" where
  "slot_cost Http_identify ms = \<lparr>us_actions = 1, us_connections = 3, us_request = 4096, us_response = 4096, us_runtime = ms\<rparr>"
| "slot_cost Http_headers ms = \<lparr>us_actions = 1, us_connections = 1, us_request = 256, us_response = 2048, us_runtime = ms\<rparr>"

definition reservation_cost :: "roe \<Rightarrow> slot \<Rightarrow> string + usage" where
  "reservation_cost r k = bindE (require (supported r) (dcode ''unsupported_plan'')) (\<lambda>_.
     Inr (slot_cost k (min 30000 (roe_limit r ''max_action_ms''))))"

definition reservation_for :: "pyval \<Rightarrow> pyval \<Rightarrow> string + usage" where
  "reservation_for v name = bindE (dispatch_roe v) (\<lambda>r.
     bindE (require (supported r) (dcode ''unsupported_plan'')) (\<lambda>_.
     bindE (read_slot name) (\<lambda>k. Inr (slot_cost k (min 30000 (roe_limit r ''max_action_ms''))))))"

section \<open>Windows\<close>

text \<open>Nanoseconds since 1970 of an instant; \<open>instant_text\<close> counts seconds since 2000.\<close>

definition epoch_ns :: "string \<Rightarrow> int" where
  "epoch_ns t = (case instant_text t of Inr s \<Rightarrow> (946684800 + s) * 1000000000 | Inl e \<Rightarrow> 0)"

definition add_ns :: "int \<Rightarrow> int \<Rightarrow> string + int" where
  "add_ns a b = bindE (require (0 \<le> a + b \<and> a + b \<le> INTEGER_MAX) (dcode ''invalid_request'')) (\<lambda>_. Inr (a + b))"

definition window_end :: "roe \<Rightarrow> clock \<Rightarrow> string + int" where
  "window_end r c =
    bindE (require (epoch_ns (roe_start r) \<le> ck_utc c) (dcode ''window_closed'')) (\<lambda>_.
    bindE (add_ns (ck_utc c) (ck_after c - ck_before c)) (\<lambda>latest.
    bindE (require (latest < epoch_ns (roe_end r)) (dcode ''window_closed'')) (\<lambda>_.
    add_ns (ck_before c) (epoch_ns (roe_end r) - ck_utc c))))"

definition high_water_ok :: "clock \<Rightarrow> int option \<Rightarrow> bool" where
  "high_water_ok c high \<longleftrightarrow> (case high of None \<Rightarrow> True | Some h \<Rightarrow> h \<le> ck_utc c + CLOCK_TOLERANCE)"

text \<open>The window's and the session's deadline.\<close>

definition window_budget_of :: "roe \<Rightarrow> clock \<Rightarrow> int \<Rightarrow> int option \<Rightarrow> string + int \<times> int" where
  "window_budget_of r c deadline high =
    bindE (window_end r c) (\<lambda>stop.
    bindE (require (high_water_ok c high) (dcode ''clock_invalid'')) (\<lambda>_.
    bindE (require (ck_after c < deadline) (dcode ''deadline_expired'')) (\<lambda>_.
    bindE (add_ns (ck_after c) SESSION_NS) (\<lambda>latest.
    bindE (require (deadline \<le> latest) (dcode ''invalid_request'')) (\<lambda>_.
    Inr (stop, min deadline stop))))))"

definition window_budget :: "pyval \<Rightarrow> pyval \<Rightarrow> pyval \<Rightarrow> pyval \<Rightarrow> string + int \<times> int" where
  "window_budget v c deadline high =
    bindE (dispatch_roe v) (\<lambda>r.
    bindE (validate_clock c) (\<lambda>clock.
    bindE (whole deadline 1 INTEGER_MAX) (\<lambda>d.
    bindE (if high = PNone then Inr None else bindE (whole high UTC_MIN UTC_MAX) (\<lambda>h. Inr (Some h))) (\<lambda>h.
    window_budget_of r clock d h))))"

datatype clock_status = Nonmonotonic | Window_closed | Clock_changed | Deadline_elapsed | Valid_clock

fun status_text :: "clock_status \<Rightarrow> string" where
  "status_text Nonmonotonic = ''nonmonotonic''" | "status_text Window_closed = ''window_closed''"
| "status_text Clock_changed = ''clock_changed''" | "status_text Deadline_elapsed = ''deadline_elapsed''"
| "status_text Valid_clock = ''valid''"

text \<open>The wall clock moved as much as the monotonic clock, within the tolerance.\<close>

definition clock_agrees :: "clock \<Rightarrow> clock \<Rightarrow> bool" where
  "clock_agrees previous c \<longleftrightarrow> ck_before c - ck_after previous - CLOCK_TOLERANCE \<le> ck_utc c - ck_utc previous
     \<and> ck_utc c - ck_utc previous \<le> ck_after c - ck_before previous + CLOCK_TOLERANCE"

definition clock_status :: "roe \<Rightarrow> clock \<Rightarrow> clock \<Rightarrow> int option \<Rightarrow> int \<Rightarrow> string + clock_status" where
  "clock_status r c previous high deadline =
    (if ck_before c < ck_after previous then Inr Nonmonotonic
     else if ck_utc c < epoch_ns (roe_start r) then Inr Window_closed
     else bindE (add_ns (ck_utc c) (ck_after c - ck_before c)) (\<lambda>latest.
       if epoch_ns (roe_end r) \<le> latest then Inr Window_closed
       else if \<not> high_water_ok c high \<or> \<not> clock_agrees previous c then Inr Clock_changed
       else if deadline \<le> ck_after c then Inr Deadline_elapsed
       else Inr Valid_clock))"

fun status_error :: "clock_status \<Rightarrow> string + unit" where
  "status_error Window_closed = Inl (dcode ''window_closed'')"
| "status_error Nonmonotonic = Inl (dcode ''clock_invalid'')"
| "status_error Clock_changed = Inl (dcode ''clock_invalid'')"
| "status_error Deadline_elapsed = Inl (dcode ''deadline_expired'')"
| "status_error Valid_clock = Inr ()"

end
