(* ===== verification/DispatchEngine.thy ===== *)
theory DispatchEngine
  imports DispatchContract
begin

text \<open>
  The transition engine of the dispatch ledger (\<open>_Engine\<close> of
  \<open>secure_agent/engagement_dispatch_contract.py\<close>), shared by new transitions and by the replay of
  a stored export. An engine holds the export and the dictionaries that index it. A dictionary
  whose keys are only ever added is the association list in insertion order; one that is
  overwritten is a map, a set of keys is a set. A failing call leaves no engine behind: the code
  builds one per call.
\<close>

section \<open>Rows\<close>

record session_row =
  sw_session :: string
  sw_owner :: string
  sw_revision :: int
  sw_generation :: int
  sw_policy :: string
  sw_clock :: clock
  sw_original :: int
  sw_deadline :: int

record reservation_row =
  rw_dispatch :: string
  rw_session :: string
  rw_owner :: string
  rw_revision :: int
  rw_generation :: int
  rw_slot :: slot
  rw_action :: string
  rw_action_sha256 :: string
  rw_policy :: string
  rw_approval :: reference
  rw_audit :: reference
  rw_clock :: clock
  rw_ready :: int
  rw_deadline :: int
  rw_cost :: usage

record completion_row =
  cw_dispatch :: string
  cw_session :: string
  cw_owner :: string
  cw_reported :: reported
  cw_observed :: "observed option"
  cw_clock :: clock
  cw_status :: clock_status
  cw_eligible :: bool

record dispatch_state =
  ds_revision :: int
  ds_generation :: int
  ds_revoked :: bool
  ds_last :: int
  ds_roe_sha256 :: string
  ds_usage :: usage
  ds_high :: "int option"

record dispatch_receipt =
  dr_engagement :: string
  dr_event :: string
  dr_sequence :: int
  dr_operation :: string
  dr_revision :: int
  dr_generation :: int
  dr_revoked :: bool
  dr_session :: "string option"
  dr_dispatch :: "string option"
  dr_state_sha256 :: string
  dr_usage :: usage

record dispatch_event =
  de_sequence :: int
  de_request_sha256 :: string
  de_request :: dispatch_request
  de_receipt :: dispatch_receipt

record dispatch_export =
  dx_engagement :: string
  dx_state :: dispatch_state
  dx_revisions :: "(roe \<times> string) list"
  dx_sessions :: "session_row list"
  dx_reservations :: "reservation_row list"
  dx_completions :: "completion_row list"
  dx_events :: "dispatch_event list"

section \<open>As dictionaries\<close>

definition session_row_json :: "session_row \<Rightarrow> pyval" where
  "session_row_json r = PDict [(''session_id'', PStr (sw_session r)), (''owner_id'', PStr (sw_owner r)),
     (''revision'', PInt (sw_revision r)), (''generation'', PInt (sw_generation r)), (''plan'', PStr ''http-prefix-v1''),
     (''policy_sha256'', PStr (sw_policy r)), (''clock'', clock_json (sw_clock r)),
     (''original_deadline_ns'', PInt (sw_original r)), (''session_deadline_ns'', PInt (sw_deadline r))]"

definition reservation_row_json :: "reservation_row \<Rightarrow> pyval" where
  "reservation_row_json r = PDict [(''dispatch_id'', PStr (rw_dispatch r)), (''session_id'', PStr (rw_session r)),
     (''owner_id'', PStr (rw_owner r)), (''revision'', PInt (rw_revision r)), (''generation'', PInt (rw_generation r)),
     (''slot'', PStr (slot_name (rw_slot r))), (''action_id'', PStr (rw_action r)), (''action_sha256'', PStr (rw_action_sha256 r)),
     (''policy_sha256'', PStr (rw_policy r)), (''approval'', approval_json (rw_approval r)), (''audit'', audit_json (rw_audit r)),
     (''clock'', clock_json (rw_clock r)), (''ready_at_ns'', PInt (rw_ready r)), (''deadline_ns'', PInt (rw_deadline r)),
     (''reservation'', usage_json (rw_cost r))]"

definition completion_row_json :: "completion_row \<Rightarrow> pyval" where
  "completion_row_json r = PDict [(''dispatch_id'', PStr (cw_dispatch r)), (''session_id'', PStr (cw_session r)),
     (''owner_id'', PStr (cw_owner r)), (''outcome'', PStr (reported_name (cw_reported r))),
     (''observation'', optional observed_json (cw_observed r)), (''clock'', clock_json (cw_clock r)),
     (''clock_status'', PStr (status_text (cw_status r))), (''continuation_eligible'', PBool (cw_eligible r))]"

definition state_json :: "dispatch_state \<Rightarrow> pyval" where
  "state_json s = PDict [(''revision'', PInt (ds_revision s)), (''generation'', PInt (ds_generation s)),
     (''status'', PStr (status_name (ds_revoked s))), (''last_sequence'', PInt (ds_last s)),
     (''roe_sha256'', PStr (ds_roe_sha256 s)), (''usage'', usage_json (ds_usage s)), (''utc_high_water_ns'', optional PInt (ds_high s))]"

definition dispatch_receipt_json :: "dispatch_receipt \<Rightarrow> pyval" where
  "dispatch_receipt_json r = PDict [(''schema_version'', PStr ''2''), (''engagement_id'', PStr (dr_engagement r)),
     (''event_id'', PStr (dr_event r)), (''sequence'', PInt (dr_sequence r)), (''operation'', PStr (dr_operation r)),
     (''revision'', PInt (dr_revision r)), (''generation'', PInt (dr_generation r)), (''status'', PStr (status_name (dr_revoked r))),
     (''session_id'', optional PStr (dr_session r)), (''dispatch_id'', optional PStr (dr_dispatch r)),
     (''state_sha256'', PStr (dr_state_sha256 r)), (''usage'', usage_json (dr_usage r))]"

definition dispatch_event_json :: "dispatch_event \<Rightarrow> pyval" where
  "dispatch_event_json v = PDict [(''sequence'', PInt (de_sequence v)), (''event_id'', PStr (dq_event (de_request v))),
     (''request_sha256'', PStr (de_request_sha256 v)), (''request'', dispatch_json (de_request v)),
     (''receipt'', dispatch_receipt_json (de_receipt v))]"

definition dispatch_export_json :: "dispatch_export \<Rightarrow> pyval" where
  "dispatch_export_json x = PDict [(''schema_version'', PStr ''2''), (''kind'', PStr ''engagement_dispatch_ledger''),
     (''engagement_id'', PStr (dx_engagement x)), (''state'', state_json (dx_state x)),
     (''revisions'', PList (revision_values 1 (dx_revisions x))),
     (''sessions'', PList (map session_row_json (dx_sessions x))),
     (''reservations'', PList (map reservation_row_json (dx_reservations x))),
     (''completions'', PList (map completion_row_json (dx_completions x))),
     (''events'', PList (map dispatch_event_json (dx_events x)))]"

section \<open>The engine\<close>

record engine =
  eg_export :: dispatch_export
  eg_events :: "string list"
  eg_sessions :: "(string \<times> session_row) list"
  eg_reservations :: "(string \<times> reservation_row) list"
  eg_completions :: "(string \<times> completion_row) list"
  eg_slots :: "((string \<times> slot) \<times> string) list"
  eg_approvals :: "(string \<times> int) set"
  eg_audits :: "(string \<times> int) set"
  eg_clocks :: "string \<Rightarrow> clock option"
  eg_roes :: "(int \<times> roe) list"
  eg_policies :: "int \<Rightarrow> string option"
  eg_actions :: "int \<times> slot \<Rightarrow> (string \<times> string) option"

definition reference_key :: "reference \<Rightarrow> string \<times> int" where
  "reference_key r = (rf_owner r, rf_sequence r)"

definition roe_at :: "engine \<Rightarrow> int \<Rightarrow> roe" where
  "roe_at e n = the (map_of (eg_roes e) n)"

definition fit_row :: "pyval \<Rightarrow> int \<Rightarrow> string + unit" where
  "fit_row v limit = bindE (canonical_text v) (\<lambda>raw. require (int (length raw) \<le> limit) (dcode ''limit_exceeded''))"

definition state_at :: "engine \<Rightarrow> dispatch_state" where
  "state_at e = dx_state (eg_export e)"

text \<open>Digests of the policy and of the action are computed once per revision (and slot).\<close>

definition policy_sha256 :: "(string \<Rightarrow> string) \<Rightarrow> roe \<Rightarrow> string + string" where
  "policy_sha256 H r = bindE (dispatch_policy r) (\<lambda>p.
     bindE (parse_policy (policy_json p)) (\<lambda>p. Inr (policy_digest H p)))"

definition cached_policy :: "(string \<Rightarrow> string) \<Rightarrow> engine \<Rightarrow> string + string \<times> engine" where
  "cached_policy H e = (let n = ds_revision (state_at e) in case eg_policies e n of
     Some d \<Rightarrow> Inr (d, e)
   | None \<Rightarrow> bindE (policy_sha256 H (roe_at e n)) (\<lambda>d. Inr (d, e\<lparr>eg_policies := (eg_policies e)(n := Some d)\<rparr>)))"

definition action_identity :: "(string \<Rightarrow> string) \<Rightarrow> (string \<Rightarrow> string) \<Rightarrow> roe \<Rightarrow> slot \<Rightarrow> string + string \<times> string" where
  "action_identity H U r k =
    bindE (plan_action H U (scope_json (roe_scope r)) (PInt (slot_step k))) (\<lambda>c.
    bindE (parse_action (action_json c)) (\<lambda>c'. Inr (ac_id c, action_digest H c')))"

definition cached_action :: "(string \<Rightarrow> string) \<Rightarrow> (string \<Rightarrow> string) \<Rightarrow> int \<Rightarrow> slot \<Rightarrow> engine \<Rightarrow> string + (string \<times> string) \<times> engine" where
  "cached_action H U n k e = (case eg_actions e (n, k) of
     Some a \<Rightarrow> Inr (a, e)
   | None \<Rightarrow> bindE (action_identity H U (roe_at e n) k) (\<lambda>a. Inr (a, e\<lparr>eg_actions := (eg_actions e)((n, k) := Some a)\<rparr>)))"

definition start_session :: "(string \<Rightarrow> string) \<Rightarrow> session_claim \<Rightarrow> engine \<Rightarrow> string + engine" where
  "start_session H c e = (let s = state_at e in
    bindE (require (map_of (eg_sessions e) (sl_session c) = None) (dcode ''conflict'')) (\<lambda>_.
    bindE (require (length (eg_sessions e) < ROWS_LIMIT) (dcode ''limit_exceeded'')) (\<lambda>_.
    bindE (cached_policy H e) (\<lambda>(policy, e).
    bindE (window_budget_of (roe_at e (ds_revision s)) (sl_clock c) (sl_deadline c) (ds_high s)) (\<lambda>(_, deadline).
    let row = \<lparr>sw_session = sl_session c, sw_owner = sl_owner c, sw_revision = ds_revision s, sw_generation = ds_generation s,
        sw_policy = policy, sw_clock = sl_clock c, sw_original = sl_deadline c, sw_deadline = deadline\<rparr> in
    bindE (fit_row (session_row_json row) SESSION_BYTES) (\<lambda>_.
    Inr (e\<lparr>eg_export := (eg_export e)\<lparr>dx_sessions := dx_sessions (eg_export e) @ [row]\<rparr>,
      eg_sessions := eg_sessions e @ [(sl_session c, row)]\<rparr>)))))))"

definition owned_session :: "string \<Rightarrow> string \<Rightarrow> engine \<Rightarrow> string + session_row" where
  "owned_session session owner e = (case map_of (eg_sessions e) session of
     None \<Rightarrow> Inl (dcode ''conflict'')
   | Some row \<Rightarrow> bindE (require (sw_owner row = owner) (dcode ''foreign_owner'')) (\<lambda>_. Inr row))"

text \<open>When a slot may start: the session's clock, or the completion that makes the follow-up eligible.\<close>

definition ready_at :: "reserve_claim \<Rightarrow> session_row \<Rightarrow> engine \<Rightarrow> string + int" where
  "ready_at c session e =
    (if rv_slot c = Http_headers then
       (case map_of (eg_slots e) (rv_session c, Http_identify) of
          None \<Rightarrow> Inl (dcode ''predecessor_required'')
        | Some predecessor \<Rightarrow> (case map_of (eg_completions e) predecessor of
             None \<Rightarrow> Inl (dcode ''predecessor_required'')
           | Some row \<Rightarrow> bindE (require (cw_eligible row) (dcode ''predecessor_required'')) (\<lambda>_. Inr (ck_after (cw_clock row)))))
     else Inr (ck_after (sw_clock session)))"

definition within_caps :: "usage \<Rightarrow> roe \<Rightarrow> bool" where
  "within_caps u r \<longleftrightarrow> list_all2 (\<le>) (usage_list u) (caps r)"

definition unused :: "reserve_claim \<Rightarrow> engine \<Rightarrow> bool" where
  "unused c e \<longleftrightarrow> map_of (eg_reservations e) (rv_dispatch c) = None \<and> map_of (eg_slots e) (rv_session c, rv_slot c) = None
     \<and> reference_key (rv_approval c) \<notin> eg_approvals e \<and> reference_key (rv_audit c) \<notin> eg_audits e"

definition reserve_slot :: "(string \<Rightarrow> string) \<Rightarrow> (string \<Rightarrow> string) \<Rightarrow> reserve_claim \<Rightarrow> engine \<Rightarrow> string + engine" where
  "reserve_slot H U c e = (let s = state_at e in
    bindE (owned_session (rv_session c) (rv_owner c) e) (\<lambda>session.
    bindE (require (sw_revision session = ds_revision s \<and> sw_generation session = ds_generation s) (dcode ''conflict'')) (\<lambda>_.
    bindE (require (length (eg_reservations e) < ROWS_LIMIT) (dcode ''limit_exceeded'')) (\<lambda>_.
    bindE (require (unused c e) (dcode ''conflict'')) (\<lambda>_.
    bindE (ready_at c session e) (\<lambda>ready.
    let r = roe_at e (sw_revision session) in
    bindE (clock_status r (rv_clock c) (the (eg_clocks e (rv_session c))) (ds_high s) (sw_deadline session)) (\<lambda>status.
    bindE (status_error status) (\<lambda>_.
    bindE (reservation_cost r (rv_slot c)) (\<lambda>cost.
    bindE (add_ns ready (us_runtime cost * 1000000)) (\<lambda>latest.
    bindE (window_end r (rv_clock c)) (\<lambda>stop.
    let deadline = min (min (sw_deadline session) latest) stop; total = add_usage (ds_usage s) cost in
    bindE (require (ck_after (rv_clock c) < deadline) (dcode ''deadline_expired'')) (\<lambda>_.
    bindE (require (within_caps total r) (dcode ''allowance_exhausted'')) (\<lambda>_.
    bindE (cached_action H U (sw_revision session) (rv_slot c) e) (\<lambda>(action, e).
    let row = \<lparr>rw_dispatch = rv_dispatch c, rw_session = rv_session c, rw_owner = rv_owner c, rw_revision = sw_revision session,
        rw_generation = sw_generation session, rw_slot = rv_slot c, rw_action = fst action, rw_action_sha256 = snd action,
        rw_policy = sw_policy session, rw_approval = rv_approval c, rw_audit = rv_audit c, rw_clock = rv_clock c,
        rw_ready = ready, rw_deadline = deadline, rw_cost = cost\<rparr> in
    bindE (fit_row (reservation_row_json row) RESERVATION_BYTES) (\<lambda>_.
    Inr (e\<lparr>eg_export := (eg_export e)\<lparr>dx_reservations := dx_reservations (eg_export e) @ [row],
        dx_state := (dx_state (eg_export e))\<lparr>ds_usage := total\<rparr>\<rparr>,
      eg_reservations := eg_reservations e @ [(rv_dispatch c, row)],
      eg_slots := eg_slots e @ [((rv_session c, rv_slot c), rv_dispatch c)],
      eg_approvals := insert (reference_key (rv_approval c)) (eg_approvals e),
      eg_audits := insert (reference_key (rv_audit c)) (eg_audits e)\<rparr>))))))))))))))))"

definition observed_within :: "observed option \<Rightarrow> usage \<Rightarrow> bool" where
  "observed_within b u \<longleftrightarrow> (case b of None \<Rightarrow> True
     | Some b \<Rightarrow> ob_connections b \<le> us_connections u \<and> ob_request_bytes b \<le> us_request u \<and> ob_response_bytes b \<le> us_response u)"

definition complete_dispatch :: "complete_claim \<Rightarrow> engine \<Rightarrow> string + engine" where
  "complete_dispatch c e = (let s = state_at e in
    bindE (owned_session (cp_session c) (cp_owner c) e) (\<lambda>session.
    case map_of (eg_reservations e) (cp_dispatch c) of None \<Rightarrow> Inl (dcode ''conflict'') | Some reserved \<Rightarrow>
    bindE (require (rw_session reserved = cp_session c) (dcode ''conflict'')) (\<lambda>_.
    bindE (require (map_of (eg_completions e) (cp_dispatch c) = None) (dcode ''conflict'')) (\<lambda>_.
    bindE (require (length (eg_completions e) < ROWS_LIMIT) (dcode ''limit_exceeded'')) (\<lambda>_.
    bindE (require (observed_within (cp_observed c) (rw_cost reserved)) (dcode ''invalid_request'')) (\<lambda>_.
    bindE (clock_status (roe_at e (rw_revision reserved)) (cp_clock c) (the (eg_clocks e (cp_session c))) (ds_high s)
      (min (rw_deadline reserved) (sw_deadline session))) (\<lambda>status.
    let eligible = (rw_slot reserved = Http_identify \<and> cp_reported c = Reported_success \<and> \<not> ds_revoked s \<and> status = Valid_clock
        \<and> rw_revision reserved = ds_revision s \<and> rw_generation reserved = ds_generation s);
      row = \<lparr>cw_dispatch = cp_dispatch c, cw_session = cp_session c, cw_owner = cp_owner c, cw_reported = cp_reported c,
        cw_observed = cp_observed c, cw_clock = cp_clock c, cw_status = status, cw_eligible = eligible\<rparr> in
    bindE (fit_row (completion_row_json row) COMPLETION_BYTES) (\<lambda>_.
    Inr (e\<lparr>eg_export := (eg_export e)\<lparr>dx_completions := dx_completions (eg_export e) @ [row]\<rparr>,
      eg_completions := eg_completions e @ [(cp_dispatch c, row)]\<rparr>)))))))))"

section \<open>Transitions\<close>

definition dispatch_roe_sha :: "(string \<Rightarrow> string) \<Rightarrow> roe \<Rightarrow> string + string" where
  "dispatch_roe_sha H r = bindE (canonical_text (roe_json r)) (\<lambda>raw. Inr (H (ROE_DOMAIN @ raw)))"

definition open_engine :: "(string \<Rightarrow> string) \<Rightarrow> string \<Rightarrow> roe \<Rightarrow> string + engine" where
  "open_engine H engagement r = bindE (dispatch_roe_sha H r) (\<lambda>sha.
     Inr \<lparr>eg_export = \<lparr>dx_engagement = engagement,
          dx_state = \<lparr>ds_revision = 1, ds_generation = 0, ds_revoked = False, ds_last = 1, ds_roe_sha256 = sha,
            ds_usage = no_usage, ds_high = None\<rparr>,
          dx_revisions = [(r, sha)], dx_sessions = [], dx_reservations = [], dx_completions = [], dx_events = []\<rparr>,
       eg_events = [], eg_sessions = [], eg_reservations = [], eg_completions = [], eg_slots = [], eg_approvals = {}, eg_audits = {},
       eg_clocks = (\<lambda>_. None), eg_roes = [(1, r)], eg_policies = (\<lambda>_. None), eg_actions = (\<lambda>_. None)\<rparr>)"

definition revise_roe :: "(string \<Rightarrow> string) \<Rightarrow> roe \<Rightarrow> engine \<Rightarrow> string + engine" where
  "revise_roe H r e = (let s = state_at e in
    bindE (require (length (eg_roes e) < ROWS_LIMIT) (dcode ''limit_exceeded'')) (\<lambda>_.
    bindE (dispatch_roe_sha H r) (\<lambda>sha.
    Inr (e\<lparr>eg_export := (eg_export e)\<lparr>
          dx_state := s\<lparr>ds_revision := ds_revision s + 1, ds_generation := ds_generation s + 1, ds_roe_sha256 := sha\<rparr>,
          dx_revisions := dx_revisions (eg_export e) @ [(r, sha)]\<rparr>,
        eg_roes := eg_roes e @ [(ds_revision s + 1, r)]\<rparr>))))"

definition revoke_all :: "engine \<Rightarrow> engine" where
  "revoke_all e = e\<lparr>eg_export := (eg_export e)\<lparr>
     dx_state := (state_at e)\<lparr>ds_generation := ds_generation (state_at e) + 1, ds_revoked := True\<rparr>\<rparr>\<rparr>"

definition transit :: "(string \<Rightarrow> string) \<Rightarrow> (string \<Rightarrow> string) \<Rightarrow> claim \<Rightarrow> engine \<Rightarrow> string + engine" where
  "transit H U c e = (case c of
     Opening r \<Rightarrow> Inl (dcode ''conflict'')
   | Revising r \<Rightarrow> revise_roe H r e
   | Revoking \<Rightarrow> Inr (revoke_all e)
   | Starting c \<Rightarrow> start_session H c e
   | Reserving c \<Rightarrow> reserve_slot H U c e
   | Completing c \<Rightarrow> complete_dispatch c e)"

fun claim_session :: "claim \<Rightarrow> string option" where
  "claim_session (Starting c) = Some (sl_session c)" | "claim_session (Reserving c) = Some (rv_session c)"
| "claim_session (Completing c) = Some (cp_session c)" | "claim_session _ = None"

fun claim_dispatch :: "claim \<Rightarrow> string option" where
  "claim_dispatch (Reserving c) = Some (rv_dispatch c)" | "claim_dispatch (Completing c) = Some (cp_dispatch c)"
| "claim_dispatch _ = None"

fun claim_clock :: "claim \<Rightarrow> clock option" where
  "claim_clock (Starting c) = Some (sl_clock c)" | "claim_clock (Reserving c) = Some (rv_clock c)"
| "claim_clock (Completing c) = Some (cp_clock c)" | "claim_clock _ = None"

text \<open>\<open>max(state["utc_high_water_ns"] or utc, utc)\<close>, and the session's last clock.\<close>

definition observe_clock :: "claim \<Rightarrow> engine \<Rightarrow> engine" where
  "observe_clock c e = (case (claim_session c, claim_clock c) of
     (Some session, Some clock) \<Rightarrow>
       let s = state_at e; utc = ck_utc clock;
           high = (case ds_high s of None \<Rightarrow> utc | Some h \<Rightarrow> max (if h = 0 then utc else h) utc) in
       e\<lparr>eg_export := (eg_export e)\<lparr>dx_state := s\<lparr>ds_high := Some high\<rparr>\<rparr>, eg_clocks := (eg_clocks e)(session := Some clock)\<rparr>
   | _ \<Rightarrow> e)"

definition receipt_for :: "dispatch_request \<Rightarrow> string \<Rightarrow> dispatch_export \<Rightarrow> dispatch_receipt" where
  "receipt_for q sha x = (let s = dx_state x in
    \<lparr>dr_engagement = dx_engagement x, dr_event = dq_event q, dr_sequence = ds_last s, dr_operation = claim_name (dq_claim q),
     dr_revision = ds_revision s, dr_generation = ds_generation s, dr_revoked = ds_revoked s,
     dr_session = claim_session (dq_claim q), dr_dispatch = claim_dispatch (dq_claim q), dr_state_sha256 = sha, dr_usage = ds_usage s\<rparr>)"

definition number_event :: "engine \<Rightarrow> engine" where
  "number_event e = e\<lparr>eg_export := (eg_export e)\<lparr>
     dx_state := (state_at e)\<lparr>ds_last := int (length (dx_events (eg_export e))) + 1\<rparr>\<rparr>\<rparr>"

definition stamp :: "(string \<Rightarrow> string) \<Rightarrow> dispatch_request \<Rightarrow> engine \<Rightarrow> string + engine \<times> dispatch_receipt" where
  "stamp H q e0 = (let e = number_event (observe_clock (dq_claim q) e0) in
    bindE (canonical_text (state_json (state_at e))) (\<lambda>raw.
    let r = receipt_for q (H (STATE_DOMAIN @ raw)) (eg_export e) in
    bindE (fit_row (dispatch_receipt_json r) RECEIPT_BYTES) (\<lambda>_.
    bindE (canonical_text (dispatch_json q)) (\<lambda>text.
    let event = \<lparr>de_sequence = ds_last (state_at e), de_request_sha256 = H (DISPATCH_REQUEST_DOMAIN @ text), de_request = q, de_receipt = r\<rparr> in
    Inr (e\<lparr>eg_export := (eg_export e)\<lparr>dx_events := dx_events (eg_export e) @ [event]\<rparr>, eg_events := eg_events e @ [dq_event q]\<rparr>, r)))))"

definition advance_engine :: "(string \<Rightarrow> string) \<Rightarrow> (string \<Rightarrow> string) \<Rightarrow> dispatch_request \<Rightarrow> engine \<Rightarrow> string + engine" where
  "advance_engine H U q e = (let s = state_at e; completing = (claim_name (dq_claim q) = ''complete'') in
    bindE (require (dq_engagement q = dx_engagement (eg_export e) \<and> claim_name (dq_claim q) \<noteq> ''create'') (dcode ''conflict'')) (\<lambda>_.
    bindE (require (length (dx_events (eg_export e)) < EVENTS_LIMIT) (dcode ''limit_exceeded'')) (\<lambda>_.
    bindE (require (completing \<or> \<not> ds_revoked s) (dcode ''revoked'')) (\<lambda>_.
    bindE (require (completing \<or> dq_expected q = Some (ds_revision s, ds_generation s)) (dcode ''conflict'')) (\<lambda>_.
    transit H U (dq_claim q) e)))))"

definition push :: "(string \<Rightarrow> string) \<Rightarrow> (string \<Rightarrow> string) \<Rightarrow> dispatch_request \<Rightarrow> engine option \<Rightarrow> string + engine \<times> dispatch_receipt" where
  "push H U q current = (case current of
     None \<Rightarrow> (case dq_claim q of
        Opening r \<Rightarrow> bindE (open_engine H (dq_engagement q) r) (stamp H q)
      | _ \<Rightarrow> Inl (dcode ''conflict''))
   | Some e \<Rightarrow>
       bindE (require (dq_event q \<notin> set (eg_events e)) (dcode ''conflict'')) (\<lambda>_.
       bindE (advance_engine H U q e) (stamp H q)))"

section \<open>Replay\<close>

definition EVENT_FIELDS :: "string list" where
  "EVENT_FIELDS = [''sequence'', ''event_id'', ''request_sha256'', ''request'', ''receipt'']"

fun replay_events :: "(string \<Rightarrow> string) \<Rightarrow> (string \<Rightarrow> string) \<Rightarrow> pyval list \<Rightarrow> engine option \<Rightarrow> string + engine option" where
  "replay_events H U [] current = Inr current"
| "replay_events H U (v # vs) current =
    bindE (fields_are v EVENT_FIELDS) (\<lambda>_.
    bindE (validate_dispatch (item v ''request'')) (\<lambda>q.
    bindE (push H U q current) (\<lambda>(e, _).
    replay_events H U vs (Some e))))"

definition EXPORT_FIELDS :: "string list" where
  "EXPORT_FIELDS = [''schema_version'', ''kind'', ''engagement_id'', ''state'', ''revisions'', ''sessions'', ''reservations'',
     ''completions'', ''events'']"

fun check_sizes :: "pyval \<Rightarrow> (string \<times> nat \<times> nat) list \<Rightarrow> string + unit" where
  "check_sizes v [] = Inr ()"
| "check_sizes v ((field, low, high) # rest) =
    bindE (require (is_list (item v field)) (dcode ''invalid_export'')) (\<lambda>_.
    bindE (require (low \<le> length (elements (item v field)) \<and> length (elements (item v field)) \<le> high) (dcode ''limit_exceeded'')) (\<lambda>_.
    check_sizes v rest))"

definition EXPORT_SIZES :: "(string \<times> nat \<times> nat) list" where
  "EXPORT_SIZES = [(''revisions'', 1, 64), (''sessions'', 0, 64), (''reservations'', 0, 64), (''completions'', 0, 64), (''events'', 1, 257)]"

definition reconstruct :: "(string \<Rightarrow> string) \<Rightarrow> (string \<Rightarrow> string) \<Rightarrow> pyval \<Rightarrow> string + engine" where
  "reconstruct H U v0 =
    bindE (canonical_text v0) (\<lambda>raw. let v = sort_keys v0 in
    bindE (fields_are v EXPORT_FIELDS) (\<lambda>_.
    bindE (require (item v ''schema_version'' = PStr ''2'' \<and> item v ''kind'' = PStr ''engagement_dispatch_ledger'') (dcode ''invalid_export'')) (\<lambda>_.
    bindE (uuid_field (item v ''engagement_id'')) (\<lambda>_.
    bindE (check_sizes v EXPORT_SIZES) (\<lambda>_.
    bindE (replay_events H U (elements (item v ''events'')) None) (\<lambda>current. case current of
       None \<Rightarrow> Inl (dcode ''invalid_export'')
     | Some e \<Rightarrow>
        bindE (canonical_text (dispatch_export_json (eg_export e))) (\<lambda>encoded.
        bindE (require (raw = encoded) (dcode ''invalid_export'')) (\<lambda>_. Inr e))))))))"

definition validate_ledger :: "(string \<Rightarrow> string) \<Rightarrow> (string \<Rightarrow> string) \<Rightarrow> pyval \<Rightarrow> string + dispatch_export" where
  "validate_ledger H U v = validation ''invalid_export'' (bindE (reconstruct H U v) (\<lambda>e. Inr (eg_export e)))"

text \<open>\<open>_apply\<close>: the next export and its receipt.\<close>

definition apply_request :: "(string \<Rightarrow> string) \<Rightarrow> (string \<Rightarrow> string) \<Rightarrow> dispatch_export option \<Rightarrow> dispatch_request
    \<Rightarrow> string + dispatch_export \<times> dispatch_receipt" where
  "apply_request H U snapshot q0 =
    bindE (case snapshot of None \<Rightarrow> Inr None
       | Some x \<Rightarrow> bindE (reconstruct H U (dispatch_export_json x)) (\<lambda>e. Inr (Some e))) (\<lambda>current.
    bindE (validate_dispatch (dispatch_json q0)) (\<lambda>q.
    bindE (push H U q current) (\<lambda>(e, r).
    bindE (detach EXPORT_BYTES (dispatch_export_json (eg_export e))) (\<lambda>_. Inr (eg_export e, r)))))"

section \<open>Decoding\<close>

text \<open>
  \<open>_decode\<close>: the container depth is limited before \<open>json.loads\<close> recurses. \<open>loads\<close> is
  \<open>json.loads\<close> with the module's hooks, \<open>None\<close> when it raises (malformed text, a repeated key, a
  float, a constant, a number outside 63 bits).
\<close>

definition decode_bytes :: "(string \<Rightarrow> pyval option) \<Rightarrow> string \<Rightarrow> int \<Rightarrow> string + pyval" where
  "decode_bytes loads raw limit =
    bindE (require (int (length raw) \<le> limit) (dcode ''limit_exceeded'')) (\<lambda>_.
    case scan_depth raw \<lparr>sn_depth = 0, sn_quoted = False, sn_escaped = False\<rparr> of
      Inl _ \<Rightarrow> Inl (dcode ''limit_exceeded'')
    | Inr _ \<Rightarrow> (case loads raw of None \<Rightarrow> Inl (dcode ''invalid_input'') | Some v \<Rightarrow> Inr v))"

definition decode_dispatch :: "(string \<Rightarrow> pyval option) \<Rightarrow> string \<Rightarrow> string + dispatch_request" where
  "decode_dispatch loads raw = validation ''invalid_request'' (bindE (decode_bytes loads raw REQUEST_BYTES) validate_dispatch)"

definition decode_ledger :: "(string \<Rightarrow> string) \<Rightarrow> (string \<Rightarrow> string) \<Rightarrow> (string \<Rightarrow> pyval option) \<Rightarrow> string \<Rightarrow> string + dispatch_export" where
  "decode_ledger H U loads raw = validation ''invalid_export'' (bindE (decode_bytes loads raw EXPORT_BYTES) (validate_ledger H U))"

end
