(* ===== verification/DispatchSafety.thy ===== *)
theory DispatchSafety
  imports DispatchEngine
begin

text \<open>
  Invariants of the dispatch engine: its dictionaries index the export, rows are used once and
  refer to one another, and the counters are the sum of the reservations. One inversion lemma per
  operation says which row it appends and what it checked.
\<close>

section \<open>Inversion\<close>

definition add_session :: "session_row \<Rightarrow> engine \<Rightarrow> engine" where
  "add_session row e = e\<lparr>eg_export := (eg_export e)\<lparr>dx_sessions := dx_sessions (eg_export e) @ [row]\<rparr>,
     eg_sessions := eg_sessions e @ [(sw_session row, row)]\<rparr>"

definition add_reservation :: "reservation_row \<Rightarrow> engine \<Rightarrow> engine" where
  "add_reservation row e = e\<lparr>eg_export := (eg_export e)\<lparr>dx_reservations := dx_reservations (eg_export e) @ [row],
        dx_state := (dx_state (eg_export e))\<lparr>ds_usage := add_usage (ds_usage (dx_state (eg_export e))) (rw_cost row)\<rparr>\<rparr>,
      eg_reservations := eg_reservations e @ [(rw_dispatch row, row)],
      eg_slots := eg_slots e @ [((rw_session row, rw_slot row), rw_dispatch row)],
      eg_approvals := insert (reference_key (rw_approval row)) (eg_approvals e),
      eg_audits := insert (reference_key (rw_audit row)) (eg_audits e)\<rparr>"

definition add_completion :: "completion_row \<Rightarrow> engine \<Rightarrow> engine" where
  "add_completion row e = e\<lparr>eg_export := (eg_export e)\<lparr>dx_completions := dx_completions (eg_export e) @ [row]\<rparr>,
     eg_completions := eg_completions e @ [(cw_dispatch row, row)]\<rparr>"

lemma cached_policy_Inr:
  assumes "cached_policy H e = Inr (d, e1)"
  obtains f where "e1 = e\<lparr>eg_policies := f\<rparr>"
    "eg_policies e (ds_revision (state_at e)) = Some d \<and> f = eg_policies e
      \<or> policy_sha256 H (roe_at e (ds_revision (state_at e))) = Inr d \<and> f = (eg_policies e)(ds_revision (state_at e) := Some d)"
proof (cases "eg_policies e (ds_revision (state_at e))")
  case None
  then show ?thesis using assms that [of "(eg_policies e)(ds_revision (state_at e) := Some d)"]
    by (auto simp: cached_policy_def Let_def res_simps)
next
  case (Some a)
  then show ?thesis using assms that [of "eg_policies e"] by (auto simp: cached_policy_def Let_def)
qed

lemma cached_action_Inr:
  assumes "cached_action H U n k e = Inr (a, e1)"
  obtains f where "e1 = e\<lparr>eg_actions := f\<rparr>"
    "eg_actions e (n, k) = Some a \<and> f = eg_actions e
      \<or> action_identity H U (roe_at e n) k = Inr a \<and> f = (eg_actions e)((n, k) := Some a)"
proof (cases "eg_actions e (n, k)")
  case None
  then show ?thesis using assms that [of "(eg_actions e)((n, k) := Some a)"]
    by (auto simp: cached_action_def Let_def res_simps)
next
  case (Some a)
  then show ?thesis using assms that [of "eg_actions e"] by (auto simp: cached_action_def Let_def)
qed

lemma start_session_Inr:
  assumes "start_session H c e = Inr e'"
  obtains policy e1 stop deadline row where
    "map_of (eg_sessions e) (sl_session c) = None" "length (eg_sessions e) < ROWS_LIMIT" "cached_policy H e = Inr (policy, e1)"
    "window_budget_of (roe_at e1 (ds_revision (state_at e))) (sl_clock c) (sl_deadline c) (ds_high (state_at e)) = Inr (stop, deadline)"
    "row = \<lparr>sw_session = sl_session c, sw_owner = sl_owner c, sw_revision = ds_revision (state_at e),
        sw_generation = ds_generation (state_at e), sw_policy = policy, sw_clock = sl_clock c, sw_original = sl_deadline c,
        sw_deadline = deadline\<rparr>"
    "e' = add_session row e1"
  using assms unfolding start_session_def Let_def
  by (auto simp: res_simps split: prod.splits) (auto simp: add_session_def)

lemma owned_session_Inr: "owned_session session owner e = Inr row \<longleftrightarrow> map_of (eg_sessions e) session = Some row \<and> sw_owner row = owner"
  by (auto simp: owned_session_def res_simps split: option.splits)

lemma status_error_Inr: "status_error s = Inr u \<longleftrightarrow> s = Valid_clock"
  by (cases s) simp_all

lemma reserve_slot_Inr:
  assumes "reserve_slot H U c e = Inr e'"
  obtains session ready cost latest stop action e1 row where
    "map_of (eg_sessions e) (rv_session c) = Some session" "sw_owner session = rv_owner c"
    "sw_revision session = ds_revision (state_at e)" "sw_generation session = ds_generation (state_at e)"
    "length (eg_reservations e) < ROWS_LIMIT" "unused c e" "ready_at c session e = Inr ready"
    "clock_status (roe_at e (sw_revision session)) (rv_clock c) (the (eg_clocks e (rv_session c))) (ds_high (state_at e)) (sw_deadline session)
      = Inr Valid_clock"
    "reservation_cost (roe_at e (sw_revision session)) (rv_slot c) = Inr cost"
    "add_ns ready (us_runtime cost * 1000000) = Inr latest" "window_end (roe_at e (sw_revision session)) (rv_clock c) = Inr stop"
    "ck_after (rv_clock c) < min (min (sw_deadline session) latest) stop"
    "within_caps (add_usage (ds_usage (state_at e)) cost) (roe_at e (sw_revision session))"
    "cached_action H U (sw_revision session) (rv_slot c) e = Inr (action, e1)"
    "row = \<lparr>rw_dispatch = rv_dispatch c, rw_session = rv_session c, rw_owner = rv_owner c, rw_revision = sw_revision session,
        rw_generation = sw_generation session, rw_slot = rv_slot c, rw_action = fst action, rw_action_sha256 = snd action,
        rw_policy = sw_policy session, rw_approval = rv_approval c, rw_audit = rv_audit c, rw_clock = rv_clock c,
        rw_ready = ready, rw_deadline = min (min (sw_deadline session) latest) stop, rw_cost = cost\<rparr>"
    "e' = add_reservation row e1"
proof -
  from assms obtain session ready status cost latest stop action e1 where
    o: "owned_session (rv_session c) (rv_owner c) e = Inr session"
    and g: "sw_revision session = ds_revision (state_at e) \<and> sw_generation session = ds_generation (state_at e)"
    and l: "length (eg_reservations e) < ROWS_LIMIT" and u: "unused c e" and r: "ready_at c session e = Inr ready"
    and s: "clock_status (roe_at e (sw_revision session)) (rv_clock c) (the (eg_clocks e (rv_session c))) (ds_high (state_at e)) (sw_deadline session)
      = Inr status" and v: "status_error status = Inr ()"
    and cost: "reservation_cost (roe_at e (sw_revision session)) (rv_slot c) = Inr cost"
    and a: "add_ns ready (us_runtime cost * 1000000) = Inr latest" and w: "window_end (roe_at e (sw_revision session)) (rv_clock c) = Inr stop"
    and d: "ck_after (rv_clock c) < min (min (sw_deadline session) latest) stop"
    and caps: "within_caps (add_usage (ds_usage (state_at e)) cost) (roe_at e (sw_revision session))"
    and act: "cached_action H U (sw_revision session) (rv_slot c) e = Inr (action, e1)"
    and e': "e' = e1\<lparr>eg_export := (eg_export e1)\<lparr>dx_reservations := dx_reservations (eg_export e1) @
        [\<lparr>rw_dispatch = rv_dispatch c, rw_session = rv_session c, rw_owner = rv_owner c, rw_revision = sw_revision session,
        rw_generation = sw_generation session, rw_slot = rv_slot c, rw_action = fst action, rw_action_sha256 = snd action,
        rw_policy = sw_policy session, rw_approval = rv_approval c, rw_audit = rv_audit c, rw_clock = rv_clock c,
        rw_ready = ready, rw_deadline = min (min (sw_deadline session) latest) stop, rw_cost = cost\<rparr>],
        dx_state := (dx_state (eg_export e1))\<lparr>ds_usage := add_usage (ds_usage (state_at e)) cost\<rparr>\<rparr>,
      eg_reservations := eg_reservations e1 @ [(rv_dispatch c, \<lparr>rw_dispatch = rv_dispatch c, rw_session = rv_session c, rw_owner = rv_owner c, rw_revision = sw_revision session,
        rw_generation = sw_generation session, rw_slot = rv_slot c, rw_action = fst action, rw_action_sha256 = snd action,
        rw_policy = sw_policy session, rw_approval = rv_approval c, rw_audit = rv_audit c, rw_clock = rv_clock c,
        rw_ready = ready, rw_deadline = min (min (sw_deadline session) latest) stop, rw_cost = cost\<rparr>)],
      eg_slots := eg_slots e1 @ [((rv_session c, rv_slot c), rv_dispatch c)],
      eg_approvals := insert (reference_key (rv_approval c)) (eg_approvals e1),
      eg_audits := insert (reference_key (rv_audit c)) (eg_audits e1)\<rparr>"
    unfolding reserve_slot_def Let_def by (auto simp: res_simps split: prod.splits)
  have "eg_export e1 = eg_export e" using act by (rule cached_action_Inr) simp
  then show ?thesis
    by (intro that [OF _ _ _ _ l u r _ cost a w d caps act refl])
      (use o g s v e' in \<open>simp_all add: owned_session_Inr status_error_Inr add_reservation_def state_at_def\<close>)
qed

lemma complete_dispatch_Inr:
  assumes "complete_dispatch c e = Inr e'"
  obtains session reserved status row where
    "map_of (eg_sessions e) (cp_session c) = Some session" "sw_owner session = cp_owner c"
    "map_of (eg_reservations e) (cp_dispatch c) = Some reserved" "rw_session reserved = cp_session c"
    "map_of (eg_completions e) (cp_dispatch c) = None" "length (eg_completions e) < ROWS_LIMIT"
    "observed_within (cp_observed c) (rw_cost reserved)"
    "clock_status (roe_at e (rw_revision reserved)) (cp_clock c) (the (eg_clocks e (cp_session c))) (ds_high (state_at e))
      (min (rw_deadline reserved) (sw_deadline session)) = Inr status"
    "row = \<lparr>cw_dispatch = cp_dispatch c, cw_session = cp_session c, cw_owner = cp_owner c, cw_reported = cp_reported c,
        cw_observed = cp_observed c, cw_clock = cp_clock c, cw_status = status,
        cw_eligible = (rw_slot reserved = Http_identify \<and> cp_reported c = Reported_success \<and> \<not> ds_revoked (state_at e) \<and> status = Valid_clock
        \<and> rw_revision reserved = ds_revision (state_at e) \<and> rw_generation reserved = ds_generation (state_at e))\<rparr>"
    "e' = add_completion row e"
  using assms unfolding complete_dispatch_def Let_def
  by (auto simp: res_simps owned_session_Inr split: option.splits) (auto simp: add_completion_def)

section \<open>The dictionaries index the export\<close>

definition by_key :: "('a \<Rightarrow> 'k) \<Rightarrow> 'a list \<Rightarrow> ('k \<times> 'a) list" where
  "by_key k rows = map (\<lambda>r. (k r, r)) rows"

lemma by_key_simps [simp]: "by_key k [] = []" "by_key k (rows @ [r]) = by_key k rows @ [(k r, r)]" "length (by_key k rows) = length rows"
  by (simp_all add: by_key_def)

lemma by_key_Some: "map_of (by_key k rows) x = Some r \<Longrightarrow> r \<in> set rows \<and> k r = x"
  by (drule map_of_SomeD) (auto simp: by_key_def)

lemma by_key_None: "map_of (by_key k rows) x = None \<longleftrightarrow> x \<notin> k ` set rows"
  by (force simp: by_key_def map_of_eq_None_iff)

lemma by_key_unique: "distinct (map k rows) \<Longrightarrow> r \<in> set rows \<Longrightarrow> map_of (by_key k rows) (k r) = Some r"
  by (rule map_of_is_SomeI) (auto simp: by_key_def comp_def)

definition slot_key :: "reservation_row \<Rightarrow> string \<times> slot" where
  "slot_key r = (rw_session r, rw_slot r)"

definition indexed :: "engine \<Rightarrow> bool" where
  "indexed e \<longleftrightarrow> (let x = eg_export e in
     eg_events e = map (\<lambda>v. dq_event (de_request v)) (dx_events x)
     \<and> eg_sessions e = by_key sw_session (dx_sessions x) \<and> eg_reservations e = by_key rw_dispatch (dx_reservations x)
     \<and> eg_completions e = by_key cw_dispatch (dx_completions x)
     \<and> eg_slots e = map (\<lambda>r. (slot_key r, rw_dispatch r)) (dx_reservations x)
     \<and> eg_approvals e = (\<lambda>r. reference_key (rw_approval r)) ` set (dx_reservations x)
     \<and> eg_audits e = (\<lambda>r. reference_key (rw_audit r)) ` set (dx_reservations x)
     \<and> eg_roes e = zip [1..int (length (dx_revisions x))] (map fst (dx_revisions x))
     \<and> ds_revision (dx_state x) = int (length (dx_revisions x)))"

lemma indexedD:
  assumes "indexed e"
  shows "eg_events e = map (\<lambda>v. dq_event (de_request v)) (dx_events (eg_export e))"
    "eg_sessions e = by_key sw_session (dx_sessions (eg_export e))"
    "eg_reservations e = by_key rw_dispatch (dx_reservations (eg_export e))"
    "eg_completions e = by_key cw_dispatch (dx_completions (eg_export e))"
    "eg_slots e = map (\<lambda>r. (slot_key r, rw_dispatch r)) (dx_reservations (eg_export e))"
    "eg_approvals e = (\<lambda>r. reference_key (rw_approval r)) ` set (dx_reservations (eg_export e))"
    "eg_audits e = (\<lambda>r. reference_key (rw_audit r)) ` set (dx_reservations (eg_export e))"
    "eg_roes e = zip [1..int (length (dx_revisions (eg_export e)))] (map fst (dx_revisions (eg_export e)))"
    "ds_revision (dx_state (eg_export e)) = int (length (dx_revisions (eg_export e)))"
  using assms by (simp_all add: indexed_def Let_def)

definition roe_of :: "dispatch_export \<Rightarrow> int \<Rightarrow> roe" where
  "roe_of x n = fst (dx_revisions x ! nat (n - 1))"

lemma roe_at_of:
  assumes "indexed e" and "1 \<le> n" and "n \<le> int (length (dx_revisions (eg_export e)))"
  shows "roe_at e n = roe_of (eg_export e) n"
proof -
  let ?rs = "dx_revisions (eg_export e)"
  have "map_of (zip [1..int (length ?rs)] (map fst ?rs)) n = Some (map fst ?rs ! nat (n - 1))"
    using assms(2,3) by (intro map_of_is_SomeI) (auto simp: set_zip intro!: exI [of _ "nat (n - 1)"])
  then show ?thesis using assms by (simp add: roe_at_def indexedD roe_of_def)
qed

section \<open>What every ledger satisfies\<close>

definition used_once :: "dispatch_export \<Rightarrow> bool" where
  "used_once x \<longleftrightarrow> distinct (map sw_session (dx_sessions x)) \<and> distinct (map rw_dispatch (dx_reservations x))
     \<and> distinct (map slot_key (dx_reservations x)) \<and> distinct (map (\<lambda>r. reference_key (rw_approval r)) (dx_reservations x))
     \<and> distinct (map (\<lambda>r. reference_key (rw_audit r)) (dx_reservations x)) \<and> distinct (map cw_dispatch (dx_completions x))"

definition known_revision :: "dispatch_export \<Rightarrow> int \<Rightarrow> bool" where
  "known_revision x n \<longleftrightarrow> 1 \<le> n \<and> n \<le> int (length (dx_revisions x))"

definition session_fine :: "(string \<Rightarrow> string) \<Rightarrow> dispatch_export \<Rightarrow> session_row \<Rightarrow> bool" where
  "session_fine H x w \<longleftrightarrow> known_revision x (sw_revision w) \<and> policy_sha256 H (roe_of x (sw_revision w)) = Inr (sw_policy w)
     \<and> sw_deadline w \<le> sw_original w \<and> ck_after (sw_clock w) < sw_original w \<and> sw_original w \<le> ck_after (sw_clock w) + SESSION_NS"

definition from_session :: "reservation_row \<Rightarrow> session_row \<Rightarrow> bool" where
  "from_session r w \<longleftrightarrow> sw_session w = rw_session r \<and> sw_owner w = rw_owner r \<and> sw_revision w = rw_revision r
     \<and> sw_generation w = rw_generation r \<and> sw_policy w = rw_policy r \<and> rw_deadline r \<le> sw_deadline w"

definition in_window :: "roe \<Rightarrow> clock \<Rightarrow> bool" where
  "in_window r c \<longleftrightarrow> epoch_ns (roe_start r) \<le> ck_utc c \<and> ck_utc c + (ck_after c - ck_before c) < epoch_ns (roe_end r)"

definition reservation_fine :: "(string \<Rightarrow> string) \<Rightarrow> (string \<Rightarrow> string) \<Rightarrow> dispatch_export \<Rightarrow> reservation_row \<Rightarrow> bool" where
  "reservation_fine H U x r \<longleftrightarrow> (\<exists>w \<in> set (dx_sessions x). from_session r w)
     \<and> (let roe = roe_of x (rw_revision r) in
        supported roe \<and> rw_cost r = slot_cost (rw_slot r) (min 30000 (roe_limit roe ''max_action_ms''))
        \<and> action_identity H U roe (rw_slot r) = Inr (rw_action r, rw_action_sha256 r) \<and> in_window roe (rw_clock r))
     \<and> ck_after (rw_clock r) < rw_deadline r \<and> rw_deadline r \<le> rw_ready r + us_runtime (rw_cost r) * 1000000"

definition follows_up :: "dispatch_export \<Rightarrow> reservation_row \<Rightarrow> bool" where
  "follows_up x r \<longleftrightarrow> (\<exists>p \<in> set (dx_reservations x). \<exists>c \<in> set (dx_completions x). rw_session p = rw_session r \<and> rw_slot p = Http_identify
     \<and> cw_dispatch c = rw_dispatch p \<and> cw_eligible c \<and> rw_ready r = ck_after (cw_clock c))"

definition completion_fine :: "dispatch_export \<Rightarrow> completion_row \<Rightarrow> bool" where
  "completion_fine x c \<longleftrightarrow> (\<exists>r \<in> set (dx_reservations x). rw_dispatch r = cw_dispatch c \<and> rw_session r = cw_session c
     \<and> rw_owner r = cw_owner c \<and> observed_within (cw_observed c) (rw_cost r)
     \<and> (cw_eligible c \<longrightarrow> rw_slot r = Http_identify \<and> cw_reported c = Reported_success \<and> cw_status c = Valid_clock))"

definition total_usage :: "reservation_row list \<Rightarrow> usage" where
  "total_usage rs = foldl add_usage no_usage (map rw_cost rs)"

definition accounted :: "dispatch_export \<Rightarrow> bool" where
  "accounted x \<longleftrightarrow> ds_usage (dx_state x) = total_usage (dx_reservations x)
     \<and> (dx_reservations x \<noteq> [] \<longrightarrow> within_caps (ds_usage (dx_state x)) (roe_of x (rw_revision (last (dx_reservations x)))))"

definition ledger_fine :: "(string \<Rightarrow> string) \<Rightarrow> (string \<Rightarrow> string) \<Rightarrow> dispatch_export \<Rightarrow> bool" where
  "ledger_fine H U x \<longleftrightarrow> used_once x \<and> list_all (session_fine H x) (dx_sessions x)
     \<and> list_all (reservation_fine H U x) (dx_reservations x)
     \<and> list_all (\<lambda>r. rw_slot r = Http_headers \<longrightarrow> follows_up x r) (dx_reservations x)
     \<and> list_all (completion_fine x) (dx_completions x) \<and> accounted x"

definition caches_right :: "(string \<Rightarrow> string) \<Rightarrow> (string \<Rightarrow> string) \<Rightarrow> engine \<Rightarrow> bool" where
  "caches_right H U e \<longleftrightarrow> (\<forall>n d. eg_policies e n = Some d \<longrightarrow> known_revision (eg_export e) n \<and> policy_sha256 H (roe_of (eg_export e) n) = Inr d)
     \<and> (\<forall>n k a. eg_actions e (n, k) = Some a \<longrightarrow> known_revision (eg_export e) n \<and> action_identity H U (roe_of (eg_export e) n) k = Inr a)"

definition engine_fine :: "(string \<Rightarrow> string) \<Rightarrow> (string \<Rightarrow> string) \<Rightarrow> engine \<Rightarrow> bool" where
  "engine_fine H U e \<longleftrightarrow> indexed e \<and> 1 \<le> length (dx_revisions (eg_export e)) \<and> caches_right H U e \<and> ledger_fine H U (eg_export e)"

section \<open>Growing ledgers\<close>

definition grows :: "dispatch_export \<Rightarrow> dispatch_export \<Rightarrow> bool" where
  "grows x y \<longleftrightarrow> (\<exists>rs. dx_revisions y = dx_revisions x @ rs) \<and> set (dx_sessions x) \<subseteq> set (dx_sessions y)
     \<and> set (dx_reservations x) \<subseteq> set (dx_reservations y) \<and> set (dx_completions x) \<subseteq> set (dx_completions y)"

lemma grows_roe:
  assumes "grows x y" and "known_revision x n"
  shows "known_revision y n" "roe_of y n = roe_of x n"
proof -
  obtain rs where rs: "dx_revisions y = dx_revisions x @ rs" using assms(1) by (auto simp: grows_def)
  show "known_revision y n" using assms(2) by (simp add: known_revision_def rs)
  have "nat (n - 1) < length (dx_revisions x)" using assms(2) by (auto simp: known_revision_def)
  then show "roe_of y n = roe_of x n" by (simp add: roe_of_def rs nth_append)
qed

lemma session_grows: "grows x y \<Longrightarrow> session_fine H x w \<Longrightarrow> session_fine H y w"
  using grows_roe by (simp add: session_fine_def)

lemma reservation_known:
  assumes "list_all (session_fine H x) (dx_sessions x)" and "reservation_fine H U x r"
  shows "known_revision x (rw_revision r)"
proof -
  obtain w where "w \<in> set (dx_sessions x)" "from_session r w" using assms(2) by (auto simp: reservation_fine_def)
  then show ?thesis using assms(1) by (auto simp: list_all_iff session_fine_def from_session_def)
qed

lemma reservation_grows:
  assumes g: "grows x y" and s: "list_all (session_fine H x) (dx_sessions x)" and r: "reservation_fine H U x r"
  shows "reservation_fine H U y r"
proof -
  have "roe_of y (rw_revision r) = roe_of x (rw_revision r)" using grows_roe [OF g reservation_known [OF s r]] by simp
  moreover have "\<exists>w \<in> set (dx_sessions y). from_session r w" using r g unfolding reservation_fine_def grows_def by blast
  ultimately show ?thesis using r by (simp add: reservation_fine_def)
qed

lemma follows_grows: "grows x y \<Longrightarrow> follows_up x r \<Longrightarrow> follows_up y r"
  unfolding follows_up_def grows_def by blast

lemma completion_grows: "grows x y \<Longrightarrow> completion_fine x c \<Longrightarrow> completion_fine y c"
  unfolding completion_fine_def grows_def by blast

lemma ledger_fineD:
  assumes "ledger_fine H U x"
  shows "used_once x" "list_all (session_fine H x) (dx_sessions x)" "list_all (reservation_fine H U x) (dx_reservations x)"
    "list_all (\<lambda>r. rw_slot r = Http_headers \<longrightarrow> follows_up x r) (dx_reservations x)"
    "list_all (completion_fine x) (dx_completions x)" "accounted x"
  using assms by (simp_all add: ledger_fine_def)

text \<open>Old rows stay fine when the ledger grows; what is left are the new rows and the totals.\<close>

lemma old_rows_fine:
  assumes f: "ledger_fine H U x" and g: "grows x y"
  shows "list_all (session_fine H y) (dx_sessions x)" "list_all (reservation_fine H U y) (dx_reservations x)"
    "list_all (\<lambda>r. rw_slot r = Http_headers \<longrightarrow> follows_up y r) (dx_reservations x)" "list_all (completion_fine y) (dx_completions x)"
  using ledger_fineD [OF f] session_grows [OF g] reservation_grows [OF g ledger_fineD(2) [OF f]] follows_grows [OF g] completion_grows [OF g]
  by (auto simp: list_all_iff)

lemma caches_grow:
  assumes "caches_right H U e" and "grows (eg_export e) (eg_export e')" and "eg_policies e' = eg_policies e" and "eg_actions e' = eg_actions e"
  shows "caches_right H U e'"
  using assms(1) grows_roe [OF assms(2)] unfolding caches_right_def assms(3,4) by metis

lemma accounted_same:
  assumes "accounted x" and "ds_usage (dx_state y) = ds_usage (dx_state x)" and "dx_reservations y = dx_reservations x"
    and "grows x y" and "list_all (session_fine H x) (dx_sessions x)" and "list_all (reservation_fine H U x) (dx_reservations x)"
  shows "accounted y"
proof (cases "dx_reservations x = []")
  case False
  then have "reservation_fine H U x (last (dx_reservations x))" using assms(6) by (simp add: list_all_iff)
  then have "roe_of y (rw_revision (last (dx_reservations x))) = roe_of x (rw_revision (last (dx_reservations x)))"
    using grows_roe [OF assms(4)] reservation_known [OF assms(5)] by blast
  then show ?thesis using assms(1-3) unfolding accounted_def by metis
qed (use assms(1-3) in \<open>simp add: accounted_def\<close>)

section \<open>The operations keep the ledger fine\<close>

lemma current_known: "indexed e \<Longrightarrow> 1 \<le> length (dx_revisions (eg_export e)) \<Longrightarrow> known_revision (eg_export e) (ds_revision (state_at e))"
  by (simp add: known_revision_def state_at_def indexedD(9))

lemma cached_policy_fine:
  assumes f: "engine_fine H U e" and c: "cached_policy H e = Inr (d, e1)"
  shows "engine_fine H U e1" "eg_export e1 = eg_export e" "policy_sha256 H (roe_of (eg_export e) (ds_revision (state_at e))) = Inr d"
proof -
  have i: "indexed e" "1 \<le> length (dx_revisions (eg_export e))" and r: "caches_right H U e" using f by (simp_all add: engine_fine_def)
  note k = current_known [OF i]
  have at: "roe_at e (ds_revision (state_at e)) = roe_of (eg_export e) (ds_revision (state_at e))"
    using k roe_at_of [OF i(1)] by (simp add: known_revision_def)
  obtain g where e1: "e1 = e\<lparr>eg_policies := g\<rparr>" and g: "eg_policies e (ds_revision (state_at e)) = Some d \<and> g = eg_policies e
      \<or> policy_sha256 H (roe_at e (ds_revision (state_at e))) = Inr d \<and> g = (eg_policies e)(ds_revision (state_at e) := Some d)"
    using c by (rule cached_policy_Inr)
  show "eg_export e1 = eg_export e" by (simp add: e1)
  show d: "policy_sha256 H (roe_of (eg_export e) (ds_revision (state_at e))) = Inr d"
    using g r at by (auto simp: caches_right_def)
  have "caches_right H U e1" using g r d k at by (auto simp: caches_right_def e1 split: if_splits)
  then show "engine_fine H U e1" using f by (simp add: engine_fine_def e1 indexed_def Let_def)
qed

lemma cached_action_fine:
  assumes f: "engine_fine H U e" and k: "known_revision (eg_export e) n" and c: "cached_action H U n k e = Inr (a, e1)"
  shows "engine_fine H U e1" "eg_export e1 = eg_export e" "action_identity H U (roe_of (eg_export e) n) k = Inr a"
proof -
  have i: "indexed e" "1 \<le> length (dx_revisions (eg_export e))" and r: "caches_right H U e" using f by (simp_all add: engine_fine_def)
  have at: "roe_at e n = roe_of (eg_export e) n" using k roe_at_of [OF i(1)] by (simp add: known_revision_def)
  obtain g where e1: "e1 = e\<lparr>eg_actions := g\<rparr>" and g: "eg_actions e (n, k) = Some a \<and> g = eg_actions e
      \<or> action_identity H U (roe_at e n) k = Inr a \<and> g = (eg_actions e)((n, k) := Some a)"
    using c by (rule cached_action_Inr)
  show "eg_export e1 = eg_export e" by (simp add: e1)
  show d: "action_identity H U (roe_of (eg_export e) n) k = Inr a"
    using g r at unfolding caches_right_def by metis
  have "caches_right H U e1" using g r d assms(2) at unfolding caches_right_def by (auto simp: e1 split: if_splits)
  then show "engine_fine H U e1" using f by (simp add: engine_fine_def e1 indexed_def Let_def)
qed

lemma window_budget_Inr:
  assumes "window_budget_of r c deadline high = Inr (stop, d)"
  shows "d \<le> deadline" "ck_after c < deadline" "deadline \<le> ck_after c + SESSION_NS"
  using assms by (auto simp: window_budget_of_def add_ns_def res_simps)

lemma start_session_fine:
  assumes f: "engine_fine H U e" and s: "start_session H c e = Inr e'"
  shows "engine_fine H U e'"
proof -
  obtain policy e1 stop deadline row where fresh: "map_of (eg_sessions e) (sl_session c) = None" and p: "cached_policy H e = Inr (policy, e1)"
    and w: "window_budget_of (roe_at e1 (ds_revision (state_at e))) (sl_clock c) (sl_deadline c) (ds_high (state_at e)) = Inr (stop, deadline)"
    and row: "row = \<lparr>sw_session = sl_session c, sw_owner = sl_owner c, sw_revision = ds_revision (state_at e),
        sw_generation = ds_generation (state_at e), sw_policy = policy, sw_clock = sl_clock c, sw_original = sl_deadline c,
        sw_deadline = deadline\<rparr>" and e': "e' = add_session row e1"
    using s by (rule start_session_Inr)
  note p1 = cached_policy_fine [OF f p] and wb = window_budget_Inr [OF w]
  let ?x = "eg_export e" and ?y = "eg_export e'"
  have lf: "ledger_fine H U ?x" and i: "indexed e" "indexed e1" "1 \<le> length (dx_revisions ?x)" and r: "caches_right H U e1"
    using f p1(1) by (simp_all add: engine_fine_def)
  have y: "?y = ?x\<lparr>dx_sessions := dx_sessions ?x @ [row]\<rparr>" by (simp add: e' add_session_def p1(2))
  have g: "grows ?x ?y" by (auto simp: grows_def y)
  have "session_fine H ?x row" using current_known [OF i(1,3)] p1(3) wb by (simp add: session_fine_def row)
  then have new: "session_fine H ?y row" by (rule session_grows [OF g])
  have "sw_session row \<notin> sw_session ` set (dx_sessions ?x)" using fresh i(1) by (simp add: indexedD by_key_None row)
  then have once: "used_once ?y" using ledger_fineD(1) [OF lf] by (simp add: used_once_def y)
  have ix: "indexed e'" using i(2) by (simp add: indexed_def Let_def e' add_session_def row)
  have acc: "accounted ?y" by (rule accounted_same [OF ledger_fineD(6) [OF lf] _ _ g ledger_fineD(2,3) [OF lf]]) (simp_all add: y)
  have "ledger_fine H U ?y"
    using old_rows_fine [OF lf g] new once acc unfolding ledger_fine_def by (simp add: y)
  moreover have "caches_right H U e'"
    by (rule caches_grow [OF r]) (use g in \<open>simp_all add: p1(2) e' add_session_def\<close>)
  ultimately show ?thesis using ix i(3) unfolding engine_fine_def by (simp add: y)
qed

lemma window_end_Inr: "window_end r c = Inr stop \<Longrightarrow> in_window r c"
  by (auto simp: window_end_def in_window_def add_ns_def res_simps)

lemma reserve_ready:
  assumes "indexed e" and "ready_at c session e = Inr ready" and "rv_slot c = Http_headers"
  shows "\<exists>p \<in> set (dx_reservations (eg_export e)). \<exists>d \<in> set (dx_completions (eg_export e)). rw_session p = rv_session c
    \<and> rw_slot p = Http_identify \<and> cw_dispatch d = rw_dispatch p \<and> cw_eligible d \<and> ready = ck_after (cw_clock d)"
proof -
  obtain p d where p: "map_of (eg_slots e) (rv_session c, Http_identify) = Some p" and d: "map_of (eg_completions e) p = Some d"
    and el: "cw_eligible d" "ready = ck_after (cw_clock d)"
    using assms(2,3) by (auto simp: ready_at_def res_simps split: option.splits)
  from map_of_SomeD [OF p] obtain r where r: "r \<in> set (dx_reservations (eg_export e))" "slot_key r = (rv_session c, Http_identify)" "rw_dispatch r = p"
    using assms(1) by (auto simp: indexedD)
  have "d \<in> set (dx_completions (eg_export e))" "cw_dispatch d = p"
    using by_key_Some d assms(1) by (metis indexedD(4))+
  then show ?thesis using r el by (intro bexI [of _ r] bexI [of _ d]) (auto simp: slot_key_def)
qed

lemma reserve_slot_fine:
  assumes f: "engine_fine H U e" and s: "reserve_slot H U c e = Inr e'"
  shows "engine_fine H U e'"
proof -
  obtain session ready cost latest stop action e1 row where
    so: "map_of (eg_sessions e) (rv_session c) = Some session" "sw_owner session = rv_owner c"
    "sw_revision session = ds_revision (state_at e)" "sw_generation session = ds_generation (state_at e)"
    and un: "unused c e" and re: "ready_at c session e = Inr ready"
    and co: "reservation_cost (roe_at e (sw_revision session)) (rv_slot c) = Inr cost"
    and la: "add_ns ready (us_runtime cost * 1000000) = Inr latest" and wi: "window_end (roe_at e (sw_revision session)) (rv_clock c) = Inr stop"
    and de: "ck_after (rv_clock c) < min (min (sw_deadline session) latest) stop"
    and ca: "within_caps (add_usage (ds_usage (state_at e)) cost) (roe_at e (sw_revision session))"
    and ac: "cached_action H U (sw_revision session) (rv_slot c) e = Inr (action, e1)"
    and row: "row = \<lparr>rw_dispatch = rv_dispatch c, rw_session = rv_session c, rw_owner = rv_owner c, rw_revision = sw_revision session,
        rw_generation = sw_generation session, rw_slot = rv_slot c, rw_action = fst action, rw_action_sha256 = snd action,
        rw_policy = sw_policy session, rw_approval = rv_approval c, rw_audit = rv_audit c, rw_clock = rv_clock c,
        rw_ready = ready, rw_deadline = min (min (sw_deadline session) latest) stop, rw_cost = cost\<rparr>"
    and e': "e' = add_reservation row e1"
    using s by (rule reserve_slot_Inr)
  let ?x = "eg_export e" and ?y = "eg_export e'"
  have lf: "ledger_fine H U ?x" and i: "indexed e" and pos: "1 \<le> length (dx_revisions ?x)" using f by (simp_all add: engine_fine_def)
  note lfs = ledger_fineD [OF lf]
  have k: "known_revision ?x (sw_revision session)" using current_known [OF i pos] so(3) by simp
  have at: "roe_at e (sw_revision session) = roe_of ?x (sw_revision session)" using k roe_at_of [OF i] by (simp add: known_revision_def)
  note a1 = cached_action_fine [OF f k ac]
  have i1: "indexed e1" and r1: "caches_right H U e1" using a1(1) by (simp_all add: engine_fine_def)
  have y: "?y = ?x\<lparr>dx_reservations := dx_reservations ?x @ [row], dx_state := (dx_state ?x)\<lparr>ds_usage := add_usage (ds_usage (dx_state ?x)) cost\<rparr>\<rparr>"
    by (simp add: e' add_reservation_def a1(2) row)
  have g: "grows ?x ?y" by (auto simp: grows_def y)
  have w: "session \<in> set (dx_sessions ?x)" "sw_session session = rv_session c" using by_key_Some so(1) i by (metis indexedD(2))+
  have sup: "supported (roe_of ?x (sw_revision session))" "cost = slot_cost (rv_slot c) (min 30000 (roe_limit (roe_of ?x (sw_revision session)) ''max_action_ms''))"
    using co by (simp_all add: reservation_cost_def at res_simps)
  have lt: "latest = ready + us_runtime cost * 1000000" using la by (auto simp: add_ns_def res_simps)
  have "from_session row session" using w so by (simp add: from_session_def row)
  then have new: "reservation_fine H U ?x row"
    unfolding reservation_fine_def Let_def using w(1) sup a1(3) window_end_Inr [OF wi] de lt by (auto simp: row at)
  have new_y: "reservation_fine H U ?y row" by (rule reservation_grows [OF g lfs(2) new])
  have "rw_slot row = Http_headers \<longrightarrow> follows_up ?x row"
    unfolding follows_up_def using reserve_ready [OF i re] by (simp add: row)
  then have fol: "rw_slot row = Http_headers \<longrightarrow> follows_up ?y row" using follows_grows [OF g] by blast
  have "rv_dispatch c \<notin> rw_dispatch ` set (dx_reservations ?x)"
    using un i by (simp add: unused_def indexedD by_key_None)
  moreover have "(rv_session c, rv_slot c) \<notin> slot_key ` set (dx_reservations ?x)"
    using un i by (auto simp: unused_def indexedD map_of_eq_None_iff image_image)
  moreover have "reference_key (rv_approval c) \<notin> (\<lambda>r. reference_key (rw_approval r)) ` set (dx_reservations ?x)"
    "reference_key (rv_audit c) \<notin> (\<lambda>r. reference_key (rw_audit r)) ` set (dx_reservations ?x)"
    using un i by (simp_all add: unused_def indexedD)
  ultimately have once: "used_once ?y" using lfs(1) by (auto simp: used_once_def y row slot_key_def)
  have ix: "indexed e'" using i1 by (simp add: indexed_def Let_def e' add_reservation_def slot_key_def row)
  have "roe_of ?y (rw_revision row) = roe_of ?x (rw_revision row)" using grows_roe [OF g] k by (simp add: row)
  then have acc: "accounted ?y"
    using lfs(6) ca unfolding accounted_def by (simp add: y total_usage_def row at state_at_def) 
  have "ledger_fine H U ?y"
    using old_rows_fine [OF lf g] new_y fol once acc unfolding ledger_fine_def by (simp add: y)
  moreover have "caches_right H U e'"
    by (rule caches_grow [OF r1]) (use g in \<open>simp_all add: a1(2) e' add_reservation_def\<close>)
  ultimately show ?thesis using ix pos unfolding engine_fine_def by (simp add: y)
qed

lemma complete_dispatch_fine:
  assumes f: "engine_fine H U e" and s: "complete_dispatch c e = Inr e'"
  shows "engine_fine H U e'"
proof -
  obtain session reserved status row where so: "map_of (eg_sessions e) (cp_session c) = Some session" "sw_owner session = cp_owner c"
    and re: "map_of (eg_reservations e) (cp_dispatch c) = Some reserved" "rw_session reserved = cp_session c"
    and fr: "map_of (eg_completions e) (cp_dispatch c) = None" and ob: "observed_within (cp_observed c) (rw_cost reserved)"
    and row: "row = \<lparr>cw_dispatch = cp_dispatch c, cw_session = cp_session c, cw_owner = cp_owner c, cw_reported = cp_reported c,
        cw_observed = cp_observed c, cw_clock = cp_clock c, cw_status = status,
        cw_eligible = (rw_slot reserved = Http_identify \<and> cp_reported c = Reported_success \<and> \<not> ds_revoked (state_at e) \<and> status = Valid_clock
        \<and> rw_revision reserved = ds_revision (state_at e) \<and> rw_generation reserved = ds_generation (state_at e))\<rparr>"
    and e': "e' = add_completion row e"
    using s by (rule complete_dispatch_Inr)
  let ?x = "eg_export e" and ?y = "eg_export e'"
  have lf: "ledger_fine H U ?x" and i: "indexed e" and pos: "1 \<le> length (dx_revisions ?x)" and r: "caches_right H U e"
    using f by (simp_all add: engine_fine_def)
  note lfs = ledger_fineD [OF lf]
  have y: "?y = ?x\<lparr>dx_completions := dx_completions ?x @ [row]\<rparr>" by (simp add: e' add_completion_def)
  have g: "grows ?x ?y" by (auto simp: grows_def y)
  have rs: "reserved \<in> set (dx_reservations ?x)" "rw_dispatch reserved = cp_dispatch c" using by_key_Some re(1) i by (metis indexedD(3))+
  have ws: "session \<in> set (dx_sessions ?x)" "sw_session session = cp_session c" using by_key_Some so(1) i by (metis indexedD(2))+
  obtain w where w: "w \<in> set (dx_sessions ?x)" "from_session reserved w"
    using lfs(3) rs(1) by (auto simp: list_all_iff reservation_fine_def)
  have "w = session" using w ws lfs(1) re(2) unfolding used_once_def from_session_def
    by (metis distinct_map inj_onD)
  then have "rw_owner reserved = cp_owner c" using w so(2) by (simp add: from_session_def)
  then have "completion_fine ?x row" using rs re(2) ob unfolding completion_fine_def by (intro bexI [of _ reserved]) (auto simp: row)
  then have new: "completion_fine ?y row" by (rule completion_grows [OF g])
  have "cp_dispatch c \<notin> cw_dispatch ` set (dx_completions ?x)" using fr i by (simp add: indexedD by_key_None)
  then have once: "used_once ?y" using lfs(1) by (simp add: used_once_def y row)
  have ix: "indexed e'" using i by (simp add: indexed_def Let_def e' add_completion_def)
  have acc: "accounted ?y" by (rule accounted_same [OF lfs(6) _ _ g lfs(2,3)]) (simp_all add: y)
  have "ledger_fine H U ?y"
    using old_rows_fine [OF lf g] new once acc unfolding ledger_fine_def by (simp add: y)
  moreover have "caches_right H U e'"
    by (rule caches_grow [OF r]) (use g in \<open>simp_all add: e' add_completion_def\<close>)
  ultimately show ?thesis using ix pos unfolding engine_fine_def by (simp add: y)
qed

text \<open>Revising, revoking, reading a clock and numbering an event leave the rows alone.\<close>

lemma same_rows_fine:
  assumes f: "engine_fine H U e" and ix: "indexed e'" and g: "\<exists>rs. dx_revisions (eg_export e') = dx_revisions (eg_export e) @ rs"
    and rows: "dx_sessions (eg_export e') = dx_sessions (eg_export e)" "dx_reservations (eg_export e') = dx_reservations (eg_export e)"
      "dx_completions (eg_export e') = dx_completions (eg_export e)" "ds_usage (dx_state (eg_export e')) = ds_usage (dx_state (eg_export e))"
    and caches: "eg_policies e' = eg_policies e" "eg_actions e' = eg_actions e"
  shows "engine_fine H U e'"
proof -
  let ?x = "eg_export e" and ?y = "eg_export e'"
  have lf: "ledger_fine H U ?x" and pos: "1 \<le> length (dx_revisions ?x)" and r: "caches_right H U e" using f by (simp_all add: engine_fine_def)
  note lfs = ledger_fineD [OF lf]
  have gr: "grows ?x ?y" using g rows by (simp add: grows_def)
  have "accounted ?y" by (rule accounted_same [OF lfs(6) rows(4,2) gr lfs(2,3)])
  moreover have "used_once ?y" using lfs(1) by (simp add: used_once_def rows)
  ultimately have "ledger_fine H U ?y" using old_rows_fine [OF lf gr] unfolding ledger_fine_def by (simp add: rows)
  moreover have "caches_right H U e'" by (rule caches_grow [OF r gr caches])
  ultimately show ?thesis using ix pos g unfolding engine_fine_def by auto
qed

lemma revise_roe_fine:
  assumes f: "engine_fine H U e" and s: "revise_roe H r e = Inr e'"
  shows "engine_fine H U e'"
proof -
  obtain sha where e': "e' = e\<lparr>eg_export := (eg_export e)\<lparr>
          dx_state := (state_at e)\<lparr>ds_revision := ds_revision (state_at e) + 1, ds_generation := ds_generation (state_at e) + 1, ds_roe_sha256 := sha\<rparr>,
          dx_revisions := dx_revisions (eg_export e) @ [(r, sha)]\<rparr>,
        eg_roes := eg_roes e @ [(ds_revision (state_at e) + 1, r)]\<rparr>"
    using s by (auto simp: revise_roe_def Let_def res_simps)
  have i: "indexed e" using f by (simp add: engine_fine_def)
  have "[1..1 + int n] = [1..int n] @ [1 + int n]" for n by (simp add: upto_rec2)
  then have "indexed e'" using i by (simp add: indexed_def Let_def e' state_at_def add.commute)
  then show ?thesis by (rule same_rows_fine [OF f]) (simp_all add: e' state_at_def)
qed

lemma revoke_all_fine: "engine_fine H U e \<Longrightarrow> engine_fine H U (revoke_all e)"
  by (rule same_rows_fine, assumption) (simp_all add: revoke_all_def state_at_def engine_fine_def indexed_def Let_def)

lemma observe_clock_fine: "engine_fine H U e \<Longrightarrow> engine_fine H U (observe_clock c e)"
  by (rule same_rows_fine, assumption)
    (auto simp: observe_clock_def state_at_def engine_fine_def indexed_def Let_def split: option.splits)

lemma number_event_fine: "engine_fine H U e \<Longrightarrow> engine_fine H U (number_event e)"
  by (rule same_rows_fine, assumption) (simp_all add: number_event_def state_at_def engine_fine_def indexed_def Let_def)

lemma observed_events: "dx_events (eg_export (observe_clock c e)) = dx_events (eg_export e)"
  by (auto simp: observe_clock_def Let_def split: option.splits)

lemma stamp_Inr:
  assumes "stamp H q e0 = Inr (e', r)"
  obtains e event where "e = number_event (observe_clock (dq_claim q) e0)" "de_request event = q" "de_receipt event = r"
    "de_sequence event = int (length (dx_events (eg_export e0))) + 1"
    "e' = e\<lparr>eg_export := (eg_export e)\<lparr>dx_events := dx_events (eg_export e) @ [event]\<rparr>, eg_events := eg_events e @ [dq_event q]\<rparr>"
proof -
  let ?e = "number_event (observe_clock (dq_claim q) e0)"
  obtain raw body where "e' = ?e\<lparr>eg_export := (eg_export ?e)\<lparr>dx_events := dx_events (eg_export ?e) @
      [\<lparr>de_sequence = ds_last (state_at ?e), de_request_sha256 = H (DISPATCH_REQUEST_DOMAIN @ body), de_request = q, de_receipt = r\<rparr>]\<rparr>,
      eg_events := eg_events ?e @ [dq_event q]\<rparr>" "canonical_text (state_json (state_at ?e)) = Inr raw"
    using assms unfolding stamp_def Let_def bindE_Inr by auto
  moreover have "ds_last (state_at ?e) = int (length (dx_events (eg_export e0))) + 1"
    by (simp add: number_event_def state_at_def observed_events)
  ultimately show ?thesis
    by (intro that [of ?e "\<lparr>de_sequence = ds_last (state_at ?e), de_request_sha256 = H (DISPATCH_REQUEST_DOMAIN @ body), de_request = q, de_receipt = r\<rparr>"])
      simp_all
qed

lemma stamp_fine:
  assumes f: "engine_fine H U e0" and s: "stamp H q e0 = Inr (e', r)"
  shows "engine_fine H U e'"
proof -
  obtain e event where e: "e = number_event (observe_clock (dq_claim q) e0)" and q: "de_request event = q"
    and e': "e' = e\<lparr>eg_export := (eg_export e)\<lparr>dx_events := dx_events (eg_export e) @ [event]\<rparr>, eg_events := eg_events e @ [dq_event q]\<rparr>"
    using s by (rule stamp_Inr)
  have fe: "engine_fine H U e" unfolding e by (intro number_event_fine observe_clock_fine f)
  then have "indexed e'" by (simp add: engine_fine_def indexed_def Let_def e' q)
  then show ?thesis by (rule same_rows_fine [OF fe]) (simp_all add: e')
qed

lemma open_engine_fine: "open_engine H i r = Inr e \<Longrightarrow> engine_fine H U e"
  by (auto simp: open_engine_def res_simps engine_fine_def indexed_def Let_def caches_right_def ledger_fine_def used_once_def
      accounted_def total_usage_def by_key_def)

lemma transit_fine: "engine_fine H U e \<Longrightarrow> transit H U c e = Inr e' \<Longrightarrow> engine_fine H U e'"
  by (auto simp: transit_def revoke_all_fine split: claim.splits
      elim: start_session_fine reserve_slot_fine complete_dispatch_fine revise_roe_fine)

text \<open>An engine that exists stays fine under every push.\<close>

lemma push_fine:
  assumes "\<And>e. current = Some e \<Longrightarrow> engine_fine H U e" and "push H U q current = Inr (e', r)"
  shows "engine_fine H U e'"
proof (cases current)
  case None
  then show ?thesis using assms(2) open_engine_fine stamp_fine
    by (auto simp: push_def res_simps split: claim.splits; blast)
next
  case (Some e)
  then obtain e0 where "advance_engine H U q e = Inr e0" "stamp H q e0 = Inr (e', r)"
    using assms(2) by (auto simp: push_def res_simps)
  moreover from this(1) have "transit H U (dq_claim q) e = Inr e0" by (auto simp: advance_engine_def Let_def res_simps)
  ultimately show ?thesis using assms(1) [OF Some] transit_fine stamp_fine by blast
qed

lemma replay_fine:
  "replay_events H U vs current = Inr (Some e) \<Longrightarrow> (\<And>e. current = Some e \<Longrightarrow> engine_fine H U e) \<Longrightarrow> engine_fine H U e"
proof (induction vs arbitrary: current)
  case (Cons v vs)
  then obtain q e1 r where p: "push H U q current = Inr (e1, r)" and rest: "replay_events H U vs (Some e1) = Inr (Some e)"
    by (auto simp: res_simps)
  then show ?case using Cons.IH [OF rest] push_fine [OF Cons.prems(2) p] by blast
qed simp

lemma reconstruct_fine: "reconstruct H U v = Inr e \<Longrightarrow> engine_fine H U e"
  unfolding reconstruct_def Let_def
  by (auto simp: res_simps split: option.splits intro: replay_fine)

lemma validate_ledger_fine: "validate_ledger H U v = Inr x \<Longrightarrow> ledger_fine H U x"
  by (auto simp: validate_ledger_def validation_def res_simps engine_fine_def dest!: reconstruct_fine split: sum.splits)

end
