(* ===== verification/DispatchReplay.thy ===== *)
theory DispatchReplay
  imports DispatchSafety
begin

text \<open>
  Requests and rows of the dispatch ledger are within the limits of the encoder and read back
  from their dictionaries, in any key order; so an export that the engine built replays to the
  engine that built it.
\<close>

section \<open>What the encoder accepts\<close>

fun narrow :: "int \<Rightarrow> pyval \<Rightarrow> bool" and narrow_list :: "int \<Rightarrow> pyval list \<Rightarrow> bool"
  and narrow_dict :: "int \<Rightarrow> (string \<times> pyval) list \<Rightarrow> bool" where
  "narrow d PNone = True" | "narrow d (PBool b) = True" | "narrow d (PStr s) = True"
| "narrow d (PInt i) = (0 \<le> i \<and> i \<le> INTEGER_MAX)"
| "narrow d (PList xs) = (d + 1 \<le> DEPTH_LIMIT \<and> narrow_list (d + 1) xs)"
| "narrow d (PDict kvs) = (d + 1 \<le> DEPTH_LIMIT \<and> narrow_dict (d + 1) kvs)"
| "narrow_list d [] = True" | "narrow_list d (x # xs) = (narrow d x \<and> narrow_list d xs)"
| "narrow_dict d [] = True" | "narrow_dict d (kv # kvs) = (narrow d (snd kv) \<and> narrow_dict d kvs)"

lemma charge_ok: "u \<le> EXPORT_BYTES \<Longrightarrow> charge u = Inr u"
  by (simp add: charge_def)

lemma walk_ok:
  "0 \<le> u \<Longrightarrow> narrow d v \<Longrightarrow> u + units v \<le> EXPORT_BYTES \<Longrightarrow> walk d v u = Inr (u + units v)"
  "0 \<le> u \<Longrightarrow> narrow_list d xs \<Longrightarrow> u + units_list xs \<le> EXPORT_BYTES \<Longrightarrow> walk_list d xs u = Inr (u + units_list xs)"
  "0 \<le> u \<Longrightarrow> narrow_dict d kvs \<Longrightarrow> u + units_dict kvs \<le> EXPORT_BYTES \<Longrightarrow> walk_dict d kvs u = Inr (u + units_dict kvs)"
proof (induction d v u and d xs u and d kvs u rule: walk_walk_list_walk_dict.induct)
  case (5 level xs spent)
  then show ?case using units_list_len [of xs] by (auto simp: charge_ok algebra_simps)
next
  case (6 level kvs spent)
  then show ?case using units_dict_len [of kvs] by (auto simp: charge_ok algebra_simps)
next
  case (8 level x xs spent)
  then show ?case using units_pos [of x] units_list_len [of xs] by (auto simp: algebra_simps)
next
  case (10 level kv kvs spent)
  then show ?case using units_pos [of "snd kv"] units_dict_len [of kvs] by (auto simp: charge_ok algebra_simps)
qed (auto simp: charge_ok)

lemma narrow_dict_insort: "narrow_dict d (insort_key fst kv kvs) = narrow_dict d (kv # kvs)"
  by (induction kvs) auto

lemma narrow_dict_sort: "narrow_dict d (sort_key fst kvs) = narrow_dict d kvs"
  by (induction kvs) (simp_all add: narrow_dict_insort)

lemma narrow_sort [simp]: "narrow d (sort_keys v) = narrow d v"
  "narrow_list d (map sort_keys xs) = narrow_list d xs"
  "narrow_dict d (map (map_prod id sort_keys) kvs) = narrow_dict d kvs"
  by (induction d v and d xs and d kvs rule: narrow_narrow_list_narrow_dict.induct) (simp_all add: narrow_dict_sort id_def)

lemma canonical_text_ok:
  assumes "narrow 0 v" and "len v \<le> EXPORT_BYTES"
  shows "canonical_text v = Inr (canonical v)"
  using walk_ok(1) [of 0 0 v] assms units_le_dumps [of v]
  by (simp add: canonical_text_def length_canonical len_def require_def)

lemma len_sort [simp]: "len (sort_keys v) = len v"
  using length_canonical [of v] by (simp add: len_def canonical_def)

lemma detach_ok: "narrow 0 v \<Longrightarrow> len v \<le> limit \<Longrightarrow> len v \<le> EXPORT_BYTES \<Longrightarrow> detach limit v = Inr (sort_keys v)"
  by (simp add: detach_def canonical_text_ok length_canonical len_def require_def)

lemma fit_row_ok: "narrow 0 v \<Longrightarrow> len v \<le> limit \<Longrightarrow> len v \<le> EXPORT_BYTES \<Longrightarrow> fit_row v limit = Inr ()"
  by (simp add: fit_row_def canonical_text_ok length_canonical len_def require_def)

section \<open>Validators do not see the order of keys\<close>

lemma dispatch_views [sorted_view]:
  "fields_are (sort_keys v) ns = fields_are v ns" "whole (sort_keys v) a b = whole v a b"
  "uuid_field (sort_keys v) = uuid_field v" "hash_field (sort_keys v) = hash_field v"
  "read_slot (sort_keys v) = read_slot v" "read_reported (sort_keys v) = read_reported v"
  by (simp_all add: fields_are_def whole_def uuid_field_def hash_field_def read_slot_def read_reported_def sorted_view)

lemma dispatch_roe_sort [sorted_view]: "dispatch_roe (sort_keys v) = dispatch_roe v"
  by (simp add: dispatch_roe_def validate_roe_sort)

lemma clock_body_sort [sorted_view]: "clock_body (sort_keys v) = clock_body v"
  by (simp add: clock_body_def sorted_view)

lemma reference_sort [sorted_view]:
  "approval_reference (sort_keys v) = approval_reference v" "audit_reference (sort_keys v) = audit_reference v"
  "read_observed (sort_keys v) = read_observed v"
  by (simp_all add: approval_reference_def audit_reference_def read_observed_def sorted_view)

section \<open>Validated requests\<close>

definition clock_ok :: "clock \<Rightarrow> bool" where
  "clock_ok c \<longleftrightarrow> UTC_MIN \<le> ck_utc c \<and> ck_utc c \<le> UTC_MAX \<and> 0 \<le> ck_before c \<and> ck_before c \<le> ck_after c
     \<and> ck_after c \<le> INTEGER_MAX \<and> ck_after c - ck_before c \<le> CLOCK_TOLERANCE"

definition reference_ok :: "int \<Rightarrow> reference \<Rightarrow> bool" where
  "reference_ok high r \<longleftrightarrow> is_uuid4 (rf_owner r) \<and> 1 \<le> rf_sequence r \<and> rf_sequence r \<le> high \<and> is_hash (rf_sha256 r)"

definition observed_ok :: "observed \<Rightarrow> bool" where
  "observed_ok b \<longleftrightarrow> is_hash (ob_sha256 b) \<and> 0 \<le> ob_connections b \<and> ob_connections b \<le> 3
     \<and> 0 \<le> ob_request_bytes b \<and> ob_request_bytes b \<le> 4096 \<and> 0 \<le> ob_response_bytes b \<and> ob_response_bytes b \<le> 4096"

fun claim_ok :: "claim \<Rightarrow> bool" where
  "claim_ok (Opening r) = roe_ok r"
| "claim_ok (Revising r) = roe_ok r"
| "claim_ok Revoking = True"
| "claim_ok (Starting c) = (is_uuid4 (sl_session c) \<and> is_uuid4 (sl_owner c) \<and> clock_ok (sl_clock c)
     \<and> 1 \<le> sl_deadline c \<and> sl_deadline c \<le> INTEGER_MAX)"
| "claim_ok (Reserving c) = (is_uuid4 (rv_dispatch c) \<and> is_uuid4 (rv_session c) \<and> is_uuid4 (rv_owner c) \<and> clock_ok (rv_clock c)
     \<and> reference_ok 32 (rv_approval c) \<and> reference_ok 1024 (rv_audit c))"
| "claim_ok (Completing c) = (is_uuid4 (cp_dispatch c) \<and> is_uuid4 (cp_session c) \<and> is_uuid4 (cp_owner c) \<and> clock_ok (cp_clock c)
     \<and> (\<forall>b. cp_observed c = Some b \<longrightarrow> observed_ok b) \<and> observed_enough (cp_reported c) (cp_observed c))"

definition dispatch_ok :: "dispatch_request \<Rightarrow> bool" where
  "dispatch_ok q \<longleftrightarrow> is_uuid4 (dq_engagement q) \<and> is_uuid4 (dq_event q) \<and> claim_ok (dq_claim q)
     \<and> (case dq_expected q of None \<Rightarrow> claim_name (dq_claim q) \<in> {''create'', ''complete''}
        | Some (r, g) \<Rightarrow> claim_name (dq_claim q) \<notin> {''create'', ''complete''} \<and> 1 \<le> r \<and> r \<le> 64 \<and> 0 \<le> g \<and> g \<le> 64)"

lemma field_Inr:
  "whole v a b = Inr i \<longleftrightarrow> v = PInt i \<and> a \<le> i \<and> i \<le> b"
  "uuid_field v = Inr u \<longleftrightarrow> v = PStr u \<and> is_uuid4 u"
  "hash_field v = Inr h \<longleftrightarrow> v = PStr h \<and> is_hash h"
  "read_slot v = Inr k \<longleftrightarrow> v = PStr (slot_name k)"
  "read_reported v = Inr o' \<longleftrightarrow> v = PStr (reported_name o')"
proof -
  show "whole v a b = Inr i \<longleftrightarrow> v = PInt i \<and> a \<le> i \<and> i \<le> b" by (cases v) (auto simp: whole_def int_in_def res_simps)
  show "uuid_field v = Inr u \<longleftrightarrow> v = PStr u \<and> is_uuid4 u" "hash_field v = Inr h \<longleftrightarrow> v = PStr h \<and> is_hash h"
    by (cases v; auto simp: uuid_field_def hash_field_def hash_val_def res_simps)+
  show "read_slot v = Inr k \<longleftrightarrow> v = PStr (slot_name k)" by (cases k) (auto simp: read_slot_def)
  show "read_reported v = Inr o' \<longleftrightarrow> v = PStr (reported_name o')" by (cases o') (auto simp: read_reported_def)
qed

lemma validation_Inr [simp]: "validation c m = Inr x \<longleftrightarrow> m = Inr x"
  by (cases m) (simp_all add: validation_def)

lemma detach_Inr: "detach limit v = Inr w \<Longrightarrow> w = sort_keys v"
  by (auto simp: detach_def res_simps)

lemma fields_are_Inr: "fields_are v ns = Inr u \<longleftrightarrow> is_dict v \<and> same_fields v ns"
  by (simp add: fields_are_def)

lemma clock_body_ok: "clock_body v = Inr c \<Longrightarrow> clock_ok c"
  by (auto simp: clock_body_def res_simps field_Inr clock_ok_def)

lemma validate_clock_ok: "validate_clock v = Inr c \<Longrightarrow> clock_ok c"
  by (auto simp: validate_clock_def res_simps dest!: clock_body_ok)

lemma reference_reads_ok:
  "approval_reference v = Inr r \<Longrightarrow> reference_ok 32 r" "audit_reference v = Inr r \<Longrightarrow> reference_ok 1024 r"
  by (auto simp: approval_reference_def audit_reference_def res_simps field_Inr reference_ok_def)

lemma read_observed_ok: "read_observed v = Inr b \<Longrightarrow> observed_ok b"
  by (auto simp: read_observed_def res_simps field_Inr observed_ok_def)

lemma dispatch_roe_Inr: "dispatch_roe v = Inr r \<longleftrightarrow> validate_roe v = Inr r"
  by (auto simp: dispatch_roe_def split: sum.splits)

lemma read_claim_ok:
  assumes "read_claim op v = Inr c" and "op \<in> set OPERATIONS"
  shows "claim_ok c \<and> claim_name c = op"
proof -
  have "claim_ok d \<and> claim_name d = ''session''" if "session_claim v = Inr d" for d
    using that by (auto simp: session_claim_def res_simps field_Inr dest: validate_clock_ok)
  moreover have "claim_ok d \<and> claim_name d = ''reserve''" if "reserve_claim v = Inr d" for d
    using that by (auto simp: reserve_claim_def res_simps field_Inr dest: validate_clock_ok reference_reads_ok)
  moreover have "claim_ok d \<and> claim_name d = ''complete''" if "complete_claim v = Inr d" for d
    using that by (auto simp: complete_claim_def res_simps field_Inr dest: validate_clock_ok read_observed_ok split: if_splits)
  ultimately show ?thesis
    using assms by (auto simp: read_claim_def OPERATIONS_def res_simps dispatch_roe_Inr dest: validate_roe_ok split: if_splits)
qed

lemma dispatch_body_ok:
  assumes "dispatch_body v = Inr q"
  shows "dispatch_ok q"
proof -
  obtain op expected c where u: "is_uuid4 (dq_engagement q)" "is_uuid4 (dq_event q)" and op: "op \<in> set OPERATIONS"
    and ex: "read_expected op v = Inr expected" and c: "read_claim op (item v ''body'') = Inr c"
    and q: "dq_expected q = expected" "dq_claim q = c"
    using assms by (auto simp: dispatch_body_def Let_def res_simps field_Inr elim!: str_inE)
  have "claim_ok c" "claim_name c = op" using read_claim_ok [OF c op] by auto
  moreover have "case expected of None \<Rightarrow> op \<in> {''create'', ''complete''}
      | Some (r, g) \<Rightarrow> op \<notin> {''create'', ''complete''} \<and> 1 \<le> r \<and> r \<le> 64 \<and> 0 \<le> g \<and> g \<le> 64"
    using ex by (auto simp: read_expected_def res_simps field_Inr split: if_splits)
  ultimately show ?thesis using u q by (cases expected) (auto simp: dispatch_ok_def)
qed

lemma validate_dispatch_ok: "validate_dispatch v = Inr q \<Longrightarrow> dispatch_ok q"
  by (auto simp: validate_dispatch_def res_simps dest: dispatch_body_ok)

section \<open>Dictionaries of validated requests\<close>

lemma uuid_size: "is_uuid4 s \<Longrightarrow> len (PStr s) \<le> 218"
  by (rule uuid_len)

lemma time_len: "0 \<le> i \<Longrightarrow> i \<le> INTEGER_MAX \<Longrightarrow> len (PInt i) \<le> 19"
  using len_int_le [of i 19] by (simp add: INTEGER_MAX_def)

lemma utc_range: "UTC_MIN \<le> i \<Longrightarrow> i \<le> UTC_MAX \<Longrightarrow> 0 \<le> i \<and> i \<le> INTEGER_MAX"
  by (simp add: UTC_MIN_def UTC_MAX_def INTEGER_MAX_def)

lemma clock_size:
  assumes "clock_ok c"
  shows "len (clock_json c) \<le> 120" "d + 1 \<le> DEPTH_LIMIT \<Longrightarrow> narrow d (clock_json c)"
proof -
  have r: "0 \<le> ck_utc c \<and> ck_utc c \<le> INTEGER_MAX" "0 \<le> ck_before c" "ck_before c \<le> INTEGER_MAX" "0 \<le> ck_after c" "ck_after c \<le> INTEGER_MAX"
    using assms utc_range by (auto simp: clock_ok_def)
  show "len (clock_json c) \<le> 120"
    using time_len [of "ck_utc c"] time_len [of "ck_before c"] time_len [of "ck_after c"] r
    by (simp add: clock_json_def len_simps(5)) (simp add: json_string_def escape_char_def)
  show "d + 1 \<le> DEPTH_LIMIT \<Longrightarrow> narrow d (clock_json c)" using r by (simp add: clock_json_def)
qed

lemma small_size: "0 \<le> i \<Longrightarrow> i \<le> 99999 \<Longrightarrow> len (PInt i) \<le> 5" "i \<le> 99999 \<Longrightarrow> i \<le> INTEGER_MAX"
  using len_int_le [of i 5] by (simp_all add: INTEGER_MAX_def)

lemma reference_size:
  assumes "reference_ok high r" and "high \<le> 1024"
  shows "len (approval_json r) \<le> 700" "len (audit_json r) \<le> 700" "d + 1 \<le> DEPTH_LIMIT \<Longrightarrow> narrow d (approval_json r) \<and> narrow d (audit_json r)"
proof -
  have o: "len (PStr (rf_owner r)) \<le> 218" "len (PStr (rf_sha256 r)) \<le> 386" "len (PInt (rf_sequence r)) \<le> 5"
    and i: "0 \<le> rf_sequence r" "rf_sequence r \<le> INTEGER_MAX"
    using assms small_size [of "rf_sequence r"] by (auto simp: reference_ok_def intro: uuid_len hash_len)
  show "len (approval_json r) \<le> 700" "len (audit_json r) \<le> 700"
    using o by (simp_all add: approval_json_def audit_json_def len_simps(5)) (simp_all add: json_string_def escape_char_def)
  show "d + 1 \<le> DEPTH_LIMIT \<Longrightarrow> narrow d (approval_json r) \<and> narrow d (audit_json r)"
    using i by (simp add: approval_json_def audit_json_def)
qed

lemma observed_size:
  assumes "observed_ok b"
  shows "len (observed_json b) \<le> 600" "d + 1 \<le> DEPTH_LIMIT \<Longrightarrow> narrow d (observed_json b)"
proof -
  have o: "len (PStr (ob_sha256 b)) \<le> 386" "len (PInt (ob_connections b)) \<le> 5" "len (PInt (ob_request_bytes b)) \<le> 5" "len (PInt (ob_response_bytes b)) \<le> 5"
    using assms small_size(1) by (auto simp: observed_ok_def intro: hash_len)
  show "len (observed_json b) \<le> 600"
    using o by (simp add: observed_json_def len_simps(5)) (simp add: json_string_def escape_char_def)
  show "d + 1 \<le> DEPTH_LIMIT \<Longrightarrow> narrow d (observed_json b)"
    using assms small_size(2) by (auto simp: observed_json_def observed_ok_def)
qed

lemma observed_option_size:
  assumes "\<forall>b. v = Some b \<longrightarrow> observed_ok b"
  shows "len (optional observed_json v) \<le> 600" "d + 1 \<le> DEPTH_LIMIT \<Longrightarrow> narrow d (optional observed_json v)"
  using assms observed_size by (cases v; simp add: optional_def len_simps(3))+

lemma name_sizes: "len (PStr (slot_name k)) \<le> 20" "len (PStr (reported_name r)) \<le> 20" "len (PStr (claim_name c)) \<le> 20"
proof -
  show "len (PStr (slot_name k)) \<le> 20" by (cases k) (simp_all add: len_simps json_string_def escape_char_def)
  show "len (PStr (reported_name r)) \<le> 20" by (cases r) (simp_all add: len_simps json_string_def escape_char_def)
  show "len (PStr (claim_name c)) \<le> 20" by (cases c) (simp_all add: len_simps json_string_def escape_char_def)
qed

lemma narrow_strs [simp]: "narrow_list d (map PStr xs)"
  by (induction xs) auto

lemma narrow_endpoint: "endpoint_ok http e \<Longrightarrow> d + 1 \<le> DEPTH_LIMIT \<Longrightarrow> narrow d (endpoint_json e)"
  by (auto simp: endpoint_json_def endpoint_ok_def port_ok_def INTEGER_MAX_def split: option.splits)

lemma narrow_roe:
  assumes ok: "roe_ok r" and d: "d \<le> 8"
  shows "narrow d (roe_json r)"
proof -
  from ok have "limits_ok (roe_limits r)" by (simp add: roe_ok_def)
  then obtain l1 l2 l3 l4 l5 l6 where ls: "roe_limits r = [l1, l2, l3, l4, l5, l6]" "1 \<le> l1" "l1 \<le> 64" "1 \<le> l2" "l2 \<le> 256"
    "1 \<le> l3" "l3 \<le> 1048576" "1 \<le> l4" "l4 \<le> 1048576" "1 \<le> l5" "l5 \<le> 60000" "1 \<le> l6" "l6 \<le> 86400000"
    by (rule limits_six)
  then have "narrow (d + 1) (PDict (zip (map fst LIMITS) (map PInt (roe_limits r))))"
    using d by (simp add: LIMITS_def DEPTH_LIMIT_def INTEGER_MAX_def)
  moreover have "narrow (d + 1) (scope_json (roe_scope r))"
    using ok d by (simp add: scope_json_def DEPTH_LIMIT_def)
      (auto simp: roe_ok_def scope_ok_def DEPTH_LIMIT_def intro: narrow_endpoint)
  ultimately show ?thesis using d by (simp add: roe_json_def DEPTH_LIMIT_def)
qed

lemma claim_size:
  assumes "claim_ok c"
  shows "len (claim_json c) \<le> 4000" "d \<le> 8 \<Longrightarrow> narrow d (claim_json c)"
proof -
  have "len (claim_json c) \<le> 4000 \<and> (d \<le> 8 \<longrightarrow> narrow d (claim_json c))"
  proof (cases c)
    case (Starting s)
    then have u: "len (PStr (sl_session s)) \<le> 218" "len (PStr (sl_owner s)) \<le> 218" "clock_ok (sl_clock s)"
      and i: "0 \<le> sl_deadline s" "sl_deadline s \<le> INTEGER_MAX" using assms by (auto intro: uuid_len)
    then show ?thesis using clock_size [OF u(3)] time_len [OF i]
      by (simp add: Starting len_simps(5) DEPTH_LIMIT_def) (simp add: json_string_def escape_char_def)
  next
    case (Reserving s)
    then have u: "len (PStr (rv_dispatch s)) \<le> 218" "len (PStr (rv_session s)) \<le> 218" "len (PStr (rv_owner s)) \<le> 218" "clock_ok (rv_clock s)"
      and r: "reference_ok 32 (rv_approval s)" "reference_ok 1024 (rv_audit s)" using assms by (auto intro: uuid_len)
    then show ?thesis using clock_size [OF u(4)] reference_size [OF r(1)] reference_size [OF r(2)] name_sizes(1) [of "rv_slot s"]
      by (simp add: Reserving len_simps(5) DEPTH_LIMIT_def) (simp add: json_string_def escape_char_def)
  next
    case (Completing s)
    then have u: "len (PStr (cp_dispatch s)) \<le> 218" "len (PStr (cp_session s)) \<le> 218" "len (PStr (cp_owner s)) \<le> 218" "clock_ok (cp_clock s)"
      and o: "\<forall>b. cp_observed s = Some b \<longrightarrow> observed_ok b" using assms by (auto intro: uuid_len)
    then show ?thesis using clock_size [OF u(4)] observed_option_size [OF o] name_sizes(2) [of "cp_reported s"]
      by (simp add: Completing len_simps(5) DEPTH_LIMIT_def) (simp add: json_string_def escape_char_def)
  qed (use assms roe_len narrow_roe in \<open>auto simp: len_simps(3)\<close>)
  then show "len (claim_json c) \<le> 4000" "d \<le> 8 \<Longrightarrow> narrow d (claim_json c)" by simp_all
qed

lemma dispatch_size:
  assumes ok: "dispatch_ok q"
  shows "len (dispatch_json q) \<le> 8000" "narrow 0 (dispatch_json q)"
proof -
  have u: "len (PStr (dq_engagement q)) \<le> 218" "len (PStr (dq_event q)) \<le> 218" and c: "claim_ok (dq_claim q)"
    using ok by (auto simp: dispatch_ok_def intro: uuid_len)
  have r: "\<forall>i. map_option f (dq_expected q) = Some i \<longrightarrow> 0 \<le> i \<and> i < 100" if "f = fst \<or> f = snd" for f :: "int \<times> int \<Rightarrow> int"
    using ok that by (auto simp: dispatch_ok_def split: option.splits)
  have n: "len (optional PInt (map_option fst (dq_expected q))) \<le> 4" "len (optional PInt (map_option snd (dq_expected q))) \<le> 4"
    by (rule optional_len, rule r, simp)+
  have w: "narrow 1 (optional PInt (map_option f (dq_expected q)))" if "f = fst \<or> f = snd" for f :: "int \<times> int \<Rightarrow> int"
    using r [OF that] by (cases "dq_expected q") (auto simp: optional_def INTEGER_MAX_def)
  show "len (dispatch_json q) \<le> 8000"
    using u n claim_size(1) [OF c] name_sizes(3) [of "dq_claim q"]
    by (simp add: dispatch_json_def len_simps(5)) (simp add: len_simps(1) json_string_def escape_char_def)
  show "narrow 0 (dispatch_json q)"
    using w [of fst] w [of snd] claim_size(2) [OF c, of 1] by (simp add: dispatch_json_def DEPTH_LIMIT_def)
qed

section \<open>Reading a dictionary back, with its keys sorted\<close>

lemma validate_clock_json: "clock_ok c \<Longrightarrow> validate_clock (sort_keys (clock_json c)) = Inr c"
proof -
  assume ok: "clock_ok c"
  have "clock_body (clock_json c) = Inr c"
    using ok utc_range unfolding clock_body_def
    by (auto simp: clock_json_def item_PDict fields_are_def same_fields_def fields_of_def whole_def int_in_def clock_ok_def)
  then show ?thesis
    using clock_size(1) [OF ok] clock_size(2) [OF ok, of 0] by (simp add: validate_clock_def validation_def detach_ok REQUEST_BYTES_def EXPORT_BYTES_def DEPTH_LIMIT_def sorted_view)
qed

lemma reference_json_reads:
  "reference_ok 32 r \<Longrightarrow> approval_reference (sort_keys (approval_json r)) = Inr r"
  "reference_ok 1024 r \<Longrightarrow> audit_reference (sort_keys (audit_json r)) = Inr r"
  unfolding sorted_view approval_reference_def audit_reference_def
  by (auto simp: approval_json_def audit_json_def item_PDict fields_are_def same_fields_def fields_of_def whole_def int_in_def
      uuid_field_def hash_field_def hash_val_def reference_ok_def)

lemma observed_json_reads: "observed_ok b \<Longrightarrow> read_observed (sort_keys (observed_json b)) = Inr b"
  unfolding sorted_view read_observed_def
  by (auto simp: observed_json_def item_PDict fields_are_def same_fields_def fields_of_def whole_def int_in_def
      hash_field_def hash_val_def observed_ok_def)

lemma name_reads [simp]: "read_slot (PStr (slot_name k)) = Inr k" "read_reported (PStr (reported_name r)) = Inr r"
  by (simp_all add: field_Inr)

lemma uuid_reads: "is_uuid4 s \<Longrightarrow> uuid_field (PStr s) = Inr s"
  by (simp add: field_Inr)

lemma whole_reads: "a \<le> i \<Longrightarrow> i \<le> b \<Longrightarrow> whole (PInt i) a b = Inr i"
  by (simp add: field_Inr)

lemma read_claim_json:
  assumes ok: "claim_ok c"
  shows "read_claim (claim_name c) (sort_keys (claim_json c)) = Inr c"
proof (cases c)
  case (Starting s)
  have "session_claim (sort_keys (claim_json c)) = Inr c"
    unfolding session_claim_def sorted_view
    using ok by (simp add: Starting item_PDict fields_are_def same_fields_def fields_of_def uuid_reads whole_reads validate_clock_json)
  then show ?thesis by (simp add: read_claim_def Starting)
next
  case (Reserving s)
  have "reserve_claim (sort_keys (claim_json c)) = Inr c"
    unfolding reserve_claim_def sorted_view
    using ok reference_json_reads
    by (simp add: Reserving item_PDict fields_are_def same_fields_def fields_of_def uuid_reads validate_clock_json sorted_view)
  then show ?thesis by (simp add: read_claim_def Reserving)
next
  case (Completing s)
  have "(if sort_keys (optional observed_json (cp_observed s)) = PNone then Inr None
      else bindE (read_observed (sort_keys (optional observed_json (cp_observed s)))) (\<lambda>b. Inr (Some b))) = Inr (cp_observed s)"
    using ok observed_json_reads
    by (cases "cp_observed s") (auto simp: Completing optional_def observed_json_def)
  note ob = this [unfolded sorted_view]
  have "complete_claim (sort_keys (claim_json c)) = Inr c"
    unfolding complete_claim_def sorted_view
    using ok ob by (simp add: Completing item_PDict fields_are_def same_fields_def fields_of_def uuid_reads validate_clock_json sorted_view
        cong: if_cong split del: if_split)
  then show ?thesis by (simp add: read_claim_def Completing)
qed (use ok in \<open>simp_all add: read_claim_def sorted_view dispatch_roe_Inr validate_roe_json dispatch_roe_def\<close>)

lemma dispatch_body_json:
  assumes ok: "dispatch_ok q"
  shows "dispatch_body (sort_keys (dispatch_json q)) = Inr q"
proof -
  have items: "fields_are (dispatch_json q) DISPATCH_FIELDS = Inr ()" "item (dispatch_json q) ''schema_version'' = PStr ''2''"
    "item (dispatch_json q) ''engagement_id'' = PStr (dq_engagement q)" "item (dispatch_json q) ''event_id'' = PStr (dq_event q)"
    "item (dispatch_json q) ''operation'' = PStr (claim_name (dq_claim q))"
    "item (dispatch_json q) ''expected_revision'' = optional PInt (map_option fst (dq_expected q))"
    "item (dispatch_json q) ''expected_generation'' = optional PInt (map_option snd (dq_expected q))"
    "item (dispatch_json q) ''body'' = claim_json (dq_claim q)"
    by (simp_all add: dispatch_json_def item_PDict fields_are_def DISPATCH_FIELDS_def same_fields_def fields_of_def)
  have op: "require (str_in OPERATIONS (PStr (claim_name (dq_claim q)))) e = Inr ()" for e :: string
    by (cases "dq_claim q") (simp_all add: str_in_def OPERATIONS_def)
  have ex: "read_expected (claim_name (dq_claim q)) (sort_keys (dispatch_json q)) = Inr (dq_expected q)"
  proof (cases "dq_expected q")
    case None
    then show ?thesis using ok by (simp add: read_expected_def sorted_view items dispatch_ok_def optional_def)
  next
    case (Some p)
    then show ?thesis using ok by (cases p) (simp add: read_expected_def sorted_view items dispatch_ok_def optional_def whole_reads)
  qed
  have c: "read_claim (claim_name (dq_claim q)) (sort_keys (claim_json (dq_claim q))) = Inr (dq_claim q)"
    by (rule read_claim_json) (use ok in \<open>simp add: dispatch_ok_def\<close>)
  show ?thesis
    using ok unfolding dispatch_body_def sorted_view items Let_def op
    by (simp add: ex c uuid_reads dispatch_ok_def)
qed

lemma validate_dispatch_json:
  assumes ok: "dispatch_ok q"
  shows "validate_dispatch (dispatch_json q) = Inr q" "validate_dispatch (sort_keys (dispatch_json q)) = Inr q"
  using dispatch_size [OF ok] dispatch_body_json [OF ok]
  by (simp_all add: validate_dispatch_def validation_def detach_ok REQUEST_BYTES_def EXPORT_BYTES_def)

end
