(* ===== verification/DispatchRecord.thy ===== *)
theory DispatchRecord
  imports DispatchReplay
begin

text \<open>
  An export that the engine built validates again, and replaying it gives back the engine with its
  dictionaries; a revoked ledger only records what is left to complete.
\<close>

section \<open>What a push leaves alone\<close>

definition same_log :: "engine \<Rightarrow> engine \<Rightarrow> bool" where
  "same_log e e' \<longleftrightarrow> dx_events (eg_export e') = dx_events (eg_export e) \<and> dx_engagement (eg_export e') = dx_engagement (eg_export e)"

lemma cached_policy_export: "cached_policy H e = Inr (d, e1) \<Longrightarrow> eg_export e1 = eg_export e"
  by (erule cached_policy_Inr) simp

lemma cached_action_export: "cached_action H U n k e = Inr (a, e1) \<Longrightarrow> eg_export e1 = eg_export e"
  by (erule cached_action_Inr) simp

lemma start_session_rows:
  assumes "start_session H c e = Inr e'" and "indexed e"
  shows "same_log e e'" "\<exists>row. dx_sessions (eg_export e') = dx_sessions (eg_export e) @ [row] \<and> length (dx_sessions (eg_export e)) < ROWS_LIMIT"
    "dx_revisions (eg_export e') = dx_revisions (eg_export e)" "dx_reservations (eg_export e') = dx_reservations (eg_export e)"
    "dx_completions (eg_export e') = dx_completions (eg_export e)" "dx_state (eg_export e') = dx_state (eg_export e)"
  using assms indexedD(2) [of e]
  by (auto elim!: start_session_Inr simp: same_log_def add_session_def dest!: cached_policy_export)

lemma reserve_slot_rows:
  assumes "reserve_slot H U c e = Inr e'" and "indexed e"
  shows "same_log e e'" "\<exists>row. dx_reservations (eg_export e') = dx_reservations (eg_export e) @ [row] \<and> length (dx_reservations (eg_export e)) < ROWS_LIMIT"
    "dx_revisions (eg_export e') = dx_revisions (eg_export e)" "dx_sessions (eg_export e') = dx_sessions (eg_export e)"
    "dx_completions (eg_export e') = dx_completions (eg_export e)"
  using assms indexedD(3) [of e]
  by (auto elim!: reserve_slot_Inr simp: same_log_def add_reservation_def dest!: cached_action_export)

lemma complete_dispatch_rows:
  assumes "complete_dispatch c e = Inr e'" and "indexed e"
  shows "same_log e e'" "\<exists>row. dx_completions (eg_export e') = dx_completions (eg_export e) @ [row] \<and> length (dx_completions (eg_export e)) < ROWS_LIMIT
      \<and> (ds_revoked (state_at e) \<longrightarrow> \<not> cw_eligible row)"
    "dx_revisions (eg_export e') = dx_revisions (eg_export e)" "dx_sessions (eg_export e') = dx_sessions (eg_export e)"
    "dx_reservations (eg_export e') = dx_reservations (eg_export e)" "dx_state (eg_export e') = dx_state (eg_export e)"
  using assms indexedD(4) [of e]
  by (auto elim!: complete_dispatch_Inr simp: same_log_def add_completion_def)

lemma revise_roe_rows:
  assumes "revise_roe H r e = Inr e'" and "indexed e"
  shows "same_log e e'" "\<exists>row. dx_revisions (eg_export e') = dx_revisions (eg_export e) @ [row] \<and> length (dx_revisions (eg_export e)) < ROWS_LIMIT"
    "dx_sessions (eg_export e') = dx_sessions (eg_export e)" "dx_reservations (eg_export e') = dx_reservations (eg_export e)"
    "dx_completions (eg_export e') = dx_completions (eg_export e)"
  using assms indexedD(8) [of e] by (auto simp: same_log_def revise_roe_def Let_def res_simps)

lemma revoke_all_rows:
  "same_log e (revoke_all e)" "dx_revisions (eg_export (revoke_all e)) = dx_revisions (eg_export e)"
  "dx_sessions (eg_export (revoke_all e)) = dx_sessions (eg_export e)" "dx_reservations (eg_export (revoke_all e)) = dx_reservations (eg_export e)"
  "dx_completions (eg_export (revoke_all e)) = dx_completions (eg_export e)"
  by (simp_all add: same_log_def revoke_all_def)

lemma transit_log:
  assumes "transit H U c e = Inr e'" and "indexed e"
  shows "same_log e e'"
  using assms start_session_rows(1) reserve_slot_rows(1) complete_dispatch_rows(1) revise_roe_rows(1) revoke_all_rows(1)
  by (auto simp: transit_def split: claim.splits)

text \<open>Recording an event touches its log, the clock and the number of the last event.\<close>

lemma stamp_rows:
  assumes "stamp H q e = Inr (e', r)"
  shows "\<exists>event. de_request event = q \<and> dx_events (eg_export e') = dx_events (eg_export e) @ [event]"
    "dx_engagement (eg_export e') = dx_engagement (eg_export e)" "dx_revisions (eg_export e') = dx_revisions (eg_export e)"
    "dx_sessions (eg_export e') = dx_sessions (eg_export e)" "dx_reservations (eg_export e') = dx_reservations (eg_export e)"
    "dx_completions (eg_export e') = dx_completions (eg_export e)" "ds_usage (state_at e') = ds_usage (state_at e)"
    "ds_revoked (state_at e') = ds_revoked (state_at e)"
proof -
  obtain e1 event where 1: "e1 = number_event (observe_clock (dq_claim q) e)" "de_request event = q"
    "e' = e1\<lparr>eg_export := (eg_export e1)\<lparr>dx_events := dx_events (eg_export e1) @ [event]\<rparr>, eg_events := eg_events e1 @ [dq_event q]\<rparr>"
    using assms by (rule stamp_Inr)
  have o: "dx_engagement (eg_export (observe_clock c e)) = dx_engagement (eg_export e)" "dx_revisions (eg_export (observe_clock c e)) = dx_revisions (eg_export e)"
    "dx_sessions (eg_export (observe_clock c e)) = dx_sessions (eg_export e)" "dx_reservations (eg_export (observe_clock c e)) = dx_reservations (eg_export e)"
    "dx_completions (eg_export (observe_clock c e)) = dx_completions (eg_export e)" "ds_usage (dx_state (eg_export (observe_clock c e))) = ds_usage (dx_state (eg_export e))"
    "ds_revoked (dx_state (eg_export (observe_clock c e))) = ds_revoked (dx_state (eg_export e))" for c
    by (auto simp: observe_clock_def Let_def state_at_def split: option.splits)
  show "\<exists>event. de_request event = q \<and> dx_events (eg_export e') = dx_events (eg_export e) @ [event]"
    using 1 by (auto simp: number_event_def observed_events)
  show "dx_engagement (eg_export e') = dx_engagement (eg_export e)" "dx_revisions (eg_export e') = dx_revisions (eg_export e)"
    "dx_sessions (eg_export e') = dx_sessions (eg_export e)" "dx_reservations (eg_export e') = dx_reservations (eg_export e)"
    "dx_completions (eg_export e') = dx_completions (eg_export e)" "ds_usage (state_at e') = ds_usage (state_at e)"
    "ds_revoked (state_at e') = ds_revoked (state_at e)"
    using 1 by (simp_all add: number_event_def o state_at_def)
qed

lemma advance_engine_Inr:
  assumes "advance_engine H U q e = Inr e'"
  shows "dq_engagement q = dx_engagement (eg_export e)" "length (dx_events (eg_export e)) < EVENTS_LIMIT"
    "ds_revoked (state_at e) \<longrightarrow> claim_name (dq_claim q) = ''complete''" "transit H U (dq_claim q) e = Inr e'"
    "claim_name (dq_claim q) \<noteq> ''complete'' \<longrightarrow> dq_expected q = Some (ds_revision (state_at e), ds_generation (state_at e))"
  using assms by (auto simp: advance_engine_def Let_def res_simps)

lemma push_Inr:
  assumes "push H U q current = Inr (e', r)"
  obtains (first) roe e0 where "current = None" "dq_claim q = Opening roe" "open_engine H (dq_engagement q) roe = Inr e0" "stamp H q e0 = Inr (e', r)"
  | (later) e e0 where "current = Some e" "dq_event q \<notin> set (eg_events e)" "advance_engine H U q e = Inr e0" "stamp H q e0 = Inr (e', r)"
  using assms by (auto simp: push_def res_simps split: option.splits claim.splits)

section \<open>The log of an engine replays to it\<close>

lemma replay_append: "replay_events H U (vs @ ws) current = bindE (replay_events H U vs current) (replay_events H U ws)"
  by (induction vs arbitrary: current) (simp_all add: bindE_assoc split_def)

definition logged_value :: "dispatch_event \<Rightarrow> pyval" where
  "logged_value v = sort_keys (dispatch_event_json v)"

definition rebuilds :: "(string \<Rightarrow> string) \<Rightarrow> (string \<Rightarrow> string) \<Rightarrow> engine \<Rightarrow> bool" where
  "rebuilds H U e \<longleftrightarrow> replay_events H U (map logged_value (dx_events (eg_export e))) None = Inr (Some e)"

lemma replay_one: "dispatch_ok (de_request v) \<Longrightarrow>
  replay_events H U [logged_value v] current = bindE (push H U (de_request v) current) (\<lambda>(e, _). Inr (Some e))"
  unfolding logged_value_def replay_events.simps sorted_view
  by (simp add: dispatch_event_json_def item_PDict fields_are_def EVENT_FIELDS_def same_fields_def fields_of_def validate_dispatch_json(2))

text \<open>What an engine has at every moment.\<close>

definition sized :: "engine \<Rightarrow> bool" where
  "sized e \<longleftrightarrow> (let x = eg_export e in is_uuid4 (dx_engagement x)
     \<and> 1 \<le> length (dx_revisions x) \<and> length (dx_revisions x) \<le> 64 \<and> length (dx_sessions x) \<le> 64 \<and> length (dx_reservations x) \<le> 64
     \<and> length (dx_completions x) \<le> 64 \<and> 1 \<le> length (dx_events x) \<and> length (dx_events x) \<le> 257)"

definition lives :: "(string \<Rightarrow> string) \<Rightarrow> (string \<Rightarrow> string) \<Rightarrow> engine \<Rightarrow> bool" where
  "lives H U e \<longleftrightarrow> engine_fine H U e \<and> rebuilds H U e \<and> sized e"

lemma transit_sized:
  assumes t: "transit H U c e = Inr e'" and i: "indexed e" and s: "sized e"
  shows "sized e'"
proof (cases c)
  case (Starting d)
  then show ?thesis using start_session_rows [of H d e e'] t i s
    by (auto simp: transit_def sized_def Let_def same_log_def ROWS_LIMIT_def)
next
  case (Reserving d)
  then show ?thesis using reserve_slot_rows [of H U d e e'] t i s
    by (auto simp: transit_def sized_def Let_def same_log_def ROWS_LIMIT_def)
next
  case (Completing d)
  then show ?thesis using complete_dispatch_rows [of d e e'] t i s
    by (auto simp: transit_def sized_def Let_def same_log_def ROWS_LIMIT_def)
next
  case (Revising r)
  then show ?thesis using revise_roe_rows [of H r e e'] t i s
    by (auto simp: transit_def sized_def Let_def same_log_def ROWS_LIMIT_def)
next
  case Revoking
  then show ?thesis using revoke_all_rows [of e] t s by (auto simp: transit_def sized_def Let_def same_log_def)
qed (use t in \<open>simp add: transit_def\<close>)

lemma push_sized:
  assumes p: "push H U q current = Inr (e', r)" and u: "is_uuid4 (dq_engagement q)"
    and i: "\<And>e. current = Some e \<Longrightarrow> indexed e \<and> sized e"
  shows "sized e'"
  using p
proof (cases rule: push_Inr)
  case (first roe e0)
  then show ?thesis using stamp_rows [OF first(4)] u
    by (auto simp: open_engine_def res_simps sized_def Let_def)
next
  case (later e e0)
  have t: "transit H U (dq_claim q) e = Inr e0" "length (dx_events (eg_export e)) < EVENTS_LIMIT" using advance_engine_Inr [OF later(3)] by auto
  have "sized e0" using transit_sized [OF t(1)] i [OF later(1)] by simp
  moreover have "length (dx_events (eg_export e0)) < 257"
    using transit_log [OF t(1)] t(2) i [OF later(1)] by (simp add: same_log_def EVENTS_LIMIT_def)
  ultimately show ?thesis using stamp_rows [OF later(4)] by (auto simp: sized_def Let_def)
qed

lemma push_lives:
  assumes p: "push H U q current = Inr (e', r)" and q: "dispatch_ok q" and l: "\<And>e. current = Some e \<Longrightarrow> lives H U e"
  shows "lives H U e'"
proof -
  have f: "engine_fine H U e'" using push_fine [OF _ p] l by (simp add: lives_def)
  have s: "sized e'" using push_sized [OF p] q l by (simp add: lives_def engine_fine_def dispatch_ok_def)
  obtain event where ev: "de_request event = q"
    "dx_events (eg_export e') = (case current of None \<Rightarrow> [] | Some e \<Rightarrow> dx_events (eg_export e)) @ [event]"
    using p
  proof (cases rule: push_Inr)
    case (first roe e0)
    then show ?thesis using stamp_rows(1) [OF first(4)] that by (auto simp: open_engine_def res_simps)
  next
    case (later e e0)
    have "same_log e e0" using transit_log [OF advance_engine_Inr(4) [OF later(3)]] l [OF later(1)] by (simp add: lives_def engine_fine_def)
    then show ?thesis using stamp_rows(1) [OF later(4)] later(1) that by (auto simp: same_log_def)
  qed
  have one: "replay_events H U [logged_value event] current = Inr (Some e')"
    using replay_one [of event H U current] ev(1) q p by simp
  have "rebuilds H U e'"
  proof (cases current)
    case None
    then show ?thesis using one ev(2) by (simp add: rebuilds_def)
  next
    case (Some e)
    then show ?thesis using one ev(2) l [OF Some] by (simp add: rebuilds_def lives_def replay_append)
  qed
  then show ?thesis using f s by (simp add: lives_def)
qed

lemma replay_lives:
  "replay_events H U vs current = Inr (Some e) \<Longrightarrow> (\<And>e. current = Some e \<Longrightarrow> lives H U e) \<Longrightarrow> lives H U e"
proof (induction vs arbitrary: current)
  case (Cons v vs)
  then obtain q e1 r where p: "validate_dispatch (item v ''request'') = Inr q" "push H U q current = Inr (e1, r)"
    and rest: "replay_events H U vs (Some e1) = Inr (Some e)"
    by (auto simp: res_simps)
  show ?case using Cons.IH [OF rest] push_lives [OF p(2) validate_dispatch_ok [OF p(1)] Cons.prems(2)] by blast
qed simp

lemma reconstruct_lives: "reconstruct H U v = Inr e \<Longrightarrow> lives H U e"
  unfolding reconstruct_def Let_def by (auto simp: res_simps split: option.splits intro: replay_lives)

section \<open>The export validates\<close>

lemma export_json_items:
  "fields_are (dispatch_export_json x) EXPORT_FIELDS = Inr ()"
  "item (dispatch_export_json x) ''schema_version'' = PStr ''2''" "item (dispatch_export_json x) ''kind'' = PStr ''engagement_dispatch_ledger''"
  "item (dispatch_export_json x) ''engagement_id'' = PStr (dx_engagement x)"
  "item (dispatch_export_json x) ''revisions'' = PList (revision_values 1 (dx_revisions x))"
  "item (dispatch_export_json x) ''sessions'' = PList (map session_row_json (dx_sessions x))"
  "item (dispatch_export_json x) ''reservations'' = PList (map reservation_row_json (dx_reservations x))"
  "item (dispatch_export_json x) ''completions'' = PList (map completion_row_json (dx_completions x))"
  "item (dispatch_export_json x) ''events'' = PList (map dispatch_event_json (dx_events x))"
  by (simp_all add: dispatch_export_json_def item_PDict fields_are_def EXPORT_FIELDS_def same_fields_def fields_of_def)

lemma reconstruct_export:
  assumes l: "lives H U e" and c: "canonical_text (dispatch_export_json (eg_export e)) = Inr raw"
  shows "reconstruct H U (dispatch_export_json (eg_export e)) = Inr e"
proof -
  have z: "check_sizes (sort_keys (dispatch_export_json (eg_export e))) EXPORT_SIZES = Inr ()"
    using l by (simp add: lives_def sized_def Let_def EXPORT_SIZES_def sorted_view export_json_items)
  have r: "replay_events H U (map sort_keys (map dispatch_event_json (dx_events (eg_export e)))) None = Inr (Some e)"
    using l by (simp add: lives_def rebuilds_def logged_value_def [abs_def] comp_def)
  show ?thesis
    unfolding reconstruct_def Let_def c bindE_simps sorted_view export_json_items z
    using l r c by (simp add: uuid_reads lives_def sized_def Let_def)
qed

lemma reconstruct_text:
  assumes "reconstruct H U v = Inr e"
  shows "canonical_text (dispatch_export_json (eg_export e)) = Inr (canonical v)" "canonical_text v = Inr (canonical v)"
proof -
  obtain raw where r: "canonical_text v = Inr raw" "canonical_text (dispatch_export_json (eg_export e)) = Inr raw"
    using assms unfolding reconstruct_def Let_def by (auto simp: res_simps split: option.splits)
  moreover have "raw = canonical v" using r(1) by (auto simp: canonical_text_def Let_def res_simps)
  ultimately show "canonical_text (dispatch_export_json (eg_export e)) = Inr (canonical v)" "canonical_text v = Inr (canonical v)" by simp_all
qed

lemma validate_ledger_Inr: "validate_ledger H U v = Inr x \<longleftrightarrow> (\<exists>e. reconstruct H U v = Inr e \<and> x = eg_export e)"
  by (auto simp: validate_ledger_def res_simps)

lemma lives_validates:
  assumes "lives H U e" and "canonical_text (dispatch_export_json (eg_export e)) = Inr raw"
  shows "validate_ledger H U (dispatch_export_json (eg_export e)) = Inr (eg_export e)"
  using reconstruct_export [OF assms] by (auto simp: validate_ledger_Inr)

section \<open>Revoked\<close>

text \<open>Requests one after another; a refused one leaves the ledger as it was.\<close>

fun drive :: "(string \<Rightarrow> string) \<Rightarrow> (string \<Rightarrow> string) \<Rightarrow> dispatch_request list \<Rightarrow> engine \<Rightarrow> engine" where
  "drive H U [] e = e"
| "drive H U (q # qs) e = drive H U qs (case push H U q (Some e) of Inl _ \<Rightarrow> e | Inr (e', _) \<Rightarrow> e')"

definition closing :: "engine \<Rightarrow> engine \<Rightarrow> bool" where
  "closing e e' \<longleftrightarrow> ds_revoked (state_at e') \<and> dx_revisions (eg_export e') = dx_revisions (eg_export e)
     \<and> dx_sessions (eg_export e') = dx_sessions (eg_export e) \<and> dx_reservations (eg_export e') = dx_reservations (eg_export e)
     \<and> ds_usage (state_at e') = ds_usage (state_at e)
     \<and> (\<exists>rows. dx_completions (eg_export e') = dx_completions (eg_export e) @ rows \<and> (\<forall>c \<in> set rows. \<not> cw_eligible c))"

lemma push_closing:
  assumes p: "push H U q (Some e) = Inr (e', r)" and v: "ds_revoked (state_at e)" and i: "indexed e"
  shows "closing e e'"
  using p
proof (cases rule: push_Inr)
  case (later f e0)
  then obtain c where c: "dq_claim q = Completing c" using advance_engine_Inr(3) [OF later(3)] v by (cases "dq_claim q") auto
  then have "complete_dispatch c e = Inr e0" using advance_engine_Inr(4) [OF later(3)] later(1) by (simp add: transit_def)
  note rows = complete_dispatch_rows [OF this i]
  then obtain row where row: "dx_completions (eg_export e0) = dx_completions (eg_export e) @ [row]" "\<not> cw_eligible row" using v by blast
  show ?thesis
    using rows(3-6) row stamp_rows(2-8) [OF later(4)] v by (simp add: closing_def state_at_def)
qed simp

lemma drive_closing:
  "ds_revoked (state_at e) \<Longrightarrow> lives H U e \<Longrightarrow> list_all dispatch_ok qs \<Longrightarrow> closing e (drive H U qs e) \<and> lives H U (drive H U qs e)"
proof (induction qs arbitrary: e)
  case (Cons q qs)
  show ?case
  proof (cases "push H U q (Some e)")
    case (Inr p)
    then obtain e1 r where p: "push H U q (Some e) = Inr (e1, r)" by (cases p) auto
    have c: "closing e e1" using push_closing [OF p] Cons.prems by (simp add: lives_def engine_fine_def)
    have l: "lives H U e1" using push_lives [OF p] Cons.prems by simp
    have "closing e1 (drive H U qs e1) \<and> lives H U (drive H U qs e1)" using Cons.IH l c Cons.prems by (simp add: closing_def)
    then show ?thesis using c p by (auto simp: closing_def)
  qed (use Cons in simp)
qed (simp add: closing_def)

end
