(* ===== verification/ConfigurableProps.thy ===== *)
theory ConfigurableProps
  imports ConfigurablePlan
begin

text \<open>
  The plan of a declared scope and the policy of the scope: which of the four actions exist, that
  the policy admits each of them, and that the test of membership finds its step.
\<close>

section \<open>Targets of a scope\<close>

lemma digit_char_read: "is_digit c \<Longrightarrow> digit_char (of_char c - 48) = c"
  by (simp add: digit_char_def is_digit_iff)

lemma digit_range: "is_digit c \<Longrightarrow> (of_char c :: nat) - 48 < 10"
  unfolding is_digit_iff by linarith

lemma zero_char: "digit_char 0 = CHR ''0''"
  by code_simp

lemma show_read_nat:
  "s \<noteq> [] \<Longrightarrow> list_all is_digit s \<Longrightarrow> length s = 1 \<or> hd s \<noteq> CHR ''0'' \<Longrightarrow> show_pos (int (read_nat 0 s)) = s"
proof (induction s rule: rev_induct)
  case (snoc c s)
  then have c: "is_digit c" by simp
  let ?d = "(of_char c :: nat) - 48"
  note r = digit_range [OF c] digit_char_read [OF c]
  show ?case
  proof (cases "s = []")
    case True
    then show ?thesis using r by (simp add: show_pos.simps [of "int ?d"])
  next
    case False
    then have z: "hd s \<noteq> CHR ''0''" using snoc.prems(3) by auto
    then have IH: "show_pos (int (read_nat 0 s)) = s" using snoc False by simp
    have n: "1 \<le> read_nat 0 s"
    proof (rule ccontr)
      assume "\<not> 1 \<le> read_nat 0 s"
      then have "int (read_nat 0 s) = 0" by simp
      then have "s = show_pos 0" using IH by simp
      then show False using z zero_char by (simp add: show_pos.simps [of 0])
    qed
    have "int (read_nat 0 (s @ [c])) = int (read_nat 0 s) * 10 + int ?d" by (simp add: read_nat_append)
    moreover have "(int (read_nat 0 s) * 10 + int ?d) div 10 = int (read_nat 0 s)"
      "(int (read_nat 0 s) * 10 + int ?d) mod 10 = int ?d" using r(1) by simp_all
    ultimately show ?thesis
      using n r IH by (simp add: show_pos.simps [of "int (read_nat 0 s) * 10 + int ?d"])
  qed
qed simp

lemma octet_inj: "octet s = Some a \<Longrightarrow> octet t = Some a \<Longrightarrow> s = t"
proof -
  have "show_pos a = s" if "octet s = Some a" for s
    using that show_read_nat [of s] by (auto simp: octet_def split: if_splits)
  then show "octet s = Some a \<Longrightarrow> octet t = Some a \<Longrightarrow> s = t" by metis
qed

lemma split_on_inj: "split_on c s = split_on c t \<Longrightarrow> s = t"
proof (induction s arbitrary: t)
  case Nil
  then show ?case by (cases t) (auto simp: split_on_nonempty [symmetric] split: if_splits list.splits)
next
  case (Cons x s)
  show ?case
  proof (cases t)
    case Nil
    then show ?thesis using Cons.prems split_on_nonempty [of c s] by (auto split: if_splits list.splits)
  next
    case (Cons y t')
    obtain w ws v vs where sp: "split_on c s = w # ws" "split_on c t' = v # vs"
      by (metis list.exhaust split_on_nonempty)
    then have "x = y \<and> split_on c s = split_on c t'"
      using Cons.prems by (auto simp: \<open>t = y # t'\<close> split: if_splits)
    then show ?thesis using Cons.IH by (simp add: \<open>t = y # t'\<close>)
  qed
qed

lemma ipv4_inj:
  assumes "ipv4 s = Some p" and "ipv4 t = Some p"
  shows "s = t"
proof -
  obtain a b c d where p: "p = (a, b, c, d)" by (cases p)
  obtain w x y z where s: "split_on (CHR ''.'') s = [w, x, y, z]" "octet w = Some a" "octet x = Some b" "octet y = Some c" "octet z = Some d"
    using assms(1) unfolding p by (rule ipv4_Some)
  obtain w' x' y' z' where t: "split_on (CHR ''.'') t = [w', x', y', z']" "octet w' = Some a" "octet x' = Some b" "octet y' = Some c" "octet z' = Some d"
    using assms(2) unfolding p by (rule ipv4_Some)
  have "w = w'" "x = x'" "y = y'" "z = z'" using s t octet_inj by metis+
  then show ?thesis using s(1) t(1) split_on_inj by metis
qed

definition address_of :: "string \<Rightarrow> int" where
  "address_of s = (case read_v4 s of Some n \<Rightarrow> n | None \<Rightarrow> 0)"

definition host_network :: "string \<Rightarrow> network" where
  "host_network s = \<lparr>nw_family = V4, nw_base = address_of s, nw_prefix = 32\<rparr>"

lemma private_address:
  assumes "ipv4 s = Some (a, b, c, d)" and "is_private (a, b, c, d)"
  shows "read_v4 s = Some (address_of s)" "2 ^ 24 \<le> address_of s" "address_of s < 224 * 2 ^ 24"
proof -
  have n: "read_v4 s = Some (((a * 256 + b) * 256 + c) * 256 + d)" using assms(1) by (simp add: read_v4_def)
  then show "read_v4 s = Some (address_of s)" by (simp add: address_of_def)
  obtain w x y z where "octet w = Some a" "octet x = Some b" "octet y = Some c" "octet z = Some d" using assms(1) by (rule ipv4_Some)
  then have "0 \<le> a \<and> a < 256" "0 \<le> b \<and> b < 256" "0 \<le> c \<and> c < 256" "0 \<le> d \<and> d < 256" using octet_range by blast+
  then show "2 ^ 24 \<le> address_of s" "address_of s < 224 * 2 ^ 24"
    using assms(2) n by (auto simp: address_of_def is_private_def)
qed

lemma target_network_ok:
  assumes "target_ok s"
  shows "target_network (PStr s) = Inr (host_network s)" "CHR ''/'' \<notin> set s"
    "canonical_target (PStr s) = Inr (show_v4 (address_of s))"
proof -
  obtain a b c d where i: "ipv4 s = Some (a, b, c, d)" and p: "is_private (a, b, c, d)"
    using assms by (auto simp: target_ok_def split: option.splits)
  note n = private_address [OF i p]
  obtain w x y z where parts: "split_on (CHR ''.'') s = [w, x, y, z]" "octet w = Some a" "octet x = Some b" "octet y = Some c" "octet z = Some d"
    using i by (rule ipv4_Some)
  then have "\<forall>ch \<in> set w \<union> set x \<union> set y \<union> set z. is_digit ch" using octet_range by (auto simp: list_all_iff)
  moreover have "set s \<subseteq> insert (CHR ''.'') (set w \<union> set x \<union> set y \<union> set z)"
    using set_split_on [of s "CHR ''.''"] parts(1) by auto
  ultimately have ch: "ch = CHR ''.'' \<or> is_digit ch" if "ch \<in> set s" for ch using that by blast
  have dot: "address_char (CHR ''.'')" by (simp add: address_char_def)
  show slash: "CHR ''/'' \<notin> set s" using ch [of "CHR ''/''"] by (auto simp: is_digit_def less_eq_char_def)
  have lit: "literal_network s = Some (host_network s)"
    using slash n(1) by (simp add: literal_network_def read_address_def host_network_def)
  have len: "1 \<le> length s" using i by (cases s) (simp_all add: ipv4_def octet_def)
  have le: "length s \<le> 80"
  proof -
    have "length w \<le> 3" "length x \<le> 3" "length y \<le> 3" "length z \<le> 3"
      using parts by (auto simp: octet_def split: if_splits)
    then show ?thesis using length_split_on [of s "CHR ''.''"] by (simp add: parts)
  qed
  have "\<not> overlaps (host_network s) f" if "f \<in> set (forbidden V4)" for f
    using that n(2,3) by (auto simp: forbidden_def overlaps_def in_network_def host_network_def host_count_def last_address_def)
  then have f: "\<not> list_ex (overlaps (host_network s)) (forbidden (nw_family (host_network s)))"
    by (auto simp: list_ex_iff host_network_def)
  show tn: "target_network (PStr s) = Inr (host_network s)"
    by (rule target_textI [OF _ len le lit f]) (use ch dot digit_address in blast)
  then show "canonical_target (PStr s) = Inr (show_v4 (address_of s))"
    using slash by (simp add: canonical_target_def) (simp add: host_network_def show_address_def)
qed

lemma base_256:
  assumes "x * 256 + d = y * 256 + (d' :: int)" and "0 \<le> d \<and> d < 256" and "0 \<le> d' \<and> d' < 256"
  shows "x = y \<and> d = d'"
proof -
  have "(x * 256 + d) mod 256 = (y * 256 + d') mod 256" using assms(1) by simp
  then have "d = d'" using assms(2,3) by simp
  then show ?thesis using assms(1) by simp
qed

lemma same_address:
  assumes "target_ok s" and "target_ok t" and "address_of s = address_of t"
  shows "s = t"
proof -
  obtain a b c d where i: "ipv4 s = Some (a, b, c, d)" "is_private (a, b, c, d)"
    using assms(1) by (auto simp: target_ok_def split: option.splits)
  obtain a' b' c' d' where j: "ipv4 t = Some (a', b', c', d')" "is_private (a', b', c', d')"
    using assms(2) by (auto simp: target_ok_def split: option.splits)
  have r: "0 \<le> a \<and> a < 256" "0 \<le> b \<and> b < 256" "0 \<le> c \<and> c < 256" "0 \<le> d \<and> d < 256"
    using i(1) octet_range by (metis ipv4_Some)+
  have r': "0 \<le> a' \<and> a' < 256" "0 \<le> b' \<and> b' < 256" "0 \<le> c' \<and> c' < 256" "0 \<le> d' \<and> d' < 256"
    using j(1) octet_range by (metis ipv4_Some)+
  have "((a * 256 + b) * 256 + c) * 256 + d = ((a' * 256 + b') * 256 + c') * 256 + d'"
    using assms(3) i(1) j(1) by (simp add: address_of_def read_v4_def)
  then have "a = a'" "b = b'" "c = c'" "d = d'"
    using base_256 [OF _ r(4) r'(4)] base_256 [OF _ r(3) r'(3)] base_256 [OF _ r(2) r'(2)] by blast+
  then show ?thesis using i(1) j(1) ipv4_inj by metis
qed

section \<open>The actions\<close>

lemma plan_items:
  "item (plan_proposal H U s n) ''schema_version'' = PStr ''1''"
  "item (plan_proposal H U s n) ''action_id'' = PStr (U (PLAN_WORKFLOW @ '':'' @ scope_binding H s @ '':'' @ show_int n))"
  "item (plan_proposal H U s n) ''tool_id'' = PStr (PLAN_TOOLS ! nat (n - 1))"
  "item (plan_proposal H U s n) ''target'' = PStr (ep_target (plan_endpoint s n))"
  "item (plan_proposal H U s n) ''parameters'' = plan_parameters (plan_endpoint s n) n"
  "item (plan_proposal H U s n) ''rationale'' = PStr (''Deterministic owned endpoint assessment; operator scope '' @ scope_binding H s @ ''.'')"
  by (simp_all add: plan_proposal_def Let_def item_PDict)

lemma plan_fields: "is_dict (plan_proposal H U s n)" "same_fields (plan_proposal H U s n) ACTION_FIELDS"
  "decoded (plan_proposal H U s n) = Inr (plan_proposal H U s n)"
  by (simp_all add: plan_proposal_def Let_def same_fields_def ACTION_FIELDS_def fields_of_def decoded_def)

lemma plan_adapter:
  "\<exists>a \<in> set ADAPTERS. ad_tool a = ''configurable_nmap_service_v1'' \<and> ad_class a = ''NmapServiceParameters''"
  "\<exists>a \<in> set ADAPTERS. ad_tool a = ''configurable_http_headers_v1'' \<and> ad_class a = ''HTTPHeadersParameters''"
  "\<exists>a \<in> set ADAPTERS. ad_tool a = ''configurable_ssh_host_keys_v1'' \<and> ad_class a = ''SSHHostKeysParameters''"
proof -
  have "list_ex (\<lambda>a. ad_tool a = ''configurable_nmap_service_v1'' \<and> ad_class a = ''NmapServiceParameters'') ADAPTERS_4"
    unfolding ADAPTERS_4_def by simp
  then show "\<exists>a \<in> set ADAPTERS. ad_tool a = ''configurable_nmap_service_v1'' \<and> ad_class a = ''NmapServiceParameters''"
    by (auto simp: list_ex_iff ADAPTERS_def)
  have "list_ex (\<lambda>a. ad_tool a = ''configurable_http_headers_v1'' \<and> ad_class a = ''HTTPHeadersParameters'') ADAPTERS_5"
    "list_ex (\<lambda>a. ad_tool a = ''configurable_ssh_host_keys_v1'' \<and> ad_class a = ''SSHHostKeysParameters'') ADAPTERS_5"
    unfolding ADAPTERS_5_def by simp_all
  then show "\<exists>a \<in> set ADAPTERS. ad_tool a = ''configurable_http_headers_v1'' \<and> ad_class a = ''HTTPHeadersParameters''"
    "\<exists>a \<in> set ADAPTERS. ad_tool a = ''configurable_ssh_host_keys_v1'' \<and> ad_class a = ''SSHHostKeysParameters''"
    by (auto simp: list_ex_iff ADAPTERS_def)
qed

text \<open>The typed parameters of a step.\<close>

definition step_parameters :: "scope \<Rightarrow> int \<Rightarrow> parameters" where
  "step_parameters s n = (let e = plan_endpoint s n in
     if n = 2 then HttpRequest ''HTTPHeadersParameters'' \<lparr>pb_port = ep_port e, pb_timeout = 1, pb_output = 2048\<rparr> ''GET'' (the (ep_path e))
     else Bounded (if n = 4 then ''SSHHostKeysParameters'' else ''NmapServiceParameters'')
       \<lparr>pb_port = ep_port e, pb_timeout = 5, pb_output = 8192\<rparr>)"

definition plan_path_ok :: "scope \<Rightarrow> bool" where
  "plan_path_ok s \<longleftrightarrow> CHR ''~'' \<notin> set (the (ep_path (sc_http s)))"

definition step_action :: "(string \<Rightarrow> string) \<Rightarrow> (string \<Rightarrow> string) \<Rightarrow> scope \<Rightarrow> int \<Rightarrow> action" where
  "step_action H U s n = \<lparr>ac_id = U (PLAN_WORKFLOW @ '':'' @ scope_binding H s @ '':'' @ show_int n),
     ac_tool = PLAN_TOOLS ! nat (n - 1), ac_target = show_v4 (address_of (ep_target (plan_endpoint s n))),
     ac_parameters = step_parameters s n,
     ac_rationale = ''Deterministic owned endpoint assessment; operator scope '' @ scope_binding H s @ ''.''\<rparr>"

lemma scope_endpoints:
  assumes "scope_ok s"
  shows "target_ok (ep_target (plan_endpoint s n))" "1 \<le> ep_port (plan_endpoint s n)" "ep_port (plan_endpoint s n) \<le> 65535"
    "path_ok (the (ep_path (sc_http s)))"
  using assms by (auto simp: scope_ok_def endpoint_ok_def port_ok_def plan_endpoint_def split: option.splits)

lemma plain_path_iff:
  assumes "path_ok p"
  shows "plain_path p \<longleftrightarrow> CHR ''~'' \<notin> set p"
proof -
  have char: "path_char c \<Longrightarrow> is_alnum c \<or> c \<in> set ''/_.-'' \<longleftrightarrow> c \<noteq> CHR ''~''" for c
    by (auto simp: path_char_def is_alnum_def is_digit_def is_lower_def is_upper_def less_eq_char_def)
  have "list_all path_char p" using assms by (simp add: path_ok_def)
  then have "list_all (\<lambda>c. is_alnum c \<or> c \<in> set ''/_.-'') p \<longleftrightarrow> CHR ''~'' \<notin> set p"
    unfolding list_all_iff using char by blast
  moreover have "p \<noteq> []" "hd p = CHR ''/''" "\<not> double_slash p" using assms by (auto simp: path_ok_def)
  ultimately show ?thesis unfolding plain_path_def by blast
qed

lemma step_construct:
  assumes ok: "scope_ok s" and n: "n \<in> {1, 2, 3, 4}"
  shows "construct (class_of (step_parameters s n)) (plan_parameters (plan_endpoint s n) n) =
    (if n = 2 \<and> \<not> plan_path_ok s then Inl ''invalid_path'' else Inr (step_parameters s n))"
proof (cases "n = 2")
  case False
  then show ?thesis using scope_endpoints(2,3) [OF ok, of n] scope_endpoints(2,3) [OF ok, of 4]
    by (simp add: step_parameters_def Let_def plan_parameters_def construct_def HTTP_CLASSES_def read_bounds_def check_int_def
        item_PDict MAX_TIMEOUT_SECONDS_def ToolParams.MAX_OUTPUT_BYTES_def)
next
  case True
  let ?p = "the (ep_path (sc_http s))"
  have p: "path_ok ?p" using scope_endpoints(4) [OF ok] .
  then have l: "1 \<le> length ?p" "length ?p \<le> 256" "\<not> list_ex (\<lambda>w. w \<in> {''.'', ''..''}) (split_on (CHR ''/'') ?p)"
    by (auto simp: path_ok_def)
  show ?thesis
    using scope_endpoints(2,3) [OF ok, of 2] l plain_path_iff [OF p] True
    by (simp add: step_parameters_def Let_def plan_parameters_def construct_def HTTP_CLASSES_def read_http_def check_int_def
        check_string_def SUPPORTED_METHODS_def item_PDict MAX_TIMEOUT_SECONDS_def ToolParams.MAX_OUTPUT_BYTES_def
        plan_endpoint_def plan_path_ok_def require_def)
qed

lemma step_class: "class_of (step_parameters s n) =
    (if n = 2 then ''HTTPHeadersParameters'' else if n = 4 then ''SSHHostKeysParameters'' else ''NmapServiceParameters'')"
  by (simp add: step_parameters_def Let_def)

lemma step_adapter:
  assumes "n \<in> {1, 2, 3, 4 :: int}"
  obtains a where "a \<in> set ADAPTERS" "ad_tool a = PLAN_TOOLS ! nat (n - 1)" "ad_class a = class_of (step_parameters s n)"
  using assms plan_adapter by (auto simp: PLAN_TOOLS_def step_parameters_def Let_def)

lemma plan_parses:
  assumes ok: "scope_ok s" and n: "n \<in> {1, 2, 3, 4}" and hash: "is_hash (scope_binding H s)" and uuid: "\<forall>x. canonical_uuid (U x)"
  shows "parse_action (plan_proposal H U s n) =
    (if n = 2 \<and> \<not> plan_path_ok s then Inl ''invalid_path'' else Inr (step_action H U s n))"
proof -
  let ?v = "plan_proposal H U s n" and ?e = "plan_endpoint s n"
  obtain a where a: "a \<in> set ADAPTERS" "ad_tool a = PLAN_TOOLS ! nat (n - 1)" "ad_class a = class_of (step_parameters s n)"
    using n by (rule step_adapter)
  have g: "get_adapter (item ?v ''tool_id'') (PStr ADAPTER_API_VERSION) = Inr a"
    using a by (simp add: get_adapter_Inr plan_items)
  have t: "str_in SUPPORTED_TOOLS (item ?v ''tool_id'')" using a by (simp add: SUPPORTED_TOOLS_def plan_items rev_image_eqI)
  have f: "check_fields ?v ACTION_FIELDS ''action'' = Inr ()" using plan_fields by (simp add: res_simps)
  have k: "check_fields (plan_parameters ?e n) (ad_fields a) ''parameters'' = Inr ()"
    using adapter_fields [OF a(1)] unfolding a step_class
    by (cases "n = 2") (auto simp: check_fields_Inr plan_parameters_def same_fields_def fields_of_def class_fields_def HTTP_CLASSES_def
        field_lists split: if_splits)
  have p: "parse_parameters a (item ?v ''parameters'') =
    (if n = 2 \<and> \<not> plan_path_ok s then Inl ''invalid_path'' else Inr (step_parameters s n))"
    by (simp add: parse_parameters_def k plan_items a(3) step_construct [OF ok n])
  have tn: "target_ok (ep_target ?e)" using scope_endpoints(1) [OF ok] .
  note c = target_network_ok [OF tn]
  have nm: "ad_tool a \<noteq> NMAP_TOOL_ID" using n by (auto simp: a(2) PLAN_TOOLS_def NMAP_TOOL_ID_def)
  have len: "length (ac_rationale (step_action H U s n)) \<le> 1000" "length (U x) = 36" for x
    using hash uuid canonical_uuid_length by (auto simp: step_action_def is_hash_def)
  have "make_action ?v a (step_parameters s n) = Inr (step_action H U s n)"
    unfolding make_action_Inr plan_items using uuid c len a nm
    by (simp add: step_action_def canonical_target_stable(1) [OF c(3)])
  then show ?thesis
    unfolding parse_action_def by (simp add: plan_fields f g t p)
qed

lemma plan_action_eq:
  assumes v: "validate_scope v = Inr s" and n: "n \<in> {1, 2, 3, 4}" and hash: "is_hash (scope_binding H s)" and uuid: "\<forall>x. canonical_uuid (U x)"
  shows "plan_action H U v (PInt n) = (if n = 2 \<and> \<not> plan_path_ok s then Inl ''invalid_path'' else Inr (step_action H U s n))"
  using n plan_parses [OF validate_scope_ok [OF v] n hash uuid] by (auto simp: plan_action_def v)

section \<open>The policy of the scope\<close>

lemma scope_policy_items:
  "item (scope_policy_json s b) ''schema_version'' = PStr ''1''"
  "item (scope_policy_json s b) ''policy_version'' = PStr ''configurable-owned-v1''"
  "item (scope_policy_json s b) ''allowed_targets'' = PList (map PStr (first_uses [ep_target (sc_http s), ep_target (sc_ssh s)]))"
  "item (scope_policy_json s b) ''allowed_tools'' = PList (map PStr (first_uses PLAN_TOOLS))"
  "item (scope_policy_json s b) ''allowed_ports'' = PList (map PInt (first_uses [ep_port (sc_http s), ep_port (sc_ssh s)]))"
  "item (scope_policy_json s b) ''allowed_methods'' = PList [PStr ''GET'']" "item (scope_policy_json s b) ''max_timeout_seconds'' = PInt 5"
  "item (scope_policy_json s b) ''max_output_bytes'' = PInt 8192" "item (scope_policy_json s b) ''max_targets'' = PInt 1"
  "item (scope_policy_json s b) ''require_approval'' = b" "item (scope_policy_json s b) ''approval_ttl_seconds'' = PInt 60"
  by (simp_all add: scope_policy_json_def item_PDict)

definition scope_policy :: "scope \<Rightarrow> bool \<Rightarrow> policy" where
  "scope_policy s b = \<lparr>po_version = ''configurable-owned-v1'',
     po_targets = map (\<lambda>t. show_v4 (address_of t)) (first_uses [ep_target (sc_http s), ep_target (sc_ssh s)]),
     po_tools = first_uses PLAN_TOOLS, po_ports = first_uses [ep_port (sc_http s), ep_port (sc_ssh s)], po_methods = [''GET''],
     po_timeout = 5, po_output = 8192, po_max_targets = 1, po_approval = b, po_ttl = 60\<rparr>"

lemma scope_targets:
  assumes "scope_ok s" and "t \<in> {ep_target (sc_http s), ep_target (sc_ssh s)}"
  shows "target_ok t" "canonical_target (PStr t) = Inr (show_v4 (address_of t))"
    "target_network (PStr (show_v4 (address_of t))) = Inr (host_network t)"
proof -
  show t: "target_ok t" using assms by (auto simp: scope_ok_def endpoint_ok_def)
  show c: "canonical_target (PStr t) = Inr (show_v4 (address_of t))" by (rule target_network_ok [OF t])
  show "target_network (PStr (show_v4 (address_of t))) = Inr (host_network t)"
    using canonical_target_stable(1) [OF c] target_network_ok(1) [OF t] by simp
qed

lemma first_uses_two: "first_uses [x, y] = (if x = y then [x] else [x, y])"
  by simp

lemma plan_tools_used: "first_uses PLAN_TOOLS = [''configurable_nmap_service_v1'', ''configurable_http_headers_v1'', ''configurable_ssh_host_keys_v1'']"
  by (simp add: PLAN_TOOLS_def)

lemma plan_supported:
  "''configurable_nmap_service_v1'' \<in> set SUPPORTED_TOOLS" "''configurable_http_headers_v1'' \<in> set SUPPORTED_TOOLS"
  "''configurable_ssh_host_keys_v1'' \<in> set SUPPORTED_TOOLS"
  unfolding SUPPORTED_TOOLS_def set_map using plan_adapter by (metis imageI)+

lemma scope_policy_parses:
  assumes ok: "scope_ok s"
  shows "parse_policy (scope_policy_json s (PBool b)) = Inr (scope_policy s b)"
proof -
  let ?v = "scope_policy_json s (PBool b)" and ?p = "scope_policy s b"
  note t = scope_targets [OF ok]
  have tools: "mapE (in_list SUPPORTED_TOOLS ''unsupported_policy_tool'') (map PStr (first_uses PLAN_TOOLS)) = Inr (first_uses PLAN_TOOLS)"
    unfolding plan_tools_used using plan_supported by (simp add: in_list_def)
  have targets: "mapE canonical_target (map PStr (first_uses [ep_target (sc_http s), ep_target (sc_ssh s)])) = Inr (po_targets ?p)"
    using t(2) by (simp add: scope_policy_def)
  have "x = y" if "show_v4 (address_of x) = show_v4 (address_of y)" "x \<in> {ep_target (sc_http s), ep_target (sc_ssh s)}"
    "y \<in> {ep_target (sc_http s), ep_target (sc_ssh s)}" for x y
  proof -
    have "host_network x = host_network y" using t(3) [OF that(2)] t(3) [OF that(3)] that(1) by simp
    then show ?thesis using same_address [OF t(1) [OF that(2)] t(1) [OF that(3)]] by (simp add: host_network_def)
  qed
  then have "show_v4 (address_of (ep_target (sc_http s))) = show_v4 (address_of (ep_target (sc_ssh s))) \<Longrightarrow>
    ep_target (sc_http s) = ep_target (sc_ssh s)" by blast
  then have distinct: "distinct (po_targets ?p)" by (auto simp: scope_policy_def first_uses_two)
  have ports: "mapE (\<lambda>q. check_int q ''policy_port'' 1 65535) (map PInt (first_uses [ep_port (sc_http s), ep_port (sc_ssh s)]))
      = Inr (first_uses [ep_port (sc_http s), ep_port (sc_ssh s)])"
    using scope_endpoints(2,3) [OF ok, of 1] scope_endpoints(2,3) [OF ok, of 3]
    by (simp add: check_int_def plan_endpoint_def)
  have version: "version_text ''configurable-owned-v1''" by code_simp
  have methods: "mapE (in_list SUPPORTED_POLICY_METHODS ''unsupported_policy_method'') [PStr ''GET''] = Inr [''GET'']"
    by (simp add: in_list_def SUPPORTED_POLICY_METHODS_def SUPPORTED_METHODS_def)
  have p: "po_version ?p = ''configurable-owned-v1''" "po_tools ?p = first_uses PLAN_TOOLS" "po_methods ?p = [''GET'']"
    "po_ports ?p = first_uses [ep_port (sc_http s), ep_port (sc_ssh s)]" "po_timeout ?p = 5" "po_output ?p = 8192"
    "po_max_targets ?p = 1" "po_approval ?p = b" "po_ttl ?p = 60" by (simp_all add: scope_policy_def)
  have "make_policy ?v = Inr ?p"
    unfolding make_policy_Inr scope_policy_items elements.simps targets tools ports methods p
    using version distinct by (simp add: plan_tools_used MAX_TIMEOUT_SECONDS_def ToolParams.MAX_OUTPUT_BYTES_def MAX_TARGETS_def scope_policy_items)
  moreover have "decoded ?v = Inr ?v" "is_dict ?v" "same_fields ?v POLICY_FIELDS"
    by (simp_all add: decoded_def scope_policy_json_def same_fields_def POLICY_FIELDS_def fields_of_def)
  ultimately show ?thesis unfolding parse_policy_Inr by (intro exI [of _ ?v]) (simp add: scope_policy_items)
qed

section \<open>Membership\<close>

lemma item_loosen: "item (loosen v) k = loosen (item v k)"
  by (cases v) (simp_all add: item_def map_of_map map_prod_def split: option.splits)

lemma py_eq_item: "py_eq v w \<Longrightarrow> py_eq (item v k) (item w k)"
  unfolding py_eq_def by (metis item_loosen item_sort)

text \<open>Two steps of one scope never have equal actions.\<close>

lemma step_unique:
  assumes ok: "scope_ok s" and n: "n \<in> {1, 2, 3, 4}" and m: "m \<in> {1, 2, 3, 4}"
    and eq: "py_eq (action_json (step_action H U s n)) (action_json (step_action H U s m))"
  shows "n = m"
proof (rule ccontr)
  assume ne: "n \<noteq> m"
  let ?c = "\<lambda>n. step_action H U s n"
  have tool: "PLAN_TOOLS ! nat (n - 1) = PLAN_TOOLS ! nat (m - 1)"
    using py_eq_item [OF eq, of "''tool_id''"] by (simp add: action_items step_action_def)
  then have pair: "{n, m} = {1, 3}" using n m ne by (auto simp: PLAN_TOOLS_def)
  have "show_v4 (address_of (ep_target (plan_endpoint s n))) = show_v4 (address_of (ep_target (plan_endpoint s m)))"
    using py_eq_item [OF eq, of "''target''"] by (simp add: action_items step_action_def)
  then have "ep_target (plan_endpoint s n) = ep_target (plan_endpoint s m)"
    using scope_endpoints(1) [OF ok] target_network_ok same_address canonical_target_stable(1)
    by (metis (no_types, lifting) host_network_def network.ext_inject sum.inject(2))
  moreover have "py_eq (item (item (action_json (?c n)) ''parameters'') ''port'') (item (item (action_json (?c m)) ''parameters'') ''port'')"
    by (rule py_eq_item [OF py_eq_item [OF eq]])
  then have "ep_port (plan_endpoint s n) = ep_port (plan_endpoint s m)"
    using pair by (auto simp: action_items step_action_def step_parameters_def Let_def bounds_entries_def item_PDict py_eq_int doubleton_eq_iff)
  ultimately show False using ok pair by (auto simp: scope_ok_def plan_endpoint_def doubleton_eq_iff)
qed

lemma step_permitted:
  assumes ok: "scope_ok s" and n: "n \<in> {1, 2, 3, 4}"
  shows "permits (scope_policy s b) (step_action H U s n)"
proof -
  let ?c = "step_action H U s n" and ?p = "scope_policy s b" and ?t = "ep_target (plan_endpoint s n)"
  have t: "?t \<in> {ep_target (sc_http s), ep_target (sc_ssh s)}" by (simp add: plan_endpoint_def)
  note net = scope_targets(3) [OF ok t]
  have a: "action_network ?c = host_network ?t" using net by (simp add: action_network_def step_action_def)
  have "show_v4 (address_of ?t) \<in> set (po_targets ?p)" using t by (auto simp: scope_policy_def)
  then have s: "in_scope ?p ?c" using net unfolding in_scope_def a by blast
  have tool: "ac_tool ?c \<in> set (po_tools ?p)" using n by (auto simp: step_action_def scope_policy_def plan_tools_used PLAN_TOOLS_def)
  have port: "pb_port (bounds_of (ac_parameters ?c)) \<in> set (po_ports ?p)"
    by (simp add: step_action_def step_parameters_def Let_def scope_policy_def plan_endpoint_def)
  show ?thesis
    using s tool port n unfolding permits_def a
    by (auto simp: host_network_def host_count_def step_action_def scope_policy_def step_parameters_def Let_def METHOD_TOOLS_def PLAN_TOOLS_def)
qed

text \<open>
  C19: the plan of a declared scope stays inside the policy of the scope. Whether the declared HTTP
  path has a tilde, which the scope's grammar allows and the adapter's does not, decides the rest.
  Without one all four planned actions exist and the membership test finds each planned action's
  own step. With one the second action is refused, the membership test finds the first step only,
  and it refuses the planned actions of steps 3 and 4 as \<open>invalid_path\<close>, so that the profile
  does not allow them.
\<close>

theorem plan_within_policy:
  assumes "validate_scope v = Inr s" and "n \<in> {1, 2, 3, 4}" and "\<forall>x. is_hash (H x)" and "\<forall>x. canonical_uuid (U x)"
  shows "((\<exists>c. plan_action H U v (PInt n) = Inr c) \<longleftrightarrow> \<not> (n = 2 \<and> CHR ''~'' \<in> set (the (ep_path (sc_http s)))))
    \<and> (plan_action H U v (PInt n) = Inr c \<longrightarrow>
        (\<exists>p. policy_for_scope v (PBool b) = Inr p \<and> evaluate p c = (if b then Approval_required else Allow) \<and> po_max_targets p = 1)
        \<and> step_for_action H U v c = (if 2 < n \<and> CHR ''~'' \<in> set (the (ep_path (sc_http s))) then Inl ''invalid_path'' else Inr n)
        \<and> profile_allows H U c v = (\<not> (2 < n \<and> CHR ''~'' \<in> set (the (ep_path (sc_http s))))))"
proof -
  have ok: "scope_ok s" by (rule validate_scope_ok [OF assms(1)])
  have h: "is_hash (scope_binding H s)" using assms(3) by (simp add: scope_binding_def)
  note act = plan_action_eq [OF assms(1) _ h assms(4)]
  have one: "(\<exists>c. plan_action H U v (PInt n) = Inr c) \<longleftrightarrow> \<not> (n = 2 \<and> \<not> plan_path_ok s)"
    by (simp add: act [OF assms(2)])
  have two: "(\<exists>p. policy_for_scope v (PBool b) = Inr p \<and> evaluate p c = (if b then Approval_required else Allow) \<and> po_max_targets p = 1)"
    "step_for_action H U v c = (if 2 < n \<and> \<not> plan_path_ok s then Inl ''invalid_path'' else Inr n)"
    if c: "plan_action H U v (PInt n) = Inr c"
  proof -
    have ca: "c = step_action H U s n" "n = 2 \<Longrightarrow> plan_path_ok s" using c unfolding act [OF assms(2)] by (auto split: if_splits)
    have "action_ok c" using c by (auto simp: plan_action_def res_simps intro: parse_action_ok)
    then show "\<exists>p. policy_for_scope v (PBool b) = Inr p \<and> evaluate p c = (if b then Approval_required else Allow) \<and> po_max_targets p = 1"
      using step_permitted [OF ok assms(2)] scope_policy_parses [OF ok]
      by (simp add: policy_for_scope_def assms(1) evaluate_permits ca) (simp add: scope_policy_def)
    have eq: "py_eq (action_json c) (action_json (step_action H U s m)) \<longleftrightarrow> m = n" if "m \<in> {1, 2, 3, 4}" for m
      using step_unique [OF ok assms(2) that] by (auto simp: ca(1))
    show "step_for_action H U v c = (if 2 < n \<and> \<not> plan_path_ok s then Inl ''invalid_path'' else Inr n)"
      using assms(2) ca(2) by (auto simp: step_for_action_def act eq)
  qed
  show ?thesis using one two unfolding plan_path_ok_def profile_allows_def by (auto split: sum.splits if_splits)
qed

definition home_scope :: scope where
  "home_scope = \<lparr>sc_id = ''lab-1'', sc_http = \<lparr>ep_target = ''10.1.2.3'', ep_port = 8080, ep_path = Some ''/~lab/''\<rparr>,
     sc_ssh = \<lparr>ep_target = ''10.1.2.3'', ep_port = 2222, ep_path = None\<rparr>\<rparr>"

definition zero_hash :: "string \<Rightarrow> string" where "zero_hash x = replicate 64 (CHR ''0'')"

definition zero_uuid :: "string \<Rightarrow> string" where "zero_uuid x = ''00000000-0000-4000-8000-000000000000''"

theorem plan_within_policy_witness:
  "\<exists>c. plan_action zero_hash zero_uuid (scope_json home_scope) (PInt 4) = Inr c
    \<and> step_for_action zero_hash zero_uuid (scope_json home_scope) c = Inl ''invalid_path''
    \<and> (\<exists>p. policy_for_scope (scope_json home_scope) (PBool True) = Inr p \<and> evaluate p c = Approval_required)"
proof -
  have "scope_ok home_scope" by code_simp
  then have v: "validate_scope (scope_json home_scope) = Inr home_scope" by (rule validate_scope_json)
  have h: "\<forall>x. is_hash (zero_hash x)"
    by (simp add: zero_hash_def is_hash_def list_all_iff is_hex_def is_digit_def less_eq_char_def)
  have u: "\<forall>x. canonical_uuid (zero_uuid x)" unfolding zero_uuid_def by (rule allI) code_simp
  have p: "CHR ''~'' \<in> set (the (ep_path (sc_http home_scope)))" by (simp add: home_scope_def)
  have n: "4 \<in> {1, 2, 3, 4 :: int}" by simp
  note t = plan_within_policy [OF v n h u, of _ True]
  obtain c where c: "plan_action zero_hash zero_uuid (scope_json home_scope) (PInt 4) = Inr c" using t [THEN conjunct1] by auto
  show ?thesis using t [THEN conjunct2, THEN mp, OF c] c p by auto
qed

end
