(* ===== verification/DispatchPlan.thy ===== *)
theory DispatchPlan
  imports DispatchRecord ConfigurableProps
begin

text \<open>
  The digests a dispatch is bound to: the policy of a supported plan always parses, the actions of
  its two slots are the planned actions of the declared scope, and the policy admits them.
\<close>

section \<open>The policy of the prefix\<close>

definition prefix_policy :: "roe \<Rightarrow> policy" where
  "prefix_policy r = \<lparr>po_version = ''engagement-http-prefix-v1'', po_targets = [show_v4 (address_of (ep_target (sc_http (roe_scope r))))],
     po_tools = [''configurable_nmap_service_v1'', ''configurable_http_headers_v1''], po_ports = [ep_port (sc_http (roe_scope r))],
     po_methods = [''GET''], po_timeout = 5, po_output = 8192, po_max_targets = 1, po_approval = True, po_ttl = 60\<rparr>"

lemma dispatch_policy_eq:
  assumes ok: "roe_ok r" and sup: "supported r"
  shows "dispatch_policy r = Inr (prefix_policy r)"
proof -
  let ?h = "sc_http (roe_scope r)" and ?p = "prefix_policy r"
  define v where "v = PDict [(''schema_version'', PStr ''1''), (''policy_version'', PStr ''engagement-http-prefix-v1''),
      (''allowed_targets'', PList [PStr (ep_target ?h)]),
      (''allowed_tools'', PList [PStr ''configurable_nmap_service_v1'', PStr ''configurable_http_headers_v1'']),
      (''allowed_ports'', PList [PInt (ep_port ?h)]), (''allowed_methods'', PList [PStr ''GET'']),
      (''max_timeout_seconds'', PInt 5), (''max_output_bytes'', PInt 8192), (''max_targets'', PInt 1),
      (''require_approval'', PBool True), (''approval_ttl_seconds'', PInt 60)]"
  have s: "scope_ok (roe_scope r)" using ok by (simp add: roe_ok_def)
  have t: "canonical_target (PStr (ep_target ?h)) = Inr (show_v4 (address_of (ep_target ?h)))" using scope_targets [OF s] by simp
  have items: "item v ''schema_version'' = PStr ''1''" "item v ''policy_version'' = PStr ''engagement-http-prefix-v1''"
    "item v ''allowed_targets'' = PList [PStr (ep_target ?h)]"
    "item v ''allowed_tools'' = PList [PStr ''configurable_nmap_service_v1'', PStr ''configurable_http_headers_v1'']"
    "item v ''allowed_ports'' = PList [PInt (ep_port ?h)]" "item v ''allowed_methods'' = PList [PStr ''GET'']"
    "item v ''max_timeout_seconds'' = PInt 5" "item v ''max_output_bytes'' = PInt 8192" "item v ''max_targets'' = PInt 1"
    "item v ''require_approval'' = PBool True" "item v ''approval_ttl_seconds'' = PInt 60"
    by (simp_all add: v_def item_PDict)
  have tools: "mapE (in_list SUPPORTED_TOOLS ''unsupported_policy_tool'') [PStr ''configurable_nmap_service_v1'', PStr ''configurable_http_headers_v1'']
      = Inr (po_tools ?p)"
    using plan_supported by (simp add: in_list_def prefix_policy_def)
  have targets: "mapE canonical_target [PStr (ep_target ?h)] = Inr (po_targets ?p)" using t by (simp add: prefix_policy_def)
  have ports: "mapE (\<lambda>q. check_int q ''policy_port'' 1 65535) [PInt (ep_port ?h)] = Inr (po_ports ?p)"
    using scope_endpoints(2,3) [OF s, of 1] by (simp add: check_int_def plan_endpoint_def prefix_policy_def)
  have version: "version_text ''engagement-http-prefix-v1''" by code_simp
  have methods: "mapE (in_list SUPPORTED_POLICY_METHODS ''unsupported_policy_method'') [PStr ''GET''] = Inr (po_methods ?p)"
    by (simp add: in_list_def SUPPORTED_POLICY_METHODS_def SUPPORTED_METHODS_def prefix_policy_def)
  have p: "po_version ?p = ''engagement-http-prefix-v1''" "po_timeout ?p = 5" "po_output ?p = 8192"
    "po_max_targets ?p = 1" "po_approval ?p = True" "po_ttl ?p = 60" "length (po_tools ?p) = 2" "distinct (po_tools ?p)"
    "length (po_ports ?p) = 1" "length (po_targets ?p) = 1" "po_methods ?p = [''GET'']" by (simp_all add: prefix_policy_def)
  have "make_policy v = Inr ?p"
    unfolding make_policy_Inr items elements.simps targets tools ports methods p
    using version p by (simp add: MAX_TIMEOUT_SECONDS_def ToolParams.MAX_OUTPUT_BYTES_def MAX_TARGETS_def prefix_policy_def items)
  moreover have "decoded v = Inr v" "is_dict v" "same_fields v POLICY_FIELDS"
    by (simp_all add: decoded_def v_def same_fields_def POLICY_FIELDS_def fields_of_def)
  ultimately have "parse_policy v = Inr ?p" unfolding parse_policy_Inr by (intro exI [of _ v]) (simp add: items)
  then show ?thesis using sup by (simp add: dispatch_policy_def Let_def v_def)
qed

lemma dispatch_policy_supported: "dispatch_policy r = Inr p \<Longrightarrow> supported r"
  by (simp add: dispatch_policy_def Let_def res_simps)

lemma policy_sha256_eq:
  assumes ok: "roe_ok r" and sup: "supported r"
  shows "policy_sha256 H r = Inr (policy_digest H (prefix_policy r))"
proof -
  have d: "dispatch_policy r = Inr (prefix_policy r)" by (rule dispatch_policy_eq [OF ok sup])
  then have "policy_ok (prefix_policy r)"
    using sup by (auto simp: dispatch_policy_def Let_def intro: parse_policy_ok)
  then show ?thesis by (simp add: policy_sha256_def d policy_ok_def)
qed

section \<open>The actions of the slots\<close>

lemma slot_step_range: "slot_step k \<in> {1, 2, 3, 4}"
  by (cases k) simp_all

lemma supported_path: "supported r \<Longrightarrow> plan_path_ok (roe_scope r)"
  by (simp add: supported_def plan_path_ok_def)

definition slot_action :: "(string \<Rightarrow> string) \<Rightarrow> (string \<Rightarrow> string) \<Rightarrow> roe \<Rightarrow> slot \<Rightarrow> action" where
  "slot_action H U r k = step_action H U (roe_scope r) (slot_step k)"

lemma slot_action_plan:
  assumes ok: "roe_ok r" and sup: "supported r" and h: "hashes H" and u: "\<forall>x. canonical_uuid (U x)"
  shows "plan_action H U (scope_json (roe_scope r)) (PInt (slot_step k)) = Inr (slot_action H U r k)"
proof -
  have s: "scope_ok (roe_scope r)" using ok by (simp add: roe_ok_def)
  have b: "is_hash (scope_binding H (roe_scope r))" using h by (simp add: hashes_def scope_binding_def)
  show ?thesis
    using plan_action_eq [OF validate_scope_json [OF s] slot_step_range b u] supported_path [OF sup] by (simp add: slot_action_def)
qed

lemma action_identity_eq:
  assumes ok: "roe_ok r" and sup: "supported r" and h: "hashes H" and u: "\<forall>x. canonical_uuid (U x)"
  shows "action_identity H U r k = Inr (ac_id (slot_action H U r k), action_digest H (slot_action H U r k))"
proof -
  note p = slot_action_plan [OF assms, of k]
  have "action_ok (slot_action H U r k)" using p by (auto simp: plan_action_def res_simps intro: parse_action_ok)
  then show ?thesis by (simp add: action_identity_def p action_ok_def)
qed

lemma slot_action_permitted:
  assumes ok: "roe_ok r" and sup: "supported r" and h: "hashes H" and u: "\<forall>x. canonical_uuid (U x)"
  shows "evaluate (prefix_policy r) (slot_action H U r k) = Approval_required"
proof -
  let ?c = "slot_action H U r k" and ?p = "prefix_policy r" and ?t = "ep_target (sc_http (roe_scope r))"
  have s: "scope_ok (roe_scope r)" using ok by (simp add: roe_ok_def)
  have ac: "action_ok ?c" using slot_action_plan [OF assms, of k] by (auto simp: plan_action_def res_simps intro: parse_action_ok)
  note net = scope_targets(3) [OF s, of ?t, simplified]
  have e: "plan_endpoint (roe_scope r) (slot_step k) = sc_http (roe_scope r)" by (cases k) (simp_all add: plan_endpoint_def)
  have a: "action_network ?c = host_network ?t" using net by (simp add: action_network_def slot_action_def step_action_def e)
  have sc: "in_scope ?p ?c" using net unfolding in_scope_def a by (auto simp: prefix_policy_def)
  have "permits ?p ?c"
    using sc unfolding permits_def a
    by (cases k) (auto simp: host_network_def host_count_def slot_action_def step_action_def prefix_policy_def step_parameters_def Let_def
        METHOD_TOOLS_def PLAN_TOOLS_def plan_endpoint_def)
  then show ?thesis by (simp add: evaluate_permits [OF ac]) (simp add: prefix_policy_def)
qed

end
