(* ===== verification/DispatchSizes.thy ===== *)
theory DispatchSizes
  imports DispatchPlan
begin

text \<open>
  Every row of a dispatch ledger is within its limit of the encoder, and so is the whole ledger at
  its capacity of 64 revisions, sessions, reservations and completions and 257 events: no request
  is refused for the size of what it would record.
\<close>

section \<open>Texts without escapes\<close>

lemma escape_plain:
  assumes "is_hex c \<or> c = CHR ''-''"
  shows "escape_char c = [c]"
proof -
  have n: "45 \<le> (of_char c :: nat) \<and> (of_char c :: nat) \<le> 102 \<and> (of_char c :: nat) \<noteq> 92"
    using assms by (auto simp: is_hex_def is_digit_def less_eq_char_def)
  then have "c \<noteq> CHR 0x22" "c \<noteq> CHR 0x5C" "c \<noteq> CHR 0x08" "c \<noteq> CHR 0x0C" "c \<noteq> CHR 0x0A" "c \<noteq> CHR 0x0D" "c \<noteq> CHR 0x09"
    by auto
  then show ?thesis using n by (simp add: escape_char_def less_eq_char_def)
qed

lemma plain_len:
  assumes "list_all (\<lambda>c. is_hex c \<or> c = CHR ''-'') s"
  shows "len (PStr s) = int (length s) + 2"
proof -
  have "length (concat (map (\<lambda>c. [c]) s)) = length s" by (induction s) auto
  moreover have "map escape_char s = map (\<lambda>c. [c]) s" using assms escape_plain by (simp add: list_all_iff)
  ultimately have "length (concat (map escape_char s)) = length s" by (simp only:)
  then show ?thesis by (simp add: len_simps json_string_def)
qed

lemma hash_size: "is_hash s \<Longrightarrow> len (PStr s) = 66"
  using plain_len [of s] by (auto simp: is_hash_def list_all_iff)

lemma canonical_size: "canonical_uuid s \<Longrightarrow> len (PStr s) = 38"
proof -
  assume u: "canonical_uuid s"
  have "is_hex c \<or> c = CHR ''-''" if "c \<in> set s" for c
    using u that set_split_on [of s "CHR ''-''"] by (auto simp: canonical_uuid_def list_all_iff)
  then show ?thesis using plain_len [of s] canonical_uuid_length [OF u] by (simp add: list_all_iff)
qed

lemma uuid_canonical: "is_uuid4 s \<Longrightarrow> canonical_uuid s"
  by (auto simp: is_uuid4_def canonical_uuid_def split: list.splits)

lemma uuid_exact: "is_uuid4 s \<Longrightarrow> len (PStr s) = 38"
  by (simp add: uuid_canonical canonical_size)

definition small :: "int \<Rightarrow> bool" where "small i \<longleftrightarrow> 0 \<le> i \<and> i \<le> 99999999"

definition stamped :: "int \<Rightarrow> bool" where "stamped i \<longleftrightarrow> 0 \<le> i \<and> i \<le> INTEGER_MAX"

lemma number_size: "small i \<Longrightarrow> len (PInt i) \<le> 8" "stamped i \<Longrightarrow> len (PInt i) \<le> 19" "small i \<Longrightarrow> 0 \<le> i" "small i \<Longrightarrow> i \<le> INTEGER_MAX"
  "stamped i \<Longrightarrow> 0 \<le> i" "stamped i \<Longrightarrow> i \<le> INTEGER_MAX"
  using len_int_le [of i 8] time_len [of i] by (auto simp: small_def stamped_def INTEGER_MAX_def)

lemma clock_stamped: "clock_ok c \<Longrightarrow> stamped (ck_utc c) \<and> stamped (ck_before c) \<and> stamped (ck_after c)"
  using utc_range by (auto simp: clock_ok_def stamped_def)

lemma reference_exact:
  assumes "reference_ok high r" and "high \<le> 1024"
  shows "len (approval_json r) \<le> 200" "len (audit_json r) \<le> 200"
proof -
  have "len (PStr (rf_owner r)) = 38" "len (PStr (rf_sha256 r)) = 66" "len (PInt (rf_sequence r)) \<le> 5"
    using assms small_size [of "rf_sequence r"] by (auto simp: reference_ok_def uuid_exact hash_size)
  then show "len (approval_json r) \<le> 200" "len (audit_json r) \<le> 200"
    by (simp_all add: approval_json_def audit_json_def len_simps(5)) (simp_all add: json_string_def escape_char_def)
qed

lemma observed_exact:
  assumes "\<forall>b. v = Some b \<longrightarrow> observed_ok b"
  shows "len (optional observed_json v) \<le> 200"
proof (cases v)
  case (Some b)
  then have "len (PStr (ob_sha256 b)) = 66" "len (PInt (ob_connections b)) \<le> 5" "len (PInt (ob_request_bytes b)) \<le> 5" "len (PInt (ob_response_bytes b)) \<le> 5"
    using assms small_size(1) by (auto simp: observed_ok_def hash_size)
  then show ?thesis by (simp add: Some optional_def observed_json_def len_simps(5)) (simp add: json_string_def escape_char_def)
qed (simp add: optional_def len_simps)

section \<open>Requests\<close>

definition brings_roe :: "dispatch_request \<Rightarrow> bool" where
  "brings_roe q \<longleftrightarrow> (case dq_claim q of Opening r \<Rightarrow> True | Revising r \<Rightarrow> True | _ \<Rightarrow> False)"

lemma claim_exact:
  assumes "claim_ok c"
  shows "len (claim_json c) \<le> (case c of Opening r \<Rightarrow> 4000 | Revising r \<Rightarrow> 4000 | _ \<Rightarrow> 900)"
proof (cases c)
  case (Starting s)
  then have "len (PStr (sl_session s)) = 38" "len (PStr (sl_owner s)) = 38" and k: "clock_ok (sl_clock s)"
    and i: "0 \<le> sl_deadline s" "sl_deadline s \<le> INTEGER_MAX" using assms by (auto simp: uuid_exact)
  then show ?thesis using clock_size(1) [OF k] time_len [OF i]
    by (simp add: Starting len_simps(5)) (simp add: json_string_def escape_char_def)
next
  case (Reserving s)
  then have "len (PStr (rv_dispatch s)) = 38" "len (PStr (rv_session s)) = 38" "len (PStr (rv_owner s)) = 38" and k: "clock_ok (rv_clock s)"
    and r: "reference_ok 32 (rv_approval s)" "reference_ok 1024 (rv_audit s)" using assms by (auto simp: uuid_exact)
  then show ?thesis
    using clock_size(1) [OF k] reference_exact(1) [OF r(1)] reference_exact(2) [OF r(2)] name_sizes(1) [of "rv_slot s"]
    by (simp add: Reserving len_simps(5)) (simp add: json_string_def escape_char_def)
next
  case (Completing s)
  then have "len (PStr (cp_dispatch s)) = 38" "len (PStr (cp_session s)) = 38" "len (PStr (cp_owner s)) = 38" and k: "clock_ok (cp_clock s)"
    and o: "\<forall>b. cp_observed s = Some b \<longrightarrow> observed_ok b" using assms by (auto simp: uuid_exact)
  then show ?thesis using clock_size(1) [OF k] observed_exact [OF o] name_sizes(2) [of "cp_reported s"]
    by (simp add: Completing len_simps(5)) (simp add: json_string_def escape_char_def)
qed (use assms roe_len in \<open>auto simp: len_simps(3)\<close>)

lemma dispatch_exact:
  assumes ok: "dispatch_ok q"
  shows "len (dispatch_json q) \<le> (if brings_roe q then 4300 else 1200)"
proof -
  have u: "len (PStr (dq_engagement q)) = 38" "len (PStr (dq_event q)) = 38" and c: "claim_ok (dq_claim q)"
    using ok by (auto simp: dispatch_ok_def uuid_exact)
  have n: "len (optional PInt (map_option fst (dq_expected q))) \<le> 4" "len (optional PInt (map_option snd (dq_expected q))) \<le> 4"
    using ok by (auto intro!: optional_len simp: dispatch_ok_def split: option.splits)
  have "len (claim_json (dq_claim q)) \<le> (if brings_roe q then 4000 else 900)"
    using claim_exact [OF c] by (auto simp: brings_roe_def split: claim.splits)
  then show ?thesis
    using u n name_sizes(3) [of "dq_claim q"]
    by (simp add: dispatch_json_def len_simps(5)) (auto simp: len_simps(1) json_string_def escape_char_def)
qed

section \<open>Rows\<close>

definition usage_plain :: "usage \<Rightarrow> bool" where
  "usage_plain u \<longleftrightarrow> small (us_actions u) \<and> small (us_connections u) \<and> small (us_request u) \<and> small (us_response u) \<and> small (us_runtime u)"

lemma usage_size:
  assumes "usage_plain u"
  shows "len (usage_json u) \<le> 150" "d + 1 \<le> DEPTH_LIMIT \<Longrightarrow> narrow d (usage_json u)"
proof -
  show "len (usage_json u) \<le> 150"
    using assms number_size(1) [of "us_actions u"] number_size(1) [of "us_connections u"] number_size(1) [of "us_request u"]
      number_size(1) [of "us_response u"] number_size(1) [of "us_runtime u"]
    by (simp add: usage_json_def usage_list_def USAGE_KEYS_def usage_plain_def len_simps(5)) (simp add: json_string_def escape_char_def)
  show "d + 1 \<le> DEPTH_LIMIT \<Longrightarrow> narrow d (usage_json u)"
    using assms by (simp add: usage_json_def usage_list_def USAGE_KEYS_def usage_plain_def number_size)
qed

definition session_plain :: "session_row \<Rightarrow> bool" where
  "session_plain w \<longleftrightarrow> is_uuid4 (sw_session w) \<and> is_uuid4 (sw_owner w) \<and> small (sw_revision w) \<and> small (sw_generation w)
     \<and> is_hash (sw_policy w) \<and> clock_ok (sw_clock w) \<and> stamped (sw_original w) \<and> stamped (sw_deadline w)"

lemma session_size:
  assumes p: "session_plain w"
  shows "len (session_row_json w) \<le> 700" "d + 2 \<le> DEPTH_LIMIT \<Longrightarrow> narrow d (session_row_json w)"
proof -
  have k: "clock_ok (sw_clock w)" using p by (simp add: session_plain_def)
  have s: "len (PStr (sw_session w)) = 38" "len (PStr (sw_owner w)) = 38" "len (PStr (sw_policy w)) = 66" "len (PInt (sw_revision w)) \<le> 8"
    "len (PInt (sw_generation w)) \<le> 8" "len (PInt (sw_original w)) \<le> 19" "len (PInt (sw_deadline w)) \<le> 19"
    using p by (simp_all add: session_plain_def uuid_exact hash_size number_size)
  show "len (session_row_json w) \<le> 700"
    using s clock_size(1) [OF k] by (simp add: session_row_json_def len_simps(5)) (simp add: len_simps(1) json_string_def escape_char_def)
  show "d + 2 \<le> DEPTH_LIMIT \<Longrightarrow> narrow d (session_row_json w)"
    using p clock_size(2) [OF k, of "d + 1"] by (simp add: session_row_json_def session_plain_def number_size)
qed

definition reservation_plain :: "reservation_row \<Rightarrow> bool" where
  "reservation_plain r \<longleftrightarrow> is_uuid4 (rw_dispatch r) \<and> is_uuid4 (rw_session r) \<and> is_uuid4 (rw_owner r) \<and> small (rw_revision r)
     \<and> small (rw_generation r) \<and> canonical_uuid (rw_action r) \<and> is_hash (rw_action_sha256 r) \<and> is_hash (rw_policy r)
     \<and> reference_ok 32 (rw_approval r) \<and> reference_ok 1024 (rw_audit r) \<and> clock_ok (rw_clock r)
     \<and> stamped (rw_ready r) \<and> stamped (rw_deadline r) \<and> usage_plain (rw_cost r)"

lemma reservation_size:
  assumes p: "reservation_plain r"
  shows "len (reservation_row_json r) \<le> 1500" "d + 2 \<le> DEPTH_LIMIT \<Longrightarrow> narrow d (reservation_row_json r)"
proof -
  have k: "clock_ok (rw_clock r)" and u: "usage_plain (rw_cost r)" and f: "reference_ok 32 (rw_approval r)" "reference_ok 1024 (rw_audit r)"
    using p by (simp_all add: reservation_plain_def)
  have s: "len (PStr (rw_dispatch r)) = 38" "len (PStr (rw_session r)) = 38" "len (PStr (rw_owner r)) = 38" "len (PInt (rw_revision r)) \<le> 8"
    "len (PInt (rw_generation r)) \<le> 8" "len (PStr (rw_action r)) = 38" "len (PStr (rw_action_sha256 r)) = 66" "len (PStr (rw_policy r)) = 66"
    "len (PInt (rw_ready r)) \<le> 19" "len (PInt (rw_deadline r)) \<le> 19"
    using p by (simp_all add: reservation_plain_def uuid_exact canonical_size hash_size number_size)
  show "len (reservation_row_json r) \<le> 1500"
    using s clock_size(1) [OF k] usage_size(1) [OF u] reference_exact(1) [OF f(1)] reference_exact(2) [OF f(2)] name_sizes(1) [of "rw_slot r"]
    by (simp add: reservation_row_json_def len_simps(5)) (simp add: json_string_def escape_char_def)
  show "d + 2 \<le> DEPTH_LIMIT \<Longrightarrow> narrow d (reservation_row_json r)"
    using p clock_size(2) [OF k, of "d + 1"] usage_size(2) [OF u, of "d + 1"] reference_size(3) [OF f(1), of "d + 1"] reference_size(3) [OF f(2), of "d + 1"]
    by (simp add: reservation_row_json_def reservation_plain_def number_size)
qed

definition completion_plain :: "completion_row \<Rightarrow> bool" where
  "completion_plain c \<longleftrightarrow> is_uuid4 (cw_dispatch c) \<and> is_uuid4 (cw_session c) \<and> is_uuid4 (cw_owner c)
     \<and> (\<forall>b. cw_observed c = Some b \<longrightarrow> observed_ok b) \<and> clock_ok (cw_clock c)"

lemma completion_size:
  assumes p: "completion_plain c"
  shows "len (completion_row_json c) \<le> 900" "d + 2 \<le> DEPTH_LIMIT \<Longrightarrow> narrow d (completion_row_json c)"
proof -
  have k: "clock_ok (cw_clock c)" and o: "\<forall>b. cw_observed c = Some b \<longrightarrow> observed_ok b" using p by (simp_all add: completion_plain_def)
  have s: "len (PStr (cw_dispatch c)) = 38" "len (PStr (cw_session c)) = 38" "len (PStr (cw_owner c)) = 38"
    using p by (simp_all add: completion_plain_def uuid_exact)
  have t: "len (PStr (status_text (cw_status c))) \<le> 20" "len (PBool (cw_eligible c)) \<le> 5"
    by (cases "cw_status c"; simp add: len_simps json_string_def escape_char_def) (simp add: len_def)
  show "len (completion_row_json c) \<le> 900"
    using s t clock_size(1) [OF k] observed_exact [OF o] name_sizes(2) [of "cw_reported c"]
    by (simp add: completion_row_json_def len_simps(5)) (simp add: json_string_def escape_char_def)
  show "d + 2 \<le> DEPTH_LIMIT \<Longrightarrow> narrow d (completion_row_json c)"
    using clock_size(2) [OF k, of "d + 1"] observed_option_size(2) [OF o, of "d + 1"] by (simp add: completion_row_json_def)
qed

definition state_plain :: "dispatch_state \<Rightarrow> bool" where
  "state_plain s \<longleftrightarrow> small (ds_revision s) \<and> small (ds_generation s) \<and> small (ds_last s) \<and> is_hash (ds_roe_sha256 s)
     \<and> usage_plain (ds_usage s) \<and> (\<forall>h. ds_high s = Some h \<longrightarrow> stamped h)"

lemma status_size: "len (PStr (status_name b)) \<le> 20"
  by (cases b) (simp_all add: status_name_def len_simps json_string_def escape_char_def)

lemma state_size:
  assumes p: "state_plain s"
  shows "len (state_json s) \<le> 600" "d + 2 \<le> DEPTH_LIMIT \<Longrightarrow> narrow d (state_json s)"
proof -
  have u: "usage_plain (ds_usage s)" using p by (simp add: state_plain_def)
  have n: "len (PInt (ds_revision s)) \<le> 8" "len (PInt (ds_generation s)) \<le> 8" "len (PInt (ds_last s)) \<le> 8" "len (PStr (ds_roe_sha256 s)) = 66"
    using p by (simp_all add: state_plain_def number_size hash_size)
  have h: "len (optional PInt (ds_high s)) \<le> 19" "narrow e (optional PInt (ds_high s))" for e
    using p by (cases "ds_high s"; simp add: optional_def state_plain_def number_size len_simps(3))+
  show "len (state_json s) \<le> 600"
    using n h(1) usage_size(1) [OF u] status_size [of "ds_revoked s"]
    by (simp add: state_json_def len_simps(5)) (simp add: json_string_def escape_char_def)
  show "d + 2 \<le> DEPTH_LIMIT \<Longrightarrow> narrow d (state_json s)"
    using p h(2) usage_size(2) [OF u, of "d + 1"] by (simp add: state_json_def state_plain_def number_size)
qed

definition receipt_plain :: "dispatch_receipt \<Rightarrow> bool" where
  "receipt_plain r \<longleftrightarrow> is_uuid4 (dr_engagement r) \<and> is_uuid4 (dr_event r) \<and> small (dr_sequence r) \<and> small (dr_revision r) \<and> small (dr_generation r)
     \<and> (\<exists>c. dr_operation r = claim_name c) \<and> (\<forall>s. dr_session r = Some s \<longrightarrow> is_uuid4 s) \<and> (\<forall>s. dr_dispatch r = Some s \<longrightarrow> is_uuid4 s)
     \<and> is_hash (dr_state_sha256 r) \<and> usage_plain (dr_usage r)"

lemma receipt_size:
  assumes p: "receipt_plain r"
  shows "len (dispatch_receipt_json r) \<le> 800" "d + 2 \<le> DEPTH_LIMIT \<Longrightarrow> narrow d (dispatch_receipt_json r)"
proof -
  have u: "usage_plain (dr_usage r)" using p by (simp add: receipt_plain_def)
  have n: "len (PInt (dr_sequence r)) \<le> 8" "len (PInt (dr_revision r)) \<le> 8" "len (PInt (dr_generation r)) \<le> 8" "len (PStr (dr_state_sha256 r)) = 66"
    "len (PStr (dr_engagement r)) = 38" "len (PStr (dr_event r)) = 38"
    using p by (simp_all add: receipt_plain_def number_size hash_size uuid_exact)
  have op: "len (PStr (dr_operation r)) \<le> 20" using p name_sizes(3) by (auto simp: receipt_plain_def)
  have h: "len (optional PStr (dr_session r)) \<le> 38" "len (optional PStr (dr_dispatch r)) \<le> 38" "narrow e (optional PStr (dr_session r))"
    "narrow e (optional PStr (dr_dispatch r))" for e
    using p by (cases "dr_session r"; cases "dr_dispatch r"; simp add: optional_def receipt_plain_def uuid_exact len_simps(3))+
  show "len (dispatch_receipt_json r) \<le> 800"
    using n op h(1,2) usage_size(1) [OF u] status_size [of "dr_revoked r"]
    by (simp add: dispatch_receipt_json_def len_simps(5)) (simp add: len_simps(1) json_string_def escape_char_def)
  show "d + 2 \<le> DEPTH_LIMIT \<Longrightarrow> narrow d (dispatch_receipt_json r)"
    using p h(3,4) usage_size(2) [OF u, of "d + 1"] by (simp add: dispatch_receipt_json_def receipt_plain_def number_size)
qed

definition event_plain :: "dispatch_event \<Rightarrow> bool" where
  "event_plain v \<longleftrightarrow> small (de_sequence v) \<and> is_hash (de_request_sha256 v) \<and> dispatch_ok (de_request v) \<and> receipt_plain (de_receipt v)"

lemma narrow_dispatch: "dispatch_ok q \<Longrightarrow> d \<le> 7 \<Longrightarrow> narrow d (dispatch_json q)"
proof -
  assume ok: "dispatch_ok q" and d: "d \<le> 7"
  have "narrow (d + 1) (optional PInt (map_option f (dq_expected q)))" if "f = fst \<or> f = snd" for f :: "int \<times> int \<Rightarrow> int"
    using ok that by (cases "dq_expected q") (auto simp: optional_def dispatch_ok_def INTEGER_MAX_def)
  moreover have "narrow (d + 1) (claim_json (dq_claim q))" using ok d by (intro claim_size(2)) (simp_all add: dispatch_ok_def)
  ultimately show ?thesis using d by (simp add: dispatch_json_def DEPTH_LIMIT_def)
qed

lemma event_size:
  assumes p: "event_plain v"
  shows "len (dispatch_event_json v) \<le> 2300 + (if brings_roe (de_request v) then 3100 else 0)"
    "d \<le> 6 \<Longrightarrow> narrow d (dispatch_event_json v)"
proof -
  have q: "dispatch_ok (de_request v)" and r: "receipt_plain (de_receipt v)" using p by (simp_all add: event_plain_def)
  have n: "len (PInt (de_sequence v)) \<le> 8" "len (PStr (de_request_sha256 v)) = 66" "len (PStr (dq_event (de_request v))) = 38"
    using p by (simp_all add: event_plain_def number_size hash_size dispatch_ok_def uuid_exact)
  show "len (dispatch_event_json v) \<le> 2300 + (if brings_roe (de_request v) then 3100 else 0)"
    using n dispatch_exact [OF q] receipt_size(1) [OF r]
    by (simp add: dispatch_event_json_def len_simps(5)) (auto simp: json_string_def escape_char_def)
  show "d \<le> 6 \<Longrightarrow> narrow d (dispatch_event_json v)"
    using p narrow_dispatch [OF q, of "d + 1"] receipt_size(2) [OF r, of "d + 1"]
    by (simp add: dispatch_event_json_def event_plain_def number_size DEPTH_LIMIT_def)
qed

section \<open>The whole ledger\<close>

definition export_plain :: "dispatch_export \<Rightarrow> bool" where
  "export_plain x \<longleftrightarrow> is_uuid4 (dx_engagement x) \<and> state_plain (dx_state x) \<and> list_all (\<lambda>p. roe_ok (fst p) \<and> is_hash (snd p)) (dx_revisions x)
     \<and> list_all session_plain (dx_sessions x) \<and> list_all reservation_plain (dx_reservations x) \<and> list_all completion_plain (dx_completions x)
     \<and> list_all event_plain (dx_events x)"

text \<open>Each revision came with one event.\<close>

definition roes_logged :: "dispatch_export \<Rightarrow> bool" where
  "roes_logged x \<longleftrightarrow> length (filter (\<lambda>v. brings_roe (de_request v)) (dx_events x)) = length (dx_revisions x)"

lemma rows_size:
  assumes "list_all P rows" and "\<And>r. P r \<Longrightarrow> len (f r) \<le> b" and "length rows \<le> n" and "0 \<le> b"
  shows "len (PList (map f rows)) \<le> 2 + int n * (b + 1)"
proof -
  have "len (PList (map f rows)) \<le> 2 + int (length rows) * (b + 1)"
    using list_len [of "map f rows" b] assms(1,2) by (auto simp: list_all_iff)
  also have "\<dots> \<le> 2 + int n * (b + 1)" using assms(3,4) by (intro add_left_mono mult_right_mono) auto
  finally show ?thesis .
qed

lemma narrow_listI: "(\<And>x. x \<in> set xs \<Longrightarrow> narrow d x) \<Longrightarrow> narrow_list d xs"
  by (induction xs) auto

lemma events_size:
  assumes "list_all event_plain vs"
  shows "sum_list (map len (map dispatch_event_json vs)) \<le> 2300 * int (length vs) + 3100 * int (length (filter (\<lambda>v. brings_roe (de_request v)) vs))"
  using assms
proof (induction vs)
  case (Cons v vs)
  then show ?case using event_size(1) [of v] by auto
qed simp

lemma revisions_size:
  assumes "list_all (\<lambda>p. roe_ok (fst p) \<and> is_hash (snd p)) rows" and "length rows \<le> 64" and "v \<in> set (revision_values 1 rows)"
  shows "len v \<le> 4500 \<and> narrow 2 v"
proof -
  obtain i row where v: "row \<in> set rows" "v = revision_json i row" "1 \<le> i" "i < 1 + int (length rows)"
    using set_revision_values [OF assms(3)] by blast
  have r: "roe_ok (fst row)" "is_hash (snd row)" using assms(1) v(1) by (auto simp: list_all_iff)
  have "i \<le> 64" using v(4) assms(2) by linarith
  then have "len v \<le> 4500" using revision_small(1) [OF r v(3)] by (simp add: v(2))
  moreover have "narrow 2 v"
    using narrow_roe [OF r(1), of 3] v(3) \<open>i \<le> 64\<close> by (simp add: v(2) revision_json_def DEPTH_LIMIT_def INTEGER_MAX_def)
  ultimately show ?thesis ..
qed

lemma ledger_size:
  assumes p: "export_plain x" and c: "roes_logged x" and z: "length (dx_revisions x) \<le> 64" "length (dx_sessions x) \<le> 64" "length (dx_reservations x) \<le> 64"
    "length (dx_completions x) \<le> 64" "length (dx_events x) \<le> 257"
  shows "len (dispatch_export_json x) \<le> EXPORT_BYTES" "narrow 0 (dispatch_export_json x)"
proof -
  have s: "state_plain (dx_state x)" and pr: "list_all (\<lambda>p. roe_ok (fst p) \<and> is_hash (snd p)) (dx_revisions x)"
    and rows: "list_all session_plain (dx_sessions x)" "list_all reservation_plain (dx_reservations x)" "list_all completion_plain (dx_completions x)"
      "list_all event_plain (dx_events x)"
    and n: "length (filter (\<lambda>v. brings_roe (de_request v)) (dx_events x)) = length (dx_revisions x)"
    using p c by (simp_all add: export_plain_def roes_logged_def)
  have l1: "len (PList (revision_values 1 (dx_revisions x))) \<le> 2 + int 64 * 4501"
  proof -
    have "len (PList (revision_values 1 (dx_revisions x))) \<le> 2 + int (length (dx_revisions x)) * 4501"
      using list_len [of "revision_values 1 (dx_revisions x)" 4500] revisions_size [OF pr z(1)] by simp
    then show ?thesis using z(1) by linarith
  qed
  have l2: "len (PList (map session_row_json (dx_sessions x))) \<le> 2 + int 64 * (700 + 1)"
    "len (PList (map reservation_row_json (dx_reservations x))) \<le> 2 + int 64 * (1500 + 1)"
    "len (PList (map completion_row_json (dx_completions x))) \<le> 2 + int 64 * (900 + 1)"
    by (rule rows_size [OF rows(1) session_size(1) z(2)] rows_size [OF rows(2) reservation_size(1) z(3)] rows_size [OF rows(3) completion_size(1) z(4)];
      simp)+
  have l3: "len (PList (map dispatch_event_json (dx_events x))) \<le> 2 + 257 + 2300 * 257 + 3100 * 64"
    using events_size [OF rows(4)] n z(1,5) by (simp add: len_simps(4))
  have "len (PStr (dx_engagement x)) = 38" using p by (simp add: export_plain_def uuid_exact)
  then show "len (dispatch_export_json x) \<le> EXPORT_BYTES"
    using l1 l2 l3 state_size(1) [OF s] unfolding dispatch_export_json_def
    by (simp add: len_simps(5) del: sum_list.eq_foldr) (simp add: len_simps(1) json_string_def escape_char_def EXPORT_BYTES_def)
  have "narrow_list 2 (revision_values 1 (dx_revisions x))" "narrow_list 2 (map session_row_json (dx_sessions x))"
    "narrow_list 2 (map reservation_row_json (dx_reservations x))" "narrow_list 2 (map completion_row_json (dx_completions x))"
    "narrow_list 2 (map dispatch_event_json (dx_events x))"
    using revisions_size [OF pr z(1)] rows session_size(2) reservation_size(2) completion_size(2) event_size(2)
    by (auto intro!: narrow_listI simp: list_all_iff DEPTH_LIMIT_def)
  then show "narrow 0 (dispatch_export_json x)"
    using state_size(2) [OF s, of 1] by (simp add: dispatch_export_json_def DEPTH_LIMIT_def)
qed

end
