(* ===== verification/DispatchAccept.thy ===== *)
theory DispatchAccept
  imports DispatchSizes
begin

text \<open>
  Which requests a ledger accepts, stated over the export alone, and that the engine accepts
  exactly those: the dictionaries, the digests and the encoder never refuse anything else.
\<close>

section \<open>Clocks of the sessions\<close>

definition clock_note :: "claim \<Rightarrow> (string \<Rightarrow> clock option) \<Rightarrow> string \<Rightarrow> clock option" where
  "clock_note c f = (case (claim_session c, claim_clock c) of (Some s, Some k) \<Rightarrow> f(s := Some k) | _ \<Rightarrow> f)"

definition clocks_of :: "dispatch_event list \<Rightarrow> string \<Rightarrow> clock option" where
  "clocks_of vs = fold (\<lambda>v. clock_note (dq_claim (de_request v))) vs (\<lambda>_. None)"

lemma clocks_of_snoc: "clocks_of (vs @ [v]) = clock_note (dq_claim (de_request v)) (clocks_of vs)"
  by (simp add: clocks_of_def)

lemma clock_note_keeps: "f s \<noteq> None \<Longrightarrow> clock_note c f s \<noteq> None"
  by (auto simp: clock_note_def split: option.splits)

section \<open>Values of an engine\<close>

definition valued :: "engine \<Rightarrow> bool" where
  "valued e \<longleftrightarrow> export_plain (eg_export e) \<and> eg_clocks e = clocks_of (dx_events (eg_export e))
     \<and> ds_generation (state_at e) = ds_revision (state_at e) - 1 + (if ds_revoked (state_at e) then 1 else 0)"

definition clocked :: "engine \<Rightarrow> bool" where
  "clocked e \<longleftrightarrow> (\<forall>w \<in> set (dx_sessions (eg_export e)). eg_clocks e (sw_session w) \<noteq> None)"

lemma policy_hash: "policy_sha256 H r = Inr d \<Longrightarrow> hashes H \<Longrightarrow> is_hash d"
  by (auto simp: policy_sha256_def policy_digest_def hashes_def res_simps)

lemma identity_plain:
  assumes "action_identity H U r k = Inr (a, d)" and "hashes H"
  shows "canonical_uuid a" "is_hash d"
proof -
  obtain c where c: "plan_action H U (scope_json (roe_scope r)) (PInt (slot_step k)) = Inr c" "a = ac_id c"
    using assms(1) by (auto simp: action_identity_def res_simps)
  then have "action_ok c" by (auto simp: plan_action_def res_simps intro: parse_action_ok)
  then show "canonical_uuid a" unfolding action_ok_def parse_action_Inr make_action_Inr c(2) by blast
  show "is_hash d" using assms by (auto simp: action_identity_def action_digest_def hashes_def res_simps)
qed

lemma window_end_stamped: "window_end r c = Inr stop \<Longrightarrow> stamped stop"
  by (auto simp: window_end_def add_ns_def res_simps stamped_def)

lemma roe_cost:
  assumes "roe_ok r"
  shows "usage_plain (slot_cost k (min 30000 (roe_limit r ''max_action_ms'')))"
    "list_all small (caps r)"
proof -
  from assms have "limits_ok (roe_limits r)" by (simp add: roe_ok_def)
  then obtain l1 l2 l3 l4 l5 l6 where ls: "roe_limits r = [l1, l2, l3, l4, l5, l6]" "1 \<le> l1" "l1 \<le> 64" "1 \<le> l2" "l2 \<le> 256"
    "1 \<le> l3" "l3 \<le> 1048576" "1 \<le> l4" "l4 \<le> 1048576" "1 \<le> l5" "l5 \<le> 60000" "1 \<le> l6" "l6 \<le> 86400000"
    by (rule limits_six)
  then show "usage_plain (slot_cost k (min 30000 (roe_limit r ''max_action_ms'')))"
    by (cases k) (simp_all add: usage_plain_def small_def roe_limit_def LIMITS_def)
  show "list_all small (caps r)" using ls by (simp add: caps_def roe_limit_def LIMITS_def small_def)
qed

lemma add_usage_plain:
  assumes "usage_plain u" and "usage_plain w" and "within_caps (add_usage u w) r" and "list_all small (caps r)"
  shows "usage_plain (add_usage u w)"
proof -
  obtain a b c d e where c: "caps r = [a, b, c, d, e]" by (simp add: caps_def)
  then show ?thesis using assms by (simp add: within_caps_def usage_list_def add_usage_def usage_plain_def small_def)
qed

lemma known_roe_ok: "export_plain x \<Longrightarrow> known_revision x n \<Longrightarrow> roe_ok (roe_of x n)"
  by (auto simp: export_plain_def known_revision_def roe_of_def list_all_iff)

text \<open>One claim keeps the values in range; sizes and fine rows are known of the result.\<close>

lemma state_plainD:
  assumes "valued e"
  shows "state_plain (dx_state (eg_export e))" "is_uuid4 (dx_engagement (eg_export e))"
    "list_all session_plain (dx_sessions (eg_export e))" "list_all reservation_plain (dx_reservations (eg_export e))"
    "list_all completion_plain (dx_completions (eg_export e))" "list_all event_plain (dx_events (eg_export e))"
    "list_all (\<lambda>p. roe_ok (fst p) \<and> is_hash (snd p)) (dx_revisions (eg_export e))"
  using assms by (simp_all add: valued_def export_plain_def)

lemma start_session_valued:
  assumes s: "start_session H c e = Inr e'" and v: "valued e" and f: "engine_fine H U e" and h: "hashes H" and c: "claim_ok (Starting c)"
  shows "valued e'"
proof -
  obtain policy e1 stop deadline row where po: "cached_policy H e = Inr (policy, e1)"
    and w: "window_budget_of (roe_at e1 (ds_revision (state_at e))) (sl_clock c) (sl_deadline c) (ds_high (state_at e)) = Inr (stop, deadline)"
    and row: "row = \<lparr>sw_session = sl_session c, sw_owner = sl_owner c, sw_revision = ds_revision (state_at e),
        sw_generation = ds_generation (state_at e), sw_policy = policy, sw_clock = sl_clock c, sw_original = sl_deadline c,
        sw_deadline = deadline\<rparr>" and e': "e' = add_session row e1"
    using s by (rule start_session_Inr)
  obtain g where e1: "e1 = e\<lparr>eg_policies := g\<rparr>" using po by (rule cached_policy_Inr)
  have "engine_fine H U e'" using start_session_fine [OF f s] .
  then have "session_fine H (eg_export e') row" by (simp add: engine_fine_def ledger_fine_def e' add_session_def)
  then have "is_hash policy" using policy_hash h by (auto simp: session_fine_def row)
  moreover have "stamped deadline"
    using w c by (auto simp: window_budget_of_def res_simps stamped_def min_def dest!: window_end_stamped)
  ultimately have "session_plain row"
    using c state_plainD(1) [OF v] by (simp add: row session_plain_def state_plain_def state_at_def stamped_def)
  then show ?thesis using v by (simp add: valued_def e' add_session_def e1 export_plain_def state_at_def)
qed

lemma ready_at_stamped:
  assumes "ready_at c session e = Inr ready" and "valued e" and "indexed e" and "session \<in> set (dx_sessions (eg_export e))"
  shows "stamped ready"
proof -
  have "clock_ok (cw_clock k)" if "map_of (eg_completions e) p = Some k" for p k
    using that by_key_Some state_plainD(5) [OF assms(2)] indexedD(4) [OF assms(3)] by (fastforce simp: list_all_iff completion_plain_def)
  moreover have "clock_ok (sw_clock session)" using state_plainD(3) [OF assms(2)] assms(4) by (auto simp: list_all_iff session_plain_def)
  ultimately show ?thesis
    using assms(1) clock_stamped by (auto simp: ready_at_def res_simps split: if_splits option.splits)
qed

lemma reserve_slot_valued:
  assumes s: "reserve_slot H U c e = Inr e'" and v: "valued e" and f: "engine_fine H U e" and h: "hashes H" and c: "claim_ok (Reserving c)"
  shows "valued e'"
proof -
  obtain session ready cost latest stop action e1 row where so: "map_of (eg_sessions e) (rv_session c) = Some session"
    and re: "ready_at c session e = Inr ready" and co: "reservation_cost (roe_at e (sw_revision session)) (rv_slot c) = Inr cost"
    and de: "ck_after (rv_clock c) < min (min (sw_deadline session) latest) stop"
    and ca: "within_caps (add_usage (ds_usage (state_at e)) cost) (roe_at e (sw_revision session))"
    and ac: "cached_action H U (sw_revision session) (rv_slot c) e = Inr (action, e1)"
    and row: "row = \<lparr>rw_dispatch = rv_dispatch c, rw_session = rv_session c, rw_owner = rv_owner c, rw_revision = sw_revision session,
        rw_generation = sw_generation session, rw_slot = rv_slot c, rw_action = fst action, rw_action_sha256 = snd action,
        rw_policy = sw_policy session, rw_approval = rv_approval c, rw_audit = rv_audit c, rw_clock = rv_clock c,
        rw_ready = ready, rw_deadline = min (min (sw_deadline session) latest) stop, rw_cost = cost\<rparr>"
    and e': "e' = add_reservation row e1"
    using s by (rule reserve_slot_Inr)
  obtain g where e1: "e1 = e\<lparr>eg_actions := g\<rparr>" using ac by (rule cached_action_Inr)
  have i: "indexed e" using f by (simp add: engine_fine_def)
  have w: "session \<in> set (dx_sessions (eg_export e))" using by_key_Some so i by (metis indexedD(2))
  have wp: "session_plain session" using w state_plainD(3) [OF v] by (simp add: list_all_iff)
  have k: "known_revision (eg_export e) (sw_revision session)" using f w by (auto simp: engine_fine_def ledger_fine_def list_all_iff session_fine_def)
  have r: "roe_ok (roe_at e (sw_revision session))"
    using known_roe_ok [OF _ k] v roe_at_of [OF i] k by (simp add: valued_def known_revision_def)
  have cp: "usage_plain cost" using co roe_cost(1) [OF r] by (auto simp: reservation_cost_def res_simps)
  have tot: "usage_plain (add_usage (ds_usage (dx_state (eg_export e))) cost)"
    using add_usage_plain [OF _ cp _ roe_cost(2) [OF r]] ca state_plainD(1) [OF v] by (simp add: state_plain_def state_at_def)
  have "engine_fine H U e'" using reserve_slot_fine [OF f s] .
  then have "reservation_fine H U (eg_export e') row" by (simp add: engine_fine_def ledger_fine_def e' add_reservation_def)
  then have "action_identity H U (roe_of (eg_export e') (sw_revision session)) (rv_slot c) = Inr (fst action, snd action)"
    by (simp add: reservation_fine_def Let_def row)
  then have "canonical_uuid (fst action)" "is_hash (snd action)" using identity_plain [OF _ h] by blast+
  moreover have "stamped ready" by (rule ready_at_stamped [OF re v i w])
  moreover have "stamped (min (min (sw_deadline session) latest) stop)"
    using de c wp clock_stamped [of "rv_clock c"] by (auto simp: stamped_def session_plain_def min_def split: if_splits)
  ultimately have "reservation_plain row" using c wp cp by (simp add: row reservation_plain_def session_plain_def)
  then show ?thesis using v tot by (auto simp: valued_def e' add_reservation_def e1 export_plain_def state_at_def state_plain_def row)
qed

lemma complete_dispatch_valued:
  assumes s: "complete_dispatch c e = Inr e'" and v: "valued e" and c: "claim_ok (Completing c)"
  shows "valued e'"
proof -
  obtain status b where e': "e' = add_completion \<lparr>cw_dispatch = cp_dispatch c, cw_session = cp_session c, cw_owner = cp_owner c, cw_reported = cp_reported c,
        cw_observed = cp_observed c, cw_clock = cp_clock c, cw_status = status, cw_eligible = b\<rparr> e"
    using s by (auto elim!: complete_dispatch_Inr)
  then show ?thesis using v c by (simp add: valued_def add_completion_def export_plain_def state_at_def completion_plain_def)
qed

lemma transit_valued:
  assumes t: "transit H U c e = Inr e'" and v: "valued e" and f: "engine_fine H U e" and z: "sized e" and h: "hashes H" and c: "claim_ok c"
    and n: "ds_revoked (state_at e) \<longrightarrow> claim_name c = ''complete''"
  shows "valued e'"
proof (cases c)
  case (Starting d)
  then show ?thesis using t start_session_valued [OF _ v f h] c by (simp add: transit_def)
next
  case (Reserving d)
  then show ?thesis using t reserve_slot_valued [OF _ v f h] c by (simp add: transit_def)
next
  case (Completing d)
  then show ?thesis using t complete_dispatch_valued [OF _ v] c by (simp add: transit_def)
next
  case (Revising r)
  have "is_hash (H x)" for x using h by (simp add: hashes_def)
  moreover have "ds_revision (dx_state (eg_export e)) \<le> 64" "0 \<le> ds_revision (dx_state (eg_export e))"
    using f z by (simp_all add: engine_fine_def indexed_def sized_def Let_def)
  ultimately show ?thesis using t v c n Revising
    by (auto simp: transit_def revise_roe_def Let_def res_simps valued_def export_plain_def state_at_def state_plain_def
        dispatch_roe_sha_def small_def)
next
  case Revoking
  have "ds_revision (dx_state (eg_export e)) \<le> 64" "1 \<le> ds_revision (dx_state (eg_export e))"
    using f z by (simp_all add: engine_fine_def indexed_def sized_def Let_def)
  then show ?thesis using t v n Revoking
    by (auto simp: transit_def revoke_all_def valued_def export_plain_def state_at_def state_plain_def small_def)
qed (use t in \<open>simp add: transit_def\<close>)

section \<open>Recording never fails\<close>

lemma fits_text: "narrow 0 v \<Longrightarrow> len v \<le> EXPORT_BYTES \<Longrightarrow> canonical_text v = Inr (canonical v)"
  by (rule canonical_text_ok)

lemma observe_plain:
  assumes v: "state_plain (dx_state (eg_export e))" and c: "claim_ok c"
  shows "state_plain (dx_state (eg_export (observe_clock c e)))"
proof (cases "(claim_session c, claim_clock c)")
  case (Pair s k)
  show ?thesis
  proof (cases "s = None \<or> k = None")
    case False
    then obtain s' k' where sk: "claim_session c = Some s'" "claim_clock c = Some k'" using Pair by auto
    then have "clock_ok k'" using c by (cases c) auto
    then have "stamped (ck_utc k')" using clock_stamped by blast
    then show ?thesis using v by (auto simp: observe_clock_def sk Let_def state_plain_def state_at_def stamped_def split: option.splits)
  qed (use v Pair in \<open>auto simp: observe_clock_def split: option.splits\<close>)
qed

lemma stamp_total:
  assumes v: "export_plain (eg_export e0)" and n: "length (dx_events (eg_export e0)) \<le> 256" and q: "dispatch_ok q" and h: "hashes H"
  obtains e event r where "e = number_event (observe_clock (dq_claim q) e0)" "event_plain event" "de_request event = q"
    "stamp H q e0 = Inr (e\<lparr>eg_export := (eg_export e)\<lparr>dx_events := dx_events (eg_export e) @ [event]\<rparr>, eg_events := eg_events e @ [dq_event q]\<rparr>, r)"
    "state_plain (dx_state (eg_export e))"
proof -
  define e where "e = number_event (observe_clock (dq_claim q) e0)"
  have ck: "claim_ok (dq_claim q)" using q by (simp add: dispatch_ok_def)
  have "state_plain (dx_state (eg_export (observe_clock (dq_claim q) e0)))" using observe_plain [OF _ ck] v by (simp add: export_plain_def)
  then have s: "state_plain (state_at e)"
    using n by (simp add: e_def number_event_def state_plain_def state_at_def observed_events small_def)
  have u: "is_uuid4 (dx_engagement (eg_export e))"
    using v by (auto simp: e_def number_event_def observe_clock_def export_plain_def Let_def split: option.splits)
  have t: "canonical_text (state_json (state_at e)) = Inr (canonical (state_json (state_at e)))"
    using state_size(1) [OF s] state_size(2) [OF s, of 0] by (intro fits_text) (auto simp: DEPTH_LIMIT_def EXPORT_BYTES_def)
  define r where "r = receipt_for q (H (STATE_DOMAIN @ canonical (state_json (state_at e)))) (eg_export e)"
  have "\<forall>s. claim_session (dq_claim q) = Some s \<longrightarrow> is_uuid4 s" "\<forall>s. claim_dispatch (dq_claim q) = Some s \<longrightarrow> is_uuid4 s"
    using ck by (cases "dq_claim q"; simp)+
  then have rp: "receipt_plain r"
    using s u q h by (auto simp: r_def receipt_for_def Let_def receipt_plain_def state_plain_def state_at_def dispatch_ok_def hashes_def)
  have f: "fit_row (dispatch_receipt_json r) RECEIPT_BYTES = Inr ()"
    using receipt_size(1) [OF rp] receipt_size(2) [OF rp, of 0] by (intro fit_row_ok) (auto simp: DEPTH_LIMIT_def EXPORT_BYTES_def RECEIPT_BYTES_def)
  have d: "canonical_text (dispatch_json q) = Inr (canonical (dispatch_json q))"
    using dispatch_size [OF q] by (intro fits_text) (auto simp: EXPORT_BYTES_def)
  define event where "event = \<lparr>de_sequence = ds_last (state_at e), de_request_sha256 = H (DISPATCH_REQUEST_DOMAIN @ canonical (dispatch_json q)),
    de_request = q, de_receipt = r\<rparr>"
  have ep: "event_plain event" using s rp q h by (simp add: event_def event_plain_def state_plain_def hashes_def)
  have "stamp H q e0 = Inr (e\<lparr>eg_export := (eg_export e)\<lparr>dx_events := dx_events (eg_export e) @ [event]\<rparr>, eg_events := eg_events e @ [dq_event q]\<rparr>, r)"
    unfolding stamp_def Let_def e_def [symmetric] t bindE_simps r_def [symmetric] f d event_def ..
  moreover have "state_plain (dx_state (eg_export e))" using s by (simp add: state_at_def)
  ultimately show ?thesis using that [of e event r] ep by (simp add: e_def event_def)
qed

end
