(* ===== verification/DispatchAdmit.thy ===== *)
theory DispatchAdmit
  imports DispatchAccept
begin

text \<open>
  The requests a dispatch ledger accepts, stated over its export, and the proof that the engine
  accepts exactly those.
\<close>

section \<open>Clock readings\<close>

text \<open>The end of the window in monotonic time is a 63-bit number.\<close>

definition room :: "roe \<Rightarrow> clock \<Rightarrow> bool" where
  "room r c \<longleftrightarrow> ck_before c + (epoch_ns (roe_end r) - ck_utc c) \<le> INTEGER_MAX"

definition steady :: "roe \<Rightarrow> clock \<Rightarrow> clock \<Rightarrow> int option \<Rightarrow> int \<Rightarrow> bool" where
  "steady r c previous high deadline \<longleftrightarrow> ck_after previous \<le> ck_before c \<and> in_window r c \<and> high_water_ok c high
     \<and> clock_agrees previous c \<and> ck_after c < deadline"

lemma latest_stamped: "clock_ok c \<Longrightarrow> 0 \<le> ck_utc c + (ck_after c - ck_before c) \<and> ck_utc c + (ck_after c - ck_before c) \<le> INTEGER_MAX"
  by (auto simp: clock_ok_def UTC_MIN_def UTC_MAX_def INTEGER_MAX_def CLOCK_TOLERANCE_def)

lemma window_end_iff:
  assumes "clock_ok c"
  shows "window_end r c = Inr stop \<longleftrightarrow> in_window r c \<and> room r c \<and> stop = ck_before c + (epoch_ns (roe_end r) - ck_utc c)"
  using latest_stamped [OF assms] assms
  by (auto simp: window_end_def add_ns_def res_simps in_window_def room_def clock_ok_def)

lemma clock_status_total: "clock_ok c \<Longrightarrow> \<exists>s. clock_status r c previous high deadline = Inr s"
  using latest_stamped [of c] by (auto simp: clock_status_def add_ns_def)

lemma clock_status_valid:
  assumes "clock_ok c"
  shows "clock_status r c previous high deadline = Inr Valid_clock \<longleftrightarrow> steady r c previous high deadline"
  using latest_stamped [OF assms] by (auto simp: clock_status_def add_ns_def steady_def in_window_def)

lemma window_budget_iff:
  assumes c: "clock_ok c" and d: "1 \<le> deadline"
  shows "(\<exists>p. window_budget_of r c deadline high = Inr p) \<longleftrightarrow> in_window r c \<and> room r c \<and> high_water_ok c high \<and> ck_after c < deadline
     \<and> deadline \<le> ck_after c + SESSION_NS \<and> ck_after c + SESSION_NS \<le> INTEGER_MAX"
proof -
  have "0 \<le> ck_after c + SESSION_NS" using c by (auto simp: clock_ok_def SESSION_NS_def)
  then show ?thesis
    unfolding window_budget_of_def by (auto simp: window_end_iff [OF c] add_ns_def res_simps)
qed

section \<open>What may be recorded\<close>

definition current_roe :: "dispatch_export \<Rightarrow> roe" where
  "current_roe x = roe_of x (ds_revision (dx_state x))"

definition may_start :: "dispatch_export \<Rightarrow> session_claim \<Rightarrow> bool" where
  "may_start x c \<longleftrightarrow> (let r = current_roe x; k = sl_clock c in
     sl_session c \<notin> sw_session ` set (dx_sessions x) \<and> length (dx_sessions x) < 64 \<and> supported r
     \<and> in_window r k \<and> room r k \<and> high_water_ok k (ds_high (dx_state x)) \<and> ck_after k < sl_deadline c
     \<and> sl_deadline c \<le> ck_after k + SESSION_NS \<and> ck_after k + SESSION_NS \<le> INTEGER_MAX)"

definition ready_from :: "dispatch_export \<Rightarrow> reserve_claim \<Rightarrow> session_row \<Rightarrow> int \<Rightarrow> bool" where
  "ready_from x c w ready \<longleftrightarrow> (case rv_slot c of
       Http_identify \<Rightarrow> ready = ck_after (sw_clock w)
     | Http_headers \<Rightarrow> \<exists>p \<in> set (dx_reservations x). \<exists>k \<in> set (dx_completions x). slot_key p = (rv_session c, Http_identify)
         \<and> cw_dispatch k = rw_dispatch p \<and> cw_eligible k \<and> ready = ck_after (cw_clock k))"

definition not_used :: "dispatch_export \<Rightarrow> reserve_claim \<Rightarrow> bool" where
  "not_used x c \<longleftrightarrow> rv_dispatch c \<notin> rw_dispatch ` set (dx_reservations x) \<and> (rv_session c, rv_slot c) \<notin> slot_key ` set (dx_reservations x)
     \<and> reference_key (rv_approval c) \<notin> (\<lambda>r. reference_key (rw_approval r)) ` set (dx_reservations x)
     \<and> reference_key (rv_audit c) \<notin> (\<lambda>r. reference_key (rw_audit r)) ` set (dx_reservations x)"

definition may_spend :: "dispatch_export \<Rightarrow> reserve_claim \<Rightarrow> session_row \<Rightarrow> clock \<Rightarrow> int \<Rightarrow> bool" where
  "may_spend x c w previous ready \<longleftrightarrow> (let r = current_roe x; k = rv_clock c; ms = min 30000 (roe_limit r ''max_action_ms'') in
     supported r \<and> steady r k previous (ds_high (dx_state x)) (sw_deadline w) \<and> room r k \<and> ck_after k < ready + ms * 1000000
     \<and> ready + ms * 1000000 \<le> INTEGER_MAX \<and> within_caps (add_usage (ds_usage (dx_state x)) (slot_cost (rv_slot c) ms)) r)"

definition may_reserve :: "dispatch_export \<Rightarrow> reserve_claim \<Rightarrow> bool" where
  "may_reserve x c \<longleftrightarrow> length (dx_reservations x) < 64 \<and> not_used x c
     \<and> (\<exists>w \<in> set (dx_sessions x). \<exists>previous ready. sw_session w = rv_session c \<and> sw_owner w = rv_owner c
         \<and> sw_revision w = ds_revision (dx_state x) \<and> sw_generation w = ds_generation (dx_state x)
         \<and> clocks_of (dx_events x) (rv_session c) = Some previous \<and> ready_from x c w ready \<and> may_spend x c w previous ready)"

definition may_complete :: "dispatch_export \<Rightarrow> complete_claim \<Rightarrow> bool" where
  "may_complete x c \<longleftrightarrow> length (dx_completions x) < 64 \<and> cp_dispatch c \<notin> cw_dispatch ` set (dx_completions x)
     \<and> (\<exists>r \<in> set (dx_reservations x). rw_dispatch r = cp_dispatch c \<and> rw_session r = cp_session c \<and> rw_owner r = cp_owner c
         \<and> observed_within (cp_observed c) (rw_cost r))"

definition may_apply :: "dispatch_export \<Rightarrow> claim \<Rightarrow> bool" where
  "may_apply x c \<longleftrightarrow> (case c of Opening r \<Rightarrow> False | Revising r \<Rightarrow> length (dx_revisions x) < 64 | Revoking \<Rightarrow> True
     | Starting c \<Rightarrow> may_start x c | Reserving c \<Rightarrow> may_reserve x c | Completing c \<Rightarrow> may_complete x c)"

text \<open>
  A ledger accepts a new event of its engagement while its log has room; only a completion may
  ignore the expected revision and a revoked engagement.
\<close>

definition admissible :: "dispatch_export \<Rightarrow> dispatch_request \<Rightarrow> bool" where
  "admissible x q \<longleftrightarrow> dq_event q \<notin> (\<lambda>v. dq_event (de_request v)) ` set (dx_events x) \<and> dq_engagement q = dx_engagement x
     \<and> length (dx_events x) < 257
     \<and> (claim_name (dq_claim q) = ''complete'' \<or> \<not> ds_revoked (dx_state x)
         \<and> dq_expected q = Some (ds_revision (dx_state x), ds_generation (dx_state x)))
     \<and> may_apply x (dq_claim q)"

section \<open>The engine accepts them\<close>

definition kept :: "(string \<Rightarrow> string) \<Rightarrow> (string \<Rightarrow> string) \<Rightarrow> engine \<Rightarrow> bool" where
  "kept H U e \<longleftrightarrow> lives H U e \<and> valued e \<and> clocked e \<and> roes_logged (eg_export e)"

lemma keptD:
  assumes "kept H U e"
  shows "lives H U e" "valued e" "clocked e" "engine_fine H U e" "indexed e" "sized e" "used_once (eg_export e)" "export_plain (eg_export e)"
  using assms by (simp_all add: kept_def lives_def engine_fine_def ledger_fine_def valued_def)

lemma current_at:
  assumes "kept H U e"
  shows "roe_at e (ds_revision (state_at e)) = current_roe (eg_export e)" "known_revision (eg_export e) (ds_revision (state_at e))"
    "roe_ok (current_roe (eg_export e))"
proof -
  note k = keptD [OF assms]
  have pos: "1 \<le> length (dx_revisions (eg_export e))" using k(6) by (simp add: sized_def Let_def)
  show kn: "known_revision (eg_export e) (ds_revision (state_at e))" using current_known [OF k(5) pos] by (simp add: state_at_def)
  show "roe_at e (ds_revision (state_at e)) = current_roe (eg_export e)"
    using roe_at_of [OF k(5)] kn by (simp add: current_roe_def known_revision_def state_at_def)
  show "roe_ok (current_roe (eg_export e))" using known_roe_ok [OF k(8) kn] by (simp add: current_roe_def state_at_def)
qed

lemma by_key_iff: "distinct (map k rows) \<Longrightarrow> map_of (by_key k rows) x = Some r \<longleftrightarrow> r \<in> set rows \<and> k r = x"
  using by_key_Some by_key_unique by metis

lemma find_session:
  assumes "kept H U e"
  shows "map_of (eg_sessions e) s = Some w \<longleftrightarrow> w \<in> set (dx_sessions (eg_export e)) \<and> sw_session w = s"
  using keptD [OF assms] by (simp add: indexedD(2) by_key_iff used_once_def)

lemma find_reservation:
  assumes "kept H U e"
  shows "map_of (eg_reservations e) s = Some r \<longleftrightarrow> r \<in> set (dx_reservations (eg_export e)) \<and> rw_dispatch r = s"
  using keptD [OF assms] by (simp add: indexedD(3) by_key_iff used_once_def)

lemma find_completion:
  assumes "kept H U e"
  shows "map_of (eg_completions e) s = Some c \<longleftrightarrow> c \<in> set (dx_completions (eg_export e)) \<and> cw_dispatch c = s"
  using keptD [OF assms] by (simp add: indexedD(4) by_key_iff used_once_def)

lemma find_slot:
  assumes "kept H U e"
  shows "map_of (eg_slots e) k = Some d \<longleftrightarrow> (\<exists>p \<in> set (dx_reservations (eg_export e)). slot_key p = k \<and> rw_dispatch p = d)"
proof -
  note i = keptD(5) [OF assms] and u = keptD(7) [OF assms]
  have "distinct (map fst (eg_slots e))" using u by (simp add: indexedD(5) [OF i] used_once_def comp_def)
  then show ?thesis by (auto simp: indexedD(5) [OF i])
qed

lemma unused_iff: "kept H U e \<Longrightarrow> unused c e \<longleftrightarrow> not_used (eg_export e) c"
proof -
  assume k: "kept H U e"
  note i = keptD(5) [OF k]
  have "map_of (eg_slots e) s = None \<longleftrightarrow> s \<notin> slot_key ` set (dx_reservations (eg_export e))" for s
    by (auto simp: indexedD(5) [OF i] map_of_eq_None_iff image_image)
  then show ?thesis
    by (simp add: unused_def not_used_def indexedD(3,6,7) [OF i] by_key_None)
qed

lemma ready_at_iff:
  assumes k: "kept H U e"
  shows "ready_at c w e = Inr ready \<longleftrightarrow> ready_from (eg_export e) c w ready"
proof (cases "rv_slot c")
  case Http_headers
  let ?key = "(rv_session c, Http_identify)" and ?x = "eg_export e"
  have rf: "ready_from ?x c w ready \<longleftrightarrow> (\<exists>p \<in> set (dx_reservations ?x). \<exists>k \<in> set (dx_completions ?x). slot_key p = ?key
         \<and> cw_dispatch k = rw_dispatch p \<and> cw_eligible k \<and> ready = ck_after (cw_clock k))"
    by (simp add: ready_from_def Http_headers)
  show ?thesis
  proof (cases "map_of (eg_slots e) ?key")
    case None
    then have "\<not> (\<exists>p \<in> set (dx_reservations ?x). slot_key p = ?key)" using find_slot [OF k, of ?key] by auto
    then have "\<not> ready_from ?x c w ready" unfolding rf by blast
    then show ?thesis using None by (simp add: ready_at_def Http_headers)
  next
    case (Some d)
    then have p: "\<exists>p \<in> set (dx_reservations ?x). slot_key p = ?key \<and> rw_dispatch p = d"
      using find_slot [OF k, of ?key] by simp
    have p': "\<forall>p \<in> set (dx_reservations ?x). slot_key p = ?key \<longrightarrow> rw_dispatch p = d"
    proof (intro ballI impI)
      fix p assume "p \<in> set (dx_reservations ?x)" "slot_key p = ?key"
      then have "map_of (eg_slots e) ?key = Some (rw_dispatch p)" using find_slot [OF k] by blast
      then show "rw_dispatch p = d" using Some by simp
    qed
    show ?thesis
    proof (cases "map_of (eg_completions e) d")
      case None
      then have "\<forall>k \<in> set (dx_completions ?x). cw_dispatch k \<noteq> d" using find_completion [OF k, of d] by auto
      then have "\<not> ready_from ?x c w ready" unfolding rf using p' by metis
      then show ?thesis using None Some by (simp add: ready_at_def Http_headers)
    next
      case (Some row)
      then have r: "row \<in> set (dx_completions ?x)" "cw_dispatch row = d" using find_completion [OF k, of d] by auto
      have r': "\<forall>k \<in> set (dx_completions ?x). cw_dispatch k = d \<longrightarrow> k = row"
      proof (intro ballI impI)
        fix k' assume "k' \<in> set (dx_completions ?x)" "cw_dispatch k' = d"
        then have "map_of (eg_completions e) d = Some k'" using find_completion [OF k] by blast
        then show "k' = row" using Some by simp
      qed
      have "ready_at c w e = Inr ready \<longleftrightarrow> cw_eligible row \<and> ready = ck_after (cw_clock row)"
        using \<open>map_of (eg_slots e) ?key = Some d\<close> Some by (auto simp: ready_at_def Http_headers res_simps)
      also have "\<dots> \<longleftrightarrow> ready_from ?x c w ready" unfolding rf using p p' r r' by metis
      finally show ?thesis .
    qed
  qed
qed (auto simp: ready_at_def ready_from_def)

lemma reservation_home:
  assumes "kept H U e" and "r \<in> set (dx_reservations (eg_export e))"
  obtains w where "w \<in> set (dx_sessions (eg_export e))" "from_session r w"
proof -
  have "ledger_fine H U (eg_export e)" using keptD(4) [OF assms(1)] by (simp add: engine_fine_def)
  then have "reservation_fine H U (eg_export e) r" using ledger_fineD(3) assms(2) by (simp add: list_all_iff)
  then show ?thesis using that by (auto simp: reservation_fine_def)
qed

lemma cached_policy_total:
  assumes k: "kept H U e" and h: "hashes H"
  shows "(\<exists>p. cached_policy H e = Inr p) \<longleftrightarrow> supported (current_roe (eg_export e))"
    "cached_policy H e = Inr (d, e1) \<Longrightarrow> is_hash d \<and> roe_at e1 = roe_at e"
proof -
  let ?n = "ds_revision (state_at e)" and ?r = "current_roe (eg_export e)"
  note r = current_at [OF k]
  have c: "policy_sha256 H ?r = Inr d" if "eg_policies e ?n = Some d" for d
    using keptD(4) [OF k] that by (auto simp: engine_fine_def caches_right_def current_roe_def state_at_def)
  have "supported ?r" if "policy_sha256 H ?r = Inr d" for d
    using that by (auto simp: policy_sha256_def res_simps dest: dispatch_policy_supported)
  then have s: "(\<exists>d. policy_sha256 H ?r = Inr d) \<longleftrightarrow> supported ?r" using policy_sha256_eq [OF r(3)] by blast
  show "(\<exists>p. cached_policy H e = Inr p) \<longleftrightarrow> supported ?r"
  proof (cases "eg_policies e ?n")
    case None
    then have "(\<exists>p. cached_policy H e = Inr p) \<longleftrightarrow> (\<exists>d. policy_sha256 H ?r = Inr d)"
      by (auto simp: cached_policy_def Let_def r(1) res_simps)
    then show ?thesis using s by simp
  next
    case (Some d)
    then show ?thesis using c [OF Some] s by (auto simp: cached_policy_def Let_def)
  qed
  show "is_hash d \<and> roe_at e1 = roe_at e" if "cached_policy H e = Inr (d, e1)"
    using that c policy_hash [OF _ h] by (auto elim!: cached_policy_Inr simp: r(1) roe_at_def fun_eq_iff)
qed

lemma start_session_iff:
  assumes k: "kept H U e" and h: "hashes H" and c: "claim_ok (Starting c)"
  shows "(\<exists>e'. start_session H c e = Inr e') \<longleftrightarrow> may_start (eg_export e) c"
proof
  let ?x = "eg_export e" and ?r = "current_roe (eg_export e)"
  note i = keptD(5) [OF k] and r = current_at [OF k] and cp = cached_policy_total [OF k h]
  have ck: "clock_ok (sl_clock c)" "1 \<le> sl_deadline c" using c by simp_all
  note wb = window_budget_iff [OF ck]
  {
    assume "\<exists>e'. start_session H c e = Inr e'"
    then obtain e' where "start_session H c e = Inr e'" ..
    then obtain policy e1 stop deadline where a: "map_of (eg_sessions e) (sl_session c) = None" "length (eg_sessions e) < ROWS_LIMIT"
      "cached_policy H e = Inr (policy, e1)"
      "window_budget_of (roe_at e1 (ds_revision (state_at e))) (sl_clock c) (sl_deadline c) (ds_high (state_at e)) = Inr (stop, deadline)"
      by (rule start_session_Inr)
    have "roe_at e1 (ds_revision (state_at e)) = ?r" using cp(2) [OF a(3)] r(1) by simp
    then show "may_start ?x c" using a cp(1) wb [of ?r "ds_high (state_at e)"]
      by (auto simp: may_start_def Let_def indexedD(2) [OF i] by_key_None ROWS_LIMIT_def state_at_def)
  }
  assume m: "may_start ?x c"
  then obtain policy e1 where p: "cached_policy H e = Inr (policy, e1)" using cp(1) by (auto simp: may_start_def Let_def)
  have e1: "roe_at e1 (ds_revision (state_at e)) = ?r" "is_hash policy" using cp(2) [OF p] r(1) by auto
  obtain stop deadline where w: "window_budget_of ?r (sl_clock c) (sl_deadline c) (ds_high (state_at e)) = Inr (stop, deadline)"
    using m wb [of ?r "ds_high (state_at e)"] by (auto simp: may_start_def Let_def state_at_def)
  have st: "stamped deadline" using w c by (auto simp: window_budget_of_def res_simps stamped_def min_def dest!: window_end_stamped)
  let ?row = "\<lparr>sw_session = sl_session c, sw_owner = sl_owner c, sw_revision = ds_revision (state_at e), sw_generation = ds_generation (state_at e),
        sw_policy = policy, sw_clock = sl_clock c, sw_original = sl_deadline c, sw_deadline = deadline\<rparr>"
  have "session_plain ?row"
    using c st e1(2) state_plainD(1) [OF keptD(2) [OF k]] by (simp add: session_plain_def state_plain_def state_at_def stamped_def)
  then have f: "fit_row (session_row_json ?row) SESSION_BYTES = Inr ()"
    using session_size(1) [of ?row] session_size(2) [of ?row 0] by (intro fit_row_ok) (auto simp: SESSION_BYTES_def EXPORT_BYTES_def DEPTH_LIMIT_def)
  have n: "map_of (eg_sessions e) (sl_session c) = None" "length (eg_sessions e) < ROWS_LIMIT"
    using m by (auto simp: may_start_def Let_def indexedD(2) [OF i] by_key_None ROWS_LIMIT_def)
  show "\<exists>e'. start_session H c e = Inr e'"
    unfolding start_session_def Let_def by (simp add: n p e1(1) w f)
qed

lemma cached_action_total:
  assumes k: "kept H U e" and h: "hashes H" and u: "\<forall>x. canonical_uuid (U x)" and s: "supported (current_roe (eg_export e))"
  obtains a e1 where "cached_action H U (ds_revision (state_at e)) j e = Inr (a, e1)" "canonical_uuid (fst a)" "is_hash (snd a)"
proof -
  let ?n = "ds_revision (state_at e)" and ?r = "current_roe (eg_export e)"
  note r = current_at [OF k]
  have c: "action_identity H U ?r j = Inr a" if "eg_actions e (?n, j) = Some a" for a
    using keptD(4) [OF k] that by (cases a) (simp add: engine_fine_def caches_right_def current_roe_def state_at_def)
  obtain a where a: "action_identity H U ?r j = Inr a" using action_identity_eq [OF r(3) s h u] by blast
  then obtain e1 where "cached_action H U ?n j e = Inr (a, e1)"
    using c by (cases "eg_actions e (?n, j)") (auto simp: cached_action_def r(1))
  then show ?thesis using that a identity_plain [OF _ h] by (metis prod.collapse)
qed

lemma reserve_slot_iff:
  assumes k: "kept H U e" and h: "hashes H" and u: "\<forall>x. canonical_uuid (U x)" and c: "claim_ok (Reserving c)"
  shows "(\<exists>e'. reserve_slot H U c e = Inr e') \<longleftrightarrow> may_reserve (eg_export e) c"
proof
  let ?x = "eg_export e" and ?r = "current_roe (eg_export e)"
  note i = keptD(5) [OF k] and r = current_at [OF k]
  have ck: "clock_ok (rv_clock c)" using c by simp
  define ms where "ms = min 30000 (roe_limit ?r ''max_action_ms'')"
  have run: "us_runtime (slot_cost j n) = n" for j n by (cases j) simp_all
  {
    assume "\<exists>e'. reserve_slot H U c e = Inr e'"
    then obtain e' where "reserve_slot H U c e = Inr e'" ..
    then obtain w ready cost latest stop where a: "map_of (eg_sessions e) (rv_session c) = Some w" "sw_owner w = rv_owner c"
      "sw_revision w = ds_revision (state_at e)" "sw_generation w = ds_generation (state_at e)"
      "length (eg_reservations e) < ROWS_LIMIT" "unused c e" "ready_at c w e = Inr ready"
      "clock_status (roe_at e (sw_revision w)) (rv_clock c) (the (eg_clocks e (rv_session c))) (ds_high (state_at e)) (sw_deadline w) = Inr Valid_clock"
      "reservation_cost (roe_at e (sw_revision w)) (rv_slot c) = Inr cost" "add_ns ready (us_runtime cost * 1000000) = Inr latest"
      "window_end (roe_at e (sw_revision w)) (rv_clock c) = Inr stop" "ck_after (rv_clock c) < min (min (sw_deadline w) latest) stop"
      "within_caps (add_usage (ds_usage (state_at e)) cost) (roe_at e (sw_revision w))"
      by (rule reserve_slot_Inr)
    have w: "w \<in> set (dx_sessions ?x)" "sw_session w = rv_session c" using a(1) find_session [OF k] by auto
    then obtain previous where pr: "clocks_of (dx_events ?x) (rv_session c) = Some previous"
      using keptD(2,3) [OF k] by (force simp: clocked_def valued_def)
    then have p: "the (eg_clocks e (rv_session c)) = previous" using keptD(2) [OF k] by (simp add: valued_def)
    have at: "roe_at e (sw_revision w) = ?r" using a(3) r(1) by simp
    have co: "supported ?r" "cost = slot_cost (rv_slot c) ms" using a(9) by (simp_all add: at reservation_cost_def res_simps ms_def)
    have "may_spend ?x c w previous ready"
      using a(8,10-13) co clock_status_valid [OF ck] window_end_iff [OF ck]
      by (auto simp: may_spend_def Let_def at p ms_def [symmetric] run add_ns_def res_simps state_at_def)
    then show "may_reserve ?x c"
      using a(2-7) w pr ready_at_iff [OF k] unused_iff [OF k]
      by (auto simp: may_reserve_def indexedD(3) [OF i] ROWS_LIMIT_def state_at_def intro!: bexI [of _ w])
  }
  assume m: "may_reserve ?x c"
  then obtain w previous ready where w: "w \<in> set (dx_sessions ?x)" "sw_session w = rv_session c" "sw_owner w = rv_owner c"
    "sw_revision w = ds_revision (state_at e)" "sw_generation w = ds_generation (state_at e)"
    and pr: "clocks_of (dx_events ?x) (rv_session c) = Some previous" and rf: "ready_from ?x c w ready" and sp: "may_spend ?x c w previous ready"
    by (auto simp: may_reserve_def state_at_def)
  have own: "owned_session (rv_session c) (rv_owner c) e = Inr w" using w find_session [OF k] by (simp add: owned_session_Inr)
  have p: "the (eg_clocks e (rv_session c)) = previous" using pr keptD(2) [OF k] by (simp add: valued_def)
  have wp: "session_plain w" using w(1) state_plainD(3) [OF keptD(2) [OF k]] by (simp add: list_all_iff)
  have re: "ready_at c w e = Inr ready" using rf ready_at_iff [OF k] by blast
  have rd: "stamped ready" by (rule ready_at_stamped [OF re keptD(2) [OF k] i w(1)])
  have at: "roe_at e (ds_revision (state_at e)) = ?r" using r(1) by simp
  have sup: "supported ?r" and st: "clock_status ?r (rv_clock c) previous (ds_high (state_at e)) (sw_deadline w) = Inr Valid_clock"
    and lt: "ck_after (rv_clock c) < ready + ms * 1000000" "ready + ms * 1000000 \<le> INTEGER_MAX"
    and stop: "window_end ?r (rv_clock c) = Inr (ck_before (rv_clock c) + (epoch_ns (roe_end ?r) - ck_utc (rv_clock c)))"
    and cap: "within_caps (add_usage (ds_usage (state_at e)) (slot_cost (rv_slot c) ms)) ?r"
    and inw: "in_window ?r (rv_clock c)" "ck_after (rv_clock c) < sw_deadline w"
    using sp clock_status_valid [OF ck] window_end_iff [OF ck] by (simp_all add: may_spend_def Let_def ms_def state_at_def steady_def)
  have co: "reservation_cost ?r (rv_slot c) = Inr (slot_cost (rv_slot c) ms)" using sup by (simp add: reservation_cost_def ms_def)
  have up: "usage_plain (slot_cost (rv_slot c) ms)" using roe_cost(1) [OF r(3)] by (simp add: ms_def)
  have ad: "add_ns ready (ms * 1000000) = Inr (ready + ms * 1000000)"
    using lt clock_stamped [OF ck] by (simp add: add_ns_def stamped_def)
  obtain a e1 where ac: "cached_action H U (ds_revision (state_at e)) (rv_slot c) e = Inr (a, e1)" "canonical_uuid (fst a)" "is_hash (snd a)"
    using cached_action_total [OF k h u sup] by blast
  let ?d = "min (min (sw_deadline w) (ready + ms * 1000000)) (ck_before (rv_clock c) + (epoch_ns (roe_end ?r) - ck_utc (rv_clock c)))"
  have d: "ck_after (rv_clock c) < ?d" using lt inw by (simp add: in_window_def)
  let ?row = "\<lparr>rw_dispatch = rv_dispatch c, rw_session = rv_session c, rw_owner = rv_owner c, rw_revision = ds_revision (state_at e),
        rw_generation = ds_generation (state_at e), rw_slot = rv_slot c, rw_action = fst a, rw_action_sha256 = snd a,
        rw_policy = sw_policy w, rw_approval = rv_approval c, rw_audit = rv_audit c, rw_clock = rv_clock c,
        rw_ready = ready, rw_deadline = ?d, rw_cost = slot_cost (rv_slot c) ms\<rparr>"
  have "stamped ?d" using d wp clock_stamped [OF ck] by (auto simp: stamped_def session_plain_def min_def split: if_splits)
  then have "reservation_plain ?row"
    using c wp up ac rd w(4,5) by (simp add: reservation_plain_def session_plain_def)
  then have f: "fit_row (reservation_row_json ?row) RESERVATION_BYTES = Inr ()"
    using reservation_size(1) [of ?row] reservation_size(2) [of ?row 0]
    by (intro fit_row_ok) (auto simp: RESERVATION_BYTES_def EXPORT_BYTES_def DEPTH_LIMIT_def)
  have n: "length (eg_reservations e) < ROWS_LIMIT" "unused c e"
    using m unused_iff [OF k] by (auto simp: may_reserve_def indexedD(3) [OF i] ROWS_LIMIT_def)
  show "\<exists>e'. reserve_slot H U c e = Inr e'"
    unfolding reserve_slot_def Let_def using d
    by (simp add: own w(4,5) n re p at st co run ad stop cap ac(1) f del: min_less_iff_conj)
qed

lemma complete_dispatch_iff:
  assumes k: "kept H U e" and c: "claim_ok (Completing c)"
  shows "(\<exists>e'. complete_dispatch c e = Inr e') \<longleftrightarrow> may_complete (eg_export e) c"
proof
  let ?x = "eg_export e"
  note i = keptD(5) [OF k]
  have ck: "clock_ok (cp_clock c)" using c by simp
  have owner: "rw_owner r = sw_owner w" if "r \<in> set (dx_reservations ?x)" "w \<in> set (dx_sessions ?x)" "sw_session w = rw_session r" for r w
  proof -
    note here = that(1)
    obtain w' where "w' \<in> set (dx_sessions ?x)" "from_session r w'" using k here by (rule reservation_home)
    moreover from this have "w' = w" using that keptD(7) [OF k] unfolding used_once_def from_session_def distinct_map by (metis inj_onD)
    ultimately show ?thesis by (simp add: from_session_def)
  qed
  {
    assume "\<exists>e'. complete_dispatch c e = Inr e'"
    then obtain e' where "complete_dispatch c e = Inr e'" ..
    then obtain w r where a: "map_of (eg_sessions e) (cp_session c) = Some w" "sw_owner w = cp_owner c"
      "map_of (eg_reservations e) (cp_dispatch c) = Some r" "rw_session r = cp_session c"
      "map_of (eg_completions e) (cp_dispatch c) = None" "length (eg_completions e) < ROWS_LIMIT" "observed_within (cp_observed c) (rw_cost r)"
      by (rule complete_dispatch_Inr)
    then show "may_complete ?x c"
      using owner find_session [OF k] find_reservation [OF k]
      by (auto simp: may_complete_def indexedD(4) [OF i] by_key_None ROWS_LIMIT_def intro!: bexI [of _ r])
  }
  assume m: "may_complete ?x c"
  then obtain r where r: "r \<in> set (dx_reservations ?x)" "rw_dispatch r = cp_dispatch c" "rw_session r = cp_session c" "rw_owner r = cp_owner c"
    "observed_within (cp_observed c) (rw_cost r)" by (auto simp: may_complete_def)
  obtain w where w: "w \<in> set (dx_sessions ?x)" "from_session r w" using k r(1) by (rule reservation_home)
  have own: "owned_session (cp_session c) (cp_owner c) e = Inr w"
    using w r find_session [OF k] by (simp add: owned_session_Inr from_session_def)
  have res: "map_of (eg_reservations e) (cp_dispatch c) = Some r" using r find_reservation [OF k] by simp
  have n: "map_of (eg_completions e) (cp_dispatch c) = None" "length (eg_completions e) < ROWS_LIMIT"
    using m by (auto simp: may_complete_def indexedD(4) [OF i] by_key_None ROWS_LIMIT_def)
  obtain s where s: "clock_status (roe_at e (rw_revision r)) (cp_clock c) (the (eg_clocks e (cp_session c))) (ds_high (state_at e))
      (min (rw_deadline r) (sw_deadline w)) = Inr s" using clock_status_total [OF ck] by blast
  have f: "fit_row (completion_row_json \<lparr>cw_dispatch = cp_dispatch c, cw_session = cp_session c, cw_owner = cp_owner c, cw_reported = cp_reported c,
        cw_observed = cp_observed c, cw_clock = cp_clock c, cw_status = s, cw_eligible = b\<rparr>) COMPLETION_BYTES = Inr ()" (is "fit_row (completion_row_json (?row b)) _ = _") for b
  proof -
    have "completion_plain (?row b)" using c by (simp add: completion_plain_def)
    then show ?thesis using completion_size(1) [of "?row b"] completion_size(2) [of "?row b" 0]
      by (intro fit_row_ok) (auto simp: COMPLETION_BYTES_def EXPORT_BYTES_def DEPTH_LIMIT_def)
  qed
  show "\<exists>e'. complete_dispatch c e = Inr e'"
    unfolding complete_dispatch_def Let_def by (simp add: own res r(3,5) n s f)
qed

end
