(* ===== verification/DispatchExact.thy ===== *)
theory DispatchExact
  imports DispatchAdmit
begin

text \<open>
  Pushes keep every invariant of the engine, and succeed exactly for the admissible requests; the
  resulting export always encodes.
\<close>

section \<open>Invariants of a push\<close>

definition noted_high :: "claim \<Rightarrow> int option \<Rightarrow> int option" where
  "noted_high c high = (case (claim_session c, claim_clock c) of
     (Some s, Some k) \<Rightarrow> Some (case high of None \<Rightarrow> ck_utc k | Some h \<Rightarrow> max (if h = 0 then ck_utc k else h) (ck_utc k))
   | _ \<Rightarrow> high)"

lemma observed_clocks: "eg_clocks (observe_clock c e) = clock_note c (eg_clocks e)"
  "ds_high (state_at (observe_clock c e)) = noted_high c (ds_high (state_at e))"
  "ds_revision (state_at (observe_clock c e)) = ds_revision (state_at e)" "ds_generation (state_at (observe_clock c e)) = ds_generation (state_at e)"
  by (auto simp: observe_clock_def clock_note_def noted_high_def Let_def state_at_def split: option.splits)

lemma stamp_clocks:
  assumes "stamp H q e = Inr (e', r)"
  shows "eg_clocks e' = clock_note (dq_claim q) (eg_clocks e)" "ds_high (state_at e') = noted_high (dq_claim q) (ds_high (state_at e))"
    "ds_revision (state_at e') = ds_revision (state_at e)" "ds_generation (state_at e') = ds_generation (state_at e)"
proof -
  obtain e1 event where 1: "e1 = number_event (observe_clock (dq_claim q) e)"
    "e' = e1\<lparr>eg_export := (eg_export e1)\<lparr>dx_events := dx_events (eg_export e1) @ [event]\<rparr>, eg_events := eg_events e1 @ [dq_event q]\<rparr>"
    using assms by (rule stamp_Inr)
  then show "eg_clocks e' = clock_note (dq_claim q) (eg_clocks e)" "ds_high (state_at e') = noted_high (dq_claim q) (ds_high (state_at e))"
    "ds_revision (state_at e') = ds_revision (state_at e)" "ds_generation (state_at e') = ds_generation (state_at e)"
    using observed_clocks [of "dq_claim q" e] by (simp_all add: number_event_def state_at_def)
qed

lemma stamp_valued:
  assumes s: "stamp H q e0 = Inr (e', r)" and v: "valued e0" and n: "length (dx_events (eg_export e0)) \<le> 256" and q: "dispatch_ok q" and h: "hashes H"
  shows "valued e'"
proof -
  have x: "export_plain (eg_export e0)" using v by (simp add: valued_def)
  obtain e event r' where e: "e = number_event (observe_clock (dq_claim q) e0)" and ev: "event_plain event" "de_request event = q"
    and s': "stamp H q e0 = Inr (e\<lparr>eg_export := (eg_export e)\<lparr>dx_events := dx_events (eg_export e) @ [event]\<rparr>, eg_events := eg_events e @ [dq_event q]\<rparr>, r')"
    and p: "state_plain (dx_state (eg_export e))"
    using stamp_total [OF x n q h] by metis
  have e': "e' = e\<lparr>eg_export := (eg_export e)\<lparr>dx_events := dx_events (eg_export e) @ [event]\<rparr>, eg_events := eg_events e @ [dq_event q]\<rparr>"
    using s s' by simp
  have ee: "dx_events (eg_export e) = dx_events (eg_export e0)" by (simp add: e number_event_def observed_events)
  note rows = stamp_rows [OF s] and cl = stamp_clocks [OF s]
  have "export_plain (eg_export e')"
    using x rows(2-6) ev p ee by (auto simp: export_plain_def e')
  moreover have "eg_clocks e' = clocks_of (dx_events (eg_export e'))"
    using v cl(1) ev ee by (simp add: valued_def clocks_of_snoc e')
  ultimately show ?thesis using v cl(3,4) rows(8) by (simp add: valued_def)
qed

lemma transit_sessions:
  assumes "transit H U c e = Inr e'" and "indexed e" and "w \<in> set (dx_sessions (eg_export e'))"
  shows "w \<in> set (dx_sessions (eg_export e)) \<or> (claim_session c = Some (sw_session w) \<and> claim_clock c \<noteq> None)"
proof (cases c)
  case (Starting d)
  then have "start_session H d e = Inr e'" using assms(1) by (simp add: transit_def)
  then have "w \<in> set (dx_sessions (eg_export e)) \<or> sw_session w = sl_session d"
    using assms(3) by (auto elim!: start_session_Inr simp: add_session_def dest!: cached_policy_export)
  then show ?thesis by (auto simp: Starting)
next
  case (Reserving d)
  then show ?thesis using assms reserve_slot_rows(4) by (simp add: transit_def)
next
  case (Completing d)
  then show ?thesis using assms complete_dispatch_rows(4) by (simp add: transit_def)
next
  case (Revising r)
  then show ?thesis using assms revise_roe_rows(3) by (simp add: transit_def)
qed (use assms in \<open>auto simp: transit_def revoke_all_rows\<close>)

lemma transit_clocks: "transit H U c e = Inr e' \<Longrightarrow> eg_clocks e' = eg_clocks e"
  by (auto simp: transit_def revise_roe_def revoke_all_def Let_def res_simps add_session_def add_reservation_def add_completion_def
      elim!: start_session_Inr reserve_slot_Inr complete_dispatch_Inr cached_policy_Inr cached_action_Inr split: claim.splits)

lemma transit_revisions:
  assumes "transit H U c e = Inr e'" and "indexed e"
  shows "length (dx_revisions (eg_export e')) = length (dx_revisions (eg_export e)) + (case c of Revising r \<Rightarrow> 1 | _ \<Rightarrow> 0)"
  using assms start_session_rows(3) reserve_slot_rows(3) complete_dispatch_rows(3) revise_roe_rows(2) revoke_all_rows(2)
  by (cases c) (fastforce simp: transit_def)+

lemma push_kept:
  assumes p: "push H U q current = Inr (e', r)" and q: "dispatch_ok q" and h: "hashes H" and k: "\<And>e. current = Some e \<Longrightarrow> kept H U e"
  shows "kept H U e'"
proof -
  have l: "lives H U e'" using push_lives [OF p q] k by (simp add: kept_def)
  have "valued e' \<and> clocked e' \<and> roes_logged (eg_export e')"
    using p
  proof (cases rule: push_Inr)
    case (first roe e0)
    have "roe_ok roe" "is_uuid4 (dq_engagement q)" using q first(2) by (simp_all add: dispatch_ok_def)
    then have v: "valued e0" and c: "clocked e0" and z: "dx_events (eg_export e0) = []" "length (dx_revisions (eg_export e0)) = 1"
      using first(3) h by (auto simp: open_engine_def res_simps valued_def export_plain_def state_plain_def usage_plain_def small_def clocks_of_def
          state_at_def clocked_def no_usage_def dispatch_roe_sha_def hashes_def)
    have "valued e'" using stamp_valued [OF first(4) v _ q h] z by simp
    moreover have "clocked e'" using c stamp_rows(4) [OF first(4)] stamp_clocks(1) [OF first(4)] clock_note_keeps by (simp add: clocked_def)
    moreover have "roes_logged (eg_export e')"
      using stamp_rows(1,3) [OF first(4)] z first(2) by (auto simp: roes_logged_def brings_roe_def)
    ultimately show ?thesis by blast
  next
    case (later e e0)
    note ke = keptD [OF k [OF later(1)]] and adv = advance_engine_Inr [OF later(3)]
    have c: "claim_ok (dq_claim q)" using q by (simp add: dispatch_ok_def)
    have log: "same_log e e0" by (rule transit_log [OF adv(4) ke(5)])
    have n: "length (dx_events (eg_export e0)) \<le> 256" using log adv(2) by (simp add: same_log_def EVENTS_LIMIT_def)
    have v: "valued e0" by (rule transit_valued [OF adv(4) ke(2,4,6) h c adv(3)])
    have "valued e'" by (rule stamp_valued [OF later(4) v n q h])
    moreover have "clocked e'"
      unfolding clocked_def
    proof
      fix w assume "w \<in> set (dx_sessions (eg_export e'))"
      then have w: "w \<in> set (dx_sessions (eg_export e0))" using stamp_rows(4) [OF later(4)] by simp
      have "eg_clocks e' = clock_note (dq_claim q) (eg_clocks e)" using stamp_clocks(1) [OF later(4)] transit_clocks [OF adv(4)] by simp
      then show "eg_clocks e' (sw_session w) \<noteq> None"
        using transit_sessions [OF adv(4) ke(5) w] ke(3) clock_note_keeps by (auto simp: clocked_def clock_note_def split: option.splits)
    qed
    moreover have "roes_logged (eg_export e')"
    proof -
      obtain event where ev: "de_request event = q" "dx_events (eg_export e') = dx_events (eg_export e) @ [event]"
        using stamp_rows(1) [OF later(4)] log by (auto simp: same_log_def)
      have "length (dx_revisions (eg_export e')) = length (dx_revisions (eg_export e)) + (case dq_claim q of Revising r \<Rightarrow> 1 | _ \<Rightarrow> 0)"
        using stamp_rows(3) [OF later(4)] transit_revisions [OF adv(4) ke(5)] by simp
      moreover have "dq_claim q \<noteq> Opening r" for r using adv(4) by (auto simp: transit_def)
      ultimately show ?thesis using k [OF later(1)] ev by (auto simp: roes_logged_def brings_roe_def kept_def split: claim.splits)
    qed
    ultimately show ?thesis by blast
  qed
  then show ?thesis using l by (simp add: kept_def)
qed

lemma replay_kept:
  "replay_events H U vs current = Inr (Some e) \<Longrightarrow> hashes H \<Longrightarrow> (\<And>e. current = Some e \<Longrightarrow> kept H U e) \<Longrightarrow> kept H U e"
proof (induction vs arbitrary: current)
  case (Cons v vs)
  then obtain q e1 r where p: "validate_dispatch (item v ''request'') = Inr q" "push H U q current = Inr (e1, r)"
    and rest: "replay_events H U vs (Some e1) = Inr (Some e)"
    by (auto simp: res_simps)
  show ?case using Cons.IH [OF rest Cons.prems(2)] push_kept [OF p(2) validate_dispatch_ok [OF p(1)] Cons.prems(2,3)] by blast
qed simp

lemma reconstruct_kept: "reconstruct H U v = Inr e \<Longrightarrow> hashes H \<Longrightarrow> kept H U e"
  unfolding reconstruct_def Let_def by (auto simp: res_simps split: option.splits intro: replay_kept)

section \<open>Exactly the admissible requests\<close>

lemma roe_sha_total: "roe_ok r \<Longrightarrow> \<exists>sha. dispatch_roe_sha H r = Inr sha"
  using canonical_text_ok [OF narrow_roe [of r 0]] roe_len [of r] by (simp add: dispatch_roe_sha_def EXPORT_BYTES_def)

lemma transit_iff:
  assumes k: "kept H U e" and h: "hashes H" and u: "\<forall>x. canonical_uuid (U x)" and c: "claim_ok c"
  shows "(\<exists>e'. transit H U c e = Inr e') \<longleftrightarrow> may_apply (eg_export e) c"
proof (cases c)
  case (Starting d)
  then show ?thesis using start_session_iff [OF k h] c by (simp add: transit_def may_apply_def)
next
  case (Reserving d)
  then show ?thesis using reserve_slot_iff [OF k h u] c by (simp add: transit_def may_apply_def)
next
  case (Completing d)
  then show ?thesis using complete_dispatch_iff [OF k] c by (simp add: transit_def may_apply_def)
next
  case (Revising r)
  then obtain sha where "dispatch_roe_sha H r = Inr sha" using roe_sha_total c by force
  then show ?thesis using indexedD(8) [OF keptD(5) [OF k]]
    by (auto simp: transit_def may_apply_def Revising revise_roe_def Let_def res_simps ROWS_LIMIT_def)
qed (simp_all add: transit_def may_apply_def)

lemma push_iff:
  assumes k: "kept H U e" and h: "hashes H" and u: "\<forall>x. canonical_uuid (U x)" and q: "dispatch_ok q"
  shows "(\<exists>p. push H U q (Some e) = Inr p) \<longleftrightarrow> admissible (eg_export e) q"
proof -
  note ke = keptD [OF k]
  have c: "claim_ok (dq_claim q)" using q by (simp add: dispatch_ok_def)
  have "(\<exists>p. stamp H q e0 = Inr p)" if t: "transit H U (dq_claim q) e = Inr e0" and n: "length (dx_events (eg_export e)) < EVENTS_LIMIT"
    and r: "ds_revoked (state_at e) \<longrightarrow> claim_name (dq_claim q) = ''complete''" for e0
  proof -
    have "valued e0" by (rule transit_valued [OF t ke(2,4,6) h c r])
    moreover have "length (dx_events (eg_export e0)) \<le> 256"
      using transit_log [OF t ke(5)] n by (simp add: same_log_def EVENTS_LIMIT_def)
    ultimately show ?thesis using stamp_total [of e0 q H] q h by (metis valued_def)
  qed
  then have "(\<exists>p. push H U q (Some e) = Inr p) \<longleftrightarrow> dq_event q \<notin> set (eg_events e) \<and> dq_engagement q = dx_engagement (eg_export e)
      \<and> claim_name (dq_claim q) \<noteq> ''create'' \<and> length (dx_events (eg_export e)) < EVENTS_LIMIT
      \<and> (claim_name (dq_claim q) = ''complete'' \<or> \<not> ds_revoked (state_at e))
      \<and> (claim_name (dq_claim q) = ''complete'' \<or> dq_expected q = Some (ds_revision (state_at e), ds_generation (state_at e)))
      \<and> (\<exists>e0. transit H U (dq_claim q) e = Inr e0)"
    unfolding push_def advance_engine_def Let_def by (auto simp: res_simps)
  moreover have "may_apply x d \<Longrightarrow> claim_name d \<noteq> ''create''" for x d by (cases d) (simp_all add: may_apply_def)
  ultimately show ?thesis
    unfolding transit_iff [OF k h u c] admissible_def
    using indexedD(1) [OF ke(5)] by (auto simp: EVENTS_LIMIT_def state_at_def)
qed

lemma push_new:
  assumes q: "dispatch_ok q" and h: "hashes H"
  shows "(\<exists>p. push H U q None = Inr p) \<longleftrightarrow> claim_name (dq_claim q) = ''create''"
proof (cases "dq_claim q")
  case (Opening r)
  have r: "roe_ok r" "is_uuid4 (dq_engagement q)" using q Opening by (simp_all add: dispatch_ok_def)
  then obtain sha where s: "dispatch_roe_sha H r = Inr sha" using roe_sha_total by blast
  then have "is_hash sha" using h by (auto simp: dispatch_roe_sha_def hashes_def res_simps)
  then obtain e0 where e0: "open_engine H (dq_engagement q) r = Inr e0" "export_plain (eg_export e0)" "dx_events (eg_export e0) = []"
    using r s by (auto simp: open_engine_def export_plain_def state_plain_def usage_plain_def small_def no_usage_def)
  then obtain p where "stamp H q e0 = Inr p" using stamp_total [OF e0(2) _ q h] by (metis list.size(3) le0)
  then show ?thesis using e0 by (simp add: push_def Opening)
qed (simp_all add: push_def)

lemma kept_encodes:
  assumes "kept H U e"
  shows "len (dispatch_export_json (eg_export e)) \<le> EXPORT_BYTES" "narrow 0 (dispatch_export_json (eg_export e))"
proof -
  have "sized e" "export_plain (eg_export e)" "roes_logged (eg_export e)" using assms by (simp_all add: kept_def lives_def valued_def)
  then show "len (dispatch_export_json (eg_export e)) \<le> EXPORT_BYTES" "narrow 0 (dispatch_export_json (eg_export e))"
    using ledger_size by (auto simp: sized_def Let_def)
qed

lemma kept_validates:
  assumes "kept H U e"
  shows "reconstruct H U (dispatch_export_json (eg_export e)) = Inr e" "validate_ledger H U (dispatch_export_json (eg_export e)) = Inr (eg_export e)"
  using reconstruct_export [OF keptD(1) [OF assms]] lives_validates [OF keptD(1) [OF assms]]
    canonical_text_ok [OF kept_encodes(2) [OF assms] kept_encodes(1) [OF assms]] by blast+

lemma apply_request_kept:
  assumes k: "kept H U e" and q: "dispatch_ok q" and h: "hashes H"
  shows "apply_request H U (Some (eg_export e)) q = bindE (push H U q (Some e)) (\<lambda>(e', r). Inr (eg_export e', r))"
proof -
  have "detach EXPORT_BYTES (dispatch_export_json (eg_export e')) = Inr (sort_keys (dispatch_export_json (eg_export e')))"
    if "push H U q (Some e) = Inr (e', r)" for e' r
    using kept_encodes [OF push_kept [OF that q h]] k by (intro detach_ok) auto
  then show ?thesis
    by (cases "push H U q (Some e)") (auto simp: apply_request_def kept_validates(1) [OF k] validate_dispatch_json(1) [OF q])
qed

lemma apply_request_new:
  assumes q: "dispatch_ok q" and h: "hashes H"
  shows "apply_request H U None q = bindE (push H U q None) (\<lambda>(e', r). Inr (eg_export e', r))"
proof -
  have "detach EXPORT_BYTES (dispatch_export_json (eg_export e')) = Inr (sort_keys (dispatch_export_json (eg_export e')))"
    if "push H U q None = Inr (e', r)" for e' r
    using kept_encodes [OF push_kept [OF that q h]] by (intro detach_ok) auto
  then show ?thesis
    by (cases "push H U q None") (auto simp: apply_request_def validate_dispatch_json(1) [OF q])
qed

end
