(* ===== verification/DispatchStore.thy ===== *)
theory DispatchStore
  imports DispatchExact
begin

text \<open>
  The store of the dispatch ledger (\<open>secure_agent/engagement_dispatch_store.py\<close>): its tables with
  their constraints, the checked snapshot, and the transactions of the public operations. As in the
  store of the engagement record, a text column that holds JSON is the value it denotes, and what
  the clock, the files and SQLite answer during one call is \<open>store_env\<close>, whose faults carry the
  public code the code maps them to. A violated constraint is a failed statement.
\<close>

section \<open>Tables\<close>

record session_entry =
  se_session :: string
  se_owner :: string
  se_revision :: int
  se_generation :: int
  se_cell :: pyval

record reservation_entry =
  re_dispatch :: string
  re_session :: string
  re_slot :: string
  re_broker :: string
  re_consume :: int
  re_writer :: string
  re_audit :: int
  re_cell :: pyval

record event_entry =
  ee_sequence :: int
  ee_event :: string
  ee_sha256 :: string
  ee_request :: pyval
  ee_receipt :: pyval

record metadata_entry =
  me_engagement :: string
  me_revision :: int
  me_generation :: int
  me_status :: string
  me_last :: int
  me_usage :: usage
  me_high :: "int option"

record dispatch_db =
  dd_revisions :: "(int \<times> pyval \<times> string) list"
  dd_metadata :: "metadata_entry list"
  dd_sessions :: "session_entry list"
  dd_reservations :: "reservation_entry list"
  dd_completions :: "(string \<times> pyval) list"
  dd_events :: "event_entry list"

definition empty_ledger :: dispatch_db where
  "empty_ledger = \<lparr>dd_revisions = [], dd_metadata = [], dd_sessions = [], dd_reservations = [], dd_completions = [], dd_events = []\<rparr>"

definition ledger_unavailable :: string where "ledger_unavailable = dcode ''store_unavailable''"
definition ledger_invalid :: string where "ledger_invalid = dcode ''store_invalid''"

definition cell_fits :: "pyval \<Rightarrow> nat \<Rightarrow> bool" where
  "cell_fits v maximum \<longleftrightarrow> 1 \<le> length (canonical v) \<and> length (canonical v) \<le> maximum"

definition put_revision :: "int \<Rightarrow> roe \<times> string \<Rightarrow> dispatch_db \<Rightarrow> string + dispatch_db" where
  "put_revision n row db =
    bindE (canonical_text (roe_json (fst row))) (\<lambda>_.
    bindE (require (1 \<le> n \<and> n \<le> 64 \<and> n \<notin> fst ` set (dd_revisions db) \<and> cell_fits (roe_json (fst row)) 4096 \<and> length (snd row) = 64)
      ledger_unavailable) (\<lambda>_.
    Inr (db\<lparr>dd_revisions := dd_revisions db @ [(n, sort_keys (roe_json (fst row)), snd row)]\<rparr>)))"

definition put_session :: "session_row \<Rightarrow> dispatch_db \<Rightarrow> string + dispatch_db" where
  "put_session w db =
    bindE (canonical_text (session_row_json w)) (\<lambda>_.
    bindE (require (length (sw_session w) = 36 \<and> sw_session w \<notin> se_session ` set (dd_sessions db) \<and> length (sw_owner w) = 36
       \<and> sw_revision w \<in> fst ` set (dd_revisions db) \<and> 1 \<le> sw_revision w \<and> sw_revision w \<le> 64 \<and> 0 \<le> sw_generation w
       \<and> sw_generation w \<le> 64 \<and> cell_fits (session_row_json w) 4096) ledger_unavailable) (\<lambda>_.
    Inr (db\<lparr>dd_sessions := dd_sessions db @ [\<lparr>se_session = sw_session w, se_owner = sw_owner w, se_revision = sw_revision w,
      se_generation = sw_generation w, se_cell = sort_keys (session_row_json w)\<rparr>]\<rparr>)))"

definition put_reservation :: "reservation_row \<Rightarrow> dispatch_db \<Rightarrow> string + dispatch_db" where
  "put_reservation r db =
    bindE (canonical_text (reservation_row_json r)) (\<lambda>_.
    bindE (require (length (rw_dispatch r) = 36 \<and> rw_dispatch r \<notin> re_dispatch ` set (dd_reservations db)
       \<and> length (rw_session r) = 36 \<and> rw_session r \<in> se_session ` set (dd_sessions db)
       \<and> length (rf_owner (rw_approval r)) = 36 \<and> 1 \<le> rf_sequence (rw_approval r) \<and> rf_sequence (rw_approval r) \<le> 32
       \<and> length (rf_owner (rw_audit r)) = 36 \<and> 1 \<le> rf_sequence (rw_audit r) \<and> rf_sequence (rw_audit r) \<le> 1024
       \<and> cell_fits (reservation_row_json r) 8192
       \<and> (rw_session r, slot_name (rw_slot r)) \<notin> (\<lambda>x. (re_session x, re_slot x)) ` set (dd_reservations db)
       \<and> (rf_owner (rw_approval r), rf_sequence (rw_approval r)) \<notin> (\<lambda>x. (re_broker x, re_consume x)) ` set (dd_reservations db)
       \<and> (rf_owner (rw_audit r), rf_sequence (rw_audit r)) \<notin> (\<lambda>x. (re_writer x, re_audit x)) ` set (dd_reservations db))
      ledger_unavailable) (\<lambda>_.
    Inr (db\<lparr>dd_reservations := dd_reservations db @ [\<lparr>re_dispatch = rw_dispatch r, re_session = rw_session r,
      re_slot = slot_name (rw_slot r), re_broker = rf_owner (rw_approval r), re_consume = rf_sequence (rw_approval r),
      re_writer = rf_owner (rw_audit r), re_audit = rf_sequence (rw_audit r), re_cell = sort_keys (reservation_row_json r)\<rparr>]\<rparr>)))"

definition put_completion :: "completion_row \<Rightarrow> dispatch_db \<Rightarrow> string + dispatch_db" where
  "put_completion c db =
    bindE (canonical_text (completion_row_json c)) (\<lambda>_.
    bindE (require (length (cw_dispatch c) = 36 \<and> cw_dispatch c \<notin> fst ` set (dd_completions db)
       \<and> cw_dispatch c \<in> re_dispatch ` set (dd_reservations db) \<and> cell_fits (completion_row_json c) 4096) ledger_unavailable) (\<lambda>_.
    Inr (db\<lparr>dd_completions := dd_completions db @ [(cw_dispatch c, sort_keys (completion_row_json c))]\<rparr>)))"

definition put_event :: "dispatch_event \<Rightarrow> dispatch_db \<Rightarrow> string + dispatch_db" where
  "put_event v db =
    bindE (canonical_text (dispatch_json (de_request v))) (\<lambda>_.
    bindE (canonical_text (dispatch_receipt_json (de_receipt v))) (\<lambda>_.
    bindE (require (1 \<le> de_sequence v \<and> de_sequence v \<le> 257 \<and> de_sequence v \<notin> ee_sequence ` set (dd_events db)
       \<and> length (dq_event (de_request v)) = 36 \<and> dq_event (de_request v) \<notin> ee_event ` set (dd_events db)
       \<and> length (de_request_sha256 v) = 64 \<and> cell_fits (dispatch_json (de_request v)) 8192
       \<and> cell_fits (dispatch_receipt_json (de_receipt v)) 4096) ledger_unavailable) (\<lambda>_.
    Inr (db\<lparr>dd_events := dd_events db @ [\<lparr>ee_sequence = de_sequence v, ee_event = dq_event (de_request v), ee_sha256 = de_request_sha256 v,
      ee_request = sort_keys (dispatch_json (de_request v)), ee_receipt = sort_keys (dispatch_receipt_json (de_receipt v))\<rparr>]\<rparr>))))"

definition metadata_of :: "dispatch_export \<Rightarrow> metadata_entry" where
  "metadata_of x = (let s = dx_state x in \<lparr>me_engagement = dx_engagement x, me_revision = ds_revision s, me_generation = ds_generation s,
     me_status = status_name (ds_revoked s), me_last = ds_last s, me_usage = ds_usage s, me_high = ds_high s\<rparr>)"

definition metadata_fits :: "metadata_entry \<Rightarrow> dispatch_db \<Rightarrow> bool" where
  "metadata_fits m db \<longleftrightarrow> length (me_engagement m) = 36 \<and> me_revision m \<in> fst ` set (dd_revisions db) \<and> 1 \<le> me_revision m \<and> me_revision m \<le> 64
     \<and> 0 \<le> me_generation m \<and> me_generation m \<le> 64 \<and> me_status m \<in> {''recorded'', ''revoked''} \<and> 1 \<le> me_last m \<and> me_last m \<le> 257
     \<and> list_all2 (\<lambda>i high. 0 \<le> i \<and> i \<le> high) (usage_list (me_usage m)) [64, 256, 1048576, 1048576, 86400000]
     \<and> (case me_high m of None \<Rightarrow> True | Some h \<Rightarrow> UTC_MIN \<le> h \<and> h \<le> UTC_MAX)"

definition put_metadata :: "bool \<Rightarrow> metadata_entry \<Rightarrow> dispatch_db \<Rightarrow> string + dispatch_db" where
  "put_metadata initial m db = bindE (require ((dd_metadata db = []) = initial \<and> metadata_fits m db) ledger_unavailable) (\<lambda>_.
     Inr (db\<lparr>dd_metadata := [m]\<rparr>))"

fun put_all :: "('a \<Rightarrow> dispatch_db \<Rightarrow> string + dispatch_db) \<Rightarrow> 'a list \<Rightarrow> dispatch_db \<Rightarrow> string + dispatch_db" where
  "put_all put [] db = Inr db"
| "put_all put (row # rows) db = bindE (put row db) (put_all put rows)"

fun put_revisions :: "int \<Rightarrow> (roe \<times> string) list \<Rightarrow> dispatch_db \<Rightarrow> string + dispatch_db" where
  "put_revisions n [] db = Inr db"
| "put_revisions n (row # rows) db = bindE (put_revision n row db) (put_revisions (n + 1) rows)"

text \<open>The rows that a transition appended.\<close>

definition persist :: "dispatch_export option \<Rightarrow> dispatch_export \<Rightarrow> dispatch_db \<Rightarrow> string + dispatch_db" where
  "persist before after db = (let start = (\<lambda>f. case before of None \<Rightarrow> 0 | Some x \<Rightarrow> f x);
      known = start (\<lambda>x. length (dx_revisions x)) in
    bindE (put_revisions (int known + 1) (drop known (dx_revisions after)) db) (\<lambda>db.
    bindE (put_all put_session (drop (start (\<lambda>x. length (dx_sessions x))) (dx_sessions after)) db) (\<lambda>db.
    bindE (put_all put_reservation (drop (start (\<lambda>x. length (dx_reservations x))) (dx_reservations after)) db) (\<lambda>db.
    bindE (put_all put_completion (drop (start (\<lambda>x. length (dx_completions x))) (dx_completions after)) db) (\<lambda>db.
    bindE (put_metadata (before = None) (metadata_of after) db) (\<lambda>db.
    put_all put_event (drop (start (\<lambda>x. length (dx_events x))) (dx_events after)) db))))))"

section \<open>The checked snapshot\<close>

definition json_cell :: "pyval \<Rightarrow> nat \<Rightarrow> string + pyval" where
  "json_cell v maximum = bindE (canonical_text v) (\<lambda>_.
     bindE (require (sort_keys v = v \<and> cell_fits v maximum) ledger_invalid) (\<lambda>_. Inr v))"

definition read_revision :: "int \<times> pyval \<times> string \<Rightarrow> string + pyval" where
  "read_revision row = (case row of (n, value, sha) \<Rightarrow> bindE (json_cell value 4096) (\<lambda>value.
     Inr (PDict [(''revision'', PInt n), (''roe'', value), (''roe_sha256'', PStr sha)])))"

definition read_session :: "session_entry \<Rightarrow> string + pyval" where
  "read_session row = bindE (json_cell (se_cell row) 4096) (\<lambda>v.
     bindE (require (item v ''session_id'' = PStr (se_session row) \<and> item v ''owner_id'' = PStr (se_owner row)
       \<and> py_eq (item v ''revision'') (PInt (se_revision row)) \<and> py_eq (item v ''generation'') (PInt (se_generation row))) ledger_invalid) (\<lambda>_.
     Inr v))"

definition read_reservation :: "reservation_entry \<Rightarrow> string + pyval" where
  "read_reservation row = bindE (json_cell (re_cell row) 8192) (\<lambda>v.
     bindE (require (item v ''dispatch_id'' = PStr (re_dispatch row) \<and> item v ''session_id'' = PStr (re_session row)
       \<and> item v ''slot'' = PStr (re_slot row)
       \<and> item (item v ''approval'') ''broker_id'' = PStr (re_broker row) \<and> py_eq (item (item v ''approval'') ''consume_sequence'') (PInt (re_consume row))
       \<and> item (item v ''audit'') ''writer_id'' = PStr (re_writer row) \<and> py_eq (item (item v ''audit'') ''audit_sequence'') (PInt (re_audit row)))
       ledger_invalid) (\<lambda>_. Inr v))"

definition read_completion :: "string \<times> pyval \<Rightarrow> string + pyval" where
  "read_completion row = bindE (json_cell (snd row) 4096) (\<lambda>v.
     bindE (require (item v ''dispatch_id'' = PStr (fst row)) ledger_invalid) (\<lambda>_. Inr v))"

definition read_event :: "event_entry \<Rightarrow> string + pyval" where
  "read_event row = bindE (json_cell (ee_request row) 8192) (\<lambda>request.
     bindE (json_cell (ee_receipt row) 4096) (\<lambda>receipt.
     bindE (require (py_eq (item receipt ''sequence'') (PInt (ee_sequence row)) \<and> item receipt ''event_id'' = PStr (ee_event row)) ledger_invalid) (\<lambda>_.
     Inr (PDict [(''sequence'', PInt (ee_sequence row)), (''event_id'', PStr (ee_event row)), (''request'', request),
       (''request_sha256'', PStr (ee_sha256 row)), (''receipt'', receipt)]))))"

definition ledger_value :: "metadata_entry \<Rightarrow> pyval list \<Rightarrow> pyval list \<Rightarrow> pyval list \<Rightarrow> pyval list \<Rightarrow> pyval list \<Rightarrow> pyval" where
  "ledger_value m revisions sessions reservations completions events = PDict
    [(''schema_version'', PStr ''2''), (''kind'', PStr ''engagement_dispatch_ledger''), (''engagement_id'', PStr (me_engagement m)),
     (''state'', PDict [(''revision'', PInt (me_revision m)), (''generation'', PInt (me_generation m)), (''status'', PStr (me_status m)),
        (''last_sequence'', PInt (me_last m)), (''roe_sha256'', item (last revisions) ''roe_sha256''), (''usage'', usage_json (me_usage m)),
        (''utc_high_water_ns'', optional PInt (me_high m))]),
     (''revisions'', PList revisions), (''sessions'', PList sessions), (''reservations'', PList reservations),
     (''completions'', PList completions), (''events'', PList events)]"

definition read_ledger :: "(string \<Rightarrow> string) \<Rightarrow> (string \<Rightarrow> string) \<Rightarrow> string option \<Rightarrow> dispatch_db \<Rightarrow> string + dispatch_export" where
  "read_ledger H U engagement db = (case dd_metadata db of
     [m] \<Rightarrow>
      bindE (mapE read_revision (take 65 (sort_key fst (dd_revisions db)))) (\<lambda>revisions.
      bindE (mapE read_session (take 65 (dd_sessions db))) (\<lambda>sessions.
      bindE (mapE read_reservation (take 65 (dd_reservations db))) (\<lambda>reservations.
      bindE (mapE read_completion (take 65 (dd_completions db))) (\<lambda>completions.
      bindE (mapE read_event (take 258 (sort_key ee_sequence (dd_events db)))) (\<lambda>events.
      bindE (require (revisions \<noteq> []) ledger_invalid) (\<lambda>_.
      bindE (validate_ledger H U (ledger_value m revisions sessions reservations completions events)) (\<lambda>x.
      bindE (require (engagement = None \<or> engagement = Some (dx_engagement x)) ledger_invalid) (\<lambda>_. Inr x))))))))
   | _ \<Rightarrow> Inl ledger_invalid)"

text \<open>Every failure but a timeout becomes \<open>engagement_dispatch_store_invalid\<close>.\<close>

definition ledger_checked :: "(string \<Rightarrow> string) \<Rightarrow> (string \<Rightarrow> string) \<Rightarrow> string option \<Rightarrow> dispatch_db \<Rightarrow> string + dispatch_export" where
  "ledger_checked H U engagement db = (case read_ledger H U engagement db of
     Inl code \<Rightarrow> Inl (if code = dcode ''timeout'' then code else ledger_invalid) | Inr x \<Rightarrow> Inr x)"

section \<open>Transactions\<close>

record dispatch_store =
  dt_db :: dispatch_db
  dt_engagement :: "string option"
  dt_owner :: string
  dt_open :: bool
  dt_read_only :: bool
  dt_failed :: bool

definition LEDGER_POISON :: "string list" where
  "LEDGER_POISON = map dcode [''store_unavailable'', ''store_invalid'', ''timeout'', ''snapshot_changed'']"

definition taint :: "string \<Rightarrow> dispatch_store \<Rightarrow> dispatch_store" where
  "taint code st = (if code \<in> set LEDGER_POISON then st\<lparr>dt_failed := True\<rparr> else st)"

text \<open>Any other exception than the module's own fails the handle.\<close>

definition public_code :: "string \<Rightarrow> string" where
  "public_code code = (if take (length (dcode [])) code = dcode [] then code else ledger_unavailable)"

definition reported_as :: "string + 'a \<Rightarrow> string + 'a" where
  "reported_as m = (case m of Inl code \<Rightarrow> Inl (public_code code) | Inr x \<Rightarrow> Inr x)"

type_synonym 'a ledger_body = "dispatch_export \<Rightarrow> dispatch_db \<Rightarrow> string + ('a \<times> dispatch_db)"

text \<open>The after-state is read again only by a write.\<close>

definition ledger_inside :: "(string \<Rightarrow> string) \<Rightarrow> (string \<Rightarrow> string) \<Rightarrow> bool \<Rightarrow> store_env \<Rightarrow> dispatch_store \<Rightarrow> 'a ledger_body \<Rightarrow> string + ('a \<times> dispatch_db)" where
  "ledger_inside H U write env st body =
    bindE (fault (begin_fault env)) (\<lambda>_.
    bindE (ledger_checked H U (dt_engagement st) (dt_db st)) (\<lambda>before.
    bindE (body before (dt_db st)) (\<lambda>(x, db).
    bindE (if write then bindE (ledger_checked H U (dt_engagement st) db) (\<lambda>_. Inr ()) else Inr ()) (\<lambda>_.
    bindE (fault (check_fault env)) (\<lambda>_.
    bindE (fault (commit_fault env)) (\<lambda>_. Inr (x, db)))))))"

definition ledger_transaction :: "(string \<Rightarrow> string) \<Rightarrow> (string \<Rightarrow> string) \<Rightarrow> bool \<Rightarrow> store_env \<Rightarrow> dispatch_store \<Rightarrow> 'a ledger_body
    \<Rightarrow> (string + 'a) \<times> dispatch_store" where
  "ledger_transaction H U write env st body =
    (if \<not> same_process env then (Inl ledger_unavailable, st)
     else if dt_failed st \<or> \<not> dt_open st then (Inl ledger_unavailable, taint ledger_unavailable st)
     else if write \<and> dt_read_only st then (Inl (dcode ''read_only''), st)
     else case ledger_inside H U write env st body of
        Inl code \<Rightarrow> (Inl (public_code code), taint (public_code code) (if rollback_fault env then st\<lparr>dt_failed := True\<rparr> else st))
      | Inr (x, db) \<Rightarrow>
          let committed = st\<lparr>dt_db := db\<rparr> in
          case settle_fault env of None \<Rightarrow> (Inr x, committed)
          | Some code \<Rightarrow> (Inl (public_code code), taint (public_code code) (if rollback_fault env then committed\<lparr>dt_failed := True\<rparr> else committed)))"

section \<open>Operations\<close>

definition existing_event :: "(string \<Rightarrow> string) \<Rightarrow> dispatch_export \<Rightarrow> dispatch_request \<Rightarrow> string + dispatch_receipt option" where
  "existing_event H x q = (case find (\<lambda>v. dq_event (de_request v) = dq_event q) (dx_events x) of
     None \<Rightarrow> Inr None
   | Some v \<Rightarrow> bindE (require (de_request v = q) (dcode ''conflict'')) (\<lambda>_.
       bindE (dispatch_digest H (dispatch_json q)) (\<lambda>sha.
       bindE (require (de_request_sha256 v = sha) (dcode ''conflict'')) (\<lambda>_. Inr (Some (de_receipt v))))))"

fun claim_owner :: "claim \<Rightarrow> string option" where
  "claim_owner (Starting c) = Some (sl_owner c)" | "claim_owner (Reserving c) = Some (rv_owner c)"
| "claim_owner (Completing c) = Some (cp_owner c)" | "claim_owner _ = None"

text \<open>The answer of a mutation: whether the event was already recorded, and its receipt.\<close>

definition mutate_ledger :: "(string \<Rightarrow> string) \<Rightarrow> (string \<Rightarrow> string) \<Rightarrow> string \<Rightarrow> pyval \<Rightarrow> (bool \<times> dispatch_receipt) ledger_body" where
  "mutate_ledger H U owner value before db =
    bindE (validate_dispatch value) (\<lambda>q.
    bindE (existing_event H before q) (\<lambda>previous. case previous of
      Some r \<Rightarrow> Inr ((True, r), db)
    | None \<Rightarrow>
       bindE (require (claim_owner (dq_claim q) = None \<or> claim_owner (dq_claim q) = Some owner) (dcode ''foreign_owner'')) (\<lambda>_.
       bindE (apply_request H U (Some before) q) (\<lambda>(after, r).
       bindE (persist (Some before) after db) (\<lambda>db'.
       Inr ((False, r), db'))))))"

definition ledger_request :: "dispatch_store \<Rightarrow> string \<Rightarrow> pyval \<Rightarrow> pyval \<Rightarrow> pyval \<Rightarrow> pyval \<Rightarrow> pyval" where
  "ledger_request st operation body event revision generation = PDict [(''schema_version'', PStr ''2''),
     (''engagement_id'', optional PStr (dt_engagement st)), (''event_id'', event), (''operation'', PStr operation),
     (''expected_revision'', revision), (''expected_generation'', generation), (''body'', body)]"

definition submit_ledger :: "(string \<Rightarrow> string) \<Rightarrow> (string \<Rightarrow> string) \<Rightarrow> store_env \<Rightarrow> pyval \<Rightarrow> dispatch_store
    \<Rightarrow> (string + bool \<times> dispatch_receipt) \<times> dispatch_store" where
  "submit_ledger H U env value st = ledger_transaction H U True env st (mutate_ledger H U (dt_owner st) value)"

definition append_ledger_revision :: "(string \<Rightarrow> string) \<Rightarrow> (string \<Rightarrow> string) \<Rightarrow> store_env \<Rightarrow> pyval \<Rightarrow> pyval \<Rightarrow> pyval \<Rightarrow> pyval \<Rightarrow> dispatch_store
    \<Rightarrow> (string + bool \<times> dispatch_receipt) \<times> dispatch_store" where
  "append_ledger_revision H U env roe revision generation event st =
    submit_ledger H U env (ledger_request st ''revise'' roe event revision generation) st"

definition revoke_ledger :: "(string \<Rightarrow> string) \<Rightarrow> (string \<Rightarrow> string) \<Rightarrow> store_env \<Rightarrow> pyval \<Rightarrow> pyval \<Rightarrow> pyval \<Rightarrow> dispatch_store
    \<Rightarrow> (string + bool \<times> dispatch_receipt) \<times> dispatch_store" where
  "revoke_ledger H U env revision generation event st =
    submit_ledger H U env (ledger_request st ''revoke'' PNone event revision generation) st"

definition record_session :: "(string \<Rightarrow> string) \<Rightarrow> (string \<Rightarrow> string) \<Rightarrow> store_env \<Rightarrow> pyval \<Rightarrow> pyval \<Rightarrow> pyval \<Rightarrow> pyval \<Rightarrow> pyval \<Rightarrow> pyval \<Rightarrow> dispatch_store
    \<Rightarrow> (string + bool \<times> dispatch_receipt) \<times> dispatch_store" where
  "record_session H U env session clock deadline event revision generation st =
    submit_ledger H U env (ledger_request st ''session'' (PDict [(''session_id'', session), (''owner_id'', PStr (dt_owner st)), (''clock'', clock),
      (''original_deadline_ns'', deadline)]) event revision generation) st"

definition reserve_dispatch :: "(string \<Rightarrow> string) \<Rightarrow> (string \<Rightarrow> string) \<Rightarrow> store_env \<Rightarrow> pyval \<Rightarrow> pyval \<Rightarrow> pyval \<Rightarrow> pyval \<Rightarrow> pyval \<Rightarrow> pyval \<Rightarrow> pyval \<Rightarrow> pyval
    \<Rightarrow> pyval \<Rightarrow> dispatch_store \<Rightarrow> (string + bool \<times> dispatch_receipt) \<times> dispatch_store" where
  "reserve_dispatch H U env dispatch session slot approval audit clock event revision generation st =
    submit_ledger H U env (ledger_request st ''reserve'' (PDict [(''dispatch_id'', dispatch), (''session_id'', session),
      (''owner_id'', PStr (dt_owner st)), (''slot'', slot), (''approval'', approval), (''audit'', audit), (''clock'', clock)])
      event revision generation) st"

definition finish_dispatch :: "(string \<Rightarrow> string) \<Rightarrow> (string \<Rightarrow> string) \<Rightarrow> store_env \<Rightarrow> pyval \<Rightarrow> pyval \<Rightarrow> pyval \<Rightarrow> pyval \<Rightarrow> pyval \<Rightarrow> pyval \<Rightarrow> dispatch_store
    \<Rightarrow> (string + bool \<times> dispatch_receipt) \<times> dispatch_store" where
  "finish_dispatch H U env dispatch session reported observed clock event st =
    submit_ledger H U env (ledger_request st ''complete'' (PDict [(''dispatch_id'', dispatch), (''session_id'', session),
      (''owner_id'', PStr (dt_owner st)), (''outcome'', reported), (''observation'', observed), (''clock'', clock)]) event PNone PNone) st"

definition retry_event :: "(string \<Rightarrow> string) \<Rightarrow> (string \<Rightarrow> string) \<Rightarrow> store_env \<Rightarrow> pyval \<Rightarrow> dispatch_store
    \<Rightarrow> (string + bool \<times> dispatch_receipt) \<times> dispatch_store" where
  "retry_event H U env value st = ledger_transaction H U False env st (\<lambda>before db.
     bindE (validate_dispatch value) (\<lambda>q.
     bindE (existing_event H before q) (\<lambda>previous. case previous of
       None \<Rightarrow> Inl (dcode ''event_unknown'') | Some r \<Rightarrow> Inr ((True, r), db))))"

definition ledger_snapshot :: "(string \<Rightarrow> string) \<Rightarrow> (string \<Rightarrow> string) \<Rightarrow> store_env \<Rightarrow> dispatch_store \<Rightarrow> (string + dispatch_export) \<times> dispatch_store" where
  "ledger_snapshot H U env st = ledger_transaction H U False env st (\<lambda>before db. Inr (before, db))"

definition ledger_receipt :: "(string \<Rightarrow> string) \<Rightarrow> (string \<Rightarrow> string) \<Rightarrow> store_env \<Rightarrow> pyval \<Rightarrow> dispatch_store
    \<Rightarrow> (string + dispatch_receipt) \<times> dispatch_store" where
  "ledger_receipt H U env event st =
    (if \<not> same_process env then (Inl ledger_unavailable, st)
     else case uuid_field event of Inl code \<Rightarrow> (Inl code, st)
     | Inr eid \<Rightarrow> ledger_transaction H U False env st (\<lambda>before db.
         case find (\<lambda>v. dq_event (de_request v) = eid) (dx_events before) of
           None \<Rightarrow> Inl (dcode ''event_unknown'') | Some v \<Rightarrow> Inr (de_receipt v, db)))"

section \<open>Opening\<close>

definition create_ledger :: "(string \<Rightarrow> string) \<Rightarrow> (string \<Rightarrow> string) \<Rightarrow> store_env \<Rightarrow> string \<Rightarrow> pyval \<Rightarrow> pyval \<Rightarrow> pyval \<Rightarrow> string + dispatch_store" where
  "create_ledger H U env owner engagement event roe = reported_as
   (bindE (validate_dispatch (PDict [(''schema_version'', PStr ''2''), (''engagement_id'', engagement), (''event_id'', event),
      (''operation'', PStr ''create''), (''expected_revision'', PNone), (''expected_generation'', PNone), (''body'', roe)])) (\<lambda>q.
    bindE (fault (begin_fault env)) (\<lambda>_.
    bindE (apply_request H U None q) (\<lambda>(after, r).
    bindE (persist None after empty_ledger) (\<lambda>db.
    bindE (ledger_checked H U None db) (\<lambda>x.
    bindE (fault (check_fault env)) (\<lambda>_.
    bindE (fault (commit_fault env)) (\<lambda>_.
    bindE (fault (settle_fault env)) (\<lambda>_.
    Inr \<lparr>dt_db = db, dt_engagement = Some (dx_engagement x), dt_owner = owner, dt_open = True, dt_read_only = False, dt_failed = False\<rparr>)))))))))"

definition open_ledger :: "(string \<Rightarrow> string) \<Rightarrow> (string \<Rightarrow> string) \<Rightarrow> store_env \<Rightarrow> string \<Rightarrow> bool \<Rightarrow> dispatch_db \<Rightarrow> string + dispatch_store" where
  "open_ledger H U env owner read_only db =
    (let st = \<lparr>dt_db = db, dt_engagement = None, dt_owner = owner, dt_open = True, dt_read_only = read_only, dt_failed = False\<rparr> in
     reported_as (bindE (ledger_inside H U False env st (\<lambda>before db. Inr (before, db))) (\<lambda>(x, db).
     bindE (fault (settle_fault env)) (\<lambda>_. Inr (st\<lparr>dt_engagement := Some (dx_engagement x)\<rparr>)))))"

definition close_ledger :: "store_env \<Rightarrow> dispatch_store \<Rightarrow> (string + unit) \<times> dispatch_store" where
  "close_ledger env st =
    (if \<not> same_process env then (Inl ledger_unavailable, st)
     else case begin_fault env of Some code \<Rightarrow> (Inl code, st)
     | None \<Rightarrow> (fault (settle_fault env), st\<lparr>dt_open := False, dt_failed := True\<rparr>))"

end
