(* ===== verification/DispatchTables.thy ===== *)
theory DispatchTables
  imports DispatchStore
begin

text \<open>
  The tables of a dispatch ledger: the checked snapshot reads back the export they were written
  from, and what a transition appends satisfies every constraint.
\<close>

section \<open>Columns\<close>

text \<open>What the columns of the tables repeat of the export.\<close>

definition columns :: "(string \<Rightarrow> string) \<Rightarrow> dispatch_export \<Rightarrow> bool" where
  "columns H x \<longleftrightarrow> map de_sequence (dx_events x) = [1..int (length (dx_events x))]
     \<and> distinct (map (\<lambda>v. dq_event (de_request v)) (dx_events x))
     \<and> list_all (\<lambda>v. dr_sequence (de_receipt v) = de_sequence v \<and> dr_event (de_receipt v) = dq_event (de_request v)
         \<and> de_request_sha256 v = H (DISPATCH_REQUEST_DOMAIN @ canonical (dispatch_json (de_request v)))) (dx_events x)
     \<and> ds_last (dx_state x) = int (length (dx_events x)) \<and> ds_roe_sha256 (dx_state x) = snd (last (dx_revisions x))
     \<and> (\<forall>h. ds_high (dx_state x) = Some h \<longrightarrow> UTC_MIN \<le> h \<and> h \<le> UTC_MAX)"

lemma stamp_event:
  assumes "stamp H q e = Inr (e', r)"
  shows "\<exists>event. dx_events (eg_export e') = dx_events (eg_export e) @ [event] \<and> de_request event = q \<and> de_receipt event = r
    \<and> de_sequence event = int (length (dx_events (eg_export e))) + 1 \<and> dr_sequence r = de_sequence event \<and> dr_event r = dq_event q
    \<and> de_request_sha256 event = H (DISPATCH_REQUEST_DOMAIN @ canonical (dispatch_json q))
    \<and> ds_last (dx_state (eg_export e')) = de_sequence event \<and> ds_roe_sha256 (dx_state (eg_export e')) = ds_roe_sha256 (dx_state (eg_export e))"
proof -
  let ?e = "number_event (observe_clock (dq_claim q) e)"
  obtain raw body where raw: "canonical_text (state_json (state_at ?e)) = Inr raw" "canonical_text (dispatch_json q) = Inr body"
    and r: "r = receipt_for q (H (STATE_DOMAIN @ raw)) (eg_export ?e)"
    and e': "e' = ?e\<lparr>eg_export := (eg_export ?e)\<lparr>dx_events := dx_events (eg_export ?e) @
      [\<lparr>de_sequence = ds_last (state_at ?e), de_request_sha256 = H (DISPATCH_REQUEST_DOMAIN @ body), de_request = q, de_receipt = r\<rparr>]\<rparr>,
      eg_events := eg_events ?e @ [dq_event q]\<rparr>"
    using assms unfolding stamp_def Let_def bindE_Inr by auto
  have b: "body = canonical (dispatch_json q)" using raw(2) by (auto simp: canonical_text_def Let_def res_simps)
  have o: "ds_roe_sha256 (dx_state (eg_export (observe_clock c e))) = ds_roe_sha256 (dx_state (eg_export e))" for c
    by (auto simp: observe_clock_def Let_def state_at_def split: option.splits)
  show ?thesis
    by (rule exI [of _ "\<lparr>de_sequence = ds_last (state_at ?e), de_request_sha256 = H (DISPATCH_REQUEST_DOMAIN @ body), de_request = q, de_receipt = r\<rparr>"])
      (simp add: e' r b receipt_for_def Let_def number_event_def observed_events state_at_def o)
qed

lemma noted_range:
  assumes "\<forall>h. high = Some h \<longrightarrow> UTC_MIN \<le> h \<and> h \<le> UTC_MAX" and "claim_ok c"
  shows "\<forall>h. noted_high c high = Some h \<longrightarrow> UTC_MIN \<le> h \<and> h \<le> UTC_MAX"
proof -
  have "UTC_MIN \<le> ck_utc k \<and> ck_utc k \<le> UTC_MAX" if "claim_clock c = Some k" for k
    using assms(2) that by (cases c) (auto simp: clock_ok_def)
  then show ?thesis using assms(1) by (auto simp: noted_high_def split: option.splits)
qed

lemma reserve_slot_state:
  assumes "reserve_slot H U c e = Inr e'"
  shows "ds_high (dx_state (eg_export e')) = ds_high (dx_state (eg_export e))" "ds_roe_sha256 (dx_state (eg_export e')) = ds_roe_sha256 (dx_state (eg_export e))"
  using assms by (auto elim!: reserve_slot_Inr simp: add_reservation_def dest!: cached_action_export)

lemma revise_roe_state:
  assumes "revise_roe H r e = Inr e'"
  shows "ds_high (dx_state (eg_export e')) = ds_high (dx_state (eg_export e))"
    "ds_roe_sha256 (dx_state (eg_export e')) = snd (last (dx_revisions (eg_export e')))"
  using assms by (auto simp: revise_roe_def Let_def res_simps state_at_def)

lemma transit_state:
  assumes t: "transit H U c e = Inr e'" and i: "indexed e"
  shows "ds_high (dx_state (eg_export e')) = ds_high (dx_state (eg_export e))"
    "ds_roe_sha256 (dx_state (eg_export e)) = snd (last (dx_revisions (eg_export e))) \<Longrightarrow>
      ds_roe_sha256 (dx_state (eg_export e')) = snd (last (dx_revisions (eg_export e')))"
proof -
  have "ds_high (dx_state (eg_export e')) = ds_high (dx_state (eg_export e))
      \<and> (ds_roe_sha256 (dx_state (eg_export e)) = snd (last (dx_revisions (eg_export e))) \<longrightarrow>
        ds_roe_sha256 (dx_state (eg_export e')) = snd (last (dx_revisions (eg_export e'))))"
  proof (cases c)
    case (Starting d)
    then show ?thesis using start_session_rows(3,6) [of H d e e'] t i by (simp add: transit_def)
  next
    case (Reserving d)
    then show ?thesis using reserve_slot_state [of H U d e e'] reserve_slot_rows(3) [of H U d e e'] t i by (simp add: transit_def)
  next
    case (Completing d)
    then show ?thesis using complete_dispatch_rows(3,6) [of d e e'] t i by (simp add: transit_def)
  next
    case (Revising r)
    then show ?thesis using revise_roe_state [of H r e e'] t by (simp add: transit_def)
  qed (use t in \<open>auto simp: transit_def revoke_all_def state_at_def\<close>)
  then show "ds_high (dx_state (eg_export e')) = ds_high (dx_state (eg_export e))"
    "ds_roe_sha256 (dx_state (eg_export e)) = snd (last (dx_revisions (eg_export e))) \<Longrightarrow>
      ds_roe_sha256 (dx_state (eg_export e')) = snd (last (dx_revisions (eg_export e')))" by blast+
qed

lemma upto_snoc: "[1..int n] @ [int n + 1] = [1..int (Suc n)]"
  using upto_rec2 [of 1 "int n + 1"] by (simp only: of_nat_Suc) (simp add: add.commute)

lemma push_columns:
  assumes p: "push H U q current = Inr (e', r)" and q: "dispatch_ok q"
    and k: "\<And>e. current = Some e \<Longrightarrow> indexed e \<and> columns H (eg_export e)"
  shows "columns H (eg_export e')"
  using p
proof (cases rule: push_Inr)
  case (first roe e0)
  then have z: "dx_events (eg_export e0) = []" "ds_roe_sha256 (dx_state (eg_export e0)) = snd (last (dx_revisions (eg_export e0)))"
    "ds_high (state_at e0) = None"
    by (auto simp: open_engine_def res_simps state_at_def)
  have "noted_high (dq_claim q) None = None" using first(2) by (simp add: noted_high_def)
  then show ?thesis
    using stamp_event [OF first(4)] stamp_rows(3) [OF first(4)] stamp_clocks(2) [OF first(4)] z
    by (auto simp: columns_def state_at_def)
next
  case (later e e0)
  note adv = advance_engine_Inr [OF later(3)]
  have i: "indexed e" and c: "columns H (eg_export e)" using k [OF later(1)] by auto
  have log: "dx_events (eg_export e0) = dx_events (eg_export e)" using transit_log [OF adv(4) i] by (simp add: same_log_def)
  obtain event where ev: "dx_events (eg_export e') = dx_events (eg_export e) @ [event]" "de_request event = q" "de_receipt event = r"
    "de_sequence event = int (length (dx_events (eg_export e))) + 1" "dr_sequence r = de_sequence event" "dr_event r = dq_event q"
    "de_request_sha256 event = H (DISPATCH_REQUEST_DOMAIN @ canonical (dispatch_json q))"
    "ds_last (dx_state (eg_export e')) = de_sequence event" "ds_roe_sha256 (dx_state (eg_export e')) = ds_roe_sha256 (dx_state (eg_export e0))"
    using stamp_event [OF later(4)] log by auto
  have seqs: "map de_sequence (dx_events (eg_export e)) = [1..int (length (dx_events (eg_export e)))]"
    and ids: "distinct (map (\<lambda>v. dq_event (de_request v)) (dx_events (eg_export e)))"
    and cells: "list_all (\<lambda>v. dr_sequence (de_receipt v) = de_sequence v \<and> dr_event (de_receipt v) = dq_event (de_request v)
       \<and> de_request_sha256 v = H (DISPATCH_REQUEST_DOMAIN @ canonical (dispatch_json (de_request v)))) (dx_events (eg_export e))"
    using c unfolding columns_def by blast+
  have fresh: "dq_event q \<notin> set (map (\<lambda>v. dq_event (de_request v)) (dx_events (eg_export e)))"
    using later(2) unfolding indexedD(1) [OF i] .
  have hh: "\<forall>h. ds_high (dx_state (eg_export e')) = Some h \<longrightarrow> UTC_MIN \<le> h \<and> h \<le> UTC_MAX"
  proof -
    have eq: "ds_high (dx_state (eg_export e')) = noted_high (dq_claim q) (ds_high (dx_state (eg_export e)))"
      using stamp_clocks(2) [OF later(4)] transit_state(1) [OF adv(4) i] by (simp add: state_at_def)
    have old: "\<forall>h. ds_high (dx_state (eg_export e)) = Some h \<longrightarrow> UTC_MIN \<le> h \<and> h \<le> UTC_MAX" using c unfolding columns_def by blast
    have k: "claim_ok (dq_claim q)" using q unfolding dispatch_ok_def by blast
    show ?thesis unfolding eq by (rule noted_range [OF old k])
  qed
  have rr: "ds_roe_sha256 (dx_state (eg_export e')) = snd (last (dx_revisions (eg_export e')))"
    unfolding ev(9) stamp_rows(3) [OF later(4)] using c transit_state(2) [OF adv(4) i] unfolding columns_def by blast
  have "map de_sequence (dx_events (eg_export e')) = [1..int (length (dx_events (eg_export e')))]"
    unfolding ev(1) map_append seqs length_append list.map ev(4) upto_snoc by simp
  moreover have "distinct (map (\<lambda>v. dq_event (de_request v)) (dx_events (eg_export e')))"
    unfolding ev(1) map_append distinct_append using ids fresh ev(2) by simp
  moreover have "list_all (\<lambda>v. dr_sequence (de_receipt v) = de_sequence v \<and> dr_event (de_receipt v) = dq_event (de_request v)
       \<and> de_request_sha256 v = H (DISPATCH_REQUEST_DOMAIN @ canonical (dispatch_json (de_request v)))) (dx_events (eg_export e'))"
    unfolding ev(1) list_all_append using cells ev(2,3,5,6,7) by simp
  moreover have "ds_last (dx_state (eg_export e')) = int (length (dx_events (eg_export e')))" unfolding ev(1,8) using ev(4) by simp
  ultimately show ?thesis unfolding columns_def using hh rr by blast
qed

lemma replay_columns:
  "replay_events H U vs current = Inr (Some e) \<Longrightarrow> (\<And>e. current = Some e \<Longrightarrow> engine_fine H U e \<and> columns H (eg_export e)) \<Longrightarrow> columns H (eg_export e)"
proof (induction vs arbitrary: current)
  case (Cons v vs)
  then obtain q e1 r where p: "validate_dispatch (item v ''request'') = Inr q" "push H U q current = Inr (e1, r)"
    and rest: "replay_events H U vs (Some e1) = Inr (Some e)"
    by (auto simp: res_simps)
  have "engine_fine H U e1" using push_fine [OF _ p(2)] Cons.prems(2) by blast
  moreover have "columns H (eg_export e1)"
    using push_columns [OF p(2) validate_dispatch_ok [OF p(1)]] Cons.prems(2) by (simp add: engine_fine_def)
  ultimately show ?case using Cons.IH [OF rest] by blast
qed simp

lemma reconstruct_columns: "reconstruct H U v = Inr e \<Longrightarrow> columns H (eg_export e)"
  unfolding reconstruct_def Let_def by (auto simp: res_simps split: option.splits intro: replay_columns)

section \<open>The tables of an export\<close>

definition session_cell :: "session_row \<Rightarrow> session_entry" where
  "session_cell w = \<lparr>se_session = sw_session w, se_owner = sw_owner w, se_revision = sw_revision w,
      se_generation = sw_generation w, se_cell = sort_keys (session_row_json w)\<rparr>"

definition reservation_cell :: "reservation_row \<Rightarrow> reservation_entry" where
  "reservation_cell r = \<lparr>re_dispatch = rw_dispatch r, re_session = rw_session r,
      re_slot = slot_name (rw_slot r), re_broker = rf_owner (rw_approval r), re_consume = rf_sequence (rw_approval r),
      re_writer = rf_owner (rw_audit r), re_audit = rf_sequence (rw_audit r), re_cell = sort_keys (reservation_row_json r)\<rparr>"

definition completion_cell :: "completion_row \<Rightarrow> string \<times> pyval" where
  "completion_cell c = (cw_dispatch c, sort_keys (completion_row_json c))"

definition event_cell :: "dispatch_event \<Rightarrow> event_entry" where
  "event_cell v = \<lparr>ee_sequence = de_sequence v, ee_event = dq_event (de_request v), ee_sha256 = de_request_sha256 v,
      ee_request = sort_keys (dispatch_json (de_request v)), ee_receipt = sort_keys (dispatch_receipt_json (de_receipt v))\<rparr>"

definition tables :: "metadata_entry list \<Rightarrow> (roe \<times> string) list \<Rightarrow> session_row list \<Rightarrow> reservation_row list \<Rightarrow> completion_row list
    \<Rightarrow> dispatch_event list \<Rightarrow> dispatch_db" where
  "tables m rs ws ps cs vs = \<lparr>dd_revisions = revision_rows 1 rs, dd_metadata = m, dd_sessions = map session_cell ws,
     dd_reservations = map reservation_cell ps, dd_completions = map completion_cell cs, dd_events = map event_cell vs\<rparr>"

definition ledger_db :: "dispatch_export \<Rightarrow> dispatch_db" where
  "ledger_db x = tables [metadata_of x] (dx_revisions x) (dx_sessions x) (dx_reservations x) (dx_completions x) (dx_events x)"

lemma cell_ok:
  assumes "narrow 0 v" and "len v \<le> b" and "b \<le> EXPORT_BYTES"
  shows "canonical_text v = Inr (canonical v)" "b \<le> int n \<Longrightarrow> cell_fits v n" "b \<le> int n \<Longrightarrow> json_cell (sort_keys v) n = Inr (sort_keys v)"
proof -
  show c: "canonical_text v = Inr (canonical v)" using assms by (intro canonical_text_ok) auto
  have "1 \<le> length (dumps w)" for w by (cases w) (use show_int_nonempty in \<open>simp_all add: json_string_def\<close>)
  then have p: "1 \<le> length (canonical v)" by (simp add: canonical_def)
  show f: "cell_fits v n" if "b \<le> int n" using assms(2) that p by (simp add: cell_fits_def length_canonical len_def)
  have "canonical_text (sort_keys v) = Inr (canonical v)" using assms canonical_text_ok [of "sort_keys v"] by simp
  then show "json_cell (sort_keys v) n = Inr (sort_keys v)" if "b \<le> int n" using f [OF that] by (simp add: json_cell_def cell_fits_def)
qed

lemma roe_cell: "roe_ok r \<Longrightarrow> canonical_text (roe_json r) = Inr (canonical (roe_json r))" "roe_ok r \<Longrightarrow> cell_fits (roe_json r) 4096"
  "roe_ok r \<Longrightarrow> json_cell (sort_keys (roe_json r)) 4096 = Inr (sort_keys (roe_json r))"
  using cell_ok [OF narrow_roe [of r 0] roe_len [of r]] by (simp_all add: EXPORT_BYTES_def)

lemma session_text: "session_plain w \<Longrightarrow> canonical_text (session_row_json w) = Inr (canonical (session_row_json w))"
  "session_plain w \<Longrightarrow> cell_fits (session_row_json w) 4096" "session_plain w \<Longrightarrow> json_cell (sort_keys (session_row_json w)) 4096 = Inr (sort_keys (session_row_json w))"
  using cell_ok [OF session_size(2) [of w 0] session_size(1) [of w]] by (simp_all add: EXPORT_BYTES_def DEPTH_LIMIT_def)

lemma reservation_text: "reservation_plain w \<Longrightarrow> canonical_text (reservation_row_json w) = Inr (canonical (reservation_row_json w))"
  "reservation_plain w \<Longrightarrow> cell_fits (reservation_row_json w) 8192"
  "reservation_plain w \<Longrightarrow> json_cell (sort_keys (reservation_row_json w)) 8192 = Inr (sort_keys (reservation_row_json w))"
  using cell_ok [OF reservation_size(2) [of w 0] reservation_size(1) [of w]] by (simp_all add: EXPORT_BYTES_def DEPTH_LIMIT_def)

lemma completion_text: "completion_plain w \<Longrightarrow> canonical_text (completion_row_json w) = Inr (canonical (completion_row_json w))"
  "completion_plain w \<Longrightarrow> cell_fits (completion_row_json w) 4096"
  "completion_plain w \<Longrightarrow> json_cell (sort_keys (completion_row_json w)) 4096 = Inr (sort_keys (completion_row_json w))"
  using cell_ok [OF completion_size(2) [of w 0] completion_size(1) [of w]] by (simp_all add: EXPORT_BYTES_def DEPTH_LIMIT_def)

lemma request_text: "dispatch_ok q \<Longrightarrow> canonical_text (dispatch_json q) = Inr (canonical (dispatch_json q))"
  "dispatch_ok q \<Longrightarrow> cell_fits (dispatch_json q) 8192" "dispatch_ok q \<Longrightarrow> json_cell (sort_keys (dispatch_json q)) 8192 = Inr (sort_keys (dispatch_json q))"
  using cell_ok [OF dispatch_size(2) [of q] dispatch_size(1) [of q]] by (simp_all add: EXPORT_BYTES_def)

lemma receipt_text: "receipt_plain r \<Longrightarrow> canonical_text (dispatch_receipt_json r) = Inr (canonical (dispatch_receipt_json r))"
  "receipt_plain r \<Longrightarrow> cell_fits (dispatch_receipt_json r) 4096"
  "receipt_plain r \<Longrightarrow> json_cell (sort_keys (dispatch_receipt_json r)) 4096 = Inr (sort_keys (dispatch_receipt_json r))"
  using cell_ok [OF receipt_size(2) [of r 0] receipt_size(1) [of r]] by (simp_all add: EXPORT_BYTES_def DEPTH_LIMIT_def)

section \<open>Reading back\<close>

lemma read_revision_rows:
  "list_all (\<lambda>p. roe_ok (fst p) \<and> is_hash (snd p)) rows \<Longrightarrow> mapE read_revision (revision_rows n rows) = Inr (sorted_values n rows)"
  by (induction rows arbitrary: n) (simp_all add: read_revision_def roe_cell)

lemma read_session_rows:
  "list_all session_plain ws \<Longrightarrow> mapE read_session (map session_cell ws) = Inr (map (\<lambda>w. sort_keys (session_row_json w)) ws)"
proof (induction ws)
  case (Cons w ws)
  have "item (session_row_json w) ''session_id'' = PStr (sw_session w)" "item (session_row_json w) ''owner_id'' = PStr (sw_owner w)"
    "item (session_row_json w) ''revision'' = PInt (sw_revision w)" "item (session_row_json w) ''generation'' = PInt (sw_generation w)"
    by (simp_all add: session_row_json_def item_PDict)
  then have "read_session (session_cell w) = Inr (sort_keys (session_row_json w))"
    using Cons.prems by (simp add: read_session_def session_cell_def session_text item_sort)
  then show ?case using Cons by simp
qed simp

lemma read_reservation_rows:
  "list_all reservation_plain ws \<Longrightarrow> mapE read_reservation (map reservation_cell ws) = Inr (map (\<lambda>w. sort_keys (reservation_row_json w)) ws)"
proof (induction ws)
  case (Cons r ws)
  have "item (reservation_row_json r) ''dispatch_id'' = PStr (rw_dispatch r)" "item (reservation_row_json r) ''session_id'' = PStr (rw_session r)"
    "item (reservation_row_json r) ''slot'' = PStr (slot_name (rw_slot r))" "item (reservation_row_json r) ''approval'' = approval_json (rw_approval r)"
    "item (reservation_row_json r) ''audit'' = audit_json (rw_audit r)"
    by (simp_all add: reservation_row_json_def item_PDict)
  moreover have "item (approval_json a) ''broker_id'' = PStr (rf_owner a)" "item (approval_json a) ''consume_sequence'' = PInt (rf_sequence a)"
    "item (audit_json a) ''writer_id'' = PStr (rf_owner a)" "item (audit_json a) ''audit_sequence'' = PInt (rf_sequence a)" for a
    by (simp_all add: approval_json_def audit_json_def item_PDict)
  ultimately have "read_reservation (reservation_cell r) = Inr (sort_keys (reservation_row_json r))"
    using Cons.prems by (simp add: read_reservation_def reservation_cell_def reservation_text item_sort)
  then show ?case using Cons by simp
qed simp

lemma read_completion_rows:
  "list_all completion_plain ws \<Longrightarrow> mapE read_completion (map completion_cell ws) = Inr (map (\<lambda>w. sort_keys (completion_row_json w)) ws)"
proof (induction ws)
  case (Cons c ws)
  have "item (completion_row_json c) ''dispatch_id'' = PStr (cw_dispatch c)" by (simp add: completion_row_json_def item_PDict)
  then have "read_completion (completion_cell c) = Inr (sort_keys (completion_row_json c))"
    using Cons.prems by (simp add: read_completion_def completion_cell_def completion_text item_sort)
  then show ?case using Cons by simp
qed simp

definition stored_event :: "dispatch_event \<Rightarrow> pyval" where
  "stored_event v = PDict [(''sequence'', PInt (de_sequence v)), (''event_id'', PStr (dq_event (de_request v))),
     (''request'', sort_keys (dispatch_json (de_request v))), (''request_sha256'', PStr (de_request_sha256 v)),
     (''receipt'', sort_keys (dispatch_receipt_json (de_receipt v)))]"

lemma read_event_rows:
  "list_all event_plain vs \<Longrightarrow> list_all (\<lambda>v. dr_sequence (de_receipt v) = de_sequence v \<and> dr_event (de_receipt v) = dq_event (de_request v) \<and> P v) vs
   \<Longrightarrow> mapE read_event (map event_cell vs) = Inr (map stored_event vs)"
proof (induction vs)
  case (Cons v vs)
  have "item (dispatch_receipt_json (de_receipt v)) ''sequence'' = PInt (dr_sequence (de_receipt v))"
    "item (dispatch_receipt_json (de_receipt v)) ''event_id'' = PStr (dr_event (de_receipt v))"
    by (simp_all add: dispatch_receipt_json_def item_PDict)
  then have "read_event (event_cell v) = Inr (stored_event v)"
    using Cons.prems by (simp add: read_event_def event_cell_def stored_event_def event_plain_def request_text receipt_text item_sort)
  then show ?case using Cons by simp
qed simp

end
