(* ===== verification/DispatchPersist.thy ===== *)
theory DispatchPersist
  imports DispatchTables "HOL-Library.Sublist"
begin

text \<open>
  The tables of a dispatch ledger and its transitions: the checked snapshot of the tables of a
  ledger is that ledger, and the rows a transition appends satisfy every constraint.
\<close>

section \<open>The checked snapshot\<close>

lemma canonical_text_cong:
  assumes "sort_keys v = sort_keys w" and "narrow 0 w" and "len w \<le> EXPORT_BYTES"
  shows "canonical_text v = canonical_text w"
proof -
  have c: "canonical v = canonical w" using assms(1) by (metis canonical_sort)
  have "narrow 0 v" using assms(1,2) by (metis narrow_sort(1))
  moreover have "len v = len w" using c by (simp add: len_def flip: length_canonical)
  ultimately show ?thesis using canonical_text_ok [of v] canonical_text_ok [of w] assms(2,3) c by simp
qed

lemma reconstruct_cong: "sort_keys v = sort_keys w \<Longrightarrow> canonical_text v = canonical_text w \<Longrightarrow> reconstruct H U v = reconstruct H U w"
  unfolding reconstruct_def Let_def by simp

lemma sorted_values_empty [simp]: "sorted_values n rows = [] \<longleftrightarrow> rows = []"
  by (cases rows) simp_all

lemma item_last_revision: "rows \<noteq> [] \<Longrightarrow> item (last (sorted_values n rows)) ''roe_sha256'' = PStr (snd (last rows))"
  by (induction rows arbitrary: n) (simp_all add: item_PDict)

abbreviation ledger_image :: "dispatch_export \<Rightarrow> pyval" where
  "ledger_image x \<equiv> ledger_value (metadata_of x) (sorted_values 1 (dx_revisions x)) (map (\<lambda>w. sort_keys (session_row_json w)) (dx_sessions x))
     (map (\<lambda>w. sort_keys (reservation_row_json w)) (dx_reservations x)) (map (\<lambda>w. sort_keys (completion_row_json w)) (dx_completions x))
     (map stored_event (dx_events x))"

lemma sort_stored_event: "sort_keys (stored_event v) = sort_keys (dispatch_event_json v)"
  by (simp add: stored_event_def dispatch_event_json_def)

lemma sort_ledger_image:
  assumes "columns H x" and "dx_revisions x \<noteq> []"
  shows "sort_keys (ledger_image x) = sort_keys (dispatch_export_json x)"
proof -
  have r: "item (last (sorted_values 1 (dx_revisions x))) ''roe_sha256'' = PStr (ds_roe_sha256 (dx_state x))"
    using assms item_last_revision [of "dx_revisions x" 1] unfolding columns_def by simp
  show ?thesis
    by (simp add: ledger_value_def r dispatch_export_json_def sort_sorted_values comp_def sort_stored_event)
      (simp add: state_json_def metadata_of_def Let_def)
qed

lemma ledger_checked_kept:
  assumes k: "kept H U e" and c: "columns H (eg_export e)" and id: "engagement = None \<or> engagement = Some (dx_engagement (eg_export e))"
  shows "ledger_checked H U engagement (ledger_db (eg_export e)) = Inr (eg_export e)"
proof -
  let ?x = "eg_export e"
  note d = keptD [OF k]
  have z: "1 \<le> length (dx_revisions ?x)" "length (dx_revisions ?x) \<le> 64" "length (dx_sessions ?x) \<le> 64" "length (dx_reservations ?x) \<le> 64"
    "length (dx_completions ?x) \<le> 64" "length (dx_events ?x) \<le> 257" using d(6) by (simp_all add: sized_def Let_def)
  have "sorted (map fst (revision_rows 1 (dx_revisions ?x)))" by (simp add: sorted_upto)
  then have revs: "take 65 (sort_key fst (revision_rows 1 (dx_revisions ?x))) = revision_rows 1 (dx_revisions ?x)"
    using z by (simp add: sort_key_id_if_sorted)
  have "map ee_sequence (map event_cell (dx_events ?x)) = map de_sequence (dx_events ?x)" by (simp add: event_cell_def)
  then have "sorted (map ee_sequence (map event_cell (dx_events ?x)))" using c unfolding columns_def by (simp add: sorted_upto del: map_map)
  then have evs: "take 258 (sort_key ee_sequence (map event_cell (dx_events ?x))) = map event_cell (dx_events ?x)"
    using z by (simp add: sort_key_id_if_sorted del: map_map)
  have plain: "list_all (\<lambda>p. roe_ok (fst p) \<and> is_hash (snd p)) (dx_revisions ?x)" "list_all session_plain (dx_sessions ?x)"
    "list_all reservation_plain (dx_reservations ?x)" "list_all completion_plain (dx_completions ?x)" "list_all event_plain (dx_events ?x)"
    using d(8) by (simp_all add: export_plain_def)
  have read: "mapE read_event (map event_cell (dx_events ?x)) = Inr (map stored_event (dx_events ?x))"
    by (rule read_event_rows [OF plain(5), where P = "\<lambda>v. de_request_sha256 v = H (DISPATCH_REQUEST_DOMAIN @ canonical (dispatch_json (de_request v)))"])
      (use c in \<open>simp add: columns_def\<close>)
  have ne: "dx_revisions ?x \<noteq> []" using z(1) by auto
  note s = sort_ledger_image [OF c ne]
  have "reconstruct H U (ledger_image ?x) = reconstruct H U (dispatch_export_json ?x)"
    by (rule reconstruct_cong [OF s canonical_text_cong [OF s kept_encodes(2,1) [OF k]]])
  then have v: "validate_ledger H U (ledger_image ?x) = Inr ?x" using kept_validates(1) [OF k] by (simp add: validate_ledger_Inr)
  show ?thesis
    using id z by (auto simp: ledger_checked_def read_ledger_def ledger_db_def tables_def revs evs read read_revision_rows [OF plain(1)]
        read_session_rows [OF plain(2)] read_reservation_rows [OF plain(3)] read_completion_rows [OF plain(4)] v ne)
qed

section \<open>Rows a transition appends\<close>

definition extends :: "dispatch_export \<Rightarrow> dispatch_export \<Rightarrow> bool" where
  "extends x y \<longleftrightarrow> prefix (dx_revisions x) (dx_revisions y) \<and> prefix (dx_sessions x) (dx_sessions y)
     \<and> prefix (dx_reservations x) (dx_reservations y) \<and> prefix (dx_completions x) (dx_completions y)
     \<and> prefix (dx_events x) (dx_events y) \<and> dx_engagement y = dx_engagement x"

lemma transit_extends:
  assumes t: "transit H U c e = Inr e'" and i: "indexed e"
  shows "extends (eg_export e) (eg_export e')"
proof (cases c)
  case (Starting d)
  then show ?thesis using start_session_rows [of H d e e'] t i by (auto simp: transit_def extends_def same_log_def)
next
  case (Reserving d)
  then show ?thesis using reserve_slot_rows [of H U d e e'] t i by (auto simp: transit_def extends_def same_log_def)
next
  case (Completing d)
  then show ?thesis using complete_dispatch_rows [of d e e'] t i by (auto simp: transit_def extends_def same_log_def)
next
  case (Revising r)
  then show ?thesis using revise_roe_rows [of H r e e'] t i by (auto simp: transit_def extends_def same_log_def)
next
  case Revoking
  then show ?thesis using revoke_all_rows [of e] t by (auto simp: transit_def extends_def same_log_def)
qed (use t in \<open>simp add: transit_def\<close>)

lemma stamp_extends: "stamp H q e = Inr (e', r) \<Longrightarrow> extends (eg_export e) (eg_export e')"
  using stamp_rows [of H q e e' r] by (auto simp: extends_def)

lemma extends_trans: "extends x y \<Longrightarrow> extends y z \<Longrightarrow> extends x z"
  unfolding extends_def by (metis prefix_order.trans)

lemma push_extends: "push H U q (Some e) = Inr (e', r) \<Longrightarrow> indexed e \<Longrightarrow> extends (eg_export e) (eg_export e')"
  by (erule push_Inr) (auto intro: extends_trans transit_extends stamp_extends dest: advance_engine_Inr(4))

definition generations :: "dispatch_export \<Rightarrow> bool" where
  "generations x \<longleftrightarrow> list_all (\<lambda>w. sw_generation w = sw_revision w - 1) (dx_sessions x)"

lemma push_generations:
  assumes p: "push H U q current = Inr (e', r)" and k: "\<And>e. current = Some e \<Longrightarrow> kept H U e \<and> generations (eg_export e)"
  shows "generations (eg_export e')"
  using p
proof (cases rule: push_Inr)
  case (first roe e0)
  then have "dx_sessions (eg_export e0) = []" by (auto simp: open_engine_def res_simps)
  then show ?thesis using stamp_rows(4) [OF first(4)] by (simp add: generations_def)
next
  case (later e e0)
  note adv = advance_engine_Inr [OF later(3)]
  have ke: "kept H U e" and g: "generations (eg_export e)" using k [OF later(1)] by auto
  note d = keptD [OF ke]
  have "generations (eg_export e0)"
  proof (cases "dq_claim q")
    case (Starting c)
    then have s: "start_session H c e = Inr e0" and live: "\<not> ds_revoked (state_at e)" using adv(3,4) by (auto simp: transit_def)
    have "ds_generation (state_at e) = ds_revision (state_at e) - 1" using d(2) live by (simp add: valued_def)
    then show ?thesis using s g by (auto elim!: start_session_Inr simp: generations_def add_session_def dest!: cached_policy_export)
  next
    case (Reserving c)
    then show ?thesis using g adv(4) reserve_slot_rows(4) [OF _ d(5)] by (simp add: transit_def generations_def)
  next
    case (Completing c)
    then show ?thesis using g adv(4) complete_dispatch_rows(4) [OF _ d(5)] by (simp add: transit_def generations_def)
  next
    case (Revising roe)
    then show ?thesis using g adv(4) revise_roe_rows(3) [OF _ d(5)] by (simp add: transit_def generations_def)
  next
    case Revoking
    then show ?thesis using g adv(4) revoke_all_rows(3) [of e] by (simp add: transit_def generations_def)
  qed (use adv(4) in \<open>simp add: transit_def\<close>)
  then show ?thesis using stamp_rows(4) [OF later(4)] by (simp add: generations_def)
qed

text \<open>Everything the tables need of an engine.\<close>

definition stored :: "(string \<Rightarrow> string) \<Rightarrow> (string \<Rightarrow> string) \<Rightarrow> engine \<Rightarrow> bool" where
  "stored H U e \<longleftrightarrow> kept H U e \<and> columns H (eg_export e) \<and> generations (eg_export e)"

lemma push_stored:
  assumes "push H U q current = Inr (e', r)" and "dispatch_ok q" and "hashes H" and k: "\<And>e. current = Some e \<Longrightarrow> stored H U e"
  shows "stored H U e'"
  unfolding stored_def
proof (intro conjI)
  show "kept H U e'" by (rule push_kept [OF assms(1-3)]) (use k in \<open>simp add: stored_def\<close>)
  show "columns H (eg_export e')"
    by (rule push_columns [OF assms(1,2)]) (use k in \<open>auto simp: stored_def dest: keptD(5)\<close>)
  show "generations (eg_export e')" by (rule push_generations [OF assms(1)]) (use k in \<open>simp add: stored_def\<close>)
qed

lemma replay_stored:
  "replay_events H U vs current = Inr (Some e) \<Longrightarrow> hashes H \<Longrightarrow> (\<And>e. current = Some e \<Longrightarrow> stored H U e) \<Longrightarrow> stored H U e"
proof (induction vs arbitrary: current)
  case (Cons v vs)
  then obtain q e1 r where p: "validate_dispatch (item v ''request'') = Inr q" "push H U q current = Inr (e1, r)"
    and rest: "replay_events H U vs (Some e1) = Inr (Some e)"
    by (auto simp: res_simps)
  show ?case using Cons.IH [OF rest Cons.prems(2)] push_stored [OF p(2) validate_dispatch_ok [OF p(1)] Cons.prems(2,3)] by blast
qed simp

lemma reconstruct_stored: "reconstruct H U v = Inr e \<Longrightarrow> hashes H \<Longrightarrow> stored H U e"
  unfolding reconstruct_def Let_def by (auto simp: res_simps split: option.splits intro: replay_stored)

section \<open>Writing rows\<close>

lemma prefix_put_all:
  assumes "prefix xs ys" and "\<And>pre row post. ys = pre @ row # post \<Longrightarrow> put row (D pre) = Inr (D (pre @ [row]))"
  shows "put_all put (drop (length xs) ys) (D xs) = Inr (D ys)"
proof -
  have "put_all put rows (D pre) = Inr (D (pre @ rows))" if "ys = pre @ rows" for pre rows
    using that
  proof (induction rows arbitrary: pre)
    case (Cons row rows)
    have "put row (D pre) = Inr (D (pre @ [row]))" using assms(2) Cons.prems by blast
    then show ?case using Cons.IH [of "pre @ [row]"] Cons.prems by simp
  qed simp
  then show ?thesis using assms(1) by (auto simp: prefix_def)
qed

lemma prefix_put_revisions:
  assumes "prefix xs ys" and "\<And>pre row post. ys = pre @ row # post \<Longrightarrow> put_revision (int (length pre) + 1) row (D pre) = Inr (D (pre @ [row]))"
  shows "put_revisions (int (length xs) + 1) (drop (length xs) ys) (D xs) = Inr (D ys)"
proof -
  have "put_revisions (int (length pre) + 1) rows (D pre) = Inr (D (pre @ rows))" if "ys = pre @ rows" for pre rows
    using that
  proof (induction rows arbitrary: pre)
    case (Cons row rows)
    have "put_revision (int (length pre) + 1) row (D pre) = Inr (D (pre @ [row]))" using assms(2) Cons.prems by blast
    then show ?case using Cons.IH [of "pre @ [row]"] Cons.prems by (simp add: algebra_simps)
  qed simp
  then show ?thesis using assms(1) by (auto simp: prefix_def)
qed

lemma id_lengths: "is_uuid4 s \<Longrightarrow> length s = 36" "is_hash s \<Longrightarrow> length s = 64"
  by (simp_all add: canonical_uuid_length uuid_canonical) (simp add: is_hash_def)

lemma revision_keys: "fst ` set (revision_rows 1 rs) = {1..int (length rs)}"
  using arg_cong [OF keys_revision_rows [of 1 rs], of set] by (simp only: set_map set_upto add_diff_cancel_left')

lemma cell_images:
  "se_session ` set (map session_cell ws) = sw_session ` set ws"
  "re_dispatch ` set (map reservation_cell ps) = rw_dispatch ` set ps"
  "(\<lambda>x. (re_session x, re_slot x)) ` set (map reservation_cell ps) = (\<lambda>r. (rw_session r, slot_name (rw_slot r))) ` set ps"
  "(\<lambda>x. (re_broker x, re_consume x)) ` set (map reservation_cell ps) = (\<lambda>r. reference_key (rw_approval r)) ` set ps"
  "(\<lambda>x. (re_writer x, re_audit x)) ` set (map reservation_cell ps) = (\<lambda>r. reference_key (rw_audit r)) ` set ps"
  "fst ` set (map completion_cell cs) = cw_dispatch ` set cs"
  "ee_sequence ` set (map event_cell vs) = de_sequence ` set vs"
  "ee_event ` set (map event_cell vs) = (\<lambda>v. dq_event (de_request v)) ` set vs"
  by (simp_all add: image_image session_cell_def reservation_cell_def completion_cell_def event_cell_def reference_key_def)

lemma slot_name_inj: "slot_name a = slot_name b \<longleftrightarrow> a = b"
  by (cases a; cases b) simp_all

lemma slot_keys: "(rw_session r, slot_name (rw_slot r)) \<in> (\<lambda>r. (rw_session r, slot_name (rw_slot r))) ` set ps \<longleftrightarrow> slot_key r \<in> slot_key ` set ps"
  by (auto simp: slot_key_def slot_name_inj image_iff)

lemma put_revision_row:
  assumes "roe_ok (fst row) \<and> is_hash (snd row)" and "length pre < 64"
  shows "put_revision (int (length pre) + 1) row (tables m pre ws ps cs vs) = Inr (tables m (pre @ [row]) ws ps cs vs)"
  using assms roe_cell(1,2) [of "fst row"] id_lengths(2)
  by (simp add: put_revision_def tables_def res_simps revision_rows_append revision_keys)

lemma put_session_row:
  assumes "session_plain w" and "1 \<le> sw_revision w" "sw_revision w \<le> int (length rs)" "length rs \<le> 64" "sw_generation w = sw_revision w - 1"
    and "sw_session w \<notin> sw_session ` set pre"
  shows "put_session w (tables m rs pre ps cs vs) = Inr (tables m rs (pre @ [w]) ps cs vs)"
  using assms session_text(1,2) [of w] id_lengths(1)
  unfolding put_session_def tables_def
  by (simp add: res_simps session_plain_def revision_keys cell_images del: set_map) (simp add: session_cell_def)

lemma put_reservation_row:
  assumes "reservation_plain r" and "rw_session r \<in> sw_session ` set ws" and "rw_dispatch r \<notin> rw_dispatch ` set pre" and "slot_key r \<notin> slot_key ` set pre"
    and "reference_key (rw_approval r) \<notin> (\<lambda>r. reference_key (rw_approval r)) ` set pre"
    and "reference_key (rw_audit r) \<notin> (\<lambda>r. reference_key (rw_audit r)) ` set pre"
  shows "put_reservation r (tables m rs ws pre cs vs) = Inr (tables m rs ws (pre @ [r]) cs vs)"
  using assms reservation_text(1,2) [of r] id_lengths(1)
  unfolding put_reservation_def tables_def
  by (simp add: res_simps reservation_plain_def reference_ok_def cell_images slot_keys del: set_map) (simp add: reservation_cell_def reference_key_def)

lemma put_completion_row:
  assumes "completion_plain c" and "cw_dispatch c \<in> rw_dispatch ` set ps" and "cw_dispatch c \<notin> cw_dispatch ` set pre"
  shows "put_completion c (tables m rs ws ps pre vs) = Inr (tables m rs ws ps (pre @ [c]) vs)"
  using assms completion_text(1,2) [of c] id_lengths(1)
  unfolding put_completion_def tables_def
  by (simp add: res_simps completion_plain_def cell_images del: set_map) (simp add: completion_cell_def)

lemma put_event_row:
  assumes "event_plain v" and "1 \<le> de_sequence v" "de_sequence v \<le> 257" and "de_sequence v \<notin> de_sequence ` set pre"
    and "dq_event (de_request v) \<notin> (\<lambda>v. dq_event (de_request v)) ` set pre"
  shows "put_event v (tables m rs ws ps cs pre) = Inr (tables m rs ws ps cs (pre @ [v]))"
  using assms request_text(1,2) [of "de_request v"] receipt_text(1,2) [of "de_receipt v"] id_lengths
  unfolding put_event_def tables_def
  by (simp add: res_simps event_plain_def dispatch_ok_def cell_images del: set_map) (simp add: event_cell_def)

lemma put_metadata_row:
  assumes "metadata_fits m' (tables m rs ws ps cs vs)" and "(m = []) = initial"
  shows "put_metadata initial m' (tables m rs ws ps cs vs) = Inr (tables [m'] rs ws ps cs vs)"
  using assms by (simp add: put_metadata_def) (simp add: tables_def)

lemma caps_bounded: "roe_ok r \<Longrightarrow> list_all2 (\<le>) (caps r) [64, 256, 1048576, 1048576, 86400000]"
proof -
  assume "roe_ok r"
  then have "limits_ok (roe_limits r)" by (simp add: roe_ok_def)
  then obtain a b c d e f where "roe_limits r = [a, b, c, d, e, f]" "a \<le> 64" "b \<le> 256" "c \<le> 1048576" "d \<le> 1048576" "f \<le> 86400000"
    by (rule limits_six)
  then show ?thesis by (simp add: caps_def roe_limit_def LIMITS_def)
qed

lemma stored_usage:
  assumes k: "kept H U e"
  shows "list_all2 (\<lambda>i high. 0 \<le> i \<and> i \<le> high) (usage_list (ds_usage (dx_state (eg_export e)))) [64, 256, 1048576, 1048576, 86400000]"
proof -
  let ?x = "eg_export e"
  note d = keptD [OF k]
  have pos: "usage_plain (ds_usage (dx_state ?x))" using d(8) by (simp add: export_plain_def state_plain_def)
  have acc: "accounted ?x" and fine: "list_all (reservation_fine H U ?x) (dx_reservations ?x)" "list_all (session_fine H ?x) (dx_sessions ?x)"
    using d(4) by (simp_all add: engine_fine_def ledger_fine_def)
  have "list_all2 (\<le>) (usage_list (ds_usage (dx_state ?x))) [64, 256, 1048576, 1048576, 86400000]"
  proof (cases "dx_reservations ?x = []")
    case True
    then show ?thesis using acc by (simp add: accounted_def total_usage_def no_usage_def usage_list_def)
  next
    case False
    let ?r = "last (dx_reservations ?x)"
    have "?r \<in> set (dx_reservations ?x)" using False by simp
    then have "reservation_fine H U ?x ?r" using fine(1) by (simp add: list_all_iff)
    then obtain w where w: "w \<in> set (dx_sessions ?x)" "sw_revision w = rw_revision ?r" by (auto simp: reservation_fine_def from_session_def)
    then have "known_revision ?x (rw_revision ?r)" using fine(2) by (auto simp: list_all_iff session_fine_def)
    then have b: "list_all2 (\<le>) (caps (roe_of ?x (rw_revision ?r))) [64, 256, 1048576, 1048576, 86400000]"
      by (intro caps_bounded known_roe_ok [OF d(8)])
    have a: "list_all2 (\<le>) (usage_list (ds_usage (dx_state ?x))) (caps (roe_of ?x (rw_revision ?r)))"
      using acc False unfolding accounted_def within_caps_def by blast
    show ?thesis by (rule list_all2_trans [OF order_trans a b])
  qed
  then show ?thesis using pos by (simp add: usage_list_def usage_plain_def small_def)
qed

lemma stored_metadata:
  assumes s: "stored H U e"
  shows "metadata_fits (metadata_of (eg_export e)) (tables m (dx_revisions (eg_export e)) ws ps cs vs)"
proof -
  let ?x = "eg_export e"
  have k: "kept H U e" and c: "columns H ?x" using s by (simp_all add: stored_def)
  note d = keptD [OF k]
  have z: "1 \<le> length (dx_revisions ?x)" "length (dx_revisions ?x) \<le> 64" "1 \<le> length (dx_events ?x)" "length (dx_events ?x) \<le> 257" "is_uuid4 (dx_engagement ?x)"
    using d(6) by (simp_all add: sized_def Let_def)
  have g: "ds_generation (dx_state ?x) = ds_revision (dx_state ?x) - 1 + (if ds_revoked (dx_state ?x) then 1 else 0)"
    using d(2) by (simp add: valued_def state_at_def)
  have r: "ds_revision (dx_state ?x) = int (length (dx_revisions ?x))" using d(5) by (simp add: indexed_def Let_def)
  have l: "ds_last (dx_state ?x) = int (length (dx_events ?x))" and h: "\<forall>h. ds_high (dx_state ?x) = Some h \<longrightarrow> UTC_MIN \<le> h \<and> h \<le> UTC_MAX"
    using c unfolding columns_def by blast+
  have hh: "case ds_high (dx_state ?x) of None \<Rightarrow> True | Some h \<Rightarrow> UTC_MIN \<le> h \<and> h \<le> UTC_MAX"
    using h by (auto split: option.split)
  have st: "status_name b \<in> {''recorded'', ''revoked''}" for b by (cases b) (simp_all add: status_name_def)
  show ?thesis
    unfolding metadata_fits_def metadata_of_def Let_def
    using z g r l hh st stored_usage [OF k] id_lengths(1) [OF z(5)] by (cases "dx_revisions ?x = []") (simp_all add: tables_def revision_keys)
qed

section \<open>A transition is persisted\<close>

lemma distinct_fresh: "distinct (map f xs) \<Longrightarrow> xs = pre @ x # post \<Longrightarrow> f x \<notin> f ` set pre"
  by auto

lemma persist_rows:
  assumes s: "stored H U e" and y: "y = eg_export e"
    and pr: "prefix rs (dx_revisions y)" "prefix ws (dx_sessions y)" "prefix ps (dx_reservations y)" "prefix cs (dx_completions y)" "prefix vs (dx_events y)"
    and st: "start = (\<lambda>f. case before of None \<Rightarrow> 0 | Some x \<Rightarrow> f x)" and m: "(m = []) = (before = None)"
    and n: "start (\<lambda>x. length (dx_revisions x)) = length rs" "start (\<lambda>x. length (dx_sessions x)) = length ws"
      "start (\<lambda>x. length (dx_reservations x)) = length ps" "start (\<lambda>x. length (dx_completions x)) = length cs"
      "start (\<lambda>x. length (dx_events x)) = length vs"
  shows "persist before y (tables m rs ws ps cs vs) = Inr (ledger_db y)"
proof -
  have k: "kept H U e" and c: "columns H y" and g: "generations y" using s by (simp_all add: stored_def y)
  note d = keptD [OF k] and used = keptD(7) [OF k, unfolded used_once_def, folded y]
  have fine: "list_all (session_fine H y) (dx_sessions y)" "list_all (reservation_fine H U y) (dx_reservations y)" "list_all (completion_fine y) (dx_completions y)"
    using d(4) by (simp_all add: engine_fine_def ledger_fine_def y)
  have z: "length (dx_revisions y) \<le> 64" "length (dx_events y) \<le> 257" using d(6) by (simp_all add: sized_def Let_def y)
  have plain: "list_all (\<lambda>p. roe_ok (fst p) \<and> is_hash (snd p)) (dx_revisions y)" "list_all session_plain (dx_sessions y)"
    "list_all reservation_plain (dx_reservations y)" "list_all completion_plain (dx_completions y)" "list_all event_plain (dx_events y)"
    using d(8) by (simp_all add: export_plain_def y)
  have seqs: "map de_sequence (dx_events y) = [1..int (length (dx_events y))]" and ids: "distinct (map (\<lambda>v. dq_event (de_request v)) (dx_events y))"
    using c unfolding columns_def by blast+
  have 1: "put_revisions (int (length rs) + 1) (drop (length rs) (dx_revisions y)) (tables m rs ws ps cs vs) = Inr (tables m (dx_revisions y) ws ps cs vs)"
    by (rule prefix_put_revisions [OF pr(1), where D = "\<lambda>rs. tables m rs ws ps cs vs"])
      (use plain(1) z in \<open>auto simp: list_all_iff intro!: put_revision_row\<close>)
  have 2: "put_all put_session (drop (length ws) (dx_sessions y)) (tables m (dx_revisions y) ws ps cs vs)
      = Inr (tables m (dx_revisions y) (dx_sessions y) ps cs vs)"
  proof (rule prefix_put_all [OF pr(2)])
    fix pre w post assume at: "dx_sessions y = pre @ w # post"
    then have "session_plain w" "session_fine H y w" "sw_generation w = sw_revision w - 1" using plain(2) fine(1) g by (simp_all add: generations_def)
    then show "put_session w (tables m (dx_revisions y) pre ps cs vs) = Inr (tables m (dx_revisions y) (pre @ [w]) ps cs vs)"
      using z(1) distinct_fresh [OF _ at, of sw_session] used by (intro put_session_row) (simp_all add: session_fine_def known_revision_def)
  qed
  have 3: "put_all put_reservation (drop (length ps) (dx_reservations y)) (tables m (dx_revisions y) (dx_sessions y) ps cs vs)
      = Inr (tables m (dx_revisions y) (dx_sessions y) (dx_reservations y) cs vs)"
  proof (rule prefix_put_all [OF pr(3)])
    fix pre r post assume at: "dx_reservations y = pre @ r # post"
    then have "reservation_plain r" "reservation_fine H U y r" using plain(3) fine(2) by simp_all
    moreover have "rw_session r \<in> sw_session ` set (dx_sessions y)" if "reservation_fine H U y r"
      using that by (force simp: reservation_fine_def from_session_def)
    ultimately show "put_reservation r (tables m (dx_revisions y) (dx_sessions y) pre cs vs) = Inr (tables m (dx_revisions y) (dx_sessions y) (pre @ [r]) cs vs)"
      using distinct_fresh [OF _ at, of rw_dispatch] distinct_fresh [OF _ at, of slot_key] used
        distinct_fresh [OF _ at, of "\<lambda>r. reference_key (rw_approval r)"] distinct_fresh [OF _ at, of "\<lambda>r. reference_key (rw_audit r)"]
      by (intro put_reservation_row) blast+
  qed
  have 4: "put_all put_completion (drop (length cs) (dx_completions y)) (tables m (dx_revisions y) (dx_sessions y) (dx_reservations y) cs vs)
      = Inr (tables m (dx_revisions y) (dx_sessions y) (dx_reservations y) (dx_completions y) vs)"
  proof (rule prefix_put_all [OF pr(4)])
    fix pre w post assume at: "dx_completions y = pre @ w # post"
    then have "completion_plain w" "completion_fine y w" using plain(4) fine(3) by simp_all
    moreover have "cw_dispatch w \<in> rw_dispatch ` set (dx_reservations y)" if "completion_fine y w"
      using that by (force simp: completion_fine_def)
    ultimately show "put_completion w (tables m (dx_revisions y) (dx_sessions y) (dx_reservations y) pre vs)
        = Inr (tables m (dx_revisions y) (dx_sessions y) (dx_reservations y) (pre @ [w]) vs)"
      using distinct_fresh [OF _ at, of cw_dispatch] used by (intro put_completion_row) blast+
  qed
  have 5: "put_metadata (before = None) (metadata_of y) (tables m (dx_revisions y) (dx_sessions y) (dx_reservations y) (dx_completions y) vs)
      = Inr (tables [metadata_of y] (dx_revisions y) (dx_sessions y) (dx_reservations y) (dx_completions y) vs)"
    by (rule put_metadata_row [OF _ m]) (simp add: y stored_metadata [OF s])
  have 6: "put_all put_event (drop (length vs) (dx_events y)) (tables [metadata_of y] (dx_revisions y) (dx_sessions y) (dx_reservations y) (dx_completions y) vs)
      = Inr (ledger_db y)"
    unfolding ledger_db_def
  proof (rule prefix_put_all [OF pr(5)])
    fix pre v post assume at: "dx_events y = pre @ v # post"
    have "de_sequence v \<in> set [1..int (length (dx_events y))]" unfolding seqs [symmetric] by (simp add: at)
    moreover have "distinct (map de_sequence (dx_events y))" by (simp add: seqs)
    moreover have "event_plain v" using plain(5) at by simp
    ultimately show "put_event v (tables [metadata_of y] (dx_revisions y) (dx_sessions y) (dx_reservations y) (dx_completions y) pre)
        = Inr (tables [metadata_of y] (dx_revisions y) (dx_sessions y) (dx_reservations y) (dx_completions y) (pre @ [v]))"
      using z(2) distinct_fresh [OF _ at, of de_sequence] distinct_fresh [OF ids at] by (intro put_event_row) auto
  qed
  show ?thesis unfolding persist_def Let_def st [symmetric] n by (simp only: 1 2 3 4 5 6 bindE_simps)
qed

end
