(* ===== verification/DispatchRuns.thy ===== *)
theory DispatchRuns
  imports DispatchPersist EngagementProps
begin

text \<open>
  The store of the dispatch ledger implements the engine: a request answered from the tables, with
  the replay of every read, is the step of an engine held in memory, whatever fails around it; and
  the runs of the public operations.
\<close>

section \<open>A step of the ledger\<close>

text \<open>
  What a request does to an engine in memory: a recorded event is answered with its receipt, a
  claim of another owner is refused, anything else is pushed.
\<close>

definition ledger_next :: "(string \<Rightarrow> string) \<Rightarrow> (string \<Rightarrow> string) \<Rightarrow> string \<Rightarrow> dispatch_request \<Rightarrow> engine
    \<Rightarrow> string + (bool \<times> dispatch_receipt) \<times> engine" where
  "ledger_next H U owner q e = (case find (\<lambda>v. dq_event (de_request v) = dq_event q) (dx_events (eg_export e)) of
     Some v \<Rightarrow> if de_request v = q then Inr ((True, de_receipt v), e) else Inl (dcode ''conflict'')
   | None \<Rightarrow> if claim_owner (dq_claim q) \<in> {None, Some owner}
       then bindE (push H U q (Some e)) (\<lambda>(e', r). Inr ((False, r), e')) else Inl (dcode ''foreign_owner''))"

lemma dispatch_digest_ok: "dispatch_ok q \<Longrightarrow> dispatch_digest H (dispatch_json q) = Inr (H (DISPATCH_REQUEST_DOMAIN @ canonical (dispatch_json q)))"
  by (simp add: dispatch_digest_def validate_dispatch_json(1) request_text(1))

lemma existing_stored:
  assumes "columns H x" and "dispatch_ok q"
  shows "existing_event H x q = (case find (\<lambda>v. dq_event (de_request v) = dq_event q) (dx_events x) of
     None \<Rightarrow> Inr None | Some v \<Rightarrow> if de_request v = q then Inr (Some (de_receipt v)) else Inl (dcode ''conflict''))"
proof (cases "find (\<lambda>v. dq_event (de_request v) = dq_event q) (dx_events x)")
  case (Some v)
  then have "v \<in> set (dx_events x)" by (auto simp: find_Some_iff)
  then have "de_request_sha256 v = H (DISPATCH_REQUEST_DOMAIN @ canonical (dispatch_json (de_request v)))"
    using assms(1) unfolding columns_def list_all_iff by blast
  then show ?thesis using assms(2) by (simp add: existing_event_def Some dispatch_digest_ok require_def)
qed (simp add: existing_event_def)

lemma mutate_stored:
  assumes s: "stored H U e" and h: "hashes H" and v: "validate_dispatch w = Inr q"
  shows "mutate_ledger H U owner w (eg_export e) (ledger_db (eg_export e))
    = bindE (ledger_next H U owner q e) (\<lambda>(a, e'). Inr (a, ledger_db (eg_export e')))"
proof -
  have q: "dispatch_ok q" by (rule validate_dispatch_ok [OF v])
  have k: "kept H U e" and c: "columns H (eg_export e)" using s by (simp_all add: stored_def)
  have p: "persist (Some (eg_export e)) (eg_export e') (ledger_db (eg_export e)) = Inr (ledger_db (eg_export e'))"
    if "push H U q (Some e) = Inr (e', r)" for e' r
  proof -
    have s': "stored H U e'" by (rule push_stored [OF that q h]) (use s in simp)
    have x: "extends (eg_export e) (eg_export e')" by (rule push_extends [OF that keptD(5) [OF k]])
    show ?thesis unfolding ledger_db_def [of "eg_export e"]
      by (rule persist_rows [OF s' refl _ _ _ _ _ refl]) (use x in \<open>simp_all add: extends_def\<close>)
  qed
  show ?thesis
    unfolding mutate_ledger_def v bindE_simps existing_stored [OF c q] ledger_next_def apply_request_kept [OF k q h]
    by (cases "push H U q (Some e)") (auto simp: require_def p split: option.split)
qed

lemma push_event:
  assumes p: "push H U q (Some e) = Inr (e', r)" and i: "indexed e"
  shows "\<exists>event. dx_events (eg_export e') = dx_events (eg_export e) @ [event] \<and> de_request event = q \<and> de_receipt event = r"
  using p
proof (cases rule: push_Inr)
  case (later f e0)
  have "dx_events (eg_export e0) = dx_events (eg_export e)"
    using transit_log [OF advance_engine_Inr(4) [OF later(3)]] i later(1) by (simp add: same_log_def)
  then show ?thesis using stamp_event [OF later(4)] by auto
qed simp

lemma ledger_next_stored:
  assumes n: "ledger_next H U owner q e = Inr (a, e')" and s: "stored H U e" and h: "hashes H" and q: "dispatch_ok q"
  shows "stored H U e'" "extends (eg_export e) (eg_export e')"
proof -
  have "e' = e \<or> (\<exists>r. push H U q (Some e) = Inr (e', r))"
    using n by (auto simp: ledger_next_def res_simps split: option.splits if_splits)
  moreover have "indexed e" using s keptD(5) unfolding stored_def by blast
  moreover have "extends (eg_export e) (eg_export e)" by (simp add: extends_def)
  ultimately show "stored H U e'" "extends (eg_export e) (eg_export e')"
    using s push_stored [OF _ q h, of U "Some e" e'] push_extends by auto
qed

section \<open>Stores\<close>

definition has_ledger :: "(string \<Rightarrow> string) \<Rightarrow> (string \<Rightarrow> string) \<Rightarrow> dispatch_store \<Rightarrow> engine \<Rightarrow> bool" where
  "has_ledger H U st e \<longleftrightarrow> stored H U e \<and> dt_db st = ledger_db (eg_export e) \<and> dt_engagement st = Some (dx_engagement (eg_export e))"

lemma checked_stored:
  assumes "stored H U e" and "engagement = None \<or> engagement = Some (dx_engagement (eg_export e))"
  shows "ledger_checked H U engagement (ledger_db (eg_export e)) = Inr (eg_export e)"
  using assms ledger_checked_kept by (simp add: stored_def)

lemma inside_mutate:
  assumes h: "hashes H" and st: "has_ledger H U st e" and v: "validate_dispatch w = Inr q"
  shows "ledger_inside H U True env st (mutate_ledger H U owner w) =
    bindE (fault (begin_fault env)) (\<lambda>_. bindE (ledger_next H U owner q e) (\<lambda>(a, e').
    bindE (fault (check_fault env)) (\<lambda>_. bindE (fault (commit_fault env)) (\<lambda>_. Inr (a, ledger_db (eg_export e'))))))"
proof -
  have s: "stored H U e" and db: "dt_db st = ledger_db (eg_export e)" "dt_engagement st = Some (dx_engagement (eg_export e))"
    using st by (simp_all add: has_ledger_def)
  have after: "ledger_checked H U (dt_engagement st) (ledger_db (eg_export e')) = Inr (eg_export e')"
    if "ledger_next H U owner q e = Inr (a, e')" for a e'
    using ledger_next_stored [OF that s h validate_dispatch_ok [OF v]] by (intro checked_stored) (simp_all add: db extends_def)
  have "ledger_checked H U (dt_engagement st) (dt_db st) = Inr (eg_export e)" unfolding db by (intro checked_stored s) simp
  then show ?thesis
    unfolding ledger_inside_def db(1) by (cases "ledger_next H U owner q e") (auto simp: mutate_stored [OF s h v] after split_def)
qed

lemma inside_read:
  assumes "has_ledger H U st e"
  shows "ledger_inside H U False env st body =
    bindE (fault (begin_fault env)) (\<lambda>_. bindE (body (eg_export e) (dt_db st)) (\<lambda>(x, db).
    bindE (fault (check_fault env)) (\<lambda>_. bindE (fault (commit_fault env)) (\<lambda>_. Inr (x, db)))))"
proof -
  have "ledger_checked H U (dt_engagement st) (dt_db st) = Inr (eg_export e)"
    using assms checked_stored by (simp add: has_ledger_def)
  then show ?thesis by (simp add: ledger_inside_def)
qed

lemma taint_simps [simp]: "dt_db (taint code st) = dt_db st" "dt_engagement (taint code st) = dt_engagement st"
  "dt_read_only (taint code st) = dt_read_only st" "dt_open (taint code st) = dt_open st" "dt_owner (taint code st) = dt_owner st"
  by (simp_all add: taint_def)

text \<open>Whatever fails, the tables are those from before or those the body left.\<close>

lemma ledger_transaction_effect:
  assumes "ledger_transaction H U write env st body = (out, st')"
  shows "dt_engagement st' = dt_engagement st" "dt_owner st' = dt_owner st"
    "dt_db st' = dt_db st \<and> (\<exists>code. out = Inl code) \<or> (\<exists>x. ledger_inside H U write env st body = Inr (x, dt_db st') \<and> (out = Inr x \<or> settle_fault env \<noteq> None))"
proof -
  have "dt_engagement st' = dt_engagement st \<and> dt_owner st' = dt_owner st \<and> (dt_db st' = dt_db st \<and> (\<exists>code. out = Inl code)
      \<or> (\<exists>x. ledger_inside H U write env st body = Inr (x, dt_db st') \<and> (out = Inr x \<or> settle_fault env \<noteq> None)))"
    using assms by (auto simp: ledger_transaction_def Let_def split: if_splits sum.splits prod.splits option.splits)
  then show "dt_engagement st' = dt_engagement st" "dt_owner st' = dt_owner st"
    "dt_db st' = dt_db st \<and> (\<exists>code. out = Inl code) \<or> (\<exists>x. ledger_inside H U write env st body = Inr (x, dt_db st') \<and> (out = Inr x \<or> settle_fault env \<noteq> None))"
    by blast+
qed

text \<open>When nothing fails, a usable store is the engine.\<close>

definition ledger_usable :: "dispatch_store \<Rightarrow> bool" where
  "ledger_usable st \<longleftrightarrow> dt_open st \<and> \<not> dt_failed st \<and> \<not> dt_read_only st"

lemma healthy_ledger: "same_process healthy" "begin_fault healthy = None" "check_fault healthy = None" "commit_fault healthy = None"
  "settle_fault healthy = None" "\<not> rollback_fault healthy" "fault None = Inr ()"
  by (simp_all add: healthy_def fault_def)

lemma submit_healthy:
  assumes h: "hashes H" and st: "has_ledger H U st e" and v: "validate_dispatch w = Inr q" and u: "ledger_usable st"
  shows "submit_ledger H U healthy w st = (case ledger_next H U (dt_owner st) q e of
      Inl code \<Rightarrow> (Inl (public_code code), taint (public_code code) st) | Inr (a, e') \<Rightarrow> (Inr a, st\<lparr>dt_db := ledger_db (eg_export e')\<rparr>))"
  using u unfolding submit_ledger_def ledger_transaction_def inside_mutate [OF h st v] ledger_usable_def
  by (simp add: healthy_ledger Let_def split: sum.split)

section \<open>Later ledgers\<close>

definition ledger_later :: "dispatch_export \<Rightarrow> dispatch_export \<Rightarrow> bool" where
  "ledger_later x y \<longleftrightarrow> extends x y \<and> (ds_revoked (dx_state x) \<longrightarrow> ds_revoked (dx_state y) \<and> dx_revisions y = dx_revisions x
     \<and> dx_sessions y = dx_sessions x \<and> dx_reservations y = dx_reservations x \<and> ds_usage (dx_state y) = ds_usage (dx_state x)
     \<and> (\<exists>rows. dx_completions y = dx_completions x @ rows \<and> list_all (\<lambda>c. \<not> cw_eligible c) rows))"

lemma ledger_later_refl [simp]: "ledger_later x x"
  by (simp add: ledger_later_def extends_def)

lemma ledger_later_trans: "ledger_later x y \<Longrightarrow> ledger_later y z \<Longrightarrow> ledger_later x z"
proof -
  assume xy: "ledger_later x y" and yz: "ledger_later y z"
  have "extends x z" using xy yz extends_trans by (auto simp: ledger_later_def)
  moreover have "\<exists>rows. dx_completions z = dx_completions x @ rows \<and> list_all (\<lambda>c. \<not> cw_eligible c) rows" if r: "ds_revoked (dx_state x)"
  proof -
    obtain r1 r2 where "dx_completions y = dx_completions x @ r1" "list_all (\<lambda>c. \<not> cw_eligible c) r1"
      "dx_completions z = dx_completions y @ r2" "list_all (\<lambda>c. \<not> cw_eligible c) r2"
      using xy yz r unfolding ledger_later_def by blast
    then show ?thesis by (intro exI [of _ "r1 @ r2"]) simp
  qed
  ultimately show ?thesis using xy yz by (simp add: ledger_later_def)
qed

lemma ledger_next_later:
  assumes n: "ledger_next H U owner q e = Inr (a, e')" and s: "stored H U e" and h: "hashes H" and q: "dispatch_ok q"
  shows "ledger_later (eg_export e) (eg_export e')"
proof -
  have "e' = e \<or> (\<exists>r. push H U q (Some e) = Inr (e', r))"
    using n by (auto simp: ledger_next_def res_simps split: option.splits if_splits)
  moreover have "indexed e" using s keptD(5) unfolding stored_def by blast
  ultimately show ?thesis
    using ledger_next_stored(2) [OF n s h q] push_closing [of H U q e e'] by (auto simp: ledger_later_def closing_def state_at_def list_all_iff)
qed

lemma find_recorded:
  assumes "columns H x" and "event \<in> set (dx_events x)"
  shows "find (\<lambda>v. dq_event (de_request v) = dq_event (de_request event)) (dx_events x) = Some event"
proof -
  have d: "distinct (map (\<lambda>v. dq_event (de_request v)) vs) \<Longrightarrow> event \<in> set vs
      \<Longrightarrow> find (\<lambda>v. dq_event (de_request v) = dq_event (de_request event)) vs = Some event" for vs
    by (induction vs) (auto simp: image_iff)
  have "distinct (map (\<lambda>v. dq_event (de_request v)) (dx_events x))" using assms(1) unfolding columns_def by blast
  then show ?thesis using assms(2) by (rule d)
qed

section \<open>Runs of the public operations\<close>

inductive ledger_step :: "(string \<Rightarrow> string) \<Rightarrow> (string \<Rightarrow> string) \<Rightarrow> dispatch_store \<Rightarrow> dispatch_store \<Rightarrow> bool" for H U where
  run_revise: "append_ledger_revision H U env roe revision generation event st = (out, st') \<Longrightarrow> ledger_step H U st st'"
| run_revoke: "revoke_ledger H U env revision generation event st = (out, st') \<Longrightarrow> ledger_step H U st st'"
| run_session: "record_session H U env session clock deadline event revision generation st = (out, st') \<Longrightarrow> ledger_step H U st st'"
| run_reserve: "reserve_dispatch H U env dispatch session slot approval audit clock event revision generation st = (out, st') \<Longrightarrow> ledger_step H U st st'"
| run_complete: "finish_dispatch H U env dispatch session reported observed clock event st = (out, st') \<Longrightarrow> ledger_step H U st st'"
| run_retry: "retry_event H U env request st = (out, st') \<Longrightarrow> ledger_step H U st st'"
| run_snapshot: "ledger_snapshot H U env st = (read, st') \<Longrightarrow> ledger_step H U st st'"
| run_receipt: "ledger_receipt H U env event st = (receipt, st') \<Longrightarrow> ledger_step H U st st'"
| run_close: "close_ledger env st = (closed, st') \<Longrightarrow> ledger_step H U st st'"
| run_reopen: "open_ledger H U env owner read_only (dt_db st) = Inr st' \<Longrightarrow> ledger_step H U st st'"

definition ledger_start :: "(string \<Rightarrow> string) \<Rightarrow> (string \<Rightarrow> string) \<Rightarrow> dispatch_store \<Rightarrow> bool" where
  "ledger_start H U st \<longleftrightarrow> hashes H \<and> (\<exists>env owner engagement event roe. create_ledger H U env owner engagement event roe = Inr st)"

definition ledger_inv :: "(string \<Rightarrow> string) \<Rightarrow> (string \<Rightarrow> string) \<Rightarrow> dispatch_store \<Rightarrow> bool" where
  "ledger_inv H U st \<longleftrightarrow> hashes H \<and> (\<exists>e. has_ledger H U st e)"

definition ledger_in :: "(string \<Rightarrow> string) \<Rightarrow> (string \<Rightarrow> string) \<Rightarrow> dispatch_store \<Rightarrow> dispatch_export" where
  "ledger_in H U st = (case ledger_checked H U None (dt_db st) of Inr x \<Rightarrow> x | Inl code \<Rightarrow> undefined)"

lemma has_ledger_in: "has_ledger H U st e \<Longrightarrow> ledger_checked H U None (dt_db st) = Inr (eg_export e)"
  "has_ledger H U st e \<Longrightarrow> ledger_in H U st = eg_export e"
  using checked_stored [of H U e None] by (simp_all add: has_ledger_def ledger_in_def)

lemma submit_ledger_effect:
  assumes run: "submit_ledger H U env w st = (out, st')" and h: "hashes H" and st: "has_ledger H U st e"
  shows "dt_db st' = dt_db st \<and> (\<exists>code. out = Inl code) \<and> has_ledger H U st' e
    \<or> (\<exists>q a e'. validate_dispatch w = Inr q \<and> ledger_next H U (dt_owner st) q e = Inr (a, e') \<and> has_ledger H U st' e'
        \<and> (out = Inr a \<or> settle_fault env \<noteq> None))"
proof -
  note t = ledger_transaction_effect [OF run [unfolded submit_ledger_def]]
  consider "dt_db st' = dt_db st" "\<exists>code. out = Inl code" | a where "ledger_inside H U True env st (mutate_ledger H U (dt_owner st) w) = Inr (a, dt_db st')"
    "out = Inr a \<or> settle_fault env \<noteq> None" using t(3) by blast
  then show ?thesis
  proof cases
    case 1
    then show ?thesis using st t(1) by (simp add: has_ledger_def)
  next
    case 2
    obtain q where v: "validate_dispatch w = Inr q"
      using 2(1) by (cases "validate_dispatch w") (auto simp: ledger_inside_def mutate_ledger_def res_simps)
    obtain e' where e': "ledger_next H U (dt_owner st) q e = Inr (a, e')" "dt_db st' = ledger_db (eg_export e')"
      using 2(1) unfolding inside_mutate [OF h st v] by (auto simp: res_simps)
    have s: "stored H U e" using st by (simp add: has_ledger_def)
    note n = ledger_next_stored [OF e'(1) s h validate_dispatch_ok [OF v]]
    have "has_ledger H U st' e'" using n e'(2) t(1) st by (simp add: has_ledger_def extends_def)
    then show ?thesis using v e'(1) 2(2) by blast
  qed
qed

lemma reading_ledger:
  assumes run: "ledger_transaction H U False env st body = (out, st')" and st: "has_ledger H U st e"
    and body: "\<And>x db y db'. body x db = Inr (y, db') \<Longrightarrow> db' = db"
  shows "has_ledger H U st' e"
proof -
  note t = ledger_transaction_effect [OF run]
  have "dt_db st' = dt_db st" using t(3) unfolding inside_read [OF st] by (auto simp: res_simps dest: body)
  then show ?thesis using st t(1) by (simp add: has_ledger_def)
qed

lemma open_has_ledger:
  assumes "open_ledger H U env owner read_only (dt_db st) = Inr st'" and st: "has_ledger H U st e"
  shows "has_ledger H U st' e" "dt_open st'" "\<not> dt_failed st'" "dt_read_only st' = read_only" "dt_owner st' = owner"
proof -
  let ?st = "\<lparr>dt_db = dt_db st, dt_engagement = None, dt_owner = owner, dt_open = True, dt_read_only = read_only, dt_failed = False\<rparr>"
  have c: "ledger_checked H U None (dt_db st) = Inr (eg_export e)" using has_ledger_in(1) [OF st] .
  have "st' = ?st\<lparr>dt_engagement := Some (dx_engagement (eg_export e))\<rparr>"
    using assms(1) by (auto simp: open_ledger_def Let_def reported_as_def ledger_inside_def c res_simps split: sum.splits)
  then show "has_ledger H U st' e" "dt_open st'" "\<not> dt_failed st'" "dt_read_only st' = read_only" "dt_owner st' = owner"
    using st by (simp_all add: has_ledger_def)
qed

definition opening_value :: "pyval \<Rightarrow> pyval \<Rightarrow> pyval \<Rightarrow> pyval" where
  "opening_value engagement event roe = PDict [(''schema_version'', PStr ''2''), (''engagement_id'', engagement), (''event_id'', event),
      (''operation'', PStr ''create''), (''expected_revision'', PNone), (''expected_generation'', PNone), (''body'', roe)]"

lemma opening_persisted:
  assumes "push H U q None = Inr (e, r)" and "dispatch_ok q" and "hashes H"
  shows "stored H U e" "persist None (eg_export e) empty_ledger = Inr (ledger_db (eg_export e))"
proof -
  show s: "stored H U e" by (rule push_stored [OF assms]) simp
  have "empty_ledger = tables [] [] [] [] [] []" by (simp add: empty_ledger_def tables_def)
  moreover have "persist None (eg_export e) (tables [] [] [] [] [] []) = Inr (ledger_db (eg_export e))"
    by (rule persist_rows [OF s refl _ _ _ _ _ refl]) simp_all
  ultimately show "persist None (eg_export e) empty_ledger = Inr (ledger_db (eg_export e))" by simp
qed

lemma create_has_ledger:
  assumes h: "hashes H" and run: "create_ledger H U env owner engagement event roe = Inr st"
  shows "\<exists>e. has_ledger H U st e"
proof -
  from run obtain q after r db x where v: "validate_dispatch (opening_value engagement event roe) = Inr q"
    and a: "apply_request H U None q = Inr (after, r)" and db: "persist None after empty_ledger = Inr db"
    and x: "ledger_checked H U None db = Inr x"
    and st: "st = \<lparr>dt_db = db, dt_engagement = Some (dx_engagement x), dt_owner = owner, dt_open = True, dt_read_only = False, dt_failed = False\<rparr>"
    by (auto simp: create_ledger_def opening_value_def reported_as_def res_simps split: sum.splits prod.splits)
  have q: "dispatch_ok q" by (rule validate_dispatch_ok [OF v])
  obtain e where p: "push H U q None = Inr (e, r)" and after: "after = eg_export e"
    using a unfolding apply_request_new [OF q h] by (auto simp: res_simps)
  note o = opening_persisted [OF p q h]
  have d: "db = ledger_db (eg_export e)" using db o(2) after by simp
  have "x = eg_export e" using x checked_stored [OF o(1), of None] by (simp add: d)
  then show ?thesis using o(1) d st by (auto simp: has_ledger_def)
qed

lemma create_healthy:
  assumes v: "validate_dispatch (opening_value engagement event roe) = Inr q" and h: "hashes H" and p: "push H U q None = Inr (e, r)"
  shows "create_ledger H U healthy owner engagement event roe = Inr \<lparr>dt_db = ledger_db (eg_export e), dt_engagement = Some (dx_engagement (eg_export e)),
    dt_owner = owner, dt_open = True, dt_read_only = False, dt_failed = False\<rparr>"
proof -
  have q: "dispatch_ok q" by (rule validate_dispatch_ok [OF v])
  note o = opening_persisted [OF p q h]
  show ?thesis
    unfolding create_ledger_def opening_value_def [symmetric] v
    by (simp add: healthy_ledger apply_request_new [OF q h] p o(2) checked_stored [OF o(1)] reported_as_def)
qed

lemma ledger_step_effect:
  assumes "ledger_step H U st st'" and h: "hashes H" and st: "has_ledger H U st e"
  shows "\<exists>e'. has_ledger H U st' e' \<and> ledger_later (eg_export e) (eg_export e')"
proof -
  have submit: "\<exists>e'. has_ledger H U st' e' \<and> ledger_later (eg_export e) (eg_export e')" if "submit_ledger H U env w st = (out, st')" for env w out
    using submit_ledger_effect [OF that h st] ledger_next_later [OF _ _ h] validate_dispatch_ok st ledger_later_refl
    unfolding has_ledger_def by blast
  have read: "\<exists>e'. has_ledger H U st' e' \<and> ledger_later (eg_export e) (eg_export e')" if "has_ledger H U st' e"
    using that ledger_later_refl by blast
  show ?thesis
    using assms(1)
  proof cases
    case run_retry
    then show ?thesis unfolding retry_event_def
      by (intro read) (erule reading_ledger [OF _ st], auto simp: res_simps split: option.splits)
  next
    case run_snapshot
    then show ?thesis unfolding ledger_snapshot_def by (intro read) (erule reading_ledger [OF _ st], simp)
  next
    case (run_receipt env event receipt)
    have "has_ledger H U st' e"
    proof (cases "same_process env \<and> (\<exists>i. uuid_field event = Inr i)")
      case True
      then obtain i where "uuid_field event = Inr i" by blast
      with True run_receipt have "ledger_transaction H U False env st (\<lambda>before db. case find (\<lambda>v. dq_event (de_request v) = i) (dx_events before) of
          None \<Rightarrow> Inl (dcode ''event_unknown'') | Some v \<Rightarrow> Inr (de_receipt v, db)) = (receipt, st')"
        by (simp add: ledger_receipt_def)
      then show ?thesis by (rule reading_ledger [OF _ st]) (auto split: option.splits)
    next
      case False
      then have "st' = st" using run_receipt by (auto simp: ledger_receipt_def split: if_splits sum.splits)
      then show ?thesis using st by simp
    qed
    then show ?thesis by (rule read)
  next
    case run_close
    then show ?thesis using st by (intro read) (auto simp: close_ledger_def has_ledger_def split: if_splits option.splits)
  next
    case run_reopen
    then show ?thesis using open_has_ledger(1) [OF _ st] read by blast
  qed (use submit in \<open>auto simp: append_ledger_revision_def revoke_ledger_def record_session_def reserve_dispatch_def finish_dispatch_def\<close>)
qed

definition ledger_grows :: "(string \<Rightarrow> string) \<Rightarrow> (string \<Rightarrow> string) \<Rightarrow> dispatch_store \<Rightarrow> dispatch_store \<Rightarrow> bool" where
  "ledger_grows H U st st' \<longleftrightarrow> ledger_later (ledger_in H U st) (ledger_in H U st')"

interpretation ledger_runs: monotone_system "ledger_start H U" "ledger_step H U" "ledger_inv H U" "ledger_grows H U" for H U
proof unfold_locales
  fix st st'
  show "ledger_start H U st \<Longrightarrow> ledger_inv H U st"
    unfolding ledger_start_def ledger_inv_def using create_has_ledger by blast
  show "ledger_inv H U st \<Longrightarrow> ledger_step H U st st' \<Longrightarrow> ledger_inv H U st'"
    unfolding ledger_inv_def using ledger_step_effect by blast
  show "ledger_grows H U st st" by (simp add: ledger_grows_def)
  show "ledger_inv H U st \<Longrightarrow> ledger_step H U st st' \<Longrightarrow> ledger_grows H U st st'"
    unfolding ledger_inv_def ledger_grows_def using ledger_step_effect has_ledger_in(2) by metis
  show "ledger_grows H U s t \<Longrightarrow> ledger_grows H U t u \<Longrightarrow> ledger_grows H U s u" for s t u
    unfolding ledger_grows_def by (rule ledger_later_trans)
qed

end
