(* ===== verification/DispatchDemo.thy ===== *)
theory DispatchDemo
  imports DispatchExact
begin

text \<open>
  A ledger with both slots of the plan dispatched, the second after an eligible completion of the
  first: the concrete input of the properties of the dispatch ledger.
\<close>

section \<open>Requests\<close>

definition lab_id :: string where "lab_id = ''11111111-1111-4111-8111-111111111111''"

definition lab_name :: "string \<Rightarrow> string" where "lab_name d = d @ ''0000000-0000-4000-8000-000000000000''"

definition lab_roe :: roe where
  "lab_roe = \<lparr>roe_scope = \<lparr>sc_id = ''lab-1'', sc_http = \<lparr>ep_target = ''10.1.2.3'', ep_port = 8080, ep_path = Some ''/''\<rparr>,
       sc_ssh = \<lparr>ep_target = ''10.1.2.3'', ep_port = 2222, ep_path = None\<rparr>\<rparr>,
     roe_profiles = [''configurable_http_headers_v1'', ''configurable_nmap_service_v1''], roe_excluded = [],
     roe_start = ''2026-01-01T00:00:00Z'', roe_end = ''2026-01-01T12:00:00Z'', roe_limits = [4, 8, 16384, 16384, 30000, 600000]\<rparr>"

text \<open>Seconds after the start of the window, on a machine that booted then.\<close>

definition lab_clock :: "int \<Rightarrow> clock" where
  "lab_clock s = \<lparr>ck_utc = 1767225600000000000 + s * 1000000000, ck_before = s * 1000000000, ck_after = s * 1000000000\<rparr>"

definition lab_reference :: "int \<Rightarrow> reference" where
  "lab_reference n = \<lparr>rf_owner = lab_id, rf_sequence = n, rf_sha256 = zero_hash []\<rparr>"

definition lab_request :: "string \<Rightarrow> claim \<Rightarrow> dispatch_request" where
  "lab_request d c = \<lparr>dq_engagement = lab_id, dq_event = lab_name d,
     dq_expected = (if claim_name c \<in> {''create'', ''complete''} then None else Some (1, 0)), dq_claim = c\<rparr>"

definition lab_start :: session_claim where
  "lab_start = \<lparr>sl_session = lab_name ''a'', sl_owner = lab_id, sl_clock = lab_clock 1, sl_deadline = 60000000000\<rparr>"

definition lab_reserve :: "string \<Rightarrow> slot \<Rightarrow> int \<Rightarrow> reserve_claim" where
  "lab_reserve d k n = \<lparr>rv_dispatch = lab_name d, rv_session = lab_name ''a'', rv_owner = lab_id, rv_slot = k, rv_approval = lab_reference n,
     rv_audit = lab_reference n, rv_clock = lab_clock n\<rparr>"

definition lab_complete :: complete_claim where
  "lab_complete = \<lparr>cp_dispatch = lab_name ''b'', cp_session = lab_name ''a'', cp_owner = lab_id, cp_reported = Reported_success,
     cp_observed = Some \<lparr>ob_sha256 = zero_hash [], ob_connections = 2, ob_request_bytes = 100, ob_response_bytes = 1000\<rparr>, cp_clock = lab_clock 3\<rparr>"

lemma lab_uuids: "is_uuid4 lab_id" "is_uuid4 (lab_name ''1'')" "is_uuid4 (lab_name ''2'')" "is_uuid4 (lab_name ''3'')" "is_uuid4 (lab_name ''4'')"
  "is_uuid4 (lab_name ''5'')" "is_uuid4 (lab_name ''a'')" "is_uuid4 (lab_name ''b'')" "is_uuid4 (lab_name ''c'')"
  by code_simp+

lemma lab_roe_ok: "roe_ok lab_roe"
  by code_simp

lemma lab_supported: "supported lab_roe"
  by code_simp

lemma lab_window: "epoch_ns (roe_start lab_roe) = 1767225600000000000" "epoch_ns (roe_end lab_roe) = 1767268800000000000"
  by code_simp+

lemma zero_hashes: "hashes zero_hash" "is_hash (zero_hash x)" "\<forall>x. canonical_uuid (zero_uuid x)"
proof -
  show "is_hash (zero_hash x)" for x
    by (simp add: zero_hash_def is_hash_def list_all_iff is_hex_def is_digit_def less_eq_char_def)
  then show "hashes zero_hash" by (simp add: hashes_def)
  show "\<forall>x. canonical_uuid (zero_uuid x)" unfolding zero_uuid_def by (rule allI) code_simp
qed

lemma lab_clock_ok: "0 \<le> s \<Longrightarrow> s \<le> 1000 \<Longrightarrow> clock_ok (lab_clock s)"
  by (simp add: clock_ok_def lab_clock_def UTC_MIN_def UTC_MAX_def INTEGER_MAX_def CLOCK_TOLERANCE_def)

lemma lab_requests_ok:
  "dispatch_ok (lab_request ''1'' (Opening lab_roe))" "dispatch_ok (lab_request ''2'' (Starting lab_start))"
  "dispatch_ok (lab_request ''3'' (Reserving (lab_reserve ''b'' Http_identify 2)))" "dispatch_ok (lab_request ''4'' (Completing lab_complete))"
  "dispatch_ok (lab_request ''5'' (Reserving (lab_reserve ''c'' Http_headers 4)))"
  by (simp_all add: dispatch_ok_def lab_request_def lab_uuids lab_roe_ok lab_start_def lab_clock_ok INTEGER_MAX_def lab_reserve_def reference_ok_def
      lab_reference_def zero_hashes lab_complete_def observed_ok_def observed_enough_def)

lemma lab_names: "lab_name x = lab_name y \<longleftrightarrow> x = y"
  by (simp add: lab_name_def)

section \<open>Steps\<close>

text \<open>What is known of an engine on the way.\<close>

definition at_stage :: "engine \<Rightarrow> string list \<Rightarrow> session_row list \<Rightarrow> reservation_row list \<Rightarrow> completion_row list \<Rightarrow> usage \<Rightarrow> int option \<Rightarrow> clock option \<Rightarrow> bool" where
  "at_stage e vs ws rs ks us high previous \<longleftrightarrow> (let x = eg_export e in kept zero_hash zero_uuid e \<and> dx_engagement x = lab_id
     \<and> map fst (dx_revisions x) = [lab_roe] \<and> map (\<lambda>v. dq_event (de_request v)) (dx_events x) = vs \<and> dx_sessions x = ws \<and> dx_reservations x = rs
     \<and> dx_completions x = ks \<and> ds_generation (dx_state x) = 0 \<and> \<not> ds_revoked (dx_state x) \<and> ds_usage (dx_state x) = us \<and> ds_high (dx_state x) = high
     \<and> clocks_of (dx_events x) (lab_name ''a'') = previous)"

lemma stageD:
  assumes "at_stage e vs ws rs ks us high previous"
  shows "kept zero_hash zero_uuid e" "dx_engagement (eg_export e) = lab_id" "map fst (dx_revisions (eg_export e)) = [lab_roe]"
    "map (\<lambda>v. dq_event (de_request v)) (dx_events (eg_export e)) = vs" "dx_sessions (eg_export e) = ws" "dx_reservations (eg_export e) = rs"
    "dx_completions (eg_export e) = ks" "ds_generation (dx_state (eg_export e)) = 0" "\<not> ds_revoked (dx_state (eg_export e))"
    "ds_usage (dx_state (eg_export e)) = us" "ds_high (dx_state (eg_export e)) = high" "clocks_of (dx_events (eg_export e)) (lab_name ''a'') = previous"
    "ds_revision (dx_state (eg_export e)) = 1" "current_roe (eg_export e) = lab_roe" "roe_of (eg_export e) 1 = lab_roe"
    "roe_at e 1 = lab_roe"
proof -
  show k: "kept zero_hash zero_uuid e" "dx_engagement (eg_export e) = lab_id" and r: "map fst (dx_revisions (eg_export e)) = [lab_roe]"
    and "map (\<lambda>v. dq_event (de_request v)) (dx_events (eg_export e)) = vs" "dx_sessions (eg_export e) = ws" "dx_reservations (eg_export e) = rs"
    "dx_completions (eg_export e) = ks" "ds_generation (dx_state (eg_export e)) = 0" "\<not> ds_revoked (dx_state (eg_export e))"
    "ds_usage (dx_state (eg_export e)) = us" "ds_high (dx_state (eg_export e)) = high" "clocks_of (dx_events (eg_export e)) (lab_name ''a'') = previous"
    using assms by (simp_all add: at_stage_def Let_def)
  obtain sha where rs: "dx_revisions (eg_export e) = [(lab_roe, sha)]" using r by (auto simp: map_eq_Cons_conv)
  then show n: "ds_revision (dx_state (eg_export e)) = 1" using indexedD(9) [OF keptD(5) [OF k(1)]] by simp
  show "roe_of (eg_export e) 1 = lab_roe" by (simp add: roe_of_def rs)
  then show "current_roe (eg_export e) = lab_roe" by (simp add: current_roe_def n)
  then show "roe_at e 1 = lab_roe" using current_at(1) [OF k(1)] n by (simp add: state_at_def)
qed

lemma stage_push:
  assumes s: "at_stage e vs ws rs ks us high previous" and q: "dispatch_ok (lab_request v c)" and n: "lab_name v \<notin> set vs" "length vs < 257"
    and m: "may_apply (eg_export e) c" and cl: "claim_session c = Some (lab_name ''a'')" "claim_clock c = Some k"
  shows "\<exists>e0 e'. transit zero_hash zero_uuid c e = Inr e0
    \<and> (dx_revisions (eg_export e0) = dx_revisions (eg_export e) \<and> ds_generation (dx_state (eg_export e0)) = 0 \<and> \<not> ds_revoked (dx_state (eg_export e0)) \<longrightarrow>
      at_stage e' (vs @ [lab_name v]) (dx_sessions (eg_export e0)) (dx_reservations (eg_export e0)) (dx_completions (eg_export e0))
        (ds_usage (dx_state (eg_export e0))) (noted_high c (ds_high (dx_state (eg_export e0)))) (Some k))"
proof -
  note d = stageD [OF s]
  let ?q = "lab_request v c"
  have qc: "dq_claim ?q = c" "dq_event ?q = lab_name v" "dq_engagement ?q = lab_id" by (simp_all add: lab_request_def)
  have ex: "claim_name c = ''complete'' \<or> dq_expected ?q = Some (1, 0)" using cl by (cases c) (simp_all add: lab_request_def)
  have "length (dx_events (eg_export e)) < 257" using d(4) n(2) by (metis length_map)
  moreover have "lab_name v \<notin> (\<lambda>v. dq_event (de_request v)) ` set (dx_events (eg_export e))" using d(4) n(1) by (metis set_map)
  ultimately have "admissible (eg_export e) ?q" using ex m d(2,8,9,13) by (auto simp: admissible_def qc)
  then obtain e' r where p: "push zero_hash zero_uuid ?q (Some e) = Inr (e', r)"
    using push_iff [OF d(1) zero_hashes(1,3) q] by auto
  then show ?thesis
  proof (cases rule: push_Inr)
    case (later f e0)
    have t: "transit zero_hash zero_uuid c e = Inr e0" using advance_engine_Inr(4) [OF later(3)] later(1) by (simp add: qc)
    have k': "kept zero_hash zero_uuid e'" using push_kept [OF p q zero_hashes(1)] d(1) by simp
    have log: "same_log e e0" by (rule transit_log [OF t keptD(5) [OF d(1)]])
    note rows = stamp_rows [OF later(4)] and cs = stamp_clocks [OF later(4)]
    have "clocks_of (dx_events (eg_export e')) = eg_clocks e'" using keptD(2) [OF k'] by (simp add: valued_def)
    also have "\<dots> = clock_note c (eg_clocks e)" using cs(1) transit_clocks [OF t] by (simp add: qc)
    finally have "clocks_of (dx_events (eg_export e')) (lab_name ''a'') = Some k" by (simp add: cl clock_note_def)
    then show ?thesis using t k' rows cs(2-4) log d(2-4)
      by (intro exI [of _ e0] exI [of _ e']) (auto simp: at_stage_def Let_def same_log_def state_at_def qc)
  qed simp
qed

lemma lab_opening:
  assumes p: "push zero_hash zero_uuid (lab_request ''1'' (Opening lab_roe)) None = Inr (e, r)"
  shows "at_stage e [lab_name ''1''] [] [] [] no_usage None None"
proof -
  let ?q = "lab_request ''1'' (Opening lab_roe)"
  have k: "kept zero_hash zero_uuid e" using push_kept [OF p lab_requests_ok(1) zero_hashes(1)] by simp
  from p show ?thesis
  proof (cases rule: push_Inr)
    case (first roe e0)
    have "clocks_of (dx_events (eg_export e)) = clock_note (dq_claim ?q) (eg_clocks e0)"
      using stamp_clocks(1) [OF first(4)] keptD(2) [OF k] by (simp add: valued_def)
    then show "at_stage e [lab_name ''1''] [] [] [] no_usage None None"
      using first(2,3) stamp_rows [OF first(4)] stamp_clocks [OF first(4)] k
      by (auto simp: at_stage_def Let_def open_engine_def res_simps lab_request_def clock_note_def noted_high_def state_at_def)
  qed simp
qed

lemma lab_opened: "\<exists>e. at_stage e [lab_name ''1''] [] [] [] no_usage None None"
  using push_new [OF lab_requests_ok(1) zero_hashes(1), of zero_uuid] lab_opening by (auto simp: lab_request_def)

text \<open>The session, the first dispatch and its completion, the second dispatch.\<close>

definition lab_session :: "string \<Rightarrow> session_row" where
  "lab_session policy = \<lparr>sw_session = lab_name ''a'', sw_owner = lab_id, sw_revision = 1, sw_generation = 0, sw_policy = policy,
     sw_clock = lab_clock 1, sw_original = 60000000000, sw_deadline = 60000000000\<rparr>"

lemma lab_may_start:
  assumes "at_stage e [lab_name ''1''] [] [] [] no_usage None None"
  shows "may_apply (eg_export e) (Starting lab_start)"
  by (simp add: may_apply_def may_start_def Let_def stageD [OF assms] lab_supported in_window_def room_def high_water_ok_def lab_window lab_start_def
      lab_clock_def SESSION_NS_def INTEGER_MAX_def)

lemma lab_started: "\<exists>e policy. at_stage e [lab_name ''1'', lab_name ''2''] [lab_session policy] [] [] no_usage (Some (ck_utc (lab_clock 1))) (Some (lab_clock 1))"
proof -
  obtain e where s: "at_stage e [lab_name ''1''] [] [] [] no_usage None None" using lab_opened by blast
  note d = stageD [OF s]
  let ?c = "Starting lab_start"
  have cl: "claim_session ?c = Some (lab_name ''a'')" "claim_clock ?c = Some (lab_clock 1)" by (simp_all add: lab_start_def)
  have m: "may_apply (eg_export e) ?c" by (rule lab_may_start [OF s])
  obtain e0 e' where t: "transit zero_hash zero_uuid ?c e = Inr e0"
    and st: "dx_revisions (eg_export e0) = dx_revisions (eg_export e) \<and> ds_generation (dx_state (eg_export e0)) = 0 \<and> \<not> ds_revoked (dx_state (eg_export e0)) \<longrightarrow>
      at_stage e' ([lab_name ''1''] @ [lab_name ''2'']) (dx_sessions (eg_export e0)) (dx_reservations (eg_export e0)) (dx_completions (eg_export e0))
        (ds_usage (dx_state (eg_export e0))) (noted_high ?c (ds_high (dx_state (eg_export e0)))) (Some (lab_clock 1))"
    using stage_push [OF s lab_requests_ok(2) _ _ m cl] lab_names by auto
  have ss: "start_session zero_hash lab_start e = Inr e0" using t by (simp add: transit_def)
  obtain policy e1 stop deadline where c: "cached_policy zero_hash e = Inr (policy, e1)"
    and w: "window_budget_of (roe_at e1 (ds_revision (state_at e))) (sl_clock lab_start) (sl_deadline lab_start) (ds_high (state_at e)) = Inr (stop, deadline)"
    and e0: "e0 = add_session \<lparr>sw_session = sl_session lab_start, sw_owner = sl_owner lab_start, sw_revision = ds_revision (state_at e),
        sw_generation = ds_generation (state_at e), sw_policy = policy, sw_clock = sl_clock lab_start, sw_original = sl_deadline lab_start,
        sw_deadline = deadline\<rparr> e1"
    using ss by (auto elim!: start_session_Inr)
  have "roe_at e1 1 = lab_roe" using cached_policy_total(2) [OF d(1) zero_hashes(1) c] d(16) by simp
  then have "deadline = 60000000000"
    using w d(13) window_end_iff [OF lab_clock_ok [of 1]]
    by (auto simp: window_budget_of_def res_simps state_at_def lab_start_def lab_window) (simp add: lab_clock_def)
  then have "dx_sessions (eg_export e0) = [lab_session policy]"
    using cached_policy_export [OF c] d by (simp add: e0 add_session_def lab_session_def lab_start_def state_at_def)
  moreover note start_session_rows [OF ss keptD(5) [OF d(1)]]
  ultimately have "at_stage e' [lab_name ''1'', lab_name ''2''] [lab_session policy] [] [] no_usage (noted_high ?c None) (Some (lab_clock 1))"
    using st d by (simp add: state_at_def)
  then show ?thesis by (auto simp: noted_high_def lab_start_def)
qed

definition lab_reserved :: "string \<Rightarrow> slot \<Rightarrow> int \<Rightarrow> reservation_row \<Rightarrow> bool" where
  "lab_reserved d k n row \<longleftrightarrow> rw_dispatch row = lab_name d \<and> rw_session row = lab_name ''a'' \<and> rw_owner row = lab_id \<and> rw_slot row = k
     \<and> rw_approval row = lab_reference n \<and> rw_audit row = lab_reference n \<and> rw_revision row = 1 \<and> rw_generation row = 0
     \<and> rw_cost row = slot_cost k 30000 \<and> 31000000000 \<le> rw_deadline row"

lemma lab_reserve_step:
  assumes s: "at_stage e vs [lab_session policy] rs ks us high previous" and q: "dispatch_ok (lab_request v (Reserving (lab_reserve d k n)))"
    and n: "lab_name v \<notin> set vs" "length vs < 257" and m: "may_reserve (eg_export e) (lab_reserve d k n)" and h: "high = Some h" "h \<noteq> 0" "h \<le> ck_utc (lab_clock n)"
    and rd: "\<forall>ready. ready_from (eg_export e) (lab_reserve d k n) (lab_session policy) ready \<longrightarrow> 1000000000 \<le> ready" and nn: "0 \<le> n" "n \<le> 1000"
  shows "\<exists>e' row. at_stage e' (vs @ [lab_name v]) [lab_session policy] (rs @ [row]) ks (add_usage us (slot_cost k 30000)) (Some (ck_utc (lab_clock n))) (Some (lab_clock n))
     \<and> lab_reserved d k n row"
proof -
  note dd = stageD [OF s]
  let ?c = "Reserving (lab_reserve d k n)"
  have a: "may_apply (eg_export e) ?c" using m by (simp add: may_apply_def)
  have cl: "claim_session ?c = Some (lab_name ''a'')" "claim_clock ?c = Some (lab_clock n)" by (simp_all add: lab_reserve_def)
  obtain e0 e' where t: "transit zero_hash zero_uuid ?c e = Inr e0"
    and st: "dx_revisions (eg_export e0) = dx_revisions (eg_export e) \<and> ds_generation (dx_state (eg_export e0)) = 0 \<and> \<not> ds_revoked (dx_state (eg_export e0)) \<longrightarrow>
      at_stage e' (vs @ [lab_name v]) (dx_sessions (eg_export e0)) (dx_reservations (eg_export e0)) (dx_completions (eg_export e0))
        (ds_usage (dx_state (eg_export e0))) (noted_high ?c (ds_high (dx_state (eg_export e0)))) (Some (lab_clock n))"
    using stage_push [OF s q n a cl] by blast
  have rr: "reserve_slot zero_hash zero_uuid (lab_reserve d k n) e = Inr e0" using t by (simp add: transit_def)
  obtain w ready cost latest stop action e1 row where so: "map_of (eg_sessions e) (rv_session (lab_reserve d k n)) = Some w"
    and re: "ready_at (lab_reserve d k n) w e = Inr ready"
    and co: "reservation_cost (roe_at e (sw_revision w)) (rv_slot (lab_reserve d k n)) = Inr cost"
    and la: "add_ns ready (us_runtime cost * 1000000) = Inr latest" and wi: "window_end (roe_at e (sw_revision w)) (rv_clock (lab_reserve d k n)) = Inr stop"
    and ac: "cached_action zero_hash zero_uuid (sw_revision w) (rv_slot (lab_reserve d k n)) e = Inr (action, e1)"
    and row: "row = \<lparr>rw_dispatch = rv_dispatch (lab_reserve d k n), rw_session = rv_session (lab_reserve d k n), rw_owner = rv_owner (lab_reserve d k n),
        rw_revision = sw_revision w, rw_generation = sw_generation w, rw_slot = rv_slot (lab_reserve d k n), rw_action = fst action,
        rw_action_sha256 = snd action, rw_policy = sw_policy w, rw_approval = rv_approval (lab_reserve d k n), rw_audit = rv_audit (lab_reserve d k n),
        rw_clock = rv_clock (lab_reserve d k n), rw_ready = ready, rw_deadline = min (min (sw_deadline w) latest) stop, rw_cost = cost\<rparr>"
    and e0: "e0 = add_reservation row e1"
    using rr by (rule reserve_slot_Inr)
  have w: "w = lab_session policy" using so find_session [OF dd(1)] dd(5) by simp
  have "roe_limit lab_roe ''max_action_ms'' = 30000" by code_simp
  then have cost: "cost = slot_cost k 30000" using co dd(16) by (simp add: w lab_session_def reservation_cost_def res_simps lab_reserve_def)
  have x: "eg_export e0 = (eg_export e)\<lparr>dx_reservations := rs @ [row], dx_state := (dx_state (eg_export e))\<lparr>ds_usage := add_usage us cost\<rparr>\<rparr>"
    using cached_action_export [OF ac] dd by (simp add: e0 add_reservation_def row)
  have "1000000000 \<le> ready" using re rd ready_at_iff [OF dd(1)] by (auto simp: w)
  moreover have "us_runtime (slot_cost k 30000) = 30000" by (cases k) simp_all
  ultimately have "31000000000 \<le> latest" using la by (auto simp: cost add_ns_def res_simps)
  moreover have "stop = 43200000000000"
    using wi window_end_iff [OF lab_clock_ok [OF nn]] dd(16) by (simp add: w lab_session_def lab_reserve_def lab_window) (simp add: lab_clock_def)
  ultimately have "lab_reserved d k n row"
    by (simp add: lab_reserved_def row w lab_session_def lab_reserve_def cost)
  moreover have "noted_high ?c (Some h) = Some (ck_utc (lab_clock n))" using h by (simp add: noted_high_def lab_reserve_def)
  ultimately show ?thesis using st dd x cost h(1) by auto
qed

lemma lab_first: "\<exists>e policy p. at_stage e [lab_name ''1'', lab_name ''2'', lab_name ''3''] [lab_session policy] [p] [] (slot_cost Http_identify 30000)
    (Some (ck_utc (lab_clock 2))) (Some (lab_clock 2)) \<and> lab_reserved ''b'' Http_identify 2 p"
proof -
  obtain e policy where s: "at_stage e [lab_name ''1'', lab_name ''2''] [lab_session policy] [] [] no_usage (Some (ck_utc (lab_clock 1))) (Some (lab_clock 1))"
    using lab_started by blast
  note d = stageD [OF s]
  let ?c = "lab_reserve ''b'' Http_identify 2"
  have lim: "roe_limit lab_roe ''max_action_ms'' = 30000" "within_caps (add_usage no_usage (slot_cost Http_identify 30000)) lab_roe" by code_simp+
  have "may_spend (eg_export e) ?c (lab_session policy) (lab_clock 1) 1000000000"
    using lim(2) by (simp add: may_spend_def Let_def d lim(1) lab_supported steady_def in_window_def room_def high_water_ok_def clock_agrees_def lab_window lab_reserve_def
        lab_session_def lab_clock_def INTEGER_MAX_def CLOCK_TOLERANCE_def)
  moreover have "ready_from (eg_export e) ?c (lab_session policy) 1000000000"
    by (simp add: ready_from_def lab_reserve_def lab_session_def lab_clock_def)
  ultimately have "may_reserve (eg_export e) ?c"
    unfolding may_reserve_def not_used_def d
    by (auto simp: d(12) lab_session_def lab_reserve_def intro!: exI [of _ "lab_clock 1"] exI [of _ 1000000000])
  then have "\<exists>e' row. at_stage e' ([lab_name ''1'', lab_name ''2''] @ [lab_name ''3'']) [lab_session policy] ([] @ [row]) []
      (add_usage no_usage (slot_cost Http_identify 30000)) (Some (ck_utc (lab_clock 2))) (Some (lab_clock 2)) \<and> lab_reserved ''b'' Http_identify 2 row"
    by (intro lab_reserve_step [OF s lab_requests_ok(3)])
      (simp_all add: lab_names ready_from_def lab_session_def lab_reserve_def, simp_all add: lab_clock_def)
  moreover have "add_usage no_usage (slot_cost Http_identify 30000) = slot_cost Http_identify 30000" by (simp add: add_usage_def no_usage_def)
  ultimately show ?thesis by auto
qed

definition lab_done :: completion_row where
  "lab_done = \<lparr>cw_dispatch = lab_name ''b'', cw_session = lab_name ''a'', cw_owner = lab_id, cw_reported = Reported_success,
     cw_observed = cp_observed lab_complete, cw_clock = lab_clock 3, cw_status = Valid_clock, cw_eligible = True\<rparr>"

lemma lab_completed: "\<exists>e policy p. at_stage e [lab_name ''1'', lab_name ''2'', lab_name ''3'', lab_name ''4''] [lab_session policy] [p] [lab_done]
    (slot_cost Http_identify 30000) (Some (ck_utc (lab_clock 3))) (Some (lab_clock 3)) \<and> lab_reserved ''b'' Http_identify 2 p"
proof -
  obtain e policy p where s: "at_stage e [lab_name ''1'', lab_name ''2'', lab_name ''3''] [lab_session policy] [p] [] (slot_cost Http_identify 30000)
    (Some (ck_utc (lab_clock 2))) (Some (lab_clock 2))" and p: "lab_reserved ''b'' Http_identify 2 p"
    using lab_first by blast
  note d = stageD [OF s]
  let ?c = "Completing lab_complete"
  have m: "may_apply (eg_export e) ?c"
    using p by (simp add: may_apply_def may_complete_def d lab_reserved_def lab_complete_def observed_within_def)
  have cl: "claim_session ?c = Some (lab_name ''a'')" "claim_clock ?c = Some (lab_clock 3)" by (simp_all add: lab_complete_def)
  obtain e0 e' where t: "transit zero_hash zero_uuid ?c e = Inr e0"
    and st: "dx_revisions (eg_export e0) = dx_revisions (eg_export e) \<and> ds_generation (dx_state (eg_export e0)) = 0 \<and> \<not> ds_revoked (dx_state (eg_export e0)) \<longrightarrow>
      at_stage e' ([lab_name ''1'', lab_name ''2'', lab_name ''3''] @ [lab_name ''4'']) (dx_sessions (eg_export e0)) (dx_reservations (eg_export e0))
        (dx_completions (eg_export e0)) (ds_usage (dx_state (eg_export e0))) (noted_high ?c (ds_high (dx_state (eg_export e0)))) (Some (lab_clock 3))"
    using stage_push [OF s lab_requests_ok(4) _ _ m cl] lab_names by auto
  have cc: "complete_dispatch lab_complete e = Inr e0" using t by (simp add: transit_def)
  then obtain session reserved status where so: "map_of (eg_sessions e) (cp_session lab_complete) = Some session"
    and re: "map_of (eg_reservations e) (cp_dispatch lab_complete) = Some reserved"
    and cs: "clock_status (roe_at e (rw_revision reserved)) (cp_clock lab_complete) (the (eg_clocks e (cp_session lab_complete))) (ds_high (state_at e))
      (min (rw_deadline reserved) (sw_deadline session)) = Inr status"
    and e0: "e0 = add_completion \<lparr>cw_dispatch = cp_dispatch lab_complete, cw_session = cp_session lab_complete, cw_owner = cp_owner lab_complete,
        cw_reported = cp_reported lab_complete, cw_observed = cp_observed lab_complete, cw_clock = cp_clock lab_complete, cw_status = status,
        cw_eligible = (rw_slot reserved = Http_identify \<and> cp_reported lab_complete = Reported_success \<and> \<not> ds_revoked (state_at e) \<and> status = Valid_clock
        \<and> rw_revision reserved = ds_revision (state_at e) \<and> rw_generation reserved = ds_generation (state_at e))\<rparr> e"
    by (rule complete_dispatch_Inr) blast
  have w: "session = lab_session policy" "reserved = p" using so re find_session [OF d(1)] find_reservation [OF d(1)] d(5,6) by simp_all
  have prev: "the (eg_clocks e (lab_name ''a'')) = lab_clock 2" using d(12) keptD(2) [OF d(1)] by (simp add: valued_def)
  have dl: "ck_after (lab_clock 3) < rw_deadline p" using p by (simp add: lab_reserved_def lab_clock_def)
  have "steady lab_roe (lab_clock 3) (lab_clock 2) (Some (ck_utc (lab_clock 2))) (min (rw_deadline p) (sw_deadline (lab_session policy)))"
    using dl by (simp add: steady_def in_window_def high_water_ok_def clock_agrees_def lab_window lab_session_def lab_clock_def CLOCK_TOLERANCE_def)
  then have "clock_status lab_roe (lab_clock 3) (lab_clock 2) (Some (ck_utc (lab_clock 2)))
      (min (rw_deadline p) (sw_deadline (lab_session policy))) = Inr Valid_clock"
    using clock_status_valid [OF lab_clock_ok [of 3]] by simp
  moreover have "clock_status lab_roe (lab_clock 3) (lab_clock 2) (Some (ck_utc (lab_clock 2)))
      (min (rw_deadline p) (sw_deadline (lab_session policy))) = Inr status"
    using cs prev p d by (simp add: w lab_complete_def lab_reserved_def state_at_def)
  ultimately have "status = Valid_clock" by simp
  then have "dx_completions (eg_export e0) = [lab_done]"
    using p d by (simp add: e0 add_completion_def w lab_done_def lab_reserved_def lab_complete_def state_at_def)
  moreover note complete_dispatch_rows(3-6) [OF cc keptD(5) [OF d(1)]]
  ultimately have "at_stage e' [lab_name ''1'', lab_name ''2'', lab_name ''3'', lab_name ''4''] [lab_session policy] [p] [lab_done]
    (slot_cost Http_identify 30000) (noted_high ?c (Some (ck_utc (lab_clock 2)))) (Some (lab_clock 3))"
    using st d by simp
  moreover have "noted_high ?c (Some (ck_utc (lab_clock 2))) = Some (ck_utc (lab_clock 3))" by (simp add: noted_high_def lab_complete_def lab_clock_def)
  ultimately show ?thesis using p by auto
qed

lemma lab_second: "\<exists>e policy p h. at_stage e [lab_name ''1'', lab_name ''2'', lab_name ''3'', lab_name ''4'', lab_name ''5''] [lab_session policy] [p, h] [lab_done]
    (add_usage (slot_cost Http_identify 30000) (slot_cost Http_headers 30000)) (Some (ck_utc (lab_clock 4))) (Some (lab_clock 4))
    \<and> lab_reserved ''b'' Http_identify 2 p \<and> lab_reserved ''c'' Http_headers 4 h"
proof -
  obtain e policy p where s: "at_stage e [lab_name ''1'', lab_name ''2'', lab_name ''3'', lab_name ''4''] [lab_session policy] [p] [lab_done]
    (slot_cost Http_identify 30000) (Some (ck_utc (lab_clock 3))) (Some (lab_clock 3))" and p: "lab_reserved ''b'' Http_identify 2 p"
    using lab_completed by blast
  note d = stageD [OF s]
  let ?c = "lab_reserve ''c'' Http_headers 4"
  have lim: "roe_limit lab_roe ''max_action_ms'' = 30000"
    "within_caps (add_usage (slot_cost Http_identify 30000) (slot_cost Http_headers 30000)) lab_roe" by code_simp+
  have "may_spend (eg_export e) ?c (lab_session policy) (lab_clock 3) 3000000000"
    using lim(2) by (simp add: may_spend_def Let_def d lim(1) lab_supported steady_def in_window_def room_def high_water_ok_def clock_agrees_def lab_window lab_reserve_def
        lab_session_def lab_clock_def INTEGER_MAX_def CLOCK_TOLERANCE_def)
  moreover have "ready_from (eg_export e) ?c (lab_session policy) 3000000000"
    using p by (simp add: ready_from_def d lab_reserve_def slot_key_def lab_reserved_def lab_done_def lab_clock_def)
  ultimately have "may_reserve (eg_export e) ?c"
    using p unfolding may_reserve_def not_used_def d
    by (auto simp: d(12) lab_session_def lab_reserve_def lab_reserved_def lab_names slot_key_def reference_key_def lab_reference_def
        intro!: exI [of _ "lab_clock 3"] exI [of _ 3000000000])
  then have "\<exists>e' row. at_stage e' ([lab_name ''1'', lab_name ''2'', lab_name ''3'', lab_name ''4''] @ [lab_name ''5'']) [lab_session policy] ([p] @ [row]) [lab_done]
      (add_usage (slot_cost Http_identify 30000) (slot_cost Http_headers 30000)) (Some (ck_utc (lab_clock 4))) (Some (lab_clock 4)) \<and> lab_reserved ''c'' Http_headers 4 row"
    by (intro lab_reserve_step [OF s lab_requests_ok(5)])
      (auto simp: lab_names ready_from_def lab_reserve_def d lab_done_def lab_clock_def)
  then show ?thesis using p by auto
qed

end
