(* ===== verification/DispatchStoreProps.thy ===== *)
theory DispatchStoreProps
  imports DispatchRuns DispatchDemo
begin

text \<open>The properties of the store of the dispatch ledger, each with a concrete store it applies to.\<close>

section \<open>A concrete store\<close>

definition lab_store :: "engine \<Rightarrow> dispatch_store" where
  "lab_store e = \<lparr>dt_db = ledger_db (eg_export e), dt_engagement = Some lab_id, dt_owner = lab_id, dt_open = True, dt_read_only = False, dt_failed = False\<rparr>"

abbreviation lab_second_request :: dispatch_request where
  "lab_second_request \<equiv> lab_request ''2'' (Starting lab_start)"

lemma lab_created:
  "\<exists>e e' r. create_ledger zero_hash zero_uuid healthy lab_id (PStr lab_id) (PStr (lab_name ''1'')) (roe_json lab_roe) = Inr (lab_store e)
    \<and> stored zero_hash zero_uuid e \<and> push zero_hash zero_uuid lab_second_request (Some e) = Inr (e', r) \<and> length (dx_events (eg_export e)) = 1
    \<and> dx_engagement (eg_export e) = lab_id \<and> find (\<lambda>v. dq_event (de_request v) = lab_name ''2'') (dx_events (eg_export e)) = None"
proof -
  let ?q = "lab_request ''1'' (Opening lab_roe)"
  obtain e r where p: "push zero_hash zero_uuid ?q None = Inr (e, r)"
    using push_new [OF lab_requests_ok(1) zero_hashes(1), of zero_uuid] by (auto simp: lab_request_def)
  have j: "dispatch_json ?q = opening_value (PStr lab_id) (PStr (lab_name ''1'')) (roe_json lab_roe)"
    by (simp add: dispatch_json_def opening_value_def lab_request_def optional_def)
  note v = validate_dispatch_json(1) [OF lab_requests_ok(1), unfolded j]
  note s = opening_persisted(1) [OF p lab_requests_ok(1) zero_hashes(1)]
  have st: "at_stage e [lab_name ''1''] [] [] [] no_usage None None"
    using lab_opening [OF p] .
  note d = stageD [OF st]
  have len: "length (dx_events (eg_export e)) = 1" using d(4) by (metis length_map length_Cons list.size(3) One_nat_def)
  have ids: "(\<lambda>v. dq_event (de_request v)) ` set (dx_events (eg_export e)) = {lab_name ''1''}" using d(4) by (metis list.set(1,2) set_map)
  have other: "\<forall>v \<in> set (dx_events (eg_export e)). dq_event (de_request v) = lab_name ''1''" using ids by blast
  have "admissible (eg_export e) lab_second_request"
    using lab_may_start [OF st] by (simp add: admissible_def ids len d lab_request_def lab_names)
  then obtain e' r' where "push zero_hash zero_uuid lab_second_request (Some e) = Inr (e', r')"
    using push_iff [OF d(1) zero_hashes(1,3) lab_requests_ok(2)] by auto
  moreover have "find (\<lambda>v. dq_event (de_request v) = lab_name ''2'') (dx_events (eg_export e)) = None"
    using other by (auto simp: find_None_iff lab_names)
  ultimately show ?thesis using create_healthy [OF v zero_hashes(1) p, of lab_id] s len d(2) by (auto simp: lab_store_def)
qed

lemma lab_stored: "stored zero_hash zero_uuid e \<Longrightarrow> dx_engagement (eg_export e) = lab_id \<Longrightarrow> has_ledger zero_hash zero_uuid (lab_store e) e"
  by (simp add: has_ledger_def lab_store_def)

lemma lab_usable: "ledger_usable (lab_store e)"
  by (simp add: ledger_usable_def lab_store_def)

lemma lab_owned: "dt_owner (lab_store e) = lab_id" "claim_owner (dq_claim lab_second_request) = Some lab_id" "dq_event lab_second_request = lab_name ''2''"
  by (simp_all add: lab_store_def lab_request_def lab_start_def)

section \<open>The engine in the store\<close>

lemma reconstructed_ledger:
  assumes "reconstruct H U v = Inr e" and "\<forall>z. is_hash (H z)" and "dt_db st = ledger_db (eg_export e)"
    and "dt_engagement st = Some (dx_engagement (eg_export e))"
  shows "hashes H" "has_ledger H U st e"
  using reconstruct_stored [OF assms(1)] assms(2-4) by (simp_all add: hashes_def has_ledger_def)

text \<open>
  C10: on the tables of a valid ledger the store answers every request as the engine in memory
  would - the recorded receipt for a recorded event, a conflict for a changed one, a refusal for
  another owner, and otherwise the transition - and leaves exactly the tables of the resulting
  ledger, which read back to it: no constraint, row size, cross-check or replay of a read ever
  refuses what the engine accepts. Whatever fails during a call, the tables afterwards are the old
  ones, with an error, or those of the same step, and only a failure after the commit hides its answer.
\<close>

theorem dispatch_store_implements:
  assumes "reconstruct H U v = Inr e" and "\<forall>z. is_hash (H z)" and "dt_db st = ledger_db (eg_export e)"
    and "dt_engagement st = Some (dx_engagement (eg_export e))" and "ledger_usable st" and "validate_dispatch w = Inr q"
  shows "submit_ledger H U healthy w st = (case ledger_next H U (dt_owner st) q e of
      Inl code \<Rightarrow> (Inl (public_code code), taint (public_code code) st) | Inr (a, e') \<Rightarrow> (Inr a, st\<lparr>dt_db := ledger_db (eg_export e')\<rparr>))
    \<and> (\<forall>env out st'. submit_ledger H U env w st = (out, st') \<longrightarrow> dt_db st' = dt_db st \<and> (\<exists>code. out = Inl code)
        \<or> (\<exists>a e'. ledger_next H U (dt_owner st) q e = Inr (a, e') \<and> dt_db st' = ledger_db (eg_export e')
            \<and> (out = Inr a \<or> settle_fault env \<noteq> None)))
    \<and> (\<forall>a e'. ledger_next H U (dt_owner st) q e = Inr (a, e') \<longrightarrow> ledger_checked H U None (ledger_db (eg_export e')) = Inr (eg_export e'))"
proof (intro conjI allI impI)
  note l = reconstructed_ledger [OF assms(1-4)]
  show "submit_ledger H U healthy w st = (case ledger_next H U (dt_owner st) q e of
      Inl code \<Rightarrow> (Inl (public_code code), taint (public_code code) st) | Inr (a, e') \<Rightarrow> (Inr a, st\<lparr>dt_db := ledger_db (eg_export e')\<rparr>))"
    by (rule submit_healthy [OF l assms(6,5)])
  show "dt_db st' = dt_db st \<and> (\<exists>code. out = Inl code) \<or> (\<exists>a e'. ledger_next H U (dt_owner st) q e = Inr (a, e')
      \<and> dt_db st' = ledger_db (eg_export e') \<and> (out = Inr a \<or> settle_fault env \<noteq> None))"
    if "submit_ledger H U env w st = (out, st')" for env out st'
    using submit_ledger_effect [OF that l] assms(6) unfolding has_ledger_def by auto
  show "ledger_checked H U None (ledger_db (eg_export e')) = Inr (eg_export e')"
    if "ledger_next H U (dt_owner st) q e = Inr (a, e')" for a e'
    using ledger_next_stored(1) [OF that _ l(1) validate_dispatch_ok [OF assms(6)]] l(2) checked_stored by (simp add: has_ledger_def)
qed

theorem dispatch_store_implements_witness:
  "\<exists>st r (e' :: engine). submit_ledger zero_hash zero_uuid healthy (dispatch_json lab_second_request) st = (Inr (False, r), st\<lparr>dt_db := ledger_db (eg_export e')\<rparr>)
    \<and> ledger_checked zero_hash zero_uuid None (ledger_db (eg_export e')) = Inr (eg_export e')"
proof -
  obtain e e' r where s: "stored zero_hash zero_uuid e" and p: "push zero_hash zero_uuid lab_second_request (Some e) = Inr (e', r)"
    and x: "dx_engagement (eg_export e) = lab_id" and f: "find (\<lambda>v. dq_event (de_request v) = lab_name ''2'') (dx_events (eg_export e)) = None"
    using lab_created by blast
  have z: "\<forall>z. is_hash (zero_hash z)" using zero_hashes(2) by blast
  have k: "kept zero_hash zero_uuid e" using s by (simp add: stored_def)
  have db: "dt_db (lab_store e) = ledger_db (eg_export e)" "dt_engagement (lab_store e) = Some (dx_engagement (eg_export e))"
    by (simp_all add: lab_store_def x)
  have n: "ledger_next zero_hash zero_uuid (dt_owner (lab_store e)) lab_second_request e = Inr ((False, r), e')"
    by (simp add: ledger_next_def lab_owned f p)
  note t = dispatch_store_implements [OF kept_validates(1) [OF k] z db lab_usable validate_dispatch_json(1) [OF lab_requests_ok(2)]]
  have "submit_ledger zero_hash zero_uuid healthy (dispatch_json lab_second_request) (lab_store e) = (Inr (False, r), lab_store e\<lparr>dt_db := ledger_db (eg_export e')\<rparr>)"
    using conjunct1 [OF t] n by simp
  moreover have "ledger_checked zero_hash zero_uuid None (ledger_db (eg_export e')) = Inr (eg_export e')" using conjunct2 [OF conjunct2 [OF t]] n by blast
  ultimately show ?thesis by blast
qed

section \<open>Runs\<close>

text \<open>
  C11: along every run of a created store - any operations with any arguments, failures before,
  during and after the commit, closing and reopening - the tables stay those of one engagement's
  ledger that passes the full replay, in which no dispatch, slot, approval or audit event is
  used twice; revisions, sessions, reservations, completions and events are only appended; and
  after a revocation nothing but completions is, none of them eligible for a follow-up.
\<close>

theorem dispatch_store_history:
  assumes "reach (ledger_start H U) (ledger_step H U) st" and "(ledger_step H U)\<^sup>*\<^sup>* st st'"
  shows "\<exists>x y. ledger_checked H U None (dt_db st) = Inr x \<and> ledger_checked H U None (dt_db st') = Inr y
    \<and> dt_db st' = ledger_db y \<and> validate_ledger H U (dispatch_export_json y) = Inr y \<and> used_once y
    \<and> dx_engagement y = dx_engagement x \<and> prefix (dx_revisions x) (dx_revisions y) \<and> prefix (dx_sessions x) (dx_sessions y)
    \<and> prefix (dx_reservations x) (dx_reservations y) \<and> prefix (dx_completions x) (dx_completions y) \<and> prefix (dx_events x) (dx_events y)
    \<and> (ds_revoked (dx_state x) \<longrightarrow> ds_revoked (dx_state y) \<and> dx_revisions y = dx_revisions x \<and> dx_sessions y = dx_sessions x
        \<and> dx_reservations y = dx_reservations x \<and> ds_usage (dx_state y) = ds_usage (dx_state x)
        \<and> (\<exists>rows. dx_completions y = dx_completions x @ rows \<and> list_all (\<lambda>c. \<not> cw_eligible c) rows))"
proof -
  note inv = ledger_runs.reach_inv [OF assms(1)]
  obtain e where e: "has_ledger H U st e" using inv unfolding ledger_inv_def by blast
  obtain e' where e': "has_ledger H U st' e'" using ledger_runs.steps_inv [OF assms(2) inv] unfolding ledger_inv_def by blast
  have l: "ledger_later (eg_export e) (eg_export e')"
    using ledger_runs.reach_rel [OF assms] has_ledger_in(2) [OF e] has_ledger_in(2) [OF e'] by (simp add: ledger_grows_def)
  have k: "kept H U e'" and db: "dt_db st' = ledger_db (eg_export e')" using e' by (simp_all add: has_ledger_def stored_def)
  show ?thesis
    using has_ledger_in(1) [OF e] has_ledger_in(1) [OF e'] db kept_validates(2) [OF k] keptD(7) [OF k] l
    unfolding ledger_later_def extends_def by (intro exI [of _ "eg_export e"] exI [of _ "eg_export e'"]) blast
qed

lemma lab_run:
  "\<exists>e e' r. reach (ledger_start zero_hash zero_uuid) (ledger_step zero_hash zero_uuid) (lab_store e)
    \<and> submit_ledger zero_hash zero_uuid healthy (dispatch_json lab_second_request) (lab_store e) = (Inr (False, r), lab_store e')
    \<and> ledger_step zero_hash zero_uuid (lab_store e) (lab_store e') \<and> dt_db (lab_store e') \<noteq> dt_db (lab_store e)"
proof -
  obtain e e' r where c: "create_ledger zero_hash zero_uuid healthy lab_id (PStr lab_id) (PStr (lab_name ''1'')) (roe_json lab_roe) = Inr (lab_store e)"
    and s: "stored zero_hash zero_uuid e" and p: "push zero_hash zero_uuid lab_second_request (Some e) = Inr (e', r)"
    and x: "dx_engagement (eg_export e) = lab_id" and f: "find (\<lambda>v. dq_event (de_request v) = lab_name ''2'') (dx_events (eg_export e)) = None"
    using lab_created by blast
  have "ledger_start zero_hash zero_uuid (lab_store e)" using c zero_hashes(1) unfolding ledger_start_def by blast
  then have reach: "reach (ledger_start zero_hash zero_uuid) (ledger_step zero_hash zero_uuid) (lab_store e)" by (rule reach_init)
  have n: "ledger_next zero_hash zero_uuid (dt_owner (lab_store e)) lab_second_request e = Inr ((False, r), e')"
    by (simp add: ledger_next_def lab_owned f p)
  note v = validate_dispatch_json(1) [OF lab_requests_ok(2)]
  have run: "submit_ledger zero_hash zero_uuid healthy (dispatch_json lab_second_request) (lab_store e) = (Inr (False, r), lab_store e')"
    using submit_healthy [OF zero_hashes(1) lab_stored [OF s x] v lab_usable] n by (simp add: lab_store_def)
  have "ledger_request (lab_store e) ''session'' (PDict [(''session_id'', PStr (lab_name ''a'')), (''owner_id'', PStr lab_id),
      (''clock'', clock_json (lab_clock 1)), (''original_deadline_ns'', PInt 60000000000)]) (PStr (lab_name ''2'')) (PInt 1) (PInt 0)
    = dispatch_json lab_second_request"
    by (simp add: ledger_request_def dispatch_json_def lab_request_def lab_store_def lab_start_def optional_def)
  then have "record_session zero_hash zero_uuid healthy (PStr (lab_name ''a'')) (clock_json (lab_clock 1)) (PInt 60000000000) (PStr (lab_name ''2'')) (PInt 1)
      (PInt 0) (lab_store e) = (Inr (False, r), lab_store e')"
    using run by (simp add: record_session_def lab_owned)
  then have step: "ledger_step zero_hash zero_uuid (lab_store e) (lab_store e')" by (rule run_session)
  have "length (dx_events (eg_export e')) = length (dx_events (eg_export e)) + 1"
    using push_event [OF p] s keptD(5) unfolding stored_def by force
  then have "dt_db (lab_store e') \<noteq> dt_db (lab_store e)"
    by (auto simp: lab_store_def ledger_db_def tables_def dest!: arg_cong [of _ _ length])
  with reach run step show ?thesis by blast
qed

theorem dispatch_store_history_witness:
  "\<exists>st st' x y. (ledger_step zero_hash zero_uuid)\<^sup>*\<^sup>* st st' \<and> dt_db st' \<noteq> dt_db st \<and> ledger_checked zero_hash zero_uuid None (dt_db st) = Inr x
    \<and> ledger_checked zero_hash zero_uuid None (dt_db st') = Inr y \<and> prefix (dx_events x) (dx_events y) \<and> used_once y"
proof -
  obtain e e' where run: "reach (ledger_start zero_hash zero_uuid) (ledger_step zero_hash zero_uuid) (lab_store e)"
    "ledger_step zero_hash zero_uuid (lab_store e) (lab_store e')" "dt_db (lab_store e') \<noteq> dt_db (lab_store e)"
    using lab_run by blast
  have steps: "(ledger_step zero_hash zero_uuid)\<^sup>*\<^sup>* (lab_store e) (lab_store e')" using run(2) by (rule r_into_rtranclp)
  show ?thesis using dispatch_store_history [OF run(1) steps] steps run(3) by blast
qed

section \<open>Retries\<close>

text \<open>
  C12: a submission that changed the tables, whether or not its answer arrived, is answered with
  its receipt by every later retry of the same request, through any usable handle - after any
  further operations, failures, closing and reopening, also read-only - and the retry changes nothing.
\<close>

theorem dispatch_retry_returns_receipt:
  assumes "reach (ledger_start H U) (ledger_step H U) st" and "submit_ledger H U env w st = (out, st1)" and "dt_db st1 \<noteq> dt_db st"
  shows "\<exists>r. (out = Inr (False, r) \<or> settle_fault env \<noteq> None)
    \<and> (\<forall>st2. (ledger_step H U)\<^sup>*\<^sup>* st1 st2 \<longrightarrow> dt_open st2 \<and> \<not> dt_failed st2 \<longrightarrow> retry_event H U healthy w st2 = (Inr (True, r), st2))"
proof -
  obtain e where h: "hashes H" and e: "has_ledger H U st e" using ledger_runs.reach_inv [OF assms(1)] unfolding ledger_inv_def by blast
  obtain q a e1 where v: "validate_dispatch w = Inr q" and n: "ledger_next H U (dt_owner st) q e = Inr (a, e1)"
    and e1: "has_ledger H U st1 e1" and out: "out = Inr a \<or> settle_fault env \<noteq> None"
    using submit_ledger_effect [OF assms(2) h e] assms(3) by blast
  have "e1 \<noteq> e" using assms(3) e e1 by (auto simp: has_ledger_def)
  then obtain r where p: "push H U q (Some e) = Inr (e1, r)" and a: "a = (False, r)"
    using n by (auto simp: ledger_next_def res_simps split: option.splits if_splits)
  have "indexed e" using e keptD(5) unfolding has_ledger_def stored_def by blast
  then obtain event where ev: "event \<in> set (dx_events (eg_export e1))" "de_request event = q" "de_receipt event = r"
    using push_event [OF p] by force
  have "retry_event H U healthy w st2 = (Inr (True, r), st2)" if steps: "(ledger_step H U)\<^sup>*\<^sup>* st1 st2" and u: "dt_open st2 \<and> \<not> dt_failed st2" for st2
  proof -
    have inv: "ledger_inv H U st1" using h e1 by (auto simp: ledger_inv_def)
    obtain e2 where e2: "has_ledger H U st2 e2" using ledger_runs.steps_inv [OF steps inv] by (auto simp: ledger_inv_def)
    have "ledger_later (eg_export e1) (eg_export e2)"
      using ledger_runs.steps_rel [OF steps inv] has_ledger_in(2) [OF e1] has_ledger_in(2) [OF e2] by (simp add: ledger_grows_def)
    then have "event \<in> set (dx_events (eg_export e2))" using ev(1) set_mono_prefix unfolding ledger_later_def extends_def by blast
    then have f: "find (\<lambda>v. dq_event (de_request v) = dq_event q) (dx_events (eg_export e2)) = Some event"
      using find_recorded [of H "eg_export e2"] e2 ev(2) by (auto simp: has_ledger_def stored_def)
    have c: "columns H (eg_export e2)" using e2 by (simp add: has_ledger_def stored_def)
    show ?thesis
      using u unfolding retry_event_def ledger_transaction_def inside_read [OF e2]
      by (simp add: healthy_ledger v existing_stored [OF c validate_dispatch_ok [OF v]] f ev(2,3) Let_def)
  qed
  then show ?thesis using out a by blast
qed

theorem dispatch_retry_returns_receipt_witness:
  "\<exists>st st1 r. submit_ledger zero_hash zero_uuid healthy (dispatch_json lab_second_request) st = (Inr (False, r), st1)
    \<and> retry_event zero_hash zero_uuid healthy (dispatch_json lab_second_request) st1 = (Inr (True, r), st1)"
proof -
  obtain e e' r where run: "reach (ledger_start zero_hash zero_uuid) (ledger_step zero_hash zero_uuid) (lab_store e)"
    "submit_ledger zero_hash zero_uuid healthy (dispatch_json lab_second_request) (lab_store e) = (Inr (False, r), lab_store e')"
    "dt_db (lab_store e') \<noteq> dt_db (lab_store e)"
    using lab_run by blast
  have "dt_open (lab_store e') \<and> \<not> dt_failed (lab_store e')" by (simp add: lab_store_def)
  then show ?thesis
    using dispatch_retry_returns_receipt [OF run] run(2) by (auto simp: healthy_ledger intro: rtranclp.rtrancl_refl)
qed

end
