(* ===== verification/DispatchProps.thy ===== *)
theory DispatchProps
  imports DispatchDemo
begin

text \<open>The properties of the dispatch ledger, each with a concrete ledger it applies to.\<close>

lemma ledger_engine:
  assumes "validate_ledger H U v = Inr x" and "\<forall>z. is_hash (H z)"
  obtains e where "kept H U e" "eg_export e = x"
proof -
  obtain e where e: "reconstruct H U v = Inr e" "x = eg_export e" using assms(1) by (auto simp: validate_ledger_Inr)
  have "kept H U e" by (rule reconstruct_kept [OF e(1)]) (use assms(2) in \<open>simp add: hashes_def\<close>)
  then show ?thesis using that e(2) by simp
qed

lemma lab_ledger: "\<exists>v x. validate_ledger zero_hash zero_uuid v = Inr x \<and> length (dx_reservations x) = 2 \<and> length (dx_completions x) = 1
    \<and> rw_slot (last (dx_reservations x)) = Http_headers \<and> us_connections (ds_usage (dx_state x)) = 4"
proof -
  obtain e policy p h where s: "at_stage e [lab_name ''1'', lab_name ''2'', lab_name ''3'', lab_name ''4'', lab_name ''5''] [lab_session policy] [p, h] [lab_done]
    (add_usage (slot_cost Http_identify 30000) (slot_cost Http_headers 30000)) (Some (ck_utc (lab_clock 4))) (Some (lab_clock 4))"
    "lab_reserved ''c'' Http_headers 4 h"
    using lab_second by blast
  note d = stageD [OF s(1)]
  show ?thesis using kept_validates(2) [OF d(1)] d(6,7,10) s(2)
    by (intro exI conjI) (auto simp: add_usage_def lab_reserved_def)
qed

section \<open>Acceptance\<close>

text \<open>
  C6: a dispatch ledger accepts exactly the requests that its export admits: a new event of the
  same engagement while the log has room, with the expected revision and generation and before
  revocation unless it completes a dispatch, and whose claim the rows, the window, the clocks and
  the allowances permit. No other step of the code - digests, dictionaries, size limits of the
  encoder, the independent replay of the stored ledger - ever refuses a request. An empty ledger
  accepts exactly the opening request.
\<close>

theorem dispatch_accepts_exactly:
  assumes "validate_ledger H U v = Inr x" and "validate_dispatch w = Inr q" and "\<forall>z. is_hash (H z)" and "\<forall>z. canonical_uuid (U z)"
  shows "((\<exists>y r. apply_request H U (Some x) q = Inr (y, r)) \<longleftrightarrow> admissible x q)
    \<and> ((\<exists>y r. apply_request H U None q = Inr (y, r)) \<longleftrightarrow> claim_name (dq_claim q) = ''create'')"
proof -
  have h: "hashes H" using assms(3) by (simp add: hashes_def)
  have q: "dispatch_ok q" by (rule validate_dispatch_ok [OF assms(2)])
  obtain e where k: "kept H U e" "eg_export e = x" using assms(1,3) by (rule ledger_engine)
  have "(\<exists>y r. apply_request H U (Some x) q = Inr (y, r)) \<longleftrightarrow> (\<exists>p. push H U q (Some e) = Inr p)"
    using apply_request_kept [OF k(1) q h] k(2) by (auto simp: res_simps)
  moreover have "(\<exists>y r. apply_request H U None q = Inr (y, r)) \<longleftrightarrow> (\<exists>p. push H U q None = Inr p)"
    using apply_request_new [OF q h] by (auto simp: res_simps)
  ultimately show ?thesis using push_iff [OF k(1) h assms(4) q] push_new [OF q h] k(2) by simp
qed

theorem dispatch_accepts_exactly_witness:
  "\<exists>v x y r. validate_ledger zero_hash zero_uuid v = Inr x
    \<and> apply_request zero_hash zero_uuid (Some x) (lab_request ''2'' (Starting lab_start)) = Inr (y, r)
    \<and> (\<nexists>y r. apply_request zero_hash zero_uuid (Some x) (lab_request ''4'' (Completing lab_complete)) = Inr (y, r))"
proof -
  obtain e where s: "at_stage e [lab_name ''1''] [] [] [] no_usage None None" using lab_opened by blast
  note d = stageD [OF s]
  have z: "\<forall>z. is_hash (zero_hash z)" using zero_hashes(2) by blast
  note t = dispatch_accepts_exactly [OF kept_validates(2) [OF d(1)] _ z zero_hashes(3)]
  have ids: "(\<lambda>v. dq_event (de_request v)) ` set (dx_events (eg_export e)) = {lab_name ''1''}" using d(4) by (metis list.set(1,2) set_map)
  have len: "length (dx_events (eg_export e)) = 1" using d(4) by (metis length_map length_Cons list.size(3) One_nat_def)
  have "admissible (eg_export e) (lab_request ''2'' (Starting lab_start))"
    using lab_may_start [OF s] by (simp add: admissible_def ids len d lab_request_def lab_names)
  then have "\<exists>y r. apply_request zero_hash zero_uuid (Some (eg_export e)) (lab_request ''2'' (Starting lab_start)) = Inr (y, r)"
    using t [OF validate_dispatch_json(1) [OF lab_requests_ok(2)]] by blast
  moreover have "\<not> admissible (eg_export e) (lab_request ''4'' (Completing lab_complete))"
    by (simp add: admissible_def may_apply_def may_complete_def d lab_request_def)
  then have "\<nexists>y r. apply_request zero_hash zero_uuid (Some (eg_export e)) (lab_request ''4'' (Completing lab_complete)) = Inr (y, r)"
    using t [OF validate_dispatch_json(1) [OF lab_requests_ok(4)]] by blast
  ultimately show ?thesis using kept_validates(2) [OF d(1)] by blast
qed

section \<open>Rows\<close>

text \<open>
  C7: in every ledger that validates, session ids, dispatch ids, the slots of a session, consumed
  approvals and audit events are each used once, a dispatch completes at most once; every
  completion belongs to a reservation of the same session and owner, reports no more than was
  reserved, and only an identified, reported success read by a valid clock is eligible; and a
  headers dispatch exists only after an eligible completion of the identify dispatch of its
  session, whose clock it starts from.
\<close>

theorem dispatch_used_once:
  assumes "validate_ledger H U v = Inr x"
  shows "distinct (map sw_session (dx_sessions x)) \<and> distinct (map rw_dispatch (dx_reservations x))
    \<and> distinct (map (\<lambda>r. (rw_session r, rw_slot r)) (dx_reservations x))
    \<and> distinct (map (\<lambda>r. reference_key (rw_approval r)) (dx_reservations x)) \<and> distinct (map (\<lambda>r. reference_key (rw_audit r)) (dx_reservations x))
    \<and> distinct (map cw_dispatch (dx_completions x))
    \<and> list_all (\<lambda>c. \<exists>r \<in> set (dx_reservations x). rw_dispatch r = cw_dispatch c \<and> rw_session r = cw_session c \<and> rw_owner r = cw_owner c
        \<and> observed_within (cw_observed c) (rw_cost r)
        \<and> (cw_eligible c \<longrightarrow> rw_slot r = Http_identify \<and> cw_reported c = Reported_success \<and> cw_status c = Valid_clock)) (dx_completions x)
    \<and> list_all (\<lambda>r. rw_slot r = Http_headers \<longrightarrow> (\<exists>p \<in> set (dx_reservations x). \<exists>c \<in> set (dx_completions x).
        rw_session p = rw_session r \<and> rw_slot p = Http_identify \<and> cw_dispatch c = rw_dispatch p \<and> cw_eligible c
        \<and> rw_ready r = ck_after (cw_clock c))) (dx_reservations x)"
proof -
  note f = ledger_fineD [OF validate_ledger_fine [OF assms]]
  then show ?thesis
    by (simp add: used_once_def slot_key_def [abs_def] completion_fine_def [abs_def] follows_up_def [abs_def])
qed

theorem dispatch_used_once_witness:
  "\<exists>v x r p. validate_ledger zero_hash zero_uuid v = Inr x \<and> r \<in> set (dx_reservations x) \<and> rw_slot r = Http_headers
    \<and> p \<in> set (dx_reservations x) \<and> rw_session p = rw_session r \<and> rw_slot p = Http_identify"
proof -
  obtain v x where x: "validate_ledger zero_hash zero_uuid v = Inr x" "length (dx_reservations x) = 2" "rw_slot (last (dx_reservations x)) = Http_headers"
    using lab_ledger by blast
  have "last (dx_reservations x) \<in> set (dx_reservations x)" using x(2) by (intro last_in_set) auto
  then show ?thesis using dispatch_used_once [OF x(1)] x(1,3) unfolding list_all_iff by blast
qed

lemma total_usage_sums:
  "us_actions (total_usage rs) = sum_list (map (\<lambda>r. us_actions (rw_cost r)) rs)"
  "us_connections (total_usage rs) = sum_list (map (\<lambda>r. us_connections (rw_cost r)) rs)"
  "us_request (total_usage rs) = sum_list (map (\<lambda>r. us_request (rw_cost r)) rs)"
  "us_response (total_usage rs) = sum_list (map (\<lambda>r. us_response (rw_cost r)) rs)"
  "us_runtime (total_usage rs) = sum_list (map (\<lambda>r. us_runtime (rw_cost r)) rs)"
  by (induction rs rule: rev_induct) (simp_all add: total_usage_def no_usage_def add_usage_def)

text \<open>
  C8: the counters of a ledger that validates are the sums over its reservations, whose costs are
  those of their slots under the rules of engagement of their revision, and they are
  within the limits of the revision under which the last reservation was made (a later revision
  may lower the limits, but nothing is reserved above them).
\<close>

theorem dispatch_spends_within:
  assumes "validate_ledger H U v = Inr x"
  shows "us_actions (ds_usage (dx_state x)) = int (length (dx_reservations x))
    \<and> us_connections (ds_usage (dx_state x)) = sum_list (map (\<lambda>r. us_connections (rw_cost r)) (dx_reservations x))
    \<and> us_request (ds_usage (dx_state x)) = sum_list (map (\<lambda>r. us_request (rw_cost r)) (dx_reservations x))
    \<and> us_response (ds_usage (dx_state x)) = sum_list (map (\<lambda>r. us_response (rw_cost r)) (dx_reservations x))
    \<and> us_runtime (ds_usage (dx_state x)) = sum_list (map (\<lambda>r. us_runtime (rw_cost r)) (dx_reservations x))
    \<and> list_all (\<lambda>r. rw_cost r = slot_cost (rw_slot r) (min 30000 (roe_limit (roe_of x (rw_revision r)) ''max_action_ms''))) (dx_reservations x)
    \<and> (dx_reservations x \<noteq> [] \<longrightarrow> list_all2 (\<le>) (usage_list (ds_usage (dx_state x))) (caps (roe_of x (rw_revision (last (dx_reservations x))))))"
proof -
  note f = ledger_fineD [OF validate_ledger_fine [OF assms]]
  have c: "list_all (\<lambda>r. rw_cost r = slot_cost (rw_slot r) (min 30000 (roe_limit (roe_of x (rw_revision r)) ''max_action_ms''))) (dx_reservations x)"
    using f(3) by (auto simp: list_all_iff reservation_fine_def Let_def)
  have one: "us_actions (slot_cost k ms) = 1" for k ms by (cases k) simp_all
  have "sum_list (map (\<lambda>r. us_actions (rw_cost r)) rs) = int (length rs)" if "\<forall>r \<in> set rs. us_actions (rw_cost r) = 1" for rs
    using that by (induction rs) auto
  moreover have "\<forall>r \<in> set (dx_reservations x). us_actions (rw_cost r) = 1" using c one by (auto simp: list_all_iff)
  ultimately have "sum_list (map (\<lambda>r. us_actions (rw_cost r)) (dx_reservations x)) = int (length (dx_reservations x))" by blast
  then show ?thesis using f(6) c by (auto simp: accounted_def total_usage_sums within_caps_def)
qed

theorem dispatch_spends_within_witness:
  "\<exists>v x. validate_ledger zero_hash zero_uuid v = Inr x \<and> us_actions (ds_usage (dx_state x)) = 2 \<and> us_connections (ds_usage (dx_state x)) = 4
    \<and> list_all2 (\<le>) (usage_list (ds_usage (dx_state x))) (caps (roe_of x (rw_revision (last (dx_reservations x)))))"
proof -
  obtain v x where x: "validate_ledger zero_hash zero_uuid v = Inr x" "length (dx_reservations x) = 2" "us_connections (ds_usage (dx_state x)) = 4"
    using lab_ledger by blast
  moreover have "dx_reservations x \<noteq> []" using x(2) by auto
  ultimately show ?thesis using dispatch_spends_within [OF x(1)] by auto
qed

text \<open>
  C9: every reservation of a ledger that validates is bound to a planned action of the declared
  scope of its revision and to the policy of the plan, which asks for an approval of that action;
  it belongs to a session with the same owner, revision, generation and policy, its clock was
  inside the window of the engagement, and its deadline is after that clock and no later than the
  session's deadline and than its allotted run time after the moment it became ready.
\<close>

theorem dispatch_bound_to_plan:
  assumes "validate_ledger H U v = Inr x" and "\<forall>z. is_hash (H z)" and "\<forall>z. canonical_uuid (U z)" and "r \<in> set (dx_reservations x)"
  shows "\<exists>c p w. plan_action H U (scope_json (roe_scope (roe_of x (rw_revision r)))) (PInt (slot_step (rw_slot r))) = Inr c
    \<and> dispatch_policy (roe_of x (rw_revision r)) = Inr p \<and> evaluate p c = Approval_required
    \<and> rw_action r = ac_id c \<and> rw_action_sha256 r = action_digest H c \<and> rw_policy r = policy_digest H p
    \<and> w \<in> set (dx_sessions x) \<and> sw_session w = rw_session r \<and> sw_owner w = rw_owner r \<and> sw_revision w = rw_revision r
    \<and> sw_generation w = rw_generation r \<and> sw_policy w = rw_policy r
    \<and> epoch_ns (roe_start (roe_of x (rw_revision r))) \<le> ck_utc (rw_clock r)
    \<and> ck_utc (rw_clock r) + (ck_after (rw_clock r) - ck_before (rw_clock r)) < epoch_ns (roe_end (roe_of x (rw_revision r)))
    \<and> ck_after (rw_clock r) < rw_deadline r \<and> rw_deadline r \<le> sw_deadline w
    \<and> rw_deadline r \<le> rw_ready r + us_runtime (rw_cost r) * 1000000"
proof -
  have h: "hashes H" using assms(2) by (simp add: hashes_def)
  obtain e where k: "kept H U e" "eg_export e = x" using assms(1,2) by (rule ledger_engine)
  note f = ledger_fineD [OF validate_ledger_fine [OF assms(1)]]
  have rf: "reservation_fine H U x r" using f(3) assms(4) by (simp add: list_all_iff)
  let ?roe = "roe_of x (rw_revision r)"
  have ok: "roe_ok ?roe" using known_roe_ok [OF _ reservation_known [OF f(2) rf]] keptD(8) [OF k(1)] k(2) by simp
  have sup: "supported ?roe" using rf by (simp add: reservation_fine_def Let_def)
  obtain w where w: "w \<in> set (dx_sessions x)" "from_session r w" using rf by (auto simp: reservation_fine_def)
  have "session_fine H x w" using f(2) w(1) by (simp add: list_all_iff)
  then have "rw_policy r = policy_digest H (prefix_policy ?roe)"
    using w(2) policy_sha256_eq [OF ok sup, of H] by (simp add: session_fine_def from_session_def)
  moreover have "rw_action r = ac_id (slot_action H U ?roe (rw_slot r)) \<and> rw_action_sha256 r = action_digest H (slot_action H U ?roe (rw_slot r))"
    using rf action_identity_eq [OF ok sup h assms(3), of "rw_slot r"] by (simp add: reservation_fine_def Let_def)
  moreover have "in_window ?roe (rw_clock r)" "ck_after (rw_clock r) < rw_deadline r" "rw_deadline r \<le> rw_ready r + us_runtime (rw_cost r) * 1000000"
    using rf unfolding reservation_fine_def Let_def by blast+
  ultimately show ?thesis
    using slot_action_plan [OF ok sup h assms(3)] dispatch_policy_eq [OF ok sup] slot_action_permitted [OF ok sup h assms(3)] w
    unfolding from_session_def in_window_def
    by (intro exI [of _ "slot_action H U ?roe (rw_slot r)"] exI [of _ "prefix_policy ?roe"] exI [of _ w]) simp
qed

theorem dispatch_bound_to_plan_witness:
  "\<exists>v x r c p. validate_ledger zero_hash zero_uuid v = Inr x \<and> r \<in> set (dx_reservations x) \<and> rw_slot r = Http_headers
    \<and> dispatch_policy (roe_of x (rw_revision r)) = Inr p \<and> evaluate p c = Approval_required \<and> rw_action_sha256 r = action_digest zero_hash c"
proof -
  obtain v x where x: "validate_ledger zero_hash zero_uuid v = Inr x" "length (dx_reservations x) = 2" "rw_slot (last (dx_reservations x)) = Http_headers"
    using lab_ledger by blast
  have r: "last (dx_reservations x) \<in> set (dx_reservations x)" using x(2) by (intro last_in_set) auto
  have z: "\<forall>z. is_hash (zero_hash z)" using zero_hashes(2) by blast
  show ?thesis using dispatch_bound_to_plan [OF x(1) z zero_hashes(3) r] x(1,3) r by blast
qed

section \<open>Runs\<close>

text \<open>
  What an accepted request leaves behind validates and replays to itself within the two
  megabytes of an export, and keeps the log: the old events, then one event with this request and
  the returned receipt.
\<close>

theorem dispatch_replays:
  assumes "validate_ledger H U v = Inr x" and "validate_dispatch w = Inr q" and "\<forall>z. is_hash (H z)"
    and "apply_request H U (Some x) q = Inr (y, r)"
  shows "validate_ledger H U (dispatch_export_json y) = Inr y \<and> length (canonical (dispatch_export_json y)) \<le> 2097152
    \<and> (\<exists>event. dx_events y = dx_events x @ [event] \<and> de_request event = q \<and> de_receipt event = r
        \<and> de_sequence event = int (length (dx_events x)) + 1)"
proof -
  have h: "hashes H" using assms(3) by (simp add: hashes_def)
  have q: "dispatch_ok q" by (rule validate_dispatch_ok [OF assms(2)])
  obtain e where k: "kept H U e" "eg_export e = x" using assms(1,3) by (rule ledger_engine)
  obtain e' where p: "push H U q (Some e) = Inr (e', r)" and y: "y = eg_export e'"
    using assms(4) unfolding k(2) [symmetric] apply_request_kept [OF k(1) q h] by (auto simp: res_simps)
  have k': "kept H U e'" using push_kept [OF p q h] k(1) by simp
  have "\<exists>event. dx_events y = dx_events x @ [event] \<and> de_request event = q \<and> de_receipt event = r
      \<and> de_sequence event = int (length (dx_events x)) + 1"
    using p
  proof (cases rule: push_Inr)
    case (later f e0)
    have log: "dx_events (eg_export e0) = dx_events x"
      using transit_log [OF advance_engine_Inr(4) [OF later(3)]] keptD(5) [OF k(1)] later(1) k(2) by (simp add: same_log_def)
    obtain e1 event where e1: "e1 = number_event (observe_clock (dq_claim q) e0)" and ev: "de_request event = q" "de_receipt event = r"
      "de_sequence event = int (length (dx_events (eg_export e0))) + 1"
      and e': "e' = e1\<lparr>eg_export := (eg_export e1)\<lparr>dx_events := dx_events (eg_export e1) @ [event]\<rparr>, eg_events := eg_events e1 @ [dq_event q]\<rparr>"
      using later(4) by (rule stamp_Inr)
    have "dx_events (eg_export e1) = dx_events x" using log by (simp add: e1 number_event_def observed_events)
    then show ?thesis using ev log by (simp add: y e')
  qed simp
  then show ?thesis
    using kept_validates(2) [OF k'] kept_encodes(1) [OF k'] by (simp add: y length_canonical len_def EXPORT_BYTES_def)
qed

theorem dispatch_replays_witness:
  "\<exists>v x y r. validate_ledger zero_hash zero_uuid v = Inr x \<and> apply_request zero_hash zero_uuid (Some x) (lab_request ''2'' (Starting lab_start)) = Inr (y, r)
    \<and> validate_ledger zero_hash zero_uuid (dispatch_export_json y) = Inr y \<and> length (dx_events y) = 2"
proof -
  obtain e where s: "at_stage e [lab_name ''1''] [] [] [] no_usage None None" using lab_opened by blast
  note d = stageD [OF s]
  have z: "\<forall>z. is_hash (zero_hash z)" using zero_hashes(2) by blast
  have len: "length (dx_events (eg_export e)) = 1" using d(4) by (metis length_map length_Cons list.size(3) One_nat_def)
  have ids: "(\<lambda>v. dq_event (de_request v)) ` set (dx_events (eg_export e)) = {lab_name ''1''}" using d(4) by (metis list.set(1,2) set_map)
  have "admissible (eg_export e) (lab_request ''2'' (Starting lab_start))"
    using lab_may_start [OF s] by (simp add: admissible_def ids len d lab_request_def lab_names)
  then obtain p where "push zero_hash zero_uuid (lab_request ''2'' (Starting lab_start)) (Some e) = Inr p"
    using push_iff [OF d(1) zero_hashes(1,3) lab_requests_ok(2)] by blast
  then obtain y r where a: "apply_request zero_hash zero_uuid (Some (eg_export e)) (lab_request ''2'' (Starting lab_start)) = Inr (y, r)"
    using apply_request_kept [OF d(1) lab_requests_ok(2) zero_hashes(1)] by (cases p) auto
  note t = dispatch_replays [OF kept_validates(2) [OF d(1)] validate_dispatch_json(1) [OF lab_requests_ok(2)] z a]
  then have "length (dx_events y) = 2" using len by auto
  then show ?thesis using t a kept_validates(2) [OF d(1)] by blast
qed

text \<open>
  Once an engagement is revoked it stays revoked under any sequence of requests: the
  revisions, sessions, reservations and counters never change again, and what is still completed
  is never eligible for a follow-up.
\<close>

theorem dispatch_revoked_is_final:
  assumes "reconstruct H U v = Inr e" and "ds_revoked (state_at e)" and "list_all (\<lambda>q. validate_dispatch (dispatch_json q) = Inr q) qs"
  shows "ds_revoked (state_at (drive H U qs e)) \<and> dx_revisions (eg_export (drive H U qs e)) = dx_revisions (eg_export e)
    \<and> dx_sessions (eg_export (drive H U qs e)) = dx_sessions (eg_export e)
    \<and> dx_reservations (eg_export (drive H U qs e)) = dx_reservations (eg_export e)
    \<and> ds_usage (state_at (drive H U qs e)) = ds_usage (state_at e)
    \<and> (\<exists>rows. dx_completions (eg_export (drive H U qs e)) = dx_completions (eg_export e) @ rows \<and> list_all (\<lambda>c. \<not> cw_eligible c) rows)"
proof -
  have "list_all dispatch_ok qs" using assms(3) validate_dispatch_ok by (auto simp: list_all_iff)
  then have "closing e (drive H U qs e)" using drive_closing [OF assms(2) reconstruct_lives [OF assms(1)]] by blast
  then show ?thesis by (simp add: closing_def list_all_iff)
qed

theorem dispatch_revoked_is_final_witness:
  "\<exists>v e. reconstruct zero_hash zero_uuid v = Inr e \<and> ds_revoked (state_at e)
    \<and> dx_sessions (eg_export (drive zero_hash zero_uuid [lab_request ''3'' (Starting lab_start)] e)) = dx_sessions (eg_export e)"
proof -
  obtain e where s: "at_stage e [lab_name ''1''] [] [] [] no_usage None None" using lab_opened by blast
  note d = stageD [OF s]
  let ?q = "lab_request ''2'' Revoking"
  have q: "dispatch_ok ?q" by (simp add: dispatch_ok_def lab_request_def lab_uuids)
  have len: "length (dx_events (eg_export e)) = 1" using d(4) by (metis length_map length_Cons list.size(3) One_nat_def)
  have ids: "(\<lambda>v. dq_event (de_request v)) ` set (dx_events (eg_export e)) = {lab_name ''1''}" using d(4) by (metis list.set(1,2) set_map)
  have "admissible (eg_export e) ?q" by (simp add: admissible_def ids len d lab_request_def lab_names may_apply_def)
  then obtain e' r where p: "push zero_hash zero_uuid ?q (Some e) = Inr (e', r)"
    using push_iff [OF d(1) zero_hashes(1,3) q] by auto
  have k: "kept zero_hash zero_uuid e'" using push_kept [OF p q zero_hashes(1)] d(1) by simp
  from p have v: "ds_revoked (state_at e')"
  proof (cases rule: push_Inr)
    case (later f e0)
    have "e0 = revoke_all e" using advance_engine_Inr(4) [OF later(3)] later(1) by (simp add: transit_def lab_request_def)
    then show ?thesis using stamp_rows(8) [OF later(4)] by (simp add: revoke_all_def state_at_def)
  qed simp
  have "dispatch_ok (lab_request ''3'' (Starting lab_start))"
    by (simp add: dispatch_ok_def lab_request_def lab_uuids lab_start_def lab_clock_ok INTEGER_MAX_def)
  then have qs: "list_all (\<lambda>q. validate_dispatch (dispatch_json q) = Inr q) [lab_request ''3'' (Starting lab_start)]"
    by (simp add: validate_dispatch_json)
  show ?thesis using dispatch_revoked_is_final [OF kept_validates(1) [OF k] v qs] kept_validates(1) [OF k] v by blast
qed

end
