(* ===== verification/Approvals.thy ===== *)
theory Approvals
  imports PolicyFacts
begin

text \<open>
  Human grants (\<open>secure_agent/approvals.py\<close>). The store is the dictionary of grants in insertion
  order; times are integers in microseconds and the reading of the clock and the random
  reference are arguments. A call returns its answer and the new store, also when it fails.
\<close>

record grant =
  gr_reference :: string
  gr_action :: string
  gr_policy :: string
  gr_expires :: int

type_synonym grants = "grant list"

definition CAPACITY :: nat where "CAPACITY = 1024"

definition microseconds :: "int \<Rightarrow> int" where
  "microseconds seconds = seconds * 1000000"

definition live :: "int \<Rightarrow> grants \<Rightarrow> grants" where
  "live now gs = filter (\<lambda>g. now < gr_expires g) gs"

text \<open>\<open>self._grants[reference] = grant\<close>.\<close>

definition put_grant :: "grant \<Rightarrow> grants \<Rightarrow> grants" where
  "put_grant g gs =
    (if gr_reference g \<in> set (map gr_reference gs) then update_where (\<lambda>h. gr_reference h = gr_reference g) (\<lambda>_. g) gs
     else gs @ [g])"

definition new_grant :: "(string \<Rightarrow> string) \<Rightarrow> int \<Rightarrow> string \<Rightarrow> action \<Rightarrow> policy \<Rightarrow> grant" where
  "new_grant H now reference c p = \<lparr>gr_reference = reference, gr_action = action_digest H c,
     gr_policy = policy_digest H p, gr_expires = now + microseconds (po_ttl p)\<rparr>"

definition issue :: "(string \<Rightarrow> string) \<Rightarrow> int \<Rightarrow> string \<Rightarrow> action \<Rightarrow> policy \<Rightarrow> grants \<Rightarrow> (string + grant) \<times> grants" where
  "issue H now reference c p gs =
    (if evaluate p c \<noteq> Approval_required then (Inl ''approval_not_required'', gs)
     else let gs' = live now gs in
       if CAPACITY \<le> length gs' then (Inl ''approval_capacity'', gs')
       else let g = new_grant H now reference c p in (Inr g, put_grant g gs'))"

definition consume_with_grant ::
  "(string \<Rightarrow> string) \<Rightarrow> int \<Rightarrow> string option \<Rightarrow> action \<Rightarrow> policy \<Rightarrow> grants \<Rightarrow> (string + grant) \<times> grants" where
  "consume_with_grant H now reference c p gs = (case reference of
     None \<Rightarrow> (Inl ''approval_missing'', gs)
   | Some r \<Rightarrow>
      if length r \<noteq> 48 then (Inl ''approval_unknown_or_replayed'', gs)
      else case find (\<lambda>g. gr_reference g = r) gs of
        None \<Rightarrow> (Inl ''approval_unknown_or_replayed'', gs)
      | Some g \<Rightarrow>
         let gs' = filter (\<lambda>h. gr_reference h \<noteq> r) gs in
         if gr_expires g \<le> now then (Inl ''approval_expired'', gs')
         else if gr_action g \<noteq> action_digest H c then (Inl ''approval_action_changed'', gs')
         else if gr_policy g \<noteq> policy_digest H p then (Inl ''approval_policy_changed'', gs')
         else (Inr g, gs'))"

definition consume :: "(string \<Rightarrow> string) \<Rightarrow> int \<Rightarrow> string option \<Rightarrow> action \<Rightarrow> policy \<Rightarrow> grants \<Rightarrow> string option \<times> grants" where
  "consume H now reference c p gs = (case consume_with_grant H now reference c p gs of
     (Inl e, gs') \<Rightarrow> (Some e, gs') | (Inr g, gs') \<Rightarrow> (None, gs'))"

section \<open>Grants are used once\<close>

definition grants_ok :: "grants \<Rightarrow> bool" where
  "grants_ok gs \<longleftrightarrow> distinct (map gr_reference gs) \<and> length gs \<le> CAPACITY"

lemma live_subset: "set (live now gs) \<subseteq> set gs"
  by (auto simp: live_def)

lemma distinct_filter: "distinct (map f xs) \<Longrightarrow> distinct (map f (filter P xs))"
  by (induction xs) auto

lemma put_grant_refs:
  "set (map gr_reference (put_grant g gs)) = insert (gr_reference g) (set (map gr_reference gs))"
  "distinct (map gr_reference gs) \<Longrightarrow> distinct (map gr_reference (put_grant g gs))"
proof -
  have m: "map gr_reference (update_where (\<lambda>h. gr_reference h = gr_reference g) (\<lambda>_. g) gs) = map gr_reference gs"
    by (rule map_update_where) simp
  show "set (map gr_reference (put_grant g gs)) = insert (gr_reference g) (set (map gr_reference gs))"
    unfolding put_grant_def if_distrib [of "map gr_reference"] m by auto
  show "distinct (map gr_reference (put_grant g gs))" if "distinct (map gr_reference gs)"
    using that unfolding put_grant_def if_distrib [of "map gr_reference"] m by auto
qed

lemma put_grant_members: "h \<in> set (put_grant g gs) \<Longrightarrow> h = g \<or> h \<in> set gs"
  by (auto simp: put_grant_def set_update_where split: if_splits)

lemma put_grant_length: "length gs < n \<Longrightarrow> length (put_grant g gs) \<le> n"
  by (simp add: put_grant_def)

lemma issue_ok:
  assumes "grants_ok gs"
  shows "grants_ok (snd (issue H now r c p gs))"
proof -
  have l: "distinct (map gr_reference (live now gs))" "length (live now gs) \<le> length gs"
    using assms by (auto simp: grants_ok_def live_def distinct_filter)
  then show ?thesis
    using assms put_grant_refs(2) put_grant_length [of "live now gs" CAPACITY]
    by (auto simp: issue_def Let_def grants_ok_def not_le)
qed

lemma issue_members: "g \<in> set (snd (issue H now r c p gs)) \<Longrightarrow> g \<in> set gs \<or> fst (issue H now r c p gs) = Inr g"
  using live_subset [of now gs] put_grant_members
  by (fastforce simp: issue_def Let_def split: if_splits)

lemma consume_ok: "grants_ok gs \<Longrightarrow> grants_ok (snd (consume_with_grant H now r c p gs))"
  by (auto simp: consume_with_grant_def Let_def grants_ok_def distinct_filter le_trans [OF length_filter_le]
    split: option.split)

lemma consume_members: "set (snd (consume_with_grant H now r c p gs)) \<subseteq> set gs"
  by (auto simp: consume_with_grant_def Let_def split: option.split)

text \<open>A successful use: the grant was in the store, is bound to this action and policy, has not expired and is gone.\<close>

lemma consume_Inr:
  assumes "consume_with_grant H now r c p gs = (Inr g, gs')"
  shows "r = Some (gr_reference g)" "g \<in> set gs" "gr_action g = action_digest H c" "gr_policy g = policy_digest H p"
    "now < gr_expires g" "gs' = filter (\<lambda>h. gr_reference h \<noteq> gr_reference g) gs"
  using assms by (auto simp: consume_with_grant_def Let_def dest!: find_key_Some split: option.splits if_splits)

text \<open>Any attempt with a known reference burns it.\<close>

lemma consume_burns:
  assumes "consume_with_grant H now (Some r) c p gs = (res, gs')" and "length r = 48"
  shows "r \<notin> set (map gr_reference gs')"
  using assms by (auto simp: consume_with_grant_def Let_def find_key_None split: option.splits if_splits)

end
