(* ===== verification/ApprovalHistory.thy ===== *)
theory ApprovalHistory
  imports Approvals
begin

text \<open>
  Whole histories of one approval store (\<open>secure_agent/approvals.py\<close>). The coordinator reviews
  (\<open>ApprovalStore.issue\<close>) and the controller uses (\<open>ApprovalStore.consume\<close>) in any order and for
  any actions and policies; \<open>after\<close> is the store they leave. The lemma \<open>outstanding_iff\<close> says
  which grants a history leaves usable, and \<open>consume_history\<close> which uses succeed.
\<close>

datatype approval_call =
    Review (call_time: int) string action policy
  | Use (call_time: int) "string option" action policy

primrec approval_step :: "(string \<Rightarrow> string) \<Rightarrow> approval_call \<Rightarrow> grants \<Rightarrow> grants" where
  "approval_step H (Review now r c p) gs = snd (issue H now r c p gs)"
| "approval_step H (Use now r c p) gs = snd (consume H now r c p gs)"

definition after :: "(string \<Rightarrow> string) \<Rightarrow> approval_call list \<Rightarrow> grants" where
  "after H xs = fold (approval_step H) xs []"

primrec review_refs :: "approval_call list \<Rightarrow> string list" where
  "review_refs [] = []"
| "review_refs (x # xs) = (case x of Review _ r _ _ \<Rightarrow> r # review_refs xs | Use _ _ _ _ \<Rightarrow> review_refs xs)"

text \<open>The clock does not go back and the random references of the reviews differ.\<close>

definition calls_ok :: "approval_call list \<Rightarrow> bool" where
  "calls_ok xs \<longleftrightarrow> sorted (map call_time xs) \<and> distinct (review_refs xs)"

text \<open>\<open>g\<close> was issued by a review of \<open>xs\<close> for \<open>c\<close> under \<open>p\<close> and its reference was not used after that.\<close>

definition outstanding ::
  "(string \<Rightarrow> string) \<Rightarrow> approval_call list \<Rightarrow> int \<Rightarrow> string \<Rightarrow> action \<Rightarrow> policy \<Rightarrow> grant \<Rightarrow> bool" where
  "outstanding H xs now r c p g \<longleftrightarrow> (\<exists>as bs. xs = as @ Review now r c p # bs
     \<and> fst (issue H now r c p (after H as)) = Inr g \<and> (\<forall>u e q. Use u (Some r) e q \<notin> set bs))"

lemma after_Nil [simp]: "after H [] = []"
  by (simp add: after_def)

lemma after_snoc [simp]: "after H (xs @ [x]) = approval_step H x (after H xs)"
  by (simp add: after_def)

lemma review_refs_append [simp]: "review_refs (xs @ ys) = review_refs xs @ review_refs ys"
  by (induction xs) (auto split: approval_call.split)

lemma calls_ok_snoc:
  "calls_ok (xs @ [x]) \<longleftrightarrow> calls_ok xs \<and> (\<forall>y\<in>set xs. call_time y \<le> call_time x)
     \<and> (\<forall>now r c p. x = Review now r c p \<longrightarrow> r \<notin> set (review_refs xs))"
  by (cases x) (auto simp: calls_ok_def sorted_append)

lemma snd_consume: "snd (consume H now r c p gs) = snd (consume_with_grant H now r c p gs)"
  by (auto simp: consume_def split: prod.split sum.split)

lemma step_grants_ok: "grants_ok gs \<Longrightarrow> grants_ok (approval_step H x gs)"
  by (cases x) (simp_all add: issue_ok consume_ok snd_consume)

lemma after_grants_ok: "grants_ok (after H xs)"
  by (induction xs rule: rev_induct) (simp_all add: step_grants_ok, simp add: grants_ok_def)

lemma issue_grant:
  "fst (issue H now r c p gs) = Inr g \<Longrightarrow> g = new_grant H now r c p \<and> snd (issue H now r c p gs) = put_grant g (live now gs)"
  by (auto simp: issue_def Let_def split: if_splits)

lemma issued_reference: "fst (issue H now r c p gs) = Inr g \<Longrightarrow> gr_reference g = r"
  by (drule issue_grant) (simp add: new_grant_def)

text \<open>What one call does to the grants that are still valid at \<open>T\<close>.\<close>

lemma put_fresh: "gr_reference g \<notin> set (map gr_reference gs) \<Longrightarrow> put_grant g gs = gs @ [g]"
  by (simp add: put_grant_def)

lemma after_refs: "gr_reference ` set (after H xs) \<subseteq> set (review_refs xs)"
proof (induction xs rule: rev_induct)
  case (snoc x xs)
  show ?case
  proof (cases x)
    case (Review now r c p)
    then show ?thesis using snoc issue_members [of _ H now r c p "after H xs"] issued_reference by fastforce
  next
    case (Use now r c p)
    then show ?thesis using snoc consume_members [of H now r c p "after H xs"] by (fastforce simp: snd_consume)
  qed
qed simp

lemma issue_live:
  assumes "r' \<notin> gr_reference ` set gs" and "now \<le> T" and "T < gr_expires g"
  shows "g \<in> set (snd (issue H now r' c p gs)) \<longleftrightarrow> g \<in> set gs \<or> fst (issue H now r' c p gs) = Inr g"
proof -
  have "r' \<notin> set (map gr_reference (live now gs))" using assms(1) live_subset by fastforce
  then have "put_grant (new_grant H now r' c p) (live now gs) = live now gs @ [new_grant H now r' c p]"
    by (intro put_fresh) (simp add: new_grant_def)
  then show ?thesis using assms(2,3) by (auto simp: issue_def Let_def live_def)
qed

lemma use_live:
  assumes "gr_reference g = r" and "length r = 48"
  shows "g \<in> set (snd (consume_with_grant H now r' c p gs)) \<longleftrightarrow> g \<in> set gs \<and> r' \<noteq> Some r"
  using assms by (auto simp: consume_with_grant_def Let_def find_key_None split: option.splits if_splits dest: find_key_Some)

lemma outstanding_snoc:
  "outstanding H (xs @ [x]) now r c p g \<longleftrightarrow>
     (x = Review now r c p \<and> fst (issue H now r c p (after H xs)) = Inr g)
     \<or> (outstanding H xs now r c p g \<and> (\<forall>u e q. x \<noteq> Use u (Some r) e q))"
proof
  assume "outstanding H (xs @ [x]) now r c p g"
  then obtain as bs where o: "xs @ [x] = as @ Review now r c p # bs"
    "fst (issue H now r c p (after H as)) = Inr g" "\<forall>u e q. Use u (Some r) e q \<notin> set bs"
    by (auto simp: outstanding_def)
  show "(x = Review now r c p \<and> fst (issue H now r c p (after H xs)) = Inr g)
     \<or> (outstanding H xs now r c p g \<and> (\<forall>u e q. x \<noteq> Use u (Some r) e q))"
  proof (cases bs rule: rev_cases)
    case Nil
    then show ?thesis using o by simp
  next
    case (snoc cs y)
    then have "xs = as @ Review now r c p # cs" "y = x" using o(1) by auto
    then have "outstanding H xs now r c p g \<and> (\<forall>u e q. x \<noteq> Use u (Some r) e q)"
      unfolding outstanding_def using o(2,3) snoc by (intro conjI exI [of _ as] exI [of _ cs]) auto
    then show ?thesis ..
  qed
next
  assume "(x = Review now r c p \<and> fst (issue H now r c p (after H xs)) = Inr g)
     \<or> (outstanding H xs now r c p g \<and> (\<forall>u e q. x \<noteq> Use u (Some r) e q))"
  then show "outstanding H (xs @ [x]) now r c p g"
  proof
    assume "x = Review now r c p \<and> fst (issue H now r c p (after H xs)) = Inr g"
    then show ?thesis unfolding outstanding_def by (intro exI [of _ xs] exI [of _ "[]"]) simp
  next
    assume a: "outstanding H xs now r c p g \<and> (\<forall>u e q. x \<noteq> Use u (Some r) e q)"
    then obtain as bs where "xs = as @ Review now r c p # bs" "fst (issue H now r c p (after H as)) = Inr g"
      "\<forall>u e q. Use u (Some r) e q \<notin> set bs" by (auto simp: outstanding_def)
    then show ?thesis unfolding outstanding_def using a by (intro exI [of _ as] exI [of _ "bs @ [x]"]) auto
  qed
qed

lemma outstanding_reference: "outstanding H xs now r c p g \<Longrightarrow> gr_reference g = r"
  by (auto simp: outstanding_def issued_reference)

text \<open>The grants of a reference that a history leaves valid at \<open>T\<close> are the outstanding ones.\<close>

lemma outstanding_iff:
  assumes "calls_ok xs" and "\<forall>x\<in>set xs. call_time x \<le> T" and "length r = 48" and "T < gr_expires g"
  shows "g \<in> set (after H xs) \<and> gr_reference g = r \<longleftrightarrow> (\<exists>now c p. outstanding H xs now r c p g)"
  using assms(1,2)
proof (induction xs rule: rev_induct)
  case Nil
  then show ?case by (simp add: outstanding_def)
next
  case (snoc x xs)
  have ih: "g \<in> set (after H xs) \<and> gr_reference g = r \<longleftrightarrow> (\<exists>now c p. outstanding H xs now r c p g)"
    using snoc by (simp add: calls_ok_snoc)
  show ?case
  proof (cases x)
    case (Review now r' c p)
    have "r' \<notin> gr_reference ` set (after H xs)" using snoc.prems(1) after_refs [of H xs] Review by (auto simp: calls_ok_snoc)
    from issue_live [OF this _ assms(4), of now H c p] snoc.prems(2)
    have "g \<in> set (after H (xs @ [x])) \<longleftrightarrow> g \<in> set (after H xs) \<or> fst (issue H now r' c p (after H xs)) = Inr g"
      by (simp add: Review)
    then show ?thesis using ih issued_reference [of H now r' c p "after H xs" g] unfolding outstanding_snoc by (auto simp: Review)
  next
    case (Use now r' c p)
    have "g \<in> set (after H (xs @ [x])) \<and> gr_reference g = r \<longleftrightarrow> (g \<in> set (after H xs) \<and> gr_reference g = r) \<and> r' \<noteq> Some r"
      using use_live [OF _ assms(3), of g H now r' c p "after H xs"] by (auto simp: Use snd_consume)
    then show ?thesis unfolding outstanding_snoc ih by (auto simp: Use)
  qed
qed

lemma consume_None_iff:
  assumes "grants_ok gs"
  shows "fst (consume H t (Some r) d q gs) = None \<longleftrightarrow> length r = 48 \<and> (\<exists>g\<in>set gs. gr_reference g = r
    \<and> t < gr_expires g \<and> gr_action g = action_digest H d \<and> gr_policy g = policy_digest H q)"
proof
  assume "fst (consume H t (Some r) d q gs) = None"
  then obtain g gs' where h: "consume_with_grant H t (Some r) d q gs = (Inr g, gs')"
    by (auto simp: consume_def split: prod.splits sum.splits)
  then have "length r = 48" by (auto simp: consume_with_grant_def split: if_splits)
  then show "length r = 48 \<and> (\<exists>g\<in>set gs. gr_reference g = r
    \<and> t < gr_expires g \<and> gr_action g = action_digest H d \<and> gr_policy g = policy_digest H q)"
    using consume_Inr [OF h] by auto
next
  assume a: "length r = 48 \<and> (\<exists>g\<in>set gs. gr_reference g = r
    \<and> t < gr_expires g \<and> gr_action g = action_digest H d \<and> gr_policy g = policy_digest H q)"
  then obtain g where g: "g \<in> set gs" "gr_reference g = r" "t < gr_expires g" "gr_action g = action_digest H d"
    "gr_policy g = policy_digest H q" by auto
  obtain h where h: "find (\<lambda>g. gr_reference g = r) gs = Some h" using g(1,2) by (cases "find (\<lambda>g. gr_reference g = r) gs") (auto simp: find_None_iff)
  then have "h = g" using find_key_Some [OF h] g(1,2) assms by (auto simp: grants_ok_def distinct_map inj_on_def)
  then show "fst (consume H t (Some r) d q gs) = None" using a g h by (simp add: consume_def consume_with_grant_def Let_def)
qed

text \<open>A use after a history succeeds exactly when its reference is outstanding for this action and policy.\<close>

lemma consume_history:
  assumes "calls_ok xs" and "\<forall>x\<in>set xs. call_time x \<le> t"
  shows "fst (consume H t (Some r) d q (after H xs)) = None \<longleftrightarrow> length r = 48 \<and>
    (\<exists>now c p g. outstanding H xs now r c p g \<and> t < now + microseconds (po_ttl p)
      \<and> action_digest H c = action_digest H d \<and> policy_digest H p = policy_digest H q)"
proof -
  have new: "gr_expires g = now + microseconds (po_ttl p)" "gr_action g = action_digest H c" "gr_policy g = policy_digest H p"
    if "outstanding H xs now r c p g" for now c p g
    using that by (auto simp: outstanding_def new_grant_def dest!: issue_grant)
  have iff: "g \<in> set (after H xs) \<and> gr_reference g = r \<longleftrightarrow> (\<exists>now c p. outstanding H xs now r c p g)"
    if "length r = 48" "t < gr_expires g" for g
    using outstanding_iff [OF assms that] .
  show ?thesis
    unfolding consume_None_iff [OF after_grants_ok] using iff new by metis
qed

lemma consume_again:
  assumes "fst (consume H t (Some r) d q gs) = None"
  shows "fst (consume H t' (Some r) e q' (snd (consume H t (Some r) d q gs))) \<noteq> None"
proof -
  obtain g gs' where h: "consume_with_grant H t (Some r) d q gs = (Inr g, gs')"
    using assms by (auto simp: consume_def split: prod.splits sum.splits)
  then have "length r = 48" by (auto simp: consume_with_grant_def split: if_splits)
  from consume_burns [OF h this] have "find (\<lambda>x. gr_reference x = r) gs' = None" by (auto simp: find_None_iff)
  then have "fst (consume H t' (Some r) e q' gs') \<noteq> None" by (simp add: consume_def consume_with_grant_def)
  then show ?thesis by (simp add: snd_consume h)
qed

end
