(* ===== verification/LoadJson.thy ===== *)
theory LoadJson
  imports JsonRead
begin

text \<open>
  What \<open>load_json\<close> (\<open>secure_agent/models.py\<close>) accepts and refuses: every value it returns is an
  object with distinct keys at every level, a printed value with a repeated key anywhere in it is
  refused as such, and so is a constant that JSON does not have.
\<close>

section \<open>What a reader returns\<close>

definition yields :: "('a \<Rightarrow> bool) \<Rightarrow> string + 'a \<times> string \<Rightarrow> bool" where
  "yields P m \<longleftrightarrow> (\<forall>x r. m = Inr (x, r) \<longrightarrow> P x)"

named_theorems yields_intros "what a reader returns"

lemma yields_Inl [yields_intros]: "yields P (Inl e)"
  by (simp add: yields_def)

lemma yields_Inr [yields_intros]: "P x \<Longrightarrow> yields P (Inr (x, r))"
  by (simp add: yields_def)

lemma yields_if [yields_intros]:
  "(b \<Longrightarrow> yields P m) \<Longrightarrow> (\<not> b \<Longrightarrow> yields P m') \<Longrightarrow> yields P (if b then m else m')"
  by simp

lemma yields_list [yields_intros]:
  "yields P m \<Longrightarrow> (\<And>c cs. yields P (f c cs)) \<Longrightarrow> yields P (case s of [] \<Rightarrow> m | c # cs \<Rightarrow> f c cs)"
  by (cases s) simp_all

lemma yields_require [yields_intros]: "(b \<Longrightarrow> yields P (f ())) \<Longrightarrow> yields P (bindE (require b e) f)"
  by (cases b) (simp_all add: yields_def)

lemma yields_bind: "yields Q m \<Longrightarrow> (\<And>x r. Q x \<Longrightarrow> yields P (f (x, r))) \<Longrightarrow> yields P (bindE m f)"
  by (cases m) (auto simp: yields_def, blast)

lemma yields_bind_any: "(\<And>x r. yields P (f (x, r))) \<Longrightarrow> yields P (bindE m f)"
  by (cases m) (auto simp: yields_Inl)

lemma read_nat_bound: "(\<forall>c \<in> set ds. is_digit c) \<Longrightarrow> read_nat a ds < (a + 1) * 10 ^ length ds"
proof (induction ds arbitrary: a)
  case (Cons c ds)
  have d: "of_char c - 48 \<le> (9 :: nat)" using Cons.prems is_digit_iff [of c] by auto
  have "read_nat a (c # ds) < (a * 10 + (of_char c - 48) + 1) * 10 ^ length ds"
    using Cons by simp
  also have "\<dots> \<le> (a * 10 + 10) * 10 ^ length ds" using d by (intro mult_right_mono) auto
  finally show ?case by (simp add: algebra_simps)
qed simp

lemma read_number_yields: "yields json_ok (read_number s)"
proof -
  define t where "t = (if s \<noteq> [] \<and> hd s = CHR ''-'' then tl s else s)"
  define ds where "ds = scan_digits t"
  have ok: "json_ok (PInt (if neg then - int (read_nat 0 ds) else int (read_nat 0 ds)))"
    if "length ds \<le> MAX_DIGITS" "ds \<noteq> []" for neg
  proof -
    have "\<forall>c \<in> set ds. is_digit c" by (auto simp: ds_def scan_digits_def is_digit_iff dest: set_takeWhileD)
    from read_nat_bound [OF this, of 0] have "int (read_nat 0 ds) < 10 ^ length ds"
      by (metis add_0 mult_1 of_nat_less_iff of_nat_numeral of_nat_power)
    then have "length (show_pos (int (read_nat 0 ds))) \<le> length ds" using that(2) by (intro length_show_pos) (auto simp: Suc_le_eq)
    then show ?thesis using that(1) by (auto simp: int_ok_def)
  qed
  show ?thesis
    unfolding read_number_def Let_def t_def [symmetric] ds_def [symmetric]
    by (intro yields_intros ok) auto
qed

lemma read_word_yields: "yields json_ok (read_word s)"
  unfolding read_word_def by (intro yields_intros read_number_yields) simp_all

text \<open>Every value read has distinct keys at every level and integers that Python converts.\<close>

lemma readers_yield:
  shows "yields json_ok (read_value n s)"
    and "yields (\<lambda>vs. \<forall>v \<in> set vs. json_ok v) (read_elements n s)"
    and "yields (\<lambda>kvs. \<forall>kv \<in> set kvs. json_ok (snd kv)) (read_members n s)"
proof (induction n arbitrary: s)
  case 0
  { case 1 show ?case by (simp add: yields_def) next
    case 2 show ?case by (simp add: yields_def) next
    case 3 show ?case by (simp add: yields_def) }
next
  case (Suc n)
  {
    case 1
    show ?case unfolding read_value.simps
    proof (intro yields_intros)
      fix cs
      show "yields json_ok (bindE (read_chars cs) (\<lambda>(t, r). Inr (PStr t, r)))"
        by (rule yields_bind_any) (simp add: yields_def)
      show "yields json_ok (bindE (read_members n (skip cs)) (\<lambda>(kvs, r).
          bindE (require (distinct (map fst kvs)) ''duplicate_json_key'') (\<lambda>_. Inr (PDict kvs, r))))"
        by (rule yields_bind [OF Suc.IH(3)]) (auto intro!: yields_intros simp: list_all_iff)
      show "yields json_ok (bindE (read_elements n (skip cs)) (\<lambda>(vs, r). Inr (PList vs, r)))"
        by (rule yields_bind [OF Suc.IH(2)]) (auto intro!: yields_intros simp: list_all_iff)
    qed (simp_all add: read_word_yields)
  next
    case 2
    show ?case unfolding read_elements.simps
    proof (rule yields_bind [OF Suc.IH(1)], unfold prod.case, intro yields_intros)
      fix v :: pyval and r' :: string assume v: "json_ok v"
      show "yields (\<lambda>vs. \<forall>v \<in> set vs. json_ok v) (bindE (read_elements n (skip r')) (\<lambda>(vs, r''). Inr (v # vs, r'')))"
        by (rule yields_bind [OF Suc.IH(2)]) (auto intro!: yields_intros simp: v)
    qed simp
  next
    case 3
    show ?case unfolding read_members.simps
    proof (intro yields_intros yields_bind_any, unfold prod.case, intro yields_intros, rule yields_bind [OF Suc.IH(1)], unfold prod.case,
        intro yields_intros)
      fix k :: string and v :: pyval and r' :: string assume v: "json_ok v"
      show "yields (\<lambda>kvs. \<forall>kv \<in> set kvs. json_ok (snd kv)) (bindE (read_members n (skip r')) (\<lambda>(kvs, r3). Inr ((k, v) # kvs, r3)))"
        by (rule yields_bind [OF Suc.IH(3)]) (auto intro!: yields_intros simp: v)
    qed simp
  }
qed

lemma load_json_Inr:
  "load_json x = Inr w \<longleftrightarrow> is_str x \<and> utf8_length (the_str x) \<le> MAX_JSON_BYTES \<and> read_json (the_str x) = Inr w \<and> is_dict w"
  by (auto simp: load_json_def res_simps)

lemma read_json_ok: "read_json s = Inr w \<Longrightarrow> json_ok w"
  using readers_yield(1) [of "2 * length s + 2" "skip s"]
  by (auto simp: read_json_def res_simps yields_def simp del: read_value.simps add_2_eq_Suc')

section \<open>Repeated keys\<close>

text \<open>A printed value whose integers Python converts; keys may repeat.\<close>

primrec printable :: "pyval \<Rightarrow> bool" where
  "printable PNone = True" | "printable (PBool b) = True" | "printable (PInt i) = int_ok i"
| "printable (PStr s) = True" | "printable (PList xs) = list_all id (map printable xs)"
| "printable (PDict kvs) = list_all snd (map (map_prod id printable) kvs)"

definition repeats :: "string + 'a" where
  "repeats = Inl ''duplicate_json_key''"

text \<open>Reading the text of \<open>v\<close> back finds the repeated key.\<close>

definition found_out :: "pyval \<Rightarrow> bool" where
  "found_out v \<longleftrightarrow> (\<forall>n r. depth v \<le> n \<longrightarrow> stops r \<longrightarrow> read_value n (dumps v @ r) = repeats)"

lemma found_outD: "found_out v \<Longrightarrow> depth v \<le> n \<Longrightarrow> stops r \<Longrightarrow> read_value n (dumps v @ r) = repeats"
  by (simp add: found_out_def)

lemma repeats_bind [simp]: "bindE repeats f = repeats"
  by (simp add: repeats_def)

lemma read_elements_repeats:
  assumes "\<forall>x \<in> set xs. reads_back x \<or> found_out x" and "\<exists>x \<in> set xs. found_out x"
    and "sum_list (map (\<lambda>x. Suc (depth x)) xs) \<le> n"
  shows "read_elements n (join '','' (map dumps xs) @ CHR '']'' # r) = repeats"
  using assms
proof (induction xs arbitrary: n)
  case (Cons x xs)
  then obtain m where n: "n = Suc m" by (cases n) auto
  have d: "depth x \<le> m" using Cons.prems(3) n by simp
  show ?case
  proof (cases "found_out x")
    case True
    have "read_value m (dumps x @ t) = repeats" if "stops t" for t using found_outD [OF True d that] .
    then show ?thesis using n by (cases "xs = []") (simp_all add: join_Cons stops_intros)
  next
    case False
    then have ne: "xs \<noteq> []" and x: "reads_back x" using Cons.prems(1,2) by auto
    let ?rest = "join '','' (map dumps xs) @ CHR '']'' # r"
    have "read_value m (dumps x @ CHR '','' # ?rest) = Inr (x, CHR '','' # ?rest)"
      using x d by (intro reads_backD stops_intros)
    moreover have "read_elements m ?rest = repeats" using Cons False n by simp
    ultimately show ?thesis using ne n by (simp add: join_Cons skip_stop skip_join_dumps)
  qed
qed simp

lemma read_members_repeats:
  assumes "\<forall>kv \<in> set kvs. reads_back (snd kv) \<or> found_out (snd kv)" and "\<exists>kv \<in> set kvs. found_out (snd kv)"
    and "sum_list (map (\<lambda>kv. Suc (depth (snd kv))) kvs) \<le> n"
  shows "read_members n (join '','' (map entry kvs) @ CHR ''}'' # r) = repeats"
  using assms
proof (induction kvs arbitrary: n)
  case (Cons kv kvs)
  then obtain m where n: "n = Suc m" by (cases n) auto
  obtain k v where kv: "kv = (k, v)" by (cases kv)
  have d: "depth v \<le> m" using Cons.prems(3) n kv by simp
  have key: "entry (k, v) @ t = CHR 0x22 # (concat (map escape_char k) @ CHR 0x22 # CHR '':'' # dumps v @ t)" for t
    by (simp add: entry_def json_string_def)
  show ?case
  proof (cases "found_out v")
    case True
    have "read_value m (dumps v @ t) = repeats" if "stops t" for t using found_outD [OF True d that] .
    then show ?thesis using n
      by (cases "kvs = []") (simp_all add: kv join_Cons key read_json_string skip_stop skip_dumps stops_intros)
  next
    case False
    then have ne: "kvs \<noteq> []" and v: "reads_back v" using Cons.prems(1,2) kv by auto
    let ?rest = "join '','' (map entry kvs) @ CHR ''}'' # r"
    have "read_value m (dumps v @ CHR '','' # ?rest) = Inr (v, CHR '','' # ?rest)"
      using v d by (intro reads_backD stops_intros)
    moreover have "read_members m ?rest = repeats" using Cons False n kv by simp
    ultimately show ?thesis
      using ne n by (simp add: join_Cons key read_json_string skip_stop skip_dumps skip_join_entries kv)
  qed
qed simp

theorem repeats_found: "printable v \<Longrightarrow> \<not> json_ok v \<Longrightarrow> found_out v"
proof (induction v)
  case (PList xs)
  then have each: "\<forall>x \<in> set xs. reads_back x \<or> found_out x" and bad: "\<exists>x \<in> set xs. found_out x"
    using read_value_dumps by (auto simp: list_all_iff)
  show ?case unfolding found_out_def
  proof (intro allI impI)
    fix n r assume d: "depth (PList xs) \<le> n" and "stops r"
    then obtain m where n: "n = Suc m" by (cases n) auto
    have m: "sum_list (map (\<lambda>x. Suc (depth x)) xs) \<le> m" using d n by (simp add: comp_def)
    have ne: "xs \<noteq> []" using bad by auto
    have "hd (join '','' (map dumps xs) @ CHR '']'' # r) \<noteq> CHR '']''"
      using join_head [of "map dumps xs" "CHR '']''" "'',''"] dumps_head ne by auto
    then show "read_value n (dumps (PList xs) @ r) = repeats"
      using n ne read_elements_repeats [OF each bad m, of r] by (simp add: skip_join_dumps)
  qed
next
  case (PDict kvs)
  then have each: "\<forall>kv \<in> set kvs. reads_back (snd kv) \<or> found_out (snd kv)"
    and bad: "\<not> distinct (map fst kvs) \<or> (\<exists>kv \<in> set kvs. found_out (snd kv))"
    using read_value_dumps by (fastforce simp: list_all_iff snds.simps)+
  show ?case unfolding found_out_def
  proof (intro allI impI)
    fix n r assume d: "depth (PDict kvs) \<le> n" and "stops r"
    then obtain m where n: "n = Suc m" by (cases n) auto
    have m: "sum_list (map (\<lambda>kv. Suc (depth (snd kv))) kvs) \<le> m" using d n by (simp add: comp_def)
    have ne: "kvs \<noteq> []" using bad by auto
    have "hd (join '','' (map entry kvs) @ CHR ''}'' # r) \<noteq> CHR ''}''"
      using join_head [of "map entry kvs" "CHR ''}''" "'',''"] entry_head ne by auto
    moreover have "read_members m (join '','' (map entry kvs) @ CHR ''}'' # r)
        = (if \<exists>kv \<in> set kvs. found_out (snd kv) then repeats else Inr (kvs, r))"
      using read_members_repeats [OF each _ m] read_members_join [OF _ ne m] each by auto
    ultimately show "read_value n (dumps (PDict kvs) @ r) = repeats"
      unfolding dumps_PDict using n ne bad by (simp add: skip_join_entries require_def repeats_def split: if_splits)
  qed
qed simp_all

lemma read_json_repeats:
  assumes "printable v" and "\<not> json_ok v"
  shows "read_json (dumps v) = repeats"
proof -
  have "read_value (2 * length (dumps v) + 2) (dumps v @ []) = repeats"
    by (rule found_outD [OF repeats_found [OF assms]]) (use depth_le [of v] in \<open>simp_all add: stops_def\<close>)
  moreover have "skip (dumps v) = dumps v" using skip_dumps [of v "[]"] by simp
  ultimately show ?thesis unfolding read_json_def by (simp add: skip_def del: read_value.simps add_2_eq_Suc')
qed

section \<open>Constants\<close>

lemma read_constant:
  assumes "w \<in> {''NaN'', ''Infinity'', ''-Infinity''}"
  shows "read_json (''{'' @ json_string k @ '':'' @ w @ t) = Inl ''invalid_json_constant''"
proof -
  have word: "read_value (Suc n) (w @ t) = Inl ''invalid_json_constant''" for n
    using assms by (auto simp: read_word_def starts_with_def)
  have skip: "skip (w @ t) = w @ t" "skip (CHR '':'' # x) = CHR '':'' # x" for x
    using assms by (auto simp: skip_def json_space_def)
  let ?s = "''{'' @ json_string k @ '':'' @ w @ t"
  have "length ?s \<ge> 3" using assms by (auto simp: json_string_def)
  then obtain n where n: "2 * length ?s + 2 = Suc (Suc (Suc (Suc n)))"
    by (metis (no_types, lifting) Suc_le_D add_2_eq_Suc' mult_2 add_Suc_right numeral_3_eq_3 add_Suc)
  have k: "skip (json_string k @ x) = json_string k @ x" for x
    by (simp add: json_string_def skip_def json_space_def)
  have "read_members (Suc (Suc (Suc n))) (json_string k @ '':'' @ w @ t) = Inl ''invalid_json_constant''"
    using word [of "Suc n"] by (simp add: json_string_def read_json_string skip del: read_value.simps)
  then show ?thesis
    unfolding read_json_def n using k [of "'':'' @ w @ t"] by (simp add: skip_def json_space_def json_string_def)
qed

end
