(* ===== verification/Effects.thy ===== *)
theory Effects
  imports Prelude
begin

text \<open>
  Stateful code that may raise: a computation maps a state to a result and the state it leaves,
  also when it raises. \<open>triple P m Q E\<close> states that from \<open>P\<close> the computation returns in \<open>Q\<close> or
  raises in \<open>E\<close>; the collection \<open>triples\<close> holds the rules of the operations.
\<close>

type_synonym ('s, 'e, 'a) eff = "'s \<Rightarrow> ('e + 'a) \<times> 's"

definition ret :: "'a \<Rightarrow> ('s, 'e, 'a) eff" where
  "ret x s = (Inr x, s)"

definition raise :: "'e \<Rightarrow> ('s, 'e, 'a) eff" where
  "raise e s = (Inl e, s)"

definition seqS :: "('s, 'e, 'a) eff \<Rightarrow> ('a \<Rightarrow> ('s, 'e, 'b) eff) \<Rightarrow> ('s, 'e, 'b) eff" where
  "seqS m f s = (case m s of (Inl e, s') \<Rightarrow> (Inl e, s') | (Inr x, s') \<Rightarrow> f x s')"

text \<open>\<open>try: m except: handler\<close>, where the handler may raise again.\<close>

definition catchS :: "('s, 'e, 'a) eff \<Rightarrow> ('e \<Rightarrow> ('s, 'e, 'a) eff) \<Rightarrow> ('s, 'e, 'a) eff" where
  "catchS m h s = (case m s of (Inl e, s') \<Rightarrow> h e s' | (Inr x, s') \<Rightarrow> (Inr x, s'))"

definition reads :: "('s \<Rightarrow> 'a) \<Rightarrow> ('s, 'e, 'a) eff" where
  "reads f s = (Inr (f s), s)"

definition modify :: "('s \<Rightarrow> 's) \<Rightarrow> ('s, 'e, unit) eff" where
  "modify f s = (Inr (), f s)"

definition guard :: "bool \<Rightarrow> 'e \<Rightarrow> ('s, 'e, unit) eff" where
  "guard b e = (if b then ret () else raise e)"

definition triple :: "('s \<Rightarrow> bool) \<Rightarrow> ('s, 'e, 'a) eff \<Rightarrow> ('a \<Rightarrow> 's \<Rightarrow> bool) \<Rightarrow> ('e \<Rightarrow> 's \<Rightarrow> bool) \<Rightarrow> bool" where
  "triple P m Q E \<longleftrightarrow> (\<forall>s. P s \<longrightarrow> (case m s of (Inl e, s') \<Rightarrow> E e s' | (Inr x, s') \<Rightarrow> Q x s'))"

named_theorems triples "rules of effectful operations"

lemma tripleI:
  "(\<And>s e s'. P s \<Longrightarrow> m s = (Inl e, s') \<Longrightarrow> E e s') \<Longrightarrow> (\<And>s x s'. P s \<Longrightarrow> m s = (Inr x, s') \<Longrightarrow> Q x s')
    \<Longrightarrow> triple P m Q E"
  by (auto simp: triple_def split: prod.splits sum.splits)

lemma tripleD:
  assumes "triple P m Q E" and "P s"
  shows "m s = (Inl e, s') \<Longrightarrow> E e s'" and "m s = (Inr x, s') \<Longrightarrow> Q x s'"
  using assms by (auto simp: triple_def dest!: spec [of _ s])

lemma triple_seq [triples]:
  assumes "triple P m R E" and "\<And>x. triple (R x) (f x) Q E"
  shows "triple P (seqS m f) Q E"
proof (rule tripleI)
  fix s e s' assume p: "P s" and m: "seqS m f s = (Inl e, s')"
  show "E e s'"
  proof (cases "m s")
    case (Pair r t)
    then show ?thesis using m p tripleD [OF assms(1) p, of _ t] tripleD(1) [OF assms(2)]
      by (cases r) (auto simp: seqS_def)
  qed
next
  fix s x s' assume p: "P s" and m: "seqS m f s = (Inr x, s')"
  show "Q x s'"
  proof (cases "m s")
    case (Pair r t)
    then show ?thesis using m p tripleD [OF assms(1) p, of _ t] tripleD(2) [OF assms(2)]
      by (cases r) (auto simp: seqS_def)
  qed
qed

lemma triple_catch [triples]:
  assumes "triple P m Q F" and "\<And>e. triple (F e) (h e) Q E"
  shows "triple P (catchS m h) Q E"
proof (rule tripleI)
  fix s e s' assume p: "P s" and m: "catchS m h s = (Inl e, s')"
  show "E e s'"
  proof (cases "m s")
    case (Pair r t)
    then show ?thesis using m p tripleD [OF assms(1) p, of _ t] tripleD(1) [OF assms(2)]
      by (cases r) (auto simp: catchS_def)
  qed
next
  fix s x s' assume p: "P s" and m: "catchS m h s = (Inr x, s')"
  show "Q x s'"
  proof (cases "m s")
    case (Pair r t)
    then show ?thesis using m p tripleD [OF assms(1) p, of _ t] tripleD(2) [OF assms(2)]
      by (cases r) (auto simp: catchS_def)
  qed
qed

lemma triple_conseq:
  assumes "triple P m Q E" and "\<And>s. P' s \<Longrightarrow> P s" and "\<And>x s. Q x s \<Longrightarrow> Q' x s" and "\<And>e s. E e s \<Longrightarrow> E' e s"
  shows "triple P' m Q' E'"
  using tripleD [OF assms(1)] assms(2-4) by (intro tripleI) blast+

lemma triple_pre: "triple P m Q E \<Longrightarrow> (\<And>s. P' s \<Longrightarrow> P s) \<Longrightarrow> triple P' m Q E"
  by (auto simp: triple_def)

lemma triple_ret [triples]: "(\<And>s. P s \<Longrightarrow> Q x s) \<Longrightarrow> triple P (ret x) Q E"
  by (simp add: triple_def ret_def)

lemma triple_raise [triples]: "(\<And>s. P s \<Longrightarrow> E e s) \<Longrightarrow> triple P (raise e) Q E"
  by (simp add: triple_def raise_def)

lemma triple_reads [triples]: "triple P (reads f) (\<lambda>x s. P s \<and> x = f s) E"
  by (simp add: triple_def reads_def)

lemma triple_modify [triples]: "(\<And>s. P s \<Longrightarrow> Q () (f s)) \<Longrightarrow> triple P (modify f) Q E"
  by (simp add: triple_def modify_def)

lemma triple_guard [triples]: "(\<And>s. P s \<Longrightarrow> \<not> b \<Longrightarrow> E e s) \<Longrightarrow> triple P (guard b e) (\<lambda>_ s. P s \<and> b) E"
  by (auto simp: triple_def guard_def ret_def raise_def)

text \<open>Rules that keep a predicate and forget what was read or tested.\<close>

lemma triple_reads_keep: "triple P (reads f) (\<lambda>_. P) E"
  by (simp add: triple_def reads_def)

lemma triple_guard_keep: "(\<And>s. P s \<Longrightarrow> E e s) \<Longrightarrow> triple P (guard b e) (\<lambda>_. P) E"
  by (simp add: triple_def guard_def ret_def raise_def)

lemma triple_if [triples]:
  "(b \<Longrightarrow> triple P m Q E) \<Longrightarrow> (\<not> b \<Longrightarrow> triple P m' Q E) \<Longrightarrow> triple P (if b then m else m') Q E"
  by simp

lemma triple_option [triples]:
  "(v = None \<Longrightarrow> triple P m Q E) \<Longrightarrow> (\<And>x. v = Some x \<Longrightarrow> triple P (f x) Q E)
    \<Longrightarrow> triple P (case v of None \<Rightarrow> m | Some x \<Rightarrow> f x) Q E"
  by (cases v) simp_all

lemma triple_sum [triples]:
  "(\<And>e. v = Inl e \<Longrightarrow> triple P (g e) Q E) \<Longrightarrow> (\<And>x. v = Inr x \<Longrightarrow> triple P (f x) Q E)
    \<Longrightarrow> triple P (case v of Inl e \<Rightarrow> g e | Inr x \<Rightarrow> f x) Q E"
  by (cases v) simp_all

lemma triple_False: "triple (\<lambda>s. False) m Q E"
  by (simp add: triple_def)

end
