(* ===== verification/ControllerModel.thy ===== *)
theory ControllerModel
  imports Approvals Effects
begin

text \<open>
  The single path from a proposal to an execution (\<open>secure_agent/controller.py\<close>) and the
  session deadline it observes (\<open>execution.py\<close>). The state is the controller's flags, the grants
  and a trace: the durable audit events and, as ghost entries, every grant issued, every grant
  used and every launch of the backend. What the surroundings answer (durability of an audit
  write, the clock, the deadline, the backend, the evidence sink) is a record of functions of the
  position in the trace, so a theorem about all records covers every behaviour of them. A sink that
  fails raises \<open>AuditUnavailable\<close>, the one exception \<open>_emit\<close> handles; other exceptions of a sink are
  not modelled.
\<close>

section \<open>State and surroundings\<close>

datatype failure =
    Audit_unavailable
  | Approval_unavailable
  | Evidence_unavailable
  | Stopped string
  | Value_error string
  | Protocol_error
  | Component_failed

record outcome =
  oc_action :: "(string \<times> string \<times> string \<times> string) option"
  oc_decision :: string
  oc_reasons :: "string list"
  oc_status :: string
  oc_reference :: "string option"
  oc_execution :: "string option"
  oc_metadata :: "pyval option"
  oc_result :: "pyval option"

datatype effect =
    Emitted string outcome "(string \<times> pyval) list"
  | Noted string "(string \<times> pyval) list"
  | Granted grant
  | Consumed grant
  | Launched action

record ctl_state =
  cs_audit_failed :: bool
  cs_approval_failed :: bool
  cs_grants :: grants
  cs_checks :: nat
  cs_trace :: "effect list"

datatype probe = Available | Refused | Broken

datatype run_answer =
    Returned pyval
  | Halted string
  | No_isolation
  | Crashed
  | Escaped

record env =
  en_policy :: policy
  en_session :: "string option"
  en_backend :: string
  en_evidence :: bool
  en_digest :: "string \<Rightarrow> string"
  en_audit :: "nat \<Rightarrow> bool"
  en_stop :: "nat \<Rightarrow> string option"
  en_now :: "nat \<Rightarrow> int"
  en_approvals :: "nat \<Rightarrow> bool"
  en_available :: "nat \<Rightarrow> action \<Rightarrow> probe"
  en_start :: "nat \<Rightarrow> string option"
  en_run :: "nat \<Rightarrow> action \<Rightarrow> run_answer"
  en_finish :: "nat \<Rightarrow> bool"

type_synonym 'a ctl = "(ctl_state, failure, 'a) eff"

definition position :: "ctl_state \<Rightarrow> nat" where
  "position s = length (cs_trace s)"

definition log :: "effect \<Rightarrow> ctl_state \<Rightarrow> ctl_state" where
  "log x s = s\<lparr>cs_trace := cs_trace s @ [x]\<rparr>"

text \<open>\<open>_emit\<close>: after one failed write nothing is written any more.\<close>

definition emit :: "env \<Rightarrow> effect \<Rightarrow> unit ctl" where
  "emit e x s =
    (if cs_audit_failed s then (Inl Audit_unavailable, s)
     else if en_audit e (position s) then (Inr (), log x s)
     else (Inl Audit_unavailable, s\<lparr>cs_audit_failed := True\<rparr>))"

text \<open>\<open>_evidence_call\<close>: a failure of the evidence sink closes the audit path as well.\<close>

definition evidence_start :: "env \<Rightarrow> string ctl" where
  "evidence_start e s =
    (if cs_audit_failed s then (Inl Evidence_unavailable, s)
     else case en_start e (position s) of
       Some i \<Rightarrow> if canonical_uuid i then (Inr i, s) else (Inl Evidence_unavailable, s\<lparr>cs_audit_failed := True\<rparr>)
     | None \<Rightarrow> (Inl Evidence_unavailable, s\<lparr>cs_audit_failed := True\<rparr>))"

definition evidence_finish :: "env \<Rightarrow> unit ctl" where
  "evidence_finish e s =
    (if cs_audit_failed s then (Inl Evidence_unavailable, s)
     else if en_finish e (position s) then (Inr (), s)
     else (Inl Evidence_unavailable, s\<lparr>cs_audit_failed := True\<rparr>))"

text \<open>\<open>ExecutionControl.check\<close>: the n-th check passes or stops the session.\<close>

definition check :: "env \<Rightarrow> unit ctl" where
  "check e s = (let s' = s\<lparr>cs_checks := cs_checks s + 1\<rparr> in
    case en_stop e (cs_checks s) of None \<Rightarrow> (Inr (), s') | Some r \<Rightarrow> (Inl (Stopped r), s'))"

definition check_if :: "bool \<Rightarrow> env \<Rightarrow> unit ctl" where
  "check_if b e = (if b then check e else ret ())"

text \<open>\<open>approvals.consume\<close>, through a service that may be unavailable.\<close>

definition use_approval :: "env \<Rightarrow> string option \<Rightarrow> action \<Rightarrow> string option ctl" where
  "use_approval e reference c s =
    (if \<not> en_approvals e (position s) then (Inl Approval_unavailable, s)
     else case consume_with_grant (en_digest e) (en_now e (position s)) reference c (en_policy e) (cs_grants s) of
       (Inl r, gs) \<Rightarrow> (Inr (Some r), s\<lparr>cs_grants := gs\<rparr>)
     | (Inr g, gs) \<Rightarrow> (Inr None, log (Consumed g) (s\<lparr>cs_grants := gs\<rparr>)))"

text \<open>The trusted review, outside the controller: \<open>approvals.issue\<close>.\<close>

definition grant_approval :: "env \<Rightarrow> string \<Rightarrow> action \<Rightarrow> string ctl" where
  "grant_approval e reference c s =
    (case issue (en_digest e) (en_now e (position s)) reference c (en_policy e) (cs_grants s) of
       (Inl r, gs) \<Rightarrow> (Inl (Value_error r), s\<lparr>cs_grants := gs\<rparr>)
     | (Inr g, gs) \<Rightarrow> (Inr (gr_reference g), log (Granted g) (s\<lparr>cs_grants := gs\<rparr>)))"

section \<open>Result metadata\<close>

definition METADATA_KEYS :: "string list" where
  "METADATA_KEYS = [''bytes_received'', ''truncated'', ''http_status'', ''duration_ms'']"

definition metadata_entry :: "pyval \<Rightarrow> string \<Rightarrow> (string \<times> pyval) list" where
  "metadata_entry v k = (case item v k of
     PBool b \<Rightarrow> [(k, PBool b)]
   | PInt i \<Rightarrow> if 0 \<le> i \<and> i \<le> 10 ^ 9 then [(k, PInt i)] else []
   | _ \<Rightarrow> [])"

lemma item_size: "item v k = PList rows \<Longrightarrow> x \<in> set rows \<Longrightarrow> size x < size v"
proof -
  assume i: "item v k = PList rows" and x: "x \<in> set rows"
  obtain kvs where v: "v = PDict kvs" using i by (cases v) (auto simp: item_def)
  have m: "(k, PList rows) \<in> set kvs" using i by (auto simp: v item_PDict split: option.splits dest: map_of_SomeD)
  have "size x < size (PList rows)" using size_list_estimation' [OF x, of "size x" size] by simp
  moreover have "size (PList rows) \<le> size v"
    using size_list_estimation' [OF m, of "size (PList rows)" "size_prod (\<lambda>_. 0) size"] by (simp add: v size_list_conv_sum_list)
  ultimately show ?thesis by simp
qed

function result_metadata :: "pyval \<Rightarrow> pyval" where
  "result_metadata v = PDict (concat (map (metadata_entry v) METADATA_KEYS)
     @ (case item v ''results'' of
          PList rows \<Rightarrow> [(''results'', PList (map result_metadata (filter is_dict (take 16 rows))))]
        | _ \<Rightarrow> []))"
  by pat_completeness auto
termination
  by (relation "measure size") (auto intro: item_size dest: in_set_takeD)

declare result_metadata.simps [simp del]

section \<open>Submission\<close>

definition STATUSES :: "string list" where
  "STATUSES = [''succeeded'', ''failed'', ''timeout'', ''output_limit'', ''blocked'', ''cancelled'']"

definition status_of :: "pyval \<Rightarrow> string" where
  "status_of result = (if str_in STATUSES (item result ''status'') then the_str (item result ''status'') else ''failed'')"

definition status_result :: "string \<Rightarrow> pyval" where
  "status_result status = PDict [(''status'', PStr status)]"

definition base_outcome :: "string \<Rightarrow> string list \<Rightarrow> string \<Rightarrow> outcome" where
  "base_outcome decided reasons status = \<lparr>oc_action = None, oc_decision = decided, oc_reasons = reasons,
     oc_status = status, oc_reference = None, oc_execution = None, oc_metadata = None, oc_result = None\<rparr>"

definition action_summary :: "env \<Rightarrow> action \<Rightarrow> string \<times> string \<times> string \<times> string" where
  "action_summary e c = (ac_id c, action_digest (en_digest e) c, ac_tool c, ac_target c)"

text \<open>The arguments of a call of \<open>submit\<close> that the trusted caller chooses.\<close>

record call =
  ca_execute :: bool
  ca_reference :: "string option"
  ca_interactive :: bool
  ca_control :: bool
  ca_step :: "int option"

definition blocked :: "env \<Rightarrow> string \<Rightarrow> string \<Rightarrow> outcome \<Rightarrow> outcome ctl" where
  "blocked e kind reason out = (let out' = out\<lparr>oc_status := ''blocked'', oc_reasons := [reason]\<rparr> in
     seqS (emit e (Emitted kind out' [])) (\<lambda>_. ret out'))"

text \<open>The backend ran, or raised: the result and the reasons that replace the decision's.\<close>

definition run_backend :: "env \<Rightarrow> call \<Rightarrow> action \<Rightarrow> (pyval \<times> string list option) ctl" where
  "run_backend e a c =
    catchS
      (seqS (check_if (ca_control a) e) (\<lambda>_.
       seqS (modify (log (Launched c))) (\<lambda>_.
       seqS (reads position) (\<lambda>n. case en_run e n c of
         Returned r \<Rightarrow> ret (r, None)
       | Halted reason \<Rightarrow> raise (Stopped reason)
       | No_isolation \<Rightarrow> ret (status_result ''blocked'', Some [''isolation_unavailable''])
       | Crashed \<Rightarrow> ret (status_result ''failed'', None)
       | Escaped \<Rightarrow> raise Component_failed))))
      (\<lambda>f. case f of
         Stopped reason \<Rightarrow> ret (status_result (if reason = ''session_cancelled'' then ''cancelled'' else ''timeout''), Some [reason])
       | _ \<Rightarrow> raise f)"

definition launch :: "env \<Rightarrow> call \<Rightarrow> action \<Rightarrow> outcome \<Rightarrow> outcome ctl" where
  "launch e a c out =
    seqS (if en_evidence e then seqS (evidence_start e) (\<lambda>i. ret (out\<lparr>oc_execution := Some i\<rparr>)) else ret out) (\<lambda>out.
    seqS (emit e (Emitted ''execution_started'' (out\<lparr>oc_status := ''started''\<rparr>) [(''backend'', PStr (en_backend e))])) (\<lambda>_.
    seqS (run_backend e a c) (\<lambda>(result, reasons).
    let out = out\<lparr>oc_status := status_of result, oc_reasons := (case reasons of None \<Rightarrow> oc_reasons out | Some rs \<Rightarrow> rs)\<rparr> in
    seqS (if en_evidence e then evidence_finish e else ret ()) (\<lambda>_.
    seqS (emit e (Emitted ''execution_finished'' out
      [(''backend'', PStr (en_backend e)), (''result_metadata'', result_metadata result)])) (\<lambda>_.
    ret (out\<lparr>oc_metadata := Some (result_metadata result), oc_result := Some result\<rparr>))))))"

definition execute :: "env \<Rightarrow> call \<Rightarrow> action \<Rightarrow> outcome \<Rightarrow> outcome ctl" where
  "execute e a c out =
    seqS (reads position) (\<lambda>n. case en_available e n c of
      Broken \<Rightarrow> raise Component_failed
    | Refused \<Rightarrow> blocked e ''execution_blocked'' ''isolation_unavailable'' out
    | Available \<Rightarrow> launch e a c out)"

definition approve :: "env \<Rightarrow> call \<Rightarrow> action \<Rightarrow> outcome \<Rightarrow> outcome ctl" where
  "approve e a c out =
    seqS (if ca_interactive a then use_approval e (ca_reference a) c else ret (Some ''noninteractive_approval_required''))
      (\<lambda>refusal. case refusal of
         Some reason \<Rightarrow> blocked e ''approval_rejected'' reason out
       | None \<Rightarrow> let out' = out\<lparr>oc_reference := ca_reference a\<rparr> in
           seqS (emit e (Emitted ''approval_consumed'' out' [])) (\<lambda>_. execute e a c out'))"

definition decide :: "env \<Rightarrow> call \<Rightarrow> action \<Rightarrow> outcome ctl" where
  "decide e a c = (let d = evaluate (en_policy e) c;
      out = (base_outcome (decision_name d) (decision_reasons d) ''not_started'')\<lparr>oc_action := Some (action_summary e c)\<rparr> in
    seqS (emit e (Emitted ''policy_decision'' out [(''rationale_length'', PInt (int (length (ac_rationale c))))])) (\<lambda>_.
    if decision_name d = ''deny'' then ret (out\<lparr>oc_status := ''blocked''\<rparr>)
    else if \<not> ca_execute a then ret (out\<lparr>oc_status := ''dry_run''\<rparr>)
    else seqS (check_if (ca_control a) e) (\<lambda>_.
      if d = Approval_required then approve e a c out else execute e a c out)))"

definition submit_locked :: "env \<Rightarrow> call \<Rightarrow> pyval \<Rightarrow> outcome ctl" where
  "submit_locked e a proposal = (case parse_action proposal of
     Inl code \<Rightarrow> let out = base_outcome ''deny'' [code] ''rejected'' in
       seqS (emit e (Emitted ''validation_rejected'' out [])) (\<lambda>_. ret out)
   | Inr c \<Rightarrow> decide e a c)"

definition step_ok :: "env \<Rightarrow> call \<Rightarrow> bool" where
  "step_ok e a = (case ca_step a of None \<Rightarrow> True | Some n \<Rightarrow> en_session e \<noteq> None \<and> 1 \<le> n \<and> n \<le> 16)"

definition submit_proposal :: "env \<Rightarrow> call \<Rightarrow> pyval \<Rightarrow> outcome ctl" where
  "submit_proposal e a proposal =
    seqS (reads cs_approval_failed) (\<lambda>failed.
    seqS (guard (\<not> failed) Approval_unavailable) (\<lambda>_.
    seqS (guard (step_ok e a) (Value_error ''invalid_session_step'')) (\<lambda>_.
    seqS (check_if (ca_control a) e) (\<lambda>_.
    catchS (submit_locked e a proposal) (\<lambda>f.
      if f = Approval_unavailable then seqS (modify (\<lambda>s. s\<lparr>cs_approval_failed := True\<rparr>)) (\<lambda>_. raise f)
      else raise f)))))"

text \<open>\<open>Controller.__init__\<close>: the policy is parsed again from its own dictionary.\<close>

definition controller_start :: "env \<Rightarrow> ctl_state \<Rightarrow> bool" where
  "controller_start e s \<longleftrightarrow> parse_policy (policy_json (en_policy e)) = Inr (en_policy e)
     \<and> (case en_session e of None \<Rightarrow> True | Some i \<Rightarrow> canonical_uuid i)
     \<and> \<not> cs_audit_failed s \<and> \<not> cs_approval_failed s \<and> cs_grants s = [] \<and> cs_trace s = []"

end
