(* ===== verification/ControllerSafety.thy ===== *)
theory ControllerSafety
  imports ControllerModel
begin

text \<open>
  Every launch of the backend is authorised: the controller's invariant over its trace, kept by
  each operation through the rules of \<open>Effects\<close>, and the step relation of a controller that is
  called with arbitrary proposals while the trusted review issues grants.
\<close>

section \<open>What the trace shows\<close>

definition consumed :: "effect list \<Rightarrow> grant list" where
  "consumed T = concat (map (\<lambda>x. case x of Consumed g \<Rightarrow> [g] | _ \<Rightarrow> []) T)"

definition launched :: "effect list \<Rightarrow> action list" where
  "launched T = concat (map (\<lambda>x. case x of Launched c \<Rightarrow> [c] | _ \<Rightarrow> []) T)"

definition granted :: "effect list \<Rightarrow> grant list" where
  "granted T = concat (map (\<lambda>x. case x of Granted g \<Rightarrow> [g] | _ \<Rightarrow> []) T)"

lemma view_simps [simp]:
  "consumed [] = []" "consumed (S @ T) = consumed S @ consumed T" "consumed (x # T) = (case x of Consumed g \<Rightarrow> [g] | _ \<Rightarrow> []) @ consumed T"
  "launched [] = []" "launched (S @ T) = launched S @ launched T" "launched (x # T) = (case x of Launched c \<Rightarrow> [c] | _ \<Rightarrow> []) @ launched T"
  "granted [] = []" "granted (S @ T) = granted S @ granted T" "granted (x # T) = (case x of Granted g \<Rightarrow> [g] | _ \<Rightarrow> []) @ granted T"
  by (simp_all add: consumed_def launched_def granted_def)

lemma set_consumed: "g \<in> set (consumed T) \<longleftrightarrow> Consumed g \<in> set T"
  by (induction T) (auto split: effect.splits)

lemma set_granted: "g \<in> set (granted T) \<longleftrightarrow> Granted g \<in> set T"
  by (induction T) (auto split: effect.splits)

definition spent :: "effect list \<Rightarrow> string \<Rightarrow> bool" where
  "spent T r \<longleftrightarrow> r \<in> set (map gr_reference (consumed T))"

lemma spent_simps [simp]: "\<not> spent [] r" "spent (T @ [x]) r \<longleftrightarrow> spent T r \<or> (case x of Consumed g \<Rightarrow> gr_reference g = r | _ \<Rightarrow> False)"
  by (auto simp: spent_def split: effect.splits)

text \<open>The grants used since the last launch.\<close>

fun recent :: "effect list \<Rightarrow> grant list" where
  "recent [] = []"
| "recent (x # T) = (case x of Launched c \<Rightarrow> [] | Consumed g \<Rightarrow> g # recent T | _ \<Rightarrow> recent T)"

definition bound_to :: "env \<Rightarrow> action \<Rightarrow> grant \<Rightarrow> bool" where
  "bound_to e c g \<longleftrightarrow> gr_action g = action_digest (en_digest e) c \<and> gr_policy g = policy_digest (en_digest e) (en_policy e)"

definition approved :: "env \<Rightarrow> action \<Rightarrow> effect list \<Rightarrow> bool" where
  "approved e c T \<longleftrightarrow> (po_approval (en_policy e) \<longrightarrow> (\<exists>g \<in> set (recent (rev T)). bound_to e c g))"

definition announced :: "env \<Rightarrow> action \<Rightarrow> effect list \<Rightarrow> bool" where
  "announced e c T \<longleftrightarrow> (\<exists>S out extra. T = S @ [Emitted ''execution_started'' out extra]
     \<and> oc_action out = Some (action_summary e c))"

definition entry_ok :: "env \<Rightarrow> effect list \<Rightarrow> effect \<Rightarrow> bool" where
  "entry_ok e T x = (case x of
     Launched c \<Rightarrow> action_ok c \<and> permits (en_policy e) c \<and> announced e c T \<and> approved e c T
   | Consumed g \<Rightarrow> g \<in> set (granted T) \<and> \<not> spent T (gr_reference g) \<and> en_now e (length T) < gr_expires g
   | Granted g \<Rightarrow> (\<exists>c. evaluate (en_policy e) c = Approval_required
       \<and> g = new_grant (en_digest e) (en_now e (length T)) (gr_reference g) c (en_policy e))
   | _ \<Rightarrow> True)"

definition trace_ok :: "env \<Rightarrow> effect list \<Rightarrow> bool" where
  "trace_ok e T \<longleftrightarrow> (\<forall>i < length T. entry_ok e (take i T) (T ! i))"

lemma trace_ok_Nil [simp]: "trace_ok e []"
  by (simp add: trace_ok_def)

lemma trace_ok_snoc [simp]: "trace_ok e (T @ [x]) \<longleftrightarrow> trace_ok e T \<and> entry_ok e T x"
  by (auto simp: trace_ok_def less_Suc_eq nth_append)

lemma trace_ok_prefix: "trace_ok e (S @ x # T) \<Longrightarrow> entry_ok e S x"
  by (auto simp: trace_ok_def dest!: spec [of _ "length S"])

lemma trace_ok_consumed: "trace_ok e T \<Longrightarrow> distinct (map gr_reference (consumed T))"
  by (induction T rule: rev_induct) (auto simp: entry_ok_def spent_def split: effect.splits)

lemma trace_ok_spent: "trace_ok e T \<Longrightarrow> spent T r \<Longrightarrow> r \<in> set (map gr_reference (granted T))"
  by (induction T rule: rev_induct) (auto simp: entry_ok_def split: effect.splits)

section \<open>The invariant\<close>

definition ctl_inv :: "env \<Rightarrow> ctl_state \<Rightarrow> bool" where
  "ctl_inv e s \<longleftrightarrow> trace_ok e (cs_trace s) \<and> grants_ok (cs_grants s)
     \<and> (\<forall>g \<in> set (cs_grants s). g \<in> set (granted (cs_trace s)) \<and> \<not> spent (cs_trace s) (gr_reference g))"

definition event :: "effect \<Rightarrow> bool" where
  "event x = (case x of Emitted k out extra \<Rightarrow> True | Noted k extra \<Rightarrow> True | _ \<Rightarrow> False)"

lemma ctl_inv_event: "event x \<Longrightarrow> ctl_inv e s \<Longrightarrow> ctl_inv e (log x s)"
  by (cases x) (simp_all add: event_def ctl_inv_def log_def entry_ok_def)

lemma approved_event: "event x \<Longrightarrow> approved e c (T @ [x]) = approved e c T"
  by (cases x) (simp_all add: event_def approved_def)

text \<open>A predicate on states that no flag and no counter influences.\<close>

definition inv_at :: "env \<Rightarrow> (effect list \<Rightarrow> bool) \<Rightarrow> ctl_state \<Rightarrow> bool" where
  "inv_at e P s \<longleftrightarrow> ctl_inv e s \<and> P (cs_trace s)"

lemma inv_atD: "inv_at e P s \<Longrightarrow> ctl_inv e s"
  by (simp add: inv_at_def)

lemma inv_at_True: "inv_at e (\<lambda>T. True) = ctl_inv e"
  by (simp add: inv_at_def fun_eq_iff)

abbreviation fails :: "env \<Rightarrow> failure \<Rightarrow> ctl_state \<Rightarrow> bool" where
  "fails e f s \<equiv> ctl_inv e s"

lemma ctl_inv_flags [simp]:
  "ctl_inv e (s\<lparr>cs_audit_failed := b\<rparr>) = ctl_inv e s" "ctl_inv e (s\<lparr>cs_approval_failed := b\<rparr>) = ctl_inv e s"
  "ctl_inv e (s\<lparr>cs_checks := n\<rparr>) = ctl_inv e s"
  by (simp_all add: ctl_inv_def)

lemma log_trace [simp]: "cs_trace (log x s) = cs_trace s @ [x]"
  by (simp add: log_def)

lemma emit_triple:
  assumes "event x" and "\<And>T. P T \<Longrightarrow> Q (T @ [x])"
  shows "triple (inv_at e P) (emit e x) (\<lambda>_. inv_at e Q) (fails e)"
  by (rule tripleI) (auto simp: emit_def inv_at_def assms ctl_inv_event split: if_splits)

lemma check_triple: "triple (inv_at e P) (check_if b e) (\<lambda>_. inv_at e P) (fails e)"
  by (rule tripleI) (auto simp: check_if_def check_def ret_def inv_at_def Let_def split: if_splits option.splits)

lemma evidence_triples:
  "triple (inv_at e P) (evidence_start e) (\<lambda>_. inv_at e P) (fails e)"
  "triple (inv_at e P) (evidence_finish e) (\<lambda>_. inv_at e P) (fails e)"
  by (rule tripleI; auto simp: evidence_start_def evidence_finish_def inv_at_def split: if_splits option.splits)+

text \<open>The same with the bare invariant, for the rest of a call.\<close>

lemma plain_triples:
  "event x \<Longrightarrow> triple (ctl_inv e) (emit e x) (\<lambda>_. ctl_inv e) (fails e)"
  "triple (ctl_inv e) (check_if b e) (\<lambda>_. ctl_inv e) (fails e)"
  "triple (ctl_inv e) (evidence_finish e) (\<lambda>_. ctl_inv e) (fails e)"
  using emit_triple [of x "\<lambda>_. True" "\<lambda>_. True" e] check_triple [of e "\<lambda>_. True" b] evidence_triples(2) [of e "\<lambda>_. True"]
  by (simp_all add: inv_at_True)

lemma event_simps [simp]: "event (Emitted k out extra)" "event (Noted k extra)"
  by (simp_all add: event_def)

lemma consume_inv:
  assumes inv: "ctl_inv e s" and c: "consume_with_grant (en_digest e) (en_now e (position s)) r c (en_policy e) (cs_grants s) = (res, gs)"
  shows "res = Inl x \<Longrightarrow> ctl_inv e (s\<lparr>cs_grants := gs\<rparr>)"
    and "res = Inr g \<Longrightarrow> ctl_inv e (log (Consumed g) (s\<lparr>cs_grants := gs\<rparr>)) \<and> bound_to e c g"
proof -
  have sub: "set gs \<subseteq> set (cs_grants s)" "grants_ok gs"
    using consume_members [of "en_digest e" "en_now e (position s)" r c "en_policy e" "cs_grants s"]
      consume_ok [of "cs_grants s" "en_digest e" "en_now e (position s)" r c "en_policy e"] inv c
    by (simp_all add: ctl_inv_def)
  then show "res = Inl x \<Longrightarrow> ctl_inv e (s\<lparr>cs_grants := gs\<rparr>)"
    using inv by (simp add: ctl_inv_def subset_iff)
  assume "res = Inr g"
  with c have u: "consume_with_grant (en_digest e) (en_now e (position s)) r c (en_policy e) (cs_grants s) = (Inr g, gs)" by simp
  note k = consume_Inr [OF u]
  have "entry_ok e (cs_trace s) (Consumed g)"
    using inv k(2,5) by (simp add: ctl_inv_def entry_ok_def position_def)
  moreover have "\<forall>h \<in> set gs. gr_reference g \<noteq> gr_reference h" using k(6) by auto
  ultimately show "ctl_inv e (log (Consumed g) (s\<lparr>cs_grants := gs\<rparr>)) \<and> bound_to e c g"
    using inv sub k(3,4) by (auto simp: ctl_inv_def log_def bound_to_def)
qed

lemma use_approval_triple:
  "triple (inv_at e P) (use_approval e r c)
    (\<lambda>x. inv_at e (\<lambda>T. x = None \<longrightarrow> (\<exists>g \<in> set (recent (rev T)). bound_to e c g))) (fails e)"
  by (rule tripleI)
    (auto simp: use_approval_def inv_at_def log_def dest: consume_inv [unfolded log_def] split: if_splits prod.splits sum.splits)

section \<open>Submission keeps the invariant\<close>

lemma blocked_triple: "triple (inv_at e P) (blocked e k r out) (\<lambda>_. ctl_inv e) (fails e)"
  unfolding blocked_def Let_def
  by (rule triple_seq, rule emit_triple [where Q = "\<lambda>_. True"]) (auto simp: event_def inv_at_def intro: triple_ret)

lemma run_triple:
  assumes "action_ok c" and "permits (en_policy e) c"
  shows "triple (inv_at e (\<lambda>T. announced e c T \<and> approved e c T)) (run_backend e a c) (\<lambda>_. ctl_inv e) (fails e)"
  unfolding run_backend_def
proof (rule triple_catch [where F = "fails e"])
  show "triple (inv_at e (\<lambda>T. announced e c T \<and> approved e c T))
     (seqS (check_if (ca_control a) e) (\<lambda>_. seqS (modify (log (Launched c))) (\<lambda>_. seqS (reads position) (\<lambda>n. case en_run e n c of
         Returned r \<Rightarrow> ret (r, None) | Halted reason \<Rightarrow> raise (Stopped reason)
       | No_isolation \<Rightarrow> ret (status_result ''blocked'', Some [''isolation_unavailable''])
       | Crashed \<Rightarrow> ret (status_result ''failed'', None) | Escaped \<Rightarrow> raise Component_failed))))
     (\<lambda>_. ctl_inv e) (fails e)"
    apply (rule triple_seq [OF check_triple])
    apply (rule triple_seq [where R = "\<lambda>_. ctl_inv e"])
     apply (rule triple_modify)
     apply (auto simp: inv_at_def ctl_inv_def entry_ok_def assms log_def)[1]
    apply (rule triple_seq [OF triple_reads])
    apply (auto split: run_answer.split intro: triple_ret triple_raise)
    done
qed (auto split: failure.split intro: triple_ret triple_raise)

lemma launch_triple:
  assumes "action_ok c" and "permits (en_policy e) c" and "oc_action out = Some (action_summary e c)"
  shows "triple (inv_at e (approved e c)) (launch e a c out) (\<lambda>_. ctl_inv e) (fails e)"
  unfolding launch_def
proof (rule triple_seq [where R = "\<lambda>out s. inv_at e (approved e c) s \<and> oc_action out = Some (action_summary e c)"])
  show "triple (inv_at e (approved e c))
    (if en_evidence e then seqS (evidence_start e) (\<lambda>i. ret (out\<lparr>oc_execution := Some i\<rparr>)) else ret out)
    (\<lambda>out s. inv_at e (approved e c) s \<and> oc_action out = Some (action_summary e c)) (fails e)"
    using assms(3) by (intro triple_if triple_seq [OF evidence_triples(1)] triple_ret) auto
next
  fix out' :: outcome
  show "triple (\<lambda>s. inv_at e (approved e c) s \<and> oc_action out' = Some (action_summary e c)) (seqS
    (emit e (Emitted ''execution_started'' (out'\<lparr>oc_status := ''started''\<rparr>) [(''backend'', PStr (en_backend e))]))
    (\<lambda>_. seqS (run_backend e a c) (\<lambda>(result, reasons).
      let out = out'\<lparr>oc_status := status_of result, oc_reasons := (case reasons of None \<Rightarrow> oc_reasons out' | Some rs \<Rightarrow> rs)\<rparr> in
      seqS (if en_evidence e then evidence_finish e else ret ()) (\<lambda>_.
      seqS (emit e (Emitted ''execution_finished'' out
        [(''backend'', PStr (en_backend e)), (''result_metadata'', result_metadata result)])) (\<lambda>_.
      ret (out\<lparr>oc_metadata := Some (result_metadata result), oc_result := Some result\<rparr>))))))
    (\<lambda>_. ctl_inv e) (fails e)"
  proof (cases "oc_action out' = Some (action_summary e c)")
    case True
    have start: "triple (\<lambda>s. inv_at e (approved e c) s \<and> oc_action out' = Some (action_summary e c))
      (emit e (Emitted ''execution_started'' (out'\<lparr>oc_status := ''started''\<rparr>) [(''backend'', PStr (en_backend e))]))
      (\<lambda>_. inv_at e (\<lambda>T. announced e c T \<and> approved e c T)) (fails e)"
      by (rule triple_pre [OF emit_triple [where P = "approved e c"]])
        (use True in \<open>auto simp: event_def announced_def approved_event\<close>)
    have rest: "triple (ctl_inv e) (case x of (result, reasons) \<Rightarrow>
      let out = out'\<lparr>oc_status := status_of result, oc_reasons := (case reasons of None \<Rightarrow> oc_reasons out' | Some rs \<Rightarrow> rs)\<rparr> in
      seqS (if en_evidence e then evidence_finish e else ret ()) (\<lambda>_.
      seqS (emit e (Emitted ''execution_finished'' out
        [(''backend'', PStr (en_backend e)), (''result_metadata'', result_metadata result)])) (\<lambda>_.
      ret (out\<lparr>oc_metadata := Some (result_metadata result), oc_result := Some result\<rparr>)))) (\<lambda>_. ctl_inv e) (fails e)" for x
      unfolding Let_def split_beta
      by (rule triple_seq [where R = "\<lambda>_. ctl_inv e"], rule triple_if, rule plain_triples, rule triple_ret, assumption,
        rule triple_seq [OF plain_triples(1)], simp, rule triple_ret)
    show ?thesis
      by (rule triple_seq [OF start], rule triple_seq [OF run_triple [OF assms(1,2)]], rule rest)
  next
    case False
    then show ?thesis by (simp add: triple_False)
  qed
qed


lemma execute_triple:
  assumes "action_ok c" and "permits (en_policy e) c" and "oc_action out = Some (action_summary e c)"
  shows "triple (inv_at e (approved e c)) (execute e a c out) (\<lambda>_. ctl_inv e) (fails e)"
  unfolding execute_def
proof (rule triple_seq [OF triple_reads])
  fix n
  have "triple (inv_at e (approved e c)) (case en_available e n c of
      Broken \<Rightarrow> raise Component_failed
    | Refused \<Rightarrow> blocked e ''execution_blocked'' ''isolation_unavailable'' out
    | Available \<Rightarrow> launch e a c out) (\<lambda>_. ctl_inv e) (fails e)"
    using launch_triple [OF assms] blocked_triple
    by (cases "en_available e n c") (auto intro: triple_raise simp: inv_at_def)
  then show "triple (\<lambda>s. inv_at e (approved e c) s \<and> n = position s) (case en_available e n c of
      Broken \<Rightarrow> raise Component_failed
    | Refused \<Rightarrow> blocked e ''execution_blocked'' ''isolation_unavailable'' out
    | Available \<Rightarrow> launch e a c out) (\<lambda>_. ctl_inv e) (fails e)"
    by (rule triple_pre) simp
qed

lemma approve_triple:
  assumes "action_ok c" and "permits (en_policy e) c" and "oc_action out = Some (action_summary e c)"
  shows "triple (ctl_inv e) (approve e a c out) (\<lambda>_. ctl_inv e) (fails e)"
  unfolding approve_def
proof (rule triple_seq [where R = "\<lambda>x. inv_at e (\<lambda>T. x = None \<longrightarrow> approved e c T)"])
  show "triple (ctl_inv e) (if ca_interactive a then use_approval e (ca_reference a) c else ret (Some ''noninteractive_approval_required''))
    (\<lambda>x. inv_at e (\<lambda>T. x = None \<longrightarrow> approved e c T)) (fails e)"
    using use_approval_triple [of e "\<lambda>T. True" "ca_reference a" c]
    by (auto simp: inv_at_True intro!: triple_ret elim!: triple_conseq) (auto simp: inv_at_def approved_def)
next
  fix refusal :: "string option"
  let ?out = "out\<lparr>oc_reference := ca_reference a\<rparr>"
  have ex: "triple (inv_at e (approved e c)) (execute e a c ?out) (\<lambda>_. ctl_inv e) (fails e)"
    by (rule execute_triple) (use assms in simp_all)
  have "triple (inv_at e (approved e c)) (emit e (Emitted ''approval_consumed'' ?out [])) (\<lambda>_. inv_at e (approved e c)) (fails e)"
    by (rule emit_triple) (simp_all add: approved_event)
  then have go: "triple (inv_at e (approved e c)) (seqS (emit e (Emitted ''approval_consumed'' ?out [])) (\<lambda>_. execute e a c ?out))
    (\<lambda>_. ctl_inv e) (fails e)" by (rule triple_seq [OF _ ex])
  show "triple (inv_at e (\<lambda>T. refusal = None \<longrightarrow> approved e c T)) (case refusal of
      Some reason \<Rightarrow> blocked e ''approval_rejected'' reason out
    | None \<Rightarrow> let out' = ?out in seqS (emit e (Emitted ''approval_consumed'' out' [])) (\<lambda>_. execute e a c out'))
    (\<lambda>_. ctl_inv e) (fails e)"
    using go blocked_triple by (cases refusal) (simp_all add: Let_def)
qed

lemma decide_triple:
  assumes ok: "action_ok c"
  shows "triple (ctl_inv e) (decide e a c) (\<lambda>_. ctl_inv e) (fails e)"
proof -
  let ?d = "evaluate (en_policy e) c"
  let ?out = "(base_outcome (decision_name ?d) (decision_reasons ?d) ''not_started'')\<lparr>oc_action := Some (action_summary e c)\<rparr>"
  have go: "triple (ctl_inv e) (if ?d = Approval_required then approve e a c ?out else execute e a c ?out) (\<lambda>_. ctl_inv e) (fails e)"
    if "decision_name ?d \<noteq> ''deny''"
  proof (rule triple_if)
    have p: "permits (en_policy e) c" using that evaluate_permits [OF ok, of "en_policy e"] by (auto split: if_splits)
    show "triple (ctl_inv e) (approve e a c ?out) (\<lambda>_. ctl_inv e) (fails e)" by (rule approve_triple [OF ok p]) simp
    assume "?d \<noteq> Approval_required"
    then have "\<not> po_approval (en_policy e)" using p evaluate_permits [OF ok, of "en_policy e"] by (auto split: if_splits)
    then have "approved e c T" for T by (simp add: approved_def)
    then show "triple (ctl_inv e) (execute e a c ?out) (\<lambda>_. ctl_inv e) (fails e)"
      by (intro triple_pre [OF execute_triple [OF ok p]]) (simp_all add: inv_at_def)
  qed
  show ?thesis unfolding decide_def Let_def
    by (rule triple_seq [OF plain_triples(1)], simp, intro triple_if triple_ret triple_seq [OF plain_triples(2)] go)
qed

theorem submit_triple: "triple (ctl_inv e) (submit_proposal e a v) (\<lambda>_. ctl_inv e) (fails e)"
proof -
  have locked: "triple (ctl_inv e) (submit_locked e a v) (\<lambda>_. ctl_inv e) (fails e)"
    unfolding submit_locked_def Let_def
    by (rule triple_sum, rule triple_seq [OF plain_triples(1)], simp, rule triple_ret, assumption,
      rule decide_triple, rule parse_action_ok)
  show ?thesis unfolding submit_proposal_def
    by (rule triple_seq [OF triple_reads_keep], rule triple_seq [OF triple_guard_keep], assumption,
      rule triple_seq [OF triple_guard_keep], assumption, rule triple_seq [OF plain_triples(2)],
      rule triple_catch [OF locked], intro triple_if triple_seq [OF triple_modify] triple_raise)
     simp_all
qed

section \<open>Runs\<close>

text \<open>
  A controller from its start on: proposals are arbitrary, grants are issued by the review at any
  time and with fresh references (\<open>secrets.token_hex\<close>).
\<close>

inductive ctl_step :: "env \<Rightarrow> ctl_state \<Rightarrow> ctl_state \<Rightarrow> bool" for e :: env where
  submitted: "submit_proposal e a proposal s = (res, t) \<Longrightarrow> ctl_step e s t"
| reviewed: "grant_approval e reference c s = (res, t) \<Longrightarrow> reference \<notin> set (map gr_reference (granted (cs_trace s))) \<Longrightarrow> ctl_step e s t"

inductive_cases ctl_stepE: "ctl_step e s t"

lemma grant_inv:
  assumes inv: "ctl_inv e s" and g: "grant_approval e reference c s = (res, t)"
    and fresh: "reference \<notin> set (map gr_reference (granted (cs_trace s)))"
  shows "ctl_inv e t"
proof -
  let ?i = "issue (en_digest e) (en_now e (position s)) reference c (en_policy e) (cs_grants s)"
  obtain res' gs where i: "?i = (res', gs)" by (cases ?i)
  have ok: "grants_ok gs" using issue_ok [of "cs_grants s" "en_digest e" "en_now e (position s)" reference c "en_policy e"] inv i
    by (simp add: ctl_inv_def)
  show ?thesis
  proof (cases res')
    case (Inl x)
    have "set gs \<subseteq> set (cs_grants s)"
      using i Inl live_subset [of "en_now e (position s)" "cs_grants s"]
      by (auto simp: issue_def Let_def split: if_splits)
    then show ?thesis using g i Inl inv ok by (auto simp: grant_approval_def ctl_inv_def)
  next
    case (Inr n)
    have n: "n = new_grant (en_digest e) (en_now e (position s)) reference c (en_policy e)"
      and ev: "evaluate (en_policy e) c = Approval_required"
      using i Inr by (auto simp: issue_def Let_def split: if_splits)
    have mem: "h = n \<or> h \<in> set (cs_grants s)" if "h \<in> set gs" for h
      using issue_members [of h "en_digest e" "en_now e (position s)" reference c "en_policy e" "cs_grants s"] that i Inr by auto
    have used: "\<not> spent (cs_trace s) reference" using trace_ok_spent [of e "cs_trace s" reference] fresh inv by (auto simp: ctl_inv_def)
    have t: "t = log (Granted n) (s\<lparr>cs_grants := gs\<rparr>)" using g i Inr by (auto simp: grant_approval_def)
    have r: "gr_reference n = reference" by (simp add: n new_grant_def)
    have "entry_ok e (cs_trace s) (Granted n)" using ev r by (auto simp: entry_ok_def n position_def new_grant_def)
    then show ?thesis using inv ok mem used fresh r by (auto simp: ctl_inv_def t log_def)
  qed
qed


lemma ctl_step_inv: "ctl_step e s t \<Longrightarrow> ctl_inv e s \<Longrightarrow> ctl_inv e t"
proof (induction rule: ctl_step.induct)
  case (submitted a v s res t)
  show ?case
  proof (cases res)
    case (Inl f)
    with submitted(1) have "submit_proposal e a v s = (Inl f, t)" by simp
    then show ?thesis by (rule tripleD(1) [OF submit_triple submitted(2)])
  next
    case (Inr out)
    with submitted(1) have "submit_proposal e a v s = (Inr out, t)" by simp
    then show ?thesis by (rule tripleD(2) [OF submit_triple submitted(2)])
  qed
next
  case (reviewed reference c s res t)
  show ?case by (rule grant_inv [OF reviewed(3,1,2)])
qed

interpretation ctl: invariant_system "controller_start e" "ctl_step e" "ctl_inv e" for e
proof unfold_locales
  show "controller_start e s \<Longrightarrow> ctl_inv e s" for s by (simp add: controller_start_def ctl_inv_def grants_ok_def)
qed (rule ctl_step_inv)

section \<open>Authorised traces\<close>

text \<open>
  At every launch the policy permits the action, the event directly before it is the
  \<open>execution_started\<close> event of the action and, when the policy asks for approval, a grant for this
  action and policy was issued, was unexpired when it was used, had never been used before, and
  nothing was launched since its use.
\<close>

definition authorised :: "env \<Rightarrow> effect list \<Rightarrow> bool" where
  "authorised e T \<longleftrightarrow> (\<forall>S c U. T = S @ Launched c # U \<longrightarrow> permits (en_policy e) c \<and> announced e c S
     \<and> (po_approval (en_policy e) \<longrightarrow> (\<exists>g A B. S = A @ Consumed g # B \<and> launched B = [] \<and> bound_to e c g
         \<and> g \<in> set (granted A) \<and> en_now e (length A) < gr_expires g \<and> \<not> spent A (gr_reference g))))"

lemma recent_split: "g \<in> set (recent (rev S)) \<Longrightarrow> \<exists>A B. S = A @ Consumed g # B \<and> launched B = []"
proof (induction S rule: rev_induct)
  case (snoc x S)
  show ?case
  proof (cases "x = Consumed g")
    case True
    then show ?thesis by (intro exI [of _ S] exI [of _ "[]"]) simp
  next
    case False
    then have r: "g \<in> set (recent (rev S))" and x: "launched [x] = []" using snoc.prems by (auto split: effect.splits)
    from snoc.IH [OF r] obtain A B where "S = A @ Consumed g # B" "launched B = []" by blast
    then show ?thesis using x by (intro exI [of _ A] exI [of _ "B @ [x]"]) simp
  qed
qed simp

lemma trace_authorised:
  assumes t: "trace_ok e T"
  shows "authorised e T"
  unfolding authorised_def
proof (intro allI impI)
  fix S c U assume T: "T = S @ Launched c # U"
  have l: "permits (en_policy e) c \<and> announced e c S \<and> approved e c S"
    using trace_ok_prefix [of e S "Launched c" U] t T by (simp add: entry_ok_def)
  have "\<exists>A B. S = A @ Consumed g # B \<and> launched B = [] \<and> bound_to e c g
        \<and> g \<in> set (granted A) \<and> en_now e (length A) < gr_expires g \<and> \<not> spent A (gr_reference g)"
    if g: "g \<in> set (recent (rev S))" "bound_to e c g" for g
  proof -
    obtain A B where S: "S = A @ Consumed g # B" "launched B = []" using recent_split [OF g(1)] by blast
    have "entry_ok e A (Consumed g)" by (rule trace_ok_prefix [of e A _ "B @ Launched c # U"]) (use t T S in simp)
    then show ?thesis using S g(2) by (auto simp: entry_ok_def)
  qed
  then show "permits (en_policy e) c \<and> announced e c S
     \<and> (po_approval (en_policy e) \<longrightarrow> (\<exists>g A B. S = A @ Consumed g # B \<and> launched B = [] \<and> bound_to e c g
         \<and> g \<in> set (granted A) \<and> en_now e (length A) < gr_expires g \<and> \<not> spent A (gr_reference g)))"
    using l unfolding approved_def by blast
qed

end
