(* ===== verification/SessionModel.thy ===== *)
theory SessionModel
  imports ControllerSafety
begin

text \<open>
  Bounded sessions (\<open>secure_agent/session.py\<close>, \<open>session_limits.py\<close>, \<open>session_protocol.py\<close>):
  limits, the strict reading of a plan, the observation a planner may see, the public summary of
  a step and the loop of \<open>SessionRunner\<close>. The planner and the trusted review callback are
  functions of the position in the trace; the summary of the run is part of the state, because it
  survives an exception.
\<close>

section \<open>Limits and plans\<close>

record limits =
  li_steps :: int
  li_runtime :: int
  li_output :: int

definition make_limits :: "pyval \<Rightarrow> pyval \<Rightarrow> pyval \<Rightarrow> string + limits" where
  "make_limits steps runtime output =
    bindE (require (int_in 1 16 steps) ''invalid_session_max_steps'') (\<lambda>_.
    bindE (require (int_in 1 600 runtime) ''invalid_session_max_runtime_seconds'') (\<lambda>_.
    bindE (require (int_in 1 (16 * 65536) output) ''invalid_session_max_output_bytes'') (\<lambda>_.
    Inr \<lparr>li_steps = the_int steps, li_runtime = the_int runtime, li_output = the_int output\<rparr>)))"

definition limits_json :: "limits \<Rightarrow> pyval" where
  "limits_json l = PDict [(''max_steps'', PInt (li_steps l)), (''max_runtime_seconds'', PInt (li_runtime l)),
     (''max_output_bytes'', PInt (li_output l))]"

definition limits_digest :: "(string \<Rightarrow> string) \<Rightarrow> limits \<Rightarrow> string" where
  "limits_digest H l = H (canonical (limits_json l))"

record plan =
  pl_action :: "pyval option"
  pl_done :: bool

definition read_plan :: "pyval \<Rightarrow> string + plan" where
  "read_plan raw =
    bindE (load_json raw) (\<lambda>v.
    bindE (require (same_fields v [''schema_version'', ''action'', ''done''] \<and> item v ''schema_version'' = PStr ''1''
        \<and> item v ''done'' \<in> {PBool True, PBool False}
        \<and> \<not> (item v ''action'' = PNone \<and> item v ''done'' = PBool False)
        \<and> (item v ''action'' = PNone \<or> is_dict (item v ''action''))) ''invalid_session_proposal'') (\<lambda>_.
    Inr \<lparr>pl_action = (if item v ''action'' = PNone then None else Some (item v ''action'')),
      pl_done = (item v ''done'' = PBool True)\<rparr>))"

section \<open>Observations\<close>

text \<open>The first 1024 bytes of the UTF-8 text, without a broken last character.\<close>

fun utf8_prefix :: "int \<Rightarrow> string \<Rightarrow> string" where
  "utf8_prefix n [] = []"
| "utf8_prefix n (c # cs) = (let w = (if (of_char c :: nat) < 128 then 1 else 2) in
     if n < w then [] else c # utf8_prefix (n - w) cs)"

definition observed_body :: "outcome \<Rightarrow> string" where
  "observed_body out = (case oc_result out of
     None \<Rightarrow> []
   | Some result \<Rightarrow> (case item result ''results'' of
        PList (row # rows) \<Rightarrow> (case item row ''body'' of PStr s \<Rightarrow> utf8_prefix 1024 s | _ \<Rightarrow> [])
      | _ \<Rightarrow> []))"

definition observation_json :: "int \<Rightarrow> outcome option \<Rightarrow> pyval" where
  "observation_json step previous = PDict [(''step'', PInt step), (''untrusted_observation'', (case previous of
     None \<Rightarrow> PNone
   | Some out \<Rightarrow> PDict [(''execution_status'', PStr (oc_status out)), (''body'', PStr (observed_body out))]))]"

definition observation :: "int \<Rightarrow> outcome option \<Rightarrow> string + string" where
  "observation step previous = (let encoded = dumps (observation_json step previous) in
    bindE (require (length encoded \<le> 8192) ''session_observation_too_large'') (\<lambda>_. Inr encoded))"

definition public_step :: "int \<Rightarrow> outcome \<Rightarrow> pyval" where
  "public_step step out = PDict ([(''step'', PInt step)]
     @ (case oc_action out of None \<Rightarrow> [(''action_id'', PNone), (''action_digest'', PNone)]
        | Some (i, d, t, g) \<Rightarrow> [(''action_id'', PStr i), (''action_digest'', PStr d)])
     @ (case oc_execution out of None \<Rightarrow> [] | Some i \<Rightarrow> [(''execution_id'', PStr i)])
     @ [(''decision'', PStr (oc_decision out)), (''execution_status'', PStr (oc_status out)),
        (''reasons'', PList (map PStr (oc_reasons out)))]
     @ (case oc_metadata out of None \<Rightarrow> [] | Some m \<Rightarrow> [(''result_metadata'', m)]))"

section \<open>The state of a run\<close>

record session_state =
  ss_ctl :: ctl_state
  ss_status :: string
  ss_reason :: string
  ss_attempted :: int
  ss_succeeded :: int
  ss_reserved :: int
  ss_steps :: "pyval list"

type_synonym ('z, 'a) ses = "('z session_state_scheme, failure, 'a) eff"

definition lift :: "'a ctl \<Rightarrow> ('z, 'a) ses" where
  "lift m s = (case m (ss_ctl s) of (r, c) \<Rightarrow> (r, s\<lparr>ss_ctl := c\<rparr>))"

datatype plan_answer = Proposed pyval | Plan_failed failure

text \<open>The review callback: no reference, one it did not issue, or a grant issued now for the action it was shown.\<close>

datatype review_answer = No_reference | Reference string | Grant string | Review_failed failure

record session_env =
  se_env :: env
  se_limits :: limits
  se_plan :: "nat \<Rightarrow> string \<Rightarrow> plan_answer"
  se_review :: "nat \<Rightarrow> action \<Rightarrow> review_answer"
  se_elapsed :: "nat \<Rightarrow> int"
  se_extra :: "(string \<times> pyval) list"

definition session_base :: "session_env \<Rightarrow> (string \<times> pyval) list" where
  "session_base x = [(''session_id'', (case en_session (se_env x) of None \<Rightarrow> PNone | Some i \<Rightarrow> PStr i)),
     (''policy_digest'', PStr (policy_digest (en_digest (se_env x)) (en_policy (se_env x)))),
     (''limits_digest'', PStr (limits_digest (en_digest (se_env x)) (se_limits x)))] @ se_extra x"

definition announce :: "session_env \<Rightarrow> string \<Rightarrow> (string \<times> pyval) list \<Rightarrow> ('z, unit) ses" where
  "announce x kind fs = lift (emit (se_env x) (Noted kind (session_base x @ fs)))"

definition summarise :: "string \<Rightarrow> string \<Rightarrow> ('z, unit) ses" where
  "summarise status reason = modify (\<lambda>s. s\<lparr>ss_status := status, ss_reason := reason\<rparr>)"

definition record_step :: "session_env \<Rightarrow> int \<Rightarrow> outcome \<Rightarrow> ('z, unit) ses" where
  "record_step x step out =
    seqS (modify (\<lambda>s. s\<lparr>ss_steps := ss_steps s @ [public_step step out]\<rparr>)) (\<lambda>_.
    seqS (reads ss_reserved) (\<lambda>reserved.
    announce x ''session_step_finished'' (entries (public_step step out) @ [(''output_reserved_bytes'', PInt reserved)])))"

definition ask_review :: "session_env \<Rightarrow> action \<Rightarrow> ('z, string option) ses" where
  "ask_review x c =
    seqS (reads (\<lambda>s. position (ss_ctl s))) (\<lambda>n. case se_review x n c of
      No_reference \<Rightarrow> ret None
    | Reference r \<Rightarrow> ret (Some r)
    | Grant r \<Rightarrow> seqS (lift (grant_approval (se_env x) r c)) (\<lambda>r'. ret (Some r'))
    | Review_failed f \<Rightarrow> raise f)"

definition session_call :: "int \<Rightarrow> bool \<Rightarrow> bool \<Rightarrow> string option \<Rightarrow> call" where
  "session_call step ex interactive reference = \<lparr>ca_execute = ex, ca_reference = reference, ca_interactive = interactive,
     ca_control = True, ca_step = Some step\<rparr>"

section \<open>One step\<close>

text \<open>The answer of a step: \<open>None\<close> when the loop breaks, else the outcome the next observation shows.\<close>

definition perform :: "session_env \<Rightarrow> bool \<Rightarrow> bool \<Rightarrow> bool \<Rightarrow> int \<Rightarrow> pyval \<Rightarrow> action \<Rightarrow> outcome \<Rightarrow> ('z, outcome) ses" where
  "perform x ex interactive reviewer step proposal c preview =
    (if \<not> ex then ret preview
     else seqS (if oc_decision preview = ''approval_required'' \<and> interactive \<and> reviewer then ask_review x c else ret None) (\<lambda>reference.
       seqS (lift (check (se_env x))) (\<lambda>_.
       seqS (lift (submit_proposal (se_env x) (session_call step True interactive reference) proposal)) (\<lambda>out.
       seqS (if oc_status out = ''succeeded'' then modify (\<lambda>s. s\<lparr>ss_succeeded := ss_succeeded s + 1\<rparr>) else ret ()) (\<lambda>_.
       ret out)))))"

definition reserve :: "session_env \<Rightarrow> int \<Rightarrow> action \<Rightarrow> ('z, unit) ses" where
  "reserve x step c = (let allowance = pb_output (bounds_of (ac_parameters c)) in
    seqS (modify (\<lambda>s. s\<lparr>ss_reserved := ss_reserved s + allowance\<rparr>)) (\<lambda>_.
    seqS (reads ss_reserved) (\<lambda>reserved.
    announce x ''session_output_reserved'' [(''step'', PInt step), (''action_digest'', PStr (action_digest (en_digest (se_env x)) c)),
      (''action_output_allowance'', PInt allowance), (''output_reserved_bytes'', PInt reserved)])))"

definition session_action ::
  "session_env \<Rightarrow> bool \<Rightarrow> bool \<Rightarrow> bool \<Rightarrow> int \<Rightarrow> pyval \<Rightarrow> bool \<Rightarrow> ('z, outcome option) ses" where
  "session_action x ex interactive reviewer step proposal last_one =
    seqS (lift (submit_proposal (se_env x) (session_call step False False None) proposal)) (\<lambda>preview.
    if oc_decision preview = ''deny'' then
      seqS (record_step x step preview) (\<lambda>_. seqS (summarise ''stopped'' ''proposal_denied'') (\<lambda>_. ret None))
    else case parse_action proposal of
      Inl code \<Rightarrow> raise (Value_error code)
    | Inr c \<Rightarrow>
       seqS (reads ss_reserved) (\<lambda>reserved.
       if li_output (se_limits x) < reserved + pb_output (bounds_of (ac_parameters c)) then
         seqS (record_step x step (preview\<lparr>oc_status := ''blocked'', oc_reasons := [''session_output_limit'']\<rparr>)) (\<lambda>_.
         seqS (summarise ''stopped'' ''output_limit'') (\<lambda>_. ret None))
       else
         seqS (reserve x step c) (\<lambda>_.
         seqS (lift (check (se_env x))) (\<lambda>_.
         seqS (perform x ex interactive reviewer step proposal c preview) (\<lambda>out.
         seqS (record_step x step out) (\<lambda>_.
         seqS (lift (check (se_env x))) (\<lambda>_.
         if ex \<and> oc_status out \<noteq> ''succeeded'' then
           seqS (summarise ''stopped'' (''action_'' @ oc_status out)) (\<lambda>_. ret None)
         else if last_one then seqS (summarise ''completed'' ''planner_done'') (\<lambda>_. ret None)
         else ret (Some out))))))))"

definition session_step :: "session_env \<Rightarrow> bool \<Rightarrow> bool \<Rightarrow> bool \<Rightarrow> int \<Rightarrow> outcome option \<Rightarrow> ('z, outcome option) ses" where
  "session_step x ex interactive reviewer step previous =
    seqS (lift (check (se_env x))) (\<lambda>_.
    seqS (modify (\<lambda>s. s\<lparr>ss_attempted := ss_attempted s + 1\<rparr>)) (\<lambda>_.
    seqS (announce x ''session_step_started'' [(''step'', PInt step)]) (\<lambda>_.
    case observation step previous of
      Inl code \<Rightarrow> raise (Value_error code)
    | Inr seen \<Rightarrow>
       seqS (reads (\<lambda>s. position (ss_ctl s))) (\<lambda>n. case se_plan x n seen of
         Plan_failed f \<Rightarrow> raise f
       | Proposed raw \<Rightarrow>
          seqS (lift (check (se_env x))) (\<lambda>_. case read_plan raw of
            Inl code \<Rightarrow>
              seqS (announce x ''session_proposal_rejected'' [(''step'', PInt step), (''reason'', PStr code)]) (\<lambda>_.
              seqS (summarise ''stopped'' ''invalid_proposal'') (\<lambda>_. ret None))
          | Inr p \<Rightarrow> (case pl_action p of
               None \<Rightarrow> seqS (summarise ''completed'' ''planner_done'') (\<lambda>_. ret None)
             | Some proposal \<Rightarrow> session_action x ex interactive reviewer step proposal (pl_done p)))))))"

section \<open>The loop\<close>

fun session_loop :: "session_env \<Rightarrow> bool \<Rightarrow> bool \<Rightarrow> bool \<Rightarrow> int list \<Rightarrow> outcome option \<Rightarrow> ('z, unit) ses" where
  "session_loop x ex interactive reviewer [] previous = ret ()"
| "session_loop x ex interactive reviewer (step # rest) previous =
    seqS (session_step x ex interactive reviewer step previous) (\<lambda>next_one. case next_one of
      None \<Rightarrow> ret ()
    | Some out \<Rightarrow> session_loop x ex interactive reviewer rest (Some out))"

definition summary_json :: "bool \<Rightarrow> int \<Rightarrow> 'z session_state_scheme \<Rightarrow> (string \<times> pyval) list" where
  "summary_json ex elapsed s = [(''session_status'', PStr (ss_status s)), (''stop_reason'', PStr (ss_reason s)),
     (''steps_attempted'', PInt (ss_attempted s)), (''actions_succeeded'', PInt (ss_succeeded s)),
     (''output_reserved_bytes'', PInt (ss_reserved s)), (''mode'', PStr (if ex then ''execute'' else ''dry_run'')),
     (''duration_ms'', PInt (max 0 (min (10 ^ 9) elapsed)))]"

definition session_run :: "session_env \<Rightarrow> bool \<Rightarrow> bool \<Rightarrow> bool \<Rightarrow> ('z, 'z session_state_scheme) ses" where
  "session_run x ex interactive reviewer =
    seqS (announce x ''session_started'' [(''limits'', limits_json (se_limits x)),
      (''mode'', PStr (if ex then ''execute'' else ''dry_run''))]) (\<lambda>_.
    seqS (catchS (session_loop x ex interactive reviewer [1..li_steps (se_limits x)] None) (\<lambda>f. case f of
        Stopped reason \<Rightarrow> modify (\<lambda>s. s\<lparr>ss_reason := reason\<rparr>)
      | Audit_unavailable \<Rightarrow> raise f
      | Evidence_unavailable \<Rightarrow> raise f
      | _ \<Rightarrow> modify (\<lambda>s. s\<lparr>ss_reason := ''session_component_failed''\<rparr>))) (\<lambda>_.
    seqS (reads (\<lambda>s. summary_json ex (se_elapsed x (position (ss_ctl s))) s)) (\<lambda>summary.
    seqS (announce x ''session_finished'' summary) (\<lambda>_.
    reads id))))"

definition session_start :: "session_env \<Rightarrow> 'z session_state_scheme \<Rightarrow> bool" where
  "session_start x s \<longleftrightarrow> controller_start (se_env x) (ss_ctl s) \<and> ss_status s = ''stopped'' \<and> ss_reason s = ''step_limit''
     \<and> ss_attempted s = 0 \<and> ss_succeeded s = 0 \<and> ss_reserved s = 0 \<and> ss_steps s = []"

end
