(* ===== verification/SessionSafety.thy ===== *)
theory SessionSafety
  imports SessionModel
begin

text \<open>
  What one submission can launch, and the budget of a session: reservations are made before a
  launch and never refunded, so the launches of a run stay within the output limit and the step
  limit whatever the planner proposes.
\<close>

section \<open>Launches of a submission\<close>

definition at_launched :: "(action list \<Rightarrow> bool) \<Rightarrow> ctl_state \<Rightarrow> bool" where
  "at_launched Q s \<longleftrightarrow> Q (launched (cs_trace s))"

lemma at_launched_flags [simp]:
  "at_launched Q (s\<lparr>cs_audit_failed := b\<rparr>) = at_launched Q s" "at_launched Q (s\<lparr>cs_approval_failed := b\<rparr>) = at_launched Q s"
  "at_launched Q (s\<lparr>cs_checks := n\<rparr>) = at_launched Q s" "at_launched Q (s\<lparr>cs_grants := gs\<rparr>) = at_launched Q s"
  by (simp_all add: at_launched_def)

lemma at_launched_log [simp]:
  "event x \<Longrightarrow> at_launched Q (log x s) = at_launched Q s" "at_launched Q (log (Consumed g) s) = at_launched Q s"
  "at_launched Q (log (Granted g) s) = at_launched Q s"
  by (cases x; simp add: at_launched_def event_def)+

abbreviation keeps :: "(action list \<Rightarrow> bool) \<Rightarrow> 'a ctl \<Rightarrow> bool" where
  "keeps Q m \<equiv> triple (at_launched Q) m (\<lambda>_. at_launched Q) (\<lambda>_. at_launched Q)"

lemma keeps_basic:
  "event x \<Longrightarrow> keeps Q (emit e x)" "keeps Q (check e)" "keeps Q (check_if b e)" "keeps Q (evidence_start e)"
  "keeps Q (evidence_finish e)" "keeps Q (use_approval e r c)" "keeps Q (grant_approval e reference c)"
  by (rule tripleI; auto simp: emit_def check_if_def check_def ret_def Let_def evidence_start_def evidence_finish_def
    use_approval_def grant_approval_def split: if_splits option.splits prod.splits sum.splits)+

lemma keeps_seq: "keeps Q m \<Longrightarrow> (\<And>x. keeps Q (f x)) \<Longrightarrow> keeps Q (seqS m f)"
  by (rule triple_seq)

lemma keeps_ret: "keeps Q (ret x)" "keeps Q (raise f)"
  by (rule triple_ret triple_raise, assumption)+

lemma keeps_blocked: "keeps Q (blocked e k r out)"
  unfolding blocked_def Let_def by (intro keeps_seq keeps_basic keeps_ret) simp

text \<open>At most the action \<open>c\<close> is added to the launches \<open>L\<close>.\<close>

definition adds :: "action \<Rightarrow> action list \<Rightarrow> ctl_state \<Rightarrow> bool" where
  "adds c L = at_launched (\<lambda>l. l = L \<or> l = L @ [c])"

lemma adds_start: "at_launched (\<lambda>l. l = L) s \<Longrightarrow> adds c L s"
  by (simp add: adds_def at_launched_def)

lemma run_adds:
  "triple (at_launched (\<lambda>l. l = L)) (run_backend e a c) (\<lambda>_. adds c L) (\<lambda>_. adds c L)"
  unfolding run_backend_def
proof (rule triple_catch [where F = "\<lambda>_. adds c L"])
  have b: "triple (at_launched (\<lambda>l. l = L)) (check_if (ca_control a) e) (\<lambda>_. at_launched (\<lambda>l. l = L)) (\<lambda>_. adds c L)"
    by (rule triple_conseq [OF keeps_basic(3) [of "\<lambda>l. l = L"]]) (auto intro: adds_start)
  show "triple (at_launched (\<lambda>l. l = L))
     (seqS (check_if (ca_control a) e) (\<lambda>_. seqS (modify (log (Launched c))) (\<lambda>_. seqS (reads position) (\<lambda>n. case en_run e n c of
         Returned r \<Rightarrow> ret (r, None) | Halted reason \<Rightarrow> raise (Stopped reason)
       | No_isolation \<Rightarrow> ret (status_result ''blocked'', Some [''isolation_unavailable''])
       | Crashed \<Rightarrow> ret (status_result ''failed'', None) | Escaped \<Rightarrow> raise Component_failed))))
     (\<lambda>_. adds c L) (\<lambda>_. adds c L)"
    by (rule triple_seq [OF b], rule triple_seq [OF triple_modify [where Q = "\<lambda>_. adds c L"]], simp add: adds_def at_launched_def,
      rule triple_seq [OF triple_reads_keep]) (auto split: run_answer.split intro: triple_ret triple_raise)
qed (auto split: failure.split intro: triple_ret triple_raise)

lemma keeps_adds: "keeps (\<lambda>l. l = L) m \<Longrightarrow> triple (at_launched (\<lambda>l. l = L)) m (\<lambda>_. adds c L) (\<lambda>_. adds c L)"
  by (erule triple_conseq) (auto intro: adds_start)

lemma keeps_adds': "keeps (\<lambda>l. l = L) m \<Longrightarrow> triple (at_launched (\<lambda>l. l = L)) m (\<lambda>_. at_launched (\<lambda>l. l = L)) (\<lambda>_. adds c L)"
  by (erule triple_conseq) (auto intro: adds_start)

lemma launch_adds:
  "triple (at_launched (\<lambda>l. l = L)) (launch e a c out) (\<lambda>_. adds c L) (\<lambda>_. adds c L)"
proof -
  have rest: "triple (adds c L) (case x of (result, reasons) \<Rightarrow>
      let out = out'\<lparr>oc_status := status_of result, oc_reasons := (case reasons of None \<Rightarrow> oc_reasons out' | Some rs \<Rightarrow> rs)\<rparr> in
      seqS (if en_evidence e then evidence_finish e else ret ()) (\<lambda>_.
      seqS (emit e (Emitted ''execution_finished'' out
        [(''backend'', PStr (en_backend e)), (''result_metadata'', result_metadata result)])) (\<lambda>_.
      ret (out\<lparr>oc_metadata := Some (result_metadata result), oc_result := Some result\<rparr>)))) (\<lambda>_. adds c L) (\<lambda>_. adds c L)"
    for x out'
    unfolding Let_def split_beta adds_def by (intro keeps_seq triple_if keeps_basic keeps_ret) simp
  show ?thesis unfolding launch_def
    by (rule triple_seq [OF keeps_adds'], intro triple_if keeps_seq keeps_basic keeps_ret,
      rule triple_seq [OF keeps_adds'], rule keeps_basic, simp, rule triple_seq [OF run_adds], rule rest)
qed

lemma execute_adds:
  "triple (at_launched (\<lambda>l. l = L)) (execute e a c out) (\<lambda>_. adds c L) (\<lambda>_. adds c L)"
  unfolding execute_def
  by (rule triple_seq [OF triple_reads_keep])
    (auto split: probe.split intro: launch_adds keeps_adds [OF keeps_blocked] keeps_adds [OF keeps_ret(2)])

lemma approve_adds:
  "triple (at_launched (\<lambda>l. l = L)) (approve e a c out) (\<lambda>_. adds c L) (\<lambda>_. adds c L)"
  unfolding approve_def Let_def
  by (rule triple_seq [OF keeps_adds'], intro triple_if keeps_basic keeps_ret, rule triple_option,
    rule triple_seq [OF keeps_adds'], rule keeps_basic, simp, rule execute_adds, rule keeps_adds [OF keeps_blocked])

lemma decide_adds:
  "triple (at_launched (\<lambda>l. l = L)) (decide e a c) (\<lambda>_. adds c L) (\<lambda>_. adds c L)"
  unfolding decide_def Let_def
  by (rule triple_seq [OF keeps_adds'], rule keeps_basic, simp, intro triple_if keeps_adds [OF keeps_ret(1)]
    triple_seq [OF keeps_adds' [OF keeps_basic(3)]] approve_adds execute_adds)

lemma dry_keeps: "\<not> ca_execute a \<Longrightarrow> keeps Q (decide e a c)"
  unfolding decide_def Let_def
  by (intro keeps_seq keeps_basic keeps_ret triple_if) simp_all

text \<open>The effect of a submission on the launches.\<close>

definition one_more :: "call \<Rightarrow> pyval \<Rightarrow> action list \<Rightarrow> action list \<Rightarrow> bool" where
  "one_more a v L l \<longleftrightarrow> l = L \<or> (ca_execute a \<and> (\<exists>c. parse_action v = Inr c \<and> l = L @ [c]))"

lemma submit_launches:
  "triple (at_launched (\<lambda>l. l = L)) (submit_proposal e a v) (\<lambda>_. at_launched (one_more a v L)) (\<lambda>_. at_launched (one_more a v L))"
proof -
  have start: "keeps (\<lambda>l. l = L) m \<Longrightarrow>
      triple (at_launched (\<lambda>l. l = L)) m (\<lambda>_. at_launched (\<lambda>l. l = L)) (\<lambda>_. at_launched (one_more a v L))" for m :: "'b ctl"
    by (erule triple_conseq) (auto simp: at_launched_def one_more_def)
  have refuse: "keeps (\<lambda>l. l = L) m \<Longrightarrow>
      triple (at_launched (\<lambda>l. l = L)) m (\<lambda>_. at_launched (one_more a v L)) (\<lambda>_. at_launched (one_more a v L))" for m :: "outcome ctl"
    by (erule triple_conseq) (auto simp: at_launched_def one_more_def)
  have locked: "triple (at_launched (\<lambda>l. l = L)) (submit_locked e a v) (\<lambda>_. at_launched (one_more a v L)) (\<lambda>_. at_launched (one_more a v L))"
  proof (cases "parse_action v")
    case (Inl code)
    have "keeps (\<lambda>l. l = L) (submit_locked e a v)"
      unfolding submit_locked_def Inl sum.case Let_def by (intro keeps_seq keeps_basic keeps_ret) simp
    then show ?thesis by (rule refuse)
  next
    case (Inr c)
    show ?thesis
    proof (cases "ca_execute a")
      case True
      then show ?thesis unfolding submit_locked_def Inr sum.case
        by (intro triple_conseq [OF decide_adds]) (auto simp: adds_def at_launched_def one_more_def Inr)
    next
      case False
      then show ?thesis unfolding submit_locked_def Inr sum.case by (intro refuse dry_keeps)
    qed
  qed
  show ?thesis unfolding submit_proposal_def
    by (rule triple_seq [OF triple_reads_keep], rule triple_seq [OF start [OF triple_guard_keep]], assumption,
      rule triple_seq [OF start [OF triple_guard_keep]], assumption, rule triple_seq [OF start [OF keeps_basic(3)]],
      rule triple_catch [OF locked], intro triple_if triple_seq [OF triple_modify] triple_raise)
     simp_all
qed

section \<open>The budget of a session\<close>

definition output_of :: "action \<Rightarrow> int" where
  "output_of c = pb_output (bounds_of (ac_parameters c))"

definition spent_output :: "'z session_state_scheme \<Rightarrow> int" where
  "spent_output s = sum_list (map output_of (launched (cs_trace (ss_ctl s))))"

definition launches :: "'z session_state_scheme \<Rightarrow> int" where
  "launches s = int (length (launched (cs_trace (ss_ctl s))))"

text \<open>Before a step: what was launched is reserved, and every launch took a step of its own.\<close>

definition budget :: "session_env \<Rightarrow> int \<Rightarrow> 'z session_state_scheme \<Rightarrow> bool" where
  "budget x k s \<longleftrightarrow> spent_output s \<le> ss_reserved s \<and> ss_reserved s \<le> li_output (se_limits x)
     \<and> launches s \<le> ss_attempted s \<and> ss_attempted s \<le> k \<and> ss_attempted s \<le> li_steps (se_limits x)"

text \<open>Inside step \<open>k\<close>, with \<open>r\<close> bytes reserved for it and not yet launched.\<close>

definition inside :: "session_env \<Rightarrow> int \<Rightarrow> int \<Rightarrow> 'z session_state_scheme \<Rightarrow> bool" where
  "inside x k r s \<longleftrightarrow> spent_output s + r \<le> ss_reserved s \<and> ss_reserved s \<le> li_output (se_limits x)
     \<and> launches s + 1 \<le> ss_attempted s \<and> ss_attempted s \<le> k \<and> ss_attempted s \<le> li_steps (se_limits x)"

lemma inside_budget: "0 \<le> r \<Longrightarrow> inside x k r s \<Longrightarrow> budget x k s"
  by (simp add: inside_def budget_def)

lemma budget_fields [simp]:
  "budget x k (s\<lparr>ss_status := t\<rparr>) = budget x k s" "budget x k (s\<lparr>ss_reason := t\<rparr>) = budget x k s"
  "budget x k (s\<lparr>ss_succeeded := n\<rparr>) = budget x k s" "budget x k (s\<lparr>ss_steps := ps\<rparr>) = budget x k s"
  "inside x k r (s\<lparr>ss_status := t\<rparr>) = inside x k r s" "inside x k r (s\<lparr>ss_reason := t\<rparr>) = inside x k r s"
  "inside x k r (s\<lparr>ss_succeeded := n\<rparr>) = inside x k r s" "inside x k r (s\<lparr>ss_steps := ps\<rparr>) = inside x k r s"
  by (simp_all add: budget_def inside_def spent_output_def launches_def)

text \<open>A controller call that keeps the launches keeps every predicate of this kind.\<close>

definition by_launches :: "('z session_state_scheme \<Rightarrow> bool) \<Rightarrow> bool" where
  "by_launches P \<longleftrightarrow> (\<forall>s c. launched (cs_trace c) = launched (cs_trace (ss_ctl s)) \<longrightarrow> P s \<longrightarrow> P (s\<lparr>ss_ctl := c\<rparr>))"

lemma by_launches_budget: "by_launches (budget x k)" "by_launches (inside x k r)"
  by (simp_all add: by_launches_def budget_def inside_def spent_output_def launches_def)

lemma lift_triple:
  assumes "\<And>L. triple (at_launched (\<lambda>l. l = L)) m (\<lambda>_. at_launched (R L)) (\<lambda>_. at_launched (R L))"
    and "\<And>s c. P s \<Longrightarrow> R (launched (cs_trace (ss_ctl s))) (launched (cs_trace c)) \<Longrightarrow> Q (s\<lparr>ss_ctl := c\<rparr>)"
  shows "triple P (lift m) (\<lambda>_. Q) (\<lambda>_. Q)"
proof (rule tripleI)
  fix s f s' assume p: "P s" and l: "lift m s = (Inl f, s')"
  then obtain c where m: "m (ss_ctl s) = (Inl f, c)" and s': "s' = s\<lparr>ss_ctl := c\<rparr>" by (auto simp: lift_def split: prod.splits)
  have "at_launched (\<lambda>l. l = launched (cs_trace (ss_ctl s))) (ss_ctl s)" by (simp add: at_launched_def)
  from tripleD(1) [OF assms(1) this m] show "Q s'" using assms(2) p s' by (simp add: at_launched_def)
next
  fix s y s' assume p: "P s" and l: "lift m s = (Inr y, s')"
  then obtain c where m: "m (ss_ctl s) = (Inr y, c)" and s': "s' = s\<lparr>ss_ctl := c\<rparr>" by (auto simp: lift_def split: prod.splits)
  have "at_launched (\<lambda>l. l = launched (cs_trace (ss_ctl s))) (ss_ctl s)" by (simp add: at_launched_def)
  from tripleD(2) [OF assms(1) this m] show "Q s'" using assms(2) p s' by (simp add: at_launched_def)
qed

lemma lift_keeps:
  assumes "\<And>L. keeps (\<lambda>l. l = L) m" and "by_launches P"
  shows "triple P (lift m) (\<lambda>_. P) (\<lambda>_. P)"
  by (rule lift_triple [where R = "\<lambda>L l. l = L", OF assms(1)]) (use assms(2) in \<open>auto simp: by_launches_def\<close>)

lemma session_keeps:
  assumes "by_launches P"
  shows "triple P (announce x kind fs) (\<lambda>_. P) (\<lambda>_. P)" "triple P (lift (check e)) (\<lambda>_. P) (\<lambda>_. P)"
    "triple P (ask_review x c) (\<lambda>_. P) (\<lambda>_. P)"
proof -
  show "triple P (announce x kind fs) (\<lambda>_. P) (\<lambda>_. P)" unfolding announce_def
    by (rule lift_keeps [OF keeps_basic(1) assms]) simp
  show "triple P (lift (check e)) (\<lambda>_. P) (\<lambda>_. P)" by (rule lift_keeps [OF keeps_basic(2) assms])
  have g: "triple P (lift (grant_approval (se_env x) r c)) (\<lambda>_. P) (\<lambda>_. P)" for r by (rule lift_keeps [OF keeps_basic(7) assms])
  show "triple P (ask_review x c) (\<lambda>_. P) (\<lambda>_. P)" unfolding ask_review_def
    by (rule triple_seq [OF triple_reads_keep]) (auto split: review_answer.split intro!: triple_seq [OF g] triple_ret triple_raise)
qed

section \<open>The budget along a run\<close>

lemma budget_mono: "budget x k s \<Longrightarrow> k \<le> k' \<Longrightarrow> budget x k' s"
  by (simp add: budget_def)

lemma triple_raises: "triple P m Q E \<Longrightarrow> (\<And>e s. E e s \<Longrightarrow> E' e s) \<Longrightarrow> triple P m Q E'"
  by (rule triple_conseq)

lemma fails_budget: "triple P m Q (\<lambda>_. inside x k r) \<Longrightarrow> 0 \<le> r \<Longrightarrow> triple P m Q (\<lambda>_. budget x k)"
  by (erule triple_raises, erule inside_budget, assumption)

lemma read_request_output: "read_request c v = Inr (b, r) \<Longrightarrow> 0 \<le> pb_output b"
  by (auto simp: read_request_def Let_def res_simps expected_bounds_def)

lemma construct_output: "construct c v = Inr p \<Longrightarrow> 0 \<le> pb_output (bounds_of p)"
  by (auto simp: construct_def read_bounds_def read_http_def read_name_dns_def read_name_http_def read_name_tls_def
    read_binding_def Let_def res_simps dest: read_request_output split: if_splits)

lemma output_bounds:
  assumes "action_ok c"
  shows "0 \<le> output_of c"
proof -
  obtain a where "parse_parameters a (parameters_json (ac_parameters c)) = Inr (ac_parameters c)"
    using assms by (rule action_okE)
  then show ?thesis by (auto simp: parse_parameters_def res_simps output_of_def intro: construct_output)
qed

lemma submit_quiet:
  assumes "\<not> ca_execute a" and "by_launches P"
  shows "triple P (lift (submit_proposal e a v)) (\<lambda>_. P) (\<lambda>_. P)"
  by (rule lift_triple [OF submit_launches]) (use assms in \<open>auto simp: one_more_def by_launches_def\<close>)

lemma submit_budget:
  assumes "parse_action v = Inr c" and "0 \<le> output_of c"
  shows "triple (inside x k (output_of c)) (lift (submit_proposal e a v)) (\<lambda>_. budget x k) (\<lambda>_. budget x k)"
  by (rule lift_triple [OF submit_launches])
    (use assms in \<open>auto simp: one_more_def inside_def budget_def spent_output_def launches_def output_of_def\<close>)

lemma perform_budget:
  assumes "parse_action proposal = Inr c"
  shows "triple (inside x k (output_of c)) (perform x ex i rv step proposal c preview) (\<lambda>_. budget x k) (\<lambda>_. budget x k)"
proof -
  have o: "0 \<le> output_of c" using parse_action_ok [OF assms] by (rule output_bounds)
  note keep = fails_budget [OF session_keeps(2) [OF by_launches_budget(2)] o] fails_budget [OF session_keeps(3) [OF by_launches_budget(2)] o]
  have ask: "triple (inside x k (output_of c))
      (if oc_decision preview = ''approval_required'' \<and> i \<and> rv then ask_review x c else ret None)
      (\<lambda>_. inside x k (output_of c)) (\<lambda>_. budget x k)"
    by (intro triple_if keep(2) triple_ret)
  have count: "triple (budget x k) (seqS (if oc_status out = ''succeeded''
      then modify (\<lambda>s. s\<lparr>ss_succeeded := ss_succeeded s + 1\<rparr>) else ret ()) (\<lambda>_. ret out)) (\<lambda>_. budget x k) (\<lambda>_. budget x k)" for out
    by (rule triple_seq [where R = "\<lambda>_. budget x k"], intro triple_if triple_modify triple_ret) (simp_all add: triple_ret)
  show ?thesis unfolding perform_def
    by (rule triple_if, rule triple_ret, erule inside_budget [OF o], rule triple_seq [OF ask], rule triple_seq [OF keep(1)],
      rule triple_seq [OF submit_budget [OF assms o] count])
qed

lemma reserve_budget:
  assumes "0 \<le> output_of c"
  shows "triple (\<lambda>s. inside x k 0 s \<and> ss_reserved s + output_of c \<le> li_output (se_limits x)) (reserve x step c)
    (\<lambda>_. inside x k (output_of c)) (\<lambda>_. budget x k)"
  unfolding reserve_def Let_def
  by (rule triple_seq [OF triple_modify [where Q = "\<lambda>_. inside x k (output_of c)"]],
    simp add: inside_def spent_output_def launches_def output_of_def,
    rule triple_seq [OF triple_reads_keep fails_budget [OF session_keeps(1) [OF by_launches_budget(2)] assms]])

lemma record_budget: "triple (budget x k) (record_step x step out) (\<lambda>_. budget x k) (\<lambda>_. budget x k)"
  unfolding record_step_def
  by (rule triple_seq [OF triple_modify triple_seq [OF triple_reads_keep session_keeps(1) [OF by_launches_budget(1)]]]) simp

lemma summarise_budget: "triple (budget x k) (seqS (summarise status reason) (\<lambda>_. ret v)) (\<lambda>_. budget x k) (\<lambda>_. budget x k)"
  unfolding summarise_def by (rule triple_seq [OF triple_modify triple_ret]) simp_all

lemma finish_budget: "triple (budget x k) (seqS (record_step x step out) (\<lambda>_. seqS (summarise status reason) (\<lambda>_. ret v)))
    (\<lambda>_. budget x k) (\<lambda>_. budget x k)"
  by (rule triple_seq [OF record_budget summarise_budget])

lemma action_budget:
  "triple (inside x k 0) (session_action x ex i rv step proposal last_one) (\<lambda>_. budget x k) (\<lambda>_. budget x k)"
proof -
  have quiet: "triple (inside x k 0) (lift (submit_proposal (se_env x) (session_call step False False None) proposal))
      (\<lambda>_. inside x k 0) (\<lambda>_. budget x k)"
    by (rule fails_budget [OF submit_quiet [OF _ by_launches_budget(2)]]) (simp_all add: session_call_def)
  note check = session_keeps(2) [OF by_launches_budget(1), of x k "se_env x"]
  note check_in = fails_budget [OF session_keeps(2) [OF by_launches_budget(2)], of "output_of c" for c]
  have stop: "triple (inside x k 0) (seqS (record_step x step out) (\<lambda>_. seqS (summarise status reason) (\<lambda>_. ret v)))
      (\<lambda>_. budget x k) (\<lambda>_. budget x k)" for out status reason and v :: "outcome option"
    by (rule triple_pre [OF finish_budget]) (auto intro: inside_budget [of 0])
  have go: "triple (\<lambda>s. inside x k 0 s \<and> ss_reserved s + output_of c \<le> li_output (se_limits x)) (seqS (reserve x step c) (\<lambda>_.
         seqS (lift (check (se_env x))) (\<lambda>_.
         seqS (perform x ex i rv step proposal c preview) (\<lambda>out.
         seqS (record_step x step out) (\<lambda>_.
         seqS (lift (check (se_env x))) (\<lambda>_.
         if ex \<and> oc_status out \<noteq> ''succeeded'' then
           seqS (summarise ''stopped'' (''action_'' @ oc_status out)) (\<lambda>_. ret None)
         else if last_one then seqS (summarise ''completed'' ''planner_done'') (\<lambda>_. ret None)
         else ret (Some out)))))))
       (\<lambda>_. budget x k) (\<lambda>_. budget x k)" if p: "parse_action proposal = Inr c" for c preview
  proof -
    have o: "0 \<le> output_of c" using parse_action_ok [OF p] by (rule output_bounds)
    show ?thesis
      by (rule triple_seq [OF reserve_budget [OF o]], rule triple_seq [OF check_in [OF o]], rule triple_seq [OF perform_budget [OF p]],
        rule triple_seq [OF record_budget], rule triple_seq [OF check], intro triple_if summarise_budget triple_ret)
  qed
  show ?thesis unfolding session_action_def
  proof (rule triple_seq [OF quiet], intro triple_if stop triple_sum triple_raise, rule inside_budget [of 0], simp, assumption)
    fix preview c assume p: "parse_action proposal = Inr c"
    show "triple (inside x k 0) (seqS (reads ss_reserved) (\<lambda>reserved.
       if li_output (se_limits x) < reserved + pb_output (bounds_of (ac_parameters c)) then
         seqS (record_step x step (preview\<lparr>oc_status := ''blocked'', oc_reasons := [''session_output_limit'']\<rparr>)) (\<lambda>_.
         seqS (summarise ''stopped'' ''output_limit'') (\<lambda>_. ret None))
       else
         seqS (reserve x step c) (\<lambda>_.
         seqS (lift (check (se_env x))) (\<lambda>_.
         seqS (perform x ex i rv step proposal c preview) (\<lambda>out.
         seqS (record_step x step out) (\<lambda>_.
         seqS (lift (check (se_env x))) (\<lambda>_.
         if ex \<and> oc_status out \<noteq> ''succeeded'' then
           seqS (summarise ''stopped'' (''action_'' @ oc_status out)) (\<lambda>_. ret None)
         else if last_one then seqS (summarise ''completed'' ''planner_done'') (\<lambda>_. ret None)
         else ret (Some out))))))))
       (\<lambda>_. budget x k) (\<lambda>_. budget x k)"
      by (rule triple_seq [OF triple_reads], rule triple_if, rule triple_pre [OF stop], simp, rule triple_pre [OF go [OF p]])
        (simp add: output_of_def)
  qed
qed

lemma step_budget:
  assumes "0 \<le> k" and "k < li_steps (se_limits x)"
  shows "triple (budget x k) (session_step x ex i rv (k + 1) previous) (\<lambda>_. budget x (k + 1)) (\<lambda>_. budget x (k + 1))"
proof -
  have later: "triple (budget x k) (lift (check (se_env x))) (\<lambda>_. budget x k) (\<lambda>_. budget x (k + 1))"
    by (rule triple_raises [OF session_keeps(2) [OF by_launches_budget(1)]]) (erule budget_mono, simp)
  note inner = fails_budget [OF session_keeps(1) [OF by_launches_budget(2)], of 0]
    fails_budget [OF session_keeps(2) [OF by_launches_budget(2)], of 0]
  have stop: "triple (inside x (k + 1) 0) (seqS (summarise status reason) (\<lambda>_. ret v)) (\<lambda>_. budget x (k + 1)) (\<lambda>_. budget x (k + 1))"
    for status reason and v :: "outcome option"
    by (rule triple_pre [OF summarise_budget]) (auto intro: inside_budget [of 0])
  show ?thesis unfolding session_step_def
    by (rule triple_seq [OF later], rule triple_seq [OF triple_modify [where Q = "\<lambda>_. inside x (k + 1) 0"]],
      use assms in \<open>simp add: budget_def inside_def spent_output_def launches_def\<close>,
      rule triple_seq [OF inner(1)], simp, rule triple_sum, rule triple_raise, rule inside_budget [of 0], simp, assumption,
      rule triple_seq [OF triple_reads_keep])
     (auto split: plan_answer.split intro!: triple_raise triple_seq [OF inner(2)] triple_sum triple_seq [OF inner(1)] stop triple_option
       action_budget inside_budget [of 0])
qed

lemma loop_budget:
  assumes "0 \<le> k" and "k \<le> li_steps (se_limits x)"
  shows "triple (budget x k) (session_loop x ex i rv [k + 1..li_steps (se_limits x)] previous)
    (\<lambda>_. budget x (li_steps (se_limits x))) (\<lambda>_. budget x (li_steps (se_limits x)))"
  using assms
proof (induction "nat (li_steps (se_limits x) - k)" arbitrary: k previous)
  case 0
  then show ?case by (auto intro!: triple_ret)
next
  case (Suc n)
  then have k: "k < li_steps (se_limits x)" by simp
  have up: "[k + 1..li_steps (se_limits x)] = (k + 1) # [k + 1 + 1..li_steps (se_limits x)]"
    using k by (simp add: upto_rec1)
  have step: "triple (budget x k) (session_step x ex i rv (k + 1) previous) (\<lambda>_. budget x (k + 1)) (\<lambda>_. budget x (li_steps (se_limits x)))"
    by (rule triple_conseq [OF step_budget [OF Suc.prems(1) k]]) (use k in \<open>auto elim: budget_mono\<close>)
  have rest: "triple (budget x (k + 1)) (ret ()) (\<lambda>_. budget x (li_steps (se_limits x))) (\<lambda>_. budget x (li_steps (se_limits x)))"
    by (rule triple_ret) (use k in \<open>auto elim: budget_mono\<close>)
  show ?case unfolding up session_loop.simps
    by (rule triple_seq [OF step], rule triple_option, rule rest, rule Suc(1)) (use Suc k in simp_all)
qed

lemma session_triple:
  assumes "0 \<le> li_steps (se_limits x)"
  shows "triple (budget x 0) (session_run x ex i rv) (\<lambda>t s. budget x (li_steps (se_limits x)) s \<and> t = s) (\<lambda>_. budget x (li_steps (se_limits x)))"
proof -
  let ?n = "li_steps (se_limits x)"
  have ann: "triple (budget x k) (announce x kind fs) (\<lambda>_. budget x k) (\<lambda>_. budget x ?n)" if "k \<le> ?n" for k kind fs
    by (rule triple_raises [OF session_keeps(1) [OF by_launches_budget(1)]]) (erule budget_mono [OF _ that])
  have loop: "triple (budget x 0) (session_loop x ex i rv [1..?n] None) (\<lambda>_. budget x ?n) (\<lambda>_. budget x ?n)"
    using loop_budget [of 0 x] assms by simp
  show ?thesis unfolding session_run_def
    by (rule triple_seq [OF ann [OF assms]], rule triple_seq [OF triple_catch [OF loop]])
      (auto split: failure.split intro!: triple_raise triple_modify triple_seq [OF triple_reads_keep] triple_seq [OF ann]
        triple_conseq [OF triple_reads [of "budget x ?n"]])
qed

lemma make_limits_bounds:
  assumes "make_limits steps runtime output = Inr l"
  shows "1 \<le> li_steps l" "li_steps l \<le> 16" "1 \<le> li_output l"
  using assms by (auto simp: make_limits_def res_simps elim!: int_inE)

end
