(* ===== verification/BoundaryDemo.thy ===== *)
theory BoundaryDemo
  imports SessionSafety
begin

text \<open>
  One concrete policy and one proposal, parsed by the model: the input at which the properties
  of the boundary are instantiated.
\<close>

definition demo_policy_json :: pyval where
  "demo_policy_json = PDict [(''schema_version'', PStr ''1''), (''policy_version'', PStr ''lab-1''),
     (''allowed_targets'', PList [PStr ''127.0.0.0/30'']), (''allowed_tools'', PList [PStr ''nmap_tcp_connect_v1'']),
     (''allowed_ports'', PList [PInt 80]), (''allowed_methods'', PList [PStr ''GET'']),
     (''max_timeout_seconds'', PInt 5), (''max_output_bytes'', PInt 4096), (''max_targets'', PInt 4),
     (''require_approval'', PBool True), (''approval_ttl_seconds'', PInt 60)]"

definition demo_policy :: policy where
  "demo_policy = \<lparr>po_version = ''lab-1'', po_targets = [''127.0.0.0/30''], po_tools = [''nmap_tcp_connect_v1''],
     po_ports = [80], po_methods = [''GET''], po_timeout = 5, po_output = 4096, po_max_targets = 4,
     po_approval = True, po_ttl = 60\<rparr>"

definition demo_proposal :: pyval where
  "demo_proposal = PDict [(''schema_version'', PStr ''1''), (''action_id'', PStr ''00000000-0000-4000-8000-000000000001''),
     (''tool_id'', PStr ''nmap_tcp_connect_v1''), (''target'', PStr ''127.0.0.1''),
     (''parameters'', PDict [(''port'', PInt 80), (''timeout_seconds'', PInt 5), (''max_output_bytes'', PInt 4096)]),
     (''rationale'', PStr ''look'')]"

definition demo_action :: action where
  "demo_action = \<lparr>ac_id = ''00000000-0000-4000-8000-000000000001'', ac_tool = ''nmap_tcp_connect_v1'',
     ac_target = ''127.0.0.1'', ac_parameters = Bounded ''NmapTCPParameters'' \<lparr>pb_port = 80, pb_timeout = 5, pb_output = 4096\<rparr>,
     ac_rationale = ''look''\<rparr>"

lemma demo_targets: "target_network (PStr ''127.0.0.1'') = Inr \<lparr>nw_family = V4, nw_base = 2130706433, nw_prefix = 32\<rparr>"
  "target_network (PStr ''127.0.0.0/30'') = Inr \<lparr>nw_family = V4, nw_base = 2130706432, nw_prefix = 30\<rparr>"
  by code_simp+

lemma demo_canonical: "canonical_target (PStr ''127.0.0.1'') = Inr ''127.0.0.1''"
  "canonical_target (PStr ''127.0.0.0/30'') = Inr ''127.0.0.0/30''"
  by code_simp+

lemma demo_uuid: "canonical_uuid ''00000000-0000-4000-8000-000000000001''"
  by code_simp

lemma demo_tool: "''nmap_tcp_connect_v1'' \<in> set SUPPORTED_TOOLS"
  by (simp add: supported_tools registry_defs)

lemma demo_adapter: "\<exists>a \<in> set ADAPTERS. ad_tool a = ''nmap_tcp_connect_v1'' \<and> ad_class a = ''NmapTCPParameters''"
proof -
  have "list_ex (\<lambda>a. ad_tool a = ''nmap_tcp_connect_v1'' \<and> ad_class a = ''NmapTCPParameters'') ADAPTERS_1"
    unfolding ADAPTERS_1_def by simp
  then show ?thesis by (auto simp: list_ex_iff ADAPTERS_def)
qed

abbreviation demo_bounds :: bounds where
  "demo_bounds \<equiv> \<lparr>pb_port = 80, pb_timeout = 5, pb_output = 4096\<rparr>"

lemma demo_items:
  "item demo_proposal ''schema_version'' = PStr ''1''" "item demo_proposal ''tool_id'' = PStr ''nmap_tcp_connect_v1''"
  "item demo_proposal ''action_id'' = PStr ''00000000-0000-4000-8000-000000000001''"
  "item demo_proposal ''target'' = PStr ''127.0.0.1''" "item demo_proposal ''rationale'' = PStr ''look''"
  "item demo_proposal ''parameters'' = PDict (bounds_entries demo_bounds)"
  by (simp_all add: demo_proposal_def item_PDict bounds_entries_def)

lemma demo_parameters:
  "construct ''NmapTCPParameters'' (PDict (bounds_entries demo_bounds)) = Inr (Bounded ''NmapTCPParameters'' demo_bounds)"
  by (simp add: construct_def HTTP_CLASSES_def read_bounds_def res_simps bounds_entries_def item_PDict
    MAX_TIMEOUT_SECONDS_def MAX_OUTPUT_BYTES_def)

lemma demo_parse: "parse_action demo_proposal = Inr demo_action"
proof -
  obtain a where a: "a \<in> set ADAPTERS" "ad_tool a = ''nmap_tcp_connect_v1''" "ad_class a = ''NmapTCPParameters''"
    using demo_adapter by blast
  have f: "ad_fields a = BOUNDS_FIELDS" using adapter_fields [OF a(1)] by (simp add: a class_fields_def HTTP_CLASSES_def)
  have p: "parse_parameters a (item demo_proposal ''parameters'') = Inr (Bounded ''NmapTCPParameters'' demo_bounds)"
    by (simp add: parse_parameters_def a f demo_parameters demo_items res_simps)
      (simp add: same_fields_def fields_of_def BOUNDS_FIELDS_def bounds_entries_def)
  have d: "decoded demo_proposal = Inr demo_proposal" "is_dict demo_proposal" "same_fields demo_proposal ACTION_FIELDS"
    by (simp_all add: decoded_def demo_proposal_def ACTION_FIELDS_def same_fields_def fields_of_def)
  have c: "ac_id demo_action = ''00000000-0000-4000-8000-000000000001''" "ac_tool demo_action = ''nmap_tcp_connect_v1''"
    "ac_target demo_action = ''127.0.0.1''" "ac_parameters demo_action = Bounded ''NmapTCPParameters'' demo_bounds"
    "ac_rationale demo_action = ''look''" by (simp_all add: demo_action_def)
  have "make_action demo_proposal a (ac_parameters demo_action) = Inr demo_action"
    unfolding make_action_Inr demo_items c by (simp add: demo_uuid demo_canonical demo_targets a)
  then show ?thesis
    unfolding parse_action_Inr using d a p by (intro exI [of _ demo_proposal] exI [of _ a]) (simp add: demo_items c)
qed

lemma demo_policy_items:
  "item demo_policy_json ''schema_version'' = PStr ''1''" "item demo_policy_json ''policy_version'' = PStr ''lab-1''"
  "item demo_policy_json ''allowed_targets'' = PList [PStr ''127.0.0.0/30'']"
  "item demo_policy_json ''allowed_tools'' = PList [PStr ''nmap_tcp_connect_v1'']"
  "item demo_policy_json ''allowed_ports'' = PList [PInt 80]" "item demo_policy_json ''allowed_methods'' = PList [PStr ''GET'']"
  "item demo_policy_json ''max_timeout_seconds'' = PInt 5" "item demo_policy_json ''max_output_bytes'' = PInt 4096"
  "item demo_policy_json ''max_targets'' = PInt 4" "item demo_policy_json ''require_approval'' = PBool True"
  "item demo_policy_json ''approval_ttl_seconds'' = PInt 60"
  by (simp_all add: demo_policy_json_def item_PDict)

lemma demo_policy_parse: "parse_policy demo_policy_json = Inr demo_policy"
proof -
  have d: "decoded demo_policy_json = Inr demo_policy_json" "is_dict demo_policy_json" "same_fields demo_policy_json POLICY_FIELDS"
    by (simp_all add: decoded_def demo_policy_json_def POLICY_FIELDS_def same_fields_def fields_of_def)
  have "version_text ''lab-1''" by code_simp
  then have "make_policy demo_policy_json = Inr demo_policy"
    unfolding make_policy_Inr demo_policy_items
    by (simp add: demo_policy_items demo_policy_def demo_canonical in_list_def str_in_def demo_tool res_simps SUPPORTED_POLICY_METHODS_def
      SUPPORTED_METHODS_def MAX_TIMEOUT_SECONDS_def MAX_OUTPUT_BYTES_def MAX_TARGETS_def)
  then show ?thesis unfolding parse_policy_Inr using d by (intro exI [of _ demo_policy_json]) (simp add: demo_policy_items)
qed

lemma demo_permits: "permits demo_policy demo_action"
proof -
  have "objections demo_policy demo_action = map (\<lambda>(b, r). (False, r)) (objections demo_policy demo_action)"
    by (simp add: objections_def Let_def action_network_def demo_action_def demo_policy_def policy_networks_def demo_targets
      host_count_def subnet_of_def last_address_def METHOD_TOOLS_def GET_TOOLS_def)
  then have "filter fst (objections demo_policy demo_action) = []"
    by (metis (no_types, lifting) case_prod_unfold filter_False fst_conv imageE list.set_map)
  then show ?thesis using no_objections [OF parse_action_ok [OF demo_parse], of demo_policy] by simp
qed

lemma demo_decision: "evaluate demo_policy demo_action = Approval_required"
  using evaluate_permits [OF parse_action_ok [OF demo_parse], of demo_policy] demo_permits by (simp add: demo_policy_def)

section \<open>A run of the controller\<close>

definition demo_env :: env where
  "demo_env = \<lparr>en_policy = demo_policy, en_session = None, en_backend = ''bounded_process'', en_evidence = False,
     en_digest = (\<lambda>s. s), en_audit = (\<lambda>n. True), en_stop = (\<lambda>n. None), en_now = (\<lambda>n. 0), en_approvals = (\<lambda>n. True),
     en_available = (\<lambda>n c. Available), en_start = (\<lambda>n. None), en_run = (\<lambda>n c. Returned (PDict [(''status'', PStr ''succeeded'')])),
     en_finish = (\<lambda>n. True)\<rparr>"

definition demo_reference :: string where "demo_reference = replicate 48 CHR ''a''"

definition demo_grant :: grant where
  "demo_grant = new_grant (\<lambda>s. s) 0 demo_reference demo_action demo_policy"

definition demo_call :: call where
  "demo_call = \<lparr>ca_execute = True, ca_reference = Some demo_reference, ca_interactive = True, ca_control = True, ca_step = None\<rparr>"

definition demo_start :: ctl_state where
  "demo_start = \<lparr>cs_audit_failed = False, cs_approval_failed = False, cs_grants = [], cs_checks = 0, cs_trace = []\<rparr>"

definition demo_granted :: ctl_state where
  "demo_granted = demo_start\<lparr>cs_grants := [demo_grant], cs_trace := [Granted demo_grant]\<rparr>"

lemma demo_grant_fields: "gr_reference demo_grant = demo_reference" "gr_action demo_grant = action_digest (\<lambda>s. s) demo_action"
  "gr_policy demo_grant = policy_digest (\<lambda>s. s) demo_policy" "gr_expires demo_grant = 60000000" "length demo_reference = 48"
proof -
  show "gr_reference demo_grant = demo_reference" "gr_action demo_grant = action_digest (\<lambda>s. s) demo_action"
    "gr_policy demo_grant = policy_digest (\<lambda>s. s) demo_policy" "gr_expires demo_grant = 60000000"
    by (simp_all add: demo_grant_def new_grant_def microseconds_def demo_policy_def)
  show "length demo_reference = 48" by (simp add: demo_reference_def)
qed

lemma demo_env_fields:
  "en_policy demo_env = demo_policy" "en_digest demo_env = (\<lambda>s. s)" "en_session demo_env = None" "en_now demo_env = (\<lambda>n. 0)"
  "en_audit demo_env = (\<lambda>n. True)" "en_stop demo_env = (\<lambda>n. None)" "en_approvals demo_env = (\<lambda>n. True)"
  "en_available demo_env = (\<lambda>n c. Available)" "en_evidence demo_env = False"
  "en_run demo_env = (\<lambda>n c. Returned (PDict [(''status'', PStr ''succeeded'')]))"
  by (simp_all add: demo_env_def)

lemma demo_controller_start: "controller_start demo_env demo_start"
  using parse_policy_ok [OF demo_policy_parse]
  by (simp add: controller_start_def demo_start_def demo_env_fields policy_ok_def)

lemma demo_grants: "grant_approval demo_env demo_reference demo_action demo_start = (Inr demo_reference, demo_granted)"
  by (simp add: grant_approval_def demo_env_fields issue_def demo_decision demo_start_def live_def CAPACITY_def put_grant_def
    demo_grant_def [symmetric] demo_grant_fields log_def demo_granted_def Let_def)

definition demo_finished :: ctl_state where
  "demo_finished = snd (submit_proposal demo_env demo_call demo_proposal demo_granted)"

lemma demo_submits:
  "\<exists>out. submit_proposal demo_env demo_call demo_proposal demo_granted = (Inr out, demo_finished) \<and> oc_status out = ''succeeded''"
  "launched (cs_trace demo_finished) = [demo_action]" "consumed (cs_trace demo_finished) = [demo_grant]" "cs_grants demo_finished = []"
proof -
  have st: "status_of (PDict [(''status'', PStr ''succeeded'')]) = ''succeeded''"
    by (simp add: status_of_def item_PDict STATUSES_def)
  note run = submit_proposal_def seqS_def catchS_def reads_def modify_def ret_def raise_def guard_def step_ok_def demo_call_def
      check_if_def check_def Let_def demo_env_fields submit_locked_def demo_parse decide_def demo_decision emit_def demo_granted_def
      demo_start_def approve_def use_approval_def consume_with_grant_def demo_grant_fields log_def position_def execute_def launch_def
      run_backend_def st
  show "\<exists>out. submit_proposal demo_env demo_call demo_proposal demo_granted = (Inr out, demo_finished) \<and> oc_status out = ''succeeded''"
    "launched (cs_trace demo_finished) = [demo_action]" "consumed (cs_trace demo_finished) = [demo_grant]" "cs_grants demo_finished = []"
    unfolding demo_finished_def by (simp_all add: run)
qed

lemma demo_run_reach: "reach (controller_start demo_env) (ctl_step demo_env) demo_start"
  "reach (controller_start demo_env) (ctl_step demo_env) demo_granted"
  "reach (controller_start demo_env) (ctl_step demo_env) demo_finished"
proof -
  show a: "reach (controller_start demo_env) (ctl_step demo_env) demo_start"
    by (rule reach_init) (rule demo_controller_start)
  have "ctl_step demo_env demo_start demo_granted"
    by (rule reviewed [OF demo_grants]) (simp add: demo_start_def)
  then show b: "reach (controller_start demo_env) (ctl_step demo_env) demo_granted" by (rule reach_step [OF a])
  obtain out where "submit_proposal demo_env demo_call demo_proposal demo_granted = (Inr out, demo_finished)"
    using demo_submits(1) by blast
  then have "ctl_step demo_env demo_granted demo_finished" by (rule submitted)
  then show "reach (controller_start demo_env) (ctl_step demo_env) demo_finished" by (rule reach_step [OF b])
qed

end
