(* ===== verification/BoundaryProps.thy ===== *)
theory BoundaryProps
  imports ApprovalHistory LoadJson BoundaryDemo
begin

text \<open>
  Properties of the boundary between the untrusted planner and the tools: reading proposals,
  the policy decision, approvals, the controller and bounded sessions. Each is stated for every
  behaviour of the surroundings (clock, audit, backend, planner, review) and is followed by an
  instance at the policy and proposal of \<open>BoundaryDemo\<close>.
\<close>

section \<open>Proposals\<close>

text \<open>
  C18: parsing is stable and canonical texts identify actions. What \<open>parse_action\<close> accepts (as a
  dictionary or as JSON text) prints with \<open>to_dict\<close> to a value that parses to the same action,
  also after canonical serialisation and reading the JSON text back, and two accepted actions
  with the same canonical text are equal.
\<close>

theorem action_roundtrip:
  assumes "parse_action raw = Inr c"
  shows "parse_action (action_json c) = Inr c \<and> parse_action (PStr (canonical (action_json c))) = Inr c
    \<and> (parse_action raw' = Inr d \<longrightarrow> canonical (action_json d) = canonical (action_json c) \<longrightarrow> d = c)"
  using parse_action_ok [OF assms] parse_action_ok [of raw' d] action_text_parses canonical_action_inj
  by (auto simp: action_ok_def)

theorem action_roundtrip_witness:
  "parse_action (PStr (canonical (action_json demo_action))) = Inr demo_action"
  using action_roundtrip [OF demo_parse] by blast



section \<open>The decision\<close>

text \<open>
  C13: the policy decision is exactly the policy. For a parsed action \<open>evaluate\<close> denies unless the
  tool, port, method, time and output limits of the policy cover the action, the number of its
  addresses is within bounds and all of them lie in one allowed network; if nothing is violated
  the answer depends only on whether the policy asks for approval; a denial has a reason.
\<close>

theorem evaluate_is_policy:
  assumes "parse_action raw = Inr c"
  shows "(evaluate p c = Allow \<longleftrightarrow> permits p c \<and> \<not> po_approval p)
    \<and> (evaluate p c = Approval_required \<longleftrightarrow> permits p c \<and> po_approval p)
    \<and> (\<forall>rs. evaluate p c = Deny rs \<longrightarrow> \<not> permits p c \<and> rs \<noteq> [])"
proof -
  have "map snd (filter fst (objections p c)) = [] \<longleftrightarrow> permits p c"
    using no_objections [OF parse_action_ok [OF assms]] by simp
  then show ?thesis by (auto simp: evaluate_permits [OF parse_action_ok [OF assms]])
qed

theorem evaluate_is_policy_witness: "evaluate demo_policy demo_action = Approval_required"
  using evaluate_is_policy [OF demo_parse, of demo_policy] demo_permits by (simp add: demo_policy_def)

text \<open>
  C14: the addresses an allowed action reaches are few and in scope. Whenever the policy does not
  deny a parsed action, \<open>action.targets\<close> does not raise, has at most \<open>max_targets\<close> (and so at most
  16) entries, and every entry is a literal address that parses as a single host inside an
  allowed network of the policy.
\<close>

theorem permitted_targets_in_scope:
  assumes "parse_action raw = Inr c" and "parse_policy raw' = Inr p" and "decision_name (evaluate p c) \<noteq> ''deny''"
  shows "\<exists>ts. action_targets c = Inr ts \<and> int (length ts) \<le> po_max_targets p \<and> length ts \<le> 16
    \<and> (\<forall>t \<in> set ts. \<exists>x m. target_network (PStr t) = Inr (host (action_network c) x)
        \<and> m \<in> set (policy_networks p) \<and> in_network m x)"
proof -
  let ?n = "action_network c"
  have ok: "action_ok c" by (rule parse_action_ok [OF assms(1)])
  have "permits p c" using assms(3) evaluate_permits [OF ok, of p] by (auto split: if_splits)
  then have few: "host_count ?n \<le> po_max_targets p" and s: "in_scope p c" by (simp_all add: permits_def)
  obtain m where m: "m \<in> set (policy_networks p)" "nw_family ?n = nw_family m" "\<forall>x. in_network ?n x \<longrightarrow> in_network m x"
    using s by (auto simp: in_scope_def policy_networks_iff)
  note n = action_network_ok(2,3) [OF ok]
  have max: "po_max_targets p \<le> 16" using policy_okD(3) [OF parse_policy_ok [OF assms(2)]] by (simp add: MAX_TARGETS_def)
  let ?ts = "map (\<lambda>x. show_address (nw_family ?n) x) [nw_base ?n..last_address ?n]"
  have t: "action_targets c = Inr ?ts" using few max by (simp add: action_targets_def Let_def res_simps MAX_TARGETS_def)
  have len: "int (length ?ts) = host_count ?n" using host_count_pos [of ?n] by (simp add: last_address_def)
  have "\<exists>x m. target_network (PStr t) = Inr (host ?n x) \<and> m \<in> set (policy_networks p) \<and> in_network m x" if t: "t \<in> set ?ts" for t
  proof -
    obtain x where x: "t = show_address (nw_family ?n) x" "nw_base ?n \<le> x" "x \<le> last_address ?n" using t by auto
    then have i: "in_network ?n x" using in_network_iff [OF n(1)] by simp
    show ?thesis using host_address [OF n i] x(1) m i by blast
  qed
  moreover have "length ?ts \<le> 16" using len few max by linarith
  ultimately show ?thesis using t len few by (intro exI [of _ ?ts] conjI) auto
qed

theorem permitted_targets_in_scope_witness:
  "\<exists>ts. action_targets demo_action = Inr ts \<and> int (length ts) \<le> po_max_targets demo_policy \<and> length ts \<le> 16"
  using permitted_targets_in_scope [OF demo_parse demo_policy_parse] by (auto simp: demo_decision)

section \<open>Approvals\<close>

text \<open>
  C15: an approval is for one action, one policy, one use and its own lifetime, whatever else the
  store is asked. After any history of reviews and uses of one store, with a clock that does not go
  back and distinct random references, a use of \<open>r\<close> for \<open>d\<close> under \<open>q\<close> succeeds exactly when \<open>r\<close> has
  48 characters and the history reviewed, under that reference, an action with the digest of \<open>d\<close>
  and a policy with the digest of \<open>q\<close>, the review issued a grant, no use of \<open>r\<close> followed it (with
  whatever result), and less than that policy's time to live has passed since. Actions with equal
  digests are equal or a SHA-256 collision, and after a successful use every further one is refused.
\<close>

theorem approval_binds:
  assumes "calls_ok xs" and "\<forall>x\<in>set xs. call_time x \<le> t" and "action_ok d"
  shows "(fst (consume H t (Some r) d q (after H xs)) = None \<longleftrightarrow> length r = 48
      \<and> (\<exists>now c p g. outstanding H xs now r c p g \<and> t < now + microseconds (po_ttl p)
          \<and> action_digest H c = action_digest H d \<and> policy_digest H p = policy_digest H q))
    \<and> (\<forall>c. action_ok c \<and> action_digest H c = action_digest H d \<longrightarrow>
          c = d \<or> (canonical (action_json c) \<noteq> canonical (action_json d)
            \<and> H (canonical (action_json c)) = H (canonical (action_json d))))
    \<and> (fst (consume H t (Some r) d q (after H xs)) = None \<longrightarrow>
          fst (consume H t' (Some r) e q' (snd (consume H t (Some r) d q (after H xs)))) \<noteq> None)"
proof (intro conjI allI impI)
  show "fst (consume H t (Some r) d q (after H xs)) = None \<longleftrightarrow> length r = 48
      \<and> (\<exists>now c p g. outstanding H xs now r c p g \<and> t < now + microseconds (po_ttl p)
          \<and> action_digest H c = action_digest H d \<and> policy_digest H p = policy_digest H q)"
    by (rule consume_history [OF assms(1,2)])
  show "c = d \<or> (canonical (action_json c) \<noteq> canonical (action_json d)
      \<and> H (canonical (action_json c)) = H (canonical (action_json d)))"
    if "action_ok c \<and> action_digest H c = action_digest H d" for c
    using that canonical_action_inj [of c d] assms(3) by (auto simp: action_digest_def)
  show "fst (consume H t' (Some r) e q' (snd (consume H t (Some r) d q (after H xs)))) \<noteq> None"
    if "fst (consume H t (Some r) d q (after H xs)) = None"
    using that by (rule consume_again)
qed

definition two_reviews :: "approval_call list" where
  "two_reviews = [Review 0 demo_reference demo_action demo_policy, Review 1000000 (replicate 48 CHR ''b'') demo_action demo_policy]"

theorem approval_binds_witness:
  "fst (consume (\<lambda>s. s) 5000000 (Some demo_reference) demo_action demo_policy (after (\<lambda>s. s) two_reviews)) = None
    \<and> fst (consume (\<lambda>s. s) 60000000 (Some demo_reference) demo_action demo_policy (after (\<lambda>s. s) two_reviews)) \<noteq> None"
proof -
  have ok: "calls_ok two_reviews" "\<forall>x\<in>set two_reviews. call_time x \<le> 5000000" "\<forall>x\<in>set two_reviews. call_time x \<le> 60000000"
    by (simp_all add: calls_ok_def two_reviews_def demo_reference_def)
  have "fst (issue (\<lambda>s. s) 0 demo_reference demo_action demo_policy (after (\<lambda>s. s) [])) = Inr demo_grant"
    by (simp add: issue_def demo_decision live_def CAPACITY_def demo_grant_def [symmetric])
  then have o: "outstanding (\<lambda>s. s) two_reviews 0 demo_reference demo_action demo_policy demo_grant"
    unfolding outstanding_def two_reviews_def
    by (intro exI [of _ "[]"] exI [of _ "[Review 1000000 (replicate 48 CHR ''b'') demo_action demo_policy]"]) simp
  have only: "now = 0 \<and> p = demo_policy" if "outstanding (\<lambda>s. s) two_reviews now demo_reference c p g" for now c p g
    using that by (auto simp: outstanding_def two_reviews_def demo_reference_def Cons_eq_append_conv)
  note a = parse_action_ok [OF demo_parse]
  have ttl: "microseconds (po_ttl demo_policy) = 60000000" by (simp add: microseconds_def demo_policy_def)
  show ?thesis
  proof
    show "fst (consume (\<lambda>s. s) 5000000 (Some demo_reference) demo_action demo_policy (after (\<lambda>s. s) two_reviews)) = None"
      unfolding approval_binds [OF ok(1,2) a, THEN conjunct1]
      by (intro conjI demo_grant_fields(5) exI [of _ 0] exI [of _ demo_action] exI [of _ demo_policy] exI [of _ demo_grant] o)
        (simp_all add: ttl)
    show "fst (consume (\<lambda>s. s) 60000000 (Some demo_reference) demo_action demo_policy (after (\<lambda>s. s) two_reviews)) \<noteq> None"
      unfolding approval_binds [OF ok(1,3) a, THEN conjunct1] by (auto dest!: only simp: ttl)
  qed
qed

section \<open>The controller\<close>

text \<open>
  C1: every launch is authorised. Along any run of a controller, with arbitrary proposals,
  surroundings and interleaved reviews, at every launch of the backend the policy permits the
  action, the event directly before it in the durable audit is \<open>execution_started\<close> for that
  action and, when the policy asks for approval, a grant for exactly this action and policy was
  issued by the review earlier, was unexpired when it was used, had never been used before, and
  nothing was launched since its use.
\<close>

theorem launches_authorised:
  assumes "reach (controller_start e) (ctl_step e) s"
  shows "authorised e (cs_trace s)"
  using ctl.reach_inv [OF assms] by (simp add: ctl_inv_def trace_authorised)

theorem launches_authorised_witness:
  "\<exists>S T g. cs_trace demo_finished = S @ Launched demo_action # T \<and> announced demo_env demo_action S
     \<and> bound_to demo_env demo_action g \<and> Consumed g \<in> set S"
proof -
  have "Launched demo_action \<in> set (cs_trace demo_finished)"
  proof (rule ccontr)
    assume "Launched demo_action \<notin> set (cs_trace demo_finished)"
    then have "demo_action \<notin> set (launched (cs_trace demo_finished))"
      by (auto simp: launched_def split: effect.splits)
    then show False by (simp add: demo_submits)
  qed
  then obtain S T where t: "cs_trace demo_finished = S @ Launched demo_action # T" by (meson split_list)
  have "po_approval (en_policy demo_env)" by (simp add: demo_env_fields demo_policy_def)
  with launches_authorised [OF demo_run_reach(3)] t obtain g A B where
    "announced demo_env demo_action S" "S = A @ Consumed g # B" "bound_to demo_env demo_action g"
    unfolding authorised_def by blast
  then show ?thesis using t by (intro exI [of _ S] exI [of _ T] exI [of _ g]) simp
qed

text \<open>What a run with a closed audit or approval path leaves alone.\<close>

definition stuck :: "ctl_state \<Rightarrow> bool" where
  "stuck s \<longleftrightarrow> cs_audit_failed s \<or> cs_approval_failed s"

lemma stuck_check: "check_if b e s = (r, t) \<Longrightarrow> cs_trace t = cs_trace s \<and> cs_grants t = cs_grants s
    \<and> cs_audit_failed t = cs_audit_failed s \<and> cs_approval_failed t = cs_approval_failed s"
  by (auto simp: check_if_def check_def ret_def Let_def split: if_splits option.splits)

lemma stuck_locked: "cs_audit_failed s \<Longrightarrow> submit_locked e a v s = (Inl Audit_unavailable, s)"
  by (auto simp: submit_locked_def decide_def Let_def seqS_def emit_def split: sum.splits)

lemma stuck_submit:
  assumes "stuck s" and "submit_proposal e a v s = (r, t)"
  shows "(\<exists>f. r = Inl f) \<and> cs_trace t = cs_trace s \<and> cs_grants t = cs_grants s \<and> stuck t"
proof (cases "cs_approval_failed s \<or> \<not> step_ok e a")
  case True
  then show ?thesis using assms
    by (auto simp: submit_proposal_def seqS_def reads_def guard_def ret_def raise_def split: if_splits)
next
  case False
  then have a: "cs_audit_failed s" and rest: "submit_proposal e a v s = (case check_if (ca_control a) e s of
      (Inl f, u) \<Rightarrow> (Inl f, u) | (Inr x, u) \<Rightarrow> catchS (submit_locked e a v) (\<lambda>f.
      if f = Approval_unavailable then seqS (modify (\<lambda>s. s\<lparr>cs_approval_failed := True\<rparr>)) (\<lambda>_. raise f) else raise f) u)"
    using assms(1) by (auto simp: submit_proposal_def seqS_def reads_def guard_def ret_def stuck_def split: prod.splits sum.splits)
  obtain x u where u: "check_if (ca_control a) e s = (x, u)" by (cases "check_if (ca_control a) e s")
  note k = stuck_check [OF u]
  show ?thesis
  proof (cases x)
    case (Inl f)
    then show ?thesis using assms rest u k by (auto simp: stuck_def)
  next
    case (Inr y)
    have "submit_locked e a v u = (Inl Audit_unavailable, u)" by (rule stuck_locked) (use a k in simp)
    then have "submit_proposal e a v s = (Inl Audit_unavailable, u)" using rest u Inr by (simp add: catchS_def raise_def)
    then show ?thesis using assms k by (auto simp: stuck_def)
  qed
qed

lemma stuck_step:
  assumes "ctl_step e s t" and "stuck s"
  shows "stuck t \<and> launched (cs_trace t) = launched (cs_trace s) \<and> consumed (cs_trace t) = consumed (cs_trace s)"
  using assms
proof cases
  case (submitted a v res)
  then show ?thesis using stuck_submit [OF assms(2) submitted] by simp
next
  case (reviewed reference c res)
  then show ?thesis using assms(2) by (auto simp: grant_approval_def stuck_def log_def split: prod.splits sum.splits)
qed

text \<open>
  C16: a failed audit write or an unavailable approval service closes the controller for good.
  The call that met the failure has latched it, every later submission raises and changes
  neither the trace nor the grants, and nothing is launched and no grant is used in any
  continuation of the run.
\<close>

theorem failure_closes_controller:
  "(emit e x s = (Inl f, u) \<longrightarrow> cs_audit_failed u)
    \<and> (submit_proposal e a v s = (Inl Approval_unavailable, u) \<longrightarrow> cs_approval_failed u)
    \<and> (stuck s \<longrightarrow> submit_proposal e a v s = (r, t) \<longrightarrow> (\<exists>f. r = Inl f) \<and> cs_trace t = cs_trace s \<and> cs_grants t = cs_grants s)
    \<and> (stuck s \<longrightarrow> (ctl_step e)\<^sup>*\<^sup>* s w \<longrightarrow> launched (cs_trace w) = launched (cs_trace s) \<and> consumed (cs_trace w) = consumed (cs_trace s))"
proof (intro conjI impI)
  show "emit e x s = (Inl f, u) \<Longrightarrow> cs_audit_failed u" by (auto simp: emit_def split: if_splits)
  show "submit_proposal e a v s = (Inl Approval_unavailable, u) \<Longrightarrow> cs_approval_failed u"
    by (auto simp: submit_proposal_def seqS_def catchS_def reads_def modify_def guard_def ret_def raise_def check_if_def check_def Let_def
      split: if_splits prod.splits sum.splits option.splits)
  assume s: "stuck s"
  show "submit_proposal e a v s = (r, t) \<Longrightarrow> \<exists>f. r = Inl f" "submit_proposal e a v s = (r, t) \<Longrightarrow> cs_trace t = cs_trace s"
    "submit_proposal e a v s = (r, t) \<Longrightarrow> cs_grants t = cs_grants s"
    using stuck_submit [OF s] by blast+
  assume "(ctl_step e)\<^sup>*\<^sup>* s w"
  then have "stuck w \<and> launched (cs_trace w) = launched (cs_trace s) \<and> consumed (cs_trace w) = consumed (cs_trace s)"
    by (induction rule: rtranclp_induct) (use s stuck_step in auto)
  then show "launched (cs_trace w) = launched (cs_trace s)" "consumed (cs_trace w) = consumed (cs_trace s)" by simp_all
qed

theorem failure_closes_controller_witness:
  "cs_trace (snd (submit_proposal demo_env demo_call demo_proposal (demo_granted\<lparr>cs_audit_failed := True\<rparr>))) = [Granted demo_grant]"
  using failure_closes_controller [of demo_env "Launched demo_action" "demo_granted\<lparr>cs_audit_failed := True\<rparr>" Component_failed
    demo_start demo_call demo_proposal "fst (submit_proposal demo_env demo_call demo_proposal (demo_granted\<lparr>cs_audit_failed := True\<rparr>))"
    "snd (submit_proposal demo_env demo_call demo_proposal (demo_granted\<lparr>cs_audit_failed := True\<rparr>))"]
  by (simp add: stuck_def demo_granted_def)

text \<open>
  C21: a dry run decides and does nothing. Submitting without \<open>execute\<close> launches nothing, uses no
  grant and issues none; when it returns for a proposal that parses, decision and reasons are
  those of the policy, the status says dry run or blocked, and the trace has grown by exactly the
  one audit event of the decision.
\<close>

theorem dry_run_only_decides:
  assumes "\<not> ca_execute a" and "submit_proposal e a v s = (r, t)"
  shows "launched (cs_trace t) = launched (cs_trace s) \<and> consumed (cs_trace t) = consumed (cs_trace s) \<and> cs_grants t = cs_grants s
    \<and> (\<forall>out c. r = Inr out \<longrightarrow> parse_action v = Inr c \<longrightarrow>
        oc_decision out = decision_name (evaluate (en_policy e) c) \<and> oc_reasons out = decision_reasons (evaluate (en_policy e) c)
        \<and> oc_status out = (if decision_name (evaluate (en_policy e) c) = ''deny'' then ''blocked'' else ''dry_run'')
        \<and> (\<exists>seen extra. cs_trace t = cs_trace s @ [Emitted ''policy_decision'' seen extra]))"
  using assms
  by (auto simp: submit_proposal_def submit_locked_def decide_def seqS_def catchS_def reads_def modify_def guard_def ret_def raise_def
      check_if_def check_def emit_def log_def base_outcome_def Let_def split: if_splits prod.splits sum.splits option.splits)

theorem dry_run_only_decides_witness:
  "launched (cs_trace (snd (submit_proposal demo_env (demo_call\<lparr>ca_execute := False\<rparr>) demo_proposal demo_granted))) = []"
  using dry_run_only_decides [of "demo_call\<lparr>ca_execute := False\<rparr>" demo_env demo_proposal demo_granted
    "fst (submit_proposal demo_env (demo_call\<lparr>ca_execute := False\<rparr>) demo_proposal demo_granted)"
    "snd (submit_proposal demo_env (demo_call\<lparr>ca_execute := False\<rparr>) demo_proposal demo_granted)"]
  by (simp add: demo_granted_def)

section \<open>What leaves the controller\<close>

text \<open>Metadata: bounded numbers and booleans under known names, and at most 16 rows of the same shape.\<close>

definition plain_value :: "pyval \<Rightarrow> bool" where
  "plain_value w = (case w of PBool b \<Rightarrow> True | PInt i \<Rightarrow> 0 \<le> i \<and> i \<le> 10 ^ 9 | _ \<Rightarrow> False)"

definition plain_entry :: "string \<times> pyval \<Rightarrow> bool" where
  "plain_entry e \<longleftrightarrow> fst e \<in> set METADATA_KEYS \<and> plain_value (snd e)"

inductive metadata :: "pyval \<Rightarrow> bool" where
  plain: "list_all plain_entry kvs \<Longrightarrow> metadata (PDict kvs)"
| rows: "list_all plain_entry kvs \<Longrightarrow> length ms \<le> 16 \<Longrightarrow> \<forall>m \<in> set ms. metadata m
    \<Longrightarrow> metadata (PDict (kvs @ [(''results'', PList ms)]))"

lemma metadata_entries: "list_all plain_entry (concat (map (metadata_entry v) METADATA_KEYS))"
proof -
  have "plain_entry e" if "e \<in> set (metadata_entry v k)" "k \<in> set METADATA_KEYS" for e k
    using that by (cases "item v k") (auto simp: metadata_entry_def plain_entry_def plain_value_def split: if_splits)
  then show ?thesis by (auto simp: list_all_iff)
qed

text \<open>
  C20: tool output does not reach the audit or the summary of a step. Whatever value the backend
  returned, \<open>result_metadata\<close> is made only of booleans and integers between 0 and 10^9 under the
  four known names and of at most 16 rows of the same shape at each level: no string of the
  result survives.
\<close>

theorem result_metadata_typed: "metadata (result_metadata v)"
proof (induction v rule: result_metadata.induct)
  case (1 v)
  let ?kvs = "concat (map (metadata_entry v) METADATA_KEYS)"
  show ?case
  proof (cases "\<exists>xs. item v ''results'' = PList xs")
    case True
    then obtain xs where xs: "item v ''results'' = PList xs" by blast
    let ?ms = "map result_metadata (filter is_dict (take 16 xs))"
    have "\<forall>m \<in> set ?ms. metadata m" using 1 [OF xs] by auto
    moreover have "length ?ms \<le> 16" using length_filter_le [of is_dict "take 16 xs"] by simp
    ultimately have "metadata (PDict (?kvs @ [(''results'', PList ?ms)]))" by (intro rows metadata_entries)
    moreover have "result_metadata v = PDict (?kvs @ [(''results'', PList ?ms)])"
      by (simp only: result_metadata.simps [of v] xs pyval.case)
    ultimately show ?thesis by (simp only:)
  next
    case False
    then have "result_metadata v = PDict ?kvs"
      by (simp add: result_metadata.simps [of v] split: pyval.split)
    then show ?thesis using plain [OF metadata_entries] by simp
  qed
qed

section \<open>Sessions\<close>

text \<open>
  C3: a session stays within its limits. Starting from the limits \<open>SessionLimits\<close> accepted, for
  every planner, review callback, backend, clock and audit, when the run returns its summary and
  also when it raises, the output allowances of all launched actions add up to at most the bytes
  reserved, these to at most the output limit, and there were at most as many launches as
  attempted steps, at most as many of these as the step limit, and at most 16.
\<close>

theorem session_within_limits:
  assumes "make_limits steps runtime output = Inr (se_limits x)" and "session_start x s"
    and "session_run x ex interactive reviewer s = (r, t)"
  shows "sum_list (map (\<lambda>c. pb_output (bounds_of (ac_parameters c))) (launched (cs_trace (ss_ctl t)))) \<le> ss_reserved t
    \<and> ss_reserved t \<le> li_output (se_limits x) \<and> int (length (launched (cs_trace (ss_ctl t)))) \<le> ss_attempted t
    \<and> ss_attempted t \<le> li_steps (se_limits x) \<and> li_steps (se_limits x) \<le> 16"
proof -
  note l = make_limits_bounds [OF assms(1)]
  have zero: "budget x 0 s"
    using assms(2) l by (auto simp: session_start_def controller_start_def budget_def spent_output_def launches_def)
  have pos: "0 \<le> li_steps (se_limits x)" using l by simp
  have "budget x (li_steps (se_limits x)) t"
  proof (cases r)
    case (Inl f)
    show ?thesis by (rule tripleD(1) [OF session_triple [OF pos] zero assms(3) [unfolded Inl]])
  next
    case (Inr u)
    show ?thesis using tripleD(2) [OF session_triple [OF pos] zero assms(3) [unfolded Inr]] by blast
  qed
  then show ?thesis using l(2) by (simp add: budget_def spent_output_def launches_def output_of_def [abs_def])
qed

definition demo_session :: session_env where
  "demo_session = \<lparr>se_env = demo_env, se_limits = \<lparr>li_steps = 2, li_runtime = 60, li_output = 8192\<rparr>,
     se_plan = (\<lambda>n seen. Proposed (PStr ''{}'')), se_review = (\<lambda>n c. No_reference), se_elapsed = (\<lambda>n. 7), se_extra = []\<rparr>"

definition demo_session_start :: session_state where
  "demo_session_start = \<lparr>ss_ctl = demo_start, ss_status = ''stopped'', ss_reason = ''step_limit'', ss_attempted = 0,
     ss_succeeded = 0, ss_reserved = 0, ss_steps = []\<rparr>"

theorem session_within_limits_witness:
  "ss_attempted (snd (session_run demo_session True True True demo_session_start)) \<le> 2"
proof -
  have lim: "make_limits (PInt 2) (PInt 60) (PInt 8192) = Inr (se_limits demo_session)"
    by (simp add: make_limits_def require_def int_in_def demo_session_def)
  have start: "session_start demo_session demo_session_start"
    unfolding session_start_def by (simp add: demo_session_def demo_session_start_def demo_controller_start)
  obtain r t where run: "session_run demo_session True True True demo_session_start = (r, t)"
    by (cases "session_run demo_session True True True demo_session_start")
  have "li_steps (se_limits demo_session) = 2" by (simp add: demo_session_def)
  with session_within_limits [OF lim start run] have "ss_attempted t \<le> 2" by simp
  then show ?thesis by (simp only: run snd_conv)
qed

end
