(* ===== verification/AuthorityModel.thy ===== *)
theory AuthorityModel
  imports SessionSafety
begin

text \<open>
  The host authority of a confined coordinator (\<open>secure_agent/control_plane.py\<close>). The coordinator
  sends requests over a private channel; the authority checks the envelope, the phase and the
  sequence number, asks the provider for a plan, and runs the proposals of its own session. The
  state extends that of a session by the flags of the channel, the plan that is pending and the
  observation kept for the provider. A coordinator that ends its run is the finite list of the
  requests it made, each with whether it swallowed the failure of its exchange; requests are
  served one after the other.
\<close>

section \<open>State\<close>

record authority_state = session_state +
  as_closed :: bool
  as_failed :: bool
  as_cancelled :: bool
  as_pending :: "string option"
  as_seen :: "string option"

type_synonym 'a auth = "(authority_state, failure, 'a) eff"

record authority_env =
  ae_session :: session_env
  ae_provider :: bool
  ae_bind :: "nat \<Rightarrow> failure option"
  ae_execute :: bool
  ae_interactive :: bool
  ae_reviewer :: bool

definition MAX_REQUEST_BYTES :: int where "MAX_REQUEST_BYTES = 20480"

definition MAX_RESPONSE_BYTES :: nat where "MAX_RESPONSE_BYTES = 12288"

definition version :: "authority_env \<Rightarrow> string" where
  "version x = (if ae_provider x then ''2'' else ''1'')"

definition session_of :: "authority_env \<Rightarrow> string" where
  "session_of x = (case en_session (se_env (ae_session x)) of None \<Rightarrow> [] | Some i \<Rightarrow> i)"

definition tell :: "authority_env \<Rightarrow> string \<Rightarrow> (string \<times> pyval) list \<Rightarrow> unit auth" where
  "tell x kind fs = announce (ae_session x) kind fs"

text \<open>The checks of \<open>session_control\<close>: a poisoned session is cancelled.\<close>

definition authority_check :: "authority_env \<Rightarrow> unit auth" where
  "authority_check x =
    seqS (reads as_cancelled) (\<lambda>c. if c then raise (Stopped ''session_cancelled'') else lift (check (se_env (ae_session x))))"

definition reject :: "authority_env \<Rightarrow> string \<Rightarrow> 'a auth" where
  "reject x reason =
    seqS (modify (\<lambda>s. s\<lparr>as_closed := True, as_failed := True, as_cancelled := True,
      ss_status := ''stopped'', ss_reason := ''coordinator_protocol_error''\<rparr>)) (\<lambda>_.
    seqS (tell x ''coordinator_request_rejected'' [(''reason'', PStr reason)]) (\<lambda>_. raise Protocol_error))"

definition demand :: "authority_env \<Rightarrow> bool \<Rightarrow> string \<Rightarrow> unit auth" where
  "demand x b reason = (if b then ret () else reject x reason)"

text \<open>\<open>closed = True\<close> with the new status, when it changes, and stop reason.\<close>

definition shut :: "string option \<Rightarrow> string \<Rightarrow> unit auth" where
  "shut status reason = modify (\<lambda>s. s\<lparr>as_closed := True,
     ss_status := (case status of None \<Rightarrow> ss_status s | Some t \<Rightarrow> t), ss_reason := reason\<rparr>)"

definition authority_record :: "authority_env \<Rightarrow> int \<Rightarrow> outcome \<Rightarrow> unit auth" where
  "authority_record x step out = (case observation (step + 1) (Some out) of
     Inl code \<Rightarrow> raise (Value_error code)
   | Inr seen \<Rightarrow> seqS (modify (\<lambda>s. s\<lparr>as_seen := Some seen\<rparr>)) (\<lambda>_. record_step (ae_session x) step out))"

section \<open>Replies\<close>

definition plan_json :: "plan \<Rightarrow> pyval" where
  "plan_json p = PDict [(''schema_version'', PStr ''1''),
     (''action'', (case pl_action p of None \<Rightarrow> PNone | Some a \<Rightarrow> a)), (''done'', PBool (pl_done p))]"

definition reply_json :: "authority_env \<Rightarrow> int \<Rightarrow> bool \<Rightarrow> string \<times> pyval \<Rightarrow> pyval" where
  "reply_json x step stop last_entry = PDict [(''schema_version'', PStr (version x)), (''session_id'', PStr (session_of x)),
     (''sequence'', PInt step), (''stop'', PBool stop), last_entry]"

definition reply :: "authority_env \<Rightarrow> int \<Rightarrow> outcome option \<Rightarrow> pyval \<Rightarrow> string auth" where
  "reply x step out plan =
    seqS (reads as_closed) (\<lambda>stop.
    if ae_provider x then ret (canonical (reply_json x step stop (''plan'', plan)))
    else case observation (step + 1) out of
      Inl code \<Rightarrow> raise (Value_error code)
    | Inr seen \<Rightarrow> ret (canonical (reply_json x step stop
        (''observation'', item (observation_json (step + 1) out) ''untrusted_observation''))))"

definition proposal_rejected :: "authority_env \<Rightarrow> int \<Rightarrow> string auth" where
  "proposal_rejected x step =
    seqS (shut None ''invalid_proposal'') (\<lambda>_.
    seqS (tell x ''session_proposal_rejected'' [(''step'', PInt step), (''reason'', PStr ''invalid_session_proposal'')]) (\<lambda>_.
    reply x step None PNone))"

definition provider_failed :: "authority_env \<Rightarrow> int \<Rightarrow> string auth" where
  "provider_failed x step =
    seqS (shut None ''provider_failed'') (\<lambda>_.
    seqS (tell x ''session_provider_failed'' [(''step'', PInt step), (''reason'', PStr ''offline_provider_failed'')]) (\<lambda>_.
    reply x step None PNone))"

section \<open>Requests\<close>

definition proposes :: "authority_env \<Rightarrow> pyval \<Rightarrow> bool" where
  "proposes x v \<longleftrightarrow> ae_provider x \<and> item v ''operation'' = PStr ''propose''"

definition plans :: "authority_env \<Rightarrow> pyval \<Rightarrow> bool" where
  "plans x v \<longleftrightarrow> ae_provider x \<and> item v ''operation'' = PStr ''plan''"

definition request_fields :: "authority_env \<Rightarrow> pyval \<Rightarrow> string list" where
  "request_fields x v =
    (if \<not> ae_provider x then [''schema_version'', ''session_id'', ''sequence'', ''plan'']
     else [''schema_version'', ''session_id'', ''sequence'', ''operation''] @ (if proposes x v then [''plan''] else []))"

definition open_envelope :: "authority_env \<Rightarrow> pyval \<Rightarrow> pyval auth" where
  "open_envelope x raw =
    seqS (authority_check x) (\<lambda>_.
    seqS (reads as_closed) (\<lambda>closed.
    seqS (demand x (\<not> closed) ''session_closed'') (\<lambda>_.
    seqS (demand x (is_str raw \<and> utf8_length (the_str raw) \<le> MAX_REQUEST_BYTES) ''invalid_request_envelope'') (\<lambda>_.
    case load_json raw of
      Inl code \<Rightarrow> reject x ''invalid_request_envelope''
    | Inr v \<Rightarrow>
       seqS (demand x (ae_provider x \<longrightarrow> str_in [''plan'', ''propose''] (item v ''operation'')) ''invalid_request_operation'') (\<lambda>_.
       seqS (demand x (same_fields v (request_fields x v) \<and> item v ''schema_version'' = PStr (version x))
         ''invalid_request_envelope'') (\<lambda>_.
       seqS (demand x (item v ''session_id'' = PStr (session_of x)) ''wrong_session'') (\<lambda>_.
       ret v)))))))"

definition open_request :: "authority_env \<Rightarrow> pyval \<Rightarrow> (pyval \<times> int) auth" where
  "open_request x raw =
    seqS (open_envelope x raw) (\<lambda>v.
    seqS (reads ss_attempted) (\<lambda>attempted. let step = (if proposes x v then attempted else attempted + 1) in
    seqS (demand x (item v ''sequence'' = PInt step \<and> 1 \<le> step) ''sequence_mismatch'') (\<lambda>_.
    seqS (demand x (step \<le> li_steps (se_limits (ae_session x))) ''step_limit'') (\<lambda>_.
    ret (v, step)))))"

text \<open>Plan and proposal alternate, and a proposal is the pending plan.\<close>

definition take_plan :: "authority_env \<Rightarrow> pyval \<Rightarrow> unit auth" where
  "take_plan x v =
    (if \<not> ae_provider x then ret ()
     else seqS (reads as_pending) (\<lambda>pending.
       seqS (demand x (plans x v = (pending = None)) ''phase_mismatch'') (\<lambda>_.
       if proposes x v then
         seqS (demand x (Some (canonical (item v ''plan'')) = pending) ''provider_plan_mismatch'') (\<lambda>_.
         modify (\<lambda>s. s\<lparr>as_pending := None\<rparr>))
       else ret ())))"

section \<open>The provider's turn\<close>

definition receive_plan :: "authority_env \<Rightarrow> int \<Rightarrow> pyval \<Rightarrow> string auth" where
  "receive_plan x step raw =
    (case bindE (require (is_str raw \<and> utf8_length (the_str raw) \<le> 16384) ''invalid_provider_plan'') (\<lambda>_. read_plan raw) of
       Inl code \<Rightarrow> proposal_rejected x step
     | Inr p \<Rightarrow>
        seqS (reply x step None (plan_json p)) (\<lambda>answer.
        if MAX_RESPONSE_BYTES < length answer then proposal_rejected x step
        else seqS (modify (\<lambda>s. s\<lparr>as_pending := Some (canonical (plan_json p))\<rparr>)) (\<lambda>_.
          seqS (tell x ''session_plan_received'' [(''step'', PInt step)]) (\<lambda>_.
          seqS (authority_check x) (\<lambda>_.
          ret answer)))))"

definition escapes :: "failure \<Rightarrow> bool" where
  "escapes f = (case f of Stopped r \<Rightarrow> True | Audit_unavailable \<Rightarrow> True | Evidence_unavailable \<Rightarrow> True | _ \<Rightarrow> False)"

definition authority_plan :: "authority_env \<Rightarrow> int \<Rightarrow> string auth" where
  "authority_plan x step =
    seqS (authority_check x) (\<lambda>_.
    seqS (reads as_seen) (\<lambda>seen.
    seqS (reads (\<lambda>s. position (ss_ctl s))) (\<lambda>n.
    case (case seen of Some t \<Rightarrow> Inr t | None \<Rightarrow> observation 1 None) of
      Inl code \<Rightarrow> provider_failed x step
    | Inr shown \<Rightarrow> (case se_plan (ae_session x) n shown of
         Plan_failed f \<Rightarrow> if escapes f then raise f else provider_failed x step
       | Proposed raw \<Rightarrow> seqS (authority_check x) (\<lambda>_. receive_plan x step raw)))))"

section \<open>Proposals\<close>

definition authority_outcome :: "authority_env \<Rightarrow> int \<Rightarrow> bool \<Rightarrow> outcome \<Rightarrow> string auth" where
  "authority_outcome x step last_one out =
    seqS (authority_record x step out) (\<lambda>_.
    seqS (authority_check x) (\<lambda>_.
    seqS (if ae_execute x \<and> oc_status out \<noteq> ''succeeded'' then shut None (''action_'' @ oc_status out)
          else if last_one then shut (Some ''completed'') ''coordinator_done''
          else if step = li_steps (se_limits (ae_session x)) then shut None ''step_limit''
          else ret ()) (\<lambda>_.
    reply x step (Some out) PNone)))"

definition authority_act :: "authority_env \<Rightarrow> int \<Rightarrow> pyval \<Rightarrow> bool \<Rightarrow> string auth" where
  "authority_act x step proposal last_one = (let y = ae_session x in
    seqS (lift (submit_proposal (se_env y) (session_call step False False None) proposal)) (\<lambda>preview.
    if oc_decision preview = ''deny'' then
      seqS (shut None ''proposal_denied'') (\<lambda>_.
      seqS (authority_record x step preview) (\<lambda>_. reply x step (Some preview) PNone))
    else case parse_action proposal of
      Inl code \<Rightarrow> raise (Value_error code)
    | Inr c \<Rightarrow>
       seqS (reads ss_reserved) (\<lambda>reserved.
       if li_output (se_limits y) < reserved + pb_output (bounds_of (ac_parameters c)) then
         let out = preview\<lparr>oc_status := ''blocked'', oc_reasons := [''session_output_limit'']\<rparr> in
         seqS (shut None ''output_limit'') (\<lambda>_.
         seqS (authority_record x step out) (\<lambda>_. reply x step (Some out) PNone))
       else
         seqS (reserve y step c) (\<lambda>_.
         seqS (authority_check x) (\<lambda>_.
         seqS (perform y (ae_execute x) (ae_interactive x) (ae_reviewer x) step proposal c preview) (\<lambda>out.
         authority_outcome x step last_one out))))))"

definition authority_propose :: "authority_env \<Rightarrow> int \<Rightarrow> pyval \<Rightarrow> string auth" where
  "authority_propose x step w = (case read_plan (PStr (canonical w)) of
     Inl code \<Rightarrow> proposal_rejected x step
   | Inr p \<Rightarrow> (case pl_action p of
        None \<Rightarrow> seqS (shut (Some ''completed'') ''coordinator_done'') (\<lambda>_. reply x step None PNone)
      | Some proposal \<Rightarrow> authority_act x step proposal (pl_done p)))"

definition begin_step :: "authority_env \<Rightarrow> pyval \<Rightarrow> int \<Rightarrow> unit auth" where
  "begin_step x v step =
    (if proposes x v then ret ()
     else seqS (modify (\<lambda>s. s\<lparr>ss_attempted := step\<rparr>)) (\<lambda>_. tell x ''session_step_started'' [(''step'', PInt step)]))"

definition authority_handle :: "authority_env \<Rightarrow> pyval \<Rightarrow> string auth" where
  "authority_handle x raw =
    seqS (open_request x raw) (\<lambda>(v, step).
    seqS (take_plan x v) (\<lambda>_.
    seqS (begin_step x v step) (\<lambda>_.
    if plans x v then authority_plan x step else authority_propose x step (item v ''plan''))))"

section \<open>Exchanges\<close>

text \<open>Any failure closes the channel; a failed audit or approval service also closes the controller.\<close>

definition poison :: "failure \<Rightarrow> authority_state \<Rightarrow> authority_state" where
  "poison f s = (case f of
     Audit_unavailable \<Rightarrow> s\<lparr>ss_ctl := (ss_ctl s)\<lparr>cs_audit_failed := True\<rparr>, as_closed := True\<rparr>
   | Evidence_unavailable \<Rightarrow> s\<lparr>ss_ctl := (ss_ctl s)\<lparr>cs_audit_failed := True\<rparr>, as_closed := True\<rparr>
   | Approval_unavailable \<Rightarrow> s\<lparr>ss_ctl := (ss_ctl s)\<lparr>cs_approval_failed := True\<rparr>, as_closed := True, as_cancelled := True\<rparr>
   | _ \<Rightarrow> s\<lparr>as_closed := True\<rparr>)"

record request =
  rq_raw :: pyval
  rq_control :: bool
  rq_swallow :: bool

definition exchange :: "authority_env \<Rightarrow> request \<Rightarrow> string auth" where
  "exchange x q =
    catchS (if rq_control q then authority_handle x (rq_raw q) else reject x ''invalid_control'')
      (\<lambda>f. seqS (modify (poison f)) (\<lambda>_. raise f))"

fun serve :: "authority_env \<Rightarrow> request list \<Rightarrow> unit auth" where
  "serve x [] = ret ()"
| "serve x (q # qs) =
    seqS (catchS (seqS (exchange x q) (\<lambda>_. ret ())) (\<lambda>f. if rq_swallow q then ret () else raise f)) (\<lambda>_. serve x qs)"

section \<open>The run\<close>

datatype coordinator_end = Delivered pyval | Coordinator_failed failure

definition bind_provider :: "authority_env \<Rightarrow> unit auth" where
  "bind_provider x =
    seqS (reads (\<lambda>s. position (ss_ctl s))) (\<lambda>n. case ae_bind x n of
      None \<Rightarrow> ret ()
    | Some f \<Rightarrow>
       if f = Audit_unavailable \<or> f = Evidence_unavailable then raise f
       else seqS (modify (\<lambda>s. s\<lparr>ss_reason := ''provider_failed''\<rparr>)) (\<lambda>_.
         seqS (tell x ''session_provider_failed'' [(''reason'', PStr ''offline_provider_binding_failed'')]) (\<lambda>_.
         modify (\<lambda>s. s\<lparr>as_closed := True\<rparr>))))"

definition check_close :: "authority_env \<Rightarrow> pyval \<Rightarrow> unit auth" where
  "check_close x r =
    seqS (authority_check x) (\<lambda>_.
    seqS (reads (\<lambda>s. as_failed s \<or> \<not> as_closed s)) (\<lambda>bad.
    seqS (demand x (\<not> bad \<and> is_str r \<and> utf8_length (the_str r) \<le> 512) ''invalid_session_close'') (\<lambda>_.
    case load_json r of
      Inl code \<Rightarrow> reject x ''invalid_session_close''
    | Inr v \<Rightarrow> demand x (py_eq v (PDict [(''schema_version'', PStr (version x)), (''session_id'', PStr (session_of x)),
        (''status'', PStr ''closed'')])) ''invalid_session_close'')))"

definition authority_body :: "authority_env \<Rightarrow> request list \<Rightarrow> coordinator_end \<Rightarrow> unit auth" where
  "authority_body x qs ending =
    seqS (authority_check x) (\<lambda>_.
    seqS (if ae_provider x then seqS (bind_provider x) (\<lambda>_. authority_check x) else ret ()) (\<lambda>_.
    seqS (reads as_closed) (\<lambda>closed.
    if closed then ret ()
    else seqS (serve x qs) (\<lambda>_. case ending of
      Coordinator_failed f \<Rightarrow> raise f
    | Delivered r \<Rightarrow> check_close x r))))"

definition settle_run :: "failure \<Rightarrow> authority_state \<Rightarrow> authority_state" where
  "settle_run f s = (let protocol = ''coordinator_protocol_error'' in case f of
     Stopped reason \<Rightarrow> s\<lparr>ss_status := ''stopped'', ss_reason := (if as_failed s then protocol else reason)\<rparr>
   | Approval_unavailable \<Rightarrow> s\<lparr>ss_ctl := (ss_ctl s)\<lparr>cs_approval_failed := True\<rparr>, ss_status := ''stopped'', ss_reason := ''approval_unavailable''\<rparr>
   | Audit_unavailable \<Rightarrow> s\<lparr>ss_ctl := (ss_ctl s)\<lparr>cs_audit_failed := True\<rparr>\<rparr>
   | Evidence_unavailable \<Rightarrow> s\<lparr>ss_ctl := (ss_ctl s)\<lparr>cs_audit_failed := True\<rparr>\<rparr>
   | Protocol_error \<Rightarrow> s\<lparr>ss_status := ''stopped'', ss_reason := protocol\<rparr>
   | _ \<Rightarrow> s\<lparr>ss_status := ''stopped'', ss_reason := (if as_failed s then protocol else ''coordinator_failed'')\<rparr>)"

definition authority_run :: "authority_env \<Rightarrow> request list \<Rightarrow> coordinator_end \<Rightarrow> authority_state auth" where
  "authority_run x qs ending =
    seqS (tell x ''session_started'' [(''limits'', limits_json (se_limits (ae_session x))),
      (''mode'', PStr (if ae_execute x then ''execute'' else ''dry_run''))]) (\<lambda>_.
    seqS (catchS (authority_body x qs ending) (\<lambda>f.
      seqS (modify (settle_run f)) (\<lambda>_.
      if f = Audit_unavailable \<or> f = Evidence_unavailable
      then seqS (modify (\<lambda>s. s\<lparr>as_closed := True\<rparr>)) (\<lambda>_. raise f) else ret ()))) (\<lambda>_.
    seqS (modify (\<lambda>s. s\<lparr>as_closed := True\<rparr>)) (\<lambda>_.
    seqS (modify (\<lambda>s. if cs_approval_failed (ss_ctl s) then s\<lparr>ss_status := ''stopped'', ss_reason := ''approval_unavailable''\<rparr> else s)) (\<lambda>_.
    seqS (reads (\<lambda>s. summary_json (ae_execute x) (se_elapsed (ae_session x) (position (ss_ctl s))) s)) (\<lambda>summary.
    seqS (tell x ''session_finished'' summary) (\<lambda>_.
    reads id))))))"

definition authority_start :: "authority_env \<Rightarrow> authority_state \<Rightarrow> bool" where
  "authority_start x s \<longleftrightarrow> controller_start (se_env (ae_session x)) (ss_ctl s) \<and> en_session (se_env (ae_session x)) \<noteq> None
     \<and> se_extra (ae_session x) = [(''control_plane'', PStr (if ae_provider x then ''privsep-offline-v2'' else ''privsep-v1''))]
     \<and> ss_status s = ''stopped'' \<and> ss_reason s = ''coordinator_protocol_error''
     \<and> ss_attempted s = 0 \<and> ss_succeeded s = 0 \<and> ss_reserved s = 0 \<and> ss_steps s = []
     \<and> \<not> as_closed s \<and> \<not> as_failed s \<and> \<not> as_cancelled s \<and> as_pending s = None \<and> as_seen s = None"

end
