(* ===== verification/AuthoritySafety.thy ===== *)
theory AuthoritySafety
  imports AuthorityModel
begin

text \<open>
  What a hostile coordinator can obtain from the authority: never more than the limits of the
  session, never a launch of something its provider did not plan, and nothing at all once the
  channel has closed.
\<close>

section \<open>Operations that leave the accounts alone\<close>

text \<open>A predicate that neither the audit nor the channel's flags nor the summary texts influence.\<close>

definition calm :: "(authority_state \<Rightarrow> bool) \<Rightarrow> bool" where
  "calm P \<longleftrightarrow> by_launches P \<and> (\<forall>s b. P s \<longrightarrow> P (s\<lparr>as_closed := b\<rparr>) \<and> P (s\<lparr>as_failed := b\<rparr>) \<and> P (s\<lparr>as_cancelled := b\<rparr>))
     \<and> (\<forall>s t. P s \<longrightarrow> P (s\<lparr>as_seen := t\<rparr>)) \<and> (\<forall>s t. P s \<longrightarrow> P (s\<lparr>ss_status := t\<rparr>) \<and> P (s\<lparr>ss_reason := t\<rparr>))
     \<and> (\<forall>s ps. P s \<longrightarrow> P (s\<lparr>ss_steps := ps\<rparr>))"

lemma calm_launches: "calm P \<Longrightarrow> by_launches P"
  by (simp add: calm_def)

lemma calm_fields:
  assumes "calm P" and "P s"
  shows "P (s\<lparr>as_closed := b\<rparr>)" "P (s\<lparr>as_failed := b\<rparr>)" "P (s\<lparr>as_cancelled := b\<rparr>)" "P (s\<lparr>as_seen := t\<rparr>)"
    "P (s\<lparr>ss_status := u\<rparr>)" "P (s\<lparr>ss_reason := u\<rparr>)" "P (s\<lparr>ss_steps := ps\<rparr>)"
  using assms unfolding calm_def by blast+

lemma calm_conj: "calm P \<Longrightarrow> calm Q \<Longrightarrow> calm (\<lambda>s. P s \<and> Q s)"
  by (simp add: calm_def by_launches_def)

lemma calm_all: "(\<And>x. calm (P x)) \<Longrightarrow> calm (\<lambda>s. \<forall>x. P x s)"
  by (simp add: calm_def by_launches_def)

lemma calm_budget: "calm (budget y k)" "calm (inside y k r)"
  using by_launches_budget by (auto simp: calm_def budget_def inside_def spent_output_def launches_def)

lemma budget_pending [simp]: "budget y k (s\<lparr>as_pending := p\<rparr>) = budget y k s" "inside y k r (s\<lparr>as_pending := p\<rparr>) = inside y k r s"
  by (simp_all add: budget_def inside_def spent_output_def launches_def)

lemma calm_basic: "calm (\<lambda>s. Q (as_pending s))" "calm (\<lambda>s. R (ss_attempted s))" "calm (\<lambda>s. L (launched (cs_trace (ss_ctl s))))"
  by (auto simp: calm_def by_launches_def)

lemma calm_tell: "calm P \<Longrightarrow> triple P (tell x kind fs) (\<lambda>_. P) (\<lambda>_. P)"
  unfolding tell_def by (rule session_keeps(1) [OF calm_launches])

lemma calm_check: "calm P \<Longrightarrow> triple P (authority_check x) (\<lambda>_. P) (\<lambda>_. P)"
  unfolding authority_check_def
  by (rule triple_seq [OF triple_reads_keep], intro triple_if triple_raise session_keeps(2) [OF calm_launches]) simp_all

lemma calm_reject: "calm P \<Longrightarrow> triple P (reject x reason) Q (\<lambda>_. P)"
  unfolding reject_def
  by (rule triple_seq [OF triple_modify [where Q = "\<lambda>_. P"]], simp add: calm_fields, rule triple_seq [OF calm_tell triple_raise]) simp_all

lemma calm_demand: "calm P \<Longrightarrow> triple P (demand x b reason) (\<lambda>_ s. P s \<and> b) (\<lambda>_. P)"
  unfolding demand_def by (intro triple_if calm_reject triple_ret) simp_all

lemma calm_demand_keep: "calm P \<Longrightarrow> triple P (demand x b reason) (\<lambda>_. P) (\<lambda>_. P)"
  unfolding demand_def by (intro triple_if calm_reject triple_ret) simp_all

lemma calm_shut: "calm P \<Longrightarrow> triple P (shut status reason) (\<lambda>_. P) E"
  unfolding shut_def by (rule triple_modify) (simp add: calm_fields)

lemma calm_record: "calm P \<Longrightarrow> triple P (authority_record x step out) (\<lambda>_. P) (\<lambda>_. P)"
  unfolding authority_record_def record_step_def
  by (intro triple_sum triple_raise, assumption, rule triple_seq [OF triple_modify [where Q = "\<lambda>_. P"]], simp add: calm_fields,
    rule triple_seq [OF triple_modify [where Q = "\<lambda>_. P"]], simp add: calm_fields,
    rule triple_seq [OF triple_reads_keep session_keeps(1) [OF calm_launches]])

lemma calm_reply: "triple P (reply x step out plan) (\<lambda>_. P) (\<lambda>_. P)"
  unfolding reply_def
  by (rule triple_seq [OF triple_reads_keep], intro triple_if triple_sum triple_ret triple_raise)

lemma calm_refusals:
  assumes "calm P"
  shows "triple P (proposal_rejected x step) (\<lambda>_. P) (\<lambda>_. P)" "triple P (provider_failed x step) (\<lambda>_. P) (\<lambda>_. P)"
  unfolding proposal_rejected_def provider_failed_def
  by (rule triple_seq [OF calm_shut [OF assms]], rule triple_seq [OF calm_tell [OF assms] calm_reply])+

lemma calm_finish:
  assumes "calm P"
  shows "triple P (seqS (shut status reason) (\<lambda>_. seqS (authority_record x step out) (\<lambda>_. reply x step o' plan))) (\<lambda>_. P) (\<lambda>_. P)"
    "triple P (seqS (shut status reason) (\<lambda>_. reply x step o' plan)) (\<lambda>_. P) (\<lambda>_. P)"
  by (rule triple_seq [OF calm_shut [OF assms]], (rule triple_seq [OF calm_record [OF assms]])?, rule calm_reply)+

lemma calm_outcome: "calm P \<Longrightarrow> triple P (authority_outcome x step last_one out) (\<lambda>_. P) (\<lambda>_. P)"
  unfolding authority_outcome_def
  by (rule triple_seq [OF calm_record], assumption, rule triple_seq [OF calm_check], assumption,
    rule triple_seq [where R = "\<lambda>_. P"], intro triple_if calm_shut triple_ret, assumption+, rule calm_reply)

lemma calm_envelope: "calm P \<Longrightarrow> triple P (open_envelope x raw) (\<lambda>_. P) (\<lambda>_. P)"
  unfolding open_envelope_def
  by (intro triple_seq [OF calm_check] triple_seq [OF triple_reads_keep] triple_seq [OF calm_demand_keep] triple_sum calm_reject triple_ret)

text \<open>The step of an accepted request: the next one, or for a proposal the current one.\<close>

definition next_step :: "authority_env \<Rightarrow> pyval \<times> int \<Rightarrow> authority_state \<Rightarrow> bool" where
  "next_step x r s \<longleftrightarrow> snd r = (if proposes x (fst r) then ss_attempted s else ss_attempted s + 1)
     \<and> snd r \<le> li_steps (se_limits (ae_session x))"

lemma request_triple:
  assumes "calm P"
  shows "triple P (open_request x raw) (\<lambda>r s. P s \<and> next_step x r s) (\<lambda>_. P)"
  unfolding open_request_def Let_def
proof (rule triple_seq [OF calm_envelope [OF assms]], rule triple_seq [OF triple_reads])
  fix v :: pyval and a :: int
  let ?step = "if proposes x v then a else a + 1"
  let ?P = "\<lambda>s. P s \<and> a = ss_attempted s"
  have c: "calm ?P" by (rule calm_conj [OF assms calm_basic(2)])
  have d: "triple ?P (demand x b reason) (\<lambda>_. ?P) (\<lambda>_. P)" for b reason
    by (rule triple_conseq [OF calm_demand [OF c]]) simp_all
  have l: "triple ?P (demand x b reason) (\<lambda>_ s. ?P s \<and> b) (\<lambda>_. P)" for b reason
    by (rule triple_conseq [OF calm_demand [OF c]]) simp_all
  show "triple ?P (seqS (demand x (item v ''sequence'' = PInt ?step \<and> 1 \<le> ?step) ''sequence_mismatch'') (\<lambda>_.
    seqS (demand x (?step \<le> li_steps (se_limits (ae_session x))) ''step_limit'') (\<lambda>_. ret (v, ?step))))
    (\<lambda>r s. P s \<and> next_step x r s) (\<lambda>_. P)"
    by (rule triple_seq [OF d], rule triple_seq [OF l], rule triple_ret) (auto simp: next_step_def)
qed

section \<open>Frames\<close>

lemma lift_frame: "(\<And>s c. P s \<Longrightarrow> P (s\<lparr>ss_ctl := c\<rparr>)) \<Longrightarrow> triple P (lift m) (\<lambda>_. P) (\<lambda>_. P)"
  by (rule tripleI) (auto simp: lift_def split: prod.splits)

lemma triple_conj:
  "triple P m Q E \<Longrightarrow> triple P' m Q' E' \<Longrightarrow> triple (\<lambda>s. P s \<and> P' s) m (\<lambda>x s. Q x s \<and> Q' x s) (\<lambda>e s. E e s \<and> E' e s)"
  by (auto simp: triple_def split: prod.splits sum.splits)

text \<open>The session's own operations do not touch the pending plan.\<close>

abbreviation waits :: "(string option \<Rightarrow> bool) \<Rightarrow> authority_state \<Rightarrow> bool" where
  "waits p s \<equiv> p (as_pending s)"

lemma waits_keeps:
  "triple (waits p) (lift m) (\<lambda>_. waits p) (\<lambda>_. waits p)" "triple (waits p) (announce y kind fs) (\<lambda>_. waits p) (\<lambda>_. waits p)"
  by (simp_all add: lift_frame announce_def)

lemma waits_ask: "triple (waits p) (ask_review y c) (\<lambda>_. waits p) (\<lambda>_. waits p)"
  unfolding ask_review_def
  by (rule triple_seq [OF triple_reads_keep])
    (auto split: review_answer.split intro!: triple_seq [OF waits_keeps(1)] triple_ret triple_raise)

lemma waits_reserve: "triple (waits p) (reserve y step c) (\<lambda>_. waits p) (\<lambda>_. waits p)"
  unfolding reserve_def Let_def
  by (rule triple_seq [OF triple_modify [where Q = "\<lambda>_. waits p"]], simp, rule triple_seq [OF triple_reads_keep waits_keeps(2)])

lemma waits_perform: "triple (waits p) (perform y ex i rv step proposal c preview) (\<lambda>_. waits p) (\<lambda>_. waits p)"
proof -
  have ask: "triple (waits p) (if b then ask_review y c else ret None) (\<lambda>_. waits p) (\<lambda>_. waits p)" for b
    by (intro triple_if waits_ask triple_ret)
  have count: "triple (waits p) (seqS (if oc_status out = ''succeeded''
      then modify (\<lambda>s. s\<lparr>ss_succeeded := ss_succeeded s + 1\<rparr>) else ret ()) (\<lambda>_. ret out)) (\<lambda>_. waits p) (\<lambda>_. waits p)" for out
    by (rule triple_seq [where R = "\<lambda>_. waits p"], intro triple_if triple_modify triple_ret) (simp_all add: triple_ret)
  show ?thesis unfolding perform_def
    by (intro triple_if triple_ret triple_seq [OF ask] triple_seq [OF waits_keeps(1)] count)
qed

section \<open>The limits of the session\<close>

text \<open>While a plan is pending a step has been counted for it; without a provider nothing is pending.\<close>

definition idle :: "authority_env \<Rightarrow> string option \<Rightarrow> bool" where
  "idle x p \<longleftrightarrow> (ae_provider x \<longrightarrow> p = None)"

lemma idle_None [simp]: "idle x None"
  by (simp add: idle_def)

abbreviation steps_of :: "authority_env \<Rightarrow> int" where
  "steps_of x \<equiv> li_steps (se_limits (ae_session x))"

definition fair :: "authority_env \<Rightarrow> authority_state \<Rightarrow> bool" where
  "fair x s \<longleftrightarrow> budget (ae_session x) (steps_of x) s \<and> (\<not> waits (idle x) s \<longrightarrow> inside (ae_session x) (steps_of x) 0 s)"

definition ready :: "authority_env \<Rightarrow> authority_state \<Rightarrow> bool" where
  "ready x s \<longleftrightarrow> inside (ae_session x) (steps_of x) 0 s \<and> waits (idle x) s"

lemma ready_fair: "ready x s \<Longrightarrow> fair x s"
  by (simp add: ready_def fair_def inside_budget [of 0])

lemma calm_ready: "calm (ready x)"
  unfolding ready_def by (intro calm_conj calm_budget calm_basic(1) [of "idle x"])

lemma calm_fair: "calm (fair x)"
proof -
  have "calm (\<lambda>s. \<not> waits (idle x) s \<longrightarrow> inside y k r s)" for y k r
    using calm_budget(2) [of y k r] by (auto simp: calm_def by_launches_def)
  then show ?thesis unfolding fair_def by (intro calm_conj calm_budget)
qed

lemma spent_fair: "budget (ae_session x) (steps_of x) s \<Longrightarrow> waits (idle x) s \<Longrightarrow> fair x s"
  by (simp add: fair_def)

lemma perform_fair:
  assumes "parse_action proposal = Inr c"
  shows "triple (\<lambda>s. inside (ae_session x) (steps_of x) (output_of c) s \<and> waits (idle x) s)
    (perform (ae_session x) ex i rv step proposal c preview) (\<lambda>_. fair x) (\<lambda>_. fair x)"
  by (rule triple_conseq [OF triple_conj [OF perform_budget [OF assms] waits_perform]]) (auto intro: spent_fair)

lemma reserve_fair:
  assumes "0 \<le> output_of c"
  shows "triple (\<lambda>s. ready x s \<and> ss_reserved s + output_of c \<le> li_output (se_limits (ae_session x))) (reserve (ae_session x) step c)
    (\<lambda>_ s. inside (ae_session x) (steps_of x) (output_of c) s \<and> waits (idle x) s) (\<lambda>_. fair x)"
  by (rule triple_conseq [OF triple_conj [OF reserve_budget [OF assms] waits_reserve]]) (auto simp: ready_def intro: spent_fair)

lemma calm_inside: "calm (\<lambda>s. inside y k r s \<and> waits (idle x) s)"
  by (intro calm_conj calm_budget calm_basic(1) [of "idle x"])

lemma act_fair: "triple (ready x) (authority_act x step proposal last_one) (\<lambda>_. fair x) (\<lambda>_. fair x)"
proof -
  let ?y = "ae_session x"
  have quiet: "triple (ready x) (lift (submit_proposal (se_env ?y) (session_call step False False None) proposal)) (\<lambda>_. ready x) (\<lambda>_. fair x)"
    by (rule triple_raises [OF submit_quiet [OF _ calm_launches [OF calm_ready]]]) (simp_all add: session_call_def ready_fair)
  have stop: "triple (ready x) (seqS (shut status reason) (\<lambda>_. seqS (authority_record x step out) (\<lambda>_. reply x step o' plan))) (\<lambda>_. fair x) (\<lambda>_. fair x)"
    for status reason out o' plan by (rule triple_pre [OF calm_finish(1) [OF calm_fair] ready_fair])
  have go: "triple (\<lambda>s. ready x s \<and> ss_reserved s + output_of c \<le> li_output (se_limits ?y))
      (seqS (reserve ?y step c) (\<lambda>_. seqS (authority_check x) (\<lambda>_.
        seqS (perform ?y (ae_execute x) (ae_interactive x) (ae_reviewer x) step proposal c preview) (\<lambda>out.
        authority_outcome x step last_one out)))) (\<lambda>_. fair x) (\<lambda>_. fair x)" if p: "parse_action proposal = Inr c" for c preview
  proof -
    have o: "0 \<le> output_of c" using parse_action_ok [OF p] by (rule output_bounds)
    have chk: "triple (\<lambda>s. inside ?y (steps_of x) (output_of c) s \<and> waits (idle x) s) (authority_check x)
        (\<lambda>_ s. inside ?y (steps_of x) (output_of c) s \<and> waits (idle x) s) (\<lambda>_. fair x)"
      by (rule triple_raises [OF calm_check [OF calm_inside]]) (auto intro: spent_fair inside_budget [OF o])
    show ?thesis
      by (rule triple_seq [OF reserve_fair [OF o]], rule triple_seq [OF chk], rule triple_seq [OF perform_fair [OF p]], rule calm_outcome [OF calm_fair])
  qed
  show ?thesis unfolding authority_act_def Let_def
  proof (rule triple_seq [OF quiet], intro triple_if stop triple_sum triple_raise ready_fair, assumption)
    fix preview c assume p: "parse_action proposal = Inr c"
    show "triple (ready x) (seqS (reads ss_reserved) (\<lambda>reserved.
       if li_output (se_limits ?y) < reserved + pb_output (bounds_of (ac_parameters c)) then
         seqS (shut None ''output_limit'') (\<lambda>_.
         seqS (authority_record x step (preview\<lparr>oc_status := ''blocked'', oc_reasons := [''session_output_limit'']\<rparr>)) (\<lambda>_.
         reply x step (Some (preview\<lparr>oc_status := ''blocked'', oc_reasons := [''session_output_limit'']\<rparr>)) PNone))
       else
         seqS (reserve ?y step c) (\<lambda>_. seqS (authority_check x) (\<lambda>_.
         seqS (perform ?y (ae_execute x) (ae_interactive x) (ae_reviewer x) step proposal c preview) (\<lambda>out.
         authority_outcome x step last_one out))))) (\<lambda>_. fair x) (\<lambda>_. fair x)"
      by (rule triple_seq [OF triple_reads], rule triple_if, rule triple_pre [OF stop], simp, rule triple_pre [OF go [OF p]])
        (simp add: output_of_def)
  qed
qed

lemma propose_fair: "triple (ready x) (authority_propose x step w) (\<lambda>_. fair x) (\<lambda>_. fair x)"
proof -
  have "triple (ready x) (proposal_rejected x step) (\<lambda>_. fair x) (\<lambda>_. fair x)"
    by (rule triple_pre [OF calm_refusals(1) [OF calm_fair] ready_fair])
  moreover have "triple (ready x) (seqS (shut status reason) (\<lambda>_. reply x step o' plan)) (\<lambda>_. fair x) (\<lambda>_. fair x)" for status reason o' plan
    by (rule triple_pre [OF calm_finish(2) [OF calm_fair] ready_fair])
  ultimately show ?thesis unfolding authority_propose_def
    by (intro triple_sum triple_option act_fair)
qed

lemma receive_fair: "triple (ready x) (receive_plan x step raw) (\<lambda>_. fair x) (\<lambda>_. fair x)"
proof -
  have rejected: "triple (ready x) (proposal_rejected x step) (\<lambda>_. fair x) (\<lambda>_. fair x)"
    by (rule triple_pre [OF calm_refusals(1) [OF calm_fair] ready_fair])
  have answer: "triple (ready x) (reply x step None plan) (\<lambda>_. ready x) (\<lambda>_. fair x)" for plan
    by (rule triple_raises [OF calm_reply]) (rule ready_fair)
  have pending: "ready x s \<Longrightarrow> fair x (s\<lparr>as_pending := p\<rparr>)" for s p
    by (simp add: ready_def fair_def inside_budget [of 0])
  show ?thesis unfolding receive_plan_def
    by (rule triple_sum, rule rejected, rule triple_seq [OF answer], rule triple_if, rule rejected,
      rule triple_seq [OF triple_modify [where Q = "\<lambda>_. fair x"]], erule pending,
      rule triple_seq [OF calm_tell [OF calm_fair]], rule triple_seq [OF calm_check [OF calm_fair]], rule triple_ret)
qed

lemma plan_fair: "triple (ready x) (authority_plan x step) (\<lambda>_. fair x) (\<lambda>_. fair x)"
proof -
  have chk: "triple (ready x) (authority_check x) (\<lambda>_. ready x) (\<lambda>_. fair x)"
    by (rule triple_raises [OF calm_check [OF calm_ready]]) (rule ready_fair)
  have failed: "triple (ready x) (provider_failed x step) (\<lambda>_. fair x) (\<lambda>_. fair x)"
    by (rule triple_pre [OF calm_refusals(2) [OF calm_fair] ready_fair])
  show ?thesis unfolding authority_plan_def
    by (rule triple_seq [OF chk], rule triple_seq [OF triple_reads_keep], rule triple_seq [OF triple_reads_keep],
      rule triple_sum [OF failed]) (auto split: plan_answer.split intro!: failed triple_raise triple_seq [OF chk] receive_fair ready_fair)
qed

text \<open>Between the phase check and the step count.\<close>

definition due :: "authority_env \<Rightarrow> pyval \<times> int \<Rightarrow> authority_state \<Rightarrow> bool" where
  "due x r s \<longleftrightarrow> (if proposes x (fst r) then ready x s else fair x s \<and> waits (idle x) s \<and> next_step x r s)"

lemma due_fair: "due x r s \<Longrightarrow> fair x s"
  by (auto simp: due_def ready_fair split: if_splits)

lemma calm_next: "calm (next_step x r)"
proof -
  have "calm (\<lambda>s. snd r = (if proposes x (fst r) then ss_attempted s else ss_attempted s + 1) \<and> snd r \<le> steps_of x)"
    by (rule calm_basic(2))
  then show ?thesis by (simp add: next_step_def [abs_def])
qed

lemma not_both: "proposes x v \<Longrightarrow> \<not> plans x v"
  by (simp add: proposes_def plans_def)

lemma take_fair:
  assumes op: "ae_provider x \<Longrightarrow> plans x v \<or> proposes x v"
  shows "triple (\<lambda>s. fair x s \<and> next_step x (v, step) s) (take_plan x v) (\<lambda>_. due x (v, step)) (\<lambda>_. fair x)"
proof (cases "ae_provider x")
  case False
  then show ?thesis by (auto simp: take_plan_def due_def idle_def proposes_def intro!: triple_ret)
next
  case True
  let ?P = "\<lambda>p s. (fair x s \<and> next_step x (v, step) s) \<and> as_pending s = p"
  have c: "calm (?P p)" for p by (intro calm_conj calm_fair calm_next calm_basic(1))
  have phase: "triple (?P p) (demand x b reason) (\<lambda>_ s. ?P p s \<and> b) (\<lambda>_. fair x)" for p b reason
    by (rule triple_raises [OF calm_demand [OF c]]) simp
  have rest: "triple (\<lambda>s. ?P p s \<and> plans x v = (p = None)) (if proposes x v then
         seqS (demand x (Some (canonical (item v ''plan'')) = p) ''provider_plan_mismatch'') (\<lambda>_. modify (\<lambda>s. s\<lparr>as_pending := None\<rparr>))
       else ret ()) (\<lambda>_. due x (v, step)) (\<lambda>_. fair x)" for p
  proof (rule triple_if)
    assume pr: "proposes x v"
    have pos: "due x (v, step) (s\<lparr>as_pending := None\<rparr>)" if "fair x s" "as_pending s = p" "Some u = p" for s u
      using that pr True by (auto simp: due_def ready_def fair_def idle_def)
    show "triple (\<lambda>s. ?P p s \<and> plans x v = (p = None))
      (seqS (demand x (Some (canonical (item v ''plan'')) = p) ''provider_plan_mismatch'') (\<lambda>_. modify (\<lambda>s. s\<lparr>as_pending := None\<rparr>)))
      (\<lambda>_. due x (v, step)) (\<lambda>_. fair x)"
      by (rule triple_seq [OF triple_pre [OF phase]], simp, rule triple_modify) (auto intro: pos)
  next
    assume "\<not> proposes x v"
    then show "triple (\<lambda>s. ?P p s \<and> plans x v = (p = None)) (ret ()) (\<lambda>_. due x (v, step)) (\<lambda>_. fair x)"
      using op [OF True] by (intro triple_ret) (auto simp: due_def idle_def)
  qed
  have "triple (\<lambda>s. fair x s \<and> next_step x (v, step) s) (seqS (reads as_pending) (\<lambda>pending.
       seqS (demand x (plans x v = (pending = None)) ''phase_mismatch'') (\<lambda>_.
       if proposes x v then
         seqS (demand x (Some (canonical (item v ''plan'')) = pending) ''provider_plan_mismatch'') (\<lambda>_.
         modify (\<lambda>s. s\<lparr>as_pending := None\<rparr>))
       else ret ()))) (\<lambda>_. due x (v, step)) (\<lambda>_. fair x)"
    by (rule triple_seq [OF triple_reads], rule triple_seq [OF triple_pre [OF phase] rest]) simp
  then show ?thesis using True by (simp add: take_plan_def)
qed

lemma begin_fair: "triple (due x (v, step)) (begin_step x v step) (\<lambda>_. ready x) (\<lambda>_. fair x)"
proof (cases "proposes x v")
  case True
  then show ?thesis by (auto simp: begin_step_def due_def intro!: triple_ret)
next
  case False
  have counted: "ready x (s\<lparr>ss_attempted := step\<rparr>)" if "due x (v, step) s" for s
    using that False by (auto simp: due_def ready_def next_step_def fair_def budget_def inside_def spent_output_def launches_def)
  show ?thesis using False
    by (auto simp: begin_step_def intro!: triple_seq [OF triple_modify [where Q = "\<lambda>_. ready x"]] counted
      triple_raises [OF calm_tell [OF calm_ready]] ready_fair)
qed

lemma envelope_operation:
  "triple P (open_envelope x raw) (\<lambda>v s. ae_provider x \<longrightarrow> plans x v \<or> proposes x v) (\<lambda>_ s. True)"
  unfolding open_envelope_def demand_def reject_def
  by (rule tripleI) (auto simp: seqS_def ret_def raise_def reads_def modify_def str_in_def plans_def proposes_def
    split: if_splits prod.splits sum.splits pyval.splits)

lemma request_operation:
  "triple P (open_request x raw) (\<lambda>r s. ae_provider x \<longrightarrow> plans x (fst r) \<or> proposes x (fst r)) (\<lambda>_ s. True)"
proof -
  have "triple (\<lambda>s. ae_provider x \<longrightarrow> plans x v \<or> proposes x v) (seqS (reads ss_attempted) (\<lambda>attempted.
      let step = (if proposes x v then attempted else attempted + 1) in
      seqS (demand x (item v ''sequence'' = PInt step \<and> 1 \<le> step) ''sequence_mismatch'') (\<lambda>_.
      seqS (demand x (step \<le> steps_of x) ''step_limit'') (\<lambda>_. ret (v, step)))))
      (\<lambda>r s. ae_provider x \<longrightarrow> plans x (fst r) \<or> proposes x (fst r)) (\<lambda>_ s. True)" for v
    by (rule tripleI) (auto simp: seqS_def ret_def reads_def Let_def split: prod.splits sum.splits)
  then show ?thesis unfolding open_request_def by (rule triple_seq [OF envelope_operation])
qed

lemma handle_fair: "triple (fair x) (authority_handle x raw) (\<lambda>_. fair x) (\<lambda>_. fair x)"
proof -
  have opened: "triple (fair x) (open_request x raw) (\<lambda>r s. (fair x s \<and> next_step x r s)
      \<and> (ae_provider x \<longrightarrow> plans x (fst r) \<or> proposes x (fst r))) (\<lambda>_. fair x)"
    by (rule triple_conseq [OF triple_conj [OF request_triple [OF calm_fair] request_operation]]) auto
  have rest: "triple (\<lambda>s. (fair x s \<and> next_step x r s) \<and> (ae_provider x \<longrightarrow> plans x (fst r) \<or> proposes x (fst r)))
    (case r of (v, step) \<Rightarrow> seqS (take_plan x v) (\<lambda>_. seqS (begin_step x v step) (\<lambda>_.
      if plans x v then authority_plan x step else authority_propose x step (item v ''plan'')))) (\<lambda>_. fair x) (\<lambda>_. fair x)" for r
  proof (cases "(ae_provider x \<longrightarrow> plans x (fst r) \<or> proposes x (fst r))")
    case True
    obtain v step where r: "r = (v, step)" by (cases r)
    have "triple (\<lambda>s. fair x s \<and> next_step x (v, step) s) (seqS (take_plan x v) (\<lambda>_. seqS (begin_step x v step) (\<lambda>_.
      if plans x v then authority_plan x step else authority_propose x step (item v ''plan'')))) (\<lambda>_. fair x) (\<lambda>_. fair x)"
      by (rule triple_seq [OF take_fair], use True r in simp, rule triple_seq [OF begin_fair], rule triple_if, rule plan_fair, rule propose_fair)
    then show ?thesis unfolding r prod.case by (rule triple_pre) simp
  qed (simp add: triple_False)
  show ?thesis unfolding authority_handle_def by (rule triple_seq [OF opened rest])
qed

lemma poison_calm: "calm P \<Longrightarrow> P s \<Longrightarrow> P (poison f s)"
proof -
  assume c: "calm P" and p: "P s"
  have "P (s\<lparr>ss_ctl := c'\<rparr>)" if "launched (cs_trace c') = launched (cs_trace (ss_ctl s))" for c'
    using calm_launches [OF c] p that by (auto simp: by_launches_def)
  then show ?thesis using p by (auto simp: poison_def calm_fields [OF c] split: failure.split)
qed

lemma settle_calm: "calm P \<Longrightarrow> P s \<Longrightarrow> P (settle_run f s)"
proof -
  assume c: "calm P" and p: "P s"
  have "P (s\<lparr>ss_ctl := c'\<rparr>)" if "launched (cs_trace c') = launched (cs_trace (ss_ctl s))" for c'
    using calm_launches [OF c] p that by (auto simp: by_launches_def)
  then show ?thesis using p by (auto simp: settle_run_def Let_def calm_fields [OF c] split: failure.split)
qed

text \<open>What every handled request keeps, a run keeps.\<close>

locale channel_invariant =
  fixes x :: authority_env and P :: "authority_state \<Rightarrow> bool"
  assumes calm_inv: "calm P"
    and handle_inv: "triple P (authority_handle x raw) (\<lambda>_. P) (\<lambda>_. P)"
begin

lemma exchange_inv: "triple P (exchange x q) (\<lambda>_. P) (\<lambda>_. P)"
  unfolding exchange_def
  by (rule triple_catch [where F = "\<lambda>_. P"], intro triple_if handle_inv calm_reject calm_inv,
    rule triple_seq [OF triple_modify [where Q = "\<lambda>_. P"]], rule poison_calm [OF calm_inv], assumption, rule triple_raise)

lemma serve_inv: "triple P (serve x qs) (\<lambda>_. P) (\<lambda>_. P)"
proof (induction qs)
  case (Cons q qs)
  have "triple P (catchS (seqS (exchange x q) (\<lambda>_. ret ())) (\<lambda>f. if rq_swallow q then ret () else raise f)) (\<lambda>_. P) (\<lambda>_. P)"
    by (rule triple_catch [OF triple_seq [OF exchange_inv triple_ret]], assumption, intro triple_if triple_ret triple_raise)
  then show ?case using Cons by (simp add: triple_seq)
qed (simp add: triple_ret)

lemma body_inv: "triple P (authority_body x qs ending) (\<lambda>_. P) (\<lambda>_. P)"
proof -
  have bound: "triple P (bind_provider x) (\<lambda>_. P) (\<lambda>_. P)"
    unfolding bind_provider_def
    by (rule triple_seq [OF triple_reads_keep], intro triple_option triple_if triple_ret triple_raise, assumption, assumption,
      rule triple_seq [OF triple_modify [where Q = "\<lambda>_. P"]], rule calm_fields [OF calm_inv], assumption,
      rule triple_seq [OF calm_tell [OF calm_inv] triple_modify], rule calm_fields [OF calm_inv])
  have close: "triple P (check_close x r) (\<lambda>_. P) (\<lambda>_. P)" for r
    unfolding check_close_def
    by (intro triple_seq [OF calm_check] triple_seq [OF triple_reads_keep] triple_seq [OF calm_demand_keep] triple_sum calm_reject
      calm_demand_keep calm_inv)
  show ?thesis unfolding authority_body_def
    by (rule triple_seq [OF calm_check [OF calm_inv]], rule triple_seq [where R = "\<lambda>_. P"],
      intro triple_if triple_seq [OF bound calm_check [OF calm_inv]] triple_ret, assumption,
      rule triple_seq [OF triple_reads_keep], rule triple_if, rule triple_ret, assumption, rule triple_seq [OF serve_inv])
     (auto split: coordinator_end.split intro: close triple_raise)
qed

lemma run_inv: "triple P (authority_run x qs ending) (\<lambda>_. P) (\<lambda>_. P)"
proof -
  have closed: "triple P (modify (\<lambda>s. s\<lparr>as_closed := True\<rparr>)) (\<lambda>_. P) (\<lambda>_. P)"
    by (rule triple_modify) (rule calm_fields [OF calm_inv])
  have settled: "triple P (seqS (modify (settle_run f)) (\<lambda>_. if f = Audit_unavailable \<or> f = Evidence_unavailable
      then seqS (modify (\<lambda>s. s\<lparr>as_closed := True\<rparr>)) (\<lambda>_. raise f) else ret ())) (\<lambda>_. P) (\<lambda>_. P)" for f
    by (rule triple_seq [OF triple_modify [where Q = "\<lambda>_. P"]], rule settle_calm [OF calm_inv], assumption,
      intro triple_if triple_ret triple_seq [OF closed] triple_raise)
  have approval: "triple P (modify (\<lambda>s. if cs_approval_failed (ss_ctl s) then s\<lparr>ss_status := ''stopped'', ss_reason := ''approval_unavailable''\<rparr> else s))
      (\<lambda>_. P) (\<lambda>_. P)" by (rule triple_modify) (simp add: calm_fields [OF calm_inv])
  show ?thesis unfolding authority_run_def
    by (rule triple_seq [OF calm_tell [OF calm_inv]], rule triple_seq [OF triple_catch [OF body_inv settled]], rule triple_seq [OF closed],
      rule triple_seq [OF approval], rule triple_seq [OF triple_reads_keep], rule triple_seq [OF calm_tell [OF calm_inv]], rule triple_reads_keep)
qed

lemma run_end: "authority_run x qs ending s = (r, t) \<Longrightarrow> P s \<Longrightarrow> P t"
  by (cases r) (auto dest: tripleD [OF run_inv])

end

interpretation fair_channel: channel_invariant x "fair x" for x
  by unfold_locales (rule calm_fair, rule handle_fair)

section \<open>Only the provider's plans\<close>

text \<open>The text of a plan the provider answered, and the action such a text stands for.\<close>

definition planned :: "authority_env \<Rightarrow> string \<Rightarrow> bool" where
  "planned x u \<longleftrightarrow> (\<exists>n seen raw p. se_plan (ae_session x) n seen = Proposed raw \<and> read_plan raw = Inr p \<and> u = canonical (plan_json p))"

definition derived :: "authority_env \<Rightarrow> action \<Rightarrow> bool" where
  "derived x c \<longleftrightarrow> (\<exists>u p a. planned x u \<and> read_plan (PStr u) = Inr p \<and> pl_action p = Some a \<and> parse_action a = Inr c)"

definition provided :: "authority_env \<Rightarrow> authority_state \<Rightarrow> bool" where
  "provided x s \<longleftrightarrow> (ae_provider x \<longrightarrow> (\<forall>u. as_pending s = Some u \<longrightarrow> planned x u)
     \<and> (\<forall>c \<in> set (launched (cs_trace (ss_ctl s))). derived x c))"

lemma provided_fields [simp]:
  "provided x (s\<lparr>ss_reserved := n\<rparr>) = provided x s" "provided x (s\<lparr>ss_succeeded := n\<rparr>) = provided x s"
  "provided x (s\<lparr>ss_attempted := n\<rparr>) = provided x s" "provided x s \<Longrightarrow> provided x (s\<lparr>as_pending := None\<rparr>)"
  by (simp_all add: provided_def)

lemma calm_provided: "calm (provided x)"
  by (auto simp: calm_def by_launches_def provided_def)

lemma submit_provided:
  assumes "\<And>c. ae_provider x \<Longrightarrow> parse_action v = Inr c \<Longrightarrow> derived x c"
  shows "triple (provided x) (lift (submit_proposal e a v)) (\<lambda>_. provided x) (\<lambda>_. provided x)"
  by (rule lift_triple [OF submit_launches]) (use assms in \<open>auto simp: one_more_def provided_def\<close>)

lemma act_provided:
  assumes "\<And>c. ae_provider x \<Longrightarrow> parse_action proposal = Inr c \<Longrightarrow> derived x c"
  shows "triple (provided x) (authority_act x step proposal last_one) (\<lambda>_. provided x) (\<lambda>_. provided x)"
proof -
  let ?P = "provided x"
  note submit = submit_provided [of x proposal, OF assms]
  note keep = session_keeps [OF calm_launches [OF calm_provided, of x]]
  have ask: "triple ?P (if b then ask_review y c else ret None) (\<lambda>_. ?P) (\<lambda>_. ?P)" for b y c
    by (intro triple_if keep(3) triple_ret)
  have count: "triple ?P (seqS (if oc_status out = ''succeeded''
      then modify (\<lambda>s. s\<lparr>ss_succeeded := ss_succeeded s + 1\<rparr>) else ret ()) (\<lambda>_. ret out)) (\<lambda>_. ?P) (\<lambda>_. ?P)" for out
    by (rule triple_seq [where R = "\<lambda>_. ?P"], intro triple_if triple_modify triple_ret) (simp_all add: triple_ret)
  have perf: "triple ?P (perform y ex i rv step proposal c preview) (\<lambda>_. ?P) (\<lambda>_. ?P)" for y ex i rv c preview
    unfolding perform_def by (intro triple_if triple_ret triple_seq [OF ask] triple_seq [OF keep(2)] triple_seq [OF submit] count)
  have res: "triple ?P (reserve y step c) (\<lambda>_. ?P) (\<lambda>_. ?P)" for y c
    unfolding reserve_def Let_def
    by (rule triple_seq [OF triple_modify [where Q = "\<lambda>_. ?P"]], simp, rule triple_seq [OF triple_reads_keep keep(1)])
  show ?thesis unfolding authority_act_def Let_def
    by (intro triple_seq [OF submit] triple_if calm_finish(1) calm_provided triple_sum triple_raise triple_seq [OF triple_reads_keep]
      triple_seq [OF res] triple_seq [OF calm_check [OF calm_provided]] triple_seq [OF perf] calm_outcome)
qed

lemma propose_provided:
  assumes "ae_provider x \<Longrightarrow> planned x (canonical w)"
  shows "triple (provided x) (authority_propose x step w) (\<lambda>_. provided x) (\<lambda>_. provided x)"
proof -
  have "derived x c" if "ae_provider x" "read_plan (PStr (canonical w)) = Inr p" "pl_action p = Some a" "parse_action a = Inr c" for p a c
    using that assms by (auto simp: derived_def)
  then show ?thesis unfolding authority_propose_def
    by (intro triple_sum triple_option calm_refusals(1) calm_finish(2) calm_provided act_provided) auto
qed

lemma plan_provided: "triple (provided x) (authority_plan x step) (\<lambda>_. provided x) (\<lambda>_. provided x)"
proof -
  note chk = calm_check [OF calm_provided, of x]
  have receive: "triple (provided x) (receive_plan x step raw) (\<lambda>_. provided x) (\<lambda>_. provided x)"
    if "se_plan (ae_session x) n seen = Proposed raw" for n seen raw
  proof -
    have pending: "provided x (s\<lparr>as_pending := Some (canonical (plan_json p))\<rparr>)"
      if "provided x s" "bindE (require b e) (\<lambda>_. read_plan raw) = Inr p" for s b e p
      using that \<open>se_plan (ae_session x) n seen = Proposed raw\<close> by (auto simp: provided_def planned_def res_simps)
    show ?thesis unfolding receive_plan_def
      by (rule triple_sum, rule calm_refusals(1) [OF calm_provided], rule triple_seq [OF calm_reply], rule triple_if,
        rule calm_refusals(1) [OF calm_provided], rule triple_seq [OF triple_modify [where Q = "\<lambda>_. provided x"]],
        erule pending, assumption, rule triple_seq [OF calm_tell [OF calm_provided]], rule triple_seq [OF chk], rule triple_ret)
  qed
  show ?thesis unfolding authority_plan_def
    by (rule triple_seq [OF chk], rule triple_seq [OF triple_reads_keep], rule triple_seq [OF triple_reads_keep],
      rule triple_sum [OF calm_refusals(2) [OF calm_provided]])
     (auto split: plan_answer.split intro!: calm_refusals(2) [OF calm_provided] triple_raise triple_seq [OF chk] receive)
qed

lemma take_provided:
  "triple (provided x) (take_plan x v) (\<lambda>_ s. provided x s \<and> (proposes x v \<longrightarrow> planned x (canonical (item v ''plan'')))) (\<lambda>_. provided x)"
proof (cases "ae_provider x")
  case False
  then show ?thesis by (auto simp: take_plan_def proposes_def intro!: triple_ret)
next
  case True
  let ?P = "\<lambda>p s. provided x s \<and> as_pending s = p"
  have c: "calm (?P p)" for p by (intro calm_conj calm_provided calm_basic(1))
  have phase: "triple (?P p) (demand x b reason) (\<lambda>_ s. ?P p s \<and> b) (\<lambda>_. provided x)" for p b reason
    by (rule triple_raises [OF calm_demand [OF c]]) simp
  have phase': "triple (?P p) (demand x b reason) (\<lambda>_. ?P p) (\<lambda>_. provided x)" for p b reason
    by (rule triple_conseq [OF phase]) auto
  have rest: "triple (?P p) (if proposes x v then
         seqS (demand x (Some (canonical (item v ''plan'')) = p) ''provider_plan_mismatch'') (\<lambda>_. modify (\<lambda>s. s\<lparr>as_pending := None\<rparr>))
       else ret ()) (\<lambda>_ s. provided x s \<and> (proposes x v \<longrightarrow> planned x (canonical (item v ''plan'')))) (\<lambda>_. provided x)" for p
  proof (rule triple_if)
    show "triple (?P p) (seqS (demand x (Some (canonical (item v ''plan'')) = p) ''provider_plan_mismatch'') (\<lambda>_. modify (\<lambda>s. s\<lparr>as_pending := None\<rparr>)))
      (\<lambda>_ s. provided x s \<and> (proposes x v \<longrightarrow> planned x (canonical (item v ''plan'')))) (\<lambda>_. provided x)"
      by (rule triple_seq [OF phase triple_modify]) (use True in \<open>auto simp: provided_def\<close>)
  qed (auto intro: triple_ret)
  have "triple (provided x) (seqS (reads as_pending) (\<lambda>pending.
       seqS (demand x (plans x v = (pending = None)) ''phase_mismatch'') (\<lambda>_.
       if proposes x v then
         seqS (demand x (Some (canonical (item v ''plan'')) = pending) ''provider_plan_mismatch'') (\<lambda>_.
         modify (\<lambda>s. s\<lparr>as_pending := None\<rparr>))
       else ret ()))) (\<lambda>_ s. provided x s \<and> (proposes x v \<longrightarrow> planned x (canonical (item v ''plan'')))) (\<lambda>_. provided x)"
    by (rule triple_seq [OF triple_reads], rule triple_seq [OF triple_pre [OF phase'] rest]) simp
  then show ?thesis using True by (simp add: take_plan_def)
qed

lemma handle_provided: "triple (provided x) (authority_handle x raw) (\<lambda>_. provided x) (\<lambda>_. provided x)"
proof -
  have opened: "triple (provided x) (open_request x raw) (\<lambda>r s. provided x s
      \<and> (ae_provider x \<longrightarrow> plans x (fst r) \<or> proposes x (fst r))) (\<lambda>_. provided x)"
    by (rule triple_conseq [OF triple_conj [OF request_triple [OF calm_provided] request_operation]]) auto
  have starts: "triple (provided x) (begin_step x v step) (\<lambda>_. provided x) (\<lambda>_. provided x)" for v step
    unfolding begin_step_def
    by (intro triple_if triple_ret, assumption, rule triple_seq [OF triple_modify [where Q = "\<lambda>_. provided x"]], simp,
      rule calm_tell [OF calm_provided])
  have rest: "triple (\<lambda>s. provided x s \<and> (ae_provider x \<longrightarrow> plans x (fst r) \<or> proposes x (fst r)))
    (case r of (v, step) \<Rightarrow> seqS (take_plan x v) (\<lambda>_. seqS (begin_step x v step) (\<lambda>_.
      if plans x v then authority_plan x step else authority_propose x step (item v ''plan'')))) (\<lambda>_. provided x) (\<lambda>_. provided x)" for r
  proof -
    obtain v step where r: "r = (v, step)" by (cases r)
    have go: "triple (\<lambda>s. provided x s \<and> (proposes x v \<longrightarrow> planned x (canonical (item v ''plan'')))) (seqS (begin_step x v step) (\<lambda>_.
      if plans x v then authority_plan x step else authority_propose x step (item v ''plan''))) (\<lambda>_. provided x) (\<lambda>_. provided x)"
      if "ae_provider x \<longrightarrow> plans x v \<or> proposes x v"
    proof (cases "proposes x v \<longrightarrow> planned x (canonical (item v ''plan''))")
      case True
      have "triple (provided x) (seqS (begin_step x v step) (\<lambda>_.
        if plans x v then authority_plan x step else authority_propose x step (item v ''plan''))) (\<lambda>_. provided x) (\<lambda>_. provided x)"
        by (rule triple_seq [OF starts], rule triple_if, rule plan_provided, rule propose_provided) (use True that in auto)
      then show ?thesis by (rule triple_pre) simp
    qed (auto simp: triple_def)
    show ?thesis
    proof (cases "ae_provider x \<longrightarrow> plans x v \<or> proposes x v")
      case True
      show ?thesis unfolding r prod.case by (rule triple_pre [OF triple_seq [OF take_provided go [OF True]]]) simp
    qed (auto simp: triple_def r)
  qed
  show ?thesis unfolding authority_handle_def by (rule triple_seq [OF opened rest])
qed

interpretation provided_channel: channel_invariant x "provided x" for x
  by unfold_locales (rule calm_provided, rule handle_provided)

end
