(* ===== verification/LaunchAuthority.thy ===== *)
theory LaunchAuthority
  imports AuthoritySafety
begin

text \<open>
  Sessions and authorities as clients of the controller. The locale states what a client relies
  on: an invariant that every call it makes keeps. Its lemmas carry the invariant through all
  operations of a session and of an authority; the interpretation gives the controller's own
  invariant, so that launches made through either are authorised.
\<close>

section \<open>Submissions issue no grants\<close>

definition quiet :: "(ctl_state \<Rightarrow> bool) \<Rightarrow> bool" where
  "quiet P \<longleftrightarrow> (\<forall>s x. P s \<longrightarrow> (\<forall>g. x \<noteq> Granted g) \<longrightarrow> P (log x s)) \<and> (\<forall>s gs. P s \<longrightarrow> P (s\<lparr>cs_grants := gs\<rparr>))
     \<and> (\<forall>s n. P s \<longrightarrow> P (s\<lparr>cs_checks := n\<rparr>)) \<and> (\<forall>s b. P s \<longrightarrow> P (s\<lparr>cs_audit_failed := b\<rparr>) \<and> P (s\<lparr>cs_approval_failed := b\<rparr>))"

lemma quietD:
  assumes "quiet P" and "P s"
  shows "P (log (Emitted k out fs) s)" "P (log (Noted k fs) s)" "P (log (Consumed g) s)" "P (log (Launched c) s)"
    "P (s\<lparr>cs_grants := gs\<rparr>)" "P (s\<lparr>cs_checks := n\<rparr>)" "P (s\<lparr>cs_audit_failed := b\<rparr>)" "P (s\<lparr>cs_approval_failed := b\<rparr>)"
  using assms unfolding quiet_def by blast+

lemma quiet_basic:
  assumes "quiet P"
  shows "triple P (emit e (Emitted k out fs)) (\<lambda>_. P) (\<lambda>_. P)" "triple P (emit e (Noted k fs)) (\<lambda>_. P) (\<lambda>_. P)"
    "triple P (check e) (\<lambda>_. P) (\<lambda>_. P)" "triple P (check_if b e) (\<lambda>_. P) (\<lambda>_. P)"
    "triple P (evidence_start e) (\<lambda>_. P) (\<lambda>_. P)" "triple P (evidence_finish e) (\<lambda>_. P) (\<lambda>_. P)"
    "triple P (use_approval e r c) (\<lambda>_. P) (\<lambda>_. P)" "triple P (modify (log (Launched c))) (\<lambda>_. P) (\<lambda>_. P)"
  by (rule tripleI; auto simp: emit_def check_if_def check_def ret_def Let_def evidence_start_def evidence_finish_def use_approval_def
    modify_def quietD [OF assms] split: if_splits option.splits prod.splits sum.splits)+

lemma quiet_submit:
  assumes "quiet P"
  shows "triple P (submit_proposal e a v) (\<lambda>_. P) (\<lambda>_. P)"
proof -
  note q = quiet_basic [OF assms]
  have blocked: "triple P (blocked e k r out) (\<lambda>_. P) (\<lambda>_. P)" for k r out
    unfolding blocked_def Let_def by (intro triple_seq [OF q(1)] triple_ret)
  have run: "triple P (run_backend e a c) (\<lambda>_. P) (\<lambda>_. P)" for c
    unfolding run_backend_def
    by (rule triple_catch [where F = "\<lambda>_. P"], rule triple_seq [OF q(4)], rule triple_seq [OF q(8)], rule triple_seq [OF triple_reads_keep])
      (auto split: run_answer.split failure.split intro: triple_ret triple_raise)
  have launch: "triple P (launch e a c out) (\<lambda>_. P) (\<lambda>_. P)" for c out
    unfolding launch_def Let_def split_beta
    by (rule triple_seq [where R = "\<lambda>_. P"], intro triple_if triple_seq [OF q(5)] triple_ret, assumption+,
      rule triple_seq [OF q(1)], rule triple_seq [OF run], rule triple_seq [where R = "\<lambda>_. P"], intro triple_if q(6) triple_ret, assumption,
      rule triple_seq [OF q(1)], rule triple_ret)
  have execute: "triple P (execute e a c out) (\<lambda>_. P) (\<lambda>_. P)" for c out
    unfolding execute_def by (rule triple_seq [OF triple_reads_keep]) (auto split: probe.split intro: launch blocked triple_raise)
  have approve: "triple P (approve e a c out) (\<lambda>_. P) (\<lambda>_. P)" for c out
    unfolding approve_def Let_def
    by (rule triple_seq [where R = "\<lambda>_. P"], intro triple_if q(7) triple_ret, assumption, intro triple_option triple_seq [OF q(1)] execute blocked)
  have decide: "triple P (decide e a c) (\<lambda>_. P) (\<lambda>_. P)" for c
    unfolding decide_def Let_def
    by (rule triple_seq [OF q(1)], intro triple_if triple_ret triple_seq [OF q(4)] approve execute)
  have locked: "triple P (submit_locked e a v) (\<lambda>_. P) (\<lambda>_. P)"
    unfolding submit_locked_def Let_def by (intro triple_sum triple_seq [OF q(1)] triple_ret decide)
  have latch: "triple P (modify (\<lambda>s. s\<lparr>cs_approval_failed := True\<rparr>)) (\<lambda>_. P) (\<lambda>_. P)"
    by (rule triple_modify) (rule quietD [OF assms])
  show ?thesis unfolding submit_proposal_def
    by (rule triple_seq [OF triple_reads_keep], rule triple_seq [OF triple_guard_keep], assumption,
      rule triple_seq [OF triple_guard_keep], assumption, rule triple_seq [OF q(4)],
      rule triple_catch [OF locked], intro triple_if triple_seq [OF latch] triple_raise)
qed

section \<open>Clients of a controller\<close>

definition inner :: "(ctl_state \<Rightarrow> bool) \<Rightarrow> 'z session_state_scheme \<Rightarrow> bool" where
  "inner Q s \<longleftrightarrow> Q (ss_ctl s)"

lemma inner_fields [simp]:
  "inner Q (s\<lparr>ss_status := t\<rparr>) = inner Q s" "inner Q (s\<lparr>ss_reason := t\<rparr>) = inner Q s" "inner Q (s\<lparr>ss_succeeded := n\<rparr>) = inner Q s"
  "inner Q (s\<lparr>ss_steps := ps\<rparr>) = inner Q s" "inner Q (s\<lparr>ss_attempted := n\<rparr>) = inner Q s" "inner Q (s\<lparr>ss_reserved := n\<rparr>) = inner Q s"
  "inner Q (s\<lparr>ss_ctl := c\<rparr>) = Q c"
  by (simp_all add: inner_def)

lemma inner_flags [simp]:
  "inner Q (a\<lparr>as_closed := b\<rparr>) = inner Q a" "inner Q (a\<lparr>as_failed := b\<rparr>) = inner Q a" "inner Q (a\<lparr>as_cancelled := b\<rparr>) = inner Q a"
  "inner Q (a\<lparr>as_pending := p\<rparr>) = inner Q a" "inner Q (a\<lparr>as_seen := p\<rparr>) = inner Q a"
  by (simp_all add: inner_def)

lemma lift_inner: "triple Q m (\<lambda>_. Q) (\<lambda>_. Q) \<Longrightarrow> triple (inner Q) (lift m) (\<lambda>_. inner Q) (\<lambda>_. inner Q)"
proof (rule tripleI)
  fix s f s' assume m: "triple Q m (\<lambda>_. Q) (\<lambda>_. Q)" and q: "inner Q s" and l: "lift m s = (Inl f, s')"
  then show "inner Q s'" using tripleD(1) [OF m, of "ss_ctl s"] by (auto simp: lift_def inner_def split: prod.splits)
next
  fix s x s' assume m: "triple Q m (\<lambda>_. Q) (\<lambda>_. Q)" and q: "inner Q s" and l: "lift m s = (Inr x, s')"
  then show "inner Q s'" using tripleD(2) [OF m, of "ss_ctl s"] by (auto simp: lift_def inner_def split: prod.splits)
qed

locale controlled =
  fixes y :: session_env and Q :: "ctl_state \<Rightarrow> bool"
  assumes noted: "triple Q (emit (se_env y) (Noted k fs)) (\<lambda>_. Q) (\<lambda>_. Q)"
    and checked: "triple Q (check (se_env y)) (\<lambda>_. Q) (\<lambda>_. Q)"
    and submits: "triple Q (submit_proposal (se_env y) a v) (\<lambda>_. Q) (\<lambda>_. Q)"
    and reviews: "se_review y (position c) b = Grant r \<Longrightarrow> Q c \<Longrightarrow> Q (snd (grant_approval (se_env y) r b c))"
    and latches: "Q c \<Longrightarrow> Q (c\<lparr>cs_audit_failed := True\<rparr>)" "Q c \<Longrightarrow> Q (c\<lparr>cs_approval_failed := True\<rparr>)"
begin

lemma client_basic:
  "triple (inner Q) (announce y kind fs) (\<lambda>_. inner Q) (\<lambda>_. inner Q)" "triple (inner Q) (lift (check (se_env y))) (\<lambda>_. inner Q) (\<lambda>_. inner Q)"
  "triple (inner Q) (lift (submit_proposal (se_env y) a v)) (\<lambda>_. inner Q) (\<lambda>_. inner Q)"
  unfolding announce_def by (rule lift_inner, rule noted checked submits)+

lemma client_review: "triple (inner Q) (ask_review y b) (\<lambda>_. inner Q) (\<lambda>_. inner Q)"
proof -
  have "inner Q s'" if q: "inner Q s" and a: "ask_review y b s = (res, s')" for s s' :: "'z session_state_scheme" and res
  proof (cases "se_review y (position (ss_ctl s)) b")
    case (Grant r)
    have "Q (snd (grant_approval (se_env y) r b (ss_ctl s)))" by (rule reviews [OF Grant]) (use q in \<open>simp add: inner_def\<close>)
    then show ?thesis using a Grant
      by (auto simp: ask_review_def seqS_def reads_def lift_def ret_def inner_def split: prod.splits sum.splits)
  qed (use a q in \<open>auto simp: ask_review_def seqS_def reads_def ret_def raise_def\<close>)
  then show ?thesis by (auto intro!: tripleI)
qed

lemma client_modify: "(\<And>s. inner Q s \<Longrightarrow> inner Q (f s)) \<Longrightarrow> triple (inner Q) (modify f) (\<lambda>_. inner Q) (\<lambda>_. inner Q)"
  by (rule triple_modify)

lemma client_record: "triple (inner Q) (record_step y step out) (\<lambda>_. inner Q) (\<lambda>_. inner Q)"
  unfolding record_step_def
  by (rule triple_seq [OF client_modify], simp, rule triple_seq [OF triple_reads_keep client_basic(1)])

lemma client_reserve: "triple (inner Q) (reserve y step c) (\<lambda>_. inner Q) (\<lambda>_. inner Q)"
  unfolding reserve_def Let_def
  by (rule triple_seq [OF client_modify], simp, rule triple_seq [OF triple_reads_keep client_basic(1)])

lemma client_perform: "triple (inner Q) (perform y ex i rv step proposal c preview) (\<lambda>_. inner Q) (\<lambda>_. inner Q)"
proof -
  have ask: "triple (inner Q) (if b then ask_review y c else ret None) (\<lambda>_. inner Q) (\<lambda>_. inner Q)" for b
    by (intro triple_if client_review triple_ret)
  have count: "triple (inner Q) (if b then modify (\<lambda>s. s\<lparr>ss_succeeded := ss_succeeded s + 1\<rparr>) else ret ()) (\<lambda>_. inner Q) (\<lambda>_. inner Q)" for b
    by (intro triple_if client_modify triple_ret) simp
  show ?thesis unfolding perform_def
    by (intro triple_if triple_ret triple_seq [OF ask] triple_seq [OF client_basic(2)] triple_seq [OF client_basic(3)] triple_seq [OF count])
qed

lemma client_summarise: "triple (inner Q) (summarise status reason) (\<lambda>_. inner Q) (\<lambda>_. inner Q)"
  unfolding summarise_def by (rule client_modify) simp

lemma client_action: "triple (inner Q) (session_action y ex i rv step proposal last_one) (\<lambda>_. inner Q) (\<lambda>_. inner Q)"
  unfolding session_action_def
  by (intro triple_seq [OF client_basic(3)] triple_if triple_seq [OF client_record] triple_seq [OF client_summarise] triple_ret triple_sum
    triple_raise triple_seq [OF triple_reads_keep] triple_seq [OF client_reserve] triple_seq [OF client_basic(2)] triple_seq [OF client_perform])

lemma client_step: "triple (inner Q) (session_step y ex i rv step previous) (\<lambda>_. inner Q) (\<lambda>_. inner Q)"
proof -
  have count: "triple (inner Q) (modify (\<lambda>s. s\<lparr>ss_attempted := ss_attempted s + 1\<rparr>)) (\<lambda>_. inner Q) (\<lambda>_. inner Q)"
    by (rule client_modify) simp
  show ?thesis unfolding session_step_def
    by (rule triple_seq [OF client_basic(2)], rule triple_seq [OF count], rule triple_seq [OF client_basic(1)],
      rule triple_sum [OF triple_raise], assumption, rule triple_seq [OF triple_reads_keep])
     (auto split: plan_answer.split intro!: triple_raise triple_seq [OF client_basic(2)] triple_sum triple_seq [OF client_basic(1)]
       triple_seq [OF client_summarise] triple_ret triple_option client_action)
qed

lemma client_loop: "triple (inner Q) (session_loop y ex i rv steps previous) (\<lambda>_. inner Q) (\<lambda>_. inner Q)"
  by (induction steps arbitrary: previous) (auto intro!: triple_ret triple_seq [OF client_step] triple_option)

theorem client_session: "triple (inner Q) (session_run y ex i rv) (\<lambda>_. inner Q) (\<lambda>_. inner Q)"
  unfolding session_run_def
  by (rule triple_seq [OF client_basic(1)], rule triple_seq [OF triple_catch [OF client_loop]],
    auto split: failure.split intro!: triple_raise client_modify triple_seq [OF triple_reads_keep] triple_seq [OF client_basic(1)] triple_reads_keep)

text \<open>The same for an authority over this session.\<close>

lemma channel_tell: "ae_session x = y \<Longrightarrow> triple (inner Q) (tell x kind fs) (\<lambda>_. inner Q) (\<lambda>_. inner Q)"
  unfolding tell_def using client_basic(1) by blast

lemma channel_reject: "ae_session x = y \<Longrightarrow> triple (inner Q) (reject x reason) (\<lambda>_. inner Q) (\<lambda>_. inner Q)"
  unfolding reject_def by (rule triple_seq [OF client_modify], simp, rule triple_seq [OF channel_tell triple_raise])

lemma channel_basic:
  assumes "ae_session x = y"
  shows "triple (inner Q) (authority_check x) (\<lambda>_. inner Q) (\<lambda>_. inner Q)"
    "triple (inner Q) (demand x b reason) (\<lambda>_. inner Q) (\<lambda>_. inner Q)"
    "triple (inner Q) (shut status reason) (\<lambda>_. inner Q) (\<lambda>_. inner Q)"
    "triple (inner Q) (authority_record x step out) (\<lambda>_. inner Q) (\<lambda>_. inner Q)"
proof -
  show "triple (inner Q) (authority_check x) (\<lambda>_. inner Q) (\<lambda>_. inner Q)"
    unfolding authority_check_def assms by (intro triple_seq [OF triple_reads_keep] triple_if triple_raise client_basic(2))
  show "triple (inner Q) (demand x b reason) (\<lambda>_. inner Q) (\<lambda>_. inner Q)"
    unfolding demand_def by (intro triple_if triple_ret channel_reject [OF assms])
  show "triple (inner Q) (shut status reason) (\<lambda>_. inner Q) (\<lambda>_. inner Q)"
    unfolding shut_def by (rule client_modify) simp
  show "triple (inner Q) (authority_record x step out) (\<lambda>_. inner Q) (\<lambda>_. inner Q)"
    unfolding authority_record_def assms
    by (rule triple_sum [OF triple_raise], assumption, rule triple_seq [OF client_modify client_record]) simp
qed

lemma channel_refusals:
  assumes x: "ae_session x = y"
  shows "triple (inner Q) (proposal_rejected x step) (\<lambda>_. inner Q) (\<lambda>_. inner Q)"
    "triple (inner Q) (provider_failed x step) (\<lambda>_. inner Q) (\<lambda>_. inner Q)"
  unfolding proposal_rejected_def provider_failed_def
  by (rule triple_seq [OF channel_basic(3) [OF x]], rule triple_seq [OF channel_tell [OF x] calm_reply])+

lemma channel_request:
  assumes x: "ae_session x = y"
  shows "triple (inner Q) (open_request x raw) (\<lambda>_. inner Q) (\<lambda>_. inner Q)"
proof -
  have "triple (inner Q) (open_envelope x raw) (\<lambda>_. inner Q) (\<lambda>_. inner Q)"
    unfolding open_envelope_def
    by (intro triple_seq [OF channel_basic(1) [OF x]] triple_seq [OF triple_reads_keep]
      triple_seq [OF channel_basic(2) [OF x]] triple_sum channel_reject [OF x] triple_ret)
  then show ?thesis unfolding open_request_def Let_def
    by (rule triple_seq, intro triple_seq [OF triple_reads_keep] triple_seq [OF channel_basic(2) [OF x]] triple_ret)
qed

lemma channel_take:
  assumes x: "ae_session x = y"
  shows "triple (inner Q) (take_plan x v) (\<lambda>_. inner Q) (\<lambda>_. inner Q)" "triple (inner Q) (begin_step x v step) (\<lambda>_. inner Q) (\<lambda>_. inner Q)"
proof -
  show "triple (inner Q) (take_plan x v) (\<lambda>_. inner Q) (\<lambda>_. inner Q)" unfolding take_plan_def
    by (intro triple_if triple_ret triple_seq [OF triple_reads_keep] triple_seq [OF channel_basic(2) [OF x]] client_modify) simp_all
  have count: "triple (inner Q) (modify (\<lambda>s. s\<lparr>ss_attempted := step\<rparr>)) (\<lambda>_. inner Q) (\<lambda>_. inner Q)" by (rule client_modify) simp
  show "triple (inner Q) (begin_step x v step) (\<lambda>_. inner Q) (\<lambda>_. inner Q)" unfolding begin_step_def
    by (intro triple_if triple_ret triple_seq [OF count] channel_tell [OF x])
qed

lemma channel_plan:
  assumes x: "ae_session x = y"
  shows "triple (inner Q) (authority_plan x step) (\<lambda>_. inner Q) (\<lambda>_. inner Q)"
proof -
  note chk = channel_basic(1) [OF x]
  have pending: "triple (inner Q) (modify (\<lambda>s. s\<lparr>as_pending := p\<rparr>)) (\<lambda>_. inner Q) (\<lambda>_. inner Q)" for p by (rule client_modify) simp
  have receive: "triple (inner Q) (receive_plan x step raw) (\<lambda>_. inner Q) (\<lambda>_. inner Q)" for raw
    unfolding receive_plan_def
    by (intro triple_sum channel_refusals(1) [OF x] triple_seq [OF calm_reply] triple_if triple_seq [OF pending]
      triple_seq [OF channel_tell [OF x]] triple_seq [OF chk] triple_ret)
  show ?thesis unfolding authority_plan_def
    by (rule triple_seq [OF chk], rule triple_seq [OF triple_reads_keep], rule triple_seq [OF triple_reads_keep],
      rule triple_sum [OF channel_refusals(2) [OF x]])
     (auto split: plan_answer.split intro!: channel_refusals(2) [OF x] triple_raise triple_seq [OF chk] receive)
qed

lemma channel_propose:
  assumes x: "ae_session x = y"
  shows "triple (inner Q) (authority_propose x step w) (\<lambda>_. inner Q) (\<lambda>_. inner Q)"
proof -
  have closing: "triple (inner Q) (if a then shut u t else if b then shut u' t' else if c then shut u'' t'' else ret ()) (\<lambda>_. inner Q) (\<lambda>_. inner Q)"
    for a b c u t u' t' u'' t'' by (intro triple_if triple_ret channel_basic(3) [OF x])
  have outcome: "triple (inner Q) (authority_outcome x step last_one out) (\<lambda>_. inner Q) (\<lambda>_. inner Q)" for last_one out
    unfolding authority_outcome_def
    by (rule triple_seq [OF channel_basic(4) [OF x]], rule triple_seq [OF channel_basic(1) [OF x]], rule triple_seq [OF closing calm_reply])
  have act: "triple (inner Q) (authority_act x step proposal last_one) (\<lambda>_. inner Q) (\<lambda>_. inner Q)" for proposal last_one
    unfolding authority_act_def Let_def x
    by (intro triple_seq [OF client_basic(3)] triple_if triple_seq [OF channel_basic(3) [OF x]] triple_seq [OF channel_basic(4) [OF x]]
      calm_reply triple_sum triple_raise triple_seq [OF triple_reads_keep] triple_seq [OF client_reserve]
      triple_seq [OF channel_basic(1) [OF x]] triple_seq [OF client_perform] outcome)
  show ?thesis unfolding authority_propose_def
    by (intro triple_sum channel_refusals(1) [OF x] triple_option triple_seq [OF channel_basic(3) [OF x]] calm_reply act)
qed

lemma channel_handle:
  assumes x: "ae_session x = y"
  shows "triple (inner Q) (authority_handle x raw) (\<lambda>_. inner Q) (\<lambda>_. inner Q)"
  unfolding authority_handle_def split_beta
  by (rule triple_seq [OF channel_request [OF x]], rule triple_seq [OF channel_take(1) [OF x]], rule triple_seq [OF channel_take(2) [OF x]],
    intro triple_if channel_plan [OF x] channel_propose [OF x])

lemma channel_latches: "inner Q s \<Longrightarrow> inner Q (poison f s)" "inner Q s \<Longrightarrow> inner Q (settle_run f s)"
  using latches by (auto simp: poison_def settle_run_def Let_def inner_def split: failure.split)

lemma channel_serve:
  assumes x: "ae_session x = y"
  shows "triple (inner Q) (serve x qs) (\<lambda>_. inner Q) (\<lambda>_. inner Q)"
proof (induction qs)
  case (Cons q qs)
  have ex: "triple (inner Q) (exchange x q) (\<lambda>_. inner Q) (\<lambda>_. inner Q)"
    unfolding exchange_def
    by (rule triple_catch [where F = "\<lambda>_. inner Q"], intro triple_if channel_handle [OF x] channel_reject [OF x],
      rule triple_seq [OF client_modify triple_raise], rule channel_latches(1))
  have "triple (inner Q) (catchS (seqS (exchange x q) (\<lambda>_. ret ())) (\<lambda>f. if rq_swallow q then ret () else raise f)) (\<lambda>_. inner Q) (\<lambda>_. inner Q)"
    by (rule triple_catch [OF triple_seq [OF ex triple_ret]], assumption, intro triple_if triple_ret triple_raise)
  then show ?case using Cons by (simp add: triple_seq)
qed (simp add: triple_ret)

theorem client_authority:
  assumes x: "ae_session x = y"
  shows "triple (inner Q) (authority_run x qs ending) (\<lambda>_. inner Q) (\<lambda>_. inner Q)"
proof -
  have closed: "triple (inner Q) (modify (\<lambda>s. s\<lparr>as_closed := True\<rparr>)) (\<lambda>_. inner Q) (\<lambda>_. inner Q)"
    "triple (inner Q) (modify (\<lambda>s. s\<lparr>ss_reason := t\<rparr>)) (\<lambda>_. inner Q) (\<lambda>_. inner Q)"
    "triple (inner Q) (modify (settle_run f)) (\<lambda>_. inner Q) (\<lambda>_. inner Q)"
    "triple (inner Q) (modify (\<lambda>s. if cs_approval_failed (ss_ctl s) then s\<lparr>ss_status := u, ss_reason := t\<rparr> else s)) (\<lambda>_. inner Q) (\<lambda>_. inner Q)"
    for t u f by (rule client_modify; simp add: channel_latches(2))+
  have bound: "triple (inner Q) (bind_provider x) (\<lambda>_. inner Q) (\<lambda>_. inner Q)"
    unfolding bind_provider_def
    by (intro triple_seq [OF triple_reads_keep] triple_option triple_if triple_ret triple_raise triple_seq [OF closed(2)]
      triple_seq [OF channel_tell [OF x]] closed(1))
  have bind_first: "triple (inner Q) (if b then seqS (bind_provider x) (\<lambda>_. authority_check x) else ret ()) (\<lambda>_. inner Q) (\<lambda>_. inner Q)" for b
    by (intro triple_if triple_ret triple_seq [OF bound] channel_basic(1) [OF x])
  have close: "triple (inner Q) (check_close x r) (\<lambda>_. inner Q) (\<lambda>_. inner Q)" for r
    unfolding check_close_def
    by (intro triple_seq [OF channel_basic(1) [OF x]] triple_seq [OF triple_reads_keep] triple_seq [OF channel_basic(2) [OF x]]
      triple_sum channel_reject [OF x] channel_basic(2) [OF x])
  have body: "triple (inner Q) (authority_body x qs ending) (\<lambda>_. inner Q) (\<lambda>_. inner Q)"
    unfolding authority_body_def
    by (rule triple_seq [OF channel_basic(1) [OF x]], rule triple_seq [OF bind_first], rule triple_seq [OF triple_reads_keep],
      intro triple_if triple_ret triple_seq [OF channel_serve [OF x]])
     (auto split: coordinator_end.split intro: close triple_raise)
  have settled: "triple (inner Q) (seqS (modify (settle_run f)) (\<lambda>_. if f = Audit_unavailable \<or> f = Evidence_unavailable
      then seqS (modify (\<lambda>s. s\<lparr>as_closed := True\<rparr>)) (\<lambda>_. raise f) else ret ())) (\<lambda>_. inner Q) (\<lambda>_. inner Q)" for f
    by (intro triple_seq [OF closed(3)] triple_if triple_ret triple_seq [OF closed(1)] triple_raise)
  show ?thesis unfolding authority_run_def
    by (intro triple_seq [OF channel_tell [OF x]] triple_seq [OF triple_catch [OF body settled]] triple_seq [OF closed(1)]
      triple_seq [OF closed(4)] triple_seq [OF triple_reads_keep] triple_reads_keep)
qed

end

section \<open>The controller's invariant\<close>

text \<open>
  References are fresh: \<open>secrets.token_hex(24)\<close> gives no reference twice. A review at one
  position of the trace issues one, so positions identify references.
\<close>

definition fresh_reviews :: "session_env \<Rightarrow> bool" where
  "fresh_reviews y \<longleftrightarrow> (\<forall>n m a b r. se_review y n a = Grant r \<longrightarrow> se_review y m b = Grant r \<longrightarrow> n = m)"

definition reviewed :: "session_env \<Rightarrow> ctl_state \<Rightarrow> bool" where
  "reviewed y c \<longleftrightarrow> (\<forall>i < length (cs_trace c). \<forall>g. cs_trace c ! i = Granted g \<longrightarrow> (\<exists>b. se_review y i b = Grant (gr_reference g)))"

lemma quiet_reviewed: "quiet (reviewed y)"
  by (auto simp: quiet_def reviewed_def log_def nth_append less_Suc_eq)

lemma reviewed_refs:
  assumes "reviewed y c" and "r \<in> set (map gr_reference (granted (cs_trace c)))"
  shows "\<exists>i b. i < length (cs_trace c) \<and> se_review y i b = Grant r"
proof -
  obtain g where g: "Granted g \<in> set (cs_trace c)" "r = gr_reference g" using assms(2) by (auto simp: set_granted)
  then obtain i where "i < length (cs_trace c)" "cs_trace c ! i = Granted g" by (auto simp: in_set_conv_nth)
  then show ?thesis using assms(1) g(2) by (auto simp: reviewed_def)
qed

definition sound :: "session_env \<Rightarrow> ctl_state \<Rightarrow> bool" where
  "sound y c \<longleftrightarrow> (fresh_reviews y \<longrightarrow> ctl_inv (se_env y) c \<and> reviewed y c)"

lemma sound_triple:
  assumes "triple (ctl_inv (se_env y)) m (\<lambda>_. ctl_inv (se_env y)) (\<lambda>_. ctl_inv (se_env y))"
    and "triple (reviewed y) m (\<lambda>_. reviewed y) (\<lambda>_. reviewed y)"
  shows "triple (sound y) m (\<lambda>_. sound y) (\<lambda>_. sound y)"
proof (cases "fresh_reviews y")
  case True
  then show ?thesis using triple_conj [OF assms] by (simp add: sound_def [abs_def])
next
  case False
  then show ?thesis by (auto intro!: tripleI simp: sound_def)
qed

lemma sound_review:
  assumes v: "se_review y (position c) b = Grant r" and s: "sound y c"
  shows "sound y (snd (grant_approval (se_env y) r b c))"
proof (cases "fresh_reviews y")
  case True
  have i: "ctl_inv (se_env y) c" "reviewed y c" using s True by (auto simp: sound_def)
  have fresh: "r \<notin> set (map gr_reference (granted (cs_trace c)))"
    using reviewed_refs [OF i(2)] v True unfolding fresh_reviews_def position_def by blast
  obtain res d where g: "grant_approval (se_env y) r b c = (res, d)" by (cases "grant_approval (se_env y) r b c")
  have "ctl_inv (se_env y) d" by (rule grant_inv [OF i(1) g fresh])
  moreover have "reviewed y d"
  proof -
    have "cs_trace d = cs_trace c \<or> (\<exists>g. cs_trace d = cs_trace c @ [Granted g] \<and> gr_reference g = r)"
      using g by (auto simp: grant_approval_def issue_def Let_def new_grant_def log_def split: if_splits)
    moreover have "\<exists>b. se_review y (length (cs_trace c)) b = Grant r" using v unfolding position_def by blast
    ultimately show ?thesis using i(2) by (auto simp: reviewed_def nth_append less_Suc_eq) blast
  qed
  ultimately show ?thesis using g by (simp add: sound_def)
qed (simp add: sound_def)

interpretation client: controlled y "sound y" for y
proof unfold_locales
  show "triple (sound y) (emit (se_env y) (Noted k fs)) (\<lambda>_. sound y) (\<lambda>_. sound y)" for k fs
    by (rule sound_triple [OF plain_triples(1) quiet_basic(2) [OF quiet_reviewed]]) simp
  show "triple (sound y) (check (se_env y)) (\<lambda>_. sound y) (\<lambda>_. sound y)"
    using sound_triple [OF plain_triples(2) [of "se_env y" True] quiet_basic(4) [OF quiet_reviewed]] by (simp add: check_if_def)
  show "triple (sound y) (submit_proposal (se_env y) a v) (\<lambda>_. sound y) (\<lambda>_. sound y)" for a v
    by (rule sound_triple [OF submit_triple quiet_submit [OF quiet_reviewed]])
  show "sound y c \<Longrightarrow> sound y (c\<lparr>cs_audit_failed := True\<rparr>)" "sound y c \<Longrightarrow> sound y (c\<lparr>cs_approval_failed := True\<rparr>)" for c
    by (simp_all add: sound_def reviewed_def)
qed (rule sound_review)

lemma controller_start_sound: "controller_start (se_env y) c \<Longrightarrow> sound y c"
  by (simp add: sound_def reviewed_def ctl.inv_init) (simp add: controller_start_def)

end
