(* ===== verification/AuthorityProps.thy ===== *)
theory AuthorityProps
  imports LaunchAuthority BoundaryDemo
begin

text \<open>
  Properties of sessions and authorities as a whole: whoever drives them, launches are
  authorised, limits hold, a closed channel stays closed and only plans of the provider run.
\<close>

section \<open>A concrete authority\<close>

definition demo_channel :: authority_env where
  "demo_channel = \<lparr>ae_session = \<lparr>se_env = demo_env\<lparr>en_session := Some ''00000000-0000-4000-8000-000000000001''\<rparr>,
       se_limits = \<lparr>li_steps = 2, li_runtime = 60, li_output = 8192\<rparr>,
       se_plan = (\<lambda>n seen. Proposed (PStr ''{}'')), se_review = (\<lambda>n c. No_reference), se_elapsed = (\<lambda>n. 7),
       se_extra = [(''control_plane'', PStr ''privsep-offline-v2'')]\<rparr>,
     ae_provider = True, ae_bind = (\<lambda>n. None), ae_execute = True, ae_interactive = True, ae_reviewer = True\<rparr>"

definition demo_channel_start :: authority_state where
  "demo_channel_start = \<lparr>ss_ctl = demo_start, ss_status = ''stopped'', ss_reason = ''coordinator_protocol_error'', ss_attempted = 0,
     ss_succeeded = 0, ss_reserved = 0, ss_steps = [], as_closed = False, as_failed = False, as_cancelled = False,
     as_pending = None, as_seen = None\<rparr>"

lemma demo_channel_started: "authority_start demo_channel demo_channel_start"
  using demo_controller_start demo_uuid
  by (simp add: authority_start_def controller_start_def demo_channel_def demo_channel_start_def demo_env_def)

lemma demo_channel_fresh: "fresh_reviews (ae_session demo_channel)"
  by (simp add: fresh_reviews_def demo_channel_def)

lemma no_braces: "read_plan (PStr ''{}'') \<noteq> Inr p"
proof -
  have "load_json (PStr ''{}'') = Inr (PDict [])" by code_simp
  then show ?thesis by (simp add: read_plan_def same_fields_def fields_of_def res_simps)
qed

section \<open>Launches\<close>

text \<open>
  C2: launches made by a session or by an authority are authorised. The authority \<open>x\<close> and the
  session \<open>y\<close> are independent of each other. For every planner, provider and coordinator, and
  whether the run returns or raises, each launch in the trace of the controller is permitted by
  the policy, announced in the durable audit and, where required, covered by an unused, unexpired
  grant for exactly this action; the review's references are assumed to be fresh.
\<close>

theorem clients_launch_authorised:
  assumes "fresh_reviews (ae_session x)" and "authority_start x s" and "authority_run x requests ending s = (r, t)"
    and "fresh_reviews y" and "session_start y s'" and "session_run y ex interactive reviewer s' = (r', t')"
  shows "authorised (se_env (ae_session x)) (cs_trace (ss_ctl t)) \<and> authorised (se_env y) (cs_trace (ss_ctl t'))"
proof -
  let ?y = "ae_session x"
  have start: "inner (sound ?y) s" "inner (sound y) s'"
    using assms(2,5) controller_start_sound by (simp_all add: authority_start_def session_start_def inner_def)
  have "inner (sound ?y) t" using tripleD [OF client.client_authority [OF refl] start(1)] assms(3) by (cases r) auto
  moreover have "inner (sound y) t'" using tripleD [OF client.client_session start(2)] assms(6) by (cases r') auto
  ultimately show ?thesis using assms(1,4) by (simp add: inner_def sound_def ctl_inv_def trace_authorised)
qed

definition base_session :: session_env where
  "base_session = \<lparr>se_env = demo_env, se_limits = \<lparr>li_steps = 2, li_runtime = 60, li_output = 8192\<rparr>,
     se_plan = (\<lambda>n seen. Proposed (PStr ''{}'')), se_review = (\<lambda>n c. No_reference), se_elapsed = (\<lambda>n. 7), se_extra = []\<rparr>"

definition base_session_start :: session_state where
  "base_session_start = \<lparr>ss_ctl = demo_start, ss_status = ''stopped'', ss_reason = ''step_limit'', ss_attempted = 0,
     ss_succeeded = 0, ss_reserved = 0, ss_steps = []\<rparr>"

theorem clients_launch_authorised_witness:
  "authorised (se_env (ae_session demo_channel)) (cs_trace (ss_ctl (snd (authority_run demo_channel [] (Delivered PNone) demo_channel_start))))
    \<and> authorised (se_env base_session) (cs_trace (ss_ctl (snd (session_run base_session True True True base_session_start))))
    \<and> se_extra base_session = []"
proof -
  obtain r t where run: "authority_run demo_channel [] (Delivered PNone) demo_channel_start = (r, t)"
    by (cases "authority_run demo_channel [] (Delivered PNone) demo_channel_start")
  have fresh: "fresh_reviews base_session" by (simp add: fresh_reviews_def base_session_def)
  have start: "session_start base_session base_session_start"
    unfolding session_start_def by (simp add: base_session_def base_session_start_def demo_controller_start)
  obtain r' t' where run': "session_run base_session True True True base_session_start = (r', t')"
    by (cases "session_run base_session True True True base_session_start")
  from clients_launch_authorised [OF demo_channel_fresh demo_channel_started run fresh start run'] show ?thesis
    by (simp only: run run' snd_conv) (simp add: base_session_def)
qed

section \<open>Limits\<close>

text \<open>
  C4: a coordinator cannot get past the limits of its session. For every finite sequence of
  requests, well-formed or not, swallowed failures included, and every provider and ending, the
  output allowances of all launched actions add up to at most the bytes reserved, these to at
  most the output limit, and there are at most as many launches as counted steps and at most as
  many of these as the step limit.
\<close>

theorem authority_within_limits:
  assumes "make_limits steps runtime output = Inr (se_limits (ae_session x))" and "authority_start x s"
    and "authority_run x requests ending s = (r, t)"
  shows "sum_list (map (\<lambda>c. pb_output (bounds_of (ac_parameters c))) (launched (cs_trace (ss_ctl t)))) \<le> ss_reserved t
    \<and> ss_reserved t \<le> li_output (se_limits (ae_session x)) \<and> int (length (launched (cs_trace (ss_ctl t)))) \<le> ss_attempted t
    \<and> ss_attempted t \<le> li_steps (se_limits (ae_session x)) \<and> li_steps (se_limits (ae_session x)) \<le> 16"
proof -
  note l = make_limits_bounds [OF assms(1)]
  have "fair x s"
    using assms(2) l by (auto simp: authority_start_def controller_start_def fair_def budget_def spent_output_def launches_def)
  from fair_channel.run_end [OF assms(3) this] have "budget (ae_session x) (li_steps (se_limits (ae_session x))) t"
    by (simp add: fair_def)
  then show ?thesis using l(2) by (simp add: budget_def spent_output_def launches_def output_of_def [abs_def])
qed

theorem authority_within_limits_witness:
  "ss_attempted (snd (authority_run demo_channel [\<lparr>rq_raw = PNone, rq_control = True, rq_swallow = True\<rparr>] (Delivered PNone) demo_channel_start)) \<le> 2"
proof -
  let ?run = "authority_run demo_channel [\<lparr>rq_raw = PNone, rq_control = True, rq_swallow = True\<rparr>] (Delivered PNone) demo_channel_start"
  have lim: "make_limits (PInt 2) (PInt 60) (PInt 8192) = Inr (se_limits (ae_session demo_channel))"
    by (simp add: make_limits_def require_def int_in_def demo_channel_def)
  obtain r t where run: "?run = (r, t)" by (cases ?run)
  have "li_steps (se_limits (ae_session demo_channel)) = 2" by (simp add: demo_channel_def)
  with authority_within_limits [OF lim demo_channel_started run] have "ss_attempted t \<le> 2" by simp
  then show ?thesis by (simp only: run snd_conv)
qed

section \<open>The provider's plans\<close>

text \<open>
  C5: an authority with a provider runs nothing its coordinator made up. Every launched action is
  read from the canonical text of a plan that the provider itself answered and that passed the
  plan grammar; a coordinator that alters, reorders or repeats plans launches nothing by it.
\<close>

theorem authority_runs_provider_plans:
  assumes "ae_provider x" and "authority_start x s" and "authority_run x requests ending s = (r, t)"
  shows "\<forall>c \<in> set (launched (cs_trace (ss_ctl t))). \<exists>n seen raw p p' a.
      se_plan (ae_session x) n seen = Proposed raw \<and> read_plan raw = Inr p
      \<and> read_plan (PStr (canonical (plan_json p))) = Inr p' \<and> pl_action p' = Some a \<and> parse_action a = Inr c"
proof -
  have "provided x s" using assms(2) by (simp add: authority_start_def controller_start_def provided_def)
  from provided_channel.run_end [OF assms(3) this] have "\<forall>c \<in> set (launched (cs_trace (ss_ctl t))). derived x c"
    using assms(1) by (simp add: provided_def)
  then show ?thesis unfolding derived_def planned_def by blast
qed

theorem authority_runs_provider_plans_witness:
  "demo_action \<notin> set (launched (cs_trace (ss_ctl (snd (authority_run demo_channel
     [\<lparr>rq_raw = PNone, rq_control = True, rq_swallow = True\<rparr>] (Delivered PNone) demo_channel_start)))))"
proof -
  let ?run = "authority_run demo_channel [\<lparr>rq_raw = PNone, rq_control = True, rq_swallow = True\<rparr>] (Delivered PNone) demo_channel_start"
  obtain r t where run: "?run = (r, t)" by (cases ?run)
  have p: "ae_provider demo_channel" by (simp add: demo_channel_def)
  have no_plan: "raw = PStr ''{}''" if "se_plan (ae_session demo_channel) n seen = Proposed raw" for n seen raw
    using that by (simp add: demo_channel_def)
  from authority_runs_provider_plans [OF p demo_channel_started run] have "demo_action \<notin> set (launched (cs_trace (ss_ctl t)))"
    using no_plan no_braces by metis
  then show ?thesis by (simp only: run snd_conv not_False_eq_True)
qed

section \<open>The channel\<close>

text \<open>What the controller has done, as far as launches and grants go.\<close>

definition deeds :: "'z session_state_scheme \<Rightarrow> action list \<times> grant list \<times> grants" where
  "deeds s = (launched (cs_trace (ss_ctl s)), consumed (cs_trace (ss_ctl s)), cs_grants (ss_ctl s))"

definition shut_off :: "action list \<times> grant list \<times> grants \<Rightarrow> authority_state \<Rightarrow> bool" where
  "shut_off D s \<longleftrightarrow> as_closed s \<and> deeds s = D"

abbreviation never :: "'a \<Rightarrow> authority_state \<Rightarrow> bool" where
  "never x s \<equiv> False"

lemma reject_shut: "triple (shut_off D) (reject x reason) never (\<lambda>_. shut_off D)"
  by (rule tripleI) (auto simp: reject_def seqS_def modify_def tell_def announce_def lift_def emit_def raise_def log_def
    deeds_def shut_off_def split: if_splits prod.splits sum.splits)

lemma check_shut: "triple (shut_off D) (authority_check x) (\<lambda>_. shut_off D) (\<lambda>_. shut_off D)"
  by (rule tripleI) (auto simp: authority_check_def seqS_def reads_def raise_def lift_def check_def Let_def shut_off_def deeds_def
    split: if_splits prod.splits option.splits)

lemma envelope_shut: "triple (shut_off D) (open_envelope x raw) never (\<lambda>_. shut_off D)"
proof -
  have closed: "triple (\<lambda>s. shut_off D s \<and> c = as_closed s) (demand x (\<not> c) reason) never (\<lambda>_. shut_off D)" for c reason
  proof (cases c)
    case True
    then show ?thesis unfolding demand_def by (intro triple_if triple_pre [OF reject_shut]) auto
  qed (auto simp: shut_off_def triple_def)
  show ?thesis unfolding open_envelope_def
    by (rule triple_seq [OF check_shut], rule triple_seq [OF triple_reads], rule triple_seq [OF closed], rule triple_False)
qed

lemma exchange_shut: "triple (shut_off D) (exchange x q) never (\<lambda>_. shut_off D)"
proof -
  have handle: "triple (shut_off D) (authority_handle x raw) never (\<lambda>_. shut_off D)" for raw
    unfolding authority_handle_def open_request_def
    by (rule triple_seq [OF triple_seq [OF envelope_shut triple_False]], rule triple_False)
  have poison: "triple (shut_off D) (modify (poison f)) (\<lambda>_. shut_off D) (\<lambda>_. shut_off D)" for f
    by (rule triple_modify) (auto simp: poison_def shut_off_def deeds_def split: failure.split)
  show ?thesis unfolding exchange_def
    by (rule triple_catch [where F = "\<lambda>_. shut_off D"], intro triple_if handle reject_shut, rule triple_seq [OF poison triple_raise])
qed

lemma serve_shut: "triple (shut_off D) (serve x qs) (\<lambda>_. shut_off D) (\<lambda>_. shut_off D)"
proof (induction qs)
  case (Cons q qs)
  have "triple (shut_off D) (catchS (seqS (exchange x q) (\<lambda>_. ret ())) (\<lambda>f. if rq_swallow q then ret () else raise f)) (\<lambda>_. shut_off D) (\<lambda>_. shut_off D)"
    by (rule triple_catch [OF triple_seq [OF exchange_shut triple_False]], intro triple_if triple_ret triple_raise)
  then show ?case using Cons by (simp add: triple_seq)
qed (simp add: triple_ret)

text \<open>
  C17: the channel closes once and for good. An exchange that raises, for whatever reason, leaves
  the channel closed; on a closed channel every exchange raises; and whatever a coordinator still
  sends over it launches nothing, uses no grant and leaves the stored grants as they are.
\<close>

theorem channel_closes_for_good:
  "(exchange x q s = (Inl f, t) \<longrightarrow> as_closed t)
    \<and> (as_closed s \<longrightarrow> (\<exists>f t. exchange x q s = (Inl f, t)))
    \<and> (as_closed s \<longrightarrow> serve x requests s = (r, u) \<longrightarrow> as_closed u \<and> deeds u = deeds s)"
proof (intro conjI impI)
  show "exchange x q s = (Inl f, t) \<Longrightarrow> as_closed t"
    by (auto simp: exchange_def catchS_def seqS_def modify_def raise_def poison_def split: if_splits prod.splits sum.splits failure.splits)
  assume "as_closed s"
  then have d: "shut_off (deeds s) s" by (simp add: shut_off_def)
  show "\<exists>f t. exchange x q s = (Inl f, t)"
  proof (cases "exchange x q s")
    case (Pair v t)
    then show ?thesis using tripleD(2) [OF exchange_shut d] by (cases v) auto
  qed
  assume run: "serve x requests s = (r, u)"
  have "shut_off (deeds s) u" using tripleD [OF serve_shut d] run by (cases r) auto
  then show "as_closed u" "deeds u = deeds s" by (simp_all add: shut_off_def)
qed

theorem channel_closes_for_good_witness:
  "deeds (snd (serve demo_channel [\<lparr>rq_raw = PNone, rq_control = True, rq_swallow = True\<rparr>] (demo_channel_start\<lparr>as_closed := True\<rparr>))) = ([], [], [])"
  using channel_closes_for_good [of demo_channel "\<lparr>rq_raw = PNone, rq_control = True, rq_swallow = True\<rparr>"
      "demo_channel_start\<lparr>as_closed := True\<rparr>" Protocol_error demo_channel_start
      "[\<lparr>rq_raw = PNone, rq_control = True, rq_swallow = True\<rparr>]"
      "fst (serve demo_channel [\<lparr>rq_raw = PNone, rq_control = True, rq_swallow = True\<rparr>] (demo_channel_start\<lparr>as_closed := True\<rparr>))"
      "snd (serve demo_channel [\<lparr>rq_raw = PNone, rq_control = True, rq_swallow = True\<rparr>] (demo_channel_start\<lparr>as_closed := True\<rparr>))"]
  by (simp add: deeds_def demo_channel_start_def demo_start_def del: serve.simps)

end
