(* ===== verification/Bytes.thy ===== *)
theory Bytes
  imports Prelude "HOL-Library.Word"
begin

unbundle bit_operations_syntax

text \<open>
  Python \<open>bytes\<close> as lists of 8-bit words, the big-endian conversions of \<open>int.from_bytes\<close>,
  \<open>int.to_bytes\<close> and \<open>struct\<close>, slices, and ASCII literals.
\<close>

type_synonym byte = "8 word"
type_synonym bytes = "8 word list"

definition ascii :: "string \<Rightarrow> bytes" where
  "ascii s = map (\<lambda>c. word_of_nat (of_char c)) s"

definition text_of :: "bytes \<Rightarrow> string" where
  "text_of bs = map (\<lambda>b. char_of (unat b)) bs"

text \<open>\<open>raw[a:b]\<close> for \<open>0 \<le> a\<close>: short when the list is short, empty when \<open>b \<le> a\<close>.\<close>

definition slice :: "nat \<Rightarrow> nat \<Rightarrow> 'a list \<Rightarrow> 'a list" where
  "slice a b xs = take (b - a) (drop a xs)"

definition be :: "bytes \<Rightarrow> int" where
  "be bs = foldl (\<lambda>acc b. acc * 256 + uint b) 0 bs"

fun to_be :: "nat \<Rightarrow> int \<Rightarrow> bytes" where
  "to_be 0 v = []"
| "to_be (Suc n) v = to_be n (v div 256) @ [word_of_int v]"

definition hex_digits :: "byte \<Rightarrow> string" where
  "hex_digits b = (let h = (\<lambda>n. if n < 10 then char_of (48 + n) else char_of (87 + n)) in
    [h (nat (uint b) div 16), h (nat (uint b) mod 16)])"

definition hex_text :: "bytes \<Rightarrow> string" where
  "hex_text bs = concat (map hex_digits bs)"

lemma length_slice [simp]: "length (slice a b xs) = min (b - a) (length xs - a)"
  by (simp add: slice_def)

lemma slice_append_right [simp]: "slice (length xs) (length xs + n) (xs @ ys) = take n ys"
  by (simp add: slice_def)

lemma slice_0: "slice 0 n xs = take n xs"
  by (simp add: slice_def)

lemma slice_drop: "slice a b (drop c xs) = slice (a + c) (b + c) xs"
  by (simp add: slice_def add.commute)

lemma slice_split:
  assumes "a \<le> b" "b \<le> c"
  shows "slice a c xs = slice a b xs @ slice b c xs"
proof -
  have split: "c - a = (b - a) + (c - b)" using assms by simp
  show ?thesis unfolding slice_def split take_add using assms by simp
qed

lemma length_ascii [simp]: "length (ascii s) = length s"
  by (simp add: ascii_def)

lemma unat_of_char: "unat (word_of_nat (of_char c) :: byte) = of_char c"
proof -
  have "(of_char c :: nat) < 256" by simp
  then show ?thesis by (simp only: unsigned_of_nat) (simp add: take_bit_nat_eq_self_iff)
qed

lemma text_of_ascii [simp]: "text_of (ascii s) = s"
  by (simp add: text_of_def ascii_def comp_def unat_of_char)

lemma be_Nil [simp]: "be [] = 0"
  by (simp add: be_def)

lemma be_snoc [simp]: "be (bs @ [b]) = be bs * 256 + uint b"
  by (simp add: be_def)

lemma be_nonneg: "0 \<le> be bs"
  by (induction bs rule: rev_induct) simp_all

lemma uint_byte_lt: "uint (b :: byte) < 256"
  using uint_lt2p [of b] by simp

lemma be_upper: "be bs < 256 ^ length bs"
proof (induction bs rule: rev_induct)
  case (snoc b bs)
  have "be bs * 256 + uint b < (be bs + 1) * 256" using uint_byte_lt [of b] by simp
  also have "\<dots> \<le> 256 ^ length bs * 256" using snoc by simp
  finally show ?case by simp
qed simp

lemma length_to_be [simp]: "length (to_be n v) = n"
  by (induction n arbitrary: v) simp_all

lemma uint_of_int_byte: "uint (word_of_int v :: byte) = v mod 256"
  by (simp add: uint_word_of_int_eq take_bit_eq_mod)

lemma be_to_be: "0 \<le> v \<Longrightarrow> v < 256 ^ n \<Longrightarrow> be (to_be n v) = v"
proof (induction n arbitrary: v)
  case (Suc n)
  have "v div 256 < 256 ^ n" using Suc.prems by simp
  with Suc.IH [of "v div 256"] Suc.prems have "be (to_be n (v div 256)) = v div 256"
    by (simp add: pos_imp_zdiv_nonneg_iff)
  then show ?case by (simp add: uint_of_int_byte)
qed simp

lemma to_be_be: "to_be (length bs) (be bs) = bs"
proof (induction bs rule: rev_induct)
  case (snoc b bs)
  have "(be bs * 256 + uint b) div 256 = be bs" using uint_byte_lt [of b] by simp
  moreover have "(word_of_int (be bs * 256 + uint b) :: byte) = b"
    by (rule word_uint_eqI, simp only: uint_of_int_byte) (use uint_byte_lt [of b] in simp)
  ultimately show ?case using snoc by simp
qed simp

lemma be_inj: "length xs = length ys \<Longrightarrow> be xs = be ys \<Longrightarrow> xs = ys"
  by (metis to_be_be)

section \<open>Bounded reads\<close>

text \<open>\<open>raw[i]\<close> is only used behind a length guard; outside it the model reads zero.\<close>

definition byte_at :: "bytes \<Rightarrow> nat \<Rightarrow> byte" where
  "byte_at raw i = (if i < length raw then raw ! i else 0)"

end
