(* ===== verification/DnsWire.thy ===== *)
theory DnsWire
  imports Bytes PyJson
begin

text \<open>
  The DNS half of \<open>secure_agent/name_tls_wire.py\<close>: name decompression with its boundary set and
  hop limit, framed queries and responses, the semantic validator, the lab's transformed
  responses and the exchange check. A \<open>ValueError\<close> is its message. The semantic validator takes
  the record the parser makes, so its checks of dictionary shapes and types and its JSON round trip
  are absorbed by the record type. The text of an IPv6 address
  and the test that a text is a canonical one are the arguments \<open>ip6\<close> and \<open>canon6\<close>: the standard
  library's form of an IPv4-mapped address differs between the supported interpreters.
\<close>

section \<open>The laboratory's table\<close>

definition NAME :: string where "NAME = ''harbordesk.test.''"

definition CASES :: "string list" where
  "CASES = [''O1'', ''O2'', ''O3'', ''O4'', ''O5'', ''R1'', ''R2'', ''N1'', ''N2'', ''N3'', ''N4'',
    ''N5'', ''N6'', ''N7'', ''N8'', ''N9'', ''N10'', ''N11'', ''N12'', ''N13'', ''N14'', ''N15'', ''N16'']"

record lab_row =
  dns_host :: string
  dns_port :: int
  web_host :: string
  http_port :: int
  http_path :: string
  tls_port :: int
  decoy_host :: string

definition ROWS :: "string \<Rightarrow> lab_row option" where
  "ROWS configuration =
    (if configuration = ''A'' then Some \<lparr>dns_host = ''10.77.0.53'', dns_port = 5353, web_host = ''10.77.0.10'',
       http_port = 8080, http_path = ''/harbordesk/portal.html'', tls_port = 8443, decoy_host = ''10.77.0.99''\<rparr>
     else if configuration = ''B'' then Some \<lparr>dns_host = ''172.23.0.53'', dns_port = 15353, web_host = ''172.23.0.10'',
       http_port = 18080, http_path = ''/portal/index.html'', tls_port = 18443, decoy_host = ''172.23.0.99''\<rparr>
     else None)"

definition QUESTION :: bytes where
  "QUESTION = [10] @ ascii ''harbordesk'' @ [4] @ ascii ''test'' @ [0, 0, 1, 0, 1]"

definition selection :: "string \<Rightarrow> string \<Rightarrow> string + lab_row" where
  "selection configuration case_id =
    (case ROWS configuration of
      None \<Rightarrow> Inl ''invalid_name_tls_selection''
    | Some row \<Rightarrow> if case_id \<in> set CASES then Inr row else Inl ''invalid_name_tls_selection'')"

section \<open>Names\<close>

definition label_byte :: "byte \<Rightarrow> bool" where
  "label_byte b \<longleftrightarrow> (let c = char_of (unat b) in is_alnum c \<or> c = CHR ''-'' \<or> c = CHR ''_'')"

definition lower_char :: "char \<Rightarrow> char" where
  "lower_char c = (if is_upper c then char_of (of_char c + (32 :: nat)) else c)"

definition label_text :: "bytes \<Rightarrow> string" where
  "label_text label = map lower_char (text_of label)"

definition dotted :: "string list \<Rightarrow> string" where
  "dotted labels = join ''.'' labels @ ''.''"

definition expanded_size :: "string list \<Rightarrow> nat" where
  "expanded_size labels = sum_list (map (\<lambda>x. length x + 1) labels) + 1"

lemma card_unseen:
  "p < (n :: nat) \<Longrightarrow> p \<notin> set seen \<Longrightarrow> card ({..<n} - set (p # seen)) < card ({..<n} - set seen)"
  by (rule psubset_card_mono) auto

text \<open>
  \<open>_DNS.name\<close>: \<open>bounds\<close> is the parser's set of positions where a label, pointer or stop was read.
  A position is never visited twice, so the loop ends.
\<close>

function dns_name :: "bytes \<Rightarrow> nat list \<Rightarrow> nat \<Rightarrow> nat option \<Rightarrow> string list \<Rightarrow> nat list \<Rightarrow> nat
    \<Rightarrow> string + ((string list \<times> nat) \<times> nat list)" where
  "dns_name raw bounds position stop labels seen hops =
    (if position \<ge> length raw \<or> position \<in> set seen then Inl ''name_tls_dns_name''
     else let size = raw ! position; seen' = position # seen in
     if size AND 0xC0 = 0xC0 then
       (if position + 1 \<ge> length raw then Inl ''name_tls_dns_pointer''
        else let pointer = nat (push_bit 8 (uint (size AND 63)) OR uint (raw ! (position + 1))) in
        if pointer \<ge> position \<or> pointer \<notin> set bounds \<or> hops \<ge> 8 then Inl ''name_tls_dns_pointer''
        else dns_name raw (position # bounds) pointer
          (case stop of None \<Rightarrow> Some (position + 2) | Some x \<Rightarrow> Some x) labels seen' (hops + 1))
     else if size AND 0xC0 \<noteq> 0 \<or> uint size > 63 \<or> position + 1 + nat (uint size) > length raw
       then Inl ''name_tls_dns_label''
     else let bounds' = position # bounds in
     if size = 0 then Inr ((labels, (case stop of None \<Rightarrow> position + 1 | Some x \<Rightarrow> x)), bounds')
     else let label = slice (position + 1) (position + 1 + nat (uint size)) raw in
       if \<not> list_all label_byte label then Inl ''name_tls_dns_label''
       else let labels' = labels @ [label_text label] in
         if expanded_size labels' > 255 then Inl ''name_tls_dns_expanded_name''
         else dns_name raw bounds' (position + 1 + nat (uint size)) stop labels' seen' hops)"
  by pat_completeness auto
termination
proof (relation "measure (\<lambda>(raw, bounds, position, stop, labels, seen, hops). card ({..<length raw} - set seen))",
    goal_cases)
  case 1
  show ?case by simp
qed (simp_all add: card_unseen del: set_simps card_Diff_insert)

declare dns_name.simps [simp del]

definition parse_name :: "bytes \<Rightarrow> nat list \<Rightarrow> nat \<Rightarrow> string + ((string \<times> nat) \<times> nat list)" where
  "parse_name raw bounds start =
    bindE (dns_name raw bounds start None [] [] 0) (\<lambda>((labels, stop), bounds').
    Inr ((dotted labels, stop), bounds'))"

definition encode_name :: "string list \<Rightarrow> bytes" where
  "encode_name labels = concat (map (\<lambda>p. word_of_int (int (length p)) # ascii p) labels) @ [0]"

section \<open>Messages\<close>

record dns_record =
  rr_section :: string
  rr_name :: string
  rr_type :: int
  rr_class :: int
  rr_ttl :: int
  rr_data :: string

record dns_message =
  transaction_id :: int
  flags :: int
  records :: "dns_record list"

definition ip4_text :: "bytes \<Rightarrow> string" where
  "ip4_text bs = join ''.'' (map (\<lambda>b. show_int (uint b)) bs)"

definition dns_record_at :: "(bytes \<Rightarrow> string) \<Rightarrow> bytes \<Rightarrow> string \<Rightarrow> nat list \<Rightarrow> nat
    \<Rightarrow> string + ((dns_record \<times> nat) \<times> nat list)" where
  "dns_record_at ip6 raw section bounds start =
    bindE (parse_name raw bounds start) (\<lambda>((name, position), bounds1).
    bindE (require (\<not> position + 10 > length raw) ''name_tls_dns_record'') (\<lambda>_.
    let kind = be (slice position (position + 2) raw);
        klass = be (slice (position + 2) (position + 4) raw);
        ttl = be (slice (position + 4) (position + 8) raw);
        len = nat (be (slice (position + 8) (position + 10) raw));
        body = position + 10;
        limit = body + len in
    bindE (require (\<not> (klass \<noteq> 1 \<or> kind \<notin> {1, 2, 5, 28} \<or> limit > length raw)) ''name_tls_dns_record'') (\<lambda>_.
    bindE (if kind \<in> {1, 28} then
        bindE (require (len = (if kind = 1 then 4 else 16)) ''name_tls_dns_address'') (\<lambda>_.
        Inr ((if kind = 1 then ip4_text (slice body limit raw) else ip6 (slice body limit raw)), bounds1))
      else
        bindE (parse_name raw bounds1 body) (\<lambda>((target, consumed), bounds2).
        bindE (require (consumed = limit) ''name_tls_dns_rdata'') (\<lambda>_. Inr (target, bounds2)))) (\<lambda>(data, bounds3).
    Inr ((\<lparr>rr_section = section, rr_name = name, rr_type = kind, rr_class = klass, rr_ttl = ttl,
      rr_data = data\<rparr>, limit), bounds3)))))"

fun dns_records :: "(bytes \<Rightarrow> string) \<Rightarrow> bytes \<Rightarrow> string list \<Rightarrow> nat list \<Rightarrow> nat
    \<Rightarrow> string + (dns_record list \<times> nat)" where
  "dns_records ip6 raw [] bounds position = Inr ([], position)"
| "dns_records ip6 raw (section # sections) bounds position =
    bindE (dns_record_at ip6 raw section bounds position) (\<lambda>((r, next), bounds').
    bindE (dns_records ip6 raw sections bounds' next) (\<lambda>(rs, last). Inr (r # rs, last)))"

definition response_flags :: "int list" where
  "response_flags = [0x8000, 0x8080, 0x8400, 0x8480]"

definition header_word :: "bytes \<Rightarrow> nat \<Rightarrow> int" where
  "header_word raw i = be (slice (2 * i) (2 * i + 2) raw)"

definition record_sections :: "bytes \<Rightarrow> string list" where
  "record_sections raw =
    replicate (nat (header_word raw 3)) ''answer'' @
    replicate (nat (header_word raw 4)) ''authority'' @
    replicate (nat (header_word raw 5)) ''additional''"

definition parse_dns_frame :: "(bytes \<Rightarrow> string) \<Rightarrow> bool \<Rightarrow> bytes \<Rightarrow> string + dns_message" where
  "parse_dns_frame ip6 response frame =
    bindE (require (14 \<le> length frame \<and> int (length frame) \<le> (if response then 4096 else 512) \<and>
      be (take 2 frame) = int (length frame) - 2) ''name_tls_dns_frame'') (\<lambda>_.
    let raw = drop 2 frame; total = header_word raw 3 + header_word raw 4 + header_word raw 5 in
    bindE (require (header_word raw 2 = 1 \<and> total \<le> 8 \<and>
        header_word raw 1 \<in> set (if response then response_flags else [0]) \<and>
        (response \<or> total = 0)) ''name_tls_dns_header'') (\<lambda>_.
    bindE (parse_name raw [] 12) (\<lambda>((name, stop), bounds).
    bindE (require (name = NAME \<and> slice 12 (stop + 4) raw = QUESTION) ''name_tls_dns_question'') (\<lambda>_.
    bindE (dns_records ip6 raw (record_sections raw) bounds (stop + 4)) (\<lambda>(rs, position).
    bindE (require (position = length raw) ''name_tls_dns_trailing'') (\<lambda>_.
    Inr \<lparr>transaction_id = header_word raw 0, flags = header_word raw 1, records = rs\<rparr>))))))"

definition parse_dns_query :: "(bytes \<Rightarrow> string) \<Rightarrow> bytes \<Rightarrow> string + dns_message" where
  "parse_dns_query ip6 raw = parse_dns_frame ip6 False raw"

definition parse_dns_response :: "(bytes \<Rightarrow> string) \<Rightarrow> bytes \<Rightarrow> bytes \<Rightarrow> string + dns_message" where
  "parse_dns_response ip6 raw request =
    bindE (parse_dns_query ip6 request) (\<lambda>query.
    bindE (parse_dns_frame ip6 True raw) (\<lambda>response.
    bindE (require (transaction_id response = transaction_id query) ''name_tls_dns_transaction'') (\<lambda>_.
    Inr response)))"

section \<open>The semantic validator\<close>

definition semantic_label :: "string \<Rightarrow> bool" where
  "semantic_label part \<longleftrightarrow> 1 \<le> length part \<and> length part \<le> 63 \<and>
    list_all (\<lambda>c. is_lower c \<or> is_digit c \<or> c = CHR ''_'' \<or> c = CHR ''-'') part"

definition semantic_name :: "string \<Rightarrow> bool" where
  "semantic_name item \<longleftrightarrow>
    1 \<le> length item \<and> length item \<le> 254 \<and> last item = CHR ''.'' \<and>
    (let labels = split_on (CHR ''.'') (butlast item) in
     list_all semantic_label labels \<and> expanded_size labels \<le> 255)"

definition decimal_octet :: "string \<Rightarrow> bool" where
  "decimal_octet part \<longleftrightarrow> part \<noteq> [] \<and> length part \<le> 3 \<and> list_all is_digit part \<and>
    (length part > 1 \<longrightarrow> hd part \<noteq> CHR ''0'') \<and> read_nat 0 part \<le> 255"

definition is_ip4 :: "string \<Rightarrow> bool" where
  "is_ip4 text \<longleftrightarrow> (let parts = split_on (CHR ''.'') text in length parts = 4 \<and> list_all decimal_octet parts)"

definition ip4_packed :: "string \<Rightarrow> bytes" where
  "ip4_packed text = map (\<lambda>part. word_of_nat (read_nat 0 part)) (split_on (CHR ''.'') text)"

text \<open>
  \<open>ipaddress.ip_address(text)\<close>: its version and \<open>str\<close>. An IPv4 text that parses is its own
  \<open>str\<close>; \<open>parse6\<close> gives the \<open>str\<close> of an IPv6 text.
\<close>

definition ip_address :: "(string \<Rightarrow> string option) \<Rightarrow> string \<Rightarrow> string + (int \<times> string)" where
  "ip_address parse6 text =
    (if is_ip4 text then Inr (4, text)
     else case parse6 text of None \<Rightarrow> Inl ''invalid_ip_address'' | Some t \<Rightarrow> Inr (6, t))"

definition section_index :: "string \<Rightarrow> nat option" where
  "section_index section =
    (if section = ''answer'' then Some 0 else if section = ''authority'' then Some 1
     else if section = ''additional'' then Some 2 else None)"

definition semantic_record :: "(string \<Rightarrow> string option) \<Rightarrow> nat \<Rightarrow> dns_record \<Rightarrow> string + nat" where
  "semantic_record parse6 last_section r =
    bindE (require (section_index (rr_section r) \<noteq> None \<and> rr_type r \<in> {1, 2, 5, 28} \<and> rr_class r = 1 \<and>
        0 \<le> rr_ttl r \<and> rr_ttl r \<le> 0xffffffff) ''name_tls_dns_semantic_record'') (\<lambda>_.
    let current = the (section_index (rr_section r)) in
    bindE (require (\<not> current < last_section) ''name_tls_dns_semantic_order'') (\<lambda>_.
    bindE (require (semantic_name (rr_name r)) ''name_tls_dns_semantic_name'') (\<lambda>_.
    if rr_type r \<in> {1, 28} then
      bindE (ip_address parse6 (rr_data r)) (\<lambda>(ver, text).
      bindE (require (\<not> (ver \<noteq> (if rr_type r = 1 then 4 else 6) \<or> text \<noteq> rr_data r))
        ''name_tls_dns_semantic_address'') (\<lambda>_. Inr current))
    else
      bindE (require (semantic_name (rr_data r)) ''name_tls_dns_semantic_name'') (\<lambda>_. Inr current))))"

fun semantic_records :: "(string \<Rightarrow> string option) \<Rightarrow> nat \<Rightarrow> dns_record list \<Rightarrow> string + unit" where
  "semantic_records parse6 last_section [] = Inr ()"
| "semantic_records parse6 last_section (r # rs) =
    bindE (semantic_record parse6 last_section r) (\<lambda>current. semantic_records parse6 current rs)"

definition validate_dns_semantic :: "(string \<Rightarrow> string option) \<Rightarrow> dns_message \<Rightarrow> string + dns_message" where
  "validate_dns_semantic parse6 m =
    bindE (require (0 \<le> transaction_id m \<and> transaction_id m \<le> 65535 \<and>
        flags m \<in> {0, 0x8000, 0x8080, 0x8400, 0x8480} \<and> length (records m) \<le> 8 \<and>
        \<not> (flags m = 0 \<and> records m \<noteq> [])) ''name_tls_dns_semantic'') (\<lambda>_.
    bindE (semantic_records parse6 0 (records m)) (\<lambda>_. Inr m))"

section \<open>Binding, transformation and exchange\<close>

definition binding_candidate :: "(string \<Rightarrow> string option) \<Rightarrow> dns_message \<Rightarrow> string \<Rightarrow> string \<Rightarrow> string + bool" where
  "binding_candidate parse6 m configuration case_id =
    bindE (selection configuration case_id) (\<lambda>row.
    bindE (validate_dns_semantic parse6 m) (\<lambda>s.
    Inr (flags s \<in> {0x8400, 0x8480} \<and>
      records s = [\<lparr>rr_section = ''answer'', rr_name = NAME, rr_type = 1, rr_class = 1,
        rr_ttl = (if case_id = ''N14'' then 1 else 60), rr_data = web_host row\<rparr>])))"

definition wire_record :: "bytes \<Rightarrow> int \<Rightarrow> bytes \<Rightarrow> bytes" where
  "wire_record owner kind data =
    owner @ to_be 2 kind @ to_be 2 1 @ to_be 4 60 @ to_be 2 (int (length data)) @ data"

definition transformed_body :: "lab_row \<Rightarrow> string \<Rightarrow> bool \<Rightarrow> int list \<times> bytes" where
  "transformed_body row case_id second_observation =
    (if case_id = ''N6'' then
       (let ns = encode_name [''ns'', ''harbordesk'', ''test''] in
        ([0x8000, 1, 0, 1, 1], wire_record [0xC0, 0x0C] 2 ns @ wire_record ns 1 (ip4_packed (decoy_host row))))
     else if case_id = ''N7'' then
       ([0x8400, 1, 1, 0, 0], wire_record [0xC0, 0x0C] 28
         [0x20, 1, 0x0d, 0xb8, 0, 0, 0, 0, 0, 0, 0, 0, 0, 0, 0, 0x99])
     else ([0x8400, 1, 1, 0, 0], wire_record [0xC0, 0x0C] 1
       (ip4_packed (if second_observation then decoy_host row else web_host row))))"

definition transformed_frame :: "lab_row \<Rightarrow> string \<Rightarrow> bool \<Rightarrow> int \<Rightarrow> bytes" where
  "transformed_frame row case_id second_observation tid =
    (let (counts, recs) = transformed_body row case_id second_observation;
         raw = to_be 2 tid @ concat (map (to_be 2) counts) @ QUESTION @ recs;
         frame = to_be 2 (int (length raw)) @ raw in
     if case_id = ''N8'' then butlast frame else frame)"

definition transformed_dns_response :: "(bytes \<Rightarrow> string) \<Rightarrow> string \<Rightarrow> string \<Rightarrow> bytes \<Rightarrow> bytes \<Rightarrow> bool
    \<Rightarrow> string + bytes" where
  "transformed_dns_response ip6 configuration case_id request original second_observation =
    bindE (selection configuration case_id) (\<lambda>row.
    bindE (parse_dns_query ip6 request) (\<lambda>query.
    bindE (parse_dns_response ip6 original request) (\<lambda>_.
    bindE (require (\<not> (second_observation \<and> case_id \<noteq> ''N1'')) ''name_tls_dns_driver'') (\<lambda>_.
    if case_id \<notin> {''N6'', ''N7'', ''N8''} \<and> \<not> second_observation then Inr original
    else Inr (transformed_frame row case_id second_observation (transaction_id query))))))"

record dns_exchange =
  ex_request :: dns_message
  ex_original :: dns_message
  ex_delivered :: dns_message
  ex_binding :: bool
  ex_digests :: "string list"

definition parse_dns_exchange :: "(bytes \<Rightarrow> string) \<Rightarrow> (string \<Rightarrow> string option) \<Rightarrow> (bytes \<Rightarrow> string)
    \<Rightarrow> bytes \<Rightarrow> bytes \<Rightarrow> bytes \<Rightarrow> string \<Rightarrow> string \<Rightarrow> string + dns_exchange" where
  "parse_dns_exchange ip6 parse6 H request original delivered configuration case_id =
    bindE (selection configuration case_id) (\<lambda>_.
    bindE (parse_dns_query ip6 request) (\<lambda>query.
    bindE (parse_dns_response ip6 original request) (\<lambda>first.
    bindE (parse_dns_response ip6 delivered request) (\<lambda>second.
    bindE (if original \<noteq> delivered \<or> case_id \<in> {''N6'', ''N7''} then
        bindE (transformed_dns_response ip6 configuration case_id request original (case_id = ''N1'')) (\<lambda>expected.
        require (delivered = expected) ''name_tls_dns_transformation'')
      else Inr ()) (\<lambda>_.
    bindE (binding_candidate parse6 second configuration case_id) (\<lambda>candidate.
    Inr \<lparr>ex_request = query, ex_original = first, ex_delivered = second, ex_binding = candidate,
      ex_digests = [H request, H original, H delivered]\<rparr>))))))"

definition http_request :: "string \<Rightarrow> string \<Rightarrow> string + bytes" where
  "http_request configuration case_id =
    bindE (selection configuration case_id) (\<lambda>row.
    Inr (ascii (''GET '' @ http_path row @ '' HTTP/1.1'' @ [CHR 0x0D, CHR 0x0A] @
      ''Host: harbordesk.test:'' @ show_int (http_port row) @ [CHR 0x0D, CHR 0x0A] @
      ''Connection: close'' @ [CHR 0x0D, CHR 0x0A, CHR 0x0D, CHR 0x0A])))"

end
