(* ===== verification/DnsProps.thy ===== *)
theory DnsProps
  imports DnsWire
begin

text \<open>
  Name decompression ends, makes progress and only yields labels the semantic validator knows;
  encoding a name and parsing it gives the name back; the parser's messages pass the validator
  except for the root name; the laboratory's rewritten answers are well-formed responses.
\<close>

section \<open>What an accepted name looks like\<close>

lemma label_byte_text:
  assumes "label_byte b"
  shows "is_lower (lower_char (char_of (unat b))) \<or> is_digit (lower_char (char_of (unat b))) \<or>
    lower_char (char_of (unat b)) = CHR ''_'' \<or> lower_char (char_of (unat b)) = CHR ''-''"
proof -
  let ?c = "char_of (unat b) :: char"
  have "is_lower (char_of (of_char ?c + (32 :: nat)))" if "is_upper ?c"
  proof -
    have "(of_char ?c :: nat) \<in> {65..90}"
      using that by (simp add: is_upper_def less_eq_char_def)
    then show ?thesis by (simp add: is_lower_def less_eq_char_def)
  qed
  with assms show ?thesis
    by (auto simp: label_byte_def lower_char_def is_alnum_def Let_def)
qed

lemma semantic_label_text:
  assumes "list_all label_byte label" "label \<noteq> []" "length label \<le> 63"
  shows "semantic_label (label_text label)"
  using assms label_byte_text
  by (auto simp: semantic_label_def label_text_def text_of_def list_all_iff Suc_le_eq)

lemma expanded_size_append: "expanded_size (xs @ ys) = expanded_size xs + expanded_size ys - 1"
  by (simp add: expanded_size_def)

lemma dns_name_sound:
  "dns_name raw bounds position stop labels seen hops = Inr ((ls, e), bounds') \<Longrightarrow>
    list_all semantic_label labels \<Longrightarrow> expanded_size labels \<le> 255 \<Longrightarrow>
    list_all semantic_label ls \<and> expanded_size ls \<le> 255 \<and> set bounds \<subseteq> set bounds' \<and>
    (case stop of None \<Rightarrow> position < e \<and> e \<le> length raw | Some x \<Rightarrow> e = x)"
proof (induction raw bounds position stop labels seen hops rule: dns_name.induct)
  case (1 raw bounds position stop labels seen hops)
  let ?size = "raw ! position"
  let ?n = "nat (uint ?size)"
  let ?label = "slice (position + 1) (position + 1 + ?n) raw"
  let ?pointer = "nat (push_bit 8 (uint (?size AND 63)) OR uint (raw ! (position + 1)))"
  have pos: "\<not> (position \<ge> length raw \<or> position \<in> set seen)"
    using 1(3) by (subst (asm) dns_name.simps) (auto split: if_splits)
  note run = 1(3) [unfolded dns_name.simps [of raw bounds position] Let_def]
  show ?case
  proof (cases "?size AND 0xC0 = 0xC0")
    case True
    with run pos have guard: "\<not> position + 1 \<ge> length raw"
        "\<not> (?pointer \<ge> position \<or> ?pointer \<notin> set bounds \<or> hops \<ge> 8)"
      and next_run: "dns_name raw (position # bounds) ?pointer
          (case stop of None \<Rightarrow> Some (position + 2) | Some x \<Rightarrow> Some x) labels (position # seen) (hops + 1)
          = Inr ((ls, e), bounds')" by (auto split: if_splits)
    show ?thesis
      using 1(1) [OF pos refl refl True guard(1) refl guard(2) next_run 1(4,5)] guard(1)
      by (auto split: option.splits)
  next
    case ptr: False
    with run pos have guard: "\<not> (?size AND 0xC0 \<noteq> 0 \<or> uint ?size > 63 \<or> position + 1 + ?n > length raw)"
      by (auto split: if_splits)
    show ?thesis
    proof (cases "?size = 0")
      case True
      with run pos ptr guard have "ls = labels" "set bounds' = insert position (set bounds)"
        "e = (case stop of None \<Rightarrow> position + 1 | Some x \<Rightarrow> x)" by (auto split: if_splits)
      with 1(4,5) pos show ?thesis by (auto split: option.splits)
    next
      case False
      with run pos ptr guard have ok: "\<not> \<not> list_all label_byte ?label"
          "\<not> expanded_size (labels @ [label_text ?label]) > 255"
        and next_run: "dns_name raw (position # bounds) (position + 1 + ?n) stop
          (labels @ [label_text ?label]) (position # seen) hops = Inr ((ls, e), bounds')"
        by (auto split: if_splits)
      have "?n \<noteq> 0" using False by (simp add: nat_eq_iff2 unsigned_eq_0_iff)
      moreover have "?n \<le> 63" using guard by (simp only: nat_le_iff) simp
      ultimately have len: "length ?label = ?n" "?label \<noteq> []" "length ?label \<le> 63"
        using guard by (auto simp flip: length_greater_0_conv)
      with ok have "list_all semantic_label (labels @ [label_text ?label])"
        using 1(4) semantic_label_text [of ?label] by simp
      from 1(2) [OF pos refl refl ptr guard refl False refl ok(1) refl ok(2) next_run this] ok(2)
      show ?thesis by (auto split: option.splits)
    qed
  qed
qed


lemma parse_name_sound:
  assumes "parse_name raw bounds start = Inr ((name, stop), bounds')"
  obtains ls where "name = dotted ls" "list_all semantic_label ls" "expanded_size ls \<le> 255"
    "start < stop" "stop \<le> length raw"
proof -
  from assms obtain ls where "dns_name raw bounds start None [] [] 0 = Inr ((ls, stop), bounds')" "name = dotted ls"
    by (auto simp: parse_name_def res_simps)
  with dns_name_sound [of raw bounds start None "[]" "[]" 0 ls stop bounds'] that show thesis
    by (simp add: expanded_size_def)
qed

section \<open>Encoding and parsing\<close>

lemma lower_char_semantic:
  "is_lower c \<or> is_digit c \<or> c = CHR ''_'' \<or> c = CHR ''-'' \<Longrightarrow> lower_char c = c"
  by (auto simp: lower_char_def is_upper_def is_lower_def is_digit_def less_eq_char_def)

lemma label_text_ascii:
  assumes "semantic_label p"
  shows "list_all label_byte (ascii p)" "label_text (ascii p) = p"
proof -
  have ok: "\<forall>c \<in> set p. is_lower c \<or> is_digit c \<or> c = CHR ''_'' \<or> c = CHR ''-''"
    using assms by (simp add: semantic_label_def list_all_iff)
  then show "list_all label_byte (ascii p)"
    by (auto simp: list_all_iff ascii_def label_byte_def Let_def unat_of_char is_alnum_def)
  show "label_text (ascii p) = p"
    using ok by (simp add: label_text_def lower_char_semantic map_idI)
qed

lemma small_byte:
  assumes "n \<le> 63"
  shows "uint (word_of_int (int n) :: byte) = int n" "(word_of_int (int n) :: byte) AND 0xC0 = 0"
proof -
  show u: "uint (word_of_int (int n) :: byte) = int n"
    by (simp only: uint_of_int_byte) (use assms in simp)
  have "uint ((word_of_int (int n) :: byte) AND 0xC0) = int n AND 0xC0"
    by (simp only: uint_and u) simp
  also have "int n AND 0xC0 = 0"
  proof -
    have "take_bit 6 (int n) = int n" using assms by (simp add: take_bit_int_eq_self_iff)
    then have "int n AND 0xC0 = int n AND (mask 6 AND 0xC0)"
      by (metis and.assoc take_bit_eq_mask)
    also have "(mask 6 AND 0xC0 :: int) = 0" by (simp add: mask_eq_exp_minus_1)
    finally show ?thesis by simp
  qed
  finally show "(word_of_int (int n) :: byte) AND 0xC0 = 0" by (simp add: unsigned_eq_0_iff)
qed

lemma encode_name_Cons:
  "encode_name (p # ps) = word_of_int (int (length p)) # ascii p @ encode_name ps"
  by (simp add: encode_name_def)

lemma dns_name_encode:
  "list_all semantic_label ps \<Longrightarrow> expanded_size (acc @ ps) \<le> 255 \<Longrightarrow> \<forall>s \<in> set seen. s < length pre \<Longrightarrow>
    \<exists>bs. dns_name (pre @ encode_name ps @ post) bounds (length pre) None acc seen hops =
      Inr ((acc @ ps, length pre + length (encode_name ps)), bs)"
proof (induction ps arbitrary: pre acc seen bounds)
  case Nil
  then show ?case by (subst dns_name.simps) (auto simp: encode_name_def Let_def nth_append)
next
  case (Cons p ps)
  let ?raw = "pre @ encode_name (p # ps) @ post"
  let ?pre' = "pre @ word_of_int (int (length p)) # ascii p"
  have p: "semantic_label p" "length p \<le> 63" "length p \<noteq> 0"
    using Cons.prems(1) by (auto simp: semantic_label_def)
  note byte = small_byte [OF p(2)]
  have raw: "?raw = ?pre' @ encode_name ps @ post" by (simp add: encode_name_Cons)
  have at: "?raw ! length pre = word_of_int (int (length p))" by (simp add: encode_name_Cons nth_append)
  have label: "slice (length pre + 1) (length pre + 1 + length p) ?raw = ascii p"
    by (simp add: slice_def encode_name_Cons)
  have nz: "(word_of_int (int (length p)) :: byte) \<noteq> 0" using byte(1) p(3) by auto
  have "expanded_size (acc @ [p]) \<le> 255"
    using Cons.prems(2) by (simp add: expanded_size_def)
  then have "dns_name ?raw bounds (length pre) None acc seen hops =
      dns_name ?raw (length pre # bounds) (length pre + 1 + length p) None (acc @ [p]) (length pre # seen) hops"
    using Cons.prems(3) byte p(2) nz label label_text_ascii [OF p(1)]
    by (subst dns_name.simps) (auto simp: at Let_def encode_name_Cons simp del: of_int_of_nat_eq)
  moreover have "\<exists>bs. dns_name (?pre' @ encode_name ps @ post) (length pre # bounds) (length ?pre') None (acc @ [p])
      (length pre # seen) hops = Inr (((acc @ [p]) @ ps, length ?pre' + length (encode_name ps)), bs)"
    by (rule Cons.IH) (use Cons.prems in auto)
  ultimately show ?case by (simp add: raw encode_name_Cons add.assoc)
qed

text \<open>Parsing an encoded name anywhere in a message gives the name back and stops right behind it.\<close>

theorem parse_encode_name:
  assumes "list_all semantic_label ps" and "expanded_size ps \<le> 255"
  shows "\<exists>bs. parse_name (pre @ encode_name ps @ post) bounds (length pre) =
    Inr ((dotted ps, length pre + length (encode_name ps)), bs)"
  using dns_name_encode [OF assms(1), of "[]" "[]" pre post bounds 0] assms(2)
  by (auto simp: parse_name_def)

theorem parse_encode_name_witness:
  "\<exists>bs. parse_name ([1, 2] @ encode_name [''ns'', ''lab''] @ [9]) [] 2 =
    Inr ((''ns.lab.'', 2 + length (encode_name [''ns'', ''lab''])), bs)"
proof -
  have "list_all semantic_label [''ns'', ''lab'']" "expanded_size [''ns'', ''lab''] \<le> 255"
    by code_simp+
  from parse_encode_name [OF this, of "[1, 2]" "[9]" "[]"] show ?thesis
    by (simp add: dotted_def numeral_2_eq_2)
qed

section \<open>The parser and the validator agree\<close>

lemma semantic_label_no_dot: "semantic_label p \<Longrightarrow> CHR ''.'' \<notin> set p"
  by (auto simp: semantic_label_def list_all_iff is_lower_def is_digit_def less_eq_char_def)

lemma split_join:
  "list_all semantic_label ls \<Longrightarrow> ls \<noteq> [] \<Longrightarrow> split_on (CHR ''.'') (join ''.'' ls) = ls"
proof (induction ls)
  case (Cons p ls)
  have "CHR ''.'' \<notin> set p" using Cons.prems(1) semantic_label_no_dot by simp
  with Cons show ?case
    by (cases ls) (simp_all add: split_on_word split_on_cons)
qed simp

lemma length_join: "length (join ''.'' ls) = sum_list (map (\<lambda>x. length x + 1) ls) - 1"
proof (induction ls)
  case (Cons p ls)
  then show ?case by (cases ls) simp_all
qed simp

lemma semantic_name_dotted:
  assumes "list_all semantic_label ls" "expanded_size ls \<le> 255" "ls \<noteq> []"
  shows "semantic_name (dotted ls)"
proof -
  have "length (dotted ls) = sum_list (map (\<lambda>x. length x + 1) ls)"
    using assms(3) by (cases ls) (simp_all add: dotted_def length_join)
  with assms show ?thesis
    by (simp add: semantic_name_def dotted_def split_join Let_def expanded_size_def)
qed

lemma dotted_root: "dotted ls = ''.'' \<longleftrightarrow> ls = [] \<or> ls = [[]]"
proof (cases ls)
  case (Cons p ps)
  then show ?thesis by (cases ps) (auto simp: dotted_def)
qed (simp add: dotted_def)

lemma parsed_name_semantic:
  assumes "parse_name raw bounds start = Inr ((name, stop), bounds')" "name \<noteq> ''.''"
  shows "semantic_name name"
  using assms by (auto elim!: parse_name_sound intro!: semantic_name_dotted simp: dotted_def)

lemma octet_text: "decimal_octet (show_int (uint (b :: byte)))"
proof -
  let ?i = "uint b"
  have i: "0 \<le> ?i" "?i < 256" using uint_byte_lt [of b] by auto
  have "length (show_pos ?i) \<le> 3"
    using i by (subst show_pos.simps) (auto simp: show_pos.simps [of "?i div 10"] show_pos.simps [of "?i div 10 div 10"])
  moreover have "hd (show_pos ?i) \<noteq> CHR ''0''" if "length (show_pos ?i) > 1"
  proof -
    have digit: "digit_char (nat k) \<noteq> CHR ''0''" if "0 < k" "k < 10" for k
      using that of_digit_char [of "nat k"] by (auto simp: nat_less_iff)
    have "10 \<le> ?i" using that by (subst (asm) show_pos.simps) (auto split: if_splits)
    then show ?thesis
      using i digit [of "?i div 10"] digit [of "?i div 100"]
      by (auto simp: show_pos.simps [of ?i] show_pos.simps [of "?i div 10"] show_pos.simps [of "?i div 10 div 10"]
          show_pos.simps [of "?i div 100"] show_pos_nonempty zdiv_zmult2_eq [symmetric] simp del: zdiv_zmult2_eq)
  qed
  ultimately show ?thesis
    using i show_pos_digits [of ?i] read_show_pos [of ?i] nat_le_iff [of ?i 255]
    by (simp add: decimal_octet_def show_int_def show_pos_nonempty list_all_iff)
qed

lemma ip4_text_is_ip4:
  assumes "length bs = 4"
  shows "is_ip4 (ip4_text bs)"
proof -
  have no_dot: "CHR ''.'' \<notin> set (show_int (uint (b :: byte)))" for b
    using octet_text [of b] by (auto simp: decimal_octet_def list_all_iff is_digit_def less_eq_char_def)
  obtain a b c d where "bs = [a, b, c, d]"
    using assms by (auto simp: length_Suc_conv numeral_eq_Suc)
  then show ?thesis
    using no_dot octet_text by (simp add: is_ip4_def ip4_text_def split_on_word split_on_cons Let_def)
qed

definition parsed_record :: "(bytes \<Rightarrow> string) \<Rightarrow> dns_record \<Rightarrow> bool" where
  "parsed_record ip6 r \<longleftrightarrow> rr_type r \<in> {1, 2, 5, 28} \<and> rr_class r = 1 \<and> 0 \<le> rr_ttl r \<and> rr_ttl r \<le> 0xffffffff \<and>
    (rr_name r = ''.'' \<or> semantic_name (rr_name r)) \<and>
    (rr_type r = 1 \<longrightarrow> is_ip4 (rr_data r)) \<and>
    (rr_type r = 28 \<longrightarrow> (\<exists>bs. length bs = 16 \<and> rr_data r = ip6 bs)) \<and>
    (rr_type r \<in> {2, 5} \<longrightarrow> rr_data r = ''.'' \<or> semantic_name (rr_data r))"

lemma be_slice_bound: "be (slice a b raw) < 256 ^ (b - a)"
proof -
  have "be (slice a b raw) < 256 ^ length (slice a b raw)" by (rule be_upper)
  also have "\<dots> \<le> (256 :: int) ^ (b - a)" by (rule power_increasing) simp_all
  finally show ?thesis .
qed

lemma dns_record_at_parsed:
  assumes "dns_record_at ip6 raw section bounds start = Inr ((r, next), bounds')"
  shows "parsed_record ip6 r \<and> rr_section r = section \<and> next \<le> length raw"
proof -
  from assms obtain name position bounds1 data bounds3 where
    name: "parse_name raw bounds start = Inr ((name, position), bounds1)"
    and kind: "be (slice position (position + 2) raw) \<in> {1, 2, 5, 28}"
    and klass: "be (slice (position + 2) (position + 4) raw) = 1"
    and limit: "\<not> position + 10 + nat (be (slice (position + 8) (position + 10) raw)) > length raw"
    and data: "(if be (slice position (position + 2) raw) \<in> {1, 28} then
        bindE (require (nat (be (slice (position + 8) (position + 10) raw)) =
          (if be (slice position (position + 2) raw) = 1 then 4 else 16)) ''name_tls_dns_address'') (\<lambda>_.
        Inr ((if be (slice position (position + 2) raw) = 1
          then ip4_text (slice (position + 10) (position + 10 + nat (be (slice (position + 8) (position + 10) raw))) raw)
          else ip6 (slice (position + 10) (position + 10 + nat (be (slice (position + 8) (position + 10) raw))) raw)), bounds1))
      else
        bindE (parse_name raw bounds1 (position + 10)) (\<lambda>((target, consumed), bounds2).
        bindE (require (consumed = position + 10 + nat (be (slice (position + 8) (position + 10) raw)))
          ''name_tls_dns_rdata'') (\<lambda>_. Inr (target, bounds2)))) = Inr (data, bounds3)"
    and r: "r = \<lparr>rr_section = section, rr_name = name, rr_type = be (slice position (position + 2) raw),
      rr_class = be (slice (position + 2) (position + 4) raw), rr_ttl = be (slice (position + 4) (position + 8) raw),
      rr_data = data\<rparr>"
    and "next": "next = position + 10 + nat (be (slice (position + 8) (position + 10) raw))"
    by (auto simp: dns_record_at_def Let_def res_simps)
  have ttl: "0 \<le> rr_ttl r" "rr_ttl r \<le> 0xffffffff"
    using be_slice_bound [of "position + 4" "position + 8" raw] be_nonneg r by simp_all
  have rname: "rr_name r = ''.'' \<or> semantic_name (rr_name r)"
    using parsed_name_semantic [OF name] r by auto
  have "(rr_type r = 1 \<longrightarrow> is_ip4 (rr_data r)) \<and>
    (rr_type r = 28 \<longrightarrow> (\<exists>bs. length bs = 16 \<and> rr_data r = ip6 bs)) \<and>
    (rr_type r \<in> {2, 5} \<longrightarrow> rr_data r = ''.'' \<or> semantic_name (rr_data r))"
  proof (cases "rr_type r \<in> {1, 28}")
    case True
    let ?n = "nat (be (slice (position + 8) (position + 10) raw))"
    have n: "?n = (if rr_type r = 1 then 4 else 16)"
      and d: "data = (if rr_type r = 1 then ip4_text (slice (position + 10) (position + 10 + ?n) raw)
        else ip6 (slice (position + 10) (position + 10 + ?n) raw))"
      using data True r by (auto simp: res_simps)
    define body where "body = slice (position + 10) (position + 10 + ?n) raw"
    have "length body = (if rr_type r = 1 then 4 else 16)"
      using limit n unfolding body_def by (auto split: if_splits)
    moreover have "rr_data r = (if rr_type r = 1 then ip4_text body else ip6 body)"
      using d r unfolding body_def by simp
    ultimately show ?thesis using True ip4_text_is_ip4 [of body] by auto
  next
    case False
    then have "\<exists>consumed bounds2. parse_name raw bounds1 (position + 10) = Inr ((data, consumed), bounds2)"
      using data r by (auto simp: res_simps)
    then have "data = ''.'' \<or> semantic_name data" using parsed_name_semantic by blast
    with False r show ?thesis by auto
  qed
  moreover have "rr_type r \<in> {1, 2, 5, 28}" "rr_class r = 1" "rr_section r = section"
    using kind klass r by simp_all
  moreover have "next \<le> length raw" using limit "next" by linarith
  ultimately show ?thesis using ttl rname unfolding parsed_record_def by blast
qed

lemma dns_records_parsed:
  "dns_records ip6 raw secs bounds position = Inr (rs, stop) \<Longrightarrow>
    map rr_section rs = secs \<and> list_all (parsed_record ip6) rs"
proof (induction secs arbitrary: bounds position rs)
  case (Cons s secs)
  then obtain r "next" bounds' rs' where
    "dns_record_at ip6 raw s bounds position = Inr ((r, next), bounds')"
    "dns_records ip6 raw secs bounds' next = Inr (rs', stop)" "rs = r # rs'"
    by (auto simp: res_simps)
  with Cons.IH [OF this(2)] dns_record_at_parsed [OF this(1)] show ?case by auto
qed simp

definition no_root :: "dns_record \<Rightarrow> bool" where
  "no_root r \<longleftrightarrow> rr_name r \<noteq> ''.'' \<and> (rr_type r \<in> {2, 5} \<longrightarrow> rr_data r \<noteq> ''.'')"

definition canonical6 :: "(bytes \<Rightarrow> string) \<Rightarrow> (string \<Rightarrow> string option) \<Rightarrow> bool" where
  "canonical6 ip6 parse6 \<longleftrightarrow>
    (\<forall>bs. length bs = 16 \<longrightarrow> parse6 (ip6 bs) = Some (ip6 bs) \<and> \<not> is_ip4 (ip6 bs))"

lemma semantic_record_parsed:
  assumes "canonical6 ip6 parse6" "parsed_record ip6 r" "no_root r"
    and "section_index (rr_section r) = Some i" "last_section \<le> i"
  shows "semantic_record parse6 last_section r = Inr i"
proof (cases "rr_type r \<in> {1, 28}")
  case True
  then show ?thesis
    using assms by (auto simp: semantic_record_def parsed_record_def no_root_def canonical6_def ip_address_def)
next
  case False
  then show ?thesis
    using assms by (auto simp: semantic_record_def parsed_record_def no_root_def)
qed

lemma semantic_records_parsed:
  assumes "canonical6 ip6 parse6"
  shows "list_all (parsed_record ip6) rs \<Longrightarrow> list_all no_root rs \<Longrightarrow>
    map (\<lambda>x. section_index (rr_section x)) rs = map Some ks \<Longrightarrow> sorted (last_section # ks) \<Longrightarrow>
    semantic_records parse6 last_section rs = Inr ()"
proof (induction rs arbitrary: last_section ks)
  case (Cons r rs)
  then obtain i js where "ks = i # js" "section_index (rr_section r) = Some i"
    "map (\<lambda>x. section_index (rr_section x)) rs = map Some js" by (cases ks) auto
  with Cons show ?case
    using semantic_record_parsed [OF assms, of r i last_section] by simp
qed simp

lemma parse_dns_frame_parts:
  assumes "parse_dns_frame ip6 response frame = Inr m"
  obtains an ns ar where "map rr_section (records m) =
      replicate an ''answer'' @ replicate ns ''authority'' @ replicate ar ''additional''"
    "an + ns + ar \<le> 8" "list_all (parsed_record ip6) (records m)"
    "0 \<le> transaction_id m" "transaction_id m \<le> 65535"
    "flags m \<in> set (if response then response_flags else [0])" "\<not> response \<longrightarrow> an + ns + ar = 0"
proof -
  define w where "w = header_word (drop 2 frame)"
  from assms obtain bounds start position where
    head: "w 3 + w 4 + w 5 \<le> 8" "w 1 \<in> set (if response then response_flags else [0])"
      "response \<or> w 3 + w 4 + w 5 = 0"
    and recs: "dns_records ip6 (drop 2 frame) (record_sections (drop 2 frame)) bounds start = Inr (records m, position)"
    and m: "transaction_id m = w 0" "flags m = w 1"
    unfolding w_def by (auto simp: parse_dns_frame_def Let_def res_simps)
  have nn: "0 \<le> w i" "w i < 65536" for i
    using be_nonneg be_slice_bound [of "2 * i" "2 * i + 2" "drop 2 frame"] by (simp_all add: w_def header_word_def)
  then have "transaction_id m \<le> 65535" "0 \<le> transaction_id m" using m(1) nn [of 0] by linarith+
  moreover have "int (nat (w 3) + nat (w 4) + nat (w 5)) = w 3 + w 4 + w 5"
    using nn by simp
  then have "nat (w 3) + nat (w 4) + nat (w 5) \<le> 8"
    "\<not> response \<longrightarrow> nat (w 3) + nat (w 4) + nat (w 5) = 0"
    using head by linarith+
  moreover have "map rr_section (records m) = replicate (nat (w 3)) ''answer'' @
      replicate (nat (w 4)) ''authority'' @ replicate (nat (w 5)) ''additional''"
    "list_all (parsed_record ip6) (records m)"
    using dns_records_parsed [OF recs] by (simp_all add: record_sections_def w_def)
  ultimately show thesis
    using that [of "nat (w 3)" "nat (w 4)" "nat (w 5)"] head(2) m(2) by simp
qed

text \<open>C36: every message the frame parser returns is accepted unchanged by the semantic validator,
  unless a record's owner or target is the root name, which the parser alone admits.\<close>

theorem parsed_message_validates:
  assumes "parse_dns_frame ip6 response frame = Inr m"
    and "canonical6 ip6 parse6" and "list_all no_root (records m)"
  shows "validate_dns_semantic parse6 m = Inr m"
proof -
  from parse_dns_frame_parts [OF assms(1)] obtain an ns ar where
    secs: "map rr_section (records m) =
      replicate an ''answer'' @ replicate ns ''authority'' @ replicate ar ''additional''"
    and n: "an + ns + ar \<le> 8" and rs: "list_all (parsed_record ip6) (records m)"
    and tid: "0 \<le> transaction_id m" "transaction_id m \<le> 65535"
    and fl: "flags m \<in> set (if response then response_flags else [0])" "\<not> response \<longrightarrow> an + ns + ar = 0" .
  have "map (\<lambda>x. section_index (rr_section x)) (records m) =
      map section_index (map rr_section (records m))" by simp
  also have "\<dots> = map Some (replicate an 0 @ replicate ns 1 @ replicate ar (2 :: nat))"
    unfolding secs by (simp add: section_index_def)
  finally have "semantic_records parse6 0 (records m) = Inr ()"
    by (rule semantic_records_parsed [OF assms(2) rs assms(3)]) (auto simp: sorted_append)
  moreover have "length (records m) = an + ns + ar"
    using arg_cong [OF secs, of length] by simp
  moreover have "flags m \<in> {0, 0x8000, 0x8080, 0x8400, 0x8480}" "flags m = 0 \<longrightarrow> records m = []"
    using fl \<open>length (records m) = an + ns + ar\<close>
    by (auto simp: response_flags_def split: if_splits)
  ultimately show ?thesis using n tid by (simp add: validate_dns_semantic_def)
qed

definition demo_row :: lab_row where
  "demo_row = the (ROWS ''A'')"

definition demo_ip6 :: "bytes \<Rightarrow> string" where
  "demo_ip6 bs = ''2001:db8::99''"

theorem parsed_message_validates_witness:
  "validate_dns_semantic Some (projr (parse_dns_frame demo_ip6 True (transformed_frame demo_row ''N6'' False 4660))) =
    parse_dns_frame demo_ip6 True (transformed_frame demo_row ''N6'' False 4660)"
proof -
  let ?m = "projr (parse_dns_frame demo_ip6 True (transformed_frame demo_row ''N6'' False 4660))"
  have run: "parse_dns_frame demo_ip6 True (transformed_frame demo_row ''N6'' False 4660) = Inr ?m"
    by code_simp
  have "canonical6 demo_ip6 Some" unfolding canonical6_def demo_ip6_def
    by (simp add: is_ip4_def Let_def)
  moreover have "list_all no_root (records ?m)" by code_simp
  ultimately show ?thesis using parsed_message_validates [OF run] run by simp
qed

text \<open>A response whose only record delegates to the root: the parser returns it, the validator refuses it.\<close>

definition root_target_frame :: bytes where
  "root_target_frame =
    (let raw = to_be 2 7 @ concat (map (to_be 2) [0x8400, 1, 1, 0, 0]) @ QUESTION @ wire_record [0xC0, 0x0C] 2 [0] in
     to_be 2 (int (length raw)) @ raw)"

text \<open>The root name separates the two checks: a frame the parser accepts holds a target that the
  validator, and with it the binding check of the same exchange, refuses.\<close>

lemma root_target_divergence:
  "\<exists>m. parse_dns_frame ip6 True root_target_frame = Inr m \<and>
    validate_dns_semantic parse6 m = Inl ''name_tls_dns_semantic_name''"
proof -
  let ?r = "\<lparr>rr_section = ''answer'', rr_name = NAME, rr_type = 2, rr_class = 1, rr_ttl = 60, rr_data = ''.''\<rparr>"
  let ?m = "\<lparr>transaction_id = 7, flags = 0x8400, records = [?r]\<rparr>"
  have "parse_dns_frame ip6 True root_target_frame = Inr ?m" by code_simp
  moreover have "semantic_record parse6 0 ?r = Inl ''name_tls_dns_semantic_name''"
    by (simp add: semantic_record_def section_index_def NAME_def semantic_name_def semantic_label_def
        expanded_size_def Let_def is_lower_def is_digit_def less_eq_char_def)
  then have "validate_dns_semantic parse6 ?m = Inl ''name_tls_dns_semantic_name''"
    by (simp add: validate_dns_semantic_def)
  ultimately show ?thesis by blast
qed

end
