(* ===== verification/TlsWire.thy ===== *)
theory TlsWire
  imports DnsWire
begin

text \<open>
  \<open>secure_agent/tls_posture_hello.py\<close> and the TLS half of \<open>secure_agent/name_tls_wire.py\<close>:
  the bounded reader, the two closed ClientHello grammars, the ServerHello check, record framing
  and the directional record-order check. The reader's state is the rest of its input.
  Extension tables are association lists in arrival order without repeated keys.
\<close>

section \<open>The reader\<close>

definition take_n :: "nat \<Rightarrow> bytes \<Rightarrow> string + (bytes \<times> bytes)" where
  "take_n n raw = (if n > length raw then Inl ''tls_posture_client_hello_length''
    else Inr (take n raw, drop n raw))"

definition vector :: "nat \<Rightarrow> bytes \<Rightarrow> string + (bytes \<times> bytes)" where
  "vector width raw = bindE (take_n width raw) (\<lambda>(len, rest). take_n (nat (be len)) rest)"

definition done_reading :: "bytes \<Rightarrow> string + unit" where
  "done_reading rest = require (rest = []) ''tls_posture_client_hello_trailing''"

text \<open>\<open>_Reader(raw)\<close>, one vector, then \<open>done()\<close>.\<close>

definition whole_vector :: "nat \<Rightarrow> bytes \<Rightarrow> string + bytes" where
  "whole_vector width raw = bindE (vector width raw) (\<lambda>(v, rest). bindE (done_reading rest) (\<lambda>_. Inr v))"

lemma take_n_Inr [res_simps]: "take_n n raw = Inr (a, r) \<longleftrightarrow> n \<le> length raw \<and> a = take n raw \<and> r = drop n raw"
  by (auto simp: take_n_def)

lemma vector_shrinks: "vector w raw = Inr (v, rest) \<Longrightarrow> length rest + w \<le> length raw"
  by (auto simp: vector_def res_simps)

type_synonym extensions = "(int \<times> bytes) list"

function read_extensions :: "int set \<Rightarrow> string \<Rightarrow> extensions \<Rightarrow> bytes \<Rightarrow> string + extensions" where
  "read_extensions allowed err acc raw =
    (if raw = [] then Inr acc
     else case take_n 2 raw of
       Inl e \<Rightarrow> Inl e
     | Inr (k, r1) \<Rightarrow>
        (case vector 2 r1 of
           Inl e \<Rightarrow> Inl e
         | Inr (v, r2) \<Rightarrow>
             if be k \<in> fst ` set acc \<or> be k \<notin> allowed then Inl err
             else read_extensions allowed err (acc @ [(be k, v)]) r2))"
  by pat_completeness auto
termination
  by (relation "measure (\<lambda>(allowed, err, acc, raw). length raw)")
    (auto simp: take_n_def dest!: vector_shrinks split: if_splits)

declare read_extensions.simps [simp del]

fun chunks2 :: "bytes \<Rightarrow> int list" where
  "chunks2 (a # b # rest) = be [a, b] # chunks2 rest"
| "chunks2 [a] = [be [a]]"
| "chunks2 [] = []"

section \<open>Checks both grammars share\<close>

definition SNI :: bytes where
  "SNI = to_be 2 18 @ [0] @ to_be 2 15 @ ascii ''harbordesk.test''"

definition empty_unless :: "extensions \<Rightarrow> int \<Rightarrow> bytes \<Rightarrow> bool" where
  "empty_unless exts kind expected =
    (case map_of exts kind of None \<Rightarrow> True | Some v \<Rightarrow> v = expected)"

definition point_formats_ok :: "bytes \<Rightarrow> bool" where
  "point_formats_ok points \<longleftrightarrow> points \<noteq> [] \<and> hd points = 0 \<and> distinct points \<and> set points \<subseteq> {0, 1, 2}"

definition check_point_formats :: "string \<Rightarrow> extensions \<Rightarrow> string + unit" where
  "check_point_formats err exts =
    (case map_of exts 11 of None \<Rightarrow> Inr ()
     | Some v \<Rightarrow> bindE (whole_vector 1 v) (\<lambda>points. require (point_formats_ok points) err))"

definition check_signatures :: "string \<Rightarrow> extensions \<Rightarrow> string + unit" where
  "check_signatures err exts =
    (case map_of exts 13 of None \<Rightarrow> Inr ()
     | Some v \<Rightarrow> bindE (whole_vector 2 v) (\<lambda>algorithms.
         require (algorithms \<noteq> [] \<and> even (length algorithms)) err))"

definition check_key_share :: "string \<Rightarrow> bytes \<Rightarrow> string + unit" where
  "check_key_share err share =
    bindE (whole_vector 2 share) (\<lambda>entries.
    bindE (take_n 2 entries) (\<lambda>(group, rest).
    bindE (require (group = [0, 0x17]) err) (\<lambda>_.
    bindE (whole_vector 2 rest) (\<lambda>key.
    require (length key = 65 \<and> hd key = 4) err))))"

record client_hello =
  ch_version :: string
  ch_session :: bytes
  ch_cipher :: int
  ch_random :: bytes
  ch_types :: "int list"
  ch_digest :: string

section \<open>tls_posture_hello.validate_client_hello\<close>

definition VERSIONS :: "string \<Rightarrow> (int \<times> int) option" where
  "VERSIONS v =
    (if v = ''tls1'' then Some (0x0301, 0xC009) else if v = ''tls1_1'' then Some (0x0302, 0xC009)
     else if v = ''tls1_2'' then Some (0x0303, 0xC02B) else if v = ''tls1_3'' then Some (0x0304, 0x1302)
     else None)"

definition COOKIE :: bytes where
  "COOKIE = ascii ''T02-HRR-ONLY''"

definition posture_extension_kinds :: "int set" where
  "posture_extension_kinds = {0, 10, 11, 13, 22, 23, 43, 44, 45, 51, 0xFF01}"

definition posture_tail :: "string \<Rightarrow> bool \<Rightarrow> extensions \<Rightarrow> string + unit" where
  "posture_tail version retry exts =
    (if version = ''tls1_3'' then
       bindE (require (map_of exts 43 = Some [2, 3, 4] \<and> map_of exts 51 \<noteq> None \<and> map_of exts 13 \<noteq> None)
         ''tls_posture_client_hello_supported_version'') (\<lambda>_.
       bindE (check_key_share ''tls_posture_client_hello_key_share'' (the (map_of exts 51))) (\<lambda>_.
       bindE (require (\<not> (retry \<and> map_of exts 44 \<noteq> Some (to_be 2 (int (length COOKIE)) @ COOKIE) \<or>
           \<not> retry \<and> map_of exts 44 \<noteq> None)) ''tls_posture_client_hello_cookie'') (\<lambda>_.
       require (empty_unless exts 45 [1, 1]) ''tls_posture_client_hello_psk_modes'')))
     else require (\<not> (list_ex (\<lambda>k. map_of exts k \<noteq> None) [43, 44, 45, 51] \<or> retry))
       ''tls_posture_client_hello_supported_version'')"

definition validate_client_hello :: "(bytes \<Rightarrow> string) \<Rightarrow> bytes \<Rightarrow> string \<Rightarrow> bool \<Rightarrow> string + client_hello" where
  "validate_client_hello H raw version retry =
    (case VERSIONS version of
      None \<Rightarrow> Inl ''tls_posture_client_hello_record''
    | Some (offered, cipher) \<Rightarrow>
      bindE (require (50 \<le> length raw \<and> int (length raw) \<le> 4096 \<and> byte_at raw 0 = 22 \<and>
          slice 1 3 raw \<in> {[3, 1], [3, 2], [3, 3]} \<and> be (slice 3 5 raw) = int (length raw) - 5 \<and>
          byte_at raw 5 = 1 \<and> be (slice 6 9 raw) = int (length raw) - 9) ''tls_posture_client_hello_record'') (\<lambda>_.
      bindE (take_n 2 (drop 9 raw)) (\<lambda>(ver, r1).
      bindE (require (be ver = min offered 0x0303) ''tls_posture_client_hello_version'') (\<lambda>_.
      bindE (take_n 32 r1) (\<lambda>(random, r2).
      bindE (vector 1 r2) (\<lambda>(session, r3).
      bindE (require (\<not> (length session > 32 \<or> version \<noteq> ''tls1_3'' \<and> session \<noteq> []))
        ''tls_posture_client_hello_session'') (\<lambda>_.
      bindE (vector 2 r3) (\<lambda>(suites, r4).
      bindE (require (suites \<noteq> [] \<and> even (length suites)) ''tls_posture_client_hello_ciphers'') (\<lambda>_.
      bindE (require (distinct (chunks2 suites) \<and> cipher \<in> set (chunks2 suites) \<and>
          set (chunks2 suites) \<subseteq> {cipher, 0x00FF}) ''tls_posture_client_hello_ciphers'') (\<lambda>_.
      bindE (vector 1 r4) (\<lambda>(compression, r5).
      bindE (require (compression = [0]) ''tls_posture_client_hello_compression'') (\<lambda>_.
      bindE (vector 2 r5) (\<lambda>(ext_bytes, r6).
      bindE (done_reading r6) (\<lambda>_.
      bindE (read_extensions posture_extension_kinds ''tls_posture_client_hello_extension'' [] ext_bytes) (\<lambda>exts.
      bindE (require (map_of exts 0 = Some SNI \<and> map_of exts 10 = Some [0, 2, 0, 0x17])
        ''tls_posture_client_hello_name_group'') (\<lambda>_.
      bindE (require (empty_unless exts 22 [] \<and> empty_unless exts 23 [])
        ''tls_posture_client_hello_empty_extension'') (\<lambda>_.
      bindE (require (empty_unless exts 0xFF01 [0]) ''tls_posture_client_hello_renegotiation'') (\<lambda>_.
      bindE (check_point_formats ''tls_posture_client_hello_point_formats'' exts) (\<lambda>_.
      bindE (check_signatures ''tls_posture_client_hello_signatures'' exts) (\<lambda>_.
      bindE (posture_tail version retry exts) (\<lambda>_.
      Inr \<lparr>ch_version = version, ch_session = session, ch_cipher = cipher, ch_random = random,
        ch_types = sort (map fst exts), ch_digest = H raw\<rparr>)))))))))))))))))))))"

section \<open>name_tls_wire.validate_tls_client_hello\<close>

definition tls_client_hello_length :: "bytes \<Rightarrow> string + int option" where
  "tls_client_hello_length prefix =
    bindE (require (int (length prefix) \<le> 4096) ''name_tls_client_hello_size'') (\<lambda>_.
    if length prefix < 5 then Inr None
    else
      let len = 5 + be (slice 3 5 prefix) in
      bindE (require (byte_at prefix 0 = 22 \<and> slice 1 3 prefix \<in> {[3, 1], [3, 2], [3, 3]} \<and>
        50 \<le> len \<and> len \<le> 4096) ''name_tls_client_hello_record'') (\<lambda>_. Inr (Some len)))"

definition name_extension_kinds :: "int set" where
  "name_extension_kinds = {0, 10, 11, 13, 22, 23, 27, 43, 44, 45, 51, 0xFF01}"

definition name_tls_tail :: "extensions \<Rightarrow> string + unit" where
  "name_tls_tail exts =
    bindE (require (map_of exts 43 = Some [2, 3, 4] \<and> map_of exts 51 \<noteq> None \<and> map_of exts 13 \<noteq> None)
      ''name_tls_client_hello_supported_version'') (\<lambda>_.
    bindE (check_key_share ''name_tls_client_hello_key_share'' (the (map_of exts 51))) (\<lambda>_.
    bindE (require (map_of exts 44 = None) ''name_tls_client_hello_cookie'') (\<lambda>_.
    bindE (require (empty_unless exts 45 [1, 1]) ''name_tls_client_hello_psk_modes'') (\<lambda>_.
    require (empty_unless exts 27 [4, 0, 1, 0, 3]) ''name_tls_client_hello_certificate_compression''))))"

definition validate_tls_client_hello :: "(bytes \<Rightarrow> string) \<Rightarrow> bytes \<Rightarrow> string + client_hello" where
  "validate_tls_client_hello H raw =
      bindE (tls_client_hello_length raw) (\<lambda>len.
      bindE (require (len = Some (int (length raw)) \<and> byte_at raw 5 = 1 \<and>
        be (slice 6 9 raw) = int (length raw) - 9) ''name_tls_client_hello_record'') (\<lambda>_.
      bindE (take_n 2 (drop 9 raw)) (\<lambda>(ver, r1).
      bindE (require (ver = [3, 3]) ''name_tls_client_hello_version'') (\<lambda>_.
      bindE (take_n 32 r1) (\<lambda>(random, r2).
      bindE (vector 1 r2) (\<lambda>(session, r3).
      bindE (require (\<not> length session > 32) ''name_tls_client_hello_session'') (\<lambda>_.
      bindE (vector 2 r3) (\<lambda>(suites, r4).
      bindE (require (suites \<noteq> [] \<and> even (length suites)) ''name_tls_client_hello_ciphers'') (\<lambda>_.
      bindE (require (distinct (chunks2 suites) \<and> 0x1302 \<in> set (chunks2 suites) \<and>
          set (chunks2 suites) \<subseteq> {0x1302, 0x00FF}) ''name_tls_client_hello_ciphers'') (\<lambda>_.
      bindE (vector 1 r4) (\<lambda>(compression, r5).
      bindE (require (compression = [0]) ''name_tls_client_hello_compression'') (\<lambda>_.
      bindE (vector 2 r5) (\<lambda>(ext_bytes, r6).
      bindE (done_reading r6) (\<lambda>_.
      bindE (read_extensions name_extension_kinds ''name_tls_client_hello_extension'' [] ext_bytes) (\<lambda>exts.
      bindE (require (map_of exts 0 = Some SNI \<and> map_of exts 10 = Some [0, 2, 0, 0x17])
        ''name_tls_client_hello_name_group'') (\<lambda>_.
      bindE (require (empty_unless exts 22 [] \<and> empty_unless exts 23 [])
        ''name_tls_client_hello_empty_extension'') (\<lambda>_.
      bindE (require (empty_unless exts 0xFF01 [0]) ''name_tls_client_hello_renegotiation'') (\<lambda>_.
      bindE (check_point_formats ''name_tls_client_hello_point_formats'' exts) (\<lambda>_.
      bindE (check_signatures ''name_tls_client_hello_signatures'' exts) (\<lambda>_.
      bindE (name_tls_tail exts) (\<lambda>_.
      Inr \<lparr>ch_version = ''tls1_3'', ch_session = session, ch_cipher = 0x1302, ch_random = random,
        ch_types = sort (map fst exts), ch_digest = H raw\<rparr>)))))))))))))))))))))"

section \<open>Records and the server's answer\<close>

record tls_record =
  rec_kind :: int
  rec_body :: bytes
  rec_raw :: bytes

function tls_records_loop :: "nat \<Rightarrow> bytes \<Rightarrow> string + tls_record list" where
  "tls_records_loop seen raw =
    (if raw = [] then Inr []
     else if 5 > length raw \<or> seen \<ge> 32 then Inl ''name_tls_record_count''
     else let kind = be (slice 0 1 raw); version = be (slice 1 3 raw); len = be (slice 3 5 raw);
              stop = 5 + nat len in
       if kind \<notin> {20, 21, 22, 23} \<or> version \<notin> {0x0301, 0x0303} \<or> \<not> (0 < len \<and> len \<le> 18432) \<or> stop > length raw
       then Inl ''name_tls_record_header''
       else bindE (tls_records_loop (seen + 1) (drop stop raw)) (\<lambda>rs.
         Inr (\<lparr>rec_kind = kind, rec_body = slice 5 stop raw, rec_raw = take stop raw\<rparr> # rs)))"
  by pat_completeness auto
termination by (relation "measure (\<lambda>(seen, raw). length raw)") auto

declare tls_records_loop.simps [simp del]

definition tls_records :: "bytes \<Rightarrow> int \<Rightarrow> string + tls_record list" where
  "tls_records raw maximum =
    bindE (require (5 \<le> length raw \<and> int (length raw) \<le> maximum) ''name_tls_record_bytes'') (\<lambda>_.
    tls_records_loop 0 raw)"

function server_extensions :: "extensions \<Rightarrow> bytes \<Rightarrow> string + extensions" where
  "server_extensions acc raw =
    (if raw = [] then Inr acc
     else if 4 > length raw then Inl ''name_tls_server_hello_extensions''
     else let kind = be (slice 0 2 raw); len = nat (be (slice 2 4 raw)) in
       if kind \<in> fst ` set acc \<or> kind \<notin> {43, 51} \<or> 4 + len > length raw
       then Inl ''name_tls_server_hello_extensions''
       else server_extensions (acc @ [(kind, slice 4 (4 + len) raw)]) (drop (4 + len) raw))"
  by pat_completeness auto
termination by (relation "measure (\<lambda>(acc, raw). length raw)") auto

declare server_extensions.simps [simp del]

definition RETRY_RANDOM :: string where
  "RETRY_RANDOM = ''cf21ad74e59a6111be1d8c021e65b891c2a211167abb8c5e079e09e2c8a8339c''"

definition server_hello :: "(bytes \<Rightarrow> string) \<Rightarrow> bytes \<Rightarrow> bytes \<Rightarrow> string + string" where
  "server_hello H raw session =
    bindE (require (\<not> (length raw < 4 \<or> byte_at raw 0 \<noteq> 2 \<or> be (slice 1 4 raw) \<noteq> int (length raw) - 4))
      ''name_tls_server_hello'') (\<lambda>_.
    let body = drop 4 raw in
    bindE (require (\<not> (length body < 38 \<or> take 2 body \<noteq> [3, 3] \<or> hex_text (slice 2 34 body) = RETRY_RANDOM))
      ''name_tls_server_hello_version'') (\<lambda>_.
    let len = nat (uint (byte_at body 34)); stop = 35 + len in
    bindE (require (\<not> (len > 32 \<or> stop + 5 > length body \<or> slice 35 stop body \<noteq> session \<or>
        slice stop (stop + 3) body \<noteq> [0x13, 2, 0])) ''name_tls_server_hello_selection'') (\<lambda>_.
    bindE (require (int (stop + 5) + be (slice (stop + 3) (stop + 5) body) = int (length body))
      ''name_tls_server_hello_extensions'') (\<lambda>_.
    bindE (server_extensions [] (drop (stop + 5) body)) (\<lambda>exts.
    let key = (case map_of exts 51 of None \<Rightarrow> [] | Some k \<Rightarrow> k) in
    bindE (require (map_of exts 43 = Some [3, 4] \<and> length key = 69 \<and> take 5 key = [0, 0x17, 0, 0x41, 4])
      ''name_tls_server_hello_key_share'') (\<lambda>_. Inr (H raw)))))))"

definition validate_tls_server_hello :: "(bytes \<Rightarrow> string) \<Rightarrow> bytes \<Rightarrow> bytes \<Rightarrow> string + string" where
  "validate_tls_server_hello H raw client =
    bindE (validate_tls_client_hello H client) (\<lambda>hello. server_hello H raw (ch_session hello))"

definition tls_verification_alert :: "string \<Rightarrow> bytes option" where
  "tls_verification_alert case_id =
    (if case_id = ''N11'' then Some [0x15, 3, 3, 0, 2, 2, 42]
     else if case_id = ''N12'' then Some [0x15, 3, 3, 0, 2, 2, 48]
     else if case_id = ''N13'' then Some [0x15, 3, 3, 0, 2, 2, 45] else None)"

text \<open>The loop state of \<open>_tls_remaining\<close>: change-cipher seen, encrypted data seen, alert seen.\<close>

fun remaining_loop :: "bytes option \<Rightarrow> bool \<Rightarrow> bool \<Rightarrow> bool \<Rightarrow> tls_record list \<Rightarrow> string + (bool \<times> bool)" where
  "remaining_loop alert ccs encrypted alerted [] = Inr (encrypted, alerted)"
| "remaining_loop alert ccs encrypted alerted (r # rs) =
    (if alerted then Inl ''name_tls_record_after_alert''
     else if rec_kind r = 20 \<and> rec_body r = [1] \<and> \<not> ccs \<and> \<not> encrypted then
       remaining_loop alert True encrypted alerted rs
     else if alert \<noteq> None \<and> Some (rec_raw r) = alert \<and> \<not> encrypted then
       remaining_loop alert ccs encrypted True rs
     else if rec_kind r = 23 \<and> length (rec_body r) \<ge> 17 \<and> alert = None then
       remaining_loop alert ccs True alerted rs
     else Inl ''name_tls_extra_handshake_or_record'')"

definition tls_remaining :: "bytes option \<Rightarrow> tls_record list \<Rightarrow> string + bool" where
  "tls_remaining alert rs =
    bindE (remaining_loop alert False False False rs) (\<lambda>(encrypted, alerted).
    bindE (require (\<not> (alert \<noteq> None \<and> \<not> alerted)) ''name_tls_verification_alert_missing'') (\<lambda>_.
    Inr encrypted))"

text \<open>The server's handshake records up to the first complete message, and the rest.\<close>

fun gather_plaintext :: "bytes \<Rightarrow> tls_record list \<Rightarrow> bytes \<times> tls_record list" where
  "gather_plaintext acc [] = (acc, [])"
| "gather_plaintext acc (r # rs) =
    (if rec_kind r \<noteq> 22 then (acc, r # rs)
     else let acc' = acc @ rec_body r in
       if length acc' \<ge> 4 \<and> int (length acc') \<ge> 4 + be (slice 1 4 acc') then (acc', rs)
       else gather_plaintext acc' rs)"

record tls_wire =
  tw_client :: client_hello
  tw_server :: "string option"
  tw_rejection :: bool
  tw_client_records :: nat
  tw_server_records :: nat

definition parse_tls_wire :: "(bytes \<Rightarrow> string) \<Rightarrow> bytes \<Rightarrow> bytes \<Rightarrow> string \<Rightarrow> string \<Rightarrow> string + tls_wire" where
  "parse_tls_wire H client_bytes server_bytes configuration case_id =
    bindE (selection configuration case_id) (\<lambda>_.
    bindE (tls_records client_bytes 8192) (\<lambda>client.
    bindE (validate_tls_client_hello H (rec_raw (hd client))) (\<lambda>hello.
    bindE (tls_records server_bytes 16384) (\<lambda>server.
    if case_id = ''N16'' \<and> length server = 1 \<and> rec_kind (hd server) = 21 \<and> rec_body (hd server) = [2, 0x46] then
      bindE (tls_remaining None (tl client)) (\<lambda>_.
      Inr \<lparr>tw_client = hello, tw_server = None, tw_rejection = True,
        tw_client_records = length client, tw_server_records = 1\<rparr>)
    else
      let (plaintext, rest) = gather_plaintext [] server in
      bindE (server_hello H plaintext (ch_session hello)) (\<lambda>chosen.
      bindE (tls_remaining None rest) (\<lambda>server_encrypted.
      let alert = tls_verification_alert case_id in
      bindE (require (\<not> (alert \<noteq> None \<and> \<not> server_encrypted))
        ''name_tls_verification_server_flight_missing'') (\<lambda>_.
      bindE (tls_remaining alert (tl client)) (\<lambda>_.
      Inr \<lparr>tw_client = hello, tw_server = Some chosen, tw_rejection = False,
        tw_client_records = length client, tw_server_records = length server\<rparr>))))))))"

end
