(* ===== verification/TlsHello.thy ===== *)
theory TlsHello
  imports TlsWire
begin

text \<open>
  The two ClientHello validators side by side: an accepted extension block is the encoding of the
  table read from it, hellos without extension 27 pass both validators or neither, and
  \<open>hello_bytes\<close> writes a hello from its parts, so that acceptance can be stated over the parts.
\<close>

section \<open>Extension tables\<close>

definition encode_extension :: "int \<times> bytes \<Rightarrow> bytes" where
  "encode_extension kv = to_be 2 (fst kv) @ to_be 2 (int (length (snd kv))) @ snd kv"

lemma vector2_encode:
  assumes "vector 2 raw = Inr (v, rest)"
  shows "raw = to_be 2 (int (length v)) @ v @ rest"
proof -
  from assms have len: "2 \<le> length raw" "nat (be (take 2 raw)) \<le> length raw - 2"
    and v: "v = take (nat (be (take 2 raw))) (drop 2 raw)" "rest = drop (nat (be (take 2 raw))) (drop 2 raw)"
    by (auto simp: vector_def res_simps)
  then have "int (length v) = be (take 2 raw)" using be_nonneg [of "take 2 raw"] by simp
  moreover have "to_be 2 (be (take 2 raw)) = take 2 raw" using to_be_be [of "take 2 raw"] len by simp
  ultimately have "to_be 2 (int (length v)) = take 2 raw" by (simp only:)
  moreover have "v @ rest = drop 2 raw" unfolding v by (simp only: append_take_drop_id)
  ultimately show ?thesis by simp
qed

lemma read_extensions_step:
  assumes "read_extensions allowed err acc raw = Inr exts" "raw \<noteq> []"
  obtains v r2 where "raw = to_be 2 (be (take 2 raw)) @ to_be 2 (int (length v)) @ v @ r2"
    "be (take 2 raw) \<in> allowed" "be (take 2 raw) \<notin> fst ` set acc"
    "take_n 2 raw = Inr (take 2 raw, drop 2 raw)" "vector 2 (drop 2 raw) = Inr (v, r2)"
    "read_extensions allowed err (acc @ [(be (take 2 raw), v)]) r2 = Inr exts"
proof -
  from assms obtain v r2 where len: "2 \<le> length raw" and vec: "vector 2 (drop 2 raw) = Inr (v, r2)"
    and kind: "be (take 2 raw) \<in> allowed" "be (take 2 raw) \<notin> fst ` set acc"
    and next_run: "read_extensions allowed err (acc @ [(be (take 2 raw), v)]) r2 = Inr exts"
    by (subst (asm) read_extensions.simps)
      (auto simp: take_n_def split: if_splits sum.splits)
  have "raw = take 2 raw @ drop 2 raw" by simp
  also have "\<dots> = to_be 2 (be (take 2 raw)) @ to_be 2 (int (length v)) @ v @ r2"
    using vector2_encode [OF vec] to_be_be [of "take 2 raw"] len by simp
  finally show thesis
    using that kind next_run vec len by (simp add: take_n_def)
qed

lemma read_extensions_sound:
  "read_extensions allowed err acc raw = Inr exts \<Longrightarrow> distinct (map fst acc) \<Longrightarrow> fst ` set acc \<subseteq> allowed \<Longrightarrow>
    (\<exists>new. exts = acc @ new \<and> raw = concat (map encode_extension new)) \<and>
    distinct (map fst exts) \<and> fst ` set exts \<subseteq> allowed"
proof (induction "length raw" arbitrary: acc raw rule: less_induct)
  case less
  show ?case
  proof (cases "raw = []")
    case True
    with less.prems show ?thesis by (simp add: read_extensions.simps [of _ _ _ "[]"])
  next
    case False
    from read_extensions_step [OF less.prems(1) False] obtain v r2 where
      raw: "raw = to_be 2 (be (take 2 raw)) @ to_be 2 (int (length v)) @ v @ r2"
      and kind: "be (take 2 raw) \<in> allowed" "be (take 2 raw) \<notin> fst ` set acc"
      and next_run: "read_extensions allowed err (acc @ [(be (take 2 raw), v)]) r2 = Inr exts" .
    have "length r2 < length raw" by (subst raw) (simp del: to_be.simps)
    from less.hyps [OF this next_run] less.prems(2,3) kind
    obtain new where "exts = (acc @ [(be (take 2 raw), v)]) @ new" "r2 = concat (map encode_extension new)"
      "distinct (map fst exts)" "fst ` set exts \<subseteq> allowed" by auto
    moreover from this raw have "raw = concat (map encode_extension ((be (take 2 raw), v) # new))"
      by (simp add: encode_extension_def del: to_be.simps)
    ultimately show ?thesis by (metis append.assoc append_Cons append_Nil)
  qed
qed

text \<open>An accepted extension block is exactly the encoding of the table read from it: no byte is skipped,
  no kind repeats, and every kind is one the grammar names.\<close>

theorem read_extensions_exact:
  assumes "read_extensions allowed err [] raw = Inr exts"
  shows "raw = concat (map encode_extension exts) \<and> distinct (map fst exts) \<and> fst ` set exts \<subseteq> allowed"
  using read_extensions_sound [OF assms] by auto

theorem read_extensions_exact_witness:
  "[0, 23, 0, 0, 0, 11, 0, 2, 1, 0] = concat (map encode_extension [(23, []), (11, [1, 0])])"
proof -
  have "read_extensions {11, 23} ''bad'' [] [0, 23, 0, 0, 0, 11, 0, 2, 1, 0] = Inr [(23, []), (11, [1, 0])]"
    by code_simp
  from read_extensions_exact [OF this] show ?thesis by simp
qed

section \<open>The two grammars without extension 27\<close>

lemma read_extensions_widen:
  "read_extensions A e acc raw = Inr exts \<Longrightarrow> A \<subseteq> B \<Longrightarrow> read_extensions B e' acc raw = Inr exts"
proof (induction "length raw" arbitrary: acc raw rule: less_induct)
  case less
  show ?case
  proof (cases "raw = []")
    case True
    with less.prems show ?thesis by (simp add: read_extensions.simps [of _ _ _ "[]"])
  next
    case False
    from read_extensions_step [OF less.prems(1) False] obtain v r2 where
      raw: "raw = to_be 2 (be (take 2 raw)) @ to_be 2 (int (length v)) @ v @ r2"
      and kind: "be (take 2 raw) \<in> A" "be (take 2 raw) \<notin> fst ` set acc"
      and cut: "take_n 2 raw = Inr (take 2 raw, drop 2 raw)" "vector 2 (drop 2 raw) = Inr (v, r2)"
      and next_run: "read_extensions A e (acc @ [(be (take 2 raw), v)]) r2 = Inr exts" .
    have "length r2 < length raw" by (subst raw) (simp del: to_be.simps)
    from less.hyps [OF this next_run less.prems(2)] kind less.prems(2) cut False show ?thesis
      by (subst read_extensions.simps) auto
  qed
qed

lemma read_extensions_narrow:
  "read_extensions B e acc raw = Inr exts \<Longrightarrow> fst ` set exts \<subseteq> A \<Longrightarrow> read_extensions A e' acc raw = Inr exts"
proof (induction "length raw" arbitrary: acc raw rule: less_induct)
  case less
  show ?case
  proof (cases "raw = []")
    case True
    with less.prems show ?thesis by (simp add: read_extensions.simps [of _ _ _ "[]"])
  next
    case False
    from read_extensions_step [OF less.prems(1) False] obtain v r2 where
      raw: "raw = to_be 2 (be (take 2 raw)) @ to_be 2 (int (length v)) @ v @ r2"
      and kind: "be (take 2 raw) \<in> B" "be (take 2 raw) \<notin> fst ` set acc"
      and cut: "take_n 2 raw = Inr (take 2 raw, drop 2 raw)" "vector 2 (drop 2 raw) = Inr (v, r2)"
      and next_run: "read_extensions B e (acc @ [(be (take 2 raw), v)]) r2 = Inr exts" .
    have prefix: "\<exists>new. exts = acc' @ new" if "read_extensions B e acc' r = Inr exts" for acc' r
      using that
    proof (induction "length r" arbitrary: acc' r rule: less_induct)
      case (less r)
      show ?case
      proof (cases "r = []")
        case True
        with less.prems show ?thesis by (simp add: read_extensions.simps [of _ _ _ "[]"])
      next
        case False
        from read_extensions_step [OF less.prems False] obtain w r3 where
          r: "r = to_be 2 (be (take 2 r)) @ to_be 2 (int (length w)) @ w @ r3"
          and run3: "read_extensions B e (acc' @ [(be (take 2 r), w)]) r3 = Inr exts" .
        have "length r3 < length r" by (subst r) (simp del: to_be.simps)
        from less.hyps [OF this run3] show ?thesis by auto
      qed
    qed
    from prefix [OF next_run] have "be (take 2 raw) \<in> fst ` set exts" by auto
    with less.prems(2) have "be (take 2 raw) \<in> A" by blast
    moreover have "length r2 < length raw" by (subst raw) (simp del: to_be.simps)
    from less.hyps [OF this next_run less.prems(2)]
    have "read_extensions A e' (acc @ [(be (take 2 raw), v)]) r2 = Inr exts" .
    ultimately show ?thesis using kind cut False by (subst read_extensions.simps) auto
  qed
qed

definition key_share_ok :: "bytes \<Rightarrow> bool" where
  "key_share_ok share \<longleftrightarrow> check_key_share [] share = Inr ()"

lemma check_key_share_err [simp]: "check_key_share err share = Inr u \<longleftrightarrow> key_share_ok share"
  by (auto simp: key_share_ok_def check_key_share_def res_simps)

lemma check_signatures_err:
  "check_signatures err exts = Inr () \<longleftrightarrow> check_signatures err' exts = Inr ()"
  by (auto simp: check_signatures_def res_simps split: option.splits)

lemma check_point_formats_err:
  "check_point_formats err exts = Inr () \<longleftrightarrow> check_point_formats err' exts = Inr ()"
  by (auto simp: check_point_formats_def res_simps split: option.splits)

lemma version_word: "length ver = 2 \<Longrightarrow> be ver = 0x0303 \<longleftrightarrow> ver = [3, 3]"
proof
  assume "length ver = 2" "be ver = 0x0303"
  moreover have "be [3, 3] = 0x0303" by (simp add: be_def)
  ultimately show "ver = [3, 3]" by (intro be_inj) simp_all
qed (simp add: be_def)

lemma hello_record_head:
  "tls_client_hello_length raw = Inr (Some (int (length raw))) \<longleftrightarrow>
    50 \<le> length raw \<and> int (length raw) \<le> 4096 \<and> byte_at raw 0 = 22 \<and>
    slice 1 3 raw \<in> {[3, 1], [3, 2], [3, 3]} \<and> be (slice 3 5 raw) = int (length raw) - 5"
  by (auto simp: tls_client_hello_length_def Let_def res_simps split: if_splits)

lemma posture_to_profile:
  assumes "validate_client_hello H raw ''tls1_3'' False = Inr h"
  shows "validate_tls_client_hello H raw = Inr h \<and> 27 \<notin> set (ch_types h)"
proof -
  from assms obtain ver r1 r2 session r3 suites r4 compression r5 ext_bytes r6 exts where
    head: "tls_client_hello_length raw = Inr (Some (int (length raw)))" "byte_at raw 5 = 1"
      "be (slice 6 9 raw) = int (length raw) - 9"
    and cuts: "take_n 2 (drop 9 raw) = Inr (ver, r1)" "be ver = 0x0303" "length r1 \<ge> 32" "r2 = drop 32 r1"
      "vector 1 r2 = Inr (session, r3)" "\<not> length session > 32" "vector 2 r3 = Inr (suites, r4)"
      "suites \<noteq> [] \<and> even (length suites)"
      "distinct (chunks2 suites)" "0x1302 \<in> set (chunks2 suites)" "set (chunks2 suites) \<subseteq> {0x1302, 0x00FF}"
      "vector 1 r4 = Inr (compression, r5)" "compression = [0]" "vector 2 r5 = Inr (ext_bytes, r6)" "done_reading r6 = Inr ()"
    and exts: "read_extensions posture_extension_kinds ''tls_posture_client_hello_extension'' [] ext_bytes = Inr exts"
    and table: "map_of exts 0 = Some SNI" "map_of exts 10 = Some [0, 2, 0, 0x17]"
      "empty_unless exts 22 []" "empty_unless exts 23 []" "empty_unless exts 0xFF01 [0]"
      "check_point_formats ''tls_posture_client_hello_point_formats'' exts = Inr ()"
      "check_signatures ''tls_posture_client_hello_signatures'' exts = Inr ()"
      "posture_tail ''tls1_3'' False exts = Inr ()"
    and h: "h = \<lparr>ch_version = ''tls1_3'', ch_session = session, ch_cipher = 0x1302, ch_random = take 32 r1,
        ch_types = sort (map fst exts), ch_digest = H raw\<rparr>"
    unfolding validate_client_hello_def VERSIONS_def hello_record_head
    by (auto simp: res_simps)
  have "fst ` set exts \<subseteq> posture_extension_kinds" using read_extensions_sound [OF exts] by simp
  then have no27: "27 \<notin> fst ` set exts" by (auto simp: posture_extension_kinds_def)
  have wide: "read_extensions name_extension_kinds ''name_tls_client_hello_extension'' [] ext_bytes = Inr exts"
    using exts by (rule read_extensions_widen) (auto simp: posture_extension_kinds_def name_extension_kinds_def)
  have "ver = [3, 3]" using cuts(1,2) version_word [of ver] by (auto simp: res_simps)
  moreover have "name_tls_tail exts = Inr ()"
    using table(8) no27 by (auto simp: posture_tail_def name_tls_tail_def res_simps empty_unless_def
        map_of_eq_None_iff [THEN iffD2])
  moreover have "check_point_formats ''name_tls_client_hello_point_formats'' exts = Inr ()"
    "check_signatures ''name_tls_client_hello_signatures'' exts = Inr ()"
    using table(6,7) check_point_formats_err check_signatures_err by blast+
  ultimately have "validate_tls_client_hello H raw = Inr h"
    using head cuts wide table h by (simp add: validate_tls_client_hello_def take_n_def)
  with no27 h show ?thesis by simp
qed

lemma profile_to_posture:
  assumes "validate_tls_client_hello H raw = Inr h" "27 \<notin> set (ch_types h)"
  shows "validate_client_hello H raw ''tls1_3'' False = Inr h"
proof -
  from assms(1) obtain r1 r2 session r3 suites r4 compression r5 ext_bytes r6 exts where
    head: "tls_client_hello_length raw = Inr (Some (int (length raw)))" "byte_at raw 5 = 1"
      "be (slice 6 9 raw) = int (length raw) - 9"
    and cuts: "take_n 2 (drop 9 raw) = Inr ([3, 3], r1)" "length r1 \<ge> 32" "r2 = drop 32 r1"
      "vector 1 r2 = Inr (session, r3)" "\<not> length session > 32" "vector 2 r3 = Inr (suites, r4)"
      "suites \<noteq> [] \<and> even (length suites)"
      "distinct (chunks2 suites)" "0x1302 \<in> set (chunks2 suites)" "set (chunks2 suites) \<subseteq> {0x1302, 0x00FF}"
      "vector 1 r4 = Inr (compression, r5)" "compression = [0]" "vector 2 r5 = Inr (ext_bytes, r6)" "done_reading r6 = Inr ()"
    and exts: "read_extensions name_extension_kinds ''name_tls_client_hello_extension'' [] ext_bytes = Inr exts"
    and table: "map_of exts 0 = Some SNI" "map_of exts 10 = Some [0, 2, 0, 0x17]"
      "empty_unless exts 22 []" "empty_unless exts 23 []" "empty_unless exts 0xFF01 [0]"
      "check_point_formats ''name_tls_client_hello_point_formats'' exts = Inr ()"
      "check_signatures ''name_tls_client_hello_signatures'' exts = Inr ()"
      "name_tls_tail exts = Inr ()"
    and h: "h = \<lparr>ch_version = ''tls1_3'', ch_session = session, ch_cipher = 0x1302, ch_random = take 32 r1,
        ch_types = sort (map fst exts), ch_digest = H raw\<rparr>"
    unfolding validate_tls_client_hello_def by (auto simp: res_simps)
  have "fst ` set exts \<subseteq> name_extension_kinds" using read_extensions_sound [OF exts] by simp
  then have "fst ` set exts \<subseteq> posture_extension_kinds"
    using assms(2) h by (auto simp: posture_extension_kinds_def name_extension_kinds_def)
  then have narrow: "read_extensions posture_extension_kinds ''tls_posture_client_hello_extension'' [] ext_bytes = Inr exts"
    by (rule read_extensions_narrow [OF exts])
  have "posture_tail ''tls1_3'' False exts = Inr ()"
    using table(8) by (auto simp: posture_tail_def name_tls_tail_def res_simps)
  moreover have "check_point_formats ''tls_posture_client_hello_point_formats'' exts = Inr ()"
    "check_signatures ''tls_posture_client_hello_signatures'' exts = Inr ()"
    using table(6,7) check_point_formats_err check_signatures_err by blast+
  moreover have "be [3, 3] = 0x0303" by (simp add: be_def)
  ultimately show ?thesis
    using head cuts narrow table h unfolding hello_record_head
    by (simp add: validate_client_hello_def VERSIONS_def take_n_def)
qed

section \<open>Hellos from their parts\<close>

definition hello_body :: "bytes \<Rightarrow> bytes \<Rightarrow> bytes \<Rightarrow> extensions \<Rightarrow> bytes" where
  "hello_body random session suites exts =
    (let block = concat (map encode_extension exts) in
     [3, 3] @ random @ to_be 1 (int (length session)) @ session @ to_be 2 (int (length suites)) @ suites
       @ [1, 0] @ to_be 2 (int (length block)) @ block)"

text \<open>One handshake record of the given version holding one ClientHello.\<close>

definition hello_bytes :: "bytes \<Rightarrow> bytes \<Rightarrow> bytes \<Rightarrow> bytes \<Rightarrow> extensions \<Rightarrow> bytes" where
  "hello_bytes version random session suites exts =
    (let body = hello_body random session suites exts in
     [22] @ version @ to_be 2 (int (length body) + 4) @ [1] @ to_be 3 (int (length body)) @ body)"

text \<open>The parts fit their length fields and the hello fits the limit of both validators.\<close>

definition hello_sized :: "bytes \<Rightarrow> bytes \<Rightarrow> bytes \<Rightarrow> bytes \<Rightarrow> extensions \<Rightarrow> bool" where
  "hello_sized version random session suites exts \<longleftrightarrow> length version = 2 \<and> length random = 32 \<and> length session < 256
    \<and> (\<forall>kv \<in> set exts. 0 \<le> fst kv \<and> fst kv < 65536) \<and> length (hello_bytes version random session suites exts) \<le> 4096"

lemma vector_encode:
  "int (length v) < 256 ^ w \<Longrightarrow> vector w (to_be w (int (length v)) @ v @ rest) = Inr (v, rest)"
  by (simp add: vector_def take_n_def be_to_be)

lemma length_encode: "length (encode_extension kv) = 4 + length (snd kv)"
  by (simp add: encode_extension_def)

lemma read_extensions_encode:
  assumes "\<forall>kv \<in> set exts. 0 \<le> fst kv \<and> fst kv < 65536 \<and> length (snd kv) < 65536"
    and "distinct (map fst acc)"
  shows "read_extensions allowed err acc (concat (map encode_extension exts)) =
    (if distinct (map fst (acc @ exts)) \<and> fst ` set exts \<subseteq> allowed then Inr (acc @ exts) else Inl err)"
  using assms
proof (induction exts arbitrary: acc)
  case Nil
  then show ?case by (simp add: read_extensions.simps)
next
  case (Cons kv exts)
  obtain k v where kv: "kv = (k, v)" by (cases kv)
  let ?rest = "concat (map encode_extension exts)"
  have raw: "concat (map encode_extension (kv # exts)) = to_be 2 k @ to_be 2 (int (length v)) @ v @ ?rest"
    by (simp add: kv encode_extension_def)
  have head: "take_n 2 (to_be 2 k @ x) = Inr (to_be 2 k, x)" for x by (simp add: take_n_def)
  have k: "be (to_be 2 k) = k" using Cons.prems(1) kv by (intro be_to_be) auto
  have v: "vector 2 (to_be 2 (int (length v)) @ v @ ?rest) = Inr (v, ?rest)"
    using Cons.prems(1) kv by (intro vector_encode) auto
  have ne: "to_be 2 k @ x \<noteq> []" for x by (metis Nil_is_append_conv length_0_conv length_to_be zero_neq_numeral)
  have step: "read_extensions allowed err acc (to_be 2 k @ to_be 2 (int (length v)) @ v @ ?rest) =
      (if k \<in> fst ` set acc \<or> k \<notin> allowed then Inl err else read_extensions allowed err (acc @ [kv]) ?rest)"
    by (subst read_extensions.simps, subst if_not_P [OF ne]) (simp add: head k v kv del: to_be.simps)
  show ?case
  proof (cases "k \<in> fst ` set acc \<or> k \<notin> allowed")
    case True
    then show ?thesis unfolding raw step by (auto simp: kv)
  next
    case False
    then have "read_extensions allowed err (acc @ [kv]) ?rest =
        (if distinct (map fst ((acc @ [kv]) @ exts)) \<and> fst ` set exts \<subseteq> allowed then Inr ((acc @ [kv]) @ exts) else Inl err)"
      using Cons.prems kv by (intro Cons.IH) auto
    then show ?thesis unfolding raw step using False by (simp add: kv)
  qed
qed

lemma read_extensions_iff:
  assumes "\<forall>kv \<in> set exts. 0 \<le> fst kv \<and> fst kv < 65536 \<and> length (snd kv) < 65536"
  shows "read_extensions allowed err [] (concat (map encode_extension exts)) = Inr found
    \<longleftrightarrow> found = exts \<and> distinct (map fst exts) \<and> fst ` set exts \<subseteq> allowed"
  unfolding read_extensions_encode [OF assms, of "[]", simplified] by auto

section \<open>Acceptance over the parts\<close>

text \<open>The checks of the table that both grammars make, on the values looked up.\<close>

definition table_ok :: "extensions \<Rightarrow> bool" where
  "table_ok exts \<longleftrightarrow> map_of exts 0 = Some SNI \<and> map_of exts 10 = Some [0, 2, 0, 0x17]
    \<and> empty_unless exts 22 [] \<and> empty_unless exts 23 [] \<and> empty_unless exts 0xFF01 [0]
    \<and> check_point_formats [] exts = Inr () \<and> check_signatures [] exts = Inr ()"

definition suites_ok :: "bytes \<Rightarrow> bool" where
  "suites_ok suites \<longleftrightarrow> suites \<noteq> [] \<and> even (length suites) \<and> distinct (chunks2 suites)
    \<and> 0x1302 \<in> set (chunks2 suites) \<and> set (chunks2 suites) \<subseteq> {0x1302, 0x00FF}"

definition hello_of :: "(bytes \<Rightarrow> string) \<Rightarrow> bytes \<Rightarrow> bytes \<Rightarrow> bytes \<Rightarrow> extensions \<Rightarrow> client_hello" where
  "hello_of H raw random session exts = \<lparr>ch_version = ''tls1_3'', ch_session = session, ch_cipher = 0x1302,
     ch_random = random, ch_types = sort (map fst exts), ch_digest = H raw\<rparr>"

lemma two: "length xs = 2 \<Longrightarrow> \<exists>a b. xs = [a, b]"
  by (auto simp: numeral_2_eq_2 length_Suc_conv)

lemma three: "length xs = 3 \<Longrightarrow> \<exists>a b c. xs = [a, b, c]"
  by (auto simp: numeral_3_eq_3 length_Suc_conv)

text \<open>Cutting a record of which the header is written.\<close>

lemma header_cuts:
  assumes "raw = [22] @ version @ lens @ [1] @ msg @ body" and "length version = 2" "length lens = 2" "length msg = 3"
  shows "byte_at raw 0 = 22" "slice 1 3 raw = version" "slice 3 5 raw = lens" "byte_at raw 5 = 1" "slice 6 9 raw = msg"
    "drop 9 raw = body" "length raw = 9 + length body"
proof -
  obtain a b where v: "version = [a, b]" using two [OF assms(2)] by auto
  obtain p q where l: "lens = [p, q]" using two [OF assms(3)] by auto
  obtain x y z where s: "msg = [x, y, z]" using three [OF assms(4)] by auto
  show "byte_at raw 0 = 22" "slice 1 3 raw = version" "slice 3 5 raw = lens" "byte_at raw 5 = 1" "slice 6 9 raw = msg"
    "drop 9 raw = body" "length raw = 9 + length body"
    by (simp_all add: assms(1) v l s byte_at_def slice_def numeral_eq_Suc)
qed

lemma hello_body_length: "length (hello_body random session suites exts) =
    9 + length random + length session + length suites + length (concat (map encode_extension exts))"
  by (simp add: hello_body_def Let_def del: length_concat)

lemma extension_fits: "kv \<in> set exts \<Longrightarrow> length (snd kv) + 4 \<le> length (concat (map encode_extension exts))"
  by (induction exts) (auto simp: length_encode)

lemma hello_accepted_iff:
  assumes "hello_sized version random session suites exts"
  shows "validate_tls_client_hello H (hello_bytes version random session suites exts) = Inr h \<longleftrightarrow>
    version \<in> {[3, 1], [3, 2], [3, 3]} \<and> length session \<le> 32 \<and> suites_ok suites
    \<and> distinct (map fst exts) \<and> fst ` set exts \<subseteq> name_extension_kinds \<and> table_ok exts \<and> name_tls_tail exts = Inr ()
    \<and> h = hello_of H (hello_bytes version random session suites exts) random session exts"
proof -
  define body where "body = hello_body random session suites exts"
  define block where "block = concat (map encode_extension exts)"
  define raw where "raw = hello_bytes version random session suites exts"
  have raw: "raw = [22] @ version @ to_be 2 (int (length body) + 4) @ [1] @ to_be 3 (int (length body)) @ body"
    by (simp add: raw_def hello_bytes_def body_def Let_def)
  have sized: "length version = 2" "length random = 32" "length session < 256" "length raw \<le> 4096"
    "\<forall>kv \<in> set exts. 0 \<le> fst kv \<and> fst kv < 65536" using assms by (simp_all add: hello_sized_def raw_def)
  note cut = header_cuts [OF raw sized(1) length_to_be length_to_be]
  have blen: "length body = 41 + length session + length suites + length block"
    using sized(2) by (simp add: body_def hello_body_length block_def)
  have small: "length body \<le> 4087" using cut(7) sized(4) by simp
  have be: "be (to_be 2 (int (length body) + 4)) = int (length raw) - 5" "be (to_be 3 (int (length body))) = int (length raw) - 9"
    using small cut(7) by (simp_all add: be_to_be)
  have exts: "\<forall>kv \<in> set exts. 0 \<le> fst kv \<and> fst kv < 65536 \<and> length (snd kv) < 65536"
    using sized(5) small blen extension_fits [of _ exts] by (fastforce simp: block_def [symmetric])
  define r5 where "r5 = to_be 2 (int (length block)) @ block @ []"
  define r4 where "r4 = to_be 1 (int (length [0 :: byte])) @ [0] @ r5"
  define r3 where "r3 = to_be 2 (int (length suites)) @ suites @ r4"
  define r2 where "r2 = to_be 1 (int (length session)) @ session @ r3"
  have body: "body = [3, 3] @ random @ r2"
    by (simp add: body_def hello_body_def block_def Let_def r2_def r3_def r4_def r5_def)
  have short: "int (length session) < 256 ^ 1" "int (length suites) < 256 ^ 2" "int (length [0 :: byte]) < 256 ^ 1"
    "int (length block) < 256 ^ 2" using sized(3) small blen by simp_all
  have reads: "take_n 2 ([3, 3] @ x) = Inr ([3, 3], x)" "take_n 32 (random @ x) = Inr (random, x)" for x
    using sized(2) by (simp_all add: take_n_def)
  have cuts: "vector 1 r2 = Inr (session, r3)" "vector 2 r3 = Inr (suites, r4)" "vector 1 r4 = Inr ([0], r5)" "vector 2 r5 = Inr (block, [])"
    unfolding r2_def r3_def r4_def r5_def using vector_encode short by blast+
  have drop_raw: "drop 9 raw = [3, 3] @ random @ r2" unfolding cut(6) by (rule body)
  have head: "tls_client_hello_length raw = Inr (Some (int (length raw))) \<longleftrightarrow> version \<in> {[3, 1], [3, 2], [3, 3]}"
    unfolding hello_record_head using cut be sized(4) blen by auto
  have points: "check_point_formats [] x = Inr () \<longleftrightarrow> check_point_formats ''name_tls_client_hello_point_formats'' x = Inr ()"
    "check_signatures [] x = Inr () \<longleftrightarrow> check_signatures ''name_tls_client_hello_signatures'' x = Inr ()" for x
    using check_point_formats_err check_signatures_err by blast+
  have "validate_tls_client_hello H raw = Inr h \<longleftrightarrow>
      tls_client_hello_length raw = Inr (Some (int (length raw))) \<and> length session \<le> 32 \<and> suites_ok suites
      \<and> (\<exists>found. read_extensions name_extension_kinds ''name_tls_client_hello_extension'' [] block = Inr found
        \<and> table_ok found \<and> name_tls_tail found = Inr () \<and> h = hello_of H raw random session found)"
    unfolding validate_tls_client_hello_def table_ok_def points hello_of_def
    using cut(4,5) be(2) by (simp add: res_simps drop_raw reads cuts cuts [unfolded One_nat_def] done_reading_def suites_ok_def
      del: append.simps) auto
  then have "validate_tls_client_hello H raw = Inr h \<longleftrightarrow>
      version \<in> {[3, 1], [3, 2], [3, 3]} \<and> length session \<le> 32 \<and> suites_ok suites
      \<and> distinct (map fst exts) \<and> fst ` set exts \<subseteq> name_extension_kinds \<and> table_ok exts \<and> name_tls_tail exts = Inr ()
      \<and> h = hello_of H raw random session exts"
    unfolding head block_def read_extensions_iff [OF exts] by auto
  then show ?thesis unfolding raw_def .
qed

text \<open>Every hello the name validator accepts is written from parts.\<close>

lemma vector_cut:
  assumes "vector w raw = Inr (v, rest)"
  shows "raw = to_be w (int (length v)) @ v @ rest \<and> int (length v) < 256 ^ w"
proof -
  from assms have len: "w \<le> length raw" "nat (be (take w raw)) \<le> length raw - w"
    and v: "v = take (nat (be (take w raw))) (drop w raw)" "rest = drop (nat (be (take w raw))) (drop w raw)"
    by (auto simp: vector_def res_simps)
  have n: "int (length v) = be (take w raw)" using len v be_nonneg [of "take w raw"] by simp
  have "to_be w (int (length v)) = take w raw" using to_be_be [of "take w raw"] len(1) n by simp
  moreover have "v @ rest = drop w raw" unfolding v by (simp only: append_take_drop_id)
  ultimately have "raw = to_be w (int (length v)) @ v @ rest" by (metis append_take_drop_id)
  moreover have "int (length v) < 256 ^ w" using be_upper [of "take w raw"] n len(1) by simp
  ultimately show ?thesis by simp
qed

lemma found_kinds:
  "read_extensions allowed err [] raw = Inr exts \<Longrightarrow> allowed \<subseteq> {0..65535} \<Longrightarrow> kv \<in> set exts \<Longrightarrow> 0 \<le> fst kv \<and> fst kv < 65536"
  using read_extensions_exact by fastforce

lemma raw_header:
  assumes "50 \<le> length raw" "byte_at raw 0 = 22" "byte_at raw 5 = 1"
  shows "raw = [22] @ slice 1 3 raw @ slice 3 5 raw @ [1] @ slice 6 9 raw @ drop 9 raw"
proof -
  have one: "slice i (Suc i) raw = [byte_at raw i]" if "i < length raw" for i
    using that by (simp add: slice_def byte_at_def take_Suc_conv_app_nth Suc_diff_le take_Suc hd_drop_conv_nth)
  have "raw = slice 0 9 raw @ drop 9 raw" by (simp add: slice_0)
  also have "slice 0 9 raw = slice 0 1 raw @ slice 1 3 raw @ slice 3 5 raw @ slice 5 6 raw @ slice 6 9 raw"
    by (simp flip: slice_split)
  moreover have "slice 0 1 raw = [22]" "slice 5 6 raw = [1]"
    using one [OF less_le_trans [OF _ assms(1)], of 0] one [OF less_le_trans [OF _ assms(1)], of 5] assms(2,3) by simp_all
  ultimately show ?thesis by (simp only: append_assoc)
qed

lemma hello_accepted_parts:
  assumes "validate_tls_client_hello H raw = Inr h"
  obtains version random session suites exts where "hello_sized version random session suites exts"
    "raw = hello_bytes version random session suites exts"
proof -
  from assms obtain r1 session r3 suites r4 r5 block exts where
    head: "tls_client_hello_length raw = Inr (Some (int (length raw)))" "byte_at raw 5 = 1"
      "be (slice 6 9 raw) = int (length raw) - 9"
    and cuts: "take_n 2 (drop 9 raw) = Inr ([3, 3], r1)" "32 \<le> length r1"
      "vector 1 (drop 32 r1) = Inr (session, r3)" "\<not> length session > 32" "vector 2 r3 = Inr (suites, r4)"
      "vector 1 r4 = Inr ([0], r5)" "vector 2 r5 = Inr (block, [])"
    and exts: "read_extensions name_extension_kinds ''name_tls_client_hello_extension'' [] block = Inr exts"
    unfolding validate_tls_client_hello_def by (auto simp: res_simps done_reading_def)
  note h = head(1) [unfolded hello_record_head]
  have v: "drop 32 r1 = to_be 1 (int (length session)) @ session @ r3" "r3 = to_be 2 (int (length suites)) @ suites @ r4"
    "r4 = to_be 1 (int (length [0 :: byte])) @ [0] @ r5" "r5 = to_be 2 (int (length block)) @ block @ []"
    using vector_cut cuts(3,5-7) by blast+
  have block: "block = concat (map encode_extension exts)" using read_extensions_exact [OF exts] by simp
  have "drop 9 raw = [3, 3] @ r1" using cuts(1) append_take_drop_id [of 2 "drop 9 raw"] by (simp add: res_simps)
  also have "r1 = take 32 r1 @ drop 32 r1" by simp
  finally have body: "drop 9 raw = hello_body (take 32 r1) session suites exts"
    unfolding v by (simp add: hello_body_def Let_def block)
  have be: "be (slice 3 5 raw) = int (length (drop 9 raw)) + 4" "be (slice 6 9 raw) = int (length (drop 9 raw))"
    and n: "length (slice 3 5 raw) = 2" "length (slice 6 9 raw) = 3" using h head(3) by (simp_all, linarith+)
  have two: "slice 3 5 raw = to_be 2 (int (length (drop 9 raw)) + 4)"
    using to_be_be [of "slice 3 5 raw"] unfolding be n by (rule sym)
  have three: "slice 6 9 raw = to_be 3 (int (length (drop 9 raw)))"
    using to_be_be [of "slice 6 9 raw"] unfolding be n by (rule sym)
  have raw: "raw = hello_bytes (slice 1 3 raw) (take 32 r1) session suites exts"
    unfolding hello_bytes_def Let_def body [symmetric] two [symmetric] three [symmetric]
    using h head(2) by (intro raw_header) simp_all
  moreover have "hello_sized (slice 1 3 raw) (take 32 r1) session suites exts"
    unfolding hello_sized_def raw [symmetric]
    using h cuts(2,4) found_kinds [OF exts] by (auto simp: name_extension_kinds_def)
  ultimately show thesis using that by blast
qed

section \<open>Adding extension 27\<close>

definition COMPRESSION :: bytes where
  "COMPRESSION = [4, 0, 1, 0, 3]"

lemma lookup_insert: "k \<noteq> 27 \<Longrightarrow> map_of (pre @ (27, w) # post) k = map_of (pre @ post) k"
  by (induction pre) auto

lemma table_insert: "table_ok (pre @ (27, w) # post) = table_ok (pre @ post)"
  unfolding table_ok_def empty_unless_def check_point_formats_def check_signatures_def
  by (simp add: lookup_insert del: map_of_append)

lemma tail_insert:
  assumes "27 \<notin> fst ` set (pre @ post)"
  shows "name_tls_tail (pre @ (27, w) # post) = Inr () \<longleftrightarrow> w = COMPRESSION \<and> name_tls_tail (pre @ post) = Inr ()"
proof -
  have here: "map_of (pre @ (27, w) # post) 27 = Some w" "map_of (pre @ post) 27 = None"
    using assms by (auto simp: map_add_Some_iff map_of_eq_None_iff)
  show ?thesis
    unfolding name_tls_tail_def empty_unless_def
    by (auto simp: here lookup_insert res_simps COMPRESSION_def simp del: map_of_append)
qed

lemma types_insert: "sort (map fst ((pre :: extensions) @ (27, w) # post)) = sort (27 # sort (map fst (pre @ post)))"
proof -
  have "sort (xs @ 27 # ys) = insort 27 (sort (xs @ ys))" for xs ys :: "int list"
    by (induction xs) (simp_all add: insort_left_comm)
  then show ?thesis by (simp add: sorted_sort_id)
qed

lemma sized_insert:
  assumes "hello_sized version random session suites (pre @ (27, w) # post)"
  shows "hello_sized version random session suites (pre @ post)"
proof -
  have "length (hello_bytes version random session suites (pre @ post))
      \<le> length (hello_bytes version random session suites (pre @ (27, w) # post))"
    by (simp add: hello_bytes_def Let_def hello_body_length)
  then show ?thesis using assms by (auto simp: hello_sized_def)
qed

lemma one_point:
  assumes "d \<and> e \<longleftrightarrow> d' \<and> e'" and "q x"
  shows "(a \<and> b \<and> c \<and> d \<and> e \<and> t \<and> (w \<and> n) \<and> h = f x) \<longleftrightarrow>
    w \<and> (\<exists>h'. ((a \<and> b \<and> c \<and> d' \<and> e' \<and> t \<and> n \<and> h' = x) \<and> q h') \<and> h = f h')"
  using assms by blast

text \<open>A hello with extension 27 is accepted exactly when the extension has the pinned value and the hello
  without it is one of the posture grammar.\<close>

lemma accepted_insert:
  assumes "hello_sized version random session suites (pre @ (27, w) # post)"
  shows "validate_tls_client_hello H (hello_bytes version random session suites (pre @ (27, w) # post)) = Inr h \<longleftrightarrow>
    w = COMPRESSION \<and> (\<exists>h'. validate_client_hello H (hello_bytes version random session suites (pre @ post)) ''tls1_3'' False = Inr h'
      \<and> h = h'\<lparr>ch_types := sort (27 # ch_types h'), ch_digest := H (hello_bytes version random session suites (pre @ (27, w) # post))\<rparr>)"
proof -
  let ?with = "pre @ (27, w) # post" and ?without = "pre @ post"
  let ?raw = "hello_bytes version random session suites ?with"
  have posture: "validate_client_hello H (hello_bytes version random session suites ?without) ''tls1_3'' False = Inr h' \<longleftrightarrow>
      validate_tls_client_hello H (hello_bytes version random session suites ?without) = Inr h' \<and> 27 \<notin> set (ch_types h')" for h'
    using posture_to_profile profile_to_posture by blast
  have kinds: "distinct (map fst ?with) \<and> fst ` set ?with \<subseteq> name_extension_kinds \<longleftrightarrow>
      27 \<notin> fst ` set ?without \<and> distinct (map fst ?without) \<and> fst ` set ?without \<subseteq> name_extension_kinds"
    by (auto simp: name_extension_kinds_def)
  have new: "hello_of H raw random session ?with = (hello_of H raw' random session ?without)\<lparr>
      ch_types := sort (27 # ch_types (hello_of H raw' random session ?without)), ch_digest := H raw\<rparr>" for raw raw'
    unfolding hello_of_def types_insert by simp
  have types: "set (ch_types (hello_of H raw random session ?without)) = fst ` set ?without" for raw
    by (simp add: hello_of_def image_Un)
  show ?thesis
  proof (cases "27 \<in> fst ` set ?without")
    case True
    then show ?thesis
      unfolding posture hello_accepted_iff [OF assms] hello_accepted_iff [OF sized_insert [OF assms]]
      using kinds types by auto
  next
    case False
    show ?thesis
      unfolding posture hello_accepted_iff [OF assms] hello_accepted_iff [OF sized_insert [OF assms]]
        table_insert tail_insert [OF False] new [of _ "hello_bytes version random session suites ?without"]
      by (rule one_point [where f = "\<lambda>h'. h'\<lparr>ch_types := sort (27 # ch_types h'), ch_digest := H ?raw\<rparr>"
          and q = "\<lambda>h'. 27 \<notin> set (ch_types h')"]) (use kinds types False in blast)+
  qed
qed

end
