(* ===== verification/TlsProps.thy ===== *)
theory TlsProps
  imports TlsHello
begin

text \<open>
  Framing loses no byte, extension tables are a faithful reading of their bytes, the profile's
  grammar is the posture grammar plus one pinned extension, and a directional stream that passes
  the order check has its records where TLS 1.3 puts them.
\<close>

section \<open>Framing\<close>

definition framed :: "tls_record \<Rightarrow> bool" where
  "framed r \<longleftrightarrow> rec_raw r = take 5 (rec_raw r) @ rec_body r \<and> be (slice 0 1 (rec_raw r)) = rec_kind r \<and>
    be (slice 3 5 (rec_raw r)) = int (length (rec_body r)) \<and> rec_body r \<noteq> [] \<and> rec_kind r \<in> {20, 21, 22, 23}"

lemma cut_framed:
  assumes "be (slice 0 1 raw) \<in> {20, 21, 22, 23}" "0 < be (slice 3 5 raw)"
    and "5 + nat (be (slice 3 5 raw)) \<le> length raw"
  shows "framed \<lparr>rec_kind = be (slice 0 1 raw), rec_body = slice 5 (5 + nat (be (slice 3 5 raw))) raw,
    rec_raw = take (5 + nat (be (slice 3 5 raw))) raw\<rparr>"
proof -
  define n where "n = nat (be (slice 3 5 raw))"
  have n: "0 < n" "int n = be (slice 3 5 raw)" "5 + n \<le> length raw" using assms(2,3) by (simp_all add: n_def)
  have "take (5 + n) raw = take 5 raw @ slice 5 (5 + n) raw" by (simp add: slice_def take_add)
  moreover have "slice 3 5 (take (5 + n) raw) = slice 3 5 raw" "slice 0 1 (take (5 + n) raw) = slice 0 1 raw"
    by (simp_all add: slice_def take_drop min_def)
  moreover have "slice 5 (5 + n) raw \<noteq> []" using n by (simp flip: length_greater_0_conv)
  ultimately show ?thesis
    using assms(1) n by (simp add: framed_def n_def [symmetric] min_def)
qed

lemma tls_records_loop_frames:
  "tls_records_loop seen raw = Inr rs \<Longrightarrow>
    concat (map rec_raw rs) = raw \<and> list_all framed rs \<and> seen + length rs \<le> max seen 32"
proof (induction seen raw arbitrary: rs rule: tls_records_loop.induct)
  case (1 seen raw)
  show ?case
  proof (cases "raw = []")
    case True
    with 1(2) show ?thesis by (subst (asm) tls_records_loop.simps) simp
  next
    case False
    define n where "n = nat (be (slice 3 5 raw))"
    define r where "r = \<lparr>rec_kind = be (slice 0 1 raw), rec_body = slice 5 (5 + n) raw, rec_raw = take (5 + n) raw\<rparr>"
    from 1(2) False have guard: "\<not> (5 > length raw \<or> seen \<ge> 32)"
      and head: "\<not> (be (slice 0 1 raw) \<notin> {20, 21, 22, 23} \<or> be (slice 1 3 raw) \<notin> {0x0301, 0x0303} \<or>
        \<not> (0 < be (slice 3 5 raw) \<and> be (slice 3 5 raw) \<le> 18432) \<or> 5 + n > length raw)"
      and "\<exists>rs'. tls_records_loop (seen + 1) (drop (5 + n) raw) = Inr rs' \<and> rs = r # rs'"
      by (subst (asm) tls_records_loop.simps, auto simp: Let_def n_def r_def res_simps split: if_splits)+
    then obtain rs' where rs': "tls_records_loop (seen + 1) (drop (5 + n) raw) = Inr rs'" and rs: "rs = r # rs'"
      by blast
    have "framed r" unfolding r_def n_def by (rule cut_framed) (use head in \<open>auto simp: n_def\<close>)
    moreover have "concat (map rec_raw rs') = drop (5 + n) raw \<and> list_all framed rs' \<and>
        seen + 1 + length rs' \<le> max (seen + 1) 32"
      by (rule 1(1) [OF False guard refl refl refl refl _ , folded n_def, OF _ rs']) (use head in simp)
    ultimately show ?thesis using guard rs by (simp add: r_def)
  qed
qed

text \<open>C38: record framing is lossless: an accepted byte string is the concatenation of its records, at most
  32 of them, each a five-byte header that states the kind and the length of its non-empty body.\<close>

theorem tls_records_lossless:
  assumes "tls_records raw maximum = Inr rs"
  shows "concat (map rec_raw rs) = raw \<and> list_all framed rs \<and> length rs \<le> 32"
  using assms tls_records_loop_frames [of 0 raw rs] by (auto simp: tls_records_def res_simps)

definition demo_records :: bytes where
  "demo_records = [22, 3, 1, 0, 2, 9, 9, 20, 3, 3, 0, 1, 1]"

theorem tls_records_lossless_witness:
  "concat (map rec_raw (projr (tls_records demo_records 8192))) = demo_records"
proof -
  have "tls_records demo_records 8192 = Inr (projr (tls_records demo_records 8192))" by code_simp
  from tls_records_lossless [OF this] show ?thesis by simp
qed

section \<open>The two ClientHello grammars\<close>

text \<open>
  C37: the name profile's ClientHello grammar is the shared posture grammar for TLS 1.3 without retry
  plus the pinned certificate-compression extension and nothing else. The validator of the profile
  accepts a byte string exactly when the posture validator does, with the same facts, or when it is
  a hello with extension 27, at any place of its table, of exactly the pinned value, and the posture
  validator accepts the hello that is left when the extension is taken out; its facts are those
  of that hello with the kind 27 and its own digest. The second line says which accepted hellos are
  of the first sort.
\<close>

theorem profile_extends_posture_grammar:
  "(validate_tls_client_hello H raw = Inr h \<longleftrightarrow>
      validate_client_hello H raw ''tls1_3'' False = Inr h
      \<or> (\<exists>version random session suites pre post h'.
          hello_sized version random session suites (pre @ (27, [4, 0, 1, 0, 3]) # post)
          \<and> raw = hello_bytes version random session suites (pre @ (27, [4, 0, 1, 0, 3]) # post)
          \<and> validate_client_hello H (hello_bytes version random session suites (pre @ post)) ''tls1_3'' False = Inr h'
          \<and> h = h'\<lparr>ch_types := sort (27 # ch_types h'), ch_digest := H raw\<rparr>))
    \<and> (validate_client_hello H raw ''tls1_3'' False = Inr h \<longleftrightarrow>
      validate_tls_client_hello H raw = Inr h \<and> 27 \<notin> set (ch_types h))"
proof (intro conjI iffI)
  assume a: "validate_tls_client_hello H raw = Inr h"
  from hello_accepted_parts [OF a] obtain version random session suites exts where
    p: "hello_sized version random session suites exts" "raw = hello_bytes version random session suites exts" .
  show "validate_client_hello H raw ''tls1_3'' False = Inr h
      \<or> (\<exists>version random session suites pre post h'.
          hello_sized version random session suites (pre @ (27, [4, 0, 1, 0, 3]) # post)
          \<and> raw = hello_bytes version random session suites (pre @ (27, [4, 0, 1, 0, 3]) # post)
          \<and> validate_client_hello H (hello_bytes version random session suites (pre @ post)) ''tls1_3'' False = Inr h'
          \<and> h = h'\<lparr>ch_types := sort (27 # ch_types h'), ch_digest := H raw\<rparr>)"
  proof (cases "27 \<in> fst ` set exts")
    case True
    then obtain w pre post where e: "exts = pre @ (27, w) # post" by (auto dest: split_list)
    from accepted_insert [OF p(1) [unfolded e], of H h] a show ?thesis unfolding p(2) e COMPRESSION_def
      using p(1) [unfolded e] by blast
  next
    case False
    have "27 \<notin> set (ch_types h)" using a False unfolding p(2) hello_accepted_iff [OF p(1)] by (simp add: hello_of_def)
    then show ?thesis using profile_to_posture [OF a] by blast
  qed
next
  assume "validate_client_hello H raw ''tls1_3'' False = Inr h
      \<or> (\<exists>version random session suites pre post h'.
          hello_sized version random session suites (pre @ (27, [4, 0, 1, 0, 3]) # post)
          \<and> raw = hello_bytes version random session suites (pre @ (27, [4, 0, 1, 0, 3]) # post)
          \<and> validate_client_hello H (hello_bytes version random session suites (pre @ post)) ''tls1_3'' False = Inr h'
          \<and> h = h'\<lparr>ch_types := sort (27 # ch_types h'), ch_digest := H raw\<rparr>)"
  then show "validate_tls_client_hello H raw = Inr h"
    using posture_to_profile accepted_insert unfolding COMPRESSION_def by blast
qed (use posture_to_profile profile_to_posture in blast)+

definition demo_extensions :: extensions where
  "demo_extensions = [(0, SNI), (10, [0, 2, 0, 0x17]), (13, [0, 2, 4, 3]), (43, [2, 3, 4]),
     (51, to_be 2 69 @ [0, 0x17] @ to_be 2 65 @ [4] @ replicate 64 0)]"

definition demo_hello :: "extensions \<Rightarrow> bytes" where
  "demo_hello exts = hello_bytes [3, 1] (replicate 32 7) [] [0x13, 2] exts"

theorem profile_extends_posture_grammar_witness:
  "\<exists>h. validate_tls_client_hello (\<lambda>raw. []) (demo_hello (demo_extensions @ [(27, [4, 0, 1, 0, 3])])) = Inr h
    \<and> ch_types h = [0, 10, 13, 27, 43, 51]"
proof -
  obtain h' where h': "validate_client_hello (\<lambda>raw. []) (demo_hello demo_extensions) ''tls1_3'' False = Inr h'"
    "ch_types h' = [0, 10, 13, 43, 51]"
    by (rule that [of "projr (validate_client_hello (\<lambda>raw. []) (demo_hello demo_extensions) ''tls1_3'' False)"]) code_simp+
  have "hello_sized [3, 1] (replicate 32 7) [] [0x13, 2] (demo_extensions @ (27, [4, 0, 1, 0, 3]) # [])" by code_simp
  then have "validate_tls_client_hello (\<lambda>raw. []) (demo_hello (demo_extensions @ [(27, [4, 0, 1, 0, 3])]))
      = Inr (h'\<lparr>ch_types := sort (27 # ch_types h'), ch_digest := []\<rparr>)"
    unfolding profile_extends_posture_grammar [THEN conjunct1] demo_hello_def
    using h'(1) unfolding demo_hello_def by (intro disjI2 exI [of _ "[]"] exI) auto
  then show ?thesis using h'(2) by (intro exI) auto
qed

section \<open>Record order\<close>

lemma remaining_alerted: "remaining_loop alert c e True rs = Inr x \<Longrightarrow> rs = [] \<and> x = (e, True)"
  by (cases rs) auto

definition ccs_record :: "tls_record \<Rightarrow> bool" where
  "ccs_record r \<longleftrightarrow> rec_kind r = 20 \<and> rec_body r = [1]"

definition data_record :: "tls_record \<Rightarrow> bool" where
  "data_record r \<longleftrightarrow> rec_kind r = 23 \<and> 17 \<le> length (rec_body r)"

lemma remaining_order:
  "remaining_loop alert c e False rs = Inr (encrypted, alerted) \<Longrightarrow>
    \<exists>pre data post. rs = pre @ data @ post \<and> list_all ccs_record pre \<and> length pre \<le> (if c \<or> e then 0 else 1) \<and>
      list_all data_record data \<and> (encrypted \<longleftrightarrow> e \<or> data \<noteq> []) \<and>
      (if alerted then data = [] \<and> map rec_raw post = [the alert] \<and> alert \<noteq> None \<and> \<not> e else post = []) \<and>
      (alert \<noteq> None \<longrightarrow> data = [])"
proof (induction rs arbitrary: c e)
  case Nil
  then show ?case by (intro exI [of _ "[]"]) auto
next
  case (Cons r rs)
  consider (ccs) "ccs_record r" "\<not> c" "\<not> e" "remaining_loop alert True e False rs = Inr (encrypted, alerted)"
    | (alert) "alert = Some (rec_raw r)" "\<not> e" "rs = []" "encrypted = e" "alerted"
    | (data) "data_record r" "alert = None" "remaining_loop alert c True False rs = Inr (encrypted, alerted)"
    using Cons.prems by (auto simp: ccs_record_def data_record_def split: if_splits dest: remaining_alerted)
  then show ?case
  proof cases
    case ccs
    from Cons.IH [OF ccs(4)] obtain data post where
      "rs = data @ post" "list_all data_record data" "encrypted \<longleftrightarrow> e \<or> data \<noteq> []"
      "if alerted then data = [] \<and> map rec_raw post = [the alert] \<and> alert \<noteq> None \<and> \<not> e else post = []"
      "alert \<noteq> None \<longrightarrow> data = []" by auto
    with ccs show ?thesis by (intro exI [of _ "[r]"] exI [of _ data] exI [of _ post]) auto
  next
    case alert
    then show ?thesis by (intro exI [of _ "[]"] exI [of _ "[]"] exI [of _ "[r]"]) auto
  next
    case data
    from Cons.IH [OF data(3)] obtain ds post where
      "rs = ds @ post" "list_all data_record ds" "encrypted" "\<not> alerted" "post = []" by (auto split: if_splits)
    with data show ?thesis by (intro exI [of _ "[]"] exI [of _ "r # ds"] exI [of _ "[]"]) auto
  qed
qed

text \<open>C39: after the hello a direction that passes the order check holds at most one change-cipher record, first,
  then either only encrypted records, or, where an alert is demanded, exactly that alert as the last record.\<close>

theorem tls_remaining_order:
  assumes "tls_remaining alert rs = Inr encrypted"
  shows "\<exists>pre data post. rs = pre @ data @ post \<and> list_all ccs_record pre \<and> length pre \<le> 1 \<and>
    list_all data_record data \<and> (encrypted \<longleftrightarrow> data \<noteq> []) \<and>
    (case alert of None \<Rightarrow> post = [] | Some a \<Rightarrow> data = [] \<and> map rec_raw post = [a])"
proof -
  from assms obtain alerted where run: "remaining_loop alert False False False rs = Inr (encrypted, alerted)"
    and alerted: "\<not> (alert \<noteq> None \<and> \<not> alerted)"
    by (auto simp: tls_remaining_def res_simps)
  from remaining_order [OF run] show ?thesis
  proof (elim exE conjE, intro exI conjI)
    fix pre data post
    assume post: "if alerted then data = [] \<and> map rec_raw post = [the alert] \<and> alert \<noteq> None \<and> \<not> False else post = []"
      and data: "alert \<noteq> None \<longrightarrow> data = []"
    show "case alert of None \<Rightarrow> post = [] | Some a \<Rightarrow> data = [] \<and> map rec_raw post = [a]"
      using post data alerted by (cases alert; cases alerted) simp_all
  qed simp_all
qed

definition demo_flight :: "tls_record list" where
  "demo_flight = [\<lparr>rec_kind = 20, rec_body = [1], rec_raw = [20, 3, 3, 0, 1, 1]\<rparr>,
    \<lparr>rec_kind = 21, rec_body = [2, 42], rec_raw = [0x15, 3, 3, 0, 2, 2, 42]\<rparr>]"

theorem tls_remaining_order_witness:
  "\<exists>pre post. demo_flight = pre @ post \<and> list_all ccs_record pre \<and> length pre \<le> 1 \<and>
    map rec_raw post = [[0x15, 3, 3, 0, 2, 2, 42]]"
proof -
  have "tls_remaining (Some [0x15, 3, 3, 0, 2, 2, 42]) demo_flight = Inr False" by code_simp
  from tls_remaining_order [OF this] show ?thesis by force
qed

end
