(* ===== verification/SshProps.thy ===== *)
theory SshProps
  imports SshPackets
begin

text \<open>
  Strings and packets round-trip, an accepted algorithm proposal is exactly the encoding of its
  ten lists, fragmentation delivers the original bytes, and unfaulted cases deliver them untouched.
\<close>

definition wire_string :: "bytes \<Rightarrow> bytes" where
  "wire_string s = to_be 4 (int (length s)) @ s"

lemma ssh_string_Inr: "ssh_string s = Inr w \<longleftrightarrow> int (length s) \<le> MAX_PACKET \<and> w = wire_string s"
  by (auto simp: ssh_string_def wire_string_def res_simps)

lemma be_length4: "int n < 4294967296 \<Longrightarrow> be (to_be 4 (int n)) = int n"
  by (rule be_to_be) simp_all

section \<open>Strings\<close>

text \<open>Reading a string from anywhere in a message gives back what was written there, and every string
  that is read is the one encoded at that place.\<close>

lemma take_string_exact:
  "take_string raw offset maximum = Inr (s, stop) \<longleftrightarrow>
    offset \<le> length raw \<and> int (length s) \<le> maximum \<and> int (length s) < 4294967296 \<and>
    stop = offset + 4 + length s \<and> stop \<le> length raw \<and> slice offset stop raw = wire_string s"
  (is "?l = ?r")
proof
  assume ?l
  then have len: "offset + 4 \<le> length raw"
    and size: "be (slice offset (offset + 4) raw) \<le> maximum"
      "int (offset + 4) + be (slice offset (offset + 4) raw) \<le> int (length raw)"
    and s: "s = slice (offset + 4) (offset + 4 + nat (be (slice offset (offset + 4) raw))) raw"
    and stop: "stop = offset + 4 + nat (be (slice offset (offset + 4) raw))"
    by (auto simp: take_string_def Let_def res_simps)
  define n where "n = nat (be (slice offset (offset + 4) raw))"
  have n: "int n = be (slice offset (offset + 4) raw)" using be_nonneg by (simp add: n_def)
  then have lens: "length s = n" using s size(2) len by (simp add: n_def [symmetric])
  have "be (slice offset (offset + 4) raw) < 256 ^ length (slice offset (offset + 4) raw)" by (rule be_upper)
  then have "int n < 4294967296" using len n by simp
  have "to_be 4 (int n) = slice offset (offset + 4) raw"
    using to_be_be [of "slice offset (offset + 4) raw"] len n by simp
  moreover have "slice offset (offset + 4 + n) raw
      = slice offset (offset + 4) raw @ slice (offset + 4) (offset + 4 + n) raw"
    by (rule slice_split) simp_all
  ultimately have "slice offset stop raw = wire_string s"
    using s stop lens by (simp add: wire_string_def n_def [symmetric] del: to_be.simps)
  with len size n lens stop \<open>int n < 4294967296\<close> show ?r by (simp add: n_def [symmetric])
next
  assume r: ?r
  moreover from r have "stop - offset = 4 + length s" by simp
  ultimately have whole: "take (4 + length s) (drop offset raw) = wire_string s"
    by (simp only: slice_def)
  have "take 4 (drop offset raw) = take 4 (take (4 + length s) (drop offset raw))" by simp
  also have "\<dots> = to_be 4 (int (length s))" unfolding whole by (simp add: wire_string_def del: to_be.simps)
  finally have "be (slice offset (offset + 4) raw) = int (length s)"
    using r be_length4 [of "length s"] by (simp add: slice_def del: to_be.simps)
  moreover have "slice (offset + 4) (offset + 4 + length s) raw = s"
  proof -
    have "drop 4 (take (4 + length s) (drop offset raw)) = s"
      unfolding whole by (simp add: wire_string_def del: to_be.simps)
    then show ?thesis by (simp add: slice_def drop_take add.commute)
  qed
  ultimately show ?l using r by (simp add: take_string_def Let_def)
qed

section \<open>Packets\<close>

lemma int_mod_8: "n mod 8 = 0 \<Longrightarrow> int n mod 8 = 0"
  by presburger

lemma padding_for_bounds: "4 \<le> padding_for n \<and> padding_for n \<le> 11 \<and> (n + 5 + padding_for n) mod 8 = 0"
proof -
  have "(n + 5) mod 8 < 8" by simp
  moreover have "(n + 5 + (8 - (n + 5) mod 8)) mod 8 = 0" by presburger
  moreover have "(n + 5 + (8 - (n + 5) mod 8 + 8)) mod 8 = 0" by presburger
  ultimately show ?thesis by (auto simp: padding_for_def Let_def)
qed

text \<open>C40: framing a non-empty payload gives a packet of whole 8-byte blocks with at least four bytes of
  padding, from which the payload is read back; only the size limit can refuse it.\<close>

theorem synthetic_packet_roundtrip:
  assumes "value \<noteq> []" and "int (length value) < 4294967000"
  shows "case synthetic_packet value of
      Inr raw \<Rightarrow> payload raw = Inr value \<and> length raw mod 8 = 0 \<and> length raw = length value + 5 + padding_for (length value)
    | Inl e \<Rightarrow> e = ''invalid_ssh_packet_size'' \<and> length value + 5 + padding_for (length value) > 8192"
proof -
  let ?p = "padding_for (length value)"
  let ?raw = "to_be 4 (int (length value + ?p + 1)) @ [word_of_nat ?p] @ value @ replicate ?p 0"
  note b = padding_for_bounds [of "length value"]
  have len: "length ?raw = length value + 5 + ?p" by simp
  have pad: "unat (byte_at ?raw 4) = ?p"
  proof -
    have "byte_at ?raw 4 = word_of_nat ?p" by (simp add: byte_at_def nth_append del: to_be.simps)
    moreover have "unat (word_of_nat ?p :: byte) = ?p"
      using b by (simp add: unsigned_of_nat take_bit_nat_eq_self_iff)
    ultimately show ?thesis by simp
  qed
  have cut: "slice 5 (length ?raw - ?p) ?raw = value"
    by (simp add: slice_def del: to_be.simps)
  show ?thesis
  proof (cases "length ?raw \<le> 8192")
    case True
    then have "be (take 4 ?raw) + 4 = int (length ?raw)"
      using be_length4 [of "length value + ?p + 1"] by (simp del: to_be.simps)
    moreover have "16 \<le> length ?raw" "int (length ?raw) mod 8 = 0"
    proof -
      have m: "length ?raw mod 8 = 0" using b len by (simp add: ac_simps)
      then show "int (length ?raw) mod 8 = 0" by (rule int_mod_8)
      have "10 \<le> length ?raw" using assms b len by (cases "value") simp_all
      with m show "16 \<le> length ?raw" by presburger
    qed
    ultimately have "packet_size ?raw = Inr (Some (int (length ?raw)))"
      using True by (simp add: packet_size_def Let_def MAX_PACKET_def del: to_be.simps)
    then have "payload ?raw = Inr value"
      using pad b cut len assms by (cases "value") (simp_all add: payload_def Let_def del: to_be.simps)
    moreover from this have "synthetic_packet value = Inr ?raw"
      using assms by (simp add: synthetic_packet_def Let_def del: to_be.simps)
    ultimately show ?thesis using b len by (simp add: ac_simps del: to_be.simps)
  next
    case False
    have "be (take 4 ?raw) + 4 = int (length ?raw)"
      using be_length4 [of "length value + ?p + 1"] b assms(2) by (simp del: to_be.simps)
    with False have "packet_size ?raw = Inl ''invalid_ssh_packet_size''"
      by (simp add: packet_size_def Let_def MAX_PACKET_def del: to_be.simps)
    then have "synthetic_packet value = Inl ''invalid_ssh_packet_size''"
      using assms(1) by (simp add: synthetic_packet_def payload_def Let_def del: to_be.simps)
    with False len show ?thesis by simp
  qed
qed

theorem synthetic_packet_roundtrip_witness:
  "payload (projr (synthetic_packet [21, 7])) = Inr [21, 7]"
proof -
  have "\<not> isl (synthetic_packet [21, 7])" by code_simp
  then obtain raw where "synthetic_packet [21, 7] = Inr raw" by (cases "synthetic_packet [21, 7]") auto
  with synthetic_packet_roundtrip [of "[21, 7]"] show ?thesis by simp
qed

section \<open>Proposals\<close>

lemma kexinit_fields_exact:
  "kexinit_fields value server index offset expected = Inr (fields, stop) \<Longrightarrow> offset \<le> length value \<Longrightarrow>
    slice offset stop value = concat (map wire_string fields) \<and> offset \<le> stop \<and> stop \<le> length value \<and>
    length fields = length expected \<and> list_all2 names_ok expected fields"
proof (induction expected arbitrary: index offset fields)
  case Nil
  then show ?case by (auto simp: slice_def)
next
  case (Cons required rest)
  then obtain names mid fs where
    s: "take_string value offset 4096 = Inr (names, mid)" and ok: "names_ok required names"
    and run: "kexinit_fields value server (index + 1) mid rest = Inr (fs, stop)" and fields: "fields = names # fs"
    by (auto simp: res_simps)
  from take_string_exact [THEN iffD1, OF s] have "offset \<le> mid" "mid \<le> length value"
    "slice offset mid value = wire_string names" by auto
  with Cons.IH [OF run] ok fields slice_split [of offset mid stop "value"] show ?case by auto
qed

text \<open>An accepted algorithm proposal is its seventeen-byte head, the encodings of exactly ten lists that
  each satisfy the profile, and five zero bytes: nothing else hides in the message.\<close>

theorem kexinit_exact:
  assumes "kexinit value configuration server = Inr fields"
  shows "value = take 17 value @ concat (map wire_string fields) @ replicate 5 0 \<and>
    list_all2 names_ok (expected_algorithms configuration) fields"
proof -
  from assms obtain offset where len: "22 \<le> length value"
    and run: "kexinit_fields value server 0 17 (expected_algorithms configuration) = Inr (fields, offset)"
    and tail: "drop offset value = replicate 5 0"
    by (auto simp: kexinit_def res_simps)
  from kexinit_fields_exact [OF run] len have
    "slice 17 offset value = concat (map wire_string fields)" "17 \<le> offset" "offset \<le> length value"
    "list_all2 names_ok (expected_algorithms configuration) fields" by auto
  moreover have "value = take offset value @ drop offset value" by simp
  moreover from calculation have "take offset value = take 17 value @ slice 17 offset value"
    using slice_split [of 0 17 offset "value"] by (simp add: slice_0)
  ultimately show ?thesis using tail by (metis append.assoc)
qed

definition demo_proposal :: bytes where
  "demo_proposal = [20] @ replicate 16 7 @ concat (map wire_string (expected_algorithms ''A'')) @ replicate 5 0"

theorem kexinit_exact_witness:
  "list_all2 names_ok (expected_algorithms ''A'') (expected_algorithms ''A'')"
proof -
  have "kexinit demo_proposal ''A'' True = Inr (expected_algorithms ''A'')" by code_simp
  from kexinit_exact [OF this] show ?thesis by simp
qed

section \<open>Delivery\<close>

lemma concat_cuts:
  "sorted (a # points) \<Longrightarrow> concat (cuts (a # points) raw) = slice a (last (a # points)) raw"
proof (induction points arbitrary: a)
  case (Cons b points)
  have "b \<le> last (b # points)" using Cons.prems by (cases points) auto
  with Cons show ?case using slice_split [of a b "last (b # points)" raw] by simp
qed (simp add: slice_def)

text \<open>A transformation that reports no fault delivers exactly the validated bytes, and the fragmented
  case delivers them too, only cut into pieces.\<close>

theorem transform_preserves_bytes:
  assumes "transform H stage raw configuration case_id = Inr (pieces, delayed, reason)"
    and "reason = ''unchanged'' \<or> reason = ''fragmented''" and "length raw \<ge> 8"
  shows "concat pieces = raw"
proof (cases "case_id = ''R2''")
  case True
  with assms(1) have p: "pieces = cuts (fragment_points stage (length raw)) raw"
    by (auto simp: transform_def res_simps)
  have "\<exists>ps. fragment_points stage (length raw) = 0 # ps \<and> sorted (0 # ps) \<and> last (0 # ps) = length raw"
    using assms(3) by (auto simp: fragment_points_def)
  then obtain ps where "fragment_points stage (length raw) = 0 # ps" "sorted (0 # ps)" "last (0 # ps) = length raw"
    by blast
  with p show ?thesis using concat_cuts [of 0 ps raw] by (simp add: slice_def)
next
  case False
  with assms(1) obtain changed where c: "changed_bytes H stage raw configuration case_id = Inr (changed, reason)"
    and pieces: "pieces = (if changed \<noteq> [] then [changed] else [])"
    by (auto simp: transform_def res_simps)
  from c assms(2) have "changed = raw"
    by (auto simp: changed_bytes_def res_simps split: if_splits)
  with pieces show ?thesis by auto
qed

theorem transform_preserves_bytes_witness:
  "concat [ascii ''S'', ascii ''SH-2.0-'', ascii ''OpenSSH_10.2p1'' @ CRLF] = ascii ''SSH-2.0-OpenSSH_10.2p1'' @ CRLF"
proof -
  have "transform (\<lambda>_. []) ''identification'' (ascii ''SSH-2.0-OpenSSH_10.2p1'' @ CRLF) ''A'' ''R2'' =
    Inr ([ascii ''S'', ascii ''SH-2.0-'', ascii ''OpenSSH_10.2p1'' @ CRLF], True, ''fragmented'')" by code_simp
  from transform_preserves_bytes [OF this] show ?thesis by (simp add: CRLF_def)
qed

end
