(* ===== verification/Spec2Isabelle.thy ===== *)
theory Spec2Isabelle
  imports CostLedgerProps RoutingProps EngagementProps DispatchStoreProps DispatchProps ConfigurableProps BoundaryProps
    AuthorityProps DnsProps TlsProps SshProps
begin

text \<open>
  A model of the deterministic core of recon-cockpit (\<open>src/recon_cockpit/secure_agent\<close>), a Python
  program that lets an untrusted planner propose network actions and decides itself what is run.

  \<^bold>\<open>The program.\<close> A planner or model provider, in another process, sends JSON texts. \<open>models.py\<close>
  reads them strictly (\<open>load_json\<close>), makes an \<open>Action\<close> of an adapter of \<open>tool_adapters.py\<close> with typed
  parameters (\<open>tool_parameters.py\<close>) and evaluates it against a \<open>Policy\<close>. \<open>controller.py\<close> is the only path
  from a proposal to an execution: it writes the durable audit, asks \<open>approvals.py\<close> for a grant
  where the policy wants one, and launches the backend. \<open>session.py\<close> drives the controller within
  step and output limits; \<open>control_plane.py\<close> serves the same session to a confined coordinator over
  a channel. Beside it stand ledgers that account for what was allowed: \<open>cost_ledger.py\<close> (money, a
  tree of budgets in SQLite), \<open>routing_ledger.py\<close> (the budgets of one disconnected run, in memory),
  \<open>engagement_store.py\<close> (rules of engagement with append-only revisions) and
  \<open>engagement_dispatch_store.py\<close> (the use of an engagement: sessions, reservations, completions; its
  slots are the plan of \<open>configurable_contract.py\<close>). \<open>name_tls_wire.py\<close>, \<open>tls_posture_hello.py\<close> and
  \<open>stock_ssh_packets.py\<close> check captured bytes.

  \<^bold>\<open>The theories\<close>, in the order they build on each other.
  \<^item> \<open>Prelude\<close> (error sums, lists, the step-relation locale), \<open>PyData\<close>, \<open>PyJson\<close>, \<open>PySort\<close> (Python values and
    \<open>json.dumps\<close>), \<open>Bytes\<close>, \<open>Effects\<close> (stateful code that may raise, with triples).
  \<^item> \<open>CostContract\<close>, \<open>CostLedger\<close>: \<open>cost_contract.py\<close>, \<open>cost_ledger.py\<close>; \<open>CostLedgerTree\<close> the tree of scopes,
    \<open>CostLedgerSafety\<close> the invariant and the step relation, \<open>CostLedgerProps\<close> the properties.
  \<^item> \<open>RoutingContract\<close>, \<open>RoutingLedger\<close>: \<open>routing_contract.py\<close>, \<open>routing_ledger.py\<close>; \<open>RoutingSafety\<close>,
    \<open>RoutingRuns\<close>, \<open>RoutingProps\<close>.
  \<^item> \<open>OperatorScope\<close>, \<open>EngagementContract\<close>, \<open>EngagementStore\<close>: \<open>configurable_scope.py\<close>,
    \<open>engagement_contract.py\<close>, \<open>engagement_store.py\<close>; \<open>EngagementValid\<close>, \<open>EngagementReplay\<close>, \<open>EngagementRoe\<close>
    (validators), \<open>EngagementRecord\<close> (the abstract record), \<open>EngagementRefine\<close>, \<open>EngagementRuns\<close>,
    \<open>EngagementProps\<close>.
  \<^item> \<open>IpNetwork\<close>, \<open>IpPrint\<close> (the standard library's \<open>ipaddress\<close>), \<open>JsonText\<close>, \<open>JsonRead\<close>, \<open>LoadJson\<close>
    (\<open>load_json\<close>), \<open>ToolParams\<close>, \<open>ToolRegistry\<close>: \<open>tool_parameters.py\<close>, \<open>tool_adapters.py\<close>;
    \<open>ActionModel\<close>: \<open>models.py\<close>; \<open>ActionFacts\<close>, \<open>PolicyFacts\<close>.
  \<^item> \<open>Approvals\<close>, \<open>ApprovalHistory\<close>: \<open>approvals.py\<close>; \<open>ControllerModel\<close>: \<open>controller.py\<close>, \<open>execution.py\<close>;
    \<open>SessionModel\<close>: \<open>session.py\<close>, \<open>session_limits.py\<close>, \<open>session_protocol.py\<close>; \<open>AuthorityModel\<close>:
    \<open>control_plane.py\<close>; \<open>ControllerSafety\<close>, \<open>SessionSafety\<close>, \<open>LaunchAuthority\<close>, \<open>AuthoritySafety\<close>,
    \<open>BoundaryDemo\<close>, \<open>BoundaryProps\<close>, \<open>AuthorityProps\<close>.
  \<^item> \<open>ConfigurablePlan\<close>, \<open>ConfigurableProps\<close>: \<open>configurable_contract.py\<close>.
  \<^item> \<open>DispatchContract\<close>, \<open>DispatchEngine\<close>, \<open>DispatchStore\<close>: \<open>engagement_dispatch_contract.py\<close>,
    \<open>engagement_dispatch_store.py\<close>; \<open>DispatchSafety\<close> to \<open>DispatchExact\<close> (rows, replay, sizes, which requests
    are accepted), \<open>DispatchTables\<close>, \<open>DispatchPersist\<close>, \<open>DispatchRuns\<close> (the tables and their runs),
    \<open>DispatchDemo\<close>, \<open>DispatchProps\<close>, \<open>DispatchStoreProps\<close>.
  \<^item> \<open>DnsWire\<close>, \<open>TlsWire\<close>: \<open>name_tls_wire.py\<close>, \<open>tls_posture_hello.py\<close>; \<open>TlsHello\<close>, \<open>DnsProps\<close>, \<open>TlsProps\<close>;
    \<open>SshPackets\<close>, \<open>SshProps\<close>: \<open>stock_ssh_packets.py\<close>.

  \<^bold>\<open>How the code is represented.\<close> A function that may raise returns a sum, the error (its public code) on
  the left. A method that changes its object also when it raises returns the new state beside the sum.
  SQLite tables are lists of rows in insertion order, a constraint is a guard that fails, and a
  transaction is a function of the tables. Untrusted values have the type \<open>pyval\<close>, validated ones
  are records. Dictionaries are association lists where the order or a repeated key matters.
  Integers are \<open>int\<close>, bytes are words of eight bits, times are integers in micro- or
  nanoseconds. What a call gets from its surroundings is an argument and may be anything: the
  clock, fresh identifiers and references, the outcome of file checks, of \<open>BEGIN\<close>, commit
  and rollback, of an audit write and of the backend, the answers of planner, provider, coordinator and
  review. SHA-256 is \<open>H\<close> and \<open>uuid5\<close> is \<open>U\<close>; \<open>json.loads\<close> of stored rows is \<open>loads\<close>; the text of an IPv6
  address is \<open>ip6\<close> and \<open>canon6\<close> in the DNS theories. Where a property needs one of them to behave as documented,
  it says so as a hypothesis and has a witness.

  \<^bold>\<open>What is proved.\<close> The boundary (\<open>BoundaryProps\<close>, \<open>AuthorityProps\<close>): launches are permitted, announced and covered
  by a grant, whoever drives the controller; limits hold; a failed audit write, a failed approval service and a
  failed channel close for good; an approval is used once, in time, for its action and policy, over any
  history of the store; parsing and printing agree, the decision is the policy, and \<open>load_json\<close> refuses what is
  ambiguous. The plan (\<open>ConfigurableProps\<close>) stays inside its policy. The dispatch ledger (\<open>DispatchProps\<close>,
  \<open>DispatchStoreProps\<close>) accepts exactly the admissible requests, its tables implement it, and its history is final.
  Money (\<open>CostLedgerProps\<close>): reservations fit every budget of their chain, a dispatch is claimed once, snapshots are
  computed from exactly the attempts below a scope, the parent walk returns. Routing (\<open>RoutingProps\<close>): budgets, the final
  stop, and replies that the client accepts. The engagement store (\<open>EngagementProps\<close>) refines an abstract record. Bytes
  (\<open>DnsProps\<close>, \<open>TlsProps\<close>, \<open>SshProps\<close>): parsers against validators, framing without loss, and the two ClientHello
  grammars against each other.

  \<^bold>\<open>Bounds and fuel.\<close> The readers of \<open>JsonText\<close> get the fuel \<open>2 * length + 2\<close>, and \<open>read_json_adequate\<close> shows that it
  never runs out. The query \<open>descendants\<close> is bounded by the number of scopes, and \<open>par_pow_length\<close> shows that no path
  is longer. The session loop runs over the at most 16 steps of its limits. A coordinator is a finite
  list of requests. All other recursions are structural or have a termination proof.

  \<^bold>\<open>What is not modelled.\<close> Of \<open>load_json\<close>: floating point numbers and escapes above \<open>\\u00ff\<close> (the reader answers
  \<open>unmodelled\<close>), \<open>bytes\<close> arguments, and the \<open>RecursionError\<close> of deeply nested texts; strings are over
  characters below 256. Of the controller: exceptions of an audit sink other than \<open>AuditUnavailable\<close>. Of sessions and
  authorities: the \<open>on_step\<close> callback, locks and concurrent exchanges, the outer deadline of a run. Of the stores:
  file descriptors, PRAGMAs, the deadlines inside validators (they appear as failures of a call), and the atomicity of
  SQLite, which is assumed: an error hands on no tables. Of \<open>validate_dns_semantic\<close>: the shape and type checks that the
  typed record absorbs. Of \<open>routing_ledger.py\<close>: the replay of saved snapshots. Of \<open>configurable_contract.py\<close>: the capability summary
  and the result checks. Not modelled at all: the graphical front end, the older command-line workbench, sandboxes, workers,
  transports, evidence files, parsers of scanner output, laboratories and evaluation runs. They are processes, sockets,
  files and third-party formats around this core.
\<close>

end
